(* ===== verification/Prelude.thy ===== *)
theory Prelude
  imports Main "HOL-Library.Word" "HOL-Library.AList" "HOL-Library.List_Lexorder"
    "HOL-Library.Sublist"
begin

section \<open>Prelude: bytes, Python exceptions, slices and dictionaries\<close>

text \<open>
  The vocabulary every component of the development shares.
  \<^item> A Python \<open>bytes\<close> object is a list of \<open>8 word\<close>; lists are ordered lexicographically
    (\<open>HOL-Library.List_Lexorder\<close>), as \<open>sorted\<close> and the key-value stores order byte strings.
  \<^item> A Python exception is a value of \<open>exn\<close>; an operation that can raise returns
    \<open>exn + 'a\<close> and is sequenced with \<open>bindE\<close>.
  \<^item> A dictionary is an association list with Python's insertion-order semantics: \<open>map_of\<close> looks
    a key up, \<open>AList.update\<close> is \<open>d[k] = v\<close> and \<open>AList.delete\<close> is \<open>d.pop(k, None)\<close>.
  The collection \<open>err_simps\<close> holds the rules that take a successful \<open>bindE\<close> apart,
  \<open>slice_simps\<close> those about slices of byte strings whose parts have known lengths.
\<close>

named_theorems err_simps \<open>rules that take a computation with errors apart\<close>
named_theorems slice_simps \<open>rules about slices of concatenations\<close>

type_synonym byte = "8 word"
type_synonym bytes = "byte list"

subsection \<open>Exceptions\<close>

datatype exn =
    AssertionError | IndexError | KeyError | ValueError | TypeError | OverflowError
  | StructError | FileNotFoundError | UnboundLocalError | RuntimeErr
  | AttributeError | ZeroDivisionError | Base58Error | ScriptError | EnumError | SkipTxDeserialize | CoinError
  | ChainError | DBError | DBSyncError

definition bindE :: "'e + 'a \<Rightarrow> ('a \<Rightarrow> 'e + 'b) \<Rightarrow> 'e + 'b" where
  "bindE m f = (case m of Inl e \<Rightarrow> Inl e | Inr x \<Rightarrow> f x)"

definition assertE :: "bool \<Rightarrow> exn + unit" where
  "assertE b = (if b then Inr () else Inl AssertionError)"

definition raise_if :: "bool \<Rightarrow> 'e \<Rightarrow> 'e + unit" where
  "raise_if b e = (if b then Inl e else Inr ())"

lemma bindE_simps [simp]:
  "bindE (Inl e) f = Inl e"
  "bindE (Inr x) f = f x"
  by (simp_all add: bindE_def)

lemma bindE_Inr_iff [err_simps]:
  "bindE m f = Inr y \<longleftrightarrow> (\<exists>x. m = Inr x \<and> f x = Inr y)"
  by (cases m) auto

lemma bindE_Inl_iff:
  "bindE m f = Inl e \<longleftrightarrow> m = Inl e \<or> (\<exists>x. m = Inr x \<and> f x = Inl e)"
  by (cases m) auto

lemma bindE_assoc: "bindE (bindE m f) g = bindE m (\<lambda>x. bindE (f x) g)"
  by (cases m) auto

lemma bindE_cong [fundef_cong]:
  "m = m' \<Longrightarrow> (\<And>x. m' = Inr x \<Longrightarrow> f x = g x) \<Longrightarrow> bindE m f = bindE m' g"
  by (cases m') auto

lemma bindE_id [simp]: "bindE m Inr = m"
  by (cases m) auto

lemma assertE_simps [simp, err_simps]:
  "assertE b = Inr u \<longleftrightarrow> b"
  "assertE b = Inl e \<longleftrightarrow> \<not> b \<and> e = AssertionError"
  by (auto simp: assertE_def)

lemma assertE_True [simp]: "assertE True = Inr ()"
  by (simp add: assertE_def)

lemma assertE_False [simp]: "assertE False = Inl AssertionError"
  by (simp add: assertE_def)

lemma raise_if_simps [simp, err_simps]:
  "raise_if b e = Inr u \<longleftrightarrow> \<not> b"
  "raise_if b e = Inl e' \<longleftrightarrow> b \<and> e' = e"
  by (auto simp: raise_if_def)

lemma raise_if_True [simp]: "raise_if True e = Inl e"
  by (simp add: raise_if_def)

lemma raise_if_False [simp]: "raise_if False e = Inr ()"
  by (simp add: raise_if_def)

text \<open>\<open>mapE f xs\<close> is the list comprehension \<open>[f(x) for x in xs]\<close>, \<open>foldE\<close> a loop over a list
  that threads a state; both stop at the first exception.\<close>

primrec mapE :: "('a \<Rightarrow> 'e + 'b) \<Rightarrow> 'a list \<Rightarrow> 'e + 'b list" where
  "mapE f [] = Inr []"
| "mapE f (x # xs) = bindE (f x) (\<lambda>y. bindE (mapE f xs) (\<lambda>ys. Inr (y # ys)))"

primrec foldE :: "('a \<Rightarrow> 's \<Rightarrow> 'e + 's) \<Rightarrow> 'a list \<Rightarrow> 's \<Rightarrow> 'e + 's" where
  "foldE f [] s = Inr s"
| "foldE f (x # xs) s = bindE (f x s) (foldE f xs)"

lemma mapE_length [err_simps]: "mapE f xs = Inr ys \<Longrightarrow> length ys = length xs"
  by (induction xs arbitrary: ys) (auto simp: err_simps)

lemma mapE_Inr: "(\<And>x. x \<in> set xs \<Longrightarrow> f x = Inr (g x)) \<Longrightarrow> mapE f xs = Inr (map g xs)"
  by (induction xs) auto

lemma foldE_append: "foldE f (xs @ ys) s = bindE (foldE f xs s) (foldE f ys)"
proof (induction xs arbitrary: s)
  case (Cons x xs)
  then show ?case by (cases "f x s") auto
qed simp

lemma foldE_invariant:
  "foldE f xs s = Inr t \<Longrightarrow> P s \<Longrightarrow>
   (\<And>x s s'. x \<in> set xs \<Longrightarrow> P s \<Longrightarrow> f x s = Inr s' \<Longrightarrow> P s') \<Longrightarrow> P t"
proof (induction xs arbitrary: s)
  case Nil
  then show ?case by simp
next
  case (Cons x xs)
  from Cons.prems(1) obtain s' where s': "f x s = Inr s'" and r: "foldE f xs s' = Inr t"
    by (auto simp: err_simps)
  have "P s'" using Cons.prems(3) [of x s s'] Cons.prems(2) s' by simp
  from Cons.IH [OF r this] Cons.prems(3) show ?case by (meson list.set_intros(2))
qed

subsection \<open>Slices\<close>

text \<open>\<open>slice xs a b\<close> is \<open>xs[a:b]\<close> for \<open>a, b\<close> at least 0, and \<open>suffix_of n xs\<close> is
  \<open>xs[-n:]\<close> for \<open>n\<close> above 0: both are clipped at the ends of the list.\<close>

definition slice :: "'a list \<Rightarrow> nat \<Rightarrow> nat \<Rightarrow> 'a list" where
  "slice xs a b = take (b - a) (drop a xs)"

definition suffix_of :: "nat \<Rightarrow> 'a list \<Rightarrow> 'a list" where
  "suffix_of n xs = drop (length xs - n) xs"

definition butsuffix :: "nat \<Rightarrow> 'a list \<Rightarrow> 'a list" where
  "butsuffix n xs = take (length xs - n) xs"

lemma take_eq_append [slice_simps]: "length xs = n \<Longrightarrow> take n (xs @ ys) = xs"
  by simp

lemma drop_eq_append [slice_simps]: "length xs = n \<Longrightarrow> drop n (xs @ ys) = ys"
  by simp

lemma suffix_of_append [slice_simps]: "length ys = n \<Longrightarrow> suffix_of n (xs @ ys) = ys"
  by (simp add: suffix_of_def)

lemma butsuffix_append [slice_simps]: "length ys = n \<Longrightarrow> butsuffix n (xs @ ys) = xs"
  by (simp add: butsuffix_def)

lemma slice_append [slice_simps]:
  "length xs = a \<Longrightarrow> length ys = b - a \<Longrightarrow> a \<le> b \<Longrightarrow> slice (xs @ ys @ zs) a b = ys"
  by (simp add: slice_def)

lemma length_slice [simp]: "length (slice xs a b) = min (b - a) (length xs - a)"
  by (simp add: slice_def)

lemma length_suffix_of [simp]: "length (suffix_of n xs) = min n (length xs)"
  by (simp add: suffix_of_def)

lemma butsuffix_suffix: "butsuffix n xs @ suffix_of n xs = xs"
  by (simp add: butsuffix_def suffix_of_def)

subsection \<open>Dictionaries\<close>

text \<open>\<open>AList.update\<close> writes in place or appends; the keys stay distinct.\<close>

lemma map_of_update_eq [simp]: "map_of (AList.update k v d) = (map_of d)(k \<mapsto> v)"
  by (rule update_conv')

lemma map_of_delete_eq [simp]: "map_of (AList.delete k d) = (map_of d)(k := None)"
  by (rule delete_conv')

lemma distinct_keys_update: "distinct (map fst d) \<Longrightarrow> distinct (map fst (AList.update k v d))"
  by (rule distinct_update)

lemma distinct_keys_delete: "distinct (map fst d) \<Longrightarrow> distinct (map fst (AList.delete k d))"
  by (rule distinct_delete)

lemma set_update_subset: "set (AList.update k v u) \<subseteq> insert (k, v) (set u)"
  by (induction u) auto

end
