(* ===== verification/PyUtil.thy ===== *)
theory PyUtil
  imports Prelude
begin

section \<open>Utilities (lib/util.py)\<close>

text \<open>
  The pure functions of \<open>lib/util.py\<close>: chunking, big-endian integers, the \<open>struct\<close> packers
  and unpackers, variable-length integers, and protocol version negotiation.
  \<open>le_encode k n\<close> and \<open>le_decode\<close> are the little-endian byte representation the \<open>struct\<close>
  formats share; \<open>struct.error\<close> is the exception \<open>StructError\<close>. Logging helpers, the event-loop
  monkey patches and \<open>deep_getsizeof\<close> are not modelled.
\<close>

subsection \<open>Chunks and limits\<close>

text \<open>\<open>chunks\<close> is only called with a positive size.\<close>

function chunks :: "'a list \<Rightarrow> nat \<Rightarrow> 'a list list" where
  "chunks items sz =
     (if items = [] \<or> sz = 0 then [] else take sz items # chunks (drop sz items) sz)"
  by pat_completeness auto
termination
  by (relation "measure (\<lambda>(items, sz). length items)") auto

declare chunks.simps [simp del]

lemma chunks_Nil [simp]: "chunks [] n = []"
  by (simp add: chunks.simps)

lemma chunks_step: "xs \<noteq> [] \<Longrightarrow> 0 < n \<Longrightarrow> chunks xs n = take n xs # chunks (drop n xs) n"
  by (subst chunks.simps) simp

lemma concat_chunks: "0 < n \<Longrightarrow> concat (chunks xs n) = xs"
proof (induction xs n rule: chunks.induct)
  case (1 xs n)
  then show ?case by (cases "xs = []") (auto simp: chunks_step)
qed

lemma chunks_append:
  "0 < n \<Longrightarrow> length xs mod n = 0 \<Longrightarrow> chunks (xs @ ys) n = chunks xs n @ chunks ys n"
proof (induction xs n rule: chunks.induct)
  case (1 xs n)
  show ?case
  proof (cases "xs = []")
    case False
    with 1(3) have le: "n \<le> length xs"
      by (metis length_greater_0_conv mod_less not_less less_nat_zero_code)
    then have "length (drop n xs) mod n = 0" using 1(3) by (simp add: le_mod_geq)
    with 1 False le show ?thesis by (simp add: chunks_step)
  qed simp
qed

lemma chunks_single: "length xs = n \<Longrightarrow> 0 < n \<Longrightarrow> chunks xs n = [xs]"
  by (subst chunks_step) auto

lemma chunks_concat:
  "0 < n \<Longrightarrow> (\<And>x. x \<in> set xss \<Longrightarrow> length x = n) \<Longrightarrow> chunks (concat xss) n = xss"
proof (induction xss)
  case (Cons x xss)
  then have "chunks (x @ concat xss) n = chunks x n @ chunks (concat xss) n"
    by (intro chunks_append) auto
  with Cons show ?case by (simp add: chunks_single)
qed simp

lemma length_chunks: "0 < n \<Longrightarrow> length (chunks xs n) = (length xs + n - 1) div n"
proof (induction xs n rule: chunks.induct)
  case (1 xs n)
  show ?case
  proof (cases "xs = []")
    case False
    have "length (chunks xs n) = Suc ((length xs - n + n - 1) div n)"
      using 1 False by (simp add: chunks_step)
    also have "\<dots> = Suc ((length xs - 1) div n)"
      using 1(2) by (cases "n \<le> length xs") (simp_all del: One_nat_def)
    also have "\<dots> = (n + (length xs - 1)) div n" using 1(2) by (simp add: div_add_self1)
    also have "n + (length xs - 1) = length xs + n - 1" using False by (cases xs) auto
    finally show ?thesis .
  qed (use 1 in simp)
qed

lemma chunks_lengths:
  "0 < n \<Longrightarrow> length xs mod n = 0 \<Longrightarrow> c \<in> set (chunks xs n) \<Longrightarrow> length c = n"
proof (induction xs n rule: chunks.induct)
  case (1 xs n)
  have ne: "xs \<noteq> []" using 1(4) by auto
  with 1(3) have le: "n \<le> length xs"
    by (metis length_greater_0_conv mod_less not_less less_nat_zero_code)
  with 1(3) have "length (drop n xs) mod n = 0" by (simp add: le_mod_geq)
  with 1 ne le show ?case by (auto simp: chunks_step)
qed

definition resolve_limit :: "int option \<Rightarrow> int" where
  "resolve_limit limit = (case limit of None \<Rightarrow> -1 | Some l \<Rightarrow> if l < 0 then -1 else l)"

subsection \<open>Little- and big-endian integers\<close>

primrec le_encode :: "nat \<Rightarrow> nat \<Rightarrow> bytes" where
  "le_encode 0 n = []"
| "le_encode (Suc k) n = of_nat (n mod 256) # le_encode k (n div 256)"

primrec le_decode :: "bytes \<Rightarrow> nat" where
  "le_decode [] = 0"
| "le_decode (b # bs) = unat b + 256 * le_decode bs"

lemma length_le_encode [simp]: "length (le_encode k n) = k"
  by (induction k arbitrary: n) auto

lemma unat_of_nat_mod256: "unat (of_nat (n mod 256) :: byte) = n mod 256"
  by (simp add: unat_of_nat)

lemma le_decode_encode_mod: "le_decode (le_encode k n) = n mod 256 ^ k"
proof (induction k arbitrary: n)
  case (Suc k)
  show ?case
    by (simp add: Suc unat_of_nat_mod256 mod_mult2_eq [of n 256 "256 ^ k"] mult.commute)
qed simp

lemma le_decode_encode [simp]: "n < 256 ^ k \<Longrightarrow> le_decode (le_encode k n) = n"
  by (simp add: le_decode_encode_mod)

lemma le_decode_bound: "le_decode bs < 256 ^ length bs"
proof (induction bs)
  case (Cons b bs)
  have "unat b < 256" using unsigned_less [of b] by simp
  with Cons show ?case by simp
qed simp

lemma le_encode_decode [simp]: "length bs = k \<Longrightarrow> le_encode k (le_decode bs) = bs"
proof (induction bs arbitrary: k)
  case (Cons b bs)
  have "unat b < 256" using unsigned_less [of b] by simp
  then have "(unat b + 256 * le_decode bs) mod 256 = unat b"
    and "(unat b + 256 * le_decode bs) div 256 = le_decode bs" by auto
  with Cons show ?case by auto
qed simp

lemma le_decode_inj: "length a = length b \<Longrightarrow> le_decode a = le_decode b \<Longrightarrow> a = b"
  by (metis le_encode_decode)

lemma le_decode_append: "le_decode (xs @ ys) = le_decode xs + 256 ^ length xs * le_decode ys"
  by (induction xs) (auto simp: algebra_simps)

lemma le_decode_zeros [simp]: "le_decode (replicate k 0) = 0"
  by (induction k) auto

lemma le_decode_pad [simp]: "le_decode (xs @ replicate k 0) = le_decode xs"
  by (simp add: le_decode_append)

lemma take_le_encode: "k \<le> j \<Longrightarrow> take k (le_encode j n) = le_encode k n"
proof (induction j arbitrary: k n)
  case (Suc j)
  then show ?case by (cases k) auto
qed simp

definition be_encode :: "nat \<Rightarrow> nat \<Rightarrow> bytes" where
  "be_encode k n = rev (le_encode k n)"

definition be_decode :: "bytes \<Rightarrow> nat" where
  "be_decode bs = le_decode (rev bs)"

lemma length_be_encode [simp]: "length (be_encode k n) = k"
  by (simp add: be_encode_def)

lemma be_decode_encode [simp]: "n < 256 ^ k \<Longrightarrow> be_decode (be_encode k n) = n"
  by (simp add: be_encode_def be_decode_def)

lemma be_encode_decode [simp]: "length bs = k \<Longrightarrow> be_encode k (be_decode bs) = bs"
  by (simp add: be_encode_def be_decode_def)

lemma be_decode_bound: "be_decode bs < 256 ^ length bs"
  using le_decode_bound [of "rev bs"] by (simp add: be_decode_def)

lemma be_decode_append: "be_decode (xs @ ys) = be_decode xs * 256 ^ length ys + be_decode ys"
  by (simp add: be_decode_def le_decode_append algebra_simps)

lemma be_decode_Nil [simp]: "be_decode [] = 0"
  by (simp add: be_decode_def)

lemma be_decode_Cons: "be_decode (b # bs) = unat b * 256 ^ length bs + be_decode bs"
  using be_decode_append [of "[b]" bs] by (simp add: be_decode_def)

definition bytes_to_int :: "bytes \<Rightarrow> nat" where
  "bytes_to_int be_bytes = be_decode be_bytes"

text \<open>\<open>int.bit_length\<close>; \<open>to_bytes\<close> is \<open>int.to_bytes(length, 'big')\<close>.\<close>

fun bit_length :: "nat \<Rightarrow> nat" where
  "bit_length n = (if n = 0 then 0 else Suc (bit_length (n div 2)))"

declare bit_length.simps [simp del]

definition to_bytes :: "nat \<Rightarrow> nat \<Rightarrow> exn + bytes" where
  "to_bytes value k = (if value < 256 ^ k then Inr (be_encode k value) else Inl OverflowError)"

definition int_to_bytes :: "nat \<Rightarrow> exn + bytes" where
  "int_to_bytes value = to_bytes value ((bit_length value + 7) div 8)"

lemma bit_length_0 [simp]: "bit_length 0 = 0"
  by (simp add: bit_length.simps)

lemma bit_length_pos: "0 < n \<Longrightarrow> 0 < bit_length n"
  by (subst bit_length.simps) simp

lemma bit_length_bound: "n < 2 ^ bit_length n"
proof (induction n rule: bit_length.induct)
  case (1 n)
  show ?case
  proof (cases "n = 0")
    case False
    then have "n div 2 < 2 ^ bit_length (n div 2)" using 1 by simp
    with False show ?thesis by (subst bit_length.simps) simp
  qed simp
qed

lemma bit_length_ge: "0 < n \<Longrightarrow> 2 ^ (bit_length n - 1) \<le> n"
proof (induction n rule: bit_length.induct)
  case (1 n)
  show ?case
  proof (cases "n div 2 = 0")
    case True
    with 1(2) have "n = 1" by linarith
    then show ?thesis by (simp add: bit_length.simps)
  next
    case False
    then have IH: "2 ^ (bit_length (n div 2) - 1) \<le> n div 2" using 1 by simp
    have "0 < bit_length (n div 2)" using False by (subst bit_length.simps) simp
    then have "2 ^ bit_length (n div 2) = 2 * (2::nat) ^ (bit_length (n div 2) - 1)"
      by (cases "bit_length (n div 2)") auto
    with IH have "2 ^ bit_length (n div 2) \<le> n" by linarith
    with 1(2) show ?thesis by (subst bit_length.simps) simp
  qed
qed

lemma int_to_bytes_fits: "value < 256 ^ ((bit_length value + 7) div 8)"
proof -
  have "value < 2 ^ bit_length value" by (rule bit_length_bound)
  also have "\<dots> \<le> (2::nat) ^ (8 * ((bit_length value + 7) div 8))"
    by (rule power_increasing) auto
  also have "\<dots> = 256 ^ ((bit_length value + 7) div 8)" by (simp add: power_mult)
  finally show ?thesis .
qed

lemma int_to_bytes_Inr: "int_to_bytes v = Inr (be_encode ((bit_length v + 7) div 8) v)"
  using int_to_bytes_fits [of v] by (simp add: int_to_bytes_def to_bytes_def)

text \<open>\<open>None\<close> is returned where \<open>to_bytes\<close> raises \<open>OverflowError\<close>.\<close>

definition increment_byte_string :: "bytes \<Rightarrow> bytes option" where
  "increment_byte_string bs =
     (case to_bytes (be_decode bs + 1) (length bs) of Inl _ \<Rightarrow> None | Inr bs' \<Rightarrow> Some bs')"

lemma be_decode_inj: "length a = length b \<Longrightarrow> be_decode a = be_decode b \<Longrightarrow> a = b"
  by (metis be_encode_decode)

lemma increment_byte_string_Some:
  "increment_byte_string bs = Some bs' \<longleftrightarrow>
     length bs' = length bs \<and> be_decode bs' = be_decode bs + 1"
proof -
  have "be_decode bs' < 256 ^ length bs'" by (rule be_decode_bound)
  then show ?thesis
    by (auto simp: increment_byte_string_def to_bytes_def split: sum.splits if_splits
        intro: be_decode_inj)
qed

text \<open>On byte strings of one length the lexicographic order is the order of the numbers.\<close>

lemma be_decode_less_iff:
  "length xs = length ys \<Longrightarrow> xs < ys \<longleftrightarrow> be_decode xs < be_decode ys"
proof (induction xs ys rule: list_induct2)
  case (Cons x xs y ys)
  have bx: "be_decode xs < 256 ^ length ys" and by': "be_decode ys < 256 ^ length ys"
    using be_decode_bound [of xs] be_decode_bound [of ys] Cons.hyps by auto
  have lt: "unat a * 256 ^ length ys + u < unat b * 256 ^ length ys + w"
    if "a < b" "u < 256 ^ length ys" for a b :: byte and u w :: nat
  proof -
    have "Suc (unat a) * 256 ^ length ys \<le> unat b * 256 ^ length ys"
      using that(1) by (intro mult_le_mono1) (simp add: word_less_nat_alt)
    with that(2) show ?thesis by simp
  qed
  show ?case
  proof (cases x y rule: linorder_cases)
    case less
    from lt [OF this bx] show ?thesis using less Cons.hyps by (simp add: be_decode_Cons)
  next
    case equal
    then show ?thesis using Cons by (simp add: be_decode_Cons)
  next
    case greater
    from lt [OF this by', of "be_decode xs"] show ?thesis
      using greater Cons.hyps by (auto simp: be_decode_Cons)
  qed
qed simp

lemma le_append_right: "xs \<le> xs @ (ys :: 'a::linorder list)"
  by (induction xs) auto

lemma less_append_iff:
  "length xs = length (ys :: 'a::linorder list) \<Longrightarrow> xs @ zs < ys \<longleftrightarrow> xs < ys"
  by (induction xs ys rule: list_induct2) auto

lemma le_append_iff:
  "length xs = length (ys :: 'a::linorder list) \<Longrightarrow> xs \<le> ys @ zs \<longleftrightarrow> xs \<le> ys"
  by (induction xs ys rule: list_induct2) auto

lemma short_le_prefix:
  "length k < length (p :: 'a::linorder list) \<Longrightarrow> p \<le> k \<Longrightarrow> take (length k) p < k"
proof (induction k arbitrary: p)
  case Nil
  then show ?case by (cases p) auto
next
  case (Cons a k)
  then show ?case by (cases p) auto
qed

subsection \<open>The struct formats\<close>

text \<open>
  Packing an integer outside the format's range raises \<open>struct.error\<close>; unpacking needs exactly
  the right number of bytes, and \<open>unpack_from\<close> at least that many after the offset.
\<close>

definition pack_le_unsigned :: "nat \<Rightarrow> int \<Rightarrow> exn + bytes" where
  "pack_le_unsigned k n =
     (if 0 \<le> n \<and> n < 256 ^ k then Inr (le_encode k (nat n)) else Inl StructError)"

definition pack_le_signed :: "nat \<Rightarrow> int \<Rightarrow> exn + bytes" where
  "pack_le_signed k n =
     (if - (256 ^ k) \<le> 2 * n \<and> 2 * n < 256 ^ k
      then Inr (le_encode k (nat (n mod 256 ^ k))) else Inl StructError)"

definition pack_be_unsigned :: "nat \<Rightarrow> int \<Rightarrow> exn + bytes" where
  "pack_be_unsigned k n =
     (if 0 \<le> n \<and> n < 256 ^ k then Inr (be_encode k (nat n)) else Inl StructError)"

definition to_signed :: "nat \<Rightarrow> nat \<Rightarrow> int" where
  "to_signed k n = (if 2 * int n < 256 ^ k then int n else int n - 256 ^ k)"

definition unpack_le_unsigned :: "nat \<Rightarrow> bytes \<Rightarrow> exn + nat" where
  "unpack_le_unsigned k b = (if length b = k then Inr (le_decode b) else Inl StructError)"

definition unpack_be_unsigned :: "nat \<Rightarrow> bytes \<Rightarrow> exn + nat" where
  "unpack_be_unsigned k b = (if length b = k then Inr (be_decode b) else Inl StructError)"

definition unpack_le_unsigned_from :: "nat \<Rightarrow> bytes \<Rightarrow> nat \<Rightarrow> exn + nat" where
  "unpack_le_unsigned_from k b offset =
     (if offset + k \<le> length b then Inr (le_decode (slice b offset (offset + k)))
      else Inl StructError)"

definition unpack_be_unsigned_from :: "nat \<Rightarrow> bytes \<Rightarrow> nat \<Rightarrow> exn + nat" where
  "unpack_be_unsigned_from k b offset =
     (if offset + k \<le> length b then Inr (be_decode (slice b offset (offset + k)))
      else Inl StructError)"

definition unpack_le_signed_from :: "nat \<Rightarrow> bytes \<Rightarrow> nat \<Rightarrow> exn + int" where
  "unpack_le_signed_from k b offset =
     bindE (unpack_le_unsigned_from k b offset) (\<lambda>n. Inr (to_signed k n))"

definition pack_byte :: "int \<Rightarrow> exn + bytes" where "pack_byte = pack_le_unsigned 1"
definition pack_le_int32 :: "int \<Rightarrow> exn + bytes" where "pack_le_int32 = pack_le_signed 4"
definition pack_le_int64 :: "int \<Rightarrow> exn + bytes" where "pack_le_int64 = pack_le_signed 8"
definition pack_le_uint16 :: "int \<Rightarrow> exn + bytes" where "pack_le_uint16 = pack_le_unsigned 2"
definition pack_le_uint32 :: "int \<Rightarrow> exn + bytes" where "pack_le_uint32 = pack_le_unsigned 4"
definition pack_le_uint64 :: "int \<Rightarrow> exn + bytes" where "pack_le_uint64 = pack_le_unsigned 8"
definition pack_be_uint16 :: "int \<Rightarrow> exn + bytes" where "pack_be_uint16 = pack_be_unsigned 2"
definition pack_be_uint32 :: "int \<Rightarrow> exn + bytes" where "pack_be_uint32 = pack_be_unsigned 4"

lemmas pack_defs = pack_byte_def pack_le_int32_def pack_le_int64_def pack_le_uint16_def
  pack_le_uint32_def pack_le_uint64_def pack_be_uint16_def pack_be_uint32_def
  pack_le_unsigned_def pack_le_signed_def pack_be_unsigned_def

lemma pack_le_unsigned_Inr [err_simps]:
  "pack_le_unsigned k n = Inr b \<longleftrightarrow> 0 \<le> n \<and> n < 256 ^ k \<and> b = le_encode k (nat n)"
  by (auto simp: pack_le_unsigned_def)

lemma pack_be_unsigned_Inr [err_simps]:
  "pack_be_unsigned k n = Inr b \<longleftrightarrow> 0 \<le> n \<and> n < 256 ^ k \<and> b = be_encode k (nat n)"
  by (auto simp: pack_be_unsigned_def)

lemma to_signed_mod:
  "- (256 ^ k) \<le> 2 * n \<Longrightarrow> 2 * n < 256 ^ k \<Longrightarrow> to_signed k (nat (n mod 256 ^ k)) = n"
proof (cases "0 \<le> n")
  case True
  moreover assume "2 * n < 256 ^ k"
  ultimately show ?thesis by (simp add: to_signed_def nat_less_iff)
next
  case False
  assume b: "- (256 ^ k) \<le> 2 * n"
  have "n mod 256 ^ k = (n + 256 ^ k) mod 256 ^ k" by simp
  also have "\<dots> = n + 256 ^ k" using False b by (intro mod_pos_pos_trivial) auto
  finally show ?thesis using False b by (auto simp: to_signed_def nat_less_iff)
qed

lemma slice_mid: "length xs = a \<Longrightarrow> length ys = k \<Longrightarrow> slice (xs @ ys @ zs) a (a + k) = ys"
  by (simp add: slice_def)

lemma unpack_le_unsigned_from_at:
  "n < 256 ^ k \<Longrightarrow> unpack_le_unsigned_from k (pre @ le_encode k n @ post) (length pre) = Inr n"
  by (simp add: unpack_le_unsigned_from_def slice_mid)

lemma unpack_le_signed_from_at:
  assumes "- (256 ^ k) \<le> 2 * n" "2 * n < 256 ^ k"
  shows "unpack_le_signed_from k (pre @ le_encode k (nat (n mod 256 ^ k)) @ post) (length pre) = Inr n"
proof -
  have "nat (n mod 256 ^ k) < 256 ^ k" by (simp add: nat_less_iff)
  with to_signed_mod [OF assms] show ?thesis
    by (simp add: unpack_le_signed_from_def unpack_le_unsigned_from_at)
qed

subsection \<open>Variable-length integers\<close>

definition pack_varint :: "int \<Rightarrow> exn + bytes" where
  "pack_varint n =
     (if n < 253 then pack_byte n
      else if n < 65536 then bindE (pack_byte 253) (\<lambda>a. bindE (pack_le_uint16 n) (\<lambda>b. Inr (a @ b)))
      else if n < 4294967296
      then bindE (pack_byte 254) (\<lambda>a. bindE (pack_le_uint32 n) (\<lambda>b. Inr (a @ b)))
      else bindE (pack_byte 255) (\<lambda>a. bindE (pack_le_uint64 n) (\<lambda>b. Inr (a @ b))))"

definition pack_varbytes :: "bytes \<Rightarrow> exn + bytes" where
  "pack_varbytes data = bindE (pack_varint (int (length data))) (\<lambda>p. Inr (p @ data))"

lemma pack_varint_cases:
  assumes "pack_varint (int n) = Inr b"
  obtains "n < 253" "b = [of_nat n]"
  | "253 \<le> n" "n < 65536" "b = 253 # le_encode 2 n"
  | "65536 \<le> n" "n < 4294967296" "b = 254 # le_encode 4 n"
  | "4294967296 \<le> n" "n < 2 ^ 64" "b = 255 # le_encode 8 n"
  using assms
  by (auto simp: pack_varint_def pack_defs split: if_splits)

end
