(* ===== verification/LogicalFiles.thy ===== *)
theory LogicalFiles
  imports PyUtil
begin

section \<open>Logical files (LogicalFile of lib/util.py)\<close>

text \<open>
  A \<open>LogicalFile\<close> is one long byte sequence split over numbered files of \<open>file_size\<close> bytes.  The
  file system is a dictionary from file numbers to contents.  \<open>byte_at\<close> is the abstract view, one
  optional byte per position; \<open>lf_read\<close> is shown to return the longest present run from its start,
  and \<open>lf_write\<close> to change exactly the positions written, so the split into files is invisible.
\<close>

type_synonym vfiles = "(nat \<times> bytes) list"

record logical_file =
  file_size :: nat
  contents :: vfiles

text \<open>\<open>f.seek(offset); f.read(size)\<close> and \<open>f.seek(offset); f.write(b)\<close> on one file; a seek past the
  end leaves a hole of zero bytes.\<close>

definition file_read :: "bytes \<Rightarrow> nat \<Rightarrow> int \<Rightarrow> bytes" where
  "file_read c offset sz = (if sz < 0 then drop offset c else take (nat sz) (drop offset c))"

definition file_write :: "bytes \<Rightarrow> nat \<Rightarrow> bytes \<Rightarrow> bytes" where
  "file_write c offset b =
     take offset (c @ replicate (offset - length c) 0) @ b @ drop (offset + length b) c"

text \<open>\<open>open_file(start, create)\<close>: the file's number, its content and the offset of \<open>start\<close>; a
  missing file raises \<open>FileNotFoundError\<close> or is created empty.\<close>

definition open_file :: "logical_file \<Rightarrow> nat \<Rightarrow> bool \<Rightarrow> exn + (nat \<times> bytes \<times> nat)" where
  "open_file lf start create =
     (let file_num = start div file_size lf; offset = start mod file_size lf
      in case map_of (contents lf) file_num of
           Some c \<Rightarrow> Inr (file_num, c, offset)
         | None \<Rightarrow> if create then Inr (file_num, [], offset) else Inl FileNotFoundError)"

definition stored_positions :: "logical_file \<Rightarrow> nat list" where
  "stored_positions lf =
     concat (map (\<lambda>(n, c). map (\<lambda>i. n * file_size lf + i) [0..<length c]) (contents lf))"

lemma open_file_position:
  assumes "open_file lf start create = Inr (n, c, off)" "i < length (drop off c)"
  shows "start + i \<in> set (stored_positions lf)"
proof -
  have "c \<noteq> []" using assms(2) by auto
  with assms(1) have c: "map_of (contents lf) n = Some c"
    and n: "n = start div file_size lf" "off = start mod file_size lf"
    by (auto simp: open_file_def Let_def split: option.splits if_splits)
  from c have "(n, c) \<in> set (contents lf)" by (rule map_of_SomeD)
  moreover have "start + i = n * file_size lf + (off + i)" using n by (simp add: div_mod_decomp)
  moreover have "off + i < length c" using assms(2) by auto
  ultimately show ?thesis
    by (force simp: stored_positions_def)
qed

lemma count_above_less:
  assumes "(x::nat) \<in> set ps" "x < y"
  shows "length (filter (\<lambda>p. y \<le> p) ps) < length (filter (\<lambda>p. x \<le> p) ps)"
  using assms
proof (induction ps)
  case (Cons p ps)
  have le: "length (filter (\<lambda>p. y \<le> p) qs) \<le> length (filter (\<lambda>p. x \<le> p) qs)" for qs
    using Cons.prems(2) by (induction qs) auto
  show ?case
  proof (cases "x \<in> set ps")
    case True
    with Cons show ?thesis by auto
  next
    case False
    with Cons.prems le [of ps] show ?thesis by (auto simp: less_Suc_eq_le)
  qed
qed simp

function lf_read :: "logical_file \<Rightarrow> nat \<Rightarrow> int \<Rightarrow> bytes" where
  "lf_read lf start sz =
     (if sz = 0 then []
      else case open_file lf start False of
        Inl _ \<Rightarrow> []
      | Inr (_, c, offset) \<Rightarrow>
          (let part = file_read c offset sz
           in if part = [] then []
              else part @ lf_read lf (start + length part)
                            (if sz > 0 then sz - int (length part) else sz)))"
  by pat_completeness auto
termination
proof (relation "measure (\<lambda>(lf, start, sz).
    length (filter (\<lambda>p. start \<le> p) (stored_positions lf)))", goal_cases)
  case 1
  show ?case by simp
next
  case (2 lf start sz r n y c offset part)
  have "length (filter (\<lambda>p. start + length part \<le> p) (stored_positions lf))
      < length (filter (\<lambda>p. start \<le> p) (stored_positions lf))"
  proof (rule count_above_less)
    have "drop offset c \<noteq> []"
      using 2 by (auto simp: file_read_def split: if_splits)
    then show "start \<in> set (stored_positions lf)"
      using open_file_position [of lf start False n c offset 0] 2 by auto
    show "start < start + length part" using 2 by simp
  qed
  then show ?case by simp
qed

declare lf_read.simps [simp del]

text \<open>\<open>write\<close>: one file after another until nothing is left (\<open>file_size\<close> is a positive constant).\<close>

function lf_write :: "logical_file \<Rightarrow> nat \<Rightarrow> bytes \<Rightarrow> logical_file" where
  "lf_write lf start b =
     (if b = [] \<or> file_size lf = 0 then lf
      else
        let sz = min (length b) (file_size lf - start mod file_size lf)
        in case open_file lf start True of
             Inl _ \<Rightarrow> lf
           | Inr (file_num, c, offset) \<Rightarrow>
               lf_write (lf\<lparr>contents := AList.update file_num
                               (file_write c offset (take sz b)) (contents lf)\<rparr>)
                 (start + sz) (drop sz b))"
  by pat_completeness auto
termination
  by (relation "measure (\<lambda>(lf, start, b). length b)") auto

declare lf_write.simps [simp del]

lemma file_size_lf_write [simp]: "file_size (lf_write lf start b) = file_size lf"
proof (induction lf start b rule: lf_write.induct)
  case (1 lf start b)
  then show ?case
    by (subst lf_write.simps) (auto simp: Let_def split: sum.splits prod.splits)
qed

subsection \<open>The abstract view\<close>

definition byte_at :: "logical_file \<Rightarrow> nat \<Rightarrow> byte option" where
  "byte_at lf p =
     (case map_of (contents lf) (p div file_size lf) of
        None \<Rightarrow> None
      | Some c \<Rightarrow> if p mod file_size lf < length c then Some (c ! (p mod file_size lf)) else None)"

definition lf_wf :: "logical_file \<Rightarrow> bool" where
  "lf_wf lf \<longleftrightarrow> 0 < file_size lf \<and>
     (\<forall>n c. map_of (contents lf) n = Some c \<longrightarrow> length c \<le> file_size lf)"

definition present_run :: "logical_file \<Rightarrow> nat \<Rightarrow> nat \<Rightarrow> bytes" where
  "present_run lf start n =
     map the (takeWhile (\<lambda>x. x \<noteq> None) (map (byte_at lf) [start..<start + n]))"

lemma same_file:
  "0 < fs \<Longrightarrow> start mod fs + i < fs \<Longrightarrow>
     (start + i) div fs = start div fs \<and> (start + i) mod fs = start mod fs + (i::nat)"
proof -
  assume fs: "0 < fs" and i: "start mod fs + i < fs"
  have e: "start + i = (start mod fs + i) + fs * (start div fs)"
    using mod_mult_div_eq [of start fs] by linarith
  have "(start mod fs + i + fs * (start div fs)) div fs = start div fs"
    and "(start mod fs + i + fs * (start div fs)) mod fs = start mod fs + i"
    using fs i by (simp_all only: div_mult_self2 mod_mult_self2 div_less mod_less)
  then show ?thesis by (simp only: e)
qed

lemma open_file_Inr [err_simps]:
  "open_file lf start create = Inr (n, c, off) \<longleftrightarrow>
     n = start div file_size lf \<and> off = start mod file_size lf \<and>
     (map_of (contents lf) n = Some c \<or> map_of (contents lf) n = None \<and> create \<and> c = [])"
  by (auto simp: open_file_def Let_def split: option.splits)

lemma byte_at_run:
  assumes "lf_wf lf" "map_of (contents lf) (start div file_size lf) = Some c"
    "k \<le> length c - start mod file_size lf"
  shows "map (byte_at lf) [start..<start + k] = map Some (take k (drop (start mod file_size lf) c))"
proof (rule nth_equalityI)
  fix i assume "i < length (map (byte_at lf) [start..<start + k])"
  then have i: "i < k" by simp
  have "length c \<le> file_size lf" using assms by (auto simp: lf_wf_def)
  with i assms(3) have "start mod file_size lf + i < file_size lf" by linarith
  with assms(1) have "(start + i) div file_size lf = start div file_size lf"
    "(start + i) mod file_size lf = start mod file_size lf + i"
    using same_file [of "file_size lf" start i] by (auto simp: lf_wf_def)
  with i assms show "map (byte_at lf) [start..<start + k] ! i =
      map Some (take k (drop (start mod file_size lf) c)) ! i"
    by (simp add: byte_at_def)
qed (use assms in simp)

lemma present_run_split:
  assumes "k \<le> n" "map (byte_at lf) [start..<start + k] = map Some xs"
  shows "present_run lf start n = xs @ present_run lf (start + k) (n - k)"
proof -
  have "[start..<start + n] = [start..<start + k] @ [start + k..<start + k + (n - k)]"
    using assms(1) by (metis le_add_diff_inverse ab_semigroup_add_class.add_ac(1) upt_add_eq_append
        le_add1 add.assoc)
  then have "present_run lf start n =
      map the (takeWhile (\<lambda>x. x \<noteq> None) (map Some xs @ map (byte_at lf) [start + k..<start + k + (n - k)]))"
    by (simp only: present_run_def map_append assms(2))
  also have "\<dots> = xs @ present_run lf (start + k) (n - k)"
    by (subst takeWhile_append2) (auto simp: present_run_def comp_def)
  finally show ?thesis .
qed

lemma present_run_stop: "byte_at lf start = None \<Longrightarrow> present_run lf start n = []"
  by (cases n) (simp_all add: present_run_def upt_conv_Cons del: upt_Suc)

lemma lf_read_present_run:
  "lf_wf lf \<Longrightarrow> 0 \<le> sz \<Longrightarrow> lf_read lf start sz = present_run lf start (nat sz)"
proof (induction lf start sz rule: lf_read.induct)
  case (1 lf start sz)
  show ?case
  proof (cases "open_file lf start False")
    case (Inl e)
    then have "byte_at lf start = None"
      by (auto simp: open_file_def byte_at_def Let_def split: option.splits)
    with Inl show ?thesis by (subst lf_read.simps) (simp add: present_run_stop)
  next
    case (Inr r)
    obtain n c off where r: "r = (n, c, off)" by (cases r) auto
    from Inr r have c: "map_of (contents lf) (start div file_size lf) = Some c"
      and off: "off = start mod file_size lf" by (auto simp: err_simps)
    define part where "part = take (nat sz) (drop off c)"
    have part: "file_read c off sz = part" using 1(3) by (simp add: file_read_def part_def)
    show ?thesis
    proof (cases "sz = 0")
      case True
      then show ?thesis by (subst lf_read.simps) (simp add: present_run_def)
    next
      case sz: False
      show ?thesis
      proof (cases "part = []")
        case True
        then have "length c \<le> off" using sz 1(3) by (auto simp: part_def)
        then have "byte_at lf start = None" using c off by (simp add: byte_at_def)
        with True Inr r sz part show ?thesis
          by (subst lf_read.simps) (simp add: present_run_stop)
      next
        case False
        have len: "int (length part) \<le> sz" using 1(3) by (simp add: part_def)
        have run: "map (byte_at lf) [start..<start + length part] = map Some part"
          using byte_at_run [OF 1(2) c, of "length part"]
          by (simp add: off part_def min_def split: if_splits)
        have IH: "lf_read lf (start + length part) (sz - int (length part)) =
            present_run lf (start + length part) (nat sz - length part)"
          using 1(1) [OF sz Inr r [symmetric] refl part [symmetric] False] 1(2,3) False sz len
          by (simp add: nat_diff_distrib')
        have "present_run lf start (nat sz) = part @ present_run lf (start + length part) (nat sz - length part)"
          using len by (intro present_run_split run) simp
        with IH False Inr r sz part 1(3) show ?thesis
          by (subst lf_read.simps) simp
      qed
    qed
  qed
qed

subsection \<open>Writing\<close>

lemma length_file_write:
  "length (file_write c off b) = max (length c) (off + length b)"
  by (auto simp: file_write_def)

lemma nth_file_write:
  "off \<le> length c \<Longrightarrow> i < length (file_write c off b) \<Longrightarrow>
   file_write c off b ! i = (if off \<le> i \<and> i < off + length b then b ! (i - off) else c ! i)"
  by (auto simp: file_write_def nth_append)

text \<open>One iteration of \<open>write\<close>, on the abstract view; \<open>start\<close> is not past the end of its file.\<close>

definition no_hole :: "logical_file \<Rightarrow> nat \<Rightarrow> bool" where
  "no_hole lf start \<longleftrightarrow> start mod file_size lf = 0 \<or> byte_at lf (start - 1) \<noteq> None"

definition file_of :: "logical_file \<Rightarrow> nat \<Rightarrow> bytes" where
  "file_of lf n = (case map_of (contents lf) n of None \<Rightarrow> [] | Some c \<Rightarrow> c)"

lemma byte_at_file_of:
  "byte_at lf p = (if p mod file_size lf < length (file_of lf (p div file_size lf))
     then Some (file_of lf (p div file_size lf) ! (p mod file_size lf)) else None)"
  by (auto simp: byte_at_def file_of_def split: option.splits)

lemma no_hole_iff:
  assumes "0 < file_size lf"
  shows "no_hole lf start \<longleftrightarrow> start mod file_size lf \<le> length (file_of lf (start div file_size lf))"
proof (cases "start mod file_size lf = 0")
  case False
  then have "(start - 1) div file_size lf = start div file_size lf \<and>
      (start - 1) mod file_size lf = start mod file_size lf - 1"
    using same_file [of "file_size lf" "start - 1" 1] assms
    by (cases start) (auto simp: mod_Suc div_Suc split: if_splits)
  with False show ?thesis by (auto simp: no_hole_def byte_at_file_of)
qed (simp add: no_hole_def)

lemma write_step_byte_at:
  assumes wf: "lf_wf lf" and hole: "no_hole lf start"
    and fit: "start mod file_size lf + length b \<le> file_size lf"
    and lf': "lf' = lf\<lparr>contents := AList.update (start div file_size lf)
       (file_write (file_of lf (start div file_size lf)) (start mod file_size lf) b) (contents lf)\<rparr>"
  shows "byte_at lf' p = (if start \<le> p \<and> p < start + length b then Some (b ! (p - start))
      else byte_at lf p)" and "lf_wf lf'"
proof -
  let ?fs = "file_size lf" let ?n = "start div ?fs" let ?off = "start mod ?fs"
  let ?c = "file_of lf ?n"
  have fs: "0 < ?fs" using wf by (simp add: lf_wf_def)
  have off: "?off \<le> length ?c" using hole no_hole_iff [OF fs] by simp
  have other: "file_of lf' m = (if m = ?n then file_write ?c ?off b else file_of lf m)" for m
    by (simp add: lf' file_of_def)
  have fs': "file_size lf' = ?fs" by (simp add: lf')
  have range: "start \<le> p \<and> p < start + length b \<longleftrightarrow>
      p div ?fs = ?n \<and> ?off \<le> p mod ?fs \<and> p mod ?fs < ?off + length b"
  proof
    assume a: "start \<le> p \<and> p < start + length b"
    then have "?off + (p - start) < ?fs" using fit by linarith
    from same_file [OF fs this] a
    show "p div ?fs = ?n \<and> ?off \<le> p mod ?fs \<and> p mod ?fs < ?off + length b" by auto
  next
    assume a: "p div ?fs = ?n \<and> ?off \<le> p mod ?fs \<and> p mod ?fs < ?off + length b"
    have "p = ?n * ?fs + p mod ?fs" using a by (metis div_mod_decomp)
    moreover have "start = ?n * ?fs + ?off" by (rule div_mod_decomp)
    ultimately show "start \<le> p \<and> p < start + length b" using a by linarith
  qed
  have sub: "p mod ?fs - ?off = p - start" if "start \<le> p" "p div ?fs = ?n"
    using that by (metis div_mod_decomp add_diff_cancel_left)
  show "byte_at lf' p = (if start \<le> p \<and> p < start + length b then Some (b ! (p - start))
      else byte_at lf p)"
    unfolding byte_at_file_of [of lf'] fs' other
    using off sub range by (auto simp: byte_at_file_of length_file_write nth_file_write)
  have "length (file_write ?c ?off b) \<le> ?fs"
    using fit wf by (auto simp: length_file_write lf_wf_def file_of_def split: option.splits)
  with wf show "lf_wf lf'" by (auto simp: lf_wf_def lf')
qed

lemma lf_write_byte_at:
  "lf_wf lf \<Longrightarrow> no_hole lf start \<Longrightarrow>
   lf_wf (lf_write lf start b) \<and>
   (\<forall>p. byte_at (lf_write lf start b) p =
     (if start \<le> p \<and> p < start + length b then Some (b ! (p - start)) else byte_at lf p))"
proof (induction lf start b rule: lf_write.induct)
  case (1 lf start b)
  show ?case
  proof (cases "b = []")
    case True
    then show ?thesis using 1(2) by (subst (1 2) lf_write.simps) auto
  next
    case False
    let ?fs = "file_size lf"
    define sz where "sz = min (length b) (?fs - start mod ?fs)"
    define lf' where "lf' = lf\<lparr>contents := AList.update (start div ?fs)
       (file_write (file_of lf (start div ?fs)) (start mod ?fs) (take sz b)) (contents lf)\<rparr>"
    have fs: "0 < ?fs" using 1(2) by (simp add: lf_wf_def)
    have fs': "file_size lf' = ?fs" by (simp add: lf'_def)
    then have mod: "start mod ?fs < ?fs" using fs by simp
    have szpos: "0 < sz" "sz \<le> length b" using False mod by (simp_all add: sz_def)
    have op: "open_file lf start True =
        Inr (start div ?fs, file_of lf (start div ?fs), start mod ?fs)"
      by (auto simp: open_file_def file_of_def Let_def split: option.splits)
    have unf: "lf_write lf start b = lf_write lf' (start + sz) (drop sz b)"
      using False fs op
      by (subst lf_write.simps) (simp add: Let_def sz_def [symmetric] lf'_def)
    have fit: "start mod ?fs + length (take sz b) \<le> ?fs" using mod by (simp add: sz_def)
    note step = write_step_byte_at [OF 1(2,3) fit lf'_def]
    have hole: "no_hole lf' (start + sz)"
      using step(1) [of "start + sz - 1"] szpos by (auto simp: no_hole_def)
    have IH: "lf_wf (lf_write lf' (start + sz) (drop sz b)) \<and>
      (\<forall>p. byte_at (lf_write lf' (start + sz) (drop sz b)) p =
        (if start + sz \<le> p \<and> p < start + sz + length (drop sz b)
         then Some (drop sz b ! (p - (start + sz))) else byte_at lf' p))"
      using 1(1) [of sz "(start div ?fs, file_of lf (start div ?fs), start mod ?fs)"
          "start div ?fs" "(file_of lf (start div ?fs), start mod ?fs)"]
        False fs op step(2) hole sz_def
      by (simp add: lf'_def)
    show ?thesis
      unfolding unf
    proof (intro conjI allI)
      show "lf_wf (lf_write lf' (start + sz) (drop sz b))" using IH by simp
      fix p
      show "byte_at (lf_write lf' (start + sz) (drop sz b)) p =
        (if start \<le> p \<and> p < start + length b then Some (b ! (p - start)) else byte_at lf p)"
        using IH szpos step(1) [of p] by (auto simp: nth_append)
    qed
  qed
qed

lemma present_run_some:
  assumes "\<And>i. i < length b \<Longrightarrow> byte_at lf (start + i) = Some (b ! i)"
  shows "present_run lf start (length b) = b"
proof -
  have "map (byte_at lf) [start..<start + length b] = map Some b"
    by (rule nth_equalityI) (auto simp: assms)
  then show ?thesis
    by (simp add: present_run_def takeWhile_eq_all_conv [THEN iffD2] comp_def)
qed

text \<open>A logical file of \<open>data\<close>: exactly its bytes are present.  Files are written at their end
  (the database's metadata is append-only) or over old positions.\<close>

definition lf_data :: "logical_file \<Rightarrow> bytes \<Rightarrow> bool" where
  "lf_data lf d \<longleftrightarrow> lf_wf lf \<and> (\<forall>p < length d. byte_at lf p = Some (d ! p))"

lemma lf_data_no_hole: "lf_data lf d \<Longrightarrow> start \<le> length d \<Longrightarrow> no_hole lf start"
  by (cases start) (auto simp: lf_data_def no_hole_def)

lemma lf_data_write:
  assumes "lf_data lf d" "start \<le> length d"
  shows "lf_data (lf_write lf start b) (take start d @ b @ drop (start + length b) d)"
  using lf_write_byte_at [of lf start b] lf_data_no_hole [OF assms] assms
  by (auto simp: lf_data_def nth_append add.commute)

lemma lf_data_read:
  assumes "lf_data lf d" "start + n \<le> length d"
  shows "lf_read lf start (int n) = slice d start (start + n)"
proof -
  have "lf_read lf start (int n) = present_run lf start n"
    using assms by (simp add: lf_read_present_run lf_data_def)
  also have "\<dots> = slice d start (start + n)"
    using present_run_some [of "slice d start (start + n)" lf start] assms
    by (simp add: lf_data_def slice_def)
  finally show ?thesis .
qed

lemma lf_data_mono: "lf_data lf (d @ e) \<Longrightarrow> lf_data lf d"
  by (auto simp: lf_data_def nth_append)

text \<open>C35: the files a logical file is split across behave as one file: what is written anywhere up to
  the end of the data replaces and extends it, and every read within the data gives its bytes,
  wherever the file boundaries fall.\<close>

theorem logical_file_is_one_file:
  assumes "lf_data lf d" "start \<le> length d"
  shows "let d' = take start d @ b @ drop (start + length b) d in
    lf_data (lf_write lf start b) d' \<and>
    (\<forall>p n. p + n \<le> length d' \<longrightarrow> lf_read (lf_write lf start b) p (int n) = slice d' p (p + n))"
  unfolding Let_def using lf_data_write [OF assms(1,2)] lf_data_read by blast

theorem logical_file_is_one_file_witness:
  "lf_read (lf_write \<lparr>file_size = 2, contents = [(0, [1, 2]), (1, [3])]\<rparr> 1 [8, 9]) 0 3 = [1, 8, 9]"
proof -
  have "byte_at \<lparr>file_size = 2, contents = [(0, [1, 2]), (1, [3])]\<rparr> p = Some ([1, 2, 3] ! p)"
    if "p = 0 \<or> p = 1 \<or> p = 2" for p
    using that by (auto simp: byte_at_def)
  moreover have "p < 3 \<Longrightarrow> p = 0 \<or> p = 1 \<or> p = 2" for p :: nat by linarith
  ultimately have "lf_data \<lparr>file_size = 2, contents = [(0, [1, 2]), (1, [3])]\<rparr> [1, 2, 3]"
    by (auto simp: lf_data_def lf_wf_def split: if_splits)
  from logical_file_is_one_file [OF this, of 1 "[8, 9]"]
  have "\<forall>p n. p + n \<le> 3 \<longrightarrow>
      lf_read (lf_write \<lparr>file_size = 2, contents = [(0, [1, 2]), (1, [3])]\<rparr> 1 [8, 9]) p (int n) =
      slice [1, 8, 9] p (p + n)"
    by (simp add: Let_def)
  from this [rule_format, of 0 3] show ?thesis by (simp add: slice_def)
qed

end
