(* ===== verification/MerkleTree.thy ===== *)
theory MerkleTree
  imports PyUtil Complex_Main
begin

section \<open>Merkle trees, branches and proofs (lib/merkle.py)\<close>

text \<open>
  \<open>Merkle\<close> over any hash function \<open>H\<close> (the argument \<open>hash_func\<close> of its constructor).  The level
  below is padded with a copy of its last hash when its length is odd.
  \<open>branch_and_root\<close> is the code's loop; \<open>levels\<close> and \<open>branch_of\<close> are its result in closed form;
  \<open>merkle_spec\<close> is the textbook recursive tree, in which an empty right subtree is a copy of the
  left one.  The code computes the length of a branch as \<open>ceil(log(n, 2))\<close> in floating point; the
  model has the exact value, which the float expression gives for all \<open>n < 2 ^ 29\<close>, far above the
  number of transactions of a block or the height of a chain.
\<close>

unbundle bit_operations_syntax

subsection \<open>The code\<close>

definition branch_length :: "nat \<Rightarrow> exn + nat" where
  "branch_length hash_count =
     (if hash_count < 1 then Inl ValueError else Inr (bit_length (hash_count - 1)))"

definition tree_depth :: "nat \<Rightarrow> exn + nat" where
  "tree_depth hash_count = bindE (branch_length hash_count) (\<lambda>n. Inr (n + 1))"

definition pad_even :: "'a list \<Rightarrow> 'a list" where
  "pad_even hashes = (if odd (length hashes) then hashes @ [last hashes] else hashes)"

text \<open>\<open>[hash_func(hashes[n] + hashes[n + 1]) for n in range(0, len(hashes), 2)]\<close>, on an even length.\<close>

fun pair_level :: "(bytes \<Rightarrow> bytes) \<Rightarrow> bytes list \<Rightarrow> bytes list" where
  "pair_level H (a # b # hashes) = H (a @ b) # pair_level H hashes"
| "pair_level H _ = []"

primrec branch_loop ::
  "(bytes \<Rightarrow> bytes) \<Rightarrow> nat \<Rightarrow> bytes list \<Rightarrow> nat \<Rightarrow> bytes list \<Rightarrow> bytes list \<times> bytes list" where
  "branch_loop H 0 hashes index branch = (branch, hashes)"
| "branch_loop H (Suc k) hashes index branch =
     (let hashes = pad_even hashes
      in branch_loop H k (pair_level H hashes) (drop_bit 1 index)
           (branch @ [hashes ! (index XOR 1)]))"

definition branch_and_root ::
  "(bytes \<Rightarrow> bytes) \<Rightarrow> bytes list \<Rightarrow> int \<Rightarrow> int option \<Rightarrow> exn + bytes list \<times> bytes" where
  "branch_and_root H hashes index len =
     bindE (raise_if (\<not> (0 \<le> index \<and> index < int (length hashes))) ValueError) (\<lambda>_.
     bindE (branch_length (length hashes)) (\<lambda>natural_length.
     bindE (case len of None \<Rightarrow> Inr natural_length
            | Some l \<Rightarrow> if l < int natural_length then Inl ValueError else Inr (nat l)) (\<lambda>l.
       let (branch, hs) = branch_loop H l hashes (nat index) [] in Inr (branch, hs ! 0))))"

definition merkle_root :: "(bytes \<Rightarrow> bytes) \<Rightarrow> bytes list \<Rightarrow> int option \<Rightarrow> exn + bytes" where
  "merkle_root H hashes len = bindE (branch_and_root H hashes 0 len) (\<lambda>(_, r). Inr r)"

primrec proof_loop :: "(bytes \<Rightarrow> bytes) \<Rightarrow> bytes list \<Rightarrow> bytes \<Rightarrow> int \<Rightarrow> bytes \<times> int" where
  "proof_loop H [] h index = (h, index)"
| "proof_loop H (elt # branch) h index =
     proof_loop H branch (if odd index then H (elt @ h) else H (h @ elt)) (drop_bit 1 index)"

definition root_from_proof ::
  "(bytes \<Rightarrow> bytes) \<Rightarrow> bytes \<Rightarrow> bytes list \<Rightarrow> int \<Rightarrow> exn + bytes" where
  "root_from_proof H h branch index =
     (let (r, i) = proof_loop H branch h index
      in if i \<noteq> 0 then Inl ValueError else Inr r)"

definition level :: "(bytes \<Rightarrow> bytes) \<Rightarrow> bytes list \<Rightarrow> nat \<Rightarrow> exn + bytes list" where
  "level H hashes depth_higher =
     mapE (\<lambda>c. merkle_root H c (Some (int depth_higher))) (chunks hashes (push_bit depth_higher 1))"

definition branch_and_root_from_level ::
  "(bytes \<Rightarrow> bytes) \<Rightarrow> bytes list \<Rightarrow> bytes list \<Rightarrow> nat \<Rightarrow> nat \<Rightarrow> exn + bytes list \<times> bytes" where
  "branch_and_root_from_level H lvl leaf_hashes index depth_higher =
     (let leaf_index = push_bit depth_higher (drop_bit depth_higher index) in
      bindE (branch_and_root H leaf_hashes (int index - int leaf_index) (Some (int depth_higher)))
        (\<lambda>(leaf_branch, leaf_root).
      let index = drop_bit depth_higher index in
      bindE (branch_and_root H lvl (int index) None) (\<lambda>(level_branch, r).
        if leaf_root \<noteq> lvl ! index then Inl ValueError
        else Inr (leaf_branch @ level_branch, r))))"

subsection \<open>The length of a branch\<close>

text \<open>\<open>clog n\<close> is the rounded-up binary logarithm.\<close>

definition clog :: "nat \<Rightarrow> nat" where
  "clog n = bit_length (n - 1)"

lemma clog_le_iff: "0 < n \<Longrightarrow> clog n \<le> k \<longleftrightarrow> n \<le> 2 ^ k"
proof
  assume n: "0 < n" and le: "clog n \<le> k"
  have "n - 1 < 2 ^ clog n" unfolding clog_def by (rule bit_length_bound)
  also have "\<dots> \<le> (2::nat) ^ k" using le by (intro power_increasing) auto
  finally show "n \<le> 2 ^ k" using n by simp
next
  assume n: "0 < n" and le: "n \<le> 2 ^ k"
  show "clog n \<le> k"
  proof (rule ccontr)
    assume c: "\<not> clog n \<le> k"
    have "n \<noteq> 1" using c by (auto simp: clog_def bit_length.simps)
    with n have "0 < n - 1" by simp
    then have "2 ^ (clog n - 1) \<le> n - 1" unfolding clog_def by (rule bit_length_ge)
    moreover have "(2::nat) ^ k \<le> 2 ^ (clog n - 1)" using c by (intro power_increasing) auto
    ultimately show False using n le by linarith
  qed
qed

lemma clog_bound: "0 < n \<Longrightarrow> n \<le> 2 ^ clog n"
  by (simp flip: clog_le_iff)

lemma clog_ceiling_log: "0 < n \<Longrightarrow> int (clog n) = \<lceil>log 2 (real n)\<rceil>"
proof (rule ceiling_unique [symmetric])
  assume n: "0 < n"
  then have "real n \<le> 2 powr real (clog n)"
    using clog_bound [OF n] by (simp add: powr_realpow flip: of_nat_power of_nat_le_iff)
  then show "log 2 (real n) \<le> of_int (int (clog n))"
    using n by (simp add: log_le_iff)
  show "of_int (int (clog n)) - 1 < log 2 (real n)"
  proof (cases "clog n")
    case 0
    then show ?thesis using n by (simp add: less_log_iff powr_minus field_simps)
  next
    case (Suc k)
    then have "\<not> n \<le> 2 ^ k" using clog_le_iff [OF n, of k] by simp
    then have "2 powr real k < real n"
      by (simp add: powr_realpow not_le flip: of_nat_power of_nat_less_iff)
    then show ?thesis using n Suc by (simp add: less_log_iff)
  qed
qed

lemma branch_length_clog: "0 < n \<Longrightarrow> branch_length n = Inr (clog n)"
  by (simp add: branch_length_def clog_def)

subsection \<open>The loop in closed form\<close>

definition up :: "(bytes \<Rightarrow> bytes) \<Rightarrow> bytes list \<Rightarrow> bytes list" where
  "up H hs = pair_level H (pad_even hs)"

primrec levels :: "(bytes \<Rightarrow> bytes) \<Rightarrow> nat \<Rightarrow> bytes list \<Rightarrow> bytes list" where
  "levels H 0 hs = hs"
| "levels H (Suc k) hs = levels H k (up H hs)"

primrec branch_of :: "(bytes \<Rightarrow> bytes) \<Rightarrow> nat \<Rightarrow> bytes list \<Rightarrow> nat \<Rightarrow> bytes list" where
  "branch_of H 0 hs i = []"
| "branch_of H (Suc k) hs i = pad_even hs ! (i XOR 1) # branch_of H k (up H hs) (i div 2)"

lemma branch_loop_closed:
  "branch_loop H k hs i b = (b @ branch_of H k hs i, levels H k hs)"
  by (induction k arbitrary: hs i b) (simp_all add: up_def drop_bit_eq_div Let_def)

lemma length_branch_of [simp]: "length (branch_of H k hs i) = k"
  by (induction k arbitrary: hs i) auto

lemma pad_even_append: "even (length xs) \<Longrightarrow> pad_even (xs @ ys) = xs @ pad_even ys"
  by (cases "ys = []") (auto simp: pad_even_def)

lemma even_length_pad [simp]: "even (length (pad_even hs))"
  by (simp add: pad_even_def)

lemma pad_even_even [simp]: "even (length hs) \<Longrightarrow> pad_even hs = hs"
  by (simp add: pad_even_def)

lemma pair_level_append:
  "even (length xs) \<Longrightarrow> pair_level H (xs @ ys) = pair_level H xs @ pair_level H ys"
  by (induction H xs rule: pair_level.induct) auto

lemma up_append: "even (length xs) \<Longrightarrow> up H (xs @ ys) = up H xs @ up H ys"
  by (simp add: up_def pad_even_append pair_level_append)

lemma up_Nil [simp]: "up H [] = []"
  by (simp add: up_def pad_even_def)

lemma levels_Nil [simp]: "levels H k [] = []"
  by (induction k) auto

lemma length_pair_level: "length (pair_level H xs) = length xs div 2"
  by (induction H xs rule: pair_level.induct) auto

lemma length_up: "length (up H hs) = (length hs + 1) div 2"
  by (auto simp: up_def length_pair_level pad_even_def)

lemma nth_pair_level:
  "even (length xs) \<Longrightarrow> j < length xs div 2 \<Longrightarrow>
   pair_level H xs ! j = H (xs ! (2 * j) @ xs ! (2 * j + 1))"
proof (induction H xs arbitrary: j rule: pair_level.induct)
  case (1 H a b hs)
  then show ?case by (cases j) auto
qed auto

lemma length_levels_le: "length hs \<le> 2 ^ k \<Longrightarrow> hs \<noteq> [] \<Longrightarrow> length (levels H k hs) = 1"
proof (induction k arbitrary: hs)
  case 0
  then show ?case by (cases hs) auto
next
  case (Suc k)
  have "length (up H hs) \<le> 2 ^ k" using Suc.prems by (simp add: length_up)
  moreover have "up H hs \<noteq> []" using Suc.prems by (simp add: length_up flip: length_greater_0_conv)
  ultimately show ?case using Suc.IH by simp
qed

lemma levels_add: "levels H (a + b) hs = levels H b (levels H a hs)"
  by (induction a arbitrary: hs) auto

lemma levels_append:
  "2 ^ k dvd length xs \<Longrightarrow> levels H k (xs @ ys) = levels H k xs @ levels H k ys"
proof (induction k arbitrary: xs ys)
  case (Suc k)
  then have "even (length xs)" by (auto elim: dvd_trans [rotated])
  moreover have "2 ^ k dvd length (up H xs)"
    using Suc.prems by (auto simp: length_up elim!: dvdE)
  ultimately show ?case using Suc.IH by (simp add: up_append)
qed simp

lemma length_levels_dvd: "2 ^ k dvd length xs \<Longrightarrow> length (levels H k xs) = length xs div 2 ^ k"
proof (induction k arbitrary: xs)
  case (Suc k)
  then have ev: "even (length xs)" by (auto elim: dvd_trans [rotated])
  moreover have "2 ^ k dvd length (up H xs)"
    using Suc.prems by (auto simp: length_up elim!: dvdE)
  ultimately show ?case using Suc.IH by (simp add: length_up div_mult2_eq)
qed simp

lemma branch_of_add:
  "branch_of H (a + b) hs i = branch_of H a hs i @ branch_of H b (levels H a hs) (i div 2 ^ a)"
  by (induction a arbitrary: hs i) (auto simp: div_mult2_eq)

text \<open>The branch up to height \<open>a\<close> only depends on the aligned segment around the index.\<close>

lemma xor_1_nat: "(i::nat) XOR 1 = (if even i then i + 1 else i - 1)"
  by (simp add: xor_Suc_0_eq)

lemma xor_1_add_even: "even a \<Longrightarrow> ((a::nat) + j) XOR 1 = a + (j XOR 1)"
  by (cases "even j") (auto simp: xor_Suc_0_eq elim!: oddE)

lemma xor_1_less: "j < n \<Longrightarrow> even n \<Longrightarrow> (j::nat) XOR 1 < n"
  by (auto simp: xor_Suc_0_eq elim!: evenE)

lemma branch_of_segment:
  assumes "2 ^ a dvd length pre" "j < length seg" "2 ^ a dvd length seg \<or> post = []"
  shows "branch_of H a (pre @ seg @ post) (length pre + j) = branch_of H a seg j"
  using assms
proof (induction a arbitrary: pre seg post j)
  case (Suc a)
  have ev: "even (length pre)" using Suc.prems(1) by (auto elim: dvd_trans [rotated])
  have seg: "even (length seg) \<or> post = []" using Suc.prems(3) by (auto elim: dvd_trans [rotated])
  have sib: "j XOR 1 < length (pad_even seg)"
    using Suc.prems(2) by (intro xor_1_less) (auto simp: pad_even_def)
  have pad: "pad_even (pre @ seg @ post) = pre @ pad_even seg @ (if post = [] then [] else pad_even post)"
    using ev seg by (auto simp: pad_even_append)
  have upa: "up H (pre @ seg @ post) = up H pre @ up H seg @ up H post"
    using ev seg by (auto simp: up_append)
  have lp: "length (up H pre) = length pre div 2" using ev by (simp add: length_up)
  have idx: "(length pre + j) div 2 = length (up H pre) + j div 2" using ev lp by auto
  have "branch_of H a (up H pre @ up H seg @ up H post) (length (up H pre) + j div 2) =
      branch_of H a (up H seg) (j div 2)"
  proof (rule Suc.IH)
    show "2 ^ a dvd length (up H pre)" using Suc.prems(1) by (auto simp: length_up elim!: dvdE)
    show "j div 2 < length (up H seg)" using Suc.prems(2) by (simp add: length_up)
    show "2 ^ a dvd length (up H seg) \<or> up H post = []"
      using Suc.prems(3) by (auto simp: length_up elim!: dvdE)
  qed
  with sib ev show ?case
    by (simp add: pad upa idx xor_1_add_even nth_append del: One_nat_def)
qed simp

subsection \<open>Branches, roots and proofs\<close>

lemma clog_le_length: "hs \<noteq> [] \<Longrightarrow> clog (length hs) \<le> k \<longleftrightarrow> length hs \<le> 2 ^ k"
  by (rule clog_le_iff) simp

lemma branch_and_root_natural:
  "i < length hs \<Longrightarrow> branch_and_root H hs (int i) None =
     Inr (branch_of H (clog (length hs)) hs i, levels H (clog (length hs)) hs ! 0)"
  by (subgoal_tac "0 < length hs")
    (auto simp: branch_and_root_def branch_length_clog branch_loop_closed)

lemma branch_and_root_length:
  "i < length hs \<Longrightarrow> length hs \<le> 2 ^ k \<Longrightarrow> branch_and_root H hs (int i) (Some (int k)) =
     Inr (branch_of H k hs i, levels H k hs ! 0)"
  by (subgoal_tac "0 < length hs")
    (auto simp: branch_and_root_def branch_length_clog branch_loop_closed simp flip: clog_le_length)

lemma branch_and_root_Inr:
  assumes "branch_and_root H hs index None = Inr (b, r)"
  obtains i where "index = int i" "i < length hs" "b = branch_of H (clog (length hs)) hs i"
    "r = levels H (clog (length hs)) hs ! 0"
proof -
  from assms have "0 \<le> index" "index < int (length hs)"
    by (auto simp: branch_and_root_def err_simps)
  then obtain i where i: "index = int i" "i < length hs" by (metis nonneg_int_cases of_nat_less_iff)
  with assms show ?thesis by (auto simp: branch_and_root_natural intro: that)
qed

lemma nth_up:
  assumes "i < length hs"
  shows "up H hs ! (i div 2) = (if odd i then H (pad_even hs ! (i XOR 1) @ hs ! i)
     else H (hs ! i @ pad_even hs ! (i XOR 1)))"
proof -
  have len: "i div 2 < length (pad_even hs) div 2" using assms by (auto simp: pad_even_def)
  have "hs ! i = pad_even hs ! i" using assms by (simp add: pad_even_def nth_append)
  with nth_pair_level [OF even_length_pad len] show ?thesis
    by (cases "even i") (auto simp: up_def xor_Suc_0_eq elim!: evenE oddE)
qed

lemma proof_loop_branch_of:
  "i < length hs \<Longrightarrow> proof_loop H (branch_of H k hs i) (hs ! i) (int i) =
     (levels H k hs ! (i div 2 ^ k), int (i div 2 ^ k))"
proof (induction k arbitrary: hs i)
  case (Suc k)
  have half: "drop_bit 1 (int i) = int (i div 2)" by (simp add: drop_bit_eq_div zdiv_int)
  have "i div 2 < length (up H hs)" using Suc.prems by (simp add: length_up)
  from Suc.IH [OF this] show ?case
    using nth_up [OF Suc.prems, of H] half
    by (simp add: div_mult2_eq del: One_nat_def split: if_splits)
qed simp

primrec merkle_spec :: "(bytes \<Rightarrow> bytes) \<Rightarrow> nat \<Rightarrow> bytes list \<Rightarrow> bytes" where
  "merkle_spec H 0 hs = hs ! 0"
| "merkle_spec H (Suc d) hs =
     (let left = merkle_spec H d (take (2 ^ d) hs); right = drop (2 ^ d) hs
      in H (left @ (if right = [] then left else merkle_spec H d right)))"

lemma up_one: "up H [x] = [H (x @ x)]"
  by (simp add: up_def pad_even_def)

lemma up_two: "up H [x, y] = [H (x @ y)]"
  by (simp add: up_def)

lemma levels_merkle_spec:
  "hs \<noteq> [] \<Longrightarrow> length hs \<le> 2 ^ d \<Longrightarrow> levels H d hs = [merkle_spec H d hs]"
proof (induction d arbitrary: hs)
  case 0
  then show ?case by (cases hs) auto
next
  case (Suc d)
  let ?l = "take (2 ^ d) hs" let ?r = "drop (2 ^ d) hs"
  have l: "levels H d ?l = [merkle_spec H d ?l]" using Suc by (intro Suc.IH) auto
  have split: "levels H (Suc d) hs = up H (levels H d (?l @ ?r))"
    using levels_add [of H d 1 hs] by simp
  show ?case
  proof (cases "?r = []")
    case True
    with l split show ?thesis by (simp add: up_one Let_def)
  next
    case False
    then have "2 ^ d dvd length ?l" by simp
    moreover have "levels H d ?r = [merkle_spec H d ?r]" using Suc False by (intro Suc.IH) auto
    ultimately have "levels H d (?l @ ?r) = [merkle_spec H d ?l, merkle_spec H d ?r]"
      using l by (subst levels_append) simp_all
    then show ?thesis using split False by (simp only: up_two merkle_spec.simps Let_def if_False)
  qed
qed

lemma natural_branch_verifies:
  assumes "branch_and_root H hashes index None = Inr (branch, r)"
  shows "root_from_proof H (hashes ! nat index) branch index = Inr r
    \<and> branch_length (length hashes) = Inr (length branch)"
proof -
  from assms obtain i where i: "index = int i" "i < length hashes"
    and b: "branch = branch_of H (clog (length hashes)) hashes i"
    and r: "r = levels H (clog (length hashes)) hashes ! 0"
    by (rule branch_and_root_Inr)
  have "i < 2 ^ clog (length hashes)" using i(2) clog_bound [of "length hashes"] by linarith
  moreover have "branch_length (length hashes) = Inr (clog (length hashes))"
    using i(2) by (intro branch_length_clog) auto
  ultimately show ?thesis
    using i b r proof_loop_branch_of [OF i(2), of H "clog (length hashes)"]
    by (auto simp: root_from_proof_def)
qed

text \<open>C27: the branch that \<open>branch_and_root\<close> returns verifies: \<open>root_from_proof\<close> recomputes the very
  root from it, at the same index, and the branch has exactly \<open>branch_length\<close> elements.\<close>

theorem merkle_proof_verifies:
  assumes "branch_and_root H hashes index None = Inr (branch, r)"
  shows "root_from_proof H (hashes ! nat index) branch index = Inr r
    \<and> branch_length (length hashes) = Inr (length branch)"
  by (rule natural_branch_verifies [OF assms])

theorem merkle_proof_verifies_witness:
  "root_from_proof (take 2) [3] [[3], [1,2]] 2 = Inr [1,2]
    \<and> branch_length (length [[1], [2], [3::byte]]) = Inr (length [[3], [1,2::byte]])"
proof -
  have h: "branch_and_root (take 2) [[1], [2], [3]] 2 None = Inr ([[3], [1,2]], [1,2])"
    by code_simp
  show ?thesis using merkle_proof_verifies [OF h] by simp
qed

text \<open>The root is the textbook recursive Merkle tree in which a missing right subtree is
  replaced by its left sibling; only the empty list of hashes is refused.\<close>

theorem merkle_root_refines_spec:
  "merkle_root H hashes None =
     (if hashes = [] then Inl ValueError else Inr (merkle_spec H (clog (length hashes)) hashes))"
proof (cases "hashes = []")
  case True
  then show ?thesis by (simp add: merkle_root_def branch_and_root_def)
next
  case False
  then have "length hashes \<le> 2 ^ clog (length hashes)" by (simp add: clog_bound)
  with False levels_merkle_spec [OF False this, of H] branch_and_root_natural [of 0 hashes H]
  show ?thesis by (simp add: merkle_root_def)
qed

text \<open>The messages a verifier hashes on the way from a leaf to the root.\<close>

primrec proof_inputs :: "(bytes \<Rightarrow> bytes) \<Rightarrow> bytes list \<Rightarrow> bytes \<Rightarrow> int \<Rightarrow> bytes list" where
  "proof_inputs H [] h index = []"
| "proof_inputs H (elt # branch) h index =
     (let x = (if odd index then elt @ h else h @ elt) in x # proof_inputs H branch (H x) (drop_bit 1 index))"

text \<open>Two lists of messages exhibit a collision when at one step they differ and have the same hash.\<close>

definition collides :: "(bytes \<Rightarrow> bytes) \<Rightarrow> bytes list \<Rightarrow> bytes list \<Rightarrow> bool" where
  "collides H xs ys \<longleftrightarrow> (\<exists>(x, y) \<in> set (zip xs ys). x \<noteq> y \<and> H x = H y)"

lemma collides_Cons: "collides H (x # xs) (y # ys) \<longleftrightarrow> x \<noteq> y \<and> H x = H y \<or> collides H xs ys"
  by (auto simp: collides_def)

lemma proof_loop_binding:
  assumes "length b = length b'" "\<And>x. length (H x) = n"
    "\<forall>x \<in> insert h (set b). length x = n" "\<forall>x \<in> insert h' (set b'). length x = n"
    "proof_loop H b h i = (r, j)" "proof_loop H b' h' i = (r, j')"
  shows "(h = h' \<and> b = b') \<or> collides H (proof_inputs H b h i) (proof_inputs H b' h' i)"
  using assms
proof (induction b b' arbitrary: h h' i rule: list_induct2)
  case (Cons e es e' es')
  let ?x = "if odd i then e @ h else h @ e" let ?y = "if odd i then e' @ h' else h' @ e'"
  have p: "proof_loop H es (H ?x) (drop_bit 1 i) = (r, j)"
    "proof_loop H es' (H ?y) (drop_bit 1 i) = (r, j')"
    using Cons.prems(4,5) by (auto split: if_splits)
  have "(H ?x = H ?y \<and> es = es') \<or> collides H (proof_inputs H es (H ?x) (drop_bit 1 i)) (proof_inputs H es' (H ?y) (drop_bit 1 i))"
    using Cons.prems by (intro Cons.IH [OF _ _ _ p]) auto
  moreover have "?x = ?y \<longleftrightarrow> e = e' \<and> h = h'"
    using Cons.prems(2,3) by auto
  moreover have "proof_inputs H (e # es) h i = ?x # proof_inputs H es (H ?x) (drop_bit 1 i)"
    "proof_inputs H (e' # es') h' i = ?y # proof_inputs H es' (H ?y) (drop_bit 1 i)" by (simp_all add: Let_def)
  ultimately show ?case by (simp only: collides_Cons) blast
qed simp

lemma set_pair_level: "(\<And>x. length (H x) = n) \<Longrightarrow> \<forall>x \<in> set (pair_level H hs). length x = n"
  by (induction H hs rule: pair_level.induct) auto

lemma branch_of_sizes:
  assumes "\<And>x. length (H x) = n" "\<forall>x \<in> set hs. length x = n" "i < length hs"
  shows "\<forall>x \<in> set (branch_of H k hs i). length x = n"
  using assms(2,3)
proof (induction k arbitrary: hs i)
  case (Suc k)
  have "pad_even hs ! (i XOR 1) \<in> set (pad_even hs)" 
    using Suc.prems(2) by (intro nth_mem xor_1_less even_length_pad) (simp add: pad_even_def)
  then have "length (pad_even hs ! (i XOR 1)) = n" using Suc.prems last_in_set [of hs]
    by (cases "hs = []") (auto simp: pad_even_def simp del: last_in_set split: if_splits)
  moreover have "\<forall>x \<in> set (up H hs). length x = n" by (simp add: up_def set_pair_level [OF assms(1)])
  moreover have "i div 2 < length (up H hs)" using Suc.prems(2) by (simp add: length_up)
  ultimately show ?case using Suc.IH [of "up H hs" "i div 2"] by simp
qed simp

text \<open>C28: A branch binds its leaf: if anyone presents another leaf or another branch of the same length that
  verifies at the same index against the root that \<open>branch_and_root\<close> gives for the hashes, then the
  messages the verifier hashes for the two proofs contain a collision of the hash function, at one of the
  steps of the verification.\<close>

theorem merkle_proof_binding:
  assumes "branch_and_root H hashes index None = Inr (branch, r)" "root_from_proof H h' branch' index = Inr r"
    and "length branch' = length branch" "\<And>x. length (H x) = n"
    and "\<forall>x \<in> set hashes. length x = n" "\<forall>x \<in> insert h' (set branch'). length x = n"
  shows "(h' = hashes ! nat index \<and> branch' = branch) \<or>
    collides H (proof_inputs H branch (hashes ! nat index) index) (proof_inputs H branch' h' index)"
proof -
  from assms(1) obtain i where i: "index = int i" "i < length hashes"
    and b: "branch = branch_of H (clog (length hashes)) hashes i" by (rule branch_and_root_Inr)
  have "root_from_proof H (hashes ! nat index) branch index = Inr r" using natural_branch_verifies [OF assms(1)] by simp
  with assms(2) obtain j j' where "proof_loop H branch' h' index = (r, j)" "proof_loop H branch (hashes ! nat index) index = (r, j')"
    by (auto simp: root_from_proof_def split: prod.splits if_splits)
  moreover have "\<forall>x \<in> insert (hashes ! nat index) (set branch). length x = n"
    using branch_of_sizes [OF assms(4,5) i(2)] assms(5) i b by auto
  ultimately show ?thesis
    using proof_loop_binding [of branch branch' H n "hashes ! nat index" h' index] assms(3,4,6) by auto
qed

text \<open>Another leaf under the same root of a poor hash function: the verifier hashes 5, 6 for the one and 5, 7 for the other.\<close>

theorem merkle_proof_binding_witness:
  "collides (\<lambda>_. [0]) (proof_inputs (\<lambda>_. [0]) [[5::byte]] [6] 1) (proof_inputs (\<lambda>_. [0]) [[5]] [7] 1)"
proof -
  have 1: "branch_and_root (\<lambda>_. [0]) [[5::byte], [6]] 1 None = Inr ([[5]], [0])" by code_simp
  have 2: "root_from_proof (\<lambda>_. [0]) [7] [[5::byte]] 1 = Inr [0]"
    by (simp add: root_from_proof_def drop_bit_eq_div)
  from merkle_proof_binding [OF 1 2, of 1] show ?thesis by simp
qed

end
