(* ===== verification/MerkleCaching.thy ===== *)
theory MerkleCaching
  imports MerkleTree
begin

section \<open>Merkle branches from a cached level (MerkleCache of lib/merkle.py)\<close>

text \<open>
  The cache keeps one level of the tree over the first \<open>mc_length\<close> hashes of a source and computes
  branches from it.  \<open>source_func(start, count)\<close> is an argument of every operation that awaits it;
  an operation is modelled as running to completion with a source that does not change meanwhile.
  \<open>branch_and_root\<close> of an uninitialised cache waits for the \<open>initialized\<close> event: that is the
  result \<open>None\<close>.  The invariant \<open>mc_inv\<close> says that the cached level is the level of the tree over
  the covered hashes; the locale \<open>hash_source\<close> is the contract the cache needs from its source.
\<close>

record merkle_cache =
  mc_length :: nat
  mc_level :: "bytes list"
  mc_depth_higher :: nat
  mc_initialized :: bool

type_synonym source_func = "nat \<Rightarrow> nat \<Rightarrow> exn + bytes list"

definition mc_new :: merkle_cache where
  "mc_new = \<lparr>mc_length = 0, mc_level = [], mc_depth_higher = 0, mc_initialized = False\<rparr>"

definition segment_length :: "merkle_cache \<Rightarrow> nat" where
  "segment_length c = push_bit (mc_depth_higher c) 1"

definition leaf_start :: "merkle_cache \<Rightarrow> nat \<Rightarrow> nat" where
  "leaf_start c index = push_bit (mc_depth_higher c) (drop_bit (mc_depth_higher c) index)"

definition mc_level_of :: "(bytes \<Rightarrow> bytes) \<Rightarrow> merkle_cache \<Rightarrow> bytes list \<Rightarrow> exn + bytes list" where
  "mc_level_of H c hashes = level H hashes (mc_depth_higher c)"

definition extend_to ::
  "(bytes \<Rightarrow> bytes) \<Rightarrow> source_func \<Rightarrow> merkle_cache \<Rightarrow> nat \<Rightarrow> exn + merkle_cache" where
  "extend_to H source c len =
     (if len \<le> mc_length c then Inr c
      else let start = leaf_start c (mc_length c) in
        bindE (source start (len - start)) (\<lambda>hashes.
        bindE (mc_level_of H c hashes) (\<lambda>lv.
          Inr (c\<lparr>mc_level := take (drop_bit (mc_depth_higher c) start) (mc_level c) @ lv,
                 mc_length := len\<rparr>))))"

definition level_for ::
  "(bytes \<Rightarrow> bytes) \<Rightarrow> source_func \<Rightarrow> merkle_cache \<Rightarrow> nat \<Rightarrow> exn + bytes list" where
  "level_for H source c len =
     (if len = mc_length c then Inr (mc_level c)
      else
        let lv = take (drop_bit (mc_depth_higher c) len) (mc_level c);
            start = leaf_start c len;
            count = min (segment_length c) (len - start)
        in bindE (source start count) (\<lambda>hashes.
           bindE (mc_level_of H c hashes) (\<lambda>more. Inr (lv @ more))))"

definition mc_initialize ::
  "(bytes \<Rightarrow> bytes) \<Rightarrow> source_func \<Rightarrow> merkle_cache \<Rightarrow> nat \<Rightarrow> exn + merkle_cache" where
  "mc_initialize H source c len =
     bindE (tree_depth len) (\<lambda>depth.
     let c = c\<lparr>mc_length := len, mc_depth_higher := depth div 2\<rparr> in
     bindE (source 0 len) (\<lambda>hashes.
     bindE (mc_level_of H c hashes) (\<lambda>lv.
       Inr (c\<lparr>mc_level := lv, mc_initialized := True\<rparr>))))"

definition mc_truncate :: "merkle_cache \<Rightarrow> int \<Rightarrow> exn + merkle_cache" where
  "mc_truncate c len =
     (if len \<le> 0 then Inl ValueError
      else if len \<ge> int (mc_length c) then Inr c
      else let l = leaf_start c (nat len)
           in Inr (c\<lparr>mc_length := l,
                     mc_level := take (drop_bit (mc_depth_higher c) l) (mc_level c)\<rparr>))"

definition mc_branch_and_root ::
  "(bytes \<Rightarrow> bytes) \<Rightarrow> source_func \<Rightarrow> merkle_cache \<Rightarrow> int \<Rightarrow> int \<Rightarrow>
     (exn + merkle_cache \<times> bytes list \<times> bytes) option" where
  "mc_branch_and_root H source c len index =
     (if len \<le> 0 then Some (Inl ValueError)
      else if index \<ge> len then Some (Inl ValueError)
      else if \<not> mc_initialized c then None
      else Some (
        let len = nat len in
        bindE (extend_to H source c len) (\<lambda>c.
        let start = leaf_start c (nat index);
            count = min (segment_length c) (len - start) in
        bindE (source start count) (\<lambda>leaf_hashes.
        if len < segment_length c
        then bindE (branch_and_root H leaf_hashes index None) (\<lambda>br. Inr (c, br))
        else bindE (level_for H source c len) (\<lambda>lv.
          bindE (branch_and_root_from_level H lv leaf_hashes (nat index) (mc_depth_higher c))
            (\<lambda>br. Inr (c, br)))))))"

subsection \<open>A level is computed segment by segment\<close>

lemma push_drop_nat: "push_bit d (drop_bit d (i::nat)) = i div 2 ^ d * 2 ^ d"
  by (simp add: push_bit_eq_mult drop_bit_eq_div)

lemma levels_singleton:
  "hs \<noteq> [] \<Longrightarrow> length hs \<le> 2 ^ d \<Longrightarrow> levels H d hs = [levels H d hs ! 0]"
  using length_levels_le [of hs d H] by (cases "levels H d hs") auto

lemma merkle_root_levels:
  "hs \<noteq> [] \<Longrightarrow> length hs \<le> 2 ^ d \<Longrightarrow>
   merkle_root H hs (Some (int d)) = Inr (levels H d hs ! 0)"
  using branch_and_root_length [of 0 hs d H] by (simp add: merkle_root_def)

lemma level_levels: "level H hs d = Inr (levels H d hs)"
proof -
  have "mapE (\<lambda>c. merkle_root H c (Some (int d))) (chunks hs sz) = Inr (levels H d hs)"
    if "sz = 2 ^ d" for sz
    using that
  proof (induction hs sz rule: chunks.induct)
    case (1 hs sz)
    show ?case
    proof (cases "hs = []")
      case False
      let ?l = "take sz hs" let ?r = "drop sz hs"
      have l: "?l \<noteq> []" "length ?l \<le> 2 ^ d" using False 1(2) by auto
      have "levels H d (?l @ ?r) = levels H d ?l @ levels H d ?r"
      proof (cases "?r = []")
        case False
        then have "2 ^ d dvd length ?l" using 1(2) by simp
        then show ?thesis by (rule levels_append)
      qed (simp add: append_Nil2)
      moreover have "levels H d ?l = [levels H d ?l ! 0]" using l by (rule levels_singleton)
      ultimately have "levels H d hs = (levels H d ?l ! 0) # levels H d ?r" by simp
      with 1 False l show ?thesis by (simp add: chunks_step merkle_root_levels)
    qed simp
  qed
  then show ?thesis by (simp add: level_def push_bit_eq_mult)
qed

lemma length_levels: "length (levels H d hs) = (length hs + 2 ^ d - 1) div 2 ^ d"
proof (induction d arbitrary: hs)
  case (Suc d)
  have "length (levels H (Suc d) hs) = ((length hs + 1) div 2 + 2 ^ d - 1) div 2 ^ d"
    by (simp add: Suc length_up)
  also have "(length hs + 1) div 2 + 2 ^ d - 1 = (length hs + 2 ^ Suc d - 1) div 2"
    using one_le_power [of "2::nat" d] by simp
  finally show ?case by (simp add: div_mult2_eq)
qed simp

lemma clog_unique: "0 < n \<Longrightarrow> (\<And>k. n \<le> 2 ^ k \<longleftrightarrow> m \<le> k) \<Longrightarrow> clog n = m"
  by (meson clog_le_iff le_antisym order_refl)

lemma less_rounded: "0 < p \<Longrightarrow> n + p - 1 < (k + 1) * p \<longleftrightarrow> n \<le> k * (p::nat)"
proof -
  assume "0 < p"
  then show ?thesis unfolding add_mult_distrib by arith
qed

lemma clog_levels:
  assumes "2 ^ d \<le> n"
  shows "clog ((n + 2 ^ d - 1) div 2 ^ d) = clog n - d" and "d \<le> clog n"
proof -
  have p: "0 < (2::nat) ^ d" by simp
  from p assms have n: "0 < n" by (rule less_le_trans)
  have m: "0 < (n + 2 ^ d - 1) div 2 ^ d" using assms p by (simp add: div_greater_zero_iff)
  have iff: "(n + 2 ^ d - 1) div 2 ^ d \<le> 2 ^ k \<longleftrightarrow> n \<le> 2 ^ (k + d)" for k
  proof -
    have "(n + 2 ^ d - 1) div 2 ^ d \<le> 2 ^ k \<longleftrightarrow> n + 2 ^ d - 1 < (2 ^ k + 1) * 2 ^ d"
      using div_less_iff_less_mult [OF p, of "n + 2 ^ d - 1" "2 ^ k + 1"] by (simp add: less_Suc_eq_le)
    also have "\<dots> \<longleftrightarrow> n \<le> 2 ^ (k + d)" unfolding power_add by (rule less_rounded [OF p])
    finally show ?thesis .
  qed
  show "clog ((n + 2 ^ d - 1) div 2 ^ d) = clog n - d"
  proof (rule clog_unique [OF m])
    fix k
    show "(n + 2 ^ d - 1) div 2 ^ d \<le> 2 ^ k \<longleftrightarrow> clog n - d \<le> k"
      unfolding iff le_diff_conv by (rule clog_le_iff [OF n, symmetric])
  qed
  have "(2::nat) ^ d \<le> 2 ^ clog n" using assms clog_bound [OF n] by linarith
  then show "d \<le> clog n" by simp
qed

text \<open>The segment of the leaves around an index, as the code asks the source for it.\<close>

lemma segment_decomp:
  fixes i d :: nat and hs :: "'a list"
  assumes "i < length hs"
  defines "li \<equiv> i div 2 ^ d * 2 ^ d"
  defines "seg \<equiv> slice hs li (li + min (2 ^ d) (length hs - li))"
  obtains pre post where "hs = pre @ seg @ post" "length pre = li" "i - li < length seg" "li \<le> i"
    "length seg \<le> 2 ^ d" "2 ^ d dvd length seg \<or> post = []"
proof -
  have li: "li \<le> i" by (simp add: li_def)
  have "i - li = i mod 2 ^ d" by (simp add: li_def minus_div_mult_eq_mod)
  then have m: "i - li < 2 ^ d" by simp
  have len: "length seg = min (2 ^ d) (length hs - li)" using assms(1) li by (simp add: seg_def)
  have "hs = take li hs @ seg @ drop (li + length seg) hs"
  proof -
    have "hs = take li hs @ take k (drop li hs) @ drop (li + k) hs" for k
      using append_take_drop_id [of li hs] append_take_drop_id [of k "drop li hs"]
      by (simp only: drop_drop add.commute)
    then show ?thesis unfolding len by (simp add: seg_def slice_def)
  qed
  moreover have "length (take li hs) = li" using li assms(1) by simp
  moreover have "i - li < length seg" "length seg \<le> 2 ^ d"
    "2 ^ d dvd length seg \<or> drop (li + length seg) hs = []"
    using m li assms(1) by (auto simp: len min_def)
  ultimately show ?thesis using li by (intro that)
qed

lemma from_level_correct:
  fixes i d :: nat
  assumes i: "i < length hs" and d: "2 ^ d \<le> length hs"
  defines "li \<equiv> i div 2 ^ d * 2 ^ d"
  shows "branch_and_root_from_level H (levels H d hs)
      (slice hs li (li + min (2 ^ d) (length hs - li))) i d = branch_and_root H hs (int i) None"
proof -
  let ?seg = "slice hs li (li + min (2 ^ d) (length hs - li))"
  let ?lv = "levels H d hs" let ?n = "length hs"
  obtain pre post where hs: "hs = pre @ ?seg @ post" and pre: "length pre = li"
    and j: "i - li < length ?seg" and li: "li \<le> i" and seg: "length ?seg \<le> 2 ^ d"
    and post: "2 ^ d dvd length ?seg \<or> post = []"
    using segment_decomp [OF i, of d] unfolding li_def by blast
  have dvd: "2 ^ d dvd length pre" by (simp add: pre li_def)
  have ne: "?seg \<noteq> []" using j by (metis less_nat_zero_code list.size(3))
  have "levels H d (pre @ ?seg @ post) = levels H d pre @ levels H d ?seg @ levels H d post"
    using dvd post by (auto simp: levels_append)
  then have lv: "?lv = levels H d pre @ [levels H d ?seg ! 0] @ levels H d post"
    using hs levels_singleton [OF ne seg] by metis
  have lp: "length (levels H d pre) = i div 2 ^ d"
    using length_levels_dvd [OF dvd] pre by (simp add: li_def)
  have at: "?lv ! (i div 2 ^ d) = levels H d ?seg ! 0" "i div 2 ^ d < length ?lv"
    using lv lp by (simp_all add: nth_append)
  have leaf: "branch_and_root H ?seg (int i - int li) (Some (int d)) =
      Inr (branch_of H d ?seg (i - li), levels H d ?seg ! 0)"
    using branch_and_root_length [OF j seg, of H] li by (simp add: of_nat_diff)
  have top: "branch_and_root H ?lv (int (i div 2 ^ d)) None =
      Inr (branch_of H (clog ?n - d) ?lv (i div 2 ^ d), levels H (clog ?n - d) ?lv ! 0)"
    using branch_and_root_natural [OF at(2), of H] clog_levels(1) [OF d] by (simp add: length_levels)
  have "branch_of H d hs i = branch_of H d ?seg (i - li)"
    using branch_of_segment [OF dvd j post] hs pre li by simp
  then have "branch_of H (clog ?n) hs i = branch_of H d ?seg (i - li)
      @ branch_of H (clog ?n - d) ?lv (i div 2 ^ d)"
    using branch_of_add [of H d "clog ?n - d" hs i] clog_levels(2) [OF d] by simp
  moreover have "levels H (clog ?n) hs = levels H (clog ?n - d) ?lv"
    using levels_add [of H d "clog ?n - d" hs] clog_levels(2) [OF d] by simp
  moreover have "push_bit d (drop_bit d i) = li" by (simp add: li_def push_drop_nat)
  ultimately show ?thesis
    using branch_and_root_natural [OF i, of H] leaf top at(1)
    by (simp add: branch_and_root_from_level_def Let_def drop_bit_eq_div)
qed

subsection \<open>The contract of the source, and the cache's invariant\<close>

text \<open>The hashes \<open>full\<close> are those the source answers from: any range inside them is returned.\<close>

locale hash_source =
  fixes source :: source_func and full :: "bytes list"
  assumes source_range:
    "start + count \<le> length full \<Longrightarrow> source start count = Inr (slice full start (start + count))"

definition mc_inv :: "(bytes \<Rightarrow> bytes) \<Rightarrow> bytes list \<Rightarrow> merkle_cache \<Rightarrow> bool" where
  "mc_inv H full c \<longleftrightarrow> mc_length c \<le> length full \<and>
     mc_level c = levels H (mc_depth_higher c) (take (mc_length c) full)"

lemma leaf_start_mult: "leaf_start c i = i div 2 ^ mc_depth_higher c * 2 ^ mc_depth_higher c"
  by (simp add: leaf_start_def push_drop_nat)

lemma leaf_start_le: "leaf_start c i \<le> i"
  by (simp add: leaf_start_mult)

lemma leaf_start_rest: "i - leaf_start c i < segment_length c"
  by (simp add: leaf_start_mult minus_div_mult_eq_mod segment_length_def push_bit_eq_mult)

lemma take_levels:
  assumes "2 ^ d dvd k" "k \<le> length hs"
  shows "take (k div 2 ^ d) (levels H d hs) = levels H d (take k hs)"
proof -
  have "levels H d (take k hs @ drop k hs) = levels H d (take k hs) @ levels H d (drop k hs)"
    using assms by (intro levels_append) simp
  moreover have "length (levels H d (take k hs)) = k div 2 ^ d"
    using assms length_levels_dvd [of d "take k hs" H] by simp
  ultimately show ?thesis by (metis append_take_drop_id append_eq_conv_conj)
qed

lemma take_append_slice: "a \<le> b \<Longrightarrow> take a xs @ slice xs a b = take b xs"
  by (metis slice_def take_add le_add_diff_inverse)

lemma level_prefix:
  assumes "mc_inv H full c" "k \<le> mc_length c"
  shows "take (drop_bit (mc_depth_higher c) (leaf_start c k)) (mc_level c)
    = levels H (mc_depth_higher c) (take (leaf_start c k) full)"
proof -
  let ?d = "mc_depth_higher c"
  have le: "leaf_start c k \<le> mc_length c" using leaf_start_le [of c k] assms(2) by linarith
  have "take (leaf_start c k div 2 ^ ?d) (levels H ?d (take (mc_length c) full))
      = levels H ?d (take (leaf_start c k) (take (mc_length c) full))"
    using assms(1) le by (intro take_levels) (simp_all add: leaf_start_mult mc_inv_def)
  also have "take (leaf_start c k) (take (mc_length c) full) = take (leaf_start c k) full"
    using le by (simp add: min_def)
  finally show ?thesis using assms(1) by (simp add: mc_inv_def drop_bit_eq_div)
qed

lemma levels_extend:
  assumes "leaf_start c k \<le> b"
  shows "levels H (mc_depth_higher c) (take (leaf_start c k) full)
      @ levels H (mc_depth_higher c) (slice full (leaf_start c k) b)
    = levels H (mc_depth_higher c) (take b full)"
proof (cases "leaf_start c k \<le> length full")
  case True
  then have "2 ^ mc_depth_higher c dvd length (take (leaf_start c k) full)"
    by (simp add: leaf_start_mult)
  from levels_append [OF this, of H "slice full (leaf_start c k) b"] show ?thesis
    using assms by (simp add: take_append_slice)
next
  case False
  with assms show ?thesis by (simp add: slice_def)
qed

context hash_source
begin

lemma initialize_inv:
  assumes "0 < len" "len \<le> length full"
  shows "\<exists>c'. mc_initialize H source c len = Inr c' \<and> mc_inv H full c' \<and> mc_initialized c'
    \<and> mc_length c' = len"
  using assms source_range [of 0 len]
  by (simp add: mc_initialize_def tree_depth_def branch_length_clog mc_level_of_def level_levels
      mc_inv_def slice_def Let_def)

lemma extend_to_inv:
  assumes "mc_inv H full c" "len \<le> length full"
  shows "\<exists>c'. extend_to H source c len = Inr c' \<and> mc_inv H full c' \<and> len \<le> mc_length c'
    \<and> mc_depth_higher c' = mc_depth_higher c \<and> mc_initialized c' = mc_initialized c"
proof (cases "len \<le> mc_length c")
  case True
  with assms show ?thesis by (simp add: extend_to_def)
next
  case False
  let ?s = "leaf_start c (mc_length c)"
  have s: "?s \<le> len" using False leaf_start_le [of c "mc_length c"] by linarith
  then have "source ?s (len - ?s) = Inr (slice full ?s len)"
    using source_range [of ?s "len - ?s"] assms(2) by simp
  moreover have "levels H (mc_depth_higher c) (take ?s full)
      @ levels H (mc_depth_higher c) (slice full ?s len) = levels H (mc_depth_higher c) (take len full)"
    using s by (rule levels_extend)
  ultimately show ?thesis
    using False assms level_prefix [OF assms(1) order_refl]
    by (simp add: extend_to_def Let_def mc_level_of_def level_levels mc_inv_def)
qed

lemma level_for_correct:
  assumes "mc_inv H full c" "len \<le> mc_length c"
  shows "level_for H source c len = Inr (levels H (mc_depth_higher c) (take len full))"
proof (cases "len = mc_length c")
  case True
  with assms show ?thesis by (simp add: level_for_def mc_inv_def)
next
  case False
  let ?s = "leaf_start c len"
  have count: "min (segment_length c) (len - ?s) = len - ?s"
    using leaf_start_rest [of len c] by simp
  have "source ?s (len - ?s) = Inr (slice full ?s len)"
    using source_range [of ?s "len - ?s"] assms leaf_start_le [of c len] by (simp add: mc_inv_def)
  moreover have "drop_bit (mc_depth_higher c) ?s = drop_bit (mc_depth_higher c) len"
    by (simp add: leaf_start_mult drop_bit_eq_div)
  ultimately show ?thesis
    using False level_prefix [OF assms] levels_extend [OF leaf_start_le, of H c len full] count
    by (simp add: level_for_def Let_def mc_level_of_def level_levels)
qed

lemma branch_and_root_correct:
  assumes "mc_inv H full c" "mc_initialized c" "index < len" "len \<le> length full"
  shows "\<exists>c'. mc_inv H full c' \<and> mc_initialized c' \<and>
    mc_branch_and_root H source c (int len) (int index) =
      Some (bindE (branch_and_root H (take len full) (int index) None) (\<lambda>br. Inr (c', br)))"
proof -
  obtain c' where c': "extend_to H source c len = Inr c'" "mc_inv H full c'" "len \<le> mc_length c'"
    "mc_initialized c'"
    using extend_to_inv [OF assms(1,4)] assms(2) by auto
  let ?s = "leaf_start c' index" let ?d = "mc_depth_higher c'"
  let ?count = "min (segment_length c') (len - ?s)"
  have seg: "segment_length c' = 2 ^ ?d" by (simp add: segment_length_def push_bit_eq_mult)
  have s: "?s \<le> index" by (rule leaf_start_le)
  have src: "source ?s ?count = Inr (slice full ?s (?s + ?count))"
    using source_range [of ?s ?count] s assms(3,4) by simp
  have sl: "slice full ?s (?s + ?count) = slice (take len full) ?s (?s + ?count)"
    using s assms(3,4) by (simp add: slice_def take_drop [symmetric] drop_take min_def)
  have "bindE (extend_to H source c len) (\<lambda>c.
        let start = leaf_start c index; count = min (segment_length c) (len - start) in
        bindE (source start count) (\<lambda>leaf_hashes.
        if len < segment_length c
        then bindE (branch_and_root H leaf_hashes (int index) None) (\<lambda>br. Inr (c, br))
        else bindE (level_for H source c len) (\<lambda>lv.
          bindE (branch_and_root_from_level H lv leaf_hashes index (mc_depth_higher c))
            (\<lambda>br. Inr (c, br))))) =
      bindE (branch_and_root H (take len full) (int index) None) (\<lambda>br. Inr (c', br))"
  proof (cases "len < 2 ^ ?d")
    case True
    then have "?s = 0" using assms(3) by (simp add: leaf_start_mult)
    then have "slice full ?s (?s + ?count) = take len full"
      using True seg by (simp add: slice_def)
    with True src seg c' show ?thesis by (simp add: Let_def)
  next
    case False
    have "branch_and_root_from_level H (levels H ?d (take len full))
        (slice (take len full) ?s (?s + ?count)) index ?d = branch_and_root H (take len full) (int index) None"
      using from_level_correct [of index "take len full" ?d H] assms(3,4) False seg
      by (simp add: leaf_start_mult)
    with False src sl seg c' level_for_correct [OF c'(2,3)] show ?thesis by (simp add: Let_def)
  qed
  with c' assms(2,3) show ?thesis
    by (intro exI [of _ c']) (simp add: mc_branch_and_root_def cong: if_cong)
qed

end

lemma truncate_inv:
  assumes "mc_inv H full c" "mc_truncate c len = Inr c'"
  shows "mc_inv H (take (nat len) full) c' \<and> mc_initialized c' = mc_initialized c
    \<and> int (mc_length c') \<le> max len 0"
proof (cases "len \<ge> int (mc_length c)")
  case True
  with assms show ?thesis
    by (auto simp: mc_truncate_def mc_inv_def min_def split: if_splits)
next
  case False
  then have "leaf_start c (nat len) \<le> nat len" "nat len \<le> mc_length c" "0 < len"
    using assms leaf_start_le [of c "nat len"] by (auto simp: mc_truncate_def split: if_splits)
  with False assms level_prefix [OF assms(1), of "nat len"] show ?thesis
    by (auto simp: mc_truncate_def Let_def mc_inv_def min_def)
qed

text \<open>The source of a block's transaction hashes (\<open>tx_hashes_func\<close> of \<open>server/session.py\<close>) is a slice of
  the list; it meets the contract.\<close>

definition tx_hashes_func :: "bytes list \<Rightarrow> source_func" where
  "tx_hashes_func tx_hashes start count = Inr (slice tx_hashes start (start + count))"

interpretation tx_source: hash_source "tx_hashes_func tx_hashes" tx_hashes for tx_hashes
  by unfold_locales (simp add: tx_hashes_func_def)

text \<open>C25: on any source that meets its contract, an initialised cache answers every request exactly
  as the uncached computation over the first \<open>len\<close> hashes would, and keeps its invariant.\<close>

theorem merkle_cache_equivalent:
  assumes "hash_source source full" "mc_inv H full c" "mc_initialized c"
    and "index < len" "len \<le> length full"
  shows "\<exists>c'. mc_inv H full c' \<and> mc_initialized c' \<and>
    mc_branch_and_root H source c (int len) (int index) =
      Some (bindE (branch_and_root H (take len full) (int index) None) (\<lambda>br. Inr (c', br)))"
  using assms by (rule hash_source.branch_and_root_correct)

theorem merkle_cache_equivalent_witness:
  "\<exists>c'. mc_inv (take 1) [[1], [2], [3]] c' \<and> mc_initialized c' \<and>
    mc_branch_and_root (take 1) (tx_hashes_func [[1], [2], [3]])
      \<lparr>mc_length = 2, mc_level = [[1]], mc_depth_higher = 1, mc_initialized = True\<rparr> (int 3) (int 2) =
      Some (bindE (branch_and_root (take 1) (take 3 [[1], [2], [3]]) (int 2) None)
        (\<lambda>br. Inr (c', br)))"
proof (rule merkle_cache_equivalent)
  show "hash_source (tx_hashes_func [[1], [2], [3]]) [[1], [2], [3]]" by unfold_locales
  show "mc_inv (take 1) [[1], [2], [3]]
      \<lparr>mc_length = 2, mc_level = [[1]], mc_depth_higher = 1, mc_initialized = True\<rparr>"
    by (simp add: mc_inv_def numeral_2_eq_2 up_def pad_even_def)
qed simp_all

lemma mc_inv_append: "mc_inv H full c \<Longrightarrow> mc_inv H (full @ rest) c"
  by (simp add: mc_inv_def)

lemma mc_inv_take:
  assumes "mc_inv H (take n full) c" "take n full' = take n full"
  shows "mc_inv H full' c"
proof -
  have le: "mc_length c \<le> length (take n full')" using assms by (simp add: mc_inv_def)
  then have "take (mc_length c) full' = take (mc_length c) (take n full')" by (simp add: min.absorb1)
  also have "\<dots> = take (mc_length c) (take n full)" using assms(2) by simp
  finally have "mc_level c = levels H (mc_depth_higher c) (take (mc_length c) full')"
    using assms(1) unfolding mc_inv_def by argo
  moreover have "mc_length c \<le> length full'" using le by simp
  ultimately show ?thesis unfolding mc_inv_def by blast
qed

lemma mc_truncate_total: "0 < len \<Longrightarrow> \<exists>c'. mc_truncate c len = Inr c'"
  by (cases "int (mc_length c) \<le> len") (simp_all add: mc_truncate_def Let_def)

lemma mc_inv_initialized:
  assumes "hash_source source full" "mc_inv H full c" "len \<le> length full"
  shows "\<exists>c'. extend_to H source c len = Inr c' \<and> mc_inv H full c' \<and> mc_initialized c' = mc_initialized c
    \<and> mc_length c' = max len (mc_length c)"
proof -
  obtain c' where c': "extend_to H source c len = Inr c'" "mc_inv H full c'" "mc_initialized c' = mc_initialized c"
    using hash_source.extend_to_inv [OF assms] by blast
  then have "mc_length c' = max len (mc_length c)"
    by (auto simp: extend_to_def Let_def bindE_Inr_iff split: if_splits)
  with c' show ?thesis by blast
qed

text \<open>The life of a cache over a source whose hashes change: it is initialised, extended, the source gets new hashes,
  and when the hashes from \<open>n\<close> on are replaced the cache is truncated to \<open>n\<close>, as the block processor does on a
  reorganisation.\<close>

inductive cache_run :: "(bytes \<Rightarrow> bytes) \<Rightarrow> bytes list \<Rightarrow> merkle_cache \<Rightarrow> bool" for H where
  initialised: "hash_source source full \<Longrightarrow> 0 < len \<Longrightarrow> len \<le> length full \<Longrightarrow>
     mc_initialize H source mc_new len = Inr c \<Longrightarrow> cache_run H full c"
| extended: "cache_run H full c \<Longrightarrow> hash_source source full \<Longrightarrow> len \<le> length full \<Longrightarrow>
     extend_to H source c len = Inr c' \<Longrightarrow> cache_run H full c'"
| grown: "cache_run H full c \<Longrightarrow> cache_run H (full @ rest) c"
| replaced: "cache_run H full c \<Longrightarrow> mc_truncate c (int n) = Inr c' \<Longrightarrow> take n full' = take n full \<Longrightarrow> cache_run H full' c'"

lemma cache_run_inv: "cache_run H full c \<Longrightarrow> mc_inv H full c \<and> mc_initialized c"
proof (induction rule: cache_run.induct)
  case (initialised source full len c)
  then show ?case using hash_source.initialize_inv [of source full len H mc_new] by auto
next
  case (extended full c source len c')
  then show ?case using mc_inv_initialized [of source full H c len] by auto
next
  case (grown full c rest)
  then show ?case by (simp add: mc_inv_append)
next
  case (replaced full c n c' full')
  then show ?case using truncate_inv [of H full c "int n" c'] mc_inv_take [of H n full c' full'] by simp
qed

text \<open>C26: However a cache was initialised, extended and truncated while its source grew and was replaced, it holds the
  level of the tree over the hashes it covers.  Extending it to any length the source has then succeeds and covers that
  length; truncating it to any positive length succeeds and leaves a valid cache of the truncated list, whose cover ends
  within the last segment below that length unless it was shorter already.\<close>

theorem merkle_cache_maintained:
  assumes "cache_run H full c" "hash_source source full"
  shows "mc_inv H full c \<and> mc_initialized c
    \<and> (\<forall>len \<le> length full. \<exists>c'. extend_to H source c len = Inr c' \<and> mc_inv H full c' \<and> mc_initialized c'
         \<and> mc_length c' = max len (mc_length c))
    \<and> (\<forall>n > 0. \<exists>c'. mc_truncate c (int n) = Inr c' \<and> mc_inv H (take n full) c' \<and> mc_initialized c'
         \<and> mc_length c' \<le> n \<and> (mc_length c' = mc_length c \<or> n < mc_length c' + segment_length c))"
proof -
  note inv = cache_run_inv [OF assms(1)]
  have "\<exists>c'. mc_truncate c (int n) = Inr c' \<and> mc_inv H (take n full) c' \<and> mc_initialized c'
         \<and> mc_length c' \<le> n \<and> (mc_length c' = mc_length c \<or> n < mc_length c' + segment_length c)" if "0 < n" for n
  proof -
    obtain c' where c': "mc_truncate c (int n) = Inr c'" using mc_truncate_total [of "int n"] \<open>0 < n\<close> by auto
    then have "mc_length c' = mc_length c \<or> mc_length c' = leaf_start c n"
      using \<open>0 < n\<close> by (auto simp: mc_truncate_def Let_def split: if_splits)
    then have "mc_length c' = mc_length c \<or> n < mc_length c' + segment_length c"
      using leaf_start_rest [of n c] leaf_start_le [of c n] by linarith
    with c' truncate_inv [OF conjunct1 [OF inv] c'] inv show ?thesis by auto
  qed
  then show ?thesis using inv mc_inv_initialized [OF assms(2) conjunct1 [OF inv]] by blast
qed

text \<open>A cache of three hashes, of which the last is replaced and two more come.\<close>

theorem merkle_cache_maintained_witness:
  "\<exists>c c'. cache_run (take 1) [[1], [2], [4], [5]] c \<and>
    extend_to (take 1) (tx_hashes_func [[1], [2], [4], [5]]) c 4 = Inr c' \<and> mc_inv (take 1) [[1], [2], [4], [5]] c'"
proof -
  let ?full = "[[1], [2], [4], [5]] :: bytes list"
  have src: "hash_source (tx_hashes_func hs) hs" for hs by unfold_locales
  obtain c0 where c0: "mc_initialize (take 1) (tx_hashes_func [[1], [2], [3]]) mc_new 3 = Inr c0"
    using hash_source.initialize_inv [OF src, of 3 "[[1], [2], [3]]" "take 1" mc_new] by auto
  then have run0: "cache_run (take 1) [[1], [2], [3]] c0" by (intro initialised [OF src _ _ c0]) simp_all
  obtain c where c: "mc_truncate c0 (int 2) = Inr c" using mc_truncate_total [of "int 2"] by auto
  have run: "cache_run (take 1) ?full c" by (rule replaced [OF run0 c]) simp
  obtain c' where "extend_to (take 1) (tx_hashes_func ?full) c 4 = Inr c'" "mc_inv (take 1) ?full c'"
    using conjunct1 [OF conjunct2 [OF conjunct2 [OF merkle_cache_maintained [OF run src]]], rule_format, of 4] by auto
  with run show ?thesis by blast
qed

end
