(* ===== verification/Hashes.thy ===== *)
theory Hashes
  imports PyUtil
begin

section \<open>Hex strings and Base58 (lib/hash.py)\<close>

text \<open>
  The display form of a hash (reversed bytes in hexadecimal), and Base58 with and without checksum.
  The hash function of the checksum is an argument, as in the code (\<open>hash_fn\<close>).  A Python \<open>str\<close> is
  a \<open>string\<close>; the strings these functions produce and accept are ASCII.
\<close>

abbreviation hashX_len :: nat where "hashX_len \<equiv> 11"

subsection \<open>Hexadecimal\<close>

definition hex_digits :: string where
  "hex_digits = ''0123456789abcdef''"

definition hex_of_byte :: "byte \<Rightarrow> string" where
  "hex_of_byte b = [hex_digits ! (unat b div 16), hex_digits ! (unat b mod 16)]"

text \<open>\<open>bytes.hex\<close> and \<open>bytes.fromhex\<close>; the latter skips ASCII white space between bytes and accepts
  both cases, and raises \<open>ValueError\<close> for anything else.\<close>

definition hex_encode :: "bytes \<Rightarrow> string" where
  "hex_encode bs = concat (map hex_of_byte bs)"

definition hex_digit_value :: "char \<Rightarrow> nat option" where
  "hex_digit_value c =
     (let n = of_char c :: nat in
      if 48 \<le> n \<and> n \<le> 57 then Some (n - 48)
      else if 97 \<le> n \<and> n \<le> 102 then Some (n - 87)
      else if 65 \<le> n \<and> n \<le> 70 then Some (n - 55)
      else None)"

definition is_ascii_space :: "char \<Rightarrow> bool" where
  "is_ascii_space c \<longleftrightarrow> (of_char c :: nat) \<in> {32, 9, 10, 11, 12, 13}"

fun hex_to_bytes :: "string \<Rightarrow> exn + bytes" where
  "hex_to_bytes [] = Inr []"
| "hex_to_bytes [c] = (if is_ascii_space c then Inr [] else Inl ValueError)"
| "hex_to_bytes (c # d # s) =
     (if is_ascii_space c then hex_to_bytes (d # s)
      else case (hex_digit_value c, hex_digit_value d) of
        (Some a, Some b) \<Rightarrow> bindE (hex_to_bytes s) (\<lambda>bs. Inr (of_nat (16 * a + b) # bs))
      | _ \<Rightarrow> Inl ValueError)"

definition hash_to_hex_str :: "bytes \<Rightarrow> string" where
  "hash_to_hex_str x = hex_encode (rev x)"

definition hex_str_to_hash :: "string \<Rightarrow> exn + bytes" where
  "hex_str_to_hash x = bindE (hex_to_bytes x) (\<lambda>bs. Inr (rev bs))"

lemma hex_digit: 
  assumes "n < 16"
  shows "hex_digit_value (hex_digits ! n) = Some n" "\<not> is_ascii_space (hex_digits ! n)"
proof -
  have "\<forall>n \<in> set [0..<16]. hex_digit_value (hex_digits ! n) = Some n \<and> \<not> is_ascii_space (hex_digits ! n)"
    by code_simp
  then show "hex_digit_value (hex_digits ! n) = Some n" "\<not> is_ascii_space (hex_digits ! n)"
    using assms by auto
qed

lemma unat_byte_less: "unat (b :: byte) < 256"
  using unsigned_less [of b] by simp

lemma hex_to_bytes_encode: "hex_to_bytes (hex_encode bs) = Inr bs"
proof (induction bs)
  case (Cons b bs)
  have "unat b div 16 < 16" using unat_byte_less [of b] by simp
  moreover have "16 * (unat b div 16) + unat b mod 16 = unat b" by simp
  ultimately show ?case
    using Cons by (simp add: hex_encode_def hex_of_byte_def hex_digit)
qed (simp add: hex_encode_def)

text \<open>Displaying a hash and reading it back gives the hash, and the display form has two
  characters per byte.\<close>

theorem hex_roundtrip:
  "hex_str_to_hash (hash_to_hex_str x) = Inr x \<and> length (hash_to_hex_str x) = 2 * length x"
  by (simp add: hex_str_to_hash_def hash_to_hex_str_def hex_to_bytes_encode)
    (simp add: hex_encode_def hex_of_byte_def length_concat comp_def sum_list_triv)

subsection \<open>Base58\<close>

definition base58_chars :: string where
  "base58_chars = ''123456789ABCDEFGHJKLMNPQRSTUVWXYZabcdefghijkmnopqrstuvwxyz''"

definition base58_cmap :: "char \<Rightarrow> nat option" where
  "base58_cmap = map_of (zip base58_chars [0..<58])"

definition char_value :: "char \<Rightarrow> exn + nat" where
  "char_value c = (case base58_cmap c of None \<Rightarrow> Inl Base58Error | Some v \<Rightarrow> Inr v)"

fun base58_value :: "string \<Rightarrow> nat \<Rightarrow> exn + nat" where
  "base58_value [] val = Inr val"
| "base58_value (c # str) val = bindE (char_value c) (\<lambda>d. base58_value str (val * 58 + d))"

fun count_leading :: "'a \<Rightarrow> 'a list \<Rightarrow> nat" where
  "count_leading a [] = 0"
| "count_leading a (c # str) = (if c \<noteq> a then 0 else Suc (count_leading a str))"

definition base58_decode :: "string \<Rightarrow> exn + bytes" where
  "base58_decode str =
     bindE (raise_if (str = []) Base58Error) (\<lambda>_.
     bindE (base58_value str 0) (\<lambda>val.
     bindE (int_to_bytes val) (\<lambda>res.
     let count = count_leading (CHR ''1'') str in
     Inr (if count \<noteq> 0 then replicate count 0 @ res else res))))"

fun base58_digits :: "nat \<Rightarrow> string \<Rightarrow> string" where
  "base58_digits val str =
     (if val = 0 then str
      else base58_digits (val div 58) (str @ [base58_chars ! (val mod 58)]))"

declare base58_digits.simps [simp del]

definition base58_encode :: "bytes \<Rightarrow> string" where
  "base58_encode be_bytes =
     rev (base58_digits (bytes_to_int be_bytes) []
          @ replicate (count_leading 0 be_bytes) (CHR ''1''))"

definition decode_check :: "(bytes \<Rightarrow> bytes) \<Rightarrow> string \<Rightarrow> exn + bytes" where
  "decode_check hash_fn str =
     bindE (base58_decode str) (\<lambda>be_bytes.
     let res = butsuffix 4 be_bytes; check = suffix_of 4 be_bytes in
     if check \<noteq> take 4 (hash_fn res) then Inl Base58Error else Inr res)"

definition encode_check :: "(bytes \<Rightarrow> bytes) \<Rightarrow> bytes \<Rightarrow> string" where
  "encode_check hash_fn payload = base58_encode (payload @ take 4 (hash_fn payload))"

subsection \<open>Minimal big-endian byte strings\<close>

definition minimal_bytes :: "nat \<Rightarrow> bytes" where
  "minimal_bytes v = be_encode ((bit_length v + 7) div 8) v"

lemma int_to_bytes_minimal: "int_to_bytes v = Inr (minimal_bytes v)"
  by (simp add: int_to_bytes_Inr minimal_bytes_def)

lemma be_decode_minimal: "be_decode (minimal_bytes v) = v"
  using int_to_bytes_fits by (simp add: minimal_bytes_def)

lemma be_decode_lead:
  assumes "hd xs \<noteq> 0" "xs \<noteq> []"
  shows "256 ^ (length xs - 1) \<le> be_decode xs"
proof -
  obtain b bs where xs: "xs = b # bs" using assms(2) by (cases xs) auto
  then have "1 \<le> unat b" using assms(1) by (simp add: Suc_leI unat_gt_0)
  then have "1 * 256 ^ length bs \<le> unat b * 256 ^ length bs" by (intro mult_le_mono1)
  then show ?thesis by (simp add: xs be_decode_Cons trans_le_add1)
qed

lemma power_interval_unique:
  assumes "(256::nat) ^ (j - 1) \<le> v" "v < 256 ^ k" "0 < k"
  shows "j \<le> k"
proof (rule ccontr)
  assume "\<not> j \<le> k"
  then have "(256::nat) ^ k \<le> 256 ^ (j - 1)" by (intro power_increasing) auto
  with assms show False by linarith
qed

lemma minimal_bytes_lead:
  assumes "0 < v"
  shows "minimal_bytes v \<noteq> []" "hd (minimal_bytes v) \<noteq> 0"
proof -
  let ?k = "(bit_length v + 7) div 8"
  have bl: "0 < bit_length v" using assms by (rule bit_length_pos)
  then show ne: "minimal_bytes v \<noteq> []" by (simp add: minimal_bytes_def flip: length_0_conv)
  show "hd (minimal_bytes v) \<noteq> 0"
  proof
    assume z: "hd (minimal_bytes v) = 0"
    obtain b bs where bs: "minimal_bytes v = b # bs" using ne by (cases "minimal_bytes v") auto
    then have len: "length bs = ?k - 1" by (metis length_be_encode minimal_bytes_def length_Cons diff_Suc_1)
    have "v = be_decode bs" using be_decode_minimal [of v] bs z by (simp add: be_decode_Cons)
    then have "v < 256 ^ (?k - 1)" using be_decode_bound [of bs] len by simp
    also have "\<dots> = 2 ^ (8 * (?k - 1))" by (simp add: power_mult)
    also have "\<dots> \<le> (2::nat) ^ (bit_length v - 1)" by (intro power_increasing) auto
    also have "\<dots> \<le> v" using assms by (rule bit_length_ge)
    finally show False by simp
  qed
qed

lemma minimal_bytes_unique:
  assumes "xs = [] \<or> hd xs \<noteq> 0"
  shows "minimal_bytes (be_decode xs) = xs"
proof (cases "xs = []")
  case True
  then show ?thesis by (simp add: minimal_bytes_def be_encode_def)
next
  case False
  let ?v = "be_decode xs" let ?m = "minimal_bytes ?v"
  have lead: "256 ^ (length xs - 1) \<le> ?v" using assms False by (intro be_decode_lead) auto
  then have pos: "0 < ?v" by (meson less_le_trans zero_less_power zero_less_numeral)
  note m = minimal_bytes_lead [OF pos]
  have a: "256 ^ (length ?m - 1) \<le> ?v"
    using be_decode_lead [OF m(2,1)] unfolding be_decode_minimal .
  have b: "?v < 256 ^ length ?m"
    using be_decode_bound [of ?m] unfolding be_decode_minimal .
  have "length ?m \<le> length xs"
    using power_interval_unique [OF a be_decode_bound] False by simp
  moreover have "length xs \<le> length ?m"
    using power_interval_unique [OF lead b] m(1) by simp
  ultimately show ?thesis by (intro be_decode_inj) (auto simp: be_decode_minimal)
qed

lemma be_decode_zeros: "be_decode (replicate n 0 @ xs) = be_decode xs"
  by (induction n) (auto simp: be_decode_Cons)

lemma count_leading_split:
  obtains ys where "xs = replicate (count_leading a xs) a @ ys" "ys = [] \<or> hd ys \<noteq> a"
proof (induction xs arbitrary: thesis)
  case (Cons x xs)
  show ?case
  proof (cases "x = a")
    case True
    obtain ys where "xs = replicate (count_leading a xs) a @ ys" "ys = [] \<or> hd ys \<noteq> a"
      using Cons.IH by blast
    with True show ?thesis using Cons.prems [of ys] by simp
  next
    case False
    then show ?thesis using Cons.prems [of "x # xs"] by simp
  qed
qed simp

lemma count_leading_replicate: "ys = [] \<or> hd ys \<noteq> a \<Longrightarrow> count_leading a (replicate n a @ ys) = n"
  by (induction n) (auto, cases ys, auto)

subsection \<open>Base58 digits\<close>

lemma base58_char:
  assumes "n < 58"
  shows "char_value (base58_chars ! n) = Inr n" "base58_chars ! n = CHR ''1'' \<longleftrightarrow> n = 0"
proof -
  have "\<forall>n \<in> set [0..<58]. char_value (base58_chars ! n) = Inr n
      \<and> (base58_chars ! n = CHR ''1'' \<longleftrightarrow> n = 0)" by code_simp
  then show "char_value (base58_chars ! n) = Inr n" "base58_chars ! n = CHR ''1'' \<longleftrightarrow> n = 0"
    using assms by auto
qed

lemma char_value_Inr: "char_value c = Inr n \<longleftrightarrow> n < 58 \<and> c = base58_chars ! n"
proof
  assume "char_value c = Inr n"
  then have "base58_cmap c = Some n" by (simp add: char_value_def split: option.splits)
  then have "(c, n) \<in> set (zip base58_chars [0..<58])" by (auto simp: base58_cmap_def dest: map_of_SomeD)
  then obtain i where i: "i < length base58_chars" "i < 58" "c = base58_chars ! i" "n = [0..<58] ! i"
    by (auto simp: set_zip)
  then have "n = i" by simp
  with i show "n < 58 \<and> c = base58_chars ! n" by simp
qed (auto simp: base58_char)

primrec digits_value :: "nat list \<Rightarrow> nat" where
  "digits_value [] = 0"
| "digits_value (d # ds) = d + 58 * digits_value ds"

lemma digits_value_snoc: "digits_value (ds @ [d]) = digits_value ds + 58 ^ length ds * d"
  by (induction ds) (auto simp: algebra_simps)

lemma base58_digits_0 [simp]: "base58_digits 0 str = str"
  by (simp add: base58_digits.simps)

lemma base58_digits_step:
  "0 < v \<Longrightarrow> base58_digits v str = base58_digits (v div 58) (str @ [base58_chars ! (v mod 58)])"
  by (subst base58_digits.simps) simp

lemma base58_digits_of_value:
  "(\<forall>d \<in> set ds. d < 58) \<Longrightarrow> ds = [] \<or> last ds \<noteq> 0 \<Longrightarrow>
   base58_digits (digits_value ds) str = str @ map ((!) base58_chars) ds"
proof (induction ds arbitrary: str)
  case (Cons d ds)
  have pos: "0 < digits_value (d # ds)"
  proof (cases "ds = []")
    case False
    then have "0 < digits_value ds"
      using Cons.prems by (induction ds rule: rev_induct) (auto simp: digits_value_snoc)
    then show ?thesis by simp
  qed (use Cons.prems in auto)
  have "digits_value (d # ds) mod 58 = d" "digits_value (d # ds) div 58 = digits_value ds"
    using Cons.prems by auto
  with Cons.IH [of "str @ [base58_chars ! d]"] Cons.prems base58_digits_step [OF pos, of str]
  show ?case by (auto split: if_splits)
qed simp

primrec nat_digits :: "nat \<Rightarrow> nat \<Rightarrow> nat list" where
  "nat_digits 0 v = []"
| "nat_digits (Suc k) v = (if v = 0 then [] else v mod 58 # nat_digits k (v div 58))"

lemma nat_digits_value:
  "v \<le> k \<Longrightarrow> digits_value (nat_digits k v) = v \<and> (\<forall>d \<in> set (nat_digits k v). d < 58)
     \<and> (nat_digits k v = [] \<or> last (nat_digits k v) \<noteq> 0) \<and> (nat_digits k v = [] \<longleftrightarrow> v = 0)"
proof (induction k arbitrary: v)
  case (Suc k)
  show ?case
  proof (cases "v = 0")
    case False
    then have "v div 58 \<le> k" using Suc.prems by linarith
    from Suc.IH [OF this] False show ?thesis by auto
  qed simp
qed simp

lemma base58_value_digits:
  "(\<forall>d \<in> set ds. d < 58) \<Longrightarrow>
   base58_value (rev (map ((!) base58_chars) ds) @ str) v
   = base58_value str (v * 58 ^ length ds + digits_value ds)"
proof (induction ds arbitrary: str)
  case (Cons d ds)
  then show ?case by (simp add: base58_char algebra_simps)
qed simp

lemma base58_value_ones: "base58_value (replicate n (CHR ''1'') @ str) 0 = base58_value str 0"
proof (induction n)
  case (Suc n)
  have "char_value (CHR ''1'') = Inr 0" by (simp add: char_value_Inr base58_chars_def)
  with Suc show ?case by simp
qed simp

lemma base58_value_Inr:
  "base58_value str v = Inr w \<Longrightarrow> \<exists>ds. (\<forall>d \<in> set ds. d < 58) \<and> str = rev (map ((!) base58_chars) ds)"
proof (induction str arbitrary: v)
  case (Cons c str)
  then obtain d ds where "d < 58" "c = base58_chars ! d" "\<forall>d \<in> set ds. d < 58"
    "str = rev (map ((!) base58_chars) ds)"
    by (auto simp: err_simps char_value_Inr) metis
  then show ?case by (intro exI [of _ "ds @ [d]"]) auto
qed (auto intro: exI [of _ "[]"])

text \<open>Both directions at once: a string of \<open>n\<close> ones and the digits of a number is the encoding of
  \<open>n\<close> zero bytes and the minimal bytes of the number.\<close>

lemma base58_pair:
  fixes n :: nat
  assumes ds: "\<forall>d \<in> set ds. d < 58" "ds = [] \<or> last ds \<noteq> 0"
    and ys: "ys = [] \<or> hd ys \<noteq> 0" "be_decode ys = digits_value ds"
  defines "str \<equiv> replicate n (CHR ''1'') @ rev (map ((!) base58_chars) ds)"
  shows "base58_encode (replicate n 0 @ ys) = str"
    and "str \<noteq> [] \<Longrightarrow> base58_decode str = Inr (replicate n 0 @ ys)"
proof -
  show "base58_encode (replicate n 0 @ ys) = str"
    using base58_digits_of_value [OF ds, of "[]"] ys
    by (simp add: base58_encode_def bytes_to_int_def be_decode_zeros count_leading_replicate str_def)
  have "rev (map ((!) base58_chars) ds) = [] \<or> hd (rev (map ((!) base58_chars) ds)) \<noteq> CHR ''1''"
    using ds base58_char by (cases ds rule: rev_cases) auto
  then have "count_leading (CHR ''1'') str = n" unfolding str_def by (rule count_leading_replicate)
  moreover have "base58_value str 0 = Inr (digits_value ds)"
    using base58_value_digits [OF ds(1), of "[]" 0] by (simp add: str_def base58_value_ones)
  moreover have "minimal_bytes (digits_value ds) = ys"
    using minimal_bytes_unique [OF ys(1)] ys(2) by simp
  ultimately show "str \<noteq> [] \<Longrightarrow> base58_decode str = Inr (replicate n 0 @ ys)"
    by (simp add: base58_decode_def int_to_bytes_minimal)
qed

lemma base58_encode_decode: "bs \<noteq> [] \<Longrightarrow> base58_decode (base58_encode bs) = Inr bs"
proof -
  assume ne: "bs \<noteq> []"
  obtain ys where bs: "bs = replicate (count_leading 0 bs) 0 @ ys" and ys: "ys = [] \<or> hd ys \<noteq> 0"
    by (rule count_leading_split)
  let ?n = "count_leading 0 bs" let ?ds = "nat_digits (be_decode ys) (be_decode ys)"
  have d: "digits_value ?ds = be_decode ys" "\<forall>d \<in> set ?ds. d < 58" "?ds = [] \<or> last ?ds \<noteq> 0"
    "?ds = [] \<longleftrightarrow> be_decode ys = 0"
    using nat_digits_value [of "be_decode ys" "be_decode ys"] by auto
  note pair = base58_pair [OF d(2,3) ys, of ?n, OF d(1) [symmetric]]
  have "ys \<noteq> [] \<Longrightarrow> be_decode ys \<noteq> 0"
    using be_decode_lead [of ys] ys by (metis less_numeral_extra(3) less_le_trans zero_less_power zero_less_numeral)
  then have "replicate ?n (CHR ''1'') @ rev (map ((!) base58_chars) ?ds) \<noteq> []"
  proof (cases "ys = []")
    case True
    with ne bs have "?n \<noteq> 0" by (metis append_Nil2 replicate_empty)
    then show ?thesis by simp
  qed (use d(4) in auto)
  from pair(2) [OF this] pair(1) bs show ?thesis by simp
qed

lemma base58_decode_encode: "base58_decode str = Inr bs \<Longrightarrow> base58_encode bs = str"
proof -
  assume dec: "base58_decode str = Inr bs"
  then have ne: "str \<noteq> []" and "\<exists>v. base58_value str 0 = Inr v"
    by (auto simp: base58_decode_def err_simps)
  then obtain es where es: "\<forall>d \<in> set es. d < 58" "str = rev (map ((!) base58_chars) es)"
    using base58_value_Inr by blast
  obtain t where t: "rev es = replicate (count_leading 0 (rev es)) 0 @ t" "t = [] \<or> hd t \<noteq> 0"
    by (rule count_leading_split)
  let ?n = "count_leading 0 (rev es)"
  have "base58_chars ! 0 = CHR ''1''" by (simp add: base58_chars_def)
  then have str: "str = replicate ?n (CHR ''1'') @ rev (map ((!) base58_chars) (rev t))"
    using es(2) t(1) by (metis (no_types, lifting) map_append map_replicate rev_map rev_rev_ident)
  have ds: "\<forall>d \<in> set (rev t). d < 58" "rev t = [] \<or> last (rev t) \<noteq> 0"
    using es(1) t by (metis Un_iff set_append set_rev) (use t in \<open>auto simp: last_rev\<close>)
  let ?v = "digits_value (rev t)"
  have min: "minimal_bytes ?v = [] \<or> hd (minimal_bytes ?v) \<noteq> 0"
    by (cases "?v = 0") (auto simp: minimal_bytes_lead, simp add: minimal_bytes_def be_encode_def)
  note pair = base58_pair [OF ds min be_decode_minimal, of ?n]
  from pair(2) ne str dec have "bs = replicate ?n 0 @ minimal_bytes ?v" by simp
  with pair(1) str show ?thesis by simp
qed

text \<open>Base58 is a bijection between non-empty byte strings and the non-empty strings over its
  alphabet: decoding inverts encoding, leading zero bytes included, and whatever decodes is the
  encoding of its result.\<close>

theorem base58_roundtrip:
  "(bs \<noteq> [] \<longrightarrow> base58_decode (base58_encode bs) = Inr bs)
   \<and> (base58_decode str = Inr bs \<longrightarrow> base58_encode bs = str)"
  using base58_encode_decode base58_decode_encode by blast

theorem base58_roundtrip_witness:
  "base58_decode (base58_encode [0, 1, 255]) = Inr [0, 1, 255]"
  using base58_roundtrip [of "[0, 1, 255]" "[]"] by simp

lemma decode_check_encode:
  assumes "\<And>x. 4 \<le> length (hash_fn x)"
  shows "decode_check hash_fn (encode_check hash_fn payload) = Inr payload
    \<and> (decode_check hash_fn str = Inr p \<longrightarrow> encode_check hash_fn p = str)"
proof -
  have four: "length (take 4 (hash_fn x)) = 4" for x using assms [of x] by simp
  have "payload @ take 4 (hash_fn payload) \<noteq> []" using four [of payload] by auto
  then have "decode_check hash_fn (encode_check hash_fn payload) = Inr payload"
    using four by (simp add: decode_check_def encode_check_def base58_encode_decode slice_simps)
  moreover have "encode_check hash_fn p = str" if "decode_check hash_fn str = Inr p"
  proof -
    from that obtain bs where "base58_decode str = Inr bs" "p = butsuffix 4 bs"
      "suffix_of 4 bs = take 4 (hash_fn p)"
      by (auto simp: decode_check_def err_simps Let_def split: if_splits)
    then show ?thesis
      using base58_decode_encode butsuffix_suffix [of 4 bs] by (metis encode_check_def)
  qed
  ultimately show ?thesis by blast
qed

text \<open>Base58Check: a payload survives encoding and decoding, and a string is accepted only
  if its last four bytes are the checksum of the rest.\<close>

theorem base58_check_roundtrip:
  assumes "\<And>x. 4 \<le> length (hash_fn x)"
  shows "decode_check hash_fn (encode_check hash_fn payload) = Inr payload
    \<and> (decode_check hash_fn str = Inr p \<longrightarrow> encode_check hash_fn p = str)"
  by (rule decode_check_encode [OF assms])

theorem base58_check_roundtrip_witness:
  "decode_check (\<lambda>x. x @ [1,2,3,4]) (encode_check (\<lambda>x. x @ [1,2,3,4]) [0, 7]) = Inr [0, 7]"
  using base58_check_roundtrip [of "\<lambda>x. x @ [1,2,3,4]" "[0, 7]"] by simp

end
