(* ===== verification/Versions.thy ===== *)
theory Versions
  imports PyUtil
begin

section \<open>Decimal strings and protocol versions (lib/util.py)\<close>

text \<open>
  Conversions between integers and their decimal strings, and the negotiation of a protocol version
  between a client's request and the server's range.  A decoded JSON value is a \<open>pyval\<close>.  Version
  tuples are lists of integers, compared lexicographically as Python compares tuples.
\<close>

subsection \<open>Decimal strings\<close>

definition digit_char :: "nat \<Rightarrow> char" where
  "digit_char d = char_of (48 + d)"

function show_nat :: "nat \<Rightarrow> string" where
  "show_nat n = (if n < 10 then [digit_char n] else show_nat (n div 10) @ [digit_char (n mod 10)])"
  by pat_completeness auto
termination
  by (relation "measure id") auto

declare show_nat.simps [simp del]

definition show_int :: "int \<Rightarrow> string" where
  "show_int i = (if i < 0 then CHR ''-'' # show_nat (nat (- i)) else show_nat (nat i))"

text \<open>\<open>int(s)\<close> on an ASCII string: surrounding white space, a sign, and digits that single underscores
  may separate; \<open>None\<close> stands for the \<open>ValueError\<close>.\<close>

definition digit_value :: "char \<Rightarrow> nat option" where
  "digit_value c = (let n = of_char c :: nat in if 48 \<le> n \<and> n \<le> 57 then Some (n - 48) else None)"

definition is_space :: "char \<Rightarrow> bool" where
  "is_space c \<longleftrightarrow> (of_char c :: nat) \<in> {32, 9, 10, 11, 12, 13, 28, 29, 30, 31}"

definition strip :: "string \<Rightarrow> string" where
  "strip s = rev (dropWhile is_space (rev (dropWhile is_space s)))"

fun parse_digits :: "string \<Rightarrow> nat \<Rightarrow> nat option" where
  "parse_digits [] acc = Some acc"
| "parse_digits (c # cs) acc =
     (if c = CHR ''_''
      then (case cs of [] \<Rightarrow> None
            | d # ds \<Rightarrow> (case digit_value d of None \<Rightarrow> None | Some v \<Rightarrow> parse_digits ds (10 * acc + v)))
      else (case digit_value c of None \<Rightarrow> None | Some v \<Rightarrow> parse_digits cs (10 * acc + v)))"

definition parse_nat :: "string \<Rightarrow> nat option" where
  "parse_nat s = (case s of [] \<Rightarrow> None
     | c # cs \<Rightarrow> (case digit_value c of None \<Rightarrow> None | Some v \<Rightarrow> parse_digits cs v))"

definition py_int :: "string \<Rightarrow> int option" where
  "py_int str =
     (case strip str of
        [] \<Rightarrow> None
      | c # cs \<Rightarrow>
          if c = CHR ''-'' then map_option (\<lambda>n. - int n) (parse_nat cs)
          else if c = CHR ''+'' then map_option int (parse_nat cs)
          else map_option int (parse_nat (c # cs)))"

lemma digit_value_char [simp]: "d < 10 \<Longrightarrow> digit_value (digit_char d) = Some d"
  by (simp add: digit_value_def digit_char_def Let_def)

lemma digit_char_plain:
  assumes "d < 10"
  shows "digit_char d \<noteq> CHR ''_''" "digit_char d \<noteq> CHR ''.''" "digit_char d \<noteq> CHR ''-''"
    "digit_char d \<noteq> CHR ''+''" "\<not> is_space (digit_char d)"
proof -
  have "\<forall>d \<in> set [0..<10]. digit_char d \<noteq> CHR ''_'' \<and> digit_char d \<noteq> CHR ''.'' \<and> digit_char d \<noteq> CHR ''-''
    \<and> digit_char d \<noteq> CHR ''+'' \<and> \<not> is_space (digit_char d)" by code_simp
  with assms show "digit_char d \<noteq> CHR ''_''" "digit_char d \<noteq> CHR ''.''" "digit_char d \<noteq> CHR ''-''"
    "digit_char d \<noteq> CHR ''+''" "\<not> is_space (digit_char d)" by auto
qed

lemma show_nat_digits:
  "show_nat n \<noteq> [] \<and> (\<forall>c \<in> set (show_nat n). \<exists>d < 10. c = digit_char d)"
proof (induction n rule: show_nat.induct)
  case (1 n)
  then show ?case
    by (cases "n < 10") (subst (1 2) show_nat.simps, force)+
qed

lemma parse_digits_append:
  "(\<forall>c \<in> set xs. \<exists>d < 10. c = digit_char d) \<Longrightarrow>
   parse_digits (xs @ ys) acc = Option.bind (parse_digits xs acc) (parse_digits ys)"
  by (induction xs arbitrary: acc) (auto simp: digit_char_plain)

lemma parse_digits_show: "parse_digits (show_nat n) 0 = Some n"
proof (induction n rule: show_nat.induct)
  case (1 n)
  show ?case
  proof (cases "n < 10")
    case True
    then show ?thesis by (subst show_nat.simps) (simp add: digit_char_plain)
  next
    case False
    with 1 show ?thesis
      using show_nat_digits [of "n div 10"]
      by (subst show_nat.simps) (simp add: parse_digits_append digit_char_plain)
  qed
qed

lemma parse_nat_show [simp]: "parse_nat (show_nat n) = Some n"
proof -
  obtain c cs where c: "show_nat n = c # cs" using show_nat_digits [of n] by (cases "show_nat n") auto
  then obtain d where "d < 10" "c = digit_char d" using show_nat_digits [of n] by auto
  with parse_digits_show [of n] c show ?thesis
    by (simp add: parse_nat_def digit_char_plain)
qed

lemma dropWhile_hd: "xs \<noteq> [] \<Longrightarrow> \<not> P (hd xs) \<Longrightarrow> dropWhile P xs = xs"
  by (cases xs) auto

lemma strip_plain: "xs \<noteq> [] \<Longrightarrow> \<not> is_space (hd xs) \<Longrightarrow> \<not> is_space (last xs) \<Longrightarrow> strip xs = xs"
  by (simp add: strip_def dropWhile_hd hd_rev)

lemma show_nat_ends:
  "\<exists>d < 10. hd (show_nat n) = digit_char d" "\<exists>d < 10. last (show_nat n) = digit_char d"
  using show_nat_digits [of n] by (meson hd_in_set last_in_set)+

lemma py_int_show: "py_int (show_int i) = Some i"
proof (cases "i < 0")
  case True
  obtain d where "d < 10" "last (show_nat (nat (- i))) = digit_char d"
    using show_nat_ends by blast
  moreover have "\<not> is_space (CHR ''-'')" by code_simp
  ultimately have "strip (CHR ''-'' # show_nat (nat (- i))) = CHR ''-'' # show_nat (nat (- i))"
    using show_nat_digits by (intro strip_plain) (auto simp: digit_char_plain)
  with True show ?thesis by (simp add: py_int_def show_int_def)
next
  case False
  let ?s = "show_nat (nat i)"
  obtain d e where d: "d < 10" "hd ?s = digit_char d" "e < 10" "last ?s = digit_char e"
    using show_nat_ends by metis
  then have "strip ?s = ?s" using show_nat_digits by (intro strip_plain) (auto simp: digit_char_plain)
  moreover obtain cs where "?s = digit_char d # cs"
    using d(2) show_nat_digits [of "nat i"] by (cases ?s) auto
  moreover have "parse_nat ?s = Some (nat i)" by simp
  ultimately show ?thesis using False d(1)
    by (simp add: py_int_def show_int_def digit_char_plain)
qed

subsection \<open>Splitting and joining\<close>

fun split_on :: "char \<Rightarrow> string \<Rightarrow> string list" where
  "split_on c [] = [[]]"
| "split_on c (x # xs) =
     (if x = c then [] # split_on c xs
      else case split_on c xs of [] \<Rightarrow> [[x]] | y # ys \<Rightarrow> (x # y) # ys)"

fun join :: "string \<Rightarrow> string list \<Rightarrow> string" where
  "join sep [] = []"
| "join sep [x] = x"
| "join sep (x # xs) = x @ sep @ join sep xs"

lemma split_on_nonempty: "split_on c xs \<noteq> []"
  by (induction xs) (auto split: list.splits)

lemma split_on_plain: "c \<notin> set xs \<Longrightarrow> split_on c xs = [xs]"
  by (induction xs) auto

lemma split_on_sep: "c \<notin> set xs \<Longrightarrow> split_on c (xs @ c # ys) = xs # split_on c ys"
  by (induction xs) auto

lemma split_join:
  "xs \<noteq> [] \<Longrightarrow> (\<forall>x \<in> set xs. c \<notin> set x) \<Longrightarrow> split_on c (join [c] xs) = xs"
proof (induction "[c]" xs rule: join.induct)
  case (3 x y ys)
  then show ?case by (simp add: split_on_sep)
qed (auto simp: split_on_plain)

subsection \<open>Protocol versions\<close>

datatype pyval = PyNone | PyBool bool | PyInt int | PyStr string | PyList "pyval list"

type_synonym version = "int list"

text \<open>Anything without a \<open>split\<close> method, and any part that is not an integer, gives version 0.\<close>

definition protocol_tuple :: "pyval \<Rightarrow> version" where
  "protocol_tuple s =
     (case s of
        PyStr str \<Rightarrow>
          (let parts = map py_int (split_on (CHR ''.'') str)
           in if None \<in> set parts then [0] else map the parts)
      | _ \<Rightarrow> [0])"

definition version_string :: "version \<Rightarrow> string" where
  "version_string ptuple = join ''.'' (map show_int (ptuple @ replicate (2 - length ptuple) 0))"

definition protocol_version :: "pyval \<Rightarrow> version \<Rightarrow> version \<Rightarrow> version option \<times> version" where
  "protocol_version client_req min_tuple max_tuple =
     (let (client_min, client_max) =
        (if client_req = PyNone then (min_tuple, min_tuple)
         else let (cmin, cmax) =
           (case client_req of PyList [a, b] \<Rightarrow> (a, b) | _ \<Rightarrow> (client_req, client_req))
         in (protocol_tuple cmin, protocol_tuple cmax));
      result = min client_max max_tuple
      in (if result < max client_min min_tuple \<or> result = [0] then None else Some result, client_min))"

text \<open>A version string reads back as the version it shows (with its minor number made explicit),
  including versions with more than two parts.\<close>

theorem version_string_roundtrip:
  "protocol_tuple (PyStr (version_string v)) = v @ replicate (2 - length v) 0"
proof -
  let ?v = "v @ replicate (2 - length v) 0"
  have c: "CHR ''.'' \<notin> set (show_nat n)" for n
  proof
    assume "CHR ''.'' \<in> set (show_nat n)"
    then obtain d where "d < 10" "CHR ''.'' = digit_char d" using show_nat_digits [of n] by metis
    then show False using digit_char_plain(2) [of d] by metis
  qed
  have dot: "CHR ''.'' \<notin> set (show_int i)" for i
    unfolding show_int_def using c [of "nat i"] c [of "nat (- i)"] by (simp del: show_nat.simps)
  have ne: "?v \<noteq> []" by (cases v) auto
  then have "split_on (CHR ''.'') (version_string v) = map show_int ?v"
    unfolding version_string_def by (intro split_join) (auto simp: dot)
  then have "map py_int (split_on (CHR ''.'') (version_string v)) = map Some ?v"
    by (simp add: comp_def py_int_show)
  then show ?thesis by (auto simp: protocol_tuple_def comp_def)
qed

text \<open>The range a request stands for: the minimum alone when nothing is asked for.\<close>

definition client_range :: "pyval \<Rightarrow> version \<Rightarrow> version \<times> version" where
  "client_range client_req min_tuple =
     (case client_req of
        PyNone \<Rightarrow> (min_tuple, min_tuple)
      | PyList [a, b] \<Rightarrow> (protocol_tuple a, protocol_tuple b)
      | _ \<Rightarrow> (protocol_tuple client_req, protocol_tuple client_req))"

lemma protocol_version_range:
  "protocol_version client_req min_tuple max_tuple =
    (let (cmin, cmax) = client_range client_req min_tuple; v = min cmax max_tuple
     in (if v < max cmin min_tuple \<or> v = [0] then None else Some v, cmin))"
  unfolding protocol_version_def client_range_def
  by (auto simp: Let_def split: pyval.splits list.splits)

text \<open>Negotiation answers the smaller of the two maxima exactly when it lies within both
  ranges (and is not the invalid version 0), and otherwise refuses; it also reports the client's
  minimum.  The client's range is its pair, its single version, or, when it asks for nothing, the
  server's minimum.\<close>

theorem protocol_negotiation:
  "case (protocol_version client_req min_tuple max_tuple, client_range client_req min_tuple) of
     ((result, reported), (cmin, cmax)) \<Rightarrow>
       reported = cmin \<and>
       (result = Some v \<longleftrightarrow> v = min cmax max_tuple \<and> v \<noteq> [0] \<and>
          cmin \<le> v \<and> min_tuple \<le> v \<and> v \<le> cmax \<and> v \<le> max_tuple)"
proof -
  obtain cmin cmax where r: "client_range client_req min_tuple = (cmin, cmax)" by fastforce
  have "\<not> m < max a b \<longleftrightarrow> a \<le> m \<and> b \<le> m" for m a b :: version
    by (simp add: not_less)
  moreover have "min cmax max_tuple \<le> cmax" "min cmax max_tuple \<le> max_tuple" by simp_all
  ultimately show ?thesis
    unfolding protocol_version_range r Let_def prod.case by (metis option.distinct(1) option.inject)
qed

end
