(* ===== verification/OpCodes.thy ===== *)
theory OpCodes
  imports PyUtil Versions
begin

section \<open>Enumerations and opcodes (lib/enum.py, lib/script.py)\<close>

text \<open>
  \<open>enumeration\<close> is the constructor of \<open>Enumeration\<close>: its items are a bare name, whose value is
  one above the last, or a pair of a name and a value.  \<open>enum_getattr\<close> and \<open>enum_whatis\<close> are
  \<open>__getattr__\<close> and \<open>whatis\<close>; \<open>op_codes\<close> is the table \<open>OpCodes\<close>.  The opcodes the script code
  compares with are named by the abbreviations below and \<open>op_code_values\<close> shows that the table
  gives them these values (the assertions under \<open># Paranoia\<close> among them).
\<close>

subsection \<open>Enumeration\<close>

datatype enum_value = VStr string | VInt int | VOther

datatype enum_item = Auto enum_value | Fixed enum_value enum_value

record enumeration =
  lookup :: "(string \<times> int) list"
  reverse_lookup :: "(int \<times> string) list"

record enum_state =
  lookup_d :: "(string \<times> int) list"
  reverse_d :: "(int \<times> string) list"
  enum_i :: enum_value
  unique_names :: "string set"
  unique_values :: "int set"

definition enum_step :: "enum_item \<Rightarrow> enum_state \<Rightarrow> exn + enum_state" where
  "enum_step item st =
     (let (x, i) = (case item of Auto x \<Rightarrow> (x, enum_i st) | Fixed x i \<Rightarrow> (x, i)) in
      case x of
        VStr x \<Rightarrow>
          (case i of
             VInt i \<Rightarrow>
               if x \<in> unique_names st then Inl EnumError
               else if i \<in> unique_values st then Inl EnumError
               else Inr \<lparr>lookup_d = AList.update x i (lookup_d st),
                         reverse_d = AList.update i x (reverse_d st), enum_i = VInt (i + 1),
                         unique_names = insert x (unique_names st),
                         unique_values = insert i (unique_values st)\<rparr>
           | _ \<Rightarrow> Inl EnumError)
      | _ \<Rightarrow> Inl EnumError)"

definition enumeration :: "enum_item list \<Rightarrow> exn + enumeration" where
  "enumeration enumList =
     bindE (foldE enum_step enumList
              \<lparr>lookup_d = [], reverse_d = [], enum_i = VInt 0, unique_names = {}, unique_values = {}\<rparr>)
       (\<lambda>st. Inr \<lparr>lookup = lookup_d st, reverse_lookup = reverse_d st\<rparr>)"

definition enum_getattr :: "enumeration \<Rightarrow> string \<Rightarrow> exn + int" where
  "enum_getattr e attr =
     (case map_of (lookup e) attr of None \<Rightarrow> Inl AttributeError | Some result \<Rightarrow> Inr result)"

definition enum_whatis :: "enumeration \<Rightarrow> int \<Rightarrow> exn + string" where
  "enum_whatis e val =
     (case map_of (reverse_lookup e) val of None \<Rightarrow> Inl KeyError | Some name \<Rightarrow> Inr name)"

definition enum_inv :: "enum_state \<Rightarrow> bool" where
  "enum_inv st \<longleftrightarrow>
     unique_names st = dom (map_of (lookup_d st)) \<and>
     unique_values st = dom (map_of (reverse_d st)) \<and>
     (\<forall>x i. map_of (lookup_d st) x = Some i \<longleftrightarrow> map_of (reverse_d st) i = Some x)"

lemma enum_step_inv: "enum_step item st = Inr st' \<Longrightarrow> enum_inv st \<Longrightarrow> enum_inv st'"
  unfolding enum_step_def enum_inv_def
  by (auto simp: Let_def dom_def split: enum_item.splits enum_value.splits if_splits prod.splits)

text \<open>An enumeration that is built without an error maps names to values one to one: the
  attribute \<open>x\<close> is \<open>i\<close> exactly when \<open>whatis(i)\<close> is \<open>x\<close>.\<close>

theorem enumeration_bijective:
  assumes "enumeration items = Inr e"
  shows "enum_getattr e x = Inr i \<longleftrightarrow> enum_whatis e i = Inr x"
proof -
  let ?init = "\<lparr>lookup_d = [], reverse_d = [], enum_i = VInt 0, unique_names = {}, unique_values = {}\<rparr>"
  obtain st where st: "foldE enum_step items ?init = Inr st"
    and e: "e = \<lparr>lookup = lookup_d st, reverse_lookup = reverse_d st\<rparr>"
    using assms by (auto simp: enumeration_def err_simps)
  have "enum_inv st"
    using st by (rule foldE_invariant) (auto intro: enum_step_inv, simp add: enum_inv_def)
  then have "map_of (lookup_d st) x = Some i \<longleftrightarrow> map_of (reverse_d st) i = Some x"
    by (simp add: enum_inv_def)
  then show ?thesis
    by (auto simp: enum_getattr_def enum_whatis_def e split: option.splits)
qed

theorem enumeration_bijective_witness:
  "\<exists>e. enumeration [Fixed (VStr ''a'') (VInt 3), Auto (VStr ''b'')] = Inr e \<and>
     enum_getattr e ''b'' = Inr 4 \<and> enum_whatis e 4 = Inr ''b''"
proof -
  let ?items = "[Fixed (VStr ''a'') (VInt 3), Auto (VStr ''b'')]"
  obtain e where e: "enumeration ?items = Inr e" "enum_getattr e ''b'' = Inr 4"
    by (simp add: enumeration_def enum_step_def Let_def enum_getattr_def)
  with enumeration_bijective [OF e(1), of "''b''" 4] show ?thesis by blast
qed

subsection \<open>Opcodes\<close>

definition op_code_list :: "enum_item list" where
  "op_code_list =
     [Fixed (VStr ''OP_0'') (VInt 0)]
     @ [Fixed (VStr ''OP_PUSHDATA1'') (VInt 76)]
     @ map (\<lambda>x. Auto (VStr x)) [''OP_PUSHDATA2'', ''OP_PUSHDATA4'', ''OP_1NEGATE'', ''OP_RESERVED'', ''OP_1'',
       ''OP_2'', ''OP_3'', ''OP_4'', ''OP_5'', ''OP_6'', ''OP_7'', ''OP_8'', ''OP_9'', ''OP_10'',
       ''OP_11'', ''OP_12'', ''OP_13'', ''OP_14'', ''OP_15'', ''OP_16'', ''OP_NOP'', ''OP_VER'',
       ''OP_IF'', ''OP_NOTIF'', ''OP_VERIF'', ''OP_VERNOTIF'', ''OP_ELSE'', ''OP_ENDIF'',
       ''OP_VERIFY'', ''OP_RETURN'', ''OP_TOALTSTACK'', ''OP_FROMALTSTACK'', ''OP_2DROP'',
       ''OP_2DUP'', ''OP_3DUP'', ''OP_2OVER'', ''OP_2ROT'', ''OP_2SWAP'', ''OP_IFDUP'',
       ''OP_DEPTH'', ''OP_DROP'', ''OP_DUP'', ''OP_NIP'', ''OP_OVER'', ''OP_PICK'', ''OP_ROLL'',
       ''OP_ROT'', ''OP_SWAP'', ''OP_TUCK'', ''OP_CAT'', ''OP_SUBSTR'', ''OP_LEFT'', ''OP_RIGHT'',
       ''OP_SIZE'', ''OP_INVERT'', ''OP_AND'', ''OP_OR'', ''OP_XOR'', ''OP_EQUAL'',
       ''OP_EQUALVERIFY'', ''OP_RESERVED1'', ''OP_RESERVED2'', ''OP_1ADD'', ''OP_1SUB'',
       ''OP_2MUL'', ''OP_2DIV'', ''OP_NEGATE'', ''OP_ABS'', ''OP_NOT'', ''OP_0NOTEQUAL'',
       ''OP_ADD'', ''OP_SUB'', ''OP_MUL'', ''OP_DIV'', ''OP_MOD'', ''OP_LSHIFT'', ''OP_RSHIFT'',
       ''OP_BOOLAND'', ''OP_BOOLOR'', ''OP_NUMEQUAL'', ''OP_NUMEQUALVERIFY'', ''OP_NUMNOTEQUAL'',
       ''OP_LESSTHAN'', ''OP_GREATERTHAN'', ''OP_LESSTHANOREQUAL'', ''OP_GREATERTHANOREQUAL'',
       ''OP_MIN'', ''OP_MAX'', ''OP_WITHIN'', ''OP_RIPEMD160'', ''OP_SHA1'', ''OP_SHA256'',
       ''OP_HASH160'', ''OP_HASH256'', ''OP_CODESEPARATOR'', ''OP_CHECKSIG'',
       ''OP_CHECKSIGVERIFY'', ''OP_CHECKMULTISIG'', ''OP_CHECKMULTISIGVERIFY'', ''OP_NOP1'',
       ''OP_CHECKLOCKTIMEVERIFY'', ''OP_CHECKSEQUENCEVERIFY'']"

definition op_codes :: "exn + enumeration" where
  "op_codes = enumeration op_code_list"

definition op_code :: "string \<Rightarrow> exn + int" where
  "op_code attr = bindE op_codes (\<lambda>e. enum_getattr e attr)"

abbreviation "OP_0 \<equiv> 0 :: byte"
abbreviation "OP_PUSHDATA1 \<equiv> 76 :: byte"
abbreviation "OP_PUSHDATA2 \<equiv> 77 :: byte"
abbreviation "OP_PUSHDATA4 \<equiv> 78 :: byte"
abbreviation "OP_RETURN \<equiv> 106 :: byte"
abbreviation "OP_DUP \<equiv> 118 :: byte"
abbreviation "OP_EQUAL \<equiv> 135 :: byte"
abbreviation "OP_EQUALVERIFY \<equiv> 136 :: byte"
abbreviation "OP_HASH160 \<equiv> 169 :: byte"
abbreviation "OP_CHECKSIG \<equiv> 172 :: byte"

text \<open>The pairs an enumeration of distinct names and values holds, in order.\<close>

fun enum_pairs :: "enum_item list \<Rightarrow> int \<Rightarrow> (string \<times> int) list option" where
  "enum_pairs [] i = Some []"
| "enum_pairs (Auto (VStr x) # items) i = map_option ((#) (x, i)) (enum_pairs items (i + 1))"
| "enum_pairs (Fixed (VStr x) (VInt j) # items) i = map_option ((#) (x, j)) (enum_pairs items (j + 1))"
| "enum_pairs _ i = None"

lemma update_new: "k \<notin> fst ` set d \<Longrightarrow> AList.update k v d = d @ [(k, v)]"
  by (induction d) auto

lemma enum_fold_pairs:
  assumes "enum_pairs items i = Some ps"
    and "distinct (map fst (done_p @ ps))" "distinct (map snd (done_p @ ps))"
  shows "\<exists>v. foldE enum_step items
      \<lparr>lookup_d = done_p, reverse_d = map (\<lambda>(x, i). (i, x)) done_p, enum_i = VInt i,
       unique_names = set (map fst done_p), unique_values = set (map snd done_p)\<rparr> =
    Inr \<lparr>lookup_d = done_p @ ps, reverse_d = map (\<lambda>(x, i). (i, x)) (done_p @ ps), enum_i = VInt v,
       unique_names = set (map fst (done_p @ ps)), unique_values = set (map snd (done_p @ ps))\<rparr>"
  using assms
proof (induction items i arbitrary: ps done_p rule: enum_pairs.induct)
  case (2 x items i)
  then obtain qs where q: "enum_pairs items (i + 1) = Some qs" "ps = (x, i) # qs" by auto
  have "x \<notin> fst ` set done_p" "i \<notin> snd ` set done_p" using 2(3,4) q(2) by auto
  moreover from this(2) have "i \<notin> fst ` set (map (\<lambda>(x, i). (i, x)) done_p)" by force
  ultimately show ?case using 2(1) [OF q(1), of "done_p @ [(x, i)]"] 2(3,4) q(2)
    by (simp add: enum_step_def Let_def update_new insert_commute)
next
  case (3 x j items i)
  then obtain qs where q: "enum_pairs items (j + 1) = Some qs" "ps = (x, j) # qs" by auto
  have "x \<notin> fst ` set done_p" "j \<notin> snd ` set done_p" using 3(3,4) q(2) by auto
  moreover from this(2) have "j \<notin> fst ` set (map (\<lambda>(x, i). (i, x)) done_p)" by force
  ultimately show ?case using 3(1) [OF q(1), of "done_p @ [(x, j)]"] 3(3,4) q(2)
    by (simp add: enum_step_def Let_def update_new insert_commute)
qed simp_all

lemma enumeration_pairs:
  assumes "enum_pairs items 0 = Some ps" "distinct (map fst ps)" "distinct (map snd ps)"
  shows "enumeration items = Inr \<lparr>lookup = ps, reverse_lookup = map (\<lambda>(x, i). (i, x)) ps\<rparr>"
  using enum_fold_pairs [of items 0 ps "[]"] assms by (auto simp: enumeration_def)

lemma op_codes_value:
  "op_codes = Inr \<lparr>lookup = the (enum_pairs op_code_list 0),
     reverse_lookup = map (\<lambda>(x, i). (i, x)) (the (enum_pairs op_code_list 0))\<rparr>"
  unfolding op_codes_def
proof (rule enumeration_pairs)
  show "enum_pairs op_code_list 0 = Some (the (enum_pairs op_code_list 0))"
    by (simp add: op_code_list_def)
  show "distinct (map fst (the (enum_pairs op_code_list 0)))"
    by (simp add: op_code_list_def)
  show "distinct (map snd (the (enum_pairs op_code_list 0)))"
    by (simp add: op_code_list_def)
qed

lemma op_code_values:
  "map op_code [''OP_0'', ''OP_PUSHDATA1'', ''OP_PUSHDATA2'', ''OP_PUSHDATA4'', ''OP_RETURN'', ''OP_DUP'',
     ''OP_EQUAL'', ''OP_EQUALVERIFY'', ''OP_HASH160'', ''OP_CHECKSIG'', ''OP_CHECKMULTISIG''] =
   map Inr [0, 76, 77, 78, 106, 118, 135, 136, 169, 172, 174]"
  by (simp add: op_code_def op_codes_value enum_getattr_def) (simp add: op_code_list_def)

end
