(* ===== verification/Scripts.thy ===== *)
theory Scripts
  imports OpCodes
begin

section \<open>Scripts (lib/script.py)\<close>

text \<open>
  \<open>get_ops\<close> reads a script as a list of \<open>script_op\<close>: a plain opcode, or the pair of a push opcode
  and its data.  The lemmas show that it is the exact inverse of writing these operations out
  (\<open>write_ops\<close>, for operations that satisfy \<open>op_ok\<close>), that every other script is refused with
  \<open>ScriptError\<close>, and that \<open>push_data\<close> and the two output templates read back as the patterns
  \<open>TO_ADDRESS_OPS\<close> and \<open>TO_P2SH_OPS\<close>.
\<close>

definition is_unspendable_legacy :: "bytes \<Rightarrow> bool" where
  "is_unspendable_legacy script \<longleftrightarrow>
     slice script 0 2 = [0x00, 0x6a] \<or> (script \<noteq> [] \<and> script ! 0 = 0x6a)"

definition is_unspendable_genesis :: "bytes \<Rightarrow> bool" where
  "is_unspendable_genesis script \<longleftrightarrow> slice script 0 2 = [0x00, 0x6a]"

datatype script_op = Op byte | Push byte bytes

text \<open>A pattern is a list of opcodes and of -1 for a data push; a tuple never equals a number.\<close>

fun match_op :: "script_op \<Rightarrow> int \<Rightarrow> bool" where
  "match_op (Op b) pop \<longleftrightarrow> pop = int (unat b)"
| "match_op (Push b data) pop \<longleftrightarrow> pop = -1"

definition match_ops :: "script_op list \<Rightarrow> int list \<Rightarrow> bool" where
  "match_ops ops pattern \<longleftrightarrow>
     length ops = length pattern \<and> list_all (\<lambda>(op, pop). match_op op pop) (zip ops pattern)"

definition TO_ADDRESS_OPS :: "int list" where
  "TO_ADDRESS_OPS = [118, 169, -1, 136, 172]"

definition TO_P2SH_OPS :: "int list" where
  "TO_P2SH_OPS = [169, -1, 135]"

definition TO_PUBKEY_OPS :: "int list" where
  "TO_PUBKEY_OPS = [-1, 172]"

definition push_data :: "bytes \<Rightarrow> exn + bytes" where
  "push_data data =
     (let n = length data in
      if n < unat OP_PUSHDATA1 then Inr ([of_nat n] @ data)
      else if n < 256 then Inr ([OP_PUSHDATA1, of_nat n] @ data)
      else if n < 65536 then bindE (pack_le_uint16 (int n)) (\<lambda>len. Inr ([OP_PUSHDATA2] @ len @ data))
      else bindE (pack_le_uint32 (int n)) (\<lambda>len. Inr ([OP_PUSHDATA4] @ len @ data)))"

definition P2SH_script :: "bytes \<Rightarrow> exn + bytes" where
  "P2SH_script hash160 =
     bindE (push_data hash160) (\<lambda>push. Inr ([OP_HASH160] @ push @ [OP_EQUAL]))"

definition P2PKH_script :: "bytes \<Rightarrow> exn + bytes" where
  "P2PKH_script hash160 =
     bindE (push_data hash160)
       (\<lambda>push. Inr ([OP_DUP, OP_HASH160] @ push @ [OP_EQUALVERIFY, OP_CHECKSIG]))"

text \<open>The length of the data a push opcode carries, and the position after it.\<close>

definition read_dlen :: "bytes \<Rightarrow> byte \<Rightarrow> nat \<Rightarrow> exn + nat \<times> nat" where
  "read_dlen script op n =
     (if op < OP_PUSHDATA1 then Inr (unat op, n)
      else if op = OP_PUSHDATA1 then
        (if n < length script then Inr (unat (script ! n), n + 1) else Inl IndexError)
      else if op = OP_PUSHDATA2 then
        bindE (unpack_le_unsigned_from 2 (slice script n (n + 2)) 0) (\<lambda>dlen. Inr (dlen, n + 2))
      else
        bindE (unpack_le_unsigned_from 4 (slice script n (n + 4)) 0) (\<lambda>dlen. Inr (dlen, n + 4)))"

lemma read_dlen_mono: "read_dlen script op n = Inr (dlen, n') \<Longrightarrow> n \<le> n'"
  by (auto simp: read_dlen_def err_simps split: if_splits)

function get_ops_loop :: "bytes \<Rightarrow> nat \<Rightarrow> script_op list \<Rightarrow> exn + script_op list" where
  "get_ops_loop script n ops =
     (if n < length script then
        (let op = script ! n in
         if op \<le> OP_PUSHDATA4 then
           bindE (read_dlen script op (n + 1)) (\<lambda>(dlen, n).
             if length script < n + dlen then Inl IndexError
             else get_ops_loop script (n + dlen) (ops @ [Push op (slice script n (n + dlen))]))
         else get_ops_loop script (n + 1) (ops @ [Op op]))
      else Inr ops)"
  by pat_completeness auto
termination
  by (relation "measure (\<lambda>(script, n, ops). length script - n)")
    (auto dest!: read_dlen_mono)

declare get_ops_loop.simps [simp del]

definition get_ops :: "bytes \<Rightarrow> exn + script_op list" where
  "get_ops script = (case get_ops_loop script 0 [] of Inl _ \<Rightarrow> Inl ScriptError | Inr ops \<Rightarrow> Inr ops)"

definition opcode_name :: "int \<Rightarrow> exn + string" where
  "opcode_name opcode =
     bindE op_codes (\<lambda>table.
       if 0 < opcode \<and> opcode < 76 then Inr (''OP_'' @ show_int opcode)
       else (case enum_whatis table opcode of
               Inr name \<Rightarrow> Inr name
             | Inl _ \<Rightarrow> Inr (''OP_UNKNOWN:'' @ show_int opcode)))"

subsection \<open>Writing operations out\<close>

definition dlen_bytes :: "byte \<Rightarrow> nat \<Rightarrow> bytes" where
  "dlen_bytes op dlen =
     (if op < OP_PUSHDATA1 then [] else if op = OP_PUSHDATA1 then [of_nat dlen]
      else if op = OP_PUSHDATA2 then le_encode 2 dlen else le_encode 4 dlen)"

definition dlen_ok :: "byte \<Rightarrow> nat \<Rightarrow> bool" where
  "dlen_ok op dlen \<longleftrightarrow>
     (if op < OP_PUSHDATA1 then dlen = unat op else if op = OP_PUSHDATA1 then dlen < 256
      else if op = OP_PUSHDATA2 then dlen < 65536 else dlen < 4294967296)"

fun write_op :: "script_op \<Rightarrow> bytes" where
  "write_op (Op b) = [b]"
| "write_op (Push b data) = b # dlen_bytes b (length data) @ data"

fun op_ok :: "script_op \<Rightarrow> bool" where
  "op_ok (Op b) \<longleftrightarrow> OP_PUSHDATA4 < b"
| "op_ok (Push b data) \<longleftrightarrow> b \<le> OP_PUSHDATA4 \<and> dlen_ok b (length data)"

definition write_ops :: "script_op list \<Rightarrow> bytes" where
  "write_ops ops = concat (map write_op ops)"

lemma get_ops_loop_end: "length script \<le> n \<Longrightarrow> get_ops_loop script n ops = Inr ops"
  by (subst get_ops_loop.simps) simp

lemma get_ops_loop_op:
  "n < length script \<Longrightarrow> \<not> script ! n \<le> OP_PUSHDATA4 \<Longrightarrow>
   get_ops_loop script n ops = get_ops_loop script (n + 1) (ops @ [Op (script ! n)])"
  by (subst get_ops_loop.simps) simp

lemma get_ops_loop_push:
  "n < length script \<Longrightarrow> script ! n \<le> OP_PUSHDATA4 \<Longrightarrow>
   get_ops_loop script n ops = bindE (read_dlen script (script ! n) (n + 1)) (\<lambda>(dlen, n').
     if length script < n' + dlen then Inl IndexError
     else get_ops_loop script (n' + dlen) (ops @ [Push (script ! n) (slice script n' (n' + dlen))]))"
  by (subst get_ops_loop.simps) (simp add: Let_def)

lemma read_dlen_write:
  assumes "op \<le> OP_PUSHDATA4" "dlen_ok op dlen"
  shows "read_dlen (pre @ dlen_bytes op dlen @ post) op (length pre) =
    Inr (dlen, length pre + length (dlen_bytes op dlen))"
proof -
  consider "op < OP_PUSHDATA1" | "op = OP_PUSHDATA1" | "op = OP_PUSHDATA2" | "op = OP_PUSHDATA4"
    using assms(1) by (simp add: word_le_nat_alt word_less_nat_alt word_unat_eq_iff) linarith
  then show ?thesis
  proof cases
    case 2
    then show ?thesis using assms(2)
      by (simp add: read_dlen_def dlen_ok_def dlen_bytes_def unat_of_nat)
  qed (use assms(2) in \<open>simp_all add: read_dlen_def dlen_ok_def dlen_bytes_def
        unpack_le_unsigned_from_def slice_def\<close>)
qed

lemma take_le_bytes: "n + k \<le> length s \<Longrightarrow> le_encode k (le_decode (take k (drop n s))) = take k (drop n s)"
  by simp

lemma read_dlen_inv:
  assumes "op \<le> OP_PUSHDATA4" "n \<le> length script" "read_dlen script op n = Inr (dlen, n')"
  shows "dlen_ok op dlen \<and> n \<le> n' \<and> n' \<le> length script \<and> slice script n n' = dlen_bytes op dlen"
proof -
  have b: "le_decode (take k (drop n script)) < 256 ^ k" if "n + k \<le> length script" for k
    using le_decode_bound [of "take k (drop n script)"] that by simp
  have one: "take (Suc 0) (drop n script) = [script ! n]" if "n < length script"
    using that by (simp add: take_Suc_conv_app_nth)
  have u: "unat (script ! n) < 256" using unsigned_less [of "script ! n"] by simp
  consider "op < OP_PUSHDATA1" | "op = OP_PUSHDATA1" | "op = OP_PUSHDATA2" | "op = OP_PUSHDATA4"
    using assms(1) by (simp add: word_le_nat_alt word_less_nat_alt word_unat_eq_iff) linarith
  then show ?thesis
  proof cases
    case 1
    then show ?thesis using assms(2,3) by (auto simp: read_dlen_def dlen_ok_def dlen_bytes_def slice_def)
  next
    case 2
    then show ?thesis using assms(2,3) one u
      by (auto simp: read_dlen_def dlen_ok_def dlen_bytes_def slice_def split: if_splits)
  next
    case 3
    then have "n + 2 \<le> length script" "dlen = le_decode (take 2 (drop n script))" "n' = n + 2"
      using assms(3) by (auto simp: read_dlen_def err_simps unpack_le_unsigned_from_def slice_def
          split: if_splits) (simp_all add: numeral_2_eq_2)
    then show ?thesis using 3 b [of 2] by (simp add: dlen_ok_def dlen_bytes_def slice_def)
  next
    case 4
    then have "n + 4 \<le> length script" "dlen = le_decode (take 4 (drop n script))" "n' = n + 4"
      using assms(3) by (auto simp: read_dlen_def err_simps unpack_le_unsigned_from_def slice_def
          split: if_splits)
    then show ?thesis using 4 b [of 4] by (simp add: dlen_ok_def dlen_bytes_def slice_def)
  qed
qed

lemma get_ops_loop_write:
  "list_all op_ok os \<Longrightarrow>
   get_ops_loop (pre @ write_ops os) (length pre) ops = Inr (ops @ os)"
proof (induction os arbitrary: pre ops)
  case Nil
  then show ?case by (simp add: get_ops_loop_end write_ops_def)
next
  case (Cons x os)
  show ?case
  proof (cases x)
    case (Op b)
    then have "\<not> b \<le> OP_PUSHDATA4" using Cons.prems by (simp add: not_le)
    then show ?thesis
      using Cons.IH [of "pre @ [b]" "ops @ [x]"] Cons.prems Op
      by (simp add: get_ops_loop_op write_ops_def)
  next
    case (Push b data)
    let ?d = "dlen_bytes b (length data)"
    let ?s = "pre @ write_ops (x # os)"
    have ok: "b \<le> OP_PUSHDATA4" "dlen_ok b (length data)" using Cons.prems Push by auto
    have s: "?s = (pre @ [b]) @ ?d @ (data @ write_ops os)"
      "?s = (pre @ b # ?d) @ data @ write_ops os" "?s = (pre @ b # ?d @ data) @ write_ops os"
      using Push by (simp_all add: write_ops_def)
    have "read_dlen ?s b (length pre + 1) = Inr (length data, length pre + 1 + length ?d)"
      using read_dlen_write [OF ok, of "pre @ [b]" "data @ write_ops os"] unfolding s(1) [symmetric] by simp
    moreover have "slice ?s (length pre + 1 + length ?d) (length pre + 1 + length ?d + length data) = data"
      unfolding s(2) by (rule slice_mid) simp_all
    moreover have "length pre < length ?s" "?s ! length pre = b"
      "length pre + 1 + length ?d + length data \<le> length ?s"
      using Push by (simp_all add: write_ops_def)
    moreover have "get_ops_loop ?s (length pre + 1 + length ?d + length data) (ops @ [x]) = Inr (ops @ x # os)"
      using Cons.IH [of "pre @ b # ?d @ data" "ops @ [x]"] Cons.prems unfolding s(3) by (simp add: ac_simps)
    ultimately show ?thesis
      using ok(1) Push by (simp add: get_ops_loop_push)
  qed
qed

lemma get_ops_loop_inv:
  "get_ops_loop script n ops = Inr r \<Longrightarrow> n \<le> length script \<Longrightarrow>
   \<exists>os. r = ops @ os \<and> list_all op_ok os \<and> drop n script = write_ops os"
proof (induction script n ops rule: get_ops_loop.induct)
  case (1 script n ops)
  let ?op = "script ! n"
  show ?case
  proof (cases "n < length script")
    case False
    then show ?thesis using 1(3,4) by (auto simp: get_ops_loop_end write_ops_def)
  next
    case n: True
    then have d: "drop n script = ?op # drop (n + 1) script" by (simp add: Cons_nth_drop_Suc)
    show ?thesis
    proof (cases "?op \<le> OP_PUSHDATA4")
      case False
      then have "get_ops_loop script (n + 1) (ops @ [Op ?op]) = Inr r"
        using 1(3) n by (simp add: get_ops_loop_op)
      from 1(2) [OF n refl False this] n obtain os where
        "r = (ops @ [Op ?op]) @ os" "list_all op_ok os" "drop (n + 1) script = write_ops os" by auto
      then show ?thesis using d False by (intro exI [of _ "Op ?op # os"]) (auto simp: write_ops_def not_le)
    next
      case True
      then obtain dlen n' where rd: "read_dlen script ?op (n + 1) = Inr (dlen, n')"
        and len: "n' + dlen \<le> length script"
        and rec: "get_ops_loop script (n' + dlen) (ops @ [Push ?op (slice script n' (n' + dlen))]) = Inr r"
        using 1(3) unfolding get_ops_loop_push [OF n True]
        by (auto simp: err_simps split: if_splits)
      have inv: "dlen_ok ?op dlen" "n + 1 \<le> n'" "n' \<le> length script"
        "slice script (n + 1) n' = dlen_bytes ?op dlen"
        using read_dlen_inv [OF True _ rd] n by auto
      let ?x = "Push ?op (slice script n' (n' + dlen))"
      from 1(1) [OF n refl True rd refl _ rec] len obtain os where
        os: "r = (ops @ [?x]) @ os" "list_all op_ok os" "drop (n' + dlen) script = write_ops os" by auto
      have "drop (n + 1) script = slice script (n + 1) n' @ drop n' script"
        using inv(2) by (simp add: slice_def) (metis append_take_drop_id drop_drop le_add_diff_inverse2 plus_1_eq_Suc add.commute)
      also have "drop n' script = slice script n' (n' + dlen) @ drop (n' + dlen) script"
        by (simp add: slice_def) (metis append_take_drop_id drop_drop add.commute)
      finally show ?thesis
        using os inv(1,4) len True d
        by (intro exI [of _ "?x # os"]) (auto simp: write_ops_def)
    qed
  qed
qed

lemma get_ops_write: "list_all op_ok os \<Longrightarrow> get_ops (write_ops os) = Inr os"
  using get_ops_loop_write [of os "[]" "[]"] by (simp add: get_ops_def)

text \<open>C40: reading a script gives exactly the operations it is made of: a script reads as \<open>ops\<close> when
  and only when they are well-formed and writing them out gives it back, and every other script is
  refused as truncated.\<close>

theorem get_ops_exact:
  "(get_ops script = Inr ops \<longleftrightarrow> list_all op_ok ops \<and> write_ops ops = script) \<and>
   (get_ops script = Inl e \<longleftrightarrow> e = ScriptError \<and> (\<nexists>os. list_all op_ok os \<and> write_ops os = script))"
proof -
  note fwd = get_ops_write
  have bwd: "list_all op_ok os \<and> write_ops os = script" if "get_ops script = Inr os" for os
    using that get_ops_loop_inv [of script 0 "[]" os] by (auto simp: get_ops_def split: sum.splits)
  have err: "e = ScriptError" if "get_ops script = Inl e" for e
    using that by (auto simp: get_ops_def split: sum.splits)
  show ?thesis
  proof (cases "get_ops script")
    case (Inl a)
    then show ?thesis using fwd err [OF Inl] by auto
  next
    case (Inr b)
    then show ?thesis using bwd [OF Inr] fwd by (metis Inr_inject sum.distinct(2))
  qed
qed

lemma push_data_op:
  assumes "push_data data = Inr b"
  obtains op where "op_ok (Push op data)" "b = write_op (Push op data)"
proof (rule that [of "if length data < 76 then of_nat (length data) else if length data < 256
    then OP_PUSHDATA1 else if length data < 65536 then OP_PUSHDATA2 else OP_PUSHDATA4"])
qed (use assms in \<open>auto simp: push_data_def Let_def err_simps pack_le_uint16_def pack_le_uint32_def
    dlen_ok_def dlen_bytes_def word_le_nat_alt word_less_nat_alt unat_of_nat split: if_splits\<close>)

text \<open>The scripts the server builds for a pubkey hash and for a script hash read back as the
  operations of their templates, with the hash as the pushed data, whatever its length below
  \<open>2^32\<close>, and match the address patterns; neither is ever mistaken for the other.\<close>

theorem output_templates_match:
  assumes "length h < 2 ^ 32"
  shows "\<exists>p s op. P2PKH_script h = Inr p \<and> P2SH_script h = Inr s \<and>
     get_ops p = Inr [Op OP_DUP, Op OP_HASH160, Push op h, Op OP_EQUALVERIFY, Op OP_CHECKSIG] \<and>
     get_ops s = Inr [Op OP_HASH160, Push op h, Op OP_EQUAL] \<and>
     (case get_ops p of Inr ops \<Rightarrow> match_ops ops TO_ADDRESS_OPS \<and> \<not> match_ops ops TO_P2SH_OPS
      | Inl _ \<Rightarrow> False) \<and>
     (case get_ops s of Inr ops \<Rightarrow> match_ops ops TO_P2SH_OPS \<and> \<not> match_ops ops TO_ADDRESS_OPS
      | Inl _ \<Rightarrow> False)"
proof -
  have "\<exists>b. push_data h = Inr b"
    using assms by (auto simp: push_data_def Let_def pack_defs)
  then obtain b where b: "push_data h = Inr b" ..
  then obtain op where op: "op_ok (Push op h)" "b = write_op (Push op h)" by (rule push_data_op)
  let ?p = "[Op OP_DUP, Op OP_HASH160, Push op h, Op OP_EQUALVERIFY, Op OP_CHECKSIG]"
  let ?s = "[Op OP_HASH160, Push op h, Op OP_EQUAL]"
  have w: "P2PKH_script h = Inr (write_ops ?p)" "P2SH_script h = Inr (write_ops ?s)"
    using b op(2) by (simp_all add: P2PKH_script_def P2SH_script_def write_ops_def)
  moreover have "get_ops (write_ops ?p) = Inr ?p" "get_ops (write_ops ?s) = Inr ?s"
    using op(1) by (simp_all add: get_ops_write)
  ultimately show ?thesis
    by (intro exI [of _ "write_ops ?p"] exI [of _ "write_ops ?s"] exI [of _ op])
      (simp add: match_ops_def TO_ADDRESS_OPS_def TO_P2SH_OPS_def)
qed

theorem output_templates_match_witness:
  "\<exists>p s op. P2PKH_script [1, 2] = Inr p \<and> P2SH_script [1, 2] = Inr s \<and>
     get_ops p = Inr [Op OP_DUP, Op OP_HASH160, Push op [1, 2], Op OP_EQUALVERIFY, Op OP_CHECKSIG] \<and>
     get_ops s = Inr [Op OP_HASH160, Push op [1, 2], Op OP_EQUAL]"
  using output_templates_match [of "[1, 2]"] by force

text \<open>Two different opcodes can share a name: a push of one byte is shown as \<open>OP_1\<close>.\<close>

lemma opcode_name_ambiguous: "opcode_name 1 = Inr ''OP_1'' \<and> opcode_name 81 = Inr ''OP_1''"
proof -
  have "show_int 1 = ''1''" by code_simp
  then show ?thesis by (simp add: opcode_name_def op_codes_value enum_whatis_def op_code_list_def)
qed

end
