(* ===== verification/Transactions.thy ===== *)
theory Transactions
  imports PyUtil
begin

section \<open>Transactions: serialisation and the deserialisers (lib/tx.py)\<close>

text \<open>
  \<open>Tx\<close>, \<open>TxInput\<close> and \<open>TxOutput\<close> are records; the attributes that a subclass of \<open>Tx\<close> adds are the
  constructor of \<open>tx_ext\<close> in the field \<open>ext\<close>.  A method of \<open>Deserializer\<close> is a \<open>reader\<close>: it gets
  \<open>binary\<close> and the cursor, and gives a value and the new cursor or an exception.  \<open>bindR\<close> sequences
  two calls; \<open>spannedR\<close> runs a call and adds \<open>binary[start:cursor]\<close> and \<open>cursor - start\<close> for the
  \<open>start\<close> before it.  The hash function \<open>TX_HASH_FN\<close> is the parameter \<open>H\<close>.

  The relation \<open>reads L r b x\<close> says that \<open>r\<close> reads exactly the bytes \<open>b\<close> as \<open>x\<close>, wherever they stand
  in a binary of length \<open>L\<close>; its rules carry the round-trip theorems, of the base deserialiser, of
  blocks and of the SegWit format.
\<close>

definition ZERO :: bytes where "ZERO = replicate 32 0"

definition MINUS_1 :: nat where "MINUS_1 = 4294967295"

record tx_input =
  prev_hash :: bytes
  prev_idx :: nat
  in_script :: bytes
  in_sequence :: nat

record tx_output =
  out_value :: int
  pk_script :: bytes

datatype tx_ext =
    PlainTx
  | SegWitTx nat nat "bytes list list"
  | PIVXTx nat
  | TimeTx nat
  | TimeSegWitTx nat nat nat "bytes list list"
  | TrezarcoinTx nat bytes
  | DiamondTx string
  | DiamondSegWitTx string nat nat "bytes list list"

record tx =
  tx_version :: int
  tx_inputs :: "tx_input list"
  tx_outputs :: "tx_output list"
  tx_locktime :: nat
  txid :: bytes
  wtxid :: bytes
  ext :: tx_ext

definition is_generation :: "tx_input \<Rightarrow> bool" where
  "is_generation i \<longleftrightarrow> prev_idx i = MINUS_1 \<and> prev_hash i = ZERO"

definition serialize_input :: "tx_input \<Rightarrow> exn + bytes" where
  "serialize_input i =
     bindE (pack_le_uint32 (int (prev_idx i))) (\<lambda>idx.
     bindE (pack_varbytes (in_script i)) (\<lambda>script.
     bindE (pack_le_uint32 (int (in_sequence i))) (\<lambda>sequence.
     Inr (prev_hash i @ idx @ script @ sequence))))"

definition serialize_output :: "tx_output \<Rightarrow> exn + bytes" where
  "serialize_output out =
     bindE (pack_le_int64 (out_value out)) (\<lambda>val.
     bindE (pack_varbytes (pk_script out)) (\<lambda>script.
     Inr (val @ script)))"

definition serialize_list :: "('a \<Rightarrow> exn + bytes) \<Rightarrow> 'a list \<Rightarrow> exn + bytes" where
  "serialize_list f xs =
     bindE (pack_varint (int (length xs))) (\<lambda>n.
     bindE (mapE f xs) (\<lambda>bs. Inr (n @ concat bs)))"

definition serialize_tx :: "tx \<Rightarrow> exn + bytes" where
  "serialize_tx t =
     bindE (pack_le_int32 (tx_version t)) (\<lambda>version.
     bindE (serialize_list serialize_input (tx_inputs t)) (\<lambda>inputs.
     bindE (serialize_list serialize_output (tx_outputs t)) (\<lambda>outputs.
     bindE (pack_le_uint32 (int (tx_locktime t))) (\<lambda>locktime.
     Inr (version @ inputs @ outputs @ locktime)))))"

subsection \<open>Readers\<close>

type_synonym 'a reader = "bytes \<Rightarrow> nat \<Rightarrow> exn + 'a \<times> nat"

definition returnR :: "'a \<Rightarrow> 'a reader" where
  "returnR x = (\<lambda>binary cursor. Inr (x, cursor))"

definition raiseR :: "exn \<Rightarrow> 'a reader" where
  "raiseR e = (\<lambda>binary cursor. Inl e)"

definition bindR :: "'a reader \<Rightarrow> ('a \<Rightarrow> 'b reader) \<Rightarrow> 'b reader" where
  "bindR r f = (\<lambda>binary cursor. bindE (r binary cursor) (\<lambda>(x, cursor). f x binary cursor))"

definition spannedR :: "'a reader \<Rightarrow> ('a \<times> bytes \<times> nat) reader" where
  "spannedR r = (\<lambda>binary start.
     bindE (r binary start) (\<lambda>(x, cursor). Inr ((x, slice binary start cursor, cursor - start), cursor)))"

text \<open>\<open>self.cursor += n\<close>, \<open>self.binary[self.cursor + k]\<close> and \<open>self.binary_length\<close>.\<close>

definition skipR :: "nat \<Rightarrow> unit reader" where
  "skipR n = (\<lambda>binary cursor. Inr ((), cursor + n))"

definition peekR :: "nat \<Rightarrow> nat reader" where
  "peekR k = (\<lambda>binary cursor.
     if cursor + k < length binary then Inr (unat (binary ! (cursor + k)), cursor) else Inl IndexError)"

definition binary_length :: "nat reader" where
  "binary_length = (\<lambda>binary cursor. Inr (length binary, cursor))"

text \<open>\<open>[read() for _ in range(n)]\<close>\<close>

primrec repeatR :: "nat \<Rightarrow> 'a reader \<Rightarrow> 'a list reader" where
  "repeatR 0 r = returnR []"
| "repeatR (Suc n) r = bindR r (\<lambda>x. bindR (repeatR n r) (\<lambda>xs. returnR (x # xs)))"

definition read_byte :: "nat reader" where
  "read_byte = (\<lambda>binary cursor.
     if cursor < length binary then Inr (unat (binary ! cursor), cursor + 1) else Inl IndexError)"

definition read_nbytes :: "nat \<Rightarrow> bytes reader" where
  "read_nbytes n = (\<lambda>binary cursor.
     bindE (assertE (length binary \<ge> cursor + n)) (\<lambda>_.
     Inr (slice binary cursor (cursor + n), cursor + n)))"

definition read_le_uint :: "nat \<Rightarrow> nat reader" where
  "read_le_uint k = (\<lambda>binary cursor.
     bindE (unpack_le_unsigned_from k binary cursor) (\<lambda>result. Inr (result, cursor + k)))"

definition read_le_int :: "nat \<Rightarrow> int reader" where
  "read_le_int k = (\<lambda>binary cursor.
     bindE (unpack_le_signed_from k binary cursor) (\<lambda>result. Inr (result, cursor + k)))"

definition read_le_int32 :: "int reader" where "read_le_int32 = read_le_int 4"
definition read_le_int64 :: "int reader" where "read_le_int64 = read_le_int 8"
definition read_le_uint16 :: "nat reader" where "read_le_uint16 = read_le_uint 2"
definition read_le_uint32 :: "nat reader" where "read_le_uint32 = read_le_uint 4"
definition read_le_uint64 :: "nat reader" where "read_le_uint64 = read_le_uint 8"

definition read_be_uint16 :: "nat reader" where
  "read_be_uint16 = (\<lambda>binary cursor.
     bindE (unpack_be_unsigned_from 2 binary cursor) (\<lambda>result. Inr (result, cursor + 2)))"

definition read_varint :: "nat reader" where
  "read_varint =
     bindR read_byte (\<lambda>n.
       if n < 253 then returnR n
       else if n = 253 then read_le_uint16
       else if n = 254 then read_le_uint32
       else read_le_uint64)"

definition read_varbytes :: "bytes reader" where
  "read_varbytes = bindR read_varint read_nbytes"

subsection \<open>Deserializer\<close>

definition read_input :: "tx_input reader" where
  "read_input =
     bindR (read_nbytes 32) (\<lambda>prev_hash.
     bindR read_le_uint32 (\<lambda>prev_idx.
     bindR read_varbytes (\<lambda>script.
     bindR read_le_uint32 (\<lambda>sequence.
     returnR \<lparr>prev_hash = prev_hash, prev_idx = prev_idx, in_script = script, in_sequence = sequence\<rparr>))))"

definition read_inputs :: "tx_input list reader" where
  "read_inputs = bindR read_varint (\<lambda>n. repeatR n read_input)"

definition read_output :: "tx_output reader" where
  "read_output =
     bindR read_le_int64 (\<lambda>val.
     bindR read_varbytes (\<lambda>pk_script.
     returnR \<lparr>out_value = val, pk_script = pk_script\<rparr>))"

definition read_outputs :: "tx_output list reader" where
  "read_outputs = bindR read_varint (\<lambda>n. repeatR n read_output)"

definition read_tx :: "(bytes \<Rightarrow> bytes) \<Rightarrow> tx reader" where
  "read_tx H =
     bindR (spannedR (
       bindR read_le_int32 (\<lambda>version.
       bindR read_inputs (\<lambda>inputs.
       bindR read_outputs (\<lambda>outputs.
       bindR read_le_uint32 (\<lambda>locktime.
       returnR (version, inputs, outputs, locktime)))))))
     (\<lambda>((version, inputs, outputs, locktime), span, size).
       returnR \<lparr>tx_version = version, tx_inputs = inputs, tx_outputs = outputs, tx_locktime = locktime,
         txid = H span, wtxid = H span, ext = PlainTx\<rparr>)"

definition read_tx_parts :: "(bytes \<Rightarrow> bytes) \<Rightarrow> (tx \<times> nat) reader" where
  "read_tx_parts H =
     bindR (read_tx H) (\<lambda>t. bindR binary_length (\<lambda>n. returnR (t, n)))"

definition read_tx_block :: "tx reader \<Rightarrow> tx list reader" where
  "read_tx_block read = bindR read_varint (\<lambda>n. repeatR n read)"

subsection \<open>DeserializerSegWit\<close>

definition read_witness_field :: "bytes list reader" where
  "read_witness_field = bindR read_varint (\<lambda>n. repeatR n read_varbytes)"

definition read_witness :: "nat \<Rightarrow> bytes list list reader" where
  "read_witness n_fields = repeatR n_fields read_witness_field"

definition read_ins_outs :: "(tx_input list \<times> tx_output list) reader" where
  "read_ins_outs =
     bindR read_inputs (\<lambda>inputs. bindR read_outputs (\<lambda>outputs. returnR (inputs, outputs)))"

text \<open>The part of \<open>_read_tx_parts\<close> for a marker of 0; the cursor is still at the version.\<close>

definition segwit_read_marked :: "(bytes \<Rightarrow> bytes) \<Rightarrow> (tx \<times> nat) reader" where
  "segwit_read_marked H =
     bindR (spannedR read_le_int32) (\<lambda>(version, ser1, _).
     bindR read_byte (\<lambda>marker.
     bindR read_byte (\<lambda>flag.
     bindR (spannedR read_ins_outs) (\<lambda>((inputs, outputs), ser2, base_size).
     bindR (read_witness (length inputs)) (\<lambda>witness.
     bindR (spannedR read_le_uint32) (\<lambda>(locktime, ser3, _).
     bindR binary_length (\<lambda>n.
     returnR
       (\<lparr>tx_version = version, tx_inputs = inputs, tx_outputs = outputs, tx_locktime = locktime,
         txid = H (ser1 @ ser2 @ ser3), wtxid = H ser3, ext = SegWitTx marker flag witness\<rparr>,
        (3 * base_size + n) div 4))))))))"

definition segwit_read_tx_parts :: "(bytes \<Rightarrow> bytes) \<Rightarrow> (tx \<times> nat) reader" where
  "segwit_read_tx_parts H =
     bindR (peekR 4) (\<lambda>marker.
       if marker \<noteq> 0
       then bindR (read_tx H) (\<lambda>t. bindR binary_length (\<lambda>n. returnR (t, n)))
       else segwit_read_marked H)"

definition segwit_read_tx :: "(bytes \<Rightarrow> bytes) \<Rightarrow> tx reader" where
  "segwit_read_tx H = bindR (segwit_read_tx_parts H) (\<lambda>(t, vsize). returnR t)"

subsection \<open>What a reader reads\<close>

definition reads :: "nat \<Rightarrow> 'a reader \<Rightarrow> bytes \<Rightarrow> 'a \<Rightarrow> bool" where
  "reads L r b x \<longleftrightarrow>
     (\<forall>pre post. length (pre @ b @ post) = L \<longrightarrow>
        r (pre @ b @ post) (length pre) = Inr (x, length pre + length b))"

named_theorems reads_rules \<open>how readers are composed\<close>

lemma readsD:
  "reads (length (pre @ b @ post)) r b x \<Longrightarrow> r (pre @ b @ post) (length pre) = Inr (x, length pre + length b)"
  by (simp add: reads_def)

lemma reads_return [reads_rules]: "x = y \<Longrightarrow> reads L (returnR x) [] y"
  by (simp add: reads_def returnR_def)

lemma reads_bind:
  assumes "reads L r b x" "reads L (f x) c y"
  shows "reads L (bindR r f) (b @ c) y"
  unfolding reads_def
proof (intro allI impI)
  fix pre post :: bytes
  assume L: "length (pre @ (b @ c) @ post) = L"
  have "r (pre @ b @ c @ post) (length pre) = Inr (x, length pre + length b)"
    using assms(1) L unfolding reads_def by simp
  moreover have "f x ((pre @ b) @ c @ post) (length (pre @ b)) = Inr (y, length (pre @ b) + length c)"
    using assms(2) L unfolding reads_def by (metis append_assoc)
  ultimately show "bindR r f (pre @ (b @ c) @ post) (length pre) = Inr (y, length pre + length (b @ c))"
    by (simp add: bindR_def)
qed

lemma reads_span:
  assumes "reads L r b x"
  shows "reads L (spannedR r) b (x, b, length b)"
  using assms by (auto simp: reads_def spannedR_def slice_def)

lemma reads_bind_last: "reads L r b x \<Longrightarrow> reads L (f x) [] y \<Longrightarrow> reads L (bindR r f) b y"
  using reads_bind [of L r b x f "[]" y] by simp

lemma reads_length: "reads L binary_length [] L"
  by (auto simp: reads_def binary_length_def)

lemma reads_length_bind: "reads L (f L) b y \<Longrightarrow> reads L (bindR binary_length f) b y"
  using reads_bind [OF reads_length] by fastforce

lemma reads_peek:
  assumes "k < length b" "reads L (f (unat (b ! k))) b y"
  shows "reads L (bindR (peekR k) f) b y"
  using assms by (auto simp: reads_def bindR_def peekR_def nth_append)

lemma reads_byte: "reads L read_byte [b] (unat b)"
  by (auto simp: reads_def read_byte_def)

lemma reads_nbytes: "length b = n \<Longrightarrow> reads L (read_nbytes n) b b"
  by (auto simp: reads_def read_nbytes_def slice_def)

lemma reads_le_uint: "n < 256 ^ k \<Longrightarrow> reads L (read_le_uint k) (le_encode k n) n"
  by (auto simp: reads_def read_le_uint_def unpack_le_unsigned_from_at)

lemma reads_le_int:
  "- (256 ^ k) \<le> 2 * n \<Longrightarrow> 2 * n < 256 ^ k \<Longrightarrow>
   reads L (read_le_int k) (le_encode k (nat (n mod 256 ^ k))) n"
  by (auto simp: reads_def read_le_int_def unpack_le_signed_from_at)

lemma reads_varint:
  assumes "pack_varint (int n) = Inr b"
  shows "reads L read_varint b n"
proof (cases rule: pack_varint_cases [OF assms])
  case 1
  then have "unat (of_nat n :: byte) = n" by (simp add: unat_of_nat)
  with 1 show ?thesis
    unfolding read_varint_def by (auto intro!: reads_bind_last [OF reads_byte] reads_return)
next
  case 2
  then show ?thesis
    unfolding read_varint_def read_le_uint16_def
    using reads_bind [OF reads_byte [of L 253], of _ "le_encode 2 n" n] by (simp add: reads_le_uint)
next
  case 3
  then show ?thesis
    unfolding read_varint_def read_le_uint32_def
    using reads_bind [OF reads_byte [of L 254], of _ "le_encode 4 n" n] by (simp add: reads_le_uint)
next
  case 4
  then show ?thesis
    unfolding read_varint_def read_le_uint64_def
    using reads_bind [OF reads_byte [of L 255], of _ "le_encode 8 n" n] by (simp add: reads_le_uint)
qed

lemma reads_varbytes: "pack_varbytes d = Inr b \<Longrightarrow> reads L read_varbytes b d"
  unfolding read_varbytes_def pack_varbytes_def
  by (auto simp: err_simps intro!: reads_bind reads_varint reads_nbytes)

lemma reads_repeat:
  "list_all2 (reads L r) bs xs \<Longrightarrow> reads L (repeatR (length xs) r) (concat bs) xs"
proof (induction bs xs rule: list_all2_induct)
  case (Cons b bs x xs)
  have "reads L (bindR (repeatR (length xs) r) (\<lambda>ys. returnR (x # ys))) (concat bs) (x # xs)"
    by (rule reads_bind_last [OF Cons(3)]) (simp add: reads_return)
  with Cons(1) show ?case by (simp add: reads_bind)
qed (simp add: reads_return)

lemma reads_list:
  assumes "serialize_list f xs = Inr b"
    and "\<And>x c. x \<in> set xs \<Longrightarrow> f x = Inr c \<Longrightarrow> reads L r c x"
  shows "reads L (bindR read_varint (\<lambda>n. repeatR n r)) b xs"
proof -
  obtain n bs where n: "pack_varint (int (length xs)) = Inr n" and bs: "mapE f xs = Inr bs"
    and b: "b = n @ concat bs"
    using assms(1) by (auto simp: serialize_list_def err_simps)
  have "list_all2 (reads L r) bs xs"
    using bs assms(2) by (induction xs arbitrary: bs) (auto simp: err_simps)
  then show ?thesis unfolding b by - (rule reads_bind [OF reads_varint [OF n]], erule reads_repeat)
qed

subsection \<open>Round trips\<close>

definition tx_ok :: "tx \<Rightarrow> bool" where
  "tx_ok t \<longleftrightarrow> list_all (\<lambda>i. length (prev_hash i) = 32) (tx_inputs t)"

lemma reads_input:
  assumes "serialize_input i = Inr b" "length (prev_hash i) = 32"
  shows "reads L read_input b i"
proof -
  obtain sc where b: "b = prev_hash i @ le_encode 4 (prev_idx i) @ sc @ le_encode 4 (in_sequence i) @ []"
    and sc: "pack_varbytes (in_script i) = Inr sc"
    and bnd: "prev_idx i < 256 ^ 4" "in_sequence i < 256 ^ 4"
    using assms(1) by (auto simp: serialize_input_def err_simps pack_le_uint32_def)
  show ?thesis
    unfolding read_input_def read_le_uint32_def b
    by (rule reads_bind [OF reads_nbytes [OF assms(2)]], rule reads_bind [OF reads_le_uint [OF bnd(1)]],
        rule reads_bind [OF reads_varbytes [OF sc]], rule reads_bind [OF reads_le_uint [OF bnd(2)]])
      (simp add: reads_return)
qed

lemma reads_output:
  assumes "serialize_output out = Inr b"
  shows "reads L read_output b out"
proof -
  obtain sc where b: "b = le_encode 8 (nat (out_value out mod 256 ^ 8)) @ sc @ []"
    and sc: "pack_varbytes (pk_script out) = Inr sc"
    and bnd: "- (256 ^ 8) \<le> 2 * out_value out" "2 * out_value out < 256 ^ 8"
    using assms by (auto simp: serialize_output_def err_simps pack_le_int64_def pack_le_signed_def
        split: if_splits)
  show ?thesis
    unfolding read_output_def read_le_int64_def b
    by (rule reads_bind [OF reads_le_int [OF bnd]], rule reads_bind [OF reads_varbytes [OF sc]])
      (simp add: reads_return)
qed

lemma reads_int32: "pack_le_int32 v = Inr b \<Longrightarrow> reads L read_le_int32 b v"
  using reads_le_int [of 4 v L]
  by (simp add: read_le_int32_def pack_le_int32_def pack_le_signed_def split: if_splits)

lemma reads_uint32: "pack_le_uint32 (int n) = Inr b \<Longrightarrow> reads L read_le_uint32 b n"
  unfolding read_le_uint32_def pack_le_uint32_def by (auto simp: err_simps intro!: reads_le_uint)

lemma reads_inputs:
  assumes "serialize_list serialize_input (tx_inputs t) = Inr b" "tx_ok t"
  shows "reads L read_inputs b (tx_inputs t)"
  unfolding read_inputs_def
  by (rule reads_list [OF assms(1)]) (use assms(2) in \<open>auto simp: tx_ok_def list_all_iff intro: reads_input\<close>)

lemma reads_outputs:
  assumes "serialize_list serialize_output outs = Inr b"
  shows "reads L read_outputs b outs"
  unfolding read_outputs_def by (rule reads_list [OF assms]) (rule reads_output)

lemma reads_tx:
  assumes "serialize_tx t = Inr b" "tx_ok t"
  shows "reads L (read_tx H) b (t\<lparr>txid := H b, wtxid := H b, ext := PlainTx\<rparr>)"
proof -
  obtain v ins outs lock where b: "b = v @ ins @ outs @ lock"
    and p: "pack_le_int32 (tx_version t) = Inr v" "serialize_list serialize_input (tx_inputs t) = Inr ins"
      "serialize_list serialize_output (tx_outputs t) = Inr outs"
      "pack_le_uint32 (int (tx_locktime t)) = Inr lock"
    using assms(1) by (auto simp: serialize_tx_def bindE_Inr_iff)
  have "reads L (bindR read_le_int32 (\<lambda>version. bindR read_inputs (\<lambda>inputs. bindR read_outputs (\<lambda>outputs.
       bindR read_le_uint32 (\<lambda>locktime. returnR (version, inputs, outputs, locktime))))))
     b (tx_version t, tx_inputs t, tx_outputs t, tx_locktime t)"
    unfolding b
    by (rule reads_bind [OF reads_int32 [OF p(1)]], rule reads_bind [OF reads_inputs [OF p(2) assms(2)]],
        rule reads_bind [OF reads_outputs [OF p(3)]], rule reads_bind_last [OF reads_uint32 [OF p(4)]])
      (simp add: reads_return)
  from reads_span [OF this] show ?thesis
    unfolding read_tx_def by (rule reads_bind_last) (simp add: reads_return)
qed

text \<open>A transaction that can be serialised is read back exactly, from any position of any
  binary: every attribute is recovered, the cursor stops right after it, and both hashes are the
  hash of exactly its bytes.\<close>

theorem tx_roundtrip:
  assumes "serialize_tx t = Inr b" "tx_ok t"
  shows "read_tx H (pre @ b @ post) (length pre) =
    Inr (t\<lparr>txid := H b, wtxid := H b, ext := PlainTx\<rparr>, length pre + length b)"
  by (rule readsD) (rule reads_tx [OF assms])

theorem tx_roundtrip_witness:
  "read_tx (\<lambda>b. b) ([7] @ [2, 0, 0, 0] @ [0] @ [0] @ [9, 0, 0, 0] @ [8]) 1 =
   Inr (\<lparr>tx_version = 2, tx_inputs = [], tx_outputs = [], tx_locktime = 9,
          txid = [2, 0, 0, 0, 0, 0, 9, 0, 0, 0], wtxid = [2, 0, 0, 0, 0, 0, 9, 0, 0, 0], ext = PlainTx\<rparr>, 11)"
proof -
  let ?t = "\<lparr>tx_version = 2, tx_inputs = [], tx_outputs = [], tx_locktime = 9,
          txid = [], wtxid = [], ext = PlainTx\<rparr>"
  have "serialize_tx ?t = Inr [2, 0, 0, 0, 0, 0, 9, 0, 0, 0]" by code_simp
  moreover have "tx_ok ?t" by (simp add: tx_ok_def)
  ultimately show ?thesis using tx_roundtrip [of ?t _ "\<lambda>b. b" "[7]" "[8]"] by simp
qed

text \<open>The transactions of a block: the serialised list is read back, each with the hash of its
  own bytes.\<close>

definition with_ids :: "(bytes \<Rightarrow> bytes) \<Rightarrow> tx \<Rightarrow> tx" where
  "with_ids H t = (case serialize_tx t of
     Inr b \<Rightarrow> t\<lparr>txid := H b, wtxid := H b, ext := PlainTx\<rparr> | Inl _ \<Rightarrow> t)"

lemma reads_repeat_map:
  "list_all2 (reads L r) bs (map f xs) \<Longrightarrow> reads L (repeatR (length xs) r) (concat bs) (map f xs)"
  using reads_repeat [of L r bs "map f xs"] by simp

text \<open>C30: the transactions of a block are read back one by one, whatever follows them in the block
  (some coins append data), each with the hash of exactly its own bytes.\<close>

theorem block_roundtrip:
  assumes "serialize_list serialize_tx ts = Inr b" "list_all tx_ok ts"
  shows "read_tx_block (read_tx H) (pre @ b @ post) (length pre) =
    Inr (map (with_ids H) ts, length pre + length b)"
proof (rule readsD)
  let ?L = "length (pre @ b @ post)"
  obtain n bs where n: "pack_varint (int (length ts)) = Inr n" and bs: "mapE serialize_tx ts = Inr bs"
    and b: "b = n @ concat bs"
    using assms(1) by (auto simp: serialize_list_def err_simps)
  have "list_all2 (reads ?L (read_tx H)) bs (map (with_ids H) ts)"
    using bs assms(2)
    by (induction ts arbitrary: bs) (auto simp: err_simps with_ids_def intro: reads_tx)
  then show "reads ?L (read_tx_block (read_tx H)) b (map (with_ids H) ts)"
    unfolding read_tx_block_def b
    by - (rule reads_bind [OF reads_varint [OF n]], erule reads_repeat_map)
qed

theorem block_roundtrip_witness:
  "read_tx_block (read_tx (\<lambda>b. b)) ([2] @ [2,0,0,0,0,0,9,0,0,0] @ [3,0,0,0,0,0,9,0,0,0]) 0 =
   Inr (map (\<lambda>v. \<lparr>tx_version = v, tx_inputs = [], tx_outputs = [], tx_locktime = 9,
          txid = [of_int v,0,0,0,0,0,9,0,0,0], wtxid = [of_int v,0,0,0,0,0,9,0,0,0], ext = PlainTx\<rparr>) [2, 3], 21)"
proof -
  let ?t = "\<lambda>v. \<lparr>tx_version = v, tx_inputs = [], tx_outputs = [], tx_locktime = 9,
          txid = [], wtxid = [], ext = PlainTx\<rparr>"
  have "serialize_list serialize_tx [?t 2, ?t 3] = Inr [2,2,0,0,0,0,0,9,0,0,0,3,0,0,0,0,0,9,0,0,0]"
    "serialize_tx (?t 2) = Inr [2,0,0,0,0,0,9,0,0,0]" "serialize_tx (?t 3) = Inr [3,0,0,0,0,0,9,0,0,0]"
    by code_simp+
  then show ?thesis
    using block_roundtrip [of "[?t 2, ?t 3]" _ "\<lambda>b. b" "[]" "[]"] by (simp add: with_ids_def tx_ok_def)
qed

subsection \<open>The SegWit format\<close>

definition serialize_witness :: "bytes list list \<Rightarrow> exn + bytes" where
  "serialize_witness w = bindE (mapE (serialize_list pack_varbytes) w) (\<lambda>bs. Inr (concat bs))"

text \<open>BIP 144: version, marker 0, flag, inputs, outputs, one witness per input, locktime.\<close>

definition serialize_segwit :: "byte \<Rightarrow> bytes list list \<Rightarrow> tx \<Rightarrow> exn + bytes" where
  "serialize_segwit flag witness t =
     bindE (pack_le_int32 (tx_version t)) (\<lambda>version.
     bindE (serialize_list serialize_input (tx_inputs t)) (\<lambda>inputs.
     bindE (serialize_list serialize_output (tx_outputs t)) (\<lambda>outputs.
     bindE (serialize_witness witness) (\<lambda>wit.
     bindE (pack_le_uint32 (int (tx_locktime t))) (\<lambda>locktime.
     Inr (version @ [0, flag] @ inputs @ outputs @ wit @ locktime))))))"

lemma reads_witness:
  assumes "serialize_witness w = Inr b"
  shows "reads L (read_witness (length w)) b w"
proof -
  obtain bs where bs: "mapE (serialize_list pack_varbytes) w = Inr bs" and b: "b = concat bs"
    using assms by (auto simp: serialize_witness_def err_simps)
  have "reads L read_witness_field c x" if "serialize_list pack_varbytes x = Inr c" for c x
    unfolding read_witness_field_def using that by (rule reads_list) (rule reads_varbytes)
  then have "list_all2 (reads L read_witness_field) bs w"
    using bs by (induction w arbitrary: bs) (auto simp: err_simps)
  then show ?thesis unfolding b read_witness_def by (rule reads_repeat)
qed

lemma first_byte_varint: "pack_varint (int n) = Inr b \<Longrightarrow> 0 < n \<Longrightarrow> b \<noteq> [] \<and> b ! 0 \<noteq> 0"
  by (erule pack_varint_cases) (auto simp: word_unat_eq_iff unat_of_nat)

lemma serialize_list_first: "serialize_list f xs = Inr b \<Longrightarrow> xs \<noteq> [] \<Longrightarrow> b \<noteq> [] \<and> b ! 0 \<noteq> 0"
  using first_byte_varint [of "length xs"]
  by (fastforce simp: serialize_list_def err_simps nth_append)

text \<open>The SegWit deserialiser reads a transaction without witness data exactly as the base
  deserialiser does, provided it has an input (with none, its input count is the SegWit marker).\<close>

theorem segwit_reads_legacy:
  assumes "serialize_tx t = Inr b" "tx_ok t" "tx_inputs t \<noteq> []"
  shows "segwit_read_tx_parts H (pre @ b @ post) (length pre) =
      Inr ((t\<lparr>txid := H b, wtxid := H b, ext := PlainTx\<rparr>, length (pre @ b @ post)), length pre + length b)"
proof (rule readsD)
  let ?L = "length (pre @ b @ post)"
  obtain v ins outs lock where b: "b = v @ ins @ outs @ lock" and v: "length v = 4"
    and ins: "serialize_list serialize_input (tx_inputs t) = Inr ins"
    using assms(1)
    by (auto simp: serialize_tx_def bindE_Inr_iff pack_le_int32_def pack_le_signed_def split: if_splits)
  from serialize_list_first [OF ins assms(3)] have m: "4 < length b" "unat (b ! 4) \<noteq> 0"
    by (auto simp: b v nth_append unat_eq_zero)
  show "reads ?L (segwit_read_tx_parts H) b (t\<lparr>txid := H b, wtxid := H b, ext := PlainTx\<rparr>, ?L)"
    unfolding segwit_read_tx_parts_def
    by (rule reads_peek [OF m(1)])
      (use m(2) in \<open>simp add: reads_bind_last [OF reads_tx [OF assms(1,2)]] reads_length_bind reads_return\<close>)
qed

text \<open>C29: a SegWit transaction is read back exactly, witness included; its \<open>txid\<close> is the hash of
  the serialisation without marker, flag and witness.  Its \<open>wtxid\<close>, by contrast, is the hash of the
  four bytes of the locktime alone, and its virtual size leaves those four bytes and the four of
  the version out of the base size: that is what the code computes, not what BIP 141 defines.\<close>

theorem segwit_roundtrip:
  assumes "serialize_segwit flag witness t = Inr b" "tx_ok t" "length witness = length (tx_inputs t)"
  shows "\<exists>stripped lock. serialize_tx t = Inr stripped \<and> lock = le_encode 4 (tx_locktime t) \<and>
    segwit_read_tx_parts H (pre @ b @ post) (length pre) =
      Inr ((t\<lparr>txid := H stripped, wtxid := H lock, ext := SegWitTx 0 (unat flag) witness\<rparr>,
            (3 * (length stripped - 8) + length (pre @ b @ post)) div 4),
           length pre + length b)"
proof -
  let ?L = "length (pre @ b @ post)"
  obtain v ins outs wit lock where b: "b = v @ [0] @ [flag] @ (ins @ outs) @ wit @ lock"
    and p: "pack_le_int32 (tx_version t) = Inr v" "serialize_list serialize_input (tx_inputs t) = Inr ins"
      "serialize_list serialize_output (tx_outputs t) = Inr outs"
      "pack_le_uint32 (int (tx_locktime t)) = Inr lock" "serialize_witness witness = Inr wit"
    using assms(1) by (auto simp: serialize_segwit_def bindE_Inr_iff)
  then have ser: "serialize_tx t = Inr (v @ ins @ outs @ lock)"
    by (simp add: serialize_tx_def)
  have lens: "length v = 4" "length lock = 4" and lock: "lock = le_encode 4 (tx_locktime t)"
    using p(1,4) by (auto simp: pack_le_int32_def pack_le_signed_def pack_le_uint32_def err_simps
        split: if_splits)
  have io: "reads L read_ins_outs (ins @ outs) (tx_inputs t, tx_outputs t)" for L
    unfolding read_ins_outs_def
    by (rule reads_bind [OF reads_inputs [OF p(2) assms(2)]], rule reads_bind_last [OF reads_outputs [OF p(3)]])
      (simp add: reads_return)
  let ?t = "t\<lparr>txid := H (v @ (ins @ outs) @ lock), wtxid := H lock, ext := SegWitTx 0 (unat flag) witness\<rparr>"
  have "reads ?L (segwit_read_marked H) b (?t, (3 * length (ins @ outs) + ?L) div 4)"
    unfolding segwit_read_marked_def b
    apply (rule reads_bind [OF reads_span [OF reads_int32 [OF p(1)]]], simp only: prod.case)
    apply (rule reads_bind [OF reads_byte], rule reads_bind [OF reads_byte])
    apply (rule reads_bind [OF reads_span [OF io]], simp only: prod.case)
    apply (rule reads_bind [OF reads_witness [OF p(5), unfolded assms(3)]])
    apply (rule reads_bind_last [OF reads_span [OF reads_uint32 [OF p(4)]]], simp only: prod.case)
    by (rule reads_length_bind) (simp add: reads_return b)
  moreover have "4 < length b" "unat (b ! 4) = 0" by (simp_all add: b lens nth_append)
  ultimately have "reads ?L (segwit_read_tx_parts H) b (?t, (3 * length (ins @ outs) + ?L) div 4)"
    unfolding segwit_read_tx_parts_def by (intro reads_peek) simp_all
  from readsD [OF this] show ?thesis
    using lens lock ser by auto
qed

theorem segwit_roundtrip_witness:
  "\<exists>stripped. segwit_read_tx_parts (\<lambda>b. b) ([] @ [2,0,0,0, 0,1, 0,0, 9,0,0,0] @ []) 0 =
      Inr ((\<lparr>tx_version = 2, tx_inputs = [], tx_outputs = [], tx_locktime = 9,
         txid = stripped, wtxid = [9,0,0,0], ext = SegWitTx 0 1 []\<rparr>, 4), 12)
    \<and> stripped = [2,0,0,0,0,0,9,0,0,0]"
proof -
  let ?t = "\<lparr>tx_version = 2, tx_inputs = [], tx_outputs = [], tx_locktime = 9,
         txid = [], wtxid = [], ext = PlainTx\<rparr>"
  have "serialize_segwit 1 [] ?t = Inr [2,0,0,0, 0,1, 0,0, 9,0,0,0]"
    "serialize_tx ?t = Inr [2,0,0,0,0,0,9,0,0,0]" "le_encode 4 9 = [9,0,0,0]" by code_simp+
  then show ?thesis
    using segwit_roundtrip [of 1 "[]" ?t _ "\<lambda>b. b" "[]" "[]"] by (auto simp: tx_ok_def)
qed

definition sample_input :: tx_input where
  "sample_input = \<lparr>prev_hash = replicate 32 1, prev_idx = 5, in_script = [], in_sequence = 0\<rparr>"

definition sample_tx :: tx where
  "sample_tx = \<lparr>tx_version = 2, tx_inputs = [sample_input], tx_outputs = [], tx_locktime = 9,
         txid = [], wtxid = [], ext = PlainTx\<rparr>"

theorem segwit_reads_legacy_witness:
  "\<exists>b. serialize_tx sample_tx = Inr b \<and>
     segwit_read_tx_parts (\<lambda>b. b) ([] @ b @ []) 0 =
      Inr ((sample_tx\<lparr>txid := b, wtxid := b, ext := PlainTx\<rparr>, length b), length b)"
proof -
  have "\<exists>b. serialize_tx sample_tx = Inr b"
    by (simp add: serialize_tx_def sample_tx_def sample_input_def serialize_list_def pack_varint_def
        pack_defs serialize_input_def pack_varbytes_def)
  then obtain b where b: "serialize_tx sample_tx = Inr b" ..
  have ok: "tx_ok sample_tx" "tx_inputs sample_tx \<noteq> []"
    by (simp_all add: tx_ok_def sample_tx_def sample_input_def)
  show ?thesis using segwit_reads_legacy [OF b ok, of "\<lambda>b. b" "[]" "[]"] b by auto
qed

end
