(* ===== verification/KVStore.thy ===== *)
theory KVStore
  imports PyUtil "HOL-Library.RBT"
begin

section \<open>The key-value store (server/storage.py)\<close>

text \<open>
  The databases are LevelDB or RocksDB stores behind the abstract class \<open>Storage\<close>.  The engines are
  not part of the repository, so an engine \<open>E\<close> is a parameter of the model: its operations
  \<open>get\<close>, \<open>put\<close>, \<open>write_batch\<close> (as the list of the operations of a batch that is committed, in
  order) and \<open>iterator\<close> on a database of type \<open>'db\<close>.  The locale \<open>storage\<close> states what the class
  documents of them: \<open>get\<close> reads what was last written, a batch applies its operations in order, and
  the iterator yields the items whose key has the prefix, sorted by key, or in reverse.

  \<open>items_of m p\<close> is the list such an iterator must yield for the contents \<open>m\<close>; the lemmas about it
  (what it is after a batch, for one more byte of prefix, for a key with the prefix) carry the proofs
  of the history and chain databases.  \<open>rbt_engine\<close> is an engine on the library's search trees that
  satisfies the contract.
\<close>

datatype batch_op = Put bytes bytes | Delete bytes

record 'db engine =
  db_get :: "'db \<Rightarrow> bytes \<Rightarrow> bytes option"
  db_put :: "'db \<Rightarrow> bytes \<Rightarrow> bytes \<Rightarrow> 'db"
  db_write :: "'db \<Rightarrow> batch_op list \<Rightarrow> 'db"
  db_iterator :: "'db \<Rightarrow> bytes \<Rightarrow> bool \<Rightarrow> (bytes \<times> bytes) list"

type_synonym contents = "bytes \<rightharpoonup> bytes"

fun apply_op :: "contents \<Rightarrow> batch_op \<Rightarrow> contents" where
  "apply_op m (Put k v) = m(k \<mapsto> v)"
| "apply_op m (Delete k) = m(k := None)"

definition apply_batch :: "batch_op list \<Rightarrow> contents \<Rightarrow> contents" where
  "apply_batch ops m = foldl apply_op m ops"

lemma apply_batch_simps [simp]:
  "apply_batch [] m = m"
  "apply_batch (op # ops) m = apply_batch ops (apply_op m op)"
  "apply_batch (ops @ ops') m = apply_batch ops' (apply_batch ops m)"
  by (simp_all add: apply_batch_def)

lemma apply_puts: "apply_batch (map (\<lambda>(k, v). Put k v) kvs) m = m ++ map_of (rev kvs)"
  by (induction kvs arbitrary: m) auto

lemma apply_deletes: "apply_batch (map Delete ks) m = m |` (- set ks)"
proof (induction ks arbitrary: m)
  case (Cons k ks)
  have "m(k := None) |` (- set ks) = m |` (- set (k # ks))" by (rule ext) (simp add: restrict_map_def)
  then show ?case by (simp only: list.map apply_batch_simps apply_op.simps Cons.IH)
qed (simp add: restrict_map_def)

lemma finite_apply_batch: "finite (dom m) \<Longrightarrow> finite (dom (apply_batch ops m))"
proof (induction ops arbitrary: m)
  case (Cons op ops)
  have "finite (dom (apply_op m op))" using Cons.prems by (cases op) simp_all
  then show ?case by (simp only: apply_batch_simps Cons.IH)
qed simp

text \<open>The keys a batch touches.\<close>

fun op_key :: "batch_op \<Rightarrow> bytes" where
  "op_key (Put k v) = k"
| "op_key (Delete k) = k"

lemma apply_batch_other: "k \<notin> op_key ` set ops \<Longrightarrow> apply_batch ops m k = m k"
proof (induction ops arbitrary: m)
  case (Cons op ops)
  then show ?case by (cases op) auto
qed simp

subsection \<open>The items of a prefix\<close>

definition keys_of :: "contents \<Rightarrow> bytes \<Rightarrow> bytes list" where
  "keys_of m p = sorted_list_of_set {k \<in> dom m. prefix p k}"

definition items_of :: "contents \<Rightarrow> bytes \<Rightarrow> (bytes \<times> bytes) list" where
  "items_of m p = map (\<lambda>k. (k, the (m k))) (keys_of m p)"

lemma finite_keys: "finite (dom m) \<Longrightarrow> finite {k \<in> dom m. prefix p k}"
  by auto

lemma set_keys_of [simp]: "finite (dom m) \<Longrightarrow> set (keys_of m p) = {k \<in> dom m. prefix p k}"
  unfolding keys_of_def by (rule set_sorted_list_of_set) (rule finite_keys)

lemma sorted_keys_of [simp]: "sorted_wrt (<) (keys_of m p)"
  by (simp add: keys_of_def)

lemma keys_of_eqI:
  "finite (dom m) \<Longrightarrow> sorted_wrt (<) ks \<Longrightarrow> set ks = {k \<in> dom m. prefix p k} \<Longrightarrow> keys_of m p = ks"
  by (rule strict_sorted_equal) auto

lemma map_fst_items [simp]: "map fst (items_of m p) = keys_of m p"
  by (simp add: items_of_def comp_def)

lemma items_of_iff: "finite (dom m) \<Longrightarrow> (k, v) \<in> set (items_of m p) \<longleftrightarrow> m k = Some v \<and> prefix p k"
  by (force simp: items_of_def)

lemma items_of_eqI:
  assumes "finite (dom m)" "sorted_wrt (<) (map fst xs)"
    "\<And>k v. (k, v) \<in> set xs \<longleftrightarrow> m k = Some v \<and> prefix p k"
  shows "items_of m p = xs"
proof -
  have "keys_of m p = map fst xs"
  proof (rule keys_of_eqI [OF assms(1,2)])
    show "set (map fst xs) = {k \<in> dom m. prefix p k}" using assms(3) by force
  qed
  moreover have "the (m k) = v" if "(k, v) \<in> set xs" for k v using assms(3) that by auto
  ultimately show ?thesis by (force simp: items_of_def comp_def intro!: map_idI)
qed

lemma items_of_cong:
  assumes "\<And>k. prefix p k \<Longrightarrow> m k = m' k"
  shows "items_of m p = items_of m' p"
proof -
  have "{k \<in> dom m. prefix p k} = {k \<in> dom m'. prefix p k}" using assms by (auto simp: dom_def)
  moreover have "\<forall>k \<in> set (keys_of m' p). the (m k) = the (m' k)" if "finite {k \<in> dom m'. prefix p k}"
    using that assms by (auto simp: keys_of_def)
  ultimately show ?thesis
    by (cases "finite {k \<in> dom m'. prefix p k}") (auto simp: items_of_def keys_of_def)
qed

lemma distinct_items: "distinct (map fst (items_of m p))"
  using sorted_keys_of [of m p] unfolding strict_sorted_iff by simp

text \<open>A larger prefix selects the part of the items that has it.\<close>

lemma items_of_filter:
  assumes "finite (dom m)" "prefix p q"
  shows "items_of m q = filter (\<lambda>(k, v). prefix q k) (items_of m p)"
proof (rule items_of_eqI [OF assms(1)])
  have "map fst (filter (\<lambda>(k, v). prefix q k) (items_of m p)) = filter (prefix q) (keys_of m p)"
    by (simp add: items_of_def filter_map comp_def)
  then show "sorted_wrt (<) (map fst (filter (\<lambda>(k, v). prefix q k) (items_of m p)))"
    by (simp add: sorted_wrt_filter)
  show "\<And>k v. ((k, v) \<in> set (filter (\<lambda>(k, v). prefix q k) (items_of m p))) = (m k = Some v \<and> prefix q k)"
    using assms prefix_order.trans by (auto simp: items_of_iff)
qed

text \<open>A new largest key is the last item.\<close>

lemma items_of_insert_last:
  assumes "finite (dom m)" "prefix p k" "\<And>k'. m k' \<noteq> None \<Longrightarrow> prefix p k' \<Longrightarrow> k' < k"
  shows "items_of (m(k \<mapsto> v)) p = items_of m p @ [(k, v)]"
proof (rule items_of_eqI)
  show "sorted_wrt (<) (map fst (items_of m p @ [(k, v)]))"
    using assms by (auto simp: sorted_wrt_append)
  have "m k = None" using assms(2) assms(3) [of k] by (cases "m k") auto
  then show "\<And>k' v'. ((k', v') \<in> set (items_of m p @ [(k, v)])) = ((m(k \<mapsto> v)) k' = Some v' \<and> prefix p k')"
    using assms by (auto simp: items_of_iff)
qed (use assms(1) in simp)

subsection \<open>The contract\<close>

locale storage =
  fixes E :: "'db engine"
  assumes get_put: "db_get E (db_put E d k v) = (db_get E d)(k \<mapsto> v)"
    and get_write: "db_get E (db_write E d ops) = apply_batch ops (db_get E d)"
    and iterator_sorted: "sorted_wrt (<) (map fst (db_iterator E d p False))"
    and iterator_items: "(k, v) \<in> set (db_iterator E d p False) \<longleftrightarrow> db_get E d k = Some v \<and> prefix p k"
    and iterator_reverse: "db_iterator E d p True = rev (db_iterator E d p False)"
begin

lemma finite_contents: "finite (dom (db_get E d))"
proof -
  have "dom (db_get E d) = fst ` set (db_iterator E d [] False)"
    using iterator_items [of _ _ d "[]"] by (auto simp: image_iff) (metis fst_conv)+
  then show ?thesis by simp
qed

lemma iterator_eq: "db_iterator E d p r = (if r then rev else id) (items_of (db_get E d) p)"
proof -
  have "items_of (db_get E d) p = db_iterator E d p False"
    by (rule items_of_eqI [OF finite_contents iterator_sorted iterator_items])
  then show ?thesis by (cases r) (simp_all add: iterator_reverse)
qed

end

subsection \<open>An engine that satisfies it\<close>

type_synonym tree = "(bytes, bytes) rbt"

fun rbt_op :: "tree \<Rightarrow> batch_op \<Rightarrow> tree" where
  "rbt_op t (Put k v) = RBT.insert k v t"
| "rbt_op t (Delete k) = RBT.delete k t"

definition rbt_iterator :: "tree \<Rightarrow> bytes \<Rightarrow> bool \<Rightarrow> (bytes \<times> bytes) list" where
  "rbt_iterator t p r = (if r then rev else id) (filter (\<lambda>kv. prefix p (fst kv)) (RBT.entries t))"

definition rbt_engine :: "tree engine" where
  "rbt_engine = \<lparr>db_get = RBT.lookup, db_put = (\<lambda>t k v. RBT.insert k v t), db_write = foldl rbt_op,
     db_iterator = rbt_iterator\<rparr>"

lemma lookup_rbt_ops: "RBT.lookup (foldl rbt_op t ops) = apply_batch ops (RBT.lookup t)"
proof (induction ops arbitrary: t)
  case (Cons op ops)
  then show ?case by (cases op) (simp_all add: restrict_map_def fun_upd_def)
qed simp

interpretation rbt_storage: storage rbt_engine
proof
  show "sorted_wrt (<) (map fst (db_iterator rbt_engine d p False))" for d p
  proof -
    have "sorted_wrt (<) (map fst (RBT.entries d))"
      using RBT.sorted_entries RBT.distinct_entries strict_sorted_iff by blast
    then show ?thesis
      by (auto simp: rbt_engine_def rbt_iterator_def sorted_wrt_map sorted_wrt_filter)
  qed
  show "(k, v) \<in> set (db_iterator rbt_engine d p False) \<longleftrightarrow> db_get rbt_engine d k = Some v \<and> prefix p k"
    for k v d p
    by (auto simp: rbt_engine_def rbt_iterator_def RBT.lookup_in_tree)
qed (auto simp: rbt_engine_def lookup_rbt_ops rbt_iterator_def)

end
