(* ===== verification/Bisect.thy ===== *)
theory Bisect
  imports Main
begin

section \<open>Binary search (the library's bisect)\<close>

text \<open>
  \<open>bisect_left(a, x)\<close> and \<open>bisect_right(a, x)\<close> of the standard library, which
  \<open>History.backup\<close> and \<open>DB.fs_tx_hash\<close> call, and what they compute on a sorted list: the number of
  elements below \<open>x\<close>, and of those not above it.
\<close>

function bisect :: "('a \<Rightarrow> bool) \<Rightarrow> 'a list \<Rightarrow> nat \<Rightarrow> nat \<Rightarrow> nat" where
  "bisect left_of a lo hi =
     (if lo < hi then
        (let mid = (lo + hi) div 2 in
         if left_of (a ! mid) then bisect left_of a (mid + 1) hi else bisect left_of a lo mid)
      else lo)"
  by pat_completeness auto
termination
  by (relation "measure (\<lambda>(P, a, lo, hi). hi - lo)") auto

declare bisect.simps [simp del]

definition bisect_left :: "'a::linorder list \<Rightarrow> 'a \<Rightarrow> nat" where
  "bisect_left a x = bisect (\<lambda>y. y < x) a 0 (length a)"

definition bisect_right :: "'a::linorder list \<Rightarrow> 'a \<Rightarrow> nat" where
  "bisect_right a x = bisect (\<lambda>y. \<not> x < y) a 0 (length a)"

lemma bisect_spec:
  assumes "\<And>i j. i \<le> j \<Longrightarrow> j < length a \<Longrightarrow> P (a ! j) \<Longrightarrow> P (a ! i)"
    and "lo \<le> hi" "hi \<le> length a" "\<And>i. i < lo \<Longrightarrow> P (a ! i)"
    "\<And>i. hi \<le> i \<Longrightarrow> i < length a \<Longrightarrow> \<not> P (a ! i)"
  shows "bisect P a lo hi \<le> length a \<and> (\<forall>i < bisect P a lo hi. P (a ! i)) \<and>
    (\<forall>i. bisect P a lo hi \<le> i \<longrightarrow> i < length a \<longrightarrow> \<not> P (a ! i))"
  using assms
proof (induction P a lo hi rule: bisect.induct)
  case (1 P a lo hi)
  show ?case
  proof (cases "lo < hi")
    case False
    then have "bisect P a lo hi = lo" by (subst bisect.simps) simp
    with False show ?thesis using 1(4-7) by simp
  next
    case lh: True
    let ?mid = "(lo + hi) div 2"
    have mid: "lo \<le> ?mid" "?mid < hi" using lh by auto
    show ?thesis
    proof (cases "P (a ! ?mid)")
      case True
      have "bisect P a lo hi = bisect P a (?mid + 1) hi"
        using lh True by (subst bisect.simps) (simp add: Let_def)
      moreover have "P (a ! i)" if "i < ?mid + 1" for i
        using 1(3) [of i ?mid, OF _ _ True] that mid 1(5) by linarith
      note 1(1) [OF lh refl True 1(3) _ 1(5) this 1(7)]
      ultimately show ?thesis using mid by simp
    next
      case False
      have "bisect P a lo hi = bisect P a lo ?mid"
        using lh False by (subst bisect.simps) (simp add: Let_def)
      moreover have "\<not> P (a ! i)" if "?mid \<le> i" "i < length a" for i
        using 1(3) [OF that] False by blast
      note 1(2) [OF lh refl False 1(3) mid(1) _ 1(6) this]
      ultimately show ?thesis using mid 1(5) by simp
    qed
  qed
qed

lemma bisect_takeWhile:
  assumes "\<And>i j. i \<le> j \<Longrightarrow> j < length a \<Longrightarrow> P (a ! j) \<Longrightarrow> P (a ! i)"
  shows "bisect P a 0 (length a) = length (takeWhile P a)"
proof -
  let ?n = "bisect P a 0 (length a)"
  have s: "?n \<le> length a" "\<forall>i < ?n. P (a ! i)" "\<forall>i. ?n \<le> i \<longrightarrow> i < length a \<longrightarrow> \<not> P (a ! i)"
    using bisect_spec [of a P 0 "length a"] assms by auto
  have "takeWhile P a = take ?n a"
    by (rule takeWhile_eq_take_P_nth) (use s in auto)
  then show ?thesis using s(1) by simp
qed

lemma sorted_filter_takeWhile:
  "sorted a \<Longrightarrow> (\<And>x y. x \<le> y \<Longrightarrow> P y \<Longrightarrow> P x) \<Longrightarrow> filter P a = takeWhile P a"
proof (induction a)
  case (Cons x a)
  show ?case
  proof (cases "P x")
    case False
    then have "filter P a = []" using Cons.prems by (auto simp: filter_empty_conv)
    with False show ?thesis by simp
  qed (use Cons in simp)
qed simp

lemma bisect_sorted:
  assumes "sorted a" "\<And>x y. x \<le> y \<Longrightarrow> P y \<Longrightarrow> P x"
  shows "bisect P a 0 (length a) = length (filter P a)"
    and "take (bisect P a 0 (length a)) a = filter P a"
proof -
  have "bisect P a 0 (length a) = length (takeWhile P a)"
    by (rule bisect_takeWhile) (use assms sorted_nth_mono in blast)
  moreover have "filter P a = takeWhile P a" by (rule sorted_filter_takeWhile) (use assms in auto)
  ultimately show "bisect P a 0 (length a) = length (filter P a)"
    and "take (bisect P a 0 (length a)) a = filter P a"
    by (simp_all add: takeWhile_eq_take [symmetric])
qed

lemma bisect_left_sorted: "sorted a \<Longrightarrow> bisect_left a x = length (filter (\<lambda>y. y < x) a)"
  unfolding bisect_left_def by (rule bisect_sorted) auto

lemma take_bisect_left: "sorted a \<Longrightarrow> take (bisect_left a x) a = filter (\<lambda>y. y < x) a"
  unfolding bisect_left_def by (rule bisect_sorted) auto

lemma bisect_right_sorted: "sorted a \<Longrightarrow> bisect_right a x = length (filter (\<lambda>y. y \<le> x) a)"
  unfolding bisect_right_def not_less by (rule bisect_sorted) auto

end
