(* ===== verification/PyLiteral.thy ===== *)
theory PyLiteral
  imports Versions
begin

section \<open>Python literals: how the databases store their state\<close>

text \<open>
  \<open>History.write_state\<close> and \<open>DB.write_utxo_state\<close> store \<open>repr(state).encode()\<close> for a dictionary
  with string keys and integer, float, boolean, \<open>bytes\<close> and string values, and read it back with
  \<open>ast.literal_eval(state.decode())\<close>.  This theory models these two library functions on that
  fragment: \<open>repr_dict\<close> with the quoting and escaping of \<open>repr\<close>, and \<open>literal_eval\<close>, which is
  \<open>None\<close> on a text that is not such a dictionary.  (Strings are ASCII here.)  A float is represented by the text
  \<open>repr\<close> gives it, which determines it: Python guarantees that reading that text gives the same float again.
  Only the texts \<open>repr\<close> gives to finite floats are such values (\<open>float_text\<close>), and what \<open>literal_eval\<close> makes of
  another spelling of a float is not modelled.  The theorem
  \<open>literal_eval_repr\<close> is the round trip the two databases rely on.
\<close>

datatype scalar = SInt int | SFloat string | SBool bool | SBytes bytes | SStr string

type_synonym py_dict = "(string \<times> scalar) list"

definition encode :: "string \<Rightarrow> bytes" where "encode s = map of_char s"
definition decode :: "bytes \<Rightarrow> string" where "decode b = map (\<lambda>x. char_of (unat x)) b"

lemma of_char_less: "of_char c < (256 :: nat)"
  using mod_less_divisor [of 256 "of_char c :: nat"] by (simp add: of_char_mod_256)

lemma unat_of_char: "unat (of_char c :: byte) = of_char c"
proof -
  have "(of_char c :: byte) = of_nat (of_char c)" by (simp add: of_nat_of_char)
  then show ?thesis using of_char_less [of c] by (simp add: unat_of_nat)
qed

lemma decode_encode [simp]: "decode (encode s) = s"
  by (induction s) (auto simp: encode_def decode_def unat_of_char)

lemma encode_decode [simp]: "encode (decode b) = b"
proof -
  have "unat x < 256" for x :: byte using unsigned_less [of x] by simp
  then have "of_char (char_of (unat x)) = x" for x :: byte
    by (simp add: word_unat_eq_iff unat_of_char)
  then show ?thesis by (simp add: encode_def decode_def comp_def)
qed

subsection \<open>Quoted text\<close>

definition hex_digit :: "nat \<Rightarrow> char" where
  "hex_digit d = (if d < 10 then char_of (48 + d) else char_of (87 + d))"

definition unhex_digit :: "char \<Rightarrow> nat" where
  "unhex_digit c = (let n = of_char c in if n < 58 then n - 48 else n - 87)"

definition escape_char :: "char \<Rightarrow> char \<Rightarrow> string" where
  "escape_char q c =
     (if c = q \<or> c = CHR 0x5C then [CHR 0x5C, c]
      else if c = CHR 0x09 then [CHR 0x5C, CHR ''t'']
      else if c = CHR 0x0A then [CHR 0x5C, CHR ''n'']
      else if c = CHR 0x0D then [CHR 0x5C, CHR ''r'']
      else if of_char c < (32 :: nat) \<or> of_char c \<ge> (127 :: nat)
      then [CHR 0x5C, CHR ''x'', hex_digit (of_char c div 16), hex_digit (of_char c mod 16)]
      else [c])"

definition quote_of :: "string \<Rightarrow> char" where
  "quote_of s = (if CHR 0x27 \<in> set s \<and> CHR 0x22 \<notin> set s then CHR 0x22 else CHR 0x27)"

definition quoted :: "string \<Rightarrow> string" where
  "quoted s = (let q = quote_of s in [q] @ concat (map (escape_char q) s) @ [q])"

fun unquote :: "char \<Rightarrow> string \<Rightarrow> (string \<times> string) option" where
  "unquote q [] = None"
| "unquote q (c # s) =
     (if c = q then Some ([], s)
      else if c = CHR 0x5C then
        (case s of
           [] \<Rightarrow> None
         | d # s \<Rightarrow>
             (if d = CHR ''x'' then
                (case s of
                   h # l # s \<Rightarrow>
                     map_option (\<lambda>(t, r). (char_of (16 * unhex_digit h + unhex_digit l) # t, r)) (unquote q s)
                 | _ \<Rightarrow> None)
              else map_option (\<lambda>(t, r).
                ((if d = CHR ''t'' then CHR 0x09 else if d = CHR ''n'' then CHR 0x0A
                  else if d = CHR ''r'' then CHR 0x0D else d) # t, r)) (unquote q s)))
      else map_option (\<lambda>(t, r). (c # t, r)) (unquote q s))"

lemma unhex_hex: "d < 16 \<Longrightarrow> unhex_digit (hex_digit d) = d"
  by (auto simp: unhex_digit_def hex_digit_def Let_def of_char_mod_256)

lemma unquote_escape:
  assumes "q = CHR 0x27 \<or> q = CHR 0x22"
  shows "unquote q (escape_char q c @ s) = map_option (\<lambda>(t, r). (c # t, r)) (unquote q s)"
proof -
  have "of_char c div 16 < (16 :: nat)" using of_char_less [of c] by linarith
  then have hx: "char_of (16 * unhex_digit (hex_digit (of_char c div 16)) +
      unhex_digit (hex_digit (of_char c mod 16))) = c"
    by (simp add: unhex_hex)
  have "q \<noteq> CHR 0x5C" "q \<noteq> CHR ''x''" using assms by auto
  then show ?thesis using hx assms by (auto simp: escape_char_def)
qed

lemma unquote_concat:
  assumes "q = CHR 0x27 \<or> q = CHR 0x22"
  shows "unquote q (concat (map (escape_char q) t) @ q # s) = Some (t, s)"
  by (induction t) (simp_all add: unquote_escape [OF assms])

definition parse_quoted :: "string \<Rightarrow> (string \<times> string) option" where
  "parse_quoted s = (case s of [] \<Rightarrow> None | q # s \<Rightarrow> unquote q s)"

lemma quote_cases: "quote_of s = CHR 0x27 \<or> quote_of s = CHR 0x22"
  by (simp add: quote_of_def)

lemma parse_quoted: "parse_quoted (quoted t @ s) = Some (t, s)"
  using unquote_concat [OF quote_cases] by (simp add: parse_quoted_def quoted_def Let_def)

subsection \<open>Values and dictionaries\<close>

fun repr_scalar :: "scalar \<Rightarrow> string" where
  "repr_scalar (SInt i) = show_int i"
| "repr_scalar (SFloat x) = x"
| "repr_scalar (SBool b) = (if b then ''True'' else ''False'')"
| "repr_scalar (SBytes b) = CHR ''b'' # quoted (decode b)"
| "repr_scalar (SStr s) = quoted s"

definition literal_end :: "char \<Rightarrow> bool" where
  "literal_end c \<longleftrightarrow> c = CHR '','' \<or> c = CHR 0x7D"

text \<open>The text of a finite float: a number with a point or an exponent.\<close>

definition float_text :: "string \<Rightarrow> bool" where
  "float_text s \<longleftrightarrow> s \<noteq> [] \<and> (hd s = CHR ''-'' \<or> hd s \<in> set (map digit_char [0..<10])) \<and>
     (CHR ''.'' \<in> set s \<or> CHR ''e'' \<in> set s) \<and> set s \<subseteq> set (''.e+-'' @ map digit_char [0..<10])"

fun scalar_ok :: "scalar \<Rightarrow> bool" where
  "scalar_ok (SFloat x) = float_text x"
| "scalar_ok _ = True"

definition parse_scalar :: "string \<Rightarrow> (scalar \<times> string) option" where
  "parse_scalar s =
     (case s of
        [] \<Rightarrow> None
      | c # r \<Rightarrow>
          if c = CHR ''b'' then map_option (\<lambda>(t, r). (SBytes (encode t), r)) (parse_quoted r)
          else if c = CHR 0x27 \<or> c = CHR 0x22
          then map_option (\<lambda>(t, r). (SStr t, r)) (parse_quoted s)
          else (let word = takeWhile (\<lambda>c. \<not> literal_end c) s;
                    rest = dropWhile (\<lambda>c. \<not> literal_end c) s
                in if word = ''True'' then Some (SBool True, rest)
                   else if word = ''False'' then Some (SBool False, rest)
                   else if float_text word then Some (SFloat word, rest)
                   else map_option (\<lambda>i. (SInt i, rest)) (py_int word)))"

definition repr_item :: "string \<times> scalar \<Rightarrow> string" where
  "repr_item kv = quoted (fst kv) @ '': '' @ repr_scalar (snd kv)"

definition repr_dict :: "py_dict \<Rightarrow> string" where
  "repr_dict d = [CHR 0x7B] @ join '', '' (map repr_item d) @ [CHR 0x7D]"

definition parse_item :: "string \<Rightarrow> ((string \<times> scalar) \<times> string) option" where
  "parse_item s =
     (case parse_quoted s of
        Some (k, c1 # c2 # s) \<Rightarrow>
          if c1 = CHR '':'' \<and> c2 = CHR '' '' then map_option (\<lambda>(v, r). ((k, v), r)) (parse_scalar s)
          else None
      | _ \<Rightarrow> None)"

text \<open>The items up to the closing brace; the fuel bounds their number.\<close>

fun parse_items :: "nat \<Rightarrow> string \<Rightarrow> py_dict option" where
  "parse_items 0 s = None"
| "parse_items (Suc fuel) s =
     (case parse_item s of
        None \<Rightarrow> None
      | Some (kv, rest) \<Rightarrow>
          if rest = [CHR 0x7D] then Some [kv]
          else (case rest of
                  c1 # c2 # rest \<Rightarrow>
                    if c1 = CHR '','' \<and> c2 = CHR '' '' then map_option ((#) kv) (parse_items fuel rest)
                    else None
                | _ \<Rightarrow> None))"

definition literal_eval :: "string \<Rightarrow> py_dict option" where
  "literal_eval s =
     (case s of
        [] \<Rightarrow> None
      | c # r \<Rightarrow>
          if c \<noteq> CHR 0x7B then None
          else if r = [CHR 0x7D] then Some []
          else map_option (\<lambda>items. foldl (\<lambda>d (k, v). AList.update k v d) [] items)
            (parse_items (length r) r))"

lemma literal_end_word:
  assumes "\<forall>c \<in> set w. \<not> literal_end c" "s = [] \<or> literal_end (hd s)"
  shows "takeWhile (\<lambda>c. \<not> literal_end c) (w @ s) = w" "dropWhile (\<lambda>c. \<not> literal_end c) (w @ s) = s"
  using assms by (cases s; simp add: takeWhile_append dropWhile_append)+

lemma digit_char_literal:
  assumes "d < 10"
  shows "\<not> literal_end (digit_char d) \<and> digit_char d \<notin> {CHR ''b'', CHR ''T'', CHR ''F'', CHR 0x27, CHR 0x22, CHR ''.'', CHR ''e''}"
proof -
  have "\<forall>d \<in> set [0..<10]. \<not> literal_end (digit_char d) \<and> digit_char d \<noteq> CHR ''b'' \<and> digit_char d \<noteq> CHR ''T''
    \<and> digit_char d \<noteq> CHR ''F'' \<and> digit_char d \<noteq> CHR 0x27 \<and> digit_char d \<noteq> CHR 0x22
    \<and> digit_char d \<noteq> CHR ''.'' \<and> digit_char d \<noteq> CHR ''e''" by code_simp
  with assms show ?thesis by auto
qed

lemma show_int_chars:
  "show_int i \<noteq> [] \<and> (\<forall>c \<in> set (show_int i). \<not> literal_end c \<and>
     c \<notin> {CHR ''b'', CHR ''T'', CHR ''F'', CHR 0x27, CHR 0x22, CHR ''.'', CHR ''e''})"
proof -
  have d: "show_nat n \<noteq> [] \<and> (\<forall>c \<in> set (show_nat n). \<not> literal_end c \<and>
     c \<notin> {CHR ''b'', CHR ''T'', CHR ''F'', CHR 0x27, CHR 0x22, CHR ''.'', CHR ''e''})" for n
    using show_nat_digits [of n] digit_char_literal by metis
  have "\<not> literal_end (CHR ''-'')" by (simp add: literal_end_def)
  then show ?thesis using d [of "nat i"] d [of "nat (- i)"] by (simp add: show_int_def)
qed

lemma float_text_chars:
  assumes "float_text x"
  shows "x \<noteq> []" "hd x \<notin> {CHR ''b'', CHR ''T'', CHR ''F'', CHR 0x27, CHR 0x22}" "\<forall>c \<in> set x. \<not> literal_end c"
proof -
  have d: "\<forall>c \<in> set (''.e+-'' @ map digit_char [0..<10]). \<not> literal_end c"
    using digit_char_literal by (auto simp: literal_end_def)
  show "x \<noteq> []" using assms by (simp add: float_text_def)
  show "hd x \<notin> {CHR ''b'', CHR ''T'', CHR ''F'', CHR 0x27, CHR 0x22}"
  proof (cases "hd x = CHR ''-''")
    case False
    then obtain d where "d < 10" "hd x = digit_char d" using assms by (auto simp: float_text_def)
    then show ?thesis using digit_char_literal [of d] by simp
  qed simp
  show "\<forall>c \<in> set x. \<not> literal_end c" using assms d unfolding float_text_def by blast
qed

lemma parse_scalar_repr:
  assumes "s = [] \<or> literal_end (hd s)" "scalar_ok v"
  shows "parse_scalar (repr_scalar v @ s) = Some (v, s)"
proof (cases v)
  case (SInt i)
  obtain c r where c: "show_int i = c # r" "c \<notin> {CHR ''b'', CHR ''T'', CHR ''F'', CHR 0x27, CHR 0x22, CHR ''.'', CHR ''e''}"
    using show_int_chars [of i] by (cases "show_int i") auto
  have w: "takeWhile (\<lambda>c. \<not> literal_end c) (show_int i @ s) = show_int i"
    "dropWhile (\<lambda>c. \<not> literal_end c) (show_int i @ s) = s"
    using literal_end_word [of "show_int i" s] show_int_chars [of i] assms(1) by blast+
  have nf: "\<not> float_text (show_int i)" using show_int_chars [of i] by (auto simp: float_text_def)
  have ne: "show_int i \<noteq> ''True''" "show_int i \<noteq> ''False''" using c by auto
  have "\<exists>t. show_int i @ s = c # t" using c(1) by simp
  then obtain t where t: "show_int i @ s = c # t" ..
  have "parse_scalar (c # t) = Some (SInt i, s)"
    using c(2) ne nf py_int_show [of i] unfolding parse_scalar_def Let_def w [unfolded t] by simp
  then show ?thesis unfolding SInt repr_scalar.simps t .
next
  case (SFloat x)
  then have x: "float_text x" using assms(2) by simp
  note ch = float_text_chars [OF x] and w = literal_end_word [OF float_text_chars(3) [OF x] assms(1)]
  obtain c r where c: "x = c # r" using ch(1) by (cases x) auto
  have "x \<noteq> ''True''" "x \<noteq> ''False''" using ch(2) by auto
  with x ch(2) c have "parse_scalar (c # r @ s) = Some (SFloat x, s)"
    unfolding parse_scalar_def Let_def w [unfolded c append_Cons] by simp
  then show ?thesis unfolding SFloat repr_scalar.simps c by simp
next
  case (SBool b)
  have "\<forall>c \<in> set ''True'' \<union> set ''False''. \<not> literal_end c" by (simp add: literal_end_def)
  then have "\<forall>c \<in> set (repr_scalar v). \<not> literal_end c" using SBool by simp
  note w = literal_end_word [OF this assms(1)]
  obtain c r where c: "repr_scalar v = c # r" "c \<noteq> CHR ''b''" "c \<noteq> CHR 0x27" "c \<noteq> CHR 0x22"
    using SBool by (cases b) auto
  then have "parse_scalar (repr_scalar v @ s) =
      (if repr_scalar v = ''True'' then Some (SBool True, s)
       else if repr_scalar v = ''False'' then Some (SBool False, s)
       else if float_text (repr_scalar v) then Some (SFloat (repr_scalar v), s)
       else map_option (\<lambda>i. (SInt i, s)) (py_int (repr_scalar v)))"
    unfolding parse_scalar_def Let_def w by simp
  then show ?thesis by (cases b) (simp_all add: SBool)
next
  case (SBytes b)
  then show ?thesis by (simp add: parse_scalar_def parse_quoted)
next
  case (SStr t)
  have "quoted t = quote_of t # tl (quoted t)" by (simp add: quoted_def Let_def)
  then obtain r where r: "quoted t = quote_of t # r" by blast
  then show ?thesis using quote_cases [of t] parse_quoted [of t s]
    by (auto simp: SStr parse_scalar_def)
qed

lemma parse_item_repr:
  "s = [] \<or> literal_end (hd s) \<Longrightarrow> scalar_ok (snd kv) \<Longrightarrow> parse_item (repr_item kv @ s) = Some (kv, s)"
  using parse_quoted [of "fst kv" "CHR '':'' # CHR '' '' # repr_scalar (snd kv) @ s"]
  by (simp add: parse_item_def repr_item_def parse_scalar_repr)

lemma parse_items_repr:
  "d \<noteq> [] \<Longrightarrow> length d \<le> fuel \<Longrightarrow> \<forall>kv \<in> set d. scalar_ok (snd kv) \<Longrightarrow> parse_items fuel (join '', '' (map repr_item d) @ [CHR 0x7D]) = Some d"
proof (induction fuel arbitrary: d)
  case (Suc fuel)
  then obtain kv e where d: "d = kv # e" by (cases d) auto
  show ?case
  proof (cases e)
    case Nil
    then show ?thesis using parse_item_repr [of "[CHR 0x7D]" kv] Suc.prems by (simp add: d literal_end_def)
  next
    case (Cons kv' e')
    then have "parse_items fuel (join '', '' (map repr_item e) @ [CHR 0x7D]) = Some e"
      using Suc.IH [of e] Suc.prems d by simp
    then show ?thesis
      using parse_item_repr [of "'', '' @ join '', '' (map repr_item e) @ [CHR 0x7D]" kv] Cons Suc.prems
      by (simp add: d literal_end_def)
  qed
qed simp

lemma foldl_update_distinct:
  "distinct (map fst (a @ d)) \<Longrightarrow> foldl (\<lambda>d (k, v). AList.update k v d) a d = a @ d"
proof (induction d arbitrary: a)
  case (Cons kv d)
  have "AList.update (fst kv) (snd kv) a = a @ [kv]"
    using Cons.prems by (induction a) auto
  with Cons show ?case by (simp add: case_prod_unfold)
qed simp

lemma length_join_ge: "length d \<le> length (join '', '' (map repr_item d))"
proof (induction d rule: induct_list012)
  case (2 kv)
  then show ?case by (simp add: repr_item_def)
qed auto

lemma literal_eval_repr:
  assumes "distinct (map fst d)" "\<forall>kv \<in> set d. scalar_ok (snd kv)"
  shows "literal_eval (repr_dict d) = Some d"
proof (cases "d = []")
  case False
  let ?r = "join '', '' (map repr_item d) @ [CHR 0x7D]"
  have "parse_items (length ?r) ?r = Some d"
    using length_join_ge [of d] assms(2) by (intro parse_items_repr [OF False]) simp_all
  moreover have "?r \<noteq> [CHR 0x7D]" using length_join_ge [of d] False by (cases d) auto
  ultimately show ?thesis
    using foldl_update_distinct [of "[]" d] assms by (simp add: literal_eval_def repr_dict_def)
qed (simp add: literal_eval_def repr_dict_def)

lemmas literal_roundtrip = literal_eval_repr decode_encode

end
