(* ===== verification/HistoryDB.thy ===== *)
theory HistoryDB
  imports KVStore Bisect PyLiteral Hashes
begin

section \<open>The history database (server/history.py)\<close>

text \<open>
  \<open>History\<close> keeps, for every \<open>hashX\<close>, the numbers of the transactions that touch it: rows under the
  keys \<open>hashX + flush_id\<close> (11 and 2 bytes), whose values are concatenations of 5-byte little-endian
  transaction numbers, and a row \<open>state\0\0\<close>.  The record \<open>history\<close> is the object, \<open>hdb\<close> its
  database in the engine \<open>E\<close>.  A batch is the list of its operations, written when the \<open>with\<close> block
  ends.  \<open>unflushed\<close> is a dictionary; the loops over it and over sets of \<open>hashX\<close> are sorted or
  commute, so the order in which Python iterates a set is immaterial (\<open>remdups\<close> picks one).
\<close>

abbreviation "FLUSHID_LEN \<equiv> 2 :: nat"
abbreviation "TXNUM_LEN \<equiv> 5 :: nat"

record 'db history =
  hdb :: 'db
  unflushed :: "(bytes \<times> bytes) list"
  unflushed_count :: nat
  flush_count :: int
  comp_flush_count :: int
  comp_cursor :: int
  db_version :: int
  upgrade_cursor :: int
  max_hist_row_entries :: nat

definition new_history :: "'db \<Rightarrow> 'db history" where
  "new_history db = \<lparr>hdb = db, unflushed = [], unflushed_count = 0, flush_count = 0,
     comp_flush_count = -1, comp_cursor = -1, db_version = 1, upgrade_cursor = -1,
     max_hist_row_entries = 12500\<rparr>"

subsection \<open>State\<close>

definition STATE_KEY :: bytes where "STATE_KEY = encode ''state'' @ [0, 0]"

definition state_dict :: "'db history \<Rightarrow> py_dict" where
  "state_dict h =
     [(''flush_count'', SInt (flush_count h)), (''comp_flush_count'', SInt (comp_flush_count h)),
      (''comp_cursor'', SInt (comp_cursor h)), (''db_version'', SInt (db_version h)),
      (''upgrade_cursor'', SInt (upgrade_cursor h))]"

definition write_state :: "'db history \<Rightarrow> batch_op" where
  "write_state h = Put STATE_KEY (encode (repr_dict (state_dict h)))"

text \<open>\<open>state[k]\<close> and \<open>state.get(k, d)\<close> for an integer attribute.\<close>

definition state_item :: "py_dict \<Rightarrow> string \<Rightarrow> exn + int" where
  "state_item state k =
     (case map_of state k of None \<Rightarrow> Inl KeyError | Some (SInt i) \<Rightarrow> Inr i | Some _ \<Rightarrow> Inl TypeError)"

definition state_get :: "py_dict \<Rightarrow> string \<Rightarrow> int \<Rightarrow> exn + int" where
  "state_get state k d =
     (case map_of state k of None \<Rightarrow> Inr d | Some (SInt i) \<Rightarrow> Inr i | Some _ \<Rightarrow> Inl TypeError)"

subsection \<open>Upgrading\<close>

text \<open>One pass of \<open>upgrade_cursor\<close>: the 4-byte transaction numbers of the rows of a 2-byte prefix
  become 5-byte ones.\<close>

definition upgrade_row :: "bytes \<Rightarrow> bytes" where
  "upgrade_row hist = concat (map (\<lambda>item. item @ [0]) (chunks hist 4))"

definition upgrade_pass :: "'db engine \<Rightarrow> 'db history \<Rightarrow> int \<Rightarrow> exn + 'db history" where
  "upgrade_pass E h cursor =
     bindE (pack_be_uint16 cursor) (\<lambda>prefix.
       let h' = h\<lparr>upgrade_cursor := cursor\<rparr>;
           rows = filter (\<lambda>(key, hist). length key = hashX_len + 2) (db_iterator E (hdb h) prefix False);
           puts = map (\<lambda>(key, hist). Put key (upgrade_row hist)) rows
       in Inr (h'\<lparr>hdb := db_write E (hdb h) (puts @ [write_state h'])\<rparr>))"

definition upgrade_db :: "'db engine \<Rightarrow> 'db history \<Rightarrow> exn + 'db history" where
  "upgrade_db E h =
     bindE (foldE (\<lambda>cursor h. upgrade_pass E h cursor) [upgrade_cursor h + 1..65535] h) (\<lambda>h.
       let h = h\<lparr>db_version := 1, upgrade_cursor := -1\<rparr>
       in Inr (h\<lparr>hdb := db_write E (hdb h) [write_state h]\<rparr>))"

definition read_state :: "'db engine \<Rightarrow> 'db history \<Rightarrow> exn + 'db history" where
  "read_state E h =
     bindE
       (case db_get E (hdb h) STATE_KEY of
          Some (b # bs) \<Rightarrow>
            (case literal_eval (decode (b # bs)) of
               None \<Rightarrow> Inl RuntimeErr
             | Some state \<Rightarrow>
                 bindE (state_item state ''flush_count'') (\<lambda>fc.
                 bindE (state_get state ''comp_flush_count'' (-1)) (\<lambda>cfc.
                 bindE (state_get state ''comp_cursor'' (-1)) (\<lambda>cc.
                 bindE (state_get state ''db_version'' 0) (\<lambda>ver.
                 bindE (state_get state ''upgrade_cursor'' (-1)) (\<lambda>uc.
                 Inr (h\<lparr>flush_count := fc, comp_flush_count := cfc, comp_cursor := cc,
                        db_version := ver, upgrade_cursor := uc\<rparr>)))))))
        | _ \<Rightarrow> Inr (h\<lparr>flush_count := 0, comp_flush_count := -1, comp_cursor := -1, db_version := 1,
                      upgrade_cursor := -1\<rparr>))
       (\<lambda>h. if db_version h \<noteq> 0 \<and> db_version h \<noteq> 1 then Inl RuntimeErr
            else if db_version h \<noteq> 1 then upgrade_db E h
            else Inr h)"

definition clear_excess :: "'db engine \<Rightarrow> int \<Rightarrow> 'db history \<Rightarrow> exn + 'db history" where
  "clear_excess E utxo_flush_count h =
     (if flush_count h \<le> utxo_flush_count then Inr h
      else
        bindE (foldE (\<lambda>(key, hist) keys.
                 bindE (unpack_be_unsigned_from 2 (suffix_of FLUSHID_LEN key) 0) (\<lambda>flush_id.
                   Inr (if int flush_id > utxo_flush_count then keys @ [key] else keys)))
               (db_iterator E (hdb h) [] False) [])
          (\<lambda>keys.
            let h = h\<lparr>flush_count := utxo_flush_count\<rparr>
            in Inr (h\<lparr>hdb := db_write E (hdb h) (map Delete keys @ [write_state h])\<rparr>)))"

definition cancel_compaction :: "'db history \<Rightarrow> 'db history" where
  "cancel_compaction h =
     (if comp_cursor h \<noteq> -1 then h\<lparr>comp_flush_count := -1, comp_cursor := -1\<rparr> else h)"

definition open_db :: "'db engine \<Rightarrow> 'db \<Rightarrow> int \<Rightarrow> bool \<Rightarrow> 'db history \<Rightarrow> exn + 'db history" where
  "open_db E db utxo_flush_count compacting h =
     bindE (read_state E (h\<lparr>hdb := db\<rparr>)) (\<lambda>h.
     bindE (clear_excess E utxo_flush_count h) (\<lambda>h.
     Inr (if compacting then h else cancel_compaction h)))"

subsection \<open>Flushing\<close>

definition unflushed_at :: "(bytes \<times> bytes) list \<Rightarrow> bytes \<Rightarrow> bytes" where
  "unflushed_at u hashX = (case map_of u hashX of None \<Rightarrow> [] | Some b \<Rightarrow> b)"

definition add_tx :: "bytes list \<Rightarrow> int \<Rightarrow> (bytes \<times> bytes) list \<Rightarrow> exn + (bytes \<times> bytes) list" where
  "add_tx hashXs tx_num u =
     bindE (pack_le_uint64 tx_num) (\<lambda>packed.
       Inr (foldl (\<lambda>u hashX. AList.update hashX (unflushed_at u hashX @ take TXNUM_LEN packed) u)
              u (remdups hashXs)))"

fun add_unflushed_loop ::
  "bytes list list \<Rightarrow> int \<Rightarrow> (bytes \<times> bytes) list \<Rightarrow> nat \<Rightarrow> exn + (bytes \<times> bytes) list \<times> nat" where
  "add_unflushed_loop [] tx_num u count = Inr (u, count)"
| "add_unflushed_loop (hashXs # rest) tx_num u count =
     bindE (add_tx hashXs tx_num u) (\<lambda>u.
       add_unflushed_loop rest (tx_num + 1) u (count + length (remdups hashXs)))"

definition add_unflushed :: "bytes list list \<Rightarrow> int \<Rightarrow> 'db history \<Rightarrow> exn + 'db history" where
  "add_unflushed hashXs_by_tx first_tx_num h =
     bindE (add_unflushed_loop hashXs_by_tx first_tx_num (unflushed h) 0) (\<lambda>(u, count).
       Inr (h\<lparr>unflushed := u, unflushed_count := unflushed_count h + count\<rparr>))"

definition unflushed_memsize :: "'db history \<Rightarrow> nat" where
  "unflushed_memsize h = length (unflushed h) * 180 + unflushed_count h * TXNUM_LEN"

definition assert_flushed :: "'db history \<Rightarrow> exn + unit" where
  "assert_flushed h = assertE (unflushed h = [])"

definition flush :: "'db engine \<Rightarrow> 'db history \<Rightarrow> exn + 'db history" where
  "flush E h =
     (let h = h\<lparr>flush_count := flush_count h + 1\<rparr> in
      bindE (pack_be_uint16 (flush_count h)) (\<lambda>flush_id.
        let puts = map (\<lambda>hashX. Put (hashX @ flush_id) (the (map_of (unflushed h) hashX)))
                     (sorted_list_of_set (set (map fst (unflushed h))))
        in Inr (h\<lparr>hdb := db_write E (hdb h) (puts @ [write_state h]),
                  unflushed := [], unflushed_count := 0\<rparr>)))"

subsection \<open>Backing up\<close>

text \<open>\<open>array('Q', ...)\<close> needs a multiple of 8 bytes.\<close>

definition row_array :: "bytes \<Rightarrow> exn + nat list" where
  "row_array hist =
     (let padded = concat (map (\<lambda>item. item @ replicate (8 - TXNUM_LEN) 0) (chunks hist TXNUM_LEN))
      in if length padded mod 8 = 0 then Inr (map le_decode (chunks padded 8)) else Inl ValueError)"

text \<open>The rows of a \<open>hashX\<close>, last first: rows at or above \<open>tx_count\<close> are deleted, until one has an
  entry below it, which is cut there.\<close>

fun backup_rows :: "nat \<Rightarrow> (bytes \<times> bytes) list \<Rightarrow> exn + bytes list \<times> (bytes \<times> bytes) list" where
  "backup_rows tx_count [] = Inr ([], [])"
| "backup_rows tx_count ((key, hist) # rows) =
     bindE (row_array hist) (\<lambda>a.
       let idx = bisect_left a tx_count in
       if 0 < idx then Inr ([], [(key, take (TXNUM_LEN * idx) hist)])
       else bindE (backup_rows tx_count rows) (\<lambda>(deletes, puts). Inr (key # deletes, puts)))"

definition backup_ops :: "'db engine \<Rightarrow> 'db \<Rightarrow> nat \<Rightarrow> bytes \<Rightarrow> exn + batch_op list" where
  "backup_ops E db tx_count hashX =
     bindE (backup_rows tx_count (db_iterator E db hashX True)) (\<lambda>(deletes, puts).
       Inr (map Delete deletes @ map (\<lambda>(k, v). Put k v) puts))"

definition backup :: "'db engine \<Rightarrow> bytes set \<Rightarrow> nat \<Rightarrow> 'db history \<Rightarrow> exn + 'db history" where
  "backup E hashXs tx_count h =
     (let h = h\<lparr>flush_count := flush_count h + 1\<rparr> in
      bindE (mapE (backup_ops E (hdb h) tx_count) (sorted_list_of_set hashXs)) (\<lambda>ops.
        Inr (h\<lparr>hdb := db_write E (hdb h) (concat ops @ [write_state h])\<rparr>)))"

subsection \<open>Reading\<close>

fun yield_txnums :: "int \<Rightarrow> bytes list \<Rightarrow> exn + nat list" where
  "yield_txnums limit [] = Inr []"
| "yield_txnums limit (tx_numb # rest) =
     (if limit = 0 then Inr []
      else bindE (unpack_le_unsigned 8 (tx_numb @ replicate (8 - TXNUM_LEN) 0)) (\<lambda>tx_num.
           bindE (yield_txnums (limit - 1) rest) (\<lambda>more. Inr (tx_num # more))))"

definition get_txnums :: "'db engine \<Rightarrow> 'db history \<Rightarrow> bytes \<Rightarrow> int option \<Rightarrow> exn + nat list" where
  "get_txnums E h hashX limit =
     yield_txnums (resolve_limit limit)
       (concat (map (\<lambda>(key, hist). chunks hist TXNUM_LEN) (db_iterator E (hdb h) hashX False)))"

subsection \<open>Compaction\<close>

definition flush_compaction ::
  "'db engine \<Rightarrow> int \<Rightarrow> (bytes \<times> bytes) list \<Rightarrow> bytes list \<Rightarrow> 'db history \<Rightarrow> 'db history" where
  "flush_compaction E cursor write_items keys_to_delete h =
     (let h = (if cursor = 65536
               then h\<lparr>flush_count := comp_flush_count h, comp_cursor := -1, comp_flush_count := -1\<rparr>
               else h\<lparr>comp_cursor := cursor\<rparr>)
      in h\<lparr>hdb := db_write E (hdb h)
             (map Delete keys_to_delete @ map (\<lambda>(k, v). Put k v) write_items @ [write_state h])\<rparr>)"

text \<open>The accumulators of a pass: the items to write, the keys to delete (a set, as a list of distinct
  keys), the size written and the largest row number.\<close>

record compaction =
  write_items :: "(bytes \<times> bytes) list"
  keys_to_delete :: "bytes list"
  write_size :: nat
  max_flush :: int

fun compact_chunks ::
  "bytes \<Rightarrow> (bytes \<times> bytes) list \<Rightarrow> bytes list \<Rightarrow> nat \<Rightarrow> compaction \<Rightarrow> exn + compaction" where
  "compact_chunks hashX hist_map [] n c = Inr c"
| "compact_chunks hashX hist_map (chunk # rest) n c =
     bindE (pack_be_uint16 (int n)) (\<lambda>num.
       let key = hashX @ num in
       compact_chunks hashX hist_map rest (n + 1)
         (if map_of hist_map key = Some chunk
          then c\<lparr>keys_to_delete := removeAll key (keys_to_delete c)\<rparr>
          else c\<lparr>write_items := write_items c @ [(key, chunk)],
                 write_size := write_size c + length chunk\<rparr>))"

definition compact_hashX ::
  "nat \<Rightarrow> bytes \<Rightarrow> (bytes \<times> bytes) list \<Rightarrow> compaction \<Rightarrow> exn + compaction" where
  "compact_hashX max_entries hashX hist_map c =
     (let max_row_size = max_entries * TXNUM_LEN;
          full_hist = concat (map snd hist_map);
          rows = chunks full_hist max_row_size;
          c = c\<lparr>keys_to_delete := remdups (keys_to_delete c @ map fst hist_map)\<rparr>
      in if max_row_size = 0 then Inl ZeroDivisionError
         else bindE (compact_chunks hashX hist_map rows 0 c) (\<lambda>c.
           if rows = [] then Inl UnboundLocalError
           else Inr (c\<lparr>max_flush := max (max_flush c) (int (length rows) - 1)\<rparr>)))"

text \<open>The loop of \<open>_compact_prefix\<close>; \<open>hist_list\<close> is the values of \<open>hist_map\<close>, whose keys are
  distinct, in the order they were added.\<close>

fun compact_rows ::
  "nat \<Rightarrow> (bytes \<times> bytes) list \<Rightarrow> bytes option \<Rightarrow> (bytes \<times> bytes) list \<Rightarrow> compaction \<Rightarrow> exn + compaction" where
  "compact_rows max_entries [] prior hist_map c =
     (case prior of None \<Rightarrow> Inr c | Some hashX \<Rightarrow> compact_hashX max_entries hashX hist_map c)"
| "compact_rows max_entries ((key, hist) # rows) prior hist_map c =
     (if length key \<noteq> hashX_len + FLUSHID_LEN then compact_rows max_entries rows prior hist_map c
      else
        (let hashX = butsuffix FLUSHID_LEN key in
         case prior of
           Some p \<Rightarrow>
             if hashX \<noteq> p
             then bindE (compact_hashX max_entries p hist_map c)
                    (compact_rows max_entries rows (Some hashX) [(key, hist)])
             else compact_rows max_entries rows (Some hashX) (hist_map @ [(key, hist)]) c
         | None \<Rightarrow> compact_rows max_entries rows (Some hashX) (hist_map @ [(key, hist)]) c))"

definition compact_prefix :: "'db engine \<Rightarrow> 'db history \<Rightarrow> bytes \<Rightarrow> compaction \<Rightarrow> exn + compaction" where
  "compact_prefix E h p c =
     compact_rows (max_hist_row_entries h) (db_iterator E (hdb h) p False) None [] c"

text \<open>At most 65536 prefixes remain, which bounds the loop over the cursor.\<close>

function compact_loop ::
  "'db engine \<Rightarrow> 'db history \<Rightarrow> nat \<Rightarrow> int \<Rightarrow> compaction \<Rightarrow> exn + int \<times> compaction" where
  "compact_loop E h limit cursor c =
     (if write_size c < limit \<and> cursor < 65536
      then bindE (pack_be_uint16 cursor) (\<lambda>prefix.
           bindE (compact_prefix E h prefix c) (\<lambda>c.
           compact_loop E h limit (cursor + 1) c))
      else Inr (cursor, c))"
  by pat_completeness auto
termination
  by (relation "measure (\<lambda>(E, h, limit, cursor, c). nat (65536 - cursor))") auto

declare compact_loop.simps [simp del]

definition compact_history :: "'db engine \<Rightarrow> nat \<Rightarrow> 'db history \<Rightarrow> exn + nat \<times> 'db history" where
  "compact_history E limit h =
     bindE (compact_loop E h limit (comp_cursor h)
              \<lparr>write_items = [], keys_to_delete = [], write_size = 0, max_flush = comp_flush_count h\<rparr>)
       (\<lambda>(cursor, c).
         Inr (write_size c, flush_compaction E cursor (write_items c) (keys_to_delete c)
                (h\<lparr>comp_flush_count := max_flush c\<rparr>)))"

subsection \<open>The contents of a history database\<close>

text \<open>
  \<open>hist_ok m fc\<close> is the well-formedness of the contents \<open>m\<close>: besides the state there are only
  history rows, whose flush ids do not exceed \<open>fc\<close> and whose values are non-empty and hold whole
  entries.  \<open>db_nums m hashX\<close> is the abstraction: the transaction numbers stored for \<open>hashX\<close>, in the
  order of its rows.
\<close>

definition row_ok :: "int \<Rightarrow> bytes \<Rightarrow> bytes \<Rightarrow> bool" where
  "row_ok fc k v \<longleftrightarrow> length k = hashX_len + FLUSHID_LEN \<and> v \<noteq> [] \<and> length v mod TXNUM_LEN = 0 \<and>
     int (be_decode (suffix_of FLUSHID_LEN k)) \<le> fc"

definition hist_ok :: "contents \<Rightarrow> int \<Rightarrow> bool" where
  "hist_ok m fc \<longleftrightarrow> finite (dom m) \<and> (\<forall>k v. m k = Some v \<longrightarrow> k = STATE_KEY \<or> row_ok fc k v)"

definition nums :: "bytes \<Rightarrow> nat list" where
  "nums b = map le_decode (chunks b TXNUM_LEN)"

definition db_nums :: "contents \<Rightarrow> bytes \<Rightarrow> nat list" where
  "db_nums m hashX = nums (concat (map snd (items_of m hashX)))"

lemma row_ok_mono: "row_ok fc k v \<Longrightarrow> fc \<le> fc' \<Longrightarrow> row_ok fc' k v"
  by (simp add: row_ok_def)

lemma nums_append: "length a mod TXNUM_LEN = 0 \<Longrightarrow> nums (a @ b) = nums a @ nums b"
  by (simp add: nums_def chunks_append)

lemma nums_Nil [simp]: "nums [] = []"
  by (simp add: nums_def)

lemma whole_concat:
  "(\<And>b. b \<in> set bs \<Longrightarrow> length b mod n = 0) \<Longrightarrow> length (concat bs) mod n = (0 :: nat)"
proof (induction bs)
  case (Cons b bs)
  then have "length b mod n = 0" "length (concat bs) mod n = 0" by simp_all
  then show ?case by (simp add: mod_add_eq [symmetric])
qed simp

lemma nums_concat:
  "(\<And>b. b \<in> set bs \<Longrightarrow> length b mod TXNUM_LEN = 0) \<Longrightarrow> nums (concat bs) = concat (map nums bs)"
  by (induction bs) (simp_all add: nums_append)

lemma length_STATE_KEY [simp]: "length STATE_KEY = 7"
  by (simp add: STATE_KEY_def encode_def)

lemma row_of_prefix:
  assumes "hist_ok m fc" "length hashX = hashX_len" "m k = Some v" "prefix hashX k"
  shows "row_ok fc k v" "k = hashX @ suffix_of FLUSHID_LEN k" "length (suffix_of FLUSHID_LEN k) = 2"
proof -
  have "length hashX \<le> length k" using assms(4) by (rule prefix_length_le)
  then have "k \<noteq> STATE_KEY" using assms(2) by auto
  then show ok: "row_ok fc k v" using assms(1,3) by (auto simp: hist_ok_def)
  then show "k = hashX @ suffix_of FLUSHID_LEN k" "length (suffix_of FLUSHID_LEN k) = 2"
    using assms(2,4) by (auto simp: row_ok_def suffix_of_def prefix_def)
qed

lemma items_rows:
  assumes "hist_ok m fc" "length hashX = hashX_len" "(k, v) \<in> set (items_of m hashX)"
  shows "row_ok fc k v" "prefix hashX k" "m k = Some v"
proof -
  show p: "prefix hashX k" "m k = Some v"
    using assms(3) assms(1) by (simp_all add: items_of_iff hist_ok_def)
  show "row_ok fc k v" by (rule row_of_prefix [OF assms(1,2) p(2,1)])
qed

lemma items_whole:
  assumes "hist_ok m fc" "length hashX = hashX_len" "b \<in> snd ` set (items_of m hashX)"
  shows "length b mod TXNUM_LEN = 0"
  using assms items_rows(1) by (fastforce simp: row_ok_def)

lemma db_nums_rows:
  assumes "hist_ok m fc" "length hashX = hashX_len"
  shows "db_nums m hashX = concat (map (\<lambda>(k, v). nums v) (items_of m hashX))"
  unfolding db_nums_def
  by (subst nums_concat) (use items_whole [OF assms] in \<open>auto simp: comp_def case_prod_unfold\<close>)

lemma prefix_same_length: "length a = length b \<Longrightarrow> prefix a (b @ c) \<longleftrightarrow> a = b"
  by (auto simp: prefix_def)

lemma prefix_hash_key: "length a = hashX_len \<Longrightarrow> length b = hashX_len \<Longrightarrow> prefix a (b @ c) \<longleftrightarrow> a = b"
  by (auto simp: prefix_def)

lemma not_prefix_STATE_KEY [simp]: "length a = hashX_len \<Longrightarrow> \<not> prefix a STATE_KEY"
  using prefix_length_le by fastforce

subsection \<open>Reading the history back\<close>

lemma yield_txnums_chunks:
  assumes "\<And>c. c \<in> set cs \<Longrightarrow> length c = TXNUM_LEN"
  shows "yield_txnums limit cs = Inr (map le_decode (if limit < 0 then cs else take (nat limit) cs))"
  using assms
proof (induction cs arbitrary: limit)
  case (Cons c cs)
  then have len: "length c = TXNUM_LEN" by simp
  show ?case
  proof (cases "limit = 0")
    case False
    then have "nat limit = Suc (nat (limit - 1))" if "0 \<le> limit" using that by simp
    moreover have "yield_txnums (limit - 1) cs =
        Inr (map le_decode (if limit - 1 < 0 then cs else take (nat (limit - 1)) cs))"
      using Cons by simp
    ultimately show ?thesis
      using False len by (auto simp: unpack_le_unsigned_def)
  qed simp
qed simp

lemma concat_chunks_rows:
  "0 < n \<Longrightarrow> (\<And>b. b \<in> snd ` set rows \<Longrightarrow> length b mod n = 0) \<Longrightarrow>
   concat (map (\<lambda>(key, hist). chunks hist n) rows) = chunks (concat (map snd rows)) n"
  by (induction rows) (auto simp: chunks_append)

definition limited :: "int option \<Rightarrow> 'a list \<Rightarrow> 'a list" where
  "limited limit xs = (case limit of None \<Rightarrow> xs | Some l \<Rightarrow> if l < 0 then xs else take (nat l) xs)"

lemma get_txnums_db:
  assumes "storage E" "hist_ok (db_get E (hdb h)) fc" "length hashX = hashX_len"
  shows "get_txnums E h hashX limit = Inr (limited limit (db_nums (db_get E (hdb h)) hashX))"
proof -
  let ?m = "db_get E (hdb h)"
  let ?cs = "chunks (concat (map snd (items_of ?m hashX))) TXNUM_LEN"
  have whole: "b \<in> snd ` set (items_of ?m hashX) \<Longrightarrow> length b mod TXNUM_LEN = 0" for b
    using items_whole [OF assms(2,3)] by auto
  then have "length (concat (map snd (items_of ?m hashX))) mod TXNUM_LEN = 0"
    by (intro whole_concat) auto
  then have len: "c \<in> set ?cs \<Longrightarrow> length c = TXNUM_LEN" for c
    by (rule chunks_lengths [rotated]) simp_all
  have "get_txnums E h hashX limit = yield_txnums (resolve_limit limit) ?cs"
    unfolding get_txnums_def storage.iterator_eq [OF assms(1)] id_def if_False
    by (subst concat_chunks_rows) (use whole in auto)
  also have "\<dots> = Inr (map le_decode (if resolve_limit limit < 0 then ?cs else take (nat (resolve_limit limit)) ?cs))"
    using len by (rule yield_txnums_chunks)
  finally show ?thesis
    by (auto simp: limited_def resolve_limit_def db_nums_def nums_def take_map split: option.splits)
qed

subsection \<open>Flushing\<close>

definition u_ok :: "(bytes \<times> bytes) list \<Rightarrow> bool" where
  "u_ok u \<longleftrightarrow> distinct (map fst u) \<and>
     (\<forall>(k, v) \<in> set u. length k = hashX_len \<and> v \<noteq> [] \<and> length v mod TXNUM_LEN = 0)"

lemma u_okD: "u_ok u \<Longrightarrow> map_of u k = Some v \<Longrightarrow> length k = hashX_len \<and> v \<noteq> [] \<and> length v mod TXNUM_LEN = 0"
  by (auto simp: u_ok_def dest: map_of_SomeD)

lemma apply_puts_suffix:
  "x \<in> set ks \<Longrightarrow> apply_batch (map (\<lambda>x. Put (x @ s) (g x)) ks) m (x @ s) = Some (g x)"
proof (induction ks arbitrary: m)
  case (Cons y ks)
  show ?case
  proof (cases "x \<in> set ks")
    case False
    then have "x @ s \<notin> op_key ` set (map (\<lambda>x. Put (x @ s) (g x)) ks)" by auto
    from apply_batch_other [OF this] show ?thesis using False Cons.prems by simp
  qed (use Cons in simp)
qed simp

lemma be_encode_2:
  assumes "pack_be_uint16 i = Inr b"
  shows "length b = 2" "int (be_decode b) = i" "0 \<le> i" "i < 65536"
  using assms by (auto simp: pack_be_uint16_def err_simps)

lemma flush_contents:
  assumes st: "storage E" and h: "flush E h = Inr h'" and u: "u_ok (unflushed h)"
  obtains flush_id where
    "pack_be_uint16 (flush_count h + 1) = Inr flush_id" "flush_count h' = flush_count h + 1"
    "unflushed h' = []"
    "\<And>x. map_of (unflushed h) x \<noteq> None \<Longrightarrow>
       db_get E (hdb h') (x @ flush_id) = map_of (unflushed h) x"
    "\<And>k. k \<noteq> STATE_KEY \<Longrightarrow> (\<And>x. map_of (unflushed h) x \<noteq> None \<Longrightarrow> k \<noteq> x @ flush_id) \<Longrightarrow>
       db_get E (hdb h') k = db_get E (hdb h) k"
    "db_get E (hdb h') STATE_KEY = Some (encode (repr_dict (state_dict h')))"
proof -
  let ?u = "unflushed h" and ?m = "db_get E (hdb h)"
  obtain fid where fid: "pack_be_uint16 (flush_count h + 1) = Inr fid"
    using h by (auto simp: flush_def Let_def err_simps)
  let ?ks = "sorted_list_of_set (set (map fst ?u))"
  let ?puts = "map (\<lambda>hashX. Put (hashX @ fid) (the (map_of ?u hashX))) ?ks"
  have h': "h' = h\<lparr>flush_count := flush_count h + 1,
      hdb := db_write E (hdb h) (?puts @ [write_state (h\<lparr>flush_count := flush_count h + 1\<rparr>)]),
      unflushed := [], unflushed_count := 0\<rparr>"
    using h fid by (simp add: flush_def Let_def)
  then have m': "db_get E (hdb h') = (apply_batch ?puts ?m)(STATE_KEY \<mapsto> encode (repr_dict (state_dict h')))"
    by (simp add: storage.get_write [OF st] write_state_def state_dict_def)
  have dom: "x \<in> set ?ks \<longleftrightarrow> map_of ?u x \<noteq> None" for x by (force simp: map_of_eq_None_iff)
  have len: "length x = hashX_len" if "map_of ?u x \<noteq> None" for x
    using u_okD [OF u] that by blast
  show thesis
  proof (rule that [OF fid])
    show "db_get E (hdb h') (x @ fid) = map_of ?u x" if "map_of ?u x \<noteq> None" for x
    proof -
      have "length (x @ fid) = 13" using len [OF that] be_encode_2(1) [OF fid] by simp
      then have "x @ fid \<noteq> STATE_KEY" using length_STATE_KEY by fastforce
      then show ?thesis using apply_puts_suffix [of x ?ks] dom [of x] that by (simp add: m')
    qed
    show "db_get E (hdb h') k = ?m k" if "k \<noteq> STATE_KEY" "\<And>x. map_of ?u x \<noteq> None \<Longrightarrow> k \<noteq> x @ fid" for k
    proof -
      have "k \<notin> op_key ` set ?puts"
      proof
        assume "k \<in> op_key ` set ?puts"
        then obtain x where "x \<in> set ?ks" "k = x @ fid" by (auto simp del: set_sorted_list_of_set)
        then show False using dom that(2) by blast
      qed
      from apply_batch_other [OF this] show ?thesis using that(1) by (simp add: m')
    qed
    show "db_get E (hdb h') STATE_KEY = Some (encode (repr_dict (state_dict h')))"
      by (simp add: m')
  qed (simp_all add: h')
qed

text \<open>A flush keeps the database well-formed and appends to every history what was unflushed.\<close>

lemma flush_nums:
  assumes st: "storage E" and h: "flush E h = Inr h'"
    and ok: "hist_ok (db_get E (hdb h)) (flush_count h)" and u: "u_ok (unflushed h)"
  shows "hist_ok (db_get E (hdb h')) (flush_count h')"
    and "length hashX = hashX_len \<Longrightarrow> db_nums (db_get E (hdb h')) hashX =
      db_nums (db_get E (hdb h)) hashX @ nums (unflushed_at (unflushed h) hashX)"
proof -
  let ?u = "unflushed h" and ?m = "db_get E (hdb h)" and ?m' = "db_get E (hdb h')"
  obtain fid where fid: "pack_be_uint16 (flush_count h + 1) = Inr fid"
    and fc: "flush_count h' = flush_count h + 1"
    and new: "\<And>x. map_of ?u x \<noteq> None \<Longrightarrow> ?m' (x @ fid) = map_of ?u x"
    and old: "\<And>k. k \<noteq> STATE_KEY \<Longrightarrow> (\<And>x. map_of ?u x \<noteq> None \<Longrightarrow> k \<noteq> x @ fid) \<Longrightarrow> ?m' k = ?m k"
    by (rule flush_contents [OF st h u]) blast
  note fid_props = be_encode_2 [OF fid]
  have fin: "finite (dom ?m)" "finite (dom ?m')" by (rule storage.finite_contents [OF st])+
  have "k = STATE_KEY \<or> row_ok (flush_count h') k v" if "?m' k = Some v" for k v
  proof (cases "k = STATE_KEY \<or> (\<exists>x. map_of ?u x \<noteq> None \<and> k = x @ fid)")
    case True
    then show ?thesis
      using that u_okD [OF u] fid_props(1,2) new fc by (auto simp: row_ok_def slice_simps)
  next
    case False
    then have "?m k = Some v" using that old by metis
    then have "row_ok (flush_count h) k v" using ok False by (auto simp: hist_ok_def)
    then show ?thesis using row_ok_mono [of "flush_count h" k v] fc by simp
  qed
  then show "hist_ok ?m' (flush_count h')" using fin by (auto simp: hist_ok_def)
  assume len: "length hashX = hashX_len"
  show "db_nums ?m' hashX = db_nums ?m hashX @ nums (unflushed_at ?u hashX)"
  proof (cases "map_of ?u hashX")
    case None
    have "items_of ?m' hashX = items_of ?m hashX"
    proof (rule items_of_cong)
      fix k assume "prefix hashX k"
      then have "k \<noteq> STATE_KEY" "\<And>x. map_of ?u x \<noteq> None \<Longrightarrow> k \<noteq> x @ fid"
        using len u_okD [OF u] None by (auto simp: prefix_hash_key)
      then show "?m' k = ?m k" by (rule old)
    qed
    then show ?thesis using None by (simp add: db_nums_def unflushed_at_def)
  next
    case (Some v)
    let ?k = "hashX @ fid"
    have "items_of ?m' hashX = items_of (?m(?k \<mapsto> v)) hashX"
    proof (rule items_of_cong)
      fix k assume p: "prefix hashX k"
      show "?m' k = (?m(?k \<mapsto> v)) k"
      proof (cases "k = ?k")
        case False
        then have "k \<noteq> STATE_KEY" "\<And>x. map_of ?u x \<noteq> None \<Longrightarrow> k \<noteq> x @ fid"
          using len u_okD [OF u] p by (auto simp: prefix_hash_key)
        then show ?thesis using old False by simp
      qed (use new [of hashX] Some in simp)
    qed
    also have "\<dots> = items_of ?m hashX @ [(?k, v)]"
    proof (rule items_of_insert_last [OF fin(1)])
      fix k assume "?m k \<noteq> None" and p: "prefix hashX k"
      then obtain w where "?m k = Some w" by auto
      note r = row_of_prefix [OF ok len this p]
      have "be_decode (suffix_of FLUSHID_LEN k) < be_decode fid"
        using r(1) fid_props(2) by (simp add: row_ok_def)
      then have "suffix_of FLUSHID_LEN k < fid" using r(3) fid_props(1) by (simp add: be_decode_less_iff)
      then show "k < ?k" by (subst r(2)) (induction hashX; simp)
    qed simp
    finally have items: "items_of ?m' hashX = items_of ?m hashX @ [(?k, v)]" .
    have "length (concat (map snd (items_of ?m hashX))) mod TXNUM_LEN = 0"
      by (rule whole_concat) (use items_whole [OF ok len] in auto)
    then show ?thesis using Some by (simp add: db_nums_def items nums_append unflushed_at_def)
  qed
qed

subsection \<open>Adding the transactions of a block\<close>

text \<open>The numbers of the transactions of a list, counted from \<open>n\<close>, that touch \<open>hashX\<close>.\<close>

fun touching :: "bytes \<Rightarrow> nat \<Rightarrow> bytes list list \<Rightarrow> nat list" where
  "touching hashX n [] = []"
| "touching hashX n (hashXs # rest) = (if hashX \<in> set hashXs then [n] else []) @ touching hashX (n + 1) rest"

lemma unflushed_at_update: "unflushed_at (AList.update k v u) y = (if y = k then v else unflushed_at u y)"
  by (simp add: unflushed_at_def)

lemma u_ok_update: "u_ok u \<Longrightarrow> length k = hashX_len \<Longrightarrow> v \<noteq> [] \<Longrightarrow> length v mod TXNUM_LEN = 0 \<Longrightarrow>
  u_ok (AList.update k v u)"
  using set_update_subset [of k v u] by (auto simp: u_ok_def distinct_update)

lemma unflushed_at_whole: "u_ok u \<Longrightarrow> length (unflushed_at u k) mod TXNUM_LEN = 0"
  using u_okD [of u k] by (cases "map_of u k") (auto simp: unflushed_at_def)

lemma foldl_add:
  assumes "distinct xs" "u_ok u" "length t = TXNUM_LEN" "\<And>x. x \<in> set xs \<Longrightarrow> length x = hashX_len"
  shows "u_ok (foldl (\<lambda>u x. AList.update x (unflushed_at u x @ t) u) u xs) \<and>
    unflushed_at (foldl (\<lambda>u x. AList.update x (unflushed_at u x @ t) u) u xs) y =
      unflushed_at u y @ (if y \<in> set xs then t else [])"
  using assms
proof (induction xs arbitrary: u)
  case (Cons x xs)
  let ?u = "AList.update x (unflushed_at u x @ t) u"
  have "length (unflushed_at u x @ t) mod TXNUM_LEN = 0"
    using unflushed_at_whole [OF Cons.prems(2), of x] Cons.prems(3) by simp
  then have "u_ok ?u" using Cons.prems by (intro u_ok_update) auto
  then show ?case using Cons.IH [of ?u] Cons.prems by (auto simp: unflushed_at_update)
qed simp

lemma add_tx_spec:
  assumes "add_tx hashXs (int n) u = Inr u'" "u_ok u" "n < 2 ^ 40" "\<And>x. x \<in> set hashXs \<Longrightarrow> length x = hashX_len"
  shows "u_ok u' \<and> nums (unflushed_at u' y) = nums (unflushed_at u y) @ (if y \<in> set hashXs then [n] else [])"
proof -
  let ?t = "le_encode 5 n"
  have u': "u' = foldl (\<lambda>u x. AList.update x (unflushed_at u x @ ?t) u) u (remdups hashXs)"
    using assms(1,3) by (auto simp: add_tx_def pack_le_uint64_def err_simps take_le_encode)
  have "nums ?t = [n]" using assms(3) by (simp add: nums_def chunks_single)
  then show ?thesis
    using foldl_add [of "remdups hashXs" u ?t y] assms(2,4) unflushed_at_whole [OF assms(2), of y]
    by (auto simp: u' nums_append)
qed

lemma add_unflushed_loop_spec:
  assumes "add_unflushed_loop txs (int n) u count = Inr (u', c)" "u_ok u" "n + length txs \<le> 2 ^ 40"
    "\<And>hs x. hs \<in> set txs \<Longrightarrow> x \<in> set hs \<Longrightarrow> length x = hashX_len"
  shows "u_ok u' \<and> nums (unflushed_at u' y) = nums (unflushed_at u y) @ touching y n txs"
  using assms
proof (induction txs arbitrary: n u count)
  case (Cons hs txs)
  obtain v where v: "add_tx hs (int n) u = Inr v"
    and r: "add_unflushed_loop txs (int (n + 1)) v (count + length (remdups hs)) = Inr (u', c)"
    using Cons.prems(1) by (auto simp: bindE_Inr_iff algebra_simps)
  have "n < 2 ^ 40" "\<And>x. x \<in> set hs \<Longrightarrow> length x = hashX_len" using Cons.prems(3,4) by auto
  note a = add_tx_spec [OF v Cons.prems(2) this, of y]
  have "u_ok u' \<and> nums (unflushed_at u' y) = nums (unflushed_at v y) @ touching y (n + 1) txs"
    by (rule Cons.IH [OF r]) (use a Cons.prems(3,4) in auto)
  with a show ?case by simp
qed simp

text \<open>C24: what \<open>get_txnums\<close> returns after a block's transactions were added and flushed: the numbers
  stored before, then those that were already waiting, then the block's transactions that touch the
  \<open>hashX\<close>, up to the limit; and the database stays well-formed.\<close>

theorem history_add_flush:
  assumes "storage E" "hist_ok (db_get E (hdb h)) (flush_count h)" "u_ok (unflushed h)"
    and "add_unflushed txs (int n) h = Inr h1" "flush E h1 = Inr h2"
    and "n + length txs \<le> 2 ^ 40" "list_all (list_all (\<lambda>x. length x = hashX_len)) txs"
    and "length hashX = hashX_len"
  shows "get_txnums E h2 hashX limit =
      Inr (limited limit (db_nums (db_get E (hdb h)) hashX @
        nums (unflushed_at (unflushed h) hashX) @ touching hashX n txs)) \<and>
    hist_ok (db_get E (hdb h2)) (flush_count h2) \<and> unflushed h2 = []"
proof -
  obtain u c where loop: "add_unflushed_loop txs (int n) (unflushed h) 0 = Inr (u, c)"
    and h1: "hdb h1 = hdb h" "flush_count h1 = flush_count h" "unflushed h1 = u"
    using assms(4) by (auto simp: add_unflushed_def bindE_Inr_iff)
  have u: "u_ok u" "nums (unflushed_at u hashX) = nums (unflushed_at (unflushed h) hashX) @ touching hashX n txs"
    using add_unflushed_loop_spec [OF loop assms(3,6), of hashX] assms(7) by (auto simp: list_all_iff)
  note fl = flush_nums [OF assms(1,5), unfolded h1, OF assms(2) u(1)]
  have "unflushed h2 = []" using assms(5) by (auto simp: flush_def Let_def bindE_Inr_iff)
  with fl(1) fl(2) [OF assms(8)] get_txnums_db [OF assms(1) fl(1) assms(8)] u(2) show ?thesis by simp
qed

theorem history_add_flush_witness:
  "\<exists>h1 h2. add_unflushed [[replicate 11 1], []] (int 0) (new_history RBT.empty) = Inr h1 \<and>
     flush rbt_engine h1 = Inr h2 \<and> get_txnums rbt_engine h2 (replicate 11 1) None = Inr [0]"
proof -
  let ?h = "new_history RBT.empty :: tree history"
  obtain h1 where h1: "add_unflushed [[replicate 11 1], []] (int 0) ?h = Inr h1" "flush_count h1 = 0"
    by (simp add: add_unflushed_def add_tx_def pack_defs new_history_def)
  then obtain h2 where h2: "flush rbt_engine h1 = Inr h2"
    by (simp add: flush_def Let_def pack_defs)
  have ok: "hist_ok (db_get rbt_engine (hdb ?h)) (flush_count ?h)" "u_ok (unflushed ?h)"
    by (simp_all add: new_history_def hist_ok_def rbt_engine_def u_ok_def)
  have "get_txnums rbt_engine h2 (replicate 11 1) None = Inr [0]"
    using history_add_flush [OF rbt_storage.storage_axioms ok h1(1) h2, of "replicate 11 1" None]
    by (simp add: new_history_def rbt_engine_def db_nums_def items_of_def keys_of_def limited_def
        unflushed_at_def)
  with h1 h2 show ?thesis by blast
qed

subsection \<open>Backing up\<close>

lemma row_array_nums: "length hist mod TXNUM_LEN = 0 \<Longrightarrow> row_array hist = Inr (nums hist)"
proof -
  assume whole: "length hist mod TXNUM_LEN = 0"
  let ?items = "map (\<lambda>item. item @ replicate 3 0) (chunks hist TXNUM_LEN)"
  have len: "x \<in> set ?items \<Longrightarrow> length x = 8" for x :: bytes
    using chunks_lengths [OF _ whole] by auto
  then have "chunks (concat ?items) 8 = ?items" by (intro chunks_concat) auto
  moreover have "length (concat ?items) mod 8 = 0" by (rule whole_concat) (use len in auto)
  ultimately show ?thesis by (simp add: row_array_def Let_def comp_def nums_def)
qed

definition cut_at :: "nat \<Rightarrow> bytes \<Rightarrow> nat" where
  "cut_at t v = bisect_left (nums v) t"

lemma backup_rows_spec:
  "(\<forall>kv \<in> set rows. length (snd kv) mod TXNUM_LEN = 0) \<Longrightarrow>
   backup_rows t rows = Inr (map fst (takeWhile (\<lambda>kv. cut_at t (snd kv) = 0) rows),
     (case dropWhile (\<lambda>kv. cut_at t (snd kv) = 0) rows of
        [] \<Rightarrow> [] | (k, v) # _ \<Rightarrow> [(k, take (TXNUM_LEN * cut_at t v) v)]))"
proof (induction t rows rule: backup_rows.induct)
  case (2 t k v rows)
  then have "row_array v = Inr (nums v)" by (intro row_array_nums) simp
  with 2 show ?case by (auto simp: Let_def cut_at_def)
qed simp

lemma nums_take:
  "length v mod TXNUM_LEN = 0 \<Longrightarrow> nums (take (TXNUM_LEN * i) v) = take i (nums v)"
proof (induction i arbitrary: v)
  case (Suc i)
  show ?case
  proof (cases "v = []")
    case False
    then have len: "TXNUM_LEN \<le> length v" using Suc.prems
      by (metis length_greater_0_conv mod_less not_less less_nat_zero_code)
    then have d: "length (drop TXNUM_LEN v) mod TXNUM_LEN = 0" using Suc.prems by (simp add: le_mod_geq)
    have t: "take (TXNUM_LEN * Suc i) v = take TXNUM_LEN v @ take (TXNUM_LEN * i) (drop TXNUM_LEN v)"
      by (simp add: take_add)
    have "nums v = nums (take TXNUM_LEN v) @ nums (drop TXNUM_LEN v)"
      using len by (subst nums_append [symmetric]) simp_all
    moreover have "length (nums (take TXNUM_LEN v)) = 1" using len by (simp add: nums_def chunks_single)
    ultimately show ?thesis unfolding t using len Suc.IH [OF d] by (subst nums_append) simp_all
  qed simp
qed simp

text \<open>What a list of rows becomes: the rows from the end without an entry below \<open>t\<close> are dropped, and
  the last that is left keeps its entries below \<open>t\<close>.\<close>

definition cut_rows :: "nat \<Rightarrow> (bytes \<times> bytes) list \<Rightarrow> (bytes \<times> bytes) list" where
  "cut_rows t rows =
     (case dropWhile (\<lambda>kv. cut_at t (snd kv) = 0) (rev rows) of
        [] \<Rightarrow> [] | (k, v) # before \<Rightarrow> rev before @ [(k, take (TXNUM_LEN * cut_at t v) v)])"

definition rows_nums :: "(bytes \<times> bytes) list \<Rightarrow> nat list" where
  "rows_nums rows = concat (map (\<lambda>(k, v). nums v) rows)"

lemma cut_rows_nums:
  assumes "\<forall>kv \<in> set rows. length (snd kv) mod TXNUM_LEN = 0" "sorted (rows_nums rows)"
  shows "rows_nums (cut_rows t rows) = filter (\<lambda>n. n < t) (rows_nums rows)"
  using assms
proof (induction rows rule: rev_induct)
  case (snoc kv rows)
  obtain k v where kv: "kv = (k, v)" by fastforce
  have s: "sorted (nums v)" "sorted (rows_nums rows)" "\<forall>x \<in> set (rows_nums rows). \<forall>y \<in> set (nums v). x \<le> y"
    using snoc.prems(2) kv by (auto simp: rows_nums_def sorted_append)
  have c: "cut_at t v = length (filter (\<lambda>n. n < t) (nums v))"
    unfolding cut_at_def by (rule bisect_left_sorted [OF s(1)])
  show ?case
  proof (cases "cut_at t v = 0")
    case True
    then have "filter (\<lambda>n. n < t) (nums v) = []" using c by simp
    moreover have "cut_rows t (rows @ [kv]) = cut_rows t rows" using True by (simp add: cut_rows_def kv)
    ultimately show ?thesis using snoc.IH snoc.prems(1) s(2) by (simp add: kv rows_nums_def)
  next
    case False
    then obtain y where "y \<in> set (nums v)" "y < t" using c by (auto simp: filter_empty_conv)
    then have "filter (\<lambda>n. n < t) (rows_nums rows) = rows_nums rows"
      using s(3) by (intro filter_True ballI) (meson le_less_trans)
    moreover have "nums (take (TXNUM_LEN * cut_at t v) v) = filter (\<lambda>n. n < t) (nums v)"
      using snoc.prems(1) take_bisect_left [OF s(1), of t] by (simp add: nums_take kv cut_at_def)
    moreover have "cut_rows t (rows @ [kv]) = rows @ [(k, take (TXNUM_LEN * cut_at t v) v)]"
      using False by (simp add: cut_rows_def kv)
    ultimately show ?thesis by (simp add: kv rows_nums_def)
  qed
qed (simp add: cut_rows_def rows_nums_def)

definition cut_ops :: "nat \<Rightarrow> (bytes \<times> bytes) list \<Rightarrow> batch_op list" where
  "cut_ops t rows =
     map Delete (map fst (takeWhile (\<lambda>kv. cut_at t (snd kv) = 0) (rev rows))) @
     map (\<lambda>(k, v). Put k v)
       (case dropWhile (\<lambda>kv. cut_at t (snd kv) = 0) (rev rows) of
          [] \<Rightarrow> [] | (k, v) # _ \<Rightarrow> [(k, take (TXNUM_LEN * cut_at t v) v)])"

lemma map_of_items: "finite (dom m) \<Longrightarrow> prefix p k \<Longrightarrow> map_of (items_of m p) k = m k"
proof (cases "m k")
  case None
  assume "finite (dom m)" "prefix p k"
  then have "k \<notin> set (keys_of m p)" using None by auto
  then show ?thesis using None map_of_eq_None_iff [of "items_of m p"]
    by (metis list.set_map map_fst_items)
next
  case (Some v)
  assume "finite (dom m)" "prefix p k"
  then have "(k, v) \<in> set (items_of m p)" using Some by (simp add: items_of_iff)
  then show ?thesis using Some distinct_items by (metis map_of_is_SomeI)
qed

lemma cut_split:
  obtains (all) "cut_ops t rows = map Delete (map fst (rev rows))" "cut_rows t rows = []"
  | (some) before k v dropped where "rows = before @ (k, v) # dropped"
      "cut_rows t rows = before @ [(k, take (TXNUM_LEN * cut_at t v) v)]" "0 < cut_at t v"
      "cut_ops t rows = map Delete (map fst (rev dropped)) @ [Put k (take (TXNUM_LEN * cut_at t v) v)]"
proof (cases "dropWhile (\<lambda>kv. cut_at t (snd kv) = 0) (rev rows)")
  case Nil
  then have tw: "takeWhile (\<lambda>kv. cut_at t (snd kv) = 0) (rev rows) = rev rows"
    by (metis append.right_neutral takeWhile_dropWhile_id)
  show ?thesis by (rule that(1)) (simp_all only: cut_ops_def cut_rows_def Nil tw list.case list.map append_Nil2)
next
  case (Cons kv rest)
  obtain k v where kv: "kv = (k, v)" by fastforce
  let ?D = "takeWhile (\<lambda>kv. cut_at t (snd kv) = 0) (rev rows)"
  have rr: "rev rows = ?D @ kv # rest" using takeWhile_dropWhile_id [of _ "rev rows"] Cons by metis
  have "rows = rev (?D @ kv # rest)" unfolding rr [symmetric] by (rule rev_rev_ident [symmetric])
  then have r: "rows = rev rest @ (k, v) # rev ?D"
    by (simp only: kv rev_append rev.simps append_assoc append_Cons append_Nil)
  have pos: "0 < cut_at t v"
    using Cons kv hd_dropWhile [of "\<lambda>kv. cut_at t (snd kv) = 0" "rev rows"] by simp
  have c: "cut_rows t rows = rev rest @ [(k, take (TXNUM_LEN * cut_at t v) v)]"
    unfolding cut_rows_def Cons kv by simp
  have "cut_ops t rows = map Delete (map fst (rev (rev ?D))) @ [Put k (take (TXNUM_LEN * cut_at t v) v)]"
    unfolding cut_ops_def Cons kv rev_rev_ident by simp
  from that(2) [OF r c pos this] show ?thesis .
qed

lemma apply_cut_ops:
  assumes "finite (dom m)"
  shows "items_of (apply_batch (cut_ops t (items_of m p)) m) p = cut_rows t (items_of m p)"
    and "op_key ` set (cut_ops t (items_of m p)) \<subseteq> set (keys_of m p)"
proof -
  let ?rows = "items_of m p" and ?ops = "cut_ops t (items_of m p)"
  have keys: "set (map fst ?rows) = set (keys_of m p)" by (metis map_fst_items)
  have at: "apply_batch ?ops m k = map_of (cut_rows t ?rows) k" if p: "prefix p k" for k
  proof (cases rule: cut_split [of t ?rows])
    case all
    have "m k = None" if "k \<notin> set (keys_of m p)"
      using that assms p by auto
    moreover have "set (map fst (rev ?rows)) = set (keys_of m p)" by (metis keys rev_map set_rev)
    ultimately show ?thesis
      unfolding all apply_deletes restrict_map_def by simp
  next
    case (some before k0 v0 dropped)
    have d: "distinct (map fst (before @ (k0, v0) # dropped))"
      using distinct_items [of m p] unfolding some(1) .
    have "m k = map_of ?rows k" using map_of_items [OF assms p] by simp
    then have mk: "m k = map_of (before @ (k0, v0) # dropped) k" unfolding some(1) .
    have "apply_batch ?ops m k = (if k = k0 then Some (take (TXNUM_LEN * cut_at t v0) v0)
        else if k \<in> fst ` set dropped then None else m k)"
      by (simp only: some(4) apply_batch_simps apply_deletes restrict_map_def) auto
    also have "\<dots> = map_of (before @ [(k0, take (TXNUM_LEN * cut_at t v0) v0)]) k"
    proof -
      consider "k = k0" | "k \<noteq> k0" "k \<in> fst ` set dropped" | "k \<noteq> k0" "k \<notin> fst ` set dropped" by blast
      then show ?thesis
      proof cases
        case 1
        then have "map_of before k = None" using d by (auto simp: map_of_eq_None_iff)
        with 1 show ?thesis by (simp add: map_add_def)
      next
        case 2
        then have "map_of before k = None" using d by (auto simp: map_of_eq_None_iff)
        with 2 show ?thesis by (simp add: map_add_def)
      next
        case 3
        then have "map_of dropped k = None" by (simp add: map_of_eq_None_iff)
        with 3 show ?thesis unfolding mk by (cases "map_of before k") (simp_all add: map_add_def)
      qed
    qed
    finally show ?thesis by (simp only: some(2))
  qed
  have sub: "set (map fst (cut_rows t ?rows)) \<subseteq> set (keys_of m p) \<and> sorted_wrt (<) (map fst (cut_rows t ?rows))"
  proof (cases rule: cut_split [of t ?rows])
    case (some before k0 v0 dropped)
    have "keys_of m p = map fst before @ k0 # map fst dropped"
      using map_fst_items [of m p] unfolding some(1) by simp
    with sorted_keys_of [of m p] show ?thesis by (auto simp: some(2) sorted_wrt_append)
  qed simp
  have "op_key ` set ?ops \<subseteq> set (map fst ?rows)"
  proof (cases rule: cut_split [of t ?rows])
    case all
    have "op_key ` set (map Delete (map fst (rev rows))) = set (map fst rows)"
      for rows :: "(bytes \<times> bytes) list" by (simp add: image_image)
    then show ?thesis unfolding all(1) by (rule equalityD1)
  next
    case (some before k0 v0 dropped)
    have "op_key ` set ?ops \<subseteq> set (map fst (before @ (k0, v0) # dropped))"
      unfolding some(4) by force
    then show ?thesis unfolding some(1) .
  qed
  then show "op_key ` set ?ops \<subseteq> set (keys_of m p)" unfolding keys .
  show "items_of (apply_batch ?ops m) p = cut_rows t ?rows"
  proof (rule items_of_eqI [OF finite_apply_batch [OF assms] conjunct2 [OF sub]])
    fix k v
    have "(k, v) \<in> set (cut_rows t ?rows) \<longleftrightarrow> map_of (cut_rows t ?rows) k = Some v"
      using sub by (simp add: strict_sorted_iff)
    moreover have "prefix p k" if "(k, v) \<in> set (cut_rows t ?rows)"
      using sub that assms by fastforce
    ultimately show "(k, v) \<in> set (cut_rows t ?rows) \<longleftrightarrow> apply_batch ?ops m k = Some v \<and> prefix p k"
      using at by metis
  qed
qed

lemma apply_batch_point: "m k = m' k \<Longrightarrow> apply_batch ops m k = apply_batch ops m' k"
proof (induction ops arbitrary: m m')
  case (Cons op ops)
  have "apply_op m op k = apply_op m' op k" using Cons.prems by (cases op) simp_all
  then show ?case by (simp add: Cons.IH [of "apply_op m op" "apply_op m' op"])
qed simp

text \<open>Batches whose keys have different prefixes do not interfere.\<close>

lemma apply_separate:
  assumes "distinct xs" "\<And>x op. x \<in> set xs \<Longrightarrow> op \<in> set (f x) \<Longrightarrow> prefix x (op_key op)"
    and "prefix y k" "\<And>x. x \<in> set xs \<Longrightarrow> length x = length y"
  shows "apply_batch (concat (map f xs)) m k = (if y \<in> set xs then apply_batch (f y) m k else m k)"
  using assms
proof (induction xs arbitrary: m)
  case (Cons x xs)
  have IH: "apply_batch (concat (map f xs)) m' k = (if y \<in> set xs then apply_batch (f y) m' k else m' k)"
    for m' using Cons by auto
  show ?case
  proof (cases "x = y")
    case True
    then show ?thesis using IH Cons.prems(1) by simp
  next
    case False
    have "k \<notin> op_key ` set (f x)"
    proof
      assume "k \<in> op_key ` set (f x)"
      then have "prefix x k" using Cons.prems(2) by auto
      moreover have "length x = length y" using Cons.prems(4) by simp
      ultimately show False using False Cons.prems(3) by (auto simp: prefix_def)
    qed
    then have "apply_batch (f x) m k = m k" by (rule apply_batch_other)
    then show ?thesis using IH False apply_batch_point [of "apply_batch (f x) m" k m "f y"] by simp
  qed
qed simp

lemma cut_rows_ok:
  assumes "\<forall>(k, v) \<in> set rows. row_ok fc k v"
  shows "\<forall>(k, v) \<in> set (cut_rows t rows). row_ok fc k v"
proof (cases rule: cut_split [of t rows])
  case (some before k v dropped)
  have ok: "row_ok fc k v" using assms some(1) by simp
  have "length (take (TXNUM_LEN * cut_at t v) v) mod TXNUM_LEN = 0"
    using ok by (auto simp: row_ok_def min_def)
  then have "row_ok fc k (take (TXNUM_LEN * cut_at t v) v)"
    using ok some(3) by (auto simp: row_ok_def)
  then show ?thesis using assms some(1,2) by auto
qed simp

lemma backup_ops_eq:
  assumes "storage E" "hist_ok (db_get E db) fc" "length hashX = hashX_len"
  shows "backup_ops E db t hashX = Inr (cut_ops t (items_of (db_get E db) hashX))"
  using items_rows(1) [OF assms(2,3)] unfolding backup_ops_def storage.iterator_eq [OF assms(1)]
  by (subst backup_rows_spec) (auto simp: cut_ops_def row_ok_def)

text \<open>C22: backing up never fails on a well-formed database and removes from the history of each given
  \<open>hashX\<close> exactly the transactions from \<open>tx_count\<close> on (its rows are sorted); every other history is
  untouched, and the database stays well-formed.\<close>

theorem history_backup:
  assumes st: "storage E" and ok: "hist_ok (db_get E (hdb h)) (flush_count h)"
    and fin: "finite hashXs" and len: "\<forall>x \<in> hashXs. length x = hashX_len"
    and sorted: "\<forall>x \<in> hashXs. sorted (db_nums (db_get E (hdb h)) x)"
  shows "\<exists>h'. backup E hashXs t h = Inr h' \<and> flush_count h' = flush_count h + 1 \<and>
    hist_ok (db_get E (hdb h')) (flush_count h') \<and>
    (\<forall>x. length x = hashX_len \<longrightarrow> db_nums (db_get E (hdb h')) x =
       (if x \<in> hashXs then filter (\<lambda>n. n < t) (db_nums (db_get E (hdb h)) x)
        else db_nums (db_get E (hdb h)) x))"
proof -
  let ?m = "db_get E (hdb h)" and ?L = "sorted_list_of_set hashXs"
  let ?f = "\<lambda>x. cut_ops t (items_of ?m x)"
  have finm: "finite (dom ?m)" using ok by (simp add: hist_ok_def)
  have L: "set ?L = hashXs" "distinct ?L" using fin by simp_all
  have "mapE (backup_ops E (hdb h) t) ?L = Inr (map ?f ?L)"
    by (rule mapE_Inr) (use backup_ops_eq [OF st ok] L len in auto)
  then obtain h' where h': "backup E hashXs t h = Inr h'" "flush_count h' = flush_count h + 1"
    and m': "db_get E (hdb h') = (apply_batch (concat (map ?f ?L)) ?m)(STATE_KEY \<mapsto> encode (repr_dict (state_dict (h\<lparr>flush_count := flush_count h + 1\<rparr>))))"
    by (simp add: backup_def Let_def storage.get_write [OF st] write_state_def)
  have pre: "prefix x (op_key op)" if "x \<in> set ?L" "op \<in> set (?f x)" for x op
    using apply_cut_ops(2) [OF finm, of t x] that(2) finm by fastforce
  have items: "items_of (db_get E (hdb h')) x =
      (if x \<in> hashXs then cut_rows t (items_of ?m x) else items_of ?m x)" if x: "length x = hashX_len" for x
  proof -
    have "items_of (db_get E (hdb h')) x = items_of (if x \<in> hashXs then apply_batch (?f x) ?m else ?m) x"
    proof (rule items_of_cong)
      fix k assume p: "prefix x k"
      have "k \<noteq> STATE_KEY" using p x by auto
      moreover have "apply_batch (concat (map ?f ?L)) ?m k = (if x \<in> set ?L then apply_batch (?f x) ?m k else ?m k)"
        by (rule apply_separate [OF L(2) pre p]) (use x len L(1) in auto)
      ultimately show "db_get E (hdb h') k = (if x \<in> hashXs then apply_batch (?f x) ?m else ?m) k"
        by (simp add: m' L(1))
    qed
    then show ?thesis using apply_cut_ops(1) [OF finm] by simp
  qed
  have rows_ok: "\<forall>(k, v) \<in> set (items_of ?m x). row_ok (flush_count h) k v" if "length x = hashX_len" for x
    using items_rows(1) [OF ok that] by auto
  have ok': "hist_ok (db_get E (hdb h')) (flush_count h')"
    unfolding hist_ok_def
  proof (intro conjI allI impI)
    show fin': "finite (dom (db_get E (hdb h')))" by (rule storage.finite_contents [OF st])
    fix k v assume kv: "db_get E (hdb h') k = Some v"
    have "row_ok (flush_count h) k v" if "k \<noteq> STATE_KEY"
    proof (cases "\<exists>x \<in> hashXs. prefix x k")
      case True
      then obtain x where x: "x \<in> hashXs" "prefix x k" by blast
      then have "(k, v) \<in> set (items_of (db_get E (hdb h')) x)" using kv fin' by (simp add: items_of_iff)
      then have "(k, v) \<in> set (cut_rows t (items_of ?m x))" using items [of x] x(1) len by simp
      then show ?thesis using cut_rows_ok [OF rows_ok [of x]] x(1) len by fastforce
    next
      case False
      then have "k \<notin> op_key ` set (concat (map ?f ?L))" using pre L(1) by fastforce
      then have "?m k = Some v" using kv that by (simp add: m' apply_batch_other)
      then show ?thesis using ok that by (auto simp: hist_ok_def)
    qed
    then show "k = STATE_KEY \<or> row_ok (flush_count h') k v"
      using row_ok_mono [of "flush_count h" k v "flush_count h'"] h'(2) by auto
  qed
  have nums: "db_nums (db_get E (hdb h')) x = (if x \<in> hashXs then filter (\<lambda>n. n < t) (db_nums ?m x) else db_nums ?m x)"
    if x: "length x = hashX_len" for x
  proof -
    have "db_nums ?m x = rows_nums (items_of ?m x)" "db_nums (db_get E (hdb h')) x = rows_nums (items_of (db_get E (hdb h')) x)"
      using db_nums_rows [OF ok x] db_nums_rows [OF ok' x] by (simp_all add: rows_nums_def)
    moreover have "rows_nums (cut_rows t (items_of ?m x)) = filter (\<lambda>n. n < t) (rows_nums (items_of ?m x))"
      if "x \<in> hashXs"
    proof (rule cut_rows_nums)
      show "\<forall>kv \<in> set (items_of ?m x). length (snd kv) mod TXNUM_LEN = 0"
        using rows_ok [OF x] by (auto simp: row_ok_def)
      show "sorted (rows_nums (items_of ?m x))" using sorted that calculation(1) by metis
    qed
    ultimately show ?thesis using items [OF x] by simp
  qed
  show ?thesis using h' ok' nums by blast
qed

theorem history_backup_witness:
  "\<exists>h'. backup rbt_engine {replicate 11 1} 7
       ((new_history (RBT.insert (replicate 11 1 @ [0, 1]) [5,0,0,0,0, 9,0,0,0,0] RBT.empty))\<lparr>flush_count := 1\<rparr>)
     = Inr h' \<and> db_nums (db_get rbt_engine (hdb h')) (replicate 11 1) = [5]"
proof -
  let ?k = "replicate 11 1 @ [0, 1] :: bytes" and ?v = "[5,0,0,0,0, 9,0,0,0,0] :: bytes"
  let ?h = "(new_history (RBT.insert ?k ?v RBT.empty))\<lparr>flush_count := 1\<rparr>"
  let ?m = "db_get rbt_engine (hdb ?h)"
  have m: "?m = [?k \<mapsto> ?v]" by (simp add: rbt_engine_def new_history_def)
  have "be_decode [0, 1] = 1" by code_simp
  then have ok: "hist_ok ?m (flush_count ?h)"
    unfolding m by (simp add: hist_ok_def row_ok_def suffix_of_def)
  have "items_of ?m (replicate 11 1) = [(?k, ?v)]"
    unfolding m by (rule items_of_eqI) (auto simp: prefix_def)
  moreover have "nums ?v = [5, 9]" by code_simp
  ultimately have n: "db_nums ?m (replicate 11 1) = [5, 9]" by (simp add: db_nums_def)
  show ?thesis
    using history_backup [OF rbt_storage.storage_axioms ok, of "{replicate 11 1}" 7] n by auto
qed

subsection \<open>Reopening after an unclean shutdown\<close>

lemma read_state_written:
  assumes "db_get E (hdb h) STATE_KEY = Some (encode (repr_dict (state_dict s)))" "db_version s = 1"
  shows "read_state E h = Inr (h\<lparr>flush_count := flush_count s, comp_flush_count := comp_flush_count s,
    comp_cursor := comp_cursor s, db_version := 1, upgrade_cursor := upgrade_cursor s\<rparr>)"
proof -
  let ?d = "state_dict s"
  have "literal_eval (repr_dict ?d) = Some ?d"
    by (rule literal_eval_repr) (simp_all add: state_dict_def)
  moreover obtain b bs where b: "encode (repr_dict ?d) = b # bs"
    by (simp add: repr_dict_def encode_def)
  then have "decode (b # bs) = repr_dict ?d" by (metis decode_encode)
  ultimately show ?thesis using assms b
    by (simp add: read_state_def state_dict_def state_item_def state_get_def)
qed

definition excess :: "int \<Rightarrow> bytes \<Rightarrow> bool" where
  "excess n k \<longleftrightarrow> n < int (be_decode (suffix_of FLUSHID_LEN k))"

lemma excess_keys:
  "(\<forall>kv \<in> set rows. 2 \<le> length (fst kv)) \<Longrightarrow>
   foldE (\<lambda>(key, hist) keys.
       bindE (unpack_be_unsigned_from 2 (suffix_of FLUSHID_LEN key) 0) (\<lambda>flush_id.
         Inr (if int flush_id > n then keys @ [key] else keys))) rows keys =
   Inr (keys @ filter (excess n) (map fst rows))"
proof (induction rows arbitrary: keys)
  case (Cons kv rows)
  have "unpack_be_unsigned_from 2 (suffix_of FLUSHID_LEN (fst kv)) 0 = Inr (be_decode (suffix_of FLUSHID_LEN (fst kv)))"
    using Cons.prems by (simp add: unpack_be_unsigned_from_def slice_def)
  then show ?case using Cons by (simp add: case_prod_unfold excess_def)
qed simp

lemma suffix_STATE_KEY: "be_decode (suffix_of FLUSHID_LEN STATE_KEY) = 0"
  by (simp add: STATE_KEY_def slice_simps be_decode_def)

lemma clear_excess_contents:
  assumes st: "storage E" and ok: "hist_ok (db_get E (hdb h)) fc" and n: "0 \<le> n" "n < flush_count h"
  shows "\<exists>h'. clear_excess E n h = Inr h' \<and> flush_count h' = n \<and>
    (\<forall>k. k \<noteq> STATE_KEY \<longrightarrow> db_get E (hdb h') k = (if excess n k then None else db_get E (hdb h) k))"
proof -
  let ?m = "db_get E (hdb h)" and ?rows = "items_of (db_get E (hdb h)) []"
  let ?keys = "filter (excess n) (keys_of ?m [])"
  have fin: "finite (dom ?m)" using ok by (simp add: hist_ok_def)
  have "\<forall>kv \<in> set ?rows. 2 \<le> length (fst kv)"
    using ok fin by (force simp: items_of_iff hist_ok_def row_ok_def)
  from excess_keys [OF this, of n "[]"] obtain h' where
    h': "clear_excess E n h = Inr h'" "flush_count h' = n"
    and m': "db_get E (hdb h') = (?m |` (- set ?keys))(STATE_KEY \<mapsto> encode (repr_dict (state_dict (h\<lparr>flush_count := n\<rparr>))))"
    using n by (simp add: clear_excess_def storage.iterator_eq [OF st] storage.get_write [OF st]
        write_state_def apply_deletes Let_def del: set_filter)
  have "db_get E (hdb h') k = (if excess n k then None else ?m k)" if "k \<noteq> STATE_KEY" for k
    using that fin by (auto simp: m' restrict_map_def)
  with h' show ?thesis by blast
qed

text \<open>C21: a history flush whose UTXO flush never happened is undone when the database is opened
  again: reading the state back and clearing the flushes beyond the UTXO flush count restores every
  history to what it was before the flush.\<close>

theorem history_crash_recovery:
  assumes st: "storage E" and fl: "flush E h = Inr h'"
    and ok: "hist_ok (db_get E (hdb h)) (flush_count h)" and u: "u_ok (unflushed h)"
    and fc: "0 \<le> flush_count h" and ver: "db_version h = 1"
  shows "\<exists>h''. open_db E (hdb h') (flush_count h) compacting (new_history db) = Inr h'' \<and>
    flush_count h'' = flush_count h \<and> hist_ok (db_get E (hdb h'')) (flush_count h) \<and>
    (\<forall>x. length x = hashX_len \<longrightarrow>
       db_nums (db_get E (hdb h'')) x = db_nums (db_get E (hdb h)) x)"
proof -
  let ?m = "db_get E (hdb h)" and ?u = "unflushed h"
  from fl have ver': "db_version h' = 1" using ver by (auto simp: flush_def Let_def bindE_Inr_iff)
  obtain fid where fid: "pack_be_uint16 (flush_count h + 1) = Inr fid"
    and fc': "flush_count h' = flush_count h + 1"
    and new: "\<And>x. map_of ?u x \<noteq> None \<Longrightarrow> db_get E (hdb h') (x @ fid) = map_of ?u x"
    and old: "\<And>k. k \<noteq> STATE_KEY \<Longrightarrow> (\<And>x. map_of ?u x \<noteq> None \<Longrightarrow> k \<noteq> x @ fid) \<Longrightarrow>
       db_get E (hdb h') k = ?m k"
    and state: "db_get E (hdb h') STATE_KEY = Some (encode (repr_dict (state_dict h')))"
    by (rule flush_contents [OF st fl u]) blast
  note fidp = be_encode_2 [OF fid]
  let ?r = "(new_history (hdb h'))\<lparr>flush_count := flush_count h', comp_flush_count := comp_flush_count h',
    comp_cursor := comp_cursor h', db_version := 1, upgrade_cursor := upgrade_cursor h'\<rparr>"
  have nh: "(new_history db)\<lparr>hdb := hdb h'\<rparr> = new_history (hdb h')" by (simp add: new_history_def)
  have read: "read_state E (new_history (hdb h')) = Inr ?r"
    by (rule read_state_written) (use state ver' in \<open>simp_all add: new_history_def\<close>)
  have hr: "hdb ?r = hdb h'" by (simp add: new_history_def)
  obtain c where c: "clear_excess E (flush_count h) ?r = Inr c" "flush_count c = flush_count h"
    and mc: "\<And>k. k \<noteq> STATE_KEY \<Longrightarrow> db_get E (hdb c) k =
      (if excess (flush_count h) k then None else db_get E (hdb h') k)"
    using clear_excess_contents [OF st, of ?r, unfolded hr, OF flush_nums(1) [OF st fl ok u] fc] fc' by auto
  have m: "db_get E (hdb c) k = ?m k" if k: "k \<noteq> STATE_KEY" for k
  proof (cases "\<exists>x. map_of ?u x \<noteq> None \<and> k = x @ fid")
    case True
    then obtain x where x: "map_of ?u x \<noteq> None" "k = x @ fid" by blast
    then have suf: "suffix_of FLUSHID_LEN k = fid" using fidp(1) by (simp add: slice_simps)
    have "?m k = None"
    proof (rule ccontr)
      assume "?m k \<noteq> None"
      then obtain v where "row_ok (flush_count h) k v" using ok k by (auto simp: hist_ok_def)
      then show False using suf fidp(2) by (simp add: row_ok_def)
    qed
    moreover have "excess (flush_count h) k" using suf fidp(2) by (simp add: excess_def)
    ultimately show ?thesis using mc [OF k] by simp
  next
    case False
    then have "db_get E (hdb h') k = ?m k" using old [OF k] by blast
    moreover have "?m k = None" if e: "excess (flush_count h) k"
    proof (rule ccontr)
      assume "?m k \<noteq> None"
      then obtain v where "row_ok (flush_count h) k v" using ok k by (auto simp: hist_ok_def)
      then show False using e by (simp add: row_ok_def excess_def)
    qed
    ultimately show ?thesis using mc [OF k] by simp
  qed
  have ok': "hist_ok (db_get E (hdb c)) (flush_count h)"
    using ok m storage.finite_contents [OF st] by (auto simp: hist_ok_def) metis
  have nums: "db_nums (db_get E (hdb c)) x = db_nums ?m x" if x: "length x = hashX_len" for x
  proof -
    have "items_of (db_get E (hdb c)) x = items_of ?m x"
    proof (rule items_of_cong)
      fix k assume "prefix x k"
      then have "k \<noteq> STATE_KEY" using x by auto
      then show "db_get E (hdb c) k = ?m k" by (rule m)
    qed
    then show ?thesis by (simp add: db_nums_def)
  qed
  let ?c = "if compacting then c else cancel_compaction c"
  have "hdb ?c = hdb c" "flush_count ?c = flush_count h" using c(2) by (simp_all add: cancel_compaction_def)
  moreover have "open_db E (hdb h') (flush_count h) compacting (new_history db) = Inr ?c"
    by (simp add: open_db_def nh read c(1))
  ultimately show ?thesis using ok' nums by auto
qed

theorem history_crash_recovery_witness:
  "\<exists>h' h''. flush rbt_engine ((new_history RBT.empty)\<lparr>unflushed := [(replicate 11 1, [5,0,0,0,0])]\<rparr>) = Inr h' \<and>
     open_db rbt_engine (hdb h') 0 False (new_history RBT.empty) = Inr h'' \<and>
     db_nums (db_get rbt_engine (hdb h'')) (replicate 11 1) = []"
proof -
  let ?h = "(new_history (RBT.empty :: tree))\<lparr>unflushed := [(replicate 11 1, [5,0,0,0,0])]\<rparr>"
  have fc: "flush_count ?h = 0" "db_version ?h = 1" by (simp_all add: new_history_def)
  obtain h' where h': "flush rbt_engine ?h = Inr h'" using fc by (simp add: flush_def Let_def pack_defs)
  have ok: "hist_ok (db_get rbt_engine (hdb ?h)) (flush_count ?h)" "u_ok (unflushed ?h)"
    by (simp_all add: hist_ok_def u_ok_def rbt_engine_def new_history_def)
  have "db_nums (db_get rbt_engine (hdb ?h)) (replicate 11 1) = []"
    by (simp add: db_nums_def items_of_def keys_of_def rbt_engine_def new_history_def)
  then show ?thesis
    using history_crash_recovery [OF rbt_storage.storage_axioms h' ok, of False RBT.empty] h' fc by auto
qed

subsection \<open>Compaction\<close>

definition hist_bytes :: "contents \<Rightarrow> bytes \<Rightarrow> bytes" where
  "hist_bytes m hashX = concat (map snd (items_of m hashX))"

text \<open>The rows compaction gives a history: its bytes in chunks, numbered from 0.\<close>

fun numbered :: "bytes \<Rightarrow> nat \<Rightarrow> bytes list \<Rightarrow> (bytes \<times> bytes) list" where
  "numbered hashX n [] = []"
| "numbered hashX n (chunk # rest) = (hashX @ be_encode 2 n, chunk) # numbered hashX (n + 1) rest"

definition compact_target :: "nat \<Rightarrow> bytes \<Rightarrow> bytes \<Rightarrow> (bytes \<times> bytes) list" where
  "compact_target max_entries hashX hist = numbered hashX 0 (chunks hist (max_entries * TXNUM_LEN))"

text \<open>What writing the batch of a pass makes of the value at a key.\<close>

definition effect :: "compaction \<Rightarrow> contents \<Rightarrow> contents" where
  "effect c m = apply_batch (map Delete (keys_to_delete c) @ map (\<lambda>(k, v). Put k v) (write_items c)) m"

lemma effect_at: "effect c m k =
  (case map_of (rev (write_items c)) k of
     Some v \<Rightarrow> Some v | None \<Rightarrow> if k \<in> set (keys_to_delete c) then None else m k)"
  by (simp add: effect_def apply_puts apply_deletes map_add_def restrict_map_def split: option.splits)

lemma compact_chunks_spec:
  "compact_chunks hashX hm cs n c = Inr c' \<Longrightarrow> n \<le> 65536 \<Longrightarrow>
     n + length cs \<le> 65536 \<and> max_flush c' = max_flush c \<and>
     write_items c' = write_items c @ filter (\<lambda>(k, v). map_of hm k \<noteq> Some v) (numbered hashX n cs) \<and>
     keys_to_delete c' = filter (\<lambda>k. \<forall>v. (k, v) \<in> set (numbered hashX n cs) \<longrightarrow> map_of hm k \<noteq> Some v)
       (keys_to_delete c)"
proof (induction cs arbitrary: n c)
  case (Cons chunk rest)
  let ?key = "hashX @ be_encode 2 n"
  let ?c = "if map_of hm ?key = Some chunk then c\<lparr>keys_to_delete := removeAll ?key (keys_to_delete c)\<rparr>
      else c\<lparr>write_items := write_items c @ [(?key, chunk)], write_size := write_size c + length chunk\<rparr>"
  have n: "n < 65536" and r: "compact_chunks hashX hm rest (n + 1) ?c = Inr c'"
    using Cons.prems by (auto simp: pack_be_uint16_def bindE_Inr_iff err_simps Let_def)
  have "n + 1 \<le> 65536" using n by simp
  note IH = Cons.IH [OF r this]
  show ?case
  proof (cases "map_of hm ?key = Some chunk")
    case True
    with IH n show ?thesis by (auto simp: removeAll_filter_not_eq intro!: filter_cong)
  next
    case False
    with IH n show ?thesis by (auto intro!: filter_cong)
  qed
qed auto

lemma image_fst_items [simp]: "fst ` set (items_of m p) = set (keys_of m p)"
  by (metis list.set_map map_fst_items)

lemma append_less_same: "x @ a < x @ (b :: bytes) \<longleftrightarrow> a < b"
  by (induction x) simp_all

lemma numbered_keys:
  "n + length cs \<le> 65536 \<Longrightarrow> (k, v) \<in> set (numbered x n cs) \<Longrightarrow>
   \<exists>i \<ge> n. i < n + length cs \<and> k = x @ be_encode 2 i \<and> v \<in> set cs"
proof (induction cs arbitrary: n)
  case (Cons c cs)
  then consider "k = x @ be_encode 2 n" "v = c" | "(k, v) \<in> set (numbered x (n + 1) cs)" by auto
  then show ?case
  proof cases
    case 2
    have "n + 1 + length cs \<le> 65536" using Cons.prems by simp
    from Cons.IH [OF this 2] obtain i where
      "n + 1 \<le> i" "i < n + 1 + length cs" "k = x @ be_encode 2 i" "v \<in> set cs" by blast
    then show ?thesis by (intro exI [of _ i]) simp
  qed auto
qed simp

lemma numbered_sorted: "n + length cs \<le> 65536 \<Longrightarrow> sorted_wrt (<) (map fst (numbered x n cs))"
proof (induction cs arbitrary: n)
  case (Cons c cs)
  have "x @ be_encode 2 n < k" if kv: "(k, v) \<in> set (numbered x (n + 1) cs)" for k v
  proof -
    obtain i where i: "n + 1 \<le> i" "i < n + 1 + length cs" "k = x @ be_encode 2 i"
      using numbered_keys [OF _ kv] Cons.prems by auto
    then have "be_encode 2 n < be_encode 2 i"
      using Cons.prems by (simp add: be_decode_less_iff)
    then show ?thesis by (simp add: i(3) append_less_same)
  qed
  with Cons show ?case by auto
qed simp

lemma map_snd_numbered [simp]: "map snd (numbered x n cs) = cs"
  by (induction cs arbitrary: n) auto

definition comp_touched :: "compaction \<Rightarrow> bytes \<Rightarrow> bool" where
  "comp_touched c k \<longleftrightarrow> k \<in> set (keys_to_delete c) \<or> k \<in> fst ` set (write_items c)"

lemma effect_written:
  assumes "(k, v) \<in> set (write_items c)" "\<And>v'. (k, v') \<in> set (write_items c) \<Longrightarrow> v' = v"
  shows "effect c m k = Some v"
proof -
  have "k \<in> fst ` set (write_items c)" using assms(1) by force
  then have "map_of (rev (write_items c)) k \<noteq> None" by (simp add: map_of_eq_None_iff)
  then obtain v' where v': "map_of (rev (write_items c)) k = Some v'" by blast
  then have "(k, v') \<in> set (rev (write_items c))" by (rule map_of_SomeD)
  with assms(2) v' show ?thesis by (simp add: effect_at)
qed

lemma effect_unwritten:
  assumes "k \<notin> fst ` set (write_items c)"
  shows "effect c m k = (if k \<in> set (keys_to_delete c) then None else m k)"
proof -
  have "map_of (rev (write_items c)) k = None" using assms by (simp add: map_of_eq_None_iff)
  then show ?thesis by (simp add: effect_at)
qed

lemma untouched_effect: "\<not> comp_touched c k \<Longrightarrow> effect c m k = m k"
  by (simp add: comp_touched_def effect_unwritten)

lemma compact_hashX_spec:
  assumes c': "compact_hashX max_entries x (items_of m x) c = Inr c'" and fin: "finite (dom m)"
    and new: "\<forall>k. prefix x k \<longrightarrow> \<not> comp_touched c k"
  defines "target \<equiv> compact_target max_entries x (hist_bytes m x)"
  shows "\<And>k. prefix x k \<Longrightarrow> effect c' m k = map_of target k"
    and "\<And>k. \<not> prefix x k \<Longrightarrow> effect c' m k = effect c m k \<and> (comp_touched c' k \<longleftrightarrow> comp_touched c k)"
    and "length target \<le> 65536" "0 < max_entries"
    and "max_flush c' = max (max_flush c) (int (length target) - 1)"
proof -
  let ?hm = "items_of m x" and ?cs = "chunks (hist_bytes m x) (max_entries * TXNUM_LEN)"
  let ?c = "c\<lparr>keys_to_delete := remdups (keys_to_delete c @ map fst ?hm)\<rparr>"
  obtain d where d: "compact_chunks x ?hm ?cs 0 ?c = Inr d"
    and cd: "c' = d\<lparr>max_flush := max (max_flush d) (int (length ?cs) - 1)\<rparr>"
    and "0 < max_entries * TXNUM_LEN"
    using c' by (auto simp: compact_hashX_def Let_def bindE_Inr_iff hist_bytes_def split: if_splits)
  then show "0 < max_entries" by simp
  have t: "target = numbered x 0 ?cs" by (simp add: target_def compact_target_def)
  note spec = compact_chunks_spec [OF d, simplified]
  have len: "length target = length ?cs" unfolding t by (metis length_map map_snd_numbered)
  then show "length target \<le> 65536" using spec by simp
  show "max_flush c' = max (max_flush c) (int (length target) - 1)" using spec cd len by simp
  have w: "write_items c' = write_items c @ filter (\<lambda>(k, v). map_of ?hm k \<noteq> Some v) target"
    and kd: "set (keys_to_delete c') = {k \<in> set (keys_to_delete c) \<union> set (keys_of m x).
      \<forall>v. (k, v) \<in> set target \<longrightarrow> map_of ?hm k \<noteq> Some v}"
    using spec cd t by auto
  have pt: "prefix x k" if "(k, v) \<in> set target" for k v
    using numbered_keys [of 0 ?cs k v x] that spec t by auto
  have dist: "distinct (map fst target)"
    using numbered_sorted [of 0 ?cs x] spec t by (simp add: strict_sorted_iff)
  {
    fix k assume p: "prefix x k"
    have n: "k \<notin> set (keys_to_delete c)" "k \<notin> fst ` set (write_items c)"
      using new p by (auto simp: comp_touched_def)
    have mk: "map_of ?hm k = m k" by (rule map_of_items [OF fin p])
    have hm: "k \<in> set (keys_of m x) \<longleftrightarrow> m k \<noteq> None"
      using fin p by auto
    show "effect c' m k = map_of target k"
    proof (cases "map_of target k")
      case None
      then have "k \<notin> fst ` set target" by (simp add: map_of_eq_None_iff)
      then have "k \<notin> fst ` set (filter (\<lambda>(k, v). map_of ?hm k \<noteq> Some v) target)" "\<And>v. (k, v) \<notin> set target"
        by force+
      then have u: "k \<notin> fst ` set (write_items c')" and d: "k \<in> set (keys_to_delete c') \<longleftrightarrow> m k \<noteq> None"
        using n hm unfolding w kd set_append image_Un by blast+
      show ?thesis using None d by (simp add: effect_unwritten [OF u])
    next
      case (Some v)
      have v: "(k, v') \<in> set target \<longleftrightarrow> v' = v" for v'
        using Some dist by (metis map_of_SomeD map_of_is_SomeI option.inject)
      show ?thesis
      proof (cases "m k = Some v")
        case True
        have "k \<notin> fst ` set (filter (\<lambda>(k, v). map_of ?hm k \<noteq> Some v) target)"
        proof
          assume "k \<in> fst ` set (filter (\<lambda>(k, v). map_of ?hm k \<noteq> Some v) target)"
          then obtain v' where "(k, v') \<in> set target" "map_of ?hm k \<noteq> Some v'" by force
          then show False using v mk True by metis
        qed
        then have u: "k \<notin> fst ` set (write_items c')" using n(2) unfolding w set_append image_Un by simp
        have "(k, v) \<in> set target \<and> map_of ?hm k = Some v" using v mk True by simp
        then have d: "k \<notin> set (keys_to_delete c')" unfolding kd by blast
        show ?thesis using Some d True by (simp add: effect_unwritten [OF u])
      next
        case False
        have "effect c' m k = Some v"
          
        proof (rule effect_written)
          have "(k, v) \<in> set target" "map_of ?hm k \<noteq> Some v" using v mk False by simp_all
          then show "(k, v) \<in> set (write_items c')" unfolding w by simp
          show "v' = v" if "(k, v') \<in> set (write_items c')" for v'
            using that n(2) v unfolding w by force
        qed
        with Some show ?thesis by simp
      qed
    qed
  }
  {
    fix k assume np: "\<not> prefix x k"
    then have "k \<notin> fst ` set target" using pt by force
    moreover from this have "map_of (rev (filter (\<lambda>(k, v). map_of ?hm k \<noteq> Some v) target)) k = None"
      by (auto simp: map_of_eq_None_iff)
    moreover have "k \<notin> set (keys_of m x)" using np fin by auto
    ultimately have eqs: "k \<in> set (keys_to_delete c') \<longleftrightarrow> k \<in> set (keys_to_delete c)"
      "map_of (rev (write_items c')) k = map_of (rev (write_items c)) k"
      "k \<in> fst ` set (write_items c') \<longleftrightarrow> k \<in> fst ` set (write_items c)"
      unfolding w kd by (force simp: map_add_def)+
    show "effect c' m k = effect c m k \<and> (comp_touched c' k \<longleftrightarrow> comp_touched c k)"
      by (simp add: effect_at comp_touched_def eqs)
  }
qed

text \<open>The invariant of a pass that has compacted the histories of \<open>P\<close>.\<close>

definition pass_inv :: "contents \<Rightarrow> nat \<Rightarrow> int \<Rightarrow> bytes set \<Rightarrow> compaction \<Rightarrow> bool" where
  "pass_inv m max_entries low P c \<longleftrightarrow>
     (\<forall>x \<in> P. length x = hashX_len) \<and>
     (\<forall>k. (\<forall>x \<in> P. \<not> prefix x k) \<longrightarrow> \<not> comp_touched c k) \<and>
     (\<forall>x \<in> P. \<forall>k. prefix x k \<longrightarrow>
        effect c m k = map_of (compact_target max_entries x (hist_bytes m x)) k) \<and>
     (\<forall>x \<in> P. length (compact_target max_entries x (hist_bytes m x)) \<le> 65536 \<and>
        int (length (compact_target max_entries x (hist_bytes m x))) - 1 \<le> max_flush c) \<and>
     (P \<noteq> {} \<longrightarrow> 0 < max_entries) \<and> low \<le> max_flush c"

lemma prefix_both: "prefix x k \<Longrightarrow> prefix y k \<Longrightarrow> length x = length y \<Longrightarrow> x = y"
  by (auto simp: prefix_def)

lemma pass_step:
  assumes inv: "pass_inv m me low P c" and x: "x \<notin> P" "length x = hashX_len" and fin: "finite (dom m)"
    and c': "compact_hashX me x (items_of m x) c = Inr c'"
  shows "pass_inv m me low (insert x P) c'"
proof -
  have new: "\<forall>k. prefix x k \<longrightarrow> \<not> comp_touched c k"
    using inv x prefix_both [of x] unfolding pass_inv_def by metis
  note sp = compact_hashX_spec [OF c' fin new]
  have np: "\<not> prefix x k" if "y \<in> P" "prefix y k" for y k
    using that x inv prefix_both [of x k y] unfolding pass_inv_def by metis
  let ?T = "\<lambda>x. compact_target me x (hist_bytes m x)"
  have mf: "max_flush c \<le> max_flush c'" "int (length (?T x)) - 1 \<le> max_flush c'" using sp(5) by simp_all
  show ?thesis
    unfolding pass_inv_def
  proof (intro conjI allI ballI impI)
    fix k assume "\<forall>y \<in> insert x P. \<not> prefix y k"
    then show "\<not> comp_touched c' k" using sp(2) [of k] inv unfolding pass_inv_def by simp
  next
    fix y k assume y: "y \<in> insert x P" "prefix y k"
    show "effect c' m k = map_of (?T y) k"
    proof (cases "y = x")
      case False
      then have "effect c' m k = effect c m k" using sp(2) [OF np] y by blast
      with False y inv show ?thesis unfolding pass_inv_def by simp
    qed (use sp(1) y in simp)
  next
    fix y assume y: "y \<in> insert x P"
    show "length y = hashX_len" using y x(2) inv unfolding pass_inv_def by auto
    show "length (?T y) \<le> 65536" using y sp(3) inv unfolding pass_inv_def by auto
    show "int (length (?T y)) - 1 \<le> max_flush c'"
      using y mf inv unfolding pass_inv_def by force
  qed (use sp(4) mf(1) inv in \<open>auto simp: pass_inv_def\<close>)
qed

lemma take_mono: "a \<le> b \<Longrightarrow> take n a \<le> take n (b :: 'a::linorder list)"
proof (induction n arbitrary: a b)
  case (Suc n)
  then show ?case by (cases a; cases b) auto
qed simp

abbreviation hash_of :: "bytes \<times> bytes \<Rightarrow> bytes" where
  "hash_of kv \<equiv> butsuffix FLUSHID_LEN (fst kv)"

definition sorted_rows :: "(bytes \<times> bytes) list \<Rightarrow> bool" where
  "sorted_rows rows \<longleftrightarrow> sorted_wrt (<) (map fst rows) \<and>
     (\<forall>kv \<in> set rows. length (fst kv) = hashX_len + FLUSHID_LEN)"

lemma sorted_rows_hash:
  assumes "sorted_rows (a @ kv # b)" "kv' \<in> set b"
  shows "hash_of kv \<le> hash_of kv'"
proof -
  have "fst kv < fst kv'" "length (fst kv) = 13" "length (fst kv') = 13"
    using assms by (auto simp: sorted_rows_def sorted_wrt_append)
  then show ?thesis using take_mono [of "fst kv" "fst kv'" 11] by (simp add: butsuffix_def)
qed

lemma compact_rows_filter:
  "compact_rows me rows prior H c =
   compact_rows me (filter (\<lambda>kv. length (fst kv) = hashX_len + FLUSHID_LEN) rows) prior H c"
  by (induction me rows prior H c rule: compact_rows.induct)
    (auto simp: Let_def split: option.splits intro!: bindE_cong)

lemma compact_rows_inv:
  assumes "compact_rows me R (Some x) H c = Inr c'" "finite (dom m)" "pass_inv m me low P c"
    and "sorted_rows (H @ R)" "H \<noteq> []" "\<forall>kv \<in> set H. hash_of kv = x"
    and "\<forall>y \<in> hash_of ` set (H @ R). y \<notin> P \<and> items_of m y = filter (\<lambda>kv. hash_of kv = y) (H @ R)"
  shows "pass_inv m me low (P \<union> hash_of ` set (H @ R)) c'"
  using assms
proof (induction R arbitrary: x H c P)
  case Nil
  have hx: "hash_of ` set H = {x}" using Nil.prems(5,6) by (cases H) auto
  have len: "length x = hashX_len"
    using Nil.prems(4,5,6) by (cases H) (auto simp: sorted_rows_def butsuffix_def)
  have "x \<in> hash_of ` set (H @ [])" using hx by simp
  with Nil.prems(7) have "x \<notin> P" "items_of m x = filter (\<lambda>kv. hash_of kv = x) (H @ [])" by blast+
  moreover have "filter (\<lambda>kv. hash_of kv = x) (H @ []) = H" using Nil.prems(6) by simp
  ultimately have "pass_inv m me low (insert x P) c'"
    using pass_step [OF Nil.prems(3) _ len Nil.prems(2), of c'] Nil.prems(1) by simp
  then show ?case using hx by simp
next
  case (Cons kv R)
  obtain k v where kv: "kv = (k, v)" by fastforce
  have lk: "length k = hashX_len + FLUSHID_LEN" using Cons.prems(4) by (auto simp: sorted_rows_def kv)
  show ?case
  proof (cases "hash_of kv = x")
    case True
    then have "compact_rows me R (Some x) (H @ [kv]) c = Inr c'"
      using Cons.prems(1) lk by (simp add: kv)
    from Cons.IH [OF this Cons.prems(2,3)] show ?thesis using Cons.prems True by simp
  next
    case False
    let ?y = "hash_of kv"
    obtain d where d: "compact_hashX me x H c = Inr d" and r: "compact_rows me R (Some ?y) [kv] d = Inr c'"
      using Cons.prems(1) lk False by (auto simp: kv bindE_Inr_iff)
    have hx: "hash_of ` set H = {x}" using Cons.prems(5,6) by (cases H) auto
    have len: "length x = hashX_len"
      using Cons.prems(4,5,6) by (cases H) (auto simp: sorted_rows_def butsuffix_def)
    have gt: "x < hash_of e" if e: "e \<in> set (kv # R)" for e
    proof -
      obtain h H' where H: "H = h # H'" using Cons.prems(5) by (cases H) auto
      then have "hash_of h = x" using Cons.prems(6) by simp
      then have "x \<le> ?y" using sorted_rows_hash [of "[]" h "H' @ kv # R" kv] Cons.prems(4) H by simp
      moreover have "?y \<le> hash_of e" using sorted_rows_hash [of H kv R e] Cons.prems(4) e by auto
      ultimately show ?thesis using False by order
    qed
    have "filter (\<lambda>kv. hash_of kv = x) (H @ kv # R) = H"
      using gt Cons.prems(6) False by (force simp: filter_empty_conv intro!: filter_True)
    moreover have "x \<in> hash_of ` set (H @ kv # R)" using hx by auto
    ultimately have x: "x \<notin> P" "items_of m x = H" using Cons.prems(7) by metis+
    have inv: "pass_inv m me low (insert x P) d"
      using pass_step [OF Cons.prems(3) x(1) len Cons.prems(2), of d] d x(2) by simp
    have "\<forall>y \<in> hash_of ` set ([kv] @ R). y \<notin> insert x P \<and>
        items_of m y = filter (\<lambda>kv. hash_of kv = y) ([kv] @ R)"
    proof
      fix y assume y: "y \<in> hash_of ` set ([kv] @ R)"
      then obtain e where "e \<in> set (kv # R)" "y = hash_of e"
        unfolding append_Cons append_Nil by (rule imageE)
      then have "x < y" using gt by blast
      then have "filter (\<lambda>kv. hash_of kv = y) H = []" using Cons.prems(6) by (auto simp: filter_empty_conv)
      moreover have "y \<in> hash_of ` set (H @ kv # R)" using y by auto
      note bspec [OF Cons.prems(7) this]
      ultimately show "y \<notin> insert x P \<and> items_of m y = filter (\<lambda>kv. hash_of kv = y) ([kv] @ R)"
        using \<open>x < y\<close> by simp
    qed
    moreover have "sorted_rows ([kv] @ R)"
      using Cons.prems(4) by (auto simp: sorted_rows_def sorted_wrt_append)
    ultimately have "pass_inv m me low (insert x P \<union> hash_of ` set ([kv] @ R)) c'"
      using Cons.IH [OF r Cons.prems(2) inv] by simp
    moreover have "insert x P \<union> hash_of ` set ([kv] @ R) = P \<union> hash_of ` set (H @ kv # R)"
      using hx by auto
    ultimately show ?thesis by simp
  qed
qed

lemma prefix_hash_of:
  assumes "length k = hashX_len + FLUSHID_LEN" "length y = hashX_len"
  shows "prefix y k \<longleftrightarrow> butsuffix FLUSHID_LEN k = y"
  using assms take_is_prefix [of hashX_len k] by (auto simp: butsuffix_def prefix_def)

text \<open>The histories whose \<open>hashX\<close> starts with the two bytes of the cursor.\<close>

definition prefix_code :: "bytes \<Rightarrow> int" where
  "prefix_code x = int (be_decode (take 2 x))"

definition stored :: "contents \<Rightarrow> bytes set" where
  "stored m = {x. length x = hashX_len \<and> items_of m x \<noteq> []}"

lemma items_group:
  assumes ok: "hist_ok m fc" and y: "length y = hashX_len" "prefix p y"
  shows "items_of m y =
    filter (\<lambda>kv. hash_of kv = y) (filter (\<lambda>kv. length (fst kv) = hashX_len + FLUSHID_LEN) (items_of m p))"
proof -
  have fin: "finite (dom m)" using ok by (simp add: hist_ok_def)
  have "prefix y k \<longleftrightarrow> length k = hashX_len + FLUSHID_LEN \<and> butsuffix FLUSHID_LEN k = y"
    if "(k, v) \<in> set (items_of m p)" for k v
  proof -
    have "length k = hashX_len + FLUSHID_LEN" if "prefix y k"
      using row_of_prefix(1) [OF ok y(1) _ that] \<open>(k, v) \<in> _\<close> fin by (simp add: items_of_iff row_ok_def)
    then show ?thesis using prefix_hash_of [OF _ y(1), of k] by blast
  qed
  then have "filter (\<lambda>(k, v). prefix y k) (items_of m p) =
      filter (\<lambda>kv. hash_of kv = y) (filter (\<lambda>kv. length (fst kv) = hashX_len + FLUSHID_LEN) (items_of m p))"
    unfolding filter_filter by (intro filter_cong) auto
  then show ?thesis using items_of_filter [OF fin y(2)] by simp
qed

lemma compact_prefix_inv:
  assumes c': "compact_prefix E h p c = Inr c'" and st: "storage E"
    and ok: "hist_ok (db_get E (hdb h)) fc" and p: "length p = 2"
    and inv: "pass_inv (db_get E (hdb h)) (max_hist_row_entries h) low P c"
    and P: "\<forall>x \<in> P. take 2 x \<noteq> p"
  shows "pass_inv (db_get E (hdb h)) (max_hist_row_entries h) low
    (P \<union> {x \<in> stored (db_get E (hdb h)). take 2 x = p}) c'"
proof -
  let ?m = "db_get E (hdb h)"
  let ?me = "max_hist_row_entries h"
  let ?R = "filter (\<lambda>kv. length (fst kv) = hashX_len + FLUSHID_LEN) (items_of ?m p)"
  have fin: "finite (dom ?m)" using ok by (simp add: hist_ok_def)
  have run: "compact_rows ?me ?R None [] c = Inr c'"
    using c' by (simp add: compact_prefix_def storage.iterator_eq [OF st] compact_rows_filter [of _ "items_of ?m p"])
  have mem: "(k, v) \<in> set ?R \<longleftrightarrow> ?m k = Some v \<and> prefix p k \<and> length k = 13" for k v
    using fin by (auto simp: items_of_iff)
  have group: "items_of ?m y = filter (\<lambda>kv. hash_of kv = y) ?R" if y: "length y = hashX_len" "prefix p y" for y
    by (rule items_group [OF ok y])
  have hash: "length (hash_of kv) = hashX_len \<and> take 2 (hash_of kv) = p \<and> prefix p (hash_of kv)" if "kv \<in> set ?R" for kv
  proof -
    obtain k v where "kv = (k, v)" by fastforce
    with that mem [of k v] p show ?thesis by (auto simp: butsuffix_def prefix_def)
  qed
  have all: "hash_of ` set ?R = {x \<in> stored ?m. take 2 x = p}"
  proof (intro equalityI subsetI)
    fix y assume y: "y \<in> hash_of ` set ?R"
    then have "length y = hashX_len" "take 2 y = p" "prefix p y" using hash by auto
    moreover have "filter (\<lambda>kv. hash_of kv = y) ?R \<noteq> []" using y by (auto simp: filter_empty_conv)
    ultimately show "y \<in> {x \<in> stored ?m. take 2 x = p}" using group by (simp add: stored_def)
  next
    fix y assume "y \<in> {x \<in> stored ?m. take 2 x = p}"
    then have y: "length y = hashX_len" "items_of ?m y \<noteq> []" "take 2 y = p" by (auto simp: stored_def)
    then have "prefix p y" by (metis take_is_prefix)
    with y group have "filter (\<lambda>kv. hash_of kv = y) ?R \<noteq> []" by simp
    then show "y \<in> hash_of ` set ?R" by (auto simp: filter_empty_conv)
  qed
  show ?thesis
  proof (cases ?R)
    case Nil
    have e: "{x \<in> stored ?m. take 2 x = p} = {}" using all unfolding Nil by simp
    have "c' = c" using run unfolding Nil by simp
    then show ?thesis using inv unfolding e by simp
  next
    case (Cons kv R)
    obtain k v where kv: "kv = (k, v)" by fastforce
    have "(k, v) \<in> set ?R" unfolding Cons kv by simp
    then have "length k = hashX_len + FLUSHID_LEN" using mem [of k v] by simp
    then have r: "compact_rows ?me R (Some (hash_of kv)) [kv] c = Inr c'"
      using run unfolding Cons kv by simp
    have "sorted_rows ?R"
      using sorted_keys_of [of ?m p] mem
      by (auto simp: sorted_rows_def sorted_wrt_map sorted_wrt_filter items_of_def)
    then have s: "sorted_rows ([kv] @ R)" unfolding Cons by simp
    have g: "\<forall>y \<in> hash_of ` set ([kv] @ R). y \<notin> P \<and> items_of ?m y = filter (\<lambda>kv. hash_of kv = y) ([kv] @ R)"
    proof
      fix y assume "y \<in> hash_of ` set ([kv] @ R)"
      then have "y \<in> hash_of ` set ?R" unfolding Cons by simp
      then have "length y = hashX_len" "take 2 y = p" "prefix p y" using hash by auto
      then have "y \<notin> P" "items_of ?m y = filter (\<lambda>kv. hash_of kv = y) ?R" using P group by blast+
      then show "y \<notin> P \<and> items_of ?m y = filter (\<lambda>kv. hash_of kv = y) ([kv] @ R)" unfolding Cons by simp
    qed
    have "pass_inv ?m ?me low (P \<union> hash_of ` set ([kv] @ R)) c'"
      by (rule compact_rows_inv [OF r fin inv s _ _ g]) simp_all
    moreover have "hash_of ` set ([kv] @ R) = {x \<in> stored ?m. take 2 x = p}"
      using all unfolding Cons by simp
    ultimately show ?thesis by metis
  qed
qed

lemma compact_loop_inv:
  assumes "compact_loop E h limit cursor c = Inr (cur, c')" "storage E"
    and "hist_ok (db_get E (hdb h)) fc" "0 \<le> cursor"
    and "pass_inv (db_get E (hdb h)) (max_hist_row_entries h) low P c"
    and "P = {x \<in> stored (db_get E (hdb h)). start \<le> prefix_code x \<and> prefix_code x < cursor}" "start \<le> cursor"
  shows "cursor \<le> cur \<and> (cursor \<le> 65536 \<longrightarrow> cur \<le> 65536) \<and>
    pass_inv (db_get E (hdb h)) (max_hist_row_entries h) low
      {x \<in> stored (db_get E (hdb h)). start \<le> prefix_code x \<and> prefix_code x < cur} c'"
  using assms
proof (induction E h limit cursor c arbitrary: P rule: compact_loop.induct)
  case (1 E h limit cursor c)
  let ?m = "db_get E (hdb h)"
  show ?case
  proof (cases "write_size c < limit \<and> cursor < 65536")
    case False
    then have "c' = c" "cur = cursor" using 1(2) unfolding compact_loop.simps [of E] if_not_P [OF False] by simp_all
    then show ?thesis using 1(6,7) by simp
  next
    case True
    obtain p d where p: "pack_be_uint16 cursor = Inr p" and d: "compact_prefix E h p c = Inr d"
      and r: "compact_loop E h limit (cursor + 1) d = Inr (cur, c')"
      using 1(2) True by (subst (asm) compact_loop.simps) (auto simp: bindE_Inr_iff)
    note pp = be_encode_2 [OF p]
    have code: "take 2 x = p \<longleftrightarrow> prefix_code x = cursor" if "length x = hashX_len" for x
      using that pp(1,2) by (auto simp: prefix_code_def intro: be_decode_inj)
    have ne: "\<forall>x \<in> P. take 2 x \<noteq> p" using 1(7) code by (auto simp: stored_def)
    note inv = compact_prefix_inv [OF d 1(3,4) pp(1) 1(6) ne]
    have "P \<union> {x \<in> stored ?m. take 2 x = p} = {x \<in> stored ?m. start \<le> prefix_code x \<and> prefix_code x < cursor + 1}"
      unfolding 1(7) using code 1(8) by (auto simp: stored_def)
    from 1(1) [OF True p d r 1(3,4) _ inv this] 1(5,8) True show ?thesis by auto
  qed
qed

definition cursor_ok :: "'db engine \<Rightarrow> 'db history \<Rightarrow> bool" where
  "cursor_ok E h \<longleftrightarrow>
     0 \<le> comp_cursor h \<and> comp_cursor h \<le> 65535 \<and> 0 \<le> comp_flush_count h \<and> 0 < max_hist_row_entries h \<and>
     finite (dom (db_get E (hdb h))) \<and>
     (\<forall>k v. db_get E (hdb h) k = Some v \<longrightarrow> k = STATE_KEY \<or>
        row_ok (if prefix_code k < comp_cursor h then comp_flush_count h else flush_count h) k v)"

lemma chunks_whole:
  assumes "0 < k" "length xs mod TXNUM_LEN = 0" "c \<in> set (chunks xs (k * TXNUM_LEN))"
  shows "c \<noteq> [] \<and> length c mod TXNUM_LEN = 0"
  using assms
proof (induction xs "k * TXNUM_LEN" rule: chunks.induct)
  case (1 xs)
  have ne: "xs \<noteq> []" using 1(4) by auto
  then have s: "chunks xs (k * TXNUM_LEN) = take (k * TXNUM_LEN) xs # chunks (drop (k * TXNUM_LEN) xs) (k * TXNUM_LEN)"
    using 1(2) by (simp add: chunks_step)
  have "length (take (k * TXNUM_LEN) xs) mod TXNUM_LEN = 0" using 1(3) by (simp add: min_def)
  moreover have "length (drop (k * TXNUM_LEN) xs) mod TXNUM_LEN = 0"
    using 1(3) by (cases "k * TXNUM_LEN \<le> length xs") (auto simp: mod_diff_right_eq dvd_imp_mod_0 mod_eq_0_iff_dvd)
  ultimately show ?case using 1 ne s by auto
qed

lemma prefix_code_less: "prefix_code k < 65536"
  using be_decode_bound [of "take 2 k"] power_increasing [of "length (take 2 k)" 2 "256 :: nat"]
  by (simp add: prefix_code_def)

lemma compaction_pass_run:
  assumes st: "storage E" and ok: "cursor_ok E h" and run: "compact_history E limit h = Inr (n, h')"
  defines "m \<equiv> db_get E (hdb h)"
  obtains cur c st' where
    "h' = flush_compaction E cur (write_items c) (keys_to_delete c) (h\<lparr>comp_flush_count := max_flush c\<rparr>)"
    "comp_cursor h \<le> cur" "cur \<le> 65536" "hist_ok m (max (comp_flush_count h) (flush_count h))"
    "pass_inv m (max_hist_row_entries h) (comp_flush_count h)
       {x \<in> stored m. comp_cursor h \<le> prefix_code x \<and> prefix_code x < cur} c"
    "db_get E (hdb h') = (effect c m)(STATE_KEY \<mapsto> st')"
proof -
  let ?fc = "max (comp_flush_count h) (flush_count h)"
  note okd = ok [unfolded cursor_ok_def, folded m_def]
  have ok0: "hist_ok m ?fc"
    unfolding hist_ok_def
  proof (intro conjI allI impI)
    show "finite (dom m)" using okd by simp
    fix k v assume "m k = Some v"
    then have "k = STATE_KEY \<or> row_ok (if prefix_code k < comp_cursor h then comp_flush_count h else flush_count h) k v"
      using okd by blast
    then show "k = STATE_KEY \<or> row_ok ?fc k v" by (auto simp: row_ok_def split: if_splits)
  qed
  let ?c0 = "\<lparr>write_items = [], keys_to_delete = [], write_size = 0, max_flush = comp_flush_count h\<rparr>"
  obtain cur c where loop: "compact_loop E h limit (comp_cursor h) ?c0 = Inr (cur, c)"
    and h': "h' = flush_compaction E cur (write_items c) (keys_to_delete c) (h\<lparr>comp_flush_count := max_flush c\<rparr>)"
    using run by (auto simp: compact_history_def bindE_Inr_iff)
  have p0: "pass_inv m (max_hist_row_entries h) (comp_flush_count h) {} ?c0" by (simp add: pass_inv_def comp_touched_def)
  have e0: "{} = {x \<in> stored m. comp_cursor h \<le> prefix_code x \<and> prefix_code x < comp_cursor h}" by auto
  note inv = compact_loop_inv [OF loop st ok0 [unfolded m_def] _ p0 [unfolded m_def] e0 [unfolded m_def] order_refl, folded m_def]
  obtain st' where m': "db_get E (hdb h') = (effect c m)(STATE_KEY \<mapsto> st')"
    unfolding h' flush_compaction_def Let_def m_def
    by (cases "cur = 65536") (simp_all add: storage.get_write [OF st] write_state_def effect_def)
  show thesis by (rule that [OF h' _ _ ok0 _ m']) (use inv okd in simp_all)
qed

lemma pass_inv_length:
  assumes "pass_inv m me low P c" "x \<in> P"
  shows "length (chunks (hist_bytes m x) (me * TXNUM_LEN)) \<le> 65536"
    and "int (length (chunks (hist_bytes m x) (me * TXNUM_LEN))) - 1 \<le> max_flush c"
  using assms unfolding pass_inv_def by (metis compact_target_def length_map map_snd_numbered)+

text \<open>The rows after the batch of a pass: of each compacted history the chunks of its bytes, of the others what they
  were.\<close>

lemma pass_items:
  assumes inv: "pass_inv m me low P c" and fin: "finite (dom ((effect c m)(STATE_KEY \<mapsto> st')))" and x: "length x = hashX_len"
  shows "items_of ((effect c m)(STATE_KEY \<mapsto> st')) x =
    (if x \<in> P then compact_target me x (hist_bytes m x) else items_of m x)"
proof (cases "x \<in> P")
  case True
  let ?T = "compact_target me x (hist_bytes m x)"
  note len = pass_inv_length [OF inv True]
  have "items_of ((effect c m)(STATE_KEY \<mapsto> st')) x = ?T"
  proof (rule items_of_eqI [OF fin])
    show s: "sorted_wrt (<) (map fst ?T)"
      unfolding compact_target_def by (rule numbered_sorted) (use len in simp)
    fix k v
    have "prefix x k" if "(k, v) \<in> set ?T"
      using numbered_keys [of 0, OF _ that [unfolded compact_target_def]] len by auto
    moreover have "k \<noteq> STATE_KEY" if "prefix x k" using that x by auto
    moreover have "(k, v) \<in> set ?T \<longleftrightarrow> map_of ?T k = Some v" using s by (simp add: strict_sorted_iff)
    ultimately show "(k, v) \<in> set ?T \<longleftrightarrow> ((effect c m)(STATE_KEY \<mapsto> st')) k = Some v \<and> prefix x k"
      using inv True unfolding pass_inv_def by auto
  qed
  with True show ?thesis by simp
next
  case False
  have "items_of ((effect c m)(STATE_KEY \<mapsto> st')) x = items_of m x"
  proof (rule items_of_cong)
    fix k assume p: "prefix x k"
    then have "\<not> prefix y k" if "y \<in> P" for y
      using that x inv prefix_both [OF p, of y] False unfolding pass_inv_def by metis
    then have "effect c m k = m k" using inv unfolding pass_inv_def by (intro untouched_effect) blast
    moreover have "k \<noteq> STATE_KEY" using p x by auto
    ultimately show "((effect c m)(STATE_KEY \<mapsto> st')) k = m k" by simp
  qed
  with False show ?thesis by simp
qed

lemma compaction_pass_rows:
  assumes st: "storage E" and ok: "cursor_ok E h" and run: "compact_history E limit h = Inr (n, h')" and x: "length x = hashX_len"
  shows "items_of (db_get E (hdb h')) x =
      (if comp_cursor h \<le> prefix_code x \<and> (comp_cursor h' = -1 \<or> prefix_code x < comp_cursor h')
       then compact_target (max_hist_row_entries h) x (hist_bytes (db_get E (hdb h)) x)
       else items_of (db_get E (hdb h)) x)"
proof -
  let ?m = "db_get E (hdb h)"
  obtain cur c st' where h': "h' = flush_compaction E cur (write_items c) (keys_to_delete c) (h\<lparr>comp_flush_count := max_flush c\<rparr>)"
    and inv: "pass_inv ?m (max_hist_row_entries h) (comp_flush_count h)
       {x \<in> stored ?m. comp_cursor h \<le> prefix_code x \<and> prefix_code x < cur} c"
    and m': "db_get E (hdb h') = (effect c ?m)(STATE_KEY \<mapsto> st')"
    and cur: "comp_cursor h \<le> cur" "cur \<le> 65536"
    using compaction_pass_run [OF st ok run] by blast
  have "0 \<le> cur" using ok cur by (simp add: cursor_ok_def)
  then have low: "prefix_code x < cur \<longleftrightarrow> comp_cursor h' = -1 \<or> prefix_code x < comp_cursor h'"
    using prefix_code_less [of x] by (auto simp: h' flush_compaction_def Let_def)
  have none: "compact_target me x (hist_bytes ?m x) = items_of ?m x" if "x \<notin> stored ?m" for me
    using that x by (simp add: stored_def compact_target_def hist_bytes_def)
  show ?thesis
    unfolding m' pass_items [OF inv storage.finite_contents [OF st, of "hdb h'", unfolded m'] x]
    using none low by auto
qed

lemma compaction_pass:
  assumes st: "storage E" and ok: "cursor_ok E h" and run: "compact_history E limit h = Inr (n, h')"
  shows "(\<forall>x. length x = hashX_len \<longrightarrow> hist_bytes (db_get E (hdb h')) x = hist_bytes (db_get E (hdb h)) x \<and>
       db_nums (db_get E (hdb h')) x = db_nums (db_get E (hdb h)) x) \<and>
     (if comp_cursor h' = -1 then hist_ok (db_get E (hdb h')) (flush_count h')
      else cursor_ok E h' \<and> comp_cursor h \<le> comp_cursor h')"
proof -
  let ?m = "db_get E (hdb h)" and ?me = "max_hist_row_entries h" and ?m' = "db_get E (hdb h')"
  note okd = ok [unfolded cursor_ok_def]
  have fin: "finite (dom ?m)" using okd by simp
  obtain cur c st' where h': "h' = flush_compaction E cur (write_items c) (keys_to_delete c) (h\<lparr>comp_flush_count := max_flush c\<rparr>)"
    and cur: "comp_cursor h \<le> cur" "cur \<le> 65536" and ok0: "hist_ok ?m (max (comp_flush_count h) (flush_count h))"
    and pass: "pass_inv ?m ?me (comp_flush_count h)
       {x \<in> stored ?m. comp_cursor h \<le> prefix_code x \<and> prefix_code x < cur} c"
    and m': "?m' = (effect c ?m)(STATE_KEY \<mapsto> st')"
    using compaction_pass_run [OF st ok run] by blast
  define P where "P = {x \<in> stored ?m. comp_cursor h \<le> prefix_code x \<and> prefix_code x < cur}"
  note pass = pass [folded P_def]
  note inv = pass [unfolded pass_inv_def]
  have whole: "length (hist_bytes ?m x) mod TXNUM_LEN = 0" if "length x = hashX_len" for x
    unfolding hist_bytes_def by (rule whole_concat) (use items_whole [OF ok0 that] in auto)
  let ?T = "\<lambda>x. compact_target ?me x (hist_bytes ?m x)"
  have items: "items_of ?m' x = (if x \<in> P then ?T x else items_of ?m x)" if "length x = hashX_len" for x
    unfolding m' by (rule pass_items [OF pass storage.finite_contents [OF st, of "hdb h'", unfolded m'] that])
  have hb: "hist_bytes ?m' x = hist_bytes ?m x" if x: "length x = hashX_len" for x
  proof (cases "x \<in> P")
    case True
    then have "0 < ?me" using inv by auto
    then show ?thesis
      unfolding hist_bytes_def [of ?m'] using True x by (simp add: items compact_target_def concat_chunks)
  qed (simp add: hist_bytes_def items x)
  then have dn: "db_nums ?m' x = db_nums ?m x" if "length x = hashX_len" for x
    using that by (simp add: db_nums_def hist_bytes_def)
  have rows: "row_ok (if prefix_code k < cur then max_flush c else flush_count h) k v"
    if kv: "?m' k = Some v" "k \<noteq> STATE_KEY" for k v
  proof (cases "\<exists>x \<in> P. prefix x k")
    case True
    then obtain x where x: "x \<in> P" "prefix x k" by blast
    then have lx: "length x = hashX_len" using inv by blast
    have "(k, v) \<in> set (?T x)"
      using items [OF lx] kv(1) x items_of_iff [OF storage.finite_contents [OF st], of k v "hdb h'" x] by simp
    moreover note len = pass_inv_length(1) [OF pass x(1)] and mf = pass_inv_length(2) [OF pass x(1)]
    ultimately obtain i where i: "i < length (chunks (hist_bytes ?m x) (?me * TXNUM_LEN))"
      "k = x @ be_encode 2 i" "v \<in> set (chunks (hist_bytes ?m x) (?me * TXNUM_LEN))"
      using numbered_keys [of 0 _ k v x] by (auto simp: compact_target_def)
    have "v \<noteq> [] \<and> length v mod TXNUM_LEN = 0"
      by (rule chunks_whole [OF _ whole [OF lx] i(3)]) (use okd in simp)
    moreover have "be_decode (be_encode 2 i) = i" using i(1) len by simp
    moreover have "prefix_code k = prefix_code x" using i(2) lx by (simp add: prefix_code_def)
    ultimately show ?thesis
      using i(1,2) mf lx x(1) by (auto simp: row_ok_def slice_simps P_def)
  next
    case False
    then have "effect c ?m k = ?m k" using inv by (intro untouched_effect) blast
    then have mk: "?m k = Some v" using kv by (simp add: m')
    then have r: "row_ok (if prefix_code k < comp_cursor h then comp_flush_count h else flush_count h) k v"
      using okd kv(2) by blast
    then have lk: "length k = 13" by (simp add: row_ok_def)
    let ?x = "take 11 k"
    have px: "prefix ?x k" by (rule take_is_prefix)
    have "(k, v) \<in> set (items_of ?m ?x)" using mk px fin by (simp add: items_of_iff)
    then have "?x \<in> stored ?m" using lk by (auto simp: stored_def)
    moreover have "prefix_code ?x = prefix_code k" by (simp add: prefix_code_def)
    ultimately have "\<not> (comp_cursor h \<le> prefix_code k \<and> prefix_code k < cur)"
      using False px by (auto simp: P_def)
    moreover have "comp_flush_count h \<le> max_flush c" using inv by simp
    ultimately show ?thesis using r cur by (auto simp: row_ok_def)
  qed
  note code = prefix_code_less
  show ?thesis
  proof (cases "cur = 65536")
    case True
    then have "comp_cursor h' = -1" "flush_count h' = max_flush c"
      by (simp_all add: h' flush_compaction_def Let_def)
    moreover have "hist_ok ?m' (max_flush c)"
      using rows code storage.finite_contents [OF st] True unfolding hist_ok_def by (metis (full_types))
    ultimately show ?thesis using hb dn by simp
  next
    case False
    then have f: "comp_cursor h' = cur" "flush_count h' = flush_count h" "comp_flush_count h' = max_flush c"
      "max_hist_row_entries h' = ?me"
      by (simp_all add: h' flush_compaction_def Let_def)
    have "comp_flush_count h \<le> max_flush c" using inv by blast
    moreover have "k = STATE_KEY \<or> row_ok (if prefix_code k < cur then max_flush c else flush_count h) k v"
      if "?m' k = Some v" for k v using rows that by blast
    ultimately have "cursor_ok E h'"
      unfolding cursor_ok_def f using cur False okd storage.finite_contents [OF st] by simp
    then show ?thesis using hb dn f cur okd by simp
  qed
qed

text \<open>C23: one pass of compaction, however it ends, leaves every history exactly as it was, byte for
  byte; it keeps the rows consistent with the recorded progress, so that the next pass can continue,
  and when it finishes the whole database is consistent with its new flush count.\<close>

theorem compaction_preserves:
  assumes st: "storage E" and ok: "cursor_ok E h" and run: "compact_history E limit h = Inr (n, h')"
  shows "(\<forall>x. length x = hashX_len \<longrightarrow> hist_bytes (db_get E (hdb h')) x = hist_bytes (db_get E (hdb h)) x \<and>
       db_nums (db_get E (hdb h')) x = db_nums (db_get E (hdb h)) x) \<and>
     (if comp_cursor h' = -1 then hist_ok (db_get E (hdb h')) (flush_count h')
      else cursor_ok E h' \<and> comp_cursor h \<le> comp_cursor h')"
  by (rule compaction_pass [OF st ok run])

theorem compaction_preserves_witness:
  "\<exists>n h'. compact_history rbt_engine 1
      ((new_history (RBT.insert (replicate 11 255 @ [0, 2]) [9,0,0,0,0]
          (RBT.insert (replicate 11 255 @ [0, 1]) [5,0,0,0,0] RBT.empty)))
        \<lparr>flush_count := 2, comp_flush_count := 1, comp_cursor := 65535\<rparr>) = Inr (n, h') \<and>
      hist_bytes (db_get rbt_engine (hdb h')) (replicate 11 255) = [5,0,0,0,0, 9,0,0,0,0]"
proof -
  define x where "x = (replicate 11 255 :: bytes)"
  have x: "length x = hashX_len" "take 2 x = [255, 255]" "x \<noteq> []" "prefix [255, 255] (x @ y)" for y
    by (simp_all add: x_def numeral_eq_Suc)
  let ?r1 = "(x @ [0, 1], [5,0,0,0,0]) :: bytes \<times> bytes" and ?r2 = "(x @ [0, 2], [9,0,0,0,0]) :: bytes \<times> bytes"
  define db where "db = RBT.insert (fst ?r2) (snd ?r2) (RBT.insert (fst ?r1) (snd ?r1) RBT.empty)"
  let ?h = "(new_history db)\<lparr>flush_count := 2, comp_flush_count := 1, comp_cursor := 65535\<rparr>"
  have m: "db_get rbt_engine db = [fst ?r1 \<mapsto> snd ?r1, fst ?r2 \<mapsto> snd ?r2]"
    by (simp only: rbt_engine_def db_def engine.select_convs RBT.lookup_insert RBT.lookup_empty)
  have dec: "be_decode [0, 1] = 1" "be_decode [0, 2] = 2" "be_decode [255, 255] = 65535"
    by (simp_all add: be_decode_def)
  have enc: "be_encode 2 65535 = [255, 255]" "be_encode 2 0 = [0, 0]"
    by (simp_all add: be_encode_def numeral_2_eq_2)
  have items: "items_of (db_get rbt_engine db) p = [?r1, ?r2]" if "p = [255, 255] \<or> p = x" for p
  proof (rule items_of_eqI)
    have p: "prefix p (x @ y)" for y using that x(4) by auto
    show "((k, v) \<in> set [?r1, ?r2]) = (db_get rbt_engine db k = Some v \<and> prefix p k)" for k v
      using p by (auto simp: m)
  qed (simp_all add: m append_less_same)
  have ok: "cursor_ok rbt_engine ?h"
    unfolding cursor_ok_def
    by (auto simp: new_history_def row_ok_def slice_simps dec prefix_code_def m x split: if_splits)
  have ch: "chunks ([5,0,0,0,0, 9,0,0,0,0] :: bytes) 62500 = [[5,0,0,0,0, 9,0,0,0,0]]"
    by (simp add: chunks.simps)
  have bs: "butsuffix 2 (x @ [a, b]) = x" for a b by (simp add: slice_simps)
  have "\<exists>n h'. compact_history rbt_engine 1 ?h = Inr (n, h')"
    using items [of "[255, 255]"] enc ch x(1) bs
    by (simp add: compact_history_def compact_loop.simps [of _ _ _ 65535] compact_loop.simps [of _ _ _ 65536]
        pack_be_uint16_def pack_be_unsigned_def compact_prefix_def rbt_storage.iterator_eq
        compact_hashX_def Let_def new_history_def)
  then obtain n h' where run: "compact_history rbt_engine 1 ?h = Inr (n, h')" by blast
  have "hist_bytes (db_get rbt_engine db) x = [5,0,0,0,0, 9,0,0,0,0]"
    using items [of x] by (simp add: hist_bytes_def)
  then have "hist_bytes (db_get rbt_engine (hdb h')) x = [5,0,0,0,0, 9,0,0,0,0]"
    using compaction_preserves [OF rbt_storage.storage_axioms ok run] x(1) by (simp add: new_history_def)
  with run show ?thesis unfolding db_def x_def by auto
qed

end
