(* ===== verification/ChainDB.thy ===== *)
theory ChainDB
  imports HistoryDB LogicalFiles MerkleCaching
begin

section \<open>The chain database (server/db.py)\<close>

text \<open>
  The record \<open>chain_db\<close> is the object \<open>DB\<close>: the UTXO store and the history in the engine \<open>E\<close>, the
  flat files of headers, transaction counts and transaction hashes, the Merkle cache of the headers,
  and the heights and counts up to which the files (\<open>fs_\<close>) and the store (\<open>db_\<close>) are written.
  \<open>chain_env\<close> holds what the class takes from the coin and the environment.  Raw blocks are a
  dictionary from heights to contents.

  The fields of \<open>FlushData\<close> are the lists and dictionaries of the block processor itself, which the
  flush clears: the flush operations here return the flush data with what they cleared.  The clock is
  a parameter (\<open>now\<close>): a float, given as the text of its \<open>repr\<close>.  Floating point is not modelled: the fields
  \<open>clock_add\<close> and \<open>clock_sub\<close> are Python's \<open>+\<close> and \<open>-\<close> on two numbers of which one may be a float.  The statistics
  that are only logged are left out.
  \<open>await run_in_thread(f)\<close> is the call of \<open>f\<close>.  The two readers that wait and retry when a reorg
  is in progress give \<open>None\<close> for an attempt that must be repeated.
\<close>

abbreviation "COMP_TXID_LEN \<equiv> 4 :: nat"

record chain_env =
  static_headers :: bool
  static_header_offset :: "int \<Rightarrow> nat"
  static_header_len :: "int \<Rightarrow> nat"
  header_hash :: "bytes \<Rightarrow> bytes"
  genesis_hash :: string
  clock_add :: "scalar \<Rightarrow> scalar \<Rightarrow> scalar"
  clock_sub :: "scalar \<Rightarrow> scalar \<Rightarrow> scalar"
  reorg_limit :: int

record flush_data =
  fl_height :: int
  fl_tx_count :: nat
  fl_headers :: "bytes list"
  fl_block_tx_hashes :: "bytes list"
  fl_undo_infos :: "(bytes list \<times> int) list"
  fl_adds :: "(bytes \<times> bytes) list"
  fl_deletes :: "bytes list"
  fl_tip :: bytes

record 'db chain_db =
  utxo_db :: 'db
  hist :: "'db history"
  header_mc :: merkle_cache
  utxo_flush_count :: int
  fs_height :: int
  fs_tx_count :: nat
  db_height :: int
  db_tx_count :: nat
  db_tip :: bytes
  tx_counts :: "nat list"
  last_flush :: scalar
  last_flush_tx_count :: nat
  wall_time :: scalar
  first_sync :: bool
  db_ver :: int
  headers_file :: logical_file
  tx_counts_file :: logical_file
  hashes_file :: logical_file
  headers_offsets_file :: logical_file
  raw_blocks :: "(int \<times> bytes) list"

text \<open>\<open>xs[i]\<close> with Python's negative indices, \<open>array('Q', b)\<close> and \<open>array.tobytes()\<close>.\<close>

definition py_nth :: "'a list \<Rightarrow> int \<Rightarrow> exn + 'a" where
  "py_nth xs i =
     (if 0 \<le> i \<and> i < int (length xs) then Inr (xs ! nat i)
      else if i < 0 \<and> - int (length xs) \<le> i then Inr (xs ! nat (int (length xs) + i))
      else Inl IndexError)"

definition uint_array :: "nat \<Rightarrow> bytes \<Rightarrow> exn + nat list" where
  "uint_array k b = (if length b mod k = 0 then Inr (map le_decode (chunks b k)) else Inl ValueError)"

definition array_bytes :: "nat list \<Rightarrow> bytes" where
  "array_bytes ns = concat (map (le_encode 8) ns)"

subsection \<open>State\<close>

definition UTXO_STATE_KEY :: bytes where "UTXO_STATE_KEY = encode ''state''"

definition utxo_state_dict :: "chain_env \<Rightarrow> 'db chain_db \<Rightarrow> py_dict" where
  "utxo_state_dict C d =
     [(''genesis'', SStr (genesis_hash C)), (''height'', SInt (db_height d)),
      (''tx_count'', SInt (int (db_tx_count d))), (''tip'', SBytes (db_tip d)),
      (''utxo_flush_count'', SInt (utxo_flush_count d)), (''wall_time'', wall_time d),
      (''first_sync'', SBool (first_sync d)), (''db_version'', SInt (db_ver d))]"

definition write_utxo_state :: "chain_env \<Rightarrow> 'db chain_db \<Rightarrow> batch_op" where
  "write_utxo_state C d = Put UTXO_STATE_KEY (encode (repr_dict (utxo_state_dict C d)))"

definition set_flush_count :: "'db engine \<Rightarrow> chain_env \<Rightarrow> int \<Rightarrow> 'db chain_db \<Rightarrow> 'db chain_db" where
  "set_flush_count E C count d =
     (let d = d\<lparr>utxo_flush_count := count\<rparr>
      in d\<lparr>utxo_db := db_write E (utxo_db d) [write_utxo_state C d]\<rparr>)"

definition dict_value :: "py_dict \<Rightarrow> string \<Rightarrow> exn + scalar" where
  "dict_value state k = (case map_of state k of None \<Rightarrow> Inl KeyError | Some v \<Rightarrow> Inr v)"

definition dict_bytes :: "py_dict \<Rightarrow> string \<Rightarrow> exn + bytes" where
  "dict_bytes state k =
     (case map_of state k of None \<Rightarrow> Inl KeyError | Some (SBytes b) \<Rightarrow> Inr b | Some _ \<Rightarrow> Inl TypeError)"

definition dict_bool :: "py_dict \<Rightarrow> string \<Rightarrow> exn + bool" where
  "dict_bool state k =
     (case map_of state k of None \<Rightarrow> Inl KeyError | Some (SBool b) \<Rightarrow> Inr b | Some _ \<Rightarrow> Inl TypeError)"

definition dict_genesis :: "py_dict \<Rightarrow> exn + string" where
  "dict_genesis state =
     (case map_of state ''genesis'' of
        None \<Rightarrow> Inl KeyError | Some (SStr s) \<Rightarrow> Inr s | Some (SBytes b) \<Rightarrow> Inr (decode b)
      | Some _ \<Rightarrow> Inl DBError)"

subsection \<open>Upgrading\<close>

text \<open>One call of \<open>upgrade_u_prefix\<close> or \<open>upgrade_h_prefix\<close>: \<open>new_len\<close> is the length of an upgraded
  key and \<open>split\<close> where version 6 keys get two more bytes.  A bare \<open>return\<close> gives \<open>None\<close>.\<close>

definition upgrade_prefix ::
  "'db engine \<Rightarrow> nat \<Rightarrow> nat \<Rightarrow> int \<Rightarrow> 'db \<Rightarrow> bytes \<Rightarrow> nat option \<times> 'db" where
  "upgrade_prefix E new_len split ver db p =
     (let rows = db_iterator E db p False in
      case rows of
        (k, v) # _ \<Rightarrow>
          if length k = new_len then (None, db_write E db [])
          else (Some (length rows), db_write E db (concat (map (\<lambda>(k, v).
                 [Delete k, Put (if ver = 6 then take split k @ [0, 0] @ drop split k @ [0] else k @ [0]) v]) rows)))
      | [] \<Rightarrow> (Some 0, db_write E db []))"

text \<open>\<open>count += upgrade_prefix(prefix)\<close> for every cursor; adding \<open>None\<close> raises \<open>TypeError\<close>.\<close>

definition upgrade_all :: "'db engine \<Rightarrow> byte \<Rightarrow> nat \<Rightarrow> nat \<Rightarrow> int \<Rightarrow> 'db \<Rightarrow> exn + nat \<times> 'db" where
  "upgrade_all E letter new_len split ver db =
     foldE (\<lambda>cursor (count, db).
        bindE (pack_be_uint16 cursor) (\<lambda>p.
          case upgrade_prefix E new_len split ver db (letter # p) of
            (None, db) \<Rightarrow> Inl TypeError
          | (Some n, db) \<Rightarrow> Inr (count + n, db)))
       [0..65535] (0, db)"

definition upgrade_utxo_db :: "'db engine \<Rightarrow> chain_env \<Rightarrow> 'db chain_db \<Rightarrow> exn + 'db chain_db" where
  "upgrade_utxo_db E C d =
     bindE (upgrade_all E 117 21 14 (db_ver d) (utxo_db d)) (\<lambda>(_, db).
     bindE (upgrade_all E 104 14 7 (db_ver d) db) (\<lambda>(_, db).
       let d = d\<lparr>utxo_db := db\<rparr>;
           counts = lf_read (tx_counts_file d) 0 ((db_height d + 1) * 8)
       in bindE
            (if int (length counts) = (db_height d + 1) * 4
             then bindE (uint_array 4 counts) (\<lambda>ns.
                  Inr (d\<lparr>tx_counts_file := lf_write (tx_counts_file d) 0 (array_bytes ns)\<rparr>))
             else Inr d)
            (\<lambda>d. let d = d\<lparr>db_ver := 8\<rparr>
                 in Inr (d\<lparr>utxo_db := db_write E (utxo_db d) [write_utxo_state C d]\<rparr>))))"

definition read_utxo_state :: "'db engine \<Rightarrow> chain_env \<Rightarrow> 'db chain_db \<Rightarrow> exn + 'db chain_db" where
  "read_utxo_state E C d =
     bindE
       (case db_get E (utxo_db d) UTXO_STATE_KEY of
          Some (b # bs) \<Rightarrow>
            (case literal_eval (decode (b # bs)) of
               None \<Rightarrow> Inl DBError
             | Some state \<Rightarrow>
                 bindE (state_item state ''db_version'') (\<lambda>ver.
                 if ver \<noteq> 6 \<and> ver \<noteq> 7 \<and> ver \<noteq> 8 then Inl DBError
                 else
                   bindE (dict_genesis state) (\<lambda>genesis.
                   if genesis \<noteq> genesis_hash C then Inl DBError
                   else
                     bindE (state_item state ''height'') (\<lambda>height.
                     bindE (state_item state ''tx_count'') (\<lambda>tx_count.
                     bindE (dict_bytes state ''tip'') (\<lambda>tip.
                     bindE (state_item state ''utxo_flush_count'') (\<lambda>fc.
                     bindE (dict_value state ''wall_time'') (\<lambda>wt.
                     bindE (dict_bool state ''first_sync'') (\<lambda>fs.
                     Inr (d\<lparr>db_ver := ver, db_height := height, db_tx_count := nat tx_count,
                            db_tip := tip, utxo_flush_count := fc, wall_time := wt,
                            first_sync := fs\<rparr>)))))))))
            )
        | _ \<Rightarrow> Inr (d\<lparr>db_height := -1, db_tx_count := 0, db_tip := replicate 32 0, db_ver := 8,
                      utxo_flush_count := 0, wall_time := SInt 0, first_sync := True\<rparr>))
       (\<lambda>d.
          let d = d\<lparr>fs_height := db_height d, fs_tx_count := db_tx_count d,
                    last_flush_tx_count := db_tx_count d\<rparr>
          in if db_ver d \<noteq> 8 then upgrade_utxo_db E C d else Inr d)"

definition read_tx_counts :: "'db chain_db \<Rightarrow> exn + 'db chain_db" where
  "read_tx_counts d =
     (let sz = (db_height d + 1) * 8; b = lf_read (tx_counts_file d) 0 sz in
      bindE (assertE (int (length b) = sz)) (\<lambda>_.
      bindE (uint_array 8 b) (\<lambda>counts.
      bindE (assertE (if counts \<noteq> [] then db_tx_count d = last counts else db_tx_count d = 0)) (\<lambda>_.
      Inr (d\<lparr>tx_counts := counts\<rparr>)))))"

subsection \<open>Undo information and raw blocks\<close>

definition min_undo_height :: "chain_env \<Rightarrow> int \<Rightarrow> int" where
  "min_undo_height C max_height = max_height - reorg_limit C + 1"

definition undo_key :: "int \<Rightarrow> exn + bytes" where
  "undo_key height = bindE (pack_be_uint32 height) (\<lambda>b. Inr (85 # b))"

definition read_undo_info :: "'db engine \<Rightarrow> int \<Rightarrow> 'db chain_db \<Rightarrow> exn + bytes option" where
  "read_undo_info E height d = bindE (undo_key height) (\<lambda>k. Inr (db_get E (utxo_db d) k))"

definition flush_undo_infos :: "(bytes list \<times> int) list \<Rightarrow> exn + batch_op list" where
  "flush_undo_infos undo_infos =
     mapE (\<lambda>(undo_info, height). bindE (undo_key height) (\<lambda>k. Inr (Put k (concat undo_info)))) undo_infos"

definition read_raw_block :: "int \<Rightarrow> 'db chain_db \<Rightarrow> exn + bytes" where
  "read_raw_block height d =
     (case map_of (raw_blocks d) height of None \<Rightarrow> Inl FileNotFoundError | Some b \<Rightarrow> Inr b)"

definition write_raw_block :: "chain_env \<Rightarrow> bytes \<Rightarrow> int \<Rightarrow> 'db chain_db \<Rightarrow> 'db chain_db" where
  "write_raw_block C block height d =
     d\<lparr>raw_blocks := AList.delete (min_undo_height C height - 1) (AList.update height block (raw_blocks d))\<rparr>"

fun stale_undo_keys :: "int \<Rightarrow> (bytes \<times> bytes) list \<Rightarrow> exn + bytes list" where
  "stale_undo_keys min_height [] = Inr []"
| "stale_undo_keys min_height ((key, _) # rows) =
     bindE (unpack_be_unsigned 4 (suffix_of 4 key)) (\<lambda>height.
       if int height \<ge> min_height then Inr []
       else bindE (stale_undo_keys min_height rows) (\<lambda>keys. Inr (key # keys)))"

definition clear_excess_undo_info :: "'db engine \<Rightarrow> chain_env \<Rightarrow> 'db chain_db \<Rightarrow> exn + 'db chain_db" where
  "clear_excess_undo_info E C d =
     (let min_height = min_undo_height C (db_height d) in
      bindE (stale_undo_keys min_height (db_iterator E (utxo_db d) [85] False)) (\<lambda>keys.
        Inr (d\<lparr>utxo_db := (if keys \<noteq> [] then db_write E (utxo_db d) (map Delete keys) else utxo_db d),
               raw_blocks := filter (\<lambda>(h, _). \<not> h < min_height) (raw_blocks d)\<rparr>)))"

text \<open>\<open>_open_dbs\<close> on stores that exist already: \<open>udb\<close> and \<open>hdb\<close> are what \<open>db_class\<close> opens.\<close>

definition open_dbs ::
  "'db engine \<Rightarrow> chain_env \<Rightarrow> 'db \<Rightarrow> 'db \<Rightarrow> bool \<Rightarrow> 'db chain_db \<Rightarrow> exn + 'db chain_db" where
  "open_dbs E C udb hdb' compacting d =
     bindE (read_utxo_state E C (d\<lparr>utxo_db := udb\<rparr>)) (\<lambda>d.
     bindE (open_db E hdb' (utxo_flush_count d) compacting (hist d)) (\<lambda>h.
     bindE (clear_excess_undo_info E C (d\<lparr>hist := h, utxo_flush_count := flush_count h\<rparr>)) read_tx_counts))"

subsection \<open>Header offsets\<close>

definition dynamic_header_offset :: "chain_env \<Rightarrow> int \<Rightarrow> 'db chain_db \<Rightarrow> exn + nat" where
  "dynamic_header_offset C height d =
     bindE (assertE (\<not> static_headers C)) (\<lambda>_.
       unpack_le_unsigned 8 (lf_read (headers_offsets_file d) (nat (height * 8)) 8))"

definition dynamic_header_len :: "chain_env \<Rightarrow> int \<Rightarrow> 'db chain_db \<Rightarrow> exn + int" where
  "dynamic_header_len C height d =
     bindE (dynamic_header_offset C (height + 1) d) (\<lambda>b.
     bindE (dynamic_header_offset C height d) (\<lambda>a. Inr (int b - int a)))"

text \<open>\<open>self.header_offset\<close> and \<open>self.header_len\<close>, as the constructor sets them.\<close>

definition header_offset :: "chain_env \<Rightarrow> int \<Rightarrow> 'db chain_db \<Rightarrow> exn + nat" where
  "header_offset C height d =
     (if static_headers C then Inr (static_header_offset C height) else dynamic_header_offset C height d)"

definition header_len :: "chain_env \<Rightarrow> int \<Rightarrow> 'db chain_db \<Rightarrow> exn + int" where
  "header_len C height d =
     (if static_headers C then Inr (int (static_header_len C height)) else dynamic_header_len C height d)"

fun running_offsets :: "nat \<Rightarrow> bytes list \<Rightarrow> exn + bytes list" where
  "running_offsets offset [] = Inr []"
| "running_offsets offset (h # headers) =
     bindE (pack_le_uint64 (int (offset + length h))) (\<lambda>b.
     bindE (running_offsets (offset + length h) headers) (\<lambda>rest. Inr (b # rest)))"

definition fs_update_header_offsets ::
  "chain_env \<Rightarrow> nat \<Rightarrow> int \<Rightarrow> bytes list \<Rightarrow> 'db chain_db \<Rightarrow> exn + 'db chain_db" where
  "fs_update_header_offsets C offset_start height_start headers d =
     (if static_headers C then Inr d
      else bindE (running_offsets offset_start headers) (\<lambda>offsets.
        Inr (d\<lparr>headers_offsets_file :=
               lf_write (headers_offsets_file d) (nat ((height_start + 1) * 8)) (concat offsets)\<rparr>)))"

subsection \<open>Flushing\<close>

definition assert_flushed_db :: "flush_data \<Rightarrow> 'db chain_db \<Rightarrow> exn + unit" where
  "assert_flushed_db fl d =
     bindE (assertE (fl_tx_count fl = fs_tx_count d \<and> fs_tx_count d = db_tx_count d)) (\<lambda>_.
     bindE (assertE (fl_height fl = fs_height d \<and> fs_height d = db_height d)) (\<lambda>_.
     bindE (assertE (fl_tip fl = db_tip d)) (\<lambda>_.
     bindE (assertE (fl_headers fl = [])) (\<lambda>_.
     bindE (assertE (fl_block_tx_hashes fl = [])) (\<lambda>_.
     bindE (assertE (fl_adds fl = [])) (\<lambda>_.
     bindE (assertE (fl_deletes fl = [])) (\<lambda>_.
     bindE (assertE (fl_undo_infos fl = [])) (\<lambda>_.
     assert_flushed (hist d)))))))))"

definition flush_fs :: "chain_env \<Rightarrow> flush_data \<Rightarrow> 'db chain_db \<Rightarrow> exn + flush_data \<times> 'db chain_db" where
  "flush_fs C fl d =
     bindE (if fs_height d \<ge> 0 then py_nth (tx_counts d) (fs_height d) else Inr 0) (\<lambda>prior_tx_count.
     bindE (assertE (length (fl_block_tx_hashes fl) = length (fl_headers fl))) (\<lambda>_.
     bindE (assertE (fl_height fl = fs_height d + int (length (fl_headers fl)))) (\<lambda>_.
     bindE (assertE (fl_tx_count fl = (if tx_counts d \<noteq> [] then last (tx_counts d) else 0))) (\<lambda>_.
     bindE (assertE (int (length (tx_counts d)) = fl_height fl + 1)) (\<lambda>_.
     let hashes = concat (fl_block_tx_hashes fl) in
     bindE (assertE (length hashes mod 32 = 0)) (\<lambda>_.
     bindE (assertE (int (length hashes div 32) = int (fl_tx_count fl) - int prior_tx_count)) (\<lambda>_.
     let height_start = fs_height d + 1 in
     bindE (header_offset C height_start d) (\<lambda>offset.
     let d = d\<lparr>headers_file := lf_write (headers_file d) offset (concat (fl_headers fl))\<rparr> in
     bindE (fs_update_header_offsets C offset height_start (fl_headers fl) d) (\<lambda>d.
     Inr (fl\<lparr>fl_block_tx_hashes := [], fl_headers := []\<rparr>,
          d\<lparr>tx_counts_file := lf_write (tx_counts_file d) (nat (height_start * 8))
                               (array_bytes (drop (nat height_start) (tx_counts d))),
            hashes_file := lf_write (hashes_file d) (prior_tx_count * 32) hashes,
            fs_height := fl_height fl,
            fs_tx_count := fl_tx_count fl\<rparr>))))))))))"

definition flush_history :: "'db engine \<Rightarrow> 'db chain_db \<Rightarrow> exn + 'db chain_db" where
  "flush_history E d = bindE (HistoryDB.flush E (hist d)) (\<lambda>h. Inr (d\<lparr>hist := h\<rparr>))"

text \<open>\<open>flush_utxo_db\<close> and \<open>flush_state\<close> give the operations they add to the batch.\<close>

definition utxo_puts :: "bytes \<times> bytes \<Rightarrow> batch_op list" where
  "utxo_puts = (\<lambda>(key, value).
     let hashX = take hashX_len value;
         txout_idx = suffix_of 4 key;
         tx_num = slice value hashX_len (hashX_len + TXNUM_LEN);
         value_sats = suffix_of 8 value;
         sfx = txout_idx @ tx_num
     in [Put (104 # take COMP_TXID_LEN key @ sfx) hashX, Put (117 # hashX @ sfx) value_sats])"

definition flush_utxo_db ::
  "flush_data \<Rightarrow> 'db chain_db \<Rightarrow> exn + batch_op list \<times> flush_data \<times> 'db chain_db" where
  "flush_utxo_db fl d =
     bindE (flush_undo_infos (fl_undo_infos fl)) (\<lambda>undo_ops.
       Inr (map Delete (sort (fl_deletes fl)) @ concat (map utxo_puts (fl_adds fl)) @ undo_ops,
            fl\<lparr>fl_deletes := [], fl_adds := [], fl_undo_infos := []\<rparr>,
            d\<lparr>utxo_flush_count := flush_count (hist d), db_height := fl_height fl,
              db_tx_count := fl_tx_count fl, db_tip := fl_tip fl\<rparr>))"

definition flush_state :: "chain_env \<Rightarrow> scalar \<Rightarrow> 'db chain_db \<Rightarrow> batch_op \<times> 'db chain_db" where
  "flush_state C now d =
     (let d = d\<lparr>wall_time := clock_add C (wall_time d) (clock_sub C now (last_flush d)), last_flush := now,
                last_flush_tx_count := fs_tx_count d\<rparr>
      in (write_utxo_state C d, d))"

text \<open>\<open>flush_dbs\<close> reads the clock twice, when it builds the batch and after it is committed.\<close>

definition flush_dbs ::
  "'db engine \<Rightarrow> chain_env \<Rightarrow> scalar \<Rightarrow> scalar \<Rightarrow> flush_data \<Rightarrow> bool \<Rightarrow> 'db chain_db \<Rightarrow>
     exn + flush_data \<times> 'db chain_db" where
  "flush_dbs E C now now' fl flush_utxos d =
     (if fl_height fl = db_height d then bindE (assert_flushed_db fl d) (\<lambda>_. Inr (fl, d))
      else
        bindE (flush_fs C fl d) (\<lambda>(fl, d).
        bindE (flush_history E d) (\<lambda>d.
        bindE (if flush_utxos then flush_utxo_db fl d else Inr ([], fl, d)) (\<lambda>(ops, fl, d).
        let (op, d) = flush_state C now d;
            d = d\<lparr>utxo_db := db_write E (utxo_db d) (ops @ [op])\<rparr>;
            (op, d) = flush_state C now' d
        in Inr (fl, d\<lparr>utxo_db := db_write E (utxo_db d) [op]\<rparr>)))))"

definition backup_fs :: "int \<Rightarrow> nat \<Rightarrow> 'db chain_db \<Rightarrow> exn + 'db chain_db" where
  "backup_fs height tx_count d =
     bindE (mc_truncate (header_mc d) (height + 1)) (\<lambda>mc.
       Inr (d\<lparr>fs_height := height, fs_tx_count := tx_count, header_mc := mc\<rparr>))"

definition flush_backup ::
  "'db engine \<Rightarrow> chain_env \<Rightarrow> scalar \<Rightarrow> flush_data \<Rightarrow> bytes set \<Rightarrow> 'db chain_db \<Rightarrow>
     exn + flush_data \<times> 'db chain_db" where
  "flush_backup E C now fl touched d =
     bindE (assertE (fl_headers fl = [])) (\<lambda>_.
     bindE (assertE (fl_block_tx_hashes fl = [])) (\<lambda>_.
     bindE (assertE (fl_height fl < db_height d)) (\<lambda>_.
     bindE (assert_flushed (hist d)) (\<lambda>_.
     bindE (backup_fs (fl_height fl) (fl_tx_count fl) d) (\<lambda>d.
     bindE (HistoryDB.backup E touched (fl_tx_count fl) (hist d)) (\<lambda>h.
     bindE (flush_utxo_db fl (d\<lparr>hist := h\<rparr>)) (\<lambda>(ops, fl, d).
     let (op, d) = flush_state C now d
     in Inr (fl, d\<lparr>utxo_db := db_write E (utxo_db d) (ops @ [op])\<rparr>))))))))"

subsection \<open>Reading\<close>

definition read_headers :: "chain_env \<Rightarrow> int \<Rightarrow> int \<Rightarrow> 'db chain_db \<Rightarrow> exn + bytes \<times> int" where
  "read_headers C start_height count d =
     (if start_height < 0 \<or> count < 0 then Inl DBError
      else
        let disk_count = max 0 (min count (db_height d + 1 - start_height)) in
        if disk_count \<noteq> 0
        then bindE (header_offset C start_height d) (\<lambda>offset.
             bindE (header_offset C (start_height + disk_count) d) (\<lambda>stop.
               Inr (lf_read (headers_file d) offset (int stop - int offset), disk_count)))
        else Inr ([], 0))"

definition raw_header :: "chain_env \<Rightarrow> int \<Rightarrow> 'db chain_db \<Rightarrow> exn + bytes" where
  "raw_header C height d =
     bindE (read_headers C height 1 d) (\<lambda>(header, n). if n \<noteq> 1 then Inl IndexError else Inr header)"

definition fs_tx_hash :: "nat \<Rightarrow> 'db chain_db \<Rightarrow> bytes option \<times> int" where
  "fs_tx_hash tx_num d =
     (let tx_height = int (bisect_right (tx_counts d) tx_num)
      in (if tx_height > db_height d then None else Some (lf_read (hashes_file d) (tx_num * 32) 32),
          tx_height))"

definition fs_tx_hashes_at_blockheight :: "int \<Rightarrow> 'db chain_db \<Rightarrow> exn + bytes list" where
  "fs_tx_hashes_at_blockheight block_height d =
     (if block_height > db_height d then Inl DBError
      else
        bindE (assertE (block_height \<ge> 0)) (\<lambda>_.
        bindE (if block_height > 0 then py_nth (tx_counts d) (block_height - 1) else Inr 0) (\<lambda>first_tx_num.
        bindE (py_nth (tx_counts d) block_height) (\<lambda>count.
        let num_txs_in_block = int count - int first_tx_num;
            tx_hashes = lf_read (hashes_file d) (first_tx_num * 32) (num_txs_in_block * 32)
        in bindE (assertE (num_txs_in_block = int (length tx_hashes div 32))) (\<lambda>_.
           Inr (map (\<lambda>idx. slice tx_hashes (idx * 32) ((idx + 1) * 32)) [0..<nat num_txs_in_block]))))))"

fun split_headers :: "chain_env \<Rightarrow> 'db chain_db \<Rightarrow> bytes \<Rightarrow> nat \<Rightarrow> int list \<Rightarrow> exn + bytes list" where
  "split_headers C d headers_concat offset [] = Inr []"
| "split_headers C d headers_concat offset (height # heights) =
     bindE (header_len C height d) (\<lambda>hlen.
     bindE (split_headers C d headers_concat (nat (int offset + hlen)) heights) (\<lambda>headers.
       Inr (slice headers_concat offset (nat (int offset + hlen)) # headers)))"

definition fs_block_hashes :: "chain_env \<Rightarrow> int \<Rightarrow> int \<Rightarrow> 'db chain_db \<Rightarrow> exn + bytes list" where
  "fs_block_hashes C height count d =
     bindE (read_headers C height count d) (\<lambda>(headers_concat, headers_count).
       if headers_count \<noteq> count then Inl DBError
       else bindE (split_headers C d headers_concat 0 [height..height + count - 1]) (\<lambda>headers.
              Inr (map (header_hash C) headers)))"

definition populate_header_merkle_cache ::
  "(bytes \<Rightarrow> bytes) \<Rightarrow> chain_env \<Rightarrow> 'db chain_db \<Rightarrow> exn + 'db chain_db" where
  "populate_header_merkle_cache H C d =
     bindE (mc_initialize H (\<lambda>start count. fs_block_hashes C (int start) (int count) d) (header_mc d)
             (nat (max 1 (db_height d - reorg_limit C)))) (\<lambda>mc. Inr (d\<lparr>header_mc := mc\<rparr>))"

definition header_branch_and_root ::
  "(bytes \<Rightarrow> bytes) \<Rightarrow> chain_env \<Rightarrow> int \<Rightarrow> int \<Rightarrow> 'db chain_db \<Rightarrow>
     (exn + 'db chain_db \<times> bytes list \<times> bytes) option" where
  "header_branch_and_root H C len height d =
     map_option (\<lambda>r. bindE r (\<lambda>(mc, branch, root). Inr (d\<lparr>header_mc := mc\<rparr>, branch, root)))
       (mc_branch_and_root H (\<lambda>start count. fs_block_hashes C (int start) (int count) d)
          (header_mc d) len height)"

text \<open>One attempt of \<open>limited_history\<close>: \<open>None\<close> when a transaction hash was not found, after which the
  code sleeps and tries again.\<close>

definition limited_history ::
  "'db engine \<Rightarrow> bytes \<Rightarrow> int option \<Rightarrow> 'db chain_db \<Rightarrow> (exn + (bytes \<times> int) list) option" where
  "limited_history E hashX limit d =
     (case get_txnums E (hist d) hashX limit of
        Inl e \<Rightarrow> Some (Inl e)
      | Inr tx_nums \<Rightarrow>
          let history = map (\<lambda>tx_num. fs_tx_hash tx_num d) tx_nums
          in if \<forall>(hash, height) \<in> set history. hash \<noteq> None
             then Some (Inr (map (\<lambda>(hash, height). (the hash, height)) history))
             else None)"

record utxo =
  utxo_tx_num :: nat
  utxo_tx_pos :: nat
  utxo_tx_hash :: "bytes option"
  utxo_height :: int
  utxo_value :: nat

definition read_utxo :: "'db chain_db \<Rightarrow> bytes \<times> bytes \<Rightarrow> exn + utxo" where
  "read_utxo d = (\<lambda>(db_key, db_value).
     bindE (unpack_le_unsigned 4 (butsuffix TXNUM_LEN (suffix_of (TXNUM_LEN + 4) db_key))) (\<lambda>txout_idx.
     bindE (unpack_le_unsigned 8 (suffix_of TXNUM_LEN db_key @ replicate (8 - TXNUM_LEN) 0)) (\<lambda>tx_num.
     bindE (unpack_le_unsigned 8 db_value) (\<lambda>value.
     let (tx_hash, height) = fs_tx_hash tx_num d
     in Inr \<lparr>utxo_tx_num = tx_num, utxo_tx_pos = txout_idx, utxo_tx_hash = tx_hash,
             utxo_height = height, utxo_value = value\<rparr>))))"

definition all_utxos :: "'db engine \<Rightarrow> bytes \<Rightarrow> 'db chain_db \<Rightarrow> (exn + utxo list) option" where
  "all_utxos E hashX d =
     (case mapE (read_utxo d) (db_iterator E (utxo_db d) (117 # hashX) False) of
        Inl e \<Rightarrow> Some (Inl e)
      | Inr utxos \<Rightarrow> if \<forall>u \<in> set utxos. utxo_tx_hash u \<noteq> None then Some (Inr utxos) else None)"

fun match_hashX :: "'db chain_db \<Rightarrow> bytes \<Rightarrow> bytes \<Rightarrow> (bytes \<times> bytes) list \<Rightarrow> exn + (bytes \<times> bytes) option" where
  "match_hashX d tx_hash idx_packed [] = Inr None"
| "match_hashX d tx_hash idx_packed ((db_key, hashX) # rows) =
     (let tx_num_packed = suffix_of TXNUM_LEN db_key in
      bindE (unpack_le_unsigned 8 (tx_num_packed @ replicate (8 - TXNUM_LEN) 0)) (\<lambda>tx_num.
        if fst (fs_tx_hash tx_num d) = Some tx_hash then Inr (Some (hashX, idx_packed @ tx_num_packed))
        else match_hashX d tx_hash idx_packed rows))"

definition lookup_hashX :: "'db engine \<Rightarrow> 'db chain_db \<Rightarrow> bytes \<times> int \<Rightarrow> exn + (bytes \<times> bytes) option" where
  "lookup_hashX E d = (\<lambda>(tx_hash, tx_idx).
     bindE (pack_le_uint32 tx_idx) (\<lambda>idx_packed.
       match_hashX d tx_hash idx_packed
         (db_iterator E (utxo_db d) (104 # take COMP_TXID_LEN tx_hash @ idx_packed) False)))"

definition lookup_utxo :: "'db engine \<Rightarrow> 'db chain_db \<Rightarrow> (bytes \<times> bytes) option \<Rightarrow> exn + (bytes \<times> nat) option" where
  "lookup_utxo E d pair =
     (case pair of
        None \<Rightarrow> Inr None
      | Some (hashX, sfx) \<Rightarrow>
          if hashX = [] then Inr None
          else
            case db_get E (utxo_db d) (117 # hashX @ sfx) of
              Some (b # bs) \<Rightarrow> bindE (unpack_le_unsigned 8 (b # bs)) (\<lambda>value. Inr (Some (hashX, value)))
            | _ \<Rightarrow> Inr None)"

definition lookup_utxos ::
  "'db engine \<Rightarrow> (bytes \<times> int) list \<Rightarrow> 'db chain_db \<Rightarrow> exn + (bytes \<times> nat) option list" where
  "lookup_utxos E prevouts d =
     bindE (mapE (lookup_hashX E d) prevouts) (mapE (lookup_utxo E d))"

end
