(* ===== verification/ChainFiles.thy ===== *)
theory ChainFiles
  imports ChainDB
begin

section \<open>The flat files of the chain (DB.flush_fs and its readers)\<close>

text \<open>
  The abstract state of the files is the chain itself: the headers and, for each block, its
  transaction hashes.  \<open>fs_rep C d hs blks\<close> says that the files of \<open>d\<close> hold exactly that chain: the
  headers one after the other (and, for coins with headers of varying size, their offsets), the
  transaction hashes in chain order, and the number of transactions up to each height.  The lemmas
  show that \<open>flush_fs\<close> appends to it, that backing up cuts it, and what the readers give.
\<close>

definition cum :: "'a list list \<Rightarrow> nat list" where
  "cum blks = map (\<lambda>i. length (concat (take (Suc i) blks))) [0..<length blks]"

definition offsets :: "bytes list \<Rightarrow> nat list" where
  "offsets hs = map (\<lambda>i. length (concat (take i hs))) [0..<Suc (length hs)]"

text \<open>What a coin with headers of one size provides.\<close>

definition static_ok :: "chain_env \<Rightarrow> bytes list \<Rightarrow> bool" where
  "static_ok C hs \<longleftrightarrow> static_headers C \<longrightarrow>
     (\<forall>i \<le> length hs. static_header_offset C (int i) = length (concat (take i hs))) \<and>
     (\<forall>i < length hs. static_header_len C (int i) = length (hs ! i))"

definition fs_rep :: "chain_env \<Rightarrow> 'db chain_db \<Rightarrow> bytes list \<Rightarrow> bytes list list \<Rightarrow> bool" where
  "fs_rep C d hs blks \<longleftrightarrow>
     length hs = length blks \<and> (\<forall>b \<in> set blks. \<forall>h \<in> set b. length h = 32) \<and>
     length (concat hs) < 2 ^ 64 \<and> static_ok C hs \<and>
     fs_height d = int (length blks) - 1 \<and> fs_tx_count d = length (concat blks) \<and>
     take (length blks) (tx_counts d) = cum blks \<and>
     lf_data (headers_file d) (concat hs) \<and>
     lf_data (hashes_file d) (concat (concat blks)) \<and>
     lf_data (tx_counts_file d) (array_bytes (cum blks)) \<and>
     (static_headers C \<or> lf_data (headers_offsets_file d) (array_bytes (offsets hs)))"

lemma fs_rep_height: "fs_rep C d hs blks \<Longrightarrow> fs_height d = int (length blks) - 1"
  by (simp add: fs_rep_def)

lemma length_cum [simp]: "length (cum blks) = length blks"
  by (simp add: cum_def)

lemma nth_cum: "i < length blks \<Longrightarrow> cum blks ! i = length (concat (take (Suc i) blks))"
  by (simp add: cum_def)

lemma cum_append: "cum (xs @ ys) = cum xs @ map (\<lambda>n. length (concat xs) + n) (cum ys)"
  by (rule nth_equalityI) (auto simp: nth_cum nth_append Suc_diff_le)

lemma take_cum: "take n (cum blks) = cum (take n blks)"
  using cum_append [of "take n blks" "drop n blks"] by (cases "n \<le> length blks") auto

lemma last_cum: "blks \<noteq> [] \<Longrightarrow> last (cum blks) = length (concat blks)"
  by (cases "length blks") (auto simp: last_conv_nth nth_cum cum_def)

lemma length_offsets [simp]: "length (offsets hs) = Suc (length hs)"
  by (simp add: offsets_def)

lemma nth_offsets: "i \<le> length hs \<Longrightarrow> offsets hs ! i = length (concat (take i hs))"
  unfolding offsets_def by (subst nth_map) (auto simp del: upt_Suc)

lemma offsets_Cons: "offsets (h # hs) = 0 # map (\<lambda>n. length h + n) (offsets hs)"
  by (rule nth_equalityI) (auto simp: nth_offsets nth_Cons split: nat.splits)

lemma offsets_append: "offsets (xs @ ys) = offsets xs @ map (\<lambda>n. length (concat xs) + n) (tl (offsets ys))"
proof (rule nth_equalityI)
  fix i assume "i < length (offsets (xs @ ys))"
  then show "offsets (xs @ ys) ! i = (offsets xs @ map (\<lambda>n. length (concat xs) + n) (tl (offsets ys))) ! i"
    by (auto simp: nth_offsets nth_append nth_tl Suc_diff_Suc not_less_eq_eq)
qed simp

lemma length_array_bytes [simp]: "length (array_bytes ns) = 8 * length ns"
  by (induction ns) (auto simp: array_bytes_def)

lemma array_bytes_append: "array_bytes (xs @ ys) = array_bytes xs @ array_bytes ys"
  by (simp add: array_bytes_def)

lemma slice_array_bytes:
  "i < length ns \<Longrightarrow> slice (array_bytes ns) (8 * i) (8 * i + 8) = le_encode 8 (ns ! i)"
proof (induction ns arbitrary: i)
  case (Cons n ns)
  show ?case
  proof (cases i)
    case 0
    then show ?thesis by (simp add: array_bytes_def slice_def)
  next
    case (Suc j)
    have "slice (array_bytes (n # ns)) (8 * i) (8 * i + 8) = slice (array_bytes ns) (8 * j) (8 * j + 8)"
      using Suc by (simp add: array_bytes_def slice_def)
    then show ?thesis using Suc Cons by simp
  qed
qed simp

lemma length_concat_32: "\<forall>h \<in> set xs. length h = 32 \<Longrightarrow> length (concat xs) = 32 * length xs"
  by (induction xs) auto

lemma slice_concat_32:
  assumes "\<forall>h \<in> set xs. length h = 32" "i < length xs"
  shows "slice (concat xs) (32 * i) (32 * i + 32) = xs ! i"
  using assms
proof (induction xs arbitrary: i)
  case (Cons x xs)
  then show ?case by (cases i) (auto simp: slice_def)
qed simp

lemma concat_map_concat: "concat (map concat xsss) = concat (concat xsss)"
  by (induction xsss) auto

lemma running_offsets_spec:
  "off + length (concat hs) < 2 ^ 64 \<Longrightarrow>
     running_offsets off hs = Inr (map (\<lambda>n. le_encode 8 (off + n)) (tl (offsets hs)))"
proof (induction hs arbitrary: off)
  case Nil
  then show ?case by (simp add: offsets_def)
next
  case (Cons h hs)
  have pack: "pack_le_uint64 (int (off + length h)) = Inr (le_encode 8 (off + length h))"
    using Cons.prems by (simp add: pack_le_uint64_def pack_le_unsigned_def nat_int_add)
  have "offsets hs = 0 # tl (offsets hs)"
    by (cases hs) (simp add: offsets_def, simp add: offsets_Cons)
  then have "tl (offsets (h # hs)) = length h # map (\<lambda>n. length h + n) (tl (offsets hs))"
    by (metis add_0_right list.map(2) list.sel(3) offsets_Cons)
  then show ?case using Cons pack by (simp add: add.assoc o_def)
qed

subsection \<open>Flushing\<close>

lemma fs_rep_header_offset:
  assumes "fs_rep C d hs blks" "i \<le> length hs"
  shows "header_offset C (int i) d = Inr (length (concat (take i hs)))"
proof (cases "static_headers C")
  case True
  then show ?thesis using assms by (simp add: header_offset_def fs_rep_def static_ok_def)
next
  case False
  have lf: "lf_data (headers_offsets_file d) (array_bytes (offsets hs))"
    using assms False by (simp add: fs_rep_def)
  have "lf_read (headers_offsets_file d) (8 * i) 8 = le_encode 8 (offsets hs ! i)"
    using lf_data_read [OF lf, of "8 * i" 8] slice_array_bytes [of i "offsets hs"] assms(2) by simp
  moreover have "offsets hs ! i < 2 ^ 64"
  proof -
    have "length (concat (take i hs)) \<le> length (concat hs)"
      by (metis append_take_drop_id concat_append le_add1 length_append)
    then show ?thesis using assms by (simp add: nth_offsets fs_rep_def)
  qed
  moreover have "nat (int i * 8) = 8 * i" by simp
  ultimately show ?thesis using assms(2) False
    by (simp add: header_offset_def dynamic_header_offset_def unpack_le_unsigned_def nth_offsets)
qed


lemma fs_rep_prior:
  assumes "fs_rep C d hs blks"
  shows "(if fs_height d \<ge> 0 then py_nth (tx_counts d) (fs_height d) else Inr 0) = Inr (length (concat blks))"
proof (cases "blks = []")
  case False
  then have len: "length blks \<le> length (tx_counts d)"
    using assms by (metis fs_rep_def length_cum length_take min.cobounded2 min_def nat_le_linear)
  have "tx_counts d ! (length blks - 1) = cum blks ! (length blks - 1)"
    using assms False by (metis diff_less fs_rep_def length_greater_0_conv less_numeral_extra(1) nth_take)
  also have "\<dots> = length (concat blks)" using False by (simp add: nth_cum)
  finally have "tx_counts d ! (length blks - 1) = length (concat blks)" .
  moreover have "fs_height d = int (length blks - 1)" using assms False by (cases blks) (auto simp: fs_rep_def)
  moreover have "length blks - 1 < length (tx_counts d)" using len False by (cases blks) auto
  ultimately show ?thesis by (simp add: py_nth_def)
qed (use assms in \<open>simp add: fs_rep_def\<close>)

definition flushed_fs :: "chain_env \<Rightarrow> flush_data \<Rightarrow> bytes list \<Rightarrow> bytes list list \<Rightarrow> bytes list list \<Rightarrow> 'db chain_db \<Rightarrow> 'db chain_db" where
  "flushed_fs C fl hs blks blks' d = d\<lparr>
     headers_file := lf_write (headers_file d) (length (concat hs)) (concat (fl_headers fl)),
     headers_offsets_file := (if static_headers C then headers_offsets_file d
        else lf_write (headers_offsets_file d) (8 * Suc (length hs))
               (array_bytes (map (\<lambda>n. length (concat hs) + n) (tl (offsets (fl_headers fl)))))),
     tx_counts_file := lf_write (tx_counts_file d) (8 * length hs)
        (array_bytes (map (\<lambda>n. length (concat blks) + n) (cum blks'))),
     hashes_file := lf_write (hashes_file d) (32 * length (concat blks)) (concat (concat blks')),
     fs_height := fl_height fl, fs_tx_count := fl_tx_count fl\<rparr>"

definition flushable :: "chain_env \<Rightarrow> flush_data \<Rightarrow> bytes list \<Rightarrow> bytes list list \<Rightarrow> bytes list list \<Rightarrow> 'db chain_db \<Rightarrow> bool" where
  "flushable C fl hs blks blks' d \<longleftrightarrow>
     length (fl_headers fl) = length blks' \<and> fl_block_tx_hashes fl = map concat blks' \<and>
     (\<forall>b \<in> set blks'. \<forall>h \<in> set b. length h = 32) \<and>
     tx_counts d = cum (blks @ blks') \<and>
     fl_height fl = int (length (blks @ blks')) - 1 \<and> fl_tx_count fl = length (concat (blks @ blks')) \<and>
     static_ok C (hs @ fl_headers fl) \<and> length (concat (hs @ fl_headers fl)) < 2 ^ 64"

lemma flush_fs_eq:
  assumes rep: "fs_rep C d hs blks" and fl: "flushable C fl hs blks blks' d"
  shows "flush_fs C fl d =
    Inr (fl\<lparr>fl_block_tx_hashes := [], fl_headers := []\<rparr>, flushed_fs C fl hs blks blks' d)"
proof -
  have hashes: "concat (fl_block_tx_hashes fl) = concat (concat blks')"
    using fl by (simp add: flushable_def concat_map_concat)
  have len: "length (concat (concat blks')) = 32 * length (concat blks')"
    by (rule length_concat_32) (use fl in \<open>auto simp: flushable_def\<close>)
  have hgt: "fs_height d + 1 = int (length hs)" and lens: "length hs = length blks"
    using rep by (simp_all add: fs_rep_def)
  have off: "header_offset C (int (length hs)) d = Inr (length (concat hs))"
    using fs_rep_header_offset [OF rep, of "length hs"] by simp
  have last: "fl_tx_count fl = (if tx_counts d \<noteq> [] then last (tx_counts d) else 0)"
    using fl last_cum [of "blks @ blks'"] by (auto simp: flushable_def cum_def)
  have drp: "drop (length hs) (tx_counts d) = map (\<lambda>n. length (concat blks) + n) (cum blks')"
    using fl lens by (simp add: flushable_def cum_append)
  have run: "running_offsets (length (concat hs)) (fl_headers fl) =
      Inr (map (\<lambda>n. le_encode 8 (length (concat hs) + n)) (tl (offsets (fl_headers fl))))"
    by (rule running_offsets_spec) (use fl in \<open>simp add: flushable_def\<close>)
  have pos: "nat ((int (length hs) + 1) * 8) = 8 * Suc (length hs)" "nat (int (length hs) * 8) = 8 * length hs"
    "nat (int (length hs) * 8 + 8) = 8 + 8 * length hs"
    by (simp_all add: nat_mult_distrib nat_add_distrib)
  have upd: "fs_update_header_offsets C (length (concat hs)) (int (length hs)) (fl_headers fl) d0 =
      Inr (d0\<lparr>headers_offsets_file := (if static_headers C then headers_offsets_file d0
        else lf_write (headers_offsets_file d0) (8 * Suc (length hs))
               (array_bytes (map (\<lambda>n. length (concat hs) + n) (tl (offsets (fl_headers fl))))))\<rparr>)" for d0 :: "'a chain_db"
    by (simp add: fs_update_header_offsets_def run pos array_bytes_def o_def)
  have cnts: "int (length (tx_counts d)) = fl_height fl + 1"
    "fl_height fl = fs_height d + int (length (fl_headers fl))"
    "length (fl_block_tx_hashes fl) = length (fl_headers fl)"
    "int (length (concat blks')) = int (fl_tx_count fl) - int (length (concat blks))"
    using fl hgt lens by (simp_all add: flushable_def)
  show ?thesis
    unfolding flush_fs_def fs_rep_prior [OF rep] bindE_simps hashes len Let_def hgt off upd last [symmetric]
    using cnts by (simp add: drp pos flushed_fs_def mult.commute)
qed

lemma flushed_fs_rep:
  assumes rep: "fs_rep C d hs blks" and fl: "flushable C fl hs blks blks' d"
  shows "fs_rep C (flushed_fs C fl hs blks blks' d) (hs @ fl_headers fl) (blks @ blks')"
proof -
  have len: "length (concat (concat blks)) = 32 * length (concat blks)"
    by (rule length_concat_32) (use rep in \<open>auto simp: fs_rep_def\<close>)
  have app: "lf_data (lf_write f n b) (ys @ b)" if "lf_data f ys" "n = length ys" for f n b ys
    using lf_data_write [of f ys n b] that by simp
  note parts = rep [unfolded fs_rep_def] fl [unfolded flushable_def]
  have "lf_data (headers_file (flushed_fs C fl hs blks blks' d)) (concat (hs @ fl_headers fl))"
    using parts by (auto simp: flushed_fs_def intro!: app)
  moreover have "lf_data (hashes_file (flushed_fs C fl hs blks blks' d)) (concat (concat (blks @ blks')))"
    using parts len by (auto simp: flushed_fs_def intro!: app)
  moreover have "lf_data (tx_counts_file (flushed_fs C fl hs blks blks' d)) (array_bytes (cum (blks @ blks')))"
    using parts by (auto simp: flushed_fs_def cum_append array_bytes_append intro!: app)
  moreover have "static_headers C \<or>
      lf_data (headers_offsets_file (flushed_fs C fl hs blks blks' d)) (array_bytes (offsets (hs @ fl_headers fl)))"
    using parts by (auto simp: flushed_fs_def offsets_append array_bytes_append intro!: app)
  ultimately show ?thesis
    using parts by (auto simp: fs_rep_def flushed_fs_def)
qed


text \<open>Backing up keeps the shorter chain.\<close>

lemma backup_fs_rep:
  assumes rep: "fs_rep C d (hs @ hs') (blks @ blks')" and "length hs = length blks"
    and res: "backup_fs (int (length blks) - 1) (length (concat blks)) d = Inr d'"
  shows "fs_rep C d' hs blks"
proof -
  obtain mc where d': "d' = d\<lparr>fs_height := int (length blks) - 1, fs_tx_count := length (concat blks), header_mc := mc\<rparr>"
    using res by (auto simp: backup_fs_def err_simps)
  note parts = rep [unfolded fs_rep_def]
  have "static_ok C hs"
    using parts by (fastforce simp: static_ok_def nth_append)
  moreover have "take (length blks) (tx_counts d) = cum blks"
    using arg_cong [OF conjunct1 [OF conjunct2 [OF conjunct2 [OF conjunct2 [OF conjunct2 [OF conjunct2 [OF conjunct2 [OF rep [unfolded fs_rep_def]]]]]]]],
        of "take (length blks)"]
    by (simp add: cum_append)
  ultimately show ?thesis
    using parts assms(2)
    by (auto simp: d' fs_rep_def cum_append offsets_append array_bytes_append intro: lf_data_mono)
qed

subsection \<open>Reading\<close>

lemma fs_read_headers:
  assumes rep: "fs_rep C d hs blks" and db: "db_height d = fs_height d"
    and "0 \<le> start" "0 \<le> count"
  shows "read_headers C start count d =
    Inr (concat (take (nat count) (drop (nat start) hs)), int (length (take (nat count) (drop (nat start) hs))))"
proof -
  define n where "n = length (take (nat count) (drop (nat start) hs))"
  have h: "db_height d + 1 = int (length hs)" using rep db by (simp add: fs_rep_def)
  have n: "max 0 (min count (db_height d + 1 - start)) = int n"
    unfolding h n_def using assms(3,4) by (simp add: min_def max_def) linarith
  show ?thesis
  proof (cases "n = 0")
    case True
    then have tk: "take (nat count) (drop (nat start) hs) = []" unfolding n_def by (simp only: length_0_conv)
    show ?thesis unfolding read_headers_def n True tk using assms(3,4) by simp
  next
    case False
    define s where "s = nat start"
    have st: "start = int s" using assms(3) by (simp add: s_def)
    have "n \<le> length hs - s" unfolding n_def s_def by simp
    then have le: "s + n \<le> length hs" using False by linarith
    have tk: "take (nat count) (drop s hs) = take n (drop s hs)"
      by (simp add: n_def s_def min_def)
    have o1: "header_offset C (int s) d = Inr (length (concat (take s hs)))"
      and o2: "header_offset C (int s + int n) d = Inr (length (concat (take (s + n) hs)))"
      using fs_rep_header_offset [OF rep, of s] fs_rep_header_offset [OF rep, of "s + n"] le by simp_all
    have split: "take (s + n) hs = take s hs @ take n (drop s hs)" by (simp add: take_add)
    have whole: "concat hs = concat (take s hs) @ concat (take n (drop s hs)) @ concat (drop (s + n) hs)"
      by (metis append_assoc append_take_drop_id concat_append split)
    have "lf_data (headers_file d) (concat hs)" using rep by (simp add: fs_rep_def)
    then have "lf_read (headers_file d) (length (concat (take s hs))) (int (length (concat (take n (drop s hs)))))
        = concat (take n (drop s hs))"
      using lf_data_read [of "headers_file d" "concat hs" "length (concat (take s hs))"
          "length (concat (take n (drop s hs)))"]
      by (simp add: whole slice_def)
    moreover have "int (length (concat (take (s + n) hs))) - int (length (concat (take s hs)))
        = int (length (concat (take n (drop s hs))))"
      by (simp add: split)
    ultimately show ?thesis
      using False assms(4) o1 o2
      unfolding read_headers_def n_def [symmetric] n s_def [symmetric] tk unfolding st Let_def
      using \<open>n \<le> length hs - s\<close> by (simp add: min_absorb2)
  qed
qed

lemma split_headers_spec:
  assumes "\<And>i. i < length hs \<Longrightarrow> header_len C (start + int i) d = Inr (int (length (hs ! i)))"
  shows "split_headers C d (pre @ concat hs) (length pre) [start..start + int (length hs) - 1] = Inr hs"
  using assms
proof (induction hs arbitrary: pre start)
  case (Cons h hs)
  have up: "[start..start + int (length (h # hs)) - 1] = start # [start + 1..start + 1 + int (length hs) - 1]"
    by (subst upto_rec1) (auto simp: algebra_simps)
  have l: "header_len C start d = Inr (int (length h))" using Cons.prems [of 0] by simp
  have rest: "split_headers C d ((pre @ h) @ concat hs) (length (pre @ h)) [start + 1..start + 1 + int (length hs) - 1] = Inr hs"
  proof (rule Cons.IH)
    fix i assume "i < length hs"
    then show "header_len C (start + 1 + int i) d = Inr (int (length (hs ! i)))"
      using Cons.prems [of "Suc i"] by (simp add: add.assoc)
  qed
  have sl: "slice (pre @ h @ concat hs) (length pre) (length pre + length h) = h"
    by (rule slice_mid) simp_all
  have nt: "nat (int (length pre) + int (length h)) = length pre + length h" by simp
  show ?case unfolding up using rest sl by (simp add: l nt)
qed simp

lemma fs_rep_header_len:
  assumes rep: "fs_rep C d hs blks" and "i < length hs"
  shows "header_len C (int i) d = Inr (int (length (hs ! i)))"
proof (cases "static_headers C")
  case True
  then show ?thesis using assms by (simp add: header_len_def fs_rep_def static_ok_def)
next
  case False
  have "dynamic_header_offset C (int (Suc i)) d = Inr (length (concat (take (Suc i) hs)))"
    "dynamic_header_offset C (int i) d = Inr (length (concat (take i hs)))"
    using fs_rep_header_offset [OF rep, of "Suc i"] fs_rep_header_offset [OF rep, of i] assms(2) False
    by (simp_all add: header_offset_def)
  then show ?thesis using False assms(2)
    by (simp add: header_len_def dynamic_header_len_def take_Suc_conv_app_nth add.commute)
qed

lemma fs_block_hashes_spec:
  assumes rep: "fs_rep C d hs blks" and db: "db_height d = fs_height d" and "s + n \<le> length hs"
  shows "fs_block_hashes C (int s) (int n) d = Inr (map (header_hash C) (take n (drop s hs)))"
proof -
  have "split_headers C d ([] @ concat (take n (drop s hs))) (length ([] :: bytes))
      [int s..int s + int (length (take n (drop s hs))) - 1] = Inr (take n (drop s hs))"
    by (rule split_headers_spec) (use fs_rep_header_len [OF rep] assms(3) in \<open>simp flip: of_nat_add\<close>)
  then show ?thesis
    using fs_read_headers [OF rep db, of "int s" "int n"] assms(3)
    by (simp add: fs_block_hashes_def min_absorb2)
qed

lemma bisect_cum:
  assumes "i < length blks" "j < length (blks ! i)"
  shows "bisect_right (cum blks) (length (concat (take i blks)) + j) = i"
proof -
  let ?n = "length (concat (take i blks)) + j"
  have mono: "length (concat (take a blks)) \<le> length (concat (take b blks))" if "a \<le> b" for a b
    using that by (metis concat_append le_add1 le_add_diff_inverse length_append take_add)
  have srt: "sorted (cum blks)"
    unfolding sorted_iff_nth_mono by (auto simp: nth_cum intro!: mono)
  have "filter (\<lambda>y. y \<le> ?n) (take i (cum blks)) = take i (cum blks)"
  proof (rule filter_True, rule ballI)
    fix y assume "y \<in> set (take i (cum blks))"
    then obtain k where "k < i" "y = length (concat (take (Suc k) blks))"
      using assms by (auto simp: in_set_conv_nth nth_cum)
    then show "y \<le> ?n" using mono [of "Suc k" i] by simp
  qed
  moreover have "filter (\<lambda>y. y \<le> ?n) (drop i (cum blks)) = []"
  proof -
    have "\<not> y \<le> ?n" if "y \<in> set (drop i (cum blks))" for y
    proof -
      obtain k where "i \<le> k" "k < length blks" and y: "y = length (concat (take (Suc k) blks))"
      proof -
        obtain k where "k < length (drop i (cum blks))" "drop i (cum blks) ! k = y"
          using \<open>y \<in> set (drop i (cum blks))\<close> by (auto simp: in_set_conv_nth)
        then show thesis using that [of "i + k"] by (simp add: nth_cum)
      qed
      have "length (concat (take (Suc i) blks)) = length (concat (take i blks)) + length (blks ! i)"
        using assms by (simp add: take_Suc_conv_app_nth)
      then show ?thesis using mono [of "Suc i" "Suc k"] \<open>i \<le> k\<close> assms(2) y by simp
    qed
    then show ?thesis by (simp add: filter_empty_conv)
  qed
  ultimately have "filter (\<lambda>y. y \<le> ?n) (cum blks) = take i (cum blks)"
    by (metis append_Nil2 append_take_drop_id filter_append)
  then show ?thesis
    using assms by (simp add: bisect_right_sorted [OF srt])
qed

lemma fs_tx_hash_spec:
  assumes rep: "fs_rep C d hs blks" and db: "int i \<le> db_height d"
    and cnt: "tx_counts d = cum (blks @ rest)"
    and "i < length blks" "j < length (blks ! i)"
  shows "fs_tx_hash (length (concat (take i blks)) + j) d = (Some (blks ! i ! j), int i)"
proof -
  let ?n = "length (concat (take i blks)) + j"
  have bs: "bisect_right (tx_counts d) ?n = i"
    using bisect_cum [of i "blks @ rest" j] assms(4,5) cnt by (simp add: nth_append)
  have split: "concat blks = concat (take i blks) @ blks ! i @ concat (drop (Suc i) blks)"
    using assms(4) by (metis concat.simps(2) concat_append id_take_nth_drop)
  have nth: "concat blks ! ?n = blks ! i ! j" "?n < length (concat blks)"
    using assms(5) by (simp_all add: split nth_append)
  have hs32: "\<forall>h \<in> set (concat blks). length h = 32" using rep by (auto simp: fs_rep_def)
  have "lf_data (hashes_file d) (concat (concat blks))" using rep by (simp add: fs_rep_def)
  then have "lf_read (hashes_file d) (?n * 32) 32 = slice (concat (concat blks)) (32 * ?n) (32 * ?n + 32)"
    using lf_data_read [of "hashes_file d" _ "32 * ?n" 32] length_concat_32 [OF hs32] nth(2)
    by (simp add: mult.commute)
  then have "lf_read (hashes_file d) (?n * 32) 32 = blks ! i ! j"
    using slice_concat_32 [OF hs32 nth(2)] nth(1) by simp
  then show ?thesis using db by (simp add: fs_tx_hash_def bs)
qed


lemma fs_tx_hashes_spec:
  assumes rep: "fs_rep C d hs blks" and db: "db_height d = fs_height d" and "i < length blks"
  shows "fs_tx_hashes_at_blockheight (int i) d = Inr (blks ! i)"
proof -
  have cnt: "take (length blks) (tx_counts d) = cum blks" using rep by (simp add: fs_rep_def)
  then have len: "length blks \<le> length (tx_counts d)"
    by (metis length_cum length_take min.cobounded2 min_def nat_le_linear)
  have nth: "py_nth (tx_counts d) (int k) = Inr (length (concat (take (Suc k) blks)))" if "k < length blks" for k
    using that len nth_take [of k "length blks" "tx_counts d"] cnt by (simp add: py_nth_def nth_cum)
  have first: "(if int i > 0 then py_nth (tx_counts d) (int i - 1) else Inr 0) = Inr (length (concat (take i blks)))"
  proof (cases i)
    case (Suc k)
    then show ?thesis using nth [of k] assms(3) by simp
  qed simp
  have suc: "length (concat (take (Suc i) blks)) = length (concat (take i blks)) + length (blks ! i)"
    using assms(3) by (simp add: take_Suc_conv_app_nth)
  have split: "concat blks = concat (take i blks) @ blks ! i @ concat (drop (Suc i) blks)"
    using assms(3) by (metis concat.simps(2) concat_append id_take_nth_drop)
  have hs32: "\<forall>h \<in> set (blks ! i). length h = 32" "\<forall>h \<in> set (concat (take i blks)). length h = 32"
    "\<forall>h \<in> set (concat blks). length h = 32"
    using rep assms(3) by (auto simp: fs_rep_def dest: in_set_takeD)
  have "lf_data (hashes_file d) (concat (concat blks))" using rep by (simp add: fs_rep_def)
  then have "lf_read (hashes_file d) (length (concat (take i blks)) * 32) (int (length (blks ! i) * 32))
      = slice (concat (concat blks)) (length (concat (take i blks)) * 32)
          (length (concat (take i blks)) * 32 + length (blks ! i) * 32)"
  proof (rule lf_data_read)
    have "length (concat (concat blks)) = length (concat blks) * 32"
      using length_concat_32 [OF hs32(3)] by simp
    moreover have "length (concat blks) = length (concat (take i blks)) + length (blks ! i) + length (concat (drop (Suc i) blks))"
      using arg_cong [OF split, of length] by simp
    ultimately show "length (concat (take i blks)) * 32 + length (blks ! i) * 32 \<le> length (concat (concat blks))"
      by linarith
  qed
  also have "\<dots> = concat (blks ! i)"
    unfolding split concat_append
    by (rule slice_mid) (simp_all add: length_concat_32 [OF hs32(1)] length_concat_32 [OF hs32(2)] mult.commute del: length_concat)
  finally have rd: "lf_read (hashes_file d) (length (concat (take i blks)) * 32) (int (length (blks ! i)) * 32) = concat (blks ! i)"
    by simp
  have "map (\<lambda>idx. slice (concat (blks ! i)) (idx * 32) ((idx + 1) * 32)) [0..<length (blks ! i)] = blks ! i"
    by (rule nth_equalityI) (use slice_concat_32 [OF hs32(1)] in \<open>auto simp: mult.commute add.commute\<close>)
  moreover have "\<not> int i > db_height d" using assms(3) db rep by (simp add: fs_rep_def)
  moreover have "length (concat (blks ! i)) div 32 = length (blks ! i)"
    using length_concat_32 [OF hs32(1)] by simp
  ultimately show ?thesis
    unfolding fs_tx_hashes_at_blockheight_def first nth [OF assms(3)] bindE_simps Let_def suc
    by (simp add: rd del: length_concat)
qed

text \<open>C18: \<open>flush_fs\<close> appends the unflushed blocks to the chain in the files: when the block processor's
  lists hold the headers and hashes of blocks that continue the chain in the files, none of its
  assertions fails, the lists are cleared, and the files then hold the longer chain, so that every
  header range, every block hash and every transaction hash and height of it (old blocks and new)
  is read back, wherever the files are split and whether headers have one size or offsets.\<close>

theorem flush_fs_appends_chain:
  assumes "fs_rep C d hs blks" "flushable C fl hs blks blks' d"
  shows "\<exists>d'. flush_fs C fl d = Inr (fl\<lparr>fl_block_tx_hashes := [], fl_headers := []\<rparr>, d') \<and>
     fs_rep C d' (hs @ fl_headers fl) (blks @ blks') \<and>
     utxo_db d' = utxo_db d \<and> hist d' = hist d \<and> db_height d' = db_height d \<and> tx_counts d' = tx_counts d"
  using flush_fs_eq [OF assms] flushed_fs_rep [OF assms] by (simp add: flushed_fs_def)

text \<open>C19: reading the flushed chain: once the chain in the files is the chain of the database, a range of
  headers gives the headers it covers (fewer at the tip), block hashes are the hashes of those headers,
  the list of a block's transaction hashes is that block's list, and a transaction number gives its
  hash and the height of its block.\<close>

theorem chain_files_read:
  assumes "fs_rep C d hs blks" "db_height d = fs_height d" "tx_counts d = cum (blks @ rest)"
  shows "(\<forall>start count. 0 \<le> start \<longrightarrow> 0 \<le> count \<longrightarrow>
      (let got = take (nat count) (drop (nat start) hs) in
       read_headers C start count d = Inr (concat got, int (length got)))) \<and>
    (\<forall>start n. start + n \<le> length hs \<longrightarrow>
      fs_block_hashes C (int start) (int n) d = Inr (map (header_hash C) (take n (drop start hs)))) \<and>
    (\<forall>i < length blks. fs_tx_hashes_at_blockheight (int i) d = Inr (blks ! i) \<and>
      (\<forall>j < length (blks ! i).
         fs_tx_hash (length (concat (take i blks)) + j) d = (Some (blks ! i ! j), int i)))"
  using fs_read_headers [OF assms(1,2)] fs_block_hashes_spec [OF assms(1,2)]
    fs_tx_hashes_spec [OF assms(1,2)] fs_tx_hash_spec [OF assms(1) _ assms(3)] assms(2) fs_rep_height [OF assms(1)]
  by (simp add: Let_def)

text \<open>A database of one flushed block and one to flush, with headers of varying size in files of a few
  bytes, to apply the two theorems to.\<close>

definition sample_env :: chain_env where
  "sample_env = \<lparr>static_headers = False, static_header_offset = (\<lambda>_. 0), static_header_len = (\<lambda>_. 0),
     header_hash = take 1, genesis_hash = ''00'', clock_add = (\<lambda>x y. y), clock_sub = (\<lambda>x y. x), reorg_limit = 10\<rparr>"

definition empty_db :: "'db history \<Rightarrow> 'db \<Rightarrow> 'db chain_db" where
  "empty_db h db = \<lparr>utxo_db = db, hist = h, header_mc = mc_new, utxo_flush_count = 0, fs_height = -1,
     fs_tx_count = 0, db_height = -1, db_tx_count = 0, db_tip = replicate 32 0, tx_counts = [],
     last_flush = SFloat ''0.5'', last_flush_tx_count = 0, wall_time = SInt 0, first_sync = True, db_ver = 8,
     headers_file = \<lparr>file_size = 3, contents = []\<rparr>, tx_counts_file = \<lparr>file_size = 5, contents = []\<rparr>,
     hashes_file = \<lparr>file_size = 7, contents = []\<rparr>,
     headers_offsets_file = lf_write \<lparr>file_size = 11, contents = []\<rparr> 0 (replicate 8 0), raw_blocks = []\<rparr>"

definition sample_flush :: flush_data where
  "sample_flush = \<lparr>fl_height = 1, fl_tx_count = 3, fl_headers = [[1, 2], [3, 4, 5]],
     fl_block_tx_hashes = [replicate 32 1, replicate 32 2 @ replicate 32 3],
     fl_undo_infos = [], fl_adds = [], fl_deletes = [], fl_tip = replicate 32 0\<rparr>"


lemma le_encode_0: "le_encode k 0 = replicate k 0"
  by (induction k) auto

lemma sample_rep: "fs_rep sample_env (empty_db h db) [] []"
proof -
  have off: "array_bytes (offsets []) = replicate 8 0" by (simp add: offsets_def array_bytes_def le_encode_0)
  have "lf_data \<lparr>file_size = 11, contents = []\<rparr> []" by (simp add: lf_data_def lf_wf_def)
  from lf_data_write [OF this, of 0 "replicate 8 0"]
  have "lf_data (headers_offsets_file (empty_db h db)) (array_bytes (offsets []))"
    by (simp add: off empty_db_def)
  then show ?thesis
    by (auto simp: fs_rep_def static_ok_def sample_env_def empty_db_def cum_def array_bytes_def lf_data_def lf_wf_def)
qed

abbreviation "sample_blocks \<equiv> [[replicate 32 1], [replicate 32 2, replicate 32 3]] :: bytes list list"

lemma sample_flushable:
  "flushable sample_env sample_flush [] [] sample_blocks ((empty_db h db)\<lparr>tx_counts := [1, 3]\<rparr>)"
  by (simp add: flushable_def sample_flush_def sample_env_def static_ok_def cum_def upt_rec)

lemma sample_rep_counts: "fs_rep sample_env ((empty_db h db)\<lparr>tx_counts := [1, 3]\<rparr>) [] []"
  using sample_rep [of h db] by (simp add: fs_rep_def cum_def)

theorem flush_fs_appends_chain_witness:
  "\<exists>d'. flush_fs sample_env sample_flush ((empty_db (new_history ()) ())\<lparr>tx_counts := [1, 3]\<rparr>) =
     Inr (sample_flush\<lparr>fl_block_tx_hashes := [], fl_headers := []\<rparr>, d') \<and>
     fs_rep sample_env d' [[1, 2], [3, 4, 5]] sample_blocks"
  using flush_fs_appends_chain [OF sample_rep_counts sample_flushable, of "new_history ()" "()"]
  by (auto simp: sample_flush_def)

theorem chain_files_read_witness:
  "\<exists>d. fs_rep sample_env (d :: unit chain_db) [[1, 2], [3, 4, 5]] sample_blocks \<and>
     read_headers sample_env 1 5 d = Inr ([3, 4, 5], 1) \<and>
     fs_block_hashes sample_env 0 2 d = Inr [[1], [3]] \<and>
     fs_tx_hash 2 d = (Some (replicate 32 3), 1)"
proof -
  define d where "d = (flushed_fs sample_env sample_flush [] [] sample_blocks
    ((empty_db (new_history ()) ())\<lparr>tx_counts := [1, 3]\<rparr>))\<lparr>db_height := 1\<rparr>"
  have "fs_rep sample_env (d\<lparr>db_height := -1\<rparr>) [[1, 2], [3, 4, 5]] sample_blocks"
    using flushed_fs_rep [OF sample_rep_counts sample_flushable, of "new_history ()" "()"]
    by (simp add: d_def flushed_fs_def empty_db_def sample_flush_def)
  then have rep: "fs_rep sample_env d [[1, 2], [3, 4, 5]] sample_blocks"
    by (simp add: fs_rep_def)
  have db: "db_height d = fs_height d" "tx_counts d = cum (sample_blocks @ [])"
    by (simp_all add: d_def flushed_fs_def sample_flush_def cum_def upt_rec)
  note all = chain_files_read [OF rep db]
  have "read_headers sample_env 1 5 d = Inr ([3, 4, 5], 1)"
    using conjunct1 [OF all, rule_format, of 1 5] by (simp add: Let_def)
  moreover have "fs_block_hashes sample_env 0 2 d = Inr [[1], [3]]"
    using conjunct1 [OF conjunct2 [OF all], rule_format, of 0 2] by (simp add: sample_env_def)
  moreover have "\<forall>j < 2. fs_tx_hash (1 + j) d = (Some ([replicate 32 2, replicate 32 3] ! j), 1)"
    using conjunct2 [OF conjunct2 [OF all], rule_format, of 1] by simp
  then have "fs_tx_hash 2 d = (Some (replicate 32 3), 1)"
    by (drule_tac x = 1 in spec) (simp add: numeral_2_eq_2)
  ultimately show ?thesis using rep by blast
qed

end
