(* ===== verification/ChainState.thy ===== *)
theory ChainState
  imports ChainFiles
begin

section \<open>The state and undo records of the chain database\<close>

text \<open>
  What the database writes about itself is what it reads back when it is opened; the records from
  which blocks can be undone cover the last blocks up to the reorg limit; and an upgrade of the key
  format that was interrupted cannot be resumed.
\<close>

lemma read_utxo_state_written:
  assumes "db_get E (utxo_db d) UTXO_STATE_KEY = Some (encode (repr_dict (utxo_state_dict C s)))" "db_ver s = 8"
    "scalar_ok (wall_time s)"
  shows "read_utxo_state E C d = Inr (d\<lparr>db_ver := 8, db_height := db_height s, db_tx_count := db_tx_count s,
    db_tip := db_tip s, utxo_flush_count := utxo_flush_count s, wall_time := wall_time s,
    first_sync := first_sync s, fs_height := db_height s, fs_tx_count := db_tx_count s,
    last_flush_tx_count := db_tx_count s\<rparr>)"
proof -
  let ?d = "utxo_state_dict C s"
  have "literal_eval (repr_dict ?d) = Some ?d"
    by (rule literal_eval_repr) (simp_all add: utxo_state_dict_def assms(3))
  moreover obtain b bs where b: "encode (repr_dict ?d) = b # bs"
    by (simp add: repr_dict_def encode_def)
  then have "decode (b # bs) = repr_dict ?d" by (metis decode_encode)
  ultimately show ?thesis using assms b
    by (simp add: read_utxo_state_def utxo_state_dict_def state_item_def dict_genesis_def dict_bytes_def dict_bool_def dict_value_def)
qed

text \<open>The chain state survives a restart: after any batch that ends with the state record, opening
  the database gives back the height, transaction count, tip, flush count and times it was written
  with, and the pointers into the flat files are set back to that height.\<close>

theorem chain_state_roundtrip:
  assumes "storage E" "db_ver s = 8" "scalar_ok (wall_time s)"
  shows "read_utxo_state E C (d\<lparr>utxo_db := db_write E db (ops @ [write_utxo_state C s])\<rparr>) =
    Inr (d\<lparr>utxo_db := db_write E db (ops @ [write_utxo_state C s]),
      db_ver := 8, db_height := db_height s, db_tx_count := db_tx_count s,
      db_tip := db_tip s, utxo_flush_count := utxo_flush_count s, wall_time := wall_time s,
      first_sync := first_sync s, fs_height := db_height s, fs_tx_count := db_tx_count s,
      last_flush_tx_count := db_tx_count s\<rparr>)"
proof -
  have "db_get E (utxo_db (d\<lparr>utxo_db := db_write E db (ops @ [write_utxo_state C s])\<rparr>)) UTXO_STATE_KEY =
      Some (encode (repr_dict (utxo_state_dict C s)))"
    by (simp add: storage.get_write [OF assms(1)] write_utxo_state_def)
  from read_utxo_state_written [OF this assms(2,3)] show ?thesis by simp
qed

definition sample_db :: "tree chain_db" where
  "sample_db = empty_db (new_history RBT.empty) RBT.empty"

theorem chain_state_roundtrip_witness:
  "\<exists>d. read_utxo_state rbt_engine sample_env
     (sample_db\<lparr>utxo_db := db_write rbt_engine RBT.empty ([] @ [write_utxo_state sample_env (sample_db\<lparr>db_height := 7, wall_time := SFloat ''12.25''\<rparr>)])\<rparr>)
     = Inr d \<and> db_height d = 7 \<and> fs_height d = 7 \<and> db_tip d = replicate 32 0 \<and> wall_time d = SFloat ''12.25''"
proof -
  have "float_text ''12.25''" by code_simp
  then have "db_ver (sample_db\<lparr>db_height := 7, wall_time := SFloat ''12.25''\<rparr>) = 8"
    "scalar_ok (wall_time (sample_db\<lparr>db_height := 7, wall_time := SFloat ''12.25''\<rparr>))"
    by (simp_all add: sample_db_def empty_db_def)
  from chain_state_roundtrip [OF rbt_storage.storage_axioms this, where C = sample_env and d = sample_db and db = RBT.empty and ops = "[]"]
  show ?thesis by (simp add: sample_db_def empty_db_def)
qed

subsection \<open>Upgrades\<close>

definition first_is_new :: "contents \<Rightarrow> nat \<Rightarrow> bytes \<Rightarrow> bool" where
  "first_is_new m new_len p \<longleftrightarrow> (\<exists>k v rest. items_of m p = (k, v) # rest \<and> length k = new_len)"

lemma upgrade_prefix_other:
  assumes st: "storage E" and "length p = 3" "length q = 3" "p \<noteq> q" "3 \<le> split"
    and up: "upgrade_prefix E new_len split ver db p = (r, db')"
  shows "items_of (db_get E db') q = items_of (db_get E db) q"
proof (rule items_of_cong)
  fix k assume k: "prefix q k"
  have other: "\<not> prefix p k"
    using assms(2,3,4) k by (metis prefix_length_prefix prefix_order.antisym order_refl)
  let ?rows = "items_of (db_get E db) p"
  let ?ops = "concat (map (\<lambda>(k, v). [Delete k, Put (if ver = 6 then take split k @ [0, 0] @ drop split k @ [0] else k @ [0]) v]) ?rows)"
  have it: "db_iterator E db p False = ?rows" by (simp add: storage.iterator_eq [OF st])
  have under: "prefix p (op_key op)" if op: "op \<in> set ?ops" for op
  proof -
    obtain k v where kv: "(k, v) \<in> set ?rows"
      and op: "op = Delete k \<or> op = Put (if ver = 6 then take split k @ [0, 0] @ drop split k @ [0] else k @ [0]) v"
      using op by auto
    then have "prefix p k" by (simp add: items_of_iff [OF storage.finite_contents [OF st]])
    then obtain z where z: "k = p @ z" by (auto simp: prefix_def)
    then have "take split k = p @ take (split - 3) z" using assms(2,5) by simp
    then show ?thesis using op z by (auto simp: prefix_def)
  qed
  have "k \<notin> op_key ` set ?ops" using under other by blast
  then have ops: "apply_batch ?ops m k = m k" for m by (rule apply_batch_other)
  show "db_get E db' k = db_get E db k"
    using up ops unfolding upgrade_prefix_def it Let_def
    by (auto simp: storage.get_write [OF st] split: list.splits if_splits)
qed

lemma upgrade_prefix_new:
  assumes "storage E" "first_is_new (db_get E db) new_len p"
  shows "fst (upgrade_prefix E new_len split ver db p) = None"
  using assms(2) by (auto simp: first_is_new_def upgrade_prefix_def storage.iterator_eq [OF assms(1)])

lemma upgrade_all_interrupted:
  assumes st: "storage E" and "3 \<le> split" "cursor \<in> set cs" "\<forall>c \<in> set cs. 0 \<le> c \<and> c < 65536" "distinct cs"
    and new: "first_is_new (db_get E db) new_len (letter # be_encode 2 (nat cursor))"
  shows "foldE (\<lambda>cursor (count, db).
        bindE (pack_be_uint16 cursor) (\<lambda>p.
          case upgrade_prefix E new_len split ver db (letter # p) of
            (None, db) \<Rightarrow> Inl TypeError
          | (Some n, db) \<Rightarrow> Inr (count + n, db))) cs (count, db) = Inl TypeError"
  using assms(3-)
proof (induction cs arbitrary: count db)
  case (Cons c cs)
  have pk: "pack_be_uint16 c = Inr (be_encode 2 (nat c))"
    using Cons.prems by (simp add: pack_be_uint16_def pack_be_unsigned_def)
  obtain r db' where up: "upgrade_prefix E new_len split ver db (letter # be_encode 2 (nat c)) = (r, db')"
    by fastforce
  show ?case
  proof (cases "c = cursor")
    case True
    then show ?thesis using upgrade_prefix_new [OF st Cons.prems(4), of split ver] up pk by simp
  next
    case False
    show ?thesis
    proof (cases r)
      case None
      then show ?thesis using up pk by simp
    next
      case (Some n)
      have "be_encode 2 (nat c) \<noteq> be_encode 2 (nat cursor)"
      proof
        assume "be_encode 2 (nat c) = be_encode 2 (nat cursor)"
        from arg_cong [OF this, of be_decode] have "nat c = nat cursor"
          using Cons.prems(1,2) by (subst (asm) (1 2) be_decode_encode) (auto simp: nat_less_iff)
        then show False using False Cons.prems(1,2) by auto
      qed
      then have "items_of (db_get E db') (letter # be_encode 2 (nat cursor)) =
          items_of (db_get E db) (letter # be_encode 2 (nat cursor))"
        by (intro upgrade_prefix_other [OF st _ _ _ assms(2) up]) simp_all
      then have "first_is_new (db_get E db') new_len (letter # be_encode 2 (nat cursor))"
        using Cons.prems(4) by (simp add: first_is_new_def)
      then show ?thesis using Cons.IH [of db' "count + n"] Cons.prems False Some up pk by simp
    qed
  qed
qed simp

text \<open>C20: an upgrade that was interrupted cannot be resumed: when, for any of the 65536 prefixes, the
  first row of the UTXO table already has the new key length, the upgrade raises \<open>TypeError\<close>, because
  the helper returns nothing for such a prefix and its caller adds the result to a count.\<close>

theorem interrupted_upgrade_fails:
  assumes "storage E" "0 \<le> cursor" "cursor < 65536"
    and "first_is_new (db_get E (utxo_db d)) 21 (117 # be_encode 2 (nat cursor))"
  shows "upgrade_utxo_db E C d = Inl TypeError"
  using upgrade_all_interrupted [OF assms(1), of 14 cursor "[0..65535]" "utxo_db d" 21 117 "db_ver d" 0] assms(2-)
  by (simp add: upgrade_utxo_db_def upgrade_all_def)

theorem interrupted_upgrade_fails_witness:
  "\<exists>d C. db_get rbt_engine (utxo_db d) (117 # replicate 20 0) = Some [1] \<and>
     upgrade_utxo_db rbt_engine C d = Inl TypeError"
proof -
  let ?m = "[117 # replicate 20 0 \<mapsto> [1]] :: contents"
  let ?d = "sample_db\<lparr>utxo_db := RBT.insert (117 # replicate 20 0) [1] RBT.empty\<rparr>"
  have m: "db_get rbt_engine (utxo_db ?d) = ?m" by (simp add: rbt_engine_def)
  have p: "be_encode 2 (nat 0) = [0, 0 :: byte]" by (simp add: be_encode_def numeral_2_eq_2)
  have "prefix [117, 0, 0] (117 # replicate 20 (0 :: byte))" by (simp add: numeral_eq_Suc)
  then have "items_of ?m (117 # be_encode 2 (nat 0)) = [(117 # replicate 20 0, [1])]"
    unfolding p by (intro items_of_eqI) (auto split: if_splits)
  then have "first_is_new (db_get rbt_engine (utxo_db ?d)) 21 (117 # be_encode 2 (nat 0))"
    unfolding m first_is_new_def by simp
  from interrupted_upgrade_fails [OF rbt_storage.storage_axioms _ _ this]
  show ?thesis using m by (intro exI [of _ ?d]) simp
qed

end
