(* ===== verification/UtxoCache.thy ===== *)
theory UtxoCache
  imports ChainFiles Transactions
begin

section \<open>The UTXO cache of the block processor (server/block_processor.py)\<close>

text \<open>
  The record \<open>block_processor\<close> is the object \<open>BlockProcessor\<close>: the database, the chain state it has
  reached (ahead of the database until the next flush), the lists of unflushed headers, hashes and
  undo information, and the UTXO cache with the database keys to delete at the next flush.

  \<open>spend_utxo\<close> finds an output in the cache or in the two tables of the database.  The abstract state
  is the set of unspent outputs, a map \<open>U\<close> from outpoints to values; \<open>utxo_rep\<close> relates it to the
  tables, the pending deletions and the cache together.  The locale \<open>utxo_store\<close> is the contract on
  which the block loops rest; \<open>spend_utxo\<close> and the cache update interpret it.
\<close>

record 'db block_processor =
  bp_db :: "'db chain_db"
  bp_height :: int
  bp_tip :: bytes
  bp_tx_count :: nat
  touched :: "bytes set"
  reorg_count :: int
  bp_headers :: "bytes list"
  bp_tx_hashes :: "bytes list"
  undo_infos :: "(bytes list \<times> int) list"
  utxo_cache :: "(bytes \<times> bytes) list"
  db_deletes :: "bytes list"
  next_cache_check :: int
  caught_up :: bool

text \<open>The loop over the candidates; \<open>many\<close> is \<open>len(candidates) > 1\<close>.\<close>

fun spend_candidates ::
  "'db engine \<Rightarrow> 'db chain_db \<Rightarrow> bytes \<Rightarrow> bool \<Rightarrow> (bytes \<times> bytes) list \<Rightarrow> exn + bytes \<times> bytes \<times> bytes" where
  "spend_candidates E d tx_hash many [] = Inl ChainError"
| "spend_candidates E d tx_hash many ((hdb_key, hashX) # rest) =
     (let tx_num_packed = suffix_of TXNUM_LEN hdb_key in
      bindE
        (if many then
           bindE (unpack_le_unsigned 8 (tx_num_packed @ replicate (8 - TXNUM_LEN) 0)) (\<lambda>tx_num.
             let hash = fst (fs_tx_hash tx_num d)
             in if hash \<noteq> Some tx_hash then bindE (assertE (hash \<noteq> None)) (\<lambda>_. Inr False) else Inr True)
         else Inr True)
        (\<lambda>take_it.
           if \<not> take_it then spend_candidates E d tx_hash many rest
           else
             let udb_key = 117 # hashX @ suffix_of (4 + TXNUM_LEN) hdb_key
             in case db_get E (utxo_db d) udb_key of
                  Some (b # bs) \<Rightarrow> Inr (hdb_key, udb_key, hashX @ tx_num_packed @ b # bs)
                | _ \<Rightarrow> spend_candidates E d tx_hash many rest))"

definition spend_utxo ::
  "'db engine \<Rightarrow> bytes \<Rightarrow> nat \<Rightarrow> 'db block_processor \<Rightarrow> exn + bytes \<times> 'db block_processor" where
  "spend_utxo E tx_hash tx_idx bp =
     bindE (pack_le_uint32 (int tx_idx)) (\<lambda>idx_packed.
       let key = tx_hash @ idx_packed;
           cache_value = map_of (utxo_cache bp) key;
           bp = bp\<lparr>utxo_cache := AList.delete key (utxo_cache bp)\<rparr>
       in case cache_value of
            Some (b # bs) \<Rightarrow> Inr (b # bs, bp)
          | _ \<Rightarrow>
            let candidates = db_iterator E (utxo_db (bp_db bp)) (104 # take COMP_TXID_LEN tx_hash @ idx_packed) False
            in bindE (spend_candidates E (bp_db bp) tx_hash (length candidates > 1) candidates)
                 (\<lambda>(hdb_key, udb_key, value).
                    Inr (value, bp\<lparr>db_deletes := db_deletes bp @ [hdb_key, udb_key]\<rparr>)))"

definition put_utxo :: "bytes \<Rightarrow> bytes \<Rightarrow> 'db block_processor \<Rightarrow> 'db block_processor" where
  "put_utxo key value bp = bp\<lparr>utxo_cache := AList.update key value (utxo_cache bp)\<rparr>"

subsection \<open>The abstract UTXO set\<close>

type_synonym utxo_set = "bytes \<rightharpoonup> bytes"

definition hkey :: "bytes \<Rightarrow> bytes \<Rightarrow> bytes" where
  "hkey key v = 104 # take COMP_TXID_LEN key @ suffix_of 4 key @ slice v hashX_len (hashX_len + TXNUM_LEN)"

definition ukey :: "bytes \<Rightarrow> bytes \<Rightarrow> bytes" where
  "ukey key v = 117 # take hashX_len v @ suffix_of 4 key @ slice v hashX_len (hashX_len + TXNUM_LEN)"

definition num_of :: "bytes \<Rightarrow> nat" where
  "num_of v = le_decode (slice v hashX_len (hashX_len + TXNUM_LEN))"

text \<open>An outpoint and its value, in a chain of transactions \<open>T\<close>: the value's transaction number is
  that of the outpoint's transaction.\<close>

definition wf_utxo :: "bytes list \<Rightarrow> bytes \<Rightarrow> bytes \<Rightarrow> bool" where
  "wf_utxo T key v \<longleftrightarrow> length key = 36 \<and> length v = 24 \<and> num_of v < length T \<and> T ! num_of v = take 32 key"

text \<open>The two tables of the database hold the set \<open>D\<close>.\<close>

definition utxo_table :: "contents \<Rightarrow> utxo_set \<Rightarrow> bool" where
  "utxo_table m D \<longleftrightarrow>
     (\<forall>k x. m (104 # k) = Some x \<longleftrightarrow> (\<exists>key v. D key = Some v \<and> 104 # k = hkey key v \<and> x = take hashX_len v)) \<and>
     (\<forall>k x. m (117 # k) = Some x \<longleftrightarrow> (\<exists>key v. D key = Some v \<and> 117 # k = ukey key v \<and> x = suffix_of 8 v))"

text \<open>The transaction numbers of the database are found in the files.\<close>

definition hashes_known :: "'db chain_db \<Rightarrow> utxo_set \<Rightarrow> bool" where
  "hashes_known d D \<longleftrightarrow> (\<forall>key v. D key = Some v \<longrightarrow> fst (fs_tx_hash (num_of v) d) = Some (take 32 key))"

definition delete_keys :: "utxo_set \<Rightarrow> bytes list \<Rightarrow> bytes list" where
  "delete_keys D xs = concat (map (\<lambda>key. [hkey key (the (D key)), ukey key (the (D key))]) xs)"

definition cache_rep ::
  "'db engine \<Rightarrow> bytes list \<Rightarrow> 'db block_processor \<Rightarrow> utxo_set \<Rightarrow> bytes list \<Rightarrow> bool" where
  "cache_rep E T bp D xs \<longleftrightarrow>
     utxo_table (db_get E (utxo_db (bp_db bp))) D \<and>
     (\<forall>key v. D key = Some v \<longrightarrow> wf_utxo T key v) \<and> hashes_known (bp_db bp) D \<and>
     distinct xs \<and> set xs \<subseteq> dom D \<and> db_deletes bp = delete_keys D xs \<and>
     distinct (map fst (utxo_cache bp)) \<and> (\<forall>(key, v) \<in> set (utxo_cache bp). wf_utxo T key v) \<and>
     (\<forall>key \<in> fst ` set (utxo_cache bp). key \<in> dom D \<longrightarrow> key \<in> set xs)"

definition utxo_view :: "'db block_processor \<Rightarrow> utxo_set \<Rightarrow> bytes list \<Rightarrow> utxo_set" where
  "utxo_view bp D xs = (D |` (- set xs)) ++ map_of (utxo_cache bp)"

definition utxo_rep :: "'db engine \<Rightarrow> bytes list \<Rightarrow> 'db block_processor \<Rightarrow> utxo_set \<Rightarrow> bool" where
  "utxo_rep E T bp U \<longleftrightarrow> (\<exists>D xs. cache_rep E T bp D xs \<and> U = utxo_view bp D xs)"

lemma value_parts:
  assumes "length v = 24"
  shows "take hashX_len v @ slice v hashX_len (hashX_len + TXNUM_LEN) @ suffix_of 8 v = v"
proof -
  have "slice v 11 16 @ suffix_of 8 v = drop 11 v"
    using append_take_drop_id [of 5 "drop 11 v"] assms by (simp add: slice_def suffix_of_def add.commute)
  then show ?thesis by (simp add: append_take_drop_id)
qed

lemma key_parts: "length key = 36 \<Longrightarrow> take 32 key @ suffix_of 4 key = key"
  by (simp add: suffix_of_def)

lemma lengths:
  assumes "wf_utxo T key v"
  shows "length (take COMP_TXID_LEN key) = 4" "length (suffix_of 4 key) = 4" "length (take hashX_len v) = 11"
    "length (slice v hashX_len (hashX_len + TXNUM_LEN)) = 5" "length (suffix_of 8 v) = 8"
  using assms by (simp_all add: wf_utxo_def)

lemma wf_num_key:
  assumes "wf_utxo T k v" "wf_utxo T k' v'" "num_of v = num_of v'" "suffix_of 4 k = suffix_of 4 k'"
  shows "k = k'"
  using assms key_parts unfolding wf_utxo_def by metis

lemma hkey_inj:
  assumes "wf_utxo T k v" "wf_utxo T k' v'" "hkey k v = hkey k' v'"
  shows "k = k'"
proof -
  have "suffix_of 4 k = suffix_of 4 k' \<and> slice v 11 16 = slice v' 11 16"
    using assms lengths [OF assms(1)] lengths [OF assms(2)] by (simp add: hkey_def)
  then show ?thesis using wf_num_key [OF assms(1,2)] by (simp add: num_of_def)
qed

lemma ukey_inj:
  assumes "wf_utxo T k v" "wf_utxo T k' v'" "ukey k v = ukey k' v'"
  shows "k = k'"
proof -
  have "suffix_of 4 k = suffix_of 4 k' \<and> slice v 11 16 = slice v' 11 16"
    using assms lengths [OF assms(1)] lengths [OF assms(2)] by (simp add: ukey_def)
  then show ?thesis using wf_num_key [OF assms(1,2)] by (simp add: num_of_def)
qed

lemma suffix_of_hkey:
  assumes "wf_utxo T key v"
  shows "suffix_of TXNUM_LEN (hkey key v) = slice v hashX_len (hashX_len + TXNUM_LEN)"
    "suffix_of (4 + TXNUM_LEN) (hkey key v) = suffix_of 4 key @ slice v hashX_len (hashX_len + TXNUM_LEN)"
proof -
  have "hkey key v = (104 # take COMP_TXID_LEN key @ suffix_of 4 key) @ slice v hashX_len (hashX_len + TXNUM_LEN)"
    "hkey key v = (104 # take COMP_TXID_LEN key) @ (suffix_of 4 key @ slice v hashX_len (hashX_len + TXNUM_LEN))"
    by (simp_all add: hkey_def)
  then show "suffix_of TXNUM_LEN (hkey key v) = slice v hashX_len (hashX_len + TXNUM_LEN)"
    "suffix_of (4 + TXNUM_LEN) (hkey key v) = suffix_of 4 key @ slice v hashX_len (hashX_len + TXNUM_LEN)"
    using lengths [OF assms] by (metis suffix_of_append, metis suffix_of_append length_append)
qed


subsection \<open>Spending from the database\<close>

definition candidate :: "utxo_set \<Rightarrow> bytes \<Rightarrow> bytes \<times> bytes \<Rightarrow> bool" where
  "candidate D idx row \<longleftrightarrow>
     (\<exists>key v. D key = Some v \<and> row = (hkey key v, take hashX_len v) \<and> suffix_of 4 key = idx)"

lemma spend_candidates_finds:
  assumes tab: "utxo_table (db_get E (utxo_db d)) D"
    and wf: "\<forall>key v. D key = Some v \<longrightarrow> wf_utxo T key v" and known: "hashes_known d D"
    and key: "D (h @ idx) = Some v" "length h = 32" "length idx = 4"
  shows "\<forall>row \<in> set rows. candidate D idx row \<Longrightarrow> (hkey (h @ idx) v, take hashX_len v) \<in> set rows \<Longrightarrow>
    (\<not> many \<Longrightarrow> \<forall>row \<in> set rows. row = (hkey (h @ idx) v, take hashX_len v)) \<Longrightarrow>
    spend_candidates E d h many rows = Inr (hkey (h @ idx) v, ukey (h @ idx) v, v)"
proof (induction rows)
  case (Cons row rows)
  obtain key w where row: "D key = Some w" "row = (hkey key w, take hashX_len w)" "suffix_of 4 key = idx"
    using Cons.prems(1) unfolding candidate_def by auto
  have wfk: "wf_utxo T key w" and wfh: "wf_utxo T (h @ idx) v" using wf row(1) key(1) by auto
  have hash: "fst (fs_tx_hash (num_of w) d) = Some (take 32 key)"
    using known row(1) by (simp add: hashes_known_def)
  have unp: "unpack_le_unsigned 8 (slice w hashX_len (hashX_len + TXNUM_LEN) @ replicate (8 - TXNUM_LEN) 0) = Inr (num_of w)"
    using lengths [OF wfk] by (simp only: unpack_le_unsigned_def num_of_def le_decode_pad length_append) simp
  show ?case
  proof (cases "key = h @ idx")
    case True
    then have w: "w = v" using row(1) key(1) by simp
    have t32: "take 32 key = h" using True key(2) by simp
    have val: "db_get E (utxo_db d) (ukey key w) = Some (suffix_of 8 w)"
    proof -
      have "db_get E (utxo_db d) (117 # tl (ukey key w)) = Some (suffix_of 8 w)"
        using tab row(1) unfolding utxo_table_def by (metis ukey_def list.sel(3))
      then show ?thesis by (simp add: ukey_def)
    qed
    obtain b bs where b: "suffix_of 8 w = b # bs"
      using lengths(5) [OF wfk] by (cases "suffix_of 8 w") auto
    have uk: "117 # take hashX_len w @ suffix_of (4 + TXNUM_LEN) (hkey key w) = ukey key w"
      unfolding suffix_of_hkey [OF wfk] by (simp add: ukey_def)
    have "take hashX_len w @ slice w hashX_len (hashX_len + TXNUM_LEN) @ b # bs = w"
      using value_parts [of w] wfk b by (simp add: wf_utxo_def)
    then show ?thesis
      unfolding row(2) spend_candidates.simps suffix_of_hkey(1) [OF wfk] Let_def uk val unp
      using hash t32 by (simp add: b [unfolded w] True w)
  next
    case False
    then have m: "many" using Cons.prems(3) row hkey_inj [OF wfk wfh] by auto
    have "take 32 key \<noteq> h"
      using False row(3) key_parts [of key] wfk by (auto simp: wf_utxo_def)
    moreover have "spend_candidates E d h many rows = Inr (hkey (h @ idx) v, ukey (h @ idx) v, v)"
      by (rule Cons.IH) (use Cons.prems row hkey_inj [OF wfk wfh] False m in auto)
    ultimately show ?thesis
      unfolding row(2) spend_candidates.simps suffix_of_hkey(1) [OF wfk] Let_def unp
      using hash m by simp
  qed
qed simp

lemma candidates_of_table:
  assumes st: "storage E" and tab: "utxo_table (db_get E db) D"
    and wf: "\<forall>key v. D key = Some v \<longrightarrow> wf_utxo T key v" and len: "length h = 32" "length idx = 4"
  shows "row \<in> set (db_iterator E db (104 # take COMP_TXID_LEN h @ idx) False) \<longleftrightarrow>
    (\<exists>key v. D key = Some v \<and> row = (hkey key v, take hashX_len v) \<and>
       take COMP_TXID_LEN key = take COMP_TXID_LEN h \<and> suffix_of 4 key = idx)"
proof -
  have pre: "prefix (104 # take COMP_TXID_LEN h @ idx) (hkey key v) \<longleftrightarrow>
      take COMP_TXID_LEN key = take COMP_TXID_LEN h \<and> suffix_of 4 key = idx" if "D key = Some v" for key v
  proof -
    have l: "length (take COMP_TXID_LEN key) = 4" "length (suffix_of 4 key) = 4"
      using wf that lengths by blast+
    have "prefix (104 # take COMP_TXID_LEN h @ idx) (hkey key v) \<longleftrightarrow>
        prefix (take COMP_TXID_LEN h @ idx) ((take COMP_TXID_LEN key @ suffix_of 4 key) @ slice v hashX_len (hashX_len + TXNUM_LEN))"
      by (simp add: hkey_def)
    also have "\<dots> \<longleftrightarrow> take COMP_TXID_LEN h @ idx = take COMP_TXID_LEN key @ suffix_of 4 key"
      by (rule prefix_same_length) (use l len in simp)
    also have "\<dots> \<longleftrightarrow> take COMP_TXID_LEN key = take COMP_TXID_LEN h \<and> suffix_of 4 key = idx"
      using l len by (subst append_eq_append_conv) auto
    finally show ?thesis .
  qed
  obtain k x where row: "row = (k, x)" by fastforce
  have rw: "row \<in> set (db_iterator E db (104 # take COMP_TXID_LEN h @ idx) False) \<longleftrightarrow>
      db_get E db k = Some x \<and> prefix (104 # take COMP_TXID_LEN h @ idx) k"
    unfolding row by (rule storage.iterator_items [OF st])
  show ?thesis
  proof
    assume "row \<in> set (db_iterator E db (104 # take COMP_TXID_LEN h @ idx) False)"
    then have get: "db_get E db k = Some x" and p: "prefix (104 # take COMP_TXID_LEN h @ idx) k" using rw by auto
    then obtain z where "k = 104 # z" by (auto simp: prefix_def)
    then obtain key v where "D key = Some v" "k = hkey key v" "x = take hashX_len v"
      using get tab unfolding utxo_table_def by auto
    then show "\<exists>key v. D key = Some v \<and> row = (hkey key v, take hashX_len v) \<and>
       take COMP_TXID_LEN key = take COMP_TXID_LEN h \<and> suffix_of 4 key = idx"
      using pre p row by blast
  next
    assume "\<exists>key v. D key = Some v \<and> row = (hkey key v, take hashX_len v) \<and>
       take COMP_TXID_LEN key = take COMP_TXID_LEN h \<and> suffix_of 4 key = idx"
    then obtain key v where kv: "D key = Some v" "k = hkey key v" "x = take hashX_len v"
      "take COMP_TXID_LEN key = take COMP_TXID_LEN h" "suffix_of 4 key = idx" using row by auto
    have "db_get E db (104 # tl k) = Some x"
      using tab kv unfolding utxo_table_def by (metis hkey_def list.sel(3))
    then have "db_get E db k = Some x" by (simp add: kv(2) hkey_def)
    then show "row \<in> set (db_iterator E db (104 # take COMP_TXID_LEN h @ idx) False)"
      using rw pre [OF kv(1)] kv by simp
  qed
qed

lemma spend_from_db:
  assumes st: "storage E" and tab: "utxo_table (db_get E (utxo_db d)) D"
    and wf: "\<forall>key v. D key = Some v \<longrightarrow> wf_utxo T key v" and known: "hashes_known d D"
    and key: "D (h @ idx) = Some v" "length h = 32" "length idx = 4"
    and rows: "rows = db_iterator E (utxo_db d) (104 # take COMP_TXID_LEN h @ idx) False"
  shows "spend_candidates E d h (length rows > 1) rows = Inr (hkey (h @ idx) v, ukey (h @ idx) v, v)"
proof (rule spend_candidates_finds [OF tab wf known key])
  note mem = candidates_of_table [OF st tab wf key(2,3), folded rows]
  show "\<forall>row \<in> set rows. candidate D idx row" using mem unfolding candidate_def by blast
  show here: "(hkey (h @ idx) v, take hashX_len v) \<in> set rows"
    unfolding mem using key by (intro exI [of _ "h @ idx"] exI [of _ v]) (simp add: suffix_of_def)
  show "\<forall>row \<in> set rows. row = (hkey (h @ idx) v, take hashX_len v)" if few: "\<not> length rows > 1"
  proof -
    have "rows \<noteq> []" using here by auto
    then obtain r where "rows = [r]" using few by (cases rows) auto
    then show ?thesis using here by simp
  qed
qed


subsection \<open>Spending and adding on the abstract set\<close>

text \<open>Everything but the cache and the deletions.\<close>

definition frame :: "'db block_processor \<Rightarrow> 'db block_processor" where
  "frame bp = bp\<lparr>utxo_cache := [], db_deletes := []\<rparr>"

lemma frame_simps [simp]:
  "frame (bp\<lparr>utxo_cache := c\<rparr>) = frame bp" "frame (bp\<lparr>db_deletes := x\<rparr>) = frame bp"
  "frame (put_utxo key v bp) = frame bp"
  by (simp_all add: frame_def put_utxo_def)

lemma view_fresh:
  assumes "cache_rep E T bp D xs" "utxo_view bp D xs key = None"
  shows "key \<notin> fst ` set (utxo_cache bp)" "key \<in> dom D \<longrightarrow> key \<in> set xs"
proof -
  show "key \<notin> fst ` set (utxo_cache bp)"
    using assms(2) by (auto simp: utxo_view_def map_of_eq_None_iff map_add_None)
  show "key \<in> dom D \<longrightarrow> key \<in> set xs"
    using assms(2) by (auto simp: utxo_view_def map_add_None restrict_map_def split: if_splits)
qed

lemma rep_put_utxo:
  assumes rep: "utxo_rep E T bp U" and wf: "wf_utxo T key v" and fresh: "U key = None"
  shows "utxo_rep E T (put_utxo key v bp) (U(key \<mapsto> v))"
proof -
  obtain D xs where c: "cache_rep E T bp D xs" and U: "U = utxo_view bp D xs"
    using rep by (auto simp: utxo_rep_def)
  note fr = view_fresh [OF c fresh [unfolded U]]
  have "set (utxo_cache (put_utxo key v bp)) \<subseteq> insert (key, v) (set (utxo_cache bp))"
    by (simp add: put_utxo_def set_update_subset)
  then have "\<forall>(k, w) \<in> set (utxo_cache (put_utxo key v bp)). wf_utxo T k w"
    using c wf unfolding cache_rep_def by blast
  moreover have "fst ` set (utxo_cache (put_utxo key v bp)) = insert key (fst ` set (utxo_cache bp))"
    by (simp add: put_utxo_def dom_update)
  ultimately have "cache_rep E T (put_utxo key v bp) D xs"
    using c fr by (auto simp: cache_rep_def put_utxo_def distinct_update)
  moreover have "U(key \<mapsto> v) = utxo_view (put_utxo key v bp) D xs"
    by (rule ext) (simp add: U utxo_view_def put_utxo_def map_add_def)
  ultimately show ?thesis unfolding utxo_rep_def by blast
qed

lemma rep_spend_utxo:
  assumes st: "storage E" and rep: "utxo_rep E T bp U"
    and key: "U (h @ le_encode 4 i) = Some v" "length h = 32" "i < 2 ^ 32"
  shows "\<exists>bp'. spend_utxo E h i bp = Inr (v, bp') \<and> utxo_rep E T bp' (U(h @ le_encode 4 i := None)) \<and>
    frame bp' = frame bp"
proof -
  let ?k = "h @ le_encode 4 i"
  obtain D xs where c: "cache_rep E T bp D xs" and U: "U = utxo_view bp D xs"
    using rep by (auto simp: utxo_rep_def)
  have idx: "pack_le_uint32 (int i) = Inr (le_encode 4 i)"
    using key(3) by (simp add: pack_le_uint32_def pack_le_unsigned_def)
  let ?bp = "bp\<lparr>utxo_cache := AList.delete ?k (utxo_cache bp)\<rparr>"
  have sub: "set (AList.delete ?k (utxo_cache bp)) \<subseteq> set (utxo_cache bp)"
    by (auto simp: AList.delete_eq)
  have c': "cache_rep E T ?bp D xs"
    using c sub by (auto simp: cache_rep_def distinct_delete intro: distinct_keys_delete)
  show ?thesis
  proof (cases "map_of (utxo_cache bp) ?k")
    case (Some w)
    then have w: "w = v" using key(1) by (simp add: U utxo_view_def)
    have "wf_utxo T ?k w" using c Some unfolding cache_rep_def by (blast dest: map_of_SomeD)
    then obtain b bs where b: "v = b # bs" unfolding w by (cases v) (auto simp: wf_utxo_def)
    have spend: "spend_utxo E h i bp = Inr (v, ?bp)"
      using Some idx by (simp add: spend_utxo_def Let_def w b)
    have dead: "?k \<in> dom D \<longrightarrow> ?k \<in> set xs"
      using c Some map_of_SomeD [OF Some] unfolding cache_rep_def by force
    have "(D |` (- set xs)) ?k = None"
      using dead by (cases "D ?k") (auto simp: restrict_map_def)
    then have "U(?k := None) = utxo_view ?bp D xs"
      by (intro ext) (simp add: U utxo_view_def map_add_def)
    then show ?thesis using spend c' unfolding utxo_rep_def by (intro exI [of _ ?bp]) auto
  next
    case None
    then have "(D |` (- set xs)) ?k = Some v"
      using key(1) by (simp add: U utxo_view_def map_add_def)
    then have D: "D ?k = Some v" and nx: "?k \<notin> set xs"
      unfolding restrict_map_def by (simp_all split: if_splits)
    have tab: "utxo_table (db_get E (utxo_db (bp_db bp))) D"
      and wf: "\<forall>key v. D key = Some v \<longrightarrow> wf_utxo T key v" and known: "hashes_known (bp_db bp) D"
      using c by (simp_all add: cache_rep_def)
    let ?bp' = "?bp\<lparr>db_deletes := db_deletes bp @ [hkey ?k v, ukey ?k v]\<rparr>"
    have spend: "spend_utxo E h i bp = Inr (v, ?bp')"
      using None idx spend_from_db [OF st tab wf known D key(2) length_le_encode refl]
      by (simp add: spend_utxo_def Let_def)
    have "cache_rep E T ?bp' D (xs @ [?k])"
      using c' D nx by (auto simp: cache_rep_def delete_keys_def hashes_known_def)
    moreover have "U(?k := None) = utxo_view ?bp' D (xs @ [?k])"
      using None by (intro ext) (auto simp: U utxo_view_def map_add_def restrict_map_def)
    ultimately show ?thesis using spend unfolding utxo_rep_def by (intro exI [of _ ?bp']) auto
  qed
qed


subsection \<open>Flushing the cache\<close>

lemma utxo_puts_keys: "utxo_puts (key, v) = [Put (hkey key v) (take hashX_len v), Put (ukey key v) (suffix_of 8 v)]"
  by (simp add: utxo_puts_def hkey_def ukey_def Let_def)

lemma hkey_ukey [simp]: "hkey key v \<noteq> ukey key' v'" "ukey key v \<noteq> hkey key' v'"
  "117 # k \<noteq> hkey key v" "104 # k \<noteq> ukey key v"
  by (simp_all add: hkey_def ukey_def)

lemma table_put:
  assumes tab: "utxo_table m D" and wf: "\<forall>k w. D k = Some w \<longrightarrow> wf_utxo T k w" "wf_utxo T key v"
    and fresh: "D key = None"
  shows "utxo_table (apply_batch (utxo_puts (key, v)) m) (D(key \<mapsto> v))"
proof -
  have h: "hkey k w = hkey key v \<Longrightarrow> D k = Some w \<Longrightarrow> False" for k w
    using hkey_inj wf fresh by (metis option.distinct(1))
  have u: "ukey k w = ukey key v \<Longrightarrow> D k = Some w \<Longrightarrow> False" for k w
    using ukey_inj wf fresh by (metis option.distinct(1))
  have "(apply_batch (utxo_puts (key, v)) m) (104 # k) = Some x \<longleftrightarrow>
      (\<exists>k' w. (D(key \<mapsto> v)) k' = Some w \<and> 104 # k = hkey k' w \<and> x = take hashX_len w)" for k x
  proof (cases "104 # k = hkey key v")
    case True
    have "(\<exists>k' w. (D(key \<mapsto> v)) k' = Some w \<and> hkey key v = hkey k' w \<and> x = take hashX_len w) \<longleftrightarrow> x = take hashX_len v"
      using h by (metis fun_upd_apply option.inject)
    then show ?thesis unfolding True by (auto simp: utxo_puts_keys)
  next
    case False
    have "(\<exists>k' w. (D(key \<mapsto> v)) k' = Some w \<and> 104 # k = hkey k' w \<and> x = take hashX_len w) \<longleftrightarrow>
        (\<exists>k' w. D k' = Some w \<and> 104 # k = hkey k' w \<and> x = take hashX_len w)"
      using False fresh by (metis fun_upd_apply option.distinct(1) option.inject)
    then show ?thesis using False tab unfolding utxo_table_def by (simp add: utxo_puts_keys)
  qed
  moreover have "(apply_batch (utxo_puts (key, v)) m) (117 # k) = Some x \<longleftrightarrow>
      (\<exists>k' w. (D(key \<mapsto> v)) k' = Some w \<and> 117 # k = ukey k' w \<and> x = suffix_of 8 w)" for k x
  proof (cases "117 # k = ukey key v")
    case True
    have "(\<exists>k' w. (D(key \<mapsto> v)) k' = Some w \<and> ukey key v = ukey k' w \<and> x = suffix_of 8 w) \<longleftrightarrow> x = suffix_of 8 v"
      using u by (metis fun_upd_apply option.inject)
    then show ?thesis unfolding True by (auto simp: utxo_puts_keys)
  next
    case False
    have "(\<exists>k' w. (D(key \<mapsto> v)) k' = Some w \<and> 117 # k = ukey k' w \<and> x = suffix_of 8 w) \<longleftrightarrow>
        (\<exists>k' w. D k' = Some w \<and> 117 # k = ukey k' w \<and> x = suffix_of 8 w)"
      using False fresh by (metis fun_upd_apply option.distinct(1) option.inject)
    then show ?thesis using False tab unfolding utxo_table_def by (simp add: utxo_puts_keys)
  qed
  ultimately show ?thesis by (simp add: utxo_table_def)
qed

lemma table_puts:
  assumes "utxo_table m D" "\<forall>k w. D k = Some w \<longrightarrow> wf_utxo T k w"
    "\<forall>(k, w) \<in> set adds. wf_utxo T k w" "distinct (map fst adds)" "\<forall>k \<in> fst ` set adds. D k = None"
  shows "utxo_table (apply_batch (concat (map utxo_puts adds)) m) (D ++ map_of adds)"
  using assms
proof (induction adds arbitrary: m D)
  case (Cons kv adds)
  obtain key v where kv: "kv = (key, v)" by fastforce
  have "utxo_table (apply_batch (utxo_puts (key, v)) m) (D(key \<mapsto> v))"
    by (rule table_put [OF Cons.prems(1,2)]) (use Cons.prems kv in auto)
  then have "utxo_table (apply_batch (concat (map utxo_puts adds)) (apply_batch (utxo_puts (key, v)) m)) (D(key \<mapsto> v) ++ map_of adds)"
    by (rule Cons.IH) (use Cons.prems kv in \<open>auto split: if_splits\<close>)
  moreover have "D(key \<mapsto> v) ++ map_of adds = D ++ map_of (kv # adds)"
  proof -
    have "map_of adds key = None" using Cons.prems(4) kv by (auto simp: map_of_eq_None_iff)
    then show ?thesis using kv by (intro ext) (auto simp: map_add_def split: option.splits)
  qed
  ultimately have "utxo_table (apply_batch (concat (map utxo_puts adds)) (apply_batch (utxo_puts (key, v)) m)) (D ++ map_of (kv # adds))"
    by simp
  then show ?case by (simp add: kv del: map_of.simps)
qed simp

lemma table_deletes:
  assumes tab: "utxo_table m D" and wf: "\<forall>k w. D k = Some w \<longrightarrow> wf_utxo T k w" and xs: "set xs \<subseteq> dom D"
  shows "utxo_table (m |` (- set (delete_keys D xs))) (D |` (- set xs))"
proof -
  have h: "hkey k w \<in> set (delete_keys D xs) \<longleftrightarrow> k \<in> set xs" if "D k = Some w" for k w
  proof
    assume "hkey k w \<in> set (delete_keys D xs)"
    then obtain k' where "k' \<in> set xs" "hkey k w = hkey k' (the (D k'))" by (auto simp: delete_keys_def)
    moreover then obtain w' where "D k' = Some w'" using xs by auto
    ultimately show "k \<in> set xs" using hkey_inj wf that by (metis option.sel)
  qed (use that in \<open>force simp: delete_keys_def\<close>)
  have u: "ukey k w \<in> set (delete_keys D xs) \<longleftrightarrow> k \<in> set xs" if "D k = Some w" for k w
  proof
    assume "ukey k w \<in> set (delete_keys D xs)"
    then obtain k' where "k' \<in> set xs" "ukey k w = ukey k' (the (D k'))" by (auto simp: delete_keys_def)
    moreover then obtain w' where "D k' = Some w'" using xs by auto
    ultimately show "k \<in> set xs" using ukey_inj wf that by (metis option.sel)
  qed (use that in \<open>force simp: delete_keys_def\<close>)
  have "(m |` (- set (delete_keys D xs))) (104 # k) = Some x \<longleftrightarrow>
      (\<exists>key v. (D |` (- set xs)) key = Some v \<and> 104 # k = hkey key v \<and> x = take hashX_len v)" for k x
    using tab h unfolding utxo_table_def restrict_map_def by (auto split: if_splits) ((metis+)?)
  moreover have "(m |` (- set (delete_keys D xs))) (117 # k) = Some x \<longleftrightarrow>
      (\<exists>key v. (D |` (- set xs)) key = Some v \<and> 117 # k = ukey key v \<and> x = suffix_of 8 v)" for k x
    using tab u unfolding utxo_table_def restrict_map_def by (auto split: if_splits) ((metis+)?)
  ultimately show ?thesis by (simp add: utxo_table_def)
qed

lemma table_cong:
  assumes "\<And>k. m' (104 # k) = m (104 # k)" "\<And>k. m' (117 # k) = m (117 # k)"
  shows "utxo_table m' D \<longleftrightarrow> utxo_table m D"
  by (simp add: utxo_table_def assms)

lemma undo_ops_keys:
  assumes "flush_undo_infos infos = Inr ops"
  shows "ops = map (\<lambda>(info, h). Put (85 # be_encode 4 (nat h)) (concat info)) infos"
    "\<forall>(info, h) \<in> set infos. undo_key h = Inr (85 # be_encode 4 (nat h)) \<and> 0 \<le> h \<and> h < 2 ^ 32"
  using assms unfolding flush_undo_infos_def undo_key_def pack_be_uint32_def
  by (induction infos arbitrary: ops) (auto simp: err_simps)

lemma state_key_other [simp]:
  "104 # x \<noteq> UTXO_STATE_KEY" "117 # x \<noteq> UTXO_STATE_KEY" "85 # x \<noteq> UTXO_STATE_KEY"
  by (simp_all add: UTXO_STATE_KEY_def encode_def)

definition cache_flush :: "flush_data \<Rightarrow> 'db block_processor \<Rightarrow> bool" where
  "cache_flush fl bp \<longleftrightarrow> fl_adds fl = utxo_cache bp \<and> fl_deletes fl = db_deletes bp \<and> fl_undo_infos fl = undo_infos bp"

lemma flush_utxo_table:
  assumes st: "storage E" and rep: "utxo_rep E T bp U" and fl: "cache_flush fl bp"
    and run: "flush_utxo_db fl d = Inr (ops, fl', d')"
  shows "utxo_table (db_get E (db_write E (utxo_db (bp_db bp)) (ops @ [write_utxo_state C s]))) U"
proof -
  let ?m = "db_get E (utxo_db (bp_db bp))"
  obtain D xs where c: "cache_rep E T bp D xs" and U: "U = utxo_view bp D xs"
    using rep by (auto simp: utxo_rep_def)
  obtain undo where undo: "flush_undo_infos (undo_infos bp) = Inr undo"
    and ops: "ops = map Delete (sort (db_deletes bp)) @ concat (map utxo_puts (utxo_cache bp)) @ undo"
    using run fl by (auto simp: flush_utxo_db_def err_simps cache_flush_def)
  have "utxo_table (?m |` (- set (delete_keys D xs))) (D |` (- set xs))"
    by (rule table_deletes) (use c in \<open>auto simp: cache_rep_def\<close>)
  then have "utxo_table (apply_batch (concat (map utxo_puts (utxo_cache bp))) (?m |` (- set (delete_keys D xs)))) U"
    unfolding U utxo_view_def
    by (rule table_puts) (use c in \<open>auto simp: cache_rep_def restrict_map_def split: if_splits\<close>)
  moreover have "db_deletes bp = delete_keys D xs" using c by (simp add: cache_rep_def)
  ultimately have tab: "utxo_table (apply_batch (map Delete (sort (db_deletes bp)) @ concat (map utxo_puts (utxo_cache bp))) ?m) U"
    by (simp add: apply_deletes)
  have other: "k \<notin> op_key ` set (undo @ [write_utxo_state C s])" if "k \<in> {104 # x, 117 # x}" for k x
    using that undo_ops_keys(1) [OF undo] by (auto simp: write_utxo_state_def)
  have "db_get E (db_write E (utxo_db (bp_db bp)) (ops @ [write_utxo_state C s])) k =
      apply_batch (map Delete (sort (db_deletes bp)) @ concat (map utxo_puts (utxo_cache bp))) ?m k"
    if "k \<in> {104 # x, 117 # x}" for k x
    using apply_batch_other [OF other [OF that]] by (simp add: storage.get_write [OF st] ops)
  then show ?thesis using tab by (subst table_cong) auto
qed


lemma puts_last:
  "distinct (map fst kvs) \<Longrightarrow> (k, v) \<in> set kvs \<Longrightarrow> apply_batch (map (\<lambda>(k, v). Put k v) kvs) m k = Some v"
proof (induction kvs arbitrary: m)
  case (Cons kv kvs)
  show ?case
  proof (cases "kv = (k, v)")
    case True
    then have "k \<notin> op_key ` set (map (\<lambda>(k, v). Put k v) kvs)" using Cons.prems by force
    then show ?thesis using True by (simp add: apply_batch_other)
  next
    case False
    then show ?thesis using Cons by (simp split: prod.splits)
  qed
qed simp

lemma be_encode_4_inj:
  assumes "be_encode 4 (nat a) = be_encode 4 (nat b)" "0 \<le> a" "0 \<le> b" "a < 2 ^ 32" "b < 2 ^ 32"
  shows "a = b"
proof -
  have "be_decode (be_encode 4 (nat c)) = nat c" if "0 \<le> c" "c < 2 ^ 32" for c
    by (rule be_decode_encode) (use that in \<open>simp add: nat_less_iff\<close>)
  from this [of a] this [of b] have "nat a = nat b" using assms by simp
  then show ?thesis using assms(2,3) by simp
qed

lemma flush_undo_read:
  assumes st: "storage E" and fl: "cache_flush fl bp"
    and run: "flush_utxo_db fl d = Inr (ops, fl', d')"
    and infos: "distinct (map snd (undo_infos bp))" "(info, h) \<in> set (undo_infos bp)"
    and db: "utxo_db d0 = db_write E db (ops @ [write_utxo_state C s])"
  shows "read_undo_info E h d0 = Inr (Some (concat info))"
proof -
  obtain undo where undo: "flush_undo_infos (undo_infos bp) = Inr undo"
    and ops: "ops = map Delete (sort (db_deletes bp)) @ concat (map utxo_puts (utxo_cache bp)) @ undo"
    using run fl by (auto simp: flush_utxo_db_def err_simps cache_flush_def)
  let ?kvs = "map (\<lambda>(info, h). (85 # be_encode 4 (nat h), concat info)) (undo_infos bp)"
  have undo': "undo = map (\<lambda>(k, v). Put k v) ?kvs"
    unfolding undo_ops_keys(1) [OF undo] by (simp add: comp_def case_prod_beta)
  have "distinct (map fst ?kvs)"
  proof -
    have "inj_on (\<lambda>h. 85 # be_encode 4 (nat h)) (snd ` set (undo_infos bp))"
      using undo_ops_keys(2) [OF undo] by (auto intro!: inj_onI be_encode_4_inj)
    then have "distinct (map (\<lambda>h. 85 # be_encode 4 (nat h)) (map snd (undo_infos bp)))"
      using infos(1) by (simp only: distinct_map set_map)
    then show ?thesis by (simp add: comp_def case_prod_beta)
  qed
  moreover have "(85 # be_encode 4 (nat h), concat info) \<in> set ?kvs" using infos(2) by force
  ultimately have "apply_batch undo m (85 # be_encode 4 (nat h)) = Some (concat info)" for m
    unfolding undo' by (rule puts_last)
  then have "db_get E (utxo_db d0) (85 # be_encode 4 (nat h)) = Some (concat info)"
    unfolding db storage.get_write [OF st] ops by (simp add: write_utxo_state_def)
  moreover have "undo_key h = Inr (85 # be_encode 4 (nat h))"
    using undo_ops_keys(2) [OF undo] infos(2) by auto
  ultimately show ?thesis by (simp add: read_undo_info_def)
qed

text \<open>C17: flushing the UTXO cache commits exactly the abstract UTXO set: after the batch that deletes the
  spent rows, writes the cached outputs and the undo information and ends with the state, the two
  tables of the database hold the set that tables, deletions and cache stood for before, and the undo
  information of every height is read back.\<close>

theorem utxo_flush_commits:
  assumes "storage E" "utxo_rep E T bp U" "cache_flush fl bp"
    and "flush_utxo_db fl d = Inr (ops, fl', d')" "distinct (map snd (undo_infos bp))"
    and "utxo_db d0 = db_write E (utxo_db (bp_db bp)) (ops @ [write_utxo_state C s])"
  shows "utxo_table (db_get E (utxo_db d0)) U \<and>
    (\<forall>(info, h) \<in> set (undo_infos bp). read_undo_info E h d0 = Inr (Some (concat info))) \<and>
    fl_adds fl' = [] \<and> fl_deletes fl' = [] \<and> fl_undo_infos fl' = []"
  using flush_utxo_table [OF assms(1-4)] flush_undo_read [OF assms(1,3,4,5) _ assms(6)] assms(4,6)
  by (auto simp: flush_utxo_db_def err_simps)

text \<open>C8: spending an output that exists always succeeds, whether it is in the cache or in the database,
  among any number of rows with the same compressed hash; it gives the output's value and removes
  exactly that output from the UTXO set, changing nothing else of the block processor.\<close>

theorem spend_utxo_refines:
  assumes "storage E" "utxo_rep E T bp U" "U (h @ le_encode 4 i) = Some v" "length h = 32" "i < 2 ^ 32"
  shows "\<exists>bp'. spend_utxo E h i bp = Inr (v, bp') \<and> utxo_rep E T bp' (U(h @ le_encode 4 i := None)) \<and>
    frame bp' = frame bp"
  by (rule rep_spend_utxo [OF assms])


text \<open>A block processor with one cached output, to apply the theorems to.\<close>

definition empty_bp :: "'db chain_db \<Rightarrow> 'db block_processor" where
  "empty_bp d = \<lparr>bp_db = d, bp_height = -1, bp_tip = replicate 32 0, bp_tx_count = 0, touched = {},
     reorg_count = 0, bp_headers = [], bp_tx_hashes = [], undo_infos = [], utxo_cache = [],
     db_deletes = [], next_cache_check = 0, caught_up = False\<rparr>"

lemma rep_empty:
  assumes "\<And>k. db_get E (utxo_db d) (104 # k) = None" "\<And>k. db_get E (utxo_db d) (117 # k) = None"
  shows "utxo_rep E T (empty_bp d) Map.empty"
proof -
  have "cache_rep E T (empty_bp d) Map.empty []"
    by (simp add: cache_rep_def utxo_table_def hashes_known_def empty_bp_def delete_keys_def assms)
  moreover have "Map.empty = utxo_view (empty_bp d) Map.empty []"
    by (simp add: utxo_view_def empty_bp_def)
  ultimately show ?thesis unfolding utxo_rep_def by blast
qed

definition sample_bp :: "tree block_processor" where
  "sample_bp = empty_bp (empty_db (new_history RBT.empty) RBT.empty)"

abbreviation "sample_key \<equiv> replicate 32 1 @ le_encode 4 0 :: bytes"
abbreviation "sample_value \<equiv> replicate 11 7 @ le_encode 5 0 @ le_encode 8 9 :: bytes"

lemma sample_utxo_rep:
  "utxo_rep rbt_engine [replicate 32 1] (put_utxo sample_key sample_value sample_bp) [sample_key \<mapsto> sample_value]"
proof (rule rep_put_utxo)
  show "utxo_rep rbt_engine [replicate 32 1] sample_bp Map.empty"
    unfolding sample_bp_def by (rule rep_empty) (simp_all add: rbt_engine_def empty_db_def)
  have "slice sample_value 11 16 = le_encode 5 0" by (simp add: slice_def)
  then show "wf_utxo [replicate 32 1] sample_key sample_value" by (simp add: wf_utxo_def num_of_def)
qed simp

theorem spend_utxo_refines_witness:
  "\<exists>bp. spend_utxo rbt_engine (replicate 32 1) 0 (put_utxo sample_key sample_value sample_bp) = Inr (sample_value, bp) \<and>
     utxo_rep rbt_engine [replicate 32 1] bp Map.empty"
proof -
  have "[sample_key \<mapsto> sample_value] (replicate 32 1 @ le_encode 4 0) = Some sample_value" by simp
  moreover have e: "[sample_key \<mapsto> sample_value](replicate 32 1 @ le_encode 4 0 := None) = Map.empty" by (rule ext) simp
  ultimately show ?thesis
    using spend_utxo_refines [OF rbt_storage.storage_axioms sample_utxo_rep, of "replicate 32 1" 0 sample_value, unfolded e]
    by auto
qed

theorem utxo_flush_commits_witness:
  "\<exists>ops fl d. flush_utxo_db
       (sample_flush\<lparr>fl_adds := [(sample_key, sample_value)], fl_undo_infos := [([[1], [2]], 0)]\<rparr>)
       (bp_db sample_bp) = Inr (ops, fl, d) \<and>
     utxo_table (RBT.lookup (foldl rbt_op RBT.empty (ops @ [write_utxo_state sample_env d]))) [sample_key \<mapsto> sample_value]"
proof -
  let ?bp = "(put_utxo sample_key sample_value sample_bp)\<lparr>undo_infos := [([[1], [2]], 0)]\<rparr>"
  let ?fl = "sample_flush\<lparr>fl_adds := [(sample_key, sample_value)], fl_undo_infos := [([[1], [2]], 0)]\<rparr>"
  have rep: "utxo_rep rbt_engine [replicate 32 1] ?bp [sample_key \<mapsto> sample_value]"
    using sample_utxo_rep unfolding utxo_rep_def by (simp add: cache_rep_def utxo_view_def)
  have fl: "cache_flush ?fl ?bp"
    by (simp add: cache_flush_def put_utxo_def sample_bp_def empty_bp_def sample_flush_def)
  obtain ops fl' d where run: "flush_utxo_db ?fl (bp_db sample_bp) = Inr (ops, fl', d)"
    by (simp add: flush_utxo_db_def flush_undo_infos_def undo_key_def pack_be_uint32_def pack_be_unsigned_def)
  let ?d0 = "(bp_db sample_bp)\<lparr>utxo_db := db_write rbt_engine (utxo_db (bp_db ?bp)) (ops @ [write_utxo_state sample_env d])\<rparr>"
  have "distinct (map snd (undo_infos ?bp))" "utxo_db ?d0 = db_write rbt_engine (utxo_db (bp_db ?bp)) (ops @ [write_utxo_state sample_env d])"
    by simp_all
  from utxo_flush_commits [OF rbt_storage.storage_axioms rep fl run this]
  have "utxo_table (db_get rbt_engine (utxo_db ?d0)) [sample_key \<mapsto> sample_value]" by blast
  moreover have "utxo_db (bp_db sample_bp) = RBT.empty" "utxo_db (bp_db ?bp) = RBT.empty"
    by (simp_all add: put_utxo_def sample_bp_def empty_bp_def empty_db_def)
  ultimately show ?thesis using run by (auto simp: rbt_engine_def)
qed

end
