(* ===== verification/BlockProc.thy ===== *)
theory BlockProc
  imports UtxoCache Scripts
begin

section \<open>Processing blocks (server/block_processor.py)\<close>

text \<open>
  \<open>bp_env\<close> holds what \<open>BlockProcessor\<close> takes from the coin and the environment: how a raw block is
  parsed, the hash function of scripts, the previous-block field of a header.  The loops over inputs,
  outputs and transactions get \<open>spend_utxo\<close> and the cache update as arguments, as the code binds them
  to local variables.  The set \<open>touched\<close> is updated once per block instead of once per transaction;
  an exception discards it in either case.  \<open>await\<close> of a call is the call; the daemon's answers are
  parameters (\<open>daemon\<close>); what other tasks are told is returned as a list of \<open>event\<close>s.
  The state lock is held by every caller and is not part of the state.
\<close>

record block =
  raw :: bytes
  header :: bytes
  transactions :: "tx list"

record bp_env =
  chain :: chain_env
  parse_block :: "bytes \<Rightarrow> int \<Rightarrow> exn + block"
  hashX_from_script :: "bytes \<Rightarrow> bytes"
  name_hashX_from_script :: "bytes \<Rightarrow> bytes option"
  header_prevhash :: "bytes \<Rightarrow> bytes"
  genesis_activation :: int
  cache_MB :: int
  max_fetch_blocks :: "int \<Rightarrow> int"
  genesis_block :: "bytes \<Rightarrow> exn + bytes"

record daemon =
  cached_height :: int
  block_hex_hashes :: "int \<Rightarrow> int \<Rightarrow> exn + string list"
  raw_blocks_of :: "string list \<Rightarrow> exn + bytes list"

datatype event = OnBlock "bytes set" int | ResetPrefetcher int | BackedUp

subsection \<open>Advancing\<close>

fun spend_inputs ::
  "(bytes \<Rightarrow> nat \<Rightarrow> 's \<Rightarrow> exn + bytes \<times> 's) \<Rightarrow> tx_input list \<Rightarrow> 's \<Rightarrow> exn + bytes list \<times> 's" where
  "spend_inputs spend [] s = Inr ([], s)"
| "spend_inputs spend (txin # ins) s =
     (if is_generation txin then spend_inputs spend ins s
      else bindE (spend (prev_hash txin) (prev_idx txin) s) (\<lambda>(cache_value, s).
           bindE (spend_inputs spend ins s) (\<lambda>(vs, s). Inr (cache_value # vs, s))))"

fun add_outputs ::
  "(bytes \<Rightarrow> bytes \<Rightarrow> 's \<Rightarrow> 's) \<Rightarrow> (bytes \<Rightarrow> bytes) \<Rightarrow> (bytes \<Rightarrow> bool) \<Rightarrow> bytes \<Rightarrow> bytes \<Rightarrow> nat \<Rightarrow> tx_output list \<Rightarrow> 's \<Rightarrow>
     exn + bytes list \<times> 's" where
  "add_outputs put script_hashX is_unspendable tx_hash tx_numb idx [] s = Inr ([], s)"
| "add_outputs put script_hashX is_unspendable tx_hash tx_numb idx (txout # outs) s =
     (if is_unspendable (pk_script txout)
      then add_outputs put script_hashX is_unspendable tx_hash tx_numb (idx + 1) outs s
      else
        let hashX = script_hashX (pk_script txout) in
        bindE (pack_le_uint32 (int idx)) (\<lambda>packed.
        bindE (pack_le_uint64 (out_value txout)) (\<lambda>value.
        bindE (add_outputs put script_hashX is_unspendable tx_hash tx_numb (idx + 1) outs
                 (put (tx_hash @ packed) (hashX @ tx_numb @ value) s)) (\<lambda>(hashXs, s).
          Inr (hashX # hashXs, s)))))"

fun advance_loop ::
  "(bytes \<Rightarrow> nat \<Rightarrow> 's \<Rightarrow> exn + bytes \<times> 's) \<Rightarrow> (bytes \<Rightarrow> bytes \<Rightarrow> 's \<Rightarrow> 's) \<Rightarrow> (bytes \<Rightarrow> bytes) \<Rightarrow>
     (bytes \<Rightarrow> bool) \<Rightarrow> nat \<Rightarrow> tx list \<Rightarrow> 's \<Rightarrow> exn + bytes list \<times> bytes list list \<times> nat \<times> 's" where
  "advance_loop spend put script_hashX is_unspendable tx_num [] s = Inr ([], [], tx_num, s)"
| "advance_loop spend put script_hashX is_unspendable tx_num (t # txs) s =
     bindE (pack_le_uint64 (int tx_num)) (\<lambda>packed.
     bindE (spend_inputs spend (tx_inputs t) s) (\<lambda>(vs, s).
     bindE (add_outputs put script_hashX is_unspendable (txid t) (take TXNUM_LEN packed) 0 (tx_outputs t) s)
       (\<lambda>(hashXs, s).
     bindE (advance_loop spend put script_hashX is_unspendable (tx_num + 1) txs s)
       (\<lambda>(undo_info, hashXs_by_tx, tx_num, s).
         Inr (vs @ undo_info, (map (take hashX_len) vs @ hashXs) # hashXs_by_tx, tx_num, s)))))"

type_synonym 'db advance_fun =
  "(bytes \<Rightarrow> bool) \<Rightarrow> tx list \<Rightarrow> 'db block_processor \<Rightarrow> exn + bytes list \<times> 'db block_processor"

text \<open>What follows the loops: the history gets the hashXs, the counts the new total.\<close>

definition finish_advance ::
  "bytes list list \<Rightarrow> nat \<Rightarrow> 'db block_processor \<Rightarrow> exn + 'db block_processor" where
  "finish_advance hashXs_by_tx tx_num bp =
     bindE (add_unflushed hashXs_by_tx (int (bp_tx_count bp)) (hist (bp_db bp))) (\<lambda>h.
       Inr (bp\<lparr>touched := touched bp \<union> set (concat hashXs_by_tx), bp_tx_count := tx_num,
               bp_db := (bp_db bp)\<lparr>hist := h, tx_counts := tx_counts (bp_db bp) @ [tx_num]\<rparr>\<rparr>))"

definition advance_txs :: "'db engine \<Rightarrow> bp_env \<Rightarrow> 'db advance_fun" where
  "advance_txs E X is_unspendable txs bp =
     bindE (advance_loop (spend_utxo E) put_utxo (hashX_from_script X) is_unspendable (bp_tx_count bp) txs
              (bp\<lparr>bp_tx_hashes := bp_tx_hashes bp @ [concat (map txid txs)]\<rparr>))
       (\<lambda>(undo_info, hashXs_by_tx, tx_num, bp).
     bindE (finish_advance hashXs_by_tx tx_num bp) (\<lambda>bp. Inr (undo_info, bp)))"

text \<open>\<open>LTORBlockProcessor\<close>: all outputs of the block first, then all inputs.\<close>

fun ltor_outputs ::
  "(bytes \<Rightarrow> bytes \<Rightarrow> 's \<Rightarrow> 's) \<Rightarrow> (bytes \<Rightarrow> bytes) \<Rightarrow> (bytes \<Rightarrow> bool) \<Rightarrow> nat \<Rightarrow> tx list \<Rightarrow> 's \<Rightarrow>
     exn + bytes list list \<times> nat \<times> 's" where
  "ltor_outputs put script_hashX is_unspendable tx_num [] s = Inr ([], tx_num, s)"
| "ltor_outputs put script_hashX is_unspendable tx_num (t # txs) s =
     bindE (pack_le_uint64 (int tx_num)) (\<lambda>packed.
     bindE (add_outputs put script_hashX is_unspendable (txid t) (take TXNUM_LEN packed) 0 (tx_outputs t) s)
       (\<lambda>(hashXs, s).
     bindE (ltor_outputs put script_hashX is_unspendable (tx_num + 1) txs s) (\<lambda>(rest, tx_num, s).
       Inr (hashXs # rest, tx_num, s))))"

fun ltor_inputs ::
  "(bytes \<Rightarrow> nat \<Rightarrow> 's \<Rightarrow> exn + bytes \<times> 's) \<Rightarrow> tx list \<Rightarrow> 's \<Rightarrow> exn + bytes list list \<times> 's" where
  "ltor_inputs spend [] s = Inr ([], s)"
| "ltor_inputs spend (t # txs) s =
     bindE (spend_inputs spend (tx_inputs t) s) (\<lambda>(vs, s).
     bindE (ltor_inputs spend txs s) (\<lambda>(rest, s). Inr (vs # rest, s)))"

definition ltor_advance_txs :: "'db engine \<Rightarrow> bp_env \<Rightarrow> 'db advance_fun" where
  "ltor_advance_txs E X is_unspendable txs bp =
     bindE (ltor_outputs put_utxo (hashX_from_script X) is_unspendable (bp_tx_count bp) txs
              (bp\<lparr>bp_tx_hashes := bp_tx_hashes bp @ [concat (map txid txs)]\<rparr>)) (\<lambda>(added, tx_num, bp).
     bindE (ltor_inputs (spend_utxo E) txs bp) (\<lambda>(spent, bp).
     bindE (finish_advance (map2 (\<lambda>hashXs vs. remdups (hashXs @ map (take hashX_len) vs)) added spent) tx_num bp)
       (\<lambda>bp. Inr (concat spent, bp))))"

text \<open>\<open>NameIndexBlockProcessor\<close>: then the name scripts of the outputs are indexed too.\<close>

definition name_hashXs :: "bp_env \<Rightarrow> tx \<Rightarrow> bytes list" where
  "name_hashXs X t = concat (map (\<lambda>txout.
     case name_hashX_from_script X (pk_script txout) of Some (b # bs) \<Rightarrow> [b # bs] | _ \<Rightarrow> []) (tx_outputs t))"

definition name_advance_txs :: "'db engine \<Rightarrow> bp_env \<Rightarrow> 'db advance_fun" where
  "name_advance_txs E X is_unspendable txs bp =
     bindE (advance_txs E X is_unspendable txs bp) (\<lambda>(result, bp).
       let hashXs_by_tx = map (name_hashXs X) txs in
       bindE (add_unflushed hashXs_by_tx (int (bp_tx_count bp) - int (length txs)) (hist (bp_db bp))) (\<lambda>h.
         Inr (result, bp\<lparr>touched := touched bp \<union> set (concat hashXs_by_tx), bp_db := (bp_db bp)\<lparr>hist := h\<rparr>\<rparr>)))"

definition unspendable_at :: "bp_env \<Rightarrow> int \<Rightarrow> bytes \<Rightarrow> bool" where
  "unspendable_at X height =
     (if height \<ge> genesis_activation X then is_unspendable_genesis else is_unspendable_legacy)"

fun advance_block_loop ::
  "bp_env \<Rightarrow> 'db advance_fun \<Rightarrow> int \<Rightarrow> block list \<Rightarrow> int \<Rightarrow> 'db block_processor \<Rightarrow> exn + int \<times> 'db block_processor" where
  "advance_block_loop X advance min_height [] height bp = Inr (height, bp)"
| "advance_block_loop X advance min_height (b # blocks) height bp =
     (let height = height + 1 in
      bindE (advance (unspendable_at X height) (transactions b) bp) (\<lambda>(undo_info, bp).
        advance_block_loop X advance min_height blocks height
          (if height \<ge> min_height
           then bp\<lparr>undo_infos := undo_infos bp @ [(undo_info, height)],
                   bp_db := write_raw_block (chain X) (raw b) height (bp_db bp)\<rparr>
           else bp)))"

definition advance_blocks ::
  "bp_env \<Rightarrow> daemon \<Rightarrow> 'db advance_fun \<Rightarrow> block list \<Rightarrow> 'db block_processor \<Rightarrow> exn + 'db block_processor" where
  "advance_blocks X dm advance blocks bp =
     bindE (advance_block_loop X advance (min_undo_height (chain X) (cached_height dm)) blocks (bp_height bp) bp)
       (\<lambda>(height, bp).
          if blocks = [] then Inl IndexError
          else Inr (bp\<lparr>bp_height := height, bp_headers := bp_headers bp @ map header blocks,
                       bp_tip := header_hash (chain X) (header (last blocks))\<rparr>))"

subsection \<open>Flushing\<close>

definition flush_data_of :: "'db block_processor \<Rightarrow> flush_data" where
  "flush_data_of bp = \<lparr>fl_height = bp_height bp, fl_tx_count = bp_tx_count bp, fl_headers = bp_headers bp,
     fl_block_tx_hashes = bp_tx_hashes bp, fl_undo_infos = undo_infos bp, fl_adds = utxo_cache bp,
     fl_deletes = db_deletes bp, fl_tip = bp_tip bp\<rparr>"

text \<open>The lists of the flush data are the block processor's own: what was cleared is cleared here.\<close>

definition after_flush :: "flush_data \<Rightarrow> 'db chain_db \<Rightarrow> 'db block_processor \<Rightarrow> 'db block_processor" where
  "after_flush fl d bp = bp\<lparr>bp_db := d, bp_headers := fl_headers fl, bp_tx_hashes := fl_block_tx_hashes fl,
     undo_infos := fl_undo_infos fl, utxo_cache := fl_adds fl, db_deletes := fl_deletes fl\<rparr>"

definition flush_bp ::
  "'db engine \<Rightarrow> bp_env \<Rightarrow> scalar \<Rightarrow> scalar \<Rightarrow> bool \<Rightarrow> 'db block_processor \<Rightarrow> exn + 'db block_processor" where
  "flush_bp E X now now' flush_utxos bp =
     bindE (flush_dbs E (chain X) now now' (flush_data_of bp) flush_utxos (bp_db bp)) (\<lambda>(fl, d).
       Inr (after_flush fl d bp))"

definition check_cache_size :: "bp_env \<Rightarrow> 'db block_processor \<Rightarrow> bool option" where
  "check_cache_size X bp =
     (let one_MB = 1000 * 1000;
          utxo_cache_size = int (length (utxo_cache bp)) * 205;
          db_deletes_size = int (length (db_deletes bp)) * 57;
          hist_cache_size = int (unflushed_memsize (hist (bp_db bp)));
          tx_hash_size = (int (bp_tx_count bp) - int (fs_tx_count (bp_db bp))) * 32
                         + (bp_height bp - fs_height (bp_db bp)) * 42;
          utxo_MB = (db_deletes_size + utxo_cache_size) div one_MB;
          hist_MB = (hist_cache_size + tx_hash_size) div one_MB
      in if utxo_MB + hist_MB \<ge> cache_MB X \<or> hist_MB \<ge> cache_MB X div 5
         then Some (utxo_MB \<ge> cache_MB X * 4 div 5)
         else None)"

text \<open>\<open>tick\<close> is the monotonic clock when it is first read, \<open>tick'\<close> when the check is rescheduled.\<close>

definition maybe_flush ::
  "'db engine \<Rightarrow> bp_env \<Rightarrow> scalar \<Rightarrow> scalar \<Rightarrow> int \<Rightarrow> int \<Rightarrow> 'db block_processor \<Rightarrow> exn + 'db block_processor" where
  "maybe_flush E X now now' tick tick' bp =
     (if caught_up bp then flush_bp E X now now' True bp
      else if tick > next_cache_check bp then
        bindE (case check_cache_size X bp of
                 None \<Rightarrow> Inr bp
               | Some flush_arg \<Rightarrow> flush_bp E X now now' flush_arg bp)
          (\<lambda>bp. Inr (bp\<lparr>next_cache_check := tick' + 30\<rparr>))
      else Inr bp)"


subsection \<open>Backing up\<close>

text \<open>\<open>xs[a:b]\<close> with Python's negative indices.\<close>

definition py_slice :: "'a list \<Rightarrow> int \<Rightarrow> int \<Rightarrow> 'a list" where
  "py_slice xs a b =
     (let index = (\<lambda>i. nat (if i < 0 then max 0 (int (length xs) + i) else i))
      in slice xs (index a) (index b))"

abbreviation "UNDO_ENTRY_LEN \<equiv> 24 :: nat"

fun remove_outputs ::
  "(bytes \<Rightarrow> nat \<Rightarrow> 's \<Rightarrow> exn + bytes \<times> 's) \<Rightarrow> (bytes \<Rightarrow> bool) \<Rightarrow> bytes \<Rightarrow> nat \<Rightarrow> tx_output list \<Rightarrow> 's \<Rightarrow>
     exn + bytes list \<times> 's" where
  "remove_outputs spend is_unspendable tx_hash idx [] s = Inr ([], s)"
| "remove_outputs spend is_unspendable tx_hash idx (txout # outs) s =
     (if is_unspendable (pk_script txout) then remove_outputs spend is_unspendable tx_hash (idx + 1) outs s
      else bindE (spend tx_hash idx s) (\<lambda>(cache_value, s).
           bindE (remove_outputs spend is_unspendable tx_hash (idx + 1) outs s) (\<lambda>(hashXs, s).
             Inr (take hashX_len cache_value # hashXs, s))))"

text \<open>The inputs of a transaction, last first; \<open>n\<close> counts down in the undo information.\<close>

fun restore_inputs ::
  "(bytes \<Rightarrow> bytes \<Rightarrow> 's \<Rightarrow> 's) \<Rightarrow> bytes \<Rightarrow> int \<Rightarrow> tx_input list \<Rightarrow> 's \<Rightarrow> exn + int \<times> bytes list \<times> 's" where
  "restore_inputs put undo_info n [] s = Inr (n, [], s)"
| "restore_inputs put undo_info n (txin # ins) s =
     (if is_generation txin then restore_inputs put undo_info n ins s
      else
        let n = n - int UNDO_ENTRY_LEN;
            undo_item = py_slice undo_info n (n + int UNDO_ENTRY_LEN) in
        bindE (pack_le_uint32 (int (prev_idx txin))) (\<lambda>packed.
        bindE (restore_inputs put undo_info n ins (put (prev_hash txin @ packed) undo_item s)) (\<lambda>(n, hashXs, s).
          Inr (n, take hashX_len undo_item # hashXs, s))))"

fun backup_loop ::
  "(bytes \<Rightarrow> nat \<Rightarrow> 's \<Rightarrow> exn + bytes \<times> 's) \<Rightarrow> (bytes \<Rightarrow> bytes \<Rightarrow> 's \<Rightarrow> 's) \<Rightarrow> (bytes \<Rightarrow> bool) \<Rightarrow>
     bytes \<Rightarrow> int \<Rightarrow> tx list \<Rightarrow> 's \<Rightarrow> exn + int \<times> bytes list \<times> 's" where
  "backup_loop spend put is_unspendable undo_info n [] s = Inr (n, [], s)"
| "backup_loop spend put is_unspendable undo_info n (t # txs) s =
     bindE (remove_outputs spend is_unspendable (txid t) 0 (tx_outputs t) s) (\<lambda>(hashXs, s).
     bindE (restore_inputs put undo_info n (rev (tx_inputs t)) s) (\<lambda>(n, hashXs', s).
     bindE (backup_loop spend put is_unspendable undo_info n txs s) (\<lambda>(n, rest, s).
       Inr (n, hashXs @ hashXs' @ rest, s))))"

type_synonym 'db backup_fun = "(bytes \<Rightarrow> bool) \<Rightarrow> tx list \<Rightarrow> 'db block_processor \<Rightarrow> exn + 'db block_processor"

definition backup_txs :: "'db engine \<Rightarrow> 'db backup_fun" where
  "backup_txs E is_unspendable txs bp =
     bindE (read_undo_info E (bp_height bp) (bp_db bp)) (\<lambda>r.
       case r of
         None \<Rightarrow> Inl ChainError
       | Some undo_info \<Rightarrow>
           bindE (backup_loop (spend_utxo E) put_utxo is_unspendable undo_info (int (length undo_info)) (rev txs) bp)
             (\<lambda>(n, hashXs, bp).
           bindE (assertE (n = 0)) (\<lambda>_.
             Inr (bp\<lparr>touched := touched bp \<union> set hashXs, bp_tx_count := bp_tx_count bp - length txs\<rparr>))))"

text \<open>\<open>LTORBlockProcessor\<close>: the inputs of the whole block are restored first, in order.\<close>

fun ltor_restore ::
  "(bytes \<Rightarrow> bytes \<Rightarrow> 's \<Rightarrow> 's) \<Rightarrow> bytes \<Rightarrow> nat \<Rightarrow> tx_input list \<Rightarrow> 's \<Rightarrow> exn + nat \<times> bytes list \<times> 's" where
  "ltor_restore put undo_info n [] s = Inr (n, [], s)"
| "ltor_restore put undo_info n (txin # ins) s =
     (if is_generation txin then ltor_restore put undo_info n ins s
      else
        let undo_item = slice undo_info n (n + UNDO_ENTRY_LEN) in
        bindE (pack_le_uint32 (int (prev_idx txin))) (\<lambda>packed.
        bindE (ltor_restore put undo_info (n + UNDO_ENTRY_LEN) ins (put (prev_hash txin @ packed) undo_item s))
          (\<lambda>(n, hashXs, s). Inr (n, take hashX_len undo_item # hashXs, s))))"

fun ltor_remove ::
  "(bytes \<Rightarrow> nat \<Rightarrow> 's \<Rightarrow> exn + bytes \<times> 's) \<Rightarrow> (bytes \<Rightarrow> bool) \<Rightarrow> tx list \<Rightarrow> 's \<Rightarrow> exn + bytes list \<times> 's" where
  "ltor_remove spend is_unspendable [] s = Inr ([], s)"
| "ltor_remove spend is_unspendable (t # txs) s =
     bindE (remove_outputs spend is_unspendable (txid t) 0 (tx_outputs t) s) (\<lambda>(hashXs, s).
     bindE (ltor_remove spend is_unspendable txs s) (\<lambda>(rest, s). Inr (hashXs @ rest, s)))"

definition ltor_backup_txs :: "'db engine \<Rightarrow> 'db backup_fun" where
  "ltor_backup_txs E is_unspendable txs bp =
     bindE (read_undo_info E (bp_height bp) (bp_db bp)) (\<lambda>r.
       case r of
         None \<Rightarrow> Inl ChainError
       | Some undo_info \<Rightarrow>
           bindE (ltor_restore put_utxo undo_info 0 (concat (map tx_inputs txs)) bp) (\<lambda>(n, hashXs, bp).
           bindE (assertE (n = length undo_info)) (\<lambda>_.
           bindE (ltor_remove (spend_utxo E) is_unspendable txs bp) (\<lambda>(hashXs', bp).
             Inr (bp\<lparr>touched := touched bp \<union> set (hashXs @ hashXs'),
                     bp_tx_count := bp_tx_count bp - length txs\<rparr>)))))"

fun backup_block_loop ::
  "bp_env \<Rightarrow> 'db backup_fun \<Rightarrow> bytes list \<Rightarrow> 'db block_processor \<Rightarrow> exn + 'db block_processor" where
  "backup_block_loop X back_txs [] bp = Inr bp"
| "backup_block_loop X back_txs (raw_block # rest) bp =
     bindE (parse_block X raw_block (bp_height bp)) (\<lambda>b.
       if header_hash (chain X) (header b) \<noteq> bp_tip bp then Inl ChainError
       else
         bindE (back_txs (unspendable_at X (bp_height bp)) (transactions b)
                  (bp\<lparr>bp_tip := header_prevhash X (header b)\<rparr>)) (\<lambda>bp.
           let bp = bp\<lparr>bp_height := bp_height bp - 1\<rparr> in
           if tx_counts (bp_db bp) = [] then Inl IndexError
           else backup_block_loop X back_txs rest
                  (bp\<lparr>bp_db := (bp_db bp)\<lparr>tx_counts := butlast (tx_counts (bp_db bp))\<rparr>\<rparr>)))"

definition backup_blocks ::
  "bp_env \<Rightarrow> 'db backup_fun \<Rightarrow> bytes list \<Rightarrow> 'db block_processor \<Rightarrow> exn + 'db block_processor" where
  "backup_blocks X back_txs raws bp =
     bindE (assert_flushed_db (flush_data_of bp) (bp_db bp)) (\<lambda>_.
     bindE (assertE (bp_height bp \<ge> int (length raws))) (\<lambda>_.
       backup_block_loop X back_txs raws bp))"

definition flush_backup_bp ::
  "'db engine \<Rightarrow> bp_env \<Rightarrow> scalar \<Rightarrow> 'db block_processor \<Rightarrow> exn + 'db block_processor" where
  "flush_backup_bp E X now bp =
     bindE (flush_backup E (chain X) now (flush_data_of bp) (touched bp) (bp_db bp)) (\<lambda>(fl, d).
       Inr (after_flush fl d bp))"

subsection \<open>Reorganisations\<close>

text \<open>\<open>diff_pos(hashes1, hashes2)\<close>; \<open>len(hashes)\<close> there is the length of the caller's list.\<close>

fun first_difference :: "'a list \<Rightarrow> 'a list \<Rightarrow> nat option" where
  "first_difference (x # xs) (y # ys) =
     (if x \<noteq> y then Some 0 else map_option Suc (first_difference xs ys))"
| "first_difference _ _ = None"

definition diff_pos :: "nat \<Rightarrow> 'a list \<Rightarrow> 'a list \<Rightarrow> nat" where
  "diff_pos len_hashes hashes1 hashes2 =
     (case first_difference hashes1 hashes2 of Some n \<Rightarrow> n | None \<Rightarrow> len_hashes)"

text \<open>The loop of a real reorg: the range doubles going back until some hash agrees.  The count is
  at least 1, as it starts at 1 and \<open>start > 0\<close>; the second condition only says so.\<close>

function reorg_start ::
  "(int \<Rightarrow> int \<Rightarrow> exn + bytes list) \<Rightarrow> (int \<Rightarrow> int \<Rightarrow> exn + string list) \<Rightarrow> int \<Rightarrow> int \<Rightarrow> exn + int" where
  "reorg_start local_hashes daemon_hashes start count =
     (if start > 0 \<and> count > 0 then
        bindE (local_hashes start count) (\<lambda>hashes.
        bindE (daemon_hashes start count) (\<lambda>d_hex_hashes.
          let n = diff_pos (length hashes) (map hash_to_hex_str hashes) d_hex_hashes in
          if n > 0 then Inr (start + int n)
          else let count = min (count * 2) start
               in reorg_start local_hashes daemon_hashes (start - count) count))
      else Inr start)"
  by pat_completeness auto
termination
  by (relation "measure (\<lambda>(l, d, start, count). nat start)") auto

declare reorg_start.simps [simp del]

definition calc_reorg_range ::
  "bp_env \<Rightarrow> daemon \<Rightarrow> int option \<Rightarrow> 'db block_processor \<Rightarrow> exn + int \<times> int" where
  "calc_reorg_range X dm count bp =
     (case count of
        None \<Rightarrow>
          bindE (reorg_start (\<lambda>start count. fs_block_hashes (chain X) start count (bp_db bp))
                   (block_hex_hashes dm) (bp_height bp - 1) 1) (\<lambda>start.
            Inr (start, (bp_height bp - start) + 1))
      | Some count \<Rightarrow> Inr ((bp_height bp - count) + 1, count))"

text \<open>\<open>DecredBlockProcessor\<close>\<close>

definition decred_calc_reorg_range ::
  "bp_env \<Rightarrow> daemon \<Rightarrow> int option \<Rightarrow> 'db block_processor \<Rightarrow> exn + int \<times> int" where
  "decred_calc_reorg_range X dm count bp =
     bindE (calc_reorg_range X dm count bp) (\<lambda>(start, count).
       Inr (if start > 0 then (start - 1, count + 1) else (start, count)))"

type_synonym 'db range_fun = "int option \<Rightarrow> 'db block_processor \<Rightarrow> exn + int \<times> int"

definition reorg_hashes ::
  "bp_env \<Rightarrow> 'db range_fun \<Rightarrow> int option \<Rightarrow> 'db block_processor \<Rightarrow> exn + int \<times> int \<times> bytes list" where
  "reorg_hashes X calc_range count bp =
     bindE (calc_range count bp) (\<lambda>(start, count).
     bindE (fs_block_hashes (chain X) start count (bp_db bp)) (\<lambda>hashes.
       Inr (start, start + count - 1, hashes)))"

definition get_raw_blocks ::
  "daemon \<Rightarrow> 'db chain_db \<Rightarrow> int \<Rightarrow> string list \<Rightarrow> exn + bytes list" where
  "get_raw_blocks dm d last_height hex_hashes =
     (case mapE (\<lambda>height. read_raw_block height d)
             (map (\<lambda>i. last_height - int i) [0..<length hex_hashes]) of
        Inr blocks \<Rightarrow> Inr blocks
      | Inl e \<Rightarrow> if e = FileNotFoundError then raw_blocks_of dm hex_hashes else Inl e)"

fun reorg_loop ::
  "'db engine \<Rightarrow> bp_env \<Rightarrow> daemon \<Rightarrow> 'db backup_fun \<Rightarrow> scalar \<Rightarrow> int \<Rightarrow> string list list \<Rightarrow> 'db block_processor \<Rightarrow>
     exn + 'db block_processor" where
  "reorg_loop E X dm back_txs now last_height [] bp = Inr bp"
| "reorg_loop E X dm back_txs now last_height (hex_hashes # rest) bp =
     bindE (get_raw_blocks dm (bp_db bp) last_height hex_hashes) (\<lambda>raws.
     bindE (backup_blocks X back_txs raws bp) (\<lambda>bp.
     bindE (flush_backup_bp E X now bp) (\<lambda>bp.
       reorg_loop E X dm back_txs now (last_height - int (length raws)) rest bp)))"

definition reorg_chain ::
  "'db engine \<Rightarrow> bp_env \<Rightarrow> daemon \<Rightarrow> 'db backup_fun \<Rightarrow> 'db range_fun \<Rightarrow> scalar \<Rightarrow> scalar \<Rightarrow> int option \<Rightarrow>
     'db block_processor \<Rightarrow> exn + event list \<times> 'db block_processor" where
  "reorg_chain E X dm back_txs calc_range now now' count bp =
     bindE (flush_bp E X now now' True bp) (\<lambda>bp.
     bindE (reorg_hashes X calc_range count bp) (\<lambda>(start, last_height, hashes).
     bindE (reorg_loop E X dm back_txs now last_height (chunks (map hash_to_hex_str (rev hashes)) 50) bp) (\<lambda>bp.
       Inr ([ResetPrefetcher (bp_height bp), BackedUp], bp))))"

subsection \<open>Handling the blocks the daemon sends\<close>

fun parse_blocks :: "bp_env \<Rightarrow> int \<Rightarrow> bytes list \<Rightarrow> exn + block list" where
  "parse_blocks X height [] = Inr []"
| "parse_blocks X height (raw_block # rest) =
     bindE (parse_block X raw_block height) (\<lambda>b.
     bindE (parse_blocks X (height + 1) rest) (\<lambda>bs. Inr (b # bs)))"

definition check_and_advance_blocks ::
  "'db engine \<Rightarrow> bp_env \<Rightarrow> daemon \<Rightarrow> 'db advance_fun \<Rightarrow> 'db backup_fun \<Rightarrow> 'db range_fun \<Rightarrow>
     scalar \<Rightarrow> scalar \<Rightarrow> int \<Rightarrow> int \<Rightarrow> bytes list \<Rightarrow> 'db block_processor \<Rightarrow> exn + event list \<times> 'db block_processor" where
  "check_and_advance_blocks E X dm advance back_txs calc_range now now' tick tick' raws bp =
     (if raws = [] then Inr ([], bp)
      else
        bindE (parse_blocks X (bp_height bp + 1) raws) (\<lambda>blocks.
          let hdrs = map header blocks;
              hprevs = map (header_prevhash X) hdrs;
              tips = bp_tip bp # map (header_hash (chain X)) (butlast hdrs)
          in if hprevs = tips then
               bindE (advance_blocks X dm advance blocks bp) (\<lambda>bp.
               bindE (maybe_flush E X now now' tick tick' bp) (\<lambda>bp.
                 Inr (if caught_up bp then [OnBlock (touched bp) (bp_height bp)] else [],
                      bp\<lparr>touched := {}\<rparr>)))
             else if hd hprevs \<noteq> hd tips then reorg_chain E X dm back_txs calc_range now now' None bp
             else Inr ([ResetPrefetcher (bp_height bp)], bp)))"

definition force_chain_reorg :: "int \<Rightarrow> 'db block_processor \<Rightarrow> bool \<times> 'db block_processor" where
  "force_chain_reorg count bp = (if caught_up bp then (True, bp\<lparr>reorg_count := count\<rparr>) else (False, bp))"

definition first_open_dbs ::
  "'db engine \<Rightarrow> bp_env \<Rightarrow> 'db \<Rightarrow> 'db \<Rightarrow> 'db block_processor \<Rightarrow> exn + 'db block_processor" where
  "first_open_dbs E X udb hdb' bp =
     bindE (open_dbs E (chain X) udb hdb' False (bp_db bp)) (\<lambda>d.
       Inr (bp\<lparr>bp_db := d, bp_height := db_height d, bp_tip := db_tip d, bp_tx_count := db_tx_count d\<rparr>))"

end
