(* ===== verification/BlockSpec.thy ===== *)
theory BlockSpec
  imports BlockProc
begin

section \<open>Blocks and the UTXO set\<close>

text \<open>
  The effect of the transactions of a block on the abstract UTXO set (\<open>txs_abs\<close>): every input that is
  not a coinbase takes an existing output out, in order, and every spendable output adds one that was
  not there.  It is undefined on a block with an input that does not exist, an output that already
  does, or a value outside its range: blocks the node has validated have none.

  Inside the locale \<open>utxo_store\<close>, the loops of the block processor are shown to have that effect, and
  the backup loop to undo it.  The interpretation is the block processor's cache.
\<close>

fun ins_abs :: "utxo_set \<Rightarrow> tx_input list \<Rightarrow> (bytes list \<times> utxo_set) option" where
  "ins_abs U [] = Some ([], U)"
| "ins_abs U (i # ins) =
     (if is_generation i then ins_abs U ins
      else if prev_idx i < 2 ^ 32 then
        case U (prev_hash i @ le_encode 4 (prev_idx i)) of
          None \<Rightarrow> None
        | Some v \<Rightarrow>
            (case ins_abs (U(prev_hash i @ le_encode 4 (prev_idx i) := None)) ins of
               None \<Rightarrow> None
             | Some (vs, U) \<Rightarrow> Some (v # vs, U))
      else None)"

fun outs_abs ::
  "(bytes \<Rightarrow> bytes) \<Rightarrow> (bytes \<Rightarrow> bool) \<Rightarrow> bytes \<Rightarrow> nat \<Rightarrow> nat \<Rightarrow> tx_output list \<Rightarrow> utxo_set \<Rightarrow> (bytes list \<times> utxo_set) option" where
  "outs_abs hx unsp h num idx [] U = Some ([], U)"
| "outs_abs hx unsp h num idx (o' # outs) U =
     (if unsp (pk_script o') then outs_abs hx unsp h num (idx + 1) outs U
      else if idx < 2 ^ 32 \<and> 0 \<le> out_value o' \<and> out_value o' < 2 ^ 64 \<and> U (h @ le_encode 4 idx) = None then
        (case outs_abs hx unsp h num (idx + 1) outs
                (U(h @ le_encode 4 idx \<mapsto> hx (pk_script o') @ le_encode 5 num @ le_encode 8 (nat (out_value o')))) of
           None \<Rightarrow> None
         | Some (hs, U) \<Rightarrow> Some (hx (pk_script o') # hs, U))
      else None)"

fun txs_abs ::
  "(bytes \<Rightarrow> bytes) \<Rightarrow> (bytes \<Rightarrow> bool) \<Rightarrow> nat \<Rightarrow> tx list \<Rightarrow> utxo_set \<Rightarrow> (bytes list \<times> bytes list list \<times> utxo_set) option" where
  "txs_abs hx unsp num [] U = Some ([], [], U)"
| "txs_abs hx unsp num (t # txs) U =
     (case ins_abs U (tx_inputs t) of
        None \<Rightarrow> None
      | Some (vs, U) \<Rightarrow>
          (case outs_abs hx unsp (txid t) num 0 (tx_outputs t) U of
             None \<Rightarrow> None
           | Some (hs, U) \<Rightarrow>
               (case txs_abs hx unsp (num + 1) txs U of
                  None \<Rightarrow> None
                | Some (undo, hss, U) \<Rightarrow> Some (vs @ undo, (map (take hashX_len) vs @ hs) # hss, U))))"

definition wf_set :: "bytes list \<Rightarrow> utxo_set \<Rightarrow> bool" where
  "wf_set T U \<longleftrightarrow> (\<forall>k v. U k = Some v \<longrightarrow> wf_utxo T k v)"

lemma wf_setD: "wf_set T U \<Longrightarrow> U k = Some v \<Longrightarrow> wf_utxo T k v"
  by (simp add: wf_set_def)

lemma wf_set_remove [simp]: "wf_set T U \<Longrightarrow> wf_set T (U(k := None))"
  by (simp add: wf_set_def)

lemma wf_set_put [simp]: "wf_set T U \<Longrightarrow> wf_utxo T k v \<Longrightarrow> wf_set T (U(k \<mapsto> v))"
  by (simp add: wf_set_def)

lemma wf_utxo_length: "wf_utxo T k v \<Longrightarrow> length v = 24"
  by (simp add: wf_utxo_def)

lemma drop_step: "drop n T = x # xs \<Longrightarrow> n < length T \<and> T ! n = x \<and> drop (Suc n) T = xs"
  by (cases "n < length T") (auto simp flip: Cons_nth_drop_Suc)

lemma wf_outpoint: "wf_utxo T (h @ le_encode 4 i) v \<Longrightarrow> length h = 32"
  by (simp add: wf_utxo_def)

lemma ins_abs_append:
  "ins_abs U (xs @ ys) = (case ins_abs U xs of None \<Rightarrow> None
     | Some (vs, U) \<Rightarrow> (case ins_abs U ys of None \<Rightarrow> None | Some (vs', U) \<Rightarrow> Some (vs @ vs', U)))"
  by (induction xs arbitrary: U) (simp_all split: option.splits)

lemma ins_abs_wf: "ins_abs U ins = Some (vs, U') \<Longrightarrow> wf_set T U \<Longrightarrow> wf_set T U' \<and> (\<forall>v \<in> set vs. length v = 24)"
proof (induction ins arbitrary: U vs)
  case (Cons i ins)
  then show ?case
    by (fastforce split: if_splits option.splits dest: wf_setD simp: wf_utxo_length)
qed auto

lemma new_output_wf:
  assumes "length h = 32" "num < length T" "T ! num = h" "length T \<le> 256 ^ 5" "length x = hashX_len"
  shows "wf_utxo T (h @ le_encode 4 idx) (x @ le_encode 5 num @ le_encode 8 val)"
proof -
  have "slice (x @ le_encode 5 num @ le_encode 8 val) hashX_len (hashX_len + TXNUM_LEN) = le_encode 5 num"
    by (rule slice_mid) (simp_all add: assms)
  moreover have "num < 256 ^ 5" using assms by linarith
  ultimately show ?thesis using assms by (simp add: wf_utxo_def num_of_def)
qed

text \<open>The outpoints of a transaction's outputs.\<close>

fun out_keys :: "(bytes \<Rightarrow> bool) \<Rightarrow> bytes \<Rightarrow> nat \<Rightarrow> tx_output list \<Rightarrow> bytes list" where
  "out_keys unsp h idx [] = []"
| "out_keys unsp h idx (o' # outs) =
     (if unsp (pk_script o') then [] else [h @ le_encode 4 idx]) @ out_keys unsp h (idx + 1) outs"

lemma outs_abs_keys:
  "outs_abs hx unsp h num idx outs U = Some (hs, U') \<Longrightarrow>
     (\<forall>k. k \<notin> set (out_keys unsp h idx outs) \<longrightarrow> U' k = U k) \<and>
     (\<forall>k \<in> set (out_keys unsp h idx outs). U k = None \<and> U' k \<noteq> None) \<and>
     distinct (out_keys unsp h idx outs)"
proof (induction outs arbitrary: idx U hs)
  case (Cons o' outs)
  show ?case
  proof (cases "unsp (pk_script o')")
    case True
    then have rec: "outs_abs hx unsp h num (idx + 1) outs U = Some (hs, U')" using Cons.prems by simp
    have keys: "out_keys unsp h idx (o' # outs) = out_keys unsp h (idx + 1) outs" using True by simp
    show ?thesis unfolding keys by (rule Cons.IH [OF rec])
  next
    case False
    let ?k = "h @ le_encode 4 idx"
    let ?v = "hx (pk_script o') @ le_encode 5 num @ le_encode 8 (nat (out_value o'))"
    obtain hs' where U: "U ?k = None" and rec: "outs_abs hx unsp h num (idx + 1) outs (U(?k \<mapsto> ?v)) = Some (hs', U')"
      using Cons.prems False by (auto split: if_splits option.splits)
    define K where "K = out_keys unsp h (idx + 1) outs"
    have old: "\<forall>k. k \<notin> set K \<longrightarrow> U' k = (U(?k \<mapsto> ?v)) k"
      and new: "\<forall>k \<in> set K. (U(?k \<mapsto> ?v)) k = None \<and> U' k \<noteq> None" and dist: "distinct K"
      using Cons.IH [OF rec] unfolding K_def by blast+
    have nk: "?k \<notin> set K" using new by (metis fun_upd_same option.distinct(1))
    have keys: "out_keys unsp h idx (o' # outs) = ?k # K" using False by (simp add: K_def)
    have "\<forall>k. k \<notin> set (?k # K) \<longrightarrow> U' k = U k" using old by (metis fun_upd_other list.set_intros)
    moreover have "U' ?k \<noteq> None" using old nk by (metis fun_upd_same option.distinct(1))
    moreover have "\<forall>k \<in> set K. U k = None \<and> U' k \<noteq> None" using new nk by (metis fun_upd_other)
    ultimately show ?thesis unfolding keys using U nk dist by auto
  qed
qed simp

lemma outs_abs_wf:
  assumes "length h = 32" "num < length T" "T ! num = h" "length T \<le> 256 ^ 5" "\<forall>s. length (hx s) = hashX_len"
  shows "outs_abs hx unsp h num idx outs U = Some (hs, U') \<Longrightarrow> wf_set T U \<Longrightarrow> wf_set T U'"
proof (induction outs arbitrary: idx U hs)
  case (Cons o' outs)
  show ?case
  proof (cases "unsp (pk_script o')")
    case True
    then show ?thesis using Cons by simp
  next
    case False
    let ?v = "hx (pk_script o') @ le_encode 5 num @ le_encode 8 (nat (out_value o'))"
    obtain hs' where rec: "outs_abs hx unsp h num (idx + 1) outs (U(h @ le_encode 4 idx \<mapsto> ?v)) = Some (hs', U')"
      using Cons.prems(1) False by (auto split: if_splits option.splits)
    have "wf_utxo T (h @ le_encode 4 idx) ?v"
      by (rule new_output_wf [OF assms(1-4)]) (simp add: assms(5))
    then show ?thesis using Cons.IH [OF rec wf_set_put] Cons.prems(2) by blast
  qed
qed simp

lemma txs_abs_append:
  "txs_abs hx unsp num (xs @ ys) U = (case txs_abs hx unsp num xs U of None \<Rightarrow> None
     | Some (undo, hss, U) \<Rightarrow>
         (case txs_abs hx unsp (num + length xs) ys U of
            None \<Rightarrow> None
          | Some (undo', hss', U) \<Rightarrow> Some (undo @ undo', hss @ hss', U)))"
  by (induction xs arbitrary: U num) (simp_all split: option.splits)

lemma txs_abs_wf:
  assumes "length T \<le> 256 ^ 5" "\<forall>s. length (hx s) = hashX_len"
  shows "txs_abs hx unsp num txs U = Some (undo, hss, U') \<Longrightarrow> wf_set T U \<Longrightarrow>
    drop num T = map txid txs @ rest \<Longrightarrow> \<forall>t \<in> set txs. length (txid t) = 32 \<Longrightarrow>
    wf_set T U' \<and> (\<forall>v \<in> set undo. length v = 24)"
proof (induction txs arbitrary: num U undo hss)
  case (Cons t txs)
  obtain vs U1 hs U2 undo' hss' where
    ins: "ins_abs U (tx_inputs t) = Some (vs, U1)" and
    outs: "outs_abs hx unsp (txid t) num 0 (tx_outputs t) U1 = Some (hs, U2)" and
    rec: "txs_abs hx unsp (num + 1) txs U2 = Some (undo', hss', U')" and undo: "undo = vs @ undo'"
    using Cons.prems(1) by (auto split: option.splits)
  have T: "num < length T" "T ! num = txid t" "drop (num + 1) T = map txid txs @ rest"
    using drop_step [of num T "txid t" "map txid txs @ rest"] Cons.prems(3) by simp_all
  have w1: "wf_set T U1" "\<forall>v \<in> set vs. length v = 24" using ins_abs_wf [OF ins Cons.prems(2)] by auto
  have "wf_set T U2"
    by (rule outs_abs_wf [OF _ T(1,2) assms outs w1(1)]) (use Cons.prems(4) in simp)
  from Cons.IH [OF rec this T(3)] show ?case using Cons.prems(4) w1 undo by auto
qed simp


lemma py_slice_nat: "py_slice xs (int a) (int b) = slice xs a b"
  by (simp add: py_slice_def)

subsection \<open>The block loops refine it\<close>

locale utxo_store =
  fixes spend :: "bytes \<Rightarrow> nat \<Rightarrow> 's \<Rightarrow> exn + bytes \<times> 's"
    and put :: "bytes \<Rightarrow> bytes \<Rightarrow> 's \<Rightarrow> 's"
    and rep :: "bytes list \<Rightarrow> 's \<Rightarrow> utxo_set \<Rightarrow> bool"
    and frm :: "'s \<Rightarrow> 's"
  assumes spend_ok: "\<lbrakk>rep T s U; U (h @ le_encode 4 i) = Some v; length h = 32; i < 2 ^ 32\<rbrakk> \<Longrightarrow>
      \<exists>s'. spend h i s = Inr (v, s') \<and> rep T s' (U(h @ le_encode 4 i := None)) \<and> frm s' = frm s"
    and put_ok: "\<lbrakk>rep T s U; wf_utxo T k v; U k = None\<rbrakk> \<Longrightarrow> rep T (put k v s) (U(k \<mapsto> v))"
    and put_frame: "frm (put k v s) = frm s"
begin

lemma spend_inputs_ok:
  "ins_abs U ins = Some (vs, U') \<Longrightarrow> rep T s U \<Longrightarrow> wf_set T U \<Longrightarrow>
     \<exists>s'. spend_inputs spend ins s = Inr (vs, s') \<and> rep T s' U' \<and> frm s' = frm s"
proof (induction ins arbitrary: U vs s)
  case (Cons i ins)
  show ?case
  proof (cases "is_generation i")
    case True
    then show ?thesis using Cons by simp
  next
    case False
    let ?k = "prev_hash i @ le_encode 4 (prev_idx i)"
    obtain v vs' where v: "U ?k = Some v" "prev_idx i < 2 ^ 32"
      and rec: "ins_abs (U(?k := None)) ins = Some (vs', U')" and vs: "vs = v # vs'"
      using Cons.prems(1) False by (auto split: if_splits option.splits)
    obtain s1 where s1: "spend (prev_hash i) (prev_idx i) s = Inr (v, s1)" "rep T s1 (U(?k := None))" "frm s1 = frm s"
      using spend_ok [OF Cons.prems(2) v(1) wf_outpoint [OF wf_setD [OF Cons.prems(3) v(1)]] v(2)] by blast
    obtain s2 where "spend_inputs spend ins s1 = Inr (vs', s2)" "rep T s2 U'" "frm s2 = frm s1"
      using Cons.IH [OF rec s1(2) wf_set_remove [OF Cons.prems(3)]] by blast
    then show ?thesis using s1 False vs by simp
  qed
qed simp

lemma add_outputs_ok:
  assumes "length h = 32" "num < length T" "T ! num = h" "length T \<le> 256 ^ 5" "\<forall>s. length (hx s) = hashX_len"
  shows "outs_abs hx unsp h num idx outs U = Some (hs, U') \<Longrightarrow> rep T s U \<Longrightarrow>
     \<exists>s'. add_outputs put hx unsp h (le_encode 5 num) idx outs s = Inr (hs, s') \<and> rep T s' U' \<and> frm s' = frm s"
proof (induction outs arbitrary: idx U hs s)
  case (Cons o' outs)
  show ?case
  proof (cases "unsp (pk_script o')")
    case True
    then show ?thesis using Cons by simp
  next
    case False
    let ?v = "hx (pk_script o') @ le_encode 5 num @ le_encode 8 (nat (out_value o'))"
    let ?k = "h @ le_encode 4 idx"
    obtain hs' where rec: "outs_abs hx unsp h num (idx + 1) outs (U(?k \<mapsto> ?v)) = Some (hs', U')"
      and hs: "hs = hx (pk_script o') # hs'" and ok: "idx < 2 ^ 32" "0 \<le> out_value o'" "out_value o' < 2 ^ 64" "U ?k = None"
      using Cons.prems(1) False by (auto split: if_splits option.splits)
    have wf: "wf_utxo T ?k ?v"
      by (rule new_output_wf [OF assms(1-4)]) (simp add: assms(5))
    have pk: "pack_le_uint32 (int idx) = Inr (le_encode 4 idx)"
      "pack_le_uint64 (out_value o') = Inr (le_encode 8 (nat (out_value o')))"
      using ok by (simp_all add: pack_le_uint32_def pack_le_uint64_def pack_le_unsigned_def)
    obtain s' where "add_outputs put hx unsp h (le_encode 5 num) (idx + 1) outs (put ?k ?v s) = Inr (hs', s')"
      "rep T s' U'" "frm s' = frm s"
      using Cons.IH [OF rec put_ok [OF Cons.prems(2) wf ok(4)]] put_frame by auto
    then show ?thesis using False pk hs by simp
  qed
qed simp

lemma advance_loop_ok:
  assumes "length T \<le> 256 ^ 5" "\<forall>s. length (hx s) = hashX_len"
  shows "txs_abs hx unsp num txs U = Some (undo, hss, U') \<Longrightarrow> rep T s U \<Longrightarrow> wf_set T U \<Longrightarrow>
    drop num T = map txid txs @ rest \<Longrightarrow> \<forall>t \<in> set txs. length (txid t) = 32 \<Longrightarrow>
    \<exists>s'. advance_loop spend put hx unsp num txs s = Inr (undo, hss, num + length txs, s') \<and>
      rep T s' U' \<and> frm s' = frm s"
proof (induction txs arbitrary: num U undo hss s)
  case (Cons t txs)
  obtain vs U1 hs U2 undo' hss' where
    ins: "ins_abs U (tx_inputs t) = Some (vs, U1)" and
    outs: "outs_abs hx unsp (txid t) num 0 (tx_outputs t) U1 = Some (hs, U2)" and
    rec: "txs_abs hx unsp (num + 1) txs U2 = Some (undo', hss', U')" and
    res: "undo = vs @ undo'" "hss = (map (take hashX_len) vs @ hs) # hss'"
    using Cons.prems(1) by (auto split: option.splits)
  have T: "num < length T" "T ! num = txid t" "drop (num + 1) T = map txid txs @ rest"
    using drop_step [of num T "txid t" "map txid txs @ rest"] Cons.prems(4) by simp_all
  have len: "length (txid t) = 32" using Cons.prems(5) by simp
  have w1: "wf_set T U1" using ins_abs_wf [OF ins Cons.prems(3)] by simp
  have w2: "wf_set T U2" by (rule outs_abs_wf [OF len T(1,2) assms outs w1])
  have "num < 256 ^ 5" using T(1) assms(1) by linarith
  then have pk: "pack_le_uint64 (int num) = Inr (le_encode 8 num)" "take TXNUM_LEN (le_encode 8 num) = le_encode 5 num"
    by (simp_all add: pack_le_uint64_def pack_le_unsigned_def take_le_encode)
  obtain s1 where s1: "spend_inputs spend (tx_inputs t) s = Inr (vs, s1)" "rep T s1 U1" "frm s1 = frm s"
    using spend_inputs_ok [OF ins Cons.prems(2,3)] by blast
  obtain s2 where s2: "add_outputs put hx unsp (txid t) (le_encode 5 num) 0 (tx_outputs t) s1 = Inr (hs, s2)"
    "rep T s2 U2" "frm s2 = frm s1"
    using add_outputs_ok [OF len T(1,2) assms outs s1(2)] by blast
  obtain s3 where "advance_loop spend put hx unsp (num + 1) txs s2 = Inr (undo', hss', num + 1 + length txs, s3)"
    "rep T s3 U'" "frm s3 = frm s2"
    using Cons.IH [OF rec s2(2) w2 T(3)] Cons.prems(5) by auto
  then show ?case using s1 s2 pk res by simp
qed simp

text \<open>Backing up.\<close>

lemma remove_outputs_ok:
  "rep T s U \<Longrightarrow> wf_set T U \<Longrightarrow> length h = 32 \<Longrightarrow> idx + length outs \<le> 2 ^ 32 \<Longrightarrow>
    \<forall>k \<in> set (out_keys unsp h idx outs). U k \<noteq> None \<Longrightarrow> distinct (out_keys unsp h idx outs) \<Longrightarrow>
    \<exists>hs s'. remove_outputs spend unsp h idx outs s = Inr (hs, s') \<and>
      rep T s' (U |` (- set (out_keys unsp h idx outs))) \<and> frm s' = frm s"
proof (induction outs arbitrary: idx U s)
  case Nil
  then show ?case by (simp add: restrict_map_def)
next
  case (Cons o' outs)
  show ?case
  proof (cases "unsp (pk_script o')")
    case True
    then show ?thesis using Cons by simp
  next
    case False
    let ?k = "h @ le_encode 4 idx"
    let ?K = "out_keys unsp h (idx + 1) outs"
    have keys: "out_keys unsp h idx (o' # outs) = ?k # ?K" using False by simp
    obtain v where v: "U ?k = Some v" using Cons.prems(5) unfolding keys by auto
    have dist: "?k \<notin> set ?K" "distinct ?K" using Cons.prems(6) unfolding keys by auto
    have "idx < 2 ^ 32" using Cons.prems(4) by simp
    then obtain s1 where s1: "spend h idx s = Inr (v, s1)" "rep T s1 (U(?k := None))" "frm s1 = frm s"
      using spend_ok [OF Cons.prems(1) v Cons.prems(3)] by blast
    have bound: "idx + 1 + length outs \<le> 2 ^ 32" using Cons.prems(4) by simp
    have all: "\<forall>k \<in> set ?K. (U(?k := None)) k \<noteq> None"
      using Cons.prems(5) dist(1) unfolding keys by (metis fun_upd_apply list.set_intros(2))
    obtain hs s2 where s2: "remove_outputs spend unsp h (idx + 1) outs s1 = Inr (hs, s2)"
      "rep T s2 ((U(?k := None)) |` (- set ?K))" "frm s2 = frm s1"
      using Cons.IH [OF s1(2) wf_set_remove [OF Cons.prems(2)] Cons.prems(3) bound all dist(2)] by blast
    have "(U(?k := None)) |` (- set ?K) = U |` (- set (?k # ?K))"
      by (rule ext) (simp add: restrict_map_def)
    then show ?thesis unfolding keys using s1 s2 False by simp
  qed
qed

lemma restore_inputs_ok:
  "ins_abs U ins = Some (vs, U') \<Longrightarrow> rep T s U' \<Longrightarrow> wf_set T U \<Longrightarrow>
    \<exists>hs s'. restore_inputs put (pre @ concat vs @ post) (int (length pre + 24 * length vs)) (rev ins) s =
      Inr (int (length pre), hs, s') \<and> rep T s' U \<and> frm s' = frm s"
proof (induction ins arbitrary: U' vs s post rule: rev_induct)
  case (snoc i ins)
  obtain vs1 U1 where ins: "ins_abs U ins = Some (vs1, U1)"
    using snoc.prems(1) by (auto simp: ins_abs_append split: option.splits)
  note w1 = ins_abs_wf [OF ins snoc.prems(3)]
  show ?case
  proof (cases "is_generation i")
    case True
    then have "vs = vs1" "U' = U1" using snoc.prems(1) ins by (simp_all add: ins_abs_append)
    then show ?thesis using snoc.IH [OF ins, of s post] snoc.prems True by simp
  next
    case False
    let ?k = "prev_hash i @ le_encode 4 (prev_idx i)"
    obtain v where v: "U1 ?k = Some v" "prev_idx i < 2 ^ 32" and vs: "vs = vs1 @ [v]" and U': "U' = U1(?k := None)"
      using snoc.prems(1) ins False by (auto simp: ins_abs_append split: if_splits option.splits)
    have wfv: "wf_utxo T ?k v" using w1 v(1) wf_setD by blast
    have len: "length v = 24" "length (concat vs1) = 24 * length vs1"
    proof -
      show "length v = 24" using wfv by (simp add: wf_utxo_def)
      have "\<forall>v \<in> set vs1. length v = 24 \<Longrightarrow> length (concat vs1) = 24 * length vs1"
        by (induction vs1) auto
      then show "length (concat vs1) = 24 * length vs1" using w1 by simp
    qed
    have pk: "pack_le_uint32 (int (prev_idx i)) = Inr (le_encode 4 (prev_idx i))"
      using v(2) by (simp add: pack_le_uint32_def pack_le_unsigned_def)
    have lv: "int (length vs) = int (length vs1) + 1" by (simp add: vs)
    have "slice (pre @ concat vs @ post) (length pre + 24 * length vs1) (length pre + 24 * length vs1 + 24) = v"
    proof -
      have "slice ((pre @ concat vs1) @ v @ post) (length pre + 24 * length vs1) (length pre + 24 * length vs1 + 24) = v"
        by (rule slice_mid) (simp_all add: len del: length_concat)
      then show ?thesis by (simp add: vs)
    qed
    then have item: "py_slice (pre @ concat vs @ post) (int (length pre + 24 * length vs1))
        (int (length pre + 24 * length vs1) + int UNDO_ENTRY_LEN) = v"
      by (simp only: of_nat_add [symmetric] py_slice_nat)
    have "rep T (put ?k v s) (U'(?k \<mapsto> v))" by (rule put_ok [OF snoc.prems(2) wfv]) (simp add: U')
    moreover have "U'(?k \<mapsto> v) = U1" using v(1) by (auto simp: U')
    ultimately have "rep T (put ?k v s) U1" by simp
    then obtain hs s' where "restore_inputs put (pre @ concat vs1 @ v @ post) (int (length pre + 24 * length vs1)) (rev ins) (put ?k v s) =
        Inr (int (length pre), hs, s')" "rep T s' U" "frm s' = frm (put ?k v s)"
      using snoc.IH [OF ins _ snoc.prems(3), of "put ?k v s" "v @ post"] by blast
    moreover have "pre @ concat vs @ post = pre @ concat vs1 @ v @ post" by (simp add: vs)
    ultimately show ?thesis
      using False item pk lv by (simp add: put_frame Let_def distrib_left)
  qed
qed simp

lemma backup_loop_ok:
  assumes T: "length T \<le> 256 ^ 5" "\<forall>s. length (hx s) = hashX_len"
    and big: "\<forall>t \<in> set txs. length (tx_outputs t) \<le> 2 ^ 32"
  shows "txs_abs hx unsp num txs U = Some (undo, hss, U') \<Longrightarrow> rep T s U' \<Longrightarrow> wf_set T U \<Longrightarrow>
    drop num T = map txid txs @ rest \<Longrightarrow> \<forall>t \<in> set txs. length (txid t) = 32 \<Longrightarrow>
    \<exists>hs s'. backup_loop spend put unsp (concat undo @ post) (int (24 * length undo)) (rev txs) s = Inr (0, hs, s') \<and>
      rep T s' U \<and> frm s' = frm s"
  using big
proof (induction txs arbitrary: undo hss U' s post rest rule: rev_induct)
  case (snoc t txs)
  obtain undo1 hss1 U1 vs U2 hs where
    front: "txs_abs hx unsp num txs U = Some (undo1, hss1, U1)" and
    ins: "ins_abs U1 (tx_inputs t) = Some (vs, U2)" and
    outs: "outs_abs hx unsp (txid t) (num + length txs) 0 (tx_outputs t) U2 = Some (hs, U')" and
    undo: "undo = undo1 @ vs"
    using snoc.prems(1) by (auto simp: txs_abs_append split: option.splits)
  have front_T: "drop num T = map txid txs @ txid t # rest" using snoc.prems(4) by simp
  have wf: "\<forall>t \<in> set txs. length (txid t) = 32" "length (txid t) = 32" using snoc.prems(5) by simp_all
  have nT: "num + length txs < length T" "T ! (num + length txs) = txid t"
    using drop_step [of "num + length txs" T "txid t" rest] arg_cong [OF front_T, of "drop (length txs)"]
    by (simp_all add: add.commute)
  note w1 = txs_abs_wf [OF T front snoc.prems(3) front_T wf(1)]
  have w2: "wf_set T U2" using ins_abs_wf [OF ins] w1 by simp
  have w': "wf_set T U'" by (rule outs_abs_wf [OF wf(2) nT T outs w2])
  note keys = outs_abs_keys [OF outs]
  have "\<forall>k \<in> set (out_keys unsp (txid t) 0 (tx_outputs t)). U' k \<noteq> None" using keys by blast
  then obtain hs1 s1 where s1: "remove_outputs spend unsp (txid t) 0 (tx_outputs t) s = Inr (hs1, s1)"
    "rep T s1 (U' |` (- set (out_keys unsp (txid t) 0 (tx_outputs t))))" "frm s1 = frm s"
    using remove_outputs_ok [OF snoc.prems(2) w' wf(2), of 0 "tx_outputs t" unsp] keys snoc.prems(6) by auto
  have "U' |` (- set (out_keys unsp (txid t) 0 (tx_outputs t))) = U2"
  proof
    fix k show "(U' |` (- set (out_keys unsp (txid t) 0 (tx_outputs t)))) k = U2 k"
      using keys by (cases "k \<in> set (out_keys unsp (txid t) 0 (tx_outputs t))") (auto simp: restrict_map_def)
  qed
  then have rep2: "rep T s1 U2" using s1(2) by simp
  have len: "length (concat undo1) = 24 * length undo1"
  proof -
    have "\<forall>v \<in> set undo1. length v = 24 \<Longrightarrow> length (concat undo1) = 24 * length undo1"
      by (induction undo1) auto
    then show ?thesis using w1 by simp
  qed
  obtain hs2 s2 where s2: "restore_inputs put (concat undo1 @ concat vs @ post) (int (length (concat undo1) + 24 * length vs))
      (rev (tx_inputs t)) s1 = Inr (int (length (concat undo1)), hs2, s2)" "rep T s2 U1" "frm s2 = frm s1"
    using restore_inputs_ok [OF ins rep2, of "concat undo1" post] w1 by blast
  obtain hs3 s3 where s3: "backup_loop spend put unsp (concat undo1 @ concat vs @ post) (int (24 * length undo1)) (rev txs) s2 = Inr (0, hs3, s3)"
    "rep T s3 U" "frm s3 = frm s2"
    using snoc.IH [OF front s2(2) snoc.prems(3) front_T wf(1), of "concat vs @ post"] snoc.prems(6) by auto
  have n: "int (24 * length undo) = int (length (concat undo1) + 24 * length vs)" unfolding undo len by simp
  have bytes: "concat undo @ post = concat undo1 @ concat vs @ post" by (simp add: undo)
  have len': "int (length (concat undo1)) = int (24 * length undo1)" unfolding len ..
  show ?case unfolding n bytes using s1 s2 s3 unfolding len'
    by (simp del: length_concat)
qed simp

end


subsection \<open>The block processor\<close>

interpretation cache_store: utxo_store "spend_utxo E" put_utxo "\<lambda>T bp U. storage E \<and> utxo_rep E T bp U" frame
  for E :: "'db engine"
proof
  show "\<exists>s'. spend_utxo E h i s = Inr (v, s') \<and> (storage E \<and> utxo_rep E T s' (U(h @ le_encode 4 i := None))) \<and> frame s' = frame s"
    if "storage E \<and> utxo_rep E T s U" "U (h @ le_encode 4 i) = Some v" "length h = 32" "i < 2 ^ 32"
    for T s U h i v
    using rep_spend_utxo [of E T s U h i v] that by auto
  show "storage E \<and> utxo_rep E T (put_utxo k v s) (U(k \<mapsto> v))"
    if "storage E \<and> utxo_rep E T s U" "wf_utxo T k v" "U k = None" for T s U k v
    using rep_put_utxo that by auto
qed simp

text \<open>The cumulative counts go with the number of transactions, and the database is not ahead of them.\<close>

definition counts_ok :: "'db block_processor \<Rightarrow> bool" where
  "counts_ok bp \<longleftrightarrow> sorted (tx_counts (bp_db bp)) \<and> (\<forall>c \<in> set (tx_counts (bp_db bp)). c \<le> bp_tx_count bp) \<and>
     db_height (bp_db bp) < int (length (tx_counts (bp_db bp)))"

lemma fs_tx_hash_append:
  assumes "sorted (tx_counts d @ [n])" "db_height d < int (length (tx_counts d))" "fst (fs_tx_hash i d) = Some h"
  shows "fst (fs_tx_hash i (d\<lparr>tx_counts := tx_counts d @ [n], hist := hs\<rparr>)) = Some h"
proof -
  have srt: "sorted (tx_counts d)" using assms(1) by (simp add: sorted_append)
  have le: "int (bisect_right (tx_counts d) i) \<le> db_height d"
    using assms(3) by (auto simp: fs_tx_hash_def Let_def split: if_splits)
  then have "length (filter (\<lambda>y. y \<le> i) (tx_counts d)) < length (tx_counts d)"
    using assms(2) by (simp add: bisect_right_sorted [OF srt])
  then obtain c where "c \<in> set (tx_counts d)" "\<not> c \<le> i"
    by (metis filter_True less_irrefl)
  then have "\<not> n \<le> i" using assms(1) by (auto simp: sorted_append)
  then have "bisect_right (tx_counts d @ [n]) i = bisect_right (tx_counts d) i"
    by (simp add: bisect_right_sorted [OF srt] bisect_right_sorted [OF assms(1)])
  then show ?thesis using assms(3) by (simp add: fs_tx_hash_def Let_def split: if_splits)
qed

lemma add_unflushed_loop_total:
  "n + length txs \<le> 2 ^ 40 \<Longrightarrow> \<exists>r. add_unflushed_loop txs (int n) u count = Inr r"
proof (induction txs arbitrary: n u count)
  case (Cons hs txs)
  have "pack_le_uint64 (int n) = Inr (le_encode 8 n)"
    using Cons.prems by (simp add: pack_le_uint64_def pack_le_unsigned_def)
  then obtain v where "add_tx hs (int n) u = Inr v" by (simp add: add_tx_def)
  moreover have "int n + 1 = int (n + 1)" by simp
  moreover have "\<exists>r. add_unflushed_loop txs (int (n + 1)) v (count + length (remdups hs)) = Inr r"
    using Cons.IH [of "n + 1"] Cons.prems by simp
  ultimately show ?case by (simp only: add_unflushed_loop.simps bindE_simps)
qed simp

lemma finish_advance_ok:
  assumes rep: "utxo_rep E T bp U" and cnt: "counts_ok bp" and n: "n = bp_tx_count bp + length hss" "n \<le> 2 ^ 40"
  shows "\<exists>bp'. finish_advance hss n bp = Inr bp' \<and> utxo_rep E T bp' U \<and> counts_ok bp' \<and> bp_tx_count bp' = n \<and>
    tx_counts (bp_db bp') = tx_counts (bp_db bp) @ [n] \<and> touched bp' = touched bp \<union> set (concat hss) \<and>
    bp_tx_hashes bp' = bp_tx_hashes bp \<and> bp_height bp' = bp_height bp \<and>
    add_unflushed hss (int (bp_tx_count bp)) (hist (bp_db bp)) = Inr (hist (bp_db bp'))"
proof -
  have "bp_tx_count bp + length hss \<le> 2 ^ 40" using n by simp
  then obtain r where "add_unflushed_loop hss (int (bp_tx_count bp)) (unflushed (hist (bp_db bp))) 0 = Inr r"
    using add_unflushed_loop_total by blast
  then obtain h where h: "add_unflushed hss (int (bp_tx_count bp)) (hist (bp_db bp)) = Inr h"
    by (cases r) (simp add: add_unflushed_def)
  let ?d = "(bp_db bp)\<lparr>tx_counts := tx_counts (bp_db bp) @ [n], hist := h\<rparr>"
  let ?bp = "bp\<lparr>touched := touched bp \<union> set (concat hss), bp_tx_count := n, bp_db := ?d\<rparr>"
  have fin: "finish_advance hss n bp = Inr ?bp" by (simp add: finish_advance_def h)
  have srt: "sorted (tx_counts (bp_db bp) @ [n])"
    using cnt n by (force simp: counts_ok_def sorted_append)
  obtain D xs where c: "cache_rep E T bp D xs" and U: "U = utxo_view bp D xs"
    using rep by (auto simp: utxo_rep_def)
  have "hashes_known ?d D"
    using c fs_tx_hash_append [OF srt] cnt by (simp add: cache_rep_def hashes_known_def counts_ok_def)
  then have "cache_rep E T ?bp D xs" using c by (simp add: cache_rep_def)
  moreover have "U = utxo_view ?bp D xs" by (simp add: U utxo_view_def)
  ultimately have "utxo_rep E T ?bp U" unfolding utxo_rep_def by blast
  moreover have "counts_ok ?bp" using cnt srt n by (force simp: counts_ok_def)
  ultimately show ?thesis using fin h by simp
qed

lemma txs_abs_length: "txs_abs hx unsp num txs U = Some (undo, hss, U') \<Longrightarrow> length hss = length txs"
  by (induction txs arbitrary: num U undo hss) (auto split: option.splits)

lemma utxo_rep_hashes [simp]: "utxo_rep E T (bp\<lparr>bp_tx_hashes := x\<rparr>) U \<longleftrightarrow> utxo_rep E T bp U"
  by (simp add: utxo_rep_def cache_rep_def utxo_view_def)

lemma frame_eq:
  assumes "frame bp' = frame bp"
  shows "bp_db bp' = bp_db bp" "bp_tx_count bp' = bp_tx_count bp" "touched bp' = touched bp"
    "bp_tx_hashes bp' = bp_tx_hashes bp" "bp_height bp' = bp_height bp" "undo_infos bp' = undo_infos bp"
    "bp_headers bp' = bp_headers bp" "bp_tip bp' = bp_tip bp"
  using assms by (cases bp; cases bp'; simp add: frame_def)+

text \<open>A block that continues the chain of transactions \<open>T\<close> at the block processor's count.\<close>

definition block_fits :: "bytes list \<Rightarrow> bp_env \<Rightarrow> nat \<Rightarrow> tx list \<Rightarrow> bool" where
  "block_fits T X num txs \<longleftrightarrow> length T \<le> 256 ^ 5 \<and> take (length txs) (drop num T) = map txid txs \<and>
     (\<forall>s. length (hashX_from_script X s) = hashX_len) \<and>
     (\<forall>t \<in> set txs. length (txid t) = 32 \<and> length (tx_outputs t) \<le> 2 ^ 32)"

lemma block_fits_drop: "block_fits T X num txs \<Longrightarrow> drop num T = map txid txs @ drop (num + length txs) T"
  unfolding block_fits_def by (metis add.commute append_take_drop_id drop_drop)

lemma block_fits_bound:
  assumes "block_fits T X num txs" "txs \<noteq> []"
  shows "num + length txs \<le> 2 ^ 40"
proof -
  have "length (take (length txs) (drop num T)) = length txs" using assms(1) by (simp add: block_fits_def)
  then have "num + length txs \<le> length T" using assms(2) by (cases txs) auto
  moreover have "(256 :: nat) ^ 5 = 2 ^ 40" by simp
  ultimately show ?thesis using assms(1) by (simp add: block_fits_def)
qed

text \<open>C10: processing the transactions of a block has exactly its effect on the UTXO set: when the block is
  applicable to the set, \<open>advance_txs\<close> succeeds with the values of the spent outputs as undo
  information, the cache, pending deletions and tables then stand for the set after the block, the
  addresses touched and the history entries are those of the block, and the transaction counts stay
  consistent.\<close>

theorem advance_txs_refines:
  assumes "storage E" "utxo_rep E T bp U" "wf_set T U" "counts_ok bp" "txs \<noteq> []"
    and "block_fits T X (bp_tx_count bp) txs"
    and "txs_abs (hashX_from_script X) unsp (bp_tx_count bp) txs U = Some (undo, hss, U')"
  shows "\<exists>bp'. advance_txs E X unsp txs bp = Inr (undo, bp') \<and> utxo_rep E T bp' U' \<and> wf_set T U' \<and>
    counts_ok bp' \<and> bp_tx_count bp' = bp_tx_count bp + length txs \<and>
    tx_counts (bp_db bp') = tx_counts (bp_db bp) @ [bp_tx_count bp + length txs] \<and>
    touched bp' = touched bp \<union> set (concat hss) \<and>
    bp_tx_hashes bp' = bp_tx_hashes bp @ [concat (map txid txs)] \<and>
    add_unflushed hss (int (bp_tx_count bp)) (hist (bp_db bp)) = Inr (hist (bp_db bp'))"
proof -
  let ?bp = "bp\<lparr>bp_tx_hashes := bp_tx_hashes bp @ [concat (map txid txs)]\<rparr>"
  note fits = assms(6) [unfolded block_fits_def] and drp = block_fits_drop [OF assms(6)]
  have ids: "\<forall>t \<in> set txs. length (txid t) = 32" and T: "length T \<le> 256 ^ 5"
    and hx: "\<forall>s. length (hashX_from_script X s) = hashX_len" using fits by blast+
  have rep: "storage E \<and> utxo_rep E T ?bp U" using assms(1,2) by simp
  obtain bp1 where 1: "advance_loop (spend_utxo E) put_utxo (hashX_from_script X) unsp (bp_tx_count bp) txs ?bp
      = Inr (undo, hss, bp_tx_count bp + length txs, bp1)" "utxo_rep E T bp1 U'" "frame bp1 = frame ?bp"
    using cache_store.advance_loop_ok [OF T hx assms(7) rep assms(3) drp ids] by blast
  note f = frame_eq [OF 1(3)]
  have "counts_ok bp1" using assms(4) f by (simp add: counts_ok_def)
  moreover have "bp_tx_count bp + length txs = bp_tx_count bp1 + length hss"
    using f txs_abs_length [OF assms(7)] by simp
  ultimately obtain bp2 where "finish_advance hss (bp_tx_count bp + length txs) bp1 = Inr bp2" "utxo_rep E T bp2 U'"
    "counts_ok bp2" "bp_tx_count bp2 = bp_tx_count bp + length txs"
    "tx_counts (bp_db bp2) = tx_counts (bp_db bp1) @ [bp_tx_count bp + length txs]"
    "touched bp2 = touched bp1 \<union> set (concat hss)" "bp_tx_hashes bp2 = bp_tx_hashes bp1"
    "add_unflushed hss (int (bp_tx_count bp1)) (hist (bp_db bp1)) = Inr (hist (bp_db bp2))"
    using finish_advance_ok [OF 1(2), of "bp_tx_count bp + length txs" hss] block_fits_bound [OF assms(6,5)] by blast
  moreover have "wf_set T U'" using txs_abs_wf [OF T hx assms(7,3) drp ids] by blast
  ultimately show ?thesis using 1(1) f by (auto simp: advance_txs_def)
qed

text \<open>C11: backing up a block restores the UTXO set exactly: from the set after the block, with the undo
  information that advancing it produced on disk, \<open>backup_txs\<close> succeeds, uses up the undo information
  exactly, and leaves the set, and the transaction count, of before the block.\<close>

theorem backup_txs_inverts:
  assumes "storage E" "utxo_rep E T bp U'" "wf_set T U" "block_fits T X num txs"
    and "bp_tx_count bp = num + length txs"
    and "txs_abs (hashX_from_script X) unsp num txs U = Some (undo, hss, U')"
    and "read_undo_info E (bp_height bp) (bp_db bp) = Inr (Some (concat undo))"
  shows "\<exists>bp'. backup_txs E unsp txs bp = Inr bp' \<and> utxo_rep E T bp' U \<and> bp_tx_count bp' = num \<and>
    bp_db bp' = bp_db bp \<and> bp_height bp' = bp_height bp"
proof -
  note fits = assms(4) [unfolded block_fits_def] and drp = block_fits_drop [OF assms(4)]
  have ids: "\<forall>t \<in> set txs. length (txid t) = 32" "\<forall>t \<in> set txs. length (tx_outputs t) \<le> 2 ^ 32"
    and T: "length T \<le> 256 ^ 5" and hx: "\<forall>s. length (hashX_from_script X s) = hashX_len" using fits by blast+
  have "\<forall>v \<in> set undo. length v = 24 \<Longrightarrow> length (concat undo) = 24 * length undo"
    by (induction undo) auto
  then have len: "int (length (concat undo)) = int (24 * length undo)"
    using txs_abs_wf [OF T hx assms(6,3) drp ids(1)] by simp
  have rep: "storage E \<and> utxo_rep E T bp U'" using assms(1,2) by simp
  obtain hs bp1 where "backup_loop (spend_utxo E) put_utxo unsp (concat undo @ []) (int (24 * length undo)) (rev txs) bp =
      Inr (0, hs, bp1)" "utxo_rep E T bp1 U" "frame bp1 = frame bp"
    using cache_store.backup_loop_ok [OF T hx ids(2) assms(6) rep assms(3) drp ids(1), of "[]"] by blast
  moreover have "utxo_rep E T (bp1\<lparr>touched := x, bp_tx_count := n\<rparr>) U" if "utxo_rep E T bp1 U" for x n
    using that by (simp add: utxo_rep_def cache_rep_def utxo_view_def)
  ultimately show ?thesis
    using assms(5,7) frame_eq [of bp1 bp] unfolding backup_txs_def
    by (simp add: len del: length_concat of_nat_mult)
qed


text \<open>A block of one transaction that spends the sample output, to apply the theorems to.\<close>

definition sample_bp_env :: bp_env where
  "sample_bp_env = \<lparr>chain = sample_env, parse_block = (\<lambda>b h. Inl ValueError),
     hashX_from_script = (\<lambda>s. take 11 (s @ replicate 11 0)), name_hashX_from_script = (\<lambda>s. None),
     header_prevhash = drop 1, genesis_activation = 100, cache_MB = 10, max_fetch_blocks = (\<lambda>h. 100),
     genesis_block = Inr\<rparr>"

definition block_sample_tx :: tx where
  "block_sample_tx = \<lparr>tx_version = 1,
     tx_inputs = [\<lparr>prev_hash = replicate 32 1, prev_idx = 0, in_script = [], in_sequence = 0\<rparr>],
     tx_outputs = [\<lparr>out_value = 9, pk_script = [5]\<rparr>], tx_locktime = 0, txid = replicate 32 2, wtxid = [], ext = PlainTx\<rparr>"

abbreviation "sample_key' \<equiv> replicate 32 2 @ le_encode 4 0 :: bytes"
abbreviation "sample_value' \<equiv> take 11 ([5] @ replicate 11 0) @ le_encode 5 1 @ le_encode 8 9 :: bytes"

lemma sample_block_fits: "block_fits [replicate 32 1, replicate 32 2] sample_bp_env 1 [block_sample_tx]"
  by (auto simp: block_fits_def sample_bp_env_def block_sample_tx_def min_def)

lemma sample_txs_abs:
  "txs_abs (hashX_from_script sample_bp_env) (\<lambda>_. False) 1 [block_sample_tx] [sample_key \<mapsto> sample_value] =
     Some ([sample_value], [[replicate 11 7, take 11 ([5] @ replicate 11 0)]], [sample_key' \<mapsto> sample_value'])"
proof -
  have "[sample_key \<mapsto> sample_value](sample_key := None) = Map.empty" by (rule ext) simp
  moreover have "(replicate 32 1 :: bytes) \<noteq> ZERO" by (simp add: ZERO_def)
  ultimately show ?thesis
    by (simp add: block_sample_tx_def sample_bp_env_def is_generation_def)
qed

lemma sample_wf_set: "wf_set [replicate 32 1, replicate 32 2] [sample_key \<mapsto> sample_value]"
proof -
  have "slice sample_value 11 16 = le_encode 5 0" by (simp add: slice_def)
  then show ?thesis by (simp add: wf_set_def wf_utxo_def num_of_def)
qed

lemma sample_value'_wf: "wf_utxo [replicate 32 1, replicate 32 2] sample_key' sample_value'"
  by (rule new_output_wf) simp_all

definition sample_bp1 :: "tree block_processor" where
  "sample_bp1 = put_utxo sample_key sample_value
     (empty_bp ((empty_db (new_history RBT.empty) RBT.empty)\<lparr>tx_counts := [1], db_height := 0\<rparr>))
     \<lparr>bp_tx_count := 1\<rparr>"

lemma sample_rep1: "utxo_rep rbt_engine [replicate 32 1, replicate 32 2] sample_bp1 [sample_key \<mapsto> sample_value]"
proof -
  let ?d = "(empty_db (new_history RBT.empty) RBT.empty)\<lparr>tx_counts := [1], db_height := 0\<rparr>"
  have "utxo_rep rbt_engine [replicate 32 1, replicate 32 2] (empty_bp ?d) Map.empty"
    by (rule rep_empty) (simp_all add: rbt_engine_def empty_db_def)
  then have "utxo_rep rbt_engine [replicate 32 1, replicate 32 2] (put_utxo sample_key sample_value (empty_bp ?d)) [sample_key \<mapsto> sample_value]"
    using sample_wf_set by (intro rep_put_utxo) (simp_all add: wf_set_def)
  then show ?thesis
    by (simp add: sample_bp1_def utxo_rep_def cache_rep_def utxo_view_def)
qed

theorem advance_txs_refines_witness:
  "\<exists>bp. advance_txs rbt_engine sample_bp_env (\<lambda>_. False) [block_sample_tx] sample_bp1 = Inr ([sample_value], bp) \<and>
     utxo_rep rbt_engine [replicate 32 1, replicate 32 2] bp [sample_key' \<mapsto> sample_value'] \<and> bp_tx_count bp = 2"
proof -
  have "counts_ok sample_bp1" "bp_tx_count sample_bp1 = 1"
    by (simp_all add: sample_bp1_def put_utxo_def empty_bp_def counts_ok_def)
  then show ?thesis
    using advance_txs_refines [OF rbt_storage.storage_axioms sample_rep1 sample_wf_set, of "[block_sample_tx]" sample_bp_env
        "\<lambda>_. False" "[sample_value]" "[[replicate 11 7, take 11 ([5] @ replicate 11 0)]]" "[sample_key' \<mapsto> sample_value']"]
      sample_block_fits sample_txs_abs by (simp only:) auto
qed

definition sample_bp2 :: "tree block_processor" where
  "sample_bp2 = put_utxo sample_key' sample_value'
     (empty_bp (empty_db (new_history RBT.empty) (RBT.insert (85 # be_encode 4 1) sample_value RBT.empty)))
     \<lparr>bp_tx_count := 2, bp_height := 1\<rparr>"

theorem backup_txs_inverts_witness:
  "\<exists>bp. backup_txs rbt_engine (\<lambda>_. False) [block_sample_tx] sample_bp2 = Inr bp \<and>
     utxo_rep rbt_engine [replicate 32 1, replicate 32 2] bp [sample_key \<mapsto> sample_value] \<and> bp_tx_count bp = 1"
proof -
  let ?d = "empty_db (new_history RBT.empty) (RBT.insert (85 # be_encode 4 1) sample_value RBT.empty)"
  have "utxo_rep rbt_engine [replicate 32 1, replicate 32 2] (empty_bp ?d) Map.empty"
    by (rule rep_empty) (simp_all add: rbt_engine_def empty_db_def)
  then have "utxo_rep rbt_engine [replicate 32 1, replicate 32 2] (put_utxo sample_key' sample_value' (empty_bp ?d)) [sample_key' \<mapsto> sample_value']"
    using sample_value'_wf by (intro rep_put_utxo) simp_all
  then have rep: "utxo_rep rbt_engine [replicate 32 1, replicate 32 2] sample_bp2 [sample_key' \<mapsto> sample_value']"
    by (simp add: sample_bp2_def utxo_rep_def cache_rep_def utxo_view_def)
  have undo: "read_undo_info rbt_engine (bp_height sample_bp2) (bp_db sample_bp2) = Inr (Some (concat [sample_value]))"
    by (simp add: read_undo_info_def undo_key_def pack_be_uint32_def pack_be_unsigned_def sample_bp2_def put_utxo_def
        empty_bp_def empty_db_def rbt_engine_def)
  have "bp_tx_count sample_bp2 = 1 + length [block_sample_tx]" by (simp add: sample_bp2_def)
  from backup_txs_inverts [OF rbt_storage.storage_axioms rep sample_wf_set sample_block_fits this sample_txs_abs undo]
  show ?thesis by blast
qed

end
