(* ===== verification/Reorg.thy ===== *)
theory Reorg
  imports BlockSpec
begin

section \<open>The range of a chain reorganisation (BlockProcessor.calc_reorg_range)\<close>

text \<open>
  The blocks to back up are found by comparing hashes with the daemon, going back in ranges that
  double.  The lemmas take the search apart for any two chains that agree below a height \<open>f\<close> and
  nowhere from it on; the property is about the chain in the database's files.
\<close>

lemma first_difference_None:
  "length xs = length ys \<Longrightarrow> first_difference xs ys = None \<longleftrightarrow> xs = ys"
  by (induction xs ys rule: list_induct2) auto

lemma first_difference_Some:
  "first_difference xs ys = Some n \<Longrightarrow> n < length xs \<and> n < length ys \<and> take n xs = take n ys \<and> xs ! n \<noteq> ys ! n"
  by (induction xs ys arbitrary: n rule: first_difference.induct) (auto split: if_splits)

text \<open>Hashes of a range of heights.\<close>

definition range_of :: "(nat \<Rightarrow> 'a) \<Rightarrow> nat \<Rightarrow> nat \<Rightarrow> 'a list" where
  "range_of h s c = map h [s..<s + c]"

lemma nth_range_of [simp]: "i < c \<Longrightarrow> range_of h s c ! i = h (s + i)"
  by (simp add: range_of_def)

lemma length_range_of [simp]: "length (range_of h s c) = c"
  by (simp add: range_of_def)

lemma reorg_start_spec:
  assumes local: "\<forall>s c. 0 < s \<longrightarrow> s + c \<le> height \<longrightarrow> loc (int s) (int c) = Inr (range_of lh s c)"
    and dmn: "\<forall>s c. 0 < s \<longrightarrow> s + c \<le> height \<longrightarrow> dmn (int s) (int c) = Inr (range_of dh s c)"
    and agree: "\<forall>i < height. hash_to_hex_str (lh i) = dh i \<longleftrightarrow> i < f"
  shows "0 < c \<Longrightarrow> s + c \<le> height \<Longrightarrow> s + c = height \<or> f \<le> s + c \<Longrightarrow>
    \<exists>r. reorg_start loc dmn (int s) (int c) = Inr (int r) \<and> r \<le> min f height \<and> (0 < r \<longrightarrow> r = min f height)"
proof (induction s arbitrary: c rule: less_induct)
  case (less s)
  show ?case
  proof (cases "s = 0")
    case True
    then show ?thesis by (subst reorg_start.simps) (intro exI [of _ 0], simp)
  next
    case False
    let ?L = "map hash_to_hex_str (range_of lh s c)" and ?D = "range_of dh s c"
    define n where "n = diff_pos c ?L ?D"
    have unf: "reorg_start loc dmn (int s) (int c) =
        (if n > 0 then Inr (int (s + n))
         else reorg_start loc dmn (int s - min (int c * 2) (int s)) (min (int c * 2) (int s)))"
      using local dmn less.prems False
      by (subst reorg_start.simps) (simp add: n_def Let_def range_of_def)
    have same: "\<forall>i < c. ?L ! i = ?D ! i \<longleftrightarrow> s + i < f"
      using agree less.prems(2) by simp
    show ?thesis
    proof (cases "first_difference ?L ?D")
      case None
      then have eq: "?L = ?D" by (simp add: first_difference_None)
      have "s + (c - 1) < f" using same eq less.prems(1) by (metis diff_less zero_less_one)
      then have "s + c \<le> f" using less.prems(1) by simp
      then have "s + c = min f height" using less.prems(2,3) by auto
      moreover have "n = c" using None by (simp add: n_def diff_pos_def)
      ultimately show ?thesis using unf less.prems(1) by (intro exI [of _ "s + c"]) auto
    next
      case (Some m)
      have m: "n = m" using Some by (simp add: n_def diff_pos_def)
      note d = first_difference_Some [OF Some]
      then have mc: "m < c" by simp
      then have up: "f \<le> s + m" using d same by auto
      show ?thesis
      proof (cases "m = 0")
        case False
        have "?L ! (m - 1) = ?D ! (m - 1)"
          using d False by (metis diff_less nth_take not_gr_zero zero_less_one)
        then have "s + (m - 1) < f" using same mc by auto
        then have "s + m = min f height" using up mc less.prems(2) False by simp
        then show ?thesis using unf m False by (intro exI [of _ "s + m"]) auto
      next
        case True
        define c' where "c' = min (c * 2) s"
        have c': "0 < c'" "c' \<le> s" using less.prems(1) False by (simp_all add: c'_def)
        have "\<exists>r. reorg_start loc dmn (int (s - c')) (int c') = Inr (int r) \<and> r \<le> min f height \<and> (0 < r \<longrightarrow> r = min f height)"
          by (rule less.IH) (use c' less.prems(2) up True in auto)
        moreover have "int s - min (int c * 2) (int s) = int (s - c')" "min (int c * 2) (int s) = int c'"
          using c' by (simp_all add: c'_def of_nat_diff min_def)
        ultimately show ?thesis using unf m True by simp
      qed
    qed
  qed
qed

text \<open>C12: a real reorganisation backs up every block that the daemon no longer has, and no more: with the
  chain in the files and a daemon whose chain agrees with it exactly below height \<open>f\<close>, the range found
  always starts at or below the first block that differs (or the tip), so no replaced block stays; and
  it starts exactly there unless the search ran back to the genesis block.\<close>

theorem reorg_range_exact:
  assumes "fs_rep (chain X) (bp_db bp) hs blks" "db_height (bp_db bp) = fs_height (bp_db bp)"
    and "bp_height bp = int (length hs) - 1" "2 \<le> length hs"
    and "\<forall>s c. 0 < s \<longrightarrow> s + c < length hs \<longrightarrow> block_hex_hashes dm (int s) (int c) = Inr (range_of dh s c)"
    and "\<forall>i < length hs - 1. hash_to_hex_str (header_hash (chain X) (hs ! i)) = dh i \<longleftrightarrow> i < f"
  shows "\<exists>r. calc_reorg_range X dm None bp = Inr (int r, bp_height bp - int r + 1) \<and>
    r \<le> min f (length hs - 1) \<and> (0 < r \<longrightarrow> r = min f (length hs - 1))"
proof -
  let ?loc = "\<lambda>start count. fs_block_hashes (chain X) start count (bp_db bp)"
  let ?lh = "\<lambda>i. header_hash (chain X) (hs ! i)"
  have "\<forall>s c. 0 < s \<longrightarrow> s + c \<le> length hs - 1 \<longrightarrow> ?loc (int s) (int c) = Inr (range_of ?lh s c)"
  proof (intro allI impI)
    fix s c assume "s + c \<le> length hs - 1"
    then have le: "s + c \<le> length hs" by simp
    have "map (header_hash (chain X)) (take c (drop s hs)) = range_of ?lh s c"
      by (rule nth_equalityI) (use le in auto)
    then show "?loc (int s) (int c) = Inr (range_of ?lh s c)"
      using fs_block_hashes_spec [OF assms(1,2) le] by simp
  qed
  moreover have "\<forall>s c. 0 < s \<longrightarrow> s + c \<le> length hs - 1 \<longrightarrow> block_hex_hashes dm (int s) (int c) = Inr (range_of dh s c)"
    using assms(4,5) by auto
  moreover have len: "length hs - 2 + 1 \<le> length hs - 1"
    "length hs - 2 + 1 = length hs - 1 \<or> f \<le> length hs - 2 + 1" using assms(4) by auto
  ultimately have "\<exists>r. reorg_start ?loc (block_hex_hashes dm) (int (length hs - 2)) (int 1) = Inr (int r) \<and>
      r \<le> min f (length hs - 1) \<and> (0 < r \<longrightarrow> r = min f (length hs - 1))"
    by (rule reorg_start_spec [OF _ _ assms(6) zero_less_one])
  then obtain r where "reorg_start ?loc (block_hex_hashes dm) (int (length hs - 2)) (int 1) = Inr (int r)"
    "r \<le> min f (length hs - 1)" "0 < r \<longrightarrow> r = min f (length hs - 1)" by blast
  moreover have "bp_height bp - 1 = int (length hs - 2)" using assms(3,4) by simp
  ultimately show ?thesis by (intro exI [of _ r]) (simp add: calc_reorg_range_def)
qed

theorem reorg_range_exact_witness:
  "\<exists>bp :: unit block_processor. \<exists>dm r. calc_reorg_range sample_bp_env dm None bp = Inr (int r, 2 - int r) \<and> r \<le> 1"
proof -
  let ?d0 = "(empty_db (new_history ()) ())\<lparr>tx_counts := [1, 3]\<rparr>"
  define d where "d = (flushed_fs sample_env sample_flush [] [] sample_blocks ?d0)\<lparr>db_height := 1\<rparr>"
  have "fs_rep sample_env (d\<lparr>db_height := -1\<rparr>) [[1, 2], [3, 4, 5]] sample_blocks"
    using flushed_fs_rep [OF sample_rep_counts sample_flushable, of "new_history ()" "()"]
    by (simp add: d_def flushed_fs_def empty_db_def sample_flush_def)
  then have rep: "fs_rep (chain sample_bp_env) (bp_db ((empty_bp d)\<lparr>bp_height := 1\<rparr>)) [[1, 2], [3, 4, 5]] sample_blocks"
    by (simp add: fs_rep_def sample_bp_env_def empty_bp_def)
  have db: "db_height (bp_db ((empty_bp d)\<lparr>bp_height := 1\<rparr>)) = fs_height (bp_db ((empty_bp d)\<lparr>bp_height := 1\<rparr>))"
    "bp_height ((empty_bp d)\<lparr>bp_height := 1\<rparr>) = int (length [[1, 2], [3, 4, 5 :: byte]]) - 1"
    by (simp_all add: d_def flushed_fs_def sample_flush_def empty_bp_def)
  let ?dm = "\<lparr>cached_height = 1, block_hex_hashes = (\<lambda>s c. Inr (range_of (\<lambda>i. ''zz'') (nat s) (nat c))), raw_blocks_of = (\<lambda>_. Inr [])\<rparr>"
  have "hash_to_hex_str [1] \<noteq> ''zz''" by code_simp
  then show ?thesis
    using reorg_range_exact [OF rep db, of ?dm "\<lambda>i. ''zz''" 0]
    by (intro exI [of _ "(empty_bp d)\<lparr>bp_height := 1\<rparr>"] exI [of _ ?dm]) (simp add: sample_bp_env_def sample_env_def)
qed

end
