(* ===== verification/Prefetch.thy ===== *)
theory Prefetch
  imports BlockProc
begin

section \<open>The prefetcher (Prefetcher of server/block_processor.py)\<close>

text \<open>
  The record \<open>prefetcher\<close> is the object \<open>Prefetcher\<close>; its events are booleans.  An operation that can
  fail gives the result or the exception together with the state it leaves, because \<open>main_loop\<close>
  ignores the exception and goes on from there.  The semaphore makes \<open>reset_height\<close> and the loop of
  \<open>_prefetch_blocks\<close> exclude each other, so each is one step; what the daemon answers is the parameter
  \<open>dm\<close>.
\<close>

abbreviation "MIN_CACHE_SIZE \<equiv> 10485760 :: nat"

record prefetcher =
  blocks :: "bytes list"
  pf_caught_up :: bool
  fetched_height :: int
  cache_size :: nat
  ave_size :: nat
  refill_event :: bool
  blocks_event :: bool

definition new_prefetcher :: "int \<Rightarrow> prefetcher" where
  "new_prefetcher height = \<lparr>blocks = [], pf_caught_up = False, fetched_height = height, cache_size = 0,
     ave_size = MIN_CACHE_SIZE div 10, refill_event = False, blocks_event = False\<rparr>"

definition get_prefetched_blocks :: "prefetcher \<Rightarrow> bytes list \<times> prefetcher" where
  "get_prefetched_blocks p = (blocks p, p\<lparr>blocks := [], cache_size := 0, refill_event := True\<rparr>)"

definition reset_height :: "int \<Rightarrow> prefetcher \<Rightarrow> prefetcher" where
  "reset_height height p = p\<lparr>blocks := [], cache_size := 0, fetched_height := height, refill_event := True\<rparr>"

definition fetch_count :: "bp_env \<Rightarrow> int \<Rightarrow> prefetcher \<Rightarrow> int" where
  "fetch_count X daemon_height p =
     (let cache_room = max (int (MIN_CACHE_SIZE div ave_size p)) 1;
          count = min (daemon_height - fetched_height p) cache_room
      in min (max_fetch_blocks X (fetched_height p + 1)) (max count 0))"

text \<open>The blocks of one request, the first of the chain replaced by what the coin makes of it.\<close>

definition fetch_blocks :: "bp_env \<Rightarrow> daemon \<Rightarrow> int \<Rightarrow> int \<Rightarrow> exn + bytes list" where
  "fetch_blocks X dm first_height count =
     bindE (block_hex_hashes dm first_height count) (\<lambda>hex_hashes.
     bindE (raw_blocks_of dm hex_hashes) (\<lambda>bs.
     bindE (assertE (count = int (length bs))) (\<lambda>_.
       if first_height = 0
       then bindE (genesis_block X (hd bs)) (\<lambda>g. Inr (g # tl bs))
       else Inr bs)))"

definition add_fetched :: "bytes list \<Rightarrow> prefetcher \<Rightarrow> prefetcher" where
  "add_fetched bs p =
     (let count = length bs; sz = sum_list (map length bs)
      in p\<lparr>ave_size := (if count \<ge> 10 then sz div count else (sz + (10 - count) * ave_size p) div 10),
           blocks := blocks p @ bs, cache_size := cache_size p + sz,
           fetched_height := fetched_height p + int count, blocks_event := True\<rparr>)"

lemma fetch_blocks_length:
  "fetch_blocks X dm h count = Inr bs \<Longrightarrow> count \<noteq> 0 \<Longrightarrow> int (length bs) = count"
  by (auto simp: fetch_blocks_def err_simps split: if_splits)

function prefetch_loop :: "bp_env \<Rightarrow> daemon \<Rightarrow> int \<Rightarrow> prefetcher \<Rightarrow> (exn + bool) \<times> prefetcher" where
  "prefetch_loop X dm daemon_height p =
     (if cache_size p < MIN_CACHE_SIZE then
        if ave_size p = 0 then (Inl ZeroDivisionError, p)
        else
          let count = fetch_count X daemon_height p in
          if count = 0 then (Inr False, p\<lparr>pf_caught_up := True\<rparr>)
          else case fetch_blocks X dm (fetched_height p + 1) count of
                 Inl e \<Rightarrow> (Inl e, p)
               | Inr bs \<Rightarrow> prefetch_loop X dm daemon_height (add_fetched bs p)
      else (Inr True, p\<lparr>refill_event := False\<rparr>))"
  by pat_completeness auto
termination
proof (relation "measure (\<lambda>(X, dm, h, p). nat (h - fetched_height p))", goal_cases)
  case (2 X dm h p count bs)
  then have "int (length bs) = count" "count \<noteq> 0" by (auto dest: fetch_blocks_length)
  moreover have "count \<le> max (h - fetched_height p) 0"
    using 2(3) unfolding fetch_count_def Let_def by linarith
  ultimately show ?case by (simp add: add_fetched_def Let_def)
qed simp

declare prefetch_loop.simps [simp del]

definition prefetch_blocks :: "bp_env \<Rightarrow> daemon \<Rightarrow> int \<Rightarrow> prefetcher \<Rightarrow> (exn + bool) \<times> prefetcher" where
  "prefetch_blocks X dm daemon_height p = prefetch_loop X dm daemon_height p"

text \<open>What happens to the prefetcher while the block processor follows the chain: the main loop polls a daemon, whose
  answers may be others each time, and goes on after any error; the block processor takes what is there.  The result is
  what was handed out.\<close>

datatype pf_event = Poll daemon int | Hand_out

fun pf_run :: "bp_env \<Rightarrow> pf_event list \<Rightarrow> prefetcher \<Rightarrow> bytes list \<times> prefetcher" where
  "pf_run X [] p = ([], p)"
| "pf_run X (Poll dm daemon_height # es) p = pf_run X es (snd (prefetch_blocks X dm daemon_height p))"
| "pf_run X (Hand_out # es) p =
     (let (bs, p) = get_prefetched_blocks p; (rest, p) = pf_run X es p in (bs @ rest, p))"

subsection \<open>What is fetched\<close>

text \<open>A daemon that speaks of the chain with hashes \<open>hash\<close> and raw blocks \<open>R\<close> may fail, but what it answers is true; one that
  answers up to a height does not fail below it.\<close>

definition truthful :: "daemon \<Rightarrow> (int \<Rightarrow> string) \<Rightarrow> (int \<Rightarrow> bytes) \<Rightarrow> bool" where
  "truthful dm hash R \<longleftrightarrow>
     (\<forall>h c hs. 0 \<le> h \<longrightarrow> 0 < c \<longrightarrow> block_hex_hashes dm h c = Inr hs \<longrightarrow> hs = map hash [h..h + c - 1]) \<and>
     (\<forall>h c bs. 0 \<le> h \<longrightarrow> 0 < c \<longrightarrow> raw_blocks_of dm (map hash [h..h + c - 1]) = Inr bs \<longrightarrow> bs = map R [h..h + c - 1])"

definition answering :: "daemon \<Rightarrow> int \<Rightarrow> (int \<Rightarrow> string) \<Rightarrow> bool" where
  "answering dm daemon_height hash \<longleftrightarrow>
     (\<forall>h c. 0 \<le> h \<longrightarrow> 0 < c \<longrightarrow> h + c - 1 \<le> daemon_height \<longrightarrow>
        \<not> isl (block_hex_hashes dm h c) \<and> \<not> isl (raw_blocks_of dm (map hash [h..h + c - 1])))"

lemma truthful_hashes: "truthful dm hash R \<Longrightarrow> 0 \<le> h \<Longrightarrow> 0 < c \<Longrightarrow> block_hex_hashes dm h c = Inr hs \<Longrightarrow> hs = map hash [h..h + c - 1]"
  unfolding truthful_def by blast

lemma truthful_blocks: "truthful dm hash R \<Longrightarrow> 0 \<le> h \<Longrightarrow> 0 < c \<Longrightarrow> raw_blocks_of dm (map hash [h..h + c - 1]) = Inr bs \<Longrightarrow>
  bs = map R [h..h + c - 1]"
  unfolding truthful_def by blast

text \<open>The coin: blocks are not empty, it makes a genesis block of the first one, and it lets some blocks be fetched.\<close>

definition coin_takes :: "bp_env \<Rightarrow> (int \<Rightarrow> bytes) \<Rightarrow> bytes \<Rightarrow> bool" where
  "coin_takes X R g \<longleftrightarrow> genesis_block X (R 0) = Inr g \<and> g \<noteq> [] \<and> (\<forall>h. R h \<noteq> []) \<and> (\<forall>h. 0 < max_fetch_blocks X h)"

text \<open>The blocks above \<open>h\<close> up to \<open>h'\<close>, as the block processor is to see them.\<close>

definition chain_blocks :: "(int \<Rightarrow> bytes) \<Rightarrow> bytes \<Rightarrow> int \<Rightarrow> int \<Rightarrow> bytes list" where
  "chain_blocks R g h h' = map (\<lambda>i. if i = 0 then g else R i) [h + 1..h']"

lemma chain_blocks_append:
  "h \<le> h' \<Longrightarrow> h' \<le> h'' \<Longrightarrow> chain_blocks R g h h' @ chain_blocks R g h' h'' = chain_blocks R g h h''"
  unfolding chain_blocks_def map_append [symmetric]
  by (cases "h = h'") (simp_all add: upto_split2 [of "h + 1" h' h''])

lemma upto_first: "0 < c \<Longrightarrow> [0..c - 1] = 0 # [1..c - (1 :: int)]"
  by (subst upto_rec1) simp_all

lemma chain_blocks_first: "0 < c \<Longrightarrow> chain_blocks R g (-1) (-1 + c) = g # tl (map R [0..-1 + c])"
  by (simp add: chain_blocks_def upto_first)

lemma chain_blocks_later: "0 \<le> h \<Longrightarrow> chain_blocks R g h h' = map R [h + 1..h']"
  by (simp add: chain_blocks_def)

lemma hd_chain: "0 < c \<Longrightarrow> hd (map R [0..-1 + c]) = R (0 :: int)"
  by (simp add: upto_first)

lemma fetched_true:
  assumes "truthful dm hash R" "coin_takes X R g" "-1 \<le> h" "0 < c" "fetch_blocks X dm (h + 1) c = Inr bs"
  shows "bs = chain_blocks R g h (h + c)"
proof -
  obtain hs rs where hs: "block_hex_hashes dm (h + 1) c = Inr hs" "raw_blocks_of dm hs = Inr rs"
    and bs: "(if h + 1 = 0 then bindE (genesis_block X (hd rs)) (\<lambda>g. Inr (g # tl rs)) else Inr rs) = Inr bs"
    using assms(5) by (auto simp: fetch_blocks_def bindE_Inr_iff)
  have h: "0 \<le> h + 1" "h + 1 + c - 1 = h + c" using assms(3) by auto
  note eq = truthful_hashes [OF assms(1) h(1) assms(4) hs(1)]
  have rs: "rs = map R [h + 1..h + c]" using truthful_blocks [OF assms(1) h(1) assms(4) hs(2) [unfolded eq]] h(2) by simp
  show ?thesis
  proof (cases "h = -1")
    case True
    then have rs0: "rs = map R [0..-1 + c]" using rs by simp
    then have "hd rs = R 0" using hd_chain [OF assms(4), of R] by metis
    then have "bs = g # tl rs" using bs True assms(2) by (simp add: coin_takes_def)
    with True rs0 show ?thesis using chain_blocks_first [OF assms(4)] by metis
  next
    case False
    then show ?thesis using bs rs assms(3) chain_blocks_later [of h R g "h + c"] by simp
  qed
qed

lemma fetch_answered:
  assumes "truthful dm hash R" "answering dm dh hash" "coin_takes X R g" "-1 \<le> h" "0 < c" "h + c \<le> dh"
  shows "\<not> isl (fetch_blocks X dm (h + 1) c)"
proof -
  have h: "0 \<le> h + 1" "h + 1 + c - 1 = h + c" using assms(4) by auto
  have "\<not> isl (block_hex_hashes dm (h + 1) c)" "\<not> isl (raw_blocks_of dm (map hash [h + 1..h + 1 + c - 1]))"
    using assms(2,5,6) h unfolding answering_def by auto
  then obtain hs rs where hs: "block_hex_hashes dm (h + 1) c = Inr hs"
    and rs: "raw_blocks_of dm (map hash [h + 1..h + 1 + c - 1]) = Inr rs" by (metis sum.collapse(2))
  note eq = truthful_hashes [OF assms(1) h(1) assms(5) hs] and rs' = truthful_blocks [OF assms(1) h(1) assms(5) rs]
  have hd: "hd rs = R 0" if "h + 1 = 0"
  proof -
    have "h + 1 + c - 1 = -1 + c" using that by simp
    then show ?thesis using hd_chain [OF assms(5), of R] rs' that by metis
  qed
  have "int (length rs) = c" using rs' h assms(5) by simp
  then show ?thesis using hs rs eq hd assms(3) by (simp add: fetch_blocks_def coin_takes_def)
qed

lemma sum_length_ge: "\<forall>b \<in> set bs. b \<noteq> [] \<Longrightarrow> length bs \<le> sum_list (map length bs)"
proof (induction bs)
  case (Cons b bs)
  then show ?case by (cases b) auto
qed simp

lemma ave_pos:
  assumes "bs \<noteq> []" "\<forall>b \<in> set bs. b \<noteq> []" "0 < ave_size p"
  shows "0 < ave_size (add_fetched bs p)"
proof (cases "10 \<le> length bs")
  case True
  then show ?thesis
    using sum_length_ge [OF assms(2)] assms(1) by (simp add: add_fetched_def Let_def div_greater_zero_iff)
next
  case False
  have "10 - length bs \<le> (10 - length bs) * ave_size p" using assms(3) by simp
  then have "10 \<le> sum_list (map length bs) + (10 - length bs) * ave_size p"
    using sum_length_ge [OF assms(2)] False by linarith
  then show ?thesis using False by (simp add: add_fetched_def Let_def div_greater_zero_iff)
qed

text \<open>What holds of the prefetcher since it was last set to the height \<open>start\<close>, when \<open>handed\<close> was handed out.\<close>

definition pf_inv :: "(int \<Rightarrow> bytes) \<Rightarrow> bytes \<Rightarrow> int \<Rightarrow> bytes list \<Rightarrow> prefetcher \<Rightarrow> bool" where
  "pf_inv R g start handed p \<longleftrightarrow> start \<le> fetched_height p \<and> 0 < ave_size p \<and>
     handed @ blocks p = chain_blocks R g start (fetched_height p) \<and> cache_size p = sum_list (map length (blocks p))"

lemma pf_inv_add:
  assumes "pf_inv R g start handed p" "coin_takes X R g" "0 < c" "bs = chain_blocks R g (fetched_height p) (fetched_height p + c)"
  shows "pf_inv R g start handed (add_fetched bs p) \<and> fetched_height (add_fetched bs p) = fetched_height p + c"
proof -
  have len: "int (length bs) = c" using assms(3,4) by (simp add: chain_blocks_def)
  then have h: "fetched_height (add_fetched bs p) = fetched_height p + c" by (simp add: add_fetched_def Let_def)
  have "\<forall>b \<in> set bs. b \<noteq> []" using assms(2) unfolding assms(4) chain_blocks_def coin_takes_def by (auto split: if_splits) (metis)
  then have "0 < ave_size (add_fetched bs p)"
    using ave_pos [of bs p] len assms(1,3) by (auto simp: pf_inv_def)
  moreover have "handed @ blocks p @ bs = chain_blocks R g start (fetched_height p + c)"
    using assms(1,3,4) chain_blocks_append [of start "fetched_height p" "fetched_height p + c" R g]
    by (simp add: pf_inv_def flip: append_assoc)
  ultimately show ?thesis
    using h assms(1,3) unfolding pf_inv_def by (simp add: add_fetched_def Let_def)
qed

lemma fetch_count_bounds:
  assumes "coin_takes X R g"
  shows "fetch_count X dh p \<le> max (dh - fetched_height p) 0" "0 \<le> fetch_count X dh p"
    "fetch_count X dh p = 0 \<longleftrightarrow> dh \<le> fetched_height p"
proof -
  have "0 < max_fetch_blocks X (fetched_height p + 1)" using assms by (simp add: coin_takes_def)
  then show "fetch_count X dh p \<le> max (dh - fetched_height p) 0" "0 \<le> fetch_count X dh p"
    "fetch_count X dh p = 0 \<longleftrightarrow> dh \<le> fetched_height p"
    unfolding fetch_count_def Let_def by linarith+
qed

lemma prefetch_loop_inv:
  assumes "pf_inv R g start handed p" "-1 \<le> start" "coin_takes X R g" "truthful dm hash R"
  shows "\<exists>r q. prefetch_loop X dm dh p = (r, q) \<and> pf_inv R g start handed q \<and> fetched_height p \<le> fetched_height q \<and>
    fetched_height q \<le> max dh (fetched_height p) \<and>
    (answering dm dh hash \<longrightarrow> (\<exists>caught. r = Inr (\<not> caught) \<and>
       (if caught then dh \<le> fetched_height q else MIN_CACHE_SIZE \<le> cache_size q)))"
  using assms
proof (induction X dm dh p rule: prefetch_loop.induct)
  case (1 X dm h p)
  note prems = "1.prems" and c = fetch_count_bounds [OF "1.prems"(3), of h p]
  let ?c = "fetch_count X h p"
  have ave: "ave_size p \<noteq> 0" using prems(1) by (simp add: pf_inv_def)
  consider "MIN_CACHE_SIZE \<le> cache_size p" | "cache_size p < MIN_CACHE_SIZE" "?c = 0"
    | e where "cache_size p < MIN_CACHE_SIZE" "?c \<noteq> 0" "fetch_blocks X dm (fetched_height p + 1) ?c = Inl e"
    | bs where "cache_size p < MIN_CACHE_SIZE" "?c \<noteq> 0" "fetch_blocks X dm (fetched_height p + 1) ?c = Inr bs"
    by (cases "fetch_blocks X dm (fetched_height p + 1) ?c") force+
  then show ?case
  proof cases
    case 1
    with prems(1) show ?thesis
      by (subst prefetch_loop.simps) (auto simp: pf_inv_def intro: exI [of _ False])
  next
    case 2
    with prems(1) ave c show ?thesis
      by (subst prefetch_loop.simps) (auto simp: pf_inv_def intro: exI [of _ True])
  next
    case 3
    have "\<not> answering dm h hash"
      using fetch_answered [OF prems(4) _ prems(3), of h "fetched_height p" ?c] 3(2,3) c prems(1,2) by (auto simp: pf_inv_def)
    with 3 prems(1) ave show ?thesis by (subst prefetch_loop.simps) (auto simp: Let_def)
  next
    case 4
    have pos: "0 < ?c" using 4(2) c(2) by linarith
    have "bs = chain_blocks R g (fetched_height p) (fetched_height p + ?c)"
      using fetched_true [OF prems(4,3) _ pos 4(3)] prems(1,2) by (simp add: pf_inv_def)
    from pf_inv_add [OF prems(1,3) pos this]
    have add: "pf_inv R g start handed (add_fetched bs p)" "fetched_height (add_fetched bs p) = fetched_height p + ?c" by auto
    have run: "prefetch_loop X dm h p = prefetch_loop X dm h (add_fetched bs p)"
      using 4 ave by (subst prefetch_loop.simps) (simp add: Let_def)
    show ?thesis
      using "1.IH" [OF 4(1) ave refl 4(2,3) add(1) prems(2-4)] pos c(1,3) 4(2) unfolding run add(2) by fastforce
  qed
qed

lemma pf_run_inv:
  assumes "pf_inv R g start handed p" "-1 \<le> start" "coin_takes X R g" "\<forall>dm dh. Poll dm dh \<in> set es \<longrightarrow> truthful dm hash R"
    "pf_run X es p = (bs, q)"
  shows "pf_inv R g start (handed @ bs) q"
  using assms
proof (induction X es p arbitrary: handed bs rule: pf_run.induct)
  case (2 X dm dh es p)
  then obtain r p' where p': "prefetch_loop X dm dh p = (r, p')" "pf_inv R g start handed p'"
    using prefetch_loop_inv [OF 2(2-4), of dm hash dh] by auto
  then have "snd (prefetch_blocks X dm dh p) = p'" by (simp add: prefetch_blocks_def)
  with 2(1) [of handed bs] 2(3-6) p'(2) show ?case by auto
next
  case (3 X es p)
  let ?p = "p\<lparr>blocks := [], cache_size := 0, refill_event := True\<rparr>"
  obtain rest where rest: "pf_run X es ?p = (rest, q)" "bs = blocks p @ rest"
    using 3(6) by (auto simp: get_prefetched_blocks_def split: prod.splits)
  have "pf_inv R g start (handed @ blocks p) ?p" using 3(2) by (simp add: pf_inv_def)
  moreover have "(blocks p, ?p) = get_prefetched_blocks p" by (simp add: get_prefetched_blocks_def)
  moreover have "\<forall>dm dh. Poll dm dh \<in> set es \<longrightarrow> truthful dm hash R" using 3(5) by simp
  ultimately show ?case using 3(1) [OF _ refl _ 3(3,4) _ rest(1)] rest(2) by (metis append_assoc)
qed auto

text \<open>C16: the block processor gets the daemon's blocks in order, without gap or repetition.  After the prefetcher was set
  to a height, polling and handing out may follow in any order, with daemons that may fail at any moment but tell the truth
  about one chain: what was handed out and what waits are together exactly the blocks of the chain above that height up to the
  last one fetched, the first of the chain replaced by the coin's genesis block, and the cache size is that of the waiting
  blocks.  A poll of a daemon that answers then ends without an exception, never fetches beyond the daemon's height, and
  reports that it caught up only when it reached that height; otherwise the cache is full.\<close>

theorem prefetch_in_order:
  assumes "-1 \<le> start" "0 < ave_size p" "coin_takes X R g"
    and "\<forall>dm dh. Poll dm dh \<in> set es \<longrightarrow> truthful dm hash R" "truthful daemon hash R"
  shows "\<exists>handed p' r q. pf_run X es (reset_height start p) = (handed, p') \<and>
    handed @ blocks p' = chain_blocks R g start (fetched_height p') \<and> cache_size p' = sum_list (map length (blocks p')) \<and>
    prefetch_blocks X daemon daemon_height p' = (r, q) \<and> fetched_height p' \<le> fetched_height q \<and>
    handed @ blocks q = chain_blocks R g start (fetched_height q) \<and> fetched_height q \<le> max daemon_height (fetched_height p') \<and>
    (answering daemon daemon_height hash \<longrightarrow> (\<exists>caught. r = Inr (\<not> caught) \<and>
       (if caught then daemon_height \<le> fetched_height q else MIN_CACHE_SIZE \<le> cache_size q)))"
proof -
  have inv0: "pf_inv R g start [] (reset_height start p)"
    using assms(2) by (simp add: pf_inv_def reset_height_def chain_blocks_def)
  obtain handed p' where run: "pf_run X es (reset_height start p) = (handed, p')" by fastforce
  have inv: "pf_inv R g start handed p'" using pf_run_inv [OF inv0 assms(1,3,4) run] by simp
  from prefetch_loop_inv [OF inv assms(1,3,5), of daemon_height] run inv show ?thesis
    unfolding prefetch_blocks_def pf_inv_def by blast
qed

theorem prefetch_in_order_witness:
  "\<exists>X dm handed p r q. pf_run X [Hand_out, Poll dm 0, Hand_out] (reset_height (-1) (new_prefetcher 5)) = (handed, p) \<and>
     prefetch_blocks X dm 1 p = (r, q) \<and> handed @ blocks q = chain_blocks (\<lambda>h. [7, 8]) [7, 0] (-1) (fetched_height q) \<and>
     (r = Inr False \<longrightarrow> 2 \<le> length (handed @ blocks q))"
proof -
  let ?X = "\<lparr>chain = undefined, parse_block = undefined, hashX_from_script = undefined,
     name_hashX_from_script = undefined, header_prevhash = undefined, genesis_activation = 0, cache_MB = 0,
     max_fetch_blocks = (\<lambda>h. 1000), genesis_block = (\<lambda>b. Inr (butlast b @ [0]))\<rparr> :: bp_env"
  let ?dm = "\<lparr>cached_height = 1, block_hex_hashes = (\<lambda>h c. Inr (map (\<lambda>h. ''00'') [h..h + c - 1])),
     raw_blocks_of = (\<lambda>hs. Inr (map (\<lambda>h. [7, 8]) hs))\<rparr>"
  have coin: "coin_takes ?X (\<lambda>h. [7, 8]) [7, 0]" by (simp add: coin_takes_def)
  have dm: "truthful ?dm (\<lambda>h. ''00'') (\<lambda>h. [7, 8])" "answering ?dm 1 (\<lambda>h. ''00'')"
    by (auto simp: truthful_def answering_def comp_def)
  let ?es = "[Hand_out, Poll ?dm 0, Hand_out]"
  obtain handed p r q where run: "pf_run ?X ?es (reset_height (-1) (new_prefetcher 5)) = (handed, p)"
    "prefetch_blocks ?X ?dm 1 p = (r, q)"
    and q: "handed @ blocks q = chain_blocks (\<lambda>h. [7, 8]) [7, 0] (-1) (fetched_height q)"
    "r = Inr False \<longrightarrow> 1 \<le> fetched_height q"
    using prefetch_in_order [OF _ _ coin _ dm(1), of "-1" "new_prefetcher 5" ?es 1] dm
    by (auto simp: new_prefetcher_def split: if_splits)
  have "r = Inr False \<longrightarrow> 2 \<le> length (handed @ blocks q)" using q(2) unfolding q(1) by (auto simp: chain_blocks_def)
  with run q(1) show ?thesis by blast
qed

end
