(* ===== verification/Codecs.thy ===== *)
theory Codecs
  imports Transactions
begin

section \<open>Writers and their readers\<close>

text \<open>
  Many formats are written as a concatenation of packed fields and read back field by field.
  \<open>joinE\<close> is \<open>b''.join\<close> (or \<open>+\<close>) of pieces that may raise, evaluated from left to right.
  \<open>codec p r x\<close> says that whatever the writer \<open>p\<close> produces, \<open>r\<close> reads exactly as \<open>x\<close>; its rules
  follow the two sides in step.
\<close>

definition joinE :: "(exn + bytes) list \<Rightarrow> exn + bytes" where
  "joinE ps = bindE (mapE (\<lambda>p. p) ps) (\<lambda>bs. Inr (concat bs))"

lemma joinE_Nil: "joinE [] = Inr []"
  by (simp add: joinE_def)

lemma joinE_Cons: "joinE (p # ps) = bindE p (\<lambda>b. bindE (joinE ps) (\<lambda>c. Inr (b @ c)))"
  by (cases p) (simp_all add: joinE_def bindE_assoc)

lemma joinE_append: "joinE (ps @ qs) = bindE (joinE ps) (\<lambda>b. bindE (joinE qs) (\<lambda>c. Inr (b @ c)))"
  by (induction ps) (simp_all add: joinE_Nil joinE_Cons bindE_assoc)

definition codec :: "(exn + bytes) \<Rightarrow> 'a reader \<Rightarrow> 'a \<Rightarrow> bool" where
  "codec p r x \<longleftrightarrow> (\<forall>L b. p = Inr b \<longrightarrow> reads L r b x)"

named_theorems codec_rules \<open>what is written is read back\<close>

lemma codec_end [codec_rules]: "x = y \<Longrightarrow> codec (joinE []) (returnR x) y"
  by (simp add: codec_def joinE_Nil reads_return)

lemma codec_join [codec_rules]:
  "codec p r x \<Longrightarrow> codec (joinE ps) (f x) y \<Longrightarrow> codec (joinE (p # ps)) (bindR r f) y"
  unfolding codec_def joinE_Cons err_simps by (blast intro: reads_bind)

lemma codec_append:
  "codec (joinE ps) r x \<Longrightarrow> codec (joinE qs) (f x) y \<Longrightarrow> codec (joinE (ps @ qs)) (bindR r f) y"
  unfolding codec_def joinE_append err_simps by (blast intro: reads_bind)

lemma codec_append_last:
  "codec (joinE ps) r x \<Longrightarrow> codec (joinE []) (f x) y \<Longrightarrow> codec (joinE ps) (bindR r f) y"
  using codec_append [of ps r x "[]" f y] by simp

lemma codec_single: "codec p r x \<Longrightarrow> codec (joinE [p]) r x"
  by (auto simp: codec_def joinE_Cons joinE_Nil err_simps)

lemma codec_map: "codec p r x \<Longrightarrow> codec p (bindR r (\<lambda>x. returnR (f x))) (f x)"
  unfolding codec_def by (blast intro: reads_bind_last reads_return [OF refl])

lemma bindR_returnR: "bindR (returnR x) f = f x"
  by (simp add: bindR_def returnR_def)

lemma codec_if: "(c \<Longrightarrow> codec (joinE ps) r x) \<Longrightarrow> (\<not> c \<Longrightarrow> codec (joinE qs) r' x) \<Longrightarrow>
    codec (joinE (if c then ps else qs)) (if c then r else r') x"
  by simp

lemma codec_assert: "(c \<Longrightarrow> codec p r x) \<Longrightarrow> codec (bindE (assertE c) (\<lambda>_. p)) r x"
  by (cases c) (simp_all add: codec_def)

lemma codec_uint16 [codec_rules]: "codec (pack_le_uint16 (int n)) read_le_uint16 n"
  by (auto simp: codec_def read_le_uint16_def pack_le_uint16_def err_simps intro!: reads_le_uint)

lemma codec_uint32 [codec_rules]: "codec (pack_le_uint32 (int n)) read_le_uint32 n"
  by (simp add: codec_def reads_uint32)

lemma codec_int32 [codec_rules]: "codec (pack_le_int32 n) read_le_int32 n"
  by (simp add: codec_def reads_int32)

lemma codec_int64 [codec_rules]: "codec (pack_le_int64 n) read_le_int64 n"
  using reads_le_int [of 8 n]
  by (auto simp: codec_def read_le_int64_def pack_le_int64_def pack_le_signed_def split: if_splits)

lemma codec_be_uint16 [codec_rules]: "codec (pack_be_uint16 (int n)) read_be_uint16 n"
proof -
  have "unpack_be_unsigned_from 2 (pre @ be_encode 2 n @ post) (length pre) = Inr n" if "n < 256 ^ 2"
    for pre post
    using that slice_mid [of pre "length pre" "be_encode 2 n" 2 post] by (simp add: unpack_be_unsigned_from_def)
  then show ?thesis
    by (auto simp: codec_def pack_be_uint16_def err_simps reads_def read_be_uint16_def)
qed

lemma codec_nbytes [codec_rules]: "length b = n \<Longrightarrow> codec (Inr b) (read_nbytes n) b"
  by (simp add: codec_def reads_nbytes)

lemma codec_varint [codec_rules]: "codec (pack_varint (int n)) read_varint n"
  by (simp add: codec_def reads_varint)

lemma codec_varbytes [codec_rules]: "codec (pack_varbytes b) read_varbytes b"
  by (simp add: codec_def reads_varbytes)

text \<open>An int64 that is not negative is read as the same uint64.\<close>

lemma codec_int64_unsigned: "codec (pack_le_int64 (int n)) (read_le_uint 8) n"
proof -
  have "nat (int n mod 256 ^ 8) = n" if "2 * int n < 256 ^ 8" using that by (simp add: mod_pos_pos_trivial)
  then show ?thesis
    using reads_le_uint [of n 8]
    by (auto simp: codec_def pack_le_int64_def pack_le_signed_def split: if_splits)
qed

lemma codec_tx_inputs: "tx_ok t \<Longrightarrow> codec (serialize_list serialize_input (tx_inputs t)) read_inputs (tx_inputs t)"
  by (simp add: codec_def reads_inputs)

lemma codec_tx_outputs: "codec (serialize_list serialize_output outs) read_outputs outs"
  by (simp add: codec_def reads_outputs)

text \<open>\<open>end = self.cursor + n\<close>, a read, and \<open>assert self.cursor == end\<close>.\<close>

definition checkedR :: "nat \<Rightarrow> 'a reader \<Rightarrow> 'a reader" where
  "checkedR n r = (\<lambda>binary cursor.
     bindE (r binary cursor) (\<lambda>(x, cursor').
     bindE (assertE (cursor' = cursor + n)) (\<lambda>_. Inr (x, cursor'))))"

lemma reads_checked: "reads L r b x \<Longrightarrow> length b = n \<Longrightarrow> reads L (checkedR n r) b x"
  by (auto simp: reads_def checkedR_def)

text \<open>The size of what a read consumes, read again as bytes from where it started.\<close>

definition respanR :: "'a reader \<Rightarrow> bytes reader" where
  "respanR r = (\<lambda>binary start. bindE (r binary start) (\<lambda>(_, end_pos). read_nbytes (end_pos - start) binary start))"

lemma reads_respan: "reads L r b x \<Longrightarrow> reads L (respanR r) b b"
  by (auto simp: reads_def respanR_def read_nbytes_def slice_def)


text \<open>Two 16-bit fields are read together as 32 bits.\<close>

lemma le_encode_append: "v < 256 ^ k \<Longrightarrow> le_encode (k + j) (v + 256 ^ k * n) = le_encode k v @ le_encode j n"
proof (induction k arbitrary: v)
  case (Suc k)
  have "(v + 256 ^ Suc k * n) div 256 = v div 256 + 256 ^ k * n"
    by (simp add: mult.assoc)
  moreover have "(v + 256 ^ Suc k * n) mod 256 = v mod 256" by (simp add: mult.assoc)
  moreover have "v div 256 < 256 ^ k" using Suc.prems by (simp add: less_mult_imp_div_less mult.commute)
  ultimately show ?case using Suc.IH [of "v div 256"] by simp
qed simp

lemma codec_header:
  "v < 65536 \<Longrightarrow> t < 65536 \<Longrightarrow> reads L read_le_uint32 (le_encode 2 v @ le_encode 2 t) (v + 65536 * t)"
  using le_encode_append [of v 2 2 t] reads_le_uint [of "v + 65536 * t" 4 L] by (simp add: read_le_uint32_def)

text \<open>The length, then as many bytes.\<close>

lemma codec_sized:
  assumes "\<And>b. p = Inr b \<Longrightarrow> codec p (r (length b)) x"
  shows "codec (bindE p pack_varbytes) (bindR read_varint (\<lambda>n. checkedR n (r n))) x"
  unfolding codec_def
proof (intro allI impI)
  fix L c assume "bindE p pack_varbytes = Inr c"
  then obtain b n where b: "p = Inr b" and n: "pack_varint (int (length b)) = Inr n" and c: "c = n @ b"
    by (auto simp: pack_varbytes_def err_simps)
  have "reads L (r (length b)) b x" using assms [OF b] b by (simp add: codec_def)
  then show "reads L (bindR read_varint (\<lambda>n. checkedR n (r n))) c x"
    unfolding c by (intro reads_bind [OF reads_varint [OF n]] reads_checked) simp_all
qed

end
