(* ===== verification/DashTx.thy ===== *)
theory DashTx
  imports Codecs
begin

section \<open>Dash special transactions (lib/tx_dash.py)\<close>

text \<open>
  A Dash transaction has a type next to its version, and for the types other than 0 an extra payload
  whose layout depends on the type.  Each payload class is a record with its \<open>serialize\<close> and
  \<open>read_tx_extra\<close>; \<open>dash_payload\<close> is what the attribute \<open>extra_payload\<close> can hold, raw bytes for a
  type that has no class.  The hash function is the parameter \<open>H\<close>.
\<close>

record dash_outpoint =
  dop_hash :: bytes
  dop_index :: nat

definition dash_serialize_outpoint :: "dash_outpoint \<Rightarrow> exn + bytes" where
  "dash_serialize_outpoint p =
     bindE (assertE (length (dop_hash p) = 32)) (\<lambda>_.
       joinE [Inr (dop_hash p), pack_le_uint32 (int (dop_index p))])"

definition dash_read_outpoint :: "dash_outpoint reader" where
  "dash_read_outpoint =
     bindR (read_nbytes 32) (\<lambda>hash.
     bindR read_le_uint32 (\<lambda>index.
     returnR \<lparr>dop_hash = hash, dop_index = index\<rparr>))"

lemma codec_dash_outpoint [codec_rules]: "codec (dash_serialize_outpoint p) dash_read_outpoint p"
  unfolding dash_serialize_outpoint_def dash_read_outpoint_def
  by (rule codec_assert, (rule codec_rules | simp)+)

text \<open>The platform fields of the provider transactions, for version 2 of type 1.\<close>

definition dash_read_platform :: "nat \<Rightarrow> nat \<Rightarrow> (bytes \<times> nat \<times> nat) reader" where
  "dash_read_platform version ntype =
     (if version \<ge> 2 \<and> ntype = 1
      then bindR (read_nbytes 20) (\<lambda>node_id.
           bindR read_le_uint16 (\<lambda>p2p_port.
           bindR read_le_uint16 (\<lambda>http_port. returnR (node_id, p2p_port, http_port))))
      else returnR ([], 0, 0))"

definition dash_write_platform :: "nat \<Rightarrow> bytes \<Rightarrow> nat \<Rightarrow> nat \<Rightarrow> (exn + bytes) list" where
  "dash_write_platform version node_id p2p_port http_port =
     (if version \<ge> 2
      then [Inr node_id, pack_le_uint16 (int p2p_port), pack_le_uint16 (int http_port)] else [])"

text \<open>Where the two conditions agree, so that the fields are read as they were written.  The reader also produces versions
  from 2 on of another type, with empty platform fields: those are not written as they were read
  (\<open>dash_pro_reg_type_mismatch\<close> of \<open>SpecialTx\<close>).\<close>

definition dash_platform_ok :: "nat \<Rightarrow> nat \<Rightarrow> bytes \<Rightarrow> nat \<Rightarrow> nat \<Rightarrow> bool" where
  "dash_platform_ok version ntype node_id p2p_port http_port \<longleftrightarrow>
     (if version \<ge> 2 then ntype = 1 \<and> length node_id = 20
      else node_id = [] \<and> p2p_port = 0 \<and> http_port = 0)"

lemma codec_dash_platform:
  "dash_platform_ok version ntype node_id p2p_port http_port \<Longrightarrow>
   codec (joinE (dash_write_platform version node_id p2p_port http_port))
     (dash_read_platform version ntype) (node_id, p2p_port, http_port)"
  unfolding dash_platform_ok_def dash_read_platform_def dash_write_platform_def
  by (cases "version \<ge> 2", simp_all, (rule codec_rules | simp)+)

lemma codec_dash_type:
  "(version :: nat) < 2 \<longrightarrow> ntype = 0 \<Longrightarrow>
   codec (joinE (if version \<ge> 2 then [pack_le_uint16 (int ntype)] else []))
     (if version \<ge> 2 then read_le_uint16 else returnR 0) ntype"
  using codec_single [OF codec_uint16]
  by (cases "version \<ge> 2") (simp_all add: codec_end)

text \<open>\<open>DashProRegTx\<close>\<close>

record dash_pro_reg =
  dpr_version :: nat
  dpr_type :: nat
  dpr_mode :: nat
  dpr_collateral :: dash_outpoint
  dpr_ip :: bytes
  dpr_port :: nat
  dpr_key_owner :: bytes
  dpr_pub_key_operator :: bytes
  dpr_key_voting :: bytes
  dpr_operator_reward :: nat
  dpr_script_payout :: bytes
  dpr_inputs_hash :: bytes
  dpr_platform_node_id :: bytes
  dpr_platform_p2p_port :: nat
  dpr_platform_http_port :: nat
  dpr_payload_sig :: bytes

definition dash_serialize_pro_reg :: "dash_pro_reg \<Rightarrow> exn + bytes" where
  "dash_serialize_pro_reg t =
     bindE (assertE (length (dpr_ip t) = 16 \<and> length (dpr_key_owner t) = 20 \<and> length (dpr_pub_key_operator t) = 48 \<and> length (dpr_key_voting t) = 20 \<and> length (dpr_inputs_hash t) = 32)) (\<lambda>_.
       joinE ([pack_le_uint16 (int (dpr_version t)),
        pack_le_uint16 (int (dpr_type t)),
        pack_le_uint16 (int (dpr_mode t)),
        dash_serialize_outpoint (dpr_collateral t),
        Inr (dpr_ip t),
        pack_be_uint16 (int (dpr_port t)),
        Inr (dpr_key_owner t),
        Inr (dpr_pub_key_operator t),
        Inr (dpr_key_voting t),
        pack_le_uint16 (int (dpr_operator_reward t)),
        pack_varbytes (dpr_script_payout t),
        Inr (dpr_inputs_hash t)] @
        dash_write_platform (dpr_version t) (dpr_platform_node_id t) (dpr_platform_p2p_port t) (dpr_platform_http_port t) @
        [pack_varbytes (dpr_payload_sig t)]))"

definition dash_read_pro_reg :: "dash_pro_reg reader" where
  "dash_read_pro_reg =
     bindR read_le_uint16 (\<lambda>version'.
     bindR read_le_uint16 (\<lambda>type'.
     bindR read_le_uint16 (\<lambda>mode'.
     bindR dash_read_outpoint (\<lambda>collateral'.
     bindR (read_nbytes 16) (\<lambda>ip'.
     bindR read_be_uint16 (\<lambda>port'.
     bindR (read_nbytes 20) (\<lambda>key_owner'.
     bindR (read_nbytes 48) (\<lambda>pub_key_operator'.
     bindR (read_nbytes 20) (\<lambda>key_voting'.
     bindR read_le_uint16 (\<lambda>operator_reward'.
     bindR read_varbytes (\<lambda>script_payout'.
     bindR (read_nbytes 32) (\<lambda>inputs_hash'.
     bindR (dash_read_platform version' type') (\<lambda>(platform_node_id', platform_p2p_port', platform_http_port').
     bindR read_varbytes (\<lambda>payload_sig'.
     returnR \<lparr>dpr_version = version', dpr_type = type', dpr_mode = mode', dpr_collateral = collateral', dpr_ip = ip', dpr_port = port', dpr_key_owner = key_owner', dpr_pub_key_operator = pub_key_operator', dpr_key_voting = key_voting', dpr_operator_reward = operator_reward', dpr_script_payout = script_payout', dpr_inputs_hash = inputs_hash', dpr_platform_node_id = platform_node_id', dpr_platform_p2p_port = platform_p2p_port', dpr_platform_http_port = platform_http_port', dpr_payload_sig = payload_sig'\<rparr>))))))))))))))"

lemma codec_dash_pro_reg: "dash_platform_ok (dpr_version t) (dpr_type t) (dpr_platform_node_id t) (dpr_platform_p2p_port t) (dpr_platform_http_port t) \<Longrightarrow> codec (dash_serialize_pro_reg t) dash_read_pro_reg t"
  unfolding dash_serialize_pro_reg_def dash_read_pro_reg_def
  unfolding append_Cons append_Nil
  by (rule codec_assert, (rule codec_rules codec_append codec_dash_platform codec_dash_type | simp)+)

text \<open>\<open>DashProUpServTx\<close>\<close>

record dash_pro_up_serv =
  dus_version :: nat
  dus_type :: nat
  dus_pro_tx_hash :: bytes
  dus_ip :: bytes
  dus_port :: nat
  dus_script_operator_payout :: bytes
  dus_inputs_hash :: bytes
  dus_platform_node_id :: bytes
  dus_platform_p2p_port :: nat
  dus_platform_http_port :: nat
  dus_payload_sig :: bytes

definition dash_serialize_pro_up_serv :: "dash_pro_up_serv \<Rightarrow> exn + bytes" where
  "dash_serialize_pro_up_serv t =
     bindE (assertE (length (dus_pro_tx_hash t) = 32 \<and> length (dus_ip t) = 16 \<and> length (dus_inputs_hash t) = 32 \<and> length (dus_payload_sig t) = 96)) (\<lambda>_.
       joinE ([pack_le_uint16 (int (dus_version t))] @
        (if dus_version t \<ge> 2 then [pack_le_uint16 (int (dus_type t))] else []) @
        [Inr (dus_pro_tx_hash t),
        Inr (dus_ip t),
        pack_be_uint16 (int (dus_port t)),
        pack_varbytes (dus_script_operator_payout t),
        Inr (dus_inputs_hash t)] @
        dash_write_platform (dus_version t) (dus_platform_node_id t) (dus_platform_p2p_port t) (dus_platform_http_port t) @
        [Inr (dus_payload_sig t)]))"

definition dash_read_pro_up_serv :: "dash_pro_up_serv reader" where
  "dash_read_pro_up_serv =
     bindR read_le_uint16 (\<lambda>version'.
     bindR (if version' \<ge> 2 then read_le_uint16 else returnR 0) (\<lambda>type'.
     bindR (read_nbytes 32) (\<lambda>pro_tx_hash'.
     bindR (read_nbytes 16) (\<lambda>ip'.
     bindR read_be_uint16 (\<lambda>port'.
     bindR read_varbytes (\<lambda>script_operator_payout'.
     bindR (read_nbytes 32) (\<lambda>inputs_hash'.
     bindR (dash_read_platform version' type') (\<lambda>(platform_node_id', platform_p2p_port', platform_http_port').
     bindR (read_nbytes 96) (\<lambda>payload_sig'.
     returnR \<lparr>dus_version = version', dus_type = type', dus_pro_tx_hash = pro_tx_hash', dus_ip = ip', dus_port = port', dus_script_operator_payout = script_operator_payout', dus_inputs_hash = inputs_hash', dus_platform_node_id = platform_node_id', dus_platform_p2p_port = platform_p2p_port', dus_platform_http_port = platform_http_port', dus_payload_sig = payload_sig'\<rparr>)))))))))"

lemma codec_dash_pro_up_serv: "dash_platform_ok (dus_version t) (dus_type t) (dus_platform_node_id t) (dus_platform_p2p_port t) (dus_platform_http_port t) \<Longrightarrow> (dus_version t < 2 \<longrightarrow> dus_type t = 0) \<Longrightarrow> codec (dash_serialize_pro_up_serv t) dash_read_pro_up_serv t"
  unfolding dash_serialize_pro_up_serv_def dash_read_pro_up_serv_def
  unfolding append_Cons append_Nil
  by (rule codec_assert, (rule codec_rules codec_append codec_dash_platform codec_dash_type | simp)+)

text \<open>\<open>DashProUpRegTx\<close>\<close>

record dash_pro_up_reg =
  dur_version :: nat
  dur_pro_tx_hash :: bytes
  dur_mode :: nat
  dur_pub_key_operator :: bytes
  dur_key_voting :: bytes
  dur_script_payout :: bytes
  dur_inputs_hash :: bytes
  dur_payload_sig :: bytes

definition dash_serialize_pro_up_reg :: "dash_pro_up_reg \<Rightarrow> exn + bytes" where
  "dash_serialize_pro_up_reg t =
     bindE (assertE (length (dur_pro_tx_hash t) = 32 \<and> length (dur_pub_key_operator t) = 48 \<and> length (dur_key_voting t) = 20 \<and> length (dur_inputs_hash t) = 32)) (\<lambda>_.
       joinE ([pack_le_uint16 (int (dur_version t)),
        Inr (dur_pro_tx_hash t),
        pack_le_uint16 (int (dur_mode t)),
        Inr (dur_pub_key_operator t),
        Inr (dur_key_voting t),
        pack_varbytes (dur_script_payout t),
        Inr (dur_inputs_hash t),
        pack_varbytes (dur_payload_sig t)]))"

definition dash_read_pro_up_reg :: "dash_pro_up_reg reader" where
  "dash_read_pro_up_reg =
     bindR read_le_uint16 (\<lambda>version'.
     bindR (read_nbytes 32) (\<lambda>pro_tx_hash'.
     bindR read_le_uint16 (\<lambda>mode'.
     bindR (read_nbytes 48) (\<lambda>pub_key_operator'.
     bindR (read_nbytes 20) (\<lambda>key_voting'.
     bindR read_varbytes (\<lambda>script_payout'.
     bindR (read_nbytes 32) (\<lambda>inputs_hash'.
     bindR read_varbytes (\<lambda>payload_sig'.
     returnR \<lparr>dur_version = version', dur_pro_tx_hash = pro_tx_hash', dur_mode = mode', dur_pub_key_operator = pub_key_operator', dur_key_voting = key_voting', dur_script_payout = script_payout', dur_inputs_hash = inputs_hash', dur_payload_sig = payload_sig'\<rparr>))))))))"

lemma codec_dash_pro_up_reg: "codec (dash_serialize_pro_up_reg t) dash_read_pro_up_reg t"
  unfolding dash_serialize_pro_up_reg_def dash_read_pro_up_reg_def
  by (rule codec_assert, (rule codec_rules | simp)+)

text \<open>\<open>DashProUpRevTx\<close>\<close>

record dash_pro_up_rev =
  duv_version :: nat
  duv_pro_tx_hash :: bytes
  duv_reason :: nat
  duv_inputs_hash :: bytes
  duv_payload_sig :: bytes

definition dash_serialize_pro_up_rev :: "dash_pro_up_rev \<Rightarrow> exn + bytes" where
  "dash_serialize_pro_up_rev t =
     bindE (assertE (length (duv_pro_tx_hash t) = 32 \<and> length (duv_inputs_hash t) = 32 \<and> length (duv_payload_sig t) = 96)) (\<lambda>_.
       joinE ([pack_le_uint16 (int (duv_version t)),
        Inr (duv_pro_tx_hash t),
        pack_le_uint16 (int (duv_reason t)),
        Inr (duv_inputs_hash t),
        Inr (duv_payload_sig t)]))"

definition dash_read_pro_up_rev :: "dash_pro_up_rev reader" where
  "dash_read_pro_up_rev =
     bindR read_le_uint16 (\<lambda>version'.
     bindR (read_nbytes 32) (\<lambda>pro_tx_hash'.
     bindR read_le_uint16 (\<lambda>reason'.
     bindR (read_nbytes 32) (\<lambda>inputs_hash'.
     bindR (read_nbytes 96) (\<lambda>payload_sig'.
     returnR \<lparr>duv_version = version', duv_pro_tx_hash = pro_tx_hash', duv_reason = reason', duv_inputs_hash = inputs_hash', duv_payload_sig = payload_sig'\<rparr>)))))"

lemma codec_dash_pro_up_rev: "codec (dash_serialize_pro_up_rev t) dash_read_pro_up_rev t"
  unfolding dash_serialize_pro_up_rev_def dash_read_pro_up_rev_def
  by (rule codec_assert, (rule codec_rules | simp)+)

text \<open>\<open>DashCbTx\<close>: what it holds depends on the version.\<close>

record dash_cb =
  dcb_version :: nat
  dcb_height :: nat
  dcb_merkle_root_mn_list :: bytes
  dcb_merkle_root_quorums :: bytes
  dcb_best_cl_height_diff :: nat
  dcb_best_cl_signature :: bytes
  dcb_asset_locked_amount :: nat

definition dash_serialize_cb :: "dash_cb \<Rightarrow> exn + bytes" where
  "dash_serialize_cb t =
     bindE (assertE (length (dcb_merkle_root_mn_list t) = 32)) (\<lambda>_.
       joinE ([pack_le_uint16 (int (dcb_version t)), pack_le_uint32 (int (dcb_height t)), Inr (dcb_merkle_root_mn_list t)] @
        (if dcb_version t > 1
         then [bindE (assertE (length (dcb_merkle_root_quorums t) = 32)) (\<lambda>_. Inr (dcb_merkle_root_quorums t))] else []) @
        (if dcb_version t > 2
         then [pack_varint (int (dcb_best_cl_height_diff t)), Inr (dcb_best_cl_signature t),
               pack_le_int64 (int (dcb_asset_locked_amount t))] else [])))"

definition dash_read_cb :: "dash_cb reader" where
  "dash_read_cb =
     bindR read_le_uint16 (\<lambda>version'.
     bindR read_le_uint32 (\<lambda>height'.
     bindR (read_nbytes 32) (\<lambda>mn_list'.
     bindR (if version' > 1 then read_nbytes 32 else returnR []) (\<lambda>quorums'.
     bindR (if version' > 2
            then bindR read_varint (\<lambda>d. bindR (read_nbytes 96) (\<lambda>s. bindR read_le_uint64 (\<lambda>a. returnR (d, s, a))))
            else returnR (0, [], 0)) (\<lambda>(height_diff', signature', amount').
     returnR \<lparr>dcb_version = version', dcb_height = height', dcb_merkle_root_mn_list = mn_list',
       dcb_merkle_root_quorums = quorums', dcb_best_cl_height_diff = height_diff', dcb_best_cl_signature = signature', dcb_asset_locked_amount = amount'\<rparr>)))))"

definition dash_cb_ok :: "dash_cb \<Rightarrow> bool" where
  "dash_cb_ok t \<longleftrightarrow> (dcb_version t > 2 \<longrightarrow> length (dcb_best_cl_signature t) = 96) \<and>
     (\<not> dcb_version t > 2 \<longrightarrow> dcb_best_cl_height_diff t = 0 \<and> dcb_best_cl_signature t = [] \<and> dcb_asset_locked_amount t = 0) \<and>
     (\<not> dcb_version t > 1 \<longrightarrow> dcb_merkle_root_quorums t = [])"

lemma codec_dash_quorums:
  "\<not> version > 1 \<longrightarrow> q = [] \<Longrightarrow>
   codec (joinE (if version > 1 then [bindE (assertE (length q = 32)) (\<lambda>_. Inr q)] else []))
     (if (version :: nat) > 1 then read_nbytes 32 else returnR []) q"
  using codec_single [OF codec_assert [OF codec_nbytes]]
  by (cases "version > 1") (simp_all add: codec_end)

lemma codec_dash_chain_lock:
  "(version > 2 \<longrightarrow> length s = 96) \<Longrightarrow> (\<not> version > 2 \<longrightarrow> d = 0 \<and> s = [] \<and> a = 0) \<Longrightarrow>
   codec (joinE (if version > 2 then [pack_varint (int d), Inr s, pack_le_int64 (int a)] else []))
     (if (version :: nat) > 2
      then bindR read_varint (\<lambda>d. bindR (read_nbytes 96) (\<lambda>s. bindR read_le_uint64 (\<lambda>a. returnR (d, s, a))))
      else returnR (0, [], 0)) (d, s, a)"
  unfolding read_le_uint64_def
  by (cases "version > 2", simp_all, (rule codec_rules codec_int64_unsigned | simp)+)

lemma codec_dash_cb: "dash_cb_ok t \<Longrightarrow> codec (dash_serialize_cb t) dash_read_cb t"
  unfolding dash_serialize_cb_def dash_read_cb_def dash_cb_ok_def append_Cons append_Nil
  by (rule codec_assert, (rule codec_rules codec_append codec_append_last codec_dash_quorums codec_dash_chain_lock | simp)+)

subsection \<open>Transactions\<close>

datatype dash_payload =
    DashProReg dash_pro_reg
  | DashProUpServ dash_pro_up_serv
  | DashProUpReg dash_pro_up_reg
  | DashProUpRev dash_pro_up_rev
  | DashCb dash_cb
  | DashRaw bytes

text \<open>\<open>SPEC_TX_HANDLERS\<close>: the type of each class.\<close>

definition dash_spec_types :: "nat list" where
  "dash_spec_types = [1, 2, 3, 4, 5]"

fun dash_class_type :: "dash_payload \<Rightarrow> nat option" where
  "dash_class_type (DashProReg x) = Some 1"
| "dash_class_type (DashProUpServ x) = Some 2"
| "dash_class_type (DashProUpReg x) = Some 3"
| "dash_class_type (DashProUpRev x) = Some 4"
| "dash_class_type (DashCb x) = Some 5"
| "dash_class_type (DashRaw b) = None"

fun dash_serialize_payload :: "dash_payload \<Rightarrow> exn + bytes" where
  "dash_serialize_payload (DashProReg x) = dash_serialize_pro_reg x"
| "dash_serialize_payload (DashProUpServ x) = dash_serialize_pro_up_serv x"
| "dash_serialize_payload (DashProUpReg x) = dash_serialize_pro_up_reg x"
| "dash_serialize_payload (DashProUpRev x) = dash_serialize_pro_up_rev x"
| "dash_serialize_payload (DashCb x) = dash_serialize_cb x"
| "dash_serialize_payload (DashRaw b) = Inr b"

definition dash_serialize_extra :: "nat \<Rightarrow> dash_payload \<Rightarrow> exn + bytes" where
  "dash_serialize_extra tx_type extra =
     (if tx_type \<notin> set dash_spec_types
      then bindE (assertE (dash_class_type extra = None)) (\<lambda>_. bindE (dash_serialize_payload extra) pack_varbytes)
      else if dash_class_type extra \<noteq> Some tx_type then Inl ValueError
      else bindE (dash_serialize_payload extra) pack_varbytes)"

definition dash_read_payload :: "nat \<Rightarrow> nat \<Rightarrow> dash_payload reader" where
  "dash_read_payload tx_type n =
     (if tx_type = 1 then bindR dash_read_pro_reg (\<lambda>x. returnR (DashProReg x))
      else if tx_type = 2 then bindR dash_read_pro_up_serv (\<lambda>x. returnR (DashProUpServ x))
      else if tx_type = 3 then bindR dash_read_pro_up_reg (\<lambda>x. returnR (DashProUpReg x))
      else if tx_type = 4 then bindR dash_read_pro_up_rev (\<lambda>x. returnR (DashProUpRev x))
      else if tx_type = 5 then bindR dash_read_cb (\<lambda>x. returnR (DashCb x))
      else bindR (read_nbytes n) (\<lambda>b. returnR (DashRaw b)))"

record dash_tx = tx +
  dash_type :: nat
  dash_extra :: dash_payload

definition dash_serialize_tx :: "dash_tx \<Rightarrow> exn + bytes" where
  "dash_serialize_tx t =
     bindE (pack_le_uint32 (int (tx_locktime t))) (\<lambda>locktime.
     bindE (serialize_list serialize_input (tx_inputs t)) (\<lambda>txins.
     bindE (serialize_list serialize_output (tx_outputs t)) (\<lambda>txouts.
       if dash_type t \<noteq> 0
       then bindE (pack_le_uint16 (tx_version t)) (\<lambda>version.
            bindE (pack_le_uint16 (int (dash_type t))) (\<lambda>ty.
            bindE (dash_serialize_extra (dash_type t) (dash_extra t)) (\<lambda>extra.
              Inr (version @ ty @ txins @ txouts @ locktime @ extra))))
       else bindE (pack_le_int32 (tx_version t)) (\<lambda>version.
              Inr (version @ txins @ txouts @ locktime)))))"

definition dash_split_header :: "nat \<Rightarrow> nat \<times> nat" where
  "dash_split_header hdr =
     (let tx_type = drop_bit 16 hdr;
          version = (if tx_type \<noteq> 0 then take_bit 16 hdr else hdr)
      in if tx_type \<noteq> 0 \<and> version < 3 then (hdr, 0) else (version, tx_type))"

definition dash_read_body :: "(nat \<times> nat \<times> tx_input list \<times> tx_output list \<times> nat \<times> dash_payload) reader" where
  "dash_read_body =
     bindR read_le_uint32 (\<lambda>hdr.
     bindR read_inputs (\<lambda>inputs.
     bindR read_outputs (\<lambda>outputs.
     bindR read_le_uint32 (\<lambda>locktime.
     bindR (if snd (dash_split_header hdr) \<noteq> 0
            then bindR read_varint (\<lambda>n. checkedR n (dash_read_payload (snd (dash_split_header hdr)) n))
            else returnR (DashRaw [])) (\<lambda>extra.
     returnR (fst (dash_split_header hdr), snd (dash_split_header hdr), inputs, outputs, locktime, extra))))))"

definition dash_read_tx :: "(bytes \<Rightarrow> bytes) \<Rightarrow> dash_tx reader" where
  "dash_read_tx H =
     bindR (spannedR dash_read_body) (\<lambda>((version, tx_type, inputs, outputs, locktime, extra), span, size).
       returnR \<lparr>tx_version = int version, tx_inputs = inputs, tx_outputs = outputs, tx_locktime = locktime,
         txid = H span, wtxid = H span, ext = PlainTx, dash_type = tx_type, dash_extra = extra\<rparr>)"

subsection \<open>Round trip\<close>

fun dash_payload_ok :: "dash_payload \<Rightarrow> bool" where
  "dash_payload_ok (DashProReg t) \<longleftrightarrow> dash_platform_ok (dpr_version t) (dpr_type t) (dpr_platform_node_id t) (dpr_platform_p2p_port t) (dpr_platform_http_port t)"
| "dash_payload_ok (DashProUpServ t) \<longleftrightarrow> dash_platform_ok (dus_version t) (dus_type t) (dus_platform_node_id t) (dus_platform_p2p_port t) (dus_platform_http_port t) \<and> (dus_version t < 2 \<longrightarrow> dus_type t = 0)"
| "dash_payload_ok (DashCb t) \<longleftrightarrow> dash_cb_ok t"
| "dash_payload_ok (_) \<longleftrightarrow> True"

lemma codec_dash_payload:
  assumes "dash_payload_ok p" "dash_serialize_extra ty p = Inr c"
  shows "codec (dash_serialize_extra ty p) (bindR read_varint (\<lambda>n. checkedR n (dash_read_payload ty n))) p"
proof -
  have each: "codec (dash_serialize_payload p) (dash_read_payload ty (length b)) p"
    if "dash_serialize_payload p = Inr b" for b
  proof (cases p)
    case (DashProReg x)
    then have "ty = 1" using assms(2) by (auto simp: dash_serialize_extra_def dash_spec_types_def split: if_splits)
    then show ?thesis using DashProReg assms(1) codec_map [OF codec_dash_pro_reg [of x], of DashProReg]
      by (simp add: dash_read_payload_def)
  next
    case (DashProUpServ x)
    then have "ty = 2" using assms(2) by (auto simp: dash_serialize_extra_def dash_spec_types_def split: if_splits)
    then show ?thesis using DashProUpServ assms(1) codec_map [OF codec_dash_pro_up_serv [of x], of DashProUpServ]
      by (simp add: dash_read_payload_def)
  next
    case (DashProUpReg x)
    then have "ty = 3" using assms(2) by (auto simp: dash_serialize_extra_def dash_spec_types_def split: if_splits)
    then show ?thesis using DashProUpReg assms(1) codec_map [OF codec_dash_pro_up_reg [of x], of DashProUpReg]
      by (simp add: dash_read_payload_def)
  next
    case (DashProUpRev x)
    then have "ty = 4" using assms(2) by (auto simp: dash_serialize_extra_def dash_spec_types_def split: if_splits)
    then show ?thesis using DashProUpRev assms(1) codec_map [OF codec_dash_pro_up_rev [of x], of DashProUpRev]
      by (simp add: dash_read_payload_def)
  next
    case (DashCb x)
    then have "ty = 5" using assms(2) by (auto simp: dash_serialize_extra_def dash_spec_types_def split: if_splits)
    then show ?thesis using DashCb assms(1) codec_map [OF codec_dash_cb [of x], of DashCb]
      by (simp add: dash_read_payload_def)
  next
    case (DashRaw b')
    then have "ty \<notin> set dash_spec_types" using assms(2) by (auto simp: dash_serialize_extra_def split: if_splits)
    then show ?thesis using DashRaw that codec_map [OF codec_nbytes [OF refl, of b'], of DashRaw]
      by (simp add: dash_read_payload_def dash_spec_types_def)
  qed
  have "codec (bindE (dash_serialize_payload p) pack_varbytes) (bindR read_varint (\<lambda>n. checkedR n (dash_read_payload ty n))) p"
    by (rule codec_sized [where r = "dash_read_payload ty"], rule each)
  moreover have "dash_serialize_extra ty p = bindE (dash_serialize_payload p) pack_varbytes"
    using assms(2) unfolding dash_serialize_extra_def by (auto simp: err_simps split: if_splits)
  ultimately show ?thesis by simp
qed

text \<open>A transaction the format can express: the version fits beside the type, and a type above 0 has a
  version of at least 3.\<close>

definition dash_ok :: "dash_tx \<Rightarrow> bool" where
  "dash_ok t \<longleftrightarrow> list_all (\<lambda>i. length (prev_hash i) = 32) (tx_inputs t) \<and> dash_payload_ok (dash_extra t) \<and>
     (if dash_type t \<noteq> 0 then 3 \<le> tx_version t
      else dash_extra t = DashRaw [] \<and> 0 \<le> tx_version t \<and> tx_version t < 65536)"

lemma reads_dash_header:
  assumes "0 \<le> v" "v < 65536" "t < 65536" "t = 0 \<or> 3 \<le> v"
  shows "reads L read_le_uint32 (le_encode 2 (nat v) @ le_encode 2 t) (nat v + 65536 * t)"
    "dash_split_header (nat v + 65536 * t) = (nat v, t)"
proof -
  have v: "nat v < 65536" using assms by simp
  show "reads L read_le_uint32 (le_encode 2 (nat v) @ le_encode 2 t) (nat v + 65536 * t)"
    by (rule codec_header [OF v assms(3)])
  have "drop_bit 16 (nat v + 65536 * t) = t" "take_bit 16 (nat v + 65536 * t) = nat v"
    using v by (simp_all add: drop_bit_eq_div take_bit_eq_mod)
  then show "dash_split_header (nat v + 65536 * t) = (nat v, t)"
    using assms by (auto simp: dash_split_header_def Let_def)
qed

lemma reads_dash_body:
  assumes "dash_serialize_tx t = Inr b" "dash_ok t"
  shows "reads L dash_read_body b
    (nat (tx_version t), dash_type t, tx_inputs t, tx_outputs t, tx_locktime t, dash_extra t)"
proof -
  let ?v = "nat (tx_version t)" and ?ty = "dash_type t"
  have ok: "\<And>i. i \<in> set (tx_inputs t) \<Longrightarrow> length (prev_hash i) = 32"
    using assms(2) by (auto simp: dash_ok_def list_all_iff)
  obtain locktime txins txouts where
    lock: "pack_le_uint32 (int (tx_locktime t)) = Inr locktime" and
    ins: "serialize_list serialize_input (tx_inputs t) = Inr txins" and
    outs: "serialize_list serialize_output (tx_outputs t) = Inr txouts"
    using assms(1) by (auto simp: dash_serialize_tx_def err_simps)
  have ins': "reads L read_inputs txins (tx_inputs t)"
    unfolding read_inputs_def by (rule reads_list [OF ins]) (use ok in \<open>auto intro: reads_input\<close>)
  note rest = reads_bind [OF ins'] reads_bind [OF reads_outputs [OF outs]]
  show ?thesis
  proof (cases "?ty = 0")
    case True
    have v: "0 \<le> tx_version t" "tx_version t < 65536" "dash_extra t = DashRaw []"
      using assms(2) True by (simp_all add: dash_ok_def)
    have b: "b = le_encode 4 ?v @ txins @ txouts @ locktime"
      using assms(1) True lock ins outs v
      by (auto simp: dash_serialize_tx_def err_simps pack_le_int32_def pack_le_signed_def mod_pos_pos_trivial split: if_splits)
    have "le_encode 4 ?v = le_encode 2 ?v @ le_encode 2 0"
      using le_encode_append [of ?v 2 2 0] v by simp
    note h = reads_dash_header(1) [OF v(1,2), of 0 L, simplified] reads_dash_header(2) [OF v(1,2), of 0, simplified]
    show ?thesis unfolding b \<open>le_encode 4 ?v = _\<close> dash_read_body_def
      by (rule reads_bind [OF h(1)], rule rest(1), rule rest(2), rule reads_bind_last [OF reads_uint32 [OF lock]])
        (use h(2) True v(3) in \<open>simp add: bindR_returnR reads_return\<close>)
  next
    case False
    have v3: "3 \<le> tx_version t" using assms(2) False by (simp add: dash_ok_def)
    obtain extra where ex: "dash_serialize_extra ?ty (dash_extra t) = Inr extra"
      and v: "0 \<le> tx_version t" "tx_version t < 65536" "?ty < 65536"
      and b: "b = (le_encode 2 ?v @ le_encode 2 ?ty) @ txins @ txouts @ locktime @ extra"
      using assms(1) False lock ins outs
      by (auto simp: dash_serialize_tx_def err_simps pack_le_uint16_def)
    have "dash_payload_ok (dash_extra t)" using assms(2) by (simp add: dash_ok_def)
    from codec_dash_payload [OF this ex] ex
    have ex': "reads L (bindR read_varint (\<lambda>n. checkedR n (dash_read_payload ?ty n))) extra (dash_extra t)"
      by (simp add: codec_def)
    note h = reads_dash_header(1) [OF v disjI2 [OF v3], of L] reads_dash_header(2) [OF v disjI2 [OF v3]]
    show ?thesis unfolding b dash_read_body_def
      by (rule reads_bind [OF h(1)], rule rest(1), rule rest(2), rule reads_bind [OF reads_uint32 [OF lock]])
        (use h(2) False ex' in \<open>simp add: reads_bind_last reads_return\<close>)
  qed
qed

end
