(* ===== verification/AxeTx.thy ===== *)
theory AxeTx
  imports Codecs
begin

section \<open>Axe special transactions (lib/tx_axe.py)\<close>

text \<open>
  A Axe transaction has a type next to its version, and for the types other than 0 an extra payload
  whose layout depends on the type.  Each payload class is a record with its \<open>serialize\<close> and
  \<open>read_tx_extra\<close>; \<open>axe_payload\<close> is what the attribute \<open>extra_payload\<close> can hold, raw bytes for a
  type that has no class.  The hash function is the parameter \<open>H\<close>.
\<close>

record axe_outpoint =
  aop_hash :: bytes
  aop_index :: nat

definition axe_serialize_outpoint :: "axe_outpoint \<Rightarrow> exn + bytes" where
  "axe_serialize_outpoint p =
     bindE (assertE (length (aop_hash p) = 32)) (\<lambda>_.
       joinE [Inr (aop_hash p), pack_le_uint32 (int (aop_index p))])"

definition axe_read_outpoint :: "axe_outpoint reader" where
  "axe_read_outpoint =
     bindR (read_nbytes 32) (\<lambda>hash.
     bindR read_le_uint32 (\<lambda>index.
     returnR \<lparr>aop_hash = hash, aop_index = index\<rparr>))"

lemma codec_axe_outpoint [codec_rules]: "codec (axe_serialize_outpoint p) axe_read_outpoint p"
  unfolding axe_serialize_outpoint_def axe_read_outpoint_def
  by (rule codec_assert, (rule codec_rules | simp)+)

text \<open>\<open>AxeProRegTx\<close>\<close>

record axe_pro_reg =
  apr_version :: nat
  apr_type :: nat
  apr_mode :: nat
  apr_collateral :: axe_outpoint
  apr_ip :: bytes
  apr_port :: nat
  apr_key_owner :: bytes
  apr_pub_key_operator :: bytes
  apr_key_voting :: bytes
  apr_operator_reward :: nat
  apr_script_payout :: bytes
  apr_inputs_hash :: bytes
  apr_payload_sig :: bytes

definition axe_serialize_pro_reg :: "axe_pro_reg \<Rightarrow> exn + bytes" where
  "axe_serialize_pro_reg t =
     bindE (assertE (length (apr_ip t) = 16 \<and> length (apr_key_owner t) = 20 \<and> length (apr_pub_key_operator t) = 48 \<and> length (apr_key_voting t) = 20 \<and> length (apr_inputs_hash t) = 32)) (\<lambda>_.
       joinE ([pack_le_uint16 (int (apr_version t)),
        pack_le_uint16 (int (apr_type t)),
        pack_le_uint16 (int (apr_mode t)),
        axe_serialize_outpoint (apr_collateral t),
        Inr (apr_ip t),
        pack_be_uint16 (int (apr_port t)),
        Inr (apr_key_owner t),
        Inr (apr_pub_key_operator t),
        Inr (apr_key_voting t),
        pack_le_uint16 (int (apr_operator_reward t)),
        pack_varbytes (apr_script_payout t),
        Inr (apr_inputs_hash t),
        pack_varbytes (apr_payload_sig t)]))"

definition axe_read_pro_reg :: "axe_pro_reg reader" where
  "axe_read_pro_reg =
     bindR read_le_uint16 (\<lambda>version'.
     bindR read_le_uint16 (\<lambda>type'.
     bindR read_le_uint16 (\<lambda>mode'.
     bindR axe_read_outpoint (\<lambda>collateral'.
     bindR (read_nbytes 16) (\<lambda>ip'.
     bindR read_be_uint16 (\<lambda>port'.
     bindR (read_nbytes 20) (\<lambda>key_owner'.
     bindR (read_nbytes 48) (\<lambda>pub_key_operator'.
     bindR (read_nbytes 20) (\<lambda>key_voting'.
     bindR read_le_uint16 (\<lambda>operator_reward'.
     bindR read_varbytes (\<lambda>script_payout'.
     bindR (read_nbytes 32) (\<lambda>inputs_hash'.
     bindR read_varbytes (\<lambda>payload_sig'.
     returnR \<lparr>apr_version = version', apr_type = type', apr_mode = mode', apr_collateral = collateral', apr_ip = ip', apr_port = port', apr_key_owner = key_owner', apr_pub_key_operator = pub_key_operator', apr_key_voting = key_voting', apr_operator_reward = operator_reward', apr_script_payout = script_payout', apr_inputs_hash = inputs_hash', apr_payload_sig = payload_sig'\<rparr>)))))))))))))"

lemma codec_axe_pro_reg: "codec (axe_serialize_pro_reg t) axe_read_pro_reg t"
  unfolding axe_serialize_pro_reg_def axe_read_pro_reg_def
  by (rule codec_assert, (rule codec_rules | simp)+)

text \<open>\<open>AxeProUpServTx\<close>\<close>

record axe_pro_up_serv =
  aus_version :: nat
  aus_pro_tx_hash :: bytes
  aus_ip :: bytes
  aus_port :: nat
  aus_script_operator_payout :: bytes
  aus_inputs_hash :: bytes
  aus_payload_sig :: bytes

definition axe_serialize_pro_up_serv :: "axe_pro_up_serv \<Rightarrow> exn + bytes" where
  "axe_serialize_pro_up_serv t =
     bindE (assertE (length (aus_pro_tx_hash t) = 32 \<and> length (aus_ip t) = 16 \<and> length (aus_inputs_hash t) = 32 \<and> length (aus_payload_sig t) = 96)) (\<lambda>_.
       joinE ([pack_le_uint16 (int (aus_version t)),
        Inr (aus_pro_tx_hash t),
        Inr (aus_ip t),
        pack_be_uint16 (int (aus_port t)),
        pack_varbytes (aus_script_operator_payout t),
        Inr (aus_inputs_hash t),
        Inr (aus_payload_sig t)]))"

definition axe_read_pro_up_serv :: "axe_pro_up_serv reader" where
  "axe_read_pro_up_serv =
     bindR read_le_uint16 (\<lambda>version'.
     bindR (read_nbytes 32) (\<lambda>pro_tx_hash'.
     bindR (read_nbytes 16) (\<lambda>ip'.
     bindR read_be_uint16 (\<lambda>port'.
     bindR read_varbytes (\<lambda>script_operator_payout'.
     bindR (read_nbytes 32) (\<lambda>inputs_hash'.
     bindR (read_nbytes 96) (\<lambda>payload_sig'.
     returnR \<lparr>aus_version = version', aus_pro_tx_hash = pro_tx_hash', aus_ip = ip', aus_port = port', aus_script_operator_payout = script_operator_payout', aus_inputs_hash = inputs_hash', aus_payload_sig = payload_sig'\<rparr>)))))))"

lemma codec_axe_pro_up_serv: "codec (axe_serialize_pro_up_serv t) axe_read_pro_up_serv t"
  unfolding axe_serialize_pro_up_serv_def axe_read_pro_up_serv_def
  by (rule codec_assert, (rule codec_rules | simp)+)

text \<open>\<open>AxeProUpRegTx\<close>\<close>

record axe_pro_up_reg =
  aur_version :: nat
  aur_pro_tx_hash :: bytes
  aur_mode :: nat
  aur_pub_key_operator :: bytes
  aur_key_voting :: bytes
  aur_script_payout :: bytes
  aur_inputs_hash :: bytes
  aur_payload_sig :: bytes

definition axe_serialize_pro_up_reg :: "axe_pro_up_reg \<Rightarrow> exn + bytes" where
  "axe_serialize_pro_up_reg t =
     bindE (assertE (length (aur_pro_tx_hash t) = 32 \<and> length (aur_pub_key_operator t) = 48 \<and> length (aur_key_voting t) = 20 \<and> length (aur_inputs_hash t) = 32)) (\<lambda>_.
       joinE ([pack_le_uint16 (int (aur_version t)),
        Inr (aur_pro_tx_hash t),
        pack_le_uint16 (int (aur_mode t)),
        Inr (aur_pub_key_operator t),
        Inr (aur_key_voting t),
        pack_varbytes (aur_script_payout t),
        Inr (aur_inputs_hash t),
        pack_varbytes (aur_payload_sig t)]))"

definition axe_read_pro_up_reg :: "axe_pro_up_reg reader" where
  "axe_read_pro_up_reg =
     bindR read_le_uint16 (\<lambda>version'.
     bindR (read_nbytes 32) (\<lambda>pro_tx_hash'.
     bindR read_le_uint16 (\<lambda>mode'.
     bindR (read_nbytes 48) (\<lambda>pub_key_operator'.
     bindR (read_nbytes 20) (\<lambda>key_voting'.
     bindR read_varbytes (\<lambda>script_payout'.
     bindR (read_nbytes 32) (\<lambda>inputs_hash'.
     bindR read_varbytes (\<lambda>payload_sig'.
     returnR \<lparr>aur_version = version', aur_pro_tx_hash = pro_tx_hash', aur_mode = mode', aur_pub_key_operator = pub_key_operator', aur_key_voting = key_voting', aur_script_payout = script_payout', aur_inputs_hash = inputs_hash', aur_payload_sig = payload_sig'\<rparr>))))))))"

lemma codec_axe_pro_up_reg: "codec (axe_serialize_pro_up_reg t) axe_read_pro_up_reg t"
  unfolding axe_serialize_pro_up_reg_def axe_read_pro_up_reg_def
  by (rule codec_assert, (rule codec_rules | simp)+)

text \<open>\<open>AxeProUpRevTx\<close>\<close>

record axe_pro_up_rev =
  auv_version :: nat
  auv_pro_tx_hash :: bytes
  auv_reason :: nat
  auv_inputs_hash :: bytes
  auv_payload_sig :: bytes

definition axe_serialize_pro_up_rev :: "axe_pro_up_rev \<Rightarrow> exn + bytes" where
  "axe_serialize_pro_up_rev t =
     bindE (assertE (length (auv_pro_tx_hash t) = 32 \<and> length (auv_inputs_hash t) = 32 \<and> length (auv_payload_sig t) = 96)) (\<lambda>_.
       joinE ([pack_le_uint16 (int (auv_version t)),
        Inr (auv_pro_tx_hash t),
        pack_le_uint16 (int (auv_reason t)),
        Inr (auv_inputs_hash t),
        Inr (auv_payload_sig t)]))"

definition axe_read_pro_up_rev :: "axe_pro_up_rev reader" where
  "axe_read_pro_up_rev =
     bindR read_le_uint16 (\<lambda>version'.
     bindR (read_nbytes 32) (\<lambda>pro_tx_hash'.
     bindR read_le_uint16 (\<lambda>reason'.
     bindR (read_nbytes 32) (\<lambda>inputs_hash'.
     bindR (read_nbytes 96) (\<lambda>payload_sig'.
     returnR \<lparr>auv_version = version', auv_pro_tx_hash = pro_tx_hash', auv_reason = reason', auv_inputs_hash = inputs_hash', auv_payload_sig = payload_sig'\<rparr>)))))"

lemma codec_axe_pro_up_rev: "codec (axe_serialize_pro_up_rev t) axe_read_pro_up_rev t"
  unfolding axe_serialize_pro_up_rev_def axe_read_pro_up_rev_def
  by (rule codec_assert, (rule codec_rules | simp)+)

text \<open>\<open>AxeSubTxRegister\<close>\<close>

record axe_sub_register =
  asr_version :: nat
  asr_user_name :: bytes
  asr_pub_key :: bytes
  asr_payload_sig :: bytes

definition axe_serialize_sub_register :: "axe_sub_register \<Rightarrow> exn + bytes" where
  "axe_serialize_sub_register t =
     bindE (assertE (length (asr_pub_key t) = 48 \<and> length (asr_payload_sig t) = 96)) (\<lambda>_.
       joinE ([pack_le_uint16 (int (asr_version t)),
        pack_varbytes (asr_user_name t),
        Inr (asr_pub_key t),
        Inr (asr_payload_sig t)]))"

definition axe_read_sub_register :: "axe_sub_register reader" where
  "axe_read_sub_register =
     bindR read_le_uint16 (\<lambda>version'.
     bindR read_varbytes (\<lambda>user_name'.
     bindR (read_nbytes 48) (\<lambda>pub_key'.
     bindR (read_nbytes 96) (\<lambda>payload_sig'.
     returnR \<lparr>asr_version = version', asr_user_name = user_name', asr_pub_key = pub_key', asr_payload_sig = payload_sig'\<rparr>))))"

lemma codec_axe_sub_register: "codec (axe_serialize_sub_register t) axe_read_sub_register t"
  unfolding axe_serialize_sub_register_def axe_read_sub_register_def
  by (rule codec_assert, (rule codec_rules | simp)+)

text \<open>\<open>AxeSubTxTopup\<close>\<close>

record axe_sub_topup =
  ast_version :: nat
  ast_reg_tx_hash :: bytes

definition axe_serialize_sub_topup :: "axe_sub_topup \<Rightarrow> exn + bytes" where
  "axe_serialize_sub_topup t =
     bindE (assertE (length (ast_reg_tx_hash t) = 32)) (\<lambda>_.
       joinE ([pack_le_uint16 (int (ast_version t)),
        Inr (ast_reg_tx_hash t)]))"

definition axe_read_sub_topup :: "axe_sub_topup reader" where
  "axe_read_sub_topup =
     bindR read_le_uint16 (\<lambda>version'.
     bindR (read_nbytes 32) (\<lambda>reg_tx_hash'.
     returnR \<lparr>ast_version = version', ast_reg_tx_hash = reg_tx_hash'\<rparr>))"

lemma codec_axe_sub_topup: "codec (axe_serialize_sub_topup t) axe_read_sub_topup t"
  unfolding axe_serialize_sub_topup_def axe_read_sub_topup_def
  by (rule codec_assert, (rule codec_rules | simp)+)

text \<open>\<open>AxeSubTxResetKey\<close>\<close>

record axe_sub_reset_key =
  ask_version :: nat
  ask_reg_tx_hash :: bytes
  ask_hash_prev_sub_tx :: bytes
  ask_credit_fee :: int
  ask_new_pub_key :: bytes
  ask_payload_sig :: bytes

definition axe_serialize_sub_reset_key :: "axe_sub_reset_key \<Rightarrow> exn + bytes" where
  "axe_serialize_sub_reset_key t =
     bindE (assertE (length (ask_reg_tx_hash t) = 32 \<and> length (ask_hash_prev_sub_tx t) = 32 \<and> length (ask_new_pub_key t) = 48 \<and> length (ask_payload_sig t) = 96)) (\<lambda>_.
       joinE ([pack_le_uint16 (int (ask_version t)),
        Inr (ask_reg_tx_hash t),
        Inr (ask_hash_prev_sub_tx t),
        pack_le_int64 (ask_credit_fee t),
        Inr (ask_new_pub_key t),
        Inr (ask_payload_sig t)]))"

definition axe_read_sub_reset_key :: "axe_sub_reset_key reader" where
  "axe_read_sub_reset_key =
     bindR read_le_uint16 (\<lambda>version'.
     bindR (read_nbytes 32) (\<lambda>reg_tx_hash'.
     bindR (read_nbytes 32) (\<lambda>hash_prev_sub_tx'.
     bindR read_le_int64 (\<lambda>credit_fee'.
     bindR (read_nbytes 48) (\<lambda>new_pub_key'.
     bindR (read_nbytes 96) (\<lambda>payload_sig'.
     returnR \<lparr>ask_version = version', ask_reg_tx_hash = reg_tx_hash', ask_hash_prev_sub_tx = hash_prev_sub_tx', ask_credit_fee = credit_fee', ask_new_pub_key = new_pub_key', ask_payload_sig = payload_sig'\<rparr>))))))"

lemma codec_axe_sub_reset_key: "codec (axe_serialize_sub_reset_key t) axe_read_sub_reset_key t"
  unfolding axe_serialize_sub_reset_key_def axe_read_sub_reset_key_def
  by (rule codec_assert, (rule codec_rules | simp)+)

text \<open>\<open>AxeSubTxCloseAccount\<close>\<close>

record axe_sub_close =
  asc_version :: nat
  asc_reg_tx_hash :: bytes
  asc_hash_prev_sub_tx :: bytes
  asc_credit_fee :: int
  asc_payload_sig :: bytes

definition axe_serialize_sub_close :: "axe_sub_close \<Rightarrow> exn + bytes" where
  "axe_serialize_sub_close t =
     bindE (assertE (length (asc_reg_tx_hash t) = 32 \<and> length (asc_hash_prev_sub_tx t) = 32 \<and> length (asc_payload_sig t) = 96)) (\<lambda>_.
       joinE ([pack_le_uint16 (int (asc_version t)),
        Inr (asc_reg_tx_hash t),
        Inr (asc_hash_prev_sub_tx t),
        pack_le_int64 (asc_credit_fee t),
        Inr (asc_payload_sig t)]))"

definition axe_read_sub_close :: "axe_sub_close reader" where
  "axe_read_sub_close =
     bindR read_le_uint16 (\<lambda>version'.
     bindR (read_nbytes 32) (\<lambda>reg_tx_hash'.
     bindR (read_nbytes 32) (\<lambda>hash_prev_sub_tx'.
     bindR read_le_int64 (\<lambda>credit_fee'.
     bindR (read_nbytes 96) (\<lambda>payload_sig'.
     returnR \<lparr>asc_version = version', asc_reg_tx_hash = reg_tx_hash', asc_hash_prev_sub_tx = hash_prev_sub_tx', asc_credit_fee = credit_fee', asc_payload_sig = payload_sig'\<rparr>)))))"

lemma codec_axe_sub_close: "codec (axe_serialize_sub_close t) axe_read_sub_close t"
  unfolding axe_serialize_sub_close_def axe_read_sub_close_def
  by (rule codec_assert, (rule codec_rules | simp)+)

text \<open>\<open>AxeCbTx\<close>: what it holds depends on the version.\<close>

record axe_cb =
  acb_version :: nat
  acb_height :: nat
  acb_merkle_root_mn_list :: bytes
  acb_merkle_root_quorums :: bytes

definition axe_serialize_cb :: "axe_cb \<Rightarrow> exn + bytes" where
  "axe_serialize_cb t =
     bindE (assertE (length (acb_merkle_root_mn_list t) = 32)) (\<lambda>_.
       joinE ([pack_le_uint16 (int (acb_version t)), pack_le_uint32 (int (acb_height t)), Inr (acb_merkle_root_mn_list t)] @
        (if acb_version t > 1
         then [bindE (assertE (length (acb_merkle_root_quorums t) = 32)) (\<lambda>_. Inr (acb_merkle_root_quorums t))] else [])))"

definition axe_read_cb :: "axe_cb reader" where
  "axe_read_cb =
     bindR read_le_uint16 (\<lambda>version'.
     bindR read_le_uint32 (\<lambda>height'.
     bindR (read_nbytes 32) (\<lambda>mn_list'.
     bindR (if version' > 1 then read_nbytes 32 else returnR []) (\<lambda>quorums'.
     returnR \<lparr>acb_version = version', acb_height = height', acb_merkle_root_mn_list = mn_list',
       acb_merkle_root_quorums = quorums'\<rparr>))))"

definition axe_cb_ok :: "axe_cb \<Rightarrow> bool" where
  "axe_cb_ok t \<longleftrightarrow> (\<not> acb_version t > 1 \<longrightarrow> acb_merkle_root_quorums t = [])"

lemma codec_axe_quorums:
  "\<not> version > 1 \<longrightarrow> q = [] \<Longrightarrow>
   codec (joinE (if version > 1 then [bindE (assertE (length q = 32)) (\<lambda>_. Inr q)] else []))
     (if (version :: nat) > 1 then read_nbytes 32 else returnR []) q"
  using codec_single [OF codec_assert [OF codec_nbytes]]
  by (cases "version > 1") (simp_all add: codec_end)

lemma codec_axe_cb: "axe_cb_ok t \<Longrightarrow> codec (axe_serialize_cb t) axe_read_cb t"
  unfolding axe_serialize_cb_def axe_read_cb_def axe_cb_ok_def append_Cons append_Nil
  by (rule codec_assert, (rule codec_rules codec_append codec_append_last codec_axe_quorums | simp)+)

subsection \<open>Transactions\<close>

datatype axe_payload =
    AxeProReg axe_pro_reg
  | AxeProUpServ axe_pro_up_serv
  | AxeProUpReg axe_pro_up_reg
  | AxeProUpRev axe_pro_up_rev
  | AxeCb axe_cb
  | AxeSubRegister axe_sub_register
  | AxeSubTopup axe_sub_topup
  | AxeSubResetKey axe_sub_reset_key
  | AxeSubClose axe_sub_close
  | AxeRaw bytes

text \<open>\<open>SPEC_TX_HANDLERS\<close>: the type of each class.\<close>

definition axe_spec_types :: "nat list" where
  "axe_spec_types = [1, 2, 3, 4, 5, 8, 9, 10, 11]"

fun axe_class_type :: "axe_payload \<Rightarrow> nat option" where
  "axe_class_type (AxeProReg x) = Some 1"
| "axe_class_type (AxeProUpServ x) = Some 2"
| "axe_class_type (AxeProUpReg x) = Some 3"
| "axe_class_type (AxeProUpRev x) = Some 4"
| "axe_class_type (AxeCb x) = Some 5"
| "axe_class_type (AxeSubRegister x) = Some 8"
| "axe_class_type (AxeSubTopup x) = Some 9"
| "axe_class_type (AxeSubResetKey x) = Some 10"
| "axe_class_type (AxeSubClose x) = Some 11"
| "axe_class_type (AxeRaw b) = None"

fun axe_serialize_payload :: "axe_payload \<Rightarrow> exn + bytes" where
  "axe_serialize_payload (AxeProReg x) = axe_serialize_pro_reg x"
| "axe_serialize_payload (AxeProUpServ x) = axe_serialize_pro_up_serv x"
| "axe_serialize_payload (AxeProUpReg x) = axe_serialize_pro_up_reg x"
| "axe_serialize_payload (AxeProUpRev x) = axe_serialize_pro_up_rev x"
| "axe_serialize_payload (AxeCb x) = axe_serialize_cb x"
| "axe_serialize_payload (AxeSubRegister x) = axe_serialize_sub_register x"
| "axe_serialize_payload (AxeSubTopup x) = axe_serialize_sub_topup x"
| "axe_serialize_payload (AxeSubResetKey x) = axe_serialize_sub_reset_key x"
| "axe_serialize_payload (AxeSubClose x) = axe_serialize_sub_close x"
| "axe_serialize_payload (AxeRaw b) = Inr b"

definition axe_serialize_extra :: "nat \<Rightarrow> axe_payload \<Rightarrow> exn + bytes" where
  "axe_serialize_extra tx_type extra =
     (if tx_type \<notin> set axe_spec_types
      then bindE (assertE (axe_class_type extra = None)) (\<lambda>_. bindE (axe_serialize_payload extra) pack_varbytes)
      else if axe_class_type extra \<noteq> Some tx_type then Inl ValueError
      else bindE (axe_serialize_payload extra) pack_varbytes)"

definition axe_read_payload :: "nat \<Rightarrow> nat \<Rightarrow> axe_payload reader" where
  "axe_read_payload tx_type n =
     (if tx_type = 1 then bindR axe_read_pro_reg (\<lambda>x. returnR (AxeProReg x))
      else if tx_type = 2 then bindR axe_read_pro_up_serv (\<lambda>x. returnR (AxeProUpServ x))
      else if tx_type = 3 then bindR axe_read_pro_up_reg (\<lambda>x. returnR (AxeProUpReg x))
      else if tx_type = 4 then bindR axe_read_pro_up_rev (\<lambda>x. returnR (AxeProUpRev x))
      else if tx_type = 5 then bindR axe_read_cb (\<lambda>x. returnR (AxeCb x))
      else if tx_type = 8 then bindR axe_read_sub_register (\<lambda>x. returnR (AxeSubRegister x))
      else if tx_type = 9 then bindR axe_read_sub_topup (\<lambda>x. returnR (AxeSubTopup x))
      else if tx_type = 10 then bindR axe_read_sub_reset_key (\<lambda>x. returnR (AxeSubResetKey x))
      else if tx_type = 11 then bindR axe_read_sub_close (\<lambda>x. returnR (AxeSubClose x))
      else bindR (read_nbytes n) (\<lambda>b. returnR (AxeRaw b)))"

record axe_tx = tx +
  axe_type :: nat
  axe_extra :: axe_payload

definition axe_serialize_tx :: "axe_tx \<Rightarrow> exn + bytes" where
  "axe_serialize_tx t =
     bindE (pack_le_uint32 (int (tx_locktime t))) (\<lambda>locktime.
     bindE (serialize_list serialize_input (tx_inputs t)) (\<lambda>txins.
     bindE (serialize_list serialize_output (tx_outputs t)) (\<lambda>txouts.
       if axe_type t \<noteq> 0
       then bindE (pack_le_uint16 (tx_version t)) (\<lambda>version.
            bindE (pack_le_uint16 (int (axe_type t))) (\<lambda>ty.
            bindE (axe_serialize_extra (axe_type t) (axe_extra t)) (\<lambda>extra.
              Inr (version @ ty @ txins @ txouts @ locktime @ extra))))
       else bindE (pack_le_int32 (tx_version t)) (\<lambda>version.
              Inr (version @ txins @ txouts @ locktime)))))"

definition axe_split_header :: "nat \<Rightarrow> nat \<times> nat" where
  "axe_split_header hdr =
     (let tx_type = drop_bit 16 hdr;
          version = (if tx_type \<noteq> 0 then take_bit 16 hdr else hdr)
      in if tx_type \<noteq> 0 \<and> version < 3 then (hdr, 0) else (version, tx_type))"

definition axe_read_body :: "(nat \<times> nat \<times> tx_input list \<times> tx_output list \<times> nat \<times> axe_payload) reader" where
  "axe_read_body =
     bindR read_le_uint32 (\<lambda>hdr.
     bindR read_inputs (\<lambda>inputs.
     bindR read_outputs (\<lambda>outputs.
     bindR read_le_uint32 (\<lambda>locktime.
     bindR (if snd (axe_split_header hdr) \<noteq> 0
            then bindR read_varint (\<lambda>n. checkedR n (axe_read_payload (snd (axe_split_header hdr)) n))
            else returnR (AxeRaw [])) (\<lambda>extra.
     returnR (fst (axe_split_header hdr), snd (axe_split_header hdr), inputs, outputs, locktime, extra))))))"

definition axe_read_tx :: "(bytes \<Rightarrow> bytes) \<Rightarrow> axe_tx reader" where
  "axe_read_tx H =
     bindR (spannedR axe_read_body) (\<lambda>((version, tx_type, inputs, outputs, locktime, extra), span, size).
       returnR \<lparr>tx_version = int version, tx_inputs = inputs, tx_outputs = outputs, tx_locktime = locktime,
         txid = H span, wtxid = H span, ext = PlainTx, axe_type = tx_type, axe_extra = extra\<rparr>)"

subsection \<open>Round trip\<close>

fun axe_payload_ok :: "axe_payload \<Rightarrow> bool" where
  "axe_payload_ok (AxeCb t) \<longleftrightarrow> axe_cb_ok t"
| "axe_payload_ok (_) \<longleftrightarrow> True"

lemma codec_axe_payload:
  assumes "axe_payload_ok p" "axe_serialize_extra ty p = Inr c"
  shows "codec (axe_serialize_extra ty p) (bindR read_varint (\<lambda>n. checkedR n (axe_read_payload ty n))) p"
proof -
  have each: "codec (axe_serialize_payload p) (axe_read_payload ty (length b)) p"
    if "axe_serialize_payload p = Inr b" for b
  proof (cases p)
    case (AxeProReg x)
    then have "ty = 1" using assms(2) by (auto simp: axe_serialize_extra_def axe_spec_types_def split: if_splits)
    then show ?thesis using AxeProReg assms(1) codec_map [OF codec_axe_pro_reg [of x], of AxeProReg]
      by (simp add: axe_read_payload_def)
  next
    case (AxeProUpServ x)
    then have "ty = 2" using assms(2) by (auto simp: axe_serialize_extra_def axe_spec_types_def split: if_splits)
    then show ?thesis using AxeProUpServ assms(1) codec_map [OF codec_axe_pro_up_serv [of x], of AxeProUpServ]
      by (simp add: axe_read_payload_def)
  next
    case (AxeProUpReg x)
    then have "ty = 3" using assms(2) by (auto simp: axe_serialize_extra_def axe_spec_types_def split: if_splits)
    then show ?thesis using AxeProUpReg assms(1) codec_map [OF codec_axe_pro_up_reg [of x], of AxeProUpReg]
      by (simp add: axe_read_payload_def)
  next
    case (AxeProUpRev x)
    then have "ty = 4" using assms(2) by (auto simp: axe_serialize_extra_def axe_spec_types_def split: if_splits)
    then show ?thesis using AxeProUpRev assms(1) codec_map [OF codec_axe_pro_up_rev [of x], of AxeProUpRev]
      by (simp add: axe_read_payload_def)
  next
    case (AxeCb x)
    then have "ty = 5" using assms(2) by (auto simp: axe_serialize_extra_def axe_spec_types_def split: if_splits)
    then show ?thesis using AxeCb assms(1) codec_map [OF codec_axe_cb [of x], of AxeCb]
      by (simp add: axe_read_payload_def)
  next
    case (AxeSubRegister x)
    then have "ty = 8" using assms(2) by (auto simp: axe_serialize_extra_def axe_spec_types_def split: if_splits)
    then show ?thesis using AxeSubRegister assms(1) codec_map [OF codec_axe_sub_register [of x], of AxeSubRegister]
      by (simp add: axe_read_payload_def)
  next
    case (AxeSubTopup x)
    then have "ty = 9" using assms(2) by (auto simp: axe_serialize_extra_def axe_spec_types_def split: if_splits)
    then show ?thesis using AxeSubTopup assms(1) codec_map [OF codec_axe_sub_topup [of x], of AxeSubTopup]
      by (simp add: axe_read_payload_def)
  next
    case (AxeSubResetKey x)
    then have "ty = 10" using assms(2) by (auto simp: axe_serialize_extra_def axe_spec_types_def split: if_splits)
    then show ?thesis using AxeSubResetKey assms(1) codec_map [OF codec_axe_sub_reset_key [of x], of AxeSubResetKey]
      by (simp add: axe_read_payload_def)
  next
    case (AxeSubClose x)
    then have "ty = 11" using assms(2) by (auto simp: axe_serialize_extra_def axe_spec_types_def split: if_splits)
    then show ?thesis using AxeSubClose assms(1) codec_map [OF codec_axe_sub_close [of x], of AxeSubClose]
      by (simp add: axe_read_payload_def)
  next
    case (AxeRaw b')
    then have "ty \<notin> set axe_spec_types" using assms(2) by (auto simp: axe_serialize_extra_def split: if_splits)
    then show ?thesis using AxeRaw that codec_map [OF codec_nbytes [OF refl, of b'], of AxeRaw]
      by (simp add: axe_read_payload_def axe_spec_types_def)
  qed
  have "codec (bindE (axe_serialize_payload p) pack_varbytes) (bindR read_varint (\<lambda>n. checkedR n (axe_read_payload ty n))) p"
    by (rule codec_sized [where r = "axe_read_payload ty"], rule each)
  moreover have "axe_serialize_extra ty p = bindE (axe_serialize_payload p) pack_varbytes"
    using assms(2) unfolding axe_serialize_extra_def by (auto simp: err_simps split: if_splits)
  ultimately show ?thesis by simp
qed

text \<open>A transaction the format can express: the version fits beside the type, and a type above 0 has a
  version of at least 3.\<close>

definition axe_ok :: "axe_tx \<Rightarrow> bool" where
  "axe_ok t \<longleftrightarrow> list_all (\<lambda>i. length (prev_hash i) = 32) (tx_inputs t) \<and> axe_payload_ok (axe_extra t) \<and>
     (if axe_type t \<noteq> 0 then 3 \<le> tx_version t
      else axe_extra t = AxeRaw [] \<and> 0 \<le> tx_version t \<and> tx_version t < 65536)"

lemma reads_axe_header:
  assumes "0 \<le> v" "v < 65536" "t < 65536" "t = 0 \<or> 3 \<le> v"
  shows "reads L read_le_uint32 (le_encode 2 (nat v) @ le_encode 2 t) (nat v + 65536 * t)"
    "axe_split_header (nat v + 65536 * t) = (nat v, t)"
proof -
  have v: "nat v < 65536" using assms by simp
  show "reads L read_le_uint32 (le_encode 2 (nat v) @ le_encode 2 t) (nat v + 65536 * t)"
    by (rule codec_header [OF v assms(3)])
  have "drop_bit 16 (nat v + 65536 * t) = t" "take_bit 16 (nat v + 65536 * t) = nat v"
    using v by (simp_all add: drop_bit_eq_div take_bit_eq_mod)
  then show "axe_split_header (nat v + 65536 * t) = (nat v, t)"
    using assms by (auto simp: axe_split_header_def Let_def)
qed

lemma reads_axe_body:
  assumes "axe_serialize_tx t = Inr b" "axe_ok t"
  shows "reads L axe_read_body b
    (nat (tx_version t), axe_type t, tx_inputs t, tx_outputs t, tx_locktime t, axe_extra t)"
proof -
  let ?v = "nat (tx_version t)" and ?ty = "axe_type t"
  have ok: "\<And>i. i \<in> set (tx_inputs t) \<Longrightarrow> length (prev_hash i) = 32"
    using assms(2) by (auto simp: axe_ok_def list_all_iff)
  obtain locktime txins txouts where
    lock: "pack_le_uint32 (int (tx_locktime t)) = Inr locktime" and
    ins: "serialize_list serialize_input (tx_inputs t) = Inr txins" and
    outs: "serialize_list serialize_output (tx_outputs t) = Inr txouts"
    using assms(1) by (auto simp: axe_serialize_tx_def err_simps)
  have ins': "reads L read_inputs txins (tx_inputs t)"
    unfolding read_inputs_def by (rule reads_list [OF ins]) (use ok in \<open>auto intro: reads_input\<close>)
  note rest = reads_bind [OF ins'] reads_bind [OF reads_outputs [OF outs]]
  show ?thesis
  proof (cases "?ty = 0")
    case True
    have v: "0 \<le> tx_version t" "tx_version t < 65536" "axe_extra t = AxeRaw []"
      using assms(2) True by (simp_all add: axe_ok_def)
    have b: "b = le_encode 4 ?v @ txins @ txouts @ locktime"
      using assms(1) True lock ins outs v
      by (auto simp: axe_serialize_tx_def err_simps pack_le_int32_def pack_le_signed_def mod_pos_pos_trivial split: if_splits)
    have "le_encode 4 ?v = le_encode 2 ?v @ le_encode 2 0"
      using le_encode_append [of ?v 2 2 0] v by simp
    note h = reads_axe_header(1) [OF v(1,2), of 0 L, simplified] reads_axe_header(2) [OF v(1,2), of 0, simplified]
    show ?thesis unfolding b \<open>le_encode 4 ?v = _\<close> axe_read_body_def
      by (rule reads_bind [OF h(1)], rule rest(1), rule rest(2), rule reads_bind_last [OF reads_uint32 [OF lock]])
        (use h(2) True v(3) in \<open>simp add: bindR_returnR reads_return\<close>)
  next
    case False
    have v3: "3 \<le> tx_version t" using assms(2) False by (simp add: axe_ok_def)
    obtain extra where ex: "axe_serialize_extra ?ty (axe_extra t) = Inr extra"
      and v: "0 \<le> tx_version t" "tx_version t < 65536" "?ty < 65536"
      and b: "b = (le_encode 2 ?v @ le_encode 2 ?ty) @ txins @ txouts @ locktime @ extra"
      using assms(1) False lock ins outs
      by (auto simp: axe_serialize_tx_def err_simps pack_le_uint16_def)
    have "axe_payload_ok (axe_extra t)" using assms(2) by (simp add: axe_ok_def)
    from codec_axe_payload [OF this ex] ex
    have ex': "reads L (bindR read_varint (\<lambda>n. checkedR n (axe_read_payload ?ty n))) extra (axe_extra t)"
      by (simp add: codec_def)
    note h = reads_axe_header(1) [OF v disjI2 [OF v3], of L] reads_axe_header(2) [OF v disjI2 [OF v3]]
    show ?thesis unfolding b axe_read_body_def
      by (rule reads_bind [OF h(1)], rule rest(1), rule rest(2), rule reads_bind [OF reads_uint32 [OF lock]])
        (use h(2) False ex' in \<open>simp add: reads_bind_last reads_return\<close>)
  qed
qed

end
