(* ===== verification/SpecialTx.thy ===== *)
theory SpecialTx
  imports DashTx AxeTx
begin

section \<open>Round trips of special transactions\<close>

text \<open>The two deserialisers read back what their transactions are written as, and the one case in which
  the Dash classes do not.\<close>

text \<open>A Dash transaction with its extra payload is read back exactly from any position of
  a binary: every attribute, the payload's class and all its fields, with the cursor right after it and
  both hashes the hash of its bytes.  Excluded by \<open>dash_ok\<close> are the provider transactions of version 2 and of a type other
  than 1, which the reader produces but the writer writes differently.\<close>

theorem dash_roundtrip:
  assumes "dash_serialize_tx t = Inr b" "dash_ok t"
  shows "dash_read_tx H (pre @ b @ post) (length pre) =
    Inr (t\<lparr>txid := H b, wtxid := H b, ext := PlainTx\<rparr>, length pre + length b)"
proof -
  have v: "0 \<le> tx_version t" using assms(2) by (auto simp: dash_ok_def split: if_splits)
  have "reads (length (pre @ b @ post)) (dash_read_tx H) b (t\<lparr>txid := H b, wtxid := H b, ext := PlainTx\<rparr>)"
    unfolding dash_read_tx_def
    by (rule reads_bind_last [OF reads_span [OF reads_dash_body [OF assms]]])
      (use v in \<open>simp add: reads_return\<close>)
  then show ?thesis by (rule readsD)
qed

definition dash_sample :: dash_tx where
  "dash_sample = \<lparr>tx_version = 3, tx_inputs = [], tx_outputs = [], tx_locktime = 5, txid = [], wtxid = [],
     ext = PlainTx, dash_type = 5,
     dash_extra = DashCb \<lparr>dcb_version = 2, dcb_height = 7, dcb_merkle_root_mn_list = replicate 32 1,
       dcb_merkle_root_quorums = replicate 32 2, dcb_best_cl_height_diff = 0, dcb_best_cl_signature = [],
       dcb_asset_locked_amount = 0\<rparr>\<rparr>"

theorem dash_roundtrip_witness:
  "\<exists>b. dash_serialize_tx dash_sample = Inr b \<and>
     dash_read_tx (\<lambda>x. []) b 0 = Inr (dash_sample, length b)"
proof -
  have "dash_ok dash_sample" by (simp add: dash_ok_def dash_sample_def dash_cb_ok_def)
  moreover obtain b where b: "dash_serialize_tx dash_sample = Inr b"
    by (simp add: dash_serialize_tx_def dash_sample_def serialize_list_def pack_varint_def pack_defs
        pack_le_unsigned_def dash_serialize_extra_def dash_spec_types_def dash_serialize_cb_def joinE_Cons joinE_Nil
        pack_varbytes_def)
  ultimately have "dash_read_tx (\<lambda>x. []) ([] @ b @ []) (length ([] :: bytes)) =
      Inr (dash_sample\<lparr>txid := [], wtxid := [], ext := PlainTx\<rparr>, length ([] :: bytes) + length b)"
    by (intro dash_roundtrip)
  then show ?thesis using b by (simp add: dash_sample_def)
qed

text \<open>An Axe transaction of any type, with its extra payload, is read back exactly from any position of
  a binary.\<close>

theorem axe_roundtrip:
  assumes "axe_serialize_tx t = Inr b" "axe_ok t"
  shows "axe_read_tx H (pre @ b @ post) (length pre) =
    Inr (t\<lparr>txid := H b, wtxid := H b, ext := PlainTx\<rparr>, length pre + length b)"
proof -
  have v: "0 \<le> tx_version t" using assms(2) by (auto simp: axe_ok_def split: if_splits)
  have "reads (length (pre @ b @ post)) (axe_read_tx H) b (t\<lparr>txid := H b, wtxid := H b, ext := PlainTx\<rparr>)"
    unfolding axe_read_tx_def
    by (rule reads_bind_last [OF reads_span [OF reads_axe_body [OF assms]]])
      (use v in \<open>simp add: reads_return\<close>)
  then show ?thesis by (rule readsD)
qed

definition axe_sample :: axe_tx where
  "axe_sample = \<lparr>tx_version = 3, tx_inputs = [], tx_outputs = [], tx_locktime = 5, txid = [], wtxid = [],
     ext = PlainTx, axe_type = 9,
     axe_extra = AxeSubTopup \<lparr>ast_version = 1, ast_reg_tx_hash = replicate 32 4\<rparr>\<rparr>"

theorem axe_roundtrip_witness:
  "\<exists>b. axe_serialize_tx axe_sample = Inr b \<and> axe_read_tx (\<lambda>x. []) b 0 = Inr (axe_sample, length b)"
proof -
  have "axe_ok axe_sample" by (simp add: axe_ok_def axe_sample_def)
  moreover obtain b where b: "axe_serialize_tx axe_sample = Inr b"
    by (simp add: axe_serialize_tx_def axe_sample_def serialize_list_def pack_varint_def pack_defs
        pack_le_unsigned_def axe_serialize_extra_def axe_spec_types_def axe_serialize_sub_topup_def joinE_Cons joinE_Nil
        pack_varbytes_def)
  ultimately have "axe_read_tx (\<lambda>x. []) ([] @ b @ []) (length ([] :: bytes)) =
      Inr (axe_sample\<lparr>txid := [], wtxid := [], ext := PlainTx\<rparr>, length ([] :: bytes) + length b)"
    by (intro axe_roundtrip)
  then show ?thesis using b by (simp add: axe_sample_def)
qed

text \<open>A Dash provider-registration payload of version 2 or more whose type is not 1 is not written the way
  it is read: reading skips the platform fields, writing puts two of them out as ports, so that what
  the reader produced (no platform fields) is written with four bytes too many and is not read back.\<close>

theorem dash_pro_reg_type_mismatch:
  assumes "2 \<le> dpr_version t" "dpr_type t \<noteq> 1" "dpr_platform_node_id t = []"
    "dpr_platform_p2p_port t = 0" "dpr_platform_http_port t = 0" "dash_serialize_pro_reg t = Inr b"
  shows "\<exists>c. dash_serialize_pro_reg (t\<lparr>dpr_version := 1\<rparr>) = Inr c \<and> length b = length c + 4"
  using assms
  by (auto simp: dash_serialize_pro_reg_def dash_write_platform_def joinE_Cons joinE_Nil err_simps
      pack_le_uint16_def pack_be_uint16_def pack_le_unsigned_def split: if_splits)

definition dash_reg_sample :: dash_pro_reg where
  "dash_reg_sample = \<lparr>dpr_version = 2, dpr_type = 0, dpr_mode = 0,
     dpr_collateral = \<lparr>dop_hash = replicate 32 1, dop_index = 0\<rparr>, dpr_ip = replicate 16 0, dpr_port = 9999,
     dpr_key_owner = replicate 20 1, dpr_pub_key_operator = replicate 48 2, dpr_key_voting = replicate 20 3,
     dpr_operator_reward = 0, dpr_script_payout = [], dpr_inputs_hash = replicate 32 4,
     dpr_platform_node_id = [], dpr_platform_p2p_port = 0, dpr_platform_http_port = 0,
     dpr_payload_sig = []\<rparr>"

theorem dash_pro_reg_type_mismatch_witness:
  "\<exists>b c. dash_serialize_pro_reg dash_reg_sample = Inr b \<and>
     dash_serialize_pro_reg (dash_reg_sample\<lparr>dpr_version := 1\<rparr>) = Inr c \<and> length b = length c + 4"
proof -
  obtain b where b: "dash_serialize_pro_reg dash_reg_sample = Inr b"
    by (simp add: dash_serialize_pro_reg_def dash_write_platform_def dash_reg_sample_def dash_serialize_outpoint_def
        joinE_Cons joinE_Nil pack_defs pack_le_unsigned_def pack_varbytes_def pack_varint_def)
  have "2 \<le> dpr_version dash_reg_sample" "dpr_type dash_reg_sample \<noteq> 1"
    "dpr_platform_node_id dash_reg_sample = []" "dpr_platform_p2p_port dash_reg_sample = 0"
    "dpr_platform_http_port dash_reg_sample = 0"
    by (simp_all add: dash_reg_sample_def)
  from dash_pro_reg_type_mismatch [OF this b] show ?thesis using b by simp
qed

end
