(* ===== verification/LruCache.thy ===== *)
theory LruCache
  imports Prelude "HOL-Library.Multiset"
begin

section \<open>The least-recently-used cache (lib/lrucache.py)\<close>

text \<open>
  The record \<open>lru_cache\<close> is an \<open>LRUCache\<close> object: \<open>lru_data\<close> its dictionary, \<open>lru_sizes\<close> the
  dictionary of sizes (\<open>None\<close> for the \<open>_DefaultSize\<close> object, whose every entry is 1), \<open>lru_order\<close> the
  keys of the ordered dictionary, the least recently used first.  \<open>getsizeof\<close> is the constructor's
  argument and a parameter of the operations that call it.

  The abstract value of a cache is the list of its pairs by recency (\<open>lru_abs\<close>), on which the
  operations are specified without sizes or dictionaries (\<open>recent_put\<close>, \<open>recent_get\<close>).
\<close>

record ('k, 'v) lru_cache =
  lru_data :: "('k \<times> 'v) list"
  lru_sizes :: "('k \<times> nat) list option"
  lru_currsize :: int
  lru_maxsize :: int
  lru_order :: "'k list"
  num_lookups :: nat
  num_hits :: nat

definition new_lru :: "int \<Rightarrow> bool \<Rightarrow> ('k, 'v) lru_cache" where
  "new_lru maxsize default_size = \<lparr>lru_data = [], lru_sizes = (if default_size then None else Some []),
     lru_currsize = 0, lru_maxsize = maxsize, lru_order = [], num_lookups = 0, num_hits = 0\<rparr>"

definition size_get :: "('k \<times> nat) list option \<Rightarrow> 'k \<Rightarrow> exn + nat" where
  "size_get sizes key =
     (case sizes of
        None \<Rightarrow> Inr 1
      | Some d \<Rightarrow> (case map_of d key of None \<Rightarrow> Inl KeyError | Some n \<Rightarrow> Inr n))"

definition size_set :: "('k \<times> nat) list option \<Rightarrow> 'k \<Rightarrow> nat \<Rightarrow> exn + ('k \<times> nat) list option" where
  "size_set sizes key n =
     (case sizes of
        None \<Rightarrow> bindE (assertE (n = 1)) (\<lambda>_. Inr None)
      | Some d \<Rightarrow> Inr (Some (AList.update key n d)))"

definition lru_update :: "'k \<Rightarrow> ('k, 'v) lru_cache \<Rightarrow> ('k, 'v) lru_cache" where
  "lru_update key c = c\<lparr>lru_order := removeAll key (lru_order c) @ [key]\<rparr>"

definition lru_contains :: "('k, 'v) lru_cache \<Rightarrow> 'k \<Rightarrow> bool" where
  "lru_contains c key \<longleftrightarrow> map_of (lru_data c) key \<noteq> None"

definition lru_getitem :: "('k, 'v) lru_cache \<Rightarrow> 'k \<Rightarrow> exn + 'v \<times> ('k, 'v) lru_cache" where
  "lru_getitem c key =
     (case map_of (lru_data c) key of
        None \<Rightarrow> Inl KeyError
      | Some v \<Rightarrow> Inr (v, lru_update key c))"

definition lru_delitem :: "('k, 'v) lru_cache \<Rightarrow> 'k \<Rightarrow> exn + ('k, 'v) lru_cache" where
  "lru_delitem c key =
     bindE (size_get (lru_sizes c) key) (\<lambda>sz.
       if \<not> lru_contains c key \<or> key \<notin> set (lru_order c) then Inl KeyError
       else Inr (c\<lparr>lru_sizes := map_option (AList.delete key) (lru_sizes c),
                   lru_data := AList.delete key (lru_data c),
                   lru_currsize := lru_currsize c - int sz,
                   lru_order := removeAll key (lru_order c)\<rparr>))"

definition lru_pop :: "('k, 'v) lru_cache \<Rightarrow> 'k \<Rightarrow> 'v option \<Rightarrow> exn + 'v \<times> ('k, 'v) lru_cache" where
  "lru_pop c key dflt =
     (if lru_contains c key then
        bindE (lru_getitem c key) (\<lambda>(v, c).
        bindE (lru_delitem c key) (\<lambda>c. Inr (v, c)))
      else case dflt of None \<Rightarrow> Inl KeyError | Some v \<Rightarrow> Inr (v, c))"

definition lru_popitem :: "('k, 'v) lru_cache \<Rightarrow> exn + ('k \<times> 'v) \<times> ('k, 'v) lru_cache" where
  "lru_popitem c =
     (case lru_order c of
        [] \<Rightarrow> Inl KeyError
      | key # _ \<Rightarrow> bindE (lru_pop c key None) (\<lambda>(v, c). Inr ((key, v), c)))"

lemma lru_popitem_shorter:
  "lru_popitem c = Inr (kv, c') \<Longrightarrow> length (lru_order c') < length (lru_order c)"
  by (auto simp: lru_popitem_def lru_pop_def lru_getitem_def lru_delitem_def lru_update_def err_simps
      split: list.splits option.splits if_splits intro: le_less_trans [OF length_removeAll_less_eq])

text \<open>\<open>while currsize + size > maxsize: self.popitem()\<close>\<close>

function lru_evict :: "int \<Rightarrow> ('k, 'v) lru_cache \<Rightarrow> exn + ('k, 'v) lru_cache" where
  "lru_evict sz c =
     (if lru_currsize c + sz > lru_maxsize c
      then case lru_popitem c of Inl e \<Rightarrow> Inl e | Inr (_, c') \<Rightarrow> lru_evict sz c'
      else Inr c)"
  by pat_completeness auto
termination
  by (relation "measure (\<lambda>(sz, c). length (lru_order c))") (auto dest: lru_popitem_shorter)

declare lru_evict.simps [simp del]

definition lru_setitem :: "('v \<Rightarrow> nat) \<Rightarrow> ('k, 'v) lru_cache \<Rightarrow> 'k \<Rightarrow> 'v \<Rightarrow> exn + ('k, 'v) lru_cache" where
  "lru_setitem getsizeof c key v =
     (let sz = getsizeof v in
      if int sz > lru_maxsize c then Inl ValueError
      else
        bindE (if lru_contains c key then bindE (size_get (lru_sizes c) key) (\<lambda>n. Inr (n < sz)) else Inr True)
          (\<lambda>make_room.
        bindE (if make_room then lru_evict (int sz) c else Inr c) (\<lambda>c.
        bindE (if lru_contains c key
               then bindE (size_get (lru_sizes c) key) (\<lambda>n. Inr (int sz - int n)) else Inr (int sz)) (\<lambda>diffsize.
        bindE (size_set (lru_sizes c) key sz) (\<lambda>sizes.
          Inr (lru_update key
                 (c\<lparr>lru_data := AList.update key v (lru_data c), lru_sizes := sizes,
                    lru_currsize := lru_currsize c + diffsize\<rparr>)))))))"

definition lru_get :: "('k, 'v) lru_cache \<Rightarrow> 'k \<Rightarrow> 'v option \<Rightarrow> exn + 'v option \<times> ('k, 'v) lru_cache" where
  "lru_get c key dflt =
     (if lru_contains c key then bindE (lru_getitem c key) (\<lambda>(v, c). Inr (Some v, c)) else Inr (dflt, c))"

definition lru_setdefault ::
  "('v \<Rightarrow> nat) \<Rightarrow> ('k, 'v) lru_cache \<Rightarrow> 'k \<Rightarrow> 'v \<Rightarrow> exn + 'v \<times> ('k, 'v) lru_cache" where
  "lru_setdefault getsizeof c key dflt =
     (if lru_contains c key then lru_getitem c key
      else bindE (lru_setitem getsizeof c key dflt) (\<lambda>c. Inr (dflt, c)))"

definition lru_len :: "('k, 'v) lru_cache \<Rightarrow> nat" where
  "lru_len c = length (lru_data c)"

definition lru_iter :: "('k, 'v) lru_cache \<Rightarrow> 'k list" where
  "lru_iter c = map fst (lru_data c)"

subsection \<open>Invariant and abstract value\<close>

text \<open>The order lists the keys once each, the sizes are those of the values, and their sum is the
  current size, which never exceeds the maximum.\<close>

definition lru_ok :: "('v \<Rightarrow> nat) \<Rightarrow> ('k, 'v) lru_cache \<Rightarrow> bool" where
  "lru_ok getsizeof c \<longleftrightarrow>
     distinct (map fst (lru_data c)) \<and> distinct (lru_order c) \<and> set (lru_order c) = fst ` set (lru_data c) \<and>
     (\<forall>(k, v) \<in> set (lru_data c). size_get (lru_sizes c) k = Inr (getsizeof v)) \<and>
     (lru_sizes c = None \<longrightarrow> (\<forall>v. getsizeof v = 1)) \<and>
     lru_currsize c = int (sum_list (map (getsizeof \<circ> snd) (lru_data c))) \<and> lru_currsize c \<le> lru_maxsize c"

definition lru_abs :: "('k, 'v) lru_cache \<Rightarrow> ('k \<times> 'v) list" where
  "lru_abs c = map (\<lambda>k. (k, the (map_of (lru_data c) k))) (lru_order c)"

definition total_size :: "('v \<Rightarrow> nat) \<Rightarrow> ('k \<times> 'v) list \<Rightarrow> nat" where
  "total_size getsizeof l = sum_list (map (getsizeof \<circ> snd) l)"

text \<open>The specification: drop the least recent pairs until there is room, then put the new one last.\<close>

fun make_room :: "('v \<Rightarrow> nat) \<Rightarrow> int \<Rightarrow> nat \<Rightarrow> ('k \<times> 'v) list \<Rightarrow> ('k \<times> 'v) list" where
  "make_room getsizeof maxsize sz [] = []"
| "make_room getsizeof maxsize sz (kv # l) =
     (if int (total_size getsizeof (kv # l)) + int sz > maxsize then make_room getsizeof maxsize sz l else kv # l)"

definition recent_get :: "'k \<Rightarrow> ('k \<times> 'v) list \<Rightarrow> ('v \<times> ('k \<times> 'v) list) option" where
  "recent_get key l = (case map_of l key of None \<Rightarrow> None | Some v \<Rightarrow> Some (v, filter (\<lambda>(k, _). k \<noteq> key) l @ [(key, v)]))"

definition recent_put :: "('v \<Rightarrow> nat) \<Rightarrow> int \<Rightarrow> 'k \<Rightarrow> 'v \<Rightarrow> ('k \<times> 'v) list \<Rightarrow> ('k \<times> 'v) list" where
  "recent_put getsizeof maxsize key v l =
     (let fits = (case map_of l key of None \<Rightarrow> False | Some old \<Rightarrow> getsizeof v \<le> getsizeof old);
          l = (if fits then l else make_room getsizeof maxsize (getsizeof v) l)
      in filter (\<lambda>(k, _). k \<noteq> key) l @ [(key, v)])"

subsection \<open>The operations implement the specification\<close>

lemma lru_okD:
  assumes "lru_ok getsizeof c"
  shows "distinct (map fst (lru_data c))" "distinct (lru_order c)" "set (lru_order c) = fst ` set (lru_data c)"
    "\<And>k v. (k, v) \<in> set (lru_data c) \<Longrightarrow> size_get (lru_sizes c) k = Inr (getsizeof v)"
    "\<And>v. lru_sizes c = None \<Longrightarrow> getsizeof v = 1"
    "lru_currsize c = int (total_size getsizeof (lru_data c))" "lru_currsize c \<le> lru_maxsize c"
  using assms unfolding lru_ok_def total_size_def by auto

lemma set_lru_abs: "lru_ok getsizeof c \<Longrightarrow> set (lru_abs c) = set (lru_data c)"
  using lru_okD(1,3) [of getsizeof c] unfolding lru_abs_def by force

lemma keys_lru_abs [simp]: "map fst (lru_abs c) = lru_order c"
  by (simp add: lru_abs_def comp_def)

lemma map_of_lru_abs:
  assumes "lru_ok getsizeof c"
  shows "map_of (lru_abs c) = map_of (lru_data c)"
  by (rule map_of_eqI) (use set_lru_abs [OF assms] lru_okD [OF assms] in \<open>auto simp: map_of_eq_Some_iff\<close>)

lemma total_size_lru_abs:
  assumes "lru_ok getsizeof c"
  shows "int (total_size getsizeof (lru_abs c)) = lru_currsize c"
proof -
  have "distinct (lru_abs c)" "distinct (lru_data c)"
    using lru_okD(1,2) [OF assms] by (auto simp: lru_abs_def distinct_map inj_on_def)
  then have "mset (lru_abs c) = mset (lru_data c)"
    using set_lru_abs [OF assms] by (simp add: set_eq_iff_mset_eq_distinct)
  then have "mset (map (getsizeof \<circ> snd) (lru_abs c)) = mset (map (getsizeof \<circ> snd) (lru_data c))" by simp
  then show ?thesis
    using lru_okD(6) [OF assms] by (simp add: total_size_def flip: sum_mset_sum_list)
qed

lemma lru_abs_update:
  assumes "map_of (lru_data c) key = Some v"
  shows "lru_abs (lru_update key c) = filter (\<lambda>(k, _). k \<noteq> key) (lru_abs c) @ [(key, v)]"
  using assms by (simp add: lru_abs_def lru_update_def removeAll_filter_not_eq filter_map comp_def neq_commute [of key])

lemma lru_ok_update:
  assumes "lru_ok getsizeof c" "map_of (lru_data c) key = Some v"
  shows "lru_ok getsizeof (lru_update key c)"
proof -
  have "key \<in> fst ` set (lru_data c)" using map_of_SomeD [OF assms(2)] by force
  then show ?thesis
    using assms(1) by (auto simp: lru_ok_def lru_update_def removeAll_filter_not_eq)
qed

lemma total_size_delete:
  "distinct (map fst d) \<Longrightarrow> map_of d key = Some v \<Longrightarrow>
   total_size f (AList.delete key d) + f v = total_size f d"
proof (induction d)
  case (Cons kv d)
  show ?case
  proof (cases "fst kv = key")
    case True
    then have "filter (\<lambda>(k', _). key \<noteq> k') d = d" using Cons.prems(1) True by (intro filter_True) (auto simp: rev_image_eqI)
    then show ?thesis using True Cons.prems by (cases kv) (simp add: total_size_def AList.delete_eq)
  next
    case False
    then show ?thesis using Cons by (cases kv) (auto simp: total_size_def AList.delete_eq split: if_splits)
  qed
qed simp

lemma lru_delitem_ok:
  assumes "lru_ok getsizeof c" "map_of (lru_data c) key = Some v"
  obtains c' where "lru_delitem c key = Inr c'" "lru_ok getsizeof c'" "lru_abs c' = filter (\<lambda>(k, _). k \<noteq> key) (lru_abs c)"
    "lru_maxsize c' = lru_maxsize c"
proof -
  note ok = lru_okD [OF assms(1)]
  have mem: "(key, v) \<in> set (lru_data c)" using assms(2) by (rule map_of_SomeD)
  then have "key \<in> set (lru_order c)" using ok(3) by force
  let ?c = "c\<lparr>lru_sizes := map_option (AList.delete key) (lru_sizes c), lru_data := AList.delete key (lru_data c),
    lru_currsize := lru_currsize c - int (getsizeof v), lru_order := removeAll key (lru_order c)\<rparr>"
  have eq: "lru_delitem c key = Inr ?c"
    using ok(4) [OF mem] assms(2) \<open>key \<in> set (lru_order c)\<close>
    by (simp add: lru_delitem_def lru_contains_def)
  have sizes: "size_get (map_option (AList.delete key) (lru_sizes c)) k = size_get (lru_sizes c) k" if "k \<noteq> key" for k
    using that by (cases "lru_sizes c") (simp_all add: size_get_def delete_conv')
  have "lru_ok getsizeof ?c"
    unfolding lru_ok_def
  proof (intro conjI)
    show "\<forall>(k, v)\<in>set (lru_data ?c). size_get (lru_sizes ?c) k = Inr (getsizeof v)"
      using ok(4) sizes by (auto simp: AList.delete_eq)
    show "lru_currsize ?c = int (sum_list (map (getsizeof \<circ> snd) (lru_data ?c)))"
      using total_size_delete [OF ok(1) assms(2), of getsizeof] ok(6) by (simp add: total_size_def)
    show "lru_currsize ?c \<le> lru_maxsize ?c" using ok(7) by simp
    show "set (lru_order ?c) = fst ` set (lru_data ?c)"
      using ok(3) by (simp add: set_map [symmetric] delete_keys del: set_map)
  qed (use ok in \<open>auto simp: distinct_delete removeAll_filter_not_eq\<close>)
  moreover have "lru_abs ?c = filter (\<lambda>(k, _). k \<noteq> key) (lru_abs c)"
    by (auto simp: lru_abs_def removeAll_filter_not_eq filter_map comp_def delete_conv' neq_commute [of key])
  ultimately show thesis using that eq by simp
qed

lemma lru_pop_ok:
  assumes "lru_ok getsizeof c" "map_of (lru_data c) key = Some v"
  obtains c' where "lru_pop c key dflt = Inr (v, c')" "lru_ok getsizeof c'"
    "lru_abs c' = filter (\<lambda>(k, _). k \<noteq> key) (lru_abs c)" "lru_maxsize c' = lru_maxsize c"
proof -
  have "map_of (lru_data (lru_update key c)) key = Some v" using assms(2) by (simp add: lru_update_def)
  from lru_delitem_ok [OF lru_ok_update [OF assms] this] obtain c' where
    "lru_delitem (lru_update key c) key = Inr c'" "lru_ok getsizeof c'"
    "lru_abs c' = filter (\<lambda>(k, _). k \<noteq> key) (lru_abs (lru_update key c))" "lru_maxsize c' = lru_maxsize c"
    by (auto simp: lru_update_def)
  then show thesis
    using that [of c'] assms(2) by (simp add: lru_pop_def lru_contains_def lru_getitem_def lru_abs_update)
qed

lemma lru_popitem_ok:
  assumes "lru_ok getsizeof c" "lru_abs c = kv # l"
  obtains c' where "lru_popitem c = Inr (kv, c')" "lru_ok getsizeof c'" "lru_abs c' = l" "lru_maxsize c' = lru_maxsize c"
proof -
  obtain k v where kv: "kv = (k, v)" by (cases kv)
  have order: "lru_order c = k # map fst l" using arg_cong [OF assms(2), of "map fst"] kv by simp
  have "map_of (lru_data c) k = Some v"
    unfolding map_of_lru_abs [OF assms(1), symmetric] by (simp add: assms(2) kv)
  then obtain c' where c': "lru_pop c k None = Inr (v, c')" "lru_ok getsizeof c'"
    "lru_abs c' = filter (\<lambda>(k', _). k' \<noteq> k) (lru_abs c)" "lru_maxsize c' = lru_maxsize c"
    using lru_pop_ok [OF assms(1)] by blast
  have "filter (\<lambda>(k', _). k' \<noteq> k) l = l"
    using lru_okD(2) [OF assms(1)] order by (intro filter_True) (auto simp: rev_image_eqI)
  then have "lru_abs c' = l" using c'(3) assms(2) kv by simp
  moreover have "lru_popitem c = Inr (kv, c')" using order c'(1) kv by (simp add: lru_popitem_def)
  ultimately show thesis using that c' by blast
qed

lemma lru_evict_ok:
  assumes "lru_ok getsizeof c" "int sz \<le> lru_maxsize c"
  shows "\<exists>c'. lru_evict (int sz) c = Inr c' \<and> lru_ok getsizeof c' \<and> lru_maxsize c' = lru_maxsize c \<and>
    lru_abs c' = make_room getsizeof (lru_maxsize c) sz (lru_abs c) \<and> lru_currsize c' + int sz \<le> lru_maxsize c"
  using assms
proof (induction "lru_abs c" arbitrary: c)
  case Nil
  then have "lru_currsize c = 0" using total_size_lru_abs [OF Nil.prems(1)] Nil.hyps by (simp add: total_size_def)
  then show ?case using Nil by (simp add: lru_evict.simps [of _ c])
next
  case (Cons kv l)
  note size = total_size_lru_abs [OF Cons.prems(1), unfolded Cons.hyps(2) [symmetric]]
  from lru_popitem_ok [OF Cons.prems(1) Cons.hyps(2) [symmetric]] obtain c' where
    c': "lru_popitem c = Inr (kv, c')" "lru_ok getsizeof c'" "lru_abs c' = l" "lru_maxsize c' = lru_maxsize c" by blast
  have step: "lru_evict (int sz) c = (if lru_currsize c + int sz > lru_maxsize c then lru_evict (int sz) c' else Inr c)"
    by (subst lru_evict.simps) (simp add: c'(1))
  have room: "make_room getsizeof (lru_maxsize c) sz (lru_abs c) =
      (if lru_currsize c + int sz > lru_maxsize c then make_room getsizeof (lru_maxsize c) sz l else lru_abs c)"
    by (simp add: Cons.hyps(2) [symmetric] flip: size)
  show ?case
  proof (cases "lru_currsize c + int sz > lru_maxsize c")
    case True
    then show ?thesis
      using Cons.hyps(1) [OF c'(3) [symmetric] c'(2)] Cons.prems(2) by (simp add: step room c')
  next
    case False
    then show ?thesis using Cons.prems by (simp add: step room)
  qed
qed

lemma total_size_update:
  "distinct (map fst d) \<Longrightarrow>
   total_size f (AList.update key v d) + (case map_of d key of None \<Rightarrow> 0 | Some w \<Rightarrow> f w) = total_size f d + f v"
proof (induction d)
  case (Cons kv d)
  then show ?case by (cases kv) (auto simp: total_size_def split: option.splits)
qed (simp add: total_size_def)

lemma lru_store_ok:
  assumes "lru_ok getsizeof c"
    "lru_currsize c + int (getsizeof v) \<le>
     lru_maxsize c + (case map_of (lru_data c) key of None \<Rightarrow> 0 | Some w \<Rightarrow> int (getsizeof w))"
  obtains c' where
    "bindE (if lru_contains c key
            then bindE (size_get (lru_sizes c) key) (\<lambda>n. Inr (int (getsizeof v) - int n)) else Inr (int (getsizeof v)))
       (\<lambda>diffsize. bindE (size_set (lru_sizes c) key (getsizeof v)) (\<lambda>sizes.
          Inr (lru_update key (c\<lparr>lru_data := AList.update key v (lru_data c), lru_sizes := sizes,
                 lru_currsize := lru_currsize c + diffsize\<rparr>)))) = Inr c'"
    "lru_ok getsizeof c'" "lru_abs c' = filter (\<lambda>(k, _). k \<noteq> key) (lru_abs c) @ [(key, v)]"
    "lru_maxsize c' = lru_maxsize c"
proof -
  note ok = lru_okD [OF assms(1)]
  define diff where "diff = int (getsizeof v) - (case map_of (lru_data c) key of None \<Rightarrow> 0 | Some w \<Rightarrow> int (getsizeof w))"
  have d: "(if lru_contains c key then bindE (size_get (lru_sizes c) key) (\<lambda>n. Inr (int (getsizeof v) - int n))
      else Inr (int (getsizeof v))) = (Inr diff :: exn + int)"
    using ok(4) by (auto simp: lru_contains_def diff_def split: option.splits dest!: map_of_SomeD)
  define sizes where "sizes = map_option (AList.update key (getsizeof v)) (lru_sizes c)"
  have s: "size_set (lru_sizes c) key (getsizeof v) = Inr sizes"
    using ok(5) by (auto simp: size_set_def sizes_def split: option.splits)
  have get: "size_get sizes k = (if k = key then Inr (getsizeof v) else size_get (lru_sizes c) k)" for k
    using ok(5) by (auto simp: size_get_def sizes_def split: option.splits)
  let ?c = "c\<lparr>lru_data := AList.update key v (lru_data c), lru_sizes := sizes, lru_currsize := lru_currsize c + diff,
    lru_order := removeAll key (lru_order c) @ [key]\<rparr>"
  have data: "(k, w) \<in> set (AList.update key v (lru_data c)) \<longleftrightarrow> (if k = key then w = v else (k, w) \<in> set (lru_data c))" for k w
    unfolding map_of_eq_Some_iff [OF distinct_update [OF ok(1)], symmetric] map_of_eq_Some_iff [OF ok(1), symmetric]
    by auto
  have "lru_ok getsizeof ?c"
    unfolding lru_ok_def
  proof (intro conjI)
    show "lru_currsize ?c = int (sum_list (map (getsizeof \<circ> snd) (lru_data ?c)))"
      using total_size_update [OF ok(1), of getsizeof key v] ok(6) unfolding diff_def total_size_def
      by (simp split: option.splits)
    show "lru_currsize ?c \<le> lru_maxsize ?c"
      using assms(2) by (simp add: diff_def split: option.splits)
    show "\<forall>(k, w)\<in>set (lru_data ?c). size_get (lru_sizes ?c) k = Inr (getsizeof w)"
      using ok(4) by (auto simp: data get)
    show "set (lru_order ?c) = fst ` set (lru_data ?c)"
      using ok(3) by (auto simp: set_map [symmetric] update_keys simp del: set_map)
    show "lru_sizes ?c = None \<longrightarrow> (\<forall>v. getsizeof v = 1)" using ok(5) by (simp add: sizes_def)
  qed (use ok in \<open>auto simp: distinct_update removeAll_filter_not_eq\<close>)
  moreover have "lru_abs ?c = filter (\<lambda>(k, _). k \<noteq> key) (lru_abs c) @ [(key, v)]"
    by (auto simp: lru_abs_def removeAll_filter_not_eq filter_map comp_def neq_commute [of key])
  ultimately show thesis using that [of ?c] by (simp add: d s lru_update_def)
qed

lemma lru_setitem_ok:
  assumes "lru_ok getsizeof c" "int (getsizeof v) \<le> lru_maxsize c"
  shows "\<exists>c'. lru_setitem getsizeof c key v = Inr c' \<and> lru_ok getsizeof c' \<and> lru_maxsize c' = lru_maxsize c \<and>
    lru_abs c' = recent_put getsizeof (lru_maxsize c) key v (lru_abs c)"
proof -
  define fits where "fits = (case map_of (lru_data c) key of None \<Rightarrow> False | Some old \<Rightarrow> getsizeof v \<le> getsizeof old)"
  have room: "(if lru_contains c key then bindE (size_get (lru_sizes c) key) (\<lambda>n. Inr (n < getsizeof v)) else Inr True) =
      (Inr (\<not> fits) :: exn + bool)"
    using lru_okD(4) [OF assms(1)]
    by (auto simp: lru_contains_def fits_def split: option.splits dest!: map_of_SomeD)
  obtain c1 where c1: "(if \<not> fits then lru_evict (int (getsizeof v)) c else Inr c) = Inr c1" "lru_ok getsizeof c1"
    "lru_maxsize c1 = lru_maxsize c"
    "lru_abs c1 = (if fits then lru_abs c else make_room getsizeof (lru_maxsize c) (getsizeof v) (lru_abs c))"
    "\<not> fits \<Longrightarrow> lru_currsize c1 + int (getsizeof v) \<le> lru_maxsize c"
    using lru_evict_ok [OF assms] assms(1) by (cases fits) auto
  have "lru_currsize c1 + int (getsizeof v) \<le>
      lru_maxsize c1 + (case map_of (lru_data c1) key of None \<Rightarrow> 0 | Some w \<Rightarrow> int (getsizeof w))"
    using c1 lru_okD(7) [OF c1(2)] by (cases fits) (auto simp: fits_def split: option.splits)
  from lru_store_ok [OF c1(2) this] obtain c' where c': "bindE (if lru_contains c1 key
            then bindE (size_get (lru_sizes c1) key) (\<lambda>n. Inr (int (getsizeof v) - int n)) else Inr (int (getsizeof v)))
       (\<lambda>diffsize. bindE (size_set (lru_sizes c1) key (getsizeof v)) (\<lambda>sizes.
          Inr (lru_update key (c1\<lparr>lru_data := AList.update key v (lru_data c1), lru_sizes := sizes,
                 lru_currsize := lru_currsize c1 + diffsize\<rparr>)))) = Inr c'"
    "lru_ok getsizeof c'" "lru_abs c' = filter (\<lambda>(k, _). k \<noteq> key) (lru_abs c1) @ [(key, v)]"
    "lru_maxsize c' = lru_maxsize c1" by blast
  have "lru_setitem getsizeof c key v = Inr c'"
    using assms(2) unfolding lru_setitem_def Let_def room bindE_simps c1(1) c'(1) by simp
  moreover have "lru_abs c' = recent_put getsizeof (lru_maxsize c) key v (lru_abs c)"
    using c'(3) c1(4) by (simp add: recent_put_def fits_def map_of_lru_abs [OF assms(1)])
  ultimately show ?thesis using c'(2,4) c1(3) by (intro exI [of _ c']) simp
qed

subsection \<open>Runs of calls\<close>

datatype ('k, 'v) lru_call =
    CGetItem 'k | CSetItem 'k 'v | CDelItem 'k | CPop 'k "'v option" | CPopItem | CGet 'k "'v option" | CSetDefault 'k 'v

datatype ('k, 'v) lru_result = Raised exn | Done | Value 'v | Item 'k 'v

definition lru_answer :: "('s \<Rightarrow> ('k, 'v) lru_result \<times> ('k, 'v) lru_cache) \<Rightarrow> ('k, 'v) lru_cache \<Rightarrow> exn + 's \<Rightarrow>
    ('k, 'v) lru_result \<times> ('k, 'v) lru_cache" where
  "lru_answer f c r = (case r of Inl e \<Rightarrow> (Raised e, c) | Inr s \<Rightarrow> f s)"

text \<open>One call on the cache: what the caller sees, and the cache after it.  A call that raises leaves the
  cache as it was.\<close>

fun lru_step :: "('v \<Rightarrow> nat) \<Rightarrow> ('k, 'v) lru_call \<Rightarrow> ('k, 'v) lru_cache \<Rightarrow> ('k, 'v) lru_result \<times> ('k, 'v) lru_cache" where
  "lru_step g (CGetItem k) c = lru_answer (\<lambda>(v, c). (Value v, c)) c (lru_getitem c k)"
| "lru_step g (CSetItem k v) c = lru_answer (\<lambda>c. (Done, c)) c (lru_setitem g c k v)"
| "lru_step g (CDelItem k) c = lru_answer (\<lambda>c. (Done, c)) c (lru_delitem c k)"
| "lru_step g (CPop k d) c = lru_answer (\<lambda>(v, c). (Value v, c)) c (lru_pop c k d)"
| "lru_step g CPopItem c = lru_answer (\<lambda>((k, v), c). (Item k v, c)) c (lru_popitem c)"
| "lru_step g (CGet k d) c = lru_answer (\<lambda>(v, c). (case v of None \<Rightarrow> Done | Some v \<Rightarrow> Value v, c)) c (lru_get c k d)"
| "lru_step g (CSetDefault k d) c = lru_answer (\<lambda>(v, c). (Value v, c)) c (lru_setdefault g c k d)"

text \<open>The same call on the pairs by recency.\<close>

fun recent_step :: "('v \<Rightarrow> nat) \<Rightarrow> int \<Rightarrow> ('k, 'v) lru_call \<Rightarrow> ('k \<times> 'v) list \<Rightarrow> ('k, 'v) lru_result \<times> ('k \<times> 'v) list" where
  "recent_step g m (CGetItem k) l = (case recent_get k l of None \<Rightarrow> (Raised KeyError, l) | Some (v, l) \<Rightarrow> (Value v, l))"
| "recent_step g m (CSetItem k v) l = (if int (g v) > m then (Raised ValueError, l) else (Done, recent_put g m k v l))"
| "recent_step g m (CDelItem k) l =
     (if map_of l k = None then (Raised KeyError, l) else (Done, filter (\<lambda>(k', _). k' \<noteq> k) l))"
| "recent_step g m (CPop k d) l =
     (case map_of l k of
        Some v \<Rightarrow> (Value v, filter (\<lambda>(k', _). k' \<noteq> k) l)
      | None \<Rightarrow> (case d of None \<Rightarrow> (Raised KeyError, l) | Some v \<Rightarrow> (Value v, l)))"
| "recent_step g m CPopItem l = (case l of [] \<Rightarrow> (Raised KeyError, []) | (k, v) # l \<Rightarrow> (Item k v, l))"
| "recent_step g m (CGet k d) l =
     (case recent_get k l of
        None \<Rightarrow> (case d of None \<Rightarrow> Done | Some v \<Rightarrow> Value v, l)
      | Some (v, l) \<Rightarrow> (Value v, l))"
| "recent_step g m (CSetDefault k d) l =
     (case recent_get k l of
        Some (v, l) \<Rightarrow> (Value v, l)
      | None \<Rightarrow> if int (g d) > m then (Raised ValueError, l) else (Value d, recent_put g m k d l))"

fun run :: "('c \<Rightarrow> 's \<Rightarrow> 'r \<times> 's) \<Rightarrow> 'c list \<Rightarrow> 's \<Rightarrow> 'r list \<times> 's" where
  "run step [] s = ([], s)"
| "run step (c # cs) s = (let (r, s) = step c s; (rs, s) = run step cs s in (r # rs, s))"

lemma lru_getitem_ok:
  assumes "lru_ok getsizeof c" "map_of (lru_data c) key = Some v"
  shows "lru_getitem c key = Inr (v, lru_update key c)" "lru_ok getsizeof (lru_update key c)"
    "recent_get key (lru_abs c) = Some (v, lru_abs (lru_update key c))" "lru_maxsize (lru_update key c) = lru_maxsize c"
  using assms
  by (simp_all add: lru_getitem_def lru_ok_update recent_get_def map_of_lru_abs lru_abs_update)
    (simp add: lru_update_def)

lemma lru_step_refines:
  assumes ok: "lru_ok g c"
  shows "\<exists>r c'. lru_step g call c = (r, c') \<and> lru_ok g c' \<and> lru_maxsize c' = lru_maxsize c \<and>
    recent_step g (lru_maxsize c) call (lru_abs c) = (r, lru_abs c')"
proof (cases "\<exists>key. (call = CGetItem key \<or> call = CDelItem key \<or> (\<exists>d. call = CPop key d) \<or> (\<exists>d. call = CGet key d) \<or>
     (\<exists>d. call = CSetDefault key d)) \<and> map_of (lru_data c) key \<noteq> None")
  case True
  then obtain key v where call: "call = CGetItem key \<or> call = CDelItem key \<or> (\<exists>d. call = CPop key d) \<or>
     (\<exists>d. call = CGet key d) \<or> (\<exists>d. call = CSetDefault key d)" and v: "map_of (lru_data c) key = Some v" by blast
  note get = lru_getitem_ok [OF ok v]
  from lru_delitem_ok [OF ok v] obtain c1 where c1: "lru_delitem c key = Inr c1" "lru_ok g c1"
    "lru_abs c1 = filter (\<lambda>(k, _). k \<noteq> key) (lru_abs c)" "lru_maxsize c1 = lru_maxsize c" by blast
  note of = map_of_lru_abs [OF ok]
  show ?thesis
    using call
  proof (elim disjE exE)
    fix d assume "call = CPop key d"
    then show ?thesis
      using lru_pop_ok [OF ok v, of d] v by (fastforce simp: lru_answer_def of)
  qed (use v get c1 in \<open>simp_all add: lru_answer_def lru_get_def lru_setdefault_def lru_contains_def of\<close>)
next
  case False
  then show ?thesis
  proof (cases call)
    case (CSetItem key v)
    then show ?thesis
      using ok lru_setitem_ok [OF ok, of v key] by (cases "int (g v) \<le> lru_maxsize c") (auto simp: lru_answer_def lru_setitem_def)
  next
    case (CSetDefault key v)
    then show ?thesis
      using False ok lru_setitem_ok [OF ok, of v key]
      by (cases "int (g v) \<le> lru_maxsize c")
        (auto simp: lru_answer_def lru_setdefault_def lru_setitem_def lru_contains_def recent_get_def map_of_lru_abs [OF ok])
  next
    case CPopItem
    show ?thesis
    proof (cases "lru_abs c")
      case Nil
      then have "lru_order c = []" using keys_lru_abs [of c] by simp
      then show ?thesis using CPopItem Nil ok by (simp add: lru_answer_def lru_popitem_def)
    next
      case (Cons kv l)
      then show ?thesis
        using CPopItem lru_popitem_ok [OF ok Cons] by (cases kv) (fastforce simp: lru_answer_def)
    qed
  qed (use ok in \<open>auto simp: lru_answer_def lru_getitem_def lru_delitem_def lru_pop_def lru_get_def lru_contains_def
      recent_get_def map_of_lru_abs size_get_def split: option.splits\<close>)
qed

lemma lru_run_maxsize:
  "lru_ok g c \<Longrightarrow> run (lru_step g) calls c = (rs, c') \<Longrightarrow> lru_maxsize c' = lru_maxsize c"
proof (induction calls arbitrary: c rs)
  case (Cons call calls)
  from lru_step_refines [OF Cons.prems(1), of call] obtain r c1 where c1: "lru_step g call c = (r, c1)" "lru_ok g c1"
    "lru_maxsize c1 = lru_maxsize c" by blast
  from Cons.prems(2) obtain rs' where "run (lru_step g) calls c1 = (rs', c')"
    by (auto simp: c1 Let_def split: prod.splits)
  from Cons.IH [OF c1(2) this] c1(3) show ?case by simp
qed simp

lemma lru_run_refines:
  "lru_ok g c \<Longrightarrow> \<exists>rs c'. run (lru_step g) calls c = (rs, c') \<and> lru_ok g c' \<and>
     run (recent_step g (lru_maxsize c)) calls (lru_abs c) = (rs, lru_abs c')"
proof (induction calls arbitrary: c)
  case (Cons call calls)
  from lru_step_refines [OF Cons.prems, of call] obtain r c1 where c1: "lru_step g call c = (r, c1)" "lru_ok g c1"
    "lru_maxsize c1 = lru_maxsize c" "recent_step g (lru_maxsize c) call (lru_abs c) = (r, lru_abs c1)" by blast
  from Cons.IH [OF c1(2)] show ?case by (auto simp: c1)
qed simp

lemma lru_ok_new: "0 \<le> m \<Longrightarrow> (dflt \<Longrightarrow> \<forall>v. g v = 1) \<Longrightarrow> lru_ok g (new_lru m dflt)"
  by (simp add: lru_ok_def new_lru_def size_get_def)

text \<open>C36: whatever calls a client makes on a new cache, it sees the answers of the list of pairs by recency,
  which evicts the least recently used pairs first and only when a new value needs the room; no call ever
  fails but for a missing key or a value larger than the cache; and after all of them the sizes of the
  values held add up to the recorded size, which is within the maximum.\<close>

theorem lru_cache_bounded_recency:
  assumes "0 \<le> m" "dflt \<Longrightarrow> \<forall>v. g v = 1" "run (lru_step g) calls (new_lru m dflt) = (rs, c)"
  shows "run (recent_step g m) calls [] = (rs, lru_abs c) \<and>
     lru_currsize c = int (total_size g (lru_abs c)) \<and> lru_currsize c \<le> m \<and> map_of (lru_data c) = map_of (lru_abs c) \<and>
     lru_len c = length (lru_abs c)"
proof -
  have ok: "lru_ok g (new_lru m dflt)" using assms(1,2) by (rule lru_ok_new)
  have m: "lru_maxsize (new_lru m dflt) = m" "lru_abs (new_lru m dflt) = []" by (simp_all add: new_lru_def lru_abs_def)
  from lru_run_refines [OF ok, of calls] assms(3) have c: "lru_ok g c" and *: "run (recent_step g m) calls [] = (rs, lru_abs c)"
    by (auto simp: m)
  have "lru_maxsize c = m" using lru_run_maxsize [OF ok assms(3)] m by simp
  moreover have "lru_len c = length (lru_abs c)"
    using distinct_card [OF lru_okD(2) [OF c]] distinct_card [OF lru_okD(1) [OF c]] lru_okD(3) [OF c]
    by (simp add: lru_len_def lru_abs_def)
  ultimately show ?thesis
    using * total_size_lru_abs [OF c] lru_okD(7) [OF c] map_of_lru_abs [OF c] by simp
qed

definition lru_sample :: "(nat, nat) lru_call list" where
  "lru_sample = [CSetItem 1 10, CSetItem 2 20, CGetItem 1, CSetItem 3 30, CGetItem 2]"

theorem lru_cache_bounded_recency_witness:
  "\<exists>c. run (lru_step (\<lambda>_. 1)) lru_sample (new_lru 2 True) = ([Done, Done, Value 10, Done, Raised KeyError], c) \<and>
     lru_abs c = [(1, 10), (3, 30)] \<and> lru_currsize c \<le> 2"
proof -
  obtain rs c where r: "run (lru_step (\<lambda>_. 1)) lru_sample (new_lru 2 True) = (rs, c)" by fastforce
  have "0 \<le> (2 :: int)" "\<forall>v :: nat. (\<lambda>_. 1) v = (1 :: nat)" by simp_all
  note p = lru_cache_bounded_recency [OF this(1) _ r] 
  have "run (recent_step (\<lambda>_. 1) 2) lru_sample [] =
      ([Done, Done, Value 10, Done, Raised KeyError], [(1, 10), (3, 30)])"
    by (simp add: lru_sample_def recent_put_def recent_get_def total_size_def)
  then show ?thesis using p r by simp
qed

end
