(* ===== verification/Notify.thy ===== *)
theory Notify
  imports Prelude
begin

section \<open>Deferred notifications (Notifications of server/controller.py)\<close>

text \<open>
  Touched hashXs come from two sources, blocks and mempool refreshes; the object holds each back until
  the other has caught up.  The record \<open>notifications\<close> is its state: two dictionaries from heights to
  sets of hashXs and the height of the last block.  Every operation runs to its call of \<open>notify\<close> without
  giving up control, so each is one step; the step gives the arguments of that call, if it is made.
\<close>

record notifications =
  touched_mp :: "(int \<times> bytes set) list"
  touched_bp :: "(int \<times> bytes set) list"
  highest_block :: int

definition new_notifications :: notifications where
  "new_notifications = \<lparr>touched_mp = [], touched_bp = [], highest_block = -1\<rparr>"

type_synonym notification = "int \<times> bytes set"

definition heights :: "(int \<times> bytes set) list \<Rightarrow> int set" where
  "heights d = fst ` set d"

definition notify_height :: "notifications \<Rightarrow> int option" where
  "notify_height n =
     (let common = heights (touched_mp n) \<inter> heights (touched_bp n) in
      if common \<noteq> {} then Some (Max common)
      else if touched_mp n \<noteq> [] \<and> Max (heights (touched_mp n)) = highest_block n then Some (highest_block n)
      else None)"

definition maybe_notify :: "notifications \<Rightarrow> notification option \<times> notifications" where
  "maybe_notify n =
     (case notify_height n of
        None \<Rightarrow> (None, n)
      | Some height \<Rightarrow>
          let touched = the (map_of (touched_mp n) height) \<union>
                        \<Union> (snd ` set (filter (\<lambda>(old, _). old \<le> height) (touched_bp n)))
          in (Some (height, touched),
              n\<lparr>touched_mp := filter (\<lambda>(old, _). \<not> old \<le> height) (touched_mp n),
                touched_bp := filter (\<lambda>(old, _). \<not> old \<le> height) (touched_bp n)\<rparr>))"

definition start_notifications :: "int \<Rightarrow> notifications \<Rightarrow> notification option \<times> notifications" where
  "start_notifications height n = (Some (height, {}), n\<lparr>highest_block := height\<rparr>)"

definition on_mempool :: "bytes set \<Rightarrow> int \<Rightarrow> notifications \<Rightarrow> notification option \<times> notifications" where
  "on_mempool touched height n = maybe_notify (n\<lparr>touched_mp := AList.update height touched (touched_mp n)\<rparr>)"

definition on_block :: "bytes set \<Rightarrow> int \<Rightarrow> notifications \<Rightarrow> notification option \<times> notifications" where
  "on_block touched height n =
     maybe_notify (n\<lparr>touched_bp := AList.update height touched (touched_bp n), highest_block := height\<rparr>)"

subsection \<open>What is delivered\<close>

datatype touch_event = MempoolEv "bytes set" int | BlockEv "bytes set" int

fun touch_step :: "touch_event \<Rightarrow> notifications \<Rightarrow> notification option \<times> notifications" where
  "touch_step (MempoolEv s h) n = on_mempool s h n"
| "touch_step (BlockEv s h) n = on_block s h n"

fun ev_height :: "touch_event \<Rightarrow> int" where
  "ev_height (MempoolEv s h) = h"
| "ev_height (BlockEv s h) = h"

text \<open>A run: the notifications sent, and the state at its end.  It is \<open>None\<close> when a block is reported
  at a height where an earlier report still waits, which would replace it.\<close>

fun touch_run :: "touch_event list \<Rightarrow> notifications \<Rightarrow> (notification list \<times> notifications) option" where
  "touch_run [] n = Some ([], n)"
| "touch_run (e # es) n =
     (if (\<exists>s h. e = BlockEv s h \<and> h \<in> heights (touched_bp n)) then None
      else let (out, n) = touch_step e n in
           map_option (\<lambda>(outs, n). (case out of None \<Rightarrow> outs | Some x \<Rightarrow> x # outs, n)) (touch_run es n))"

text \<open>No height waits on both sides, keys are distinct, and what waits was reported.\<close>

definition settled :: "notifications \<Rightarrow> bool" where
  "settled n \<longleftrightarrow> heights (touched_mp n) \<inter> heights (touched_bp n) = {} \<and>
     distinct (map fst (touched_mp n)) \<and> distinct (map fst (touched_bp n))"

lemma heights_update [simp]: "heights (AList.update h s d) = insert h (heights d)"
proof -
  have "dom (map_of (AList.update h s d)) = insert h (dom (map_of d))" by simp
  then show ?thesis unfolding dom_map_of_conv_image_fst heights_def by simp
qed

lemma heights_simps [simp]:
  "heights [] = {}" "heights ((h, s) # d) = insert h (heights d)" "finite (heights d)"
  "heights (filter (\<lambda>(old, _). h < old) d) = {k \<in> heights d. h < k}"
  "heights (filter (\<lambda>(old, _). \<not> old \<le> h) d) = {k \<in> heights d. h < k}"
  by (auto simp: heights_def image_iff not_le)

lemma maybe_notify_None: "maybe_notify n = (None, n') \<Longrightarrow> n' = n \<and> notify_height n = None"
  by (auto simp: maybe_notify_def Let_def split: option.splits)

lemma maybe_notify_settled:
  assumes "distinct (map fst (touched_mp n))" "distinct (map fst (touched_bp n))" "maybe_notify n = (out, n')"
  shows "settled n'"
proof (cases "notify_height n")
  case None
  then have "heights (touched_mp n) \<inter> heights (touched_bp n) = {}" by (auto simp: notify_height_def Let_def split: if_splits)
  then show ?thesis using None assms by (simp add: settled_def maybe_notify_def)
next
  case (Some height)
  let ?common = "heights (touched_mp n) \<inter> heights (touched_bp n)"
  have below: "k \<le> height" if "k \<in> ?common" for k
    using Some that Max_ge [of ?common k] by (auto simp: notify_height_def Let_def split: if_splits)
  have "heights (touched_mp n') \<inter> heights (touched_bp n') = {k \<in> ?common. height < k}"
    using assms(3) Some by (auto simp: maybe_notify_def Let_def)
  also have "\<dots> = {}" using below by force
  finally show ?thesis
    using assms Some by (auto simp: settled_def maybe_notify_def Let_def distinct_map_filter)
qed

lemma touch_step_settled:
  assumes "settled n" "touch_step e n = (out, n')"
  shows "settled n'"
proof (cases e)
  case (MempoolEv s h)
  then have "maybe_notify (n\<lparr>touched_mp := AList.update h s (touched_mp n)\<rparr>) = (out, n')"
    using assms(2) by (simp add: on_mempool_def)
  then show ?thesis by (rule maybe_notify_settled [rotated 2]) (use assms(1) in \<open>simp_all add: settled_def distinct_update\<close>)
next
  case (BlockEv s h)
  then have "maybe_notify (n\<lparr>touched_bp := AList.update h s (touched_bp n), highest_block := h\<rparr>) = (out, n')"
    using assms(2) by (simp add: on_block_def)
  then show ?thesis by (rule maybe_notify_settled [rotated 2]) (use assms(1) in \<open>simp_all add: settled_def distinct_update\<close>)
qed

lemma maybe_notify_keeps:
  assumes "maybe_notify n = (out, n')" "map_of (touched_bp n) k = Some s" "distinct (map fst (touched_bp n))"
  shows "(\<exists>h T. out = Some (h, T) \<and> s \<subseteq> T) \<or> map_of (touched_bp n') k = Some s"
proof (cases "notify_height n")
  case None
  then show ?thesis using assms by (simp add: maybe_notify_def)
next
  case (Some h)
  have m: "(k, s) \<in> set (touched_bp n)" using assms(2) by (rule map_of_SomeD)
  show ?thesis
  proof (cases "k \<le> h")
    case True
    then show ?thesis using assms(1) Some m by (fastforce simp: maybe_notify_def Let_def)
  next
    case False
    have "map_of (filter (\<lambda>(old, _). \<not> old \<le> h) (touched_bp n)) k = Some s"
      using False m assms(3) by (simp add: distinct_map_filter map_of_eq_Some_iff)
    then show ?thesis using assms(1) Some by (auto simp: maybe_notify_def Let_def)
  qed
qed

lemma touch_step_keeps:
  assumes "touch_step e n = (out, n')" "settled n" "\<And>s h. e = BlockEv s h \<Longrightarrow> h \<notin> heights (touched_bp n)"
    "e = BlockEv s k \<or> map_of (touched_bp n) k = Some s"
  shows "(\<exists>h T. out = Some (h, T) \<and> s \<subseteq> T) \<or> map_of (touched_bp n') k = Some s"
proof (cases e)
  case (MempoolEv s' h)
  then show ?thesis using assms(1,2,4)
    by (intro maybe_notify_keeps [where n = "n\<lparr>touched_mp := AList.update h s' (touched_mp n)\<rparr>"])
      (simp_all add: on_mempool_def settled_def)
next
  case (BlockEv s' h)
  have "map_of (touched_bp n) k = Some s \<Longrightarrow> k \<noteq> h"
    using assms(3) [OF BlockEv] by (auto simp: heights_def rev_image_eqI dest!: map_of_SomeD)
  then show ?thesis using assms(1,2,4) BlockEv
    by (intro maybe_notify_keeps [where n = "n\<lparr>touched_bp := AList.update h s' (touched_bp n), highest_block := h\<rparr>"])
      (auto simp: on_block_def settled_def distinct_update)
qed

lemma touch_step_heights:
  "touch_step e n = (out, n') \<Longrightarrow>
   heights (touched_mp n') \<union> heights (touched_bp n') \<subseteq> insert (ev_height e) (heights (touched_mp n) \<union> heights (touched_bp n))"
  by (cases e) (auto simp: on_mempool_def on_block_def maybe_notify_def Let_def split: option.splits)

lemma touch_run_Cons:
  assumes "touch_run (e # es) n = Some (outs, n')"
  obtains out n1 outs' where "touch_step e n = (out, n1)" "touch_run es n1 = Some (outs', n')"
    "outs = (case out of None \<Rightarrow> outs' | Some x \<Rightarrow> x # outs')" "\<And>s h. e = BlockEv s h \<Longrightarrow> h \<notin> heights (touched_bp n)"
  using assms by (cases "touch_step e n") (auto simp: Let_def split: if_splits)

lemma touch_run_settled: "touch_run es n = Some (outs, n') \<Longrightarrow> settled n \<Longrightarrow> settled n'"
proof (induction es arbitrary: n outs)
  case (Cons e es)
  from Cons.prems(1) show ?case by (rule touch_run_Cons) (use Cons touch_step_settled in blast)
qed simp

lemma touch_run_heights:
  "touch_run es n = Some (outs, n') \<Longrightarrow>
   heights (touched_mp n') \<union> heights (touched_bp n') \<subseteq> ev_height ` set es \<union> heights (touched_mp n) \<union> heights (touched_bp n)"
proof (induction es arbitrary: n outs)
  case (Cons e es)
  from Cons.prems show ?case
  proof (rule touch_run_Cons)
    fix out n1 outs' assume "touch_step e n = (out, n1)" "touch_run es n1 = Some (outs', n')"
    then show ?thesis using touch_step_heights [of e n out n1] Cons.IH [of n1 outs'] by auto
  qed
qed simp

lemma touch_run_keeps:
  "touch_run es n = Some (outs, n') \<Longrightarrow> settled n \<Longrightarrow> BlockEv s k \<in> set es \<or> map_of (touched_bp n) k = Some s \<Longrightarrow>
   (\<exists>(h, T) \<in> set outs. s \<subseteq> T) \<or> map_of (touched_bp n') k = Some s"
proof (induction es arbitrary: n outs)
  case (Cons e es)
  from Cons.prems(1) show ?case
  proof (rule touch_run_Cons)
    fix out n1 outs'
    assume step: "touch_step e n = (out, n1)" and run: "touch_run es n1 = Some (outs', n')"
      and outs: "outs = (case out of None \<Rightarrow> outs' | Some x \<Rightarrow> x # outs')"
      and fresh: "\<And>s h. e = BlockEv s h \<Longrightarrow> h \<notin> heights (touched_bp n)"
    have IH: "BlockEv s k \<in> set es \<or> map_of (touched_bp n1) k = Some s \<Longrightarrow> ?thesis"
      using Cons.IH [OF run touch_step_settled [OF Cons.prems(2) step]] outs by (cases out) auto
    show ?thesis
    proof (cases "BlockEv s k \<in> set es")
      case False
      then have "e = BlockEv s k \<or> map_of (touched_bp n) k = Some s" using Cons.prems(3) by auto
      with touch_step_keeps [OF step Cons.prems(2), of s k] fresh
      have "(\<exists>h T. out = Some (h, T) \<and> s \<subseteq> T) \<or> map_of (touched_bp n1) k = Some s" by blast
      then show ?thesis using IH outs by auto
    qed (use IH in blast)
  qed
qed simp

definition served :: "int \<Rightarrow> notifications" where
  "served height = snd (start_notifications height new_notifications)"

lemma served_simps [simp]:
  "touched_mp (served h) = []" "touched_bp (served h) = []" "highest_block (served h) = h" "settled (served h)"
  by (simp_all add: served_def start_notifications_def new_notifications_def settled_def)

lemma on_mempool_delivers:
  assumes "settled n" "highest_block n = h" "\<forall>k \<in> heights (touched_mp n) \<union> heights (touched_bp n). k \<le> h"
  shows "\<exists>n'. on_mempool t h n = (Some (h, t \<union> \<Union> (snd ` set (touched_bp n))), n') \<and>
    touched_mp n' = [] \<and> touched_bp n' = []"
proof -
  let ?n = "n\<lparr>touched_mp := AList.update h t (touched_mp n)\<rparr>"
  have "heights (touched_mp ?n) \<inter> heights (touched_bp ?n) = heights (touched_bp n) \<inter> {h}"
    using assms(1) by (auto simp: settled_def)
  moreover have "touched_mp ?n \<noteq> []" using distinct_update by (cases "touched_mp n") auto
  moreover have "Max (heights (touched_mp ?n)) = h"
    using assms(3) by (intro Max_eqI) auto
  ultimately have h: "notify_height ?n = Some h"
    using assms(2) by (cases "h \<in> heights (touched_bp n)") (simp_all add: notify_height_def del: heights_update)
  have all: "\<forall>p \<in> set (touched_mp ?n) \<union> set (touched_bp n). fst p \<le> h"
  proof
    fix p assume "p \<in> set (touched_mp ?n) \<union> set (touched_bp n)"
    then have "fst p \<in> heights (touched_mp ?n) \<union> heights (touched_bp n)" by (auto simp: heights_def)
    then show "fst p \<le> h" using assms(3) by auto
  qed
  have "filter (\<lambda>(old, _). old \<le> h) (touched_bp n) = touched_bp n" using all by (intro filter_True) force
  moreover have "filter (\<lambda>(old, _). \<not> old \<le> h) (touched_mp ?n) = []" "filter (\<lambda>(old, _). \<not> old \<le> h) (touched_bp n) = []"
    using all by (force simp: filter_empty_conv)+
  ultimately show ?thesis using h by (simp add: on_mempool_def maybe_notify_def)
qed

text \<open>From the moment clients are served, once a mempool refresh is reported at the height of the last
  block (and nothing was reported above it), clients are notified at that height of what the refresh touched
  and of exactly everything blocks touched that was waiting; nothing waits any more, and every set of
  hashXs a block touched has been delivered whole, now or in an earlier notification.  The runs are
  those in which no block replaces a report still waiting at its own height: \<open>on_block\<close> overwrites such a report,
  and what it named is then not delivered.\<close>

theorem touched_delivered:
  assumes "touch_run events (served h0) = Some (outs, n)" "\<forall>e \<in> set events. ev_height e \<le> highest_block n"
  shows "\<exists>T n'. on_mempool t (highest_block n) n = (Some (highest_block n, T), n') \<and>
    T = t \<union> \<Union> (snd ` set (touched_bp n)) \<and> touched_mp n' = [] \<and> touched_bp n' = [] \<and>
    (\<forall>s k. BlockEv s k \<in> set events \<longrightarrow> s \<subseteq> T \<or> (\<exists>(h, T') \<in> set outs. s \<subseteq> T'))"
proof -
  let ?T = "t \<union> \<Union> (snd ` set (touched_bp n))"
  have "settled n" using touch_run_settled [OF assms(1)] by simp
  moreover have "\<forall>k \<in> heights (touched_mp n) \<union> heights (touched_bp n). k \<le> highest_block n"
    using touch_run_heights [OF assms(1)] assms(2) by auto
  ultimately obtain n' where "on_mempool t (highest_block n) n = (Some (highest_block n, ?T), n')"
    "touched_mp n' = []" "touched_bp n' = []"
    using on_mempool_delivers [of n "highest_block n" t] by auto
  moreover have "s \<subseteq> ?T \<or> (\<exists>(h, T') \<in> set outs. s \<subseteq> T')" if "BlockEv s k \<in> set events" for s k
    using touch_run_keeps [OF assms(1) _ disjI1 [OF that]] by (force dest!: map_of_SomeD)
  ultimately show ?thesis by blast
qed

definition touch_sample :: "touch_event list" where
  "touch_sample = [BlockEv {[1]} 6, MempoolEv {[2]} 6, BlockEv {[3]} 7, MempoolEv {[4]} 6]"

theorem touched_delivered_witness:
  "\<exists>n n'. touch_run touch_sample (served 5) = Some ([(6, {[1], [2]})], n) \<and>
     on_mempool {[5]} 7 n = (Some (7, {[5], [3]}), n')"
proof -
  have "heights [(6, {[4 :: byte]})] = {6}" by simp
  obtain n where n: "touch_run touch_sample (served 5) = Some ([(6, {[1], [2]})], n)"
    "highest_block n = 7" "touched_bp n = [(7, {[3]})]"
    by (simp add: touch_sample_def on_mempool_def on_block_def maybe_notify_def notify_height_def Let_def insert_commute)
  have "\<forall>e \<in> set touch_sample. ev_height e \<le> highest_block n" by (simp add: touch_sample_def n)
  from touched_delivered [OF n(1) this, of "{[5]}"] show ?thesis using n by (auto simp: insert_commute)
qed

end
