(* ===== verification/Mempool.thy ===== *)
theory Mempool
  imports Transactions Hashes
begin

section \<open>The mempool (server/mempool.py)\<close>

text \<open>
  The record \<open>mempool\<close> holds the two maps of \<open>MemPool\<close>: \<open>mp_txs\<close> from transaction hashes to
  \<open>MemPoolTx\<close> objects, in the order of the dictionary, and \<open>mp_hashXs\<close> from each hashX to the hashes of
  the transactions touching it.  A refresh threads the set \<open>touched\<close> and the mempool (\<open>refresh\<close>), and
  gives them back also when it raises, because the object keeps what was done before the exception.
  The daemon's and the database's answers during a refresh are the record \<open>mempool_api\<close>, which also
  says in which order Python iterates over a set (\<open>listing\<close>) and in which order the tasks fetching
  transactions complete (\<open>schedule\<close>): the theorems hold for every such order.

  Two things are left out.  When \<open>_process_mempool\<close> raises after it spawned the tasks that fetch transactions, those that
  have not ended run on in the source and still accept transactions; here a refresh is over when it raises.  And
  \<open>remove_tx\<close> gives back the state it was called in when it raises, where the source has popped the transaction;
  on a consistent pool it does not raise (lemma \<open>remove_tx_ok\<close>).
\<close>

type_synonym prevout = "bytes \<times> nat"
type_synonym pair = "bytes \<times> int"

record mempool_tx =
  mt_prevouts :: "prevout list"
  mt_in_pairs :: "pair list option"
  mt_out_pairs :: "pair list"
  mt_fee :: int
  mt_size :: nat

record mempool =
  mp_txs :: "(bytes \<times> mempool_tx) list"
  mp_hashXs :: "bytes \<Rightarrow> bytes set option"

record refresh =
  rf_touched :: "bytes set"
  rf_pool :: mempool

record mempool_api =
  raw_transactions :: "string list \<Rightarrow> exn + bytes option list"
  api_lookup_utxos :: "prevout list \<Rightarrow> exn + pair option list"
  read_tx_and_vsize :: "bytes \<Rightarrow> exn + tx \<times> nat"
  to_hashX :: "bytes \<Rightarrow> bytes"
  listing :: "bytes set \<Rightarrow> bytes list"
  schedule :: "bytes list list \<Rightarrow> bytes list list"

definition new_mempool :: mempool where
  "new_mempool = \<lparr>mp_txs = [], mp_hashXs = (\<lambda>_. None)\<rparr>"

subsection \<open>Accepting transactions\<close>

definition resolve :: "(bytes \<times> mempool_tx) list \<Rightarrow> (prevout \<times> pair option) list \<Rightarrow> prevout \<Rightarrow> exn + pair" where
  "resolve txs utxo_map prevout =
     (case map_of utxo_map prevout of
        Some (Some utxo) \<Rightarrow> Inr utxo
      | _ \<Rightarrow> (case map_of txs (fst prevout) of
                None \<Rightarrow> Inl KeyError
              | Some t \<Rightarrow> if snd prevout < length (mt_out_pairs t) then Inr (mt_out_pairs t ! snd prevout)
                         else Inl IndexError))"

definition add_hashX :: "bytes \<Rightarrow> bytes \<Rightarrow> (bytes \<Rightarrow> bytes set option) \<Rightarrow> bytes \<Rightarrow> bytes set option" where
  "add_hashX hash hashX m = m(hashX \<mapsto> insert hash (case m hashX of None \<Rightarrow> {} | Some s \<Rightarrow> s))"

definition accepted :: "mempool_tx \<Rightarrow> pair list \<Rightarrow> mempool_tx" where
  "accepted t in_pairs = t\<lparr>mt_in_pairs := Some in_pairs,
     mt_fee := max 0 (sum_list (map snd in_pairs) - sum_list (map snd (mt_out_pairs t)))\<rparr>"

definition add_tx :: "bytes \<Rightarrow> mempool_tx \<Rightarrow> pair list \<Rightarrow> refresh \<Rightarrow> refresh" where
  "add_tx hash t in_pairs s =
     (let hashXs = map fst (in_pairs @ mt_out_pairs t) in
      \<lparr>rf_touched = rf_touched s \<union> set hashXs,
       rf_pool = \<lparr>mp_txs = AList.update hash (accepted t in_pairs) (mp_txs (rf_pool s)),
                  mp_hashXs = fold (add_hashX hash) hashXs (mp_hashXs (rf_pool s))\<rparr>\<rparr>)"

type_synonym tx_map = "(bytes \<times> mempool_tx) list"
type_synonym utxo_map = "(prevout \<times> pair option) list"

text \<open>The loop of \<open>_accept_transactions\<close>: a transaction with an unknown input is deferred.\<close>

fun accept_loop ::
  "utxo_map \<Rightarrow> tx_map \<Rightarrow> tx_map \<Rightarrow> utxo_map \<Rightarrow> refresh \<Rightarrow> (exn + tx_map \<times> utxo_map) \<times> refresh" where
  "accept_loop utxo_map [] deferred unspent s = (Inr (deferred, unspent), s)"
| "accept_loop utxo_map ((hash, t) # rest) deferred unspent s =
     (case mapE (resolve (mp_txs (rf_pool s)) utxo_map) (mt_prevouts t) of
        Inl e \<Rightarrow> if e = KeyError then accept_loop utxo_map rest (AList.update hash t deferred) unspent s else (Inl e, s)
      | Inr in_pairs \<Rightarrow>
          accept_loop utxo_map rest deferred (filter (\<lambda>(p, _). p \<notin> set (mt_prevouts t)) unspent)
            (add_tx hash t in_pairs s))"

definition accept_transactions :: "tx_map \<Rightarrow> utxo_map \<Rightarrow> refresh \<Rightarrow> (exn + tx_map \<times> utxo_map) \<times> refresh" where
  "accept_transactions tx_map utxo_map s = accept_loop utxo_map tx_map [] utxo_map s"

subsection \<open>Fetching\<close>

definition mempool_tx_of :: "mempool_api \<Rightarrow> tx \<Rightarrow> nat \<Rightarrow> mempool_tx" where
  "mempool_tx_of A t tx_size =
     \<lparr>mt_prevouts = map (\<lambda>i. (prev_hash i, prev_idx i)) (filter (\<lambda>i. \<not> is_generation i) (tx_inputs t)),
      mt_in_pairs = None,
      mt_out_pairs = map (\<lambda>txout. (to_hashX A (pk_script txout), out_value txout)) (tx_outputs t),
      mt_fee = 0, mt_size = tx_size\<rparr>"

fun deserialize_txs :: "mempool_api \<Rightarrow> (bytes \<times> bytes option) list \<Rightarrow> tx_map \<Rightarrow> exn + tx_map" where
  "deserialize_txs A [] txs = Inr txs"
| "deserialize_txs A ((hash, raw_tx) # rest) txs =
     (case raw_tx of
        Some (b # bs) \<Rightarrow>
          (case read_tx_and_vsize A (b # bs) of
             Inr (t, tx_size) \<Rightarrow> deserialize_txs A rest (AList.update hash (mempool_tx_of A t tx_size) txs)
           | Inl e \<Rightarrow> if e = SkipTxDeserialize then deserialize_txs A rest txs else Inl e)
      | _ \<Rightarrow> deserialize_txs A rest txs)"

definition dict_of :: "('k \<times> 'v) list \<Rightarrow> ('k \<times> 'v) list" where
  "dict_of ps = fold (\<lambda>(k, v). AList.update k v) ps []"

definition fetch ::
  "mempool_api \<Rightarrow> bytes list \<Rightarrow> bytes set \<Rightarrow> exn + tx_map \<times> utxo_map" where
  "fetch A hashes all_hashes =
     bindE (raw_transactions A (map hash_to_hex_str hashes)) (\<lambda>raws.
     bindE (deserialize_txs A (zip hashes raws) []) (\<lambda>tx_map.
       let prevouts = concat (map (\<lambda>(_, t). filter (\<lambda>p. fst p \<notin> all_hashes) (mt_prevouts t)) tx_map) in
     bindE (api_lookup_utxos A prevouts) (\<lambda>utxos.
       Inr (tx_map, dict_of (zip prevouts utxos)))))"

definition fetch_and_accept ::
  "mempool_api \<Rightarrow> bytes list \<Rightarrow> bytes set \<Rightarrow> refresh \<Rightarrow> (exn + tx_map \<times> utxo_map) \<times> refresh" where
  "fetch_and_accept A hashes all_hashes s =
     (case fetch A hashes all_hashes of
        Inl e \<Rightarrow> (Inl e, s)
      | Inr (tx_map, utxo_map) \<Rightarrow> accept_transactions tx_map utxo_map s)"

subsection \<open>A refresh\<close>

definition remove_hashX :: "bytes \<Rightarrow> bytes \<Rightarrow> (bytes \<Rightarrow> bytes set option) \<Rightarrow> exn + (bytes \<Rightarrow> bytes set option)" where
  "remove_hashX hash hashX m =
     (case m hashX of
        None \<Rightarrow> Inl KeyError
      | Some s \<Rightarrow> if hash \<notin> s then Inl KeyError
                  else Inr (m(hashX := (if s - {hash} = {} then None else Some (s - {hash})))))"

definition tx_hashXs :: "mempool_tx \<Rightarrow> bytes list" where
  "tx_hashXs t = remdups (map fst (the (mt_in_pairs t) @ mt_out_pairs t))"

definition remove_tx :: "bytes \<Rightarrow> refresh \<Rightarrow> exn + refresh" where
  "remove_tx hash s =
     (case map_of (mp_txs (rf_pool s)) hash of
        None \<Rightarrow> Inl KeyError
      | Some t \<Rightarrow>
          if mt_in_pairs t = None then Inl TypeError
          else bindE (foldE (remove_hashX hash) (tx_hashXs t) (mp_hashXs (rf_pool s))) (\<lambda>m.
            Inr \<lparr>rf_touched = rf_touched s \<union> set (tx_hashXs t),
                 rf_pool = \<lparr>mp_txs = AList.delete hash (mp_txs (rf_pool s)), mp_hashXs = m\<rparr>\<rparr>))"

fun remove_txs :: "bytes list \<Rightarrow> refresh \<Rightarrow> exn option \<times> refresh" where
  "remove_txs [] s = (None, s)"
| "remove_txs (hash # rest) s =
     (case remove_tx hash s of Inl e \<Rightarrow> (Some e, s) | Inr s \<Rightarrow> remove_txs rest s)"

text \<open>The tasks, in the order they complete: what they return is merged into two dictionaries.\<close>

fun run_tasks ::
  "mempool_api \<Rightarrow> bytes set \<Rightarrow> bytes list list \<Rightarrow> tx_map \<Rightarrow> utxo_map \<Rightarrow> refresh \<Rightarrow> (exn + tx_map \<times> utxo_map) \<times> refresh" where
  "run_tasks A all_hashes [] tx_map utxo_map s = (Inr (tx_map, utxo_map), s)"
| "run_tasks A all_hashes (hashes # rest) tx_map utxo_map s =
     (case fetch_and_accept A hashes all_hashes s of
        (Inl e, s) \<Rightarrow> (Inl e, s)
      | (Inr (deferred, unspent), s) \<Rightarrow>
          run_tasks A all_hashes rest (fold (\<lambda>(k, v). AList.update k v) deferred tx_map)
            (fold (\<lambda>(k, v). AList.update k v) unspent utxo_map) s)"

lemma length_update: "length (AList.update k v d) \<le> Suc (length d)"
  by (induction d) auto

lemma accept_loop_length:
  "accept_loop utxo_map tx_map deferred unspent s = (Inr (deferred', unspent'), s') \<Longrightarrow>
   length deferred' \<le> length deferred + length tx_map"
proof (induction utxo_map tx_map deferred unspent s rule: accept_loop.induct)
  case (2 utxo_map hash t rest deferred unspent s)
  show ?case
    using 2 length_update [of hash t deferred]
    by (fastforce split: sum.splits if_splits)
qed simp

text \<open>\<open>while tx_map and len(tx_map) != prior_count\<close>\<close>

function retry_loop :: "nat \<Rightarrow> tx_map \<Rightarrow> utxo_map \<Rightarrow> refresh \<Rightarrow> (exn + tx_map \<times> utxo_map) \<times> refresh" where
  "retry_loop prior_count tx_map utxo_map s =
     (if tx_map \<noteq> [] \<and> length tx_map \<noteq> prior_count
      then case accept_transactions tx_map utxo_map s of
             (Inl e, s') \<Rightarrow> (Inl e, s')
           | (Inr (tx_map', utxo_map'), s') \<Rightarrow> retry_loop (length tx_map) tx_map' utxo_map' s'
      else (Inr (tx_map, utxo_map), s))"
  by pat_completeness auto
termination
  by (relation "measure (\<lambda>(prior, tx_map, _). length tx_map + (if length tx_map = prior then 0 else 1))")
    (auto simp: accept_transactions_def dest!: sym [of "(Inr _, _)"] accept_loop_length)

declare retry_loop.simps [simp del]

text \<open>\<open>db_height\<close> is the database's height at the start, \<open>db_height'\<close> once the tasks were spawned.\<close>

definition process_mempool ::
  "mempool_api \<Rightarrow> int \<Rightarrow> int \<Rightarrow> bytes set \<Rightarrow> int \<Rightarrow> refresh \<Rightarrow> exn option \<times> refresh" where
  "process_mempool A db_height db_height' all_hashes mempool_height s =
     (if mempool_height \<noteq> db_height then (Some DBSyncError, s)
      else
        case remove_txs (listing A (set (map fst (mp_txs (rf_pool s))) - all_hashes)) s of
          (Some e, s) \<Rightarrow> (Some e, s)
        | (None, s) \<Rightarrow>
            let new_hashes = listing A (all_hashes - set (map fst (mp_txs (rf_pool s)))) in
            if new_hashes = [] then (None, s)
            else if mempool_height \<noteq> db_height' then (Some DBSyncError, s)
            else
              case run_tasks A all_hashes (schedule A (chunks new_hashes 200)) [] [] s of
                (Inl e, s) \<Rightarrow> (Some e, s)
              | (Inr (tx_map, utxo_map), s) \<Rightarrow>
                  (case retry_loop 0 tx_map utxo_map s of
                     (Inl e, s) \<Rightarrow> (Some e, s)
                   | (Inr _, s) \<Rightarrow> (None, s)))"

subsection \<open>Queries\<close>

definition touching :: "mempool_api \<Rightarrow> mempool \<Rightarrow> bytes \<Rightarrow> bytes list" where
  "touching A m hashX = (case mp_hashXs m hashX of None \<Rightarrow> [] | Some s \<Rightarrow> listing A s)"

definition get_tx :: "mempool \<Rightarrow> bytes \<Rightarrow> exn + mempool_tx" where
  "get_tx m hash = (case map_of (mp_txs m) hash of None \<Rightarrow> Inl KeyError | Some t \<Rightarrow> Inr t)"

definition paid_to :: "bytes \<Rightarrow> pair list \<Rightarrow> int" where
  "paid_to hashX pairs = sum_list (map snd (filter (\<lambda>(hX, _). hX = hashX) pairs))"

definition balance_delta :: "mempool_api \<Rightarrow> mempool \<Rightarrow> bytes \<Rightarrow> exn + int" where
  "balance_delta A m hashX =
     foldE (\<lambda>hash value. bindE (get_tx m hash) (\<lambda>t.
       case mt_in_pairs t of
         None \<Rightarrow> Inl TypeError
       | Some ins \<Rightarrow> Inr (value - paid_to hashX ins + paid_to hashX (mt_out_pairs t)))) (touching A m hashX) 0"

definition potential_spends :: "mempool_api \<Rightarrow> mempool \<Rightarrow> bytes \<Rightarrow> exn + prevout set" where
  "potential_spends A m hashX =
     foldE (\<lambda>hash result. bindE (get_tx m hash) (\<lambda>t. Inr (result \<union> set (mt_prevouts t)))) (touching A m hashX) {}"

definition transaction_summaries :: "mempool_api \<Rightarrow> mempool \<Rightarrow> bytes \<Rightarrow> exn + (bytes \<times> int \<times> bool) list" where
  "transaction_summaries A m hashX =
     mapE (\<lambda>hash. bindE (get_tx m hash) (\<lambda>t.
       Inr (hash, mt_fee t, list_ex (\<lambda>(prev, _). map_of (mp_txs m) prev \<noteq> None) (mt_prevouts t)))) (touching A m hashX)"

text \<open>A \<open>UTXO\<close> tuple: number, position, transaction hash, height and value.\<close>

definition unordered_UTXOs :: "mempool_api \<Rightarrow> mempool \<Rightarrow> bytes \<Rightarrow> exn + (int \<times> nat \<times> bytes \<times> int \<times> int) list" where
  "unordered_UTXOs A m hashX =
     bindE (mapE (\<lambda>hash.
       case map_of (mp_txs m) hash of
         None \<Rightarrow> Inl AttributeError
       | Some t \<Rightarrow> Inr (map (\<lambda>(pos, _, value). (-1, pos, hash, 0, value))
           (filter (\<lambda>(_, hX, _). hX = hashX) (enumerate 0 (mt_out_pairs t))))) (touching A m hashX))
       (\<lambda>utxos. Inr (concat utxos))"

end
