(* ===== verification/MempoolSync.thy ===== *)
theory MempoolSync
  imports Mempool "HOL-Library.Multiset"
begin

section \<open>The mempool's index is exact\<close>

text \<open>
  \<open>mp_ok\<close> is what every query relies on: each accepted transaction has one input pair per previous output
  and the fee these give, and the index lists under each hashX exactly the transactions touching it.
  \<open>grown K s s'\<close> says of a part of a refresh that it only accepted transactions, with hashes in \<open>K\<close>,
  and told exactly the hashXs of these.
\<close>

definition pool_tx_ok :: "mempool_tx \<Rightarrow> bool" where
  "pool_tx_ok t \<longleftrightarrow> (\<exists>ins. mt_in_pairs t = Some ins \<and> length ins = length (mt_prevouts t) \<and>
     mt_fee t = max 0 (sum_list (map snd ins) - sum_list (map snd (mt_out_pairs t))))"

definition opt_set :: "'a set \<Rightarrow> 'a set option" where
  "opt_set S = (if S = {} then None else Some S)"

definition index_of :: "tx_map \<Rightarrow> bytes \<Rightarrow> bytes set" where
  "index_of txs hashX = {h. \<exists>t. map_of txs h = Some t \<and> hashX \<in> set (tx_hashXs t)}"

definition mp_ok :: "mempool \<Rightarrow> bool" where
  "mp_ok m \<longleftrightarrow> distinct (map fst (mp_txs m)) \<and> (\<forall>h t. map_of (mp_txs m) h = Some t \<longrightarrow> pool_tx_ok t) \<and>
     mp_hashXs m = (\<lambda>hashX. opt_set (index_of (mp_txs m) hashX))"

abbreviation txs_of :: "refresh \<Rightarrow> bytes \<Rightarrow> mempool_tx option" where
  "txs_of s \<equiv> map_of (mp_txs (rf_pool s))"

definition hashXs_of :: "mempool_tx set \<Rightarrow> bytes set" where
  "hashXs_of T = (\<Union>t \<in> T. set (tx_hashXs t))"

lemma hashXs_of_Un [simp]: "hashXs_of (S \<union> T) = hashXs_of S \<union> hashXs_of T" "hashXs_of {} = {}"
  "hashXs_of (insert t T) = set (tx_hashXs t) \<union> hashXs_of T"
  by (auto simp: hashXs_of_def)

lemma opt_set_simps [simp]:
  "opt_set {} = None" "opt_set (insert x S) = Some (insert x S)" "opt_set S = Some T \<longleftrightarrow> S = T \<and> T \<noteq> {}" "opt_set S = None \<longleftrightarrow> S = {}"
  "(case opt_set S of None \<Rightarrow> {} | Some s \<Rightarrow> s) = S"
  by (auto simp: opt_set_def)

definition new_txs :: "refresh \<Rightarrow> refresh \<Rightarrow> mempool_tx set" where
  "new_txs s s' = {t. \<exists>h. txs_of s h = None \<and> txs_of s' h = Some t}"

definition grown :: "bytes set \<Rightarrow> refresh \<Rightarrow> refresh \<Rightarrow> bool" where
  "grown K s s' \<longleftrightarrow> mp_ok (rf_pool s') \<and> txs_of s \<subseteq>\<^sub>m txs_of s' \<and> dom (txs_of s') \<subseteq> dom (txs_of s) \<union> K \<and>
     rf_touched s' = rf_touched s \<union> hashXs_of (new_txs s s')"

lemma new_txs_refl [simp]: "new_txs s s = {}"
  by (auto simp: new_txs_def)

lemma grown_refl: "mp_ok (rf_pool s) \<Longrightarrow> grown K s s"
  by (simp add: grown_def)

lemma grown_trans:
  assumes "grown K s s1" "grown K' s1 s2"
  shows "grown (K \<union> K') s s2"
proof -
  have "new_txs s s2 = new_txs s s1 \<union> new_txs s1 s2"
  proof (intro set_eqI iffI)
    fix t assume "t \<in> new_txs s s2"
    then obtain h where h: "txs_of s h = None" "txs_of s2 h = Some t" by (auto simp: new_txs_def)
    show "t \<in> new_txs s s1 \<union> new_txs s1 s2"
    proof (cases "txs_of s1 h")
      case (Some t')
      then have "txs_of s2 h = Some t'" using assms(2) by (auto simp: grown_def map_le_def dom_def)
      then show ?thesis using h Some by (auto simp: new_txs_def)
    qed (use h in \<open>auto simp: new_txs_def\<close>)
  next
    have le: "txs_of s h = None" if "txs_of s1 h = None" for h
      using that assms(1) by (cases "txs_of s h") (auto simp: grown_def map_le_def dom_def)
    have le': "txs_of s2 h = Some t" if "txs_of s1 h = Some t" for h t
      using that assms(2) by (auto simp: grown_def map_le_def dom_def)
    fix t assume "t \<in> new_txs s s1 \<union> new_txs s1 s2"
    then show "t \<in> new_txs s s2" using le le' unfolding new_txs_def by blast
  qed
  moreover have "dom (txs_of s2) \<subseteq> dom (txs_of s) \<union> (K \<union> K')" using assms unfolding grown_def by blast
  moreover have "txs_of s \<subseteq>\<^sub>m txs_of s2" using assms unfolding grown_def by (blast intro: map_le_trans)
  ultimately show ?thesis using assms by (simp add: grown_def Un_assoc)
qed

lemma grown_mono: "grown K s s' \<Longrightarrow> K \<subseteq> K' \<Longrightarrow> grown K' s s'"
  by (auto simp: grown_def)

subsection \<open>Adding and removing one transaction\<close>

lemma fold_add_hashX:
  "fold (add_hashX h) hs m hX =
     (if hX \<in> set hs then Some (insert h (case m hX of None \<Rightarrow> {} | Some s \<Rightarrow> s)) else m hX)"
  by (induction hs arbitrary: m) (auto simp: add_hashX_def split: option.splits)

lemma foldE_remove_hashX:
  "distinct hs \<Longrightarrow> (\<And>hX. hX \<in> set hs \<Longrightarrow> \<exists>s. m hX = Some s \<and> h \<in> s) \<Longrightarrow>
   foldE (remove_hashX h) hs m = Inr (\<lambda>hX. if hX \<in> set hs then opt_set (the (m hX) - {h}) else m hX)"
proof (induction hs arbitrary: m)
  case (Cons hX hs)
  obtain s where s: "m hX = Some s" "h \<in> s" using Cons.prems(2) [of hX] by auto
  then have "remove_hashX h hX m = Inr (m(hX := opt_set (s - {h})))" by (simp add: remove_hashX_def opt_set_def)
  moreover have "foldE (remove_hashX h) hs (m(hX := opt_set (s - {h}))) =
      Inr (\<lambda>k. if k \<in> set hs then opt_set (the ((m(hX := opt_set (s - {h}))) k) - {h}) else (m(hX := opt_set (s - {h}))) k)"
    using Cons.prems by (intro Cons.IH) (auto split: if_splits)
  ultimately show ?case using Cons.prems(1) s by (auto simp: fun_eq_iff)
qed simp

lemma set_tx_hashXs_accepted [simp]:
  "set (tx_hashXs (accepted t ins)) = fst ` set ins \<union> fst ` set (mt_out_pairs t)"
  by (auto simp: tx_hashXs_def accepted_def)

lemma add_tx_grown:
  assumes "mp_ok (rf_pool s)" "txs_of s h = None" "length ins = length (mt_prevouts t)"
  shows "grown {h} s (add_tx h t ins s)" "txs_of (add_tx h t ins s) = (txs_of s)(h \<mapsto> accepted t ins)"
proof -
  let ?s = "add_tx h t ins s"
  show txs: "txs_of ?s = (txs_of s)(h \<mapsto> accepted t ins)" by (simp add: add_tx_def Let_def)
  have "pool_tx_ok (accepted t ins)" using assms(3) by (simp add: pool_tx_ok_def accepted_def)
  moreover have "index_of (mp_txs (rf_pool ?s)) hX =
      (if hX \<in> set (tx_hashXs (accepted t ins)) then insert h (index_of (mp_txs (rf_pool s)) hX)
       else index_of (mp_txs (rf_pool s)) hX)" for hX
    using assms(2) unfolding index_of_def txs by auto
  ultimately have "mp_ok (rf_pool ?s)"
    using assms(1) txs unfolding mp_ok_def
    by (auto simp: add_tx_def Let_def distinct_update fold_add_hashX fun_eq_iff split: if_splits)
  moreover have rf: "rf_touched ?s = rf_touched s \<union> set (tx_hashXs (accepted t ins))"
    by (auto simp: add_tx_def Let_def)
  moreover have "new_txs s ?s = {accepted t ins}" using assms(2) by (auto simp: new_txs_def txs)
  ultimately show "grown {h} s ?s"
    using assms(2) rf by (auto simp: grown_def txs map_le_def hashXs_of_def)
qed

lemma remove_tx_ok:
  assumes "mp_ok (rf_pool s)" "txs_of s h = Some t"
  obtains s' where "remove_tx h s = Inr s'" "mp_ok (rf_pool s')" "txs_of s' = (txs_of s)(h := None)"
    "rf_touched s' = rf_touched s \<union> set (tx_hashXs t)"
proof -
  have t: "pool_tx_ok t" using assms by (auto simp: mp_ok_def)
  have h: "h \<in> index_of (mp_txs (rf_pool s)) hX" if "hX \<in> set (tx_hashXs t)" for hX
    using that assms(2) by (auto simp: index_of_def)
  define m where "m = (\<lambda>hX. if hX \<in> set (tx_hashXs t) then opt_set (the (mp_hashXs (rf_pool s) hX) - {h})
    else mp_hashXs (rf_pool s) hX)"
  have idx: "mp_hashXs (rf_pool s) = (\<lambda>hX. opt_set (index_of (mp_txs (rf_pool s)) hX))"
    using assms(1) by (simp add: mp_ok_def)
  have "foldE (remove_hashX h) (tx_hashXs t) (mp_hashXs (rf_pool s)) = Inr m"
    unfolding m_def using h by (intro foldE_remove_hashX) (auto simp: tx_hashXs_def idx)
  moreover have "m hX = opt_set (index_of (AList.delete h (mp_txs (rf_pool s))) hX)" for hX
  proof -
    have "index_of (AList.delete h (mp_txs (rf_pool s))) hX = index_of (mp_txs (rf_pool s)) hX - {h}"
      by (auto simp: index_of_def delete_conv' split: if_splits)
    moreover have "h \<notin> index_of (mp_txs (rf_pool s)) hX" if "hX \<notin> set (tx_hashXs t)"
      using that assms(2) by (auto simp: index_of_def)
    ultimately show ?thesis using h [of hX] by (auto simp: m_def idx opt_set_def)
  qed
  moreover define s' where "s' = \<lparr>rf_touched = rf_touched s \<union> set (tx_hashXs t),
        rf_pool = \<lparr>mp_txs = AList.delete h (mp_txs (rf_pool s)), mp_hashXs = m\<rparr>\<rparr>"
  ultimately have rm: "remove_tx h s = Inr s'" and idx': "mp_hashXs (rf_pool s') = (\<lambda>hX. opt_set (index_of (mp_txs (rf_pool s')) hX))"
    using assms(2) t by (auto simp: remove_tx_def pool_tx_ok_def)
  have txs: "txs_of s' = (txs_of s)(h := None)" by (simp add: s'_def)
  have "distinct (map fst (mp_txs (rf_pool s')))" using assms(1) by (simp add: s'_def mp_ok_def distinct_delete)
  moreover have "pool_tx_ok t'" if "txs_of s' k = Some t'" for k t'
    using that assms(1) by (auto simp: txs mp_ok_def split: if_splits)
  ultimately have "mp_ok (rf_pool s')" using idx' by (simp add: mp_ok_def)
  then show thesis by (rule that [OF rm _ txs]) (simp add: s'_def)
qed

subsection \<open>Accepting many\<close>

text \<open>The hashes still to be looked at are new to the pool and listed once.\<close>

definition fresh_map :: "tx_map \<Rightarrow> refresh \<Rightarrow> bool" where
  "fresh_map d s \<longleftrightarrow> distinct (map fst d) \<and> fst ` set d \<inter> dom (txs_of s) = {}"

lemma mapE_resolve_length: "mapE (resolve txs u) ps = Inr ins \<Longrightarrow> length ins = length ps"
  by (rule mapE_length)

lemma keys_update: "fst ` set (AList.update k v d) = insert k (fst ` set d)"
  by (auto simp: update_keys simp flip: set_map)

lemma accept_loop_grown:
  assumes "accept_loop u tx_map deferred unspent s = (r, s')" "mp_ok (rf_pool s)"
    "fresh_map tx_map s" "fresh_map deferred s" "fst ` set tx_map \<inter> fst ` set deferred = {}"
  shows "grown (fst ` set tx_map) s s' \<and>
    (\<forall>d' u'. r = Inr (d', u') \<longrightarrow> fresh_map d' s' \<and>
       map_of d' = map_of deferred ++ (map_of tx_map |` (- dom (txs_of s'))))"
  using assms
proof (induction u tx_map deferred unspent s arbitrary: r s' rule: accept_loop.induct)
  case (1 u deferred unspent s)
  then show ?case by (auto simp: grown_refl)
next
  case (2 u h t rest deferred unspent s)
  have h: "txs_of s h = None" "h \<notin> fst ` set deferred" "h \<notin> fst ` set rest" "fresh_map rest s"
    using 2 by (auto simp: fresh_map_def)
  show ?case
  proof (cases "mapE (resolve (mp_txs (rf_pool s)) u) (mt_prevouts t)")
    case (Inl e)
    show ?thesis
    proof (cases "e = KeyError")
      case False
      then show ?thesis using 2 Inl by (auto simp: grown_refl)
    next
      case True
      have "fresh_map (AList.update h t deferred) s"
        using 2 h by (auto simp: fresh_map_def distinct_update keys_update)
      moreover have "fst ` set rest \<inter> fst ` set (AList.update h t deferred) = {}"
        using 2(7) h by (auto simp: keys_update)
      moreover have "accept_loop u rest (AList.update h t deferred) unspent s = (r, s')" using 2(3) Inl True by simp
      ultimately have IH: "grown (fst ` set rest) s s'"
        "\<forall>d' u'. r = Inr (d', u') \<longrightarrow> fresh_map d' s' \<and>
          map_of d' = map_of (AList.update h t deferred) ++ (map_of rest |` (- dom (txs_of s')))"
        using 2(1) [OF Inl True] 2(4) h(4) by (auto simp del: map_of_update_eq)
      have "h \<notin> dom (txs_of s')" using IH(1) h by (auto simp: grown_def)
      moreover have "map_of rest h = None" using h(3) by (simp add: map_of_eq_None_iff)
      ultimately have eq: "map_of (AList.update h t deferred) ++ (map_of rest |` (- dom (txs_of s'))) =
          map_of deferred ++ (map_of ((h, t) # rest) |` (- dom (txs_of s')))"
        by (auto simp: fun_eq_iff map_add_def restrict_map_def split: option.splits)
      have "grown (fst ` set ((h, t) # rest)) s s'" by (rule grown_mono [OF IH(1)]) auto
      then show ?thesis using IH(2) unfolding eq by blast
    qed
  next
    case (Inr ins)
    let ?s = "add_tx h t ins s"
    note add = add_tx_grown [OF 2(4) h(1) mapE_resolve_length [OF Inr]]
    have "fresh_map rest ?s" "fresh_map deferred ?s" using 2(6) h by (auto simp: fresh_map_def add(2))
    moreover have "fst ` set rest \<inter> fst ` set deferred = {}" using 2(7) by auto
    moreover have "mp_ok (rf_pool ?s)" using add(1) by (simp add: grown_def)
    ultimately have IH: "grown (fst ` set rest) ?s s'"
      "\<forall>d' u'. r = Inr (d', u') \<longrightarrow> fresh_map d' s' \<and> map_of d' = map_of deferred ++ (map_of rest |` (- dom (txs_of s')))"
      using 2(2) [OF Inr] 2(3) Inr by auto
    have "h \<in> dom (txs_of ?s)" by (simp add: add(2))
    moreover have "dom (txs_of ?s) \<subseteq> dom (txs_of s')" using IH(1) map_le_implies_dom_le unfolding grown_def by metis
    ultimately have "h \<in> dom (txs_of s')" by blast
    then have eq: "map_of ((h, t) # rest) |` (- dom (txs_of s')) = map_of rest |` (- dom (txs_of s'))"
      by (auto simp: fun_eq_iff restrict_map_def)
    have "grown (fst ` set ((h, t) # rest)) s s'" using grown_trans [OF add(1) IH(1)] by simp
    then show ?thesis using IH(2) unfolding eq by blast
  qed
qed

lemma accept_grown:
  assumes "accept_transactions tx_map u s = (r, s')" "mp_ok (rf_pool s)" "fresh_map tx_map s"
  shows "grown (fst ` set tx_map) s s'"
    "r = Inr (d', u') \<Longrightarrow> fresh_map d' s'"
    "r = Inr (d', u') \<Longrightarrow> map_of d' = map_of tx_map |` (- dom (txs_of s'))"
  using accept_loop_grown [OF assms(1) [unfolded accept_transactions_def] assms(2,3)]
  by (auto simp: fresh_map_def)

lemma grown_ok: "grown K s s' \<Longrightarrow> mp_ok (rf_pool s')"
  by (simp add: grown_def)

lemma retry_grown:
  "retry_loop prior tx_map u s = (r, s') \<Longrightarrow> mp_ok (rf_pool s) \<Longrightarrow> fresh_map tx_map s \<Longrightarrow> fst ` set tx_map \<subseteq> K \<Longrightarrow>
   grown K s s'"
proof (induction prior tx_map u s arbitrary: r s' rule: retry_loop.induct)
  case (1 prior tx_map u s)
  show ?case
  proof (cases "tx_map \<noteq> [] \<and> length tx_map \<noteq> prior")
    case False
    then have "s' = s" using "1.prems"(1) by (auto simp: retry_loop.simps [of prior])
    then show ?thesis using "1.prems"(2) by (simp add: grown_refl)
  next
    case True
    obtain r1 s1 where a: "accept_transactions tx_map u s = (r1, s1)" by fastforce
    note g = accept_grown [OF a "1.prems"(2,3)]
    show ?thesis
    proof (cases r1)
      case (Inl e)
      then show ?thesis using 1 True a g(1) by (auto simp: retry_loop.simps [of prior] intro: grown_mono)
    next
      case (Inr du)
      obtain d' u' where r1: "r1 = Inr (d', u')" using Inr by (cases du) auto
      have "retry_loop (length tx_map) d' u' s1 = (r, s')"
        using "1.prems"(1) True a r1 by (simp add: retry_loop.simps [of prior])
      moreover have "fst ` set d' \<subseteq> K"
      proof -
        have "dom (map_of d') \<subseteq> dom (map_of tx_map)" using g(3) [OF r1] by auto
        then show ?thesis using "1.prems"(4) by (simp add: dom_map_of_conv_image_fst)
      qed
      ultimately have "grown K s1 s'"
        using "1.IH" [OF True a [symmetric] r1 refl] grown_ok [OF g(1)] g(2) [OF r1] by simp
      from grown_trans [OF g(1) this] show ?thesis by (rule grown_mono) (use "1.prems"(4) in auto)
    qed
  qed
qed

subsection \<open>The tasks\<close>

lemma fold_update: "map_of (fold (\<lambda>(k, v). AList.update k v) ps d) = map_of d ++ map_of (rev ps)"
  by (induction ps arbitrary: d) (auto simp: fun_eq_iff map_add_def split: option.splits)

lemma fold_update_distinct:
  "distinct (map fst d) \<Longrightarrow> distinct (map fst (fold (\<lambda>(k, v). AList.update k v) ps d))"
  by (induction ps arbitrary: d) (auto simp: distinct_update)

lemma fold_update_keys: "fst ` set (fold (\<lambda>(k, v). AList.update k v) ps d) = fst ` set ps \<union> fst ` set d"
  by (induction ps arbitrary: d) (simp_all add: split_beta keys_update)

lemma map_of_rev: "distinct (map fst ps) \<Longrightarrow> map_of (rev ps) = map_of ps"
  by (subst map_of_inject_set) (simp_all add: rev_map [symmetric])

lemma deserialize_keys:
  "deserialize_txs A ps txs = Inr txs' \<Longrightarrow> distinct (map fst txs) \<Longrightarrow>
   distinct (map fst txs') \<and> fst ` set txs' \<subseteq> fst ` set ps \<union> fst ` set txs"
proof (induction ps arbitrary: txs)
  case (Cons p rest)
  obtain h raw where p: "p = (h, raw)" by (cases p)
  show ?case
  proof (cases "\<exists>t sz b bs. raw = Some (b # bs) \<and> read_tx_and_vsize A (b # bs) = Inr (t, sz)")
    case True
    then obtain t sz where "deserialize_txs A rest (AList.update h (mempool_tx_of A t sz) txs) = Inr txs'"
      using Cons.prems(1) p by auto
    from Cons.IH [OF this distinct_update [OF Cons.prems(2)]] show ?thesis using p by (auto simp: keys_update)
  next
    case False
    then have "deserialize_txs A rest txs = Inr txs'"
      using Cons.prems(1) p by (auto split: option.splits list.splits sum.splits if_splits)
    from Cons.IH [OF this Cons.prems(2)] show ?thesis by auto
  qed
qed simp

lemma fetch_keys:
  assumes "fetch A hashes all_hashes = Inr (tx_map, u)"
  shows "distinct (map fst tx_map)" "fst ` set tx_map \<subseteq> set hashes"
proof -
  obtain raws where "deserialize_txs A (zip hashes raws) [] = Inr tx_map"
    using assms by (auto simp: fetch_def Let_def err_simps)
  from deserialize_keys [OF this]
  have d: "distinct (map fst tx_map)" "fst ` set tx_map \<subseteq> fst ` set (zip hashes raws)" by simp_all
  show "distinct (map fst tx_map)" by (rule d)
  have "fst ` set (zip hashes raws) \<subseteq> set hashes" by (auto dest: set_zip_leftD)
  then show "fst ` set tx_map \<subseteq> set hashes" using d(2) by (rule order_trans [rotated])
qed

lemma task_grown:
  assumes "fetch_and_accept A hashes all_hashes s = (r, s')" "mp_ok (rf_pool s)" "set hashes \<inter> dom (txs_of s) = {}"
  shows "grown (set hashes) s s'"
    "r = Inr (d', u') \<Longrightarrow> fresh_map d' s' \<and> fst ` set d' \<subseteq> set hashes"
proof -
  have *: "grown (set hashes) s s' \<and> (r = Inr (d', u') \<longrightarrow> fresh_map d' s' \<and> fst ` set d' \<subseteq> set hashes)"
  proof (cases "fetch A hashes all_hashes")
    case (Inl e)
    then show ?thesis using assms by (auto simp: fetch_and_accept_def grown_refl)
  next
    case (Inr tu)
    obtain tx_map u where f: "fetch A hashes all_hashes = Inr (tx_map, u)" using Inr by (cases tu) auto
    then have a: "accept_transactions tx_map u s = (r, s')" using assms(1) by (simp add: fetch_and_accept_def)
    have "fresh_map tx_map s" using fetch_keys [OF f] assms(3) by (auto simp: fresh_map_def)
    note g = accept_grown [OF a assms(2) this]
    show ?thesis
    proof (intro conjI impI)
      show "grown (set hashes) s s'" using g(1) fetch_keys(2) [OF f] by (rule grown_mono)
      assume r: "r = Inr (d', u')"
      show "fresh_map d' s'" by (rule g(2) [OF r])
      have "dom (map_of d') \<subseteq> dom (map_of tx_map)" using g(3) [OF r] by auto
      then show "fst ` set d' \<subseteq> set hashes" using fetch_keys(2) [OF f] by (auto simp: dom_map_of_conv_image_fst)
    qed
  qed
  then show "grown (set hashes) s s'" "r = Inr (d', u') \<Longrightarrow> fresh_map d' s' \<and> fst ` set d' \<subseteq> set hashes" by auto
qed

lemma fresh_map_grown:
  "fresh_map d s \<Longrightarrow> grown K s s' \<Longrightarrow> fst ` set d \<inter> K = {} \<Longrightarrow> fresh_map d s'"
  unfolding fresh_map_def grown_def by blast

lemma run_tasks_grown:
  "run_tasks A all_hashes batches tx_map u s = (r, s') \<Longrightarrow> mp_ok (rf_pool s) \<Longrightarrow>
   distinct (concat batches) \<Longrightarrow> set (concat batches) \<inter> (dom (txs_of s) \<union> fst ` set tx_map) = {} \<Longrightarrow> fresh_map tx_map s \<Longrightarrow>
   grown (set (concat batches)) s s' \<and>
   (\<forall>d' u'. r = Inr (d', u') \<longrightarrow> fresh_map d' s' \<and> fst ` set d' \<subseteq> set (concat batches) \<union> fst ` set tx_map)"
proof (induction A all_hashes batches tx_map u s arbitrary: r s' rule: run_tasks.induct)
  case (1 A all_hashes tx_map u s)
  then show ?case by (auto simp: grown_refl)
next
  case (2 A all_hashes hashes rest tx_map u s)
  obtain r1 s1 where t: "fetch_and_accept A hashes all_hashes s = (r1, s1)" by fastforce
  have new: "set hashes \<inter> dom (txs_of s) = {}" using 2(5) by auto
  note g = task_grown [OF t 2(3) new]
  show ?case
  proof (cases r1)
    case (Inl e)
    then show ?thesis using 2(2) t grown_mono [OF g(1)] by (auto intro: grown_mono [OF g(1)])
  next
    case (Inr du)
    obtain d' u' where r1: "r1 = Inr (d', u')" using Inr by (cases du) auto
    let ?tm = "fold (\<lambda>(k, v). AList.update k v) d' tx_map"
    have run: "run_tasks A all_hashes rest ?tm (fold (\<lambda>(k, v). AList.update k v) u' u) s1 = (r, s')"
      using 2(2) t r1 by simp
    note d' = g(2) [OF r1]
    have k: "fst ` set ?tm \<subseteq> set hashes \<union> fst ` set tx_map" using d' by (auto simp: fold_update_keys)
    have "fresh_map tx_map s1" by (rule fresh_map_grown [OF 2(6) g(1)]) (use 2(5) in auto)
    then have "fresh_map ?tm s1"
      using d' by (auto simp: fresh_map_def fold_update_distinct fold_update_keys Int_Un_distrib2)
    moreover have "set (concat rest) \<inter> (dom (txs_of s1) \<union> fst ` set ?tm) = {}"
    proof -
      have "dom (txs_of s1) \<union> fst ` set ?tm \<subseteq> dom (txs_of s) \<union> fst ` set tx_map \<union> set hashes"
        using k g(1) by (auto simp: grown_def)
      moreover have "set (concat rest) \<inter> set hashes = {}" using 2(4) by auto
      moreover have "set (concat rest) \<inter> (dom (txs_of s) \<union> fst ` set tx_map) = {}" using 2(5) by auto
      ultimately show ?thesis by blast
    qed
    moreover have "distinct (concat rest)" using 2(4) by simp
    ultimately have "grown (set (concat rest)) s1 s' \<and>
        (\<forall>d u. r = Inr (d, u) \<longrightarrow> fresh_map d s' \<and> fst ` set d \<subseteq> set (concat rest) \<union> fst ` set ?tm)"
      using 2(1) [OF t [symmetric] r1 refl run grown_ok [OF g(1)]] by blast
    then have R: "grown (set (concat rest)) s1 s'"
      "\<And>d u. r = Inr (d, u) \<Longrightarrow> fresh_map d s' \<and> fst ` set d \<subseteq> set (concat rest) \<union> fst ` set ?tm" by blast+
    have all: "set (concat (hashes # rest)) = set hashes \<union> set (concat rest)" by simp
    show ?thesis
      unfolding all
    proof (intro conjI allI impI)
      show "grown (set hashes \<union> set (concat rest)) s s'" by (rule grown_trans [OF g(1) R(1)])
      fix d u assume r: "r = Inr (d, u)"
      from R(2) [OF r] show "fresh_map d s'" by blast
      from R(2) [OF r] k show "fst ` set d \<subseteq> set hashes \<union> set (concat rest) \<union> fst ` set tx_map" by blast
    qed
  qed
qed

subsection \<open>A refresh\<close>

lemma remove_txs_ok:
  assumes "mp_ok (rf_pool s)" "distinct hs" "set hs \<subseteq> dom (txs_of s)"
  shows "\<exists>s'. remove_txs hs s = (None, s') \<and> mp_ok (rf_pool s') \<and> txs_of s' = txs_of s |` (- set hs) \<and>
    rf_touched s' = rf_touched s \<union> hashXs_of {t. \<exists>h \<in> set hs. txs_of s h = Some t}"
  using assms
proof (induction hs arbitrary: s)
  case Nil
  then show ?case by (simp add: restrict_map_def)
next
  case (Cons h hs)
  obtain t where t: "txs_of s h = Some t" using Cons.prems(3) by auto
  from remove_tx_ok [OF Cons.prems(1) t] obtain s1 where s1: "remove_tx h s = Inr s1" "mp_ok (rf_pool s1)"
    "txs_of s1 = (txs_of s)(h := None)" "rf_touched s1 = rf_touched s \<union> set (tx_hashXs t)" by blast
  have "set hs \<subseteq> dom (txs_of s1)" using Cons.prems(2,3) by (auto simp: s1(3))
  with Cons.IH [OF s1(2)] Cons.prems(2) obtain s' where s': "remove_txs hs s1 = (None, s')" "mp_ok (rf_pool s')"
    "txs_of s' = txs_of s1 |` (- set hs)" "rf_touched s' = rf_touched s1 \<union> hashXs_of {t. \<exists>h \<in> set hs. txs_of s1 h = Some t}"
    by auto
  have "{t'. \<exists>k \<in> set (h # hs). txs_of s k = Some t'} = {t} \<union> {t. \<exists>h \<in> set hs. txs_of s1 h = Some t}"
    using Cons.prems(2) t by (auto simp: s1(3))
  moreover have "hashXs_of {t} = set (tx_hashXs t)" by (simp add: hashXs_of_def)
  ultimately have "rf_touched s' = rf_touched s \<union> hashXs_of {t'. \<exists>k \<in> set (h # hs). txs_of s k = Some t'}"
    using s'(4) s1(4) by (simp add: Un_assoc)
  moreover have "txs_of s' = txs_of s |` (- set (h # hs))"
    by (auto simp: s'(3) s1(3) restrict_map_def fun_eq_iff)
  ultimately show ?case using s' s1(1) by simp
qed

text \<open>The iteration order over a set and the completion order of the tasks are any order.\<close>

definition any_order :: "mempool_api \<Rightarrow> bool" where
  "any_order A \<longleftrightarrow> (\<forall>S. finite S \<longrightarrow> set (listing A S) = S \<and> distinct (listing A S)) \<and>
     (\<forall>bs. mset (schedule A bs) = mset bs)"

lemma listing_simps: "any_order A \<Longrightarrow> finite S \<Longrightarrow> set (listing A S) = S \<and> distinct (listing A S)"
  by (simp add: any_order_def)

lemma mset_concat: "mset (concat xs) = (\<Sum>x\<in>#mset xs. mset x)"
  by (induction xs) auto

lemma schedule_concat:
  assumes "any_order A"
  shows "mset (concat (schedule A bs)) = mset (concat bs)"
  using assms by (simp add: any_order_def mset_concat)

lemma mset_chunks: "0 < n \<Longrightarrow> concat (chunks xs n) = xs"
  by (induction xs n rule: chunks.induct) (simp add: chunks.simps)

lemma process_start:
  assumes "mp_ok (rf_pool s)" "any_order A" "finite all_hashes"
  obtains s1 bs where "mp_ok (rf_pool s1)" "txs_of s1 = txs_of s |` all_hashes"
    "rf_touched s1 = rf_touched s \<union> hashXs_of {t. \<exists>k. k \<notin> all_hashes \<and> txs_of s k = Some t}"
    "distinct (concat bs)" "set (concat bs) = all_hashes - dom (txs_of s)" "set (concat bs) \<inter> dom (txs_of s1) = {}"
    "process_mempool A h h' all_hashes h s =
      (if concat bs = [] then (None, s1) else if h \<noteq> h' then (Some DBSyncError, s1)
       else case run_tasks A all_hashes bs [] [] s1 of
              (Inl e, s) \<Rightarrow> (Some e, s)
            | (Inr (tx_map, u), s) \<Rightarrow>
                (case retry_loop 0 tx_map u s of (Inl e, s) \<Rightarrow> (Some e, s) | (Inr _, s) \<Rightarrow> (None, s)))"
proof -
  let ?gone = "set (map fst (mp_txs (rf_pool s))) - all_hashes"
  have dom: "set (map fst (mp_txs (rf_pool s))) = dom (txs_of s)" by (simp add: dom_map_of_conv_image_fst)
  note gone = listing_simps [OF assms(2) finite_Diff [OF finite_set], of "map fst (mp_txs (rf_pool s))" all_hashes]
  have "set (listing A ?gone) \<subseteq> dom (txs_of s)" using gone unfolding dom by blast
  from remove_txs_ok [OF assms(1) conjunct2 [OF gone] this] gone obtain s1 where
    s1: "remove_txs (listing A ?gone) s = (None, s1)" "mp_ok (rf_pool s1)" "txs_of s1 = txs_of s |` (- ?gone)"
    "rf_touched s1 = rf_touched s \<union> hashXs_of {t. \<exists>k \<in> ?gone. txs_of s k = Some t}" by auto
  have txs1: "txs_of s1 = txs_of s |` all_hashes"
    unfolding s1(3) dom by (auto simp: restrict_map_def fun_eq_iff)
  have gone': "{t. \<exists>k \<in> ?gone. txs_of s k = Some t} = {t. \<exists>k. k \<notin> all_hashes \<and> txs_of s k = Some t}"
    unfolding dom by auto
  let ?new = "all_hashes - set (map fst (mp_txs (rf_pool s1)))"
  have dom1: "set (map fst (mp_txs (rf_pool s1))) = dom (txs_of s1)" by (simp add: dom_map_of_conv_image_fst)
  have K: "?new = all_hashes - dom (txs_of s)" unfolding dom1 txs1 by auto
  have new: "set (listing A ?new) = ?new" "distinct (listing A ?new)"
    using listing_simps [OF assms(2), of ?new] assms(3) by auto
  let ?bs = "schedule A (chunks (listing A ?new) 200)"
  have "mset (concat ?bs) = mset (listing A ?new)" by (simp add: schedule_concat [OF assms(2)] mset_chunks)
  then have bs: "distinct (concat ?bs)" "set (concat ?bs) = ?new"
    using new mset_eq_imp_distinct_iff mset_eq_setD by metis+
  have empty: "listing A ?new = [] \<longleftrightarrow> concat ?bs = []"
    using bs(2) new(1) by (metis set_empty)
  have "process_mempool A h h' all_hashes h s =
      (if concat ?bs = [] then (None, s1) else if h \<noteq> h' then (Some DBSyncError, s1)
       else case run_tasks A all_hashes ?bs [] [] s1 of
              (Inl e, s) \<Rightarrow> (Some e, s)
            | (Inr (tx_map, u), s) \<Rightarrow>
                (case retry_loop 0 tx_map u s of (Inl e, s) \<Rightarrow> (Some e, s) | (Inr _, s) \<Rightarrow> (None, s)))"
    unfolding empty [symmetric]
    by (simp only: process_mempool_def s1(1) Let_def prod.case option.case if_False simp_thms)
  moreover have "set (concat ?bs) \<inter> dom (txs_of s1) = {}" using bs(2) dom1 by blast
  ultimately show thesis
    using that [OF s1(2) txs1 s1(4) [unfolded gone'] bs(1) trans [OF bs(2) K]] by blast
qed

lemma process_phases:
  assumes "mp_ok (rf_pool s)" "any_order A" "finite all_hashes" "process_mempool A h h' all_hashes h s = (e, s')"
  shows "\<exists>s1. mp_ok (rf_pool s1) \<and> txs_of s1 = txs_of s |` all_hashes \<and>
    rf_touched s1 = rf_touched s \<union> hashXs_of {t. \<exists>k. k \<notin> all_hashes \<and> txs_of s k = Some t} \<and>
    grown (all_hashes - dom (txs_of s)) s1 s'"
proof -
  let ?K = "all_hashes - dom (txs_of s)"
  from process_start [OF assms(1-3), of h h'] obtain s1 bs where
    s1: "mp_ok (rf_pool s1)" "txs_of s1 = txs_of s |` all_hashes"
    "rf_touched s1 = rf_touched s \<union> hashXs_of {t. \<exists>k. k \<notin> all_hashes \<and> txs_of s k = Some t}"
    and bs: "distinct (concat bs)" "set (concat bs) = ?K" "set (concat bs) \<inter> dom (txs_of s1) = {}"
    and step: "process_mempool A h h' all_hashes h s =
      (if concat bs = [] then (None, s1) else if h \<noteq> h' then (Some DBSyncError, s1)
       else case run_tasks A all_hashes bs [] [] s1 of
              (Inl e, s) \<Rightarrow> (Some e, s)
            | (Inr (tx_map, u), s) \<Rightarrow>
                (case retry_loop 0 tx_map u s of (Inl e, s) \<Rightarrow> (Some e, s) | (Inr _, s) \<Rightarrow> (None, s)))" .
  have "grown ?K s1 s'"
  proof (cases "concat bs = [] \<or> h \<noteq> h'")
    case True
    then have "s' = s1" using assms(4) step by (auto split: if_splits)
    then show ?thesis using s1(1) grown_refl by simp
  next
    case False
    obtain r s2 where run: "run_tasks A all_hashes bs [] [] s1 = (r, s2)" by fastforce
    have "set (concat bs) \<inter> (dom (txs_of s1) \<union> fst ` set []) = {}" using bs(3) by simp
    from run_tasks_grown [OF run s1(1) bs(1) this] have g: "grown ?K s1 s2"
      "\<And>d' u'. r = Inr (d', u') \<Longrightarrow> fresh_map d' s2 \<and> fst ` set d' \<subseteq> ?K"
      unfolding bs(2) by (auto simp: fresh_map_def)
    have eq: "(case (r, s2) of
              (Inl e, s) \<Rightarrow> (Some e, s)
            | (Inr (tx_map, u), s) \<Rightarrow>
                (case retry_loop 0 tx_map u s of (Inl e, s) \<Rightarrow> (Some e, s) | (Inr _, s) \<Rightarrow> (None, s))) = (e, s')"
      using assms(4) False unfolding step run by (simp split: if_splits)
    show ?thesis
    proof (cases r)
      case (Inl e')
      then show ?thesis using eq g(1) by simp
    next
      case (Inr du)
      obtain d' u' where r: "r = Inr (d', u')" using Inr by (cases du) auto
      obtain r' s3 where retry: "retry_loop 0 d' u' s2 = (r', s3)" by fastforce
      have "s' = s3" using eq by (auto simp: r retry split: sum.splits)
      moreover have "grown ?K s2 s3"
        using retry_grown [OF retry grown_ok [OF g(1)]] g(2) [OF r] by blast
      ultimately show ?thesis using grown_trans [OF g(1), of ?K s3] by simp
    qed
  qed
  then show ?thesis using s1 by blast
qed

definition changed :: "refresh \<Rightarrow> refresh \<Rightarrow> mempool_tx set" where
  "changed s s' = {t. \<exists>k. (txs_of s k = Some t \<and> txs_of s' k = None) \<or> (txs_of s k = None \<and> txs_of s' k = Some t)}"

lemma process_exact:
  assumes "mp_ok (rf_pool s)" "any_order A" "finite all_hashes"
    "process_mempool A db_height db_height' all_hashes mempool_height s = (e, s')"
  shows "mp_ok (rf_pool s') \<and>
    (\<forall>k t t'. txs_of s k = Some t \<longrightarrow> txs_of s' k = Some t' \<longrightarrow> t' = t) \<and>
    rf_touched s' = rf_touched s \<union> hashXs_of (changed s s') \<and>
    (if mempool_height = db_height
     then dom (txs_of s') \<subseteq> all_hashes \<and> (\<forall>k \<in> all_hashes. txs_of s k \<noteq> None \<longrightarrow> txs_of s' k = txs_of s k)
     else e = Some DBSyncError \<and> s' = s)"
proof (cases "mempool_height = db_height")
  case False
  then have "e = Some DBSyncError" "s' = s" using assms(4) by (simp_all add: process_mempool_def)
  moreover have "changed s s = {}" by (auto simp: changed_def)
  ultimately show ?thesis using assms(1) False by simp
next
  case True
  with process_phases [OF assms(1-3)] assms(4) obtain s1 where
    s1: "mp_ok (rf_pool s1)" "txs_of s1 = txs_of s |` all_hashes"
    "rf_touched s1 = rf_touched s \<union> hashXs_of {t. \<exists>k. k \<notin> all_hashes \<and> txs_of s k = Some t}"
    "grown (all_hashes - dom (txs_of s)) s1 s'" by blast
  note g = s1(4) [unfolded grown_def]
  have keep: "txs_of s' k = txs_of s k" if "k \<in> all_hashes" "txs_of s k \<noteq> None" for k
  proof -
    obtain y where y: "txs_of s k = Some y" using \<open>txs_of s k \<noteq> None\<close> by blast
    then have "txs_of s1 k = Some y" using that(1) by (simp add: s1(2))
    moreover from this have "k \<in> dom (txs_of s1)" by blast
    ultimately have "txs_of s' k = Some y" using g unfolding map_le_def by metis
    then show ?thesis using y by simp
  qed
  have dom: "dom (txs_of s') \<subseteq> all_hashes" using g by (auto simp: s1(2))
  then have out: "txs_of s' k = None" if "k \<notin> all_hashes" for k using that by auto
  have "changed s s' = {t. \<exists>k. k \<notin> all_hashes \<and> txs_of s k = Some t} \<union> new_txs s1 s'"
  proof (intro set_eqI iffI)
    fix t assume "t \<in> changed s s'"
    then obtain k where "(txs_of s k = Some t \<and> txs_of s' k = None) \<or> (txs_of s k = None \<and> txs_of s' k = Some t)"
      by (auto simp: changed_def)
    then show "t \<in> {t. \<exists>k. k \<notin> all_hashes \<and> txs_of s k = Some t} \<union> new_txs s1 s'"
    proof
      assume k: "txs_of s k = Some t \<and> txs_of s' k = None"
      then have "k \<notin> all_hashes" using keep [of k] by auto
      then show ?thesis using k by blast
    next
      assume "txs_of s k = None \<and> txs_of s' k = Some t"
      then show ?thesis by (auto simp: new_txs_def s1(2) restrict_map_def intro!: exI [of _ k])
    qed
  next
    fix t assume "t \<in> {t. \<exists>k. k \<notin> all_hashes \<and> txs_of s k = Some t} \<union> new_txs s1 s'"
    then consider k where "k \<notin> all_hashes" "txs_of s k = Some t" | k where "txs_of s1 k = None" "txs_of s' k = Some t"
      by (auto simp: new_txs_def)
    then show "t \<in> changed s s'"
    proof cases
      case 1
      then show ?thesis using out [of k] by (auto simp: changed_def)
    next
      case 2
      then have "k \<in> all_hashes" using out [of k] by auto
      then have "txs_of s k = None" using 2(1) by (simp add: s1(2))
      then show ?thesis using 2(2) by (auto simp: changed_def)
    qed
  qed
  then have "rf_touched s' = rf_touched s \<union> hashXs_of (changed s s')" using g s1(3) by (simp add: Un_assoc)
  moreover have "t' = t" if "txs_of s k = Some t" "txs_of s' k = Some t'" for k t t'
    using that keep [of k] out [of k] by (cases "k \<in> all_hashes") auto
  ultimately show ?thesis using True dom keep g by auto
qed

text \<open>C1: a refresh of the mempool, whatever the daemon and the database answer, in whatever order sets are
  iterated and tasks complete, and whether it ends well or with an exception: the index stays exact,
  transactions that stay are not altered, and the hashXs reported as touched are exactly those of the
  transactions that entered or left.  With the database at the daemon's height the pool is left with
  hashes of the daemon's only, and everything it had of them; otherwise nothing happens.\<close>

theorem mempool_refresh_exact:
  assumes "mp_ok (rf_pool s)" "any_order A" "finite all_hashes"
    "process_mempool A db_height db_height' all_hashes mempool_height s = (e, s')"
  shows "mp_ok (rf_pool s') \<and>
    (\<forall>k t t'. txs_of s k = Some t \<longrightarrow> txs_of s' k = Some t' \<longrightarrow> t' = t) \<and>
    rf_touched s' = rf_touched s \<union> hashXs_of (changed s s') \<and>
    (if mempool_height = db_height
     then dom (txs_of s') \<subseteq> all_hashes \<and> (\<forall>k \<in> all_hashes. txs_of s k \<noteq> None \<longrightarrow> txs_of s' k = txs_of s k)
     else e = Some DBSyncError \<and> s' = s)"
  by (rule process_exact [OF assms])

definition sample_tx :: tx where
  "sample_tx = \<lparr>tx_version = 2, tx_inputs = [\<lparr>prev_hash = [9], prev_idx = 0, in_script = [], in_sequence = 0\<rparr>],
     tx_outputs = [\<lparr>out_value = 90, pk_script = [7]\<rparr>], tx_locktime = 0, txid = [3], wtxid = [3], ext = PlainTx\<rparr>"

definition sample_api :: mempool_api where
  "sample_api = \<lparr>raw_transactions = (\<lambda>hs. Inr (map (\<lambda>_. Some [1]) hs)),
     api_lookup_utxos = (\<lambda>ps. Inr (map (\<lambda>_. Some ([5], 100)) ps)),
     read_tx_and_vsize = (\<lambda>_. Inr (sample_tx, 120)), to_hashX = (\<lambda>script. script),
     listing = sorted_list_of_set, schedule = rev\<rparr>"

definition sample_pool :: mempool where
  "sample_pool = \<lparr>mp_txs = [([1], \<lparr>mt_prevouts = [], mt_in_pairs = Some [], mt_out_pairs = [([6], 4)],
       mt_fee = 0, mt_size = 10\<rparr>)], mp_hashXs = [[6] \<mapsto> {[1]}]\<rparr>"

lemma sample_order: "any_order sample_api"
  by (simp add: any_order_def sample_api_def)

lemma sample_pool_ok: "mp_ok sample_pool"
proof -
  have "index_of (mp_txs sample_pool) = (\<lambda>hX. if hX = [6] then {[1]} else {})"
    by (auto simp: index_of_def sample_pool_def tx_hashXs_def fun_eq_iff)
  then show ?thesis by (auto simp: mp_ok_def pool_tx_ok_def) (auto simp: sample_pool_def opt_set_def split: if_splits)
qed

theorem mempool_refresh_exact_witness:
  "\<exists>s'. process_mempool sample_api 8 8 {[3]} 8 \<lparr>rf_touched = {}, rf_pool = sample_pool\<rparr> = (None, s') \<and>
     mp_ok (rf_pool s') \<and> rf_touched s' = {[6], [5], [7]} \<and> dom (txs_of s') \<subseteq> {[3]}"
proof -
  let ?s = "\<lparr>rf_touched = {}, rf_pool = sample_pool\<rparr>"
  obtain e s' where r: "process_mempool sample_api 8 8 {[3]} 8 ?s = (e, s')" by fastforce
  have ok: "mp_ok (rf_pool ?s)" by (simp add: sample_pool_ok)
  have "finite {[3 :: byte]}" by simp
  note p = mempool_refresh_exact [OF ok sample_order this r]
  have "e = None \<and> rf_touched s' = {[6], [5], [7]}"
    using r [symmetric]
    by (simp add: process_mempool_def sample_api_def sample_pool_def remove_tx_def tx_hashXs_def remove_hashX_def
        Let_def chunks.simps fetch_and_accept_def fetch_def mempool_tx_of_def sample_tx_def is_generation_def MINUS_1_def
        dict_of_def accept_transactions_def resolve_def add_tx_def retry_loop.simps insert_commute accepted_def) 
  then show ?thesis using p r by simp
qed

end
