(* ===== verification/MempoolQueries.thy ===== *)
theory MempoolQueries
  imports MempoolSync
begin

section \<open>What the mempool tells its clients\<close>

text \<open>On an exact index the queries never fail, and each answers over all transactions of the pool although it
  looks only at those the index names.\<close>

definition delta_of :: "bytes \<Rightarrow> mempool_tx \<Rightarrow> int" where
  "delta_of hashX t = paid_to hashX (mt_out_pairs t) - paid_to hashX (the (mt_in_pairs t))"

lemma mp_okD:
  assumes "mp_ok m"
  shows "distinct (map fst (mp_txs m))" "\<And>h t. map_of (mp_txs m) h = Some t \<Longrightarrow> pool_tx_ok t"
    "mp_hashXs m hX = opt_set (index_of (mp_txs m) hX)"
  using assms by (simp_all add: mp_ok_def)

lemma finite_index [simp]: "finite (index_of txs hX)"
  by (rule finite_subset [OF _ finite_dom_map_of [of txs]]) (auto simp: index_of_def)

lemma touching_ok:
  assumes "mp_ok m" "any_order A"
  shows "set (touching A m hX) = index_of (mp_txs m) hX" "distinct (touching A m hX)"
  using mp_okD(3) [OF assms(1), of hX] listing_simps [OF assms(2) finite_index, of "mp_txs m" hX]
  by (cases "index_of (mp_txs m) hX = {}"; simp add: touching_def opt_set_def)+

lemma paid_to_None: "hX \<notin> fst ` set pairs \<Longrightarrow> paid_to hX pairs = 0"
  by (induction pairs) (auto simp: paid_to_def)

lemma delta_of_untouched: "hX \<notin> set (tx_hashXs t) \<Longrightarrow> delta_of hX t = 0"
  by (auto simp: delta_of_def tx_hashXs_def paid_to_None)

lemma foldE_sum:
  "(\<And>h. h \<in> set hs \<Longrightarrow> \<exists>t. F h = Inr t) \<Longrightarrow>
   foldE (\<lambda>h v. bindE (F h) (\<lambda>t. Inr (v + d t))) hs v = Inr (v + sum_list (map (\<lambda>h. d (projr (F h))) hs))"
  for d :: "'t \<Rightarrow> int"
proof (induction hs arbitrary: v)
  case (Cons h hs)
  obtain t where "F h = Inr t" using Cons.prems [of h] by auto
  then show ?case using Cons by (simp add: add.assoc)
qed simp

lemma index_get:
  assumes "mp_ok m" "h \<in> index_of (mp_txs m) hX"
  obtains t ins where "get_tx m h = Inr t" "map_of (mp_txs m) h = Some t" "mt_in_pairs t = Some ins"
    "length ins = length (mt_prevouts t)"
  using assms mp_okD(2) [OF assms(1)] by (fastforce simp: index_of_def get_tx_def pool_tx_ok_def)

lemma foldE_eq:
  "(\<And>x s. x \<in> set xs \<Longrightarrow> f x s = g x s) \<Longrightarrow> foldE f xs s = foldE g xs s"
  by (induction xs arbitrary: s) (auto intro!: bindE_cong)

lemma balance_delta_sum:
  assumes "mp_ok m" "any_order A"
  shows "balance_delta A m hX = Inr (sum_list (map (\<lambda>(_, t). delta_of hX t) (mp_txs m)))"
proof -
  let ?I = "index_of (mp_txs m) hX" and ?D = "dom (map_of (mp_txs m))"
  let ?d = "\<lambda>h. delta_of hX (the (map_of (mp_txs m) h))"
  note T = touching_ok [OF assms, of hX]
  have "balance_delta A m hX = foldE (\<lambda>h v. bindE (get_tx m h) (\<lambda>t. Inr (v + delta_of hX t))) (touching A m hX) 0"
    unfolding balance_delta_def
  proof (rule foldE_eq)
    fix h v assume "h \<in> set (touching A m hX)"
    then have "h \<in> ?I" by (simp only: T)
    from index_get [OF assms(1) this] obtain t ins where "get_tx m h = Inr t" "mt_in_pairs t = Some ins" by blast
    then show "bindE (get_tx m h) (\<lambda>t. case mt_in_pairs t of None \<Rightarrow> Inl TypeError
        | Some ins \<Rightarrow> Inr (v - paid_to hX ins + paid_to hX (mt_out_pairs t))) =
        bindE (get_tx m h) (\<lambda>t. Inr (v + delta_of hX t))"
      by (simp add: delta_of_def)
  qed
  also have "\<dots> = Inr (0 + sum_list (map (\<lambda>h. delta_of hX (projr (get_tx m h))) (touching A m hX)))"
  proof (rule foldE_sum)
    fix h assume "h \<in> set (touching A m hX)"
    then have "h \<in> ?I" by (simp only: T)
    from index_get [OF assms(1) this] show "\<exists>t. get_tx m h = Inr t" by blast
  qed
  also have "map (\<lambda>h. delta_of hX (projr (get_tx m h))) (touching A m hX) = map ?d (touching A m hX)"
    by (rule map_cong [OF refl], use T in \<open>auto simp: index_of_def get_tx_def\<close>)
  also have "sum_list (map ?d (touching A m hX)) = (\<Sum>h\<in>?I. ?d h)"
    using sum_list_distinct_conv_sum_set [OF T(2), of ?d] by (simp only: T)
  also have "\<dots> = (\<Sum>h\<in>?D. ?d h)"
    by (rule sum.mono_neutral_left) (auto simp: index_of_def finite_dom_map_of intro!: delta_of_untouched)
  also have "\<dots> = (\<Sum>h\<leftarrow>map fst (mp_txs m). ?d h)"
    using sum_list_distinct_conv_sum_set [OF mp_okD(1) [OF assms(1)], of ?d]
    by (simp add: dom_map_of_conv_image_fst)
  also have "map ?d (map fst (mp_txs m)) = map (\<lambda>(_, t). delta_of hX t) (mp_txs m)"
    using mp_okD(1) [OF assms(1)] by (auto simp: comp_def split_beta)
  finally show ?thesis by simp
qed

lemma potential_spends_ok:
  assumes "mp_ok m" "any_order A"
  shows "potential_spends A m hX = Inr (\<Union>h \<in> index_of (mp_txs m) hX. set (mt_prevouts (the (map_of (mp_txs m) h))))"
proof -
  have "foldE (\<lambda>h result. bindE (get_tx m h) (\<lambda>t. Inr (result \<union> set (mt_prevouts t)))) hs P =
      Inr (P \<union> (\<Union>h \<in> set hs. set (mt_prevouts (the (map_of (mp_txs m) h)))))"
    if "set hs \<subseteq> index_of (mp_txs m) hX" for hs P
    using that
  proof (induction hs arbitrary: P)
    case (Cons h hs)
    from Cons.prems have "h \<in> index_of (mp_txs m) hX" by simp
    from index_get [OF assms(1) this] obtain t where "get_tx m h = Inr t" "map_of (mp_txs m) h = Some t" by blast
    then show ?case using Cons by (simp add: Un_assoc)
  qed simp
  from this [of "touching A m hX" "{}"] show ?thesis by (simp add: potential_spends_def touching_ok [OF assms])
qed

lemma distinct_concat_map:
  "distinct hs \<Longrightarrow> (\<And>h. distinct (row h)) \<Longrightarrow> (\<And>h h'. h \<noteq> h' \<Longrightarrow> set (row h) \<inter> set (row h') = {}) \<Longrightarrow>
   distinct (concat (map row hs))"
  by (induction hs) force+

lemma unordered_UTXOs_ok:
  assumes "mp_ok m" "any_order A"
  shows "\<exists>us. unordered_UTXOs A m hX = Inr us \<and> distinct us \<and>
    set us = {(-1, pos, h, 0, value) |pos h value. \<exists>t. map_of (mp_txs m) h = Some t \<and>
      pos < length (mt_out_pairs t) \<and> mt_out_pairs t ! pos = (hX, value)}"
proof -
  define row where "row = (\<lambda>h. map (\<lambda>(pos, _, value). (-1 :: int, pos, h, 0 :: int, value))
      (filter (\<lambda>(_, hX', _). hX' = hX) (enumerate 0 (mt_out_pairs (the (map_of (mp_txs m) h))))))"
  note T = touching_ok [OF assms, of hX]
  have "mapE (\<lambda>h. case map_of (mp_txs m) h of None \<Rightarrow> Inl AttributeError
        | Some t \<Rightarrow> Inr (map (\<lambda>(pos, _, value). (-1, pos, h, 0, value))
           (filter (\<lambda>(_, hX', _). hX' = hX) (enumerate 0 (mt_out_pairs t))))) (touching A m hX) = Inr (map row (touching A m hX))"
    by (rule mapE_Inr) (use T in \<open>auto simp: index_of_def row_def\<close>)
  then have eq: "unordered_UTXOs A m hX = Inr (concat (map row (touching A m hX)))"
    by (simp add: unordered_UTXOs_def)
  have row: "set (row h) = {(-1, pos, h, 0, value) |pos value.
      pos < length (mt_out_pairs (the (map_of (mp_txs m) h))) \<and> mt_out_pairs (the (map_of (mp_txs m) h)) ! pos = (hX, value)}" for h
    by (auto simp: row_def in_set_enumerate_eq image_iff) (force simp: in_set_enumerate_eq)+
  have "distinct (row h)" for h
    unfolding row_def distinct_map
    by (auto intro!: distinct_filter inj_onI distinct_enumerate simp: in_set_enumerate_eq)
  moreover have "set (row h) \<inter> set (row h') = {}" if "h \<noteq> h'" for h h' using that by (auto simp: row)
  ultimately have "distinct (concat (map row (touching A m hX)))"
    using T(2) by (intro distinct_concat_map) auto
  moreover have "set (concat (map row (touching A m hX))) = {(-1, pos, h, 0, value) |pos h value. \<exists>t.
      map_of (mp_txs m) h = Some t \<and> pos < length (mt_out_pairs t) \<and> mt_out_pairs t ! pos = (hX, value)}"
    (is "_ = ?R")
  proof (intro set_eqI iffI)
    fix u assume "u \<in> set (concat (map row (touching A m hX)))"
    then obtain h where "h \<in> index_of (mp_txs m) hX" "u \<in> set (row h)" using T(1) by auto
    then show "u \<in> ?R" by (auto simp: row index_of_def)
  next
    fix u assume "u \<in> ?R"
    then obtain pos h v t where u: "u = (-1, pos, h, 0, v)" and t: "map_of (mp_txs m) h = Some t"
      and o: "pos < length (mt_out_pairs t)" "mt_out_pairs t ! pos = (hX, v)" by blast
    have "hX \<in> set (tx_hashXs t)" using nth_mem [OF o(1)] o(2) by (force simp: tx_hashXs_def)
    then have "h \<in> set (touching A m hX)" using t T(1) by (auto simp: index_of_def)
    moreover have "u \<in> set (row h)" using u t o by (auto simp: row)
    ultimately show "u \<in> set (concat (map row (touching A m hX)))" by auto
  qed
  ultimately show ?thesis using eq by blast
qed

text \<open>C3: what the mempool tells of a hashX is told over the whole pool.  The balance change is what all its
  transactions pay to the hashX less what they spend of it; the possible spends include the previous
  output of every input that spends of it; the unspent outputs are each of the pool's outputs paying to
  it, once, with its position and value.  None of the queries fails.\<close>

theorem mempool_queries_exact:
  assumes "mp_ok m" "any_order A"
  shows "balance_delta A m hX = Inr (sum_list (map (\<lambda>(_, t). delta_of hX t) (mp_txs m))) \<and>
    (\<exists>P. potential_spends A m hX = Inr P \<and>
       (\<forall>h t i. map_of (mp_txs m) h = Some t \<longrightarrow> i < length (mt_prevouts t) \<longrightarrow> fst (the (mt_in_pairs t) ! i) = hX \<longrightarrow>
          mt_prevouts t ! i \<in> P)) \<and>
    (\<exists>us. unordered_UTXOs A m hX = Inr us \<and> distinct us \<and>
       set us = {(-1, pos, h, 0, value) |pos h value. \<exists>t. map_of (mp_txs m) h = Some t \<and>
         pos < length (mt_out_pairs t) \<and> mt_out_pairs t ! pos = (hX, value)})"
proof (intro conjI)
  show "balance_delta A m hX = Inr (sum_list (map (\<lambda>(_, t). delta_of hX t) (mp_txs m)))"
    by (rule balance_delta_sum [OF assms])
  let ?P = "\<Union>h \<in> index_of (mp_txs m) hX. set (mt_prevouts (the (map_of (mp_txs m) h)))"
  have "mt_prevouts t ! i \<in> ?P"
    if t: "map_of (mp_txs m) h = Some t" and i: "i < length (mt_prevouts t)" "fst (the (mt_in_pairs t) ! i) = hX" for h t i
  proof -
    obtain ins where "mt_in_pairs t = Some ins" "length ins = length (mt_prevouts t)"
      using mp_okD(2) [OF assms(1) t] by (auto simp: pool_tx_ok_def)
    then have "hX \<in> fst ` set (the (mt_in_pairs t))" using i by (metis image_eqI nth_mem option.sel)
    then have "h \<in> index_of (mp_txs m) hX" using t by (auto simp: index_of_def tx_hashXs_def)
    moreover have "mt_prevouts t ! i \<in> set (mt_prevouts (the (map_of (mp_txs m) h)))"
      unfolding t option.sel using i(1) by (rule nth_mem)
    ultimately show ?thesis by blast
  qed
  then show "\<exists>P. potential_spends A m hX = Inr P \<and>
       (\<forall>h t i. map_of (mp_txs m) h = Some t \<longrightarrow> i < length (mt_prevouts t) \<longrightarrow> fst (the (mt_in_pairs t) ! i) = hX \<longrightarrow>
          mt_prevouts t ! i \<in> P)"
    using potential_spends_ok [OF assms] by blast
  show "\<exists>us. unordered_UTXOs A m hX = Inr us \<and> distinct us \<and>
       set us = {(-1, pos, h, 0, value) |pos h value. \<exists>t. map_of (mp_txs m) h = Some t \<and>
         pos < length (mt_out_pairs t) \<and> mt_out_pairs t ! pos = (hX, value)}"
    by (rule unordered_UTXOs_ok [OF assms])
qed

theorem mempool_queries_exact_witness:
  "balance_delta sample_api sample_pool [6] = Inr 4 \<and>
   (\<exists>us. unordered_UTXOs sample_api sample_pool [6] = Inr us \<and> set us \<noteq> {})"
proof -
  note p = mempool_queries_exact [OF sample_pool_ok sample_order, of "[6]"]
  have "sum_list (map (\<lambda>(_, t). delta_of [6] t) (mp_txs sample_pool)) = 4"
    by (simp add: sample_pool_def delta_of_def paid_to_def)
  moreover have "unordered_UTXOs sample_api sample_pool [6] = Inr [(-1, 0, [1], 0, 4)]"
    by (simp add: unordered_UTXOs_def touching_def sample_pool_def sample_api_def)
  ultimately show ?thesis using p by simp
qed

end
