(* ===== verification/MempoolAccept.thy ===== *)
theory MempoolAccept
  imports MempoolSync
begin

section \<open>A refresh accepts all it can\<close>

text \<open>
  The daemon's transactions are \<open>candidate\<close>s; \<open>L\<close> is what the database answers for a previous output.
  \<open>usable\<close> says that every database output a waiting transaction spends is still among those handed
  around, unless an accepted transaction spends it; \<open>stuck\<close> that every waiting transaction misses an
  input.  The retry loop ends in a stuck state.
\<close>

definition spent :: "refresh \<Rightarrow> prevout \<Rightarrow> bool" where
  "spent s p \<longleftrightarrow> (\<exists>h t. txs_of s h = Some t \<and> p \<in> set (mt_prevouts t))"

definition answers :: "(prevout \<Rightarrow> pair option) \<Rightarrow> utxo_map \<Rightarrow> bool" where
  "answers L u \<longleftrightarrow> distinct (map fst u) \<and> (\<forall>p x. map_of u p = Some x \<longrightarrow> x = L p)"

definition usable :: "bytes set \<Rightarrow> tx_map \<Rightarrow> utxo_map \<Rightarrow> refresh \<Rightarrow> bool" where
  "usable all_hashes d u s \<longleftrightarrow> (\<forall>h t p. map_of d h = Some t \<longrightarrow> p \<in> set (mt_prevouts t) \<longrightarrow> fst p \<notin> all_hashes \<longrightarrow>
     map_of u p \<noteq> None \<or> spent s p)"

definition stuck :: "tx_map \<Rightarrow> utxo_map \<Rightarrow> refresh \<Rightarrow> bool" where
  "stuck d u s \<longleftrightarrow> (\<forall>h t. map_of d h = Some t \<longrightarrow> mapE (resolve (mp_txs (rf_pool s)) u) (mt_prevouts t) = Inl KeyError)"

lemma grown_keeps: "grown K s s' \<Longrightarrow> txs_of s h = Some t \<Longrightarrow> txs_of s' h = Some t"
  unfolding grown_def map_le_def by (metis domI)

lemma spent_grown: "spent s p \<Longrightarrow> grown K s s' \<Longrightarrow> spent s' p"
  unfolding spent_def using grown_keeps by blast

lemma spent_add: "p \<in> set (mt_prevouts t) \<Longrightarrow> spent (add_tx h t ins s) p"
  unfolding spent_def by (rule exI [of _ h], rule exI [of _ "accepted t ins"]) (simp add: add_tx_def Let_def accepted_def)

lemma filter_prevouts: "map_of (filter (\<lambda>(p, _). p \<notin> S) u) p = (if p \<in> S then None else map_of u p)"
  by (induction u) auto

lemma accept_loop_unspent:
  assumes "accept_loop u tx_map deferred unspent s = (Inr (d', u'), s')" "mp_ok (rf_pool s)"
    "fresh_map tx_map s" "fresh_map deferred s" "fst ` set tx_map \<inter> fst ` set deferred = {}"
  shows "(\<forall>p. map_of u' p = map_of unspent p \<or> (map_of u' p = None \<and> spent s' p)) \<and>
    (length d' = length deferred + length tx_map \<longrightarrow>
       s' = s \<and> u' = unspent \<and> (\<forall>(h, t) \<in> set tx_map. mapE (resolve (mp_txs (rf_pool s)) u) (mt_prevouts t) = Inl KeyError))"
  using assms
proof (induction u tx_map deferred unspent s rule: accept_loop.induct)
  case (2 u h t rest deferred unspent s)
  have h: "txs_of s h = None" "h \<notin> fst ` set deferred" "h \<notin> fst ` set rest" "fresh_map rest s"
    using 2 by (auto simp: fresh_map_def)
  show ?case
  proof (cases "mapE (resolve (mp_txs (rf_pool s)) u) (mt_prevouts t)")
    case (Inl e)
    then have e: "e = KeyError" using 2(3) by (auto split: if_splits)
    have run: "accept_loop u rest (AList.update h t deferred) unspent s = (Inr (d', u'), s')" using 2(3) Inl e by simp
    have "fresh_map (AList.update h t deferred) s" using 2 h by (auto simp: fresh_map_def distinct_update keys_update)
    moreover have "fst ` set rest \<inter> fst ` set (AList.update h t deferred) = {}" using 2(7) h by (auto simp: keys_update)
    ultimately have IH: "\<forall>p. map_of u' p = map_of unspent p \<or> (map_of u' p = None \<and> spent s' p)"
      "length d' = length (AList.update h t deferred) + length rest \<longrightarrow>
       s' = s \<and> u' = unspent \<and> (\<forall>(h, t) \<in> set rest. mapE (resolve (mp_txs (rf_pool s)) u) (mt_prevouts t) = Inl KeyError)"
      using 2(1) [OF Inl e run 2(4) h(4)] by blast+
    have "length (AList.update h t deferred) = Suc (length deferred)"
      using h(2) by (induction deferred) auto
    then show ?thesis using IH Inl e by auto
  next
    case (Inr ins)
    let ?s = "add_tx h t ins s" and ?u = "filter (\<lambda>(p, _). p \<notin> set (mt_prevouts t)) unspent"
    note add = add_tx_grown [OF 2(4) h(1) mapE_resolve_length [OF Inr]]
    have run: "accept_loop u rest deferred ?u ?s = (Inr (d', u'), s')" using 2(3) Inr by simp
    have fr: "fresh_map rest ?s" "fresh_map deferred ?s" using 2(6) h by (auto simp: fresh_map_def add(2))
    have di: "fst ` set rest \<inter> fst ` set deferred = {}" using 2(7) by auto
    have IH: "\<forall>p. map_of u' p = map_of ?u p \<or> (map_of u' p = None \<and> spent s' p)"
      using 2(2) [OF Inr run grown_ok [OF add(1)] fr di] by blast
    have g: "grown (fst ` set rest) ?s s'" using accept_loop_grown [OF run grown_ok [OF add(1)] fr di] by blast
    have "length d' < length deferred + length ((h, t) # rest)"
      using accept_loop_length [OF run] by simp
    moreover have "map_of u' p = map_of unspent p \<or> (map_of u' p = None \<and> spent s' p)" for p
    proof (cases "p \<in> set (mt_prevouts t)")
      case True
      then have "map_of ?u p = None" "spent s' p" using spent_grown [OF spent_add g] by (auto simp: filter_prevouts)
      then show ?thesis using IH by metis
    next
      case False
      then have "map_of ?u p = map_of unspent p" by (simp add: filter_prevouts)
      then show ?thesis using spec [OF IH, of p] by metis
    qed
    ultimately show ?thesis by simp
  qed
qed simp

lemma accept_loop_distinct:
  "accept_loop u tx_map deferred unspent s = (Inr (d', u'), s') \<Longrightarrow> distinct (map fst unspent) \<Longrightarrow> distinct (map fst u')"
  by (induction u tx_map deferred unspent s rule: accept_loop.induct)
    (auto simp: distinct_map_filter split: sum.splits if_splits)

lemma accept_unspent:
  assumes "accept_transactions tx_map u s = (Inr (d', u'), s')" "mp_ok (rf_pool s)" "fresh_map tx_map s"
  shows "map_of u' p = map_of u p \<or> (map_of u' p = None \<and> spent s' p)"
    "length d' = length tx_map \<Longrightarrow> s' = s \<and> u' = u \<and> stuck tx_map u s"
proof -
  have "fresh_map [] s" "fst ` set tx_map \<inter> fst ` set [] = {}" by (simp_all add: fresh_map_def)
  note a = accept_loop_unspent [OF assms(1) [unfolded accept_transactions_def] assms(2,3) this]
  show "map_of u' p = map_of u p \<or> (map_of u' p = None \<and> spent s' p)" using a by blast
  assume "length d' = length tx_map"
  with a have "s' = s \<and> u' = u \<and>
      (\<forall>(h, t) \<in> set tx_map. mapE (resolve (mp_txs (rf_pool s)) u) (mt_prevouts t) = Inl KeyError)" by simp
  then show "s' = s \<and> u' = u \<and> stuck tx_map u s" by (auto simp: stuck_def dest!: map_of_SomeD)
qed

definition waiting :: "(prevout \<Rightarrow> pair option) \<Rightarrow> bytes set \<Rightarrow> (bytes \<Rightarrow> mempool_tx option) \<Rightarrow> tx_map \<Rightarrow> utxo_map \<Rightarrow> refresh \<Rightarrow> bool" where
  "waiting L all_hashes C d u s \<longleftrightarrow> mp_ok (rf_pool s) \<and> fresh_map d s \<and> answers L u \<and> usable all_hashes d u s \<and>
     (\<forall>h t. C h = Some t \<longrightarrow> txs_of s h \<noteq> None \<or> map_of d h = Some t)"

lemma accept_waiting:
  assumes "accept_transactions d u s = (Inr (d', u'), s')" "waiting L all_hashes C d u s"
  shows "waiting L all_hashes C d' u' s'"
proof -
  note w = assms(2) [unfolded waiting_def]
  note g = accept_grown [OF assms(1)]
  have ok: "mp_ok (rf_pool s)" and fr: "fresh_map d s" using w by auto
  note un = accept_unspent(1) [OF assms(1) ok fr]
  have "distinct (map fst u')"
    using accept_loop_distinct [OF assms(1) [unfolded accept_transactions_def]] w by (simp add: answers_def)
  then have "answers L u'" using w un unfolding answers_def by (metis option.distinct(1))
  moreover have "usable all_hashes d' u' s'"
    unfolding usable_def
  proof (intro allI impI)
    fix h t p assume "map_of d' h = Some t" "p \<in> set (mt_prevouts t)" "fst p \<notin> all_hashes"
    moreover from this have "map_of d h = Some t" using g(3) [OF ok fr refl] by (simp add: restrict_map_def split: if_splits)
    ultimately have "map_of u p \<noteq> None \<or> spent s p" using w unfolding usable_def by blast
    then show "map_of u' p \<noteq> None \<or> spent s' p" using un [of p] spent_grown [OF _ g(1) [OF ok fr]] by metis
  qed
  moreover have "txs_of s' h \<noteq> None \<or> map_of d' h = Some t" if "C h = Some t" for h t
  proof (cases "txs_of s' h")
    case None
    then have "txs_of s h = None" using grown_keeps [OF g(1) [OF ok fr]] by (cases "txs_of s h") auto
    then have "map_of d h = Some t" using w that by metis
    then show ?thesis using None g(3) [OF ok fr refl] by (simp add: restrict_map_def domIff)
  qed simp
  ultimately show ?thesis
    using grown_ok [OF g(1) [OF ok fr]] g(2) [OF ok fr refl] by (simp add: waiting_def)
qed

lemma retry_stuck:
  "retry_loop prior d u s = (Inr (d', u'), s') \<Longrightarrow> waiting L all_hashes C d u s \<Longrightarrow> (prior = length d \<Longrightarrow> stuck d u s) \<Longrightarrow>
   waiting L all_hashes C d' u' s' \<and> stuck d' u' s'"
proof (induction prior d u s rule: retry_loop.induct)
  case (1 prior d u s)
  show ?case
  proof (cases "d \<noteq> [] \<and> length d \<noteq> prior")
    case False
    then have "d' = d" "u' = u" "s' = s" using "1.prems"(1) by (auto simp: retry_loop.simps [of prior])
    moreover have "stuck d u s" using False "1.prems"(3) by (cases "d = []") (auto simp: stuck_def)
    ultimately show ?thesis using "1.prems"(2) by simp
  next
    case True
    obtain r1 s1 where a: "accept_transactions d u s = (r1, s1)" by fastforce
    obtain d1 u1 where r1: "r1 = Inr (d1, u1)"
      using "1.prems"(1) True a by (cases r1) (auto simp: retry_loop.simps [of prior])
    note a1 = a [unfolded r1]
    have run: "retry_loop (length d) d1 u1 s1 = (Inr (d', u'), s')"
      using "1.prems"(1) True a1 by (simp add: retry_loop.simps [of prior])
    have ok: "mp_ok (rf_pool s)" "fresh_map d s" using "1.prems"(2) by (auto simp: waiting_def)
    have "stuck d1 u1 s1" if len: "length d = length d1"
    proof -
      have "s1 = s" "u1 = u" "stuck d u s" using accept_unspent(2) [OF a1 ok] len by auto
      moreover have "map_of d h = Some t" if "map_of d1 h = Some t" for h t
        using that accept_grown(3) [OF a1 ok refl] by (simp add: restrict_map_def split: if_splits)
      ultimately show ?thesis unfolding stuck_def by blast
    qed
    then show ?thesis
      using "1.IH" [OF True a [symmetric] r1 refl run accept_waiting [OF a1 "1.prems"(2)]] by blast
  qed
qed

subsection \<open>What the daemon and the database answer\<close>

text \<open>\<open>R\<close> gives the raw transaction the daemon has for a hash, if any, and \<open>L\<close> the unspent output the database
  has for a previous output.\<close>

definition answering :: "mempool_api \<Rightarrow> (bytes \<Rightarrow> bytes option) \<Rightarrow> (prevout \<Rightarrow> pair option) \<Rightarrow> bool" where
  "answering A R L \<longleftrightarrow> (\<forall>hs. raw_transactions A (map hash_to_hex_str hs) = Inr (map R hs)) \<and>
     (\<forall>ps. api_lookup_utxos A ps = Inr (map L ps))"

definition candidate :: "mempool_api \<Rightarrow> (bytes \<Rightarrow> bytes option) \<Rightarrow> bytes \<Rightarrow> mempool_tx option" where
  "candidate A R h =
     (case R h of
        Some (b # bs) \<Rightarrow> (case read_tx_and_vsize A (b # bs) of Inr (t, sz) \<Rightarrow> Some (mempool_tx_of A t sz) | Inl _ \<Rightarrow> None)
      | _ \<Rightarrow> None)"

lemma deserialize_map:
  "deserialize_txs A (zip hs (map R hs)) txs = Inr d \<Longrightarrow> distinct hs \<Longrightarrow> set hs \<inter> fst ` set txs = {} \<Longrightarrow>
   map_of d h = (if h \<in> set hs then candidate A R h else map_of txs h)"
proof (induction hs arbitrary: txs)
  case (Cons k hs)
  have none: "map_of txs k = None" using Cons.prems(3) by (simp add: map_of_eq_None_iff)
  show ?case
  proof (cases "candidate A R k")
    case (Some t)
    then have "deserialize_txs A (zip hs (map R hs)) (AList.update k t txs) = Inr d"
      using Cons.prems(1) by (auto simp: candidate_def split: option.splits list.splits sum.splits)
    from Cons.IH [OF this] show ?thesis using Cons.prems(2,3) Some by (auto simp: keys_update)
  next
    case None
    then have "deserialize_txs A (zip hs (map R hs)) txs = Inr d"
      using Cons.prems(1) by (auto simp: candidate_def split: option.splits list.splits sum.splits if_splits)
    from Cons.IH [OF this] show ?thesis using Cons.prems(2,3) None none by auto
  qed
qed simp

lemma dict_of_answers: "map_of (dict_of (zip ps (map L ps))) p = (if p \<in> set ps then Some (L p) else None)"
proof -
  have "map_of (fold (\<lambda>(k, v). AList.update k v) (zip ps (map L ps)) d) p = (if p \<in> set ps then Some (L p) else map_of d p)" for d
    by (induction ps arbitrary: d) auto
  then show ?thesis by (simp add: dict_of_def)
qed

lemma fetch_waiting:
  assumes "fetch A hs all_hashes = Inr (d, u)" "answering A R L" "distinct hs" "mp_ok (rf_pool s)" "set hs \<inter> dom (txs_of s) = {}"
  shows "waiting L all_hashes (candidate A R |` set hs) d u s"
proof -
  let ?ps = "concat (map (\<lambda>(_, t). filter (\<lambda>p. fst p \<notin> all_hashes) (mt_prevouts t)) d)"
  have d: "deserialize_txs A (zip hs (map R hs)) [] = Inr d" and u: "u = dict_of (zip ?ps (map L ?ps))"
    using assms(1,2) by (auto simp: fetch_def answering_def err_simps Let_def)
  have map_d: "map_of d h = (candidate A R |` set hs) h" for h
    using deserialize_map [OF d assms(3), of h] by (simp add: restrict_map_def)
  have "fresh_map d s" using fetch_keys [OF assms(1)] assms(5) unfolding fresh_map_def by blast
  moreover have "answers L u"
    using fold_update_distinct [of "[]" "zip ?ps (map L ?ps)"]
    by (auto simp: answers_def u dict_of_answers dict_of_def [symmetric] split: if_splits)
  moreover have "map_of u p \<noteq> None"
    if "map_of d h = Some t" "p \<in> set (mt_prevouts t)" "fst p \<notin> all_hashes" for h t p
  proof -
    have "p \<in> set ?ps" using that by (force dest: map_of_SomeD)
    then show ?thesis unfolding u dict_of_answers by simp
  qed
  ultimately show ?thesis using assms(4) map_d by (auto simp: waiting_def usable_def)
qed

lemma usable_grown: "usable H d u s \<Longrightarrow> grown K s s' \<Longrightarrow> usable H d u s'"
  unfolding usable_def using spent_grown by blast

lemma waiting_merge:
  assumes "waiting L H C1 tm u s" "waiting L H C2 d' u' s1" "grown K s s1" "fst ` set tm \<inter> (K \<union> fst ` set d') = {}"
    "dom C1 \<inter> dom C2 = {}"
  shows "waiting L H (C1 ++ C2) (fold (\<lambda>(k, v). AList.update k v) d' tm) (fold (\<lambda>(k, v). AList.update k v) u' u) s1"
proof -
  note w1 = assms(1) [unfolded waiting_def] and w2 = assms(2) [unfolded waiting_def]
  let ?d = "fold (\<lambda>(k, v). AList.update k v) d' tm" and ?u = "fold (\<lambda>(k, v). AList.update k v) u' u"
  have d: "map_of ?d = map_of tm ++ map_of d'"
    using w2 by (simp add: fold_update map_of_rev fresh_map_def)
  have u: "map_of ?u = map_of u ++ map_of u'"
    using w2 by (simp add: fold_update map_of_rev answers_def)
  have keys: "fst ` set ?d = fst ` set d' \<union> fst ` set tm" by (simp add: fold_update_keys)
  have "fresh_map tm s1" using fresh_map_grown [OF _ assms(3)] w1 assms(4) by blast
  then have "fresh_map ?d s1" using w2 unfolding fresh_map_def keys by (auto simp: fold_update_distinct)
  moreover have "answers L ?u"
    using w1 w2 unfolding answers_def u by (auto simp: fold_update_distinct map_add_Some_iff)
  moreover have "usable H ?d ?u s1"
    unfolding usable_def d u
  proof (intro allI impI)
    fix h t p assume "(map_of tm ++ map_of d') h = Some t" "p \<in> set (mt_prevouts t)" "fst p \<notin> H"
    moreover have "usable H tm u s1" using w1 usable_grown [OF _ assms(3)] by blast
    moreover have "usable H d' u' s1" using w2 by blast
    moreover have "map_of d' h = Some t \<or> map_of tm h = Some t"
      using \<open>(map_of tm ++ map_of d') h = Some t\<close> by (auto simp: map_add_Some_iff)
    ultimately have "map_of u p \<noteq> None \<or> map_of u' p \<noteq> None \<or> spent s1 p"
      unfolding usable_def by blast
    then show "(map_of u ++ map_of u') p \<noteq> None \<or> spent s1 p" by (auto simp: map_add_def split: option.splits)
  qed
  moreover have "txs_of s1 h \<noteq> None \<or> map_of ?d h = Some t" if "(C1 ++ C2) h = Some t" for h t
  proof (cases "C2 h")
    case None
    then have "C1 h = Some t" using that by (simp add: map_add_def)
    then have "txs_of s h \<noteq> None \<or> map_of tm h = Some t" using w1 by blast
    moreover have "map_of d' h = None" if "map_of tm h = Some t"
    proof -
      have "h \<in> fst ` set tm" using map_of_SomeD [OF that] by force
      then have "h \<notin> fst ` set d'" using assms(4) by blast
      then show ?thesis by (simp add: map_of_eq_None_iff)
    qed
    ultimately show ?thesis using grown_keeps [OF assms(3)] unfolding d by (auto simp: map_add_def)
  next
    case (Some t')
    then have "txs_of s1 h \<noteq> None \<or> map_of d' h = Some t" using that w2 by (metis map_add_find_right option.inject)
    then show ?thesis unfolding d by (auto simp: map_add_def)
  qed
  ultimately show ?thesis using w2 by (auto simp: waiting_def)
qed

lemma task_waiting:
  assumes "fetch_and_accept A hs all_hashes s = (Inr (d', u'), s')" "answering A R L" "distinct hs" "mp_ok (rf_pool s)"
    "set hs \<inter> dom (txs_of s) = {}"
  shows "waiting L all_hashes (candidate A R |` set hs) d' u' s'"
proof -
  obtain d u where f: "fetch A hs all_hashes = Inr (d, u)" and a: "accept_transactions d u s = (Inr (d', u'), s')"
    using assms(1) by (cases "fetch A hs all_hashes") (auto simp: fetch_and_accept_def)
  show ?thesis by (rule accept_waiting [OF a fetch_waiting [OF f assms(2-5)]])
qed

lemma run_tasks_waiting:
  "run_tasks A H bs tm u s = (Inr (d', u'), s') \<Longrightarrow> answering A R L \<Longrightarrow> waiting L H C tm u s \<Longrightarrow>
   distinct (concat bs) \<Longrightarrow> set (concat bs) \<inter> (dom (txs_of s) \<union> fst ` set tm \<union> dom C) = {} \<Longrightarrow>
   waiting L H (C ++ (candidate A R |` set (concat bs))) d' u' s'"
proof (induction A H bs tm u s arbitrary: C rule: run_tasks.induct)
  case (2 A H hs rest tm u s)
  obtain d1 u1 s1 where t: "fetch_and_accept A hs H s = (Inr (d1, u1), s1)"
    using 2(2) by (auto split: prod.splits sum.splits)
  let ?tm = "fold (\<lambda>(k, v). AList.update k v) d1 tm"
  have run: "run_tasks A H rest ?tm (fold (\<lambda>(k, v). AList.update k v) u1 u) s1 = (Inr (d', u'), s')"
    using 2(2) t by simp
  have ok: "mp_ok (rf_pool s)" using 2(4) by (simp add: waiting_def)
  have sep: "set hs \<inter> (dom (txs_of s) \<union> fst ` set tm \<union> dom C) = {}" using 2(6) by auto
  have new: "distinct hs" "set hs \<inter> dom (txs_of s) = {}" using 2(5) sep by auto
  note g = task_grown [OF t ok new(2)]
  have d1: "fst ` set d1 \<subseteq> set hs" using g(2) [OF refl] by blast
  have "waiting L H (C ++ (candidate A R |` set hs)) ?tm (fold (\<lambda>(k, v). AList.update k v) u1 u) s1"
    using 2(4) task_waiting [OF t 2(3) new(1) ok new(2)] g(1)
  proof (rule waiting_merge)
    show "fst ` set tm \<inter> (set hs \<union> fst ` set d1) = {}" using sep d1 by blast
    show "dom C \<inter> dom (candidate A R |` set hs) = {}" using sep by auto
  qed
  moreover have "set (concat rest) \<inter> (dom (txs_of s1) \<union> fst ` set ?tm \<union> dom (C ++ (candidate A R |` set hs))) = {}"
  proof -
    let ?X = "dom (txs_of s1) \<union> fst ` set ?tm \<union> dom (C ++ (candidate A R |` set hs))"
    let ?Y = "(dom (txs_of s) \<union> fst ` set tm \<union> dom C) \<union> set hs"
    have "dom (txs_of s1) \<subseteq> ?Y" using g(1) by (auto simp: grown_def)
    moreover have "fst ` set ?tm \<subseteq> ?Y" using d1 unfolding fold_update_keys by blast
    moreover have "dom (C ++ (candidate A R |` set hs)) \<subseteq> ?Y" by auto
    ultimately have "set (concat rest) \<inter> ?X \<subseteq> set (concat rest) \<inter> ?Y" by (intro Int_mono subset_refl Un_least)
    also have "\<dots> = (set (concat rest) \<inter> (dom (txs_of s) \<union> fst ` set tm \<union> dom C)) \<union> (set (concat rest) \<inter> set hs)"
      by (rule Int_Un_distrib)
    also have "set (concat rest) \<inter> (dom (txs_of s) \<union> fst ` set tm \<union> dom C) = {}" using 2(6) by auto
    also have "set (concat rest) \<inter> set hs = {}" using 2(5) by auto
    finally show ?thesis by simp
  qed
  moreover have "distinct (concat rest)" using 2(5) by simp
  ultimately have "waiting L H ((C ++ (candidate A R |` set hs)) ++ (candidate A R |` set (concat rest))) d' u' s'"
    using 2(1) [OF t [symmetric] refl refl run 2(3)] by blast
  moreover have "(C ++ (candidate A R |` set hs)) ++ (candidate A R |` set (concat rest)) =
      C ++ (candidate A R |` set (concat (hs # rest)))"
    by (auto simp: fun_eq_iff map_add_def restrict_map_def split: option.splits)
  ultimately show ?case by simp
qed simp

lemma resolve_fails:
  "mapE (resolve txs u) ps = Inl KeyError \<Longrightarrow>
   \<exists>p \<in> set ps. map_of txs (fst p) = None \<and> (\<forall>x. map_of u p \<noteq> Some (Some x))"
proof (induction ps)
  case (Cons p ps)
  then show ?case
    by (cases "resolve txs u p") (auto simp: resolve_def bindE_Inl_iff split: option.splits if_splits)
qed simp

text \<open>C2: a refresh that ends well accepts every transaction it can: each of the daemon's transactions that
  could be fetched and read is then in the pool, or spends an output of a transaction that is not in the
  pool and that the database could not give either, because it was not asked (the spent transaction is
  itself one of the daemon's unconfirmed ones), has no such unspent output, or
  gave it to an accepted transaction spending the same output.\<close>

theorem mempool_accepts_all:
  assumes "mp_ok (rf_pool s)" "any_order A" "finite all_hashes" "answering A R L"
    "process_mempool A h h' all_hashes h s = (None, s')" "k \<in> all_hashes" "candidate A R k = Some t"
  shows "txs_of s' k \<noteq> None \<or>
    (\<exists>p \<in> set (mt_prevouts t). txs_of s' (fst p) = None \<and> (fst p \<in> all_hashes \<or> L p = None \<or> spent s' p))"
proof -
  from process_start [OF assms(1-3), of h h'] obtain s1 bs where
    s1: "mp_ok (rf_pool s1)" "txs_of s1 = txs_of s |` all_hashes"
    and bs: "distinct (concat bs)" "set (concat bs) = all_hashes - dom (txs_of s)" "set (concat bs) \<inter> dom (txs_of s1) = {}"
    and step: "process_mempool A h h' all_hashes h s =
      (if concat bs = [] then (None, s1) else if h \<noteq> h' then (Some DBSyncError, s1)
       else case run_tasks A all_hashes bs [] [] s1 of
              (Inl e, s) \<Rightarrow> (Some e, s)
            | (Inr (tx_map, u), s) \<Rightarrow>
                (case retry_loop 0 tx_map u s of (Inl e, s) \<Rightarrow> (Some e, s) | (Inr _, s) \<Rightarrow> (None, s)))" .
  from process_phases [OF assms(1-3,5)] obtain s1' where
    "txs_of s1' = txs_of s |` all_hashes" "grown (all_hashes - dom (txs_of s)) s1' s'" by blast
  then have kept: "txs_of s' k \<noteq> None" if "txs_of s k \<noteq> None"
    using that assms(6) grown_keeps [of _ s1' s' k] by auto
  show ?thesis
  proof (cases "txs_of s k")
    case None
    then have k: "k \<in> set (concat bs)" using bs(2) assms(6) by auto
    then have "concat bs \<noteq> []" by (metis empty_iff empty_set)
    then have eq: "h = h'" "(case run_tasks A all_hashes bs [] [] s1 of
              (Inl e, s) \<Rightarrow> (Some e, s)
            | (Inr (tx_map, u), s) \<Rightarrow>
                (case retry_loop 0 tx_map u s of (Inl e, s) \<Rightarrow> (Some e, s) | (Inr _, s) \<Rightarrow> (None, s))) = (None, s')"
      using assms(5) unfolding step by (auto split: if_splits)
    obtain d u s2 where run: "run_tasks A all_hashes bs [] [] s1 = (Inr (d, u), s2)"
      using eq(2) by (auto split: prod.splits sum.splits)
    obtain d' u' where retry: "retry_loop 0 d u s2 = (Inr (d', u'), s')"
      using eq(2) unfolding run by (auto split: prod.splits sum.splits)
    have "waiting L all_hashes Map.empty [] [] s1"
      using s1(1) by (simp add: waiting_def fresh_map_def answers_def usable_def)
    from run_tasks_waiting [OF run assms(4) this bs(1)] bs(3)
    have "waiting L all_hashes (candidate A R |` set (concat bs)) d u s2" by simp
    from retry_stuck [OF retry this] have w: "waiting L all_hashes (candidate A R |` set (concat bs)) d' u' s'"
      and st: "stuck d' u' s'" by (auto simp: stuck_def)
    show ?thesis
    proof (cases "txs_of s' k")
      case None
      have "(candidate A R |` set (concat bs)) k = Some t" using k assms(7) by (simp add: restrict_map_def)
      then have d': "map_of d' k = Some t" using w None unfolding waiting_def by blast
      then have "mapE (resolve (mp_txs (rf_pool s')) u') (mt_prevouts t) = Inl KeyError" using st unfolding stuck_def by blast
      from resolve_fails [OF this] obtain p where p: "p \<in> set (mt_prevouts t)" "txs_of s' (fst p) = None"
        "\<forall>x. map_of u' p \<noteq> Some (Some x)" by blast
      have "fst p \<in> all_hashes \<or> L p = None \<or> spent s' p"
      proof (cases "fst p \<in> all_hashes")
        case False
        then have "map_of u' p \<noteq> None \<or> spent s' p" using w d' p(1) unfolding waiting_def usable_def by blast
        then show ?thesis using w p(3) unfolding waiting_def answers_def by (metis not_None_eq)
      qed simp
      then show ?thesis using p by blast
    qed simp
  qed (use kept in simp)
qed

lemma sample_answering: "answering sample_api (\<lambda>_. Some [1]) (\<lambda>_. Some ([5], 100))"
  by (simp add: answering_def sample_api_def)

theorem mempool_accepts_all_witness:
  "\<exists>s'. process_mempool sample_api 8 8 {[3]} 8 \<lparr>rf_touched = {}, rf_pool = sample_pool\<rparr> = (None, s') \<and>
     (txs_of s' [3] \<noteq> None \<or> txs_of s' [9] = None \<and> spent s' ([9], 0))"
proof -
  let ?s = "\<lparr>rf_touched = {}, rf_pool = sample_pool\<rparr>"
  obtain e s' where r: "process_mempool sample_api 8 8 {[3]} 8 ?s = (e, s')" by fastforce
  have e: "e = None"
    using r [symmetric]
    by (simp add: process_mempool_def sample_api_def sample_pool_def remove_tx_def tx_hashXs_def remove_hashX_def
        Let_def chunks.simps fetch_and_accept_def fetch_def mempool_tx_of_def sample_tx_def is_generation_def MINUS_1_def
        dict_of_def accept_transactions_def resolve_def add_tx_def retry_loop.simps insert_commute accepted_def)
  have c: "candidate sample_api (\<lambda>_. Some [1]) [3] = Some (mempool_tx_of sample_api sample_tx 120)"
    by (simp add: candidate_def sample_api_def)
  have ok: "mp_ok (rf_pool ?s)" "finite {[3 :: byte]}" "[3 :: byte] \<in> {[3]}" by (simp_all add: sample_pool_ok)
  from mempool_accepts_all [OF ok(1) sample_order ok(2) sample_answering r [unfolded e] ok(3) c]
  have "txs_of s' [3] \<noteq> None \<or> txs_of s' [9] = None \<and> spent s' ([9], 0)"
    by (simp add: mempool_tx_of_def sample_tx_def is_generation_def MINUS_1_def)
  then show ?thesis using r e by blast
qed

end
