(* ===== verification/FeeHistogram.thy ===== *)
theory FeeHistogram
  imports Mempool "HOL-Library.Multiset"
begin

section \<open>The fee histogram (MemPool._update_histogram)\<close>

text \<open>
  Fee rates and bin sizes are floating-point numbers; the record \<open>bins\<close> holds the operations the code does
  on them: the rate of a fee and size (rounded down to a tenth), the two comparisons with a bin
  size, its growth by a tenth, and the test of the assertion.  Rates are only compared and counted, so
  the model holds for any linear order of rates.  The rate is a fee divided by a size, which in the source fails for
  a size of 0; the size of a transaction that was read is never 0.
\<close>

record ('r, 'b) bins =
  fee_rate :: "int \<Rightarrow> nat \<Rightarrow> 'r"
  over_bin :: "nat \<Rightarrow> 'b \<Rightarrow> bool"
  over_two_bins :: "nat \<Rightarrow> 'b \<Rightarrow> bool"
  grow_bin :: "'b \<Rightarrow> 'b"
  positive_bin :: "'b \<Rightarrow> bool"

definition count_size :: "'r \<Rightarrow> nat \<Rightarrow> ('r \<times> nat) list \<Rightarrow> ('r \<times> nat) list" where
  "count_size rate sz histogram =
     AList.update rate ((case map_of histogram rate of None \<Rightarrow> 0 | Some n \<Rightarrow> n) + sz) histogram"

definition histogram_of :: "('r, 'b) bins \<Rightarrow> mempool_tx list \<Rightarrow> ('r \<times> nat) list" where
  "histogram_of F ts = fold (\<lambda>t. count_size (fee_rate F (mt_fee t) (mt_size t)) (mt_size t)) ts []"

text \<open>The loop: \<open>cum_size\<close> is what is not yet in a bucket, \<open>prev\<close> the rate of the last item.\<close>

fun compress_loop :: "('r, 'b) bins \<Rightarrow> 'b \<Rightarrow> nat \<Rightarrow> 'r option \<Rightarrow> ('r \<times> nat) list \<Rightarrow> ('r \<times> nat) list" where
  "compress_loop F bin cum_size prev [] = []"
| "compress_loop F bin cum_size prev ((rate, sz) # rest) =
     (let (out1, cum_size, bin) =
            (case prev of
               Some p \<Rightarrow> if over_two_bins F sz bin \<and> cum_size > 0 then ([(p, cum_size)], 0, grow_bin F bin)
                         else ([], cum_size, bin)
             | None \<Rightarrow> ([], cum_size, bin));
          cum_size = cum_size + sz;
          (out2, cum_size, bin) =
            (if over_bin F cum_size bin then ([(rate, cum_size)], 0, grow_bin F bin) else ([], cum_size, bin))
      in out1 @ out2 @ compress_loop F bin cum_size (Some rate) rest)"

definition compress_histogram :: "('r :: linorder, 'b) bins \<Rightarrow> 'b \<Rightarrow> ('r \<times> nat) list \<Rightarrow> exn + ('r \<times> nat) list" where
  "compress_histogram F bin_size histogram =
     bindE (assertE (positive_bin F bin_size)) (\<lambda>_.
       Inr (compress_loop F bin_size 0 None (rev (sort_key fst histogram))))"

definition update_histogram :: "('r :: linorder, 'b) bins \<Rightarrow> 'b \<Rightarrow> mempool \<Rightarrow> exn + ('r \<times> nat) list" where
  "update_histogram F bin_size m = compress_histogram F bin_size (histogram_of F (map snd (mp_txs m)))"

subsection \<open>What a bucket counts\<close>

definition size_from :: "'r :: linorder \<Rightarrow> ('r \<times> nat) list \<Rightarrow> nat" where
  "size_from r h = sum_list (map snd (filter (\<lambda>(rate, _). r \<le> rate) h))"

lemma size_from_simps [simp]:
  "size_from r [] = 0" "size_from r ((rate, sz) # h) = (if r \<le> rate then sz else 0) + size_from r h"
  "size_from r (xs @ ys) = size_from r xs + size_from r ys"
  by (simp_all add: size_from_def)

lemma size_from_none: "\<forall>x \<in> set h. fst x < r \<Longrightarrow> size_from r h = 0"
  by (auto simp: size_from_def filter_empty_conv)

text \<open>Buckets are in the order of falling rates, and all up to one hold what pays at least its rate.\<close>

definition buckets_ok :: "nat \<Rightarrow> ('r :: linorder \<times> nat) list \<Rightarrow> ('r \<times> nat) list \<Rightarrow> bool" where
  "buckets_ok cum rest out \<longleftrightarrow> sorted_wrt (>) (map fst out) \<and>
     (\<forall>n < length out. sum_list (map snd (take (Suc n) out)) = cum + size_from (fst (out ! n)) rest)"

lemma buckets_ok_Cons:
  assumes "buckets_ok 0 rest out" "size_from r rest' = v - cum" "cum \<le> v" "\<forall>x \<in> set out. fst x < r"
    "\<And>x. x \<in> set out \<Longrightarrow> cum + size_from (fst x) rest' = v + size_from (fst x) rest"
  shows "buckets_ok cum rest' ((r, v) # out)"
  unfolding buckets_ok_def
proof (intro conjI allI impI)
  show "sorted_wrt (>) (map fst ((r, v) # out))" using assms(1,4) by (simp add: buckets_ok_def)
  fix n assume n: "n < length ((r, v) # out)"
  show "sum_list (map snd (take (Suc n) ((r, v) # out))) = cum + size_from (fst (((r, v) # out) ! n)) rest'"
  proof (cases n)
    case 0
    then show ?thesis using assms(2,3) by simp
  next
    case (Suc k)
    then have "k < length out" using n by simp
    then show ?thesis using Suc assms(1) assms(5) [of "out ! k"] by (simp add: buckets_ok_def)
  qed
qed

lemma compress_loop_Cons:
  "compress_loop F bin cum prev ((rate, sz) # rest) =
     (let tail = (\<lambda>c b. if over_bin F (c + sz) b then (rate, c + sz) # compress_loop F (grow_bin F b) 0 (Some rate) rest
                       else compress_loop F b (c + sz) (Some rate) rest)
      in case prev of
           Some p \<Rightarrow> if over_two_bins F sz bin \<and> cum > 0 then (p, cum) # tail 0 (grow_bin F bin) else tail cum bin
         | None \<Rightarrow> tail cum bin)"
  by (cases prev; cases "over_two_bins F sz bin"; cases "cum = 0") (simp_all add: Let_def)

lemma compress_loop_rates:
  "x \<in> set (compress_loop F bin cum prev rest) \<Longrightarrow> fst x \<in> fst ` set rest \<or> (cum > 0 \<and> prev = Some (fst x))"
proof (induction rest arbitrary: bin cum prev)
  case (Cons y rest)
  obtain rate sz where y: "y = (rate, sz)" by (cases y)
  have "x \<in> set (compress_loop F b c (Some rate) rest) \<Longrightarrow> fst x \<in> fst ` set (y # rest)" for b c
    using Cons.IH [of b c "Some rate"] y by auto
  with Cons.prems show ?case unfolding y compress_loop_Cons by (fastforce split: option.splits if_splits)
qed simp

lemma compress_loop_ok:
  "sorted_wrt (\<lambda>x y. fst x > fst y) rest \<Longrightarrow> (\<And>p. prev = Some p \<Longrightarrow> \<forall>x \<in> set rest. fst x < p) \<Longrightarrow>
   buckets_ok cum rest (compress_loop F bin cum prev rest)"
proof (induction rest arbitrary: bin cum prev)
  case Nil
  then show ?case by (simp add: buckets_ok_def)
next
  case (Cons x rest)
  obtain rate sz where x: "x = (rate, sz)" by (cases x)
  have lower: "\<forall>y \<in> set rest. fst y < rate" using Cons.prems(1) x by simp
  have IH: "buckets_ok c rest (compress_loop F b c (Some rate) rest)" for b c
    using Cons.IH [of "Some rate" c b] Cons.prems(1) lower by simp
  have second: "buckets_ok c (x # rest)
      (if over_bin F (c + sz) b then (rate, c + sz) # compress_loop F (grow_bin F b) 0 (Some rate) rest
       else compress_loop F b (c + sz) (Some rate) rest)" for b c
  proof (cases "over_bin F (c + sz) b")
    case True
    have "buckets_ok c (x # rest) ((rate, c + sz) # compress_loop F (grow_bin F b) 0 (Some rate) rest)"
    proof (rule buckets_ok_Cons [OF IH])
      show "size_from rate (x # rest) = c + sz - c" using size_from_none [OF lower] x by simp
      show "\<forall>y \<in> set (compress_loop F (grow_bin F b) 0 (Some rate) rest). fst y < rate"
        using compress_loop_rates lower by fastforce
      then show "\<And>y. y \<in> set (compress_loop F (grow_bin F b) 0 (Some rate) rest) \<Longrightarrow>
          c + size_from (fst y) (x # rest) = c + sz + size_from (fst y) rest" using x by force
    qed simp
    then show ?thesis using True by simp
  next
    case False
    have rates: "fst y \<le> rate" if "y \<in> set (compress_loop F b (c + sz) (Some rate) rest)" for y
      using compress_loop_rates [OF that] lower by fastforce
    show ?thesis
      using False IH [of "c + sz" b] x rates [OF nth_mem] by (simp add: buckets_ok_def)
  qed
  show ?case
  proof (cases "\<exists>p. prev = Some p \<and> over_two_bins F sz bin \<and> cum > 0")
    case True
    then obtain p where p: "prev = Some p" "over_two_bins F sz bin" "cum > 0" by blast
    let ?out = "if over_bin F sz (grow_bin F bin) then (rate, sz) # compress_loop F (grow_bin F (grow_bin F bin)) 0 (Some rate) rest
       else compress_loop F (grow_bin F bin) sz (Some rate) rest"
    have below: "\<forall>y \<in> set (x # rest). fst y < p" using Cons.prems(2) [OF p(1)] .
    have "buckets_ok cum (x # rest) ((p, cum) # ?out)"
    proof (rule buckets_ok_Cons)
      show "buckets_ok 0 (x # rest) ?out" using second [of 0 "grow_bin F bin"] unfolding add_0 .
      show "size_from p (x # rest) = cum - cum" using size_from_none [OF below] by simp
      show "\<forall>y \<in> set ?out. fst y < p"
        using below x by (auto dest!: compress_loop_rates split: if_splits)
    qed simp_all
    moreover have "compress_loop F bin cum prev (x # rest) = (p, cum) # ?out" using p x by (simp add: Let_def)
    ultimately show ?thesis by simp
  next
    case False
    then have "compress_loop F bin cum prev (x # rest) =
        (if over_bin F (cum + sz) bin then (rate, cum + sz) # compress_loop F (grow_bin F bin) 0 (Some rate) rest
         else compress_loop F bin (cum + sz) (Some rate) rest)"
      using x by (auto simp: Let_def split: option.splits)
    then show ?thesis using second [of cum bin] by simp
  qed
qed

lemma count_size_from:
  "distinct (map fst h) \<Longrightarrow> size_from r (count_size rate sz h) = size_from r h + (if r \<le> rate then sz else 0)"
  unfolding count_size_def
proof (induction h)
  case (Cons x h)
  then show ?case by (cases x) (auto split: option.splits)
qed simp

lemma histogram_of_ok:
  "distinct (map fst (histogram_of F ts)) \<and>
   size_from r (histogram_of F ts) = sum_list (map mt_size (filter (\<lambda>t. r \<le> fee_rate F (mt_fee t) (mt_size t)) ts))"
proof -
  have "distinct (map fst h) \<Longrightarrow>
      distinct (map fst (fold (\<lambda>t. count_size (fee_rate F (mt_fee t) (mt_size t)) (mt_size t)) ts h)) \<and>
      size_from r (fold (\<lambda>t. count_size (fee_rate F (mt_fee t) (mt_size t)) (mt_size t)) ts h) =
      size_from r h + sum_list (map mt_size (filter (\<lambda>t. r \<le> fee_rate F (mt_fee t) (mt_size t)) ts))" for h
  proof (induction ts arbitrary: h)
    case (Cons t ts)
    have "distinct (map fst (count_size (fee_rate F (mt_fee t) (mt_size t)) (mt_size t) h))"
      using Cons.prems by (simp add: count_size_def distinct_update)
    from Cons.IH [OF this] show ?case using count_size_from [OF Cons.prems] by simp
  qed simp
  from this [of "[]"] show ?thesis by (simp add: histogram_of_def)
qed

lemma size_from_perm: "mset h = mset h' \<Longrightarrow> size_from r h = size_from r h'"
proof -
  have eq: "size_from r h = sum_mset (image_mset snd (filter_mset (\<lambda>(rate, _). r \<le> rate) (mset h)))" for h :: "('a \<times> nat) list"
    by (induction h) auto
  show "mset h = mset h' \<Longrightarrow> size_from r h = size_from r h'" by (simp add: eq)
qed

text \<open>C4: in the compact histogram rates fall strictly, and the sizes of all buckets up to and including
  one add up to the sizes of exactly those transactions of the pool that pay at least its rate.\<close>

theorem fee_histogram_cumulative:
  assumes "update_histogram F bin_size m = Inr compact"
  shows "sorted_wrt (>) (map fst compact) \<and>
    (\<forall>n < length compact. sum_list (map snd (take (Suc n) compact)) =
       sum_list (map mt_size (filter (\<lambda>t. fst (compact ! n) \<le> fee_rate F (mt_fee t) (mt_size t)) (map snd (mp_txs m)))))"
proof -
  let ?h = "histogram_of F (map snd (mp_txs m))" and ?s = "rev (sort_key fst (histogram_of F (map snd (mp_txs m))))"
  have c: "compact = compress_loop F bin_size 0 None ?s"
    using assms by (auto simp: update_histogram_def compress_histogram_def err_simps)
  have "distinct (map fst (sort_key fst ?h))"
  proof -
    have "mset (map fst (sort_key fst ?h)) = mset (map fst ?h)" by simp
    then show ?thesis using histogram_of_ok mset_eq_imp_distinct_iff by blast
  qed
  then have "sorted_wrt (<) (map fst (sort_key fst ?h))"
    by (simp add: strict_sorted_iff)
  then have "sorted_wrt (\<lambda>x y. fst x > fst y) ?s" by (simp add: sorted_wrt_rev sorted_wrt_map)
  from compress_loop_ok [OF this, of None 0 F bin_size] have "buckets_ok 0 ?s compact" by (simp add: c)
  moreover have "size_from r ?s = sum_list (map mt_size (filter (\<lambda>t. r \<le> fee_rate F (mt_fee t) (mt_size t)) (map snd (mp_txs m))))"
    for r
    using size_from_perm [of ?s ?h r] histogram_of_ok [of F "map snd (mp_txs m)" r] by simp
  ultimately show ?thesis unfolding buckets_ok_def by simp
qed

definition sample_bins :: "(int, nat) bins" where
  "sample_bins = \<lparr>fee_rate = (\<lambda>fee sz. 10 * fee div int sz), over_bin = (\<lambda>n b. n > b),
     over_two_bins = (\<lambda>n b. n > 2 * b), grow_bin = (\<lambda>b. b + b div 10), positive_bin = (\<lambda>b. b > 0)\<rparr>"

definition sample_fees :: mempool where
  "sample_fees = \<lparr>mp_txs = map (\<lambda>(h, fee, sz). ([h], \<lparr>mt_prevouts = [], mt_in_pairs = Some [], mt_out_pairs = [],
     mt_fee = fee, mt_size = sz\<rparr>)) [(1, 100, 50), (2, 100, 60), (3, 30, 300)], mp_hashXs = (\<lambda>_. None)\<rparr>"

theorem fee_histogram_cumulative_witness:
  "update_histogram sample_bins 100 sample_fees = Inr [(16, 110), (1, 300)] \<and> (50 :: nat) + 60 = 110"
proof -
  have r: "update_histogram sample_bins 100 sample_fees = Inr [(16, 110), (1, 300)]"
    by (simp add: update_histogram_def compress_histogram_def sample_bins_def sample_fees_def histogram_of_def
        count_size_def Let_def sort_key_def)
  from fee_histogram_cumulative [OF r] have "(50 :: nat) + 60 = 110"
    by simp
  then show ?thesis using r by simp
qed

end
