(* ===== verification/MempoolRefresh.thy ===== *)
theory MempoolRefresh
  imports MempoolSync
begin

section \<open>The refresh loop (MemPool._refresh_hashes)\<close>

text \<open>
  One iteration of the loop on what the daemon and the database say meanwhile (\<open>view\<close>), which may be something else in
  every round.  A round that is aborted after it spawned the tasks that fetch transactions leaves them running in the
  source; what such tasks still do to the pool after the round is not part of this model.  The touched
  set lives across iterations: it is reported, and emptied, by the first refresh that ends well.  The
  result is the report made to \<open>on_mempool\<close>, if any, and the exception that ends the loop, if any.
\<close>

record view =
  v_cached_height :: int
  v_height :: int
  v_db_height :: int
  v_db_height' :: int
  v_hex_hashes :: "string list"
  v_api :: mempool_api

definition refresh_hashes ::
  "view \<Rightarrow> refresh \<Rightarrow> (bytes set \<times> int) option \<times> exn option \<times> refresh" where
  "refresh_hashes v s =
     (if v_cached_height v \<noteq> v_height v then (None, None, s)
      else case mapE hex_str_to_hash (v_hex_hashes v) of
             Inl e \<Rightarrow> (None, Some e, s)
           | Inr hashes \<Rightarrow>
               (case process_mempool (v_api v) (v_db_height v) (v_db_height' v) (set hashes) (v_cached_height v) s of
                  (None, s) \<Rightarrow> (Some (rf_touched s, v_cached_height v), None, s\<lparr>rf_touched := {}\<rparr>)
                | (Some e, s) \<Rightarrow> (None, if e = DBSyncError then None else Some e, s)))"

fun refresh_run :: "view list \<Rightarrow> refresh \<Rightarrow> (bytes set \<times> int) list \<times> exn option \<times> refresh" where
  "refresh_run [] s = ([], None, s)"
| "refresh_run (v # vs) s =
     (case refresh_hashes v s of
        (r, Some e, s) \<Rightarrow> ([], Some e, s)
      | (r, None, s) \<Rightarrow>
          (case refresh_run vs s of (rs, e, s) \<Rightarrow> (case r of None \<Rightarrow> rs | Some x \<Rightarrow> x # rs, e, s)))"

definition reported :: "(bytes set \<times> int) list \<Rightarrow> bytes set" where
  "reported rs = (\<Union>(t, h) \<in> set rs. t)"

lemma refresh_step:
  assumes "refresh_hashes v s = (r, e, s')" "mp_ok (rf_pool s)" "any_order (v_api v)"
  shows "mp_ok (rf_pool s')"
    "\<And>k t t'. txs_of s k = Some t \<Longrightarrow> txs_of s' k = Some t' \<Longrightarrow> t' = t"
    "rf_touched s \<union> hashXs_of (changed s s') = rf_touched s' \<union> (case r of None \<Rightarrow> {} | Some (t, h) \<Rightarrow> t)"
proof -
  have "mp_ok (rf_pool s') \<and> (\<forall>k t t'. txs_of s k = Some t \<longrightarrow> txs_of s' k = Some t' \<longrightarrow> t' = t) \<and>
    rf_touched s \<union> hashXs_of (changed s s') = rf_touched s' \<union> (case r of None \<Rightarrow> {} | Some (t, h) \<Rightarrow> t)"
  proof (cases "s' = s \<and> r = None")
    case True
    moreover have "changed s s = {}" by (auto simp: changed_def)
    ultimately show ?thesis using assms(2) by simp
  next
    case False
    then obtain hashes where hs: "v_cached_height v = v_height v" "mapE hex_str_to_hash (v_hex_hashes v) = Inr hashes"
      using assms(1) by (auto simp: refresh_hashes_def split: if_splits sum.splits)
    obtain e1 s1 where p: "process_mempool (v_api v) (v_db_height v) (v_db_height' v) (set hashes) (v_cached_height v) s = (e1, s1)"
      by fastforce
    have fin: "finite (set hashes)" by simp
    note x = process_exact [OF assms(2,3) fin p]
    have pool: "rf_pool s' = rf_pool s1" "rf_touched s' \<union> (case r of None \<Rightarrow> {} | Some (t, h) \<Rightarrow> t) = rf_touched s1"
      using assms(1) hs p by (auto simp: refresh_hashes_def split: option.splits if_splits)
    then have "changed s s' = changed s s1" by (simp add: changed_def)
    then show ?thesis using x pool by simp
  qed
  then show "mp_ok (rf_pool s')"
    "\<And>k t t'. txs_of s k = Some t \<Longrightarrow> txs_of s' k = Some t' \<Longrightarrow> t' = t"
    "rf_touched s \<union> hashXs_of (changed s s') = rf_touched s' \<union> (case r of None \<Rightarrow> {} | Some (t, h) \<Rightarrow> t)" by blast+
qed

text \<open>The transactions on which two pools differ.\<close>

definition differ :: "refresh \<Rightarrow> refresh \<Rightarrow> mempool_tx set" where
  "differ s s' = {t. \<exists>k. (txs_of s k = Some t) \<noteq> (txs_of s' k = Some t)}"

lemma differ_trans: "differ s s2 \<subseteq> differ s s1 \<union> differ s1 s2"
  by (auto simp: differ_def)

lemma differ_changed:
  assumes "\<And>k t t'. txs_of s k = Some t \<Longrightarrow> txs_of s1 k = Some t' \<Longrightarrow> t' = t"
  shows "differ s s1 = changed s s1"
proof (intro set_eqI iffI)
  fix t assume "t \<in> differ s s1"
  then obtain k where k: "(txs_of s k = Some t) \<noteq> (txs_of s1 k = Some t)" by (auto simp: differ_def)
  show "t \<in> changed s s1"
  proof (cases "txs_of s k")
    case None
    then show ?thesis using k by (auto simp: changed_def)
  next
    case (Some a)
    then have "txs_of s1 k = None \<or> txs_of s1 k = Some a" using assms [of k a] by (cases "txs_of s1 k") auto
    then have "txs_of s k = Some t \<and> txs_of s1 k = None" using k Some by auto
    then show ?thesis by (auto simp: changed_def)
  qed
next
  fix t assume "t \<in> changed s s1"
  then obtain k where "(txs_of s k = Some t \<and> txs_of s1 k = None) \<or> (txs_of s k = None \<and> txs_of s1 k = Some t)"
    by (auto simp: changed_def)
  then have "(txs_of s k = Some t) \<noteq> (txs_of s1 k = Some t)" by auto
  then show "t \<in> differ s s1" unfolding differ_def by blast
qed

lemma hashXs_of_mono: "S \<subseteq> T \<Longrightarrow> hashXs_of S \<subseteq> hashXs_of T"
  by (auto simp: hashXs_of_def)

lemma refresh_run_reports:
  "refresh_run vs s = (rs, e, s') \<Longrightarrow> mp_ok (rf_pool s) \<Longrightarrow> \<forall>v \<in> set vs. any_order (v_api v) \<Longrightarrow>
   mp_ok (rf_pool s') \<and>
   (e = None \<longrightarrow> rf_touched s \<union> hashXs_of (differ s s') \<subseteq> reported rs \<union> rf_touched s')"
proof (induction vs arbitrary: s rs)
  case Nil
  then show ?case by (auto simp: differ_def)
next
  case (Cons v vs)
  obtain r e1 s1 where st: "refresh_hashes v s = (r, e1, s1)" by (cases "refresh_hashes v s") auto
  note ord = Cons.prems(3) [THEN bspec, OF list.set_intros(1)]
  note step = refresh_step [OF st Cons.prems(2) ord]
  show ?case
  proof (cases e1)
    case (Some x)
    then show ?thesis using Cons.prems(1) st step(1) by auto
  next
    case None
    obtain rs1 where run: "refresh_run vs s1 = (rs1, e, s')" and rs: "rs = (case r of None \<Rightarrow> rs1 | Some x \<Rightarrow> x # rs1)"
      using Cons.prems(1) st None by (auto split: prod.splits)
    have "\<forall>v \<in> set vs. any_order (v_api v)" using Cons.prems(3) by simp
    note IH = Cons.IH [OF run step(1) this]
    have rep: "reported rs = (case r of None \<Rightarrow> {} | Some (t, h) \<Rightarrow> t) \<union> reported rs1"
      unfolding rs by (auto simp: reported_def split: option.splits)
    have "differ s s1 = changed s s1" using step(2) by (rule differ_changed)
    then have "hashXs_of (differ s s') \<subseteq> hashXs_of (changed s s1) \<union> hashXs_of (differ s1 s')"
      using hashXs_of_mono [OF differ_trans [of s s' s1]] by simp
    then show ?thesis using IH step(3) rep by blast
  qed
qed

text \<open>Over any number of rounds of the refresh loop, with aborted ones among them, no change the rounds make to the pool
  goes unreported: the hashXs of every transaction on which the pool differs from what it was are in one
  of the reports made since, or in the touched set that the next successful round reports; and the index
  is exact whenever a round ends, also if by an exception.  (Changes by tasks that outlive an aborted round are outside
  the model: such a task may even add to a touched set that was handed out already.)\<close>

theorem mempool_changes_reported:
  assumes "refresh_run vs \<lparr>rf_touched = {}, rf_pool = pool\<rparr> = (rs, e, s')" "mp_ok pool" "\<forall>v \<in> set vs. any_order (v_api v)"
  shows "mp_ok (rf_pool s') \<and>
    (e = None \<longrightarrow> hashXs_of (differ \<lparr>rf_touched = {}, rf_pool = pool\<rparr> s') \<subseteq> reported rs \<union> rf_touched s')"
  using refresh_run_reports [OF assms(1)] assms(2,3) by simp

definition sample_views :: "view list" where
  "sample_views = [\<lparr>v_cached_height = 8, v_height = 9, v_db_height = 8, v_db_height' = 8, v_hex_hashes = [],
       v_api = sample_api\<rparr>,
     \<lparr>v_cached_height = 9, v_height = 9, v_db_height = 8, v_db_height' = 8, v_hex_hashes = [],
       v_api = sample_api\<rparr>,
     \<lparr>v_cached_height = 9, v_height = 9, v_db_height = 9, v_db_height' = 9, v_hex_hashes = [],
       v_api = sample_api\<rparr>]"

theorem mempool_changes_reported_witness:
  "\<exists>s'. refresh_run sample_views \<lparr>rf_touched = {}, rf_pool = sample_pool\<rparr> = ([({[6]}, 9)], None, s') \<and>
     hashXs_of (differ \<lparr>rf_touched = {}, rf_pool = sample_pool\<rparr> s') \<subseteq> {[6]}"
proof -
  obtain rs e s' where r: "refresh_run sample_views \<lparr>rf_touched = {}, rf_pool = sample_pool\<rparr> = (rs, e, s')"
    by (metis prod_cases3)
  have "rs = [({[6]}, 9)] \<and> e = None \<and> rf_touched s' = {}"
    using r [symmetric]
    by (simp add: sample_views_def refresh_hashes_def process_mempool_def sample_api_def sample_pool_def remove_tx_def
        tx_hashXs_def remove_hashX_def)
  then show ?thesis
    using mempool_changes_reported [OF r sample_pool_ok] sample_order r by (simp add: reported_def sample_views_def)
qed

end
