(* ===== verification/TxVariants.thy ===== *)
theory TxVariants
  imports Codecs Hashes OpCodes
begin

unbundle bit_operations_syntax

section \<open>Transaction formats of other coins (lib/tx.py)\<close>

text \<open>
  One definition per method a coin's deserialiser overrides, as readers of \<open>Transactions\<close>.  \<open>H\<close> is
  \<open>TX_HASH_FN\<close>.  \<open>peekedR\<close> reads without moving the cursor; \<open>respanR\<close> (in \<open>Codecs\<close>) is the idiom of the header
  readers: find where something ends, go back, and read as many bytes.  A cursor moved past the end
  is only noticed by the next read, and slices are clipped there, as in the code.
\<close>

definition peekedR :: "'a reader \<Rightarrow> 'a reader" where
  "peekedR r = (\<lambda>binary cursor. bindE (r binary cursor) (\<lambda>(x, _). Inr (x, cursor)))"

text \<open>\<open>respanR\<close> with the end taken for a length, as some readers have it.\<close>

definition respan_absR :: "'a reader \<Rightarrow> bytes reader" where
  "respan_absR r = (\<lambda>binary start. bindE (r binary start) (\<lambda>(_, header_end). read_nbytes header_end binary start))"

definition mk_tx :: "int \<Rightarrow> tx_input list \<Rightarrow> tx_output list \<Rightarrow> nat \<Rightarrow> bytes \<Rightarrow> bytes \<Rightarrow> _ \<Rightarrow> tx" where
  "mk_tx version ins outs locktime i w e = \<lparr>tx_version = version, tx_inputs = ins, tx_outputs = outs,
     tx_locktime = locktime, txid = i, wtxid = w, ext = e\<rparr>"

subsection \<open>DeserializerLitecoin\<close>

definition litecoin_read_marked :: "(bytes \<Rightarrow> bytes) \<Rightarrow> (tx \<times> nat) reader" where
  "litecoin_read_marked H =
     bindR (spannedR read_le_int32) (\<lambda>(version, ser1, _).
     bindR read_byte (\<lambda>marker.
     bindR read_byte (\<lambda>flag.
     if flag = 0 then raiseR SkipTxDeserialize else
     bindR (spannedR read_ins_outs) (\<lambda>((inputs, outputs), ser2, base_size).
     bindR (if flag AND 1 \<noteq> 0 then read_witness (length inputs) else returnR []) (\<lambda>witness.
     bindR (if flag AND 8 \<noteq> 0
            then bindR read_byte (\<lambda>b. if b \<noteq> 0 then raiseR SkipTxDeserialize else returnR ())
            else returnR ()) (\<lambda>_.
     bindR (spannedR read_le_uint32) (\<lambda>(locktime, ser3, _).
     bindR binary_length (\<lambda>n.
     returnR (mk_tx version inputs outputs locktime (H (ser1 @ ser2 @ ser3)) (H ser3) (SegWitTx marker flag witness),
        (3 * base_size + n) div 4)))))))))"

definition litecoin_read_tx_parts :: "(bytes \<Rightarrow> bytes) \<Rightarrow> (tx \<times> nat) reader" where
  "litecoin_read_tx_parts H =
     bindR (peekR 4) (\<lambda>marker.
       if marker \<noteq> 0
       then bindR (read_tx H) (\<lambda>t. bindR binary_length (\<lambda>n. returnR (t, n)))
       else litecoin_read_marked H)"

definition litecoin_read_tx :: "(bytes \<Rightarrow> bytes) \<Rightarrow> tx reader" where
  "litecoin_read_tx H = bindR (litecoin_read_tx_parts H) (\<lambda>(t, vsize). returnR t)"

subsection \<open>Merged-mining headers\<close>

text \<open>\<open>DeserializerAuxPow\<close>; \<open>rd\<close> is the \<open>read_tx\<close> of the class.\<close>

definition skip_auxpow :: "tx reader \<Rightarrow> unit reader" where
  "skip_auxpow rd =
     bindR rd (\<lambda>_.
     bindR (skipR 32) (\<lambda>_.
     bindR read_varint (\<lambda>merkle_size.
     bindR (skipR (32 * merkle_size)) (\<lambda>_.
     bindR (skipR 4) (\<lambda>_.
     bindR read_varint (\<lambda>merkle_size.
     bindR (skipR (32 * merkle_size)) (\<lambda>_.
     bindR (skipR 4) (\<lambda>_.
     skipR 80))))))))"

definition read_auxpow :: "tx reader \<Rightarrow> bytes reader" where
  "read_auxpow rd = respanR (skip_auxpow rd)"

definition VERSION_AUXPOW :: nat where "VERSION_AUXPOW = 256"

definition auxpow_read_header :: "tx reader \<Rightarrow> nat \<Rightarrow> bytes reader" where
  "auxpow_read_header rd static_header_size =
     respanR (
       bindR (peekedR read_le_uint32) (\<lambda>version.
         if version AND VERSION_AUXPOW \<noteq> 0
         then bindR (skipR static_header_size) (\<lambda>_. bindR (read_auxpow rd) (\<lambda>_. returnR ()))
         else skipR static_header_size))"

text \<open>\<open>DeserializerXaya\<close>\<close>

definition xaya_read_header :: "tx reader \<Rightarrow> nat \<Rightarrow> bytes reader" where
  "xaya_read_header rd static_header_size =
     respanR (
       bindR (skipR static_header_size) (\<lambda>_.
       bindR read_byte (\<lambda>algo.
       bindR read_le_uint32 (\<lambda>_.
         if algo AND 128 \<noteq> 0 then bindR (read_auxpow rd) (\<lambda>_. returnR ())
         else skipR static_header_size))))"

text \<open>\<open>DeserializerEquihash\<close>, \<open>DeserializerPrimecoin\<close> and \<open>DeserializerBitcoinAtom\<close>\<close>

definition skip_sized :: "nat \<Rightarrow> unit reader" where
  "skip_sized static_header_size = bindR (skipR static_header_size) (\<lambda>_. bindR read_varint skipR)"

definition equihash_read_header :: "nat \<Rightarrow> bytes reader" where
  "equihash_read_header static_header_size = respan_absR (skip_sized static_header_size)"

definition primecoin_read_header :: "nat \<Rightarrow> bytes reader" where
  "primecoin_read_header static_header_size = respanR (skip_sized static_header_size)"

definition bitcoinatom_read_header :: "int \<Rightarrow> nat \<Rightarrow> bytes reader" where
  "bitcoinatom_read_header height static_header_size =
     read_nbytes (if height \<ge> 505888 then static_header_size + 4 else static_header_size)"

subsection \<open>DeserializerZcash\<close>

text \<open>After the locktime of a transaction of version 4 or less: what is skipped.\<close>

definition zcash_skip_joinsplits :: "bool \<Rightarrow> unit reader" where
  "zcash_skip_joinsplits is_sapling_v4 =
     bindR read_varint (\<lambda>joinsplit_size.
       if joinsplit_size > 0
       then bindR (skipR (joinsplit_size * (1506 + (if is_sapling_v4 then 192 else 296)))) (\<lambda>_.
            bindR (skipR 32) (\<lambda>_. skipR 64))
       else returnR ())"

definition zcash_skip_shielded :: "bool reader" where
  "zcash_skip_shielded =
     bindR (skipR 8) (\<lambda>_.
     bindR read_varint (\<lambda>shielded_spend_size.
     bindR (skipR (shielded_spend_size * 384)) (\<lambda>_.
     bindR read_varint (\<lambda>shielded_output_size.
     bindR (skipR (shielded_output_size * 948)) (\<lambda>_.
     returnR (shielded_spend_size > 0 \<or> shielded_output_size > 0))))))"

definition zcash_skip_v4 :: "nat \<Rightarrow> unit reader" where
  "zcash_skip_v4 version =
     (let is_overwinter_v3 = (version = 3); is_sapling_v4 = (version = 4) in
      bindR (if is_overwinter_v3 \<or> is_sapling_v4 then skipR 4 else returnR ()) (\<lambda>_.
      bindR (if is_sapling_v4 then zcash_skip_shielded else returnR False) (\<lambda>has_shielded.
      bindR (if version \<ge> 2 then zcash_skip_joinsplits is_sapling_v4 else returnR ()) (\<lambda>_.
      if is_sapling_v4 \<and> has_shielded then skipR 64 else returnR ()))))"

text \<open>The Sapling and Orchard bundles of a version 5 transaction.\<close>

definition zcash_skip_sapling :: "unit reader" where
  "zcash_skip_sapling =
     bindR read_varint (\<lambda>spends.
     bindR (skipR (96 * spends)) (\<lambda>_.
     bindR read_varint (\<lambda>outputs.
     bindR (skipR (756 * outputs)) (\<lambda>_.
     let has_sapling = \<not> (spends = 0 \<and> outputs = 0) in
     bindR (if has_sapling then skipR 8 else returnR ()) (\<lambda>_.
     bindR (if spends \<noteq> 0 then skipR 32 else returnR ()) (\<lambda>_.
     bindR (skipR (192 * spends)) (\<lambda>_.
     bindR (skipR (64 * spends)) (\<lambda>_.
     bindR (skipR (192 * outputs)) (\<lambda>_.
     if has_sapling then skipR 64 else returnR ())))))))))"

definition zcash_skip_orchard :: "unit reader" where
  "zcash_skip_orchard =
     bindR read_varint (\<lambda>actions.
     bindR (skipR (820 * actions)) (\<lambda>_.
     if actions > 0
     then bindR (skipR 1) (\<lambda>_.
          bindR (skipR 8) (\<lambda>_.
          bindR (skipR 32) (\<lambda>_.
          bindR read_varint (\<lambda>size_proofs.
          bindR (skipR size_proofs) (\<lambda>_.
          bindR (skipR (64 * actions)) (\<lambda>_.
          skipR 64))))))
     else returnR ()))"

text \<open>\<open>H5\<close> is the transaction hash of version 5, computed by the vendored Zcash library.\<close>

definition zcash_read_tx :: "(bytes \<Rightarrow> bytes) \<Rightarrow> (bytes \<Rightarrow> bytes) \<Rightarrow> tx reader" where
  "zcash_read_tx double_sha256 H5 =
     bindR (spannedR (
       bindR read_le_uint32 (\<lambda>header.
       let overwintered = (drop_bit 31 header = 1);
           version = (if overwintered then header AND 2147483647 else header) in
       bindR (if overwintered then read_le_uint32 else returnR 0) (\<lambda>nVersionGroupId.
       if \<not> (overwintered \<and> nVersionGroupId = 648488714 \<and> version = 5)
       then bindR read_inputs (\<lambda>inputs.
            bindR read_outputs (\<lambda>outputs.
            bindR read_le_uint32 (\<lambda>locktime.
            bindR (zcash_skip_v4 version) (\<lambda>_.
            returnR (version, inputs, outputs, locktime)))))
       else bindR read_le_uint32 (\<lambda>nConsensusBranchId.
            bindR read_le_uint32 (\<lambda>nLockTime.
            bindR (skipR 4) (\<lambda>_.
            bindR read_inputs (\<lambda>inputs.
            bindR read_outputs (\<lambda>outputs.
            bindR zcash_skip_sapling (\<lambda>_.
            bindR zcash_skip_orchard (\<lambda>_.
            returnR (version, inputs, outputs, nLockTime))))))))))))
     (\<lambda>((version, inputs, outputs, locktime), span, _).
       let i = (if version < 5 then double_sha256 span else H5 span)
       in returnR (mk_tx (int version) inputs outputs locktime i i PlainTx))"

subsection \<open>DeserializerPIVX\<close>

definition pivx_serialize :: "tx \<Rightarrow> nat \<Rightarrow> exn + bytes" where
  "pivx_serialize t txtype =
     bindE (pack_le_uint16 (tx_version t)) (\<lambda>version.
     bindE (pack_le_uint16 (int txtype)) (\<lambda>ty.
     bindE (serialize_list serialize_input (tx_inputs t)) (\<lambda>inputs.
     bindE (serialize_list serialize_output (tx_outputs t)) (\<lambda>outputs.
     bindE (pack_le_uint32 (int (tx_locktime t))) (\<lambda>locktime.
     Inr (version @ ty @ inputs @ outputs @ locktime))))))"

definition pivx_split_header :: "nat \<Rightarrow> nat \<times> nat" where
  "pivx_split_header header =
     (let tx_type = drop_bit 16 header;
          version = (if tx_type \<noteq> 0 then header AND 65535 else header)
      in if tx_type \<noteq> 0 \<and> version < 3 then (header, 0) else (version, tx_type))"

definition pivx_skip_sapling :: "nat \<Rightarrow> unit reader" where
  "pivx_skip_sapling tx_type =
     bindR read_varint (\<lambda>_.
     bindR (skipR 8) (\<lambda>_.
     bindR read_varint (\<lambda>shielded_spend_size.
     bindR (skipR (shielded_spend_size * 384)) (\<lambda>_.
     bindR read_varint (\<lambda>shielded_output_size.
     bindR (skipR (shielded_output_size * 948)) (\<lambda>_.
     bindR (skipR 64) (\<lambda>_.
     if tx_type > 0 then skipR 2 else returnR ())))))))"

definition pivx_read_tx :: "(bytes \<Rightarrow> bytes) \<Rightarrow> tx reader" where
  "pivx_read_tx H =
     bindR (spannedR (
       bindR read_le_uint32 (\<lambda>header.
       bindR read_inputs (\<lambda>inputs.
       bindR read_outputs (\<lambda>outputs.
       bindR read_le_uint32 (\<lambda>locktime.
       let (version, tx_type) = pivx_split_header header in
       bindR (if version \<ge> 3 then pivx_skip_sapling tx_type else returnR ()) (\<lambda>_.
       returnR (version, tx_type, inputs, outputs, locktime))))))))
     (\<lambda>((version, tx_type, inputs, outputs, locktime), span, _).
       returnR (mk_tx (int version) inputs outputs locktime (H span) (H span) (PIVXTx tx_type)))"

subsection \<open>Transactions with a time\<close>

text \<open>\<open>DeserializerTxTime\<close> (and \<open>DeserializerVerge\<close>, which does the same)\<close>

definition time_body :: "(int \<times> nat \<times> tx_input list \<times> tx_output list \<times> nat) reader" where
  "time_body =
     bindR read_le_int32 (\<lambda>version.
     bindR read_le_uint32 (\<lambda>time.
     bindR read_inputs (\<lambda>inputs.
     bindR read_outputs (\<lambda>outputs.
     bindR read_le_uint32 (\<lambda>locktime.
     returnR (version, time, inputs, outputs, locktime))))))"

definition time_read_tx :: "(bytes \<Rightarrow> bytes) \<Rightarrow> tx reader" where
  "time_read_tx H =
     bindR (spannedR time_body) (\<lambda>((version, time, inputs, outputs, locktime), span, _).
       returnR (mk_tx version inputs outputs locktime (H span) (H span) (TimeTx time)))"

definition verge_read_tx :: "(bytes \<Rightarrow> bytes) \<Rightarrow> tx reader" where "verge_read_tx = time_read_tx"

text \<open>\<open>DeserializerTxTimeSegWit\<close>\<close>

definition time_segwit_read_tx_parts :: "(bytes \<Rightarrow> bytes) \<Rightarrow> (tx \<times> nat) reader" where
  "time_segwit_read_tx_parts H =
     bindR (peekR 8) (\<lambda>marker.
       if marker \<noteq> 0
       then bindR (time_read_tx H) (\<lambda>t. bindR binary_length (\<lambda>n. returnR (t, n)))
       else
         bindR (spannedR (bindR read_le_int32 (\<lambda>version. bindR read_le_uint32 (\<lambda>time. returnR (version, time)))))
           (\<lambda>((version, time), ser1, _).
         bindR read_byte (\<lambda>marker.
         bindR read_byte (\<lambda>flag.
         bindR (spannedR read_ins_outs) (\<lambda>((inputs, outputs), ser2, base_size).
         bindR (read_witness (length inputs)) (\<lambda>witness.
         bindR (spannedR read_le_uint32) (\<lambda>(locktime, ser3, _).
         bindR binary_length (\<lambda>n.
         returnR (mk_tx version inputs outputs locktime (H (ser1 @ ser2 @ ser3)) (H ser3)
                    (TimeSegWitTx time marker flag witness),
                  (3 * base_size + n) div 4)))))))))"

definition time_segwit_read_tx :: "(bytes \<Rightarrow> bytes) \<Rightarrow> tx reader" where
  "time_segwit_read_tx H = bindR (time_segwit_read_tx_parts H) (\<lambda>(t, vsize). returnR t)"

text \<open>\<open>DeserializerTxTimeSegWitNavCoin\<close>: a version of at least 2 ends with a string.\<close>

definition navcoin_read_no_segwit :: "(bytes \<Rightarrow> bytes) \<Rightarrow> tx reader" where
  "navcoin_read_no_segwit H =
     bindR (spannedR (
       bindR time_body (\<lambda>(version, time, inputs, outputs, locktime).
       bindR (if version \<ge> 2 then read_varbytes else returnR []) (\<lambda>strDZeel.
       returnR (version, time, inputs, outputs, locktime)))))
     (\<lambda>((version, time, inputs, outputs, locktime), span, _).
       returnR (mk_tx version inputs outputs locktime (H span) (H span) (TimeTx time)))"

definition navcoin_read_tx_parts :: "(bytes \<Rightarrow> bytes) \<Rightarrow> (tx \<times> nat) reader" where
  "navcoin_read_tx_parts H =
     bindR (peekR 8) (\<lambda>marker.
       if marker \<noteq> 0
       then bindR (navcoin_read_no_segwit H) (\<lambda>t. bindR binary_length (\<lambda>n. returnR (t, n)))
       else
         bindR (spannedR (bindR read_le_int32 (\<lambda>version. bindR read_le_uint32 (\<lambda>time. returnR (version, time)))))
           (\<lambda>((version, time), ser1, _).
         bindR read_byte (\<lambda>marker.
         bindR read_byte (\<lambda>flag.
         bindR (spannedR read_ins_outs) (\<lambda>((inputs, outputs), ser2, base_size).
         bindR (read_witness (length inputs)) (\<lambda>witness.
         bindR (spannedR (bindR read_le_uint32 (\<lambda>locktime.
                  bindR (if version \<ge> 2 then read_varbytes else returnR []) (\<lambda>strDZeel. returnR locktime))))
           (\<lambda>(locktime, ser3, _).
         bindR binary_length (\<lambda>n.
         returnR (mk_tx version inputs outputs locktime (H (ser1 @ ser2 @ ser3)) (H ser3)
                    (TimeSegWitTx time marker flag witness),
                  (3 * base_size + n) div 4)))))))))"

definition navcoin_read_tx :: "(bytes \<Rightarrow> bytes) \<Rightarrow> tx reader" where
  "navcoin_read_tx H = bindR (navcoin_read_tx_parts H) (\<lambda>(t, vsize). returnR t)"

text \<open>\<open>DeserializerTrezarcoin\<close>; the keyed hash is a parameter.\<close>

definition trezarcoin_read_tx :: "(bytes \<Rightarrow> bytes) \<Rightarrow> tx reader" where
  "trezarcoin_read_tx H =
     bindR (spannedR (
       bindR time_body (\<lambda>(version, time, inputs, outputs, locktime).
       bindR (if version \<ge> 2 then read_varbytes else returnR []) (\<lambda>txcomment.
       returnR (version, time, inputs, outputs, locktime, txcomment)))))
     (\<lambda>((version, time, inputs, outputs, locktime, txcomment), span, _).
       returnR (mk_tx version inputs outputs locktime (H span) (H span) (TrezarcoinTx time txcomment)))"

definition trezarcoin_key :: "bytes \<Rightarrow> bytes" where
  "trezarcoin_key data =
     slice data 58 68 @ slice data 68 72 @ slice data 72 76 @ slice data 76 80 @ slice data 36 46"

definition trezarcoin_blake2s :: "(bytes \<Rightarrow> bytes \<Rightarrow> bytes) \<Rightarrow> bytes \<Rightarrow> bytes" where
  "trezarcoin_blake2s blake2s data = blake2s (data @ slice data 36 68) (trezarcoin_key data)"

fun every_second :: "'a list \<Rightarrow> 'a list" where
  "every_second (x # y # xs) = x # every_second xs"
| "every_second xs = xs"

text \<open>\<open>''.join(map(str.__add__, s[-2::-2], s[-1::-2]))\<close> of the hexadecimal digest\<close>

definition trezarcoin_blake2s_gen :: "(bytes \<Rightarrow> bytes \<Rightarrow> bytes) \<Rightarrow> bytes \<Rightarrow> string" where
  "trezarcoin_blake2s_gen blake2s data =
     (let hexdigest = hex_encode (trezarcoin_blake2s blake2s data)
      in concat (map2 (\<lambda>a b. [a, b]) (every_second (tl (rev hexdigest))) (every_second (rev hexdigest))))"

text \<open>\<open>DeserializerBlackcoin\<close>, \<open>DeserializerElectra\<close> and \<open>DeserializerSimplicity\<close>: the version, looked at
  first, says whether there is a time.\<close>

definition versioned_read_tx :: "(int \<Rightarrow> bool) \<Rightarrow> (bytes \<Rightarrow> bytes) \<Rightarrow> tx reader" where
  "versioned_read_tx with_time H =
     bindR (peekedR read_le_int32) (\<lambda>version. if with_time version then time_read_tx H else read_tx H)"

definition blackcoin_read_tx :: "(bytes \<Rightarrow> bytes) \<Rightarrow> tx reader" where
  "blackcoin_read_tx = versioned_read_tx (\<lambda>version. version < 2)"

definition electra_read_tx :: "(bytes \<Rightarrow> bytes) \<Rightarrow> tx reader" where
  "electra_read_tx = versioned_read_tx (\<lambda>version. version \<noteq> 7)"

definition simplicity_read_tx :: "(bytes \<Rightarrow> bytes) \<Rightarrow> tx reader" where
  "simplicity_read_tx = versioned_read_tx (\<lambda>version. version < 3)"

text \<open>\<open>DeserializerReddcoin\<close> and \<open>DeserializerECCoin\<close>\<close>

definition reddcoin_read_tx :: "(bytes \<Rightarrow> bytes) \<Rightarrow> tx reader" where
  "reddcoin_read_tx H =
     bindR (spannedR (
       bindR read_le_int32 (\<lambda>version.
       bindR read_inputs (\<lambda>inputs.
       bindR read_outputs (\<lambda>outputs.
       bindR read_le_uint32 (\<lambda>locktime.
       bindR (if version > 1 then read_le_uint32 else returnR 0) (\<lambda>time.
       returnR (version, time, inputs, outputs, locktime))))))))
     (\<lambda>((version, time, inputs, outputs, locktime), span, _).
       returnR (mk_tx version inputs outputs locktime (H span) (H span) (TimeTx time)))"

definition eccoin_read_tx :: "(bytes \<Rightarrow> bytes) \<Rightarrow> tx reader" where
  "eccoin_read_tx H =
     bindR (spannedR (
       bindR time_body (\<lambda>(version, time, inputs, outputs, locktime).
       bindR (if version > 1 then skipR 32 else returnR ()) (\<lambda>_.
       returnR (version, time, inputs, outputs, locktime)))))
     (\<lambda>((version, time, inputs, outputs, locktime), span, _).
       returnR (mk_tx version inputs outputs locktime (H span) (H span) (TimeTx time)))"

text \<open>\<open>DeserializerEmercoin\<close>\<close>

definition emercoin_is_merged_block :: "bool reader" where
  "emercoin_is_merged_block = (\<lambda>binary cursor.
     bindE (read_le_uint32 binary 0) (\<lambda>(version, _). Inr (version AND VERSION_AUXPOW \<noteq> 0, cursor)))"

definition emercoin_read_header :: "(bytes \<Rightarrow> bytes) \<Rightarrow> nat \<Rightarrow> bytes reader" where
  "emercoin_read_header H static_header_size = (\<lambda>binary start.
     bindE (read_le_uint32 binary start) (\<lambda>(version, _).
     bindE (if version AND VERSION_AUXPOW \<noteq> 0
            then bindE (skip_auxpow (time_segwit_read_tx H) binary (start + static_header_size)) (\<lambda>(_, c). Inr c)
            else Inr static_header_size) (\<lambda>header_end.
       read_nbytes header_end binary start)))"

subsection \<open>DeserializerTokenPay and DeserializerZcoin\<close>

datatype tokenpay_input = TokenPayIn tx_input | StealthIn bytes bytes bytes nat

definition is_anon_input :: "tx_input \<Rightarrow> bool" where
  "is_anon_input i \<longleftrightarrow> length (in_script i) \<ge> 99 \<and> in_script i ! 0 = 106 \<and> in_script i ! 1 = 185"

fun tokenpay_is_generation :: "tokenpay_input \<Rightarrow> bool" where
  "tokenpay_is_generation (TokenPayIn i) = (if is_anon_input i then True else is_generation i)"
| "tokenpay_is_generation (StealthIn keyimage ringsize script sequence) = True"

fun tokenpay_serialize_input :: "tokenpay_input \<Rightarrow> exn + bytes" where
  "tokenpay_serialize_input (TokenPayIn i) = serialize_input i"
| "tokenpay_serialize_input (StealthIn keyimage ringsize script sequence) =
     bindE (pack_varbytes script) (\<lambda>s. bindE (pack_le_uint32 (int sequence)) (\<lambda>q. Inr (keyimage @ ringsize @ s @ q)))"

definition read_stealth :: "tokenpay_input reader" where
  "read_stealth =
     bindR (read_nbytes 33) (\<lambda>keyimage.
     bindR (read_nbytes 3) (\<lambda>ringsize.
     bindR read_varbytes (\<lambda>script.
     bindR read_le_uint32 (\<lambda>sequence.
     returnR (StealthIn keyimage ringsize script sequence)))))"

definition tokenpay_read_input :: "tokenpay_input reader" where
  "tokenpay_read_input =
     bindR read_input (\<lambda>txin.
       if is_anon_input txin
       then (\<lambda>binary cursor. bindE (serialize_input txin) (\<lambda>raw. bindE (read_stealth raw 0) (\<lambda>(i, _). Inr (i, cursor))))
       else returnR (TokenPayIn txin))"

definition zcoin_read_input :: "tx_input reader" where
  "zcoin_read_input =
     bindR read_input (\<lambda>txin.
       if prev_idx txin = MINUS_1 \<and> prev_hash txin = ZERO then returnR txin
       else case in_script txin of
              [] \<Rightarrow> raiseR IndexError
            | b # _ \<Rightarrow> if b = 196 then returnR (txin\<lparr>prev_hash := ZERO, prev_idx := MINUS_1\<rparr>) else returnR txin)"

subsection \<open>DeserializerDecred\<close>

record dcr_input =
  dcr_prev_hash :: bytes
  dcr_prev_idx :: nat
  dcr_tree :: nat
  dcr_sequence :: nat

record dcr_output =
  dcr_value :: int
  dcr_out_version :: nat
  dcr_pk_script :: bytes

type_synonym dcr_witness = "int \<times> nat \<times> nat \<times> bytes"

record dcr_tx =
  dcr_version :: int
  dcr_inputs :: "dcr_input list"
  dcr_outputs :: "dcr_output list"
  dcr_locktime :: nat
  dcr_expiry :: nat
  dcr_witness :: "dcr_witness list"
  dcr_txid :: bytes
  dcr_wtxid :: bytes

definition dcr_is_generation :: "dcr_input \<Rightarrow> bool" where
  "dcr_is_generation i \<longleftrightarrow> dcr_prev_idx i = MINUS_1 \<and> dcr_prev_hash i = ZERO"

definition dcr_read_input :: "dcr_input reader" where
  "dcr_read_input =
     bindR (read_nbytes 32) (\<lambda>prev_hash.
     bindR read_le_uint32 (\<lambda>prev_idx.
     bindR read_byte (\<lambda>tree.
     bindR read_le_uint32 (\<lambda>sequence.
     returnR \<lparr>dcr_prev_hash = prev_hash, dcr_prev_idx = prev_idx, dcr_tree = tree, dcr_sequence = sequence\<rparr>))))"

definition dcr_read_output :: "dcr_output reader" where
  "dcr_read_output =
     bindR read_le_int64 (\<lambda>val.
     bindR read_le_uint16 (\<lambda>version.
     bindR read_varbytes (\<lambda>pk_script.
     returnR \<lparr>dcr_value = val, dcr_out_version = version, dcr_pk_script = pk_script\<rparr>)))"

definition dcr_read_witness_field :: "dcr_witness reader" where
  "dcr_read_witness_field =
     bindR read_le_int64 (\<lambda>value_in.
     bindR read_le_uint32 (\<lambda>block_height.
     bindR read_le_uint32 (\<lambda>block_index.
     bindR read_varbytes (\<lambda>script.
     returnR (value_in, block_height, block_index, script)))))"

definition dcr_read_witness :: "nat \<Rightarrow> dcr_witness list reader" where
  "dcr_read_witness n_fields =
     bindR read_varint (\<lambda>n. if n_fields \<noteq> n then raiseR AssertionError else repeatR n_fields dcr_read_witness_field)"

definition dcr_read_tx_parts :: "(bytes \<Rightarrow> bytes) \<Rightarrow> (dcr_tx \<times> nat) reader" where
  "dcr_read_tx_parts blake256 =
     bindR (spannedR (
       bindR (spannedR (
         bindR read_le_int32 (\<lambda>version.
         bindR (bindR read_varint (\<lambda>n. repeatR n dcr_read_input)) (\<lambda>inputs.
         bindR (bindR read_varint (\<lambda>n. repeatR n dcr_read_output)) (\<lambda>outputs.
         bindR read_le_uint32 (\<lambda>locktime.
         bindR read_le_uint32 (\<lambda>expiry.
         returnR (version, inputs, outputs, locktime, expiry))))))))
         (\<lambda>((version, inputs, outputs, locktime, expiry), prefix, _).
       bindR (dcr_read_witness (length inputs)) (\<lambda>witness.
       (\<lambda>binary cursor.
         bindE (pack_le_uint32 (65536 OR (version AND 65535))) (\<lambda>no_witness_header.
         let tx_hash = blake256 (no_witness_header @ drop 4 prefix)
         in Inr (\<lparr>dcr_version = version, dcr_inputs = inputs, dcr_outputs = outputs, dcr_locktime = locktime,
                  dcr_expiry = expiry, dcr_witness = witness, dcr_txid = tx_hash, dcr_wtxid = tx_hash\<rparr>, cursor)))))))
     (\<lambda>(t, _, n). returnR (t, n))"

definition dcr_read_tx :: "(bytes \<Rightarrow> bytes) \<Rightarrow> dcr_tx reader" where
  "dcr_read_tx blake256 = bindR (dcr_read_tx_parts blake256) (\<lambda>(t, _). returnR t)"

definition dcr_read_tx_tree :: "(bytes \<Rightarrow> bytes) \<Rightarrow> dcr_tx list reader" where
  "dcr_read_tx_tree blake256 = bindR read_varint (\<lambda>n. repeatR n (dcr_read_tx blake256))"

definition dcr_read_tx_block :: "(bytes \<Rightarrow> bytes) \<Rightarrow> dcr_tx list reader" where
  "dcr_read_tx_block blake256 =
     bindR (dcr_read_tx_tree blake256) (\<lambda>txs.
     bindR (dcr_read_tx_tree blake256) (\<lambda>stxs. returnR (txs @ stxs)))"

subsection \<open>DeserializerBitcoinDiamond\<close>

definition diamond_read_tx :: "(bytes \<Rightarrow> bytes) \<Rightarrow> tx reader" where
  "diamond_read_tx H =
     bindR (peekedR read_le_int32) (\<lambda>version.
       if version \<noteq> 12 then read_tx H
       else
         bindR (spannedR (
           bindR read_le_int32 (\<lambda>version.
           bindR (read_nbytes 32) (\<lambda>preblockhash.
           bindR read_inputs (\<lambda>inputs.
           bindR read_outputs (\<lambda>outputs.
           bindR read_le_uint32 (\<lambda>locktime.
           returnR (version, hash_to_hex_str preblockhash, inputs, outputs, locktime))))))))
         (\<lambda>((version, preblockhash, inputs, outputs, locktime), span, _).
           returnR (mk_tx version inputs outputs locktime (H span) (H span) (DiamondTx preblockhash))))"

definition diamond_segwit_read_tx_parts :: "(bytes \<Rightarrow> bytes) \<Rightarrow> (tx \<times> nat) reader" where
  "diamond_segwit_read_tx_parts H =
     bindR (peekedR read_le_int32) (\<lambda>tx_version.
     bindR (peekR (if tx_version = 12 then 4 + 32 else 4)) (\<lambda>marker.
       if marker \<noteq> 0
       then bindR (diamond_read_tx H) (\<lambda>t. bindR binary_length (\<lambda>n. returnR (t, n)))
       else
         bindR (spannedR (bindR read_le_int32 (\<lambda>version.
                  bindR (if version = 12 then bindR (read_nbytes 32) (\<lambda>h. returnR (Some (hash_to_hex_str h)))
                         else returnR None) (\<lambda>present_block_hash.
                  returnR (version, present_block_hash)))))
           (\<lambda>((version, present_block_hash), ser1, _).
         bindR read_byte (\<lambda>marker.
         bindR read_byte (\<lambda>flag.
         bindR (spannedR read_ins_outs) (\<lambda>((inputs, outputs), ser2, base_size).
         bindR (read_witness (length inputs)) (\<lambda>witness.
         bindR (spannedR read_le_uint32) (\<lambda>(locktime, ser3, _).
         bindR binary_length (\<lambda>n.
         returnR (mk_tx version inputs outputs locktime (H (ser1 @ ser2 @ ser3)) (H ser3)
                    (case present_block_hash of
                       Some h \<Rightarrow> DiamondSegWitTx h marker flag witness
                     | None \<Rightarrow> SegWitTx marker flag witness),
                  (3 * base_size + n) div 4))))))))))"

definition diamond_segwit_read_tx :: "(bytes \<Rightarrow> bytes) \<Rightarrow> tx reader" where
  "diamond_segwit_read_tx H = bindR (diamond_segwit_read_tx_parts H) (\<lambda>(t, vsize). returnR t)"

end
