(* ===== verification/TxVariantFacts.thy ===== *)
theory TxVariantFacts
  imports TxVariants
begin

section \<open>What the readers of other coins read\<close>

text \<open>
  Litecoin's reader against the SegWit one it specialises, and the headers of merged-mined chains:
  the header reader takes exactly the static header and the proof of work, wherever the block starts.
\<close>

subsection \<open>Litecoin\<close>

lemma read_le_int32_ok: "c + 4 \<le> length b \<Longrightarrow> \<exists>v. read_le_int32 b c = Inr (v, c + 4)"
  by (simp add: read_le_int32_def read_le_int_def unpack_le_signed_from_def unpack_le_unsigned_from_def slice_def
      split: if_splits)

text \<open>Version, marker and flag of a transaction long enough to have them.\<close>

lemma marked_start:
  assumes "c + 5 < length b"
  obtains v where "\<And>(f :: int \<Rightarrow> bytes \<Rightarrow> nat \<Rightarrow> nat \<Rightarrow> nat \<Rightarrow> 'a reader). bindR (spannedR read_le_int32) (\<lambda>(version, ser1, k).
      bindR read_byte (\<lambda>marker. bindR read_byte (f version ser1 k marker))) b c =
    f v (slice b c (c + 4)) 4 (unat (b ! (c + 4))) (unat (b ! (c + 5))) b (c + 6)"
proof -
  obtain v where v: "read_le_int32 b c = Inr (v, c + 4)" using read_le_int32_ok [of c b] assms by auto
  show ?thesis
    by (rule that [of v]) (use assms v in \<open>simp add: bindR_def spannedR_def read_byte_def add.commute\<close>)
qed

lemma litecoin_marked:
  assumes "c + 5 < length b"
  defines "flag \<equiv> unat (b ! (c + 5))"
  shows "flag = 0 \<Longrightarrow> litecoin_read_marked H b c = Inl SkipTxDeserialize"
    and "flag AND 1 \<noteq> 0 \<Longrightarrow> flag AND 8 = 0 \<Longrightarrow> litecoin_read_marked H b c = segwit_read_marked H b c"
proof -
  obtain v where eq: "\<And>(f :: int \<Rightarrow> bytes \<Rightarrow> nat \<Rightarrow> nat \<Rightarrow> nat \<Rightarrow> (tx \<times> nat) reader). bindR (spannedR read_le_int32) (\<lambda>(version, ser1, k).
      bindR read_byte (\<lambda>marker. bindR read_byte (f version ser1 k marker))) b c =
    f v (slice b c (c + 4)) 4 (unat (b ! (c + 4))) flag b (c + 6)"
    using marked_start [OF assms(1)] unfolding flag_def by metis
  show "flag = 0 \<Longrightarrow> litecoin_read_marked H b c = Inl SkipTxDeserialize"
    unfolding litecoin_read_marked_def eq by (simp add: raiseR_def)
  assume f: "flag AND 1 \<noteq> 0" "flag AND 8 = 0"
  then have "flag \<noteq> 0" by auto
  with f show "litecoin_read_marked H b c = segwit_read_marked H b c"
    unfolding litecoin_read_marked_def segwit_read_marked_def eq by (simp add: bindR_returnR mk_tx_def)
qed

text \<open>A Litecoin transaction without a marker, or with a flag that has the witness bit and not the MWEB bit, is read
  exactly as the SegWit deserialiser reads it; a zero flag makes it a transaction to skip.\<close>

theorem litecoin_agrees_with_segwit:
  assumes "c + 5 < length b"
  shows "(b ! (c + 4) \<noteq> 0 \<or> (unat (b ! (c + 5)) AND 1 \<noteq> 0 \<and> unat (b ! (c + 5)) AND 8 = 0) \<longrightarrow>
       litecoin_read_tx_parts H b c = segwit_read_tx_parts H b c) \<and>
    (b ! (c + 4) = 0 \<and> b ! (c + 5) = 0 \<longrightarrow> litecoin_read_tx_parts H b c = Inl SkipTxDeserialize)"
  using assms litecoin_marked [OF assms, of H]
  by (auto simp: litecoin_read_tx_parts_def segwit_read_tx_parts_def bindR_def peekR_def unat_eq_0 unsigned_eq_0_iff)

theorem litecoin_agrees_with_segwit_witness:
  "litecoin_read_tx_parts (\<lambda>b. b) [2, 0, 0, 0, 0, 1, 0, 0, 9, 0, 0, 0] 0 =
     segwit_read_tx_parts (\<lambda>b. b) [2, 0, 0, 0, 0, 1, 0, 0, 9, 0, 0, 0] 0 \<and>
   litecoin_read_tx_parts (\<lambda>b. b) [2, 0, 0, 0, 0, 0, 9, 0, 0, 0] 0 = Inl SkipTxDeserialize"
  using litecoin_agrees_with_segwit [of 0 "[2, 0, 0, 0, 0, 1, 0, 0, 9, 0, 0, 0]" "\<lambda>b. b"]
    litecoin_agrees_with_segwit [of 0 "[2, 0, 0, 0, 0, 0, 9, 0, 0, 0]" "\<lambda>b. b"]
  by simp

subsection \<open>Merged-mining headers\<close>

text \<open>The proof of work as it stands after the static header.\<close>

definition auxpow_bytes :: "tx \<Rightarrow> bytes \<Rightarrow> bytes list \<Rightarrow> bytes \<Rightarrow> bytes list \<Rightarrow> bytes \<Rightarrow> bytes \<Rightarrow> exn + bytes" where
  "auxpow_bytes t parent_hash branch index chain_branch chain_index parent_header =
     joinE [serialize_tx t, Inr parent_hash, pack_varint (int (length branch)), Inr (concat branch), Inr index,
       pack_varint (int (length chain_branch)), Inr (concat chain_branch), Inr chain_index, Inr parent_header]"

lemma codec_skip: "length b = n \<Longrightarrow> codec (Inr b) (skipR n) ()"
  by (simp add: codec_def reads_def skipR_def)

lemma length_concat_hashes: "\<forall>h \<in> set hs. length h = n \<Longrightarrow> length (concat hs) = n * length hs"
  by (induction hs) simp_all

lemma codec_auxpow:
  assumes "codec (serialize_tx t) rd t'" "length parent_hash = 32" "\<forall>h \<in> set branch. length h = 32" "length index = 4"
    "\<forall>h \<in> set chain_branch. length h = 32" "length chain_index = 4" "length parent_header = 80"
  shows "codec (auxpow_bytes t parent_hash branch index chain_branch chain_index parent_header) (skip_auxpow rd) ()"
  unfolding auxpow_bytes_def skip_auxpow_def
  by (rule codec_join [OF assms(1)], rule codec_join [OF codec_skip], fact,
      rule codec_join [OF codec_varint], rule codec_join [OF codec_skip], simp add: length_concat_hashes assms,
      rule codec_join [OF codec_skip], fact,
      rule codec_join [OF codec_varint], rule codec_join [OF codec_skip], simp add: length_concat_hashes assms,
      rule codec_join [OF codec_skip], fact, rule codec_single [OF codec_skip], fact)

lemma reads_peeked: "reads L r b x \<Longrightarrow> reads L (f x) (b @ c) y \<Longrightarrow> reads L (bindR (peekedR r) f) (b @ c) y"
  by (auto simp: reads_def bindR_def peekedR_def)

lemma codec_tx: "tx_ok t \<Longrightarrow> codec (serialize_tx t) (read_tx H) (with_ids H t)"
  by (simp add: codec_def with_ids_def reads_tx)

lemma reads_skip: "length b = n \<Longrightarrow> reads L (skipR n) b ()"
  by (simp add: reads_def skipR_def)

lemma reads_auxpow_header:
  assumes aux: "\<And>L. reads L (skip_auxpow rd) aux ()" and v: "v < 2 ^ 32" and n: "n = 4 + length rest"
  shows "reads L (auxpow_read_header rd n) (le_encode 4 v @ rest @ (if v AND VERSION_AUXPOW \<noteq> 0 then aux else []))
    (le_encode 4 v @ rest @ (if v AND VERSION_AUXPOW \<noteq> 0 then aux else []))"
proof -
  have h: "reads L read_le_uint32 (le_encode 4 v) v"
    unfolding read_le_uint32_def by (rule reads_le_uint) (use v in simp)
  have s: "reads L (skipR n) (le_encode 4 v @ rest) ()" by (rule reads_skip) (simp add: n)
  have a: "reads L (bindR (read_auxpow rd) (\<lambda>_. returnR ())) aux ()"
    unfolding read_auxpow_def by (rule reads_bind_last [OF reads_respan [OF aux]]) (simp add: reads_return)
  show ?thesis
    unfolding auxpow_read_header_def
  proof (rule reads_respan, rule reads_peeked [OF h])
    show "reads L (if v AND VERSION_AUXPOW \<noteq> 0
        then bindR (skipR n) (\<lambda>_. bindR (read_auxpow rd) (\<lambda>_. returnR ())) else skipR n)
      (le_encode 4 v @ rest @ (if v AND VERSION_AUXPOW \<noteq> 0 then aux else [])) ()"
      using s reads_bind [where f = "\<lambda>_. bindR (read_auxpow rd) (\<lambda>_. returnR ())", OF s a] by simp
  qed
qed

text \<open>C34: the header reader of a merged-mined chain gives exactly the bytes of the header, wherever the block
  starts: the static header alone without the AuxPow bit in the version, and with it the static header followed
  by the whole proof of work, of whatever number of branch hashes; the cursor stops where the
  transactions begin.\<close>

theorem auxpow_header_exact:
  assumes t: "tx_ok t" "length parent_hash = 32" "\<forall>h \<in> set branch. length h = 32" "length index = 4"
    "\<forall>h \<in> set chain_branch. length h = 32" "length chain_index = 4" "length parent_header = 80"
    and aux: "auxpow_bytes t parent_hash branch index chain_branch chain_index parent_header = Inr aux"
    and v: "v < 2 ^ 32" and n: "n = 4 + length rest"
  shows "auxpow_read_header (read_tx H) n
      (pre @ (le_encode 4 v @ rest @ (if v AND VERSION_AUXPOW \<noteq> 0 then aux else [])) @ post) (length pre) =
    Inr (le_encode 4 v @ rest @ (if v AND VERSION_AUXPOW \<noteq> 0 then aux else []),
         length pre + (n + (if v AND VERSION_AUXPOW \<noteq> 0 then length aux else 0)))"
proof -
  have "reads L (skip_auxpow (read_tx H)) aux ()" for L
    using codec_auxpow [OF codec_tx t(2-)] t(1) aux by (auto simp: codec_def)
  from readsD [OF reads_auxpow_header [OF this v n]] show ?thesis by (simp add: n)
qed

theorem auxpow_header_exact_witness:
  "\<exists>aux. auxpow_bytes \<lparr>tx_version = 1, tx_inputs = [], tx_outputs = [], tx_locktime = 0, txid = [], wtxid = [], ext = PlainTx\<rparr>
      (replicate 32 1) [replicate 32 2] (replicate 4 0) [] (replicate 4 0) (replicate 80 3) = Inr aux \<and>
    auxpow_read_header (read_tx (\<lambda>b. b)) 80 ([7] @ (le_encode 4 257 @ replicate 76 9 @ aux) @ [8]) 1 =
      Inr (le_encode 4 257 @ replicate 76 9 @ aux, 81 + length aux)"
proof -
  let ?t = "\<lparr>tx_version = 1, tx_inputs = [], tx_outputs = [], tx_locktime = 0, txid = [], wtxid = [], ext = PlainTx\<rparr>"
  have "\<not> isl (auxpow_bytes ?t (replicate 32 1) [replicate 32 2] (replicate 4 0) [] (replicate 4 0) (replicate 80 3))"
    by code_simp
  then obtain aux where aux: "auxpow_bytes ?t (replicate 32 1) [replicate 32 2] (replicate 4 0) [] (replicate 4 0)
    (replicate 80 3) = Inr aux" by (metis sum.collapse(2))
  have "auxpow_read_header (read_tx (\<lambda>b. b)) 80 ([7] @ (le_encode 4 257 @ replicate 76 9 @ aux) @ [8]) 1 =
      Inr (le_encode 4 257 @ replicate 76 9 @ aux, 81 + length aux)"
  proof -
    have f: "((257 :: nat) AND VERSION_AUXPOW \<noteq> 0) = True" by (simp add: VERSION_AUXPOW_def)
    have l: "length [7 :: byte] = 1" "1 + (80 + length aux) = 81 + length aux" by simp_all
    show ?thesis
      by (rule auxpow_header_exact [OF _ _ _ _ _ _ _ aux, of 257 80 "replicate 76 9" "\<lambda>b. b" "[7]" "[8]",
            unfolded f if_True l]) (simp_all add: tx_ok_def)
  qed
  with aux show ?thesis by blast
qed

end
