(* ===== verification/Compaction.thy ===== *)
theory Compaction
  imports ChainState
begin

section \<open>Compacting the history to completion (cli/electrumx_compact_history.py)\<close>

text \<open>
  The command line repeats passes of compaction until the cursor is back at -1.  The loop is a partial
  function, so that not returning would be \<open>None\<close>; what is proved is that it returns.
\<close>

partial_function (option) compact_passes ::
  "'db engine \<Rightarrow> nat \<Rightarrow> 'db history \<Rightarrow> (exn + 'db history) option" where
  "compact_passes E limit h =
     (if comp_cursor h = -1 then Some (Inr h)
      else case compact_history E limit h of
             Inl e \<Rightarrow> Some (Inl e)
           | Inr (written, h') \<Rightarrow> compact_passes E limit h')"

declare compact_passes.simps [code]

text \<open>Continue where we left off, if interrupted.\<close>

definition start_compaction :: "'db history \<Rightarrow> 'db history" where
  "start_compaction h =
     (let h = (if comp_cursor h = -1 then h\<lparr>comp_cursor := 0\<rparr> else h)
      in h\<lparr>comp_flush_count := max (comp_flush_count h) 1\<rparr>)"

subsection \<open>A pass does not fail\<close>

text \<open>A pass can only fail on a history with too many bytes for 65536 rows.\<close>

definition hists_fit :: "contents \<Rightarrow> nat \<Rightarrow> bool" where
  "hists_fit m max_entries \<longleftrightarrow>
     (\<forall>x. length x = hashX_len \<longrightarrow> length (hist_bytes m x) \<le> 65536 * (max_entries * TXNUM_LEN))"

lemma compact_chunks_total: "n + length rows \<le> 65536 \<Longrightarrow> \<exists>d. compact_chunks x hm rows n c = Inr d"
  by (induction x hm rows n c rule: compact_chunks.induct)
    (auto simp: pack_be_uint16_def pack_be_unsigned_def Let_def)

lemma length_chunks_le: "0 < k \<Longrightarrow> length xs \<le> n * k \<Longrightarrow> length (chunks xs k) \<le> n"
proof -
  assume k: "0 < k" and l: "length xs \<le> n * k"
  then have "length xs + k - 1 < (n + 1) * k" by simp
  then have "(length xs + k - 1) div k < n + 1" by (rule less_mult_imp_div_less)
  then show ?thesis using k by (simp add: length_chunks)
qed

lemma compact_hashX_total:
  assumes "0 < me" "concat (map snd hm) \<noteq> []" "length (concat (map snd hm)) \<le> 65536 * (me * TXNUM_LEN)"
  shows "\<exists>d. compact_hashX me x hm c = Inr d"
proof -
  have "length (chunks (concat (map snd hm)) (me * TXNUM_LEN)) \<le> 65536"
    by (rule length_chunks_le) (use assms in simp_all)
  then obtain d where "compact_chunks x hm (chunks (concat (map snd hm)) (me * TXNUM_LEN)) 0
      (c\<lparr>keys_to_delete := remdups (keys_to_delete c @ map fst hm)\<rparr>) = Inr d"
    using compact_chunks_total by (metis add_0)
  moreover have "chunks (concat (map snd hm)) (me * TXNUM_LEN) \<noteq> []"
    using assms(1,2) by (subst chunks_step) simp_all
  ultimately show ?thesis using assms(1) by (simp add: compact_hashX_def Let_def)
qed

lemma length_concat_filter:
  "length (concat (map f (filter P (xs @ ys)))) = length (concat (map f (filter P xs))) + length (concat (map f (filter P ys)))"
  by simp

lemma compact_rows_total:
  assumes "0 < me"
    and "\<forall>kv \<in> set (H @ R). snd kv \<noteq> []"
    and "\<forall>kv \<in> set (H @ R). length (concat (map snd (filter (\<lambda>e. hash_of e = hash_of kv) (H @ R)))) \<le> 65536 * (me * TXNUM_LEN)"
    and "case prior of None \<Rightarrow> H = [] | Some x \<Rightarrow> H \<noteq> [] \<and> (\<forall>kv \<in> set H. hash_of kv = x)"
  shows "\<exists>d. compact_rows me R prior H c = Inr d"
  using assms
proof (induction R arbitrary: prior H c)
  case Nil
  show ?case
  proof (cases prior)
    case (Some x)
    with Nil.prems(4) have H: "H \<noteq> []" "filter (\<lambda>e. hash_of e = x) H = H" "hash_of (hd H) = x" by auto
    then have "length (concat (map snd H)) \<le> 65536 * (me * TXNUM_LEN)" using Nil.prems(3) by (metis append_Nil2 hd_in_set)
    moreover have "concat (map snd H) \<noteq> []" using H(1) Nil.prems(2) by (cases H) auto
    ultimately show ?thesis using compact_hashX_total [OF Nil.prems(1)] Some by simp
  qed simp
next
  case (Cons kv R)
  obtain k v where kv: "kv = (k, v)" by fastforce
  show ?case
  proof (cases "length k = hashX_len + FLUSHID_LEN")
    case False
    have len: "length (concat (map snd (filter P (H @ R)))) \<le> length (concat (map snd (filter P (H @ kv # R))))" for P
      by simp
    have "\<forall>e \<in> set (H @ R). length (concat (map snd (filter (\<lambda>a. hash_of a = hash_of e) (H @ R)))) \<le> 65536 * (me * TXNUM_LEN)"
    proof
      fix e assume "e \<in> set (H @ R)"
      then have "e \<in> set (H @ kv # R)" by auto
      with Cons.prems(3) have "length (concat (map snd (filter (\<lambda>a. hash_of a = hash_of e) (H @ kv # R)))) \<le> 65536 * (me * TXNUM_LEN)"
        by blast
      with len [of "\<lambda>a. hash_of a = hash_of e"] show "length (concat (map snd (filter (\<lambda>a. hash_of a = hash_of e) (H @ R)))) \<le> 65536 * (me * TXNUM_LEN)"
        by linarith
    qed
    from Cons.IH [OF Cons.prems(1) _ this Cons.prems(4)] Cons.prems(2) False show ?thesis by (simp add: kv)
  next
    case lk: True
    have step: "\<exists>d. compact_rows me R (Some (hash_of kv)) (H @ [kv]) c = Inr d"
      if "\<forall>e \<in> set H. hash_of e = hash_of kv" for c
      by (rule Cons.IH [OF Cons.prems(1)]) (use Cons.prems(2,3) that in simp_all)
    show ?thesis
    proof (cases prior)
      case None
      with Cons.prems(4) have "H = []" by simp
      with step [of c] show ?thesis using lk None by (simp add: kv)
    next
      case (Some x)
      show ?thesis
      proof (cases "hash_of kv = x")
        case True
        with step [of c] Cons.prems(4) show ?thesis using lk Some by (simp add: kv)
      next
        case False
        have H: "H \<noteq> []" "filter (\<lambda>e. hash_of e = x) H = H" "hash_of (hd H) = x" "hd H \<in> set (H @ kv # R)"
          using Cons.prems(4) Some by auto
        then have b: "length (concat (map snd (filter (\<lambda>e. hash_of e = x) (H @ kv # R)))) \<le> 65536 * (me * TXNUM_LEN)"
          using Cons.prems(3) by metis
        then have "length (concat (map snd H)) \<le> 65536 * (me * TXNUM_LEN)"
          unfolding length_concat_filter H(2) by linarith
        moreover have "concat (map snd H) \<noteq> []" using H(1) Cons.prems(2) by (cases H) auto
        ultimately obtain d where d: "compact_hashX me x H c = Inr d"
          using compact_hashX_total [OF Cons.prems(1)] by blast
        have "\<exists>e. compact_rows me R (Some (hash_of kv)) [kv] d = Inr e"
        proof (rule Cons.IH [OF Cons.prems(1)])
          show "\<forall>kv \<in> set ([kv] @ R). snd kv \<noteq> []" using Cons.prems(2) by simp
          show "\<forall>e \<in> set ([kv] @ R). length (concat (map snd (filter (\<lambda>a. hash_of a = hash_of e) ([kv] @ R)))) \<le> 65536 * (me * TXNUM_LEN)"
          proof
            fix e assume "e \<in> set ([kv] @ R)"
            then have "e \<in> set (H @ kv # R)" by auto
            with Cons.prems(3) have "length (concat (map snd (filter (\<lambda>a. hash_of a = hash_of e) (H @ kv # R)))) \<le> 65536 * (me * TXNUM_LEN)"
              by blast
            then show "length (concat (map snd (filter (\<lambda>a. hash_of a = hash_of e) ([kv] @ R)))) \<le> 65536 * (me * TXNUM_LEN)"
              unfolding length_concat_filter [of _ _ H] by simp
          qed
        qed simp
        with d False show ?thesis using lk Some by (simp add: kv)
      qed
    qed
  qed
qed

subsection \<open>The loop returns\<close>

lemma compact_prefix_total:
  assumes st: "storage E" and ok: "hist_ok (db_get E (hdb h)) fc" and p: "length p = 2"
    and me: "0 < max_hist_row_entries h" and fit: "hists_fit (db_get E (hdb h)) (max_hist_row_entries h)"
  shows "\<exists>d. compact_prefix E h p c = Inr d"
proof -
  let ?m = "db_get E (hdb h)"
  let ?R = "filter (\<lambda>kv. length (fst kv) = hashX_len + FLUSHID_LEN) (items_of ?m p)"
  have fin: "finite (dom ?m)" using ok by (simp add: hist_ok_def)
  have row: "snd kv \<noteq> [] \<and> length (hash_of kv) = hashX_len \<and> prefix p (hash_of kv)" if "kv \<in> set ?R" for kv
  proof -
    obtain k v where kv: "kv = (k, v)" by fastforce
    then have k: "?m k = Some v" "prefix p k" "length k = 13" using that fin by (simp_all add: items_of_iff)
    then have "k \<noteq> STATE_KEY" by auto
    then have "row_ok fc k v" using ok k(1) unfolding hist_ok_def by blast
    moreover have "prefix p (take 11 k)" using k p by (auto simp: prefix_def)
    ultimately show ?thesis using k(3) by (simp add: kv row_ok_def butsuffix_def)
  qed
  have "\<exists>d. compact_rows (max_hist_row_entries h) ?R None [] c = Inr d"
  proof (rule compact_rows_total [OF me])
    show "\<forall>kv \<in> set ([] @ ?R). snd kv \<noteq> []" using row by fastforce
    show "\<forall>kv \<in> set ([] @ ?R). length (concat (map snd (filter (\<lambda>e. hash_of e = hash_of kv) ([] @ ?R))))
        \<le> 65536 * (max_hist_row_entries h * TXNUM_LEN)"
    proof
      fix kv assume "kv \<in> set ([] @ ?R)"
      then have r: "length (hash_of kv) = hashX_len" "prefix p (hash_of kv)" using row [of kv] by simp_all
      from fit r(1) have "length (hist_bytes ?m (hash_of kv)) \<le> 65536 * (max_hist_row_entries h * TXNUM_LEN)"
        unfolding hists_fit_def by blast
      then show "length (concat (map snd (filter (\<lambda>e. hash_of e = hash_of kv) ([] @ ?R))))
          \<le> 65536 * (max_hist_row_entries h * TXNUM_LEN)"
        unfolding hist_bytes_def items_group [OF ok r] append_Nil .
    qed
  qed simp
  then show ?thesis
    by (simp add: compact_prefix_def storage.iterator_eq [OF st] compact_rows_filter [of _ "items_of ?m p"])
qed

lemma compact_loop_total:
  assumes "storage E" "hist_ok (db_get E (hdb h)) fc" "0 < max_hist_row_entries h"
    "hists_fit (db_get E (hdb h)) (max_hist_row_entries h)" "0 \<le> cursor"
  shows "\<exists>cur d. compact_loop E h limit cursor c = Inr (cur, d) \<and> cursor \<le> cur \<and>
    (write_size c < limit \<and> cursor < 65536 \<longrightarrow> cursor < cur)"
  using assms
proof (induction E h limit cursor c rule: compact_loop.induct)
  case (1 E h limit cursor c)
  show ?case
  proof (cases "write_size c < limit \<and> cursor < 65536")
    case True
    then have "\<not> isl (pack_be_uint16 cursor)" using 1(6) by (simp add: pack_be_uint16_def pack_be_unsigned_def)
    then obtain p where p: "pack_be_uint16 cursor = Inr p" by (metis sum.collapse(2))
    obtain d where d: "compact_prefix E h p c = Inr d"
      using compact_prefix_total [OF 1(2,3) be_encode_2(1) [OF p] 1(4,5)] by blast
    from 1(1) [OF True p d 1(2-5)] 1(6) True p d show ?thesis
      by (subst compact_loop.simps) auto
  qed (subst compact_loop.simps, auto)
qed

lemma compact_history_total:
  assumes st: "storage E" and ok: "cursor_ok E h" and l: "0 < limit"
    and fit: "hists_fit (db_get E (hdb h)) (max_hist_row_entries h)"
  shows "\<exists>n h'. compact_history E limit h = Inr (n, h') \<and> max_hist_row_entries h' = max_hist_row_entries h \<and>
    (comp_cursor h' = -1 \<or> comp_cursor h < comp_cursor h')"
proof -
  have ok0: "hist_ok (db_get E (hdb h)) (max (comp_flush_count h) (flush_count h))"
    using ok by (fastforce simp: hist_ok_def cursor_ok_def row_ok_def split: if_splits)
  let ?c = "\<lparr>write_items = [], keys_to_delete = [], write_size = 0, max_flush = comp_flush_count h\<rparr>"
  obtain cur d where "compact_loop E h limit (comp_cursor h) ?c = Inr (cur, d)" "comp_cursor h < cur"
    using compact_loop_total [OF st ok0 _ fit, of "comp_cursor h" limit ?c] ok l by (auto simp: cursor_ok_def)
  then show ?thesis by (auto simp: compact_history_def flush_compaction_def Let_def)
qed

text \<open>What the passes from a cursor on make of the rows: each history stored under a prefix from the cursor on has the
  chunks of its bytes as its rows, the others are as they were.\<close>

definition compacted_from :: "int \<Rightarrow> nat \<Rightarrow> contents \<Rightarrow> contents \<Rightarrow> bool" where
  "compacted_from cursor max_entries m m' \<longleftrightarrow>
     (\<forall>x. length x = hashX_len \<longrightarrow>
        items_of m' x = (if cursor \<le> prefix_code x then compact_target max_entries x (hist_bytes m x) else items_of m x))"

lemma compacted_from_step:
  assumes rows: "\<And>x. length x = hashX_len \<Longrightarrow> items_of m1 x =
      (if c \<le> prefix_code x \<and> prefix_code x < c1 then compact_target me x (hist_bytes m x) else items_of m x)"
    and same: "\<And>x. length x = hashX_len \<Longrightarrow> hist_bytes m1 x = hist_bytes m x"
    and rest: "compacted_from c1 me m1 m'" and "c \<le> c1"
  shows "compacted_from c me m m'"
  unfolding compacted_from_def
proof (intro allI impI)
  fix x :: bytes assume x: "length x = hashX_len"
  then have "items_of m' x = (if c1 \<le> prefix_code x then compact_target me x (hist_bytes m x) else items_of m1 x)"
    using rest same [OF x] by (simp add: compacted_from_def)
  with rows [OF x] \<open>c \<le> c1\<close>
  show "items_of m' x = (if c \<le> prefix_code x then compact_target me x (hist_bytes m x) else items_of m x)" by auto
qed

lemma compact_passes_returns:
  assumes st: "storage E" and l: "0 < limit" and ok: "cursor_ok E h"
    and fit: "hists_fit (db_get E (hdb h)) (max_hist_row_entries h)"
  shows "\<exists>h'. compact_passes E limit h = Some (Inr h') \<and> comp_cursor h' = -1 \<and>
    hist_ok (db_get E (hdb h')) (flush_count h') \<and>
    (\<forall>x. length x = hashX_len \<longrightarrow> hist_bytes (db_get E (hdb h')) x = hist_bytes (db_get E (hdb h)) x) \<and>
    compacted_from (comp_cursor h) (max_hist_row_entries h) (db_get E (hdb h)) (db_get E (hdb h'))"
  using ok fit
proof (induction "nat (65536 - comp_cursor h)" arbitrary: h rule: less_induct)
  case less
  obtain n h1 where p: "compact_history E limit h = Inr (n, h1)" "max_hist_row_entries h1 = max_hist_row_entries h"
    and c: "comp_cursor h1 = -1 \<or> comp_cursor h < comp_cursor h1"
    using compact_history_total [OF st less(2) l less(3)] by blast
  note pass = compaction_pass [OF st less(2) p(1)] and rows = compaction_pass_rows [OF st less(2) p(1)]
  have ne: "comp_cursor h \<noteq> -1" using less(2) by (simp add: cursor_ok_def)
  have nxt: "compact_passes E limit h = compact_passes E limit h1"
    by (subst compact_passes.simps) (simp add: ne p(1))
  show ?case
  proof (cases "comp_cursor h1 = -1")
    case True
    then have "compact_passes E limit h1 = Some (Inr h1)" by (subst compact_passes.simps) simp
    with nxt pass rows True show ?thesis by (auto simp: compacted_from_def)
  next
    case False
    then have ok1: "cursor_ok E h1" using pass by simp
    have fit1: "hists_fit (db_get E (hdb h1)) (max_hist_row_entries h1)"
      using less(3) pass unfolding hists_fit_def p(2) by metis
    have "nat (65536 - comp_cursor h1) < nat (65536 - comp_cursor h)"
      using c False ok1 by (auto simp: cursor_ok_def)
    from less(1) [OF this ok1 fit1] obtain h' where h': "compact_passes E limit h1 = Some (Inr h')" "comp_cursor h' = -1"
      "hist_ok (db_get E (hdb h')) (flush_count h')"
      "\<forall>x. length x = hashX_len \<longrightarrow> hist_bytes (db_get E (hdb h')) x = hist_bytes (db_get E (hdb h1)) x"
      and rest: "compacted_from (comp_cursor h1) (max_hist_row_entries h1) (db_get E (hdb h1)) (db_get E (hdb h'))"
      by blast
    have "compacted_from (comp_cursor h) (max_hist_row_entries h) (db_get E (hdb h)) (db_get E (hdb h'))"
      by (rule compacted_from_step [OF _ _ rest [unfolded p(2)]]) (use rows pass False c in simp_all)
    with h' nxt pass show ?thesis by metis
  qed
qed

subsection \<open>The command line\<close>

text \<open>\<open>compact_history\<close>, after the databases are opened; its limit is 8,000,000 bytes.\<close>

definition COMPACT_LIMIT :: nat where "COMPACT_LIMIT = 8 * 1000 * 1000"

definition run_compaction :: "'db engine \<Rightarrow> chain_env \<Rightarrow> 'db chain_db \<Rightarrow> (exn + 'db chain_db) option" where
  "run_compaction E C d =
     (if first_sync d then Some (Inl AssertionError)
      else case compact_passes E COMPACT_LIMIT (start_compaction (hist d)) of
             None \<Rightarrow> None
           | Some (Inl e) \<Rightarrow> Some (Inl e)
           | Some (Inr h) \<Rightarrow> Some (Inr (set_flush_count E C (flush_count h) (d\<lparr>hist := h\<rparr>))))"

definition compact_history_main ::
  "'db engine \<Rightarrow> chain_env \<Rightarrow> 'db \<Rightarrow> 'db \<Rightarrow> 'db chain_db \<Rightarrow> (exn + 'db chain_db) option" where
  "compact_history_main E C udb hdb' d =
     (case open_dbs E C udb hdb' True d of Inl e \<Rightarrow> Some (Inl e) | Inr d \<Rightarrow> run_compaction E C d)"

lemma prefix_code_nonneg: "0 \<le> prefix_code x"
  by (simp add: prefix_code_def)

lemma start_compaction_ok:
  assumes "comp_cursor h = -1 \<and> hist_ok (db_get E (hdb h)) (flush_count h) \<or> cursor_ok E h"
    and "0 < max_hist_row_entries h"
  shows "cursor_ok E (start_compaction h)"
  using assms(1)
proof
  assume "comp_cursor h = -1 \<and> hist_ok (db_get E (hdb h)) (flush_count h)"
  then show ?thesis using assms(2) by (auto simp: cursor_ok_def hist_ok_def start_compaction_def prefix_code_def)
next
  assume ok: "cursor_ok E h"
  then have "comp_cursor h \<noteq> -1" by (simp add: cursor_ok_def)
  moreover have "row_ok (max (comp_flush_count h) 1) k v" if "row_ok (comp_flush_count h) k v" for k v
    by (rule row_ok_mono [OF that]) simp
  ultimately show ?thesis using ok unfolding cursor_ok_def start_compaction_def Let_def
    by (auto split: if_splits) metis+
qed

text \<open>C37: compaction always comes to its end, and compacts.  On a database that opens, is consistent and whose histories
  fit 65536 rows each, whether compaction starts or continues one that was interrupted, the command returns and does not
  fail.  Afterwards no compaction is in progress; the rows of every history under a prefix from the cursor on (of all of
  them, when it starts) are the chunks of its bytes, numbered from 0 and full but for the last, and the rows below the
  cursor are untouched; every history is byte for byte what it was; the rows are consistent with the new flush count, and
  the UTXO database has stored the same flush count, so that the next opening finds nothing to undo.\<close>

theorem compaction_terminates:
  assumes "storage E" and opened: "open_dbs E C udb hdb' True d0 = Inr d" "\<not> first_sync d"
    and rows: "0 < max_hist_row_entries (hist d)"
      "comp_cursor (hist d) = -1 \<and> hist_ok (db_get E (hdb (hist d))) (flush_count (hist d)) \<or> cursor_ok E (hist d)"
      "hists_fit (db_get E (hdb (hist d))) (max_hist_row_entries (hist d))"
  shows "\<exists>d'. compact_history_main E C udb hdb' d0 = Some (Inr d') \<and> comp_cursor (hist d') = -1 \<and>
    compacted_from (comp_cursor (hist d)) (max_hist_row_entries (hist d)) (db_get E (hdb (hist d))) (db_get E (hdb (hist d'))) \<and>
    (\<forall>x. length x = hashX_len \<longrightarrow> hist_bytes (db_get E (hdb (hist d'))) x = hist_bytes (db_get E (hdb (hist d))) x) \<and>
    hist_ok (db_get E (hdb (hist d'))) (flush_count (hist d')) \<and> utxo_flush_count d' = flush_count (hist d') \<and>
    db_get E (utxo_db d') UTXO_STATE_KEY = Some (encode (repr_dict (utxo_state_dict C d')))"
proof -
  have same: "hdb (start_compaction h) = hdb h" "max_hist_row_entries (start_compaction h) = max_hist_row_entries h"
    "comp_cursor (start_compaction h) = (if comp_cursor h = -1 then 0 else comp_cursor h)" for h :: "'a history"
    by (simp_all add: start_compaction_def)
  have "0 < COMPACT_LIMIT" by (simp add: COMPACT_LIMIT_def)
  from compact_passes_returns [OF assms(1) this start_compaction_ok [OF rows(2,1)], unfolded same, OF rows(3)]
  obtain h' where h': "compact_passes E COMPACT_LIMIT (start_compaction (hist d)) = Some (Inr h')" "comp_cursor h' = -1"
    "hist_ok (db_get E (hdb h')) (flush_count h')"
    "\<forall>x. length x = hashX_len \<longrightarrow> hist_bytes (db_get E (hdb h')) x = hist_bytes (db_get E (hdb (hist d))) x"
    and c: "compacted_from (if comp_cursor (hist d) = -1 then 0 else comp_cursor (hist d)) (max_hist_row_entries (hist d))
      (db_get E (hdb (hist d))) (db_get E (hdb h'))"
    by blast
  have "compacted_from (comp_cursor (hist d)) (max_hist_row_entries (hist d)) (db_get E (hdb (hist d))) (db_get E (hdb h'))"
    using c prefix_code_nonneg by (auto simp: compacted_from_def order_trans [of "-1" 0] split: if_splits)
  moreover have "compact_history_main E C udb hdb' d0 = Some (Inr (set_flush_count E C (flush_count h') (d\<lparr>hist := h'\<rparr>)))"
    using opened h'(1) by (simp add: compact_history_main_def run_compaction_def)
  ultimately show ?thesis
    using h' by (simp add: set_flush_count_def Let_def storage.get_write [OF assms(1)] write_utxo_state_def utxo_state_dict_def)
qed

theorem compaction_terminates_witness:
  "\<exists>udb hdb' d'. compact_history_main rbt_engine sample_env udb hdb' sample_db = Some (Inr d') \<and> comp_cursor (hist d') = -1 \<and>
    items_of (db_get rbt_engine (hdb (hist d'))) (replicate 11 7) = [(replicate 11 7 @ [0, 0], [5,0,0,0,0, 9,0,0,0,0])]"
proof -
  define x where "x = (replicate 11 7 :: bytes)"
  define db where "db = RBT.insert (x @ [0, 2]) [9,0,0,0,0] (RBT.insert (x @ [0, 1]) [5,0,0,0,0 :: byte] RBT.empty)"
  have x: "length x = hashX_len" "x \<noteq> []" by (simp_all add: x_def)
  have m: "db_get rbt_engine db = [x @ [0, 1] \<mapsto> [5,0,0,0,0], x @ [0, 2] \<mapsto> [9,0,0,0,0]]"
    by (simp only: rbt_engine_def db_def engine.select_convs RBT.lookup_insert RBT.lookup_empty)
  define h0 where "h0 = (new_history db)\<lparr>flush_count := 2\<rparr>"
  define hdb1 where "hdb1 = db_write rbt_engine db [write_state h0]"
  have m1: "db_get rbt_engine hdb1 = (db_get rbt_engine db)(STATE_KEY \<mapsto> encode (repr_dict (state_dict h0)))"
    by (simp add: hdb1_def storage.get_write [OF rbt_storage.storage_axioms] write_state_def)
  define h where "h = (new_history hdb1)\<lparr>flush_count := 2\<rparr>"
  have h: "hdb h = hdb1" "flush_count h = 2" "comp_cursor h = -1" "max_hist_row_entries h = 12500"
    by (simp_all add: h_def new_history_def)
  have nk: "x @ y \<noteq> STATE_KEY" for y
  proof
    assume "x @ y = STATE_KEY"
    then have "length (x @ y) = 7" by simp
    then show False using x(1) by simp
  qed
  have dec: "be_decode [0, 1] = 1" "be_decode [0, 2] = 2" by (simp_all add: be_decode_def)
  have ok: "hist_ok (db_get rbt_engine hdb1) 2"
    by (auto simp: hist_ok_def row_ok_def slice_simps dec m m1 x split: if_splits)
  have items: "items_of (db_get rbt_engine hdb1) y =
      (if prefix y x then [(x @ [0, 1], [5,0,0,0,0]), (x @ [0, 2], [9,0,0,0,0])] else [])" if "length y = hashX_len" for y
  proof (rule items_of_eqI)
    have p: "prefix y (x @ z) \<longleftrightarrow> prefix y x" for z using that x(1) by (auto simp: prefix_same_length intro: prefix_both [of y x x])
    show "((k, v) \<in> set (if prefix y x then [(x @ [0, 1], [5,0,0,0,0]), (x @ [0, 2], [9,0,0,0,0])] else []))
      = (db_get rbt_engine hdb1 k = Some v \<and> prefix y k)" for k v
      using p that nk by (auto simp: m m1)
  qed (simp_all add: m m1 append_less_same)
  then have bytes: "hist_bytes (db_get rbt_engine hdb1) y = (if prefix y x then [5,0,0,0,0, 9,0,0,0,0] else [])"
    if "length y = hashX_len" for y using that by (simp add: hist_bytes_def)
  have fit: "hists_fit (db_get rbt_engine hdb1) 12500" by (simp add: hists_fit_def bytes)
  have rd: "read_state rbt_engine ((hist sample_db)\<lparr>hdb := hdb1\<rparr>) = Inr h"
    using read_state_written [of rbt_engine "(hist sample_db)\<lparr>hdb := hdb1\<rparr>" h0] m1
    by (simp add: h_def h0_def sample_db_def empty_db_def new_history_def)
  then have oh: "open_db rbt_engine hdb1 2 True (hist sample_db) = Inr h"
    by (simp add: open_db_def clear_excess_def h)
  define s where "s = sample_db\<lparr>first_sync := False, utxo_flush_count := 2\<rparr>"
  define udb where "udb = db_write rbt_engine RBT.empty [write_utxo_state sample_env s]"
  have mu: "db_get rbt_engine udb = [UTXO_STATE_KEY \<mapsto> encode (repr_dict (utxo_state_dict sample_env s))]"
    by (simp add: udb_def storage.get_write [OF rbt_storage.storage_axioms] write_utxo_state_def)
      (simp add: rbt_engine_def)
  have rs: "read_utxo_state rbt_engine sample_env (sample_db\<lparr>utxo_db := udb\<rparr>) = Inr (sample_db\<lparr>utxo_db := udb,
      first_sync := False, utxo_flush_count := 2\<rparr>)"
    using read_utxo_state_written [of rbt_engine "sample_db\<lparr>utxo_db := udb\<rparr>" sample_env s]
    by (simp add: mu s_def sample_db_def empty_db_def)
  have none: "db_iterator rbt_engine udb [85] False = []"
  proof -
    have "items_of (db_get rbt_engine udb) [85] = []"
      by (rule items_of_eqI) (auto simp: mu UTXO_STATE_KEY_def encode_def)
    then show ?thesis by (simp add: storage.iterator_eq [OF rbt_storage.storage_axioms])
  qed
  let ?d = "sample_db\<lparr>utxo_db := udb, first_sync := False, utxo_flush_count := 2, hist := h\<rparr>"
  have "open_dbs rbt_engine sample_env udb hdb1 True sample_db = Inr ?d"
    using rs oh none
    by (simp add: open_dbs_def clear_excess_undo_info_def read_tx_counts_def h sample_db_def empty_db_def Let_def
        lf_read.simps uint_array_def)
  from compaction_terminates [OF rbt_storage.storage_axioms this] ok fit
  obtain d' where d': "compact_history_main rbt_engine sample_env udb hdb1 sample_db = Some (Inr d')" "comp_cursor (hist d') = -1"
    and c: "compacted_from (-1) 12500 (db_get rbt_engine hdb1) (db_get rbt_engine (hdb (hist d')))"
    by (auto simp: h)
  have "items_of (db_get rbt_engine (hdb (hist d'))) x = compact_target 12500 x (hist_bytes (db_get rbt_engine hdb1) x)"
    using c x(1) prefix_code_nonneg [of x] by (simp add: compacted_from_def)
  also have "\<dots> = [(x @ [0, 0], [5,0,0,0,0, 9,0,0,0,0])]"
    using x(1) bytes [of x] by (simp add: compact_target_def chunks_step be_encode_def numeral_2_eq_2)
  finally show ?thesis using d' unfolding x_def by blast
qed

end
