(* ===== verification/NameScripts.thy ===== *)
theory NameScripts
  imports Scripts Hashes
begin

section \<open>Scripts with a name prefix (NameMixin and NameIndexMixin of lib/coins.py)\<close>

text \<open>
  A pattern of a name prefix is a list of opcodes, of -1 for one ignored push, of -2
  (\<open>DATA_PUSH_MULTIPLE\<close>) for any number of pushes with their drops, and of strings for pushes that are
  looked up by that name.  \<open>build_template\<close> translates a pattern against the operations of the script;
  \<open>offset\<close> is how much longer the translation is than the pattern.
\<close>

datatype pattern_item = PCode int | PName string

abbreviation "DATA_PUSH_MULTIPLE \<equiv> -2 :: int"

abbreviation "OP_1 \<equiv> 81 :: byte"
abbreviation "OP_2 \<equiv> 82 :: byte"
abbreviation "OP_3 \<equiv> 83 :: byte"
abbreviation "OP_2DROP \<equiv> 109 :: byte"
abbreviation "OP_DROP \<equiv> 117 :: byte"

lemma name_op_code_values:
  "map op_code [''OP_1'', ''OP_2'', ''OP_3'', ''OP_2DROP'', ''OP_DROP''] = map (\<lambda>b. Inr (int (unat b))) [OP_1, OP_2, OP_3, OP_2DROP, OP_DROP]"
  by (simp add: op_code_def op_codes_value enum_getattr_def) (simp add: op_code_list_def)

fun read_data_placeholders_count :: "script_op list \<Rightarrow> nat" where
  "read_data_placeholders_count (Push op data # opcodes) = 1 + read_data_placeholders_count opcodes"
| "read_data_placeholders_count opcodes = 0"

definition add_data_placeholders :: "script_op list \<Rightarrow> int list \<Rightarrow> nat \<times> int list" where
  "add_data_placeholders opcodes template =
     (let num_dp = read_data_placeholders_count opcodes;
          num_2drop = num_dp div 2;
          num_drop = num_dp mod 2;
          two_drops = replicate num_2drop (int (unat OP_2DROP));
          one_drops = replicate num_drop (int (unat OP_DROP))
      in (num_dp + num_2drop + num_drop, template @ replicate num_dp (-1) @ two_drops @ one_drops))"

text \<open>The loop over a pattern, with \<open>i\<close> the position of its head.\<close>

fun build_template ::
  "script_op list \<Rightarrow> pattern_item list \<Rightarrow> nat \<Rightarrow> int \<Rightarrow> int list \<Rightarrow> (string \<times> int) list
    \<Rightarrow> int \<times> int list \<times> (string \<times> int) list" where
  "build_template ops [] i offset template named = (offset, template, named)"
| "build_template ops (PCode c # pops) i offset template named =
     (if c = DATA_PUSH_MULTIPLE
      then (let (added, template) = add_data_placeholders (drop i ops) template
            in build_template ops pops (i + 1) (offset + (int added - 1)) template named)
      else build_template ops pops (i + 1) offset (template @ [c]) named)"
| "build_template ops (PName s # pops) i offset template named =
     build_template ops pops (i + 1) offset (template @ [-1]) (AList.update s (int i + offset) named)"

text \<open>The loop over the patterns: the length of the first that matches, and its named operations.\<close>

fun match_name_prefix :: "script_op list \<Rightarrow> pattern_item list list \<Rightarrow> (nat \<times> (string \<times> script_op) list) option" where
  "match_name_prefix ops [] = None"
| "match_name_prefix ops (pops # possible_ops) =
     (let (offset, template, named_index) = build_template ops pops 0 0 [] [];
          n = nat (int (length pops) + offset)
      in if match_ops (take n ops) template
         then Some (n, map (\<lambda>(key, i). (key, ops ! nat i)) named_index)
         else match_name_prefix ops possible_ops)"

primrec find_end_loop :: "nat \<Rightarrow> bytes \<Rightarrow> nat \<Rightarrow> exn + nat" where
  "find_end_loop 0 script n = Inr n"
| "find_end_loop (Suc k) script n =
     (if n < length script then
        (let op = script ! n in
         if op \<le> OP_PUSHDATA4
         then bindE (read_dlen script op (n + 1)) (\<lambda>(dlen, n).
                if length script < n + dlen then Inl IndexError else find_end_loop k script (n + dlen))
         else find_end_loop k script (n + 1))
      else Inl IndexError)"

definition find_end_position_of_name :: "bytes \<Rightarrow> nat \<Rightarrow> exn + nat" where
  "find_end_position_of_name script k = find_end_loop k script 0"

definition interpret_name_prefix ::
  "bytes \<Rightarrow> pattern_item list list \<Rightarrow> exn + (string \<times> script_op) list option \<times> bytes" where
  "interpret_name_prefix script possible_ops =
     (case get_ops script of
        Inl _ \<Rightarrow> Inr (None, script)
      | Inr ops \<Rightarrow>
          (case match_name_prefix ops possible_ops of
             None \<Rightarrow> Inr (None, script)
           | Some (name_op_count, named_values) \<Rightarrow>
               bindE (find_end_position_of_name script name_op_count) (\<lambda>name_end_pos.
               Inr (Some named_values, drop name_end_pos script))))"

subsection \<open>NameIndexMixin\<close>

definition build_name_index_script :: "byte \<Rightarrow> bytes \<Rightarrow> exn + bytes" where
  "build_name_index_script OP_NAME_UPDATE name =
     bindE (push_data name) (\<lambda>push_name.
     bindE (push_data []) (\<lambda>push_empty.
     Inr ([OP_NAME_UPDATE] @ push_name @ push_empty @ [OP_2DROP, OP_DROP, OP_RETURN])))"

definition split_name_script :: "byte \<Rightarrow> pattern_item list list \<Rightarrow> bytes \<Rightarrow> exn + bytes option \<times> bytes" where
  "split_name_script OP_NAME_UPDATE NAME_OPERATIONS script =
     bindE (interpret_name_prefix script NAME_OPERATIONS) (\<lambda>(named_values, address_script).
       case named_values of
         None \<Rightarrow> Inr (None, address_script)
       | Some values \<Rightarrow>
           (case map_of values ''name'' of
              None \<Rightarrow> Inr (None, address_script)
            | Some (Push op name) \<Rightarrow>
                bindE (build_name_index_script OP_NAME_UPDATE name) (\<lambda>s. Inr (Some s, address_script))
            | Some (Op b) \<Rightarrow> Inl TypeError))"

text \<open>\<open>hx\<close> is the \<open>hashX_from_script\<close> of \<open>Coin\<close>.\<close>

definition name_index_hashX_from_script ::
  "(bytes \<Rightarrow> bytes) \<Rightarrow> byte \<Rightarrow> pattern_item list list \<Rightarrow> bytes \<Rightarrow> exn + bytes" where
  "name_index_hashX_from_script hx OP_NAME_UPDATE NAME_OPERATIONS script =
     bindE (split_name_script OP_NAME_UPDATE NAME_OPERATIONS script) (\<lambda>(_, address_script). Inr (hx address_script))"

definition name_hashX_from_script ::
  "(bytes \<Rightarrow> bytes) \<Rightarrow> byte \<Rightarrow> pattern_item list list \<Rightarrow> bytes \<Rightarrow> exn + bytes option" where
  "name_hashX_from_script hx OP_NAME_UPDATE NAME_OPERATIONS script =
     bindE (split_name_script OP_NAME_UPDATE NAME_OPERATIONS script) (\<lambda>(name_index_script, _).
       Inr (map_option hx name_index_script))"

subsection \<open>The prefixes of Namecoin, Xaya and Emercoin\<close>

abbreviation "POp b \<equiv> PCode (int (unat (b :: byte)))"

definition NAMECOIN_OPERATIONS :: "pattern_item list list" where
  "NAMECOIN_OPERATIONS =
     [[POp OP_1, PCode (-1), POp OP_2DROP],
      [POp OP_2, PName ''name'', PCode (-1), PCode (-1), POp OP_2DROP, POp OP_2DROP],
      [POp OP_3, PName ''name'', PCode (-1), POp OP_2DROP, POp OP_DROP]]"

definition XAYA_OPERATIONS :: "pattern_item list list" where
  "XAYA_OPERATIONS =
     [[POp OP_1, PName ''name'', PCode (-1), POp OP_2DROP, POp OP_DROP],
      [POp OP_2, PName ''name'', PCode (-1), POp OP_2DROP, POp OP_DROP]]"

definition EMERCOIN_OPERATIONS :: "pattern_item list list" where
  "EMERCOIN_OPERATIONS =
     [[POp OP_1, POp OP_DROP, PName ''name'', PName ''days'', POp OP_2DROP, PCode DATA_PUSH_MULTIPLE],
      [POp OP_2, POp OP_DROP, PName ''name'', PName ''days'', POp OP_2DROP, PCode DATA_PUSH_MULTIPLE],
      [POp OP_3, POp OP_DROP, PName ''name'', POp OP_DROP]]"

definition emercoin_hashX_from_script :: "(bytes \<Rightarrow> bytes) \<Rightarrow> bytes \<Rightarrow> exn + bytes" where
  "emercoin_hashX_from_script hx script =
     bindE (interpret_name_prefix script EMERCOIN_OPERATIONS) (\<lambda>(_, address_script). Inr (hx address_script))"

subsection \<open>Where a prefix ends\<close>

lemma get_ops_inv: "get_ops script = Inr os \<Longrightarrow> list_all op_ok os \<and> write_ops os = script"
  using get_ops_loop_inv [of script 0 "[]" os] by (auto simp: get_ops_def split: sum.splits)

lemma find_end_write:
  "list_all op_ok os \<Longrightarrow>
   find_end_loop (length os) (pre @ write_ops os @ post) (length pre) = Inr (length pre + length (write_ops os))"
proof (induction os arbitrary: pre)
  case Nil
  then show ?case by (simp add: write_ops_def)
next
  case (Cons x os)
  show ?case
  proof (cases x)
    case (Op b)
    then have "\<not> b \<le> OP_PUSHDATA4" using Cons.prems by (simp add: not_le)
    then show ?thesis using Cons.IH [of "pre @ [b]"] Cons.prems Op by (simp add: write_ops_def)
  next
    case (Push b data)
    let ?d = "dlen_bytes b (length data)"
    let ?s = "pre @ write_ops (x # os) @ post"
    have ok: "b \<le> OP_PUSHDATA4" "dlen_ok b (length data)" using Cons.prems Push by auto
    have s: "?s = (pre @ [b]) @ ?d @ (data @ write_ops os @ post)" "?s = (pre @ b # ?d @ data) @ write_ops os @ post"
      using Push by (simp_all add: write_ops_def)
    have "read_dlen ?s b (length pre + 1) = Inr (length data, length pre + 1 + length ?d)"
      using read_dlen_write [OF ok, of "pre @ [b]" "data @ write_ops os @ post"] unfolding s(1) [symmetric] by simp
    moreover have "length pre < length ?s" "?s ! length pre = b" "\<not> length ?s < length pre + 1 + length ?d + length data"
      using Push by (simp_all add: write_ops_def)
    moreover have "find_end_loop (length os) ?s (length pre + 1 + length ?d + length data) =
        Inr (length pre + length (write_ops (x # os)))"
      using Cons.IH [of "pre @ b # ?d @ data"] Cons.prems Push unfolding s(2) by (simp add: write_ops_def ac_simps)
    ultimately show ?thesis using ok(1) by (simp add: Let_def)
  qed
qed

lemma find_end_prefix:
  assumes "list_all op_ok os" "n \<le> length os"
  shows "find_end_position_of_name (write_ops os) n = Inr (length (write_ops (take n os)))"
    and "drop (length (write_ops (take n os))) (write_ops os) = write_ops (drop n os)"
proof -
  have w: "write_ops os = write_ops (take n os) @ write_ops (drop n os)"
    unfolding write_ops_def by (metis append_take_drop_id concat_append map_append)
  have "list_all op_ok (take n os)" using assms(1) by (auto simp: list_all_iff dest: in_set_takeD)
  from find_end_write [OF this, of "[]" "write_ops (drop n os)"] assms(2)
  show "find_end_position_of_name (write_ops os) n = Inr (length (write_ops (take n os)))"
    unfolding find_end_position_of_name_def w by simp
  show "drop (length (write_ops (take n os))) (write_ops os) = write_ops (drop n os)"
    by (subst w) simp
qed

subsection \<open>Interpreting a prefix\<close>

text \<open>The template is as long as it claims, and a name stands for a push of it.\<close>

definition template_ok :: "int \<Rightarrow> int list \<Rightarrow> (string \<times> int) list \<Rightarrow> bool" where
  "template_ok n template named \<longleftrightarrow> int (length template) = n \<and>
     (\<forall>(k, j) \<in> set named. 0 \<le> j \<and> j < n \<and> template ! nat j = -1)"

lemma template_ok_append:
  "template_ok n template named \<Longrightarrow> template_ok (n + int (length xs)) (template @ xs) named"
  by (auto simp: template_ok_def nth_append)

lemma template_ok_name:
  "template_ok n template named \<Longrightarrow> template_ok (n + 1) (template @ [-1]) (AList.update s n named)"
proof -
  assume ok: "template_ok n template named"
  have "0 \<le> j \<and> j < n + 1 \<and> (template @ [-1]) ! nat j = -1" if kj: "(k, j) \<in> set (AList.update s n named)" for k j
  proof (cases "(k, j) = (s, n)")
    case True
    then show ?thesis using ok by (auto simp: template_ok_def nth_append)
  next
    case False
    then have "(k, j) \<in> set named" using kj set_update_subset [of s n named] by auto
    then show ?thesis using ok by (auto simp: template_ok_def nth_append)
  qed
  then show ?thesis using ok unfolding template_ok_def by auto
qed

lemma build_template_ok:
  assumes "template_ok (int i + offset) template named"
    and "build_template ops pops i offset template named = (offset', template', named')"
  shows "template_ok (int i + int (length pops) + offset') template' named'"
  using assms
proof (induction ops pops i offset template named rule: build_template.induct)
  case (2 ops c pops i offset template named)
  show ?case
  proof (cases "c = DATA_PUSH_MULTIPLE")
    case True
    obtain added t where a: "add_data_placeholders (drop i ops) template = (added, t)" by fastforce
    obtain xs where "t = template @ xs" "length xs = added"
      using a by (auto simp: add_data_placeholders_def Let_def)
    then have "template_ok (int (i + 1) + (offset + (int added - 1))) t named"
      using template_ok_append [OF 2(3), of xs] by (simp add: algebra_simps)
    from 2(1) [OF True a [symmetric] refl this] show ?thesis using 2(4) True a by (simp add: algebra_simps)
  next
    case False
    have "template_ok (int (i + 1) + offset) (template @ [c]) named"
      using template_ok_append [OF 2(3), of "[c]"] by (simp add: algebra_simps)
    from 2(2) [OF False this] show ?thesis using 2(4) False by (simp add: algebra_simps)
  qed
next
  case (3 ops s pops i offset template named)
  from 3(1) template_ok_name [OF 3(2), of s] 3(3) show ?case by (simp add: algebra_simps)
qed simp

lemma match_name_prefix_ok:
  "match_name_prefix ops pats = Some (n, vals) \<Longrightarrow>
   n \<le> length ops \<and> (\<forall>(k, x) \<in> set vals. \<exists>i < n. x = ops ! i \<and> (\<exists>b d. x = Push b d))"
proof (induction pats)
  case (Cons pops pats)
  obtain offset template named where b: "build_template ops pops 0 0 [] [] = (offset, template, named)"
    by (cases "build_template ops pops 0 0 [] []") auto
  have ok: "template_ok (int (length pops) + offset) template named"
    using build_template_ok [OF _ b] by (simp add: template_ok_def)
  let ?n = "nat (int (length pops) + offset)"
  show ?case
  proof (cases "match_ops (take ?n ops) template")
    case True
    then have n: "n = ?n" "vals = map (\<lambda>(key, i). (key, ops ! nat i)) named" using Cons.prems b by auto
    have len: "length template = ?n" "?n \<le> length ops"
      using ok True by (auto simp: template_ok_def match_ops_def)
    have push: "\<exists>b d. ops ! j = Push b d" if "j < ?n" "template ! j = -1" for j
    proof -
      have "match_op (take ?n ops ! j) (template ! j)"
        using True that len by (auto simp: match_ops_def list_all_length)
      moreover have "(-1 :: int) \<noteq> uint b" for b :: byte using uint_nonnegative [of b] by linarith
      ultimately show ?thesis using that len by (cases "ops ! j") auto
    qed
    have "\<exists>i < n. ops ! nat j = ops ! i \<and> (\<exists>b d. ops ! nat j = Push b d)" if "(k, j) \<in> set named" for k j
      using ok that push [of "nat j"] len n(1) unfolding template_ok_def by (intro exI [of _ "nat j"]) auto
    with n len show ?thesis by auto
  next
    case False
    with Cons b show ?thesis by simp
  qed
qed simp

text \<open>Splitting off a name prefix never fails and loses nothing.  Either the script is given back as it is, or
  it is the operations of the prefix followed by the address script, byte for byte, the address
  script reads as the remaining operations, and every named value is a data push of the prefix.\<close>

theorem name_prefix_exact:
  "\<exists>values address. interpret_name_prefix script patterns = Inr (values, address) \<and>
     (case values of
        None \<Rightarrow> address = script
      | Some vals \<Rightarrow> \<exists>ops n. get_ops script = Inr ops \<and> n \<le> length ops \<and>
          script = write_ops (take n ops) @ address \<and> get_ops address = Inr (drop n ops) \<and>
          list_all (\<lambda>(k, x). \<exists>i < n. x = ops ! i \<and> (\<exists>b d. x = Push b d)) vals)"
proof (cases "get_ops script")
  case (Inl e)
  then show ?thesis by (simp add: interpret_name_prefix_def)
next
  case (Inr ops)
  note inv = get_ops_inv [OF Inr]
  show ?thesis
  proof (cases "match_name_prefix ops patterns")
    case None
    then show ?thesis using Inr by (simp add: interpret_name_prefix_def)
  next
    case (Some r)
    then obtain n vals where m: "match_name_prefix ops patterns = Some (n, vals)" by (cases r) auto
    note ok = match_name_prefix_ok [OF m]
    then have n: "n \<le> length ops" by simp
    note e = find_end_prefix [OF _ n, unfolded conjunct2 [OF inv], OF conjunct1 [OF inv]]
    have "list_all op_ok (drop n ops)" using inv by (auto simp: list_all_iff dest: in_set_dropD)
    then have "get_ops (drop (length (write_ops (take n ops))) script) = Inr (drop n ops)"
      using e(2) by (simp add: get_ops_write)
    moreover have "script = write_ops (take n ops) @ drop (length (write_ops (take n ops))) script"
      using inv e(2) by (metis append_take_drop_id concat_append map_append write_ops_def)
    ultimately show ?thesis
      using Inr m e(1) ok by (auto simp: interpret_name_prefix_def list_all_iff)
  qed
qed

subsection \<open>The name index\<close>

lemma interpret_written:
  assumes "list_all op_ok ops" "match_name_prefix ops patterns = Some (n, vals)"
  shows "interpret_name_prefix (write_ops ops) patterns = Inr (Some vals, write_ops (drop n ops))"
proof -
  have "n \<le> length ops" using match_name_prefix_ok [OF assms(2)] by simp
  from find_end_prefix [OF assms(1) this] show ?thesis
    by (simp add: interpret_name_prefix_def get_ops_write assms)
qed

lemma write_ops_append: "write_ops (xs @ ys) = write_ops xs @ write_ops ys"
  by (simp add: write_ops_def)

lemma split_written:
  assumes "list_all op_ok (prefix_ops @ rest)"
    and "match_name_prefix (prefix_ops @ rest) patterns = Some (length prefix_ops, vals)"
  shows "split_name_script upd patterns (write_ops prefix_ops @ write_ops rest) =
    (case map_of vals ''name'' of
       None \<Rightarrow> Inr (None, write_ops rest)
     | Some (Push op name) \<Rightarrow> bindE (build_name_index_script upd name) (\<lambda>s. Inr (Some s, write_ops rest))
     | Some (Op b) \<Rightarrow> Inl TypeError)"
  using interpret_written [OF assms] by (simp add: split_name_script_def write_ops_append)

lemma build_name_index:
  assumes "length name < 2 ^ 32"
  obtains op idx where "build_name_index_script upd name = Inr idx" "op_ok (Push op name)"
    "\<not> upd \<le> OP_PUSHDATA4 \<Longrightarrow> list_all op_ok ([Op upd, Push op name, Push 0 [], Op OP_2DROP, Op OP_DROP] @ [Op OP_RETURN])"
    "idx = write_ops [Op upd, Push op name, Push 0 [], Op OP_2DROP, Op OP_DROP] @ write_ops [Op OP_RETURN]"
proof -
  have "\<not> isl (push_data name)" using assms
    by (simp add: push_data_def Let_def pack_le_uint16_def pack_le_uint32_def pack_le_unsigned_def)
  then obtain b where b: "push_data name = Inr b" by (metis sum.collapse(2))
  obtain op where op: "op_ok (Push op name)" "b = write_op (Push op name)" by (rule push_data_op [OF b])
  have e: "push_data [] = Inr [0]" by (simp add: push_data_def)
  show ?thesis
    by (rule that [of "[upd] @ b @ [0] @ [OP_2DROP, OP_DROP, OP_RETURN]" op])
      (use op b e in \<open>simp_all add: build_name_index_script_def write_ops_def dlen_bytes_def dlen_ok_def not_le\<close>)
qed

text \<open>C39: the name index of Namecoin.  A registration and every later update of a name are indexed under the same
  script, whatever values they carry, and their outputs under the address script that follows the
  prefix; an index script is its own index script, and a pre-registration, which hides its name, is
  indexed by address only.\<close>

theorem namecoin_index:
  assumes "op_ok (Push a name)" "op_ok (Push b val)" "op_ok (Push c rand)" "length name < 2 ^ 32"
    and "get_ops address = Inr rest"
  shows "\<exists>idx. build_name_index_script OP_3 name = Inr idx \<and>
    split_name_script OP_3 NAMECOIN_OPERATIONS
      (write_ops [Op OP_3, Push a name, Push b val, Op OP_2DROP, Op OP_DROP] @ address) = Inr (Some idx, address) \<and>
    split_name_script OP_3 NAMECOIN_OPERATIONS
      (write_ops [Op OP_2, Push a name, Push c rand, Push b val, Op OP_2DROP, Op OP_2DROP] @ address) = Inr (Some idx, address) \<and>
    split_name_script OP_3 NAMECOIN_OPERATIONS (write_ops [Op OP_1, Push c rand, Op OP_2DROP] @ address) = Inr (None, address) \<and>
    split_name_script OP_3 NAMECOIN_OPERATIONS idx = Inr (Some idx, [OP_RETURN])"
proof -
  have address: "list_all op_ok rest" "address = write_ops rest" using get_ops_inv [OF assms(5)] by simp_all
  obtain op idx where idx: "build_name_index_script OP_3 name = Inr idx" "op_ok (Push op name)"
    "list_all op_ok ([Op OP_3, Push op name, Push 0 [], Op OP_2DROP, Op OP_DROP] @ [Op OP_RETURN])"
    "idx = write_ops [Op OP_3, Push op name, Push 0 [], Op OP_2DROP, Op OP_DROP] @ write_ops [Op OP_RETURN]"
    by (rule build_name_index [OF assms(4), of OP_3]) simp
  have m: "match_name_prefix ([Op OP_3, Push x name, y, Op OP_2DROP, Op OP_DROP] @ r) NAMECOIN_OPERATIONS =
      Some (length [Op OP_3, Push x name, y, Op OP_2DROP, Op OP_DROP], [(''name'', Push x name)])"
    if "\<exists>q d. y = Push q d" for x y r
    using that by (auto simp: NAMECOIN_OPERATIONS_def match_ops_def)
  have m2: "match_name_prefix ([Op OP_2, Push a name, Push c rand, Push b val, Op OP_2DROP, Op OP_2DROP] @ r) NAMECOIN_OPERATIONS =
      Some (length [Op OP_2, Push a name, Push c rand, Push b val, Op OP_2DROP, Op OP_2DROP], [(''name'', Push a name)])" for r
    by (simp add: NAMECOIN_OPERATIONS_def match_ops_def)
  have m1: "match_name_prefix ([Op OP_1, Push c rand, Op OP_2DROP] @ r) NAMECOIN_OPERATIONS =
      Some (length [Op OP_1, Push c rand, Op OP_2DROP], [])" for r
    by (simp add: NAMECOIN_OPERATIONS_def match_ops_def)
  have ok: "list_all op_ok ([Op OP_3, Push a name, Push b val, Op OP_2DROP, Op OP_DROP] @ rest)"
    "list_all op_ok ([Op OP_2, Push a name, Push c rand, Push b val, Op OP_2DROP, Op OP_2DROP] @ rest)"
    "list_all op_ok ([Op OP_1, Push c rand, Op OP_2DROP] @ rest)"
    using assms(1-3) address(1) by simp_all
  show ?thesis
    using split_written [OF ok(1) m, of OP_3] split_written [OF ok(2) m2, of OP_3] split_written [OF ok(3) m1, of OP_3]
      split_written [OF idx(3) m, of OP_3] idx(1)
    unfolding address(2) idx(4) by (simp add: write_ops_def)
qed

theorem namecoin_index_witness:
  "\<exists>idx. build_name_index_script OP_3 [100, 47] = Inr idx \<and>
    split_name_script OP_3 NAMECOIN_OPERATIONS
      (write_ops [Op OP_3, Push 2 [100, 47], Push 1 [7], Op OP_2DROP, Op OP_DROP] @ [OP_DUP]) = Inr (Some idx, [OP_DUP])"
proof -
  have "get_ops (write_ops [Op OP_DUP]) = Inr [Op OP_DUP]" by (rule get_ops_write) simp
  then have "get_ops [OP_DUP] = Inr [Op OP_DUP]" by (simp add: write_ops_def)
  from namecoin_index [OF _ _ _ _ this, of 2 "[100, 47]" 1 "[7]" 0 "[]"] show ?thesis
    by (auto simp: dlen_ok_def)
qed

end
