(* ===== verification/Coins.thy ===== *)
theory Coins
  imports Scripts Hashes Transactions
begin

section \<open>Coins (lib/coins.py)\<close>

text \<open>
  A coin class is a value of the record \<open>coin\<close>; an attribute that \<open>Coin\<close> itself leaves unset is an option.  A
  subclass is an update of its base, and a mixin a function from coins to coins (\<open>CoinTable\<close>).  A
  class that an attribute refers to (the deserialiser, the daemon, the session and the block
  processor) is given by its name.  \<open>S\<close> is SHA-256 and \<open>H\<close> the hash function of the checksum of Base58.

  \<open>P2SH_VERBYTES\<close> is a tuple of version bytes for most coins, but a plain \<open>bytes\<close> object for some, where \<open>in\<close>
  looks for a part of it.
\<close>

datatype verbytes = VTuple "bytes list" | VBytes bytes

record coin =
  NAME :: "string option"
  SHORTNAME :: "string option"
  NET :: "string option"
  REORG_LIMIT :: int
  VALUE_PER_COIN :: int
  CHUNK_SIZE :: int
  BASIC_HEADER_SIZE :: int
  STATIC_BLOCK_HEADERS :: bool
  SESSIONCLS :: string
  DESERIALIZER :: string
  DAEMON :: string
  BLOCK_PROCESSOR :: string
  P2PKH_VERBYTE :: bytes
  P2SH_VERBYTES :: verbytes
  XPUB_VERBYTES :: bytes
  XPRV_VERBYTES :: bytes
  WIF_BYTE :: bytes
  GENESIS_HASH :: string
  PEER_DEFAULT_PORTS :: "string \<times> string"
  PEERS :: "string list"
  RPC_PORT :: "int option"
  TX_COUNT :: "int option"
  TX_COUNT_HEIGHT :: "int option"
  TX_PER_BLOCK :: "int option"

definition Coin :: coin where
  "Coin = \<lparr>NAME = None, SHORTNAME = None, NET = None, REORG_LIMIT = 200, VALUE_PER_COIN = 100000000, CHUNK_SIZE = 2016,
     BASIC_HEADER_SIZE = 80, STATIC_BLOCK_HEADERS = True, SESSIONCLS = ''ElectrumX'', DESERIALIZER = ''Deserializer'',
     DAEMON = ''Daemon'', BLOCK_PROCESSOR = ''BlockProcessor'', P2PKH_VERBYTE = [0x01], P2SH_VERBYTES = VTuple [[0x00]],
     XPUB_VERBYTES = [63, 63, 63, 63], XPRV_VERBYTES = [63, 63, 63, 63], WIF_BYTE = [0x80],
     GENESIS_HASH = ''000000000019d6689c085ae165831e934ff763ae46a2a6c172b3f1b60a8ce26f'',
     PEER_DEFAULT_PORTS = (''50001'', ''50002''), PEERS = [], RPC_PORT = None,
     TX_COUNT = None, TX_COUNT_HEIGHT = None, TX_PER_BLOCK = None\<rparr>"

text \<open>Reading an attribute that may be missing.\<close>

definition attrE :: "'a option \<Rightarrow> exn + 'a" where
  "attrE a = (case a of None \<Rightarrow> Inl AttributeError | Some x \<Rightarrow> Inr x)"

subsection \<open>Choosing a coin\<close>

definition lower :: "string \<Rightarrow> string" where
  "lower = map (\<lambda>c. let n = of_char c :: nat in if 65 \<le> n \<and> n \<le> 90 then char_of (n + 32) else c)"

text \<open>\<open>subclasses(Coin)\<close> is the argument \<open>coins\<close>, in the order of their class names.\<close>

fun lookup_coin_class :: "coin list \<Rightarrow> string \<Rightarrow> string \<Rightarrow> exn + coin" where
  "lookup_coin_class [] name net = Inl CoinError"
| "lookup_coin_class (coin # coins) name net =
     bindE (attrE (NAME coin)) (\<lambda>NAME.
       if lower NAME = lower name
       then bindE (attrE (NET coin)) (\<lambda>NET.
              if lower NET = lower net
              then (if TX_COUNT coin = None \<or> TX_COUNT_HEIGHT coin = None \<or> TX_PER_BLOCK coin = None
                    then Inl CoinError else Inr coin)
              else lookup_coin_class coins name net)
       else lookup_coin_class coins name net)"

fun lookup_xverbytes :: "coin list \<Rightarrow> bytes \<Rightarrow> exn + bool \<times> coin" where
  "lookup_xverbytes [] vb = Inl CoinError"
| "lookup_xverbytes (coin # coins) vb =
     (if vb = XPUB_VERBYTES coin then Inr (True, coin)
      else if vb = XPRV_VERBYTES coin then Inr (False, coin)
      else lookup_xverbytes coins vb)"

subsection \<open>The URL of the daemon\<close>

text \<open>
  What \<open>RPC_URL_REGEX\<close> finds: \<open>after_at s\<close> for the text after an \<open>@\<close> is \<open>None\<close> if the rest of the expression
  cannot match there, and otherwise whether the port group takes part.  The \<open>.+\<close> is greedy: the last
  \<open>@\<close> that can match counts, with at least one character and no newline before it.
\<close>

definition is_digit :: "char \<Rightarrow> bool" where
  "is_digit c \<longleftrightarrow> digit_value c \<noteq> None"

definition is_hex_colon :: "char \<Rightarrow> bool" where
  "is_hex_colon c \<longleftrightarrow> hex_digit_value c \<noteq> None \<or> c = CHR '':''"

definition port_follows :: "string \<Rightarrow> bool" where
  "port_follows s = (case s of c # d # _ \<Rightarrow> c = CHR '':'' \<and> is_digit d | _ \<Rightarrow> False)"

definition after_at :: "string \<Rightarrow> bool option" where
  "after_at s =
     (let body = takeWhile is_hex_colon (tl s);
          rest = dropWhile is_hex_colon (tl s)
      in if s \<noteq> [] \<and> hd s = CHR ''['' \<and> body \<noteq> [] \<and> rest \<noteq> [] \<and> hd rest = CHR '']''
         then Some (port_follows (tl rest))
         else if takeWhile (\<lambda>c. c \<noteq> CHR '':'') s \<noteq> []
         then Some (port_follows (dropWhile (\<lambda>c. c \<noteq> CHR '':'') s))
         else None)"

text \<open>The positions after an \<open>@\<close>, the last first.\<close>

fun match_url :: "string \<Rightarrow> nat \<Rightarrow> bool option" where
  "match_url url 0 = None"
| "match_url url (Suc i) =
     (if i \<ge> 1 \<and> i < length url \<and> url ! i = CHR ''@'' \<and> CHR 0x0A \<notin> set (take i url) \<and> after_at (drop (Suc i) url) \<noteq> None
      then after_at (drop (Suc i) url)
      else match_url url i)"

definition sanitize_url :: "coin \<Rightarrow> string \<Rightarrow> exn + string" where
  "sanitize_url c url =
     (let url = rev (dropWhile ((=) CHR ''/'') (rev (strip url))) in
      case match_url url (length url) of
        None \<Rightarrow> Inl CoinError
      | Some has_port \<Rightarrow>
          bindE (if has_port then Inr url
                 else bindE (attrE (RPC_PORT c)) (\<lambda>port. Inr (url @ '':'' @ show_int port))) (\<lambda>url.
          let url = (if prefix ''http://'' url \<or> prefix ''https://'' url then url else ''http://'' @ url)
          in Inr (url @ ''/'')))"

subsection \<open>Addresses\<close>

definition coin_hashX_from_script :: "(bytes \<Rightarrow> bytes) \<Rightarrow> bytes \<Rightarrow> bytes" where
  "coin_hashX_from_script S script = take hashX_len (S script)"

definition verbyte_in :: "bytes \<Rightarrow> verbytes \<Rightarrow> bool" where
  "verbyte_in v vs = (case vs of VTuple l \<Rightarrow> v \<in> set l | VBytes b \<Rightarrow> sublist v b)"

text \<open>With 20 bytes or fewer \<open>verbyte\<close> is -1, which no tuple contains; \<open>-1 in b\<close> raises for a \<open>bytes\<close> object \<open>b\<close>.\<close>

definition pay_to_address_script :: "(bytes \<Rightarrow> bytes) \<Rightarrow> coin \<Rightarrow> string \<Rightarrow> exn + bytes" where
  "pay_to_address_script H c address =
     bindE (decode_check H address) (\<lambda>raw.
       if length raw > 20
       then (let verlen = length raw - 20; verbyte = take verlen raw; hash160 = drop verlen raw in
             if verbyte = P2PKH_VERBYTE c then P2PKH_script hash160
             else if verbyte_in verbyte (P2SH_VERBYTES c) then P2SH_script hash160
             else Inl CoinError)
       else (case P2SH_VERBYTES c of VTuple _ \<Rightarrow> Inl CoinError | VBytes _ \<Rightarrow> Inl ValueError))"

definition address_to_hashX :: "(bytes \<Rightarrow> bytes) \<Rightarrow> (bytes \<Rightarrow> bytes) \<Rightarrow> coin \<Rightarrow> string \<Rightarrow> exn + bytes" where
  "address_to_hashX S H c address =
     bindE (pay_to_address_script H c address) (\<lambda>script. Inr (coin_hashX_from_script S script))"

definition hash160_to_P2PKH_hashX :: "(bytes \<Rightarrow> bytes) \<Rightarrow> bytes \<Rightarrow> exn + bytes" where
  "hash160_to_P2PKH_hashX S hash160 = bindE (P2PKH_script hash160) (\<lambda>script. Inr (coin_hashX_from_script S script))"

definition privkey_WIF :: "(bytes \<Rightarrow> bytes) \<Rightarrow> coin \<Rightarrow> bytes \<Rightarrow> bool \<Rightarrow> string" where
  "privkey_WIF H c privkey_bytes compressed =
     encode_check H (WIF_BYTE c @ privkey_bytes @ (if compressed then [0x01] else []))"

subsection \<open>Headers and blocks\<close>

definition coin_header_prevhash :: "bytes \<Rightarrow> bytes" where
  "coin_header_prevhash header = slice header 4 36"

definition static_header_offset :: "coin \<Rightarrow> int \<Rightarrow> exn + int" where
  "static_header_offset c height =
     bindE (assertE (STATIC_BLOCK_HEADERS c)) (\<lambda>_. Inr (height * BASIC_HEADER_SIZE c))"

text \<open>A class that changes the offsets passes its own \<open>offset\<close>.\<close>

definition static_header_len :: "(int \<Rightarrow> exn + int) \<Rightarrow> int \<Rightarrow> exn + int" where
  "static_header_len offset height =
     bindE (offset (height + 1)) (\<lambda>a. bindE (offset height) (\<lambda>b. Inr (a - b)))"

text \<open>\<open>block[:n]\<close>\<close>

definition take_int :: "int \<Rightarrow> 'a list \<Rightarrow> 'a list" where
  "take_int n xs = (if 0 \<le> n then take (nat n) xs else take (length xs - nat (- n)) xs)"

definition coin_block_header :: "(int \<Rightarrow> exn + int) \<Rightarrow> bytes \<Rightarrow> int \<Rightarrow> exn + bytes" where
  "coin_block_header offset block height =
     bindE (static_header_len offset height) (\<lambda>n. Inr (take_int n block))"

definition coin_block :: "(bytes \<Rightarrow> int \<Rightarrow> exn + bytes) \<Rightarrow> tx reader \<Rightarrow> bytes \<Rightarrow> int \<Rightarrow> exn + bytes \<times> bytes \<times> tx list" where
  "coin_block block_header rd raw_block height =
     bindE (block_header raw_block height) (\<lambda>header.
     bindE (read_tx_block rd raw_block (length header)) (\<lambda>(txs, _).
     Inr (raw_block, header, txs)))"

definition coin_genesis_block ::
  "(bytes \<Rightarrow> int \<Rightarrow> exn + bytes) \<Rightarrow> (bytes \<Rightarrow> bytes) \<Rightarrow> coin \<Rightarrow> bytes \<Rightarrow> exn + bytes" where
  "coin_genesis_block block_header header_hash c block =
     bindE (block_header block 0) (\<lambda>header.
       if hash_to_hex_str (header_hash header) \<noteq> GENESIS_HASH c then Inl CoinError else Inr (header @ [0]))"

subsection \<open>Limits and estimates\<close>

definition coin_max_fetch_blocks :: "int \<Rightarrow> int" where
  "coin_max_fetch_blocks height = (if height < 130000 then 1000 else 100)"

definition scaling_max_fetch_blocks :: "int \<Rightarrow> int" where
  "scaling_max_fetch_blocks height = (if height \<le> 10 then 100 else 3)"

definition bucket_estimatefee_block_target :: "int \<Rightarrow> int" where
  "bucket_estimatefee_block_target n =
     (if n \<le> 1 then 1
      else if n \<le> 12 then n
      else if n = 25 then n
      else if n \<le> 48 then n div 2 * 2
      else if n \<le> 1008 then n div 24 * 24
      else 1008)"

lemma bucket_estimatefee_bounds:
  "1 \<le> bucket_estimatefee_block_target n" "bucket_estimatefee_block_target n \<le> 1008"
  "bucket_estimatefee_block_target n \<le> max 1 n"
proof -
  have "24 * 2 \<le> n div 24 * 24" if "48 < n" using that by presburger
  moreover have "12 \<le> n div 2 * 2" if "12 < n" using that by presburger
  ultimately show "1 \<le> bucket_estimatefee_block_target n"
    unfolding bucket_estimatefee_block_target_def by (smt (verit))
  show "bucket_estimatefee_block_target n \<le> 1008"
    unfolding bucket_estimatefee_block_target_def by (auto; presburger)
  show "bucket_estimatefee_block_target n \<le> max 1 n"
    unfolding bucket_estimatefee_block_target_def by (auto; presburger)
qed

lemma bucket_estimatefee_idem:
  "bucket_estimatefee_block_target (bucket_estimatefee_block_target n) = bucket_estimatefee_block_target n"
  unfolding bucket_estimatefee_block_target_def by (auto; presburger)

subsection \<open>Addresses pay to their hash\<close>

lemma pay_to_address_encoded:
  assumes "\<And>x. 4 \<le> length (H x)" "length hash160 = 20" "v \<noteq> []"
  shows "pay_to_address_script H c (encode_check H (v @ hash160)) =
    (if v = P2PKH_VERBYTE c then P2PKH_script hash160
     else if verbyte_in v (P2SH_VERBYTES c) then P2SH_script hash160 else Inl CoinError)"
  using assms(2,3) conjunct1 [OF decode_check_encode [of H "v @ hash160" "[]" "[]", OF assms(1)]]
  by (simp add: pay_to_address_script_def Let_def)

lemma pay_to_address_accepted:
  assumes "\<And>x. 4 \<le> length (H x)" "pay_to_address_script H c address = Inr script"
  obtains v hash160 where "address = encode_check H (v @ hash160)" "length hash160 = 20" "v \<noteq> []"
    "v = P2PKH_VERBYTE c \<and> P2PKH_script hash160 = Inr script \<or>
     v \<noteq> P2PKH_VERBYTE c \<and> verbyte_in v (P2SH_VERBYTES c) \<and> P2SH_script hash160 = Inr script"
proof -
  obtain raw where raw: "decode_check H address = Inr raw" "20 < length raw"
    using assms(2) by (auto simp: pay_to_address_script_def err_simps split: if_splits verbytes.splits)
  have "encode_check H raw = address"
    using decode_check_encode [of H "[]" address raw, OF assms(1)] raw(1) by blast
  then show ?thesis
    by (intro that [of "take (length raw - 20) raw" "drop (length raw - 20) raw"])
      (use assms(2) raw in \<open>auto simp: pay_to_address_script_def Let_def split: if_splits\<close>)
qed

end
