(* ===== verification/CoinTable1.thy ===== *)
theory CoinTable1
  imports Coins
begin

section \<open>The coin classes of lib/coins.py, BitcoinMixin to Viacoin\<close>

text \<open>
  One definition per class, in the order of the source: the attributes the class sets, over its base
  classes.  Attributes outside the record \<open>coin\<close> (fees, hash functions, name operations) and the methods
  a class overrides are not part of these definitions.
\<close>

definition BitcoinMixin :: "coin \<Rightarrow> coin" where
  "BitcoinMixin c = c\<lparr>SHORTNAME := Some ''BTC'', NET := Some ''mainnet'', XPUB_VERBYTES := [0x04, 0x88, 0xb2, 0x1e],
     XPRV_VERBYTES := [0x04, 0x88, 0xad, 0xe4], RPC_PORT := Some 8332\<rparr>"

definition Bitcoin_PEERS :: "string list" where
  "Bitcoin_PEERS =
     [''electrum.vom-stausee.de s t'',
      ''electrum.hsmiths.com s t'',
      ''helicarrier.bauerj.eu s t'',
      ''electrum.hodlister.co s'',
      ''electrum3.hodlister.co s'',
      ''btc.usebsv.com s50006'',
      ''fortress.qtornado.com s443 t'',
      ''ecdsa.net s110 t'',
      ''e2.keff.org s t'',
      ''currentlane.lovebitco.in s t'',
      ''electrum.jochen-hoenicke.de s50005 t50003'',
      ''vps5.hsmiths.com s'',
      ''electrum.emzy.de s'',
      ''electrum1.cipig.net t10000 s20000'',
      ''ulrichard.ch s'',
      ''hodlers.beer s'',
      ''v7gtzf7nua6hdmb2wtqaqioqmesdb4xrlly4zwr7bvayxv2bpg665pqd.onion tqeqgdlw2ezf3uabook2ny3lztjxxzeyyoqw2k7cempzvqpknbmevhmyd.onion tkciybn4d4vuqvobdl2kdp3r2rudqbqvsymqwg4jomzft6m6gaibaf6yd.onion texplorerzydxu5ecjrkwceayqybizmpjjznk5izmitf2modhcusuqlid.onion t110v7o2hkemnt677k3jxcbosmjjxw3p5khjyu7jwv7orfy6rwtkizbshwqd.onion t57001nf365b5sbzk5j4jreimskffwnfpka7qtamyni5doohoom3g63o5tldad.onion t'']"

definition Bitcoin :: coin where
  "Bitcoin = (BitcoinMixin Coin)\<lparr>NAME := Some ''Bitcoin'', DESERIALIZER := ''DeserializerSegWit'', TX_COUNT := Some 565436782,
     TX_COUNT_HEIGHT := Some 646855, TX_PER_BLOCK := Some 2200, PEERS := Bitcoin_PEERS\<rparr>"

definition FixedCoin :: coin where
  "FixedCoin = Bitcoin\<lparr>NAME := Some ''FixedCoin'', SHORTNAME := Some ''FIXED'', NET := Some ''mainnet'',
     XPUB_VERBYTES := [0x04, 0x88, 0xb2, 0x1e], XPRV_VERBYTES := [0x04, 0x88, 0xad, 0xe4],
     P2PKH_VERBYTE := [0x01], P2SH_VERBYTES := VTuple [[0x00]], WIF_BYTE := [0x80],
     GENESIS_HASH := ''000008e19a0f9124269e897bdcff8ef981fa2d563431df80ca27bc4a1373efd6'',
     REORG_LIMIT := 800, TX_COUNT := Some 530, TX_COUNT_HEIGHT := Some 522, TX_PER_BLOCK := Some 1,
     RPC_PORT := Some 24761, PEER_DEFAULT_PORTS := (''50001'', ''50002''), PEERS := [],
     DESERIALIZER := ''DeserializerSegWit''\<rparr>"

definition BitcoinTestnetMixin :: "coin \<Rightarrow> coin" where
  "BitcoinTestnetMixin c = c\<lparr>SHORTNAME := Some ''XTN'', NET := Some ''testnet'', XPUB_VERBYTES := [0x04, 0x35, 0x87, 0xcf],
     XPRV_VERBYTES := [0x04, 0x35, 0x83, 0x94], P2PKH_VERBYTE := [0x6f], P2SH_VERBYTES := VTuple [[0xc4]],
     WIF_BYTE := [0xef],
     GENESIS_HASH := ''000000000933ea01ad0ee984209779baaec3ced90fa3f408719526f8d77f4943'',
     REORG_LIMIT := 8000, TX_COUNT := Some 12242438, TX_COUNT_HEIGHT := Some 1035428,
     TX_PER_BLOCK := Some 21, RPC_PORT := Some 18332, PEER_DEFAULT_PORTS := (''51001'', ''51002'')\<rparr>"

definition BitcoinTestnet_PEERS :: "string list" where
  "BitcoinTestnet_PEERS =
     [''testnet.hsmiths.com t53011 s53012'',
      ''testnet.qtornado.com s t'',
      ''testnet1.bauerj.eu t50001 s50002'',
      ''tn.not.fyi t55001 s55002'',
      ''bitcoin.cluelessperson.com s t'',
      ''blackie.c3-soft.com s57006'',
      ''electrum.blockstream.info t60001 s60002'',
      ''testnet.aranguren.org s t'',
      ''explorerzydxu5ecjrkwceayqybizmpjjznk5izmitf2modhcusuqlid.onion t143'',
      ''electrum1.cipig.net t10068'']"

definition BitcoinTestnet :: coin where
  "BitcoinTestnet = (BitcoinTestnetMixin Coin)\<lparr>NAME := Some ''Bitcoin'', DESERIALIZER := ''DeserializerSegWit'', PEERS := BitcoinTestnet_PEERS\<rparr>"

definition BitcoinRegtest :: coin where
  "BitcoinRegtest = BitcoinTestnet\<lparr>NAME := Some ''Bitcoin'', NET := Some ''regtest'',
     GENESIS_HASH := ''0f9188f13cb7b2c71f2a335e3a4fc328bf5beb436012afca590b1a11466e2206'', PEERS := [],
     TX_COUNT := Some 1, TX_COUNT_HEIGHT := Some 1, RPC_PORT := Some 18443\<rparr>"

definition BitcoinSignet :: coin where
  "BitcoinSignet = BitcoinTestnet\<lparr>NAME := Some ''Bitcoin'', NET := Some ''signet'',
     GENESIS_HASH := ''00000008819873e925422c1ff0f99f7cc9bbb232af63a077a480a3633bee1ef6'', PEERS := [],
     TX_COUNT := Some 1, TX_COUNT_HEIGHT := Some 1, RPC_PORT := Some 38332\<rparr>"

definition BitcoinTestnet4_PEERS :: "string list" where
  "BitcoinTestnet4_PEERS =
     [''blackie.c3-soft.com s57010 t57009'',
      ''testnet4-electrumx.wakiyamap.dev'']"

definition BitcoinTestnet4 :: coin where
  "BitcoinTestnet4 = BitcoinTestnet\<lparr>NAME := Some ''Bitcoin'', NET := Some ''testnet4'',
     GENESIS_HASH := ''00000000da84f2bafbbc53dee25a72ae507ff4914b867c565be350b0da8bf043'',
     PEERS := BitcoinTestnet4_PEERS, TX_COUNT := Some 1, TX_COUNT_HEIGHT := Some 1, RPC_PORT := Some 48332\<rparr>"

definition AuxPowMixin :: "coin \<Rightarrow> coin" where
  "AuxPowMixin c = c\<lparr>STATIC_BLOCK_HEADERS := False, DESERIALIZER := ''DeserializerAuxPow'',
     SESSIONCLS := ''AuxPoWElectrumX''\<rparr>"

definition EquihashMixin :: "coin \<Rightarrow> coin" where
  "EquihashMixin c = c\<lparr>STATIC_BLOCK_HEADERS := False, BASIC_HEADER_SIZE := 140, DESERIALIZER := ''DeserializerEquihash''\<rparr>"

definition ScryptMixin :: "coin \<Rightarrow> coin" where
  "ScryptMixin c = c\<lparr>DESERIALIZER := ''DeserializerTxTime''\<rparr>"

definition KomodoMixin :: "coin \<Rightarrow> coin" where
  "KomodoMixin c = c\<lparr>P2PKH_VERBYTE := [0x3c], P2SH_VERBYTES := VTuple [[0x55]], WIF_BYTE := [0xbc],
     GENESIS_HASH := ''027e3758c3a65b12aa1046462b486d0a63bfa1beae327897f56c5cfb7daaae71'',
     DESERIALIZER := ''DeserializerZcash''\<rparr>"

definition NameIndexMixin :: "coin \<Rightarrow> coin" where
  "NameIndexMixin c = c\<lparr>BLOCK_PROCESSOR := ''NameIndexBlockProcessor'', SESSIONCLS := ''NameIndexElectrumX''\<rparr>"

definition NameIndexAuxPoWMixin :: "coin \<Rightarrow> coin" where
  "NameIndexAuxPoWMixin c = (NameIndexMixin (AuxPowMixin c))\<lparr>SESSIONCLS := ''NameIndexAuxPoWElectrumX''\<rparr>"

definition PrimeChainPowMixin :: "coin \<Rightarrow> coin" where
  "PrimeChainPowMixin c = c\<lparr>STATIC_BLOCK_HEADERS := False, DESERIALIZER := ''DeserializerPrimecoin''\<rparr>"

definition Verge :: coin where
  "Verge = Coin\<lparr>NAME := Some ''Verge'', SHORTNAME := Some ''XVG'', NET := Some ''mainnet'',
     XPUB_VERBYTES := [0x02, 0x2d, 0x25, 0x33], XPRV_VERBYTES := [0x02, 0x21, 0x31, 0x2b],
     P2PKH_VERBYTE := [0x30], P2SH_VERBYTES := VTuple [[0x33]], WIF_BYTE := [0x9e],
     GENESIS_HASH := ''00000fc63692467faeb20cdb3b53200dc601d75bdfa1001463304cc790d77278'',
     RPC_PORT := Some 20102, TX_COUNT := Some 500000, TX_COUNT_HEIGHT := Some 3082138,
     TX_PER_BLOCK := Some 1, DESERIALIZER := ''DeserializerVerge''\<rparr>"

definition HOdlcoin :: coin where
  "HOdlcoin = Coin\<lparr>NAME := Some ''HOdlcoin'', SHORTNAME := Some ''HODLC'', NET := Some ''mainnet'',
     BASIC_HEADER_SIZE := 88, P2PKH_VERBYTE := [0x28], WIF_BYTE := [0xa8],
     GENESIS_HASH := ''008872e5582924544e5c707ee4b839bb82c28a9e94e917c94b40538d5658c04b'',
     DESERIALIZER := ''DeserializerSegWit'', TX_COUNT := Some 258858, TX_COUNT_HEIGHT := Some 382138,
     TX_PER_BLOCK := Some 5\<rparr>"

definition BitcoinSV_PEERS :: "string list" where
  "BitcoinSV_PEERS =
     [''electrumx.bitcoinsv.io s'',
      ''satoshi.vision.cash s'',
      ''sv.usebsv.com s t'',
      ''sv.jochen-hoenicke.de s t'',
      ''sv.satoshi.io s t'']"

definition BitcoinSV :: coin where
  "BitcoinSV = (BitcoinMixin Coin)\<lparr>NAME := Some ''BitcoinSV'', SHORTNAME := Some ''BSV'', TX_COUNT := Some 267318795,
     TX_COUNT_HEIGHT := Some 557037, TX_PER_BLOCK := Some 400, PEERS := BitcoinSV_PEERS\<rparr>"

definition BitcoinCash_PEERS :: "string list" where
  "BitcoinCash_PEERS =
     [''bch.imaginary.cash s t'',
      ''electroncash.dk s t'',
      ''electrum.imaginary.cash s t'',
      ''bch.loping.net s t'',
      ''electroncash.de s t'',
      ''blackie.c3-soft.com s t'']"

definition BitcoinCash :: coin where
  "BitcoinCash = (BitcoinMixin Coin)\<lparr>NAME := Some ''BitcoinCash'', SHORTNAME := Some ''BCH'', TX_COUNT := Some 265479628,
     TX_COUNT_HEIGHT := Some 556592, TX_PER_BLOCK := Some 400, PEERS := BitcoinCash_PEERS,
     BLOCK_PROCESSOR := ''LTORBlockProcessor''\<rparr>"

definition BitcoinGold_PEERS :: "string list" where
  "BitcoinGold_PEERS =
     [''electrumx-eu.bitcoingold.org s50002 t50001'',
      ''electrumx-us.bitcoingold.org s50002 t50001'']"

definition BitcoinGold :: coin where
  "BitcoinGold = (EquihashMixin (BitcoinMixin Coin))\<lparr>CHUNK_SIZE := 252, NAME := Some ''BitcoinGold'', SHORTNAME := Some ''BTG'', P2PKH_VERBYTE := [0x26],
     P2SH_VERBYTES := VTuple [[0x17]], DESERIALIZER := ''DeserializerEquihashSegWit'',
     TX_COUNT := Some 265026255, TX_COUNT_HEIGHT := Some 499923, TX_PER_BLOCK := Some 50,
     REORG_LIMIT := 1000, RPC_PORT := Some 8332, PEERS := BitcoinGold_PEERS\<rparr>"

definition BitcoinGoldTestnet_PEERS :: "string list" where
  "BitcoinGoldTestnet_PEERS =
     [''test-node1.bitcoingold.org s50002'',
      ''test-node2.bitcoingold.org s50002'',
      ''test-node3.bitcoingold.org s50002'']"

definition BitcoinGoldTestnet :: coin where
  "BitcoinGoldTestnet = BitcoinGold\<lparr>SHORTNAME := Some ''TBTG'', XPUB_VERBYTES := [0x04, 0x35, 0x87, 0xcf],
     XPRV_VERBYTES := [0x04, 0x35, 0x83, 0x94], P2PKH_VERBYTE := [0x6f], P2SH_VERBYTES := VTuple [[0xc4]],
     WIF_BYTE := [0xef], TX_COUNT := Some 0, TX_COUNT_HEIGHT := Some 1, NET := Some ''testnet'',
     RPC_PORT := Some 18332,
     GENESIS_HASH := ''00000000e0781ebe24b91eedc293adfea2f557b53ec379e78959de3853e6f9f6'',
     PEERS := BitcoinGoldTestnet_PEERS\<rparr>"

definition BitcoinGoldRegtest :: coin where
  "BitcoinGoldRegtest = BitcoinGold\<lparr>SHORTNAME := Some ''TBTG'', XPUB_VERBYTES := [0x04, 0x35, 0x87, 0xcf],
     XPRV_VERBYTES := [0x04, 0x35, 0x83, 0x94], P2PKH_VERBYTE := [0x6f], P2SH_VERBYTES := VTuple [[0xc4]],
     WIF_BYTE := [0xef], TX_COUNT := Some 0, TX_COUNT_HEIGHT := Some 1, NET := Some ''regtest'',
     RPC_PORT := Some 18444,
     GENESIS_HASH := ''0f9188f13cb7b2c71f2a335e3a4fc328bf5beb436012afca590b1a11466e2206'', PEERS := []\<rparr>"

definition BitcoinDiamond :: coin where
  "BitcoinDiamond = Bitcoin\<lparr>NAME := Some ''BitcoinDiamond'', SHORTNAME := Some ''BCD'', TX_COUNT := Some 274277819,
     TX_COUNT_HEIGHT := Some 498678, TX_PER_BLOCK := Some 50, REORG_LIMIT := 1000, PEERS := [],
     VALUE_PER_COIN := 10000000, DESERIALIZER := ''DeserializerBitcoinDiamondSegWit''\<rparr>"

definition Emercoin :: coin where
  "Emercoin = Coin\<lparr>NAME := Some ''Emercoin'', SHORTNAME := Some ''EMC'', NET := Some ''mainnet'',
     XPUB_VERBYTES := [0x04, 0x88, 0xb2, 0x1e], XPRV_VERBYTES := [0x04, 0x88, 0xad, 0xe4],
     P2PKH_VERBYTE := [0x21], P2SH_VERBYTES := VTuple [[0x5c]],
     GENESIS_HASH := ''00000000bcccd459d036a588d1008fce8da3754b205736f32ddfd35350e84c2d'',
     TX_COUNT := Some 217380620, TX_COUNT_HEIGHT := Some 464000, TX_PER_BLOCK := Some 1700,
     VALUE_PER_COIN := 1000000, RPC_PORT := Some 6662, DESERIALIZER := ''DeserializerEmercoin'',
     PEERS := []\<rparr>"

definition BitcoinSVTestnet_PEERS :: "string list" where
  "BitcoinSVTestnet_PEERS =
     [''electrontest.cascharia.com t51001 s51002'']"

definition BitcoinSVTestnet :: coin where
  "BitcoinSVTestnet = (BitcoinTestnetMixin Coin)\<lparr>NAME := Some ''BitcoinSV'', PEERS := BitcoinSVTestnet_PEERS\<rparr>"

definition BitcoinSVScalingTestnet_PEERS :: "string list" where
  "BitcoinSVScalingTestnet_PEERS =
     [''stn-server.electrumsv.io t51001 s51002'']"

definition BitcoinSVScalingTestnet :: coin where
  "BitcoinSVScalingTestnet = BitcoinSVTestnet\<lparr>NET := Some ''scalingtest'', PEERS := BitcoinSVScalingTestnet_PEERS, TX_COUNT := Some 2015,
     TX_COUNT_HEIGHT := Some 5711, TX_PER_BLOCK := Some 5000\<rparr>"

definition BitcoinCashTestnet_PEERS :: "string list" where
  "BitcoinCashTestnet_PEERS =
     [''bch0.kister.net t s'',
      ''testnet.imaginary.cash t50001 s50002'',
      ''blackie.c3-soft.com t60001 s60002'']"

definition BitcoinCashTestnet :: coin where
  "BitcoinCashTestnet = (BitcoinTestnetMixin Coin)\<lparr>NAME := Some ''BitcoinCash'', PEERS := BitcoinCashTestnet_PEERS,
     BLOCK_PROCESSOR := ''LTORBlockProcessor''\<rparr>"

definition BitcoinSVRegtest :: coin where
  "BitcoinSVRegtest = BitcoinSVTestnet\<lparr>NET := Some ''regtest'',
     GENESIS_HASH := ''0f9188f13cb7b2c71f2a335e3a4fc328bf5beb436012afca590b1a11466e2206'', PEERS := [],
     TX_COUNT := Some 1, TX_COUNT_HEIGHT := Some 1\<rparr>"

definition BitcoinNolnet :: coin where
  "BitcoinNolnet = BitcoinCash\<lparr>NET := Some ''nolnet'',
     GENESIS_HASH := ''0000000057e31bd2066c939a63b7b8623bd0f10d8c001304bdfc1a7902ae6d35'', PEERS := [],
     REORG_LIMIT := 8000, TX_COUNT := Some 583589, TX_COUNT_HEIGHT := Some 8617, TX_PER_BLOCK := Some 50,
     RPC_PORT := Some 28332, PEER_DEFAULT_PORTS := (''52001'', ''52002'')\<rparr>"

definition Sumcoin :: coin where
  "Sumcoin = Coin\<lparr>NAME := Some ''Sumcoin'', SHORTNAME := Some ''SUM'', NET := Some ''mainnet'',
     XPUB_VERBYTES := [0x04, 0x88, 0xb4, 0x1c], XPRV_VERBYTES := [0x04, 0x88, 0xab, 0xe6],
     P2PKH_VERBYTE := [0x3f], P2SH_VERBYTES := VTuple [[0xc8], [0x05]], WIF_BYTE := [0xbf],
     GENESIS_HASH := ''37d4696c5072cd012f3b7c651e5ce56a1383577e4edacc2d289ec9b25eebfd5e'',
     DESERIALIZER := ''DeserializerSegWit'', TX_COUNT := Some 976394, TX_COUNT_HEIGHT := Some 659520,
     TX_PER_BLOCK := Some 2, REORG_LIMIT := 800, RPC_PORT := Some 3332,
     PEER_DEFAULT_PORTS := (''53332'', ''53333''), PEERS := []\<rparr>"

definition Litecoin_PEERS :: "string list" where
  "Litecoin_PEERS =
     [''ex.lug.gs s444'',
      ''electrum-ltc.bysh.me s t'',
      ''electrum-ltc.ddns.net s t'',
      ''electrum-ltc.wilv.in s t'',
      ''electrum.cryptomachine.com p1000 s t'',
      ''electrum.ltc.xurious.com s t'']"

definition Litecoin :: coin where
  "Litecoin = Coin\<lparr>NAME := Some ''Litecoin'', SHORTNAME := Some ''LTC'', NET := Some ''mainnet'',
     XPUB_VERBYTES := [0x04, 0x88, 0xb2, 0x1e], XPRV_VERBYTES := [0x04, 0x88, 0xad, 0xe4],
     P2PKH_VERBYTE := [0x30], P2SH_VERBYTES := VTuple [[0x32], [0x05]], WIF_BYTE := [0xb0],
     GENESIS_HASH := ''12a765e31ffd4059bada1e25190f6e98c99d9714d334efa41a195a7e7e04bfe2'',
     DESERIALIZER := ''DeserializerLitecoin'', TX_COUNT := Some 8908766, TX_COUNT_HEIGHT := Some 1105256,
     TX_PER_BLOCK := Some 10, RPC_PORT := Some 9332, REORG_LIMIT := 800, PEERS := Litecoin_PEERS\<rparr>"

definition LitecoinTestnet_PEERS :: "string list" where
  "LitecoinTestnet_PEERS =
     [''electrum-ltc.bysh.me s t'',
      ''electrum.ltc.xurious.com s t'',
      ''ipv6-only.electrum.random.re s t'']"

definition LitecoinTestnet :: coin where
  "LitecoinTestnet = Litecoin\<lparr>SHORTNAME := Some ''XLT'', NET := Some ''testnet'', XPUB_VERBYTES := [0x04, 0x35, 0x87, 0xcf],
     XPRV_VERBYTES := [0x04, 0x35, 0x83, 0x94], P2PKH_VERBYTE := [0x6f],
     P2SH_VERBYTES := VTuple [[0x3a], [0xc4]], WIF_BYTE := [0xef],
     GENESIS_HASH := ''4966625a4b2851d9fdee139e56211a0d88575f59ed816ff5e6a63deb4e3e29a0'',
     TX_COUNT := Some 21772, TX_COUNT_HEIGHT := Some 20800, TX_PER_BLOCK := Some 2, RPC_PORT := Some 19332,
     REORG_LIMIT := 4000, PEER_DEFAULT_PORTS := (''51001'', ''51002''), PEERS := LitecoinTestnet_PEERS\<rparr>"

definition LitecoinRegtest :: coin where
  "LitecoinRegtest = LitecoinTestnet\<lparr>NET := Some ''regtest'',
     GENESIS_HASH := ''530827f38f93b43ed12af0b3ad25a288dc02ed74d6d7857862df51fc56c416f9'', PEERS := [],
     TX_COUNT := Some 1, TX_COUNT_HEIGHT := Some 1\<rparr>"

definition BitcoinCashRegtest :: coin where
  "BitcoinCashRegtest = (BitcoinTestnetMixin Coin)\<lparr>NAME := Some ''BitcoinCash'', NET := Some ''regtest'', PEERS := [],
     GENESIS_HASH := ''0f9188f13cb7b2c71f2a335e3a4fc328bf5beb436012afca590b1a11466e2206'',
     TX_COUNT := Some 1, TX_COUNT_HEIGHT := Some 1, BLOCK_PROCESSOR := ''LTORBlockProcessor''\<rparr>"

definition Viacoin_PEERS :: "string list" where
  "Viacoin_PEERS =
     [''vialectrum.bitops.me s t'',
      ''server.vialectrum.org s t'',
      ''vialectrum.viacoin.net s t'',
      ''viax1.bitops.me s t'']"

definition Viacoin :: coin where
  "Viacoin = (AuxPowMixin Coin)\<lparr>NAME := Some ''Viacoin'', SHORTNAME := Some ''VIA'', NET := Some ''mainnet'', P2PKH_VERBYTE := [0x47],
     P2SH_VERBYTES := VTuple [[0x21]], WIF_BYTE := [0xc7],
     GENESIS_HASH := ''4e9b54001f9976049830128ec0331515eaabe35a70970d79971da1539a400ba1'',
     TX_COUNT := Some 113638, TX_COUNT_HEIGHT := Some 3473674, TX_PER_BLOCK := Some 30,
     RPC_PORT := Some 5222, REORG_LIMIT := 5000, DESERIALIZER := ''DeserializerAuxPowSegWit'',
     PEERS := Viacoin_PEERS\<rparr>"

end
