(* ===== verification/CoinTable2.thy ===== *)
theory CoinTable2
  imports CoinTable1
begin

section \<open>The coin classes of lib/coins.py, ViacoinTestnet to Sibcoin\<close>

text \<open>
  One definition per class, in the order of the source: the attributes the class sets, over its base
  classes.  Attributes outside the record \<open>coin\<close> (fees, hash functions, name operations) and the methods
  a class overrides are not part of these definitions.
\<close>

definition ViacoinTestnet_PEERS :: "string list" where
  "ViacoinTestnet_PEERS =
     [''vialectrum.bysh.me s t'']"

definition ViacoinTestnet :: coin where
  "ViacoinTestnet = Viacoin\<lparr>SHORTNAME := Some ''TVI'', NET := Some ''testnet'', P2PKH_VERBYTE := [0x7f],
     P2SH_VERBYTES := VTuple [[0xc4]], WIF_BYTE := [0xff],
     GENESIS_HASH := ''00000007199508e34a9ff81e6ec0c477a4cccff2a4767a8eee39c11db367b008'',
     RPC_PORT := Some 25222, REORG_LIMIT := 2500, PEER_DEFAULT_PORTS := (''51001'', ''51002''),
     PEERS := ViacoinTestnet_PEERS\<rparr>"

definition ViacoinTestnetSegWit :: coin where
  "ViacoinTestnetSegWit = ViacoinTestnet\<lparr>NET := Some ''testnet-segwit'', DESERIALIZER := ''DeserializerSegWit''\<rparr>"

definition GravityCoin :: coin where
  "GravityCoin = Coin\<lparr>NAME := Some ''GravityCoin'', SHORTNAME := Some ''GXX'', NET := Some ''mainnet'',
     XPUB_VERBYTES := [0x04, 0x88, 0xb2, 0x1e], XPRV_VERBYTES := [0x04, 0x88, 0xad, 0xe4],
     P2PKH_VERBYTE := [0x28], P2SH_VERBYTES := VTuple [[0x0a]], WIF_BYTE := [0xd2],
     GENESIS_HASH := ''322bad477efb4b33fa4b1f0b2861eaf543c61068da9898a95062fdb02ada486f'',
     TX_COUNT := Some 446050, TX_COUNT_HEIGHT := Some 547346, TX_PER_BLOCK := Some 2,
     PEER_DEFAULT_PORTS := (''50001'', ''50002''), RPC_PORT := Some 29200, REORG_LIMIT := 5000, PEERS := []\<rparr>"

definition Bitcoinzero :: coin where
  "Bitcoinzero = Coin\<lparr>NAME := Some ''Bitcoinzero'', SHORTNAME := Some ''BZX'', TX_COUNT := Some 43798,
     TX_COUNT_HEIGHT := Some 44, TX_PER_BLOCK := Some 576, NET := Some ''mainnet'',
     GENESIS_HASH := ''322bad477efb4b33fa4b1f0b2861eaf543c61068da9898a95062fdb02ada486f'',
     XPUB_VERBYTES := [0x04, 0x88, 0xb2, 0x1e], XPRV_VERBYTES := [0x04, 0x88, 0xad, 0xe4],
     P2PKH_VERBYTE := [0x4b], P2SH_VERBYTES := VTuple [[0x22]], WIF_BYTE := [0xd2], RPC_PORT := Some 29202,
     REORG_LIMIT := 5000, PEERS := []\<rparr>"

definition Unitus_PEERS :: "string list" where
  "Unitus_PEERS =
     [''electrumx.unituscurrency.com s t'']"

definition Unitus :: coin where
  "Unitus = Coin\<lparr>NAME := Some ''Unitus'', SHORTNAME := Some ''UIS'', NET := Some ''mainnet'',
     XPUB_VERBYTES := [0x04, 0x88, 0xb2, 0x1e], XPRV_VERBYTES := [0x04, 0x88, 0xad, 0xe4],
     P2PKH_VERBYTE := [0x44], P2SH_VERBYTES := VTuple [[0x0a]], WIF_BYTE := [0x84],
     GENESIS_HASH := ''d8a2b2439d013a59f3bfc626a33487a3d7d27e42a3c9e0b81af814cd8e592f31'',
     DESERIALIZER := ''DeserializerSegWit'', TX_COUNT := Some 3484561, TX_COUNT_HEIGHT := Some 1697605,
     TX_PER_BLOCK := Some 3, RPC_PORT := Some 50604, REORG_LIMIT := 2000, PEERS := Unitus_PEERS\<rparr>"

definition Namecoin_PEERS :: "string list" where
  "Namecoin_PEERS =
     [''198.50.223.25 s50002'',
      ''46.229.238.187 s57002'',
      ''198.50.223.27 s50002'',
      ''electrum-nmc.le-space.de s50002'',
      ''electrumx2.nmc.dotbit.zone s50002'',
      ''electrumx4.nmc.dotbit.zone s50002'',
      ''nmc.bitcoins.sk s50002'',
      ''nmc2.bitcoins.sk s57002'',
      ''ulrichard.ch s50006 t50005'',
      ''h6qrnwxtwiaahsw4qhk2nbutswwb54vnqso6jrxeuk6nwtfbos7jkoqd.onion s50002'',
      ''mqhok2edqcxdpklwovquuvvl2q5or4g2o777qwrinydgzfxjbixq76yd.onion s50002'',
      ''wirg2tsto7rme7n26lkd3ivbvxmjyy2pktlozwjuep22jcsfsghfqbqd.onion s50002'',
      ''quuzpffsddq3aim3gk4oiczzyt5okjjzf4zpe6okzo6qidao6rshynqd.onion s50002'']"

definition Namecoin :: coin where
  "Namecoin = (NameIndexAuxPoWMixin Coin)\<lparr>NAME := Some ''Namecoin'', SHORTNAME := Some ''NMC'', NET := Some ''mainnet'',
     XPUB_VERBYTES := [0xd7, 0xdd, 0x63, 0x70], XPRV_VERBYTES := [0xd7, 0xdc, 0x6e, 0x31],
     P2PKH_VERBYTE := [0x34], P2SH_VERBYTES := VTuple [[0x0d]], WIF_BYTE := [0xe4],
     GENESIS_HASH := ''000000000062b72c5e2ceb45fbc8587e807c155b0da735e6483dfba2f0a9c770'',
     DESERIALIZER := ''DeserializerAuxPowSegWit'', TX_COUNT := Some 4415768, TX_COUNT_HEIGHT := Some 329065,
     TX_PER_BLOCK := Some 10, RPC_PORT := Some 8336, PEERS := Namecoin_PEERS,
     BLOCK_PROCESSOR := ''NameIndexBlockProcessor''\<rparr>"

definition NamecoinTestnet :: coin where
  "NamecoinTestnet = Namecoin\<lparr>NAME := Some ''Namecoin'', SHORTNAME := Some ''XNM'', NET := Some ''testnet'', P2PKH_VERBYTE := [0x6f],
     P2SH_VERBYTES := VTuple [[0xc4]], WIF_BYTE := [0xef],
     GENESIS_HASH := ''00000007199508e34a9ff81e6ec0c477a4cccff2a4767a8eee39c11db367b008''\<rparr>"

definition NamecoinRegtest :: coin where
  "NamecoinRegtest = NamecoinTestnet\<lparr>NAME := Some ''Namecoin'', NET := Some ''regtest'',
     GENESIS_HASH := ''0f9188f13cb7b2c71f2a335e3a4fc328bf5beb436012afca590b1a11466e2206'', PEERS := [],
     TX_COUNT := Some 1, TX_COUNT_HEIGHT := Some 1\<rparr>"

definition Dogecoin :: coin where
  "Dogecoin = (AuxPowMixin Coin)\<lparr>NAME := Some ''Dogecoin'', SHORTNAME := Some ''DOGE'', NET := Some ''mainnet'',
     XPUB_VERBYTES := [0x02, 0xfa, 0xca, 0xfd], XPRV_VERBYTES := [0x02, 0xfa, 0xc3, 0x98],
     P2PKH_VERBYTE := [0x1e], P2SH_VERBYTES := VTuple [[0x16]], WIF_BYTE := [0x9e],
     GENESIS_HASH := ''1a91e3dace36e2be3bf030a65679fe821aa1d6ef92e7c9902eb318182c355691'',
     TX_COUNT := Some 27583427, TX_COUNT_HEIGHT := Some 1604979, TX_PER_BLOCK := Some 20,
     REORG_LIMIT := 2000, DESERIALIZER := ''DeserializerAuxPowSegWit''\<rparr>"

definition DogecoinTestnet :: coin where
  "DogecoinTestnet = Dogecoin\<lparr>NAME := Some ''Dogecoin'', SHORTNAME := Some ''XDT'', NET := Some ''testnet'', P2PKH_VERBYTE := [0x71],
     P2SH_VERBYTES := VTuple [[0xc4]], WIF_BYTE := [0xf1],
     GENESIS_HASH := ''bb0a78264637406b6360aad926284d544d7049f45189db5664f3c4d07350559e''\<rparr>"

definition Dash_PEERS :: "string list" where
  "Dash_PEERS =
     [''electrum.dash.org s t'',
      ''electrum.masternode.io s t'',
      ''electrum-drk.club s t'',
      ''dashcrypto.space s t'',
      ''electrum.dash.siampm.com s t'']"

definition Dash :: coin where
  "Dash = Coin\<lparr>NAME := Some ''Dash'', SHORTNAME := Some ''DASH'', NET := Some ''mainnet'',
     XPUB_VERBYTES := [0x02, 0xfe, 0x52, 0xcc], XPRV_VERBYTES := [0x02, 0xfe, 0x52, 0xf8],
     GENESIS_HASH := ''00000ffd590b1485b3caadc19b22e6379c733355108f107a430458cdf3407ab6'',
     P2PKH_VERBYTE := [0x4c], P2SH_VERBYTES := VTuple [[0x10]], WIF_BYTE := [0xcc],
     TX_COUNT_HEIGHT := Some 569399, TX_COUNT := Some 2157510, TX_PER_BLOCK := Some 4,
     RPC_PORT := Some 9998, PEERS := Dash_PEERS, SESSIONCLS := ''DashElectrumX'', DAEMON := ''DashDaemon'',
     DESERIALIZER := ''DeserializerDash''\<rparr>"

definition DashTestnet_PEERS :: "string list" where
  "DashTestnet_PEERS =
     [''electrum.dash.siampm.com s t'',
      ''dasht.random.re s54002 t54001'']"

definition DashTestnet :: coin where
  "DashTestnet = Dash\<lparr>SHORTNAME := Some ''tDASH'', NET := Some ''testnet'', XPUB_VERBYTES := [0x3a, 0x80, 0x58, 0x37],
     XPRV_VERBYTES := [0x3a, 0x80, 0x61, 0xa0],
     GENESIS_HASH := ''00000bafbc94add76cb75e2ec92894837288a481e5c005f6563d91623bf8bc2c'',
     P2PKH_VERBYTE := [0x8c], P2SH_VERBYTES := VTuple [[0x13]], WIF_BYTE := [0xef],
     TX_COUNT_HEIGHT := Some 101619, TX_COUNT := Some 132681, TX_PER_BLOCK := Some 1,
     RPC_PORT := Some 19998, PEER_DEFAULT_PORTS := (''51001'', ''51002''), PEERS := DashTestnet_PEERS\<rparr>"

definition DashRegtest :: coin where
  "DashRegtest = DashTestnet\<lparr>NET := Some ''regtest'',
     GENESIS_HASH := ''000008ca1832a4baf228eb1553c03d3a2c8e02399550dd6ea8d65cec3ef23d2e'', PEERS := [],
     TX_COUNT_HEIGHT := Some 1, TX_COUNT := Some 1\<rparr>"

definition Argentum :: coin where
  "Argentum = (AuxPowMixin Coin)\<lparr>NAME := Some ''Argentum'', SHORTNAME := Some ''ARG'', NET := Some ''mainnet'', P2PKH_VERBYTE := [0x17],
     WIF_BYTE := [0x97],
     GENESIS_HASH := ''88c667bc63167685e4e4da058fffdfe8e007e5abffd6855de52ad59df7bb0bb2'',
     TX_COUNT := Some 2263089, TX_COUNT_HEIGHT := Some 2050260, TX_PER_BLOCK := Some 2000,
     RPC_PORT := Some 13581\<rparr>"

definition ArgentumTestnet :: coin where
  "ArgentumTestnet = Argentum\<lparr>SHORTNAME := Some ''XRG'', NET := Some ''testnet'', P2PKH_VERBYTE := [0x6f],
     P2SH_VERBYTES := VTuple [[0xc4]], WIF_BYTE := [0xef], REORG_LIMIT := 2000\<rparr>"

definition DigiByte :: coin where
  "DigiByte = Coin\<lparr>NAME := Some ''DigiByte'', SHORTNAME := Some ''DGB'', NET := Some ''mainnet'', P2PKH_VERBYTE := [0x1e],
     GENESIS_HASH := ''7497ea1b465eb39f1c8f507bc877078fe016d6fcb6dfad3a64c98dcc6e1e8496'',
     DESERIALIZER := ''DeserializerSegWit'', TX_COUNT := Some 1046018, TX_COUNT_HEIGHT := Some 1435000,
     TX_PER_BLOCK := Some 1000, RPC_PORT := Some 12022\<rparr>"

definition DigiByteTestnet :: coin where
  "DigiByteTestnet = DigiByte\<lparr>NET := Some ''testnet'', P2PKH_VERBYTE := [0x6f], P2SH_VERBYTES := VTuple [[0xc4]], WIF_BYTE := [0xef],
     GENESIS_HASH := ''b5dca8039e300198e5fe7cd23bdd1728e2a444af34c447dbd0916fa3430a68c2'',
     RPC_PORT := Some 15022, REORG_LIMIT := 2000\<rparr>"

definition FairCoin_PEERS :: "string list" where
  "FairCoin_PEERS =
     [''electrum.faircoin.world s'',
      ''electrumfair.punto0.org s'']"

definition FairCoin :: coin where
  "FairCoin = Coin\<lparr>NAME := Some ''FairCoin'', SHORTNAME := Some ''FAIR'', NET := Some ''mainnet'',
     P2PKH_VERBYTE := [0x5f], P2SH_VERBYTES := VTuple [[0x24]], WIF_BYTE := [0xdf],
     GENESIS_HASH := ''beed44fa5e96150d95d56ebd5d2625781825a9407a5215dd7eda723373a0a1d7'',
     BASIC_HEADER_SIZE := 108, TX_COUNT := Some 505, TX_COUNT_HEIGHT := Some 470, TX_PER_BLOCK := Some 1,
     RPC_PORT := Some 40405, PEER_DEFAULT_PORTS := (''51811'', ''51812''), PEERS := FairCoin_PEERS\<rparr>"

definition Zcash :: coin where
  "Zcash = (EquihashMixin Coin)\<lparr>NAME := Some ''Zcash'', SHORTNAME := Some ''ZEC'', NET := Some ''mainnet'',
     P2PKH_VERBYTE := [0x1c, 0xb8], P2SH_VERBYTES := VTuple [[0x1c, 0xbd]],
     GENESIS_HASH := ''00040fe8ec8471911baa1db1266ea15dd06b4a8a5c453883c000b031973dce08'',
     DESERIALIZER := ''DeserializerZcash'', TX_COUNT := Some 329196, TX_COUNT_HEIGHT := Some 68379,
     TX_PER_BLOCK := Some 5, RPC_PORT := Some 8232, REORG_LIMIT := 800\<rparr>"

definition ZcashTestnet :: coin where
  "ZcashTestnet = Zcash\<lparr>SHORTNAME := Some ''TAZ'', NET := Some ''testnet'', P2PKH_VERBYTE := [0x1d, 0x25],
     P2SH_VERBYTES := VTuple [[0x1c, 0xba]], WIF_BYTE := [0xef],
     GENESIS_HASH := ''05a60a92d99d85997cce3b87616c089f6124d7342af37106edc76126334a2c38'',
     TX_COUNT := Some 242312, TX_COUNT_HEIGHT := Some 321685, TX_PER_BLOCK := Some 2,
     RPC_PORT := Some 18232\<rparr>"

definition SnowGem :: coin where
  "SnowGem = (EquihashMixin Coin)\<lparr>NAME := Some ''SnowGem'', SHORTNAME := Some ''XSG'', NET := Some ''mainnet'',
     P2PKH_VERBYTE := [0x1c, 0x28], P2SH_VERBYTES := VTuple [[0x1c, 0x2d]],
     GENESIS_HASH := ''00068b35729d9d2b0c294ff1fe9af0094740524311a131de40e7f705e4c29a5b'',
     DESERIALIZER := ''DeserializerZcash'', TX_COUNT := Some 1680878, TX_COUNT_HEIGHT := Some 627250,
     TX_PER_BLOCK := Some 2, RPC_PORT := Some 16112, REORG_LIMIT := 800, CHUNK_SIZE := 200\<rparr>"

definition Zero :: coin where
  "Zero = (EquihashMixin Coin)\<lparr>NAME := Some ''Zero'', SHORTNAME := Some ''ZER'', NET := Some ''mainnet'',
     P2PKH_VERBYTE := [0x1c, 0xb8], P2SH_VERBYTES := VTuple [[0x1c, 0xbd]],
     GENESIS_HASH := ''068cbb5db6bc11be5b93479ea4df41fa7e012e92ca8603c315f9b1a2202205c6'',
     DESERIALIZER := ''DeserializerZcash'', TX_COUNT := Some 329998, TX_COUNT_HEIGHT := Some 847425,
     TX_PER_BLOCK := Some 2, RPC_PORT := Some 23811, REORG_LIMIT := 800\<rparr>"

definition BitcoinZ :: coin where
  "BitcoinZ = (EquihashMixin Coin)\<lparr>NAME := Some ''BitcoinZ'', SHORTNAME := Some ''BTCZ'', NET := Some ''mainnet'',
     P2PKH_VERBYTE := [0x1c, 0xb8], P2SH_VERBYTES := VTuple [[0x1c, 0xbd]],
     GENESIS_HASH := ''f499ee3d498b4298ac6a64205b8addb7c43197e2a660229be65db8a4534d75c1'',
     DESERIALIZER := ''DeserializerZcash'', TX_COUNT := Some 171976, TX_COUNT_HEIGHT := Some 81323,
     TX_PER_BLOCK := Some 3, RPC_PORT := Some 1979, REORG_LIMIT := 800\<rparr>"

definition ZelCash :: coin where
  "ZelCash = (EquihashMixin Coin)\<lparr>NAME := Some ''ZelCash'', SHORTNAME := Some ''ZEL'', NET := Some ''mainnet'',
     P2PKH_VERBYTE := [0x1c, 0xb8], P2SH_VERBYTES := VTuple [[0x1c, 0xbd]],
     GENESIS_HASH := ''00052461a5006c2e3b74ce48992a08695607912d5604c3eb8da25749b0900444'',
     DESERIALIZER := ''DeserializerZcash'', TX_COUNT := Some 450539, TX_COUNT_HEIGHT := Some 167114,
     TX_PER_BLOCK := Some 3, RPC_PORT := Some 16124, REORG_LIMIT := 800\<rparr>"

definition Zclassic :: coin where
  "Zclassic = (EquihashMixin Coin)\<lparr>NAME := Some ''Zclassic'', SHORTNAME := Some ''ZCL'', NET := Some ''mainnet'',
     P2PKH_VERBYTE := [0x1c, 0xb8], P2SH_VERBYTES := VTuple [[0x1c, 0xbd]],
     GENESIS_HASH := ''0007104ccda289427919efc39dc9e4d499804b7bebc22df55f8b834301260602'',
     DESERIALIZER := ''DeserializerZcash'', TX_COUNT := Some 329196, TX_COUNT_HEIGHT := Some 68379,
     TX_PER_BLOCK := Some 5, RPC_PORT := Some 8023, REORG_LIMIT := 800\<rparr>"

definition Koto_PEERS :: "string list" where
  "Koto_PEERS =
     [''fr.kotocoin.info s t'',
      ''electrum.kotocoin.info s t'']"

definition Koto :: coin where
  "Koto = Coin\<lparr>NAME := Some ''Koto'', SHORTNAME := Some ''KOTO'', NET := Some ''mainnet'',
     P2PKH_VERBYTE := [0x18, 0x36], P2SH_VERBYTES := VTuple [[0x18, 0x3b]],
     GENESIS_HASH := ''6d424c350729ae633275d51dc3496e16cd1b1d195c164da00f39c499a2e9959e'',
     DESERIALIZER := ''DeserializerZcash'', TX_COUNT := Some 158914, TX_COUNT_HEIGHT := Some 67574,
     TX_PER_BLOCK := Some 3, RPC_PORT := Some 8432, REORG_LIMIT := 800, PEERS := Koto_PEERS\<rparr>"

definition KotoTestnet_PEERS :: "string list" where
  "KotoTestnet_PEERS =
     [''testnet.kotocoin.info s t'']"

definition KotoTestnet :: coin where
  "KotoTestnet = Koto\<lparr>SHORTNAME := Some ''TOKO'', NET := Some ''testnet'', P2PKH_VERBYTE := [0x18, 0xa4],
     P2SH_VERBYTES := VTuple [[0x18, 0x39]], WIF_BYTE := [0xef],
     GENESIS_HASH := ''bf84afbde20c2d213b68b231ddb585ab616ef7567226820f00d9b397d774d2f0'',
     TX_COUNT := Some 91144, TX_COUNT_HEIGHT := Some 89662, TX_PER_BLOCK := Some 1, RPC_PORT := Some 18432,
     PEER_DEFAULT_PORTS := (''51001'', ''51002''), PEERS := KotoTestnet_PEERS\<rparr>"

definition Komodo :: coin where
  "Komodo = (KomodoMixin (EquihashMixin Coin))\<lparr>NAME := Some ''Komodo'', SHORTNAME := Some ''KMD'', NET := Some ''mainnet'', TX_COUNT := Some 693629,
     TX_COUNT_HEIGHT := Some 491777, TX_PER_BLOCK := Some 2, RPC_PORT := Some 7771, REORG_LIMIT := 800,
     PEERS := []\<rparr>"

definition Hush :: coin where
  "Hush = (KomodoMixin (EquihashMixin Coin))\<lparr>NAME := Some ''Hush'', SHORTNAME := Some ''HUSH'', NET := Some ''mainnet'', TX_COUNT := Some 111317,
     TX_COUNT_HEIGHT := Some 169280, TX_PER_BLOCK := Some 2, RPC_PORT := Some 18031, REORG_LIMIT := 800\<rparr>"

definition Monaize :: coin where
  "Monaize = (KomodoMixin (EquihashMixin Coin))\<lparr>NAME := Some ''Monaize'', SHORTNAME := Some ''MNZ'', NET := Some ''mainnet'', TX_COUNT := Some 256,
     TX_COUNT_HEIGHT := Some 128, TX_PER_BLOCK := Some 2, RPC_PORT := Some 14337, REORG_LIMIT := 800,
     PEERS := []\<rparr>"

definition Verus :: coin where
  "Verus = (KomodoMixin (EquihashMixin Coin))\<lparr>NAME := Some ''Verus'', SHORTNAME := Some ''VRSC'', NET := Some ''mainnet'', TX_COUNT := Some 55000,
     TX_COUNT_HEIGHT := Some 42000, TX_PER_BLOCK := Some 2, RPC_PORT := Some 27486, REORG_LIMIT := 800,
     PEERS := []\<rparr>"

definition Einsteinium :: coin where
  "Einsteinium = Coin\<lparr>NAME := Some ''Einsteinium'', SHORTNAME := Some ''EMC2'', NET := Some ''mainnet'',
     P2PKH_VERBYTE := [0x21], WIF_BYTE := [0xb0],
     GENESIS_HASH := ''4e56204bb7b8ac06f860ff1c845f03f984303b5b97eb7b42868f714611aed94b'',
     DESERIALIZER := ''DeserializerSegWit'', TX_COUNT := Some 2087559, TX_COUNT_HEIGHT := Some 1358517,
     TX_PER_BLOCK := Some 2, RPC_PORT := Some 41879, REORG_LIMIT := 2000\<rparr>"

definition Blackcoin_PEERS :: "string list" where
  "Blackcoin_PEERS =
     [''electrum1.blackcoin.nl t10001 s10002'',
      ''electrum2.blackcoin.nl t20001 s20002'',
      ''electrum3.blackcoin.nl t30001 s30002'']"

definition Blackcoin :: coin where
  "Blackcoin = (ScryptMixin Coin)\<lparr>NAME := Some ''Blackcoin'', SHORTNAME := Some ''BLK'', NET := Some ''mainnet'',
     XPUB_VERBYTES := [0x04, 0x88, 0xb2, 0x1e], XPRV_VERBYTES := [0x04, 0x88, 0xad, 0xe4],
     P2PKH_VERBYTE := [0x19], P2SH_VERBYTES := VTuple [[0x55]], WIF_BYTE := [0x99],
     GENESIS_HASH := ''000001faef25dec4fbcf906e6242621df2c183bf232f263d0ba5b101911e4563'',
     DESERIALIZER := ''DeserializerBlackcoin'', DAEMON := ''FakeEstimateFeeDaemon'',
     TX_COUNT := Some 10802426, TX_COUNT_HEIGHT := Some 3431329, TX_PER_BLOCK := Some 3,
     RPC_PORT := Some 15715, REORG_LIMIT := 500, PEERS := Blackcoin_PEERS\<rparr>"

definition BlackcoinTestnet_PEERS :: "string list" where
  "BlackcoinTestnet_PEERS =
     [''electrum1.blackcoin.nl t10011 s10012'',
      ''electrum2.blackcoin.nl t20011 s20012'',
      ''electrum3.blackcoin.nl t30011 s30012'']"

definition BlackcoinTestnet :: coin where
  "BlackcoinTestnet = Blackcoin\<lparr>NAME := Some ''BlackcoinTestnet'', SHORTNAME := Some ''tBLK'', NET := Some ''testnet'',
     XPUB_VERBYTES := [0x04, 0x35, 0x87, 0xcf], XPRV_VERBYTES := [0x04, 0x35, 0x83, 0x94],
     P2PKH_VERBYTE := [0x6f], P2SH_VERBYTES := VTuple [[0xc4]], WIF_BYTE := [0xef],
     GENESIS_HASH := ''0000724595fb3b9609d441cbfb9577615c292abf07d996d3edabc48de843642d'',
     DESERIALIZER := ''DeserializerBlackcoin'', DAEMON := ''FakeEstimateFeeDaemon'',
     TX_COUNT := Some 1401229, TX_COUNT_HEIGHT := Some 698611, TX_PER_BLOCK := Some 2,
     RPC_PORT := Some 25715, REORG_LIMIT := 500, PEERS := BlackcoinTestnet_PEERS\<rparr>"

definition Bitbay :: coin where
  "Bitbay = (ScryptMixin Coin)\<lparr>NAME := Some ''Bitbay'', SHORTNAME := Some ''BAY'', NET := Some ''mainnet'', P2PKH_VERBYTE := [0x19],
     P2SH_VERBYTES := VTuple [[0x55]], WIF_BYTE := [0x99],
     GENESIS_HASH := ''0000075685d3be1f253ce777174b1594354e79954d2a32a6f77fe9cba00e6467'',
     TX_COUNT := Some 4594999, TX_COUNT_HEIGHT := Some 1667070, TX_PER_BLOCK := Some 3,
     RPC_PORT := Some 19914, REORG_LIMIT := 5000\<rparr>"

definition DeepOnion :: coin where
  "DeepOnion = Coin\<lparr>NAME := Some ''DeepOnion'', SHORTNAME := Some ''ONION'', NET := Some ''mainnet'',
     P2PKH_VERBYTE := [0x1f], P2SH_VERBYTES := VTuple [[0x4e]], WIF_BYTE := [0x9f],
     GENESIS_HASH := ''000004e29458ef4f2e0abab544737b07344e6ff13718f7c2d12926166db07b5e'',
     DESERIALIZER := ''DeserializerTxTime'', DAEMON := ''LegacyRPCDaemon'', TX_COUNT := Some 1194707,
     TX_COUNT_HEIGHT := Some 530000, TX_PER_BLOCK := Some 2, RPC_PORT := Some 18580, REORG_LIMIT := 200,
     XPUB_VERBYTES := [0x04, 0x88, 0xb2, 0x1e], XPRV_VERBYTES := [0x04, 0x88, 0xad, 0xe4], PEERS := []\<rparr>"

definition Peercoin_PEERS :: "string list" where
  "Peercoin_PEERS =
     [''electrum.peercoinexplorer.net s'']"

definition Peercoin :: coin where
  "Peercoin = Coin\<lparr>NAME := Some ''Peercoin'', SHORTNAME := Some ''PPC'', NET := Some ''mainnet'', P2PKH_VERBYTE := [0x37],
     P2SH_VERBYTES := VTuple [[0x75]], WIF_BYTE := [0xb7],
     GENESIS_HASH := ''0000000032fe677166d54963b62a4677d8957e87c508eaa4fd7eb1c880cd27e3'',
     DESERIALIZER := ''DeserializerTxTimeSegWit'', DAEMON := ''FakeEstimateFeeDaemon'',
     TX_COUNT := Some 1691771, TX_COUNT_HEIGHT := Some 455409, TX_PER_BLOCK := Some 4,
     RPC_PORT := Some 9902, REORG_LIMIT := 5000, PEERS := Peercoin_PEERS, VALUE_PER_COIN := 1000000\<rparr>"

definition PeercoinTestnet_PEERS :: "string list" where
  "PeercoinTestnet_PEERS =
     [''testnet-electrum.peercoinexplorer.net s'']"

definition PeercoinTestnet :: coin where
  "PeercoinTestnet = Peercoin\<lparr>NAME := Some ''PeercoinTestnet'', SHORTNAME := Some ''tPPC'', NET := Some ''testnet'',
     P2PKH_VERBYTE := [0x6f], P2SH_VERBYTES := VTuple [[0xc4]], WIF_BYTE := [0xef],
     GENESIS_HASH := ''00000001f757bb737f6596503e17cd17b0658ce630cc727c0cca81aec47c9f06'',
     PEERS := PeercoinTestnet_PEERS\<rparr>"

definition Trezarcoin_PEERS :: "string list" where
  "Trezarcoin_PEERS =
     [''electrumx1.trezarcoin.com s t'']"

definition Trezarcoin :: coin where
  "Trezarcoin = Coin\<lparr>NAME := Some ''Trezarcoin'', SHORTNAME := Some ''TZC'', NET := Some ''mainnet'',
     VALUE_PER_COIN := 1000000, XPUB_VERBYTES := [0x04, 0x88, 0xb2, 0x1e],
     XPRV_VERBYTES := [0x04, 0x88, 0xad, 0xe4], P2PKH_VERBYTE := [0x42], P2SH_VERBYTES := VTuple [[0x08]],
     WIF_BYTE := [0xc2],
     GENESIS_HASH := ''24502ba55d673d2ee9170d83dae2d1adb3bfb4718e4f200db9951382cc4f6ee6'',
     DESERIALIZER := ''DeserializerTrezarcoin'', BASIC_HEADER_SIZE := 80, TX_COUNT := Some 742886,
     TX_COUNT_HEIGHT := Some 643128, TX_PER_BLOCK := Some 2, RPC_PORT := Some 17299, REORG_LIMIT := 2000,
     PEERS := Trezarcoin_PEERS\<rparr>"

definition Reddcoin :: coin where
  "Reddcoin = Coin\<lparr>NAME := Some ''Reddcoin'', SHORTNAME := Some ''RDD'', NET := Some ''mainnet'', P2PKH_VERBYTE := [0x3d],
     WIF_BYTE := [0xbd],
     GENESIS_HASH := ''b868e0d95a3c3c0e0dadc67ee587aaf9dc8acbf99e3b4b3110fad4eb74c1decc'',
     DESERIALIZER := ''DeserializerReddcoin'', TX_COUNT := Some 5413508, TX_COUNT_HEIGHT := Some 1717382,
     TX_PER_BLOCK := Some 3, RPC_PORT := Some 45443\<rparr>"

definition TokenPay_PEERS :: "string list" where
  "TokenPay_PEERS =
     [''electrum-us.tpay.ai s'',
      ''electrum-eu.tpay.ai s'']"

definition TokenPay :: coin where
  "TokenPay = (ScryptMixin Coin)\<lparr>NAME := Some ''TokenPay'', SHORTNAME := Some ''TPAY'', NET := Some ''mainnet'',
     P2PKH_VERBYTE := [0x41], P2SH_VERBYTES := VTuple [[0x7e]], WIF_BYTE := [0xb3],
     GENESIS_HASH := ''000008b71ab32e585a23f0de642dc113740144e94c0ece047751e9781f953ae9'',
     DESERIALIZER := ''DeserializerTokenPay'', DAEMON := ''LegacyRPCDaemon'', TX_COUNT := Some 147934,
     TX_COUNT_HEIGHT := Some 73967, TX_PER_BLOCK := Some 100, RPC_PORT := Some 8800, REORG_LIMIT := 500,
     XPUB_VERBYTES := [0x04, 0x88, 0xb2, 0x1e], XPRV_VERBYTES := [0x04, 0x88, 0xad, 0xe4],
     PEERS := TokenPay_PEERS\<rparr>"

definition Vertcoin_PEERS :: "string list" where
  "Vertcoin_PEERS =
     [''electrumx-vtc.cryptoverted.com t55001 s55002'',
      ''electrumx.javerity.com t5885 s5886'']"

definition Vertcoin :: coin where
  "Vertcoin = Coin\<lparr>NAME := Some ''Vertcoin'', SHORTNAME := Some ''VTC'', NET := Some ''mainnet'',
     XPUB_VERBYTES := [0x04, 0x88, 0xb2, 0x1e], XPRV_VERBYTES := [0x04, 0x88, 0xad, 0xe4],
     P2PKH_VERBYTE := [0x47],
     GENESIS_HASH := ''4d96a915f49d40b1e5c2844d1ee2dccb90013a990ccea12c492d22110489f0c4'',
     DESERIALIZER := ''DeserializerSegWit'', TX_COUNT := Some 2383423, TX_COUNT_HEIGHT := Some 759076,
     TX_PER_BLOCK := Some 3, RPC_PORT := Some 5888, REORG_LIMIT := 1000, PEERS := Vertcoin_PEERS\<rparr>"

definition VertcoinTestnet_PEERS :: "string list" where
  "VertcoinTestnet_PEERS =
     [''electrumx-tvtc.javerity.com t15885 s15886'']"

definition VertcoinTestnet :: coin where
  "VertcoinTestnet = Vertcoin\<lparr>SHORTNAME := Some ''TVTC'', NET := Some ''testnet'', XPUB_VERBYTES := [0x04, 0x35, 0x87, 0xcf],
     XPRV_VERBYTES := [0x04, 0x35, 0x83, 0x94], P2PKH_VERBYTE := [0x4a], P2SH_VERBYTES := VTuple [[0xc4]],
     WIF_BYTE := [0xef],
     GENESIS_HASH := ''cee8f24feb7a64c8f07916976aa4855decac79b6741a8ec2e32e2747497ad2c9'',
     RPC_PORT := Some 15888, PEERS := VertcoinTestnet_PEERS\<rparr>"

definition Monacoin_PEERS :: "string list" where
  "Monacoin_PEERS =
     [''electrumx.tamami-foundation.org s t'',
      ''electrumx3.monacoin.nl s t'',
      ''electrumx1.monacoin.ninja s t'',
      ''electrumx2.movsign.info s t'',
      ''electrum-mona.bitbank.cc s t'']"

definition Monacoin :: coin where
  "Monacoin = Coin\<lparr>NAME := Some ''Monacoin'', SHORTNAME := Some ''MONA'', NET := Some ''mainnet'',
     XPUB_VERBYTES := [0x04, 0x88, 0xb2, 0x1e], XPRV_VERBYTES := [0x04, 0x88, 0xad, 0xe4],
     P2PKH_VERBYTE := [0x32], P2SH_VERBYTES := VTuple [[0x37], [0x05]], WIF_BYTE := [0xb0],
     GENESIS_HASH := ''ff9f1c0116d19de7c9963845e129f9ed1bfc0b376eb54fd7afa42e0d418c8bb6'',
     DESERIALIZER := ''DeserializerSegWit'', TX_COUNT := Some 2568580, TX_COUNT_HEIGHT := Some 1029766,
     TX_PER_BLOCK := Some 2, RPC_PORT := Some 9402, REORG_LIMIT := 1000, PEERS := Monacoin_PEERS\<rparr>"

definition MonacoinTestnet_PEERS :: "string list" where
  "MonacoinTestnet_PEERS =
     [''electrumx1.testnet.monacoin.ninja s t'',
      ''electrumx1.testnet.monacoin.nl s t'']"

definition MonacoinTestnet :: coin where
  "MonacoinTestnet = Monacoin\<lparr>SHORTNAME := Some ''XMN'', NET := Some ''testnet'', XPUB_VERBYTES := [0x04, 0x35, 0x87, 0xcf],
     XPRV_VERBYTES := [0x04, 0x35, 0x83, 0x94], P2PKH_VERBYTE := [0x6f],
     P2SH_VERBYTES := VTuple [[0x75], [0xc4]], WIF_BYTE := [0xef],
     GENESIS_HASH := ''a2b106ceba3be0c6d097b2a6a6aacf9d638ba8258ae478158f449c321061e0b2'',
     TX_COUNT := Some 83602, TX_COUNT_HEIGHT := Some 83252, TX_PER_BLOCK := Some 1, RPC_PORT := Some 19402,
     REORG_LIMIT := 1000, PEER_DEFAULT_PORTS := (''51001'', ''51002''), PEERS := MonacoinTestnet_PEERS\<rparr>"

definition MonacoinRegtest :: coin where
  "MonacoinRegtest = MonacoinTestnet\<lparr>NET := Some ''regtest'',
     GENESIS_HASH := ''7543a69d7c2fcdb29a5ebec2fc064c074a35253b6f3072c8a749473aa590a29c'', PEERS := [],
     TX_COUNT := Some 1, TX_COUNT_HEIGHT := Some 1\<rparr>"

definition Crown_PEERS :: "string list" where
  "Crown_PEERS =
     [''sgp-crwseed.crowndns.info s t'',
      ''blr-crwseed.crowndns.info s t'',
      ''sfo-crwseed.crowndns.info s t'',
      ''nyc-crwseed.crowndns.info s t'',
      ''ams-crwseed.crowndns.info s t'',
      ''tor-crwseed.crowndns.info s t'',
      ''lon-crwseed.crowndns.info s t'',
      ''fra-crwseed.crowndns.info s t'']"

definition Crown :: coin where
  "Crown = (AuxPowMixin Coin)\<lparr>NAME := Some ''Crown'', SHORTNAME := Some ''CRW'', NET := Some ''mainnet'',
     XPUB_VERBYTES := [0x04, 0x88, 0xb2, 0x1e], XPRV_VERBYTES := [0x04, 0x88, 0xad, 0xe4],
     P2SH_VERBYTES := VTuple [[0x1c]],
     GENESIS_HASH := ''0000000085370d5e122f64f4ab19c68614ff3df78c8d13cb814fd7e69a1dc6da'',
     TX_COUNT := Some 13336629, TX_COUNT_HEIGHT := Some 1268206, TX_PER_BLOCK := Some 10,
     RPC_PORT := Some 9341, REORG_LIMIT := 1000, PEERS := Crown_PEERS\<rparr>"

definition Fujicoin :: coin where
  "Fujicoin = Coin\<lparr>NAME := Some ''Fujicoin'', SHORTNAME := Some ''FJC'', NET := Some ''mainnet'',
     XPUB_VERBYTES := [0x04, 0x88, 0xb2, 0x1e], XPRV_VERBYTES := [0x04, 0x88, 0xad, 0xe4],
     P2PKH_VERBYTE := [0x24], P2SH_VERBYTES := VTuple [[0x10]], WIF_BYTE := [0xa4],
     GENESIS_HASH := ''adb6d9cfd74075e7f91608add4bd2a2ea636f70856183086842667a1597714a0'',
     DESERIALIZER := ''DeserializerSegWit'', TX_COUNT := Some 170478, TX_COUNT_HEIGHT := Some 1521676,
     TX_PER_BLOCK := Some 1, RPC_PORT := Some 3776, REORG_LIMIT := 1000\<rparr>"

definition Neblio :: coin where
  "Neblio = (ScryptMixin Coin)\<lparr>NAME := Some ''Neblio'', SHORTNAME := Some ''NEBL'', NET := Some ''mainnet'',
     XPUB_VERBYTES := [0x04, 0x88, 0xb2, 0x1e], XPRV_VERBYTES := [0x04, 0x88, 0xad, 0xe4],
     P2PKH_VERBYTE := [0x35], P2SH_VERBYTES := VTuple [[0x70]],
     GENESIS_HASH := ''7286972be4dbc1463d256049b7471c252e6557e222cab9be73181d359cd28bcc'',
     TX_COUNT := Some 23675, TX_COUNT_HEIGHT := Some 22785, TX_PER_BLOCK := Some 1, RPC_PORT := Some 6326,
     REORG_LIMIT := 1000\<rparr>"

definition Bitzeny :: coin where
  "Bitzeny = Coin\<lparr>NAME := Some ''Bitzeny'', SHORTNAME := Some ''ZNY'', NET := Some ''mainnet'',
     XPUB_VERBYTES := [0x04, 0x88, 0xb2, 0x1e], XPRV_VERBYTES := [0x04, 0x88, 0xad, 0xe4],
     P2PKH_VERBYTE := [0x51],
     GENESIS_HASH := ''000009f7e55e9e3b4781e22bd87a7cfa4acada9e4340d43ca738bf4e9fb8f5ce'',
     DESERIALIZER := ''DeserializerSegWit'', TX_COUNT := Some 1408733, TX_COUNT_HEIGHT := Some 1015115,
     TX_PER_BLOCK := Some 1, RPC_PORT := Some 9252, REORG_LIMIT := 1000\<rparr>"

definition CanadaeCoin :: coin where
  "CanadaeCoin = (AuxPowMixin Coin)\<lparr>NAME := Some ''CanadaeCoin'', SHORTNAME := Some ''CDN'', NET := Some ''mainnet'',
     XPUB_VERBYTES := [0x04, 0x88, 0xb2, 0x1e], XPRV_VERBYTES := [0x04, 0x88, 0xad, 0xe4],
     P2PKH_VERBYTE := [0x1c], WIF_BYTE := [0x9c],
     GENESIS_HASH := ''863626dadaef221e2e2f30ff3dacae44cabdae9e0028058072181b3fb675d94a'',
     DAEMON := ''FakeEstimateFeeDaemon'', TX_COUNT := Some 3455905, TX_COUNT_HEIGHT := Some 3645419,
     TX_PER_BLOCK := Some 1, RPC_PORT := Some 34330, REORG_LIMIT := 1000\<rparr>"

definition Denarius :: coin where
  "Denarius = Coin\<lparr>NAME := Some ''Denarius'', SHORTNAME := Some ''D'', NET := Some ''mainnet'',
     XPUB_VERBYTES := [0x04, 0x88, 0xb2, 0x1e], XPRV_VERBYTES := [0x04, 0x88, 0xad, 0xe4],
     P2PKH_VERBYTE := [0x1e], P2SH_VERBYTES := VTuple [[0x5a]], WIF_BYTE := [0x9e],
     GENESIS_HASH := ''00000d5dbbda01621cfc16bbc1f9bf3264d641a5dbf0de89fd0182c2c4828fcd'',
     DESERIALIZER := ''DeserializerTxTime'', TX_COUNT := Some 4230, RPC_PORT := Some 32339,
     DAEMON := ''FakeEstimateFeeDaemon'', TX_COUNT_HEIGHT := Some 306187, TX_PER_BLOCK := Some 4000\<rparr>"

definition DenariusTestnet :: coin where
  "DenariusTestnet = Denarius\<lparr>NET := Some ''testnet'', XPUB_VERBYTES := [0x04, 0x35, 0x87, 0xcf],
     XPRV_VERBYTES := [0x04, 0x35, 0x83, 0x94], P2PKH_VERBYTE := [0x12], P2SH_VERBYTES := VTuple [[0x74]],
     WIF_BYTE := [0xef],
     GENESIS_HASH := ''000086bfe8264d241f7f8e5393f747784b8ca2aa98bdd066278d590462a4fdb4'',
     RPC_PORT := Some 32338, REORG_LIMIT := 2000\<rparr>"

definition Sibcoin :: coin where
  "Sibcoin = Dash\<lparr>NAME := Some ''Sibcoin'', SHORTNAME := Some ''SIB'', NET := Some ''mainnet'',
     XPUB_VERBYTES := [0x04, 0x88, 0xb2, 0x1e], XPRV_VERBYTES := [0x04, 0x88, 0xad, 0xe4],
     P2PKH_VERBYTE := [0x3f], P2SH_VERBYTES := VTuple [[0x28]], WIF_BYTE := [0x80],
     GENESIS_HASH := ''00000c492bf73490420868bc577680bfc4c60116e7e85343bc624787c21efa4c'',
     DAEMON := ''DashDaemon'', TX_COUNT := Some 1000, TX_COUNT_HEIGHT := Some 10000, TX_PER_BLOCK := Some 1,
     RPC_PORT := Some 1944, REORG_LIMIT := 1000, PEERS := []\<rparr>"

end
