(* ===== verification/CoinTable3.thy ===== *)
theory CoinTable3
  imports CoinTable2
begin

section \<open>The coin classes of lib/coins.py, SibcoinTestnet to NIX\<close>

text \<open>
  One definition per class, in the order of the source: the attributes the class sets, over its base
  classes.  Attributes outside the record \<open>coin\<close> (fees, hash functions, name operations) and the methods
  a class overrides are not part of these definitions.
\<close>

definition SibcoinTestnet :: coin where
  "SibcoinTestnet = Sibcoin\<lparr>SHORTNAME := Some ''tSIB'', NET := Some ''testnet'', XPUB_VERBYTES := [0x04, 0x35, 0x87, 0xcf],
     XPRV_VERBYTES := [0x04, 0x35, 0x83, 0x94],
     GENESIS_HASH := ''00000617791d0e19f524387f67e558b2a928b670b9a3b387ae003ad7f9093017'',
     RPC_PORT := Some 11944\<rparr>"

definition Chips :: coin where
  "Chips = Coin\<lparr>NAME := Some ''Chips'', SHORTNAME := Some ''CHIPS'', NET := Some ''mainnet'', P2PKH_VERBYTE := [0x3c],
     P2SH_VERBYTES := VTuple [[0x55]], WIF_BYTE := [0xbc],
     GENESIS_HASH := ''0000006e75f6aa0efdbf7db03132aa4e4d0c84951537a6f5a7c39a0a9d30e1e7'',
     DESERIALIZER := ''DeserializerSegWit'', TX_COUNT := Some 145290, TX_COUNT_HEIGHT := Some 318637,
     TX_PER_BLOCK := Some 2, RPC_PORT := Some 57776, REORG_LIMIT := 800\<rparr>"

definition Feathercoin_PEERS :: "string list" where
  "Feathercoin_PEERS =
     [''electrumx-gb-1.feathercoin.network s t'',
      ''electrumx-gb-2.feathercoin.network s t'',
      ''electrumx-de-1.feathercoin.network s t'']"

definition Feathercoin :: coin where
  "Feathercoin = Coin\<lparr>NAME := Some ''Feathercoin'', SHORTNAME := Some ''FTC'', NET := Some ''mainnet'',
     XPUB_VERBYTES := [0x04, 0x88, 0xbc, 0x26], XPRV_VERBYTES := [0x04, 0x88, 0xda, 0xee],
     P2PKH_VERBYTE := [0x0e], WIF_BYTE := [0x8e],
     GENESIS_HASH := ''12a765e31ffd4059bada1e25190f6e98c99d9714d334efa41a195a7e7e04bfe2'',
     DESERIALIZER := ''DeserializerSegWit'', TX_COUNT := Some 3170843, TX_COUNT_HEIGHT := Some 1981777,
     TX_PER_BLOCK := Some 2, RPC_PORT := Some 9337, REORG_LIMIT := 2000, PEERS := Feathercoin_PEERS\<rparr>"

definition UFO_PEERS :: "string list" where
  "UFO_PEERS =
     [''electrumx1.ufobject.com s t'']"

definition UFO :: coin where
  "UFO = Coin\<lparr>NAME := Some ''UniformFiscalObject'', SHORTNAME := Some ''UFO'', NET := Some ''mainnet'',
     XPUB_VERBYTES := [0x04, 0x88, 0xb2, 0x1e], XPRV_VERBYTES := [0x04, 0x88, 0xad, 0xe4],
     P2PKH_VERBYTE := [0x1b], P2SH_VERBYTES := VTuple [[0x44]], WIF_BYTE := [0x9b],
     GENESIS_HASH := ''ba1d39b4928ab03d813d952daf65fb7797fcf538a9c1b8274f4edc8557722d13'',
     DESERIALIZER := ''DeserializerSegWit'', TX_COUNT := Some 1608926, TX_COUNT_HEIGHT := Some 1300154,
     TX_PER_BLOCK := Some 2, RPC_PORT := Some 9888, REORG_LIMIT := 2000, PEERS := UFO_PEERS\<rparr>"

definition Newyorkcoin :: coin where
  "Newyorkcoin = (AuxPowMixin Coin)\<lparr>NAME := Some ''Newyorkcoin'', SHORTNAME := Some ''NYC'', NET := Some ''mainnet'',
     P2PKH_VERBYTE := [0x3c], P2SH_VERBYTES := VTuple [[0x16]], WIF_BYTE := [0xbc],
     GENESIS_HASH := ''5597f25c062a3038c7fd815fe46c67dedfcb3c839fbc8e01ed4044540d08fe48'',
     TX_COUNT := Some 5161944, TX_COUNT_HEIGHT := Some 3948743, TX_PER_BLOCK := Some 2, REORG_LIMIT := 2000\<rparr>"

definition NewyorkcoinTestnet :: coin where
  "NewyorkcoinTestnet = Newyorkcoin\<lparr>SHORTNAME := Some ''tNYC'', NET := Some ''testnet'', P2PKH_VERBYTE := [0x71],
     P2SH_VERBYTES := VTuple [[0xc4]], WIF_BYTE := [0xf1],
     GENESIS_HASH := ''24463e4d3c625b0a9059f309044c2cf0d7e196cf2a6ecce901f24f681be33c8f'',
     TX_COUNT := Some 5161944, TX_COUNT_HEIGHT := Some 3948743, TX_PER_BLOCK := Some 2, REORG_LIMIT := 2000\<rparr>"

definition Bitcore_PEERS :: "string list" where
  "Bitcore_PEERS =
     [''ele1.bitcore.cc s t'',
      ''ele2.bitcore.cc s t'',
      ''ele3.bitcore.cc s t'',
      ''ele4.bitcore.cc s t'']"

definition Bitcore :: coin where
  "Bitcore = (BitcoinMixin Coin)\<lparr>NAME := Some ''Bitcore'', SHORTNAME := Some ''BTX'', P2PKH_VERBYTE := [0x03],
     P2SH_VERBYTES := VTuple [[0x7d]], DESERIALIZER := ''DeserializerSegWit'',
     GENESIS_HASH := ''604148281e5c4b7f2487e5d03cd60d8e6f69411d613f6448034508cea52e9574'',
     TX_COUNT := Some 126979, TX_COUNT_HEIGHT := Some 126946, TX_PER_BLOCK := Some 2, RPC_PORT := Some 8556,
     PEERS := Bitcore_PEERS\<rparr>"

definition GameCredits :: coin where
  "GameCredits = Coin\<lparr>NAME := Some ''GameCredits'', SHORTNAME := Some ''GAME'', NET := Some ''mainnet'',
     P2PKH_VERBYTE := [0x26], WIF_BYTE := [0xa6],
     GENESIS_HASH := ''91ec5f25ee9a0ffa1af7d4da4db9a552228dd2dc77cdb15b738be4e1f55f30ee'',
     DESERIALIZER := ''DeserializerSegWit'', TX_COUNT := Some 316796, TX_COUNT_HEIGHT := Some 2040250,
     TX_PER_BLOCK := Some 2, RPC_PORT := Some 40001, REORG_LIMIT := 1000\<rparr>"

definition Machinecoin :: coin where
  "Machinecoin = Coin\<lparr>NAME := Some ''Machinecoin'', SHORTNAME := Some ''MAC'', NET := Some ''mainnet'',
     XPUB_VERBYTES := [0x04, 0x88, 0xb2, 0x1e], XPRV_VERBYTES := [0x04, 0x88, 0xad, 0xe4],
     P2PKH_VERBYTE := [0x32], P2SH_VERBYTES := VTuple [[0x26], [0x05]], WIF_BYTE := [0xb2],
     GENESIS_HASH := ''6a1f879bcea5471cbfdee1fd0cb2ddcc4fed569a500e352d41de967703e83172'',
     DESERIALIZER := ''DeserializerSegWit'', TX_COUNT := Some 137641, TX_COUNT_HEIGHT := Some 513020,
     TX_PER_BLOCK := Some 2, RPC_PORT := Some 40332, REORG_LIMIT := 800\<rparr>"

definition BitcoinAtom :: coin where
  "BitcoinAtom = Coin\<lparr>NAME := Some ''BitcoinAtom'', SHORTNAME := Some ''BCA'', NET := Some ''mainnet'',
     P2PKH_VERBYTE := [0x17], P2SH_VERBYTES := VTuple [[0x0a]], STATIC_BLOCK_HEADERS := False,
     DESERIALIZER := ''DeserializerBitcoinAtom'', TX_COUNT := Some 295158744,
     TX_COUNT_HEIGHT := Some 589197, TX_PER_BLOCK := Some 10, RPC_PORT := Some 9136, REORG_LIMIT := 5000\<rparr>"

definition Decred :: coin where
  "Decred = Coin\<lparr>NAME := Some ''Decred'', SHORTNAME := Some ''DCR'', NET := Some ''mainnet'',
     XPUB_VERBYTES := [0x02, 0xfd, 0xa9, 0x26], XPRV_VERBYTES := [0x02, 0xfd, 0xa4, 0xe8],
     P2PKH_VERBYTE := [0x07, 0x3f], P2SH_VERBYTES := VTuple [[0x07, 0x1a]], WIF_BYTE := [0x22, 0xde],
     GENESIS_HASH := ''298e5cc3d985bfe7f81dc135f360abe089edd4396b86d2de66b0cef42b21d980'',
     BASIC_HEADER_SIZE := 180, DESERIALIZER := ''DeserializerDecred'', DAEMON := ''DecredDaemon'',
     BLOCK_PROCESSOR := ''DecredBlockProcessor'', TX_COUNT := Some 4629388, TX_COUNT_HEIGHT := Some 260628,
     TX_PER_BLOCK := Some 17, REORG_LIMIT := 1000, RPC_PORT := Some 9109\<rparr>"

definition DecredTestnet :: coin where
  "DecredTestnet = Decred\<lparr>SHORTNAME := Some ''tDCR'', NET := Some ''testnet'', XPUB_VERBYTES := [0x04, 0x35, 0x87, 0xd1],
     XPRV_VERBYTES := [0x04, 0x35, 0x83, 0x97], P2PKH_VERBYTE := [0x0f, 0x21],
     P2SH_VERBYTES := VTuple [[0x0e, 0xfc]], WIF_BYTE := [0x23, 0x0e],
     GENESIS_HASH := ''a649dce53918caf422e9c711c858837e08d626ecfcd198969b24f7b634a49bac'',
     BASIC_HEADER_SIZE := 180, TX_COUNT := Some 217380620, TX_COUNT_HEIGHT := Some 464000,
     TX_PER_BLOCK := Some 1800, REORG_LIMIT := 1000, RPC_PORT := Some 19109\<rparr>"

definition Axe :: coin where
  "Axe = Dash\<lparr>NAME := Some ''Axe'', SHORTNAME := Some ''AXE'', NET := Some ''mainnet'',
     XPUB_VERBYTES := [0x02, 0xfe, 0x52, 0xcc], XPRV_VERBYTES := [0x02, 0xfe, 0x52, 0xf8],
     P2PKH_VERBYTE := [0x37], P2SH_VERBYTES := VTuple [[0x10]], WIF_BYTE := [0xcc],
     GENESIS_HASH := ''00000c33631ca6f2f61368991ce2dc03306b5bb50bf7cede5cfbba6db38e52e6'',
     SESSIONCLS := ''DashElectrumX'', DAEMON := ''DashDaemon'', DESERIALIZER := ''DeserializerAxe'',
     TX_COUNT := Some 18405, TX_COUNT_HEIGHT := Some 30237, TX_PER_BLOCK := Some 1, RPC_PORT := Some 9337,
     REORG_LIMIT := 1000, PEERS := []\<rparr>"

definition AxeTestnet :: coin where
  "AxeTestnet = Axe\<lparr>SHORTNAME := Some ''tAxe'', NET := Some ''testnet'', XPUB_VERBYTES := [0x3a, 0x80, 0x58, 0x37],
     XPRV_VERBYTES := [0x3a, 0x80, 0x61, 0xa0],
     GENESIS_HASH := ''000005b709662e7bc5e89c71d3aba6c9d4623b4bbf44ac205caec55f4cefb483'',
     P2PKH_VERBYTE := [0x8c], P2SH_VERBYTES := VTuple [[0x13]], WIF_BYTE := [0xef],
     TX_COUNT_HEIGHT := Some 101619, TX_COUNT := Some 132681, TX_PER_BLOCK := Some 1,
     RPC_PORT := Some 19937, PEER_DEFAULT_PORTS := (''51001'', ''51002''), PEERS := []\<rparr>"

definition AxeRegtest :: coin where
  "AxeRegtest = AxeTestnet\<lparr>NET := Some ''regtest'',
     GENESIS_HASH := ''2026b8850f3774a0536152ba868c4dcbde9aef5ffc28a5d23f76f80e9b46e565'', PEERS := [],
     TX_COUNT_HEIGHT := Some 1, RPC_PORT := Some 19869, TX_COUNT := Some 1\<rparr>"

definition Xuez :: coin where
  "Xuez = Coin\<lparr>NAME := Some ''Xuez'', SHORTNAME := Some ''XUEZ'', NET := Some ''mainnet'',
     XPUB_VERBYTES := [0x02, 0x2d, 0x25, 0x33], XPRV_VERBYTES := [0x02, 0x21, 0x31, 0x2b],
     P2PKH_VERBYTE := [0x48], P2SH_VERBYTES := VTuple [[0x12]], WIF_BYTE := [0xd4],
     GENESIS_HASH := ''000000e1febc39965b055e8e0117179a4d18e24e7aaa0c69864c4054b4f29445'',
     TX_COUNT := Some 30000, TX_COUNT_HEIGHT := Some 15000, TX_PER_BLOCK := Some 1, RPC_PORT := Some 41799,
     REORG_LIMIT := 1000, BASIC_HEADER_SIZE := 112, PEERS := []\<rparr>"

definition Odin :: coin where
  "Odin = Coin\<lparr>NAME := Some ''ODIN'', SHORTNAME := Some ''ODIN'', NET := Some ''mainnet'',
     XPUB_VERBYTES := [0x27, 0x56, 0x18, 0x72], XPRV_VERBYTES := [0x27, 0x25, 0x67, 0x46],
     P2PKH_VERBYTE := [0x73], P2SH_VERBYTES := VTuple [[0x39]], WIF_BYTE := [0x8a],
     GENESIS_HASH := ''31ca29566549e444cf227a0e2e067aed847c2acc541d3bbf9ca1ae89f4fd57d7'',
     TX_COUNT := Some 340000, TX_COUNT_HEIGHT := Some 340000, TX_PER_BLOCK := Some 2,
     RPC_PORT := Some 22101, REORG_LIMIT := 100, BASIC_HEADER_SIZE := 80, SESSIONCLS := ''DashElectrumX'',
     DAEMON := ''DashDaemon'', DESERIALIZER := ''DeserializerSegWit''\<rparr>"

definition Pac_PEERS :: "string list" where
  "Pac_PEERS =
     [''electrum.paccoin.io s t'',
      ''electro-pac.paccoin.io s t'']"

definition Pac :: coin where
  "Pac = Coin\<lparr>NAME := Some ''PAC'', SHORTNAME := Some ''PAC'', NET := Some ''mainnet'',
     XPUB_VERBYTES := [0x04, 0x88, 0xb2, 0x1e], XPRV_VERBYTES := [0x04, 0x88, 0xad, 0xe4],
     GENESIS_HASH := ''00000354655ff039a51273fe61d3b493bd2897fe6c16f732dbc4ae19f04b789e'',
     P2PKH_VERBYTE := [0x37], P2SH_VERBYTES := VTuple [[0x0a]], WIF_BYTE := [0xcc],
     TX_COUNT_HEIGHT := Some 14939, TX_COUNT := Some 23708, TX_PER_BLOCK := Some 2, RPC_PORT := Some 7111,
     PEERS := Pac_PEERS, SESSIONCLS := ''DashElectrumX'', DAEMON := ''DashDaemon''\<rparr>"

definition PacTestnet :: coin where
  "PacTestnet = Pac\<lparr>SHORTNAME := Some ''tPAC'', NET := Some ''testnet'', XPUB_VERBYTES := [0x04, 0x35, 0x87, 0xcf],
     XPRV_VERBYTES := [0x04, 0x35, 0x83, 0x94],
     GENESIS_HASH := ''00000da63bd9478b655ef6bf1bf76cd9af05202ab68643f9091e049b2b5280ed'',
     P2PKH_VERBYTE := [0x78], P2SH_VERBYTES := VTuple [[0x0e]], WIF_BYTE := [0xef],
     TX_COUNT_HEIGHT := Some 16275, TX_COUNT := Some 16275, TX_PER_BLOCK := Some 1, RPC_PORT := Some 17111\<rparr>"

definition Zcoin_PEERS :: "string list" where
  "Zcoin_PEERS =
     [''electrum.polispay.com'']"

definition Zcoin :: coin where
  "Zcoin = Coin\<lparr>NAME := Some ''Zcoin'', SHORTNAME := Some ''XZC'', NET := Some ''mainnet'', P2PKH_VERBYTE := [0x52],
     P2SH_VERBYTES := VTuple [[0x07]], WIF_BYTE := [0xd2],
     GENESIS_HASH := ''4381deb85b1b2c9843c222944b616d997516dcbd6a964e1eaf0def0830695233'',
     TX_COUNT := Some 667154, TX_COUNT_HEIGHT := Some 100266, TX_PER_BLOCK := Some 4000,
     RPC_PORT := Some 8888, REORG_LIMIT := 5000, PEER_DEFAULT_PORTS := (''50001'', ''50002''),
     STATIC_BLOCK_HEADERS := False, SESSIONCLS := ''DashElectrumX'', DAEMON := ''ZcoinMtpDaemon'',
     DESERIALIZER := ''DeserializerZcoin'', PEERS := Zcoin_PEERS\<rparr>"

definition ZcoinTestnet :: coin where
  "ZcoinTestnet = Zcoin\<lparr>SHORTNAME := Some ''tXZC'', NET := Some ''testnet'', XPUB_VERBYTES := [0x04, 0x35, 0x87, 0xcf],
     XPRV_VERBYTES := [0x04, 0x35, 0x83, 0x94], P2PKH_VERBYTE := [0x41], P2SH_VERBYTES := VTuple [[0xb2]],
     WIF_BYTE := [0xb9],
     GENESIS_HASH := ''1e3487fdb1a7d46dac3e8f3e58339c6eff54abf6aef353485f3ed64250a35e89'',
     REORG_LIMIT := 8000, RPC_PORT := Some 18888\<rparr>"

definition Polis_PEERS :: "string list" where
  "Polis_PEERS =
     [''electrum.polispay.com'']"

definition Polis :: coin where
  "Polis = Coin\<lparr>NAME := Some ''Polis'', SHORTNAME := Some ''POLIS'', NET := Some ''mainnet'',
     XPUB_VERBYTES := [0x03, 0xe2, 0x5d, 0x7e], XPRV_VERBYTES := [0x03, 0xe2, 0x59, 0x45],
     GENESIS_HASH := ''000009701eb781a8113b1af1d814e2f060f6408a2c990db291bc5108a1345c1e'',
     P2PKH_VERBYTE := [0x37], P2SH_VERBYTES := VTuple [[0x38]], WIF_BYTE := [0x3c],
     TX_COUNT_HEIGHT := Some 280600, TX_COUNT := Some 635415, TX_PER_BLOCK := Some 4,
     RPC_PORT := Some 24127, PEERS := Polis_PEERS, SESSIONCLS := ''DashElectrumX'',
     DAEMON := ''DashDaemon''\<rparr>"

definition MNPCoin_PEERS :: "string list" where
  "MNPCoin_PEERS =
     [''electrum.polispay.com'']"

definition MNPCoin :: coin where
  "MNPCoin = Coin\<lparr>NAME := Some ''MNPCoin'', SHORTNAME := Some ''MNP'', NET := Some ''mainnet'',
     XPUB_VERBYTES := [0x04, 0x88, 0xb2, 0x1e], XPRV_VERBYTES := [0x04, 0x88, 0xad, 0xe4],
     GENESIS_HASH := ''00000924036c67d803ce606ded8143127e62fa2111dd3b063880a1067c69ccb1'',
     P2PKH_VERBYTE := [0x32], P2SH_VERBYTES := VTuple [[0x35]], WIF_BYTE := [0x37],
     TX_COUNT_HEIGHT := Some 248000, TX_COUNT := Some 506447, TX_PER_BLOCK := Some 4,
     RPC_PORT := Some 13373, PEERS := MNPCoin_PEERS, SESSIONCLS := ''DashElectrumX'',
     DAEMON := ''DashDaemon''\<rparr>"

definition ColossusXT_PEERS :: "string list" where
  "ColossusXT_PEERS =
     [''electrum.polispay.com'']"

definition ColossusXT :: coin where
  "ColossusXT = Coin\<lparr>NAME := Some ''ColossusXT'', SHORTNAME := Some ''COLX'', NET := Some ''mainnet'',
     XPUB_VERBYTES := [0x04, 0x88, 0xb2, 0x1e], XPRV_VERBYTES := [0x04, 0x88, 0xad, 0xe4],
     GENESIS_HASH := ''a0ce8206c908357008c1b9a8ba2813aff0989ca7f72d62b14e652c55f02b4f5c'',
     P2PKH_VERBYTE := [0x1e], P2SH_VERBYTES := VTuple [[0x0d]], WIF_BYTE := [0xd4],
     TX_COUNT_HEIGHT := Some 356500, BASIC_HEADER_SIZE := 80, TX_COUNT := Some 761041,
     TX_PER_BLOCK := Some 4, RPC_PORT := Some 51473, PEERS := ColossusXT_PEERS,
     SESSIONCLS := ''DashElectrumX'', DAEMON := ''DashDaemon''\<rparr>"

definition Minexcoin_PEERS :: "string list" where
  "Minexcoin_PEERS =
     [''electrumx.xpresit.net s t'',
      ''elex01-ams.turinex.eu s t'',
      ''eu.minexpool.nl s t'']"

definition Minexcoin :: coin where
  "Minexcoin = (EquihashMixin Coin)\<lparr>NAME := Some ''Minexcoin'', SHORTNAME := Some ''MNX'', NET := Some ''mainnet'',
     P2PKH_VERBYTE := [0x4b],
     GENESIS_HASH := ''490a36d9451a55ed197e34aca7414b35d775baa4a8e896f1c577f65ce2d214cb'',
     STATIC_BLOCK_HEADERS := True, BASIC_HEADER_SIZE := 209, TX_COUNT := Some 327963,
     TX_COUNT_HEIGHT := Some 74495, TX_PER_BLOCK := Some 5, RPC_PORT := Some 8022, CHUNK_SIZE := 960,
     PEERS := Minexcoin_PEERS\<rparr>"

definition Groestlcoin_PEERS :: "string list" where
  "Groestlcoin_PEERS =
     [''electrum1.groestlcoin.org s t'',
      ''electrum2.groestlcoin.org s t'',
      ''glzyzqiulwclsowniyjeg5tspdojfgiiizbpnepcxoswqkmsjzlkucqd.onion t'',
      ''jcv7kwu3gopzxp3r2ve43m6nahrxzc426hif4o3a2vt7wl4xq6tg3xqd.onion t'']"

definition Groestlcoin :: coin where
  "Groestlcoin = Coin\<lparr>NAME := Some ''Groestlcoin'', SHORTNAME := Some ''GRS'', NET := Some ''mainnet'',
     XPUB_VERBYTES := [0x04, 0x88, 0xb2, 0x1e], XPRV_VERBYTES := [0x04, 0x88, 0xad, 0xe4],
     P2PKH_VERBYTE := [0x24],
     GENESIS_HASH := ''00000ac5927c594d49cc0bdb81759d0da8297eb614683d3acb62f0703b639023'',
     DESERIALIZER := ''DeserializerGroestlcoin'', TX_COUNT := Some 115900, TX_COUNT_HEIGHT := Some 1601528,
     TX_PER_BLOCK := Some 5, RPC_PORT := Some 1441, PEERS := Groestlcoin_PEERS\<rparr>"

definition GroestlcoinTestnet_PEERS :: "string list" where
  "GroestlcoinTestnet_PEERS =
     [''electrum-test1.groestlcoin.org s t'',
      ''electrum-test2.groestlcoin.org s t'',
      ''v2wuvscywpli35kgolqrt2kw67rqfbfwfn4bv3pc6gtugkexqv675uqd.onion t'',
      ''75dycxl6lqxujplls3qkhkzffptzdfohv3y5um7s5nhyu6idayqmk7id.onion t'']"

definition GroestlcoinTestnet :: coin where
  "GroestlcoinTestnet = Groestlcoin\<lparr>SHORTNAME := Some ''TGRS'', NET := Some ''testnet'', XPUB_VERBYTES := [0x04, 0x35, 0x87, 0xcf],
     XPRV_VERBYTES := [0x04, 0x35, 0x83, 0x94], P2PKH_VERBYTE := [0x6f], P2SH_VERBYTES := VTuple [[0xc4]],
     WIF_BYTE := [0xef],
     GENESIS_HASH := ''000000ffbb50fc9898cdd36ec163e6ba23230164c0052a28876255b7dcf2cd36'',
     RPC_PORT := Some 17766, PEERS := GroestlcoinTestnet_PEERS\<rparr>"

definition GroestlcoinRegtest :: coin where
  "GroestlcoinRegtest = GroestlcoinTestnet\<lparr>SHORTNAME := Some ''GRSRT'', NET := Some ''regtest'', RPC_PORT := Some 18443, PEERS := [],
     TX_COUNT := Some 1, TX_COUNT_HEIGHT := Some 1\<rparr>"

definition GroestlcoinSignet :: coin where
  "GroestlcoinSignet = GroestlcoinTestnet\<lparr>SHORTNAME := Some ''SGRS'', NET := Some ''signet'',
     GENESIS_HASH := ''0000007fcaa2a27993c6cde9e7818c254357af517b876ceba2f23592bb14ab31'',
     RPC_PORT := Some 31441, PEERS := [], TX_COUNT := Some 1, TX_COUNT_HEIGHT := Some 1\<rparr>"

definition Pivx :: coin where
  "Pivx = Coin\<lparr>NAME := Some ''PIVX'', SHORTNAME := Some ''PIVX'', NET := Some ''mainnet'',
     XPUB_VERBYTES := [0x02, 0x2d, 0x25, 0x33], XPRV_VERBYTES := [0x02, 0x21, 0x31, 0x2b],
     GENESIS_HASH := ''0000041e482b9b9691d98eefb48473405c0b8ec31b76df3797c74a78680ef818'',
     P2PKH_VERBYTE := [0x1e], WIF_BYTE := [0xd4], DESERIALIZER := ''DeserializerPIVX'',
     TX_COUNT_HEIGHT := Some 569399, TX_COUNT := Some 2157510, TX_PER_BLOCK := Some 1,
     STATIC_BLOCK_HEADERS := False, RPC_PORT := Some 51470, REORG_LIMIT := 100\<rparr>"

definition PivxTestnet :: coin where
  "PivxTestnet = Pivx\<lparr>NET := Some ''testnet'', XPUB_VERBYTES := [0x3a, 0x80, 0x61, 0xa0],
     XPRV_VERBYTES := [0x3a, 0x80, 0x58, 0x37],
     GENESIS_HASH := ''0000041e482b9b9691d98eefb48473405c0b8ec31b76df3797c74a78680ef818'',
     P2PKH_VERBYTE := [0x8b], WIF_BYTE := [0xef], TX_PER_BLOCK := Some 4, RPC_PORT := Some 51472\<rparr>"

definition Bitg :: coin where
  "Bitg = Coin\<lparr>NAME := Some ''BitcoinGreen'', SHORTNAME := Some ''BITG'', NET := Some ''mainnet'',
     XPUB_VERBYTES := [0x04, 0x88, 0xb2, 0x1e], XPRV_VERBYTES := [0x04, 0x88, 0xad, 0xe4],
     P2PKH_VERBYTE := [0x26], P2SH_VERBYTES := VTuple [[0x06]], WIF_BYTE := [0x2e],
     GENESIS_HASH := ''000008467c3a9c587533dea06ad9380cded3ed32f9742a6c0c1aebc21bf2bc9b'',
     DAEMON := ''DashDaemon'', TX_COUNT := Some 1000, TX_COUNT_HEIGHT := Some 10000, TX_PER_BLOCK := Some 1,
     RPC_PORT := Some 9332, REORG_LIMIT := 1000, SESSIONCLS := ''DashElectrumX''\<rparr>"

definition tBitg :: coin where
  "tBitg = Bitg\<lparr>SHORTNAME := Some ''tBITG'', NET := Some ''testnet'', XPUB_VERBYTES := [0x04, 0x35, 0x87, 0xcf],
     XPRV_VERBYTES := [0x04, 0x35, 0x83, 0x94], P2PKH_VERBYTE := [0x62], P2SH_VERBYTES := VTuple [[0x0c]],
     WIF_BYTE := [0x6c],
     GENESIS_HASH := ''000008467c3a9c587533dea06ad9380cded3ed32f9742a6c0c1aebc21bf2bc9b'',
     RPC_PORT := Some 19332\<rparr>"

definition EXOS :: coin where
  "EXOS = Coin\<lparr>NAME := Some ''EXOS'', SHORTNAME := Some ''EXOS'', NET := Some ''mainnet'',
     XPUB_VERBYTES := [0x04, 0x88, 0xb2, 0x1e], XPRV_VERBYTES := [0x04, 0x88, 0xad, 0xe4],
     GENESIS_HASH := ''00000036090a68c523471da7a4f0f958c1b4403fef74a003be7f71877699cab7'',
     P2PKH_VERBYTE := [0x1c], WIF_BYTE := [0x9c], RPC_PORT := Some 4561, TX_COUNT := Some 1000,
     TX_COUNT_HEIGHT := Some 10000, TX_PER_BLOCK := Some 4, DAEMON := ''PreLegacyRPCDaemon'',
     DESERIALIZER := ''DeserializerTxTime''\<rparr>"

definition EXOSTestnet :: coin where
  "EXOSTestnet = EXOS\<lparr>SHORTNAME := Some ''tEXOS'', NET := Some ''testnet'', XPUB_VERBYTES := [0x04, 0x35, 0x87, 0xcf],
     XPRV_VERBYTES := [0x04, 0x35, 0x83, 0x94],
     GENESIS_HASH := ''0000059bb2c2048493efcb0f1a034972b3ce4089d54c93b69aaab212fb369887'',
     P2PKH_VERBYTE := [0x4b], WIF_BYTE := [0xcb], RPC_PORT := Some 14561\<rparr>"

definition SmartCash :: coin where
  "SmartCash = Coin\<lparr>NAME := Some ''SmartCash'', SHORTNAME := Some ''SMART'', NET := Some ''mainnet'',
     P2PKH_VERBYTE := [0x3f], P2SH_VERBYTES := VTuple [[0x12]], WIF_BYTE := [0xbf],
     GENESIS_HASH := ''000007acc6970b812948d14ea5a0a13db0fdd07d5047c7e69101fa8b361e05a4'',
     DESERIALIZER := ''DeserializerSmartCash'', RPC_PORT := Some 9679, REORG_LIMIT := 5000,
     TX_COUNT := Some 1115016, TX_COUNT_HEIGHT := Some 541656, TX_PER_BLOCK := Some 1,
     DAEMON := ''SmartCashDaemon'', SESSIONCLS := ''SmartCashElectrumX''\<rparr>"

definition NIX :: coin where
  "NIX = Coin\<lparr>NAME := Some ''NIX'', SHORTNAME := Some ''NIX'', NET := Some ''mainnet'',
     XPUB_VERBYTES := [0x04, 0x88, 0xb2, 0x1e], XPRV_VERBYTES := [0x04, 0x88, 0xad, 0xe4],
     P2PKH_VERBYTE := [0x26], P2SH_VERBYTES := VTuple [[0x35]],
     GENESIS_HASH := ''dd28ad86def767c3cfc34267a950d871fc7462bc57ea4a929fc3596d9b598e41'',
     DESERIALIZER := ''DeserializerSegWit'', TX_COUNT := Some 114240, TX_COUNT_HEIGHT := Some 87846,
     TX_PER_BLOCK := Some 3, RPC_PORT := Some 6215, REORG_LIMIT := 1000\<rparr>"

end
