(* ===== verification/CoinTable4.thy ===== *)
theory CoinTable4
  imports CoinTable3
begin

section \<open>The coin classes of lib/coins.py, NIXTestnet to FerriteTestnet\<close>

text \<open>
  One definition per class, in the order of the source: the attributes the class sets, over its base
  classes.  Attributes outside the record \<open>coin\<close> (fees, hash functions, name operations) and the methods
  a class overrides are not part of these definitions.
\<close>

definition NIXTestnet :: coin where
  "NIXTestnet = NIX\<lparr>SHORTNAME := Some ''tNIX'', NET := Some ''testnet'', XPUB_VERBYTES := [0x04, 0x88, 0xb2, 0x1e],
     XPRV_VERBYTES := [0x04, 0x88, 0xad, 0xe4],
     GENESIS_HASH := ''dd28ad86def767c3cfc34267a950d871fc7462bc57ea4a929fc3596d9b598e41'',
     P2PKH_VERBYTE := [0x01], RPC_PORT := Some 16215, DESERIALIZER := ''DeserializerSegWit''\<rparr>"

definition Noir :: coin where
  "Noir = Coin\<lparr>NAME := Some ''Noir'', SHORTNAME := Some ''NOR'', NET := Some ''mainnet'',
     XPUB_VERBYTES := [0x04, 0x88, 0xb2, 0x1e], XPRV_VERBYTES := [0x04, 0x88, 0xad, 0xe4],
     P2SH_VERBYTES := VTuple [[0x07]], WIF_BYTE := [0xd0],
     GENESIS_HASH := ''23911212a525e3d149fcad6c559c8b17f1e8326a272a75ff9bb315c8d96433ef'',
     RPC_PORT := Some 8825, TX_COUNT := Some 586369, TX_COUNT_HEIGHT := Some 379290, TX_PER_BLOCK := Some 5\<rparr>"

definition BitcoinPlus :: coin where
  "BitcoinPlus = Coin\<lparr>NAME := Some ''BitcoinPlus'', SHORTNAME := Some ''XBC'', NET := Some ''mainnet'',
     XPUB_VERBYTES := [0x04, 0x88, 0xb2, 0x1e], XPRV_VERBYTES := [0x04, 0x88, 0xad, 0xe4],
     P2PKH_VERBYTE := [0x19], P2SH_VERBYTES := VTuple [[0x55]], WIF_BYTE := [0x99],
     GENESIS_HASH := ''0000005f6a28e686f641c616e56182d1b43afbe08a223f23bda23cdf9d55b882'',
     DESERIALIZER := ''DeserializerTxTime'', DAEMON := ''LegacyRPCDaemon'', TX_COUNT := Some 1479247,
     TX_COUNT_HEIGHT := Some 749740, TX_PER_BLOCK := Some 2, RPC_PORT := Some 8885, REORG_LIMIT := 2000\<rparr>"

definition Myriadcoin :: coin where
  "Myriadcoin = (AuxPowMixin Coin)\<lparr>NAME := Some ''Myriadcoin'', SHORTNAME := Some ''XMY'', NET := Some ''mainnet'',
     XPUB_VERBYTES := [0x04, 0x88, 0xb2, 0x1e], XPRV_VERBYTES := [0x04, 0x88, 0xad, 0xe4],
     P2PKH_VERBYTE := [0x32], P2SH_VERBYTES := VTuple [[0x09]], WIF_BYTE := [0xb2],
     GENESIS_HASH := ''00000ffde4c020b5938441a0ea3d314bf619eff0b38f32f78f7583cffa1ea485'',
     DESERIALIZER := ''DeserializerAuxPowSegWit'', TX_COUNT := Some 1976629,
     TX_COUNT_HEIGHT := Some 2580356, TX_PER_BLOCK := Some 20, REORG_LIMIT := 2000, RPC_PORT := Some 10889\<rparr>"

definition MyriadcoinTestnet :: coin where
  "MyriadcoinTestnet = Myriadcoin\<lparr>NAME := Some ''Myriadcoin'', SHORTNAME := Some ''XMT'', NET := Some ''testnet'',
     XPUB_VERBYTES := [0x04, 0x35, 0x87, 0xcf], XPRV_VERBYTES := [0x04, 0x35, 0x83, 0x94],
     P2PKH_VERBYTE := [0x58], P2SH_VERBYTES := VTuple [[0xbc]], WIF_BYTE := [0xef],
     GENESIS_HASH := ''0000017ce2a79c8bddafbbe47c004aa92b20678c354b34085f62b762084b9788''\<rparr>"

definition Bitsend_PEERS :: "string list" where
  "Bitsend_PEERS =
     [''ele1.bitsend.cc s t'',
      ''51.15.121.233 s t'']"

definition Bitsend :: coin where
  "Bitsend = Coin\<lparr>NAME := Some ''Bitsend'', SHORTNAME := Some ''BSD'', NET := Some ''mainnet'',
     XPUB_VERBYTES := [0x04, 0x88, 0xb2, 0x1e], XPRV_VERBYTES := [0x04, 0x88, 0xad, 0xe4],
     P2PKH_VERBYTE := [0x66], WIF_BYTE := [0xcc],
     GENESIS_HASH := ''0000012e1b8843ac9ce8c18603658eaf8895f99d3f5e7e1b7b1686f35e3c087a'',
     TX_COUNT := Some 974672, TX_COUNT_HEIGHT := Some 586022, TX_PER_BLOCK := Some 2, RPC_PORT := Some 8800,
     REORG_LIMIT := 1000, DESERIALIZER := ''DeserializerSegWit'', PEERS := Bitsend_PEERS\<rparr>"

definition Ravencoin :: coin where
  "Ravencoin = Coin\<lparr>NAME := Some ''Ravencoin'', SHORTNAME := Some ''RVN'', NET := Some ''mainnet'',
     XPUB_VERBYTES := [0x04, 0x88, 0xb2, 0x1e], XPRV_VERBYTES := [0x04, 0x88, 0xad, 0xe4],
     P2PKH_VERBYTE := [0x3c], P2SH_VERBYTES := VTuple [[0x7a]],
     GENESIS_HASH := ''0000006b444bc2f2ffe627be9d9e7e7a0730000870ef6eb6da46c8eae389df90'',
     DESERIALIZER := ''DeserializerSegWit'', TX_COUNT := Some 5626682, TX_COUNT_HEIGHT := Some 887000,
     TX_PER_BLOCK := Some 6, RPC_PORT := Some 8766, REORG_LIMIT := 100, PEERS := []\<rparr>"

definition RavencoinTestnet :: coin where
  "RavencoinTestnet = Ravencoin\<lparr>NET := Some ''testnet'', XPUB_VERBYTES := [0x04, 0x35, 0x87, 0xcf],
     XPRV_VERBYTES := [0x04, 0x35, 0x83, 0x94], P2PKH_VERBYTE := [0x6f], P2SH_VERBYTES := VTuple [[0xc4]],
     WIF_BYTE := [0xef],
     GENESIS_HASH := ''000000ecfc5e6324a079542221d00e10362bdc894d56500c414060eea8a3ad5a'',
     TX_COUNT := Some 496158, TX_COUNT_HEIGHT := Some 420500, TX_PER_BLOCK := Some 1,
     RPC_PORT := Some 18766, PEER_DEFAULT_PORTS := (''50003'', ''50004''), REORG_LIMIT := 100, PEERS := []\<rparr>"

definition Bolivarcoin :: coin where
  "Bolivarcoin = Coin\<lparr>NAME := Some ''Bolivarcoin'', SHORTNAME := Some ''BOLI'', NET := Some ''mainnet'',
     XPUB_VERBYTES := [0x04, 0x88, 0xb2, 0x1e], XPRV_VERBYTES := [0x04, 0x88, 0xad, 0xe4],
     P2PKH_VERBYTE := [0x55], P2SH_VERBYTES := VTuple [[0x05]], WIF_BYTE := [0xd5],
     GENESIS_HASH := ''00000e4fc293a1912b9d73cbb8d8f7270007a7d84382f1370661e65d5d57b1f6'',
     TX_COUNT := Some 1082515, TX_COUNT_HEIGHT := Some 540410, TX_PER_BLOCK := Some 10,
     RPC_PORT := Some 3563, REORG_LIMIT := 800, PEERS := [], SESSIONCLS := ''DashElectrumX'',
     DAEMON := ''DashDaemon''\<rparr>"

definition Onixcoin :: coin where
  "Onixcoin = Coin\<lparr>NAME := Some ''Onixcoin'', SHORTNAME := Some ''ONX'', NET := Some ''mainnet'',
     XPUB_VERBYTES := [0x04, 0x88, 0xb2, 0x1e], XPRV_VERBYTES := [0x04, 0x88, 0xad, 0xe4],
     P2PKH_VERBYTE := [0x4b],
     GENESIS_HASH := ''000007140b7a6ca0b64965824f5731f6e86daadf19eb299033530b1e61236e43'',
     TX_COUNT := Some 431808, TX_COUNT_HEIGHT := Some 321132, TX_PER_BLOCK := Some 10,
     RPC_PORT := Some 41019, REORG_LIMIT := 800, PEERS := [], SESSIONCLS := ''DashElectrumX'',
     DAEMON := ''DashDaemon''\<rparr>"

definition Electra :: coin where
  "Electra = Coin\<lparr>NAME := Some ''Electra'', SHORTNAME := Some ''ECA'', NET := Some ''mainnet'',
     XPUB_VERBYTES := [0x04, 0x88, 0xb2, 0x1e], XPRV_VERBYTES := [0x04, 0x88, 0xad, 0xe4],
     P2PKH_VERBYTE := [0x21], P2SH_VERBYTES := VTuple [[0x28]], WIF_BYTE := [0xa1],
     GENESIS_HASH := ''00000f98da995de0ef1665c7d3338687923c1199230a44ecbdb5cec9306e4f4e'',
     RPC_PORT := Some 5788, TX_COUNT := Some 615729, TX_COUNT_HEIGHT := Some 205243, TX_PER_BLOCK := Some 3,
     REORG_LIMIT := 100, DESERIALIZER := ''DeserializerElectra''\<rparr>"

definition ECCoin :: coin where
  "ECCoin = Coin\<lparr>NAME := Some ''ECCoin'', SHORTNAME := Some ''ECC'', NET := Some ''mainnet'',
     DESERIALIZER := ''DeserializerECCoin'', XPUB_VERBYTES := [0x04, 0x88, 0xb2, 0x1e],
     XPRV_VERBYTES := [0x04, 0x88, 0xad, 0xe4], P2PKH_VERBYTE := [0x21], P2SH_VERBYTES := VTuple [[0x08]],
     GENESIS_HASH := ''a60ac43c88dbc44b826cf315352a8a7b373d2af8b6e1c4c4a0638859c5e9ecd1'',
     TX_COUNT := Some 4661197, TX_COUNT_HEIGHT := Some 2114846, TX_PER_BLOCK := Some 10,
     VALUE_PER_COIN := 1000000, RPC_PORT := Some 19119\<rparr>"

definition Xaya_PEERS :: "string list" where
  "Xaya_PEERS =
     [''seeder.xaya.io s50002'',
      ''xaya.domob.eu s50002'']"

definition Xaya :: coin where
  "Xaya = (NameIndexAuxPoWMixin Coin)\<lparr>NAME := Some ''Xaya'', SHORTNAME := Some ''CHI'', NET := Some ''mainnet'',
     XPUB_VERBYTES := [0x04, 0x88, 0xb2, 0x1e], XPRV_VERBYTES := [0x04, 0x88, 0xad, 0xe4],
     P2PKH_VERBYTE := [0x1c], P2SH_VERBYTES := VTuple [[0x1e]], WIF_BYTE := [0x82],
     GENESIS_HASH := ''e5062d76e5f50c42f493826ac9920b63a8def2626fd70a5cec707ec47a4c4651'',
     TX_COUNT := Some 1147749, TX_COUNT_HEIGHT := Some 1030000, TX_PER_BLOCK := Some 2,
     DESERIALIZER := ''DeserializerXaya'', RPC_PORT := Some 8396, PEERS := Xaya_PEERS\<rparr>"

definition XayaTestnet :: coin where
  "XayaTestnet = Xaya\<lparr>SHORTNAME := Some ''XCH'', NET := Some ''testnet'', P2PKH_VERBYTE := [0x58],
     P2SH_VERBYTES := VTuple [[0x5a]], WIF_BYTE := [0xe6],
     GENESIS_HASH := ''5195fc01d0e23d70d1f929f21ec55f47e1c6ea1e66fae98ee44cbbc994509bba'',
     TX_COUNT := Some 51557, TX_COUNT_HEIGHT := Some 49000, TX_PER_BLOCK := Some 1, RPC_PORT := Some 18396,
     PEERS := []\<rparr>"

definition XayaRegtest :: coin where
  "XayaRegtest = XayaTestnet\<lparr>NET := Some ''regtest'',
     GENESIS_HASH := ''6f750b36d22f1dc3d0a6e483af45301022646dfc3b3ba2187865f5a7d6d83ab1'',
     RPC_PORT := Some 18493\<rparr>"

definition GravityZeroCoin :: coin where
  "GravityZeroCoin = (ScryptMixin Coin)\<lparr>NAME := Some ''GravityZeroCoin'', SHORTNAME := Some ''GZRO'', NET := Some ''mainnet'',
     P2PKH_VERBYTE := [0x26], WIF_BYTE := [0x26],
     GENESIS_HASH := ''0000028bfbf9ccaed8f28b3ca6b3ffe6b65e29490ab0e4430679bf41cc7c164f'',
     DAEMON := ''FakeEstimateLegacyRPCDaemon'', TX_COUNT := Some 100, TX_COUNT_HEIGHT := Some 747635,
     TX_PER_BLOCK := Some 2, RPC_PORT := Some 36442\<rparr>"

definition Simplicity :: coin where
  "Simplicity = Coin\<lparr>NAME := Some ''Simplicity'', SHORTNAME := Some ''SPL'', NET := Some ''mainnet'',
     XPUB_VERBYTES := [0x04, 0x44, 0xd5, 0xbc], XPRV_VERBYTES := [0x04, 0x44, 0xf0, 0xa3],
     P2PKH_VERBYTE := [0x12], WIF_BYTE := [0x5d],
     GENESIS_HASH := ''f4bbfc518aa3622dbeb8d2818a606b82c2b8b1ac2f28553ebdb6fc04d7abaccf'',
     RPC_PORT := Some 11958, TX_COUNT := Some 1726548, TX_COUNT_HEIGHT := Some 1040000,
     TX_PER_BLOCK := Some 5, REORG_LIMIT := 100, DESERIALIZER := ''DeserializerSimplicity''\<rparr>"

definition ElectraProtocol_PEERS :: "string list" where
  "ElectraProtocol_PEERS =
     [''electrumx1.electraprotocol.eu s t'',
      ''electrumx2.electraprotocol.eu s t'',
      ''electrumx3.electraprotocol.eu s t'',
      ''electrumx4.electraprotocol.eu s t'',
      ''electrumx5.electraprotocol.eu s t'']"

definition ElectraProtocol :: coin where
  "ElectraProtocol = Coin\<lparr>NAME := Some ''ElectraProtocol'', SHORTNAME := Some ''XEP'', NET := Some ''mainnet'',
     XPUB_VERBYTES := [0x04, 0x88, 0xb2, 0x1e], XPRV_VERBYTES := [0x04, 0x88, 0xad, 0xe4],
     P2PKH_VERBYTE := [0x37], WIF_BYTE := [0xa2],
     GENESIS_HASH := ''000000954c02f260a6db02c712557adcb5a7a8a0a9acfd3d3c2b3a427376c56f'',
     RPC_PORT := Some 16816, TX_COUNT := Some 264299, TX_COUNT_HEIGHT := Some 130000,
     TX_PER_BLOCK := Some 5, REORG_LIMIT := 1080, DESERIALIZER := ''DeserializerSegWit'',
     PEERS := ElectraProtocol_PEERS\<rparr>"

definition Myce :: coin where
  "Myce = Coin\<lparr>NAME := Some ''Myce'', SHORTNAME := Some ''YCE'', NET := Some ''mainnet'',
     XPUB_VERBYTES := [0x04, 0x88, 0xb2, 0x1e], XPRV_VERBYTES := [0x04, 0x88, 0xad, 0xe4],
     P2PKH_VERBYTE := [0x32], WIF_BYTE := [0x99],
     GENESIS_HASH := ''0000c74cc66c72cb1a327c5c1d4893ae5276aa50be49fb23cec21df1a2f20d87'',
     RPC_PORT := Some 23512, TX_COUNT := Some 1568977, TX_COUNT_HEIGHT := Some 774450,
     TX_PER_BLOCK := Some 3, REORG_LIMIT := 100, DESERIALIZER := ''DeserializerSimplicity''\<rparr>"

definition Navcoin :: coin where
  "Navcoin = Coin\<lparr>NAME := Some ''Navcoin'', SHORTNAME := Some ''NAV'', NET := Some ''mainnet'',
     XPUB_VERBYTES := [0x04, 0x88, 0xb2, 0x1e], XPRV_VERBYTES := [0x04, 0x88, 0xad, 0xe4],
     P2PKH_VERBYTE := [0x35], P2SH_VERBYTES := VTuple [[0x55]], WIF_BYTE := [0x96],
     GENESIS_HASH := ''00006a4e3e18c71c6d48ad6c261e2254fa764cf29607a4357c99b712dfbb8e6a'',
     DESERIALIZER := ''DeserializerTxTimeSegWitNavCoin'', TX_COUNT := Some 137641,
     TX_COUNT_HEIGHT := Some 3649662, TX_PER_BLOCK := Some 2, RPC_PORT := Some 44444, REORG_LIMIT := 1000\<rparr>"

definition Primecoin_PEERS :: "string list" where
  "Primecoin_PEERS =
     [''electrumx.primecoin.org s t'']"

definition Primecoin :: coin where
  "Primecoin = (PrimeChainPowMixin Coin)\<lparr>NAME := Some ''Primecoin'', SHORTNAME := Some ''XPM'', NET := Some ''mainnet'',
     P2PKH_VERBYTE := [0x17], P2SH_VERBYTES := VTuple [[0x53]], WIF_BYTE := [0x97],
     GENESIS_HASH := ''963d17ba4dc753138078a2f56afb3af9674e2546822badff26837db9a0152106'',
     DAEMON := ''FakeEstimateFeeDaemon'', TX_COUNT := Some 7138730, TX_COUNT_HEIGHT := Some 3639500,
     TX_PER_BLOCK := Some 2, RPC_PORT := Some 9912, REORG_LIMIT := 5000, PEERS := Primecoin_PEERS\<rparr>"

definition PrimecoinTestnet_PEERS :: "string list" where
  "PrimecoinTestnet_PEERS =
     [''electrumx.testnet.primecoin.org t'']"

definition PrimecoinTestnet :: coin where
  "PrimecoinTestnet = Primecoin\<lparr>NAME := Some ''PrimecoinTestnet'', SHORTNAME := Some ''tXPM'', NET := Some ''testnet'',
     P2PKH_VERBYTE := [0x6f], P2SH_VERBYTES := VTuple [[0xc4]], WIF_BYTE := [0xef],
     GENESIS_HASH := ''221156cf301bc3585e72de34fe1efdb6fbd703bc27cfc468faa1cdd889d0efa0'',
     RPC_PORT := Some 9914, PEERS := PrimecoinTestnet_PEERS\<rparr>"

definition Unobtanium :: coin where
  "Unobtanium = (AuxPowMixin Coin)\<lparr>NAME := Some ''Unobtanium'', SHORTNAME := Some ''UNO'', NET := Some ''mainnet'',
     XPUB_VERBYTES := [0x04, 0x88, 0xb2, 0x1e], XPRV_VERBYTES := [0x04, 0x88, 0xad, 0xe4],
     P2PKH_VERBYTE := [0x82], P2SH_VERBYTES := VTuple [[0x1e]], WIF_BYTE := [0xe0],
     GENESIS_HASH := ''000004c2fc5fffb810dccc197d603690099a68305232e552d96ccbe8e2c52b75'',
     TX_COUNT := Some 1, TX_COUNT_HEIGHT := Some 1, TX_PER_BLOCK := Some 1, RPC_PORT := Some 65535,
     REORG_LIMIT := 5000\<rparr>"

definition Linx :: coin where
  "Linx = Coin\<lparr>NAME := Some ''Linx'', SHORTNAME := Some ''LINX'', NET := Some ''mainnet'', P2PKH_VERBYTE := [0x4b],
     P2SH_VERBYTES := VTuple [[0x05]], WIF_BYTE := [0xcb],
     GENESIS_HASH := ''3bafea350a70f75e7a1cd279999faed71a51852aae88fed3c38553cecc810a92'',
     TX_COUNT := Some 1, TX_COUNT_HEIGHT := Some 1, TX_PER_BLOCK := Some 1, RPC_PORT := Some 9381,
     REORG_LIMIT := 5000\<rparr>"

definition Flashcoin :: coin where
  "Flashcoin = Coin\<lparr>NAME := Some ''Flashcoin'', SHORTNAME := Some ''FLASH'', NET := Some ''mainnet'',
     P2PKH_VERBYTE := [0x44], P2SH_VERBYTES := VTuple [[0x82]], WIF_BYTE := [0xc4],
     GENESIS_HASH := ''aa0cf4f5ce0a3c550ce5674c1e808c417cf5077b4e95bda1d6fbaeaf4258972b'',
     TX_COUNT := Some 1, TX_COUNT_HEIGHT := Some 1, TX_PER_BLOCK := Some 1, RPC_PORT := Some 9385,
     REORG_LIMIT := 5000\<rparr>"

definition Defcoin :: coin where
  "Defcoin = Coin\<lparr>NAME := Some ''Defcoin'', SHORTNAME := Some ''DEFC'', NET := Some ''mainnet'', P2PKH_VERBYTE := [0x1e],
     P2SH_VERBYTES := VBytes [0x05], WIF_BYTE := [0x9e],
     GENESIS_HASH := ''192047379f33ffd2bbbab3d53b9c4b9e9b72e48f888eadb3dcf57de95a6038ad'',
     TX_COUNT := Some 1, TX_COUNT_HEIGHT := Some 1, TX_PER_BLOCK := Some 1, RPC_PORT := Some 9386,
     REORG_LIMIT := 5000, DESERIALIZER := ''DeserializerAuxPowSegWit''\<rparr>"

definition Auroracoin :: coin where
  "Auroracoin = Coin\<lparr>NAME := Some ''Auroracoin'', SHORTNAME := Some ''AUR'', NET := Some ''mainnet'',
     P2PKH_VERBYTE := [0x17], P2SH_VERBYTES := VBytes [0x05], WIF_BYTE := [0xb0],
     GENESIS_HASH := ''2a8e100939494904af825b488596ddd536b3a96226ad02e0f7ab7ae472b27a8e'',
     TX_COUNT := Some 2800000, TX_COUNT_HEIGHT := Some 2778987, TX_PER_BLOCK := Some 1,
     RPC_PORT := Some 12341, REORG_LIMIT := 5000\<rparr>"

definition Smileycoin :: coin where
  "Smileycoin = Coin\<lparr>NAME := Some ''Smileycoin'', SHORTNAME := Some ''SMLY'', NET := Some ''mainnet'',
     P2PKH_VERBYTE := [0x19], P2SH_VERBYTES := VBytes [0x05], WIF_BYTE := [0xb0],
     GENESIS_HASH := ''660f734cf6c6d16111bde201bbd2122873f2f2c078b969779b9d4c99732354fd'',
     TX_COUNT := Some 1, TX_COUNT_HEIGHT := Some 1, TX_PER_BLOCK := Some 1, RPC_PORT := Some 9388,
     REORG_LIMIT := 5000\<rparr>"

definition Iop :: coin where
  "Iop = Coin\<lparr>NAME := Some ''Iop'', SHORTNAME := Some ''IOP'', NET := Some ''mainnet'', P2PKH_VERBYTE := [0x75],
     P2SH_VERBYTES := VTuple [[0xae]], WIF_BYTE := [0x31],
     GENESIS_HASH := ''00000000bf5f2ee556cb9be8be64e0776af14933438dbb1af72c41bfb6c82db3'',
     DESERIALIZER := ''DeserializerSegWit'', TX_COUNT := Some 1, TX_COUNT_HEIGHT := Some 1,
     TX_PER_BLOCK := Some 1, RPC_PORT := Some 8337, REORG_LIMIT := 5000\<rparr>"

definition Egulden :: coin where
  "Egulden = Coin\<lparr>NAME := Some ''Egulden'', SHORTNAME := Some ''EFL'', NET := Some ''mainnet'', P2PKH_VERBYTE := [0x30],
     P2SH_VERBYTES := VTuple [[0x05]], WIF_BYTE := [0xb0],
     GENESIS_HASH := ''6d39f28ad01a7edd3e2374b355cf8c7f8dbc1c5e4596ad3642fa6d10c2599217'',
     TX_COUNT := Some 13336629, TX_COUNT_HEIGHT := Some 1268206, TX_PER_BLOCK := Some 10,
     RPC_PORT := Some 9402, REORG_LIMIT := 5000\<rparr>"

definition Ixcoin :: coin where
  "Ixcoin = (AuxPowMixin Coin)\<lparr>NAME := Some ''ixcoin'', SHORTNAME := Some ''IXC'', NET := Some ''mainnet'', P2PKH_VERBYTE := [0x8a],
     P2SH_VERBYTES := VTuple [[0x05]], WIF_BYTE := [0x80],
     GENESIS_HASH := ''0000000001534ef8893b025b9c1da67250285e35c9f76cae36a4904fdf72c591'',
     TX_COUNT := Some 1, TX_COUNT_HEIGHT := Some 1, TX_PER_BLOCK := Some 1, RPC_PORT := Some 9406,
     REORG_LIMIT := 5000\<rparr>"

definition Batacoin :: coin where
  "Batacoin = Coin\<lparr>NAME := Some ''bata'', SHORTNAME := Some ''BTA'', NET := Some ''mainnet'', P2PKH_VERBYTE := [0x19],
     P2SH_VERBYTES := VTuple [[0x05]], WIF_BYTE := [0x99],
     GENESIS_HASH := ''b4bee36fd54a6176fd832f462641415c142d50e4b378f71c041870c2b1186bc8'',
     DESERIALIZER := ''DeserializerSegWit'', TX_COUNT := Some 1, TX_COUNT_HEIGHT := Some 1,
     TX_PER_BLOCK := Some 1, RPC_PORT := Some 9412, REORG_LIMIT := 5000\<rparr>"

definition Digitalcoin :: coin where
  "Digitalcoin = Coin\<lparr>NAME := Some ''digitalcoin'', SHORTNAME := Some ''DGC'', NET := Some ''mainnet'',
     P2PKH_VERBYTE := [0x1e], P2SH_VERBYTES := VTuple [[0x05]], WIF_BYTE := [0x9e],
     GENESIS_HASH := ''5e039e1ca1dbf128973bf6cff98169e40a1b194c3b91463ab74956f413b2f9c8'',
     TX_COUNT := Some 1, TX_COUNT_HEIGHT := Some 1, TX_PER_BLOCK := Some 1, RPC_PORT := Some 9413,
     REORG_LIMIT := 5000\<rparr>"

definition Cannacoin :: coin where
  "Cannacoin = Coin\<lparr>NAME := Some ''cannacoin'', SHORTNAME := Some ''CCN'', NET := Some ''mainnet'',
     P2PKH_VERBYTE := [0x1c], P2SH_VERBYTES := VTuple [[0x05]], WIF_BYTE := [0xbd],
     GENESIS_HASH := ''f1b4cdf03c86099a0758f1c018d1a10bf05afab436c92b93b42bb88970de9821'',
     DESERIALIZER := ''DeserializerReddcoin'', TX_COUNT := Some 1, TX_COUNT_HEIGHT := Some 1,
     TX_PER_BLOCK := Some 1, RPC_PORT := Some 1234, REORG_LIMIT := 5000\<rparr>"

definition Europecoin :: coin where
  "Europecoin = Coin\<lparr>NAME := Some ''europecoin'', SHORTNAME := Some ''ERC'', NET := Some ''mainnet'',
     P2PKH_VERBYTE := [0x21], P2SH_VERBYTES := VTuple [[0x05]], WIF_BYTE := [0xa8],
     GENESIS_HASH := ''000d0da26987ead011c5d568e627f7e3d4a4f83a0b280b1134d8e7e366377f9a'',
     BASIC_HEADER_SIZE := 88, TX_COUNT := Some 1, TX_COUNT_HEIGHT := Some 1, TX_PER_BLOCK := Some 1,
     RPC_PORT := Some 9412, REORG_LIMIT := 5000\<rparr>"

definition Adcoin :: coin where
  "Adcoin = Coin\<lparr>NAME := Some ''Adcoin'', SHORTNAME := Some ''ACC'', NET := Some ''mainnet'', P2PKH_VERBYTE := [0x1e],
     P2SH_VERBYTES := VTuple [[0x0d]], WIF_BYTE := [0x97],
     GENESIS_HASH := ''000000fc5276647fd959f718c9526f87f4858c4ef62f2e29d3772e4e37040a25'',
     BASIC_HEADER_SIZE := 112, TX_COUNT := Some 1, TX_COUNT_HEIGHT := Some 1, TX_PER_BLOCK := Some 1,
     RPC_PORT := Some 9416, REORG_LIMIT := 5000\<rparr>"

definition Lynx :: coin where
  "Lynx = Coin\<lparr>NAME := Some ''Lynx'', SHORTNAME := Some ''LYNX'', NET := Some ''mainnet'', P2PKH_VERBYTE := [0x2d],
     P2SH_VERBYTES := VTuple [[0x16]], WIF_BYTE := [0xad],
     GENESIS_HASH := ''984b30fc9bb5e5ff424ad7f4ec1930538a7b14a2d93e58ad7976c23154ea4a76'',
     DESERIALIZER := ''DeserializerSegWit'', TX_COUNT := Some 1, TX_COUNT_HEIGHT := Some 1,
     TX_PER_BLOCK := Some 1, RPC_PORT := Some 9139, REORG_LIMIT := 5000\<rparr>"

definition LitecoinCash :: coin where
  "LitecoinCash = Coin\<lparr>NAME := Some ''LitecoinCash'', SHORTNAME := Some ''LCC'', NET := Some ''mainnet'',
     P2PKH_VERBYTE := [0x1c], P2SH_VERBYTES := VTuple [[0x32], [0x05]], WIF_BYTE := [0xb0],
     GENESIS_HASH := ''12a765e31ffd4059bada1e25190f6e98c99d9714d334efa41a195a7e7e04bfe2'',
     DESERIALIZER := ''DeserializerSegWit'', TX_COUNT := Some 1, TX_COUNT_HEIGHT := Some 1,
     TX_PER_BLOCK := Some 1, RPC_PORT := Some 9140, REORG_LIMIT := 5000\<rparr>"

definition BitcoinPrivate :: coin where
  "BitcoinPrivate = (EquihashMixin Coin)\<lparr>NAME := Some ''BitcoinPrivate'', SHORTNAME := Some ''BTCP'', NET := Some ''mainnet'',
     P2PKH_VERBYTE := [0x13, 0x25], P2SH_VERBYTES := VTuple [[0x13, 0xaf]], WIF_BYTE := [0x80],
     GENESIS_HASH := ''0007104ccda289427919efc39dc9e4d499804b7bebc22df55f8b834301260602'',
     DESERIALIZER := ''DeserializerZcash'', TX_COUNT := Some 329196, TX_COUNT_HEIGHT := Some 68379,
     TX_PER_BLOCK := Some 5, RPC_PORT := Some 9335, REORG_LIMIT := 5000\<rparr>"

definition Aryacoin :: coin where
  "Aryacoin = Coin\<lparr>NAME := Some ''aryacoin'', SHORTNAME := Some ''AYA'', NET := Some ''mainnet'',
     XPUB_VERBYTES := [0x01, 0x9d, 0x9c, 0xfe], XPRV_VERBYTES := [0x01, 0x9d, 0xa4, 0x62],
     P2PKH_VERBYTE := [0x17], P2SH_VERBYTES := VTuple [[0x6f]], WIF_BYTE := [0xb0],
     GENESIS_HASH := ''b553727635006d7faade229d152482dfb9da7822d41cf0cad9ffa82a54f67803'',
     DESERIALIZER := ''DeserializerSegWit'', TX_COUNT := Some 1, TX_COUNT_HEIGHT := Some 1,
     TX_PER_BLOCK := Some 10, RPC_PORT := Some 9151, REORG_LIMIT := 800\<rparr>"

definition Donu :: coin where
  "Donu = Coin\<lparr>NAME := Some ''donu'', SHORTNAME := Some ''DONU'', NET := Some ''mainnet'', P2PKH_VERBYTE := [0x35],
     P2SH_VERBYTES := VTuple [[0x05]], WIF_BYTE := [0xb1], XPUB_VERBYTES := [0x04, 0x88, 0xb2, 0x1e],
     XPRV_VERBYTES := [0x04, 0x88, 0xad, 0xe4],
     GENESIS_HASH := ''5f7f26e24291f5be2351e1dcdab18bf94cee718940e6b9f2fbb46227434c3f12'',
     DESERIALIZER := ''DeserializerSegWit'', TX_COUNT := Some 1, TX_COUNT_HEIGHT := Some 1,
     TX_PER_BLOCK := Some 10, RPC_PORT := Some 26381, REORG_LIMIT := 800\<rparr>"

definition Quebecoin :: coin where
  "Quebecoin = (AuxPowMixin Coin)\<lparr>NAME := Some ''Quebecoin'', SHORTNAME := Some ''QBC'', NET := Some ''mainnet'',
     XPUB_VERBYTES := [0x04, 0x88, 0xb2, 0x1e], XPRV_VERBYTES := [0x04, 0x88, 0xad, 0xe4],
     P2PKH_VERBYTE := [0x3a], P2SH_VERBYTES := VTuple [[0x05]], WIF_BYTE := [0xba],
     GENESIS_HASH := ''000008c2d57759af6462352ee9f4923d97401cb599a9318e6595a2a74c26ea74'',
     DESERIALIZER := ''DeserializerAuxPowSegWit'', TX_COUNT := Some 1, TX_COUNT_HEIGHT := Some 1,
     TX_PER_BLOCK := Some 20, REORG_LIMIT := 2000, RPC_PORT := Some 10890\<rparr>"

definition Beyondcoin :: coin where
  "Beyondcoin = Coin\<lparr>NAME := Some ''Beyondcoin'', SHORTNAME := Some ''BYND'', NET := Some ''mainnet'',
     XPUB_VERBYTES := [0xff, 0x88, 0xb2, 0x1e], XPRV_VERBYTES := [0xff, 0x88, 0xad, 0xe4],
     P2PKH_VERBYTE := [0x19], P2SH_VERBYTES := VTuple [[0x1a], [0x05]], WIF_BYTE := [0xb0],
     GENESIS_HASH := ''0a9e3b5fce3aee6e04f06dfd6ad380a6c0f9d8420f53a4ca97845756ee5d56e7'',
     DESERIALIZER := ''DeserializerSegWit'', TX_COUNT := Some 287000, TX_COUNT_HEIGHT := Some 133700,
     TX_PER_BLOCK := Some 2, RPC_PORT := Some 10332, REORG_LIMIT := 5000\<rparr>"

definition Syscoin :: coin where
  "Syscoin = (AuxPowMixin Coin)\<lparr>NAME := Some ''Syscoin'', SHORTNAME := Some ''SYS'', NET := Some ''mainnet'', P2PKH_VERBYTE := [0x3f],
     P2SH_VERBYTES := VTuple [[0x05]], WIF_BYTE := [0x80],
     GENESIS_HASH := ''0000022642db0346b6e01c2a397471f4f12e65d4f4251ec96c1f85367a61a7ab'',
     DESERIALIZER := ''DeserializerAuxPowSegWit'', TX_COUNT := Some 911232, TX_COUNT_HEIGHT := Some 954572,
     TX_PER_BLOCK := Some 1, RPC_PORT := Some 8370, REORG_LIMIT := 2000, CHUNK_SIZE := 360\<rparr>"

definition Lbry :: coin where
  "Lbry = Coin\<lparr>NAME := Some ''Lbry'', SHORTNAME := Some ''LBC'', NET := Some ''mainnet'',
     XPUB_VERBYTES := [0x01, 0x9c, 0x35, 0x4f], XPRV_VERBYTES := [0x01, 0x9c, 0x31, 0x18],
     P2PKH_VERBYTE := [0x55], P2SH_VERBYTES := VTuple [[0x7a]], WIF_BYTE := [0x1c],
     GENESIS_HASH := ''9c89283ba0f3227f6c03b70216b9f665f0118d5e0fa729cedf4fb34d6a34f463'',
     DESERIALIZER := ''DeserializerSegWit'', BASIC_HEADER_SIZE := 112, TX_COUNT := Some 50792939,
     TX_COUNT_HEIGHT := Some 1178612, TX_PER_BLOCK := Some 43, RPC_PORT := Some 9245, REORG_LIMIT := 5000\<rparr>"

definition Garlicoin_PEERS :: "string list" where
  "Garlicoin_PEERS =
     [''us.node.garlico.in s'',
      ''ca.node.garlico.in s t'',
      ''sg.node.garlico.in s'',
      ''de.node.garlico.in s'',
      ''fr.garlium.crapules.org s'',
      ''uk.garlium.crapules.org s'',
      ''pl.garlium.crapules.org s'',
      ''ca.garlium.crapules.org s'',
      ''au.garlium.crapules.org s'',
      ''electrum.hotgrlc.com s t'',
      ''electrum.maxpuig.com s t'']"

definition Garlicoin :: coin where
  "Garlicoin = Coin\<lparr>NAME := Some ''Garlicoin'', SHORTNAME := Some ''GRLC'', NET := Some ''mainnet'',
     XPUB_VERBYTES := [0x04, 0x88, 0xb2, 0x1e], XPRV_VERBYTES := [0x04, 0x88, 0xad, 0xe4],
     P2PKH_VERBYTE := [0x26], P2SH_VERBYTES := VTuple [[0x32], [0x05]], WIF_BYTE := [0xb0],
     GENESIS_HASH := ''2ada80bf415a89358d697569c96eb98cdbf4c3b8878ac5722c01284492e27228'',
     DESERIALIZER := ''DeserializerSegWit'', TX_COUNT := Some 1031869, TX_COUNT_HEIGHT := Some 2343659,
     TX_PER_BLOCK := Some 2, RPC_PORT := Some 42068, REORG_LIMIT := 800, PEERS := Garlicoin_PEERS\<rparr>"

definition Clam :: coin where
  "Clam = (ScryptMixin Coin)\<lparr>NAME := Some ''Clam'', SHORTNAME := Some ''CLAM'', NET := Some ''mainnet'',
     XPUB_VERBYTES := [0x04, 0x88, 0xb2, 0x1e], XPRV_VERBYTES := [0x04, 0x88, 0xad, 0xe4],
     P2PKH_VERBYTE := [0x89], P2SH_VERBYTES := VTuple [[0x0d]], WIF_BYTE := [0x85],
     GENESIS_HASH := ''00000c3ce6b3d823a35224a39798eca9ad889966aeb5a9da7b960ffb9869db35'',
     DESERIALIZER := ''DeserializerTrezarcoin'', DAEMON := ''FakeEstimateFeeDaemon'',
     TX_COUNT := Some 10553627, TX_COUNT_HEIGHT := Some 4691882, TX_PER_BLOCK := Some 2,
     RPC_PORT := Some 30174, REORG_LIMIT := 2000\<rparr>"

definition Diabase :: coin where
  "Diabase = Dash\<lparr>NAME := Some ''Diabase'', SHORTNAME := Some ''DIAC'', NET := Some ''mainnet'',
     GENESIS_HASH := ''0000057be3e5420fcefa43eda26de60a3802bfc55a967443b07a41c133e0008f'',
     TX_COUNT := Some 25640, TX_COUNT_HEIGHT := Some 181237, TX_PER_BLOCK := Some 2, RPC_PORT := Some 7675\<rparr>"

definition Riecoin :: coin where
  "Riecoin = Coin\<lparr>NAME := Some ''Riecoin'', SHORTNAME := Some ''RIC'', NET := Some ''mainnet'', P2PKH_VERBYTE := [0x3c],
     P2SH_VERBYTES := VTuple [[0x41]], WIF_BYTE := [0xbc],
     GENESIS_HASH := ''e1ea18d0676ef9899fbc78ef428d1d26a2416d0f0441d46668d33bcb41275740'',
     DESERIALIZER := ''DeserializerSegWit'', BASIC_HEADER_SIZE := 112, TX_COUNT := Some 920177,
     TX_COUNT_HEIGHT := Some 2108109, TX_PER_BLOCK := Some 2, RPC_PORT := Some 28332, REORG_LIMIT := 5000\<rparr>"

definition Pepecoin_PEERS :: "string list" where
  "Pepecoin_PEERS =
     [''electrum.pepeblocks.com t50001 s50002'',
      ''electrum.pepelum.site t50001 s50002'']"

definition Pepecoin :: coin where
  "Pepecoin = (AuxPowMixin Coin)\<lparr>NAME := Some ''Pepecoin'', SHORTNAME := Some ''PEP'', NET := Some ''mainnet'',
     XPUB_VERBYTES := [0x02, 0xfa, 0xca, 0xfd], XPRV_VERBYTES := [0x02, 0xfa, 0xc3, 0x98],
     P2PKH_VERBYTE := [0x38], P2SH_VERBYTES := VTuple [[0x16]], WIF_BYTE := [0x9e],
     GENESIS_HASH := ''37981c0c48b8d48965376c8a42ece9a0838daadb93ff975cb091f57f8c2a5faa'',
     PEERS := Pepecoin_PEERS, TX_COUNT := Some 121100, TX_COUNT_HEIGHT := Some 86777,
     TX_PER_BLOCK := Some 20, REORG_LIMIT := 2000, DESERIALIZER := ''DeserializerAuxPowSegWit''\<rparr>"

definition Ferrite_PEERS :: "string list" where
  "Ferrite_PEERS =
     [''enode1.ferritecoin.org s t'',
      ''enode2.ferritecoin.org s t'',
      ''enode3.ferritecoin.org s t'']"

definition Ferrite :: coin where
  "Ferrite = Coin\<lparr>NAME := Some ''Ferrite'', SHORTNAME := Some ''FEC'', NET := Some ''mainnet'',
     XPUB_VERBYTES := [0x04, 0x88, 0xb2, 0x1e], XPRV_VERBYTES := [0x04, 0x88, 0xad, 0xe4],
     P2PKH_VERBYTE := [0x24], P2SH_VERBYTES := VTuple [[0x23], [0x05]], WIF_BYTE := [0xa3],
     GENESIS_HASH := ''46ca17415c18e43f5292034ebf9bbd10de80a61fc6dc17180e6609f33d3b48f3'',
     DESERIALIZER := ''DeserializerSegWit'', TX_COUNT := Some 164010, TX_COUNT_HEIGHT := Some 150251,
     TX_PER_BLOCK := Some 2, RPC_PORT := Some 9573, REORG_LIMIT := 800, PEERS := Ferrite_PEERS\<rparr>"

definition FerriteTestnet_PEERS :: "string list" where
  "FerriteTestnet_PEERS =
     [''enode1.ferritecoin.org s t'',
      ''enode2.ferritecoin.org s t'',
      ''enode3.ferritecoin.org s t'']"

definition FerriteTestnet :: coin where
  "FerriteTestnet = Ferrite\<lparr>SHORTNAME := Some ''TFE'', NET := Some ''testnet'', XPUB_VERBYTES := [0x04, 0x35, 0x87, 0xcf],
     XPRV_VERBYTES := [0x04, 0x35, 0x83, 0x94], P2PKH_VERBYTE := [0x6f],
     P2SH_VERBYTES := VTuple [[0x23], [0xc4]], WIF_BYTE := [0xef],
     GENESIS_HASH := ''7a9f43d6e86eefa66e2b79918b2235c9362106f3d9f11f37f7a33450ceae73c1'',
     TX_COUNT := Some 12445, TX_COUNT_HEIGHT := Some 6290, TX_PER_BLOCK := Some 2, RPC_PORT := Some 19573,
     REORG_LIMIT := 4000, PEERS := FerriteTestnet_PEERS\<rparr>"

end
