(* ===== verification/CoinTable.thy ===== *)
theory CoinTable
  imports CoinTable4
begin

section \<open>All coins\<close>

text \<open>\<open>subclasses(Coin)\<close>: the classes of the module in the order of their names.\<close>

definition coin_table :: "coin list" where
  "coin_table =
    [Adcoin, Argentum, ArgentumTestnet, Aryacoin, Auroracoin, Axe, AxeRegtest, AxeTestnet, Batacoin,
     Beyondcoin, Bitbay, Bitcoin, BitcoinAtom, BitcoinCash, BitcoinCashRegtest, BitcoinCashTestnet,
     BitcoinDiamond, BitcoinGold, BitcoinGoldRegtest, BitcoinGoldTestnet, BitcoinNolnet, BitcoinPlus,
     BitcoinPrivate, BitcoinRegtest, BitcoinSV, BitcoinSVRegtest, BitcoinSVScalingTestnet,
     BitcoinSVTestnet, BitcoinSignet, BitcoinTestnet, BitcoinTestnet4, BitcoinZ, Bitcoinzero, Bitcore,
     Bitg, Bitsend, Bitzeny, Blackcoin, BlackcoinTestnet, Bolivarcoin, CanadaeCoin, Cannacoin, Chips,
     Clam, ColossusXT, Crown, Dash, DashRegtest, DashTestnet, Decred, DecredTestnet, DeepOnion,
     Defcoin, Denarius, DenariusTestnet, Diabase, DigiByte, DigiByteTestnet, Digitalcoin, Dogecoin,
     DogecoinTestnet, Donu, ECCoin, EXOS, EXOSTestnet, Egulden, Einsteinium, Electra, ElectraProtocol,
     Emercoin, Europecoin, FairCoin, Feathercoin, Ferrite, FerriteTestnet, FixedCoin, Flashcoin,
     Fujicoin, GameCredits, Garlicoin, GravityCoin, GravityZeroCoin, Groestlcoin, GroestlcoinRegtest,
     GroestlcoinSignet, GroestlcoinTestnet, HOdlcoin, Hush, Iop, Ixcoin, Komodo, Koto, KotoTestnet,
     Lbry, Linx, Litecoin, LitecoinCash, LitecoinRegtest, LitecoinTestnet, Lynx, MNPCoin, Machinecoin,
     Minexcoin, Monacoin, MonacoinRegtest, MonacoinTestnet, Monaize, Myce, Myriadcoin,
     MyriadcoinTestnet, NIX, NIXTestnet, Namecoin, NamecoinRegtest, NamecoinTestnet, Navcoin, Neblio,
     Newyorkcoin, NewyorkcoinTestnet, Noir, Odin, Onixcoin, Pac, PacTestnet, Peercoin, PeercoinTestnet,
     Pepecoin, Pivx, PivxTestnet, Polis, Primecoin, PrimecoinTestnet, Quebecoin, Ravencoin,
     RavencoinTestnet, Reddcoin, Riecoin, Sibcoin, SibcoinTestnet, Simplicity, SmartCash, Smileycoin,
     SnowGem, Sumcoin, Syscoin, TokenPay, Trezarcoin, UFO, Unitus, Unobtanium, Verge, Vertcoin,
     VertcoinTestnet, Verus, Viacoin, ViacoinTestnet, ViacoinTestnetSegWit, Xaya, XayaRegtest,
     XayaTestnet, Xuez, Zcash, ZcashTestnet, Zclassic, Zcoin, ZcoinTestnet, ZelCash, Zero, tBitg]"

lemmas coin_class_defs =
  BitcoinMixin_def Bitcoin_def FixedCoin_def BitcoinTestnetMixin_def BitcoinTestnet_def
  BitcoinRegtest_def BitcoinSignet_def BitcoinTestnet4_def AuxPowMixin_def EquihashMixin_def
  ScryptMixin_def KomodoMixin_def NameIndexMixin_def NameIndexAuxPoWMixin_def
  PrimeChainPowMixin_def Verge_def HOdlcoin_def BitcoinSV_def BitcoinCash_def BitcoinGold_def
  BitcoinGoldTestnet_def BitcoinGoldRegtest_def BitcoinDiamond_def Emercoin_def
  BitcoinSVTestnet_def BitcoinSVScalingTestnet_def BitcoinCashTestnet_def BitcoinSVRegtest_def
  BitcoinNolnet_def Sumcoin_def Litecoin_def LitecoinTestnet_def LitecoinRegtest_def
  BitcoinCashRegtest_def Viacoin_def ViacoinTestnet_def ViacoinTestnetSegWit_def GravityCoin_def
  Bitcoinzero_def Unitus_def Namecoin_def NamecoinTestnet_def NamecoinRegtest_def Dogecoin_def
  DogecoinTestnet_def Dash_def DashTestnet_def DashRegtest_def Argentum_def ArgentumTestnet_def
  DigiByte_def DigiByteTestnet_def FairCoin_def Zcash_def ZcashTestnet_def SnowGem_def Zero_def
  BitcoinZ_def ZelCash_def Zclassic_def Koto_def KotoTestnet_def Komodo_def Hush_def Monaize_def
  Verus_def Einsteinium_def Blackcoin_def BlackcoinTestnet_def Bitbay_def DeepOnion_def
  Peercoin_def PeercoinTestnet_def Trezarcoin_def Reddcoin_def TokenPay_def Vertcoin_def
  VertcoinTestnet_def Monacoin_def MonacoinTestnet_def MonacoinRegtest_def Crown_def Fujicoin_def
  Neblio_def Bitzeny_def CanadaeCoin_def Denarius_def DenariusTestnet_def Sibcoin_def
  SibcoinTestnet_def Chips_def Feathercoin_def UFO_def Newyorkcoin_def NewyorkcoinTestnet_def
  Bitcore_def GameCredits_def Machinecoin_def BitcoinAtom_def Decred_def DecredTestnet_def Axe_def
  AxeTestnet_def AxeRegtest_def Xuez_def Odin_def Pac_def PacTestnet_def Zcoin_def
  ZcoinTestnet_def Polis_def MNPCoin_def ColossusXT_def Minexcoin_def Groestlcoin_def
  GroestlcoinTestnet_def GroestlcoinRegtest_def GroestlcoinSignet_def Pivx_def PivxTestnet_def
  Bitg_def tBitg_def EXOS_def EXOSTestnet_def SmartCash_def NIX_def NIXTestnet_def Noir_def
  BitcoinPlus_def Myriadcoin_def MyriadcoinTestnet_def Bitsend_def Ravencoin_def
  RavencoinTestnet_def Bolivarcoin_def Onixcoin_def Electra_def ECCoin_def Xaya_def
  XayaTestnet_def XayaRegtest_def GravityZeroCoin_def Simplicity_def ElectraProtocol_def Myce_def
  Navcoin_def Primecoin_def PrimecoinTestnet_def Unobtanium_def Linx_def Flashcoin_def Defcoin_def
  Auroracoin_def Smileycoin_def Iop_def Egulden_def Ixcoin_def Batacoin_def Digitalcoin_def
  Cannacoin_def Europecoin_def Adcoin_def Lynx_def LitecoinCash_def BitcoinPrivate_def
  Aryacoin_def Donu_def Quebecoin_def Beyondcoin_def Syscoin_def Lbry_def Garlicoin_def Clam_def
  Diabase_def Riecoin_def Pepecoin_def Ferrite_def FerriteTestnet_def

text \<open>What addressing needs of the version bytes of a coin, and its key in the table.\<close>

definition verbytes_ok :: "coin \<Rightarrow> bool" where
  "verbytes_ok c \<longleftrightarrow> P2PKH_VERBYTE c \<noteq> [] \<and>
     (case P2SH_VERBYTES c of VTuple l \<Rightarrow> [] \<notin> set l \<and> P2PKH_VERBYTE c \<notin> set l
      | VBytes b \<Rightarrow> \<not> sublist (P2PKH_VERBYTE c) b)"

lemma sublist_single [simp]: "sublist [x] [y] \<longleftrightarrow> x = y"
  by (auto simp: sublist_def Cons_eq_append_conv append_eq_Cons_conv)

lemma coin_table_verbytes: "list_all verbytes_ok coin_table"
  by (simp add: coin_table_def verbytes_ok_def coin_class_defs Coin_def)

lemma coin_table_attrs:
  "list_all (\<lambda>c. NAME c \<noteq> None \<and> NET c \<noteq> None \<and> TX_COUNT c \<noteq> None \<and> TX_COUNT_HEIGHT c \<noteq> None \<and> TX_PER_BLOCK c \<noteq> None)
     coin_table"
  by (simp add: coin_table_def coin_class_defs Coin_def)

lemma coin_table_names:
  "map (\<lambda>c. (the (NAME c), the (NET c))) coin_table =
    [(''Adcoin'', ''mainnet''), (''Argentum'', ''mainnet''), (''Argentum'', ''testnet''),
     (''aryacoin'', ''mainnet''), (''Auroracoin'', ''mainnet''), (''Axe'', ''mainnet''),
     (''Axe'', ''regtest''), (''Axe'', ''testnet''), (''bata'', ''mainnet''),
     (''Beyondcoin'', ''mainnet''), (''Bitbay'', ''mainnet''), (''Bitcoin'', ''mainnet''),
     (''BitcoinAtom'', ''mainnet''), (''BitcoinCash'', ''mainnet''), (''BitcoinCash'', ''regtest''),
     (''BitcoinCash'', ''testnet''), (''BitcoinDiamond'', ''mainnet''), (''BitcoinGold'', ''mainnet''),
     (''BitcoinGold'', ''regtest''), (''BitcoinGold'', ''testnet''), (''BitcoinCash'', ''nolnet''),
     (''BitcoinPlus'', ''mainnet''), (''BitcoinPrivate'', ''mainnet''), (''Bitcoin'', ''regtest''),
     (''BitcoinSV'', ''mainnet''), (''BitcoinSV'', ''regtest''), (''BitcoinSV'', ''scalingtest''),
     (''BitcoinSV'', ''testnet''), (''Bitcoin'', ''signet''), (''Bitcoin'', ''testnet''),
     (''Bitcoin'', ''testnet4''), (''BitcoinZ'', ''mainnet''), (''Bitcoinzero'', ''mainnet''),
     (''Bitcore'', ''mainnet''), (''BitcoinGreen'', ''mainnet''), (''Bitsend'', ''mainnet''),
     (''Bitzeny'', ''mainnet''), (''Blackcoin'', ''mainnet''), (''BlackcoinTestnet'', ''testnet''),
     (''Bolivarcoin'', ''mainnet''), (''CanadaeCoin'', ''mainnet''), (''cannacoin'', ''mainnet''),
     (''Chips'', ''mainnet''), (''Clam'', ''mainnet''), (''ColossusXT'', ''mainnet''),
     (''Crown'', ''mainnet''), (''Dash'', ''mainnet''), (''Dash'', ''regtest''),
     (''Dash'', ''testnet''), (''Decred'', ''mainnet''), (''Decred'', ''testnet''),
     (''DeepOnion'', ''mainnet''), (''Defcoin'', ''mainnet''), (''Denarius'', ''mainnet''),
     (''Denarius'', ''testnet''), (''Diabase'', ''mainnet''), (''DigiByte'', ''mainnet''),
     (''DigiByte'', ''testnet''), (''digitalcoin'', ''mainnet''), (''Dogecoin'', ''mainnet''),
     (''Dogecoin'', ''testnet''), (''donu'', ''mainnet''), (''ECCoin'', ''mainnet''),
     (''EXOS'', ''mainnet''), (''EXOS'', ''testnet''), (''Egulden'', ''mainnet''),
     (''Einsteinium'', ''mainnet''), (''Electra'', ''mainnet''), (''ElectraProtocol'', ''mainnet''),
     (''Emercoin'', ''mainnet''), (''europecoin'', ''mainnet''), (''FairCoin'', ''mainnet''),
     (''Feathercoin'', ''mainnet''), (''Ferrite'', ''mainnet''), (''Ferrite'', ''testnet''),
     (''FixedCoin'', ''mainnet''), (''Flashcoin'', ''mainnet''), (''Fujicoin'', ''mainnet''),
     (''GameCredits'', ''mainnet''), (''Garlicoin'', ''mainnet''), (''GravityCoin'', ''mainnet''),
     (''GravityZeroCoin'', ''mainnet''), (''Groestlcoin'', ''mainnet''),
     (''Groestlcoin'', ''regtest''), (''Groestlcoin'', ''signet''), (''Groestlcoin'', ''testnet''),
     (''HOdlcoin'', ''mainnet''), (''Hush'', ''mainnet''), (''Iop'', ''mainnet''),
     (''ixcoin'', ''mainnet''), (''Komodo'', ''mainnet''), (''Koto'', ''mainnet''),
     (''Koto'', ''testnet''), (''Lbry'', ''mainnet''), (''Linx'', ''mainnet''),
     (''Litecoin'', ''mainnet''), (''LitecoinCash'', ''mainnet''), (''Litecoin'', ''regtest''),
     (''Litecoin'', ''testnet''), (''Lynx'', ''mainnet''), (''MNPCoin'', ''mainnet''),
     (''Machinecoin'', ''mainnet''), (''Minexcoin'', ''mainnet''), (''Monacoin'', ''mainnet''),
     (''Monacoin'', ''regtest''), (''Monacoin'', ''testnet''), (''Monaize'', ''mainnet''),
     (''Myce'', ''mainnet''), (''Myriadcoin'', ''mainnet''), (''Myriadcoin'', ''testnet''),
     (''NIX'', ''mainnet''), (''NIX'', ''testnet''), (''Namecoin'', ''mainnet''),
     (''Namecoin'', ''regtest''), (''Namecoin'', ''testnet''), (''Navcoin'', ''mainnet''),
     (''Neblio'', ''mainnet''), (''Newyorkcoin'', ''mainnet''), (''Newyorkcoin'', ''testnet''),
     (''Noir'', ''mainnet''), (''ODIN'', ''mainnet''), (''Onixcoin'', ''mainnet''),
     (''PAC'', ''mainnet''), (''PAC'', ''testnet''), (''Peercoin'', ''mainnet''),
     (''PeercoinTestnet'', ''testnet''), (''Pepecoin'', ''mainnet''), (''PIVX'', ''mainnet''),
     (''PIVX'', ''testnet''), (''Polis'', ''mainnet''), (''Primecoin'', ''mainnet''),
     (''PrimecoinTestnet'', ''testnet''), (''Quebecoin'', ''mainnet''), (''Ravencoin'', ''mainnet''),
     (''Ravencoin'', ''testnet''), (''Reddcoin'', ''mainnet''), (''Riecoin'', ''mainnet''),
     (''Sibcoin'', ''mainnet''), (''Sibcoin'', ''testnet''), (''Simplicity'', ''mainnet''),
     (''SmartCash'', ''mainnet''), (''Smileycoin'', ''mainnet''), (''SnowGem'', ''mainnet''),
     (''Sumcoin'', ''mainnet''), (''Syscoin'', ''mainnet''), (''TokenPay'', ''mainnet''),
     (''Trezarcoin'', ''mainnet''), (''UniformFiscalObject'', ''mainnet''), (''Unitus'', ''mainnet''),
     (''Unobtanium'', ''mainnet''), (''Verge'', ''mainnet''), (''Vertcoin'', ''mainnet''),
     (''Vertcoin'', ''testnet''), (''Verus'', ''mainnet''), (''Viacoin'', ''mainnet''),
     (''Viacoin'', ''testnet''), (''Viacoin'', ''testnet-segwit''), (''Xaya'', ''mainnet''),
     (''Xaya'', ''regtest''), (''Xaya'', ''testnet''), (''Xuez'', ''mainnet''),
     (''Zcash'', ''mainnet''), (''Zcash'', ''testnet''), (''Zclassic'', ''mainnet''),
     (''Zcoin'', ''mainnet''), (''Zcoin'', ''testnet''), (''ZelCash'', ''mainnet''),
     (''Zero'', ''mainnet''), (''BitcoinGreen'', ''testnet'')]"
  by (simp add: coin_table_def coin_class_defs Coin_def)

definition coin_key :: "coin \<Rightarrow> string \<times> string" where
  "coin_key c = (lower (the (NAME c)), lower (the (NET c)))"

lemma of_char_bits:
  "of_char (Char b0 b1 b2 b3 b4 b5 b6 b7) = of_bool b0 + 2 * of_bool b1 + 4 * of_bool b2 + 8 * of_bool b3 + 16 * of_bool b4
    + 32 * of_bool b5 + 64 * of_bool b6 + (128 * of_bool b7 :: nat)"
  by (simp add: of_char_Char)

lemma upper_case_bits:
  "65 \<le> (of_char (Char b0 b1 b2 b3 b4 b5 b6 b7) :: nat) \<and> (of_char (Char b0 b1 b2 b3 b4 b5 b6 b7) :: nat) \<le> 90 \<longleftrightarrow>
   b6 \<and> \<not> b7 \<and> \<not> b5 \<and> (b0 \<or> b1 \<or> b2 \<or> b3 \<or> b4) \<and> \<not> (b4 \<and> b3 \<and> (b2 \<or> b1 \<and> b0))"
proof -
  have le: "of_bool b \<le> (1 :: nat)" for b by simp
  show ?thesis unfolding of_char_bits
    using le [of b0] le [of b1] le [of b2] le [of b3] le [of b4] le [of b5]
    by (cases b7; cases b6; cases b5; cases b4; cases b3) (auto simp: of_bool_def split: if_splits)
qed

lemma lower_code:
  "lower (Char b0 b1 b2 b3 b4 b5 b6 b7 # s) =
    Char b0 b1 b2 b3 b4 (b5 \<or> (b6 \<and> \<not> b7 \<and> (b0 \<or> b1 \<or> b2 \<or> b3 \<or> b4) \<and> \<not> (b4 \<and> b3 \<and> (b2 \<or> b1 \<and> b0)))) b6 b7 # lower s"
  "lower [] = []"
proof -
  have up: "char_of (of_char (Char b0 b1 b2 b3 b4 False b6 b7) + 32 :: nat) = Char b0 b1 b2 b3 b4 True b6 b7"
  proof -
    have "of_char (Char b0 b1 b2 b3 b4 False b6 b7) + 32 = (of_char (Char b0 b1 b2 b3 b4 True b6 b7) :: nat)"
      unfolding of_char_bits by simp
    then show ?thesis by (simp only: char_of_char)
  qed
  show "lower (Char b0 b1 b2 b3 b4 b5 b6 b7 # s) =
    Char b0 b1 b2 b3 b4 (b5 \<or> (b6 \<and> \<not> b7 \<and> (b0 \<or> b1 \<or> b2 \<or> b3 \<or> b4) \<and> \<not> (b4 \<and> b3 \<and> (b2 \<or> b1 \<and> b0)))) b6 b7 # lower s"
    unfolding lower_def list.map Let_def upper_case_bits using up by (cases b5) (simp_all split del: if_split, auto)
qed (simp add: lower_def)

lemma coin_table_keys:
  "map coin_key coin_table =
    [(''adcoin'', ''mainnet''), (''argentum'', ''mainnet''), (''argentum'', ''testnet''),
     (''aryacoin'', ''mainnet''), (''auroracoin'', ''mainnet''), (''axe'', ''mainnet''),
     (''axe'', ''regtest''), (''axe'', ''testnet''), (''bata'', ''mainnet''),
     (''beyondcoin'', ''mainnet''), (''bitbay'', ''mainnet''), (''bitcoin'', ''mainnet''),
     (''bitcoinatom'', ''mainnet''), (''bitcoincash'', ''mainnet''), (''bitcoincash'', ''regtest''),
     (''bitcoincash'', ''testnet''), (''bitcoindiamond'', ''mainnet''), (''bitcoingold'', ''mainnet''),
     (''bitcoingold'', ''regtest''), (''bitcoingold'', ''testnet''), (''bitcoincash'', ''nolnet''),
     (''bitcoinplus'', ''mainnet''), (''bitcoinprivate'', ''mainnet''), (''bitcoin'', ''regtest''),
     (''bitcoinsv'', ''mainnet''), (''bitcoinsv'', ''regtest''), (''bitcoinsv'', ''scalingtest''),
     (''bitcoinsv'', ''testnet''), (''bitcoin'', ''signet''), (''bitcoin'', ''testnet''),
     (''bitcoin'', ''testnet4''), (''bitcoinz'', ''mainnet''), (''bitcoinzero'', ''mainnet''),
     (''bitcore'', ''mainnet''), (''bitcoingreen'', ''mainnet''), (''bitsend'', ''mainnet''),
     (''bitzeny'', ''mainnet''), (''blackcoin'', ''mainnet''), (''blackcointestnet'', ''testnet''),
     (''bolivarcoin'', ''mainnet''), (''canadaecoin'', ''mainnet''), (''cannacoin'', ''mainnet''),
     (''chips'', ''mainnet''), (''clam'', ''mainnet''), (''colossusxt'', ''mainnet''),
     (''crown'', ''mainnet''), (''dash'', ''mainnet''), (''dash'', ''regtest''),
     (''dash'', ''testnet''), (''decred'', ''mainnet''), (''decred'', ''testnet''),
     (''deeponion'', ''mainnet''), (''defcoin'', ''mainnet''), (''denarius'', ''mainnet''),
     (''denarius'', ''testnet''), (''diabase'', ''mainnet''), (''digibyte'', ''mainnet''),
     (''digibyte'', ''testnet''), (''digitalcoin'', ''mainnet''), (''dogecoin'', ''mainnet''),
     (''dogecoin'', ''testnet''), (''donu'', ''mainnet''), (''eccoin'', ''mainnet''),
     (''exos'', ''mainnet''), (''exos'', ''testnet''), (''egulden'', ''mainnet''),
     (''einsteinium'', ''mainnet''), (''electra'', ''mainnet''), (''electraprotocol'', ''mainnet''),
     (''emercoin'', ''mainnet''), (''europecoin'', ''mainnet''), (''faircoin'', ''mainnet''),
     (''feathercoin'', ''mainnet''), (''ferrite'', ''mainnet''), (''ferrite'', ''testnet''),
     (''fixedcoin'', ''mainnet''), (''flashcoin'', ''mainnet''), (''fujicoin'', ''mainnet''),
     (''gamecredits'', ''mainnet''), (''garlicoin'', ''mainnet''), (''gravitycoin'', ''mainnet''),
     (''gravityzerocoin'', ''mainnet''), (''groestlcoin'', ''mainnet''),
     (''groestlcoin'', ''regtest''), (''groestlcoin'', ''signet''), (''groestlcoin'', ''testnet''),
     (''hodlcoin'', ''mainnet''), (''hush'', ''mainnet''), (''iop'', ''mainnet''),
     (''ixcoin'', ''mainnet''), (''komodo'', ''mainnet''), (''koto'', ''mainnet''),
     (''koto'', ''testnet''), (''lbry'', ''mainnet''), (''linx'', ''mainnet''),
     (''litecoin'', ''mainnet''), (''litecoincash'', ''mainnet''), (''litecoin'', ''regtest''),
     (''litecoin'', ''testnet''), (''lynx'', ''mainnet''), (''mnpcoin'', ''mainnet''),
     (''machinecoin'', ''mainnet''), (''minexcoin'', ''mainnet''), (''monacoin'', ''mainnet''),
     (''monacoin'', ''regtest''), (''monacoin'', ''testnet''), (''monaize'', ''mainnet''),
     (''myce'', ''mainnet''), (''myriadcoin'', ''mainnet''), (''myriadcoin'', ''testnet''),
     (''nix'', ''mainnet''), (''nix'', ''testnet''), (''namecoin'', ''mainnet''),
     (''namecoin'', ''regtest''), (''namecoin'', ''testnet''), (''navcoin'', ''mainnet''),
     (''neblio'', ''mainnet''), (''newyorkcoin'', ''mainnet''), (''newyorkcoin'', ''testnet''),
     (''noir'', ''mainnet''), (''odin'', ''mainnet''), (''onixcoin'', ''mainnet''),
     (''pac'', ''mainnet''), (''pac'', ''testnet''), (''peercoin'', ''mainnet''),
     (''peercointestnet'', ''testnet''), (''pepecoin'', ''mainnet''), (''pivx'', ''mainnet''),
     (''pivx'', ''testnet''), (''polis'', ''mainnet''), (''primecoin'', ''mainnet''),
     (''primecointestnet'', ''testnet''), (''quebecoin'', ''mainnet''), (''ravencoin'', ''mainnet''),
     (''ravencoin'', ''testnet''), (''reddcoin'', ''mainnet''), (''riecoin'', ''mainnet''),
     (''sibcoin'', ''mainnet''), (''sibcoin'', ''testnet''), (''simplicity'', ''mainnet''),
     (''smartcash'', ''mainnet''), (''smileycoin'', ''mainnet''), (''snowgem'', ''mainnet''),
     (''sumcoin'', ''mainnet''), (''syscoin'', ''mainnet''), (''tokenpay'', ''mainnet''),
     (''trezarcoin'', ''mainnet''), (''uniformfiscalobject'', ''mainnet''), (''unitus'', ''mainnet''),
     (''unobtanium'', ''mainnet''), (''verge'', ''mainnet''), (''vertcoin'', ''mainnet''),
     (''vertcoin'', ''testnet''), (''verus'', ''mainnet''), (''viacoin'', ''mainnet''),
     (''viacoin'', ''testnet''), (''viacoin'', ''testnet-segwit''), (''xaya'', ''mainnet''),
     (''xaya'', ''regtest''), (''xaya'', ''testnet''), (''xuez'', ''mainnet''),
     (''zcash'', ''mainnet''), (''zcash'', ''testnet''), (''zclassic'', ''mainnet''),
     (''zcoin'', ''mainnet''), (''zcoin'', ''testnet''), (''zelcash'', ''mainnet''),
     (''zero'', ''mainnet''), (''bitcoingreen'', ''testnet'')]"
proof -
  have "map coin_key coin_table = map (\<lambda>(name, net). (lower name, lower net)) (map (\<lambda>c. (the (NAME c), the (NET c))) coin_table)"
    by (simp add: coin_key_def)
  then show ?thesis unfolding coin_table_names by (simp add: lower_code)
qed

lemma coin_keys_distinct: "distinct (map coin_key coin_table)"
  unfolding coin_table_keys by simp

lemma lookup_coin_class_distinct:
  assumes "distinct (map coin_key coins)"
    and "list_all (\<lambda>c. NAME c \<noteq> None \<and> NET c \<noteq> None \<and> TX_COUNT c \<noteq> None \<and> TX_COUNT_HEIGHT c \<noteq> None \<and> TX_PER_BLOCK c \<noteq> None) coins"
  shows "lookup_coin_class coins name net = Inr c \<longleftrightarrow> c \<in> set coins \<and> coin_key c = (lower name, lower net)"
    and "lookup_coin_class coins name net = Inl e \<longleftrightarrow> e = CoinError \<and> (lower name, lower net) \<notin> coin_key ` set coins"
proof -
  have key: "lookup_coin_class (d # ds) name net =
      (if coin_key d = (lower name, lower net) then Inr d else lookup_coin_class ds name net)"
    if "NAME d \<noteq> None \<and> NET d \<noteq> None \<and> TX_COUNT d \<noteq> None \<and> TX_COUNT_HEIGHT d \<noteq> None \<and> TX_PER_BLOCK d \<noteq> None" for d ds
    using that by (auto simp: coin_key_def attrE_def)
  show "lookup_coin_class coins name net = Inr c \<longleftrightarrow> c \<in> set coins \<and> coin_key c = (lower name, lower net)"
    using assms by (induction coins) (auto simp: key simp del: lookup_coin_class.simps(2), force+)
  show "lookup_coin_class coins name net = Inl e \<longleftrightarrow> e = CoinError \<and> (lower name, lower net) \<notin> coin_key ` set coins"
    using assms by (induction coins) (auto simp: key simp del: lookup_coin_class.simps(2))
qed

subsection \<open>Every coin is found, and its addresses pay to their hash\<close>

lemma coin_table_member:
  assumes "c \<in> set coin_table"
  shows "verbytes_ok c" "NAME c \<noteq> None" "NET c \<noteq> None"
  using coin_table_verbytes coin_table_attrs assms unfolding list_all_iff by blast+

lemmas coin_table_lookup = lookup_coin_class_distinct [OF coin_keys_distinct coin_table_attrs]

text \<open>C38: for every coin of the table: its name and network, in any case of letters, select it and nothing else; an
  address made of its version byte and a hash pays to the hash, as P2PKH for \<open>P2PKH_VERBYTE\<close> and as
  P2SH for each of \<open>P2SH_VERBYTES\<close>; and an address that is accepted is one of these.\<close>

theorem coin_addresses:
  assumes "c \<in> set coin_table" "\<And>x. 4 \<le> length (H x)"
  shows "(lookup_coin_class coin_table name net = Inr c \<longleftrightarrow> lower name = lower (the (NAME c)) \<and> lower net = lower (the (NET c))) \<and>
    (length hash160 = 20 \<longrightarrow>
       pay_to_address_script H c (encode_check H (P2PKH_VERBYTE c @ hash160)) = P2PKH_script hash160 \<and>
       (v \<noteq> [] \<and> verbyte_in v (P2SH_VERBYTES c) \<longrightarrow>
          pay_to_address_script H c (encode_check H (v @ hash160)) = P2SH_script hash160)) \<and>
    (pay_to_address_script H c address = Inr script \<longrightarrow>
       (\<exists>v h. address = encode_check H (v @ h) \<and> length h = 20 \<and>
          (v = P2PKH_VERBYTE c \<and> P2PKH_script h = Inr script \<or> verbyte_in v (P2SH_VERBYTES c) \<and> P2SH_script h = Inr script)))"
proof (intro conjI impI)
  note ok = coin_table_member [OF assms(1)]
  have ne: "P2PKH_VERBYTE c \<noteq> []" using ok(1) by (simp add: verbytes_ok_def)
  show "lookup_coin_class coin_table name net = Inr c \<longleftrightarrow> lower name = lower (the (NAME c)) \<and> lower net = lower (the (NET c))"
    using coin_table_lookup(1) [of name net c] assms(1) by (auto simp: coin_key_def)
  show "pay_to_address_script H c (encode_check H (P2PKH_VERBYTE c @ hash160)) = P2PKH_script hash160"
    if "length hash160 = 20" using pay_to_address_encoded [OF assms(2) that ne] by simp
  show "pay_to_address_script H c (encode_check H (v @ hash160)) = P2SH_script hash160"
    if "length hash160 = 20" "v \<noteq> [] \<and> verbyte_in v (P2SH_VERBYTES c)"
  proof -
    have "v \<noteq> P2PKH_VERBYTE c" using ok(1) that(2) by (auto simp: verbytes_ok_def verbyte_in_def split: verbytes.splits)
    then show ?thesis using pay_to_address_encoded [where c = c and v = v, OF assms(2) that(1)] that(2) by simp
  qed
  show "\<exists>v h. address = encode_check H (v @ h) \<and> length h = 20 \<and>
      (v = P2PKH_VERBYTE c \<and> P2PKH_script h = Inr script \<or> verbyte_in v (P2SH_VERBYTES c) \<and> P2SH_script h = Inr script)"
    if "pay_to_address_script H c address = Inr script"
    by (rule pay_to_address_accepted [OF assms(2) that]) blast
qed

theorem coin_addresses_witness:
  "lookup_coin_class coin_table ''fixedcoin'' ''Mainnet'' = Inr FixedCoin \<and>
   pay_to_address_script (\<lambda>x. [1, 2, 3, 4]) FixedCoin (encode_check (\<lambda>x. [1, 2, 3, 4]) ([0x00] @ replicate 20 7)) =
     P2SH_script (replicate 20 7)"
proof -
  have m: "FixedCoin \<in> set coin_table" by (simp add: coin_table_def)
  have a: "NAME FixedCoin = Some ''FixedCoin''" "NET FixedCoin = Some ''mainnet''" "P2SH_VERBYTES FixedCoin = VTuple [[0x00]]"
    by (simp_all add: FixedCoin_def)
  show ?thesis
    using coin_addresses [OF m, of "\<lambda>x. [1, 2, 3, 4]" "''fixedcoin''" "''Mainnet''" "replicate 20 7" "[0x00]"] a
    by (simp add: lower_code verbyte_in_def)
qed

text \<open>Eight classes set \<open>P2SH_VERBYTE\<close>, which nothing reads; their own P2SH addresses are refused.\<close>

lemma pivx_p2sh_refused:
  assumes "\<And>x. 4 \<le> length (H x)" "length hash160 = 20"
  shows "pay_to_address_script H Pivx (encode_check H ([0x0d] @ hash160)) = Inl CoinError"
proof -
  have "P2SH_VERBYTES Pivx = VTuple [[0x00]]" "P2PKH_VERBYTE Pivx = [0x1e]" by (simp_all add: Pivx_def Coin_def)
  then show ?thesis using pay_to_address_encoded [where c = Pivx and v = "[0x0d]", OF assms] by (simp add: verbyte_in_def)
qed

end
