(* ===== verification/CoinHeaders.thy ===== *)
theory CoinHeaders
  imports CoinTable TxVariantFacts
begin

unbundle bit_operations_syntax

section \<open>Headers of the coins that differ (lib/coins.py)\<close>

text \<open>
  The methods a mixin or a coin class overrides.  \<open>D\<close> is \<open>double_sha256\<close>; the other hash functions, which
  third-party modules provide, are parameters with the names of the modules.  A name is the class and
  the method.
\<close>

subsection \<open>Mixins\<close>

definition AuxPowMixin_header_hash :: "(bytes \<Rightarrow> bytes) \<Rightarrow> coin \<Rightarrow> bytes \<Rightarrow> bytes" where
  "AuxPowMixin_header_hash D c header = D (take_int (BASIC_HEADER_SIZE c) header)"

definition AuxPowMixin_block_header :: "tx reader \<Rightarrow> coin \<Rightarrow> bytes \<Rightarrow> int \<Rightarrow> exn + bytes" where
  "AuxPowMixin_block_header rd c block height =
     bindE (auxpow_read_header rd (nat (BASIC_HEADER_SIZE c)) block 0) (\<lambda>(header, _). Inr header)"

definition EquihashMixin_block_header :: "coin \<Rightarrow> bytes \<Rightarrow> int \<Rightarrow> exn + bytes" where
  "EquihashMixin_block_header c block height =
     bindE (equihash_read_header (nat (BASIC_HEADER_SIZE c)) block 0) (\<lambda>(header, _). Inr header)"

definition PrimeChainPowMixin_block_header :: "coin \<Rightarrow> bytes \<Rightarrow> int \<Rightarrow> exn + bytes" where
  "PrimeChainPowMixin_block_header c block height =
     bindE (primecoin_read_header (nat (BASIC_HEADER_SIZE c)) block 0) (\<lambda>(header, _). Inr header)"

definition ScryptMixin_header_hash :: "(bytes \<Rightarrow> bytes) \<Rightarrow> (bytes \<Rightarrow> bytes) \<Rightarrow> bytes \<Rightarrow> exn + bytes" where
  "ScryptMixin_header_hash scrypt D header =
     bindE (unpack_le_unsigned_from 4 header 0) (\<lambda>version.
     Inr (if version > 6 then D header else scrypt header))"

subsection \<open>Header hashes\<close>

definition BitcoinGold_header_hash :: "nat \<Rightarrow> (bytes \<Rightarrow> bytes) \<Rightarrow> bytes \<Rightarrow> exn + bytes" where
  "BitcoinGold_header_hash FORK_HEIGHT D header =
     bindE (unpack_le_unsigned_from 4 header 68) (\<lambda>height.
     Inr (if height \<ge> FORK_HEIGHT then D header else D (slice header 0 68 @ slice header 100 112)))"

definition Verus_header_hash ::
  "(bytes \<Rightarrow> bytes) \<Rightarrow> (bytes \<Rightarrow> bytes) \<Rightarrow> (bytes \<Rightarrow> bytes) \<Rightarrow> (bytes \<Rightarrow> bytes) \<Rightarrow> (bytes \<Rightarrow> bytes) \<Rightarrow> bytes \<Rightarrow> exn + bytes" where
  "Verus_header_hash verushash verushash_v2b verushash_v2b1 verushash_v2b2 D header =
     (if coin_header_prevhash header = replicate 32 0 then Inr (D header)
      else case header of
        [] \<Rightarrow> Inl IndexError
      | b # _ \<Rightarrow>
          if b = 4 \<and> length header \<le> 2 then Inl IndexError
          else if b = 4 \<and> header ! 2 \<ge> 1
          then (if length header < 144 \<or> header ! 143 < 3 then Inr (verushash_v2b header)
                else if header ! 143 < 4 then Inr (verushash_v2b1 header)
                else Inr (verushash_v2b2 header))
          else Inr (verushash header))"

definition BitcoinAtom_header_hash :: "(bytes \<Rightarrow> bytes) \<Rightarrow> coin \<Rightarrow> bytes \<Rightarrow> exn + bytes" where
  "BitcoinAtom_header_hash D c header =
     (let header_to_be_hashed = take_int (BASIC_HEADER_SIZE c) header in
      if length header = 84
      then bindE (unpack_le_unsigned_from 4 header (length header - 4)) (\<lambda>flags.
             Inr (D (if flags AND 1 \<noteq> 0 then header_to_be_hashed @ [1, 0, 0, 0] else header_to_be_hashed)))
      else Inr (D header_to_be_hashed))"

definition BitcoinAtom_block_header :: "coin \<Rightarrow> bytes \<Rightarrow> int \<Rightarrow> exn + bytes" where
  "BitcoinAtom_block_header c block height =
     bindE (bitcoinatom_read_header height (nat (BASIC_HEADER_SIZE c)) block 0) (\<lambda>(header, _). Inr header)"

definition Xuez_header_hash :: "(bytes \<Rightarrow> bytes) \<Rightarrow> bytes \<Rightarrow> exn + bytes" where
  "Xuez_header_hash xevan_hash header =
     bindE (unpack_le_unsigned_from 4 header 0) (\<lambda>version.
     Inr (if version = 1 then xevan_hash (slice header 0 80) else xevan_hash header))"

definition Bitsend_header_hash :: "(bytes \<Rightarrow> bytes) \<Rightarrow> (bytes \<Rightarrow> bytes) \<Rightarrow> bytes \<Rightarrow> exn + bytes" where
  "Bitsend_header_hash xevan_hash dash_hash header =
     bindE (unpack_le_unsigned_from 4 header 68) (\<lambda>timestamp.
     Inr (if timestamp > 1477958400 then xevan_hash header else dash_hash header))"

text \<open>\<open>verify\<close> is \<open>kawpow.light_verify\<close>.\<close>

definition Ravencoin_header_hash ::
  "(bytes \<Rightarrow> bytes \<Rightarrow> nat \<Rightarrow> bytes) \<Rightarrow> (bytes \<Rightarrow> bytes) \<Rightarrow> (bytes \<Rightarrow> bytes) \<Rightarrow> (bytes \<Rightarrow> bytes) \<Rightarrow> bytes \<Rightarrow> exn + bytes" where
  "Ravencoin_header_hash verify x16rv2_hash x16r_hash D header =
     bindE (unpack_le_unsigned_from 4 header 68) (\<lambda>timestamp.
       if timestamp \<ge> 1588788000
       then bindE (unpack_le_unsigned_from 8 header 80) (\<lambda>nNonce64.
            let mix_hash = rev (slice header 88 120);
                header_hash = rev (D (slice header 0 80))
            in Inr (rev (verify header_hash mix_hash nNonce64)))
       else if timestamp \<ge> 1569945600 then Inr (x16rv2_hash header)
       else Inr (x16r_hash header))"

subsection \<open>Headers whose size changes at a height\<close>

definition Odin_static_header_offset :: "coin \<Rightarrow> int \<Rightarrow> exn + int" where
  "Odin_static_header_offset c height =
     bindE (assertE (STATIC_BLOCK_HEADERS c)) (\<lambda>_.
       if height \<ge> 143447
       then (let relative_v4_offset = (height - 143447) * 112 in Inr (143447 * 80 + relative_v4_offset))
       else Inr (height * BASIC_HEADER_SIZE c))"

definition Odin_header_hash :: "(bytes \<Rightarrow> bytes) \<Rightarrow> (bytes \<Rightarrow> bytes) \<Rightarrow> bytes \<Rightarrow> exn + bytes" where
  "Odin_header_hash quark_hash D header =
     bindE (unpack_le_unsigned_from 4 header 0) (\<lambda>version.
     Inr (if version \<ge> 4 then D header else quark_hash header))"

definition ColossusXT_static_header_offset :: "coin \<Rightarrow> int \<Rightarrow> exn + int" where
  "ColossusXT_static_header_offset c height =
     bindE (assertE (STATIC_BLOCK_HEADERS c)) (\<lambda>_.
       if height \<ge> 500000
       then (let relative_v4_offset = (height - 500000) * 112 in Inr (500000 * 80 + relative_v4_offset))
       else Inr (height * BASIC_HEADER_SIZE c))"

definition ColossusXT_header_hash :: "(bytes \<Rightarrow> bytes) \<Rightarrow> (bytes \<Rightarrow> bytes) \<Rightarrow> bytes \<Rightarrow> exn + bytes" where
  "ColossusXT_header_hash quark_hash D header =
     bindE (unpack_le_unsigned_from 4 header 0) (\<lambda>version.
     Inr (if version \<ge> 5 then D header else quark_hash header))"

definition Ravencoin_static_header_offset :: "int \<Rightarrow> coin \<Rightarrow> int \<Rightarrow> exn + int" where
  "Ravencoin_static_header_offset KAWPOW_ACTIVATION_HEIGHT c height =
     (if KAWPOW_ACTIVATION_HEIGHT < 0 \<or> height \<le> KAWPOW_ACTIVATION_HEIGHT
      then Inr (height * BASIC_HEADER_SIZE c)
      else (let baseoffset = KAWPOW_ACTIVATION_HEIGHT * BASIC_HEADER_SIZE c
            in Inr (baseoffset + (height - KAWPOW_ACTIVATION_HEIGHT) * 120)))"

definition Pivx_static_header_len :: "int \<Rightarrow> int \<Rightarrow> int \<Rightarrow> coin \<Rightarrow> int \<Rightarrow> int" where
  "Pivx_static_header_len ZEROCOIN_START_HEIGHT ZEROCOIN_END_HEIGHT SAPLING_START_HEIGHT c height =
     (if height \<ge> ZEROCOIN_START_HEIGHT \<and> height < ZEROCOIN_END_HEIGHT \<or> height \<ge> SAPLING_START_HEIGHT
      then 112 else BASIC_HEADER_SIZE c)"

definition Pivx_header_hash :: "nat \<Rightarrow> (bytes \<Rightarrow> bytes) \<Rightarrow> (bytes \<Rightarrow> bytes) \<Rightarrow> bytes \<Rightarrow> exn + bytes" where
  "Pivx_header_hash ZEROCOIN_BLOCK_VERSION quark_hash D header =
     bindE (unpack_le_unsigned 4 (slice header 0 4)) (\<lambda>version.
     Inr (if version \<ge> ZEROCOIN_BLOCK_VERSION then D header else quark_hash header))"

definition Zcoin_is_mtp :: "bytes \<Rightarrow> exn + nat" where
  "Zcoin_is_mtp header = bindE (unpack_le_unsigned_from 4 (slice header 0 4) 0) (\<lambda>nVersion. Inr (nVersion AND 4096))"

definition Zcoin_block_header :: "coin \<Rightarrow> bytes \<Rightarrow> int \<Rightarrow> exn + bytes" where
  "Zcoin_block_header c block height =
     bindE (Zcoin_is_mtp block) (\<lambda>mtp. Inr (take_int (BASIC_HEADER_SIZE c + (if mtp \<noteq> 0 then 100 else 0)) block))"

definition Zcoin_header_hash :: "(bytes \<Rightarrow> bytes) \<Rightarrow> coin \<Rightarrow> bytes \<Rightarrow> exn + bytes" where
  "Zcoin_header_hash D c header =
     bindE (Zcoin_is_mtp header) (\<lambda>mtp. Inr (D (take_int (BASIC_HEADER_SIZE c + (if mtp \<noteq> 0 then 100 else 0)) header)))"

definition Emercoin_block_header :: "(bytes \<Rightarrow> bytes) \<Rightarrow> coin \<Rightarrow> bytes \<Rightarrow> int \<Rightarrow> exn + bytes" where
  "Emercoin_block_header H c block height =
     bindE (emercoin_is_merged_block block 0) (\<lambda>(merged, _).
       if merged
       then bindE (emercoin_read_header H (nat (BASIC_HEADER_SIZE c)) block 0) (\<lambda>(header, _). Inr header)
       else coin_block_header (static_header_offset c) block height)"

definition Minexcoin_block_header :: "bytes \<Rightarrow> int \<Rightarrow> exn + bytes" where
  "Minexcoin_block_header block height = bindE (equihash_read_header 140 block 0) (\<lambda>(header, _). Inr header)"

subsection \<open>Blocks\<close>

text \<open>\<open>Decred\<close> and \<open>FairCoin\<close>: the genesis block has no transactions.\<close>

definition FairCoin_block :: "(bytes \<Rightarrow> int \<Rightarrow> exn + bytes) \<Rightarrow> tx reader \<Rightarrow> bytes \<Rightarrow> int \<Rightarrow> exn + bytes \<times> bytes \<times> tx list" where
  "FairCoin_block block_header rd raw_block height =
     (if height > 0 then coin_block block_header rd raw_block height
      else bindE (block_header raw_block height) (\<lambda>header. Inr (raw_block, header, [])))"

definition Xaya_genesis_block ::
  "(bytes \<Rightarrow> int \<Rightarrow> exn + bytes) \<Rightarrow> (bytes \<Rightarrow> bytes) \<Rightarrow> coin \<Rightarrow> bytes \<Rightarrow> exn + bytes" where
  "Xaya_genesis_block block_header header_hash c block =
     bindE (coin_genesis_block block_header header_hash c block) (\<lambda>_. Inr block)"

definition Trezarcoin_genesis_block ::
  "(bytes \<Rightarrow> int \<Rightarrow> exn + bytes) \<Rightarrow> (bytes \<Rightarrow> bytes \<Rightarrow> bytes) \<Rightarrow> coin \<Rightarrow> bytes \<Rightarrow> exn + bytes" where
  "Trezarcoin_genesis_block block_header blake2s c block =
     bindE (block_header block 0) (\<lambda>header.
       if trezarcoin_blake2s_gen blake2s header \<noteq> GENESIS_HASH c then Inl CoinError else Inr (header @ [0]))"

subsection \<open>Headers tile the headers file\<close>

text \<open>With any of the offset functions the header of height 0 starts the file, and the header of each height
  ends where the next starts; a header is 80 bytes, or its new size from the height of the change.\<close>

lemma Odin_header_len:
  assumes "STATIC_BLOCK_HEADERS c" "BASIC_HEADER_SIZE c = 80"
  shows "static_header_len (Odin_static_header_offset c) height = Inr (if height \<ge> 143447 then 112 else 80)"
  using assms by (auto simp: static_header_len_def Odin_static_header_offset_def assertE_def Let_def algebra_simps)

lemma ColossusXT_header_len:
  assumes "STATIC_BLOCK_HEADERS c" "BASIC_HEADER_SIZE c = 80"
  shows "static_header_len (ColossusXT_static_header_offset c) height = Inr (if height \<ge> 500000 then 112 else 80)"
  using assms by (auto simp: static_header_len_def ColossusXT_static_header_offset_def assertE_def Let_def algebra_simps)

lemma Ravencoin_header_len:
  assumes "0 \<le> A" "BASIC_HEADER_SIZE c = 80"
  shows "static_header_len (Ravencoin_static_header_offset A c) height = Inr (if height \<ge> A then 120 else 80)"
  using assms by (auto simp: static_header_len_def Ravencoin_static_header_offset_def Let_def algebra_simps)

text \<open>A chain of headers of the right lengths starts each header at its offset.\<close>

lemma headers_tile:
  assumes "offset 0 = Inr 0" "\<And>h. h < length headers \<Longrightarrow> static_header_len offset (int h) = Inr (int (length (headers ! h)))"
    and "n \<le> length headers"
  shows "offset (int n) = Inr (int (length (concat (take n headers))))"
  using assms(3)
proof (induction n)
  case (Suc n)
  then have n: "offset (int n) = Inr (int (length (concat (take n headers))))" "n < length headers" by simp_all
  then have "\<exists>a. offset (int n + 1) = Inr a \<and> a = int (length (concat (take n headers))) + int (length (headers ! n))"
    using assms(2) [of n] by (auto simp: static_header_len_def err_simps)
  then show ?case using n(2) by (simp add: take_Suc_conv_app_nth add.commute)
qed (simp add: assms(1))

text \<open>The block reader of a merged-mined coin: the header, proof of work included, and then the transactions.\<close>

lemma auxpow_block_parts:
  assumes aux: "\<And>L. reads L (skip_auxpow rd) aux ()" and v: "v < 2 ^ 32" and n: "BASIC_HEADER_SIZE c = 4 + int (length rest)"
    and txs: "\<And>L. reads L (read_tx_block rd) body ts"
  defines "header \<equiv> le_encode 4 v @ rest @ (if v AND VERSION_AUXPOW \<noteq> 0 then aux else [])"
  shows "coin_block (AuxPowMixin_block_header rd c) rd (header @ body) height = Inr (header @ body, header, ts)"
proof -
  have "nat (BASIC_HEADER_SIZE c) = 4 + length rest" using n by simp
  note r = reads_auxpow_header [OF aux v this]
  have "auxpow_read_header rd (nat (BASIC_HEADER_SIZE c)) ([] @ header @ body) (length ([] :: bytes)) = Inr (header, length ([] :: bytes) + length header)"
    unfolding header_def by (rule readsD [OF r])
  moreover have "read_tx_block rd (header @ body @ []) (length header) = Inr (ts, length header + length body)"
    by (rule readsD) (rule txs)
  ultimately show ?thesis by (simp add: coin_block_def AuxPowMixin_block_header_def)
qed

end
