(* ===== verification/DaemonClient.thy ===== *)
theory DaemonClient
  imports Complex_Main Coins
begin

section \<open>The daemon client (server/daemon.py)\<close>

text \<open>
  What a server answers to the \<open>n\<close>-th request is a function \<open>world\<close> of \<open>n\<close>, the URL asked and the payload.  The
  record \<open>client\<close> is the state of \<open>Daemon\<close>, with two fields for the proofs: how many requests were posted
  and, last first, how long it slept.  A call is a function of the state that returns, if it returns at
  all, a value or an exception together with the new state.  Request ids and logging are left out, except that what is logged on a
  fail-over is computed, because that can raise.  A call is modelled as if it were alone: in the source up to ten calls
  share \<open>url_index\<close>, and each may move it while another waits.
\<close>

subsection \<open>JSON and answers\<close>

datatype json =
    JNull | JBool bool | JInt int | JNum rat | JStr string | JList "json list" | JDict "(string \<times> json) list"

record rpc_item =
  item_error :: "(string \<times> json) list"
  item_result :: json

text \<open>An empty \<open>item_error\<close> stands for every false value of \<open>item['error']\<close>.\<close>

datatype payload = Single string "json list" | Vector string "json list list"

datatype fault =
    TimeoutFault | ServerDisconnected | ConnectionReset | ClientConnectionFault | ClientFault

datatype response = JsonOne rpc_item | JsonMany "rpc_item list" | TextBody | Fault fault

datatype daemon_exn = DaemonError "(string \<times> json) list list" | PyExn exn

record client =
  urls :: "string list"
  url_index :: nat
  init_retry :: rat
  max_retry :: rat
  daemon_height :: "json option"
  available_rpcs :: "(string \<times> bool) list"
  networkinfo_cache :: "json option \<times> rat"
  posted :: nat
  sleeps :: "rat list"

type_synonym world = "nat \<Rightarrow> string \<Rightarrow> payload \<Rightarrow> response"

type_synonym 'a call = "client \<Rightarrow> ((daemon_exn + 'a) \<times> client) option"

definition returnC :: "'a \<Rightarrow> 'a call" where "returnC x = (\<lambda>d. Some (Inr x, d))"

definition raiseC :: "daemon_exn \<Rightarrow> 'a call" where "raiseC e = (\<lambda>d. Some (Inl e, d))"

definition bindC :: "'a call \<Rightarrow> ('a \<Rightarrow> 'b call) \<Rightarrow> 'b call" where
  "bindC m f = (\<lambda>d. case m d of None \<Rightarrow> None | Some (Inl e, d) \<Rightarrow> Some (Inl e, d) | Some (Inr x, d) \<Rightarrow> f x d)"

definition liftC :: "exn + 'a \<Rightarrow> 'a call" where
  "liftC r = (case r of Inl e \<Rightarrow> raiseC (PyExn e) | Inr x \<Rightarrow> returnC x)"

subsection \<open>URLs and failing over\<close>

fun split_comma :: "string \<Rightarrow> string \<Rightarrow> string list" where
  "split_comma [] acc = [acc]"
| "split_comma (c # s) acc = (if c = CHR '','' then acc # split_comma s [] else split_comma s (acc @ [c]))"

definition logged_url :: "string \<Rightarrow> exn + string" where
  "logged_url url =
     (if CHR ''@'' \<in> set url then Inr (rev (takeWhile (\<lambda>c. c \<noteq> CHR ''@'') (rev url))) else Inl ValueError)"

definition set_url :: "coin \<Rightarrow> string \<Rightarrow> client \<Rightarrow> exn + client" where
  "set_url coin url d =
     bindE (mapE (sanitize_url coin) (split_comma url [])) (\<lambda>us.
     bindE (mapE logged_url us) (\<lambda>logged. Inr (d\<lparr>url_index := 0, urls := us\<rparr>)))"

definition current_url :: "client \<Rightarrow> string" where
  "current_url d = urls d ! url_index d"

text \<open>The URL failed over to is logged, which raises when it has no user part; the index has moved by then.\<close>

definition failover :: "client \<Rightarrow> (exn + bool) \<times> client" where
  "failover d =
     (if length (urls d) > 1
      then (let d = d\<lparr>url_index := (url_index d + 1) mod length (urls d)\<rparr>
            in (bindE (logged_url (current_url d)) (\<lambda>logged. Inr True), d))
      else (Inr False, d))"

subsection \<open>Sending\<close>

text \<open>What a processor makes of an answer; \<open>Again\<close> is a \<open>WarmingUpError\<close> or a \<open>DaemonParseError\<close>.\<close>

datatype 'a processed = Done 'a | Again | Failed daemon_exn

definition RPC_IN_WARMUP :: int where "RPC_IN_WARMUP = -28"
definition RPC_PARSE_ERROR :: int where "RPC_PARSE_ERROR = -32700"

definition err_code :: "(string \<times> json) list \<Rightarrow> json option" where
  "err_code err = map_of err ''code''"

definition single_processor :: "response \<Rightarrow> json processed" where
  "single_processor r =
     (case r of
        JsonOne item \<Rightarrow>
          (if item_error item = [] then Done (item_result item)
           else if err_code (item_error item) = Some (JInt RPC_IN_WARMUP) then Again
           else if err_code (item_error item) = Some (JInt RPC_PARSE_ERROR) then Again
           else Failed (DaemonError [item_error item]))
      | _ \<Rightarrow> Failed (PyExn TypeError))"

definition vector_processor :: "bool \<Rightarrow> response \<Rightarrow> json list processed" where
  "vector_processor replace_errs r =
     (case r of
        JsonMany items \<Rightarrow>
          (let errs = filter (\<lambda>err. err \<noteq> []) (map item_error items) in
           if list_ex (\<lambda>err. err_code err = Some (JInt RPC_IN_WARMUP)) errs then Again
           else if list_ex (\<lambda>err. err_code err = Some (JInt RPC_PARSE_ERROR)) errs then Again
           else if errs = [] \<or> replace_errs then Done (map item_result items)
           else Failed (DaemonError errs))
      | _ \<Rightarrow> Failed (PyExn TypeError))"

text \<open>One attempt: \<open>_send_data\<close> and the processor.  A body that is not JSON is a \<open>ServiceRefusedError\<close>.\<close>

definition attempt :: "world \<Rightarrow> payload \<Rightarrow> (response \<Rightarrow> 'a processed) \<Rightarrow> client \<Rightarrow> 'a processed" where
  "attempt world data processor d =
     (case world (posted d) (current_url d) data of
        Fault _ \<Rightarrow> Again
      | TextBody \<Rightarrow> Again
      | r \<Rightarrow> processor r)"

text \<open>\<open>log_error\<close> (less the logging), the sleep and the next delay.\<close>

definition after_error :: "rat \<Rightarrow> client \<Rightarrow> (exn + rat) \<times> client" where
  "after_error retry d =
     (let (r, d) = (if retry = max_retry d then failover d else (Inr False, d)) in
      case r of
        Inl e \<Rightarrow> (Inl e, d)
      | Inr failed_over \<Rightarrow>
          (let retry = (if failed_over then 0 else retry)
           in (Inr (max (min (max_retry d) (retry * 2)) (init_retry d)), d\<lparr>sleeps := retry # sleeps d\<rparr>)))"

partial_function (option) send_loop ::
  "world \<Rightarrow> payload \<Rightarrow> (response \<Rightarrow> 'a processed) \<Rightarrow> rat \<Rightarrow> client \<Rightarrow> ((daemon_exn + 'a) \<times> client) option" where
  "send_loop world data processor retry d =
     (case attempt world data processor d of
        Done x \<Rightarrow> Some (Inr x, d\<lparr>posted := posted d + 1\<rparr>)
      | Failed e \<Rightarrow> Some (Inl e, d\<lparr>posted := posted d + 1\<rparr>)
      | Again \<Rightarrow>
          (case after_error retry (d\<lparr>posted := posted d + 1\<rparr>) of
             (Inl e, d) \<Rightarrow> Some (Inl (PyExn e), d)
           | (Inr retry, d) \<Rightarrow> send_loop world data processor retry d))"

definition send :: "world \<Rightarrow> payload \<Rightarrow> (response \<Rightarrow> 'a processed) \<Rightarrow> 'a call" where
  "send world data processor = (\<lambda>d. send_loop world data processor (init_retry d) d)"

definition send_single :: "world \<Rightarrow> string \<Rightarrow> json list \<Rightarrow> json call" where
  "send_single world method params = send world (Single method params) single_processor"

definition send_vector :: "world \<Rightarrow> string \<Rightarrow> json list list \<Rightarrow> bool \<Rightarrow> json list call" where
  "send_vector world method params replace_errs =
     (if params \<noteq> [] then send world (Vector method params) (vector_processor replace_errs) else returnC [])"

subsection \<open>Requests\<close>

definition METHOD_NOT_FOUND :: int where "METHOD_NOT_FOUND = -32601"

definition is_rpc_available :: "world \<Rightarrow> string \<Rightarrow> bool call" where
  "is_rpc_available world method = (\<lambda>d.
     case map_of (available_rpcs d) method of
       Some available \<Rightarrow> Some (Inr available, d)
     | None \<Rightarrow>
         (case send_single world method [] d of
            None \<Rightarrow> None
          | Some (r, d) \<Rightarrow>
              (let remember = (\<lambda>available. Some (Inr available, d\<lparr>available_rpcs := AList.update method available (available_rpcs d)\<rparr>)) in
               case r of
                 Inr _ \<Rightarrow> remember True
               | Inl (DaemonError errs) \<Rightarrow> remember (err_code (hd errs) \<noteq> Some (JInt METHOD_NOT_FOUND))
               | Inl e \<Rightarrow> Some (Inl e, d))))"

text \<open>\<open>json_str j\<close> and the like stand for what fails with a \<open>TypeError\<close> on other values.\<close>

definition json_str :: "json \<Rightarrow> exn + string" where
  "json_str j = (case j of JStr s \<Rightarrow> Inr s | _ \<Rightarrow> Inl TypeError)"

definition json_get :: "json \<Rightarrow> string \<Rightarrow> exn + json option" where
  "json_get j k = (case j of JDict d \<Rightarrow> Inr (map_of d k) | _ \<Rightarrow> Inl AttributeError)"

definition json_item :: "json \<Rightarrow> string \<Rightarrow> exn + json" where
  "json_item j k = (case j of JDict d \<Rightarrow> (case map_of d k of None \<Rightarrow> Inl KeyError | Some x \<Rightarrow> Inr x) | _ \<Rightarrow> Inl TypeError)"

definition call_block_hex_hashes :: "world \<Rightarrow> int \<Rightarrow> int \<Rightarrow> json list call" where
  "call_block_hex_hashes world first count =
     send_vector world ''getblockhash'' (map (\<lambda>h. [JInt h]) [first..first + count - 1]) False"

definition deserialised_block :: "world \<Rightarrow> string \<Rightarrow> json call" where
  "deserialised_block world hex_hash = send_single world ''getblock'' [JStr hex_hash, JBool True]"

definition call_raw_blocks :: "world \<Rightarrow> string list \<Rightarrow> bytes list call" where
  "call_raw_blocks world hex_hashes =
     bindC (send_vector world ''getblock'' (map (\<lambda>h. [JStr h, JBool False]) hex_hashes) False) (\<lambda>blocks.
     liftC (mapE (\<lambda>block. bindE (json_str block) hex_to_bytes) blocks))"

definition mempool_hashes :: "world \<Rightarrow> json call" where
  "mempool_hashes world = send_single world ''getrawmempool'' []"

definition estimatefee :: "world \<Rightarrow> int \<Rightarrow> string option \<Rightarrow> json call" where
  "estimatefee world block_count estimate_mode =
     (let args = (case estimate_mode of
                    Some mode \<Rightarrow> if mode \<noteq> [] then [JInt block_count, JStr mode] else [JInt block_count]
                  | None \<Rightarrow> [JInt block_count]) in
      bindC (is_rpc_available world ''estimatesmartfee'') (\<lambda>available.
        if available
        then bindC (send_single world ''estimatesmartfee'' args) (\<lambda>estimate.
             bindC (liftC (json_get estimate ''feerate'')) (\<lambda>rate.
             returnC (case rate of None \<Rightarrow> JInt (-1) | Some x \<Rightarrow> x)))
        else send_single world ''estimatefee'' args))"

text \<open>\<open>now\<close> is what \<open>time.time()\<close> gives before and after the request.\<close>

definition getnetworkinfo :: "world \<Rightarrow> rat \<Rightarrow> rat \<Rightarrow> json option call" where
  "getnetworkinfo world now now' = (\<lambda>d.
     let (cache_val, cache_time) = networkinfo_cache d in
     if now - cache_time < 60 then Some (Inr cache_val, d)
     else bindC (send_single world ''getnetworkinfo'' []) (\<lambda>val d.
            Some (Inr (Some val), d\<lparr>networkinfo_cache := (Some val, now')\<rparr>)) d)"

definition relayfee :: "world \<Rightarrow> rat \<Rightarrow> rat \<Rightarrow> json call" where
  "relayfee world now now' =
     bindC (getnetworkinfo world now now') (\<lambda>network_info.
     case network_info of
       None \<Rightarrow> raiseC (PyExn TypeError)
     | Some info \<Rightarrow> liftC (json_item info ''relayfee''))"

definition getrawtransaction :: "world \<Rightarrow> string \<Rightarrow> bool \<Rightarrow> json call" where
  "getrawtransaction world hex_hash verbose =
     send_single world ''getrawtransaction'' [JStr hex_hash, JInt (if verbose then 1 else 0)]"

text \<open>\<open>if tx\<close>: only a non-empty string is converted.\<close>

definition getrawtransactions :: "world \<Rightarrow> string list \<Rightarrow> bool \<Rightarrow> bytes option list call" where
  "getrawtransactions world hex_hashes replace_errs =
     bindC (send_vector world ''getrawtransaction'' (map (\<lambda>h. [JStr h, JInt 0]) hex_hashes) replace_errs) (\<lambda>txs.
     liftC (mapE (\<lambda>tx. if tx = JNull \<or> tx = JStr '''' then Inr None
                       else bindE (json_str tx) (\<lambda>s. bindE (hex_to_bytes s) (\<lambda>b. Inr (Some b)))) txs))"

definition broadcast_transaction :: "world \<Rightarrow> string \<Rightarrow> json call" where
  "broadcast_transaction world raw_tx = send_single world ''sendrawtransaction'' [JStr raw_tx]"

definition broadcast_package :: "world \<Rightarrow> string list \<Rightarrow> json call" where
  "broadcast_package world raw_txs = send_single world ''submitpackage'' [JList (map JStr raw_txs)]"

definition call_height :: "world \<Rightarrow> json call" where
  "call_height world =
     bindC (send_single world ''getblockcount'' []) (\<lambda>height d. Some (Inr height, d\<lparr>daemon_height := Some height\<rparr>))"

definition call_cached_height :: "client \<Rightarrow> json option" where
  "call_cached_height d = daemon_height d"

subsection \<open>The retry loop returns\<close>

text \<open>A client in order: it has URLs, each with a user part, as \<open>set_url\<close> leaves them; it is at one of them, and its
  delays are positive.\<close>

definition client_ok :: "client \<Rightarrow> bool" where
  "client_ok d \<longleftrightarrow> url_index d < length (urls d) \<and> 0 < init_retry d \<and> init_retry d \<le> max_retry d \<and>
     (\<forall>url \<in> set (urls d). CHR ''@'' \<in> set url)"

text \<open>From the \<open>k\<close>-th request on, URL \<open>j\<close> gives an answer the processor accepts or fails on.\<close>

definition answers :: "world \<Rightarrow> payload \<Rightarrow> (response \<Rightarrow> 'a processed) \<Rightarrow> string list \<Rightarrow> nat \<Rightarrow> nat \<Rightarrow> bool" where
  "answers world data processor us j k \<longleftrightarrow>
     (\<forall>d. k \<le> posted d \<and> urls d = us \<and> url_index d = j \<longrightarrow> attempt world data processor d \<noteq> Again)"

text \<open>What a returned result is: what some attempt gave, on a client that only moved along its URLs and slept
  allowed times.\<close>

definition sent :: "world \<Rightarrow> payload \<Rightarrow> (response \<Rightarrow> 'a processed) \<Rightarrow> client \<Rightarrow> (daemon_exn + 'a) \<Rightarrow> client \<Rightarrow> bool" where
  "sent world data processor d r d' \<longleftrightarrow>
     (\<exists>n i ss. posted d \<le> n \<and> i < length (urls d) \<and>
        d' = d\<lparr>posted := n + 1, url_index := i, sleeps := ss @ sleeps d\<rparr> \<and>
        (\<forall>s \<in> set ss. s = 0 \<or> init_retry d \<le> s \<and> s \<le> max_retry d) \<and>
        attempt world data processor (d\<lparr>posted := n, url_index := i\<rparr>) =
          (case r of Inr x \<Rightarrow> Done x | Inl e \<Rightarrow> Failed e))"

lemma attempt_cong:
  "posted d = posted d' \<Longrightarrow> urls d = urls d' \<Longrightarrow> url_index d = url_index d' \<Longrightarrow>
   attempt world data processor d = attempt world data processor d'"
  by (simp add: attempt_def current_url_def)

lemma send_loop_now:
  assumes "client_ok d" "attempt world data processor d \<noteq> Again"
  shows "\<exists>r d'. send_loop world data processor retry d = Some (r, d') \<and> sent world data processor d r d'"
proof -
  have d: "d\<lparr>posted := posted d, url_index := url_index d\<rparr> = d" "url_index d < length (urls d)"
    "d\<lparr>posted := posted d + 1\<rparr> = d\<lparr>posted := posted d + 1, url_index := url_index d, sleeps := [] @ sleeps d\<rparr>"
    using assms(1) by (simp_all add: client_ok_def)
  have sent: "sent world data processor d r (d\<lparr>posted := posted d + 1\<rparr>)"
    if "attempt world data processor d = (case r of Inr x \<Rightarrow> Done x | Inl e \<Rightarrow> Failed e)" for r
    unfolding sent_def
    by (rule exI [of _ "posted d"], rule exI [of _ "url_index d"], rule exI [of _ "[]"]) (use that d in simp)
  show ?thesis
  proof (cases "attempt world data processor d")
    case (Done x)
    then have "send_loop world data processor retry d = Some (Inr x, d\<lparr>posted := posted d + 1\<rparr>)"
      by (subst send_loop.simps) simp
    then show ?thesis using sent [of "Inr x"] Done by auto
  next
    case (Failed e)
    then have "send_loop world data processor retry d = Some (Inl e, d\<lparr>posted := posted d + 1\<rparr>)"
      by (subst send_loop.simps) simp
    then show ?thesis using sent [of "Inl e"] Failed by auto
  qed (use assms(2) in simp)
qed

text \<open>One error: the client moves on, the delay stays in its bounds.\<close>

lemma failover_ok:
  assumes "client_ok d"
  shows "failover d = (if length (urls d) > 1
     then (Inr True, d\<lparr>url_index := (url_index d + 1) mod length (urls d)\<rparr>) else (Inr False, d))"
proof -
  have "urls d ! ((url_index d + 1) mod length (urls d)) \<in> set (urls d)"
    using assms by (intro nth_mem mod_less_divisor) (auto simp: client_ok_def)
  then show ?thesis using assms by (auto simp: failover_def logged_url_def current_url_def client_ok_def Let_def)
qed

lemma after_error_returns:
  assumes "client_ok d"
  obtains retry' d' where "after_error retry (d\<lparr>posted := posted d + 1\<rparr>) = (Inr retry', d')"
proof -
  have "client_ok (d\<lparr>posted := posted d + 1\<rparr>)" using assms by (simp add: client_ok_def)
  note f = failover_ok [OF this]
  show thesis
  proof (cases "retry = max_retry d")
    case True
    with f that show thesis by (cases "1 < length (urls d)") (auto simp: after_error_def Let_def)
  next
    case False
    with that show thesis by (auto simp: after_error_def Let_def)
  qed
qed

lemma after_error_ok:
  assumes "client_ok d" "init_retry d \<le> retry" "retry \<le> max_retry d"
    and "after_error retry d = (Inr retry', d')"
  shows "init_retry d \<le> retry' \<and> retry' \<le> max_retry d"
    and "d' = d\<lparr>url_index := url_index d', sleeps := (if retry = max_retry d \<and> length (urls d) > 1 then 0 else retry) # sleeps d\<rparr>"
    and "url_index d' = (if retry = max_retry d then (url_index d + 1) mod length (urls d) else url_index d)"
    and "retry \<noteq> max_retry d \<Longrightarrow> retry' = min (max_retry d) (2 * retry)"
proof -
  have one: "(url_index d + 1) mod length (urls d) = url_index d" if "\<not> length (urls d) > 1"
  proof -
    have "length (urls d) = 1" "url_index d = 0" using that assms(1) by (auto simp: client_ok_def)
    then show ?thesis by simp
  qed
  show "init_retry d \<le> retry' \<and> retry' \<le> max_retry d"
    and "d' = d\<lparr>url_index := url_index d', sleeps := (if retry = max_retry d \<and> length (urls d) > 1 then 0 else retry) # sleeps d\<rparr>"
    and "url_index d' = (if retry = max_retry d then (url_index d + 1) mod length (urls d) else url_index d)"
    and "retry \<noteq> max_retry d \<Longrightarrow> retry' = min (max_retry d) (2 * retry)"
    using assms one failover_ok [OF assms(1)]
    by (auto simp: after_error_def client_ok_def Let_def max_def min_def split: if_splits)
qed

lemma posted_error_ok:
  assumes "client_ok d" "init_retry d \<le> retry" "retry \<le> max_retry d"
    and "after_error retry (d\<lparr>posted := posted d + 1\<rparr>) = (Inr retry', d')"
  shows "init_retry d \<le> retry' \<and> retry' \<le> max_retry d"
    and "d' = d\<lparr>posted := posted d + 1, url_index := url_index d',
        sleeps := (if retry = max_retry d \<and> length (urls d) > 1 then 0 else retry) # sleeps d\<rparr>"
    and "url_index d' = (if retry = max_retry d then (url_index d + 1) mod length (urls d) else url_index d)"
    and "retry \<noteq> max_retry d \<Longrightarrow> retry' = min (max_retry d) (2 * retry)"
proof -
  have "client_ok (d\<lparr>posted := posted d + 1\<rparr>)" using assms(1) by (simp add: client_ok_def)
  note e = after_error_ok [OF this _ _ assms(4)]
  show "init_retry d \<le> retry' \<and> retry' \<le> max_retry d"
    and "d' = d\<lparr>posted := posted d + 1, url_index := url_index d',
        sleeps := (if retry = max_retry d \<and> length (urls d) > 1 then 0 else retry) # sleeps d\<rparr>"
    and "url_index d' = (if retry = max_retry d then (url_index d + 1) mod length (urls d) else url_index d)"
    and "retry \<noteq> max_retry d \<Longrightarrow> retry' = min (max_retry d) (2 * retry)"
    using e assms(2,3) by simp_all
qed

lemma send_loop_again:
  assumes ok: "client_ok d" "init_retry d \<le> retry" "retry \<le> max_retry d"
    and again: "attempt world data processor d = Again"
    and err: "after_error retry (d\<lparr>posted := posted d + 1\<rparr>) = (Inr retry', d')"
    and rest: "\<exists>r d''. send_loop world data processor retry' d' = Some (r, d'') \<and> sent world data processor d' r d''"
  shows "\<exists>r d''. send_loop world data processor retry d = Some (r, d'') \<and> sent world data processor d r d''"
proof -
  obtain r d'' where r: "send_loop world data processor retry' d' = Some (r, d'')" "sent world data processor d' r d''"
    using rest by blast
  note e = posted_error_ok [OF ok err]
  have run: "send_loop world data processor retry d = Some (r, d'')"
    by (subst send_loop.simps) (simp only: again err r(1) processed.case prod.case sum.case)
  obtain n i ss where s: "posted d' \<le> n" "i < length (urls d')"
    "d'' = d'\<lparr>posted := n + 1, url_index := i, sleeps := ss @ sleeps d'\<rparr>"
    "\<forall>s \<in> set ss. s = 0 \<or> init_retry d' \<le> s \<and> s \<le> max_retry d'"
    "attempt world data processor (d'\<lparr>posted := n, url_index := i\<rparr>) = (case r of Inr x \<Rightarrow> Done x | Inl e \<Rightarrow> Failed e)"
    using r(2) unfolding sent_def by blast
  let ?s = "if retry = max_retry d \<and> length (urls d) > 1 then 0 else retry"
  have d': "posted d' = posted d + 1" "urls d' = urls d" "init_retry d' = init_retry d" "max_retry d' = max_retry d"
    "sleeps d' = ?s # sleeps d" "d'\<lparr>posted := n + 1, url_index := i, sleeps := ss @ sleeps d'\<rparr> =
      d\<lparr>posted := n + 1, url_index := i, sleeps := (ss @ [?s]) @ sleeps d\<rparr>"
    by (subst e(2), simp)+
  have att: "attempt world data processor (d\<lparr>posted := n, url_index := i\<rparr>) = (case r of Inr x \<Rightarrow> Done x | Inl e \<Rightarrow> Failed e)"
    using s(5) attempt_cong [of "d\<lparr>posted := n, url_index := i\<rparr>" "d'\<lparr>posted := n, url_index := i\<rparr>" world data processor] d'(2)
    by simp
  have "sent world data processor d r d''"
    unfolding sent_def
    by (rule exI [of _ n], rule exI [of _ i], rule exI [of _ "ss @ [?s]"]) (use s d' ok(2,3) att in auto)
  with run show ?thesis by blast
qed

text \<open>How far it is to the URL that answers, and how many delays until the next URL.\<close>

definition url_distance :: "nat \<Rightarrow> client \<Rightarrow> nat" where
  "url_distance j d = (j + length (urls d) - url_index d) mod length (urls d)"

lemma url_distance_step:
  assumes "i < n" "j < n" "i \<noteq> (j :: nat)"
  shows "(j + n - (i + 1) mod n) mod n + 1 = (j + n - i) mod n"
proof (cases "i + 1 = n")
  case True
  then show ?thesis using assms by (auto simp: mod_if)
next
  case False
  then have "(i + 1) mod n = i + 1" using assms(1) by simp
  then show ?thesis using assms by (auto simp: mod_if)
qed

lemma delays_left: "0 < (x :: rat) \<Longrightarrow> \<exists>n :: nat. m \<le> x * 2 ^ n"
proof -
  assume x: "0 < x"
  obtain n :: nat where "m < of_nat n * x" using ex_less_of_nat_mult [OF x] by blast
  also have "of_nat n * x \<le> 2 ^ n * x"
    using x of_nat_less_two_power [of n, where 'a = rat] by (intro mult_right_mono) auto
  finally show ?thesis by (auto simp: mult.commute intro!: exI [of _ n])
qed

lemma send_loop_answered:
  assumes "client_ok d" "init_retry d \<le> retry" "retry \<le> max_retry d" "j < length (urls d)"
    and "answers world data processor (urls d) j k" "k \<le> posted d"
    and "url_distance j d = m" "max_retry d \<le> retry * 2 ^ n"
  shows "\<exists>r d'. send_loop world data processor retry d = Some (r, d') \<and> sent world data processor d r d'"
  using assms
proof (induction m arbitrary: n d retry rule: less_induct)
  case (less m)
  note outer = less(1)
  have at_max: "\<exists>r d'. send_loop world data processor (max_retry d) d = Some (r, d') \<and> sent world data processor d r d'"
    if p: "client_ok d" "j < length (urls d)" "answers world data processor (urls d) j k" "k \<le> posted d" "url_distance j d = m"
      and again: "attempt world data processor d = Again" for d
  proof -
    have ne: "url_index d \<noteq> j" using p(3,4) again unfolding answers_def by blast
    obtain retry' d' where err: "after_error (max_retry d) (d\<lparr>posted := posted d + 1\<rparr>) = (Inr retry', d')"
      by (rule after_error_returns [OF p(1)])
    have ok: "init_retry d \<le> max_retry d" using p(1) by (simp add: client_ok_def)
    note e = posted_error_ok [OF p(1) ok order_refl err]
    have d': "urls d' = urls d" "init_retry d' = init_retry d" "max_retry d' = max_retry d" "posted d' = posted d + 1"
      by (subst e(2), simp)+
    have i': "url_index d' = (url_index d + 1) mod length (urls d)" using e(3) by simp
    have ok': "client_ok d'"
      using p(1) mod_less_divisor [of "length (urls d)" "url_index d + 1"] 
      by (cases "urls d = []") (simp_all add: client_ok_def d' i')
    have "url_distance j d' + 1 = url_distance j d"
      unfolding url_distance_def d' i' by (rule url_distance_step) (use p(1,2) ne in \<open>simp_all add: client_ok_def\<close>)
    then have dist: "url_distance j d' < m" using p(5) by simp
    obtain n' :: nat where n': "max_retry d' \<le> retry' * 2 ^ n'"
      using delays_left [of retry' "max_retry d'"] e(1) p(1) by (auto simp: client_ok_def)
    show ?thesis
      by (rule send_loop_again [OF p(1) ok order_refl again err])
        (rule outer [OF dist ok' _ _ _ _ _ refl n'], use p e d' i' in simp_all)
  qed
  from less(2-9) show ?case
  proof (induction n arbitrary: d retry)
    case (0 d retry)
    show ?case
    proof (cases "attempt world data processor d = Again")
      case True
      have "retry = max_retry d" using 0(3,8) by simp
      with at_max [OF 0(1,4-7) True] show ?thesis by simp
    qed (rule send_loop_now [OF 0(1)])
  next
    case (Suc n d retry)
    consider "attempt world data processor d \<noteq> Again" | "attempt world data processor d = Again" "retry = max_retry d"
      | "attempt world data processor d = Again" "retry \<noteq> max_retry d" by blast
    then show ?case
    proof cases
      case 1
      then show ?thesis by (rule send_loop_now [OF Suc(2)])
    next
      case 2
      with at_max [OF Suc(2,5-8)] show ?thesis by simp
    next
      case again: 3
      obtain retry' d' where err: "after_error retry (d\<lparr>posted := posted d + 1\<rparr>) = (Inr retry', d')"
        by (rule after_error_returns [OF Suc(2)])
      note e = posted_error_ok [OF Suc(2-4) err]
      have d': "urls d' = urls d" "init_retry d' = init_retry d" "max_retry d' = max_retry d" "posted d' = posted d + 1"
        by (subst e(2), simp)+
      have i': "url_index d' = url_index d" using e(3) again(2) by simp
      have ok': "client_ok d'" using Suc(2) by (auto simp: client_ok_def d' i')
      have "max_retry d \<le> max_retry d * 2 ^ n"
        using Suc(2) one_le_power [of "2 :: rat" n] mult_left_mono [of 1 "2 ^ n" "max_retry d"] by (simp add: client_ok_def)
      then have n': "max_retry d' \<le> retry' * 2 ^ n"
        using e(4) again Suc(9) by (simp add: d' min_def ac_simps)
      show ?thesis
        by (rule send_loop_again [OF Suc(2-4) again(1) err])
          (rule Suc(1) [OF ok' _ _ _ _ _ _ n'], use Suc(2-8) e d' i' in \<open>simp_all add: url_distance_def\<close>)
    qed
  qed
qed

lemma send_loop_eventually:
  assumes "client_ok d" "init_retry d \<le> retry" "retry \<le> max_retry d" "j < length (urls d)"
    and "answers world data processor (urls d) j k"
  shows "\<exists>r d'. send_loop world data processor retry d = Some (r, d') \<and> sent world data processor d r d'"
  using assms
proof (induction "k - posted d" arbitrary: d retry rule: less_induct)
  case less
  show ?case
  proof (cases "k \<le> posted d")
    case True
    obtain n :: nat where "max_retry d \<le> retry * 2 ^ n"
      using delays_left [of retry "max_retry d"] less(2,3) by (auto simp: client_ok_def)
    from send_loop_answered [OF less(2-6) True refl this] show ?thesis .
  next
    case False
    show ?thesis
    proof (cases "attempt world data processor d = Again")
      case again: True
      obtain retry' d' where err: "after_error retry (d\<lparr>posted := posted d + 1\<rparr>) = (Inr retry', d')"
        by (rule after_error_returns [OF less(2)])
      note e = posted_error_ok [OF less(2-4) err]
      have d': "urls d' = urls d" "init_retry d' = init_retry d" "max_retry d' = max_retry d" "posted d' = posted d + 1"
        by (subst e(2), simp)+
      have "url_index d' < length (urls d)"
        using e(3) less(2) mod_less_divisor [of "length (urls d)" "url_index d + 1"]
        by (cases "urls d = []") (simp_all add: client_ok_def split: if_splits)
      then have ok': "client_ok d'" using less(2) by (simp add: client_ok_def d')
      have "k - posted d' < k - posted d" using False by (simp add: d')
      from less(1) [OF this ok', of retry'] e(1) less(5,6) d'
      have "\<exists>r d''. send_loop world data processor retry' d' = Some (r, d'') \<and> sent world data processor d' r d''"
        by simp
      from send_loop_again [OF less(2-4) again err this] show ?thesis .
    qed (rule send_loop_now [OF less(2)])
  qed
qed

text \<open>A call that is not disturbed gets through.  If from some moment on any one of the configured daemons answers
  (with a result or a proper error; all others may time out, refuse or warm up forever) and no other call moves the index,
  the call returns: the loop of retries and fail-overs ends, what it returns is what an attempt on one of the URLs gave, and
  every sleep in between was none, right after a fail-over, or between the initial and the maximal delay.\<close>

theorem daemon_send_returns:
  assumes "client_ok d" "j < length (urls d)" "answers world data processor (urls d) j k"
  shows "\<exists>r d'. send world data processor d = Some (r, d') \<and> sent world data processor d r d'"
proof -
  have "init_retry d \<le> max_retry d" using assms(1) by (simp add: client_ok_def)
  from send_loop_eventually [OF assms(1) order_refl this assms(2,3)] show ?thesis by (simp add: send_def)
qed

definition sample_client :: client where
  "sample_client = \<lparr>urls = [''http://u:p@a/'', ''http://u:p@b/''], url_index = 0, init_retry = 1 / 4, max_retry = 4, daemon_height = None,
     available_rpcs = [], networkinfo_cache = (None, 0), posted = 0, sleeps = []\<rparr>"

definition sample_world :: world where
  "sample_world = (\<lambda>n url data.
     if url = ''http://u:p@a/'' then Fault TimeoutFault
     else if n < 7 then JsonOne \<lparr>item_error = [(''code'', JInt (-28))], item_result = JNull\<rparr>
     else JsonOne \<lparr>item_error = [], item_result = JInt 42\<rparr>)"

theorem daemon_send_returns_witness:
  "\<exists>d'. send_single sample_world ''getblockcount'' [] sample_client = Some (Inr (JInt 42), d') \<and> url_index d' = 1"
proof -
  let ?p = "Single ''getblockcount'' []"
  have ok: "client_ok sample_client" by (simp add: client_ok_def sample_client_def)
  have u: "urls sample_client = [''http://u:p@a/'', ''http://u:p@b/'']" "posted sample_client = 0" by (simp_all add: sample_client_def)
  have ans: "answers sample_world ?p single_processor (urls sample_client) 1 7"
    by (auto simp: answers_def attempt_def current_url_def sample_world_def single_processor_def sample_client_def)
  obtain r d' where r: "send sample_world ?p single_processor sample_client = Some (r, d')"
    and s: "sent sample_world ?p single_processor sample_client r d'"
    using daemon_send_returns [OF ok _ ans] by (auto simp: u)
  have len: "length (urls sample_client) = 2" by (simp add: u)
  obtain n i ss where n: "i < 2" "d' = sample_client\<lparr>posted := n + 1, url_index := i, sleeps := ss @ sleeps sample_client\<rparr>"
    and a: "attempt sample_world ?p single_processor (sample_client\<lparr>posted := n, url_index := i\<rparr>) =
      (case r of Inr x \<Rightarrow> Done x | Inl e \<Rightarrow> Failed e)"
    using s unfolding sent_def len by blast
  have "i = 1 \<and> r = Inr (JInt 42)"
  proof -
    consider "i = 0" | "i = 1" using n(1) by linarith
    then show ?thesis
      using a by cases (auto simp: attempt_def current_url_def sample_world_def sample_client_def single_processor_def
          RPC_IN_WARMUP_def err_code_def split: if_splits sum.splits)
  qed
  with r n(2) show ?thesis by (simp add: send_single_def)
qed

end
