(* ===== verification/DaemonVariants.thy ===== *)
theory DaemonVariants
  imports DaemonClient CoinHeaders
begin

unbundle bit_operations_syntax

section \<open>The daemons of other coins (server/daemon.py)\<close>

text \<open>
  The subclasses of \<open>Daemon\<close>.  \<open>LegacyRPCDaemon\<close> rebuilds a block from its JSON description; \<open>DecredDaemon\<close>
  takes the transactions out of blocks whose successor votes them invalid; \<open>ZcoinMtpDaemon\<close> takes proof
  data out of the hexadecimal block.  \<open>parse_time\<close> is \<open>timegm\<close> of \<open>strptime\<close>.
\<close>

subsection \<open>Dash, SmartCash and Zcoin\<close>

definition masternode_broadcast :: "string \<Rightarrow> world \<Rightarrow> json list \<Rightarrow> json call" where
  "masternode_broadcast method world params = send_single world method params"

definition masternode_list :: "string \<Rightarrow> world \<Rightarrow> json list \<Rightarrow> json call" where
  "masternode_list method world params = send_single world method params"

definition protx :: "world \<Rightarrow> json list \<Rightarrow> json call" where
  "protx world params = send_single world ''protx'' params"

definition smartrewards :: "world \<Rightarrow> json list \<Rightarrow> json call" where
  "smartrewards world params = send_single world ''smartrewards'' params"

definition MTP_HEADER_DATA_START :: nat where "MTP_HEADER_DATA_START = 180"
definition MTP_HEADER_DATA_END :: nat where "MTP_HEADER_DATA_END = 180 + 198864"

text \<open>\<open>is_mtp\<close> of a hexadecimal string.\<close>

definition is_mtp_hex :: "string \<Rightarrow> exn + nat" where
  "is_mtp_hex header = bindE (hex_to_bytes (slice header 0 8)) Zcoin_is_mtp"

definition strip_mtp_data :: "string \<Rightarrow> exn + string" where
  "strip_mtp_data raw_block =
     bindE (is_mtp_hex raw_block) (\<lambda>mtp.
       if mtp \<noteq> 0 then Inr (take (MTP_HEADER_DATA_START * 2) raw_block @ drop (MTP_HEADER_DATA_END * 2) raw_block)
       else Inr raw_block)"

definition zcoin_raw_blocks :: "world \<Rightarrow> string list \<Rightarrow> bytes list call" where
  "zcoin_raw_blocks world hex_hashes =
     bindC (send_vector world ''getblock'' (map (\<lambda>h. [JStr h, JBool False]) hex_hashes) False) (\<lambda>blocks.
     liftC (mapE (\<lambda>block. bindE (json_str block) (\<lambda>s. bindE (strip_mtp_data s) hex_to_bytes)) blocks))"

subsection \<open>FakeEstimateFeeDaemon\<close>

definition fake_estimatefee :: "rat \<Rightarrow> rat call" where "fake_estimatefee ESTIMATE_FEE = returnC ESTIMATE_FEE"

definition fake_relayfee :: "rat \<Rightarrow> rat call" where "fake_relayfee RELAY_FEE = returnC RELAY_FEE"

subsection \<open>LegacyRPCDaemon and PreLegacyRPCDaemon\<close>

definition json_int :: "exn \<Rightarrow> json option \<Rightarrow> exn + int" where
  "json_int e j = (case j of Some (JInt i) \<Rightarrow> Inr i | _ \<Rightarrow> Inl e)"

definition json_get_str :: "json \<Rightarrow> string \<Rightarrow> exn + string" where
  "json_get_str b k = bindE (json_get b k) (\<lambda>x. case x of Some (JStr s) \<Rightarrow> Inr s | _ \<Rightarrow> Inl TypeError)"

text \<open>\<open>int(s, 16)\<close> of the hexadecimal digits of \<open>bits\<close>.\<close>

fun hex_value :: "string \<Rightarrow> nat \<Rightarrow> exn + nat" where
  "hex_value [] v = Inr v"
| "hex_value (c # s) v = (case hex_digit_value c of None \<Rightarrow> Inl ValueError | Some d \<Rightarrow> hex_value s (16 * v + d))"

definition timestamp_safe :: "(string \<Rightarrow> exn + int) \<Rightarrow> json \<Rightarrow> exn + int" where
  "timestamp_safe parse_time t =
     (case t of JInt i \<Rightarrow> Inr i | JStr s \<Rightarrow> parse_time s | _ \<Rightarrow> Inl TypeError)"

definition make_raw_header :: "(string \<Rightarrow> exn + int) \<Rightarrow> json \<Rightarrow> exn + bytes" where
  "make_raw_header parse_time b =
     bindE (json_get b ''previousblockhash'') (\<lambda>pbh.
     let pbh = (case pbh of None \<Rightarrow> JStr (replicate 64 (CHR ''0'')) | Some JNull \<Rightarrow> JStr (replicate 64 (CHR ''0'')) | Some h \<Rightarrow> h) in
     bindE (bindE (json_get b ''version'') (json_int StructError)) (\<lambda>version.
     bindE (pack_le_uint32 version) (\<lambda>version.
     bindE (bindE (json_str pbh) hex_str_to_hash) (\<lambda>prev.
     bindE (bindE (json_get_str b ''merkleroot'') hex_str_to_hash) (\<lambda>merkleroot.
     bindE (bindE (json_item b ''time'') (timestamp_safe parse_time)) (\<lambda>time.
     bindE (pack_le_uint32 time) (\<lambda>time.
     bindE (bindE (json_get_str b ''bits'') (\<lambda>s. hex_value s 0)) (\<lambda>bits.
     bindE (pack_le_uint32 (int bits)) (\<lambda>bits.
     bindE (bindE (json_get b ''nonce'') (json_int TypeError)) (\<lambda>nonce.
     bindE (pack_le_uint32 nonce) (\<lambda>nonce.
     Inr (version @ prev @ merkleroot @ time @ bits @ nonce))))))))))))"

text \<open>The block from the header and the raw transactions; \<open>join\<close> fails on a \<open>None\<close> among them.\<close>

definition assemble_block :: "bytes \<Rightarrow> bytes option list \<Rightarrow> exn + bytes" where
  "assemble_block header transactions =
     (if length transactions > 0
      then bindE (pack_varint (int (length transactions))) (\<lambda>n.
           bindE (mapE (\<lambda>t. case t of None \<Rightarrow> Inl TypeError | Some b \<Rightarrow> Inr b) transactions) (\<lambda>bs.
           Inr (header @ n @ concat bs)))
      else Inr (header @ [0]))"

definition make_raw_block :: "world \<Rightarrow> (string \<Rightarrow> exn + int) \<Rightarrow> json \<Rightarrow> bytes call" where
  "make_raw_block world parse_time b =
     bindC (liftC (make_raw_header parse_time b)) (\<lambda>header.
     bindC (liftC (bindE (json_get b ''height'') (json_int TypeError))) (\<lambda>height.
     bindC (if height > 0
            then bindC (liftC (json_get b ''tx'')) (\<lambda>tx.
                 case tx of
                   Some (JList ids) \<Rightarrow> bindC (liftC (mapE json_str ids)) (\<lambda>ids. getrawtransactions world ids False)
                 | _ \<Rightarrow> raiseC (PyExn TypeError))
            else returnC []) (\<lambda>transactions.
     liftC (assemble_block header transactions))))"

fun mapC :: "('a \<Rightarrow> 'b call) \<Rightarrow> 'a list \<Rightarrow> 'b list call" where
  "mapC f [] = returnC []"
| "mapC f (x # xs) = bindC (f x) (\<lambda>y. bindC (mapC f xs) (\<lambda>ys. returnC (y # ys)))"

definition legacy_raw_blocks :: "world \<Rightarrow> (string \<Rightarrow> exn + int) \<Rightarrow> string list \<Rightarrow> bytes list call" where
  "legacy_raw_blocks world parse_time hex_hashes =
     bindC (send_vector world ''getblock'' (map (\<lambda>h. [JStr h]) hex_hashes) False) (mapC (make_raw_block world parse_time))"

definition prelegacy_deserialised_block :: "world \<Rightarrow> string \<Rightarrow> json call" where
  "prelegacy_deserialised_block world hex_hash = send_single world ''getblock'' [JStr hex_hash, JBool False]"

subsection \<open>DecredDaemon\<close>

definition prev_hex_hash :: "bytes \<Rightarrow> string" where
  "prev_hex_hash raw_block = hash_to_hex_str (slice raw_block 4 36)"

definition is_valid_tx_tree :: "int \<Rightarrow> bool" where
  "is_valid_tx_tree votebits \<longleftrightarrow> votebits AND 1 \<noteq> 0"

definition strip_tx_tree :: "(bytes \<Rightarrow> bytes) \<Rightarrow> coin \<Rightarrow> bytes \<Rightarrow> exn + bytes" where
  "strip_tx_tree blake256 c raw_block =
     (let n = nat (BASIC_HEADER_SIZE c) in
      bindE (dcr_read_tx_tree blake256 raw_block n) (\<lambda>(_, cursor).
      Inr (take n raw_block @ [0] @ drop cursor raw_block)))"

text \<open>The dictionary of what blocks say of their predecessors.\<close>

fun tx_tree_votes :: "bytes list \<Rightarrow> (string \<times> bool) list \<Rightarrow> exn + (string \<times> bool) list" where
  "tx_tree_votes [] valid_tx_tree = Inr valid_tx_tree"
| "tx_tree_votes (raw_block # rest) valid_tx_tree =
     bindE (unpack_le_unsigned_from 2 (slice raw_block 100 102) 0) (\<lambda>votebits.
     tx_tree_votes rest (AList.update (prev_hex_hash raw_block) (is_valid_tx_tree (int votebits)) valid_tx_tree))"

definition successor_vote :: "world \<Rightarrow> string \<Rightarrow> bool call" where
  "successor_vote world hash =
     bindC (send_single world ''getblockheader'' [JStr hash]) (\<lambda>header.
     bindC (liftC (json_get header ''nextblockhash'')) (\<lambda>next_hash.
     case next_hash of
       None \<Rightarrow> raiseC (DaemonError [])
     | Some next_hash \<Rightarrow>
         bindC (send_single world ''getblockheader'' [next_hash]) (\<lambda>next_header.
         bindC (liftC (bindE (json_item next_header ''votebits'') (\<lambda>v. json_int TypeError (Some v)))) (\<lambda>votebits.
         returnC (is_valid_tx_tree votebits)))))"

definition process_decred_block ::
  "world \<Rightarrow> (bytes \<Rightarrow> bytes) \<Rightarrow> coin \<Rightarrow> (string \<times> bool) list \<Rightarrow> string \<times> bytes \<Rightarrow> bytes call" where
  "process_decred_block world blake256 c valid_tx_tree = (\<lambda>(hash, raw_block).
     bindC (case map_of valid_tx_tree hash of Some v \<Rightarrow> returnC v | None \<Rightarrow> successor_vote world hash) (\<lambda>is_valid.
     if is_valid then returnC raw_block else liftC (strip_tx_tree blake256 c raw_block)))"

definition decred_raw_blocks :: "world \<Rightarrow> (bytes \<Rightarrow> bytes) \<Rightarrow> coin \<Rightarrow> string list \<Rightarrow> bytes list call" where
  "decred_raw_blocks world blake256 c hex_hashes =
     bindC (call_raw_blocks world hex_hashes) (\<lambda>raw_blocks.
     bindC (liftC (tx_tree_votes raw_blocks [])) (\<lambda>valid_tx_tree.
     mapC (process_decred_block world blake256 c valid_tx_tree) (zip hex_hashes raw_blocks)))"

definition decred_height :: "world \<Rightarrow> int call" where
  "decred_height world =
     bindC (call_height world) (\<lambda>height.
     bindC (liftC (json_int TypeError (Some height))) (\<lambda>height.
       if height > 0 then (\<lambda>d. Some (Inr (height - 1), d\<lparr>daemon_height := Some (JInt (height - 1))\<rparr>))
       else returnC height))"

definition decred_mempool_hashes :: "world \<Rightarrow> json list call" where
  "decred_mempool_hashes world =
     bindC (mempool_hashes world) (\<lambda>mempool.
     bindC (send_single world ''getblockcount'' []) (\<lambda>real_height.
     bindC (send_single world ''getblockhash'' [real_height]) (\<lambda>tip_hash.
     bindC (liftC (json_str tip_hash)) (\<lambda>tip_hash.
     bindC (deserialised_block world tip_hash) (\<lambda>tip.
     bindC (liftC (json_item tip ''tx'')) (\<lambda>tx.
     bindC (liftC (json_get tip ''stx'')) (\<lambda>stx.
     case (mempool, tx, stx) of
       (JList m, JList t, None) \<Rightarrow> returnC (m @ drop 1 t)
     | (JList m, JList t, Some (JList s)) \<Rightarrow> returnC (m @ drop 1 t @ s)
     | _ \<Rightarrow> raiseC (PyExn TypeError))))))))"

subsection \<open>What is rebuilt\<close>

text \<open>A rebuilt header has 80 bytes and the previous hash where the coin reads it, and a rebuilt block reads as
  the header and the transactions.\<close>

lemma raw_header_parts:
  assumes "make_raw_header parse_time b = Inr header" "json_get b ''previousblockhash'' = Inr (Some (JStr (hash_to_hex_str prev)))"
    and "json_get_str b ''merkleroot'' = Inr (hash_to_hex_str mroot)" "length prev = 32" "length mroot = 32"
  shows "length header = 80 \<and> coin_header_prevhash header = prev \<and> slice header 36 68 = mroot"
proof -
  have h: "hex_str_to_hash (hash_to_hex_str x) = Inr x" for x
    by (simp add: hex_str_to_hash_def hash_to_hex_str_def hex_to_bytes_encode)
  obtain v t bi n where e: "header = v @ prev @ mroot @ t @ bi @ n" "length v = 4" "length t = 4" "length bi = 4" "length n = 4"
    using assms(1-3) h
    by (auto simp: make_raw_header_def json_str_def bindE_Inr_iff pack_le_uint32_def pack_le_unsigned_def split: if_splits)
  then show ?thesis using assms(4,5) by (simp add: coin_header_prevhash_def slice_def)
qed

lemma assembled_block_reads:
  assumes "assemble_block header (map Some txs) = Inr raw" "list_all2 (\<lambda>b t. \<forall>L. reads L rd b t) txs ts"
  shows "read_tx_block rd raw (length header) = Inr (ts, length raw)"
proof -
  have rep: "reads L (repeatR (length txs) rd) (concat txs) ts" for L
    using assms(2)
  proof (induction rule: list_all2_induct)
    case (Cons b bs t ts)
    then have "reads L rd b t" by blast
    then show ?case
      unfolding length_Cons repeatR.simps concat.simps
      by (rule reads_bind) (rule reads_bind_last [OF Cons(3)], simp add: reads_return)
  qed (simp add: reads_return)
  have m: "mapE (\<lambda>t. case t of None \<Rightarrow> Inl TypeError | Some b \<Rightarrow> Inr b) (map Some txs) = Inr txs"
    by (induction txs) simp_all
  obtain n where n: "pack_varint (int (length txs)) = Inr n" "raw = header @ n @ concat txs"
  proof (cases "txs = []")
    case True
    with that [of "[0]"] assms(1) show ?thesis by (simp add: assemble_block_def pack_varint_def pack_byte_def pack_le_unsigned_def)
  next
    case False
    with that m assms(1) show ?thesis by (auto simp: assemble_block_def bindE_Inr_iff)
  qed
  have "reads L (read_tx_block rd) (n @ concat txs) ts" for L
    unfolding read_tx_block_def by (rule reads_bind [OF reads_varint [OF n(1)]]) (rule rep)
  from readsD [OF this, of header "[]"] show ?thesis by (simp add: n(2))
qed

end
