(* ===== verification/Peer.thy ===== *)
theory Peer
  imports DaemonClient Versions
begin

section \<open>Peer servers (lib/peer.py)\<close>

text \<open>
  A \<open>Peer\<close> is a value of the record \<open>peer\<close>, made from the features a server announces, which may be any JSON
  dictionary.  The properties that \<open>cachedproperty\<close> computes once are fields, as the constructor computes
  all of \<open>FEATURES\<close>.  An integer property is an optional JSON value, since Python counts \<open>true\<close> as an
  integer.  The module \<open>ipaddress\<close> and the host name check of aiorpcX are the record \<open>net_lib\<close>.
\<close>

subsection \<open>Addresses\<close>

datatype ip = IPv4 "32 word" | IPv6 "128 word"

record net_lib =
  parse_ip :: "string \<Rightarrow> ip option"
  ip_global :: "ip \<Rightarrow> bool"
  ip_private :: "ip \<Rightarrow> bool"
  ip_multicast :: "ip \<Rightarrow> bool"
  ip_unspecified :: "ip \<Rightarrow> bool"
  valid_hostname :: "string \<Rightarrow> bool"

text \<open>The string of a network of addresses stands for the address with its host bits cleared and the number of
  bits that are left; \<open>supernet n\<close> is the network of \<open>n\<close> bits around a single address.\<close>

datatype bucket = Onion | NoAddress | Single ip | Net ip nat

definition supernet :: "nat \<Rightarrow> ip \<Rightarrow> bucket" where
  "supernet n i =
     (case i of
        IPv4 w \<Rightarrow> Net (IPv4 (push_bit (32 - n) (drop_bit (32 - n) w))) n
      | IPv6 w \<Rightarrow> Net (IPv6 (push_bit (128 - n) (drop_bit (128 - n) w))) n)"

subsection \<open>Values of JSON\<close>

fun truthy :: "json \<Rightarrow> bool" where
  "truthy JNull = False"
| "truthy (JBool b) = b"
| "truthy (JInt i) = (i \<noteq> 0)"
| "truthy (JNum q) = (q \<noteq> 0)"
| "truthy (JStr s) = (s \<noteq> [])"
| "truthy (JList l) = (l \<noteq> [])"
| "truthy (JDict d) = (d \<noteq> [])"

text \<open>\<open>host in hosts\<close>\<close>

fun json_contains :: "string \<Rightarrow> json \<Rightarrow> exn + bool" where
  "json_contains x (JDict d) = Inr (map_of d x \<noteq> None)"
| "json_contains x (JList l) = Inr (JStr x \<in> set l)"
| "json_contains x (JStr s) = Inr (sublist x s)"
| "json_contains x _ = Inl TypeError"

fun int_value :: "json \<Rightarrow> int option" where
  "int_value (JInt i) = Some i"
| "int_value (JBool b) = Some (if b then 1 else 0)"
| "int_value _ = None"

definition json_opt :: "json option \<Rightarrow> json" where
  "json_opt v = (case v of None \<Rightarrow> JNull | Some j \<Rightarrow> j)"

definition version_arg :: "json option \<Rightarrow> pyval" where
  "version_arg v = (case v of Some (JStr s) \<Rightarrow> PyStr s | _ \<Rightarrow> PyNone)"

type_synonym json_dict = "(string \<times> json) list"

subsection \<open>Reading features\<close>

text \<open>The \<open>d\<close> of \<open>_integer\<close> is the dictionary given, unless it is missing or empty.\<close>

definition feature_integer :: "json_dict \<Rightarrow> string \<Rightarrow> json option \<Rightarrow> json option" where
  "feature_integer features key d =
     (let d = (case d of Some j \<Rightarrow> if truthy j then j else JDict features | None \<Rightarrow> JDict features);
          result = (case d of JDict dict \<Rightarrow> map_of dict key | _ \<Rightarrow> None)
      in case result of
           Some (JStr s) \<Rightarrow> map_option JInt (py_int s)
         | Some j \<Rightarrow> if int_value j \<noteq> None then Some j else None
         | None \<Rightarrow> None)"

definition feature_port :: "string \<Rightarrow> json_dict \<Rightarrow> string \<Rightarrow> json option" where
  "feature_port host features key =
     (case map_of features ''hosts'' of
        Some (JDict hosts) \<Rightarrow>
          (case feature_integer features key (map_of hosts host) of
             None \<Rightarrow> None
           | Some j \<Rightarrow> if truthy j \<and> 0 < the (int_value j) \<and> the (int_value j) < 65536 then Some j else None)
      | _ \<Rightarrow> None)"

definition feature_string :: "json_dict \<Rightarrow> string \<Rightarrow> string option" where
  "feature_string features key = (case map_of features key of Some (JStr s) \<Rightarrow> Some s | _ \<Rightarrow> None)"

definition feature_pruning :: "json_dict \<Rightarrow> json option" where
  "feature_pruning features =
     (case feature_integer features ''pruning'' None of
        None \<Rightarrow> None
      | Some j \<Rightarrow> if truthy j \<and> the (int_value j) > 0 then Some j else None)"

definition protocol_version_string :: "json_dict \<Rightarrow> string \<Rightarrow> string" where
  "protocol_version_string features key = version_string (protocol_tuple (version_arg (map_of features key)))"

subsection \<open>The class\<close>

record peer =
  host :: string
  features :: json_dict
  psource :: string
  ip_addr :: "string option"
  last_good :: rat
  last_try :: rat
  try_count :: nat
  bad :: bool
  other_port_pairs :: "(string \<times> json option) list"
  pruning :: "json option"
  server_version :: "string option"
  protocol_min :: string
  protocol_max :: string
  ssl_port :: "json option"
  tcp_port :: "json option"

text \<open>The loop over \<open>FEATURES\<close>: each property is computed from the features changed so far.\<close>

definition set_feature :: "string \<Rightarrow> json option \<Rightarrow> json_dict \<Rightarrow> json_dict" where
  "set_feature key v feats = AList.update key (json_opt v) feats"

definition canonical :: "string \<Rightarrow> json_dict \<Rightarrow> peer" where
  "canonical name f0 =
     (let pr = feature_pruning f0; f1 = set_feature ''pruning'' pr f0;
          sv = feature_string f1 ''server_version''; f2 = set_feature ''server_version'' (map_option JStr sv) f1;
          pmin = protocol_version_string f2 ''protocol_min''; f3 = set_feature ''protocol_min'' (Some (JStr pmin)) f2;
          pmax = protocol_version_string f3 ''protocol_max''; f4 = set_feature ''protocol_max'' (Some (JStr pmax)) f3;
          ssl = feature_port name f4 ''ssl_port''; f5 = set_feature ''ssl_port'' ssl f4;
          tcp = feature_port name f5 ''tcp_port''; f6 = set_feature ''tcp_port'' tcp f5
      in \<lparr>host = name, features = f6, psource = ''unknown'', ip_addr = None, last_good = 0, last_try = 0, try_count = 0,
          bad = False, other_port_pairs = [], pruning = pr, server_version = sv, protocol_min = pmin, protocol_max = pmax,
          ssl_port = ssl, tcp_port = tcp\<rparr>)"

definition new_peer :: "string \<Rightarrow> json \<Rightarrow> string \<Rightarrow> exn + peer" where
  "new_peer name feats source =
     (case feats of
        JDict f \<Rightarrow>
          bindE (json_contains name (case map_of f ''hosts'' of None \<Rightarrow> JDict [] | Some hosts \<Rightarrow> hosts)) (\<lambda>found.
          bindE (assertE found) (\<lambda>_. Inr ((canonical name f)\<lparr>psource := source\<rparr>)))
      | _ \<Rightarrow> Inl AssertionError)"

text \<open>The keys of a JSON dictionary are strings, so every host is one.\<close>

definition peers_from_features :: "json \<Rightarrow> string \<Rightarrow> exn + peer list" where
  "peers_from_features feats source =
     (case feats of
        JDict f \<Rightarrow> (case map_of f ''hosts'' of
                      Some (JDict hosts) \<Rightarrow> mapE (\<lambda>name. new_peer name feats source) (map fst hosts)
                    | _ \<Rightarrow> Inr [])
      | _ \<Rightarrow> Inr [])"

definition matches :: "peer \<Rightarrow> peer \<Rightarrow> bool" where
  "matches p other \<longleftrightarrow>
     lower (host other) = lower (host p) \<or> Some (lower (host other)) = ip_addr p \<or> ip_addr other = Some (host p)"

definition update_features_from_peer :: "peer \<Rightarrow> peer \<Rightarrow> peer" where
  "update_features_from_peer p other =
     p\<lparr>features := features other, pruning := pruning other, server_version := server_version other,
       protocol_min := protocol_min other, protocol_max := protocol_max other,
       ssl_port := ssl_port other, tcp_port := tcp_port other\<rparr>"

definition update_features :: "json \<Rightarrow> peer \<Rightarrow> exn + peer" where
  "update_features feats p =
     (case new_peer (host p) feats ''unknown'' of
        Inr tmp \<Rightarrow> Inr (update_features_from_peer p tmp)
      | Inl AssertionError \<Rightarrow> Inr p
      | Inl e \<Rightarrow> Inl e)"

definition mark_bad :: "peer \<Rightarrow> peer" where "mark_bad p = p\<lparr>bad := True\<rparr>"

definition add_pair :: "string \<times> json option \<Rightarrow> (string \<times> json option) list \<Rightarrow> (string \<times> json option) list" where
  "add_pair x xs = (if x \<in> set xs then xs else xs @ [x])"

definition check_ports :: "peer \<Rightarrow> peer \<Rightarrow> bool \<times> peer" where
  "check_ports p other =
     (let pairs = (if ssl_port other \<noteq> ssl_port p then add_pair (''SSL'', ssl_port other) (other_port_pairs p)
                   else other_port_pairs p);
          pairs = (if tcp_port other \<noteq> tcp_port p then add_pair (''TCP'', tcp_port other) pairs else pairs)
      in (pairs \<noteq> [], p\<lparr>other_port_pairs := pairs\<rparr>))"

datatype family = AF_INET | AF_INET6

text \<open>\<open>order\<close> is the order in which \<open>pop\<close> takes the pairs out of the set.\<close>

definition connection_tuples ::
  "net_lib \<Rightarrow> ((string \<times> json option) list \<Rightarrow> (string \<times> json option) list) \<Rightarrow> peer \<Rightarrow>
   (string \<times> json \<times> family) list \<times> peer" where
  "connection_tuples N order p =
     (let pairs = [(''SSL'', ssl_port p), (''TCP'', tcp_port p)] @ order (other_port_pairs p);
          families = (case parse_ip N (host p) of
                        Some (IPv4 _) \<Rightarrow> [AF_INET] | Some (IPv6 _) \<Rightarrow> [AF_INET6] | None \<Rightarrow> [AF_INET, AF_INET6])
      in (concat (map (\<lambda>(kind, port). case port of
                         Some j \<Rightarrow> if truthy j then map (\<lambda>fam. (kind, j, fam)) families else []
                       | None \<Rightarrow> []) pairs),
          p\<lparr>other_port_pairs := []\<rparr>))"

definition is_tor :: "peer \<Rightarrow> bool" where
  "is_tor p \<longleftrightarrow> suffix ''.onion'' (host p)"

definition is_valid :: "net_lib \<Rightarrow> peer \<Rightarrow> bool" where
  "is_valid N p =
     (case parse_ip N (host p) of
        Some i \<Rightarrow> (ip_global N i \<or> ip_private N i) \<and> \<not> (ip_multicast N i \<or> ip_unspecified N i)
      | None \<Rightarrow> valid_hostname N (host p))"

definition is_public :: "net_lib \<Rightarrow> peer \<Rightarrow> bool" where
  "is_public N p =
     (case parse_ip N (host p) of
        Some i \<Rightarrow> is_valid N p \<and> \<not> ip_private N i
      | None \<Rightarrow> is_valid N p \<and> host p \<noteq> ''localhost'')"

definition address_bucket :: "net_lib \<Rightarrow> (ip \<Rightarrow> bucket) \<Rightarrow> peer \<Rightarrow> exn + bucket" where
  "address_bucket N around p =
     (if is_tor p then Inr Onion
      else case ip_addr p of
        None \<Rightarrow> Inr NoAddress
      | Some a \<Rightarrow> if a = [] then Inr NoAddress
                  else (case parse_ip N a of None \<Rightarrow> Inl ValueError | Some i \<Rightarrow> Inr (around i)))"

definition bucket_for_internal_purposes :: "net_lib \<Rightarrow> peer \<Rightarrow> exn + bucket" where
  "bucket_for_internal_purposes N =
     address_bucket N (\<lambda>i. case i of IPv4 _ \<Rightarrow> Single i | IPv6 _ \<Rightarrow> supernet 64 i)"

definition bucket_for_external_interface :: "net_lib \<Rightarrow> peer \<Rightarrow> exn + bucket" where
  "bucket_for_external_interface N =
     address_bucket N (\<lambda>i. case i of IPv4 _ \<Rightarrow> supernet 16 i | IPv6 _ \<Rightarrow> supernet 56 i)"

definition opt_str :: "string option \<Rightarrow> json" where
  "opt_str s = (case s of None \<Rightarrow> JNull | Some x \<Rightarrow> JStr x)"

definition serialize_peer :: "peer \<Rightarrow> json_dict" where
  "serialize_peer p =
     [(''host'', JStr (host p)), (''features'', JDict (features p)), (''source'', JStr (psource p)),
      (''ip_addr'', opt_str (ip_addr p)), (''last_good'', JNum (last_good p)), (''last_try'', JNum (last_try p)),
      (''try_count'', JInt (int (try_count p)))]"

subsection \<open>Real names\<close>

text \<open>\<open>str.split()\<close>: the words between white space.\<close>

fun words_from :: "string \<Rightarrow> string \<Rightarrow> string list" where
  "words_from [] acc = (if acc = [] then [] else [acc])"
| "words_from (c # s) acc =
     (if is_space c then (if acc = [] then words_from s [] else acc # words_from s [])
      else words_from s (acc @ [c]))"

definition split_words :: "string \<Rightarrow> string list" where
  "split_words s = words_from s []"

definition show_number :: "json \<Rightarrow> string" where
  "show_number j = (case j of JInt i \<Rightarrow> show_int i | JBool b \<Rightarrow> (if b then ''True'' else ''False'') | _ \<Rightarrow> '''')"

text \<open>\<open>default_ports\<close> is \<open>DEFAULT_PORTS\<close>, whose values are strings: a port is never equal to one.\<close>

definition port_text :: "(string \<times> string) list \<Rightarrow> string \<Rightarrow> json \<Rightarrow> string" where
  "port_text default_ports letter port =
     (if Some port = map_option JStr (map_of default_ports letter) then letter else letter @ show_number port)"

definition port_part :: "(string \<times> string) list \<Rightarrow> string \<Rightarrow> json option \<Rightarrow> string list" where
  "port_part default_ports letter port =
     (case port of None \<Rightarrow> [] | Some j \<Rightarrow> if truthy j then [port_text default_ports letter j] else [])"

definition real_name :: "(string \<times> string) list \<Rightarrow> peer \<Rightarrow> string" where
  "real_name default_ports p =
     join '' '' ([host p, ''v'' @ protocol_max p]
       @ (case pruning p of
            None \<Rightarrow> [] | Some j \<Rightarrow> if truthy j then [''p'' @ show_int (the (int_value j))] else [])
       @ port_part default_ports ''s'' (ssl_port p) @ port_part default_ports ''t'' (tcp_port p))"

definition to_tuple :: "(string \<times> string) list \<Rightarrow> peer \<Rightarrow> string \<times> string \<times> string list" where
  "to_tuple default_ports p =
     (case ip_addr p of Some a \<Rightarrow> if a = [] then host p else a | None \<Rightarrow> host p,
      host p, tl (split_words (real_name default_ports p)))"

text \<open>The state of the loop over the words: the ports and the other features.\<close>

fun real_name_part ::
  "(string \<times> string) list \<Rightarrow> string \<Rightarrow> json_dict \<times> json_dict \<Rightarrow> exn + json_dict \<times> json_dict" where
  "real_name_part default_ports [] (ports, feats) = Inl IndexError"
| "real_name_part default_ports (c # rest) (ports, feats) =
     (if c = CHR ''s'' \<or> c = CHR ''t''
      then bindE (if rest = []
                  then (case map_of default_ports [c] of None \<Rightarrow> Inl KeyError | Some port \<Rightarrow> Inr port)
                  else Inr rest) (\<lambda>port.
           Inr (AList.update (if c = CHR ''s'' then ''ssl_port'' else ''tcp_port'') (JStr port) ports, feats))
      else if c = CHR ''v''
      then Inr (ports, AList.update ''protocol_max'' (JStr rest) (AList.update ''protocol_min'' (JStr rest) feats))
      else if c = CHR ''p'' then Inr (ports, AList.update ''pruning'' (JStr rest) feats)
      else Inr (ports, feats))"

definition from_real_name :: "(string \<times> string) list \<Rightarrow> string \<Rightarrow> string \<Rightarrow> exn + peer" where
  "from_real_name default_ports irc_name source =
     (let parts = split_words irc_name;
          name = (case parts of [] \<Rightarrow> ''nohost'' | h # _ \<Rightarrow> h)
      in bindE (foldE (real_name_part default_ports) (tl parts) ([], [])) (\<lambda>(ports, feats).
         let feats = foldl (\<lambda>f (k, v). AList.update k v f) feats ports;
             feats = AList.update ''hosts'' (JDict [(name, JDict ports)]) feats
         in new_peer name (JDict feats) source))"

end
