(* ===== verification/PeerFacts.thy ===== *)
theory PeerFacts
  imports Peer
begin

section \<open>Peers are well typed, and their real names read back (lib/peer.py)\<close>

subsection \<open>What the constructor makes of the features\<close>

lemma feature_integer_cong:
  "map_of f key = map_of g key \<Longrightarrow> feature_integer f key d = feature_integer g key d"
  by (auto simp: feature_integer_def Let_def split: option.splits)

lemma feature_port_cong:
  assumes "map_of f ''hosts'' = map_of g ''hosts''" "map_of f key = map_of g key"
  shows "feature_port h f key = feature_port h g key"
  unfolding feature_port_def assms(1) feature_integer_cong [OF assms(2)] ..

lemma feature_cong:
  "map_of f ''pruning'' = map_of g ''pruning'' \<Longrightarrow> feature_pruning f = feature_pruning g"
  "map_of f key = map_of g key \<Longrightarrow> feature_string f key = feature_string g key"
  "map_of f key = map_of g key \<Longrightarrow> protocol_version_string f key = protocol_version_string g key"
  using feature_integer_cong [of f "''pruning''" g None]
  by (auto simp: feature_pruning_def feature_string_def protocol_version_string_def)

lemma map_of_set_feature [simp]: "map_of (set_feature key v f) = (map_of f)(key \<mapsto> json_opt v)"
  by (simp add: set_feature_def)

lemma canonical_fields:
  "host (canonical h f) = h" "ssl_port (canonical h f) = feature_port h f ''ssl_port''"
  "tcp_port (canonical h f) = feature_port h f ''tcp_port''" "pruning (canonical h f) = feature_pruning f"
  "server_version (canonical h f) = feature_string f ''server_version''"
  "protocol_min (canonical h f) = protocol_version_string f ''protocol_min''"
  "protocol_max (canonical h f) = protocol_version_string f ''protocol_max''"
  "other_port_pairs (canonical h f) = []"
  unfolding canonical_def Let_def
  by (simp_all, (rule feature_port_cong feature_cong; simp)+)

text \<open>The features kept are the ones given with the six properties written over them.\<close>

lemma canonical_features:
  "map_of (features (canonical h f)) =
     (map_of f)(''pruning'' \<mapsto> json_opt (pruning (canonical h f)),
       ''server_version'' \<mapsto> opt_str (server_version (canonical h f)),
       ''protocol_min'' \<mapsto> JStr (protocol_min (canonical h f)), ''protocol_max'' \<mapsto> JStr (protocol_max (canonical h f)),
       ''ssl_port'' \<mapsto> json_opt (ssl_port (canonical h f)), ''tcp_port'' \<mapsto> json_opt (tcp_port (canonical h f)))"
  unfolding canonical_def Let_def
  by (simp add: json_opt_def opt_str_def split: option.splits)

subsection \<open>Well-typed peers\<close>

text \<open>A port is missing or an integer that a TCP port can be, the pruning level missing or positive, and the
  protocol versions are strings that \<open>version_string\<close> makes.  Integers are those of Python, so JSON's \<open>true\<close> can
  be one (the port 1).\<close>

definition port_typed :: "json option \<Rightarrow> bool" where
  "port_typed port =
     (case port of None \<Rightarrow> True
      | Some j \<Rightarrow> truthy j \<and> (case int_value j of None \<Rightarrow> False | Some n \<Rightarrow> 0 < n \<and> n < 65536))"

definition pruning_typed :: "json option \<Rightarrow> bool" where
  "pruning_typed v = (case v of None \<Rightarrow> True | Some j \<Rightarrow> truthy j \<and> (case int_value j of None \<Rightarrow> False | Some n \<Rightarrow> 0 < n))"

definition peer_typed :: "peer \<Rightarrow> bool" where
  "peer_typed p \<longleftrightarrow>
     port_typed (ssl_port p) \<and> port_typed (tcp_port p) \<and> list_all (\<lambda>(kind, port). port_typed port) (other_port_pairs p) \<and>
     pruning_typed (pruning p) \<and>
     protocol_min p \<in> range version_string \<and> protocol_max p \<in> range version_string \<and>
     map_of (features p) ''ssl_port'' = Some (json_opt (ssl_port p)) \<and>
     map_of (features p) ''tcp_port'' = Some (json_opt (tcp_port p)) \<and>
     map_of (features p) ''pruning'' = Some (json_opt (pruning p)) \<and>
     map_of (features p) ''server_version'' = Some (opt_str (server_version p)) \<and>
     map_of (features p) ''protocol_min'' = Some (JStr (protocol_min p)) \<and>
     map_of (features p) ''protocol_max'' = Some (JStr (protocol_max p))"

lemma feature_integer_typed: "feature_integer f key d = Some j \<Longrightarrow> \<exists>n. int_value j = Some n"
  by (auto simp: feature_integer_def Let_def split: option.splits json.splits if_splits)

lemma feature_port_typed: "port_typed (feature_port h f key)"
  using feature_integer_typed
  by (fastforce simp: feature_port_def port_typed_def split: option.splits json.splits)

lemma feature_pruning_typed: "pruning_typed (feature_pruning f)"
  using feature_integer_typed
  by (fastforce simp: feature_pruning_def pruning_typed_def split: option.splits)

lemma canonical_typed: "peer_typed (canonical h f)"
  unfolding peer_typed_def canonical_features
  by (simp add: canonical_fields feature_port_typed feature_pruning_typed protocol_version_string_def)

lemma peer_typed_source [simp]: "peer_typed (p\<lparr>psource := s\<rparr>) = peer_typed p"
  by (simp add: peer_typed_def)

lemma new_peer_cases:
  "(\<exists>f. feats = JDict f \<and> new_peer h feats s = Inr ((canonical h f)\<lparr>psource := s\<rparr>)) \<or>
   new_peer h feats s \<in> {Inl AssertionError, Inl TypeError}"
proof (cases feats)
  case (JDict f)
  obtain r where "json_contains h (case map_of f ''hosts'' of None \<Rightarrow> JDict [] | Some hosts \<Rightarrow> hosts) = r" by blast
  moreover from this have "r = Inl TypeError \<or> r = Inr True \<or> r = Inr False"
    by (cases "(h, case map_of f ''hosts'' of None \<Rightarrow> JDict [] | Some hosts \<Rightarrow> hosts)" rule: json_contains.cases) auto
  ultimately show ?thesis using JDict by (auto simp: new_peer_def)
qed (simp_all add: new_peer_def)

lemma new_peer_typed: "new_peer h feats s = Inr p \<Longrightarrow> peer_typed p \<and> host p = h \<and> psource p = s"
  using new_peer_cases [of feats h s] by (auto simp: canonical_typed canonical_fields)

lemma peers_from_features_ok: "\<exists>ps. peers_from_features feats s = Inr ps \<and> (\<forall>p \<in> set ps. peer_typed p \<and> psource p = s)"
proof -
  have "\<exists>ps. mapE (\<lambda>h. new_peer h (JDict f) s) hs = Inr ps \<and> (\<forall>p \<in> set ps. peer_typed p \<and> psource p = s)"
    if "map_of f ''hosts'' = Some (JDict hosts)" "set hs \<subseteq> fst ` set hosts" for f hosts hs
    using that(2)
  proof (induction hs)
    case (Cons h hs)
    then have "map_of hosts h \<noteq> None" by (simp add: map_of_eq_None_iff)
    then have "new_peer h (JDict f) s = Inr ((canonical h f)\<lparr>psource := s\<rparr>)"
      by (auto simp: new_peer_def that(1))
    with Cons show ?case by (auto simp: canonical_typed)
  qed simp
  then show ?thesis
    by (auto simp: peers_from_features_def split: json.splits option.splits)
qed

lemma update_features_cases:
  "(\<exists>f. feats = JDict f \<and> update_features feats p = Inr (update_features_from_peer p (canonical (host p) f))) \<or>
   update_features feats p = Inr p \<or> update_features feats p = Inl TypeError"
  using new_peer_cases [of feats "host p" "''unknown''"]
  by (auto simp: update_features_def update_features_from_peer_def)

lemma update_from_peer_typed:
  "peer_typed p \<Longrightarrow> peer_typed q \<Longrightarrow> peer_typed (update_features_from_peer p q)"
  by (simp add: peer_typed_def update_features_from_peer_def)

lemma list_all_add_pair: "list_all P xs \<Longrightarrow> P x \<Longrightarrow> list_all P (add_pair x xs)"
  by (simp add: add_pair_def)

lemma peer_typed_pairs:
  "peer_typed p \<Longrightarrow> list_all (\<lambda>(kind, port). port_typed port) pairs \<Longrightarrow> peer_typed (p\<lparr>other_port_pairs := pairs\<rparr>)"
  by (simp add: peer_typed_def)

lemma peer_typedD:
  "peer_typed p \<Longrightarrow> port_typed (ssl_port p) \<and> port_typed (tcp_port p) \<and> list_all (\<lambda>(kind, port). port_typed port) (other_port_pairs p)"
  by (simp add: peer_typed_def)

lemma check_ports_typed:
  assumes "peer_typed p" "peer_typed q"
  shows "peer_typed (snd (check_ports p q))"
  unfolding check_ports_def Let_def snd_conv
  using peer_typedD [OF assms(1)] peer_typedD [OF assms(2)]
  by (intro peer_typed_pairs assms(1)) (simp add: list_all_add_pair)

lemma connection_ports:
  assumes "peer_typed p" "set (order (other_port_pairs p)) = set (other_port_pairs p)"
    and "(kind, port, fam) \<in> set (fst (connection_tuples N order p))"
  shows "\<exists>n. int_value port = Some n \<and> 0 < n \<and> n < 65536"
proof -
  from assms(3) have "(kind, Some port) \<in> {(''SSL'', ssl_port p), (''TCP'', tcp_port p)} \<union> set (order (other_port_pairs p))"
    by (auto simp: connection_tuples_def split: option.splits ip.splits if_splits)
  then have "port_typed (Some port)"
    using assms(1,2) by (auto simp: peer_typed_def list_all_iff)
  then show ?thesis by (auto simp: port_typed_def split: option.splits)
qed

lemma peer_well_typed_parts:
  assumes "peer_typed p" "peer_typed q" "\<And>l. set (order l) = set l"
  shows "case new_peer h feats s of Inr r \<Rightarrow> peer_typed r \<and> host r = h | Inl e \<Rightarrow> e \<in> {AssertionError, TypeError}"
    and "\<exists>ps. peers_from_features feats s = Inr ps \<and> (\<forall>r \<in> set ps. peer_typed r)"
    and "case update_features feats p of Inr r \<Rightarrow> peer_typed r \<and> host r = host p | Inl e \<Rightarrow> e = TypeError"
    and "peer_typed (snd (check_ports p q)) \<and> peer_typed (mark_bad p) \<and> peer_typed (update_features_from_peer p q)"
    and "from_real_name ports irc_name s = Inr r \<Longrightarrow> peer_typed r"
    and "(kind, port, fam) \<in> set (fst (connection_tuples N order p)) \<Longrightarrow> \<exists>n. int_value port = Some n \<and> 0 < n \<and> n < 65536"
proof -
  show "case new_peer h feats s of Inr r \<Rightarrow> peer_typed r \<and> host r = h | Inl e \<Rightarrow> e \<in> {AssertionError, TypeError}"
    using new_peer_cases [of feats h s] by (auto simp: canonical_typed canonical_fields)
  show "\<exists>ps. peers_from_features feats s = Inr ps \<and> (\<forall>r \<in> set ps. peer_typed r)"
    using peers_from_features_ok by blast
  show "case update_features feats p of Inr r \<Rightarrow> peer_typed r \<and> host r = host p | Inl e \<Rightarrow> e = TypeError"
    using update_features_cases [of feats p] assms(1)
    by (auto simp: update_from_peer_typed canonical_typed) (simp add: update_features_from_peer_def)
  show "peer_typed (snd (check_ports p q)) \<and> peer_typed (mark_bad p) \<and> peer_typed (update_features_from_peer p q)"
    using assms by (simp add: check_ports_typed update_from_peer_typed) (simp add: mark_bad_def peer_typed_def)
  show "peer_typed r" if "from_real_name ports irc_name s = Inr r"
    using that by (auto simp: from_real_name_def Let_def err_simps dest!: new_peer_typed)
  show "\<exists>n. int_value port = Some n \<and> 0 < n \<and> n < 65536"
    if "(kind, port, fam) \<in> set (fst (connection_tuples N order p))"
    using connection_ports that assms by blast
qed

text \<open>C31: Whatever JSON the features are, a peer made from them is well typed: its ports, also those it tries to
  connect to, are missing or between 1 and 65535, its pruning level is missing or positive, its protocol
  versions are version strings, and the features it keeps say the same.  The constructor otherwise raises one
  of two exceptions.  A list of hosts never raises, and updating the features, noting the ports of another
  peer, marking as bad and reading a real name keep or give well-typed peers.\<close>

theorem peer_well_typed:
  assumes "peer_typed p" "peer_typed q" "\<And>l. set (order l) = set l"
  shows "(case new_peer h feats s of Inr r \<Rightarrow> peer_typed r \<and> host r = h | Inl e \<Rightarrow> e \<in> {AssertionError, TypeError})
    \<and> (\<exists>ps. peers_from_features feats s = Inr ps \<and> (\<forall>r \<in> set ps. peer_typed r))
    \<and> (case update_features feats p of Inr r \<Rightarrow> peer_typed r \<and> host r = host p | Inl e \<Rightarrow> e = TypeError)
    \<and> peer_typed (snd (check_ports p q)) \<and> peer_typed (mark_bad p) \<and> peer_typed (update_features_from_peer p q)
    \<and> (\<forall>r. from_real_name ports irc_name s = Inr r \<longrightarrow> peer_typed r)
    \<and> (\<forall>kind port fam. (kind, port, fam) \<in> set (fst (connection_tuples N order p)) \<longrightarrow>
         (\<exists>n. int_value port = Some n \<and> 0 < n \<and> n < 65536))"
  using peer_well_typed_parts [OF assms] by blast

definition sample_peer :: peer where
  "sample_peer = canonical ''a.org''
     [(''hosts'', JDict [(''a.org'', JDict [(''ssl_port'', JStr ''50002''), (''tcp_port'', JBool True)])]), (''pruning'', JInt 7)]"

definition sample_net :: net_lib where
  "sample_net = \<lparr>parse_ip = (\<lambda>_. None), ip_global = (\<lambda>_. True), ip_private = (\<lambda>_. False), ip_multicast = (\<lambda>_. False),
     ip_unspecified = (\<lambda>_. False), valid_hostname = (\<lambda>_. True)\<rparr>"

lemma sample_peer_typed: "peer_typed sample_peer"
  by (simp add: sample_peer_def canonical_typed)

lemma sample_ports: "ssl_port sample_peer = Some (JInt 50002)" "tcp_port sample_peer = Some (JBool True)"
  by (simp_all add: sample_peer_def canonical_fields feature_port_def feature_integer_def py_int_def strip_def is_space_def
      parse_nat_def digit_value_def)

theorem peer_well_typed_witness:
  "(''TCP'', JBool True, AF_INET6) \<in> set (fst (connection_tuples sample_net rev sample_peer)) \<and>
   (\<exists>n. int_value (JBool True) = Some n \<and> 0 < n \<and> n < 65536)"
proof
  show m: "(''TCP'', JBool True, AF_INET6) \<in> set (fst (connection_tuples sample_net rev sample_peer))"
    by (simp add: connection_tuples_def sample_ports sample_net_def)
  show "\<exists>n. int_value (JBool True) = Some n \<and> 0 < n \<and> n < 65536"
    using peer_well_typed [OF sample_peer_typed sample_peer_typed set_rev, of _ _ _ _ _ sample_net] m by blast
qed

subsection \<open>Real names\<close>

definition plain :: "string \<Rightarrow> bool" where
  "plain w \<longleftrightarrow> w \<noteq> [] \<and> (\<forall>c \<in> set w. \<not> is_space c)"

lemma words_from_plain: "\<forall>c \<in> set w. \<not> is_space c \<Longrightarrow> words_from (w @ s) acc = words_from s (acc @ w)"
  by (induction w arbitrary: acc) auto

lemma words_from_join:
  "\<forall>w \<in> set ws. plain w \<Longrightarrow> ws \<noteq> [] \<Longrightarrow> words_from (join '' '' ws) [] = ws"
proof (induction "'' ''" ws rule: join.induct)
  case (2 x)
  then show ?case using words_from_plain [of x "[]" "[]"] by (simp add: plain_def)
next
  case (3 x y zs)
  then have "words_from (join '' '' (y # zs)) [] = y # zs" by simp
  moreover have "is_space (CHR '' '')" by code_simp
  ultimately show ?case using 3(2) by (simp add: words_from_plain plain_def)
qed simp

lemma split_words_join: "\<forall>w \<in> set ws. plain w \<Longrightarrow> ws \<noteq> [] \<Longrightarrow> split_words (join '' '' ws) = ws"
  by (simp add: split_words_def words_from_join)

lemma show_int_plain: "plain (show_int n)"
proof -
  have "plain (show_nat m)" for m
    using show_nat_digits [of m] by (auto simp: plain_def dest: digit_char_plain(5))
  moreover have "\<not> is_space (CHR ''-'')" by code_simp
  ultimately show ?thesis by (auto simp: show_int_def plain_def)
qed

lemma plain_append: "plain a \<Longrightarrow> plain b \<Longrightarrow> plain (a @ b)"
  by (auto simp: plain_def)

lemma plain_join: "xs \<noteq> [] \<Longrightarrow> \<forall>x \<in> set xs. plain x \<Longrightarrow> plain (join ''.'' xs)"
proof (induction "''.''" xs rule: join.induct)
  case (3 x y zs)
  moreover have "plain ''.''" by code_simp
  ultimately show ?case by (simp add: plain_append del: append_Cons)
qed simp_all

lemma version_string_plain: "plain (version_string v)"
  unfolding version_string_def by (rule plain_join) (cases v; auto simp: show_int_plain)+

lemma letter_plain: "plain w \<Longrightarrow> c \<in> {CHR ''s'', CHR ''t'', CHR ''v'', CHR ''p''} \<Longrightarrow> plain (c # w)"
proof -
  have "\<not> is_space (CHR ''s'') \<and> \<not> is_space (CHR ''t'') \<and> \<not> is_space (CHR ''v'') \<and> \<not> is_space (CHR ''p'')" by code_simp
  then show "plain w \<Longrightarrow> c \<in> {CHR ''s'', CHR ''t'', CHR ''v'', CHR ''p''} \<Longrightarrow> plain (c # w)"
    by (auto simp: plain_def)
qed

lemma version_string_again: "version_string (protocol_tuple (PyStr (version_string v))) = version_string v"
  unfolding version_string_roundtrip by (simp add: version_string_def)

text \<open>A port or a pruning level that is an integer in the strict sense, as it is unless JSON's \<open>true\<close> was given.\<close>

definition strict_int :: "json option \<Rightarrow> bool" where
  "strict_int v = (case v of None \<Rightarrow> True | Some (JInt n) \<Rightarrow> True | _ \<Rightarrow> False)"

lemma strict_port: "port_typed v \<Longrightarrow> strict_int v \<Longrightarrow> v = None \<or> (\<exists>n. v = Some (JInt n) \<and> 0 < n \<and> n < 65536)"
  by (auto simp: port_typed_def strict_int_def split: option.splits json.splits)

lemma strict_pruning: "pruning_typed v \<Longrightarrow> strict_int v \<Longrightarrow> v = None \<or> (\<exists>n. v = Some (JInt n) \<and> 0 < n)"
  by (auto simp: pruning_typed_def strict_int_def split: option.splits json.splits)

text \<open>The words of a real name, and what the loop reads off them.\<close>

definition number_word :: "char \<Rightarrow> json option \<Rightarrow> string list" where
  "number_word c v = (case v of None \<Rightarrow> [] | Some j \<Rightarrow> [c # show_number j])"

definition name_words :: "string \<Rightarrow> json option \<Rightarrow> json option \<Rightarrow> json option \<Rightarrow> string list" where
  "name_words v pr ssl tcp =
     (CHR ''v'' # v) # number_word (CHR ''p'') pr @ number_word (CHR ''s'') ssl @ number_word (CHR ''t'') tcp"

lemma json_str_int: "Some (JInt n) \<noteq> map_option JStr v"
  by (cases v) auto

lemma number_word_simps [simp]:
  "number_word c None = []" "number_word c (Some (JInt n)) = [c # show_int n]"
  by (simp_all add: number_word_def show_number_def)

lemma port_part_word:
  "v = None \<or> (\<exists>n. v = Some (JInt n) \<and> 0 < n) \<Longrightarrow> port_part ports [c] v = number_word c v"
  by (auto simp: port_part_def port_text_def json_str_int number_word_def show_number_def)

lemma pruning_word:
  "v = None \<or> (\<exists>n. v = Some (JInt n) \<and> 0 < n) \<Longrightarrow>
   (case v of None \<Rightarrow> [] | Some j \<Rightarrow> if truthy j then [''p'' @ show_int (the (int_value j))] else []) = number_word (CHR ''p'') v"
  by auto

lemma real_name_words:
  assumes "pruning p = None \<or> (\<exists>n. pruning p = Some (JInt n) \<and> 0 < n)"
    "ssl_port p = None \<or> (\<exists>n. ssl_port p = Some (JInt n) \<and> 0 < n)" "tcp_port p = None \<or> (\<exists>n. tcp_port p = Some (JInt n) \<and> 0 < n)"
  shows "real_name ports p = join '' '' (host p # name_words (protocol_max p) (pruning p) (ssl_port p) (tcp_port p))"
  unfolding real_name_def pruning_word [OF assms(1)] port_part_word [OF assms(2)] port_part_word [OF assms(3)]
    name_words_def by simp

lemma name_words_plain:
  assumes "strict_int pr" "strict_int ssl" "strict_int tcp"
  shows "\<forall>w \<in> set (name_words (version_string v) pr ssl tcp). plain w"
proof -
  have nw: "\<forall>w \<in> set (number_word c x). plain w" if st: "strict_int x" and c: "c \<in> {CHR ''s'', CHR ''t'', CHR ''v'', CHR ''p''}" for c x
  proof (cases x)
    case (Some j)
    then obtain n where n: "j = JInt n" using st Some by (cases j) (auto simp: strict_int_def)
    have "plain (c # show_int n)" by (rule letter_plain [OF show_int_plain c])
    then show ?thesis unfolding Some n by simp
  qed simp
  have "plain (CHR ''v'' # version_string v)" by (rule letter_plain [OF version_string_plain]) simp
  with nw [OF assms(1), of "CHR ''p''"] nw [OF assms(2), of "CHR ''s''"] nw [OF assms(3), of "CHR ''t''"]
  show ?thesis by (simp add: name_words_def ball_Un)
qed

lemma show_int_nonempty: "show_int n \<noteq> []"
  using show_int_plain [of n] by (simp add: plain_def)

definition number_entry :: "string \<Rightarrow> json option \<Rightarrow> json_dict" where
  "number_entry key v = (case v of None \<Rightarrow> [] | Some j \<Rightarrow> [(key, JStr (show_number j))])"

lemma number_entry_simps [simp]:
  "number_entry key None = []" "number_entry key (Some (JInt n)) = [(key, JStr (show_int n))]"
  by (simp_all add: number_entry_def show_number_def)

abbreviation int_or_none :: "json option \<Rightarrow> bool" where
  "int_or_none v \<equiv> v = None \<or> (\<exists>n. v = Some (JInt n))"

lemma read_name_words:
  assumes "int_or_none pr" "int_or_none ssl" "int_or_none tcp"
  shows "foldE (real_name_part dp) (name_words v pr ssl tcp) ([], []) =
    Inr (number_entry ''ssl_port'' ssl @ number_entry ''tcp_port'' tcp,
         [(''protocol_min'', JStr v), (''protocol_max'', JStr v)] @ number_entry ''pruning'' pr)"
proof -
  have v: "foldE (real_name_part dp) ((CHR ''v'' # v) # ws) ([], []) =
      foldE (real_name_part dp) ws ([], [(''protocol_min'', JStr v), (''protocol_max'', JStr v)])" for ws
    by simp
  have p: "foldE (real_name_part dp) (number_word (CHR ''p'') pr @ ws) ([], [(''protocol_min'', JStr v), (''protocol_max'', JStr v)]) =
      foldE (real_name_part dp) ws ([], [(''protocol_min'', JStr v), (''protocol_max'', JStr v)] @ number_entry ''pruning'' pr)" for ws
    using assms(1) by auto
  have s: "foldE (real_name_part dp) (number_word (CHR ''s'') ssl @ ws) ([], f) =
      foldE (real_name_part dp) ws (number_entry ''ssl_port'' ssl, f)" for f ws
    using assms(2) by (auto simp: show_int_nonempty)
  have t: "foldE (real_name_part dp) (number_word (CHR ''t'') tcp) (number_entry ''ssl_port'' ssl, f) =
      Inr (number_entry ''ssl_port'' ssl @ number_entry ''tcp_port'' tcp, f)" for f
    using assms(2,3) by (auto simp: show_int_nonempty)
  show ?thesis unfolding name_words_def v p s t ..
qed

definition read_features :: "string \<Rightarrow> string \<Rightarrow> json option \<Rightarrow> json option \<Rightarrow> json option \<Rightarrow> json_dict" where
  "read_features h v pr ssl tcp =
     (let ports = number_entry ''ssl_port'' ssl @ number_entry ''tcp_port'' tcp
      in AList.update ''hosts'' (JDict [(h, JDict ports)]) (foldl (\<lambda>f (k, v). AList.update k v f)
           ([(''protocol_min'', JStr v), (''protocol_max'', JStr v)] @ number_entry ''pruning'' pr) ports))"

lemma number_entry_set: "number_entry k v = [] \<or> (\<exists>x. number_entry k v = [(k, x)])"
  by (simp add: number_entry_def split: option.split)

lemma read_features_at:
  "map_of (read_features h v pr ssl tcp) ''hosts'' =
     Some (JDict [(h, JDict (number_entry ''ssl_port'' ssl @ number_entry ''tcp_port'' tcp))])"
  "map_of (read_features h v pr ssl tcp) ''protocol_min'' = Some (JStr v)"
  "map_of (read_features h v pr ssl tcp) ''protocol_max'' = Some (JStr v)"
  "map_of (read_features h v pr ssl tcp) ''pruning'' = map_of (number_entry ''pruning'' pr) ''pruning''"
  "map_of (read_features h v pr ssl tcp) ''ssl_port'' = map_of (number_entry ''ssl_port'' ssl) ''ssl_port''"
  "map_of (read_features h v pr ssl tcp) ''tcp_port'' = map_of (number_entry ''tcp_port'' tcp) ''tcp_port''"
  unfolding read_features_def Let_def
  using number_entry_set [of "''ssl_port''" ssl] number_entry_set [of "''tcp_port''" tcp] number_entry_set [of "''pruning''" pr]
  by (elim disjE exE; simp)+

lemma read_ports:
  assumes "ssl = None \<or> (\<exists>n. ssl = Some (JInt n) \<and> 0 < n \<and> n < 65536)" "tcp = None \<or> (\<exists>n. tcp = Some (JInt n) \<and> 0 < n \<and> n < 65536)"
  shows "feature_port h (read_features h v pr ssl tcp) ''ssl_port'' = ssl" "feature_port h (read_features h v pr ssl tcp) ''tcp_port'' = tcp"
  unfolding feature_port_def feature_integer_def read_features_at
  using assms by (elim disjE exE conjE; simp add: py_int_show read_features_at)+

lemma read_pruning:
  "pr = None \<or> (\<exists>n. pr = Some (JInt n) \<and> 0 < n) \<Longrightarrow> feature_pruning (read_features h v pr ssl tcp) = pr"
  unfolding feature_pruning_def feature_integer_def by (elim disjE exE conjE; simp add: py_int_show read_features_at)

text \<open>The real name of a peer reads back as a peer with the same host, ports, pruning level and highest
  protocol version (which is then also its lowest), for every well-typed peer whose host is a word and whose
  numbers are integers in the strict sense.\<close>

theorem real_name_roundtrip:
  assumes "peer_typed p" "plain (host p)" "strict_int (ssl_port p)" "strict_int (tcp_port p)" "strict_int (pruning p)"
  shows "\<exists>q. from_real_name default_ports (real_name default_ports p) source = Inr q \<and> host q = host p \<and>
     ssl_port q = ssl_port p \<and> tcp_port q = tcp_port p \<and> pruning q = pruning p \<and>
     protocol_max q = protocol_max p \<and> protocol_min q = protocol_max p \<and> psource q = source"
proof -
  obtain v where v: "protocol_max p = version_string v" using assms(1) by (auto simp: peer_typed_def)
  have ssl: "ssl_port p = None \<or> (\<exists>n. ssl_port p = Some (JInt n) \<and> 0 < n \<and> n < 65536)"
    and tcp: "tcp_port p = None \<or> (\<exists>n. tcp_port p = Some (JInt n) \<and> 0 < n \<and> n < 65536)"
    and pr: "pruning p = None \<or> (\<exists>n. pruning p = Some (JInt n) \<and> 0 < n)"
    using assms strict_port strict_pruning by (auto simp: peer_typed_def)
  let ?ws = "name_words (protocol_max p) (pruning p) (ssl_port p) (tcp_port p)"
  have words: "split_words (real_name default_ports p) = host p # ?ws"
    using name_words_plain [OF assms(5,3,4)] assms(2) real_name_words [of p default_ports] ssl tcp pr
    by (subst real_name_words) (auto simp: v intro!: split_words_join)
  have "from_real_name default_ports (real_name default_ports p) source =
      new_peer (host p) (JDict (read_features (host p) (protocol_max p) (pruning p) (ssl_port p) (tcp_port p))) source"
    unfolding from_real_name_def Let_def words using read_name_words [of "pruning p" "ssl_port p" "tcp_port p"] ssl tcp pr
    by (auto simp: read_features_def)
  also have "\<dots> = Inr ((canonical (host p) (read_features (host p) (protocol_max p) (pruning p) (ssl_port p) (tcp_port p)))
      \<lparr>psource := source\<rparr>)"
    by (simp add: new_peer_def read_features_at)
  finally show ?thesis
    by (simp add: canonical_fields read_ports [OF ssl tcp] read_pruning [OF pr] protocol_version_string_def read_features_at
        version_arg_def) (simp add: v version_string_again)
qed

definition named_peer :: peer where
  "named_peer = canonical ''a.org''
     [(''hosts'', JDict [(''a.org'', JDict [(''ssl_port'', JStr ''50002'')])]), (''pruning'', JInt 7), (''protocol_max'', JStr ''1.4'')]"

theorem real_name_roundtrip_witness:
  "\<exists>q. from_real_name [(''s'', ''50002'')] (real_name [(''s'', ''50002'')] named_peer) ''irc'' = Inr q \<and> host q = ''a.org'' \<and>
     ssl_port q = Some (JInt 50002) \<and> tcp_port q = None \<and> pruning q = Some (JInt 7) \<and> psource q = ''irc''"
proof -
  have f: "host named_peer = ''a.org''" "ssl_port named_peer = Some (JInt 50002)" "tcp_port named_peer = None"
      "pruning named_peer = Some (JInt 7)"
    by (simp_all add: named_peer_def canonical_fields feature_port_def feature_pruning_def feature_integer_def py_int_def
        strip_def is_space_def parse_nat_def digit_value_def)
  have "peer_typed named_peer" by (simp add: named_peer_def canonical_typed)
  moreover have "plain (host named_peer)" unfolding f plain_def by (simp add: is_space_def)
  ultimately show ?thesis
    using real_name_roundtrip [of named_peer "[(''s'', ''50002'')]" "''irc''"] by (auto simp: f strict_int_def)
qed

text \<open>The comparison of a port with the default for its letter never holds, so a port is always written out.\<close>

lemma port_never_default: "port_text default_ports letter (JInt n) = letter @ show_int n"
  by (simp add: port_text_def json_str_int show_number_def)

end
