(* ===== verification/Peers.thy ===== *)
theory Peers
  imports PeerFacts
begin

section \<open>The peer manager (server/peers.py)\<close>

text \<open>
  Peers are objects that several sets refer to and that change in place, so the manager has a store of them
  and its sets hold numbers.  Times are what \<open>time.time()\<close> gives, random numbers and shuffles, the
  answers of a remote server and of name resolution are arguments.  Where the code raises \<open>BadPeerError\<close>
  or another error that a connection attempt can end with, the model gives an \<open>outcome\<close>.  In the source several peers may be
  verified at once; here the verification of a peer runs from its beginning to its end.
\<close>

datatype peer_status = PEER_GOOD | PEER_STALE | PEER_NEVER | PEER_BAD

definition STALE_SECS :: rat where "STALE_SECS = 3 * 3600"
definition WAKEUP_SECS :: rat where "WAKEUP_SECS = 300"
definition PEER_ADD_PAUSE :: rat where "PEER_ADD_PAUSE = 600"

datatype discovery = PD_OFF | PD_SELF | PD_ON

record peer_env =
  net :: net_lib
  default_ports :: "(string \<times> string) list"
  discovery :: discovery
  peer_announce :: bool
  force_proxy :: bool
  hard_coded :: "string list"
  genesis :: string

record peer_manager =
  store :: "nat \<Rightarrow> peer"
  fresh :: nat
  peers :: "nat list"
  myselves :: "nat list"
  permit_onion_peer_time :: rat
  proxy :: "string option"
  recent_peer_adds :: "(string \<times> rat) list"
  blacklist :: "string list"
  woken :: "nat list"
  monitored :: "nat list"

definition change :: "nat \<Rightarrow> (peer \<Rightarrow> peer) \<Rightarrow> peer_manager \<Rightarrow> peer_manager" where
  "change i f M = M\<lparr>store := (store M)(i := f (store M i))\<rparr>"

text \<open>Making a new object.\<close>

definition allocate :: "peer \<Rightarrow> peer_manager \<Rightarrow> nat \<times> peer_manager" where
  "allocate p M = (fresh M, M\<lparr>store := (store M)(fresh M := p), fresh := fresh M + 1\<rparr>)"

fun allocate_all :: "peer list \<Rightarrow> peer_manager \<Rightarrow> nat list \<times> peer_manager" where
  "allocate_all [] M = ([], M)"
| "allocate_all (p # ps) M = (let (i, M) = allocate p M; (is, M) = allocate_all ps M in (i # is, M))"

subsection \<open>Status of the peers\<close>

definition peer_status_of :: "rat \<Rightarrow> peer \<Rightarrow> peer_status" where
  "peer_status_of now p =
     (if bad p then PEER_BAD
      else if last_good p > now - STALE_SECS then PEER_GOOD
      else if last_good p \<noteq> 0 then PEER_STALE
      else PEER_NEVER)"

definition count_status :: "rat \<Rightarrow> peer_manager \<Rightarrow> peer_status \<Rightarrow> nat" where
  "count_status now M st = length (filter (\<lambda>i. peer_status_of now (store M i) = st) (peers M))"

definition peers_info :: "rat \<Rightarrow> peer_manager \<Rightarrow> (string \<times> nat) list" where
  "peers_info now M =
     [(''bad'', count_status now M PEER_BAD), (''good'', count_status now M PEER_GOOD),
      (''never'', count_status now M PEER_NEVER), (''stale'', count_status now M PEER_STALE), (''total'', length (peers M))]"

definition status_desc :: "peer_status \<Rightarrow> string" where
  "status_desc st = (case st of PEER_GOOD \<Rightarrow> ''good'' | PEER_STALE \<Rightarrow> ''stale'' | PEER_NEVER \<Rightarrow> ''never'' | PEER_BAD \<Rightarrow> ''bad'')"

definition rpc_data :: "rat \<Rightarrow> peer_manager \<Rightarrow> json_dict list" where
  "rpc_data now M =
     map (\<lambda>i. AList.update ''status'' (JStr (status_desc (peer_status_of now (store M i)))) (serialize_peer (store M i)))
       (filter (\<lambda>i. \<not> bad (store M i)) (sort_key (\<lambda>i. - last_good (store M i)) (peers M))
        @ filter (\<lambda>i. bad (store M i)) (sort_key (\<lambda>i. - last_good (store M i)) (peers M)))"

definition last_two_labels :: "string \<Rightarrow> string" where
  "last_two_labels name = join ''.'' (suffix_of 2 (split_on (CHR ''.'') name))"

definition is_blacklisted :: "peer_manager \<Rightarrow> peer \<Rightarrow> bool" where
  "is_blacklisted M p =
     (let name = lower (host p);
          second_level_domain = ''*.'' @ last_two_labels name
      in name \<in> set (blacklist M) \<or> second_level_domain \<in> set (blacklist M)
         \<or> (\<exists>a \<in> set (blacklist M). Some a = ip_addr p))"

text \<open>What one round of \<open>_refresh_blacklist\<close> does with the blacklist it got.\<close>

definition refresh_blacklist :: "string list \<Rightarrow> peer_manager \<Rightarrow> peer_manager" where
  "refresh_blacklist entries M =
     (let M = M\<lparr>blacklist := map lower entries\<rparr>
      in M\<lparr>woken := woken M @ filter (\<lambda>i. is_blacklisted M (store M i)) (peers M)\<rparr>)"

definition get_recent_good_peers :: "net_lib \<Rightarrow> rat \<Rightarrow> peer_manager \<Rightarrow> nat list" where
  "get_recent_good_peers N now M =
     filter (\<lambda>i. \<not> is_blacklisted M (store M i))
       (filter (\<lambda>i. last_good (store M i) > now - STALE_SECS \<and> \<not> bad (store M i) \<and> is_public N (store M i)) (peers M))"

subsection \<open>Registering ourselves\<close>

definition my_clearnet_peer :: "peer_manager \<Rightarrow> nat option" where
  "my_clearnet_peer M = (case filter (\<lambda>i. \<not> is_tor (store M i)) (myselves M) of [] \<Rightarrow> None | i # _ \<Rightarrow> Some i)"

definition features_to_register :: "peer_env \<Rightarrow> nat \<Rightarrow> peer list \<Rightarrow> peer_manager \<Rightarrow> json_dict option" where
  "features_to_register E i remote_peers M =
     (if \<not> peer_announce E \<or> i \<in> set (myselves M) then None
      else case my_clearnet_peer M of
        None \<Rightarrow> None
      | Some m \<Rightarrow>
          (let my = store M m in
           if \<not> is_public (net E) my then None
           else if list_ex (\<lambda>p. tcp_port p = tcp_port my \<and> ssl_port p = ssl_port my) (filter (matches my) remote_peers)
           then None else Some (features my)))"

subsection \<open>Noting peers\<close>

definition permit_new_onion_peer :: "rat \<Rightarrow> nat \<Rightarrow> peer_manager \<Rightarrow> bool \<times> peer_manager" where
  "permit_new_onion_peer now rnd M =
     (if now < permit_onion_peer_time M then (False, M)
      else (True, M\<lparr>permit_onion_peer_time := now + of_nat rnd\<rparr>))"

definition note_ports :: "nat \<Rightarrow> nat \<Rightarrow> peer_manager \<Rightarrow> peer_manager" where
  "note_ports i m M =
     (let (changed, q) = check_ports (store M m) (store M i); M = change m (\<lambda>_. q) M
      in if changed then M\<lparr>woken := woken M @ [m]\<rparr> else M)"

text \<open>The loop over the given peers, with \<open>match_set\<close> and \<open>new_peers\<close>.\<close>

fun note_loop ::
  "net_lib \<Rightarrow> bool \<Rightarrow> nat list \<Rightarrow> nat list \<times> nat list \<times> peer_manager \<Rightarrow> nat list \<times> nat list \<times> peer_manager" where
  "note_loop N ports [] (match_set, new_peers, M) = (match_set, new_peers, M)"
| "note_loop N ports (i # is) (match_set, new_peers, M) =
     (let p = store M i in
      if \<not> is_public N p \<or> (is_tor p \<and> proxy M = None) then note_loop N ports is (match_set, new_peers, M)
      else
        (let ms = filter (\<lambda>m. matches p (store M m)) match_set in
         if ms \<noteq> [] then note_loop N ports is (match_set, new_peers, if ports then fold (note_ports i) ms M else M)
         else note_loop N ports is (match_set @ [i], new_peers @ [i], M)))"

definition add_member :: "nat \<Rightarrow> nat list \<Rightarrow> nat list" where
  "add_member i is = (if i \<in> set is then is else is @ [i])"

definition note_peers :: "net_lib \<Rightarrow> (nat list \<Rightarrow> nat list) \<Rightarrow> nat option \<Rightarrow> bool \<Rightarrow> nat list \<Rightarrow> peer_manager \<Rightarrow> peer_manager" where
  "note_peers N shuffle limit ports is M =
     (let (_, new_peers, M) = note_loop N ports is (peers M, [], M);
          use_peers = (case limit of Some n \<Rightarrow> if n \<noteq> 0 then take n (shuffle new_peers) else new_peers | None \<Rightarrow> new_peers)
      in M\<lparr>peers := fold add_member use_peers (peers M), monitored := monitored M @ use_peers\<rparr>)"

definition import_peers :: "peer_env \<Rightarrow> peer_manager \<Rightarrow> exn + peer_manager" where
  "import_peers E M =
     bindE (if discovery E \<noteq> PD_SELF
            then mapE (\<lambda>name. from_real_name (default_ports E) name ''coins.py'') (hard_coded E) else Inr []) (\<lambda>ps.
     let (is, M) = allocate_all ps M in Inr (note_peers (net E) id None False (myselves M @ is) M))"

definition add_localRPC_peer :: "peer_env \<Rightarrow> (nat list \<Rightarrow> nat list) \<Rightarrow> string \<Rightarrow> peer_manager \<Rightarrow> exn + peer_manager" where
  "add_localRPC_peer E shuffle name M =
     bindE (from_real_name (default_ports E) name ''RPC'') (\<lambda>p.
     let (i, M) = allocate p M in Inr (note_peers (net E) shuffle (Some 2) True [i] M))"

text \<open>\<open>source\<close> is the address the request came from, \<open>resolved\<close> what the name of the peer resolves to, or
  \<open>None\<close> if it does not.\<close>

definition add_bucket :: "net_lib \<Rightarrow> peer \<Rightarrow> string" where
  "add_bucket N p = (if parse_ip N (host p) \<noteq> None then ''ip_addr'' else last_two_labels (lower (host p)))"

definition permit_add :: "rat \<Rightarrow> nat \<Rightarrow> string list option \<Rightarrow> string \<Rightarrow> peer \<Rightarrow> peer_manager \<Rightarrow> bool \<times> peer_manager" where
  "permit_add now rnd resolved src p M =
     (if is_tor p then permit_new_onion_peer now rnd M
      else (case resolved of None \<Rightarrow> False | Some addrs \<Rightarrow> src \<in> set addrs, M))"

definition on_add_peer ::
  "peer_env \<Rightarrow> (nat list \<Rightarrow> nat list) \<Rightarrow> rat \<Rightarrow> nat \<Rightarrow> string list option \<Rightarrow> json \<Rightarrow> string option \<Rightarrow>
   peer_manager \<Rightarrow> (exn + bool) \<times> peer_manager" where
  "on_add_peer E shuffle now rnd resolved feats source M =
     (if discovery E \<noteq> PD_ON then (Inr False, M)
      else case source of
        None \<Rightarrow> (Inr False, M)
      | Some src \<Rightarrow>
          (case peers_from_features feats src of
             Inl e \<Rightarrow> (Inl e, M)
           | Inr [] \<Rightarrow> (Inr False, M)
           | Inr (p # _) \<Rightarrow>
               (let bucket = add_bucket (net E) p;
                    last = (case map_of (recent_peer_adds M) bucket of None \<Rightarrow> 0 | Some t \<Rightarrow> t);
                    M = M\<lparr>recent_peer_adds := AList.update bucket now (recent_peer_adds M)\<rparr>
                in if last + PEER_ADD_PAUSE \<ge> now then (Inr False, M)
                   else
                     (let (permit, M) = permit_add now rnd resolved src p M;
                          (i, M) = allocate p M
                      in (Inr permit, if permit then note_peers (net E) shuffle (Some 2) True [i] M else M)))))"

subsection \<open>Reporting peers\<close>

definition bucket_peers :: "(bucket \<times> nat list) list \<Rightarrow> bucket \<Rightarrow> nat \<Rightarrow> (bucket \<times> nat list) list" where
  "bucket_peers buckets b i = AList.update b ((case map_of buckets b of None \<Rightarrow> [] | Some is \<Rightarrow> is) @ [i]) buckets"

fun bucket_loop ::
  "net_lib \<Rightarrow> peer_manager \<Rightarrow> nat list \<Rightarrow> nat list \<times> (bucket \<times> nat list) list \<Rightarrow> exn + nat list \<times> (bucket \<times> nat list) list" where
  "bucket_loop N M [] (onion_peers, buckets) = Inr (onion_peers, buckets)"
| "bucket_loop N M (i # is) (onion_peers, buckets) =
     (if is_tor (store M i) then bucket_loop N M is (onion_peers @ [i], buckets)
      else bindE (bucket_for_external_interface N (store M i)) (\<lambda>b.
           bucket_loop N M is (onion_peers, bucket_peers buckets b i)))"

definition subscribed_peers :: "peer_env \<Rightarrow> (nat list \<Rightarrow> nat list) \<Rightarrow> rat \<Rightarrow> bool \<Rightarrow> peer_manager \<Rightarrow> exn + nat list" where
  "subscribed_peers E shuffle now over_tor M =
     (let recent = get_recent_good_peers (net E) now M;
          mine = remdups (filter (\<lambda>i. last_good (store M i) > now - STALE_SECS) (myselves M))
      in bindE (bucket_loop (net E) M recent ([], [])) (\<lambda>(onion_peers, buckets).
         let ps = fold add_member (concat (map (\<lambda>(b, is). take 2 (shuffle is)) buckets)) mine;
             onion_peers = shuffle onion_peers;
             max_onion = (if over_tor then 50 else max 10 (length ps div 4))
         in Inr (fold add_member (take max_onion onion_peers) ps)))"

definition on_peers_subscribe ::
  "peer_env \<Rightarrow> (nat list \<Rightarrow> nat list) \<Rightarrow> rat \<Rightarrow> bool \<Rightarrow> peer_manager \<Rightarrow> exn + (string \<times> string \<times> string list) list" where
  "on_peers_subscribe E shuffle now over_tor M =
     bindE (subscribed_peers E shuffle now over_tor M) (\<lambda>is. Inr (map (\<lambda>i. to_tuple (default_ports E) (store M i)) is))"

subsection \<open>Verifying a peer\<close>

text \<open>How a connection attempt ends; \<open>Crash\<close> is an exception that \<open>_should_drop_peer\<close> does not catch.\<close>

datatype outcome = Verified | BadPeer | RPCFailure | NetFailure | Crash exn

text \<open>What the remote server answers, or how the request ends if it does not.\<close>

record remote =
  remote_ip :: "string option"
  version_answer :: "outcome + json"
  headers_answer :: "outcome + json"
  header_answer :: "int \<Rightarrow> outcome + json"
  features_answer :: "outcome + json"
  peers_answer :: "outcome + json"
  add_answer :: "outcome + json"

definition crashE :: "exn + 'a \<Rightarrow> outcome + 'a" where
  "crashE r = (case r of Inl e \<Rightarrow> Inl (Crash e) | Inr x \<Rightarrow> Inr x)"

definition badE :: "exn + 'a \<Rightarrow> outcome + 'a" where
  "badE r = (case r of Inl e \<Rightarrow> Inl BadPeer | Inr x \<Rightarrow> Inr x)"

definition check_version :: "json \<Rightarrow> outcome + string" where
  "check_version result = (case result of JList [JStr version, JStr protocol] \<Rightarrow> Inr version | _ \<Rightarrow> Inl BadPeer)"

definition check_headers :: "int \<Rightarrow> (int \<Rightarrow> exn + string) \<Rightarrow> remote \<Rightarrow> outcome + unit" where
  "check_headers our_height our_header R =
     bindE (headers_answer R) (\<lambda>result.
       case result of
         JDict d \<Rightarrow>
           (case Option.bind (map_of d ''height'') int_value of
              None \<Rightarrow> Inl BadPeer
            | Some their_height \<Rightarrow>
                if \<bar>our_height - their_height\<bar> > 5 then Inl BadPeer
                else
                  (let check_height = min our_height their_height in
                   bindE (crashE (our_header check_height)) (\<lambda>ours.
                   bindE (header_answer R check_height) (\<lambda>theirs.
                   if theirs = JStr ours then Inr () else Inl BadPeer))))
       | _ \<Rightarrow> Inl BadPeer)"

definition check_features :: "peer_env \<Rightarrow> remote \<Rightarrow> peer \<Rightarrow> outcome + peer" where
  "check_features E R p =
     bindE (features_answer R) (\<lambda>feats.
       case feats of
         JDict f \<Rightarrow>
           (case (case map_of f ''hosts'' of None \<Rightarrow> JDict [] | Some hosts \<Rightarrow> hosts) of
              JDict hosts \<Rightarrow>
                if map_of f ''genesis_hash'' \<noteq> Some (JStr (genesis E)) then Inl BadPeer
                else if lower (host p) \<in> lower ` set (map fst hosts) then crashE (update_features feats p)
                else Inl BadPeer
            | _ \<Rightarrow> Inl BadPeer)
       | _ \<Rightarrow> Inl BadPeer)"

definition subscribed_name :: "json \<Rightarrow> exn + string" where
  "subscribed_name u =
     (case u of
        JList (_ # JStr name # JList details # _) \<Rightarrow>
          bindE (mapE json_str details) (\<lambda>ws. Inr (join '' '' (name # ws)))
      | _ \<Rightarrow> Inl TypeError)"

definition check_peers :: "peer_env \<Rightarrow> remote \<Rightarrow> peer \<Rightarrow> outcome + peer list" where
  "check_peers E R p =
     bindE (peers_answer R) (\<lambda>raw_peers.
       case raw_peers of
         JList us \<Rightarrow> badE (bindE (mapE subscribed_name us) (\<lambda>names.
                            mapE (\<lambda>name. from_real_name (default_ports E) name (host p)) names))
       | _ \<Rightarrow> Inl BadPeer)"

text \<open>Too many onion peers, or another good peer in the same bucket.\<close>

definition check_bucket :: "peer_env \<Rightarrow> rat \<Rightarrow> nat \<Rightarrow> peer_manager \<Rightarrow> outcome + unit" where
  "check_bucket E now i M =
     (let recent = remove1 i (get_recent_good_peers (net E) now M);
          onion = filter (\<lambda>j. is_tor (store M j)) recent;
          clear = filter (\<lambda>j. \<not> is_tor (store M j)) recent
      in bindE (crashE (mapE (\<lambda>j. bucket_for_internal_purposes (net E) (store M j)) clear)) (\<lambda>bs.
         if is_tor (store M i)
         then (if length onion > length recent div 2 \<and> length recent div 2 \<ge> 100 then Inl BadPeer else Inr ())
         else bindE (crashE (bucket_for_internal_purposes (net E) (store M i))) (\<lambda>b.
              if b \<in> set bs then Inl BadPeer else Inr ())))"

text \<open>The three requests of the task group, run to the first failure in the order given.\<close>

datatype verify_task = HeadersTask | FeaturesTask | PeersTask

fun run_verify ::
  "peer_env \<Rightarrow> int \<Rightarrow> (int \<Rightarrow> exn + string) \<Rightarrow> remote \<Rightarrow> nat \<Rightarrow> verify_task list \<Rightarrow> peer list \<Rightarrow> peer_manager \<Rightarrow>
   (outcome + peer list) \<times> peer_manager" where
  "run_verify E height header R i [] ps M = (Inr ps, M)"
| "run_verify E height header R i (HeadersTask # ts) ps M =
     (case check_headers height header R of Inl r \<Rightarrow> (Inl r, M) | Inr _ \<Rightarrow> run_verify E height header R i ts ps M)"
| "run_verify E height header R i (FeaturesTask # ts) ps M =
     (case check_features E R (store M i) of
        Inl r \<Rightarrow> (Inl r, M) | Inr q \<Rightarrow> run_verify E height header R i ts ps (change i (\<lambda>_. q) M))"
| "run_verify E height header R i (PeersTask # ts) ps M =
     (case check_peers E R (store M i) of Inl r \<Rightarrow> (Inl r, M) | Inr qs \<Rightarrow> run_verify E height header R i ts qs M)"

definition set_server_version :: "string \<Rightarrow> peer \<Rightarrow> peer" where
  "set_server_version version p =
     p\<lparr>server_version := Some version, features := AList.update ''server_version'' (JStr version) (features p)\<rparr>"

definition record_address :: "remote \<Rightarrow> nat \<Rightarrow> peer_manager \<Rightarrow> peer_manager" where
  "record_address R i M =
     (if \<not> is_tor (store M i) \<and> remote_ip R \<noteq> None then change i (\<lambda>p. p\<lparr>ip_addr := remote_ip R\<rparr>) M else M)"

text \<open>What comes after the address is recorded.\<close>

definition verify_checked ::
  "peer_env \<Rightarrow> (nat list \<Rightarrow> nat list) \<Rightarrow> rat \<Rightarrow> int \<Rightarrow> (int \<Rightarrow> exn + string) \<Rightarrow> verify_task list \<Rightarrow> remote \<Rightarrow> nat \<Rightarrow>
   peer_manager \<Rightarrow> outcome \<times> peer_manager" where
  "verify_checked E shuffle now height header order R i M =
     (if is_blacklisted M (store M i) then (BadPeer, M)
      else case bindE (check_bucket E now i M) (\<lambda>_. bindE (version_answer R) check_version) of
        Inl r \<Rightarrow> (r, M)
      | Inr version \<Rightarrow>
          (case run_verify E height header R i order [] (change i (set_server_version version) M) of
             (Inl r, M) \<Rightarrow> (r, M)
           | (Inr ps, M) \<Rightarrow>
               (let (is, M) = allocate_all ps M;
                    M = note_peers (net E) shuffle (Some 2) False is M
                in case features_to_register E i ps M of
                     None \<Rightarrow> (Verified, M)
                   | Some _ \<Rightarrow> (case add_answer R of Inl r \<Rightarrow> (r, M) | Inr _ \<Rightarrow> (Verified, M)))))"

definition verify_peer ::
  "peer_env \<Rightarrow> (nat list \<Rightarrow> nat list) \<Rightarrow> rat \<Rightarrow> int \<Rightarrow> (int \<Rightarrow> exn + string) \<Rightarrow> verify_task list \<Rightarrow> remote \<Rightarrow> nat \<Rightarrow>
   peer_manager \<Rightarrow> outcome \<times> peer_manager" where
  "verify_peer E shuffle now height header order R i M =
     verify_checked E shuffle now height header order R i (record_address R i M)"

subsection \<open>Monitoring a peer\<close>

text \<open>The loop over the connection tuples; \<open>verify\<close> is one attempt.  It ends with whether the peer is good, or
  with \<open>None\<close> for the return where a proxy is needed and there is none.\<close>

fun attempt_loop ::
  "peer_env \<Rightarrow> ((string \<times> json \<times> family) \<Rightarrow> peer_manager \<Rightarrow> outcome \<times> peer_manager) \<Rightarrow> rat \<Rightarrow> nat \<Rightarrow>
   (string \<times> json \<times> family) list \<Rightarrow> peer_manager \<Rightarrow> (exn + bool option) \<times> peer_manager" where
  "attempt_loop E verify now i [] M = (Inr (Some False), M)"
| "attempt_loop E verify now i (t # ts) M =
     (let M = change i (\<lambda>p. p\<lparr>last_try := now\<rparr>) M in
      if (force_proxy E \<or> is_tor (store M i)) \<and> proxy M = None then (Inr None, M)
      else case verify t M of
        (Verified, M) \<Rightarrow> (Inr (Some True), M)
      | (BadPeer, M) \<Rightarrow> (Inr (Some False), change i mark_bad M)
      | (Crash e, M) \<Rightarrow> (Inl e, M)
      | (_, M) \<Rightarrow> attempt_loop E verify now i ts M)"

text \<open>One match of a peer that was just verified.\<close>

definition settle_match :: "net_lib \<Rightarrow> nat \<Rightarrow> nat \<Rightarrow> nat \<Rightarrow> peer_manager \<Rightarrow> exn + peer_manager" where
  "settle_match N n_matches i m M =
     (if parse_ip N (host (store M m)) \<noteq> None
      then Inr (if n_matches > 1 then M\<lparr>peers := remove1 m (peers M), woken := woken M @ [m]\<rparr> else M)
      else case map_of (features (store M m)) ''hosts'' of
        None \<Rightarrow> Inl KeyError
      | Some hosts \<Rightarrow>
          bindE (json_contains (host (store M i)) hosts) (\<lambda>found.
          Inr (if found \<and> m \<noteq> i then change m (\<lambda>q. update_features_from_peer q (store M i)) M else M)))"

definition should_drop_peer ::
  "peer_env \<Rightarrow> ((string \<times> json option) list \<Rightarrow> (string \<times> json option) list) \<Rightarrow>
   ((string \<times> json \<times> family) \<Rightarrow> peer_manager \<Rightarrow> outcome \<times> peer_manager) \<Rightarrow> rat \<Rightarrow> rat \<Rightarrow> nat \<Rightarrow> peer_manager \<Rightarrow>
   (exn + bool) \<times> peer_manager" where
  "should_drop_peer E pop verify now now' i M =
     (let M = change i (\<lambda>p. p\<lparr>try_count := try_count p + 1\<rparr>) M;
          (ts, p) = connection_tuples (net E) pop (store M i)
      in case attempt_loop E verify now i ts (change i (\<lambda>_. p) M) of
           (Inl e, M) \<Rightarrow> (Inl e, M)
         | (Inr None, M) \<Rightarrow> (Inr False, M)
         | (Inr (Some True), M) \<Rightarrow>
             (let M = change i (\<lambda>p. p\<lparr>try_count := 0, last_good := now', psource := ''peer''\<rparr>) M;
                  ms = filter (\<lambda>m. matches (store M i) (store M m)) (peers M)
              in case foldE (settle_match (net E) (length ms) i) ms M of
                   Inl e \<Rightarrow> (Inl e, M)
                 | Inr M \<Rightarrow> (Inr False, M\<lparr>recent_peer_adds := filter (\<lambda>(k, v). v + PEER_ADD_PAUSE < now') (recent_peer_adds M)\<rparr>))
         | (Inr (Some False), M) \<Rightarrow>
             (let p = store M i; try_limit = (if last_good p \<noteq> 0 \<and> \<not> bad p then 10 else 3)
              in (Inr (try_count p \<ge> try_limit), M)))"

definition monitor_pause :: "peer \<Rightarrow> rat" where
  "monitor_pause p = (if try_count p = 0 then STALE_SECS - WAKEUP_SECS * 2 else WAKEUP_SECS * 2 ^ try_count p)"

text \<open>One turn of the loop of \<open>_monitor_peer\<close>: \<open>None\<close> when the monitoring ends, otherwise how long it waits.\<close>

definition monitor_turn ::
  "(nat \<Rightarrow> peer_manager \<Rightarrow> (exn + bool) \<times> peer_manager) \<Rightarrow> nat \<Rightarrow> peer_manager \<Rightarrow> (exn + rat option) \<times> peer_manager" where
  "monitor_turn should_drop i M =
     (if i \<notin> set (peers M) then (Inr None, M)
      else case should_drop i M of
        (Inl e, M) \<Rightarrow> (Inl e, M)
      | (Inr True, M) \<Rightarrow> (Inr None, M\<lparr>peers := remove1 i (peers M)\<rparr>)
      | (Inr False, M) \<Rightarrow> (Inr (Some (monitor_pause (store M i))), M\<lparr>woken := filter (\<lambda>j. j \<noteq> i) (woken M)\<rparr>))"

end
