(* ===== verification/PeersFacts.thy ===== *)
theory PeersFacts
  imports Peers
begin

section \<open>The peer manager keeps one peer per host and reports a spread of peers\<close>

subsection \<open>The invariant\<close>

text \<open>Every object is well typed, the sets hold objects that were made, and no two peers in the set have the
  same host name up to case; every one of them is public.\<close>

definition manager_ok :: "net_lib \<Rightarrow> peer_manager \<Rightarrow> bool" where
  "manager_ok N M \<longleftrightarrow>
     distinct (peers M) \<and> (\<forall>i \<in> set (peers M) \<union> set (myselves M). i < fresh M) \<and>
     (\<forall>i < fresh M. peer_typed (store M i)) \<and>
     inj_on (\<lambda>i. lower (host (store M i))) (set (peers M)) \<and> (\<forall>i \<in> set (peers M). is_public N (store M i))"

text \<open>What every step but a change of the set keeps.\<close>

definition keeps :: "peer_manager \<Rightarrow> peer_manager \<Rightarrow> bool" where
  "keeps M M' \<longleftrightarrow>
     peers M' = peers M \<and> myselves M' = myselves M \<and> fresh M \<le> fresh M' \<and>
     (\<forall>i < fresh M. host (store M' i) = host (store M i)) \<and>
     ((\<forall>i < fresh M. peer_typed (store M i)) \<longrightarrow> (\<forall>i < fresh M'. peer_typed (store M' i)))"

lemma keeps_refl [simp]: "keeps M M"
  by (simp add: keeps_def)

lemma keeps_trans: "keeps M M' \<Longrightarrow> keeps M' M'' \<Longrightarrow> keeps M M''"
  unfolding keeps_def by force

lemma is_public_host: "host p = host q \<Longrightarrow> is_public N p = is_public N q"
  by (simp add: is_public_def is_valid_def split: option.split)

lemma hosts_inj:
  assumes "inj_on (\<lambda>i. lower (host (store M i))) A" "\<And>i. i \<in> A \<Longrightarrow> host (store M' i) = host (store M i)"
  shows "inj_on (\<lambda>i. lower (host (store M' i))) A"
  using assms by (simp add: inj_on_def)

lemma keeps_ok:
  assumes "manager_ok N M" "keeps M M'"
  shows "manager_ok N M'"
proof -
  have h: "host (store M' i) = host (store M i)" if "i \<in> set (peers M)" for i
    using assms that by (auto simp: manager_ok_def keeps_def)
  have "inj_on (\<lambda>i. lower (host (store M' i))) (set (peers M))"
    using assms(1) h by (auto simp: manager_ok_def intro: hosts_inj)
  moreover have "is_public N (store M' i)" if "i \<in> set (peers M)" for i
    using assms(1) that is_public_host [OF h [OF that]] by (simp add: manager_ok_def)
  ultimately show ?thesis
    using assms unfolding manager_ok_def keeps_def by (metis Un_iff order_less_le_trans)
qed

lemma keeps_change:
  assumes "\<And>p. host (f p) = host p" "peer_typed (store M i) \<Longrightarrow> peer_typed (f (store M i))"
  shows "keeps M (change i f M)"
  using assms by (auto simp: keeps_def change_def)

lemma keeps_fields:
  assumes "store M' = store M" "peers M' = peers M" "myselves M' = myselves M" "fresh M' = fresh M"
  shows "keeps M M'"
  using assms by (simp add: keeps_def)

lemma allocate_keeps: "peer_typed p \<Longrightarrow> allocate p M = (i, M') \<Longrightarrow> keeps M M' \<and> i < fresh M'"
  by (auto simp: allocate_def keeps_def less_Suc_eq)

lemma allocate_all_keeps:
  "\<forall>p \<in> set ps. peer_typed p \<Longrightarrow> allocate_all ps M = (is, M') \<Longrightarrow> keeps M M' \<and> (\<forall>i \<in> set is. i < fresh M')"
proof (induction ps arbitrary: M "is" M')
  case (Cons p ps)
  obtain i M1 js M2 where a: "allocate p M = (i, M1)" "allocate_all ps M1 = (js, M2)" by fastforce
  with Cons allocate_keeps [of p M i M1] have "keeps M M1" "i < fresh M1" "keeps M1 M2" "\<forall>i \<in> set js. i < fresh M2"
    by auto
  moreover have "is = i # js" "M' = M2" using Cons.prems a by auto
  ultimately show ?case by (auto intro: keeps_trans) (auto simp: keeps_def)
qed simp

subsection \<open>Noting peers\<close>

lemma check_ports_host [simp]: "host (snd (check_ports p q)) = host p"
  by (simp add: check_ports_def Let_def)

lemma note_ports_keeps:
  assumes "m < fresh M" "i < fresh M"
  shows "keeps M (note_ports i m M)"
proof -
  let ?M = "change m (\<lambda>_. snd (check_ports (store M m) (store M i))) M"
  have "keeps M ?M" using assms by (auto simp: keeps_def change_def check_ports_typed)
  moreover have "keeps ?M (note_ports i m M)"
    by (cases "check_ports (store M m) (store M i)") (simp add: note_ports_def Let_def keeps_fields)
  ultimately show ?thesis by (rule keeps_trans)
qed

lemma fold_note_ports_keeps:
  "\<forall>m \<in> set ms. m < fresh M \<Longrightarrow> i < fresh M \<Longrightarrow> keeps M (fold (note_ports i) ms M)"
proof (induction ms arbitrary: M)
  case (Cons m ms)
  have k: "keeps M (note_ports i m M)" using Cons.prems note_ports_keeps by simp
  then have "fresh M \<le> fresh (note_ports i m M)" by (simp add: keeps_def)
  then have "\<forall>m \<in> set ms. m < fresh (note_ports i m' M)" "i < fresh (note_ports i m M)" if "m' = m" for m'
    using Cons.prems that by (auto intro: order_less_le_trans)
  then have "keeps (note_ports i m M) (fold (note_ports i) ms (note_ports i m M))" by (intro Cons.IH) auto
  with k show ?case by (auto intro: keeps_trans)
qed simp

text \<open>The loop adds to \<open>match_set\<close> exactly the new peers, whose hosts are new.\<close>

definition note_inv :: "net_lib \<Rightarrow> nat list \<Rightarrow> nat list \<Rightarrow> peer_manager \<Rightarrow> bool" where
  "note_inv N match_set new_peers M \<longleftrightarrow>
     match_set = peers M @ new_peers \<and> inj_on (\<lambda>i. lower (host (store M i))) (set match_set) \<and>
     (\<forall>i \<in> set match_set. i < fresh M \<and> is_public N (store M i))"

lemma note_inv_keeps:
  assumes "note_inv N ms new M" "keeps M M'"
  shows "note_inv N ms new M'"
proof -
  have h: "host (store M' i) = host (store M i)" if "i \<in> set ms" for i
    using assms that by (auto simp: note_inv_def keeps_def)
  have "inj_on (\<lambda>i. lower (host (store M' i))) (set ms)"
    using assms(1) h by (auto simp: note_inv_def intro: hosts_inj)
  moreover have "is_public N (store M' i)" if "i \<in> set ms" for i
    using assms(1) that is_public_host [OF h [OF that]] by (simp add: note_inv_def)
  ultimately show ?thesis using assms unfolding note_inv_def keeps_def by fastforce
qed

lemma note_loop_inv:
  "note_inv N ms new M \<Longrightarrow> \<forall>i \<in> set is. i < fresh M \<Longrightarrow> note_loop N ports is (ms, new, M) = (ms', new', M') \<Longrightarrow>
   keeps M M' \<and> note_inv N ms' new' M'"
proof (induction "is" arbitrary: ms new M)
  case (Cons i "is")
  let ?p = "store M i" and ?ms = "filter (\<lambda>m. matches (store M i) (store M m)) ms"
  consider (skip) "\<not> is_public N ?p \<or> (is_tor ?p \<and> proxy M = None)"
    | (known) "is_public N ?p" "\<not> (is_tor ?p \<and> proxy M = None)" "?ms \<noteq> []"
    | (new) "is_public N ?p" "\<not> (is_tor ?p \<and> proxy M = None)" "?ms = []" by blast
  then show ?case
  proof cases
    case skip
    with Cons show ?thesis by (simp add: Let_def)
  next
    case known
    let ?M = "if ports then fold (note_ports i) ?ms M else M"
    have k: "keeps M ?M"
    proof -
      have "\<forall>m \<in> set ?ms. m < fresh M" using Cons.prems(1) unfolding note_inv_def by auto
      then show ?thesis using Cons.prems(2) fold_note_ports_keeps [of ?ms M i] by simp
    qed
    then have "note_inv N ms new ?M" "\<forall>i \<in> set is. i < fresh ?M"
      using note_inv_keeps [OF Cons.prems(1)] Cons.prems(2) by (auto simp: keeps_def)
    moreover have "note_loop N ports is (ms, new, ?M) = (ms', new', M')" using Cons.prems(3) known by (auto simp: Let_def)
    ultimately have "keeps ?M M' \<and> note_inv N ms' new' M'" by (rule Cons.IH)
    with k show ?thesis by (blast intro: keeps_trans)
  next
    case new
    let ?h = "\<lambda>j. lower (host (store M j))"
    have "?h i \<notin> ?h ` set ms" using new(3) by (auto simp: filter_empty_conv matches_def)
    moreover have "inj_on ?h (set ms)" using Cons.prems(1) unfolding note_inv_def by blast
    ultimately have "inj_on ?h (set (ms @ [i]))" by (simp add: inj_on_insert) blast
    then have "note_inv N (ms @ [i]) (new @ [i]) M"
      using Cons.prems(1,2) new(1) unfolding note_inv_def by simp
    moreover have "note_loop N ports is (ms @ [i], new @ [i], M) = (ms', new', M')"
      using Cons.prems(3) new by (auto simp: Let_def)
    ultimately show ?thesis using Cons.IH Cons.prems(2) by simp
  qed
qed simp

lemma fold_add_member: "set (fold add_member is xs) = set xs \<union> set is" "distinct xs \<Longrightarrow> distinct (fold add_member is xs)"
  by (induction "is" arbitrary: xs) (auto simp: add_member_def)

lemma note_peers_ok:
  assumes "manager_ok N M" "\<forall>i \<in> set is. i < fresh M" "\<And>l. set (shuffle l) = set l"
  shows "manager_ok N (note_peers N shuffle limit ports is M)" "fresh M \<le> fresh (note_peers N shuffle limit ports is M)"
proof -
  obtain ms new M' where loop: "note_loop N ports is (peers M, [], M) = (ms, new, M')" by (metis prod_cases3)
  have "note_inv N (peers M) [] M" using assms(1) by (simp add: manager_ok_def note_inv_def)
  from note_loop_inv [OF this assms(2) loop] have k: "keeps M M'" and inv: "note_inv N ms new M'" by auto
  define use where "use = (case limit of Some n \<Rightarrow> if n \<noteq> 0 then take n (shuffle new) else new | None \<Rightarrow> new)"
  have "set (take n (shuffle new)) \<subseteq> set new" for n using set_take_subset [of n "shuffle new"] assms(3) by simp
  then have sub: "set (peers M') \<union> set use \<subseteq> set ms" using inv by (auto simp: use_def note_inv_def split: option.splits)
  have eq: "note_peers N shuffle limit ports is M =
      M'\<lparr>peers := fold add_member use (peers M'), monitored := monitored M' @ use\<rparr>"
    by (simp add: note_peers_def loop use_def Let_def split: option.split)
  have "manager_ok N M'" by (rule keeps_ok [OF assms(1) k])
  then show "manager_ok N (note_peers N shuffle limit ports is M)"
    using sub inv unfolding eq manager_ok_def note_inv_def
    by (auto simp: fold_add_member intro: inj_on_subset)
  show "fresh M \<le> fresh (note_peers N shuffle limit ports is M)"
    using k unfolding eq keeps_def by simp
qed


subsection \<open>Every operation keeps the invariant\<close>

lemma manager_okD: "manager_ok N M \<Longrightarrow> i < fresh M \<Longrightarrow> peer_typed (store M i)"
  "manager_ok N M \<Longrightarrow> i \<in> set (peers M) \<Longrightarrow> i < fresh M"
  by (auto simp: manager_ok_def)

text \<open>\<open>grows N M M'\<close>: the invariant is kept and no object is lost.\<close>

definition grows :: "net_lib \<Rightarrow> peer_manager \<Rightarrow> peer_manager \<Rightarrow> bool" where
  "grows N M M' \<longleftrightarrow> (manager_ok N M \<longrightarrow> manager_ok N M' \<and> fresh M \<le> fresh M')"

lemma grows_refl [simp]: "grows N M M"
  by (simp add: grows_def)

lemma grows_trans: "grows N M M' \<Longrightarrow> grows N M' M'' \<Longrightarrow> grows N M M''"
  by (auto simp: grows_def)

lemma keeps_grows: "keeps M M' \<Longrightarrow> grows N M M'"
  unfolding grows_def by (auto intro: keeps_ok) (simp add: keeps_def)

lemma grows_change:
  "(\<And>p. host (f p) = host p) \<Longrightarrow> (\<And>p. peer_typed p \<Longrightarrow> peer_typed (f p)) \<Longrightarrow> grows N M (change i f M)"
  by (intro keeps_grows keeps_change) auto

lemma grows_fields:
  "store M' = store M \<Longrightarrow> peers M' = peers M \<Longrightarrow> myselves M' = myselves M \<Longrightarrow> fresh M' = fresh M \<Longrightarrow> grows N M M'"
  by (intro keeps_grows keeps_fields)

lemma grows_remove:
  "store M' = store M \<Longrightarrow> peers M' = remove1 m (peers M) \<Longrightarrow> myselves M' = myselves M \<Longrightarrow> fresh M' = fresh M \<Longrightarrow> grows N M M'"
  by (auto simp: grows_def manager_ok_def intro: inj_on_subset dest: subsetD [OF set_remove1_subset])

lemma typed_fields [simp]:
  "peer_typed (p\<lparr>last_try := t\<rparr>) = peer_typed p" "peer_typed (p\<lparr>ip_addr := a\<rparr>) = peer_typed p"
  "peer_typed (p\<lparr>try_count := n, last_good := t, psource := s\<rparr>) = peer_typed p" "peer_typed (p\<lparr>try_count := n\<rparr>) = peer_typed p"
  "peer_typed (p\<lparr>try_count := n, last_good := t\<rparr>) = peer_typed p"
  "peer_typed (mark_bad p) = peer_typed p" "host (mark_bad p) = host p"
  "host (set_server_version v p) = host p" "host (update_features_from_peer p q) = host p"
  by (simp_all add: peer_typed_def mark_bad_def set_server_version_def update_features_from_peer_def)

lemma set_server_version_typed: "peer_typed p \<Longrightarrow> peer_typed (set_server_version v p)"
  by (simp add: peer_typed_def set_server_version_def opt_str_def)

lemma from_real_name_typed: "from_real_name ports name s = Inr p \<Longrightarrow> peer_typed p"
  by (auto simp: from_real_name_def Let_def err_simps dest!: new_peer_typed)

lemma mapE_all:
  assumes "\<And>x y. f x = Inr y \<Longrightarrow> P y"
  shows "mapE f xs = Inr ys \<Longrightarrow> \<forall>y \<in> set ys. P y"
proof (induction xs arbitrary: ys)
  case (Cons x xs)
  then obtain y ys' where y: "f x = Inr y" "mapE f xs = Inr ys'" "ys = y # ys'" by (auto simp: err_simps)
  with Cons.IH [OF y(2)] assms [OF y(1)] show ?case by simp
qed simp

lemma note_new_grows:
  assumes "\<forall>p \<in> set ps. peer_typed p" "\<And>l. set (shuffle l) = set l" "allocate_all ps M = (is, M')"
    "set js \<subseteq> set is \<union> set (myselves M)"
  shows "grows N M (note_peers N shuffle limit ports js M')"
proof -
  have k: "keeps M M'" and i: "\<forall>i \<in> set is. i < fresh M'" using allocate_all_keeps [OF assms(1,3)] by auto
  have "manager_ok N (note_peers N shuffle limit ports js M') \<and> fresh M' \<le> fresh (note_peers N shuffle limit ports js M')"
    if "manager_ok N M"
  proof -
    have ok: "manager_ok N M'" by (rule keeps_ok [OF that k])
    have "\<forall>j \<in> set (myselves M'). j < fresh M'" using ok by (simp add: manager_ok_def)
    moreover have "myselves M' = myselves M" using k by (simp add: keeps_def)
    ultimately have js: "\<forall>j \<in> set js. j < fresh M'" using i assms(4) by auto
    show ?thesis using note_peers_ok [OF ok js assms(2)] by simp
  qed
  then show ?thesis using k by (auto simp: grows_def keeps_def)
qed

lemma update_features_keeps:
  "update_features feats p = Inr q \<Longrightarrow> host q = host p \<and> (peer_typed p \<longrightarrow> peer_typed q)"
  using update_features_cases [of feats p] by (auto simp: update_from_peer_typed canonical_typed)

lemma check_features_update:
  assumes "check_features E R p = Inr q"
  shows "\<exists>feats. update_features feats p = Inr q"
proof -
  from assms obtain feats where "(case feats of
         JDict f \<Rightarrow>
           (case (case map_of f ''hosts'' of None \<Rightarrow> JDict [] | Some hosts \<Rightarrow> hosts) of
              JDict hosts \<Rightarrow>
                if map_of f ''genesis_hash'' \<noteq> Some (JStr (genesis E)) then Inl BadPeer
                else if lower (host p) \<in> lower ` set (map fst hosts) then crashE (update_features feats p)
                else Inl BadPeer
            | _ \<Rightarrow> Inl BadPeer)
       | _ \<Rightarrow> Inl BadPeer) = Inr q"
    unfolding check_features_def bindE_Inr_iff by blast
  then have "crashE (update_features feats p) = Inr q"
    by (simp split: json.splits if_splits)
  then show ?thesis by (cases "update_features feats p") (auto simp: crashE_def)
qed

lemma check_peers_typed:
  assumes "check_peers E R p = Inr qs"
  shows "\<forall>q \<in> set qs. peer_typed q"
proof -
  from assms obtain raw where "(case raw of
         JList us \<Rightarrow> badE (bindE (mapE subscribed_name us) (\<lambda>names.
                            mapE (\<lambda>name. from_real_name (default_ports E) name (host p)) names))
       | _ \<Rightarrow> Inl BadPeer) = Inr qs"
    unfolding check_peers_def bindE_Inr_iff by blast
  then obtain us where
    "badE (bindE (mapE subscribed_name us) (mapE (\<lambda>name. from_real_name (default_ports E) name (host p)))) = Inr qs"
    by (cases raw) auto
  then obtain names where "mapE (\<lambda>name. from_real_name (default_ports E) name (host p)) names = Inr qs"
    by (cases "mapE subscribed_name us") (auto simp: badE_def split: sum.splits)
  then show ?thesis by (rule mapE_all [rotated]) (rule from_real_name_typed)
qed

lemma run_verify_grows:
  "run_verify E height header R i ts ps M = (r, M') \<Longrightarrow> \<forall>p \<in> set ps. peer_typed p \<Longrightarrow>
   grows N M M' \<and> (case r of Inl _ \<Rightarrow> True | Inr qs \<Rightarrow> \<forall>p \<in> set qs. peer_typed p)"
proof (induction ts arbitrary: ps M)
  case Nil
  then have "r = Inr ps" "M' = M" by auto
  with Nil.prems(2) show ?case by simp
next
  case (Cons t ts)
  show ?case
  proof (cases t)
    case HeadersTask
    with Cons show ?thesis by (cases "check_headers height header R") auto
  next
    case FeaturesTask
    show ?thesis
    proof (cases "check_features E R (store M i)")
      case (Inr q)
      then have "host q = host (store M i) \<and> (peer_typed (store M i) \<longrightarrow> peer_typed q)"
        using check_features_update update_features_keeps by blast
      then have "keeps M (change i (\<lambda>_. q) M)" by (simp add: keeps_def change_def)
      moreover have "grows N (change i (\<lambda>_. q) M) M' \<and> (case r of Inl _ \<Rightarrow> True | Inr qs \<Rightarrow> \<forall>p \<in> set qs. peer_typed p)"
        using Cons.prems FeaturesTask Inr by (intro Cons.IH) auto
      ultimately show ?thesis using grows_trans keeps_grows by blast
    qed (use Cons.prems FeaturesTask in auto)
  next
    case PeersTask
    show ?thesis
    proof (cases "check_peers E R (store M i)")
      case (Inr qs)
      then have "\<forall>q \<in> set qs. peer_typed q" by (rule check_peers_typed)
      then show ?thesis using Cons.prems PeersTask Inr by (intro Cons.IH) auto
    next
      case (Inl a)
      with Cons.prems PeersTask have "r = Inl a" "M' = M" by auto
      then show ?thesis by simp
    qed
  qed
qed

lemma verify_peer_grows:
  assumes "\<And>l. set (shuffle l) = set l"
  shows "grows (net E) M (snd (verify_peer E shuffle now height header order R i M))"
proof -
  define M1 where "M1 = record_address R i M"
  have g1: "grows (net E) M M1" by (auto simp: M1_def record_address_def intro: grows_change)
  show ?thesis
  proof (cases "is_blacklisted M1 (store M1 i)")
    case True
    with g1 show ?thesis by (simp add: verify_peer_def verify_checked_def M1_def [symmetric])
  next
    case nb: False
    show ?thesis
    proof (cases "bindE (check_bucket E now i M1) (\<lambda>_. bindE (version_answer R) check_version)")
      case (Inl r)
      with g1 nb show ?thesis by (simp add: verify_peer_def verify_checked_def M1_def [symmetric])
    next
      case v: (Inr version)
      let ?M2 = "change i (set_server_version version) M1"
      have g2: "grows (net E) M ?M2"
        by (rule grows_trans [OF g1]) (rule grows_change; simp add: set_server_version_typed)
      obtain res M3 where run: "run_verify E height header R i order [] ?M2 = (res, M3)" by fastforce
      have g3: "grows (net E) M M3" and ps: "\<And>ps. res = Inr ps \<Longrightarrow> \<forall>p \<in> set ps. peer_typed p"
        using run_verify_grows [OF run, of "net E"] grows_trans [OF g2] by auto
      show ?thesis
      proof (cases res)
        case (Inl r)
        with g3 nb v run show ?thesis by (simp add: verify_peer_def verify_checked_def M1_def [symmetric])
      next
        case (Inr ps')
        obtain "is" M4 where a: "allocate_all ps' M3 = (is, M4)" by fastforce
        let ?M5 = "note_peers (net E) shuffle (Some 2) False is M4"
        have "grows (net E) M3 ?M5"
          by (rule note_new_grows [OF ps [OF Inr] assms a]) simp
        then have "grows (net E) M ?M5" by (rule grows_trans [OF g3])
        with nb v run Inr a show ?thesis
          by (simp add: verify_peer_def verify_checked_def M1_def [symmetric] Let_def split: option.split sum.split)
      qed
    qed
  qed
qed

lemma attempt_loop_grows:
  assumes "\<And>t M. grows N M (snd (verify t M))"
  shows "grows N M (snd (attempt_loop E verify now i ts M))"
proof (induction ts arbitrary: M)
  case (Cons t ts)
  let ?M = "change i (\<lambda>p. p\<lparr>last_try := now\<rparr>) M"
  have g: "grows N M ?M" by (rule grows_change) simp_all
  obtain out M' where v: "verify t ?M = (out, M')" by fastforce
  then have g': "grows N M M'" using assms [of ?M t] grows_trans [OF g] by simp
  have "grows N M (change i mark_bad M')" by (rule grows_trans [OF g' grows_change]) simp_all
  moreover have "grows N M (snd (attempt_loop E verify now i ts M'))" by (rule grows_trans [OF g' Cons.IH])
  ultimately show ?case using g g' v by (simp add: Let_def split: outcome.split)
qed simp

lemma settle_match_grows: "settle_match L n i m M = Inr M' \<Longrightarrow> i < fresh M \<Longrightarrow> m < fresh M \<Longrightarrow> grows N M M'"
proof -
  assume s: "settle_match L n i m M = Inr M'" and i: "i < fresh M" and m: "m < fresh M"
  have "keeps M (change m (\<lambda>q. update_features_from_peer q (store M i)) M)"
    using i by (auto simp: keeps_def change_def update_from_peer_typed)
  then show ?thesis
    using s by (auto simp: settle_match_def err_simps keeps_grows split: if_splits option.splits intro: grows_remove)
qed

lemma settle_matches_grows:
  "foldE (settle_match L n i) ms M = Inr M' \<Longrightarrow> i < fresh M \<Longrightarrow> \<forall>m \<in> set ms. m < fresh M \<Longrightarrow> grows N M M'"
proof (induction ms arbitrary: M)
  case (Cons m ms)
  from Cons.prems(1) obtain M1 where s: "settle_match L n i m M = Inr M1" "foldE (settle_match L n i) ms M1 = Inr M'"
    by (auto simp: err_simps)
  have g: "grows N M M1" using settle_match_grows [OF s(1)] Cons.prems by simp
  show ?case
  proof (cases "manager_ok N M")
    case True
    with g have "fresh M \<le> fresh M1" by (simp add: grows_def)
    then have "i < fresh M1" "\<forall>m \<in> set ms. m < fresh M1" using Cons.prems(2,3) by auto
    then have "grows N M1 M'" by (rule Cons.IH [OF s(2)])
    with g show ?thesis by (rule grows_trans)
  qed (simp add: grows_def)
qed simp

definition begin_attempt :: "net_lib \<Rightarrow> ((string \<times> json option) list \<Rightarrow> (string \<times> json option) list) \<Rightarrow> nat \<Rightarrow> peer_manager \<Rightarrow> peer_manager" where
  "begin_attempt N pop i M =
     (let M = change i (\<lambda>p. p\<lparr>try_count := try_count p + 1\<rparr>) M in change i (\<lambda>_. snd (connection_tuples N pop (store M i))) M)"

lemma begin_attempt_grows: "grows N M (begin_attempt L pop i M)"
proof -
  let ?M = "change i (\<lambda>p. p\<lparr>try_count := try_count p + 1\<rparr>) M"
  have "grows N M ?M" by (rule grows_change) simp_all
  moreover have "grows N ?M (change i (\<lambda>_. snd (connection_tuples L pop (store ?M i))) ?M)"
    by (intro keeps_grows) (auto simp: keeps_def change_def connection_tuples_def Let_def peer_typed_def)
  ultimately show ?thesis unfolding begin_attempt_def Let_def by (rule grows_trans)
qed

lemma should_drop_peer_grows:
  assumes "\<And>t M. grows N M (snd (verify t M))" "manager_ok N M" "i < fresh M"
  shows "grows N M (snd (should_drop_peer E pop verify now now' i M))"
proof -
  define M0 where "M0 = begin_attempt (net E) pop i M"
  obtain ts where eq: "should_drop_peer E pop verify now now' i M =
      (case attempt_loop E verify now i ts M0 of
           (Inl e, M) \<Rightarrow> (Inl e, M)
         | (Inr None, M) \<Rightarrow> (Inr False, M)
         | (Inr (Some True), M) \<Rightarrow>
             (let M = change i (\<lambda>p. p\<lparr>try_count := 0, last_good := now', psource := ''peer''\<rparr>) M;
                  ms = filter (\<lambda>m. matches (store M i) (store M m)) (peers M)
              in case foldE (settle_match (net E) (length ms) i) ms M of
                   Inl e \<Rightarrow> (Inl e, M)
                 | Inr M \<Rightarrow> (Inr False, M\<lparr>recent_peer_adds := filter (\<lambda>(k, v). v + PEER_ADD_PAUSE < now') (recent_peer_adds M)\<rparr>))
         | (Inr (Some False), M) \<Rightarrow>
             (let p = store M i; try_limit = (if last_good p \<noteq> 0 \<and> \<not> bad p then 10 else 3)
              in (Inr (try_count p \<ge> try_limit), M)))"
    unfolding should_drop_peer_def M0_def begin_attempt_def Let_def by (auto simp: split_beta)
  obtain r M1 where a: "attempt_loop E verify now i ts M0 = (r, M1)" by fastforce
  have "grows N M0 (snd (attempt_loop E verify now i ts M0))" by (rule attempt_loop_grows) (rule assms(1))
  with a have "grows N M0 M1" by simp
  then have g1: "grows N M M1" using begin_attempt_grows grows_trans unfolding M0_def by blast
  let ?M2 = "change i (\<lambda>p. p\<lparr>try_count := 0, last_good := now', psource := ''peer''\<rparr>) M1"
  let ?ms = "filter (\<lambda>m. matches (store ?M2 i) (store ?M2 m)) (peers ?M2)"
  have g2: "grows N M ?M2" by (rule grows_trans [OF g1 grows_change]) simp_all
  have ok2: "manager_ok N ?M2" "i < fresh ?M2" using g2 assms(2,3) by (auto simp: grows_def)
  then have ms: "\<forall>m \<in> set ?ms. m < fresh ?M2" by (auto simp: manager_ok_def)
  have g3: "grows N M (M3\<lparr>recent_peer_adds := x\<rparr>)" if "foldE (settle_match (net E) (length ?ms) i) ?ms ?M2 = Inr M3" for M3 x
    by (rule grows_trans [OF g2 grows_trans [OF settle_matches_grows [OF that ok2(2) ms] grows_fields]]) simp_all
  show ?thesis
  proof (cases r)
    case (Inr s)
    then consider "r = Inr None" | "r = Inr (Some True)" | "r = Inr (Some False)" by (cases s) auto
    then show ?thesis
    proof cases
      case 2
      with g2 g3 show ?thesis unfolding eq a by (auto simp: Let_def split: sum.split)
    qed (use g1 in \<open>auto simp: eq a Let_def\<close>)
  qed (use g1 in \<open>simp add: eq a\<close>)
qed

lemma note_one_grows:
  assumes "peer_typed p" "\<And>l. set (shuffle l) = set l" "allocate p M = (i, M')"
  shows "grows N M (note_peers N shuffle limit ports [i] M')"
  by (rule note_new_grows [of "[p]" shuffle M "[i]"]) (use assms in auto)

lemma permit_grows: "permit_new_onion_peer now rnd M = (b, M') \<Longrightarrow> grows N M M'"
  by (auto simp: permit_new_onion_peer_def intro: grows_fields split: if_splits)

lemma on_add_peer_grows:
  assumes "\<And>l. set (shuffle l) = set l"
  shows "grows (net E) M (snd (on_add_peer E shuffle now rnd resolved feats source M))"
proof (cases "discovery E \<noteq> PD_ON \<or> source = None")
  case False
  then obtain src where src: "source = Some src" "discovery E = PD_ON" by auto
  obtain ps where ps: "peers_from_features feats src = Inr ps" "\<forall>p \<in> set ps. peer_typed p"
    using peers_from_features_ok [of feats src] by auto
  show ?thesis
  proof (cases ps)
    case (Cons p ps')
    let ?M1 = "M\<lparr>recent_peer_adds := AList.update (add_bucket (net E) p) now (recent_peer_adds M)\<rparr>"
    obtain permit M2 where pm: "permit_add now rnd resolved src p ?M1 = (permit, M2)" by fastforce
    obtain i M3 where a: "allocate p M2 = (i, M3)" by fastforce
    have g1: "grows (net E) M ?M1" by (simp add: grows_fields)
    have "grows (net E) ?M1 M2" using pm permit_grows by (auto simp: permit_add_def split: if_splits)
    then have g2: "grows (net E) M M2" by (rule grows_trans [OF g1])
    have g3: "grows (net E) M M3" using allocate_keeps a ps(2) Cons by (intro grows_trans [OF g2 keeps_grows]) auto
    have g4: "grows (net E) M (note_peers (net E) shuffle (Some 2) True [i] M3)"
      using note_one_grows [OF _ assms a] ps(2) Cons by (intro grows_trans [OF g2]) auto
    show ?thesis
      unfolding on_add_peer_def using src g1 g3 g4 pm a by (simp add: ps(1) Cons Let_def)
  qed (use src ps in \<open>simp add: on_add_peer_def\<close>)
qed (auto simp: on_add_peer_def)

lemma peer_set_invariant_parts:
  assumes "manager_ok (net E) M" "\<And>l. set (shuffle l) = set l"
  shows "import_peers E M = Inr M' \<Longrightarrow> manager_ok (net E) M'"
    and "add_localRPC_peer E shuffle name M = Inr M' \<Longrightarrow> manager_ok (net E) M'"
    and "on_add_peer E shuffle now rnd resolved feats source M = (answer, M') \<Longrightarrow> manager_ok (net E) M'"
    and "monitor_turn (\<lambda>i. should_drop_peer E pop (\<lambda>t. verify_peer E shuffle now height header order (R t) i) now now' i) i M
           = (res, M') \<Longrightarrow> manager_ok (net E) M'"
proof -
  show "manager_ok (net E) M'" if imp: "import_peers E M = Inr M'"
  proof -
    obtain ps where ps: "\<forall>p \<in> set ps. peer_typed p"
      and M': "M' = (let (is, M) = allocate_all ps M in note_peers (net E) id None False (myselves M @ is) M)"
    proof -
      from imp obtain ps where m: "(if discovery E \<noteq> PD_SELF
          then mapE (\<lambda>name. from_real_name (default_ports E) name ''coins.py'') (hard_coded E) else Inr []) = Inr ps"
        and M': "(let (is, M) = allocate_all ps M in Inr (note_peers (net E) id None False (myselves M @ is) M)) = (Inr M' :: exn + peer_manager)"
        by (auto simp only: import_peers_def bindE_Inr_iff)
      have "\<forall>p \<in> set ps. peer_typed p"
      proof (cases "discovery E \<noteq> PD_SELF")
        case True
        with m have "mapE (\<lambda>name. from_real_name (default_ports E) name ''coins.py'') (hard_coded E) = Inr ps" by simp
        then show ?thesis by (rule mapE_all [rotated]) (rule from_real_name_typed)
      qed (use m in simp)
      moreover have "M' = (let (is, M) = allocate_all ps M in note_peers (net E) id None False (myselves M @ is) M)"
        using M' by (auto split: prod.splits)
      ultimately show thesis by (rule that)
    qed
    obtain "is" M1 where a: "allocate_all ps M = (is, M1)" by fastforce
    have "myselves M1 = myselves M" using allocate_all_keeps [OF ps a] by (simp add: keeps_def)
    then have "grows (net E) M (note_peers (net E) id None False (myselves M1 @ is) M1)"
      by (intro note_new_grows [OF ps _ a]) auto
    with a M' assms(1) show ?thesis by (simp add: grows_def)
  qed
  show "manager_ok (net E) M'" if "add_localRPC_peer E shuffle name M = Inr M'"
  proof -
    from that obtain p where "peer_typed p" and M': "M' = (let (i, M) = allocate p M in note_peers (net E) shuffle (Some 2) True [i] M)"
      by (auto simp: add_localRPC_peer_def err_simps split_beta dest!: from_real_name_typed)
    moreover obtain i M1 where "allocate p M = (i, M1)" by fastforce
    ultimately show ?thesis using note_one_grows [of p shuffle M i M1 "net E"] assms by (simp add: grows_def)
  qed
  show "manager_ok (net E) M'" if "on_add_peer E shuffle now rnd resolved feats source M = (answer, M')"
    using on_add_peer_grows [of shuffle E M now rnd resolved feats source] assms that by (simp add: grows_def)
  show "manager_ok (net E) M'" if "monitor_turn (\<lambda>i. should_drop_peer E pop
      (\<lambda>t. verify_peer E shuffle now height header order (R t) i) now now' i) i M = (res, M')"
  proof (cases "i \<in> set (peers M)")
    case True
    let ?step = "should_drop_peer E pop (\<lambda>t. verify_peer E shuffle now height header order (R t) i) now now' i M"
    have "grows (net E) M (snd ?step)"
      using assms True by (intro should_drop_peer_grows verify_peer_grows) (auto dest: manager_okD)
    then have ok: "manager_ok (net E) (snd ?step)" using assms(1) by (simp add: grows_def)
    have "manager_ok (net E) (snd ?step\<lparr>peers := remove1 i (peers (snd ?step))\<rparr>)"
      using grows_remove [of "snd ?step\<lparr>peers := remove1 i (peers (snd ?step))\<rparr>" "snd ?step" i "net E"] ok
      by (simp add: grows_def)
    moreover have "manager_ok (net E) (snd ?step\<lparr>woken := x\<rparr>)" for x
      using grows_fields [of "snd ?step\<lparr>woken := x\<rparr>" "snd ?step" "net E"] ok by (simp add: grows_def)
    ultimately show ?thesis
      using that ok True by (auto simp: monitor_turn_def split: prod.splits sum.splits bool.splits)
  qed (use assms(1) that in \<open>simp add: monitor_turn_def\<close>)
qed

text \<open>C14: Importing peers, the requests to add one and a turn of monitoring, with the verification it makes and
  whatever the remote server answers, keep the manager in order: every peer well typed, at most one peer for
  each host name up to case, and only public peers in the set.\<close>

theorem peer_set_invariant:
  assumes "manager_ok (net E) M" "\<And>l. set (shuffle l) = set l"
  shows "(\<forall>M'. import_peers E M = Inr M' \<longrightarrow> manager_ok (net E) M')
    \<and> (\<forall>name M'. add_localRPC_peer E shuffle name M = Inr M' \<longrightarrow> manager_ok (net E) M')
    \<and> (\<forall>now rnd resolved feats source answer M'.
         on_add_peer E shuffle now rnd resolved feats source M = (answer, M') \<longrightarrow> manager_ok (net E) M')
    \<and> (\<forall>pop now now' height header order R i res M'.
         monitor_turn (\<lambda>i. should_drop_peer E pop (\<lambda>t. verify_peer E shuffle now height header order (R t) i) now now' i) i M
           = (res, M') \<longrightarrow> manager_ok (net E) M')"
  using peer_set_invariant_parts [OF assms] by blast

definition sample_env :: peer_env where
  "sample_env = \<lparr>net = sample_net, default_ports = [], discovery = PD_ON, peer_announce = True, force_proxy = False,
     hard_coded = [''a.org s50002'', ''A.org t50001'', ''b.onion s5''], genesis = []\<rparr>"

definition empty_manager :: peer_manager where
  "empty_manager = \<lparr>store = (\<lambda>_. sample_peer), fresh = 0, peers = [], myselves = [], permit_onion_peer_time = 0, proxy = None,
     recent_peer_adds = [], blacklist = [], woken = [], monitored = []\<rparr>"

theorem peer_set_invariant_witness:
  "\<exists>M. import_peers sample_env empty_manager = Inr M \<and> peers M = [0] \<and> manager_ok sample_net M"
proof -
  have name: "from_real_name [] (h @ CHR '' '' # c # n) ''coins.py'' = new_peer h (JDict f) ''coins.py''"
    if "plain h" "plain (c # n)" "n \<noteq> []" "(c, key) \<in> {(CHR ''s'', ''ssl_port''), (CHR ''t'', ''tcp_port'')}"
      "f = [(key, JStr n), (''hosts'', JDict [(h, JDict [(key, JStr n)])])]" for h c n key f
    using split_words_join [of "[h, c # n]"] that by (auto simp: from_real_name_def)
  let ?p = "\<lambda>h key n. (canonical h [(key, JStr n), (''hosts'', JDict [(h, JDict [(key, JStr n)])])])\<lparr>psource := ''coins.py''\<rparr>"
  have names: "from_real_name [] ''a.org s50002'' ''coins.py'' = Inr (?p ''a.org'' ''ssl_port'' ''50002'')"
      "from_real_name [] ''A.org t50001'' ''coins.py'' = Inr (?p ''A.org'' ''tcp_port'' ''50001'')"
      "from_real_name [] ''b.onion s5'' ''coins.py'' = Inr (?p ''b.onion'' ''ssl_port'' ''5'')"
    using name [of "''a.org''" "CHR ''s''" "''50002''" "''ssl_port''"] name [of "''A.org''" "CHR ''t''" "''50001''" "''tcp_port''"]
      name [of "''b.onion''" "CHR ''s''" "''5''" "''ssl_port''"]
    by (simp_all add: plain_def is_space_def new_peer_def)
  have "char_of (97 :: nat) = CHR ''a''" by code_simp
  then have "\<exists>M. import_peers sample_env empty_manager = Inr M \<and> peers M = [0]"
    by (simp add: import_peers_def sample_env_def names empty_manager_def allocate_def note_peers_def is_public_def is_valid_def
        sample_net_def canonical_fields is_tor_def matches_def lower_def add_member_def suffix_def Let_def)
  then obtain M where M: "import_peers sample_env empty_manager = Inr M" "peers M = [0]" by blast
  have "manager_ok (net sample_env) empty_manager" by (simp add: manager_ok_def empty_manager_def)
  then have "manager_ok (net sample_env) M" 
    using M(1) by (auto dest!: conjunct1 [OF peer_set_invariant [OF _ set_rev]])
  with M show ?thesis by (auto simp: sample_env_def)
qed

subsection \<open>What is reported\<close>

definition in_bucket :: "peer_manager \<Rightarrow> net_lib \<Rightarrow> bucket \<Rightarrow> nat \<Rightarrow> bool" where
  "in_bucket M N b i \<longleftrightarrow> \<not> is_tor (store M i) \<and> bucket_for_external_interface N (store M i) = Inr b"

definition bucket_list :: "(bucket \<times> nat list) list \<Rightarrow> bucket \<Rightarrow> nat list" where
  "bucket_list buckets b = (case map_of buckets b of None \<Rightarrow> [] | Some l \<Rightarrow> l)"

lemma bucket_peers_facts:
  "bucket_list (bucket_peers buckets b i) c = bucket_list buckets c @ (if c = b then [i] else [])"
  "distinct (map fst buckets) \<Longrightarrow> distinct (map fst (bucket_peers buckets b i))"
  by (auto simp: bucket_list_def bucket_peers_def distinct_keys_update split: option.splits)

lemma bucket_loop_spec:
  "bucket_loop N M is (on, bs) = Inr (on', bs') \<Longrightarrow> distinct (map fst bs) \<Longrightarrow>
   on' = on @ filter (\<lambda>i. is_tor (store M i)) is \<and> distinct (map fst bs') \<and>
   (\<forall>b. bucket_list bs' b = bucket_list bs b @ filter (in_bucket M N b) is) \<and>
   (\<forall>i \<in> set is. \<not> is_tor (store M i) \<longrightarrow> (\<exists>b. in_bucket M N b i))"
proof (induction "is" arbitrary: on bs)
  case (Cons i "is")
  show ?case
  proof (cases "is_tor (store M i)")
    case True
    with Cons have "on' = (on @ [i]) @ filter (\<lambda>i. is_tor (store M i)) is \<and> distinct (map fst bs') \<and>
       (\<forall>b. bucket_list bs' b = bucket_list bs b @ filter (in_bucket M N b) is) \<and>
       (\<forall>i \<in> set is. \<not> is_tor (store M i) \<longrightarrow> (\<exists>b. in_bucket M N b i))"
      by (intro Cons.IH) auto
    moreover have "\<not> in_bucket M N b i" for b using True by (simp add: in_bucket_def)
    ultimately show ?thesis using True by simp
  next
    case False
    with Cons.prems(1) obtain b where b: "bucket_for_external_interface N (store M i) = Inr b"
      "bucket_loop N M is (on, bucket_peers bs b i) = Inr (on', bs')" by (auto simp: err_simps)
    from Cons.IH [OF b(2)] Cons.prems(2) have "on' = on @ filter (\<lambda>i. is_tor (store M i)) is \<and> distinct (map fst bs') \<and>
       (\<forall>c. bucket_list bs' c = bucket_list (bucket_peers bs b i) c @ filter (in_bucket M N c) is) \<and>
       (\<forall>i \<in> set is. \<not> is_tor (store M i) \<longrightarrow> (\<exists>b. in_bucket M N b i))"
      by (simp add: bucket_peers_facts)
    moreover have "in_bucket M N c i \<longleftrightarrow> c = b" for c using False b(1) by (auto simp: in_bucket_def)
    ultimately show ?thesis using False by (auto simp: bucket_peers_facts)
  qed
qed simp

text \<open>The peers chosen from the buckets.\<close>

definition chosen :: "(nat list \<Rightarrow> nat list) \<Rightarrow> (bucket \<times> nat list) list \<Rightarrow> nat list" where
  "chosen shuffle buckets = concat (map (\<lambda>(b, is). take 2 (shuffle is)) buckets)"

lemma chosen_iff:
  assumes "distinct (map fst bs)"
  shows "i \<in> set (chosen shuffle bs) \<longleftrightarrow> (\<exists>b. map_of bs b \<noteq> None \<and> i \<in> set (take 2 (shuffle (bucket_list bs b))))"
  using assms unfolding chosen_def bucket_list_def by (force dest: map_of_SomeD)

lemma take_shuffle_subset: "(\<And>l. set (shuffle l) = set l) \<Longrightarrow> set (take n (shuffle l)) \<subseteq> set l"
  using set_take_subset by fastforce

definition mine_of :: "rat \<Rightarrow> peer_manager \<Rightarrow> nat list" where
  "mine_of now M = remdups (filter (\<lambda>i. last_good (store M i) > now - STALE_SECS) (myselves M))"

text \<open>What is reported, in terms of the recent peers: ourselves, some peers \<open>P b\<close> of each bucket and some onion peers \<open>Q\<close>.\<close>

lemma subscribed_parts:
  assumes "subscribed_peers E shuffle now over_tor M = Inr is" "\<And>l. set (shuffle l) = set l"
  obtains P ps Q where
    "\<And>b. P b \<subseteq> {i \<in> set (get_recent_good_peers (net E) now M). in_bucket M (net E) b i}" "\<And>b. finite (P b)" "\<And>b. card (P b) \<le> 2"
    "\<And>b i. i \<in> set (get_recent_good_peers (net E) now M) \<Longrightarrow> in_bucket M (net E) b i \<Longrightarrow> P b \<noteq> {}"
    "distinct ps" "set ps = set (mine_of now M) \<union> (\<Union>b. P b)"
    "Q \<subseteq> {i \<in> set (get_recent_good_peers (net E) now M). is_tor (store M i)}" "finite Q"
    "card Q \<le> (if over_tor then 50 else max 10 (length ps div 4))"
    "distinct is" "set is = set ps \<union> Q"
proof -
  let ?recent = "get_recent_good_peers (net E) now M"
  from assms(1) obtain onion bs where loop: "bucket_loop (net E) M ?recent ([], []) = Inr (onion, bs)"
    and res: "is = (let ps = fold add_member (chosen shuffle bs) (mine_of now M)
       in fold add_member (take (if over_tor then 50 else max 10 (length ps div 4)) (shuffle onion)) ps)"
    by (auto simp: subscribed_peers_def mine_of_def chosen_def err_simps Let_def)
  have onion: "onion = filter (\<lambda>i. is_tor (store M i)) ?recent" and dist: "distinct (map fst bs)"
    and bl: "\<And>b. bucket_list bs b = filter (in_bucket M (net E) b) ?recent"
    using bucket_loop_spec [OF loop] by (auto simp: bucket_list_def)
  define P where "P b = set (take 2 (shuffle (bucket_list bs b)))" for b
  define ps where "ps = fold add_member (chosen shuffle bs) (mine_of now M)"
  define m where "m = (if over_tor then 50 else max 10 (length ps div 4))"
  have "shuffle [] = []" using assms(2) [of "[]"] by simp
  then have dom: "map_of bs b \<noteq> None" if "i \<in> P b" for i b
    using that by (cases "map_of bs b") (auto simp: bucket_list_def P_def)
  have "i \<in> set (chosen shuffle bs) \<longleftrightarrow> (\<exists>b. i \<in> P b)" for i
    unfolding chosen_iff [OF dist] P_def [symmetric] using dom by blast
  then have chosen: "set (chosen shuffle bs) = (\<Union>b. P b)" by auto
  have is_eq: "is = fold add_member (take m (shuffle onion)) ps" unfolding res ps_def m_def by (simp add: Let_def)
  have dps: "distinct ps" by (simp add: ps_def mine_of_def fold_add_member)
  show thesis
  proof (rule that)
    show "P b \<subseteq> {i \<in> set ?recent. in_bucket M (net E) b i}" for b
      using take_shuffle_subset [OF assms(2), of 2 "bucket_list bs b"] by (auto simp: P_def bl)
    show "card (P b) \<le> 2" for b unfolding P_def by (rule le_trans [OF card_length]) simp
    show "P b \<noteq> {}" if "i \<in> set ?recent" "in_bucket M (net E) b i" for b i
    proof -
      have "i \<in> set (shuffle (bucket_list bs b))" using that by (simp add: assms(2) bl)
      then show ?thesis by (cases "shuffle (bucket_list bs b)") (auto simp: P_def)
    qed
    show "set ps = set (mine_of now M) \<union> (\<Union>b. P b)" by (simp add: ps_def fold_add_member chosen)
    show "set (take m (shuffle onion)) \<subseteq> {i \<in> set ?recent. is_tor (store M i)}"
      using take_shuffle_subset [OF assms(2), of m onion] by (auto simp: onion)
    show "card (set (take m (shuffle onion))) \<le> (if over_tor then 50 else max 10 (length ps div 4))"
      unfolding m_def [symmetric] by (rule le_trans [OF card_length]) simp
    show "distinct is" "set is = set ps \<union> set (take m (shuffle onion))" unfolding is_eq by (simp_all add: fold_add_member dps)
  qed (simp_all add: P_def dps)
qed

lemma reported_peers_spread_parts:
  assumes "subscribed_peers E shuffle now over_tor M = Inr is" "\<And>l. set (shuffle l) = set l"
  defines "others \<equiv> set is - set (myselves M)"
  shows "distinct is"
    and "i \<in> set is \<Longrightarrow> i \<in> set (myselves M) \<and> now - STALE_SECS < last_good (store M i) \<or>
           i \<in> set (get_recent_good_peers (net E) now M)"
    and "card {i \<in> others. in_bucket M (net E) b i} \<le> 2"
    and "i \<in> set (get_recent_good_peers (net E) now M) \<Longrightarrow> in_bucket M (net E) b i \<Longrightarrow>
           \<exists>j \<in> set is. in_bucket M (net E) b j"
    and "over_tor \<Longrightarrow> card {i \<in> others. is_tor (store M i)} \<le> 50"
    and "\<not> over_tor \<Longrightarrow> card {i \<in> others. is_tor (store M i)} \<le> 10 \<or> 5 * card {i \<in> others. is_tor (store M i)} \<le> length is"
proof -
  obtain P ps Q where P: "\<And>b. P b \<subseteq> {i \<in> set (get_recent_good_peers (net E) now M). in_bucket M (net E) b i}"
      "\<And>b. finite (P b)" "\<And>b. card (P b) \<le> 2"
      "\<And>b i. i \<in> set (get_recent_good_peers (net E) now M) \<Longrightarrow> in_bucket M (net E) b i \<Longrightarrow> P b \<noteq> {}"
    and ps: "distinct ps" "set ps = set (mine_of now M) \<union> (\<Union>b. P b)"
    and Q: "Q \<subseteq> {i \<in> set (get_recent_good_peers (net E) now M). is_tor (store M i)}" "finite Q"
      "card Q \<le> (if over_tor then 50 else max 10 (length ps div 4))"
    and R: "distinct is" "set is = set ps \<union> Q"
  proof -
    show thesis
    proof (rule subscribed_parts [OF assms(1,2)], goal_cases)
      case (1 P ps Q)
      then show ?case by (rule that)
    qed
  qed
  have mine: "set (mine_of now M) \<subseteq> {i \<in> set (myselves M). now - STALE_SECS < last_good (store M i)}"
    by (auto simp: mine_of_def)
  show "distinct is" by (rule R(1))
  show "i \<in> set (myselves M) \<and> now - STALE_SECS < last_good (store M i) \<or> i \<in> set (get_recent_good_peers (net E) now M)"
    if "i \<in> set is" for i
    using that P(1) Q(1) mine unfolding R(2) ps(2) by blast
  have kinds: "(\<exists>c. i \<in> P c \<and> in_bucket M (net E) c i) \<or> (i \<in> Q \<and> is_tor (store M i))" if "i \<in> others" for i
    using that P(1) Q(1) mine unfolding others_def R(2) ps(2) by blast
  have sub: "{i \<in> others. in_bucket M (net E) b i} \<subseteq> P b" for b
  proof
    fix i assume i: "i \<in> {i \<in> others. in_bucket M (net E) b i}"
    then obtain c where "i \<in> P c" "in_bucket M (net E) c i" using kinds [of i] by (auto simp: in_bucket_def)
    with i show "i \<in> P b" by (simp add: in_bucket_def)
  qed
  show "card {i \<in> others. in_bucket M (net E) b i} \<le> 2" for b
    by (rule le_trans [OF card_mono [OF P(2) sub] P(3)])
  show "\<exists>j \<in> set is. in_bucket M (net E) b j"
    if "i \<in> set (get_recent_good_peers (net E) now M)" "in_bucket M (net E) b i" for i
    using P(4) [OF that] P(1) [of b] unfolding R(2) ps(2) by blast
  let ?tor = "{i \<in> others. is_tor (store M i)}"
  have not_tor: "\<not> is_tor (store M i)" if "i \<in> P c" for i c using P(1) [of c] that by (auto simp: in_bucket_def)
  have tor: "?tor \<subseteq> Q" using kinds by (auto simp: in_bucket_def)
  have tor': "?tor \<inter> set ps = {}" using not_tor mine unfolding ps(2) others_def by auto
  have card: "card ?tor \<le> (if over_tor then 50 else max 10 (length ps div 4))"
    using card_mono [OF Q(2) tor] Q(3) by simp
  show "card ?tor \<le> 50" if over_tor using card that by simp
  have "card (set ps) + card ?tor = card (set ps \<union> ?tor)"
    using tor' finite_subset [OF tor Q(2)] Q(2) by (subst card_Un_disjoint) auto
  also have "\<dots> \<le> card (set is)" by (rule card_mono) (auto simp: R(2) others_def Q(2))
  finally have "length ps + card ?tor \<le> length is" using ps(1) R(1) by (simp add: distinct_card)
  with card show "card ?tor \<le> 10 \<or> 5 * card ?tor \<le> length is" if "\<not> over_tor" using that by auto
qed


definition two_peers :: peer_manager where
  "two_peers = empty_manager\<lparr>store := (\<lambda>i. sample_peer\<lparr>ip_addr := None, last_good := 5000\<rparr>), fresh := 4, peers := [0, 1, 2]\<rparr>"


subsection \<open>The limit on added peers\<close>

text \<open>A request to add a peer is refused within the pause after the last one for the same bucket, until a peer is
  verified: then the times within the pause are what is dropped, and the expired ones are kept.\<close>

lemma add_peer_refused:
  assumes "peers_from_features feats src = Inr (p # ps)" "map_of (recent_peer_adds M) (add_bucket (net E) p) = Some t"
    "t + PEER_ADD_PAUSE \<ge> now"
  shows "fst (on_add_peer E shuffle now rnd resolved feats (Some src) M) = Inr False"
  using assms by (simp add: on_add_peer_def Let_def)

lemma trimming_forgets_recent:
  "v + PEER_ADD_PAUSE \<ge> now \<Longrightarrow> (k, v) \<notin> set (filter (\<lambda>(k, v). v + PEER_ADD_PAUSE < now) adds)"
  by simp

end
