(* ===== verification/SessionArgs.thy ===== *)
theory SessionArgs
  imports Peer Hashes
begin

section \<open>Arguments of requests (the functions at the head of server/session.py)\<close>

text \<open>
  What clients send is JSON, so an argument is a value of \<open>json\<close>.  A handler ends in a value or in one of three ways
  (\<open>session_exn\<close>): an error reported to the client with its code, the same with the connection closed
  after it, or another Python exception.  The texts of the messages are left out.
\<close>

datatype session_exn = RPCError int | ReplyAndDisconnect int | PyError exn

definition BAD_REQUEST :: int where "BAD_REQUEST = 1"
definition DAEMON_ERROR :: int where "DAEMON_ERROR = 2"

abbreviation bad_request :: session_exn where "bad_request \<equiv> RPCError BAD_REQUEST"

definition from_py :: "exn + 'a \<Rightarrow> session_exn + 'a" where
  "from_py r = (case r of Inl e \<Rightarrow> Inl (PyError e) | Inr x \<Rightarrow> Inr x)"

text \<open>\<open>hex_str_to_hash\<close> of a value that is not a string is a \<open>TypeError\<close>, and \<open>ValueError\<close> is the only
  other exception it raises; both are caught.\<close>

definition json_hash :: "json \<Rightarrow> bytes option" where
  "json_hash v =
     (case v of
        JStr s \<Rightarrow> (case hex_str_to_hash s of
                      Inr h \<Rightarrow> if length h = 32 then Some h else None
                    | Inl _ \<Rightarrow> None)
      | _ \<Rightarrow> None)"

definition scripthash_to_hashX :: "json \<Rightarrow> session_exn + bytes" where
  "scripthash_to_hashX scripthash =
     (case json_hash scripthash of Some bin_hash \<Rightarrow> Inr (take hashX_len bin_hash) | None \<Rightarrow> Inl bad_request)"

definition assert_tx_hash :: "json \<Rightarrow> session_exn + bytes" where
  "assert_tx_hash v = (case json_hash v of Some raw_hash \<Rightarrow> Inr raw_hash | None \<Rightarrow> Inl bad_request)"

text \<open>\<open>int(value)\<close>, \<open>None\<close> where it raises \<open>ValueError\<close> or \<open>TypeError\<close>; a number with a fraction is truncated
  towards zero.\<close>

fun json_int :: "json \<Rightarrow> int option" where
  "json_int (JInt i) = Some i"
| "json_int (JBool b) = Some (if b then 1 else 0)"
| "json_int (JNum q) = Some (if q < 0 then - \<lfloor>- q\<rfloor> else \<lfloor>q\<rfloor>)"
| "json_int (JStr s) = py_int s"
| "json_int _ = None"

definition non_negative_integer :: "json \<Rightarrow> session_exn + int" where
  "non_negative_integer v =
     (case json_int v of
        Some i \<Rightarrow> if i \<ge> 0 then Inr i else Inl bad_request
      | None \<Rightarrow> Inl bad_request)"

text \<open>\<open>value in (False, True)\<close> compares with \<open>==\<close>, so the numbers 0 and 1 count.\<close>

fun json_bool :: "json \<Rightarrow> bool option" where
  "json_bool (JBool b) = Some b"
| "json_bool (JInt i) = (if i = 0 then Some False else if i = 1 then Some True else None)"
| "json_bool (JNum q) = (if q = 0 then Some False else if q = 1 then Some True else None)"
| "json_bool _ = None"

definition assert_boolean :: "json \<Rightarrow> session_exn + json" where
  "assert_boolean v = (if json_bool v = None then Inl bad_request else Inr v)"

lemma json_hash_length: "json_hash v = Some h \<Longrightarrow> length h = 32"
  by (auto simp: json_hash_def split: json.splits sum.splits if_splits)

lemma json_hash_displayed [simp]: "length h = 32 \<Longrightarrow> json_hash (JStr (hash_to_hex_str h)) = Some h"
  by (simp add: json_hash_def hex_str_to_hash_def hash_to_hex_str_def hex_to_bytes_encode)

lemma assert_tx_hash_Inr [err_simps]: "assert_tx_hash v = Inr h \<longleftrightarrow> json_hash v = Some h"
  by (simp add: assert_tx_hash_def split: option.splits)

lemma scripthash_length: "scripthash_to_hashX v = Inr hashX \<Longrightarrow> length hashX = hashX_len"
  by (auto simp: scripthash_to_hashX_def dest: json_hash_length split: option.splits)

lemma non_negative_integer_Inr [err_simps]: "non_negative_integer v = Inr i \<longleftrightarrow> json_int v = Some i \<and> 0 \<le> i"
  by (auto simp: non_negative_integer_def split: option.splits)

lemma argument_errors:
  "scripthash_to_hashX v = Inl e \<Longrightarrow> e = bad_request" "assert_tx_hash v = Inl e \<Longrightarrow> e = bad_request"
  "non_negative_integer v = Inl e \<Longrightarrow> e = bad_request" "assert_boolean v = Inl e \<Longrightarrow> e = bad_request"
  by (auto simp: scripthash_to_hashX_def assert_tx_hash_def non_negative_integer_def assert_boolean_def
      split: option.splits if_splits)

lemma from_py_simps [simp]:
  "from_py (Inr x) = Inr x" "from_py (Inl e) = Inl (PyError e)"
  by (simp_all add: from_py_def)

lemma from_py_Inr [err_simps]: "from_py r = Inr x \<longleftrightarrow> r = Inr x"
  by (cases r) auto

end
