(* ===== verification/SessionCaches.thy ===== *)
theory SessionCaches
  imports Complex_Main SessionArgs LruCache MerkleCaching ChainDB
begin

section \<open>The caches of the session manager (SessionManager of server/session.py)\<close>

text \<open>
  Transaction hashes by height and Merkle caches by height are kept in two \<open>LRUCache\<close>s that a reorganisation
  empties; \<open>reorg_count\<close> tells a coroutine that one happened while it was waiting for the database.
  A coroutine runs undisturbed between two points where it waits, so \<open>tx_hashes_at_blockheight\<close> is two
  operations: \<open>ask_tx_hashes\<close> up to the call of the database, \<open>answer_tx_hashes\<close> from its answer on to the next
  call or to the end.  Costs are real numbers.
\<close>

record session_caches =
  reorg_count :: nat
  txids_cache :: "(int, bytes list) lru_cache"
  merkle_txid_cache :: "(int, merkle_cache) lru_cache"
  history_cache :: "(bytes, session_exn + (bytes \<times> int) list) lru_cache"

definition new_session_caches :: session_caches where
  "new_session_caches = \<lparr>reorg_count = 0, txids_cache = new_lru 1000 True, merkle_txid_cache = new_lru 1000 True,
     history_cache = new_lru 1000 True\<rparr>"

definition one :: "'v \<Rightarrow> nat" where
  "one v = 1"

text \<open>The tallies that \<open>getinfo\<close> shows.\<close>

definition looked_up :: "('k, 'v) lru_cache \<Rightarrow> ('k, 'v) lru_cache" where
  "looked_up c = c\<lparr>num_lookups := num_lookups c + 1\<rparr>"

definition hit :: "('k, 'v) lru_cache \<Rightarrow> ('k, 'v) lru_cache" where
  "hit c = c\<lparr>num_hits := num_hits c + 1\<rparr>"

text \<open>\<open>clear\<close>, which a mapping inherits: items are popped until \<open>popitem\<close> raises \<open>KeyError\<close>.\<close>

function lru_clear :: "('k, 'v) lru_cache \<Rightarrow> exn + ('k, 'v) lru_cache" where
  "lru_clear c =
     (case lru_popitem c of
        Inl e \<Rightarrow> if e = KeyError then Inr c else Inl e
      | Inr (_, c') \<Rightarrow> lru_clear c')"
  by pat_completeness auto
termination
  by (relation "measure (\<lambda>c. length (lru_order c))") (auto dest: lru_popitem_shorter)

declare lru_clear.simps [simp del]

text \<open>An object that is held under a key changes in place.\<close>

definition lru_mutate :: "('k, 'v) lru_cache \<Rightarrow> 'k \<Rightarrow> 'v \<Rightarrow> ('k, 'v) lru_cache" where
  "lru_mutate c key v = (if lru_contains c key then c\<lparr>lru_data := AList.update key v (lru_data c)\<rparr> else c)"

subsection \<open>Reorganisations\<close>

text \<open>One round of the loop of \<open>_handle_chain_reorgs\<close>.\<close>

definition handle_chain_reorg :: "session_caches \<Rightarrow> exn + session_caches" where
  "handle_chain_reorg S =
     (let S = S\<lparr>reorg_count := reorg_count S + 1\<rparr> in
      bindE (lru_clear (txids_cache S)) (\<lambda>c.
      let S = S\<lparr>txids_cache := c\<rparr> in
      bindE (lru_clear (merkle_txid_cache S)) (\<lambda>c. Inr (S\<lparr>merkle_txid_cache := c\<rparr>))))"

subsection \<open>Transaction hashes of a block\<close>

datatype lookup = Found "bytes list" real | Asked nat

definition ask_tx_hashes :: "int \<Rightarrow> session_caches \<Rightarrow> exn + lookup \<times> session_caches" where
  "ask_tx_hashes height S =
     bindE (lru_get (looked_up (txids_cache S)) height None) (\<lambda>(tx_hashes, c).
       case tx_hashes of
         Some (h # hs) \<Rightarrow> Inr (Found (h # hs) 0.1, S\<lparr>txids_cache := hit c\<rparr>)
       | _ \<Rightarrow> Inr (Asked (reorg_count S), S\<lparr>txids_cache := c\<rparr>))"

datatype fetched = Failed session_exn | Again nat | Got "bytes list" real

definition answer_tx_hashes ::
  "int \<Rightarrow> nat \<Rightarrow> exn + bytes list \<Rightarrow> session_caches \<Rightarrow> exn + fetched \<times> session_caches" where
  "answer_tx_hashes height seen answer S =
     (case answer of
        Inl e \<Rightarrow> Inr (Failed (if e = DBError then bad_request else PyError e), S)
      | Inr tx_hashes \<Rightarrow>
          if seen = reorg_count S
          then bindE (lru_setitem one (txids_cache S) height tx_hashes) (\<lambda>c.
                 Inr (Got tx_hashes (0.25 + real (length tx_hashes) * 0.0001), S\<lparr>txids_cache := c\<rparr>))
          else Inr (Again (reorg_count S), S))"

subsection \<open>Merkle branches\<close>

text \<open>The Merkle cache of a block of at least 200 transactions: the one that is kept, or a new one, which is put
  in the cache before it is initialised; the cost is given with it.\<close>

definition block_merkle_cache ::
  "(bytes \<Rightarrow> bytes) \<Rightarrow> int \<Rightarrow> bytes list \<Rightarrow> session_caches \<Rightarrow> exn + (merkle_cache \<times> real) \<times> session_caches" where
  "block_merkle_cache H height tx_hashes S =
     bindE (lru_get (looked_up (merkle_txid_cache S)) height None) (\<lambda>(found, c).
       case found of
         Some mc \<Rightarrow> Inr ((mc, 10 * sqrt (real (length tx_hashes))), S\<lparr>merkle_txid_cache := hit c\<rparr>)
       | None \<Rightarrow>
           bindE (lru_setitem one c height mc_new) (\<lambda>c.
           bindE (mc_initialize H (tx_hashes_func tx_hashes) mc_new (length tx_hashes)) (\<lambda>mc.
             Inr ((mc, real (length tx_hashes)), S\<lparr>merkle_txid_cache := lru_mutate c height mc\<rparr>))))"

text \<open>\<open>None\<close> is the wait for a Merkle cache that is not initialised.\<close>

definition merkle_branch ::
  "(bytes \<Rightarrow> bytes) \<Rightarrow> int \<Rightarrow> bytes list \<Rightarrow> int \<Rightarrow> session_caches \<Rightarrow>
     (exn + (string list \<times> real) \<times> session_caches) option" where
  "merkle_branch H height tx_hashes tx_pos S =
     (if length tx_hashes \<ge> 200
      then case block_merkle_cache H height tx_hashes S of
             Inl e \<Rightarrow> Some (Inl e)
           | Inr ((mc, cost), S) \<Rightarrow>
               map_option
                 (\<lambda>r. bindE r (\<lambda>(mc, branch, root).
                    Inr ((map hash_to_hex_str branch, cost / 2500),
                         S\<lparr>merkle_txid_cache := lru_mutate (merkle_txid_cache S) height mc\<rparr>)))
                 (mc_branch_and_root H (tx_hashes_func tx_hashes) mc (int (length tx_hashes)) tx_pos)
      else Some (bindE (branch_and_root H tx_hashes tx_pos None) (\<lambda>(branch, root).
             Inr ((map hash_to_hex_str branch, real (length tx_hashes) / 2500), S))))"

fun py_index :: "'a \<Rightarrow> 'a list \<Rightarrow> exn + nat" where
  "py_index x [] = Inl ValueError"
| "py_index x (y # ys) = (if x = y then Inr 0 else bindE (py_index x ys) (\<lambda>i. Inr (i + 1)))"

text \<open>What remains of \<open>merkle_branch_for_tx_hash\<close> and \<open>merkle_branch_for_tx_pos\<close> once the hashes are known.\<close>

definition merkle_branch_for_tx_hash ::
  "(bytes \<Rightarrow> bytes) \<Rightarrow> int \<Rightarrow> bytes \<Rightarrow> bytes list \<times> real \<Rightarrow> session_caches \<Rightarrow>
     ((session_exn + string list \<times> nat \<times> real) \<times> session_caches) option" where
  "merkle_branch_for_tx_hash H height tx_hash = (\<lambda>(tx_hashes, tx_hashes_cost) S.
     case py_index tx_hash tx_hashes of
       Inl e \<Rightarrow> Some (Inl bad_request, S)
     | Inr tx_pos \<Rightarrow>
         map_option
           (\<lambda>r. case r of Inl e \<Rightarrow> (Inl (PyError e), S)
              | Inr ((branch, merkle_cost), S) \<Rightarrow> (Inr (branch, tx_pos, tx_hashes_cost + merkle_cost), S))
           (merkle_branch H height tx_hashes (int tx_pos) S))"

definition merkle_branch_for_tx_pos ::
  "(bytes \<Rightarrow> bytes) \<Rightarrow> int \<Rightarrow> int \<Rightarrow> bytes list \<times> real \<Rightarrow> session_caches \<Rightarrow>
     ((session_exn + string list \<times> string \<times> real) \<times> session_caches) option" where
  "merkle_branch_for_tx_pos H height tx_pos = (\<lambda>(tx_hashes, tx_hashes_cost) S.
     case py_nth tx_hashes tx_pos of
       Inl e \<Rightarrow> Some (Inl bad_request, S)
     | Inr tx_hash \<Rightarrow>
         map_option
           (\<lambda>r. case r of Inl e \<Rightarrow> (Inl (PyError e), S)
              | Inr ((branch, merkle_cost), S) \<Rightarrow>
                  (Inr (branch, hash_to_hex_str tx_hash, tx_hashes_cost + merkle_cost), S))
           (merkle_branch H height tx_hashes tx_pos S))"

subsection \<open>The two requests that read a block's hashes\<close>

text \<open>\<open>transaction_merkle\<close> and \<open>transaction_id_from_pos\<close>: what they make of their arguments, and what they answer
  once the hashes of the block are known, with the cost they add to the session.\<close>

datatype want = MerkleOf bytes | IdAt int bool

definition transaction_merkle_args :: "json \<Rightarrow> json \<Rightarrow> session_exn + int \<times> want" where
  "transaction_merkle_args tx_hash height =
     bindE (assert_tx_hash tx_hash) (\<lambda>tx_hash.
     bindE (non_negative_integer height) (\<lambda>height. Inr (height, MerkleOf tx_hash)))"

definition transaction_id_from_pos_args :: "json \<Rightarrow> json \<Rightarrow> json \<Rightarrow> session_exn + int \<times> want" where
  "transaction_id_from_pos_args height tx_pos merkle =
     bindE (non_negative_integer tx_pos) (\<lambda>tx_pos.
     bindE (non_negative_integer height) (\<lambda>height.
       case json_bool merkle of
         None \<Rightarrow> Inl bad_request
       | Some b \<Rightarrow> Inr (height, IdAt tx_pos b)))"

definition served_merkle :: "int \<Rightarrow> string list \<Rightarrow> nat \<Rightarrow> json" where
  "served_merkle height branch pos =
     JDict [(''block_height'', JInt height), (''merkle'', JList (map JStr branch)), (''pos'', JInt (int pos))]"

definition served_id_merkle :: "string \<Rightarrow> string list \<Rightarrow> json" where
  "served_id_merkle tx_hash branch = JDict [(''tx_hash'', JStr tx_hash), (''merkle'', JList (map JStr branch))]"

fun serve_hashes ::
  "(bytes \<Rightarrow> bytes) \<Rightarrow> int \<Rightarrow> want \<Rightarrow> bytes list \<times> real \<Rightarrow> session_caches \<Rightarrow>
     ((session_exn + json \<times> real) \<times> session_caches) option" where
  "serve_hashes H height (MerkleOf tx_hash) hashes S =
     map_option (\<lambda>(r, S). (bindE r (\<lambda>(branch, tx_pos, cost). Inr (served_merkle height branch tx_pos, cost)), S))
       (merkle_branch_for_tx_hash H height tx_hash hashes S)"
| "serve_hashes H height (IdAt tx_pos True) hashes S =
     map_option (\<lambda>(r, S). (bindE r (\<lambda>(branch, tx_hash, cost). Inr (served_id_merkle tx_hash branch, cost)), S))
       (merkle_branch_for_tx_pos H height tx_pos hashes S)"
| "serve_hashes H height (IdAt tx_pos False) (tx_hashes, cost) S =
     Some (case py_nth tx_hashes tx_pos of
             Inl e \<Rightarrow> Inl bad_request
           | Inr tx_hash \<Rightarrow> Inr (JStr (hash_to_hex_str tx_hash), cost), S)"

subsection \<open>Sessions side by side\<close>

text \<open>
  What the event loop interleaves: requests of any sessions, the threads that read the database for them, the
  block processor changing the database, and the task that handles reorganisations.  A pending request has its
  height, what it wants, the reorganisation count it saw and, once the thread has run, the answer of the
  database.  \<open>signalled\<close> says that blocks were backed up and the task has not run since.  The block processor
  adds blocks (what could be read at a height still reads the same) or backs up, after which any block may
  read differently.
\<close>

record pending =
  p_height :: int
  p_want :: want
  p_count :: nat
  p_answer :: "(exn + bytes list) option"

record 'db serving =
  caches :: session_caches
  chain_state :: "'db chain_db"
  signalled :: bool
  waiting :: "pending list"

text \<open>A request any client can have made: its height and what it wants come from some arguments.\<close>

definition requested :: "int \<Rightarrow> want \<Rightarrow> bool" where
  "requested height w \<longleftrightarrow>
     (\<exists>tx_hash h. transaction_merkle_args tx_hash h = Inr (height, w)) \<or>
     (\<exists>h tx_pos merkle. transaction_id_from_pos_args h tx_pos merkle = Inr (height, w))"

datatype event = Silent | Served int want "session_exn + json \<times> real"

definition keeps_blocks :: "'db chain_db \<Rightarrow> 'db chain_db \<Rightarrow> bool" where
  "keeps_blocks d d' \<longleftrightarrow>
     (\<forall>h hs. fs_tx_hashes_at_blockheight h d = Inr hs \<longrightarrow> fs_tx_hashes_at_blockheight h d' = Inr hs)"

inductive serving_step :: "(bytes \<Rightarrow> bytes) \<Rightarrow> 'db serving \<Rightarrow> event \<Rightarrow> 'db serving \<Rightarrow> bool" for H where
  cached: "requested height w \<Longrightarrow> ask_tx_hashes height (caches s) = Inr (Found hs cost, S) \<Longrightarrow>
     serve_hashes H height w (hs, cost) S = Some (r, S') \<Longrightarrow>
     serving_step H s (Served height w r) (s\<lparr>caches := S'\<rparr>)"
| asked: "requested height w \<Longrightarrow> ask_tx_hashes height (caches s) = Inr (Asked n, S) \<Longrightarrow>
     serving_step H s Silent
       (s\<lparr>caches := S, waiting := \<lparr>p_height = height, p_want = w, p_count = n, p_answer = None\<rparr> # waiting s\<rparr>)"
| read: "waiting s = ps @ p # qs \<Longrightarrow> p_answer p = None \<Longrightarrow>
     serving_step H s Silent
       (s\<lparr>waiting := ps @ p\<lparr>p_answer := Some (fs_tx_hashes_at_blockheight (p_height p) (chain_state s))\<rparr> # qs\<rparr>)"
| failed: "waiting s = ps @ p # qs \<Longrightarrow> p_answer p = Some a \<Longrightarrow>
     answer_tx_hashes (p_height p) (p_count p) a (caches s) = Inr (Failed e, S) \<Longrightarrow>
     serving_step H s (Served (p_height p) (p_want p) (Inl e)) (s\<lparr>caches := S, waiting := ps @ qs\<rparr>)"
| again: "waiting s = ps @ p # qs \<Longrightarrow> p_answer p = Some a \<Longrightarrow>
     answer_tx_hashes (p_height p) (p_count p) a (caches s) = Inr (Again n, S) \<Longrightarrow>
     serving_step H s Silent (s\<lparr>caches := S, waiting := ps @ p\<lparr>p_count := n, p_answer := None\<rparr> # qs\<rparr>)"
| got: "waiting s = ps @ p # qs \<Longrightarrow> p_answer p = Some a \<Longrightarrow>
     answer_tx_hashes (p_height p) (p_count p) a (caches s) = Inr (Got hs cost, S) \<Longrightarrow>
     serve_hashes H (p_height p) (p_want p) (hs, cost) S = Some (r, S') \<Longrightarrow>
     serving_step H s (Served (p_height p) (p_want p) r) (s\<lparr>caches := S', waiting := ps @ qs\<rparr>)"
| advanced: "keeps_blocks (chain_state s) d \<Longrightarrow> serving_step H s Silent (s\<lparr>chain_state := d\<rparr>)"
| backed_up: "serving_step H s Silent (s\<lparr>chain_state := d, signalled := True\<rparr>)"
| handled: "signalled s \<Longrightarrow> handle_chain_reorg (caches s) = Inr S \<Longrightarrow>
     serving_step H s Silent (s\<lparr>caches := S, signalled := False\<rparr>)"

inductive serving_run :: "(bytes \<Rightarrow> bytes) \<Rightarrow> 'db chain_db \<Rightarrow> 'db serving \<Rightarrow> bool" for H d where
  start: "serving_run H d \<lparr>caches = new_session_caches, chain_state = d, signalled = False, waiting = []\<rparr>"
| step: "serving_run H d s \<Longrightarrow> serving_step H s ev s' \<Longrightarrow> serving_run H d s'"

end
