(* ===== verification/SessionCacheFacts.thy ===== *)
theory SessionCacheFacts
  imports SessionCaches ChainFiles
begin

section \<open>Blocks are served from the caches as from the database\<close>

text \<open>
  \<open>cache_ok P c\<close> is the invariant of a cache of the session manager: it is a proper LRU cache, and every pair it
  holds satisfies \<open>P\<close>.  The invariant of the whole server, \<open>serving_inv\<close>, says of the caches, and of the answers
  pending requests hold, that they are those of the database whenever no reorganisation waits to be handled.
\<close>

subsection \<open>Caches whose entries satisfy a predicate\<close>

definition cache_ok :: "('k \<Rightarrow> 'v \<Rightarrow> bool) \<Rightarrow> ('k, 'v) lru_cache \<Rightarrow> bool" where
  "cache_ok P c \<longleftrightarrow> lru_ok one c \<and> lru_maxsize c = 1000 \<and> (\<forall>k v. map_of (lru_data c) k = Some v \<longrightarrow> P k v)"

lemma cache_okI:
  "lru_ok one c \<Longrightarrow> lru_maxsize c = 1000 \<Longrightarrow> (\<And>k v. map_of (lru_data c) k = Some v \<Longrightarrow> P k v) \<Longrightarrow> cache_ok P c"
  by (simp add: cache_ok_def)

lemma cache_okD:
  assumes "cache_ok P c"
  shows "lru_ok one c" "lru_maxsize c = 1000" "\<And>k v. map_of (lru_data c) k = Some v \<Longrightarrow> P k v"
  using assms by (simp_all add: cache_ok_def)

lemma cache_ok_mono: "cache_ok P c \<Longrightarrow> (\<And>k v. P k v \<Longrightarrow> Q k v) \<Longrightarrow> cache_ok Q c"
  by (simp add: cache_ok_def)

lemma cache_ok_new [simp]: "cache_ok P (new_lru 1000 True)"
  by (rule cache_okI) (simp_all add: lru_ok_new one_def, simp_all add: new_lru_def)

lemma cache_ok_tallies [simp]: "cache_ok P (looked_up c) = cache_ok P c" "cache_ok P (hit c) = cache_ok P c"
  by (simp_all add: cache_ok_def lru_ok_def looked_up_def hit_def)

lemma tally_data [simp]: "lru_data (looked_up c) = lru_data c" "lru_data (hit c) = lru_data c"
  by (simp_all add: looked_up_def hit_def)

lemma cache_get:
  assumes "cache_ok P c"
  shows "\<exists>c'. lru_get c k None = Inr (map_of (lru_data c) k, c') \<and> cache_ok P c' \<and> lru_data c' = lru_data c"
proof (cases "map_of (lru_data c) k")
  case None
  then show ?thesis using assms by (simp add: lru_get_def lru_contains_def)
next
  case (Some v)
  note get = lru_getitem_ok [OF cache_okD(1) [OF assms] Some]
  have "cache_ok P (lru_update k c)"
    using cache_okD [OF assms] get by (intro cache_okI) (simp_all add: lru_update_def)
  then show ?thesis using Some get(1) by (simp add: lru_get_def lru_contains_def lru_update_def)
qed

lemma make_room_subset: "set (make_room g m n l) \<subseteq> set l"
  by (induction l) auto

lemma recent_put_subset: "set (recent_put g m k v l) \<subseteq> insert (k, v) (set l)"
  using make_room_subset [of g m "g v" l] by (auto simp: recent_put_def Let_def split: if_splits)

lemma cache_set:
  assumes "cache_ok P c"
  shows "\<exists>c'. lru_setitem one c k v = Inr c' \<and> cache_ok (\<lambda>k' v'. P k' v' \<or> k' = k \<and> v' = v) c' \<and> lru_contains c' k"
proof -
  note ok = cache_okD [OF assms]
  obtain c' where c': "lru_setitem one c k v = Inr c'" "lru_ok one c'" "lru_maxsize c' = 1000"
    "lru_abs c' = recent_put one 1000 k v (lru_abs c)"
    using lru_setitem_ok [OF ok(1), of v k] ok(2) by (auto simp: one_def)
  have mem: "(k', v') \<in> set (lru_abs c') \<Longrightarrow> (k', v') = (k, v) \<or> (k', v') \<in> set (lru_abs c)" for k' v'
    using recent_put_subset [of one 1000 k v "lru_abs c"] c'(4) by auto
  have "cache_ok (\<lambda>k' v'. P k' v' \<or> k' = k \<and> v' = v) c'"
  proof (rule cache_okI [OF c'(2,3)])
    fix k' v' assume "map_of (lru_data c') k' = Some v'"
    then have "(k', v') \<in> set (lru_data c')" by (rule map_of_SomeD)
    then have "(k', v') = (k, v) \<or> (k', v') \<in> set (lru_data c)"
      using mem [of k' v'] set_lru_abs [OF c'(2)] set_lru_abs [OF ok(1)] by simp
    then show "P k' v' \<or> k' = k \<and> v' = v"
      using ok(3) [of k' v'] lru_okD(1) [OF ok(1)] by auto
  qed
  moreover have "(k, v) \<in> set (lru_data c')"
    using set_lru_abs [OF c'(2)] c'(4) by (auto simp: recent_put_def Let_def)
  then have "lru_contains c' k" by (auto simp: lru_contains_def map_of_eq_None_iff rev_image_eqI)
  ultimately show ?thesis using c'(1) by blast
qed

lemma cache_put:
  assumes "cache_ok P c" "P k v"
  obtains c' where "lru_setitem one c k v = Inr c'" "cache_ok P c'"
proof -
  obtain c' where c': "lru_setitem one c k v = Inr c'" "cache_ok (\<lambda>k' v'. P k' v' \<or> k' = k \<and> v' = v) c'"
    using cache_set [OF assms(1)] by blast
  have "cache_ok P c'" by (rule cache_ok_mono [OF c'(2)]) (use assms(2) in auto)
  with c'(1) show thesis by (rule that)
qed

lemma cache_mutate:
  assumes "cache_ok (\<lambda>k' v'. P k' v' \<or> k' = k) c" "P k v"
  shows "cache_ok P (lru_mutate c k v)"
proof (cases "lru_contains c k")
  case True
  note ok = cache_okD [OF assms(1)] and lru = lru_okD [OF cache_okD(1) [OF assms(1)]]
  let ?d = "AList.update k v (lru_data c)"
  have dist: "distinct (map fst ?d)" using lru(1) by (rule distinct_update)
  have fst: "fst ` set ?d = fst ` set (lru_data c)"
    using True update_keys [of k v "lru_data c"]
    by (simp add: lru_contains_def map_of_eq_None_iff set_map [symmetric] del: set_map split: if_splits)
  have len: "length ?d = length (lru_data c)"
    using card_image [of fst "set ?d"] fst distinct_card [OF dist] distinct_card [OF lru(1)] by simp
  have "lru_ok one (c\<lparr>lru_data := ?d\<rparr>)"
    unfolding lru_ok_def
  proof (intro conjI)
    show "\<forall>(k', v')\<in>set (lru_data (c\<lparr>lru_data := ?d\<rparr>)). size_get (lru_sizes (c\<lparr>lru_data := ?d\<rparr>)) k' = Inr (one v')"
    proof clarify
      fix k' v' assume "(k', v') \<in> set (lru_data (c\<lparr>lru_data := ?d\<rparr>))"
      then have "k' \<in> fst ` set (lru_data c)" using fst by force
      then obtain w where "(k', w) \<in> set (lru_data c)" by auto
      from lru(4) [OF this] show "size_get (lru_sizes (c\<lparr>lru_data := ?d\<rparr>)) k' = Inr (one v')" by (simp add: one_def)
    qed
    show "lru_currsize (c\<lparr>lru_data := ?d\<rparr>) = int (sum_list (map (one \<circ> snd) (lru_data (c\<lparr>lru_data := ?d\<rparr>))))"
      using lru(6) len by (simp add: total_size_def one_def comp_def sum_list_triv)
  qed (use lru fst dist in simp_all)
  then show ?thesis
    using True ok assms(2) by (intro cache_okI) (auto simp: lru_mutate_def split: if_splits)
next
  case False
  then have none: "map_of (lru_data c) k = None" by (simp add: lru_contains_def)
  have "cache_ok P c"
  proof (rule cache_okI [OF cache_okD(1,2) [OF assms(1)]])
    fix k' v' assume v': "map_of (lru_data c) k' = Some v'"
    then have "P k' v' \<or> k' = k" by (rule cache_okD(3) [OF assms(1)])
    with none v' show "P k' v'" by auto
  qed
  then show ?thesis using False by (simp add: lru_mutate_def)
qed

lemma cache_clear: "cache_ok P c \<Longrightarrow> \<exists>c'. lru_clear c = Inr c' \<and> cache_ok Q c' \<and> lru_data c' = []"
proof -
  have "lru_ok one c \<Longrightarrow> \<exists>c'. lru_clear c = Inr c' \<and> lru_ok one c' \<and> lru_maxsize c' = lru_maxsize c \<and> lru_data c' = []"
  proof (induction "lru_abs c" arbitrary: c)
    case Nil
    then have "lru_order c = []" by (simp add: lru_abs_def)
    moreover have "lru_data c = []" using set_lru_abs [OF Nil.prems] Nil.hyps [symmetric] by simp
    ultimately show ?case using Nil.prems by (simp add: lru_clear.simps [of c] lru_popitem_def)
  next
    case (Cons kv l)
    from lru_popitem_ok [OF Cons.prems Cons.hyps(2) [symmetric]] obtain c' where
      "lru_popitem c = Inr (kv, c')" "lru_ok one c'" "lru_abs c' = l" "lru_maxsize c' = lru_maxsize c" by blast
    then show ?case using Cons.hyps(1) [of c'] by (simp add: lru_clear.simps [of c])
  qed
  then show "cache_ok P c \<Longrightarrow> \<exists>c'. lru_clear c = Inr c' \<and> cache_ok Q c' \<and> lru_data c' = []"
    by (auto simp: cache_ok_def)
qed

subsection \<open>Merkle branches from the cache\<close>

text \<open>A cached Merkle cache is right for a state of the database when it is that of the block at its height.\<close>

definition block_at :: "'db chain_db \<Rightarrow> int \<Rightarrow> bytes list \<Rightarrow> bool" where
  "block_at d height hs \<longleftrightarrow> fs_tx_hashes_at_blockheight height d = Inr hs"

definition merkle_at :: "(bytes \<Rightarrow> bytes) \<Rightarrow> 'db chain_db \<Rightarrow> int \<Rightarrow> merkle_cache \<Rightarrow> bool" where
  "merkle_at H d height mc \<longleftrightarrow> (\<exists>hs. block_at d height hs \<and> mc_inv H hs mc \<and> mc_initialized mc)"

definition merkle_ready :: "int \<Rightarrow> merkle_cache \<Rightarrow> bool" where
  "merkle_ready height mc \<longleftrightarrow> mc_initialized mc"

lemma merkle_at_ready: "merkle_at H d k mc \<Longrightarrow> merkle_ready k mc"
  by (auto simp: merkle_at_def merkle_ready_def)

lemma block_at_unique: "block_at d k hs \<Longrightarrow> block_at d k hs' \<Longrightarrow> hs = hs'"
  by (simp add: block_at_def)

lemma initialize_block:
  assumes "hs \<noteq> []"
  obtains mc where "mc_initialize H (tx_hashes_func hs) mc_new (length hs) = Inr mc" "mc_inv H hs mc" "mc_initialized mc"
  using tx_source.initialize_inv [of "length hs" hs H mc_new] assms by auto

lemma mc_branch_keeps_ready:
  assumes "mc_branch_and_root H source c len i = Some (Inr (c', br))"
  shows "mc_initialized c'"
proof -
  have "mc_initialized c2 = mc_initialized c1" if "extend_to H source c1 n = Inr c2" for c1 c2 n
    using that by (auto simp: extend_to_def Let_def err_simps split: if_splits)
  then show ?thesis using assms
    by (auto simp: mc_branch_and_root_def Let_def err_simps split: if_splits)
qed

text \<open>The cache that is used is initialised, and right when the cached ones are.\<close>

lemma block_merkle_cache_ok:
  assumes "cache_ok Q (merkle_txid_cache S)" "hs \<noteq> []" "\<And>mc. mc_inv H hs mc \<Longrightarrow> mc_initialized mc \<Longrightarrow> Q height mc"
  shows "\<exists>mc cost S'. block_merkle_cache H height hs S = Inr ((mc, cost), S') \<and> Q height mc \<and>
     cache_ok Q (merkle_txid_cache S') \<and> reorg_count S' = reorg_count S \<and> txids_cache S' = txids_cache S \<and>
     history_cache S' = history_cache S"
proof -
  let ?C = "merkle_txid_cache S"
  obtain c where c: "lru_get (looked_up ?C) height None = Inr (map_of (lru_data ?C) height, c)" "cache_ok Q c"
    using cache_get [of Q "looked_up ?C" height] assms(1) by auto
  show ?thesis
  proof (cases "map_of (lru_data ?C) height")
    case (Some mc)
    then show ?thesis using c cache_okD(3) [OF assms(1) Some] by (simp add: block_merkle_cache_def)
  next
    case None
    obtain c1 where c1: "lru_setitem one c height mc_new = Inr c1"
      "cache_ok (\<lambda>k v. Q k v \<or> k = height \<and> v = mc_new) c1" using cache_set [OF c(2)] by blast
    from initialize_block [OF assms(2)] obtain mc where
      mc: "mc_initialize H (tx_hashes_func hs) mc_new (length hs) = Inr mc" "mc_inv H hs mc" "mc_initialized mc" by blast
    have q: "Q height mc" using mc(2,3) by (rule assms(3))
    have "cache_ok Q (lru_mutate c1 height mc)"
      by (rule cache_mutate [where P = Q, OF _ q], rule cache_ok_mono [OF c1(2)]) auto
    then show ?thesis using c(1) c1(1) mc(1) q None by (simp add: block_merkle_cache_def)
  qed
qed

lemma merkle_branch_ready:
  assumes "cache_ok merkle_ready (merkle_txid_cache S)"
  shows "\<exists>r. merkle_branch H height hs pos S = Some r \<and>
    (\<forall>x S'. r = Inr (x, S') \<longrightarrow> cache_ok merkle_ready (merkle_txid_cache S') \<and> reorg_count S' = reorg_count S \<and>
        txids_cache S' = txids_cache S)"
proof (cases "200 \<le> length hs")
  case True
  then have ne: "hs \<noteq> []" by auto
  obtain mc cost S1 where S1: "block_merkle_cache H height hs S = Inr ((mc, cost), S1)" "merkle_ready height mc"
    "cache_ok merkle_ready (merkle_txid_cache S1)" "reorg_count S1 = reorg_count S" "txids_cache S1 = txids_cache S"
    using block_merkle_cache_ok [OF assms ne, of H height] by (auto simp: merkle_ready_def)
  obtain r where r: "mc_branch_and_root H (tx_hashes_func hs) mc (int (length hs)) pos = Some r"
    using S1(2) by (cases "mc_branch_and_root H (tx_hashes_func hs) mc (int (length hs)) pos")
      (auto simp: mc_branch_and_root_def merkle_ready_def split: if_splits)
  have "cache_ok merkle_ready (lru_mutate (merkle_txid_cache S1) height mc')" if "r = Inr (mc', br)" for mc' br
  proof (rule cache_mutate)
    show "cache_ok (\<lambda>k v. merkle_ready k v \<or> k = height) (merkle_txid_cache S1)"
      by (rule cache_ok_mono [OF S1(3)]) simp
    show "merkle_ready height mc'" using mc_branch_keeps_ready [OF r [unfolded that]] by (simp add: merkle_ready_def)
  qed
  then show ?thesis using True S1 r by (auto simp: merkle_branch_def err_simps)
next
  case False
  then show ?thesis using assms by (auto simp: merkle_branch_def err_simps)
qed

lemma merkle_branch_right:
  assumes "cache_ok (merkle_at H d) (merkle_txid_cache S)" "block_at d height hs" "pos < length hs"
  shows "\<exists>branch rt cost S'. merkle_branch H height hs (int pos) S = Some (Inr ((map hash_to_hex_str branch, cost), S')) \<and>
     branch_and_root H hs (int pos) None = Inr (branch, rt) \<and>
     cache_ok (merkle_at H d) (merkle_txid_cache S') \<and> reorg_count S' = reorg_count S \<and> txids_cache S' = txids_cache S"
proof -
  obtain branch rt where br: "branch_and_root H hs (int pos) None = Inr (branch, rt)"
    using branch_and_root_natural [OF assms(3)] by blast
  show ?thesis
  proof (cases "200 \<le> length hs")
    case True
    then have ne: "hs \<noteq> []" by auto
    obtain mc cost S1 where S1: "block_merkle_cache H height hs S = Inr ((mc, cost), S1)" "merkle_at H d height mc"
      "cache_ok (merkle_at H d) (merkle_txid_cache S1)" "reorg_count S1 = reorg_count S" "txids_cache S1 = txids_cache S"
      using block_merkle_cache_ok [OF assms(1) ne, of H height] assms(2) by (auto simp: merkle_at_def)
    have mc: "mc_inv H hs mc" "mc_initialized mc"
      using S1(2) block_at_unique [OF assms(2)] by (auto simp: merkle_at_def)
    obtain mc' where mc': "mc_inv H hs mc'" "mc_initialized mc'"
      "mc_branch_and_root H (tx_hashes_func hs) mc (int (length hs)) (int pos) = Some (Inr (mc', branch, rt))"
      using tx_source.branch_and_root_correct [OF mc assms(3) order_refl] br by auto
    have at: "merkle_at H d height mc'" using mc' assms(2) by (auto simp: merkle_at_def)
    have "cache_ok (merkle_at H d) (lru_mutate (merkle_txid_cache S1) height mc')"
      by (rule cache_mutate [where P = "merkle_at H d", OF _ at], rule cache_ok_mono [OF S1(3)]) simp
    moreover have "merkle_branch H height hs (int pos) S = Some (Inr ((map hash_to_hex_str branch, cost / 2500),
        S1\<lparr>merkle_txid_cache := lru_mutate (merkle_txid_cache S1) height mc'\<rparr>))"
      using True S1(1) mc'(3) by (simp add: merkle_branch_def)
    ultimately show ?thesis using S1(4,5) br by fastforce
  next
    case False
    then have "merkle_branch H height hs (int pos) S = Some (Inr ((map hash_to_hex_str branch, real (length hs) / 2500), S))"
      using br by (simp add: merkle_branch_def)
    then show ?thesis using assms(1) br by fastforce
  qed
qed

subsection \<open>Answers to requests\<close>

text \<open>The right answer from a block's hashes: a branch that verifies against the root of the block for the
  transaction asked for, or the transaction at the position asked for.\<close>

fun right_answer :: "(bytes \<Rightarrow> bytes) \<Rightarrow> int \<Rightarrow> want \<Rightarrow> bytes list \<Rightarrow> json \<Rightarrow> bool" where
  "right_answer H height (MerkleOf tx_hash) hs answer \<longleftrightarrow>
     (\<exists>branch rt pos. answer = served_merkle height (map hash_to_hex_str branch) pos \<and> pos < length hs \<and> hs ! pos = tx_hash \<and>
        merkle_root H hs None = Inr rt \<and> root_from_proof H tx_hash branch (int pos) = Inr rt)"
| "right_answer H height (IdAt tx_pos True) hs answer \<longleftrightarrow>
     (\<exists>branch rt. answer = served_id_merkle (hash_to_hex_str (hs ! nat tx_pos)) (map hash_to_hex_str branch) \<and>
        nat tx_pos < length hs \<and> merkle_root H hs None = Inr rt \<and>
        root_from_proof H (hs ! nat tx_pos) branch tx_pos = Inr rt)"
| "right_answer H height (IdAt tx_pos False) hs answer \<longleftrightarrow>
     answer = JStr (hash_to_hex_str (hs ! nat tx_pos)) \<and> nat tx_pos < length hs"

lemma py_index_Inr: "py_index x l = Inr i \<Longrightarrow> i < length l \<and> l ! i = x"
  by (induction l arbitrary: i) (auto simp: err_simps split: if_splits)

lemma branch_verifies:
  assumes "branch_and_root H hs (int i) None = Inr (branch, rt)"
  shows "i < length hs" "merkle_root H hs None = Inr rt" "root_from_proof H (hs ! i) branch (int i) = Inr rt"
proof -
  from assms obtain j where j: "int i = int j" "j < length hs" "branch = branch_of H (clog (length hs)) hs j"
    "rt = levels H (clog (length hs)) hs ! 0" by (rule branch_and_root_Inr)
  then have ij: "i = j" and i: "i < length hs" by simp_all
  have "i < 2 ^ clog (length hs)" using i clog_bound [of "length hs"] by linarith
  then have z: "i div 2 ^ clog (length hs) = 0" by simp
  show "root_from_proof H (hs ! i) branch (int i) = Inr rt"
    using proof_loop_branch_of [OF i, of H "clog (length hs)"] z j ij by (simp add: root_from_proof_def)
  have "0 < length hs" using i by (rule le_less_trans [OF le0])
  from branch_and_root_natural [OF this, of H] show "merkle_root H hs None = Inr rt"
    using j by (simp add: merkle_root_def)
  show "i < length hs" by fact
qed

lemma requested_pos:
  "requested height w \<Longrightarrow> 0 \<le> height"
  "requested height (IdAt tx_pos b) \<Longrightarrow> 0 \<le> tx_pos"
  by (auto simp: requested_def transaction_merkle_args_def transaction_id_from_pos_args_def err_simps split: option.splits)

lemma serve_hashes_ready:
  assumes "cache_ok merkle_ready (merkle_txid_cache S)"
  shows "\<exists>r S'. serve_hashes H height w (hs, cost) S = Some (r, S') \<and> cache_ok merkle_ready (merkle_txid_cache S') \<and>
    reorg_count S' = reorg_count S \<and> txids_cache S' = txids_cache S"
proof -
  note mb = merkle_branch_ready [OF assms, of H height hs]
  show ?thesis
  proof (cases "\<exists>tx. w = MerkleOf tx")
    case True
    then obtain tx where w: "w = MerkleOf tx" by blast
    show ?thesis
    proof (cases "py_index tx hs")
      case (Inr i)
      obtain r where "merkle_branch H height hs (int i) S = Some r" "\<forall>x S'. r = Inr (x, S') \<longrightarrow>
          cache_ok merkle_ready (merkle_txid_cache S') \<and> reorg_count S' = reorg_count S \<and> txids_cache S' = txids_cache S"
        using mb by blast
      then show ?thesis using assms w Inr
        by (cases r) (auto simp: merkle_branch_for_tx_hash_def)
    qed (use assms w in \<open>simp add: merkle_branch_for_tx_hash_def\<close>)
  next
    case False
    then obtain i b where w: "w = IdAt i b" by (cases w) auto
    show ?thesis
    proof (cases b)
      case True
      show ?thesis
      proof (cases "py_nth hs i")
        case (Inr h)
        obtain r where "merkle_branch H height hs i S = Some r" "\<forall>x S'. r = Inr (x, S') \<longrightarrow>
            cache_ok merkle_ready (merkle_txid_cache S') \<and> reorg_count S' = reorg_count S \<and> txids_cache S' = txids_cache S"
          using mb by blast
        then show ?thesis using assms w True Inr
          by (cases r) (auto simp: merkle_branch_for_tx_pos_def)
      qed (use assms w True in \<open>simp add: merkle_branch_for_tx_pos_def\<close>)
    qed (use assms w in simp)
  qed
qed

lemma serve_hashes_right:
  assumes "cache_ok (merkle_at H d) (merkle_txid_cache S)" "block_at d height hs" "requested height w"
  shows "\<exists>r S'. serve_hashes H height w (hs, cost) S = Some (r, S') \<and> cache_ok (merkle_at H d) (merkle_txid_cache S') \<and>
    (case r of Inl e \<Rightarrow> e = bad_request | Inr (answer, cost) \<Rightarrow> right_answer H height w hs answer)"
proof (cases w)
  case (MerkleOf tx)
  show ?thesis
  proof (cases "py_index tx hs")
    case (Inr i)
    then have i: "i < length hs" "hs ! i = tx" using py_index_Inr [OF Inr] by simp_all
    from merkle_branch_right [OF assms(1,2) i(1)] obtain branch rt cost' S' where
      b: "merkle_branch H height hs (int i) S = Some (Inr ((map hash_to_hex_str branch, cost'), S'))"
      "branch_and_root H hs (int i) None = Inr (branch, rt)" "cache_ok (merkle_at H d) (merkle_txid_cache S')" by blast
    have "right_answer H height w hs (served_merkle height (map hash_to_hex_str branch) i)"
      using branch_verifies [OF b(2)] i(2) unfolding MerkleOf right_answer.simps by blast
    then show ?thesis using b(1,3) Inr by (simp add: MerkleOf merkle_branch_for_tx_hash_def)
  qed (use assms MerkleOf in \<open>simp add: merkle_branch_for_tx_hash_def\<close>)
next
  case (IdAt tx_pos m)
  then have pos: "0 \<le> tx_pos" using requested_pos(2) assms(3) by blast
  show ?thesis
  proof (cases "py_nth hs tx_pos")
    case (Inr h)
    then have i: "nat tx_pos < length hs" "hs ! nat tx_pos = h" using pos by (simp_all add: py_nth_def split: if_splits)
    show ?thesis
    proof (cases m)
      case True
      have n: "int (nat tx_pos) = tx_pos" using pos by simp
      from merkle_branch_right [OF assms(1,2) i(1), unfolded n] obtain branch rt cost' S' where
        b: "merkle_branch H height hs tx_pos S = Some (Inr ((map hash_to_hex_str branch, cost'), S'))"
        "branch_and_root H hs tx_pos None = Inr (branch, rt)" "cache_ok (merkle_at H d) (merkle_txid_cache S')"
        by blast
      have v: "merkle_root H hs None = Inr rt" "root_from_proof H (hs ! nat tx_pos) branch tx_pos = Inr rt"
        using branch_verifies [of H hs "nat tx_pos" branch rt, unfolded n] b(2) by blast+
      have "right_answer H height w hs (served_id_merkle (hash_to_hex_str h) (map hash_to_hex_str branch))"
        using v i(1) True unfolding IdAt i(2) [symmetric] by (cases m) auto
      then show ?thesis using b(1,3) Inr True by (simp add: IdAt merkle_branch_for_tx_pos_def)
    next
      case False
      then show ?thesis using assms(1) Inr i by (simp add: IdAt)
    qed
  next
    case Inl
    then show ?thesis using assms(1) by (cases m) (simp_all add: IdAt merkle_branch_for_tx_pos_def)
  qed
qed

subsection \<open>The invariant of the interleaved requests\<close>

text \<open>What is right for a state of the database: cached hashes and Merkle caches are those of its blocks, and so are
  the answers that pending requests hold and will still accept.\<close>

definition right_for :: "(bytes \<Rightarrow> bytes) \<Rightarrow> 'db chain_db \<Rightarrow> session_caches \<Rightarrow> pending list \<Rightarrow> bool" where
  "right_for H d S ps \<longleftrightarrow> cache_ok (block_at d) (txids_cache S) \<and> cache_ok (merkle_at H d) (merkle_txid_cache S) \<and>
     (\<forall>p \<in> set ps. \<forall>hs. p_count p = reorg_count S \<longrightarrow> p_answer p = Some (Inr hs) \<longrightarrow> block_at d (p_height p) hs)"

definition serving_inv :: "(bytes \<Rightarrow> bytes) \<Rightarrow> 'db serving \<Rightarrow> bool" where
  "serving_inv H s \<longleftrightarrow>
     cache_ok (\<lambda>_ _. True) (txids_cache (caches s)) \<and> cache_ok merkle_ready (merkle_txid_cache (caches s)) \<and>
     (\<forall>p \<in> set (waiting s). p_count p \<le> reorg_count (caches s) \<and> requested (p_height p) (p_want p)) \<and>
     (\<not> signalled s \<longrightarrow> right_for H (chain_state s) (caches s) (waiting s))"

lemma ask_ok:
  assumes "cache_ok P (txids_cache S)"
  obtains hs cost S' where "ask_tx_hashes height S = Inr (Found hs cost, S')" "P height hs"
      "cache_ok P (txids_cache S')" "merkle_txid_cache S' = merkle_txid_cache S" "reorg_count S' = reorg_count S"
  | S' where "ask_tx_hashes height S = Inr (Asked (reorg_count S), S')"
      "cache_ok P (txids_cache S')" "merkle_txid_cache S' = merkle_txid_cache S" "reorg_count S' = reorg_count S"
proof -
  let ?C = "txids_cache S"
  obtain c where c: "lru_get (looked_up ?C) height None = Inr (map_of (lru_data ?C) height, c)" "cache_ok P c"
    using cache_get [of P "looked_up ?C" height] assms by auto
  show thesis
  proof (cases "\<exists>x xs. map_of (lru_data ?C) height = Some (x # xs)")
    case True
    then obtain x xs where x: "map_of (lru_data ?C) height = Some (x # xs)" by blast
    show thesis
      by (rule that(1) [of "x # xs" "0.1" "S\<lparr>txids_cache := hit c\<rparr>"])
        (use c x cache_okD(3) [OF assms x] in \<open>simp_all add: ask_tx_hashes_def\<close>)
  next
    case False
    show thesis
      by (rule that(2) [of "S\<lparr>txids_cache := c\<rparr>"])
        (use c False in \<open>auto simp: ask_tx_hashes_def split: option.splits list.splits\<close>)
  qed
qed

lemma answer_ok:
  assumes "cache_ok P (txids_cache S)"
  obtains e where "answer = Inl e" "answer_tx_hashes height n answer S = Inr (Failed (if e = DBError then bad_request else PyError e), S)"
  | hs where "answer = Inr hs" "n \<noteq> reorg_count S" "answer_tx_hashes height n answer S = Inr (Again (reorg_count S), S)"
  | hs cost S' where "answer = Inr hs" "n = reorg_count S" "answer_tx_hashes height n answer S = Inr (Got hs cost, S')"
      "P height hs \<Longrightarrow> cache_ok P (txids_cache S')" "cache_ok (\<lambda>_ _. True) (txids_cache S')"
      "merkle_txid_cache S' = merkle_txid_cache S" "reorg_count S' = reorg_count S"
proof (cases answer)
  case (Inl e)
  then show thesis by (intro that(1)) (simp_all add: answer_tx_hashes_def)
next
  case (Inr hs)
  show thesis
  proof (cases "n = reorg_count S")
    case False
    then show thesis using Inr by (intro that(2)) (simp_all add: answer_tx_hashes_def)
  next
    case True
    obtain c where c: "lru_setitem one (txids_cache S) height hs = Inr c"
      "cache_ok (\<lambda>k v. P k v \<or> k = height \<and> v = hs) c" using cache_set [OF assms] by blast
    show thesis
    proof (rule that(3) [of hs _ "S\<lparr>txids_cache := c\<rparr>"])
      show "answer_tx_hashes height n answer S =
          Inr (Got hs (0.25 + real (length hs) * 0.0001), S\<lparr>txids_cache := c\<rparr>)"
        using Inr True c(1) by (simp add: answer_tx_hashes_def)
      show "cache_ok P (txids_cache (S\<lparr>txids_cache := c\<rparr>))" if "P height hs"
        using cache_ok_mono [OF c(2)] that by auto
      show "cache_ok (\<lambda>_ _. True) (txids_cache (S\<lparr>txids_cache := c\<rparr>))" using cache_ok_mono [OF c(2)] by simp
    qed (use Inr True in simp_all)
  qed
qed

lemma right_forI:
  "cache_ok (block_at d) (txids_cache S) \<Longrightarrow> cache_ok (merkle_at H d) (merkle_txid_cache S) \<Longrightarrow>
   (\<And>p hs. p \<in> set ps \<Longrightarrow> p_count p = reorg_count S \<Longrightarrow> p_answer p = Some (Inr hs) \<Longrightarrow> block_at d (p_height p) hs) \<Longrightarrow>
   right_for H d S ps"
  by (simp add: right_for_def)

lemma right_forD:
  assumes "right_for H d S ps"
  shows "cache_ok (block_at d) (txids_cache S)" "cache_ok (merkle_at H d) (merkle_txid_cache S)"
    "\<And>p hs. p \<in> set ps \<Longrightarrow> p_count p = reorg_count S \<Longrightarrow> p_answer p = Some (Inr hs) \<Longrightarrow> block_at d (p_height p) hs"
  using assms by (auto simp: right_for_def)

lemma right_for_keeps:
  assumes "right_for H d S ps" "keeps_blocks d d'"
  shows "right_for H d' S ps"
proof -
  have k: "block_at d h hs \<Longrightarrow> block_at d' h hs" for h hs
    using assms(2) by (simp add: keeps_blocks_def block_at_def)
  note r = right_forD [OF assms(1)]
  show ?thesis
  proof (rule right_forI)
    show "cache_ok (block_at d') (txids_cache S)" by (rule cache_ok_mono [OF r(1) k])
    show "cache_ok (merkle_at H d') (merkle_txid_cache S)"
      by (rule cache_ok_mono [OF r(2)]) (auto simp: merkle_at_def intro: k)
  qed (use r(3) k in blast)
qed

lemma handle_ok:
  assumes "cache_ok P (txids_cache S)" "cache_ok Q (merkle_txid_cache S)"
  shows "\<exists>S'. handle_chain_reorg S = Inr S' \<and> reorg_count S' = reorg_count S + 1 \<and>
    cache_ok P' (txids_cache S') \<and> cache_ok Q' (merkle_txid_cache S')"
proof -
  obtain c where c: "lru_clear (txids_cache S) = Inr c" "cache_ok P' c" using cache_clear [OF assms(1), of P'] by blast
  obtain m where m: "lru_clear (merkle_txid_cache S) = Inr m" "cache_ok Q' m" using cache_clear [OF assms(2), of Q'] by blast
  show ?thesis using c m by (simp add: handle_chain_reorg_def)
qed

text \<open>Once the hashes of the block are known, the answer and the caches it leaves.\<close>

lemma serve_keeps:
  assumes "cache_ok merkle_ready (merkle_txid_cache S)" "serve_hashes H height w (hs, cost) S = Some (r, S')"
  shows "cache_ok merkle_ready (merkle_txid_cache S') \<and> reorg_count S' = reorg_count S \<and> txids_cache S' = txids_cache S"
  using serve_hashes_ready [OF assms(1), of H height w hs cost] assms(2) by auto

lemma serve_right_for:
  assumes "right_for H d S ps" "block_at d height hs" "requested height w"
    "cache_ok merkle_ready (merkle_txid_cache S)" "serve_hashes H height w (hs, cost) S = Some (r, S')"
  shows "right_for H d S' ps"
    "case r of Inl e \<Rightarrow> e = bad_request | Inr (answer, cost) \<Rightarrow> right_answer H height w hs answer"
proof -
  note s = serve_keeps [OF assms(4,5)] and r = right_forD [OF assms(1)]
  have *: "cache_ok (merkle_at H d) (merkle_txid_cache S') \<and>
      (case r of Inl e \<Rightarrow> e = bad_request | Inr (answer, cost) \<Rightarrow> right_answer H height w hs answer)"
    using serve_hashes_right [OF r(2) assms(2,3), of cost] assms(5) by auto
  then show "right_for H d S' ps" using s r by (intro right_forI) simp_all
  show "case r of Inl e \<Rightarrow> e = bad_request | Inr (answer, cost) \<Rightarrow> right_answer H height w hs answer" using * by simp
qed

lemma serving_inv_step:
  assumes "serving_inv H s" "serving_step H s ev s'"
  shows "serving_inv H s' \<and>
    (\<forall>height w answer cost. ev = Served height w (Inr (answer, cost)) \<longrightarrow> \<not> signalled s \<longrightarrow>
       (\<exists>hs. block_at (chain_state s) height hs \<and> right_answer H height w hs answer))"
  using assms(2,1)
proof cases
  case (cached height w hs cost S r S')
  note inv = assms(1) [unfolded serving_inv_def]
  from inv have ready: "cache_ok merkle_ready (merkle_txid_cache (caches s))" by simp
  have ask: "\<And>P. cache_ok P (txids_cache (caches s)) \<Longrightarrow> P height hs \<and> cache_ok P (txids_cache S)"
    and same: "merkle_txid_cache S = merkle_txid_cache (caches s)" "reorg_count S = reorg_count (caches s)"
  proof -
    show "P height hs \<and> cache_ok P (txids_cache S)" if "cache_ok P (txids_cache (caches s))" for P
      using ask_ok [OF that, of height] cached(4) by auto
    show "merkle_txid_cache S = merkle_txid_cache (caches s)" "reorg_count S = reorg_count (caches s)"
      using ask_ok [of "\<lambda>_ _. True" "caches s" height] inv cached(4) by auto
  qed
  have k: "cache_ok merkle_ready (merkle_txid_cache S') \<and> reorg_count S' = reorg_count S \<and> txids_cache S' = txids_cache S"
    by (rule serve_keeps [OF _ cached(5)]) (use ready same in simp)
  show ?thesis
  proof (cases "signalled s")
    case True
    then show ?thesis using inv k ask [of "\<lambda>_ _. True"] same cached(1,2) by (simp add: serving_inv_def)
  next
    case False
    then have R: "right_for H (chain_state s) (caches s) (waiting s)" using inv by simp
    have at: "block_at (chain_state s) height hs" and c: "cache_ok (block_at (chain_state s)) (txids_cache S)"
      using ask [OF right_forD(1) [OF R]] by simp_all
    have R': "right_for H (chain_state s) S (waiting s)"
      using right_forD [OF R] c same by (intro right_forI) simp_all
    have ready': "cache_ok merkle_ready (merkle_txid_cache S)" using ready same by simp
    note sr = serve_right_for [OF R' at cached(3) ready' cached(5)]
    show ?thesis using inv k sr at ask [of "\<lambda>_ _. True"] same cached(1,2) by (auto simp: serving_inv_def)
  qed
next
  case (asked height w n S)
  note inv = assms(1) [unfolded serving_inv_def]
  have ask: "\<And>P. cache_ok P (txids_cache (caches s)) \<Longrightarrow> cache_ok P (txids_cache S)"
    and same: "merkle_txid_cache S = merkle_txid_cache (caches s)" "reorg_count S = reorg_count (caches s)" "n = reorg_count S"
  proof -
    show "cache_ok P (txids_cache S)" if "cache_ok P (txids_cache (caches s))" for P
      using ask_ok [OF that, of height] asked(4) by auto
    show "merkle_txid_cache S = merkle_txid_cache (caches s)" "reorg_count S = reorg_count (caches s)" "n = reorg_count S"
      by (rule ask_ok [of "\<lambda>_ _. True" "caches s" height]; use inv asked(4) in simp)+
  qed
  have R: "\<not> signalled s \<Longrightarrow> right_for H (chain_state s) S (waiting s')"
    using inv ask same asked(2) by (simp add: right_for_def)
  then show ?thesis using inv ask [of "\<lambda>_ _. True"] same asked(1-3) by (simp add: serving_inv_def)
next
  case (read ps p qs)
  then show ?thesis using assms(1) by (auto simp: serving_inv_def right_for_def block_at_def)
next
  case (failed ps p qs a e S)
  note inv = assms(1) [unfolded serving_inv_def]
  from inv have T: "cache_ok (\<lambda>_ _. True) (txids_cache (caches s))" by simp
  have "S = caches s" by (rule answer_ok [OF T, of a "p_height p" "p_count p"]; use failed(5) in simp)
  then show ?thesis using inv failed(1-3) by (simp add: serving_inv_def right_for_def)
next
  case (again ps p qs a n S)
  note inv = assms(1) [unfolded serving_inv_def]
  from inv have T: "cache_ok (\<lambda>_ _. True) (txids_cache (caches s))" by simp
  have "S = caches s \<and> n = reorg_count S" by (rule answer_ok [OF T, of a "p_height p" "p_count p"]; use again(5) in auto)
  then show ?thesis using inv again(1-3) by (simp add: serving_inv_def right_for_def)
next
  case (got ps p qs a hs cost S r S')
  note inv = assms(1) [unfolded serving_inv_def]
  from inv have T: "cache_ok (\<lambda>_ _. True) (txids_cache (caches s))" and ready: "cache_ok merkle_ready (merkle_txid_cache (caches s))"
    and req: "requested (p_height p) (p_want p)" using got(3) by auto
  have a: "a = Inr hs" "p_count p = reorg_count (caches s)" and same: "merkle_txid_cache S = merkle_txid_cache (caches s)"
      "reorg_count S = reorg_count (caches s)" "cache_ok (\<lambda>_ _. True) (txids_cache S)"
    by (rule answer_ok [OF T, of a "p_height p" "p_count p"]; use got(5) in simp)+
  have ready': "cache_ok merkle_ready (merkle_txid_cache S)" using ready same by simp
  note k = serve_keeps [OF ready' got(6)]
  show ?thesis
  proof (cases "signalled s")
    case True
    then show ?thesis using inv k same got(1-3) by (simp add: serving_inv_def)
  next
    case False
    then have R: "right_for H (chain_state s) (caches s) (waiting s)" using inv by simp
    have at: "block_at (chain_state s) (p_height p) hs"
      using right_forD(3) [OF R, of p hs] a got(3,4) by simp
    have "cache_ok (block_at (chain_state s)) (txids_cache S)"
      by (rule answer_ok [OF right_forD(1) [OF R], of a "p_height p" "p_count p"]; use got(5) at a in simp)
    then have R': "right_for H (chain_state s) S (ps @ qs)"
      using right_forD [OF R] same got(3) by (intro right_forI) auto
    note sr = serve_right_for [OF R' at req ready' got(6)]
    show ?thesis using inv k sr at same got(1-3) by (auto simp: serving_inv_def)
  qed
next
  case (advanced d)
  then show ?thesis using assms(1) right_for_keeps by (auto simp: serving_inv_def)
next
  case (backed_up d)
  then show ?thesis using assms(1) by (auto simp: serving_inv_def)
next
  case (handled S)
  note inv = assms(1) [unfolded serving_inv_def]
  have h: "cache_ok P (txids_cache S) \<and> cache_ok Q (merkle_txid_cache S) \<and> reorg_count S = reorg_count (caches s) + 1" for P Q
    using handle_ok [of "\<lambda>_ _. True" "caches s" merkle_ready P Q] inv handled(4) by auto
  have "right_for H (chain_state s) S (waiting s)"
  proof (rule right_forI)
    fix p hs assume "p \<in> set (waiting s)" "p_count p = reorg_count S"
    moreover from this(1) have "p_count p \<le> reorg_count (caches s)" using inv by simp
    ultimately show "block_at (chain_state s) (p_height p) hs" using h by simp
  qed (simp_all add: h)
  moreover have "\<forall>p \<in> set (waiting s). p_count p \<le> reorg_count S" using inv h by (simp add: le_SucI)
  ultimately show ?thesis using h inv handled(1,2) by (simp add: serving_inv_def)
qed

lemma serving_invariant: "serving_run H d s \<Longrightarrow> serving_inv H s"
proof (induction rule: serving_run.induct)
  case start
  have c: "cache_ok P (txids_cache new_session_caches)" "cache_ok Q (merkle_txid_cache new_session_caches)" for P Q
    by (simp_all add: new_session_caches_def)
  show ?case by (simp add: serving_inv_def right_for_def c)
next
  case (step s ev s')
  then show ?case using serving_inv_step by blast
qed

text \<open>Adding blocks keeps what can be read: the files of the longer chain read the same below.\<close>

lemma block_at_files:
  assumes "fs_rep C d hs blks" "db_height d = fs_height d"
  shows "block_at d h x \<longleftrightarrow> 0 \<le> h \<and> h < int (length blks) \<and> x = blks ! nat h"
proof (cases "0 \<le> h \<and> h < int (length blks)")
  case True
  then have "fs_tx_hashes_at_blockheight (int (nat h)) d = Inr (blks ! nat h)"
    by (intro fs_tx_hashes_spec [OF assms]) auto
  then show ?thesis using True by (auto simp: block_at_def)
next
  case False
  then have "h > db_height d \<or> h < 0" using fs_rep_height [OF assms(1)] assms(2) by auto
  then show ?thesis using False by (auto simp: block_at_def fs_tx_hashes_at_blockheight_def)
qed

lemma keeps_blocks_files:
  assumes "fs_rep C d hs blks" "db_height d = fs_height d" "fs_rep C d' (hs @ hs') (blks @ blks')" "db_height d' = fs_height d'"
  shows "keeps_blocks d d'"
  using block_at_files [OF assms(1,2)] block_at_files [OF assms(3,4)]
  by (auto simp: keeps_blocks_def nth_append simp flip: block_at_def)

text \<open>A request is answered at once or starts to wait, and one that waits with an answer of the database is served,
  or asks again if a reorganisation was handled since it asked.\<close>

lemma request_progress:
  assumes "serving_inv H s" "requested height w"
  shows "(\<exists>r s'. serving_step H s (Served height w r) s') \<or>
    (\<exists>s' p. serving_step H s Silent s' \<and> waiting s' = p # waiting s \<and> p_height p = height \<and> p_want p = w \<and> p_answer p = None)"
proof -
  note inv = assms(1) [unfolded serving_inv_def]
  then have T: "cache_ok (\<lambda>_ _. True) (txids_cache (caches s))" and R: "cache_ok merkle_ready (merkle_txid_cache (caches s))"
    by simp_all
  from T show ?thesis
  proof (rule ask_ok [of _ _ height])
    fix hs cost S assume S: "ask_tx_hashes height (caches s) = Inr (Found hs cost, S)" "merkle_txid_cache S = merkle_txid_cache (caches s)"
    then obtain r S' where "serve_hashes H height w (hs, cost) S = Some (r, S')"
      using serve_hashes_ready [of S H height w hs cost] R by auto
    then show ?thesis using cached [OF assms(2) S(1)] by blast
  next
    fix S assume S: "ask_tx_hashes height (caches s) = Inr (Asked (reorg_count (caches s)), S)"
    show ?thesis using asked [OF assms(2) S, of H] by force
  qed
qed

lemma pending_progress:
  assumes "serving_inv H s" "waiting s = ps @ p # qs" "p_answer p = Some a"
  shows "(\<exists>r s'. serving_step H s (Served (p_height p) (p_want p) r) s' \<and> waiting s' = ps @ qs) \<or>
    p_count p \<noteq> reorg_count (caches s) \<and>
    (\<exists>s'. serving_step H s Silent s' \<and> waiting s' = ps @ p\<lparr>p_count := reorg_count (caches s), p_answer := None\<rparr> # qs)"
proof -
  note inv = assms(1) [unfolded serving_inv_def]
  then have T: "cache_ok (\<lambda>_ _. True) (txids_cache (caches s))" and R: "cache_ok merkle_ready (merkle_txid_cache (caches s))"
    by simp_all
  from T show ?thesis
  proof (rule answer_ok [of _ _ a "p_height p" "p_count p"])
    fix e assume "answer_tx_hashes (p_height p) (p_count p) a (caches s) =
      Inr (Failed (if e = DBError then bad_request else PyError e), caches s)"
    from failed [OF assms(2,3) this, of H] show ?thesis by force
  next
    assume "p_count p \<noteq> reorg_count (caches s)"
      "answer_tx_hashes (p_height p) (p_count p) a (caches s) = Inr (Again (reorg_count (caches s)), caches s)"
    with again [OF assms(2,3) this(2), of H] show ?thesis by force
  next
    fix hs cost S assume S: "answer_tx_hashes (p_height p) (p_count p) a (caches s) = Inr (Got hs cost, S)"
      "merkle_txid_cache S = merkle_txid_cache (caches s)"
    then obtain r S' where "serve_hashes H (p_height p) (p_want p) (hs, cost) S = Some (r, S')"
      using serve_hashes_ready [of S H "p_height p" "p_want p" hs cost] R by auto
    from got [OF assms(2,3) S(1) this] show ?thesis by force
  qed
qed

lemma served_blocks_right_parts:
  assumes "serving_run H d s"
  shows "\<not> signalled s \<Longrightarrow> serving_step H s (Served height w (Inr (answer, cost))) s' \<Longrightarrow>
     \<exists>hs. fs_tx_hashes_at_blockheight height (chain_state s) = Inr hs \<and> right_answer H height w hs answer"
    and "requested height w \<Longrightarrow> (\<exists>r s'. serving_step H s (Served height w r) s') \<or>
     (\<exists>s' p. serving_step H s Silent s' \<and> waiting s' = p # waiting s \<and> p_height p = height \<and> p_want p = w \<and> p_answer p = None)"
    and "waiting s = ps @ p # qs \<Longrightarrow> p_answer p = Some a \<Longrightarrow>
     (\<exists>r s'. serving_step H s (Served (p_height p) (p_want p) r) s' \<and> waiting s' = ps @ qs) \<or>
     p_count p \<noteq> reorg_count (caches s) \<and>
     (\<exists>s'. serving_step H s Silent s' \<and> waiting s' = ps @ p\<lparr>p_count := reorg_count (caches s), p_answer := None\<rparr> # qs)"
proof -
  note inv = serving_invariant [OF assms]
  show "\<exists>hs. fs_tx_hashes_at_blockheight height (chain_state s) = Inr hs \<and> right_answer H height w hs answer"
    if "\<not> signalled s" "serving_step H s (Served height w (Inr (answer, cost))) s'"
    using serving_inv_step [OF inv that(2)] that(1) by (simp add: block_at_def)
  show "(\<exists>r s'. serving_step H s (Served height w r) s') \<or>
     (\<exists>s' p. serving_step H s Silent s' \<and> waiting s' = p # waiting s \<and> p_height p = height \<and> p_want p = w \<and> p_answer p = None)"
    if "requested height w" using request_progress [OF inv that] .
  show "(\<exists>r s'. serving_step H s (Served (p_height p) (p_want p) r) s' \<and> waiting s' = ps @ qs) \<or>
     p_count p \<noteq> reorg_count (caches s) \<and>
     (\<exists>s'. serving_step H s Silent s' \<and> waiting s' = ps @ p\<lparr>p_count := reorg_count (caches s), p_answer := None\<rparr> # qs)"
    if "waiting s = ps @ p # qs" "p_answer p = Some a" using pending_progress [OF inv that] .
qed

text \<open>C5: However requests, block additions, reorganisations and their handling interleave, a request that is
  answered while no reorganisation waits to be handled is answered from the block the database has at its
  height: the transaction at the position asked for, or a branch that verifies that transaction against
  the block's Merkle root, whether it came from the caches or not.  Every request is answered at once or
  waits for the database, and once that has answered it is served unless a reorganisation was handled since
  it asked, when it asks again.\<close>

theorem served_blocks_right:
  assumes "serving_run H d s"
  shows "(\<forall>height w answer cost s'. \<not> signalled s \<longrightarrow> serving_step H s (Served height w (Inr (answer, cost))) s' \<longrightarrow>
       (\<exists>hs. fs_tx_hashes_at_blockheight height (chain_state s) = Inr hs \<and> right_answer H height w hs answer))
    \<and> (\<forall>height w. requested height w \<longrightarrow> (\<exists>r s'. serving_step H s (Served height w r) s') \<or>
       (\<exists>s' p. serving_step H s Silent s' \<and> waiting s' = p # waiting s \<and> p_height p = height \<and> p_want p = w \<and> p_answer p = None))
    \<and> (\<forall>ps p qs a. waiting s = ps @ p # qs \<longrightarrow> p_answer p = Some a \<longrightarrow>
       (\<exists>r s'. serving_step H s (Served (p_height p) (p_want p) r) s' \<and> waiting s' = ps @ qs) \<or>
       p_count p \<noteq> reorg_count (caches s) \<and>
       (\<exists>s'. serving_step H s Silent s' \<and> waiting s' = ps @ p\<lparr>p_count := reorg_count (caches s), p_answer := None\<rparr> # qs))"
  by (intro conjI allI impI; (erule (1) served_blocks_right_parts(1) [OF assms] | erule served_blocks_right_parts(2) [OF assms]
    | erule (1) served_blocks_right_parts(3) [OF assms]))

definition sample_chain :: "unit chain_db" where
  "sample_chain = (flushed_fs sample_env sample_flush [] [] sample_blocks
    ((empty_db (new_history ()) ())\<lparr>tx_counts := [1, 3]\<rparr>))\<lparr>db_height := 1\<rparr>"

lemma sample_chain_block: "block_at sample_chain 1 [replicate 32 2, replicate 32 3]"
proof -
  have "fs_rep sample_env (sample_chain\<lparr>db_height := -1\<rparr>) [[1, 2], [3, 4, 5]] sample_blocks"
    using flushed_fs_rep [OF sample_rep_counts sample_flushable, of "new_history ()" "()"]
    by (simp add: sample_chain_def flushed_fs_def empty_db_def sample_flush_def)
  then have "fs_rep sample_env sample_chain [[1, 2], [3, 4, 5]] sample_blocks" by (simp add: fs_rep_def)
  moreover have "db_height sample_chain = fs_height sample_chain" by (simp add: sample_chain_def flushed_fs_def sample_flush_def)
  ultimately show ?thesis using block_at_files [of sample_env sample_chain "[[1, 2], [3, 4, 5]]" sample_blocks 1] by simp
qed

text \<open>A client asks for the proof of the first transaction of block 1.\<close>

definition sample_request :: pending where
  "sample_request = \<lparr>p_height = 1, p_want = MerkleOf (replicate 32 2), p_count = 0,
     p_answer = Some (Inr [replicate 32 2, replicate 32 3])\<rparr>"

lemma sample_requested: "requested 1 (MerkleOf (replicate 32 2))"
proof -
  have "transaction_merkle_args (JStr (hash_to_hex_str (replicate 32 2))) (JInt 1) = Inr (1, MerkleOf (replicate 32 2))"
    by (simp add: transaction_merkle_args_def assert_tx_hash_def non_negative_integer_def)
  then show ?thesis by (auto simp: requested_def)
qed

lemma sample_waiting:
  "\<exists>S. serving_run H sample_chain \<lparr>caches = S, chain_state = sample_chain, signalled = False, waiting = [sample_request]\<rparr> \<and>
     reorg_count S = 0"
proof -
  let ?s0 = "\<lparr>caches = new_session_caches, chain_state = sample_chain, signalled = False, waiting = []\<rparr>"
  obtain S where S: "ask_tx_hashes 1 new_session_caches = Inr (Asked 0, S)" "reorg_count S = 0"
    by (simp add: ask_tx_hashes_def new_session_caches_def looked_up_def lru_get_def lru_contains_def new_lru_def)
  let ?p = "sample_request\<lparr>p_answer := None\<rparr>"
  let ?s1 = "?s0\<lparr>caches := S, waiting := [?p]\<rparr>"
  have "serving_step H ?s0 Silent ?s1"
    using asked [OF sample_requested, of ?s0 0 S H] S(1) by (simp add: sample_request_def)
  then have run: "serving_run H sample_chain ?s1" by (rule serving_run.step [OF start])
  have "serving_step H ?s1 Silent (?s1\<lparr>waiting := [sample_request]\<rparr>)"
    using read [of ?s1 "[]" ?p "[]" H] sample_chain_block by (simp add: sample_request_def block_at_def)
  from serving_run.step [OF run this] S(2) show ?thesis by auto
qed

theorem served_blocks_right_witness:
  "\<exists>s s' answer cost. serving_run (take 1) sample_chain s \<and> waiting s = [sample_request] \<and> waiting s' = [] \<and>
     serving_step (take 1) s (Served 1 (MerkleOf (replicate 32 2)) (Inr (answer, cost))) s' \<and>
     right_answer (take 1) 1 (MerkleOf (replicate 32 2)) [replicate 32 2, replicate 32 3] answer"
proof -
  let ?hs = "[replicate 32 2, replicate 32 3] :: bytes list" and ?H = "take 1 :: bytes \<Rightarrow> bytes"
  obtain S where S: "serving_run ?H sample_chain
      \<lparr>caches = S, chain_state = sample_chain, signalled = False, waiting = [sample_request]\<rparr>" "reorg_count S = 0"
    using sample_waiting by blast
  let ?s = "\<lparr>caches = S, chain_state = sample_chain, signalled = False, waiting = [sample_request]\<rparr>"
  have "cache_ok (\<lambda>_ _. True) (txids_cache S)" using serving_invariant [OF S(1)] by (simp add: serving_inv_def)
  then obtain cost S' where S': "answer_tx_hashes 1 0 (Inr ?hs) S = Inr (Got ?hs cost, S')"
    using S(2) by (rule_tac answer_ok [of _ S "Inr ?hs" 1 0]) auto
  obtain b r where br: "branch_and_root ?H ?hs (int 0) None = Inr (b, r)" using branch_and_root_natural [of 0 ?hs ?H] by auto
  define answer where "answer = served_merkle 1 (map hash_to_hex_str b) 0"
  have "serve_hashes ?H 1 (MerkleOf (replicate 32 2)) (?hs, cost) S' = Some (Inr (answer, cost + 2 / 2500), S')"
    using br by (simp add: merkle_branch_for_tx_hash_def merkle_branch_def answer_def)
  then have st: "serving_step ?H ?s (Served 1 (MerkleOf (replicate 32 2)) (Inr (answer, cost + 2 / 2500)))
      (?s\<lparr>caches := S', waiting := []\<rparr>)"
    using got [of ?s "[]" sample_request "[]" "Inr ?hs" ?hs cost S' ?H] S' by (simp add: sample_request_def)
  note served = conjunct1 [OF served_blocks_right [OF S(1)], rule_format]
  have "right_answer ?H 1 (MerkleOf (replicate 32 2)) ?hs answer"
    using served [OF _ st] sample_chain_block by (simp add: block_at_def del: take_Suc_Cons)
  with S(1) st show ?thesis by force
qed

end
