(* ===== verification/SessionStatus.thy ===== *)
theory SessionStatus
  imports SessionCacheFacts
begin

section \<open>Histories, statuses and notifications (SessionManager and ElectrumX of server/session.py)\<close>

text \<open>
  A coroutine of a session acts on the session and on the manager all sessions share; it ends in a value or an
  exception and keeps what it changed before raising (\<open>act\<close>).  What the database and the mempool answer is the
  record \<open>backend\<close>.  \<open>bump_cost\<close> belongs to aiorpcX; the amounts it is called with add up in \<open>charged\<close>, and the
  notifications a session sends are appended to \<open>outbox\<close>.
\<close>

record manager =
  mgr_caches :: session_caches
  notified_height :: "int option"
  hsub_results :: "(string \<times> int) option"
  mgr_txs_sent :: nat

record client_session =
  subscribe_headers :: bool
  hashX_subs :: "(bytes \<times> string) list"
  mempool_statuses :: "(bytes \<times> string option) list"
  sv_seen :: bool
  is_peer :: bool
  client :: string
  protocol :: version
  sess_txs_sent :: nat
  charged :: real
  outbox :: "(string \<times> json list) list"

record backend =
  be_history :: "bytes \<Rightarrow> int \<Rightarrow> exn + (bytes \<times> int) list"
  be_summaries :: "bytes \<Rightarrow> exn + (bytes \<times> int \<times> bool) list"
  be_raw_header :: "int \<Rightarrow> exn + bytes"
  be_db_height :: int
  be_sha256 :: "bytes \<Rightarrow> bytes"
  max_send :: int

type_synonym 'a act = "client_session \<times> manager \<Rightarrow> (session_exn + 'a) \<times> client_session \<times> manager"

definition returnS :: "'a \<Rightarrow> 'a act" where
  "returnS x = (\<lambda>st. (Inr x, st))"

definition raiseS :: "session_exn \<Rightarrow> 'a act" where
  "raiseS e = (\<lambda>st. (Inl e, st))"

definition liftS :: "session_exn + 'a \<Rightarrow> 'a act" where
  "liftS r = (\<lambda>st. (r, st))"

definition bindS :: "'a act \<Rightarrow> ('a \<Rightarrow> 'b act) \<Rightarrow> 'b act" where
  "bindS m f = (\<lambda>st. case m st of (Inl e, st) \<Rightarrow> (Inl e, st) | (Inr x, st) \<Rightarrow> f x st)"

definition getS :: "(client_session \<Rightarrow> 'a) \<Rightarrow> 'a act" where
  "getS f = (\<lambda>(s, m). (Inr (f s), s, m))"

definition modS :: "(client_session \<Rightarrow> client_session) \<Rightarrow> unit act" where
  "modS f = (\<lambda>(s, m). (Inr (), f s, m))"

text \<open>\<open>self.bump_cost\<close>\<close>

definition bump_cost :: "real \<Rightarrow> unit act" where
  "bump_cost c = modS (\<lambda>s. s\<lparr>charged := charged s + c\<rparr>)"

definition send_notification :: "string \<Rightarrow> json list \<Rightarrow> unit act" where
  "send_notification method args = modS (\<lambda>s. s\<lparr>outbox := outbox s @ [(method, args)]\<rparr>)"

subsection \<open>Histories\<close>

text \<open>The limit on the size of a history, and what is cached for what the database gives.\<close>

definition history_limit :: "backend \<Rightarrow> int" where
  "history_limit B = max_send B div 99"

definition cut_history :: "backend \<Rightarrow> (bytes \<times> int) list \<Rightarrow> session_exn + (bytes \<times> int) list" where
  "cut_history B h = (if int (length h) \<ge> history_limit B then Inl bad_request else Inr h)"

definition set_history_cache :: "(bytes, session_exn + (bytes \<times> int) list) lru_cache \<Rightarrow> manager \<Rightarrow> manager" where
  "set_history_cache c m = m\<lparr>mgr_caches := (mgr_caches m)\<lparr>history_cache := c\<rparr>\<rparr>"

definition with_cost :: "real \<Rightarrow> session_exn + 'a \<Rightarrow> session_exn + 'a \<times> real" where
  "with_cost c r = bindE r (\<lambda>x. Inr (x, c))"

text \<open>\<open>limited_history\<close> in the two parts between which it waits for the database: looking the history up, and keeping what
  the database gave.  A coroutine that runs alone does one after the other.\<close>

definition find_history :: "bytes \<Rightarrow> manager \<Rightarrow> (exn + session_exn + (bytes \<times> int) list) \<times> manager" where
  "find_history hashX m =
     (let c = looked_up (history_cache (mgr_caches m)) in
      case lru_getitem c hashX of
        Inr (result, c) \<Rightarrow> (Inr result, set_history_cache (hit c) m)
      | Inl e \<Rightarrow> (Inl e, set_history_cache c m))"

definition keep_history ::
  "backend \<Rightarrow> bytes \<Rightarrow> (bytes \<times> int) list \<Rightarrow> manager \<Rightarrow> (session_exn + (bytes \<times> int) list \<times> real) \<times> manager" where
  "keep_history B hashX h m =
     (case lru_setitem one (history_cache (mgr_caches m)) hashX (cut_history B h) of
        Inl e \<Rightarrow> (Inl (PyError e), m)
      | Inr c \<Rightarrow> (with_cost (0.1 + 0.1 + real (length h) * 0.001) (cut_history B h), set_history_cache c m))"

definition session_history :: "backend \<Rightarrow> bytes \<Rightarrow> ((bytes \<times> int) list \<times> real) act" where
  "session_history B hashX = (\<lambda>(s, m).
     case find_history hashX m of
       (Inr result, m) \<Rightarrow> (with_cost 0.1 result, s, m)
     | (Inl e, m) \<Rightarrow>
         if e \<noteq> KeyError then (Inl (PyError e), s, m)
         else case be_history B hashX (history_limit B) of
           Inl e \<Rightarrow> (Inl (PyError e), s, m)
         | Inr h \<Rightarrow> (case keep_history B hashX h m of (r, m) \<Rightarrow> (r, s, m)))"

subsection \<open>New blocks\<close>

text \<open>\<open>raw_header\<close>, \<open>_refresh_hsub_results\<close> and the first part of \<open>_notify_sessions\<close>, up to the sessions being
  told: the result says whether the height changed.\<close>

definition mgr_raw_header :: "backend \<Rightarrow> int \<Rightarrow> session_exn + bytes" where
  "mgr_raw_header B height =
     (case be_raw_header B height of
        Inl e \<Rightarrow> Inl (if e = IndexError then bad_request else PyError e)
      | Inr header \<Rightarrow> Inr header)"

definition refresh_hsub_results :: "backend \<Rightarrow> int \<Rightarrow> manager \<Rightarrow> session_exn + manager" where
  "refresh_hsub_results B height m =
     (let height = min height (be_db_height B) in
      bindE (mgr_raw_header B height) (\<lambda>raw.
        Inr (m\<lparr>hsub_results := Some (hex_encode raw, height), notified_height := Some height\<rparr>)))"

definition notify_caches :: "backend \<Rightarrow> int \<Rightarrow> bytes set \<Rightarrow> manager \<Rightarrow> (session_exn + bool) \<times> manager" where
  "notify_caches B height touched m =
     (let height_changed = (Some height \<noteq> notified_height m) in
      if height_changed then
        (case refresh_hsub_results B height m of
           Inl e \<Rightarrow> (Inl e, m)
         | Inr m \<Rightarrow>
             (let cache = history_cache (mgr_caches m) in
              case foldE (\<lambda>hashX c. lru_delitem c hashX) (filter (\<lambda>k. k \<in> touched) (lru_iter cache)) cache of
                Inl e \<Rightarrow> (Inl (PyError e), m)
              | Inr c \<Rightarrow> (Inr True, set_history_cache c m)))
      else (Inr False, m))"

subsection \<open>Statuses\<close>

definition ascii :: "string \<Rightarrow> bytes" where
  "ascii = map of_char"

definition status_text :: "(bytes \<times> int) list \<Rightarrow> (bytes \<times> int \<times> bool) list \<Rightarrow> string" where
  "status_text db_history mempool =
     concat (map (\<lambda>(tx_hash, height). hash_to_hex_str tx_hash @ '':'' @ show_int height @ '':'') db_history) @
     concat (map (\<lambda>(tx_hash, fee, has_unconfirmed_inputs).
       hash_to_hex_str tx_hash @ '':'' @ show_int (- of_bool has_unconfirmed_inputs) @ '':'') mempool)"

definition hash_status :: "backend \<Rightarrow> string \<Rightarrow> string option" where
  "hash_status B status = (if status \<noteq> [] then Some (hex_encode (be_sha256 B (ascii status))) else None)"

definition address_status :: "backend \<Rightarrow> bytes \<Rightarrow> string option act" where
  "address_status B hashX =
     bindS (session_history B hashX) (\<lambda>(db_history, cost).
     bindS (liftS (from_py (be_summaries B hashX))) (\<lambda>mempool.
     let text = status_text db_history mempool; status = hash_status B text in
     bindS (bump_cost (cost + 0.1 + real (length text) * 0.00002)) (\<lambda>_.
     bindS (modS (\<lambda>s. s\<lparr>mempool_statuses :=
              if mempool \<noteq> [] then AList.update hashX status (mempool_statuses s)
              else AList.delete hashX (mempool_statuses s)\<rparr>)) (\<lambda>_.
     returnS status))))"

text \<open>Taking \<open>unsubscribe_hashX\<close>'s result as the alias it removed.\<close>

definition unsubscribe_hashX :: "bytes \<Rightarrow> string option act" where
  "unsubscribe_hashX hashX =
     bindS (getS (\<lambda>s. map_of (hashX_subs s) hashX)) (\<lambda>alias.
     bindS (modS (\<lambda>s. s\<lparr>mempool_statuses := AList.delete hashX (mempool_statuses s),
                          hashX_subs := AList.delete hashX (hashX_subs s)\<rparr>)) (\<lambda>_.
     returnS alias))"

definition subscription_address_status :: "backend \<Rightarrow> bytes \<Rightarrow> string option act" where
  "subscription_address_status B hashX = (\<lambda>st.
     case address_status B hashX st of
       (Inl (RPCError code), st) \<Rightarrow> bindS (unsubscribe_hashX hashX) (\<lambda>_. returnS None) st
     | r \<Rightarrow> r)"

subsection \<open>Subscribing\<close>

definition hashX_subscribe :: "backend \<Rightarrow> bytes \<Rightarrow> string \<Rightarrow> string option act" where
  "hashX_subscribe B hashX alias =
     bindS (address_status B hashX) (\<lambda>result.
     bindS (modS (\<lambda>s. s\<lparr>hashX_subs := AList.update hashX alias (hashX_subs s)\<rparr>)) (\<lambda>_.
     returnS result))"

text \<open>Only a string passes \<open>scripthash_to_hashX\<close>, so the alias is one.\<close>

definition scripthash_subscribe :: "backend \<Rightarrow> json \<Rightarrow> string option act" where
  "scripthash_subscribe B scripthash =
     bindS (liftS (scripthash_to_hashX scripthash)) (\<lambda>hashX.
       case scripthash of JStr alias \<Rightarrow> hashX_subscribe B hashX alias | _ \<Rightarrow> raiseS (PyError TypeError))"

definition scripthash_unsubscribe :: "json \<Rightarrow> bool act" where
  "scripthash_unsubscribe scripthash =
     bindS (bump_cost 0.1) (\<lambda>_.
     bindS (liftS (scripthash_to_hashX scripthash)) (\<lambda>hashX.
     bindS (unsubscribe_hashX hashX) (\<lambda>alias. returnS (alias \<noteq> None))))"

definition subscribe_headers_result :: "json act" where
  "subscribe_headers_result = (\<lambda>(s, m).
     (Inr (case hsub_results m of
             None \<Rightarrow> JNull
           | Some (header, height) \<Rightarrow> JDict [(''hex'', JStr header), (''height'', JInt height)]), s, m))"

definition headers_subscribe :: "json act" where
  "headers_subscribe =
     bindS (modS (\<lambda>s. s\<lparr>subscribe_headers := True\<rparr>)) (\<lambda>_.
     bindS (bump_cost 0.25) (\<lambda>_. subscribe_headers_result))"

subsection \<open>Telling a client\<close>

text \<open>The two loops of \<open>_notify_inner\<close>.  In the first an alias is told its status in any case, in the second when it
  is not the old one (\<open>Some old\<close>).\<close>

fun status_loop ::
  "backend \<Rightarrow> (bytes \<times> string option option) list \<Rightarrow> (string \<times> string option) list \<Rightarrow> (string \<times> string option) list act" where
  "status_loop B [] changed = returnS changed"
| "status_loop B ((hashX, old_status) # rest) changed =
     bindS (getS (\<lambda>s. map_of (hashX_subs s) hashX)) (\<lambda>alias.
       case alias of
         Some (c # cs) \<Rightarrow>
           bindS (subscription_address_status B hashX) (\<lambda>status.
             status_loop B rest (if old_status \<noteq> Some status then AList.update (c # cs) status changed else changed))
       | _ \<Rightarrow> status_loop B rest changed)"

definition status_arg :: "string option \<Rightarrow> json" where
  "status_arg status = (case status of None \<Rightarrow> JNull | Some s \<Rightarrow> JStr s)"

fun send_all :: "(string \<times> string option) list \<Rightarrow> unit act" where
  "send_all [] = returnS ()"
| "send_all ((alias, status) # rest) =
     bindS (send_notification ''blockchain.scripthash.subscribe'' [JStr alias, status_arg status]) (\<lambda>_. send_all rest)"

text \<open>The order in which a set is gone through is the argument \<open>order\<close>.\<close>

definition notify_inner :: "backend \<Rightarrow> (bytes list \<Rightarrow> bytes list) \<Rightarrow> bytes set \<Rightarrow> bool \<Rightarrow> unit act" where
  "notify_inner B order touched height_changed =
     bindS (getS subscribe_headers) (\<lambda>wants.
     bindS (if height_changed \<and> wants
            then bindS subscribe_headers_result (\<lambda>r. send_notification ''blockchain.headers.subscribe'' [r])
            else returnS ()) (\<lambda>_.
     bindS (getS (\<lambda>s. order (filter (\<lambda>hashX. hashX \<in> touched) (map fst (hashX_subs s))))) (\<lambda>touched.
     bindS (getS (\<lambda>s. mempool_statuses s \<noteq> [])) (\<lambda>some_statuses.
     if touched \<noteq> [] \<or> (height_changed \<and> some_statuses) then
       bindS (status_loop B (map (\<lambda>hashX. (hashX, None)) touched) []) (\<lambda>changed.
       bindS (getS mempool_statuses) (\<lambda>statuses.
       bindS (status_loop B (map (\<lambda>(hashX, old). (hashX, Some old)) statuses) changed) (\<lambda>changed.
         send_all changed)))
     else returnS ()))))"

text \<open>\<open>notify\<close> catches what \<open>_notify_inner\<close> raises; its timeout is not modelled.\<close>

definition notify :: "backend \<Rightarrow> (bytes list \<Rightarrow> bytes list) \<Rightarrow> bytes set \<Rightarrow> bool \<Rightarrow> unit act" where
  "notify B order touched height_changed = (\<lambda>st.
     case notify_inner B order touched height_changed st of (_, st) \<Rightarrow> (Inr (), st))"

end
