(* ===== verification/SessionStatusFacts.thy ===== *)
theory SessionStatusFacts
  imports SessionStatus
begin

section \<open>Clients are told the status of what they subscribed to\<close>

named_theorems act_simps \<open>running the actions of sessions\<close>

lemma bindS_assoc: "bindS (bindS a f) k = bindS a (\<lambda>x. bindS (f x) k)"
  by (auto simp: bindS_def fun_eq_iff split: sum.splits prod.splits)

lemma act_basics [act_simps]:
  "returnS x st = (Inr x, st)" "raiseS e st = (Inl e, st)" "liftS r st = (r, st)"
  "getS f (s, m) = (Inr (f s), s, m)" "modS g (s, m) = (Inr (), g s, m)"
  "bump_cost c (s, m) = (Inr (), s\<lparr>charged := charged s + c\<rparr>, m)"
  "send_notification method args (s, m) = (Inr (), s\<lparr>outbox := outbox s @ [(method, args)]\<rparr>, m)"
  by (simp_all add: returnS_def raiseS_def liftS_def getS_def modS_def bump_cost_def send_notification_def)

lemma bindS_run [act_simps]:
  "a st = (Inr x, st') \<Longrightarrow> bindS a f st = f x st'" "a st = (Inl e, st') \<Longrightarrow> bindS a f st = (Inl e, st')"
  by (simp_all add: bindS_def)

subsection \<open>The cached histories\<close>

text \<open>What would be cached for a hashX now, and the invariant of the cache: outside \<open>D\<close> it holds that.\<close>

definition kept_history :: "backend \<Rightarrow> bytes \<Rightarrow> (session_exn + (bytes \<times> int) list) option" where
  "kept_history B hashX =
     (case be_history B hashX (history_limit B) of Inl e \<Rightarrow> None | Inr h \<Rightarrow> Some (cut_history B h))"

definition coherent :: "backend \<Rightarrow> bytes set \<Rightarrow> manager \<Rightarrow> bool" where
  "coherent B D m \<longleftrightarrow>
     cache_ok (\<lambda>hashX r. hashX \<notin> D \<longrightarrow> kept_history B hashX = Some r) (history_cache (mgr_caches m))"

lemma history_cache_set [simp]:
  "history_cache (mgr_caches (set_history_cache c m)) = c" "notified_height (set_history_cache c m) = notified_height m"
  "hsub_results (set_history_cache c m) = hsub_results m"
  by (simp_all add: set_history_cache_def)

lemma coherent_set: "coherent B D (set_history_cache c m) \<longleftrightarrow>
    cache_ok (\<lambda>hashX r. hashX \<notin> D \<longrightarrow> kept_history B hashX = Some r) c"
  by (simp add: coherent_def)

text \<open>The answer to a query whose hashX is outside \<open>D\<close> is the one the database gives now.\<close>

definition fresh_answer :: "backend \<Rightarrow> bytes \<Rightarrow> session_exn + (bytes \<times> int) list \<times> real \<Rightarrow> bool" where
  "fresh_answer B hashX r \<longleftrightarrow>
     (case be_history B hashX (history_limit B) of
        Inl e \<Rightarrow> r = Inl (PyError e)
      | Inr h \<Rightarrow> \<exists>c. r = with_cost c (cut_history B h))"

lemma set_history_cache_again [simp]: "set_history_cache c (set_history_cache c' m) = set_history_cache c m"
  by (simp add: set_history_cache_def)

lemma find_history_coherent:
  assumes "coherent B D m"
  obtains r m' where "find_history hashX m = (r, m')" "coherent B D m'" "notified_height m' = notified_height m"
    "hsub_results m' = hsub_results m"
    "\<And>e. r = Inl e \<Longrightarrow> e = KeyError" "\<And>result. r = Inr result \<Longrightarrow> hashX \<notin> D \<Longrightarrow> kept_history B hashX = Some result"
proof -
  let ?P = "\<lambda>hashX r. hashX \<notin> D \<longrightarrow> kept_history B hashX = Some r"
  let ?c = "looked_up (history_cache (mgr_caches m))"
  have ok: "cache_ok ?P ?c" using assms by (simp add: coherent_def)
  show thesis
  proof (cases "map_of (lru_data ?c) hashX")
    case None
    then have "find_history hashX m = (Inl KeyError, set_history_cache ?c m)"
      by (simp add: find_history_def lru_getitem_def)
    then show thesis using that ok by (simp add: coherent_set)
  next
    case (Some result)
    then have get: "find_history hashX m = (Inr result, set_history_cache (hit (lru_update hashX ?c)) m)"
      by (simp add: find_history_def lru_getitem_def)
    have "cache_ok ?P (hit (lru_update hashX ?c))"
      using cache_okD [OF ok] lru_getitem_ok [OF cache_okD(1) [OF ok] Some]
      by (simp, intro cache_okI) (simp_all add: lru_update_def)
    then show thesis using that [OF get] cache_okD(3) [OF ok Some] by (simp add: coherent_set)
  qed
qed

lemma keep_history_coherent:
  assumes "coherent B D m" "hashX \<notin> D \<longrightarrow> kept_history B hashX = Some (cut_history B h)"
  obtains m' where "keep_history B hashX h m = (with_cost (0.1 + 0.1 + real (length h) * 0.001) (cut_history B h), m')"
    "coherent B D m'" "notified_height m' = notified_height m" "hsub_results m' = hsub_results m"
proof -
  let ?P = "\<lambda>hashX r. hashX \<notin> D \<longrightarrow> kept_history B hashX = Some r"
  obtain c where "lru_setitem one (history_cache (mgr_caches m)) hashX (cut_history B h) = Inr c" "cache_ok ?P c"
    using cache_put [of ?P "history_cache (mgr_caches m)" hashX "cut_history B h"] assms unfolding coherent_def by blast
  then show thesis using that [of "set_history_cache c m"] by (simp add: keep_history_def coherent_set)
qed

lemma session_history_coherent:
  assumes "coherent B D m"
  obtains r m' where "session_history B hashX (s, m) = (r, s, m')" "coherent B D m'"
    "hashX \<notin> D \<Longrightarrow> fresh_answer B hashX r" "notified_height m' = notified_height m" "hsub_results m' = hsub_results m"
proof -
  obtain r0 m0 where f: "find_history hashX m = (r0, m0)" "coherent B D m0" "notified_height m0 = notified_height m"
      "hsub_results m0 = hsub_results m"
    "\<And>e. r0 = Inl e \<Longrightarrow> e = KeyError" "\<And>result. r0 = Inr result \<Longrightarrow> hashX \<notin> D \<Longrightarrow> kept_history B hashX = Some result"
    by (rule find_history_coherent [OF assms, of hashX]) blast
  show thesis
  proof (cases r0)
    case (Inr result)
    then have "session_history B hashX (s, m) = (with_cost 0.1 result, s, m0)" using f(1) by (simp add: session_history_def)
    moreover have "fresh_answer B hashX (with_cost 0.1 result)" if "hashX \<notin> D"
      using f(6) [OF Inr that] by (auto simp: fresh_answer_def kept_history_def split: sum.splits)
    ultimately show thesis using that f(2-4) by blast
  next
    case (Inl e)
    then have run: "session_history B hashX (s, m) = (case be_history B hashX (history_limit B) of
        Inl e \<Rightarrow> (Inl (PyError e), s, m0) | Inr h \<Rightarrow> (case keep_history B hashX h m0 of (r, m) \<Rightarrow> (r, s, m)))"
      using f(1,5) by (simp add: session_history_def)
    show thesis
    proof (cases "be_history B hashX (history_limit B)")
      case (Inl e)
      then show thesis using that [of "Inl (PyError e)" m0] run f(2-4) by (simp add: fresh_answer_def)
    next
      case (Inr h)
      then have "hashX \<notin> D \<longrightarrow> kept_history B hashX = Some (cut_history B h)" by (simp add: kept_history_def)
      from keep_history_coherent [OF f(2) this] obtain m' where
        "keep_history B hashX h m0 = (with_cost (0.1 + 0.1 + real (length h) * 0.001) (cut_history B h), m')" "coherent B D m'"
        "notified_height m' = notified_height m0" "hsub_results m' = hsub_results m0" by blast
      then show thesis using that run Inr f(3,4) by (auto simp: fresh_answer_def)
    qed
  qed
qed

lemma cache_delete:
  assumes "cache_ok P c" "k \<in> fst ` set (lru_data c)"
  obtains c' where "lru_delitem c k = Inr c'" "cache_ok P c'" "fst ` set (lru_data c') = fst ` set (lru_data c) - {k}"
proof -
  note ok = cache_okD [OF assms(1)]
  obtain v where v: "map_of (lru_data c) k = Some v"
    using assms(2) by (cases "map_of (lru_data c) k") (auto simp: map_of_eq_None_iff)
  from lru_delitem_ok [OF ok(1) v] obtain c' where c': "lru_delitem c k = Inr c'" "lru_ok one c'"
    "lru_abs c' = filter (\<lambda>(k', _). k' \<noteq> k) (lru_abs c)" "lru_maxsize c' = lru_maxsize c" by blast
  have set: "set (lru_data c') = {p \<in> set (lru_data c). fst p \<noteq> k}"
    using set_lru_abs [OF c'(2)] set_lru_abs [OF ok(1)] c'(3) by auto
  have "cache_ok P c'"
  proof (rule cache_okI [OF c'(2)])
    fix k' v' assume "map_of (lru_data c') k' = Some v'"
    then have "(k', v') \<in> set (lru_data c)" using set by (auto dest: map_of_SomeD)
    then show "P k' v'" using ok(3) lru_okD(1) [OF ok(1)] by simp
  qed (use c'(4) ok(2) in simp)
  moreover have "fst ` set (lru_data c') = fst ` set (lru_data c) - {k}" unfolding set by auto
  ultimately show thesis using that c'(1) by blast
qed

lemma cache_delete_all:
  "cache_ok P c \<Longrightarrow> distinct ks \<Longrightarrow> set ks \<subseteq> fst ` set (lru_data c) \<Longrightarrow>
   \<exists>c'. foldE (\<lambda>k c. lru_delitem c k) ks c = Inr c' \<and> cache_ok P c' \<and>
     fst ` set (lru_data c') = fst ` set (lru_data c) - set ks"
proof (induction ks arbitrary: c)
  case (Cons k ks)
  then have "k \<in> fst ` set (lru_data c)" by simp
  from cache_delete [OF Cons.prems(1) this] obtain c1 where c1: "lru_delitem c k = Inr c1" "cache_ok P c1"
    "fst ` set (lru_data c1) = fst ` set (lru_data c) - {k}" by blast
  have "set ks \<subseteq> fst ` set (lru_data c1)" using Cons.prems(2,3) c1(3) by auto
  then obtain c' where "foldE (\<lambda>k c. lru_delitem c k) ks c1 = Inr c'" "cache_ok P c'"
    "fst ` set (lru_data c') = fst ` set (lru_data c1) - set ks" using Cons.IH [OF c1(2)] Cons.prems(2) by auto
  then show ?case using c1(1,3) by auto
qed simp

lemma notify_caches_drops:
  assumes "coherent B D m" "Some height \<noteq> notified_height m" "refresh_hsub_results B height m = Inr m1"
  shows "\<exists>m'. notify_caches B height touched m = (Inr True, m') \<and> coherent B (D - touched) m'"
proof -
  have caches: "mgr_caches m1 = mgr_caches m" using assms(3) by (auto simp: refresh_hsub_results_def Let_def err_simps)
  let ?c = "history_cache (mgr_caches m)" and ?P = "\<lambda>hashX r. hashX \<notin> D \<longrightarrow> kept_history B hashX = Some r"
  let ?ks = "filter (\<lambda>k. k \<in> touched) (lru_iter ?c)"
  have ok: "cache_ok ?P ?c" using assms(1) by (simp add: coherent_def)
  have "distinct ?ks" using lru_okD(1) [OF cache_okD(1) [OF ok]] by (simp add: lru_iter_def)
  moreover have "set ?ks \<subseteq> fst ` set (lru_data ?c)" by (auto simp: lru_iter_def)
  ultimately obtain c' where c': "foldE (\<lambda>k c. lru_delitem c k) ?ks ?c = Inr c'" "cache_ok ?P c'"
    "fst ` set (lru_data c') = fst ` set (lru_data ?c) - set ?ks" using cache_delete_all [OF ok] by blast
  have "cache_ok (\<lambda>hashX r. hashX \<notin> D - touched \<longrightarrow> kept_history B hashX = Some r) c'"
  proof (rule cache_okI [OF cache_okD(1,2) [OF c'(2)]])
    fix k v assume v: "map_of (lru_data c') k = Some v"
    then have "k \<in> fst ` set (lru_data c')" by (force dest: map_of_SomeD)
    then have "k \<notin> touched" using c'(3) by (auto simp: lru_iter_def)
    then show "k \<notin> D - touched \<longrightarrow> kept_history B k = Some v" using cache_okD(3) [OF c'(2) v] by simp
  qed
  moreover have "notify_caches B height touched m = (Inr True, set_history_cache c' m1)"
    using assms(2,3) c'(1) caches by (simp add: notify_caches_def)
  ultimately show ?thesis by (simp add: coherent_set)
qed

lemma notify_caches_coherent:
  assumes "coherent B D m" "notify_caches B height touched m = (r, m')"
  shows "coherent B (if r = Inr True then D - touched else D) m'"
proof (cases "Some height \<noteq> notified_height m \<and> (\<exists>m1. refresh_hsub_results B height m = Inr m1)")
  case True
  then show ?thesis using notify_caches_drops [OF assms(1), of height _ touched] assms(2) by auto
next
  case False
  then have "m' = m \<and> r \<noteq> Inr True" using assms(2) by (auto simp: notify_caches_def split: sum.splits if_splits)
  then show ?thesis using assms(1) by simp
qed

subsection \<open>Runs of queries, changes of the database and notifications\<close>

text \<open>A query that does not find its history in the cache waits for the database: its history is read at one moment and kept
  at a later one, and the database may change, and other clients be notified, in between.  Queries under way are in
  \<open>hs_pending\<close>, with what they read.  A notification waits for a header; it is taken here as one step, at the
  moment the wait is over, when it records its height and drops what it names.\<close>

datatype hist_event =
    HistoryAsked bytes | HistoryRead nat | HistoryKept nat | HistoriesChanged backend | Notified int "bytes set"

record hist_state =
  hs_backend :: backend
  hs_manager :: manager
  hs_pending :: "(bytes \<times> (bytes \<times> int) list option) list"
  hs_changed :: "bytes set"

definition new_manager :: manager where
  "new_manager = \<lparr>mgr_caches = new_session_caches, notified_height = None, hsub_results = None, mgr_txs_sent = 0\<rparr>"

text \<open>What queries under way have read that the database would not give now.\<close>

definition old_reads :: "hist_state \<Rightarrow> bytes set" where
  "old_reads S = {hashX. \<exists>h. (hashX, Some h) \<in> set (hs_pending S) \<and>
     kept_history (hs_backend S) hashX \<noteq> Some (cut_history (hs_backend S) h)}"

definition without :: "nat \<Rightarrow> 'a list \<Rightarrow> 'a list" where
  "without i xs = take i xs @ drop (Suc i) xs"

text \<open>Beside the state, a run has the set \<open>hs_changed\<close> of the hashXs whose histories changed since an effective notification
  named them when no query under way had read them before.\<close>

fun hist_step :: "hist_event \<Rightarrow> hist_state \<Rightarrow> hist_state" where
  "hist_step (HistoryAsked hashX) S =
     (let (r, m) = find_history hashX (hs_manager S)
      in S\<lparr>hs_manager := m, hs_pending := hs_pending S @ (if r = Inl KeyError then [(hashX, None)] else [])\<rparr>)"
| "hist_step (HistoryRead i) S =
     (if i < length (hs_pending S) then
        case hs_pending S ! i of
          (hashX, None) \<Rightarrow>
            (case be_history (hs_backend S) hashX (history_limit (hs_backend S)) of
               Inl e \<Rightarrow> S\<lparr>hs_pending := without i (hs_pending S)\<rparr>
             | Inr h \<Rightarrow> S\<lparr>hs_pending := (hs_pending S)[i := (hashX, Some h)]\<rparr>)
        | _ \<Rightarrow> S
      else S)"
| "hist_step (HistoryKept i) S =
     (if i < length (hs_pending S) then
        case hs_pending S ! i of
          (hashX, Some h) \<Rightarrow> S\<lparr>hs_manager := snd (keep_history (hs_backend S) hashX h (hs_manager S)),
                              hs_pending := without i (hs_pending S)\<rparr>
        | _ \<Rightarrow> S
      else S)"
| "hist_step (HistoriesChanged B') S =
     (let B' = B'\<lparr>max_send := max_send (hs_backend S)\<rparr>
      in S\<lparr>hs_backend := B',
           hs_changed := hs_changed S \<union> {hashX. kept_history B' hashX \<noteq> kept_history (hs_backend S) hashX}\<rparr>)"
| "hist_step (Notified height touched) S =
     (let (r, m) = notify_caches (hs_backend S) height touched (hs_manager S)
      in S\<lparr>hs_manager := m,
           hs_changed := (if r = Inr True then (hs_changed S - touched) \<union> old_reads S else hs_changed S)\<rparr>)"

definition hist_run :: "backend \<Rightarrow> hist_event list \<Rightarrow> hist_state" where
  "hist_run B events =
     fold hist_step events \<lparr>hs_backend = B, hs_manager = new_manager, hs_pending = [], hs_changed = {}\<rparr>"

definition hist_inv :: "hist_state \<Rightarrow> bool" where
  "hist_inv S \<longleftrightarrow> coherent (hs_backend S) (hs_changed S) (hs_manager S) \<and> old_reads S \<subseteq> hs_changed S"

lemma set_without: "set (without i xs) \<subseteq> set xs"
  by (auto simp: without_def dest: in_set_takeD in_set_dropD)

lemma old_reads_mono:
  "hs_backend S' = hs_backend S \<Longrightarrow> set (hs_pending S') \<subseteq> set (hs_pending S) \<Longrightarrow> old_reads S' \<subseteq> old_reads S"
  by (auto simp: old_reads_def)

lemma coherent_mono: "coherent B D m \<Longrightarrow> D \<subseteq> D' \<Longrightarrow> coherent B D' m"
  by (auto simp: coherent_def elim!: cache_ok_mono)

lemma hist_step_inv:
  assumes "hist_inv S"
  shows "hist_inv (hist_step e S)"
proof -
  have co: "coherent (hs_backend S) (hs_changed S) (hs_manager S)" and old: "old_reads S \<subseteq> hs_changed S"
    using assms by (simp_all add: hist_inv_def)
  show ?thesis
  proof (cases e)
    case (HistoryAsked hashX)
    obtain r m where "find_history hashX (hs_manager S) = (r, m)" "coherent (hs_backend S) (hs_changed S) m"
      by (rule find_history_coherent [OF co, of hashX])
    moreover have "old_reads (S\<lparr>hs_manager := m, hs_pending := hs_pending S @ (if b then [(hashX, None)] else [])\<rparr>) = old_reads S"
      for m b by (simp add: old_reads_def)
    ultimately show ?thesis using old HistoryAsked by (simp add: hist_inv_def)
  next
    case (HistoryRead i)
    show ?thesis
    proof (cases "i < length (hs_pending S) \<and> (\<exists>hashX. hs_pending S ! i = (hashX, None))")
      case True
      then obtain hashX where p: "i < length (hs_pending S)" "hs_pending S ! i = (hashX, None)" by blast
      show ?thesis
      proof (cases "be_history (hs_backend S) hashX (history_limit (hs_backend S))")
        case (Inl x)
        have "old_reads (S\<lparr>hs_pending := without i (hs_pending S)\<rparr>) \<subseteq> hs_changed S"
          using old_reads_mono [of "S\<lparr>hs_pending := without i (hs_pending S)\<rparr>" S] set_without [of i "hs_pending S"] old by auto
        then show ?thesis using co HistoryRead p Inl by (simp add: hist_inv_def)
      next
        case (Inr h)
        have "old_reads (S\<lparr>hs_pending := (hs_pending S)[i := (hashX, Some h)]\<rparr>) \<subseteq> hs_changed S"
        proof
          fix y assume "y \<in> old_reads (S\<lparr>hs_pending := (hs_pending S)[i := (hashX, Some h)]\<rparr>)"
          then obtain g where g: "(y, Some g) \<in> set ((hs_pending S)[i := (hashX, Some h)])"
            "kept_history (hs_backend S) y \<noteq> Some (cut_history (hs_backend S) g)" by (auto simp: old_reads_def)
          have "(y, Some g) \<in> insert (hashX, Some h) (set (hs_pending S))"
            using g(1) set_update_subset_insert [of "hs_pending S" i "(hashX, Some h)"] by blast
          then have "(y, Some g) \<in> set (hs_pending S)" using g(2) Inr by (auto simp: kept_history_def)
          then show "y \<in> hs_changed S" using g(2) old by (auto simp: old_reads_def)
        qed
        then show ?thesis using co HistoryRead p Inr by (simp add: hist_inv_def)
      qed
    next
      case False
      then have "hist_step e S = S" using HistoryRead by (auto split: prod.splits option.splits)
      with assms show ?thesis by simp
    qed
  next
    case (HistoryKept i)
    show ?thesis
    proof (cases "i < length (hs_pending S) \<and> (\<exists>hashX h. hs_pending S ! i = (hashX, Some h))")
      case True
      then obtain hashX h where p: "i < length (hs_pending S)" "hs_pending S ! i = (hashX, Some h)" by blast
      then have "(hashX, Some h) \<in> set (hs_pending S)" using nth_mem by metis
      then have "hashX \<notin> hs_changed S \<longrightarrow> kept_history (hs_backend S) hashX = Some (cut_history (hs_backend S) h)"
        using old by (auto simp: old_reads_def)
      then obtain m where m: "keep_history (hs_backend S) hashX h (hs_manager S) =
          (with_cost (0.1 + 0.1 + real (length h) * 0.001) (cut_history (hs_backend S) h), m)"
        "coherent (hs_backend S) (hs_changed S) m"
        by (rule keep_history_coherent [OF co])
      moreover have "old_reads (S\<lparr>hs_manager := m, hs_pending := without i (hs_pending S)\<rparr>) \<subseteq> hs_changed S" for m
        using old_reads_mono [of "S\<lparr>hs_manager := m, hs_pending := without i (hs_pending S)\<rparr>" S]
          set_without [of i "hs_pending S"] old by auto
      ultimately show ?thesis using HistoryKept p by (simp add: hist_inv_def)
    next
      case False
      then have "hist_step e S = S" using HistoryKept by (auto split: prod.splits option.splits)
      with assms show ?thesis by simp
    qed
  next
    case (HistoriesChanged B1)
    let ?B = "B1\<lparr>max_send := max_send (hs_backend S)\<rparr>"
    have cut: "cut_history ?B = cut_history (hs_backend S)" by (simp add: fun_eq_iff cut_history_def history_limit_def)
    let ?D = "hs_changed S \<union> {hashX. kept_history ?B hashX \<noteq> kept_history (hs_backend S) hashX}"
    have "coherent ?B ?D (hs_manager S)"
      using co by (auto simp: coherent_def elim!: cache_ok_mono)
    moreover have "old_reads (S\<lparr>hs_backend := ?B, hs_changed := ?D\<rparr>) \<subseteq> ?D"
    proof
      fix y assume "y \<in> old_reads (S\<lparr>hs_backend := ?B, hs_changed := ?D\<rparr>)"
      then obtain h where h: "(y, Some h) \<in> set (hs_pending S)" "kept_history ?B y \<noteq> Some (cut_history (hs_backend S) h)"
        by (auto simp: old_reads_def cut)
      show "y \<in> ?D"
      proof (cases "y \<in> old_reads S")
        case False
        then have "kept_history (hs_backend S) y = Some (cut_history (hs_backend S) h)" using h(1) unfolding old_reads_def by blast
        with h(2) show ?thesis by simp
      qed (use old in blast)
    qed
    ultimately show ?thesis using HistoriesChanged by (simp add: hist_inv_def Let_def)
  next
    case (Notified height touched)
    obtain r m where n: "notify_caches (hs_backend S) height touched (hs_manager S) = (r, m)" by fastforce
    have "coherent (hs_backend S) (if r = Inr True then hs_changed S - touched \<union> old_reads S else hs_changed S) m"
      by (rule coherent_mono [OF notify_caches_coherent [OF co n]]) auto
    moreover have "old_reads (S\<lparr>hs_manager := m, hs_changed := D\<rparr>) = old_reads S" for D by (simp add: old_reads_def)
    ultimately show ?thesis using old n Notified by (simp add: hist_inv_def)
  qed
qed

lemma hist_run_inv: "hist_inv (hist_run B0 events)"
proof -
  have "hist_inv S \<Longrightarrow> hist_inv (fold hist_step events S)" for S
    by (induction events arbitrary: S) (simp_all add: hist_step_inv)
  moreover have "hist_inv \<lparr>hs_backend = B0, hs_manager = new_manager, hs_pending = [], hs_changed = {}\<rparr>"
    by (simp add: hist_inv_def coherent_def old_reads_def new_manager_def new_session_caches_def)
  ultimately show ?thesis unfolding hist_run_def by blast
qed

text \<open>A notification at the height already notified leaves the cache alone, whatever it names.\<close>

lemma same_height_keeps_cache:
  "notified_height m = Some height \<Longrightarrow> notify_caches B height touched m = (Inr False, m)"
  by (simp add: notify_caches_def)

lemma fresh_after_notification:
  assumes "hist_inv S" "notify_caches (hs_backend S) height touched (hs_manager S) = (Inr True, m')"
    "hs_changed S \<subseteq> touched"
  shows "fresh_answer (hs_backend S) hashX (fst (session_history (hs_backend S) hashX (s, m')))"
proof -
  have co: "coherent (hs_backend S) (hs_changed S) (hs_manager S)" using assms(1) by (simp add: hist_inv_def)
  have "hs_changed S - touched = {}" using assms(3) by blast
  with notify_caches_coherent [OF co assms(2)] have "coherent (hs_backend S) {} m'" by (simp only: if_True simp_thms)
  from session_history_coherent [OF this, of hashX s] show ?thesis by (metis empty_iff fst_conv)
qed

text \<open>C6: After any run of queries, which wait for the database, of changes of the histories and of notifications, a
  query is answered as the database would answer it now, unless the history of its hashX changed and no notification of a
  new height has named it since, or when one did, a query was under way that had read it before.  Right after a
  notification of a new height that names every such hashX, every query is.\<close>

theorem history_cache_fresh:
  assumes "hist_run B0 events = S"
  shows "(\<forall>hashX. hashX \<notin> hs_changed S \<longrightarrow>
         fresh_answer (hs_backend S) hashX (fst (session_history (hs_backend S) hashX (s, hs_manager S))))
    \<and> (\<forall>height touched m' hashX. notify_caches (hs_backend S) height touched (hs_manager S) = (Inr True, m') \<longrightarrow>
         hs_changed S \<subseteq> touched \<longrightarrow>
         fresh_answer (hs_backend S) hashX (fst (session_history (hs_backend S) hashX (s, m'))))"
proof -
  have inv: "hist_inv S" using hist_run_inv assms by blast
  then have co: "coherent (hs_backend S) (hs_changed S) (hs_manager S)" by (simp add: hist_inv_def)
  have "fresh_answer (hs_backend S) hashX (fst (session_history (hs_backend S) hashX (s, hs_manager S)))"
    if "hashX \<notin> hs_changed S" for hashX
    by (rule session_history_coherent [OF co, of hashX s]) (use that in simp)
  with fresh_after_notification [OF inv] show ?thesis by blast
qed

definition sample_backend :: "int \<Rightarrow> (bytes \<times> int) list \<Rightarrow> backend" where
  "sample_backend h kept = \<lparr>be_history = (\<lambda>_ _. Inr kept), be_summaries = (\<lambda>_. Inr []), be_raw_header = (\<lambda>_. Inr [1]),
     be_db_height = h, be_sha256 = take 1, max_send = 350000\<rparr>"

definition new_session :: client_session where
  "new_session = \<lparr>subscribe_headers = False, hashX_subs = [], mempool_statuses = [], sv_seen = False, is_peer = False,
     client = ''unknown'', protocol = [1, 4], sess_txs_sent = 0, charged = 5, outbox = []\<rparr>"

text \<open>A block changes a history that was asked for and kept before; after the notification the new one is given.\<close>

definition kept_before :: "hist_event list" where
  "kept_before = [HistoryAsked [1], HistoryRead 0, HistoryKept 0, HistoriesChanged (sample_backend 6 [([7], 5), ([8], 6)])]"

text \<open>The same with the query still under way when clients are notified: it keeps the old history.\<close>

definition kept_late :: "hist_event list" where
  "kept_late = [HistoryAsked [1], HistoryRead 0, HistoriesChanged (sample_backend 6 [([7], 5), ([8], 6)]),
     Notified 6 {[1]}, HistoryKept 0]"

lemmas hist_sample_simps = Let_def new_manager_def new_session_caches_def find_history_def keep_history_def set_history_cache_def
  cut_history_def history_limit_def with_cost_def without_def lru_getitem_def lru_setitem_def lru_contains_def lru_evict.simps
  lru_update_def new_lru_def looked_up_def one_def size_get_def size_set_def hit_def

lemma late_query_keeps_old:
  defines "S \<equiv> hist_run (sample_backend 5 [([7], 5)]) kept_late"
  shows "be_history (hs_backend S) [1] n = Inr [([7], 5), ([8], 6)]"
    and "\<exists>m. session_history (hs_backend S) [1] (s, hs_manager S) = (Inr ([([7], 5)], 0.1), s, m)"
  unfolding S_def
  by (simp_all add: hist_run_def kept_late_def sample_backend_def notify_caches_def refresh_hsub_results_def mgr_raw_header_def
      lru_iter_def session_history_def hist_sample_simps)

theorem history_cache_fresh_witness:
  "\<exists>S m'. hist_run (sample_backend 5 [([7], 5)]) kept_before = S \<and>
     notify_caches (hs_backend S) 6 UNIV (hs_manager S) = (Inr True, m') \<and>
     (\<exists>c. fst (session_history (hs_backend S) [1] (new_session, m')) = Inr ([([7], 5), ([8], 6)], c))"
proof -
  define S where "S = hist_run (sample_backend 5 [([7], 5)]) kept_before"
  have S: "hs_backend S = sample_backend 6 [([7], 5), ([8], 6)]" "notified_height (hs_manager S) = None"
    by (simp_all add: S_def hist_run_def kept_before_def sample_backend_def hist_sample_simps)
  have "refresh_hsub_results (hs_backend S) 6 (hs_manager S) =
      Inr ((hs_manager S)\<lparr>hsub_results := Some (hex_encode [1], 6), notified_height := Some 6\<rparr>)"
    by (simp add: S refresh_hsub_results_def mgr_raw_header_def) (simp add: sample_backend_def)
  moreover have "coherent (hs_backend S) (hs_changed S) (hs_manager S)"
    using hist_run_inv [of "sample_backend 5 [([7], 5)]" kept_before] by (simp add: hist_inv_def S_def)
  ultimately obtain m' where n: "notify_caches (hs_backend S) 6 UNIV (hs_manager S) = (Inr True, m')"
    using notify_caches_drops [of "hs_backend S" "hs_changed S" "hs_manager S" 6 _ UNIV] S(2) by auto
  have "fresh_answer (hs_backend S) [1] (fst (session_history (hs_backend S) [1] (new_session, m')))"
    using history_cache_fresh [OF S_def [symmetric], of new_session] n by blast
  then have "\<exists>c. fst (session_history (hs_backend S) [1] (new_session, m')) = Inr ([([7], 5), ([8], 6)], c)"
    by (auto simp: S fresh_answer_def sample_backend_def cut_history_def history_limit_def with_cost_def)
  with n show ?thesis unfolding S_def by blast
qed

subsection \<open>Statuses\<close>

text \<open>A session is in order when no hashX is listed twice and every subscription is kept under its own script hash.\<close>

definition session_ok :: "client_session \<Rightarrow> bool" where
  "session_ok s \<longleftrightarrow> distinct (map fst (hashX_subs s)) \<and> distinct (map fst (mempool_statuses s)) \<and>
     (\<forall>hashX al. map_of (hashX_subs s) hashX = Some al \<longrightarrow> scripthash_to_hashX (JStr al) = Inr hashX)"

text \<open>The backend answers for a hashX; its history is too large; and the status a client should be told: none for a
  history that is too large.\<close>

definition answers :: "backend \<Rightarrow> bytes \<Rightarrow> bool" where
  "answers B hashX \<longleftrightarrow> (\<exists>h mem. be_history B hashX (history_limit B) = Inr h \<and> be_summaries B hashX = Inr mem)"

definition too_large :: "backend \<Rightarrow> bytes \<Rightarrow> bool" where
  "too_large B hashX \<longleftrightarrow> int (length (projr (be_history B hashX (history_limit B)))) \<ge> history_limit B"

definition current_status :: "backend \<Rightarrow> bytes \<Rightarrow> string option" where
  "current_status B hashX =
     (if too_large B hashX then None
      else hash_status B (status_text (projr (be_history B hashX (history_limit B))) (projr (be_summaries B hashX))))"

definition has_mempool :: "backend \<Rightarrow> bytes \<Rightarrow> bool" where
  "has_mempool B hashX \<longleftrightarrow> projr (be_summaries B hashX) \<noteq> []"

lemma session_history_answers:
  assumes "coherent B {} m" "answers B hashX"
  obtains m' where "coherent B {} m'" "hsub_results m' = hsub_results m"
    "too_large B hashX \<Longrightarrow> session_history B hashX (s, m) = (Inl bad_request, s, m')"
    "\<not> too_large B hashX \<Longrightarrow>
       \<exists>c. session_history B hashX (s, m) = (Inr (projr (be_history B hashX (history_limit B)), c), s, m')"
proof -
  obtain h mem where h: "be_history B hashX (history_limit B) = Inr h" "be_summaries B hashX = Inr mem"
    using assms(2) by (auto simp: answers_def)
  from session_history_coherent [OF assms(1), of hashX s] obtain r m' where
    r: "session_history B hashX (s, m) = (r, s, m')" "coherent B {} m'" "fresh_answer B hashX r" "hsub_results m' = hsub_results m"
    by blast
  then obtain c where "r = with_cost c (cut_history B h)" using h by (auto simp: fresh_answer_def)
  then show thesis using that [of m'] r h by (auto simp: with_cost_def cut_history_def too_large_def)
qed

text \<open>What a calculation of the status leaves: the session with its mempool status up to date, or unsubscribed.\<close>

definition status_kept :: "backend \<Rightarrow> bytes \<Rightarrow> client_session \<Rightarrow> client_session \<Rightarrow> bool" where
  "status_kept B hashX s s' \<longleftrightarrow>
     map_of (mempool_statuses s') = (map_of (mempool_statuses s))(hashX :=
       if has_mempool B hashX \<and> \<not> too_large B hashX then Some (current_status B hashX) else None) \<and>
     map_of (hashX_subs s') = (if too_large B hashX then (map_of (hashX_subs s))(hashX := None) else map_of (hashX_subs s)) \<and>
     outbox s' = outbox s \<and> subscribe_headers s' = subscribe_headers s"

lemma subscription_status_told:
  assumes "coherent B {} m" "answers B hashX" "session_ok s"
  obtains s' m' where "subscription_address_status B hashX (s, m) = (Inr (current_status B hashX), s', m')"
    "coherent B {} m'" "hsub_results m' = hsub_results m" "session_ok s'" "status_kept B hashX s s'"
proof -
  obtain h mem where h: "be_history B hashX (history_limit B) = Inr h" "be_summaries B hashX = Inr mem"
    using assms(2) by (auto simp: answers_def)
  from session_history_answers [OF assms(1,2), of s] obtain m' where m': "coherent B {} m'" "hsub_results m' = hsub_results m"
    "too_large B hashX \<Longrightarrow> session_history B hashX (s, m) = (Inl bad_request, s, m')"
    "\<not> too_large B hashX \<Longrightarrow> \<exists>c. session_history B hashX (s, m) = (Inr (h, c), s, m')"
    using h by auto
  show thesis
  proof (cases "too_large B hashX")
    case True
    let ?s = "s\<lparr>mempool_statuses := AList.delete hashX (mempool_statuses s), hashX_subs := AList.delete hashX (hashX_subs s)\<rparr>"
    have "address_status B hashX (s, m) = (Inl bad_request, s, m')"
      using m'(3) [OF True] by (simp add: address_status_def act_simps)
    then have "subscription_address_status B hashX (s, m) = (Inr (current_status B hashX), ?s, m')"
      using True by (simp add: subscription_address_status_def unsubscribe_hashX_def current_status_def act_simps)
    moreover have "session_ok ?s"
      using assms(3) by (auto simp: session_ok_def distinct_delete split: if_splits)
    ultimately show thesis using that m'(1,2) True by (simp add: status_kept_def)
  next
    case False
    then obtain c where c: "session_history B hashX (s, m) = (Inr (h, c), s, m')" using m'(4) by blast
    have st: "current_status B hashX = hash_status B (status_text h mem)" and mp: "has_mempool B hashX = (mem \<noteq> [])"
      using h False by (simp_all add: current_status_def has_mempool_def)
    define s' where "s' = s\<lparr>charged := charged s + (c + 0.1 + real (length (status_text h mem)) * 0.00002),
      mempool_statuses := if mem \<noteq> [] then AList.update hashX (current_status B hashX) (mempool_statuses s)
        else AList.delete hashX (mempool_statuses s)\<rparr>"
    have "address_status B hashX (s, m) = (Inr (current_status B hashX), s', m')"
      using c h by (simp add: address_status_def act_simps Let_def st s'_def)
    then have "subscription_address_status B hashX (s, m) = (Inr (current_status B hashX), s', m')"
      by (simp add: subscription_address_status_def)
    moreover have "session_ok s'"
      using assms(3) by (auto simp: session_ok_def s'_def distinct_delete distinct_update)
    moreover have "status_kept B hashX s s'" using False mp by (auto simp: status_kept_def s'_def)
    ultimately show thesis using that m'(1,2) by blast
  qed
qed

subsection \<open>The loops over subscriptions\<close>

lemma al_nonempty: "scripthash_to_hashX (JStr al) = Inr hashX \<Longrightarrow> al \<noteq> []"
  by (auto simp: scripthash_to_hashX_def json_hash_def hex_str_to_hash_def)

lemma session_okD:
  assumes "session_ok s"
  shows "distinct (map fst (hashX_subs s))" "distinct (map fst (mempool_statuses s))"
    "\<And>hashX al. map_of (hashX_subs s) hashX = Some al \<Longrightarrow> scripthash_to_hashX (JStr al) = Inr hashX"
  using assms by (simp_all add: session_ok_def)

text \<open>What a loop has told: every subscription it went through whose status differs from its old one, and nothing
  else.\<close>

definition told :: "backend \<Rightarrow> client_session \<Rightarrow> (bytes \<times> string option option) list \<Rightarrow> string \<Rightarrow> string option option" where
  "told B s l al =
     (case scripthash_to_hashX (JStr al) of
        Inr hashX \<Rightarrow>
          if map_of (hashX_subs s) hashX = Some al \<and> hashX \<in> fst ` set l \<and> map_of l hashX \<noteq> Some (Some (current_status B hashX))
          then Some (current_status B hashX) else None
      | Inl _ \<Rightarrow> None)"

text \<open>What a loop over the hashXs \<open>ks\<close> does to the session.\<close>

definition loop_effect :: "backend \<Rightarrow> bytes set \<Rightarrow> client_session \<Rightarrow> client_session \<Rightarrow> bool" where
  "loop_effect B ks s s' \<longleftrightarrow>
     (\<forall>k. map_of (hashX_subs s') k = (if k \<in> ks \<and> too_large B k then None else map_of (hashX_subs s) k)) \<and>
     (\<forall>k. map_of (mempool_statuses s') k =
        (if k \<in> ks \<and> map_of (hashX_subs s) k \<noteq> None
         then (if has_mempool B k \<and> \<not> too_large B k then Some (current_status B k) else None)
         else map_of (mempool_statuses s) k)) \<and>
     outbox s' = outbox s"

lemma loop_effectD:
  assumes "loop_effect B ks s s'"
  shows "map_of (hashX_subs s') k = (if k \<in> ks \<and> too_large B k then None else map_of (hashX_subs s) k)"
    "map_of (mempool_statuses s') k =
       (if k \<in> ks \<and> map_of (hashX_subs s) k \<noteq> None
        then (if has_mempool B k \<and> \<not> too_large B k then Some (current_status B k) else None)
        else map_of (mempool_statuses s) k)"
    "outbox s' = outbox s"
  using assms unfolding loop_effect_def by blast+

lemma loop_effect_refl: "loop_effect B {} s s"
  by (simp add: loop_effect_def)

lemma loop_effect_skip:
  assumes "map_of (hashX_subs s) x = None" "loop_effect B ks s s'"
  shows "loop_effect B (insert x ks) s s'"
  unfolding loop_effect_def
proof (intro conjI allI)
  fix k
  show "map_of (hashX_subs s') k = (if k \<in> insert x ks \<and> too_large B k then None else map_of (hashX_subs s) k)"
    using assms(1) loop_effectD(1) [OF assms(2), of k] by (cases "k = x") auto
  show "map_of (mempool_statuses s') k =
     (if k \<in> insert x ks \<and> map_of (hashX_subs s) k \<noteq> None
      then (if has_mempool B k \<and> \<not> too_large B k then Some (current_status B k) else None)
      else map_of (mempool_statuses s) k)"
    using assms(1) loop_effectD(2) [OF assms(2), of k] by (cases "k = x") auto
qed (rule loop_effectD(3) [OF assms(2)])

lemma loop_effect_step:
  assumes "status_kept B x s s1" "map_of (hashX_subs s) x \<noteq> None" "x \<notin> ks" "loop_effect B ks s1 s'"
  shows "loop_effect B (insert x ks) s s'"
proof -
  have kept: "map_of (mempool_statuses s1) = (map_of (mempool_statuses s))(x :=
       if has_mempool B x \<and> \<not> too_large B x then Some (current_status B x) else None)"
    "map_of (hashX_subs s1) = (if too_large B x then (map_of (hashX_subs s))(x := None) else map_of (hashX_subs s))"
    "outbox s1 = outbox s" using assms(1) unfolding status_kept_def by blast+
  show ?thesis
    unfolding loop_effect_def
  proof (intro conjI allI)
    fix k
    show "map_of (hashX_subs s') k = (if k \<in> insert x ks \<and> too_large B k then None else map_of (hashX_subs s) k)"
      using assms(3) loop_effectD(1) [OF assms(4), of k] kept(2) by (cases "k = x") simp_all
    show "map_of (mempool_statuses s') k =
       (if k \<in> insert x ks \<and> map_of (hashX_subs s) k \<noteq> None
        then (if has_mempool B k \<and> \<not> too_large B k then Some (current_status B k) else None)
        else map_of (mempool_statuses s) k)"
    proof (cases "k = x")
      case False
      then have "map_of (hashX_subs s1) k = map_of (hashX_subs s) k" "map_of (mempool_statuses s1) k = map_of (mempool_statuses s) k"
        using kept by simp_all
      then show ?thesis using False loop_effectD(2) [OF assms(4), of k] by (simp only: insert_iff simp_thms)
    qed (use assms(2,3) loop_effectD(2) [OF assms(4), of k] kept(1) in simp)
  qed (use loop_effectD(3) [OF assms(4)] kept(3) in simp)
qed

lemma status_loop_told:
  assumes "coherent B {} m" "session_ok s" "distinct (map fst l)" "\<forall>hashX \<in> dom (map_of (hashX_subs s)). answers B hashX"
  shows "\<exists>changed' s' m'. status_loop B l changed (s, m) = (Inr changed', s', m') \<and> coherent B {} m' \<and> session_ok s' \<and>
     (\<forall>al. map_of changed' al = (case told B s l al of Some st \<Rightarrow> Some st | None \<Rightarrow> map_of changed al)) \<and>
     (distinct (map fst changed) \<longrightarrow> distinct (map fst changed')) \<and> loop_effect B (fst ` set l) s s'"
  using assms
proof (induction l arbitrary: changed s m)
  case Nil
  have "told B s [] al = None" for al by (simp add: told_def split: sum.splits)
  then show ?case using Nil by (simp add: act_simps loop_effect_refl)
next
  case (Cons p l)
  obtain hashX old where p: "p = (hashX, old)" by (cases p)
  have fresh: "hashX \<notin> fst ` set l" "distinct (map fst l)" using Cons.prems(3) p by auto
  note ok = session_okD [OF Cons.prems(2)]
  have keys: "fst ` set (p # l) = insert hashX (fst ` set l)" by (simp add: p)
  show ?case
  proof (cases "map_of (hashX_subs s) hashX")
    case None
    have "told B s (p # l) al = told B s l al" for al
      using None by (auto simp: told_def p split: sum.splits)
    then have t: "told B s (p # l) = told B s l" by blast
    have run: "status_loop B (p # l) changed (s, m) = status_loop B l changed (s, m)"
      using None p by (simp add: act_simps bindS_def getS_def)
    from Cons.IH [OF Cons.prems(1,2) fresh(2) Cons.prems(4), of changed] show ?thesis
      unfolding t run keys using loop_effect_skip [OF None] by blast
  next
    case (Some al)
    obtain c cs where al: "al = c # cs" using al_nonempty [OF ok(3) [OF Some]] by (cases al) auto
    have ans: "answers B hashX" using Cons.prems(4) Some by blast
    from subscription_status_told [OF Cons.prems(1) ans Cons.prems(2)] obtain s1 m1 where
      one: "subscription_address_status B hashX (s, m) = (Inr (current_status B hashX), s1, m1)" "coherent B {} m1"
      "session_ok s1" "status_kept B hashX s s1" by metis
    define changed1 where "changed1 = (if old \<noteq> Some (current_status B hashX)
      then AList.update al (current_status B hashX) changed else changed)"
    have kept: "map_of (hashX_subs s1) = (if too_large B hashX then (map_of (hashX_subs s))(hashX := None) else map_of (hashX_subs s))"
      using one(4) unfolding status_kept_def by blast
    have ans1: "\<forall>k \<in> dom (map_of (hashX_subs s1)). answers B k"
      using Cons.prems(4) by (simp add: kept)
    from Cons.IH [OF one(2,3) fresh(2) ans1, of changed1] obtain changed' s' m' where
      IH: "status_loop B l changed1 (s1, m1) = (Inr changed', s', m')" "coherent B {} m'" "session_ok s'"
      "\<And>a. map_of changed' a = (case told B s1 l a of Some st \<Rightarrow> Some st | None \<Rightarrow> map_of changed1 a)"
      "distinct (map fst changed1) \<longrightarrow> distinct (map fst changed')" "loop_effect B (fst ` set l) s1 s'" by blast
    have run: "status_loop B (p # l) changed (s, m) = (Inr changed', s', m')"
      using one(1) IH(1) [unfolded changed1_def] Some unfolding p al by (simp add: bindS_def getS_def)
    have sh: "scripthash_to_hashX (JStr al) = Inr hashX" by (rule ok(3) [OF Some])
    have told_l: "told B s1 l a = (if a = al then None else told B s (p # l) a)" for a
    proof (cases "a = al")
      case True
      then show ?thesis using fresh(1) by (simp add: told_def sh)
    next
      case False
      have "map_of (hashX_subs s1) k = Some a \<longleftrightarrow> map_of (hashX_subs s) k = Some a" for k
        using False Some kept by simp
      moreover have "map_of (hashX_subs s) hashX \<noteq> Some a" using False Some by simp
      ultimately show ?thesis using False by (auto simp: told_def p split: sum.splits)
    qed
    have told_al: "told B s (p # l) al = (if old \<noteq> Some (current_status B hashX) then Some (current_status B hashX) else None)"
      using Some by (simp add: told_def sh p)
    have ch: "map_of changed' a = (case told B s (p # l) a of Some st \<Rightarrow> Some st | None \<Rightarrow> map_of changed a)" for a
      by (cases "a = al") (simp_all add: IH(4) told_l told_al changed1_def split: option.split)
    have dist: "distinct (map fst changed) \<longrightarrow> distinct (map fst changed')"
      using IH(5) by (simp add: changed1_def distinct_update)
    have "loop_effect B (fst ` set (p # l)) s s'"
      unfolding keys by (rule loop_effect_step [OF one(4) _ fresh(1) IH(6)]) (simp add: Some)
    with run IH(2,3) ch dist show ?thesis by blast
  qed
qed

lemma send_all_run:
  "send_all l (s, m) = (Inr (), s\<lparr>outbox := outbox s @
     map (\<lambda>(al, status). (''blockchain.scripthash.subscribe'', [JStr al, status_arg status])) l\<rparr>, m)"
  by (induction l arbitrary: s) (auto simp: act_simps)

definition header_notices :: "client_session \<Rightarrow> manager \<Rightarrow> bool \<Rightarrow> (string \<times> json list) list" where
  "header_notices s m height_changed =
     (if height_changed \<and> subscribe_headers s
      then [(''blockchain.headers.subscribe'', [projr (fst (subscribe_headers_result (s, m)))])] else [])"

lemma told_SomeD:
  assumes "told B s l al = Some st"
  obtains hashX where "map_of (hashX_subs s) hashX = Some al" "hashX \<in> fst ` set l" "st = current_status B hashX"
    "map_of l hashX \<noteq> Some (Some st)"
  using assms by (auto simp: told_def split: sum.splits if_splits)

lemma told_Some:
  "session_ok s \<Longrightarrow> map_of (hashX_subs s) hashX = Some al \<Longrightarrow> hashX \<in> fst ` set l \<Longrightarrow>
   map_of l hashX \<noteq> Some (Some (current_status B hashX)) \<Longrightarrow> told B s l al = Some (current_status B hashX)"
  by (simp add: told_def session_okD(3))

text \<open>The two loops of a notification, over the touched subscriptions and then over those with a mempool status, from a
  session \<open>s\<close> over \<open>s1\<close> to \<open>s2\<close>: what they tell is what the second one has told, or else the first.\<close>

definition both_passes ::
  "backend \<Rightarrow> bytes set \<Rightarrow> bytes list \<Rightarrow> client_session \<Rightarrow> client_session \<Rightarrow> client_session \<Rightarrow> (string \<times> string option) list \<Rightarrow> bool" where
  "both_passes B touched ts s s1 s2 changed \<longleftrightarrow>
     session_ok s \<and> session_ok s1 \<and> session_ok s2 \<and> distinct (map fst changed) \<and>
     set ts = touched \<inter> dom (map_of (hashX_subs s)) \<and> loop_effect B (set ts) s s1 \<and>
     loop_effect B (fst ` set (mempool_statuses s1)) s1 s2 \<and>
     (\<forall>al. map_of changed al = (case told B s1 (map (\<lambda>(k, old). (k, Some old)) (mempool_statuses s1)) al of
        Some st \<Rightarrow> Some st | None \<Rightarrow> told B s (map (\<lambda>k. (k, None)) ts) al))"

lemma both_passesD:
  assumes "both_passes B touched ts s s1 s2 changed"
  shows "session_ok s" "session_ok s1" "session_ok s2" "distinct (map fst changed)"
    "set ts = touched \<inter> dom (map_of (hashX_subs s))" "loop_effect B (set ts) s s1"
    "loop_effect B (fst ` set (mempool_statuses s1)) s1 s2"
    "(al, st) \<in> set changed \<longleftrightarrow> (case told B s1 (map (\<lambda>(k, old). (k, Some old)) (mempool_statuses s1)) al of
        Some st' \<Rightarrow> st = st' | None \<Rightarrow> told B s (map (\<lambda>k. (k, None)) ts) al = Some st)"
proof -
  show d: "distinct (map fst changed)" using assms unfolding both_passes_def by blast
  have "map_of changed al = (case told B s1 (map (\<lambda>(k, old). (k, Some old)) (mempool_statuses s1)) al of
        Some st \<Rightarrow> Some st | None \<Rightarrow> told B s (map (\<lambda>k. (k, None)) ts) al)" using assms unfolding both_passes_def by blast
  then show "(al, st) \<in> set changed \<longleftrightarrow> (case told B s1 (map (\<lambda>(k, old). (k, Some old)) (mempool_statuses s1)) al of
        Some st' \<Rightarrow> st = st' | None \<Rightarrow> told B s (map (\<lambda>k. (k, None)) ts) al = Some st)"
    using map_of_eq_Some_iff [OF d, of al st] by (auto split: option.splits)
qed (use assms in \<open>unfold both_passes_def, blast+\<close>)

lemma second_pass_keys:
  "map_of (map (\<lambda>(k, old). (k, Some old)) (mempool_statuses s)) k = map_option Some (map_of (mempool_statuses s) k)"
  "k \<in> fst ` set (map (\<lambda>(k, old). (k, Some old)) (mempool_statuses s)) \<longleftrightarrow> map_of (mempool_statuses s) k \<noteq> None"
  "k \<in> fst ` set (mempool_statuses s) \<longleftrightarrow> map_of (mempool_statuses s) k \<noteq> None"
  by (force simp: map_of_map map_of_eq_None_iff)+

lemma passes_run:
  assumes "coherent B {} m" "session_ok s" "\<forall>hashX \<in> dom (map_of (hashX_subs s)). answers B hashX"
    and "distinct ts" "set ts = touched \<inter> dom (map_of (hashX_subs s))"
  shows "\<exists>changed s1 s2 m2. both_passes B touched ts s s1 s2 changed \<and>
     bindS (status_loop B (map (\<lambda>k. (k, None)) ts) []) (\<lambda>changed.
       bindS (getS mempool_statuses) (\<lambda>statuses.
       status_loop B (map (\<lambda>(hashX, old). (hashX, Some old)) statuses) changed)) (s, m) = (Inr changed, s2, m2)"
proof -
  let ?l1 = "map (\<lambda>k. (k, None :: string option option)) ts"
  have d1: "distinct (map fst ?l1)" and k1: "fst ` set ?l1 = set ts" using assms(4) by (simp_all add: comp_def image_image)
  from status_loop_told [OF assms(1,2) d1 assms(3), of "[]", unfolded k1] obtain changed1 s1 m1 where
    L1: "status_loop B ?l1 [] (s, m) = (Inr changed1, s1, m1)" "coherent B {} m1" "session_ok s1"
      "\<forall>al. map_of changed1 al = (case told B s ?l1 al of Some st \<Rightarrow> Some st | None \<Rightarrow> map_of [] al)"
      "distinct (map fst changed1)" "loop_effect B (set ts) s s1" by auto
  let ?l2 = "map (\<lambda>(k, old). (k, Some old)) (mempool_statuses s1)"
  have d2: "distinct (map fst ?l2)" using session_okD(2) [OF L1(3)] by (simp add: comp_def split_def)
  have k2: "fst ` set ?l2 = fst ` set (mempool_statuses s1)" by force
  have ans: "\<forall>k \<in> dom (map_of (hashX_subs s1)). answers B k"
    using assms(3) by (auto simp: loop_effectD(1) [OF L1(6)] split: if_splits)
  from status_loop_told [OF L1(2,3) d2 ans, of changed1, unfolded k2] L1(5) obtain changed s2 m2 where
    L2: "status_loop B ?l2 changed1 (s1, m1) = (Inr changed, s2, m2)" "session_ok s2"
      "\<forall>al. map_of changed al = (case told B s1 ?l2 al of Some st \<Rightarrow> Some st | None \<Rightarrow> map_of changed1 al)"
      "distinct (map fst changed)" "loop_effect B (fst ` set (mempool_statuses s1)) s1 s2" by blast
  have "both_passes B touched ts s s1 s2 changed"
    unfolding both_passes_def using assms(2,5) L1(3,4,6) L2(2-5) by (auto split: option.split)
  moreover have "bindS (status_loop B ?l1 []) (\<lambda>changed.
       bindS (getS mempool_statuses) (\<lambda>statuses.
       status_loop B (map (\<lambda>(hashX, old). (hashX, Some old)) statuses) changed)) (s, m) = (Inr changed, s2, m2)"
    using L1(1) L2(1) by (simp add: bindS_def getS_def)
  ultimately show ?thesis by blast
qed

lemma passes_sound:
  assumes "both_passes B touched ts s s1 s2 changed" "(al, st) \<in> set changed"
  shows "\<exists>hashX. map_of (hashX_subs s) hashX = Some al \<and> st = current_status B hashX \<and>
    (hashX \<in> touched \<or> (\<exists>old. map_of (mempool_statuses s) hashX = Some old \<and> old \<noteq> st))"
proof -
  note P = both_passesD [OF assms(1)] and E1 = loop_effectD [OF both_passesD(6) [OF assms(1)]]
  let ?l2 = "map (\<lambda>(k, old). (k, Some old)) (mempool_statuses s1)"
  show ?thesis
  proof (cases "told B s1 ?l2 al")
    case (Some st')
    with assms(2) P(8) have "told B s1 ?l2 al = Some st" by simp
    then obtain k where k: "map_of (hashX_subs s1) k = Some al" "k \<in> fst ` set ?l2" "st = current_status B k"
        "map_of ?l2 k \<noteq> Some (Some st)" by (rule told_SomeD)
    then have sub: "map_of (hashX_subs s) k = Some al" using E1(1) [of k] by (simp split: if_splits)
    have "k \<in> touched \<or> (\<exists>old. map_of (mempool_statuses s) k = Some old \<and> old \<noteq> st)"
    proof (cases "k \<in> set ts")
      case False
      then have "map_of (mempool_statuses s1) k = map_of (mempool_statuses s) k" using E1(2) [of k] by simp
      then show ?thesis using k(2,4) unfolding second_pass_keys by auto
    qed (simp add: P(5))
    then show ?thesis using sub k(3) by blast
  next
    case None
    with assms(2) P(8) have "told B s (map (\<lambda>k. (k, None)) ts) al = Some st" by simp
    then obtain k where "map_of (hashX_subs s) k = Some al" "k \<in> fst ` set (map (\<lambda>k. (k, None :: string option option)) ts)"
        "st = current_status B k" by (rule told_SomeD)
    then show ?thesis using P(5) by auto
  qed
qed

lemma passes_complete:
  assumes "both_passes B touched ts s s1 s2 changed" "map_of (hashX_subs s) k = Some al"
    and "k \<in> touched \<or> (\<exists>old. map_of (mempool_statuses s) k = Some old \<and> old \<noteq> current_status B k)"
  shows "(al, current_status B k) \<in> set changed"
proof -
  note P = both_passesD [OF assms(1)] and E1 = loop_effectD [OF both_passesD(6) [OF assms(1)]]
  let ?l1 = "map (\<lambda>k. (k, None :: string option option)) ts" and ?l2 = "map (\<lambda>(k, old). (k, Some old)) (mempool_statuses s1)"
  show ?thesis
  proof (cases "k \<in> touched")
    case True
    then have "k \<in> set ts" using P(5) assms(2) by auto
    then have first: "told B s ?l1 al = Some (current_status B k)"
      by (intro told_Some [OF P(1) assms(2)]) (auto simp: image_image dest!: map_of_SomeD)
    have same: "st = current_status B k" if "told B s1 ?l2 al = Some st" for st
    proof -
      from that obtain k' where k': "map_of (hashX_subs s1) k' = Some al" "st = current_status B k'" by (rule told_SomeD)
      have "Inr k' = (Inr k :: session_exn + bytes)"
        using session_okD(3) [OF P(2) k'(1)] session_okD(3) [OF P(1) assms(2)] by simp
      then show ?thesis using k'(2) by simp
    qed
    show ?thesis using first same by (cases "told B s1 ?l2 al") (simp_all add: P(8))
  next
    case False
    then obtain old where old: "map_of (mempool_statuses s) k = Some old" "old \<noteq> current_status B k" using assms(3) by blast
    have "k \<notin> set ts" using False P(5) by auto
    then have k: "map_of (mempool_statuses s1) k = Some old" "map_of (hashX_subs s1) k = Some al"
      using E1(1,2) [of k] old(1) assms(2) by simp_all
    have "told B s1 ?l2 al = Some (current_status B k)"
      by (rule told_Some [OF P(2) k(2)]) (use k(1) old(2) in \<open>simp_all only: second_pass_keys, simp_all\<close>)
    then show ?thesis by (simp add: P(8))
  qed
qed

lemma passes_gone:
  assumes "both_passes B touched ts s s1 s2 changed"
  shows "map_of (hashX_subs s2) k = None \<longleftrightarrow> map_of (hashX_subs s) k = None \<or>
    too_large B k \<and> (\<exists>al. map_of (hashX_subs s) k = Some al \<and> (k \<in> touched \<or> map_of (mempool_statuses s) k \<noteq> None))"
proof -
  note P = both_passesD(5) [OF assms] and E1 = loop_effectD [OF both_passesD(6) [OF assms]]
    and E2 = loop_effectD(1) [OF both_passesD(7) [OF assms]]
  show ?thesis
  proof (cases "k \<in> set ts")
    case True
    then have "k \<in> touched" "\<exists>al. map_of (hashX_subs s) k = Some al" using P by auto
    then show ?thesis using True E2 [of k] E1(1,2) [of k] by (simp add: second_pass_keys(3))
  next
    case False
    then have "k \<notin> touched \<or> map_of (hashX_subs s) k = None" using P by auto
    then show ?thesis using False E2 [of k] E1(1,2) [of k] by (auto simp: second_pass_keys(3))
  qed
qed


definition sample_scripthash :: string where
  "sample_scripthash = hash_to_hex_str (replicate 32 1)"

definition sample_client :: client_session where
  "sample_client = new_session\<lparr>hashX_subs := [(replicate 11 1, sample_scripthash)]\<rparr>"

lemma sample_scripthash_hashX: "scripthash_to_hashX (JStr sample_scripthash) = Inr (replicate 11 1)"
  by (simp add: scripthash_to_hashX_def sample_scripthash_def)


end
