(* ===== verification/SessionFunds.thy ===== *)
theory SessionFunds
  imports SessionStatusFacts MempoolQueries ChainState "HOL-Library.Product_Lexorder" "HOL-Library.Multiset"
begin

section \<open>Balances, unspent outputs and histories of a client (ElectrumX of server/session.py)\<close>

text \<open>
  The queries about a script hash that combine the database with the mempool.  What the two answer is the record
  \<open>ledger\<close>; \<open>reads_from\<close> says that it is what \<open>ChainDB\<close> and \<open>Mempool\<close> compute from their states.  A \<open>UTXO\<close> is a
  tuple of a transaction number, an output position, a transaction hash, a height and a value, and
  tuples are compared lexicographically.
\<close>

type_synonym unspent = "int \<times> nat \<times> bytes \<times> int \<times> int"

record ledger =
  lg_utxos :: "bytes \<Rightarrow> exn + unspent list"
  lg_balance_delta :: "bytes \<Rightarrow> exn + int"
  lg_unordered :: "bytes \<Rightarrow> exn + unspent list"
  lg_spends :: "bytes \<Rightarrow> exn + prevout set"

definition utxo_tuple :: "utxo \<Rightarrow> unspent" where
  "utxo_tuple u = (int (utxo_tx_num u), utxo_tx_pos u, the (utxo_tx_hash u), utxo_height u, int (utxo_value u))"

text \<open>\<open>all_utxos\<close> gives \<open>None\<close> while the code sleeps and tries again.\<close>

definition reads_from :: "ledger \<Rightarrow> 'db engine \<Rightarrow> mempool_api \<Rightarrow> 'db chain_db \<Rightarrow> mempool \<Rightarrow> bool" where
  "reads_from L E A d m \<longleftrightarrow>
     (\<forall>hashX r. all_utxos E hashX d = Some r \<longrightarrow> lg_utxos L hashX = bindE r (\<lambda>us. Inr (map utxo_tuple us))) \<and>
     lg_balance_delta L = balance_delta A m \<and> lg_unordered L = unordered_UTXOs A m \<and> lg_spends L = potential_spends A m"

definition unspent_value :: "unspent \<Rightarrow> int" where
  "unspent_value = (\<lambda>(_, _, _, _, value). value)"

definition outpoint :: "unspent \<Rightarrow> prevout" where
  "outpoint = (\<lambda>(_, tx_pos, tx_hash, _, _). (tx_hash, tx_pos))"

definition unspent_json :: "unspent \<Rightarrow> json" where
  "unspent_json = (\<lambda>(_, tx_pos, tx_hash, height, value).
     JDict [(''tx_hash'', JStr (hash_to_hex_str tx_hash)), (''tx_pos'', JInt (int tx_pos)),
            (''height'', JInt height), (''value'', JInt value)])"

definition hashX_listunspent :: "ledger \<Rightarrow> bytes \<Rightarrow> json act" where
  "hashX_listunspent L hashX =
     bindS (liftS (from_py (lg_utxos L hashX))) (\<lambda>utxos.
     let utxos = sort utxos in
     bindS (liftS (from_py (lg_unordered L hashX))) (\<lambda>more_utxos.
     let utxos = utxos @ more_utxos in
     bindS (bump_cost (1.0 + real (length utxos) / 50)) (\<lambda>_.
     bindS (liftS (from_py (lg_spends L hashX))) (\<lambda>spends.
     returnS (JList (map unspent_json (filter (\<lambda>utxo. outpoint utxo \<notin> spends) utxos)))))))"

definition get_balance :: "ledger \<Rightarrow> bytes \<Rightarrow> (int \<times> int) act" where
  "get_balance L hashX =
     bindS (liftS (from_py (lg_utxos L hashX))) (\<lambda>utxos.
     let confirmed = sum_list (map unspent_value utxos) in
     bindS (liftS (from_py (lg_balance_delta L hashX))) (\<lambda>unconfirmed.
     bindS (bump_cost (1.0 + real (length utxos) / 50)) (\<lambda>_.
     returnS (confirmed, unconfirmed))))"

definition balance_json :: "int \<times> int \<Rightarrow> json" where
  "balance_json = (\<lambda>(confirmed, unconfirmed). JDict [(''confirmed'', JInt confirmed), (''unconfirmed'', JInt unconfirmed)])"

definition scripthash_get_balance :: "ledger \<Rightarrow> json \<Rightarrow> json act" where
  "scripthash_get_balance L scripthash =
     bindS (liftS (scripthash_to_hashX scripthash)) (\<lambda>hashX.
     bindS (get_balance L hashX) (\<lambda>balance. returnS (balance_json balance)))"

definition scripthash_listunspent :: "ledger \<Rightarrow> json \<Rightarrow> json act" where
  "scripthash_listunspent L scripthash =
     bindS (liftS (scripthash_to_hashX scripthash)) (\<lambda>hashX. hashX_listunspent L hashX)"

subsection \<open>Histories\<close>

definition unconfirmed_history :: "backend \<Rightarrow> bytes \<Rightarrow> json list act" where
  "unconfirmed_history B hashX =
     bindS (liftS (from_py (be_summaries B hashX))) (\<lambda>summaries.
     let result = map (\<lambda>(tx_hash, fee, has_unconfirmed_inputs).
       JDict [(''tx_hash'', JStr (hash_to_hex_str tx_hash)), (''height'', JInt (- of_bool has_unconfirmed_inputs)),
              (''fee'', JInt fee)]) summaries in
     bindS (bump_cost (0.25 + real (length result) / 50)) (\<lambda>_. returnS result))"

definition confirmed_and_unconfirmed_history :: "backend \<Rightarrow> bytes \<Rightarrow> json list act" where
  "confirmed_and_unconfirmed_history B hashX =
     bindS (session_history B hashX) (\<lambda>(history, cost).
     bindS (bump_cost cost) (\<lambda>_.
     let conf = map (\<lambda>(tx_hash, height).
       JDict [(''tx_hash'', JStr (hash_to_hex_str tx_hash)), (''height'', JInt height)]) history in
     bindS (unconfirmed_history B hashX) (\<lambda>unconf. returnS (conf @ unconf))))"

definition scripthash_get_history :: "backend \<Rightarrow> json \<Rightarrow> json list act" where
  "scripthash_get_history B scripthash =
     bindS (liftS (scripthash_to_hashX scripthash)) (\<lambda>hashX. confirmed_and_unconfirmed_history B hashX)"

definition scripthash_get_mempool :: "backend \<Rightarrow> json \<Rightarrow> json list act" where
  "scripthash_get_mempool B scripthash =
     bindS (liftS (scripthash_to_hashX scripthash)) (\<lambda>hashX. unconfirmed_history B hashX)"

subsection \<open>A pool that is consistent with the outputs there are\<close>

text \<open>The outputs paying to \<open>hashX\<close>, confirmed or in the pool, have distinct outpoints; no output is spent twice by the
  pool; and what a transaction of the pool notes of an input is right for those outputs and for no others.\<close>

definition pool_inputs :: "mempool \<Rightarrow> (prevout \<times> pair) list" where
  "pool_inputs m = concat (map (\<lambda>(_, t). zip (mt_prevouts t) (the (mt_in_pairs t))) (mp_txs m))"

definition pool_consistent :: "mempool \<Rightarrow> bytes \<Rightarrow> unspent set \<Rightarrow> bool" where
  "pool_consistent m hashX outs \<longleftrightarrow> inj_on outpoint outs \<and> distinct (map fst (pool_inputs m)) \<and>
     (\<forall>(p, pr) \<in> set (pool_inputs m). \<forall>v. pr = (hashX, v) \<longleftrightarrow> (\<exists>u \<in> outs. outpoint u = p \<and> unspent_value u = v))"

text \<open>What the pool pays to \<open>hashX\<close>.\<close>

definition pool_outputs :: "mempool \<Rightarrow> bytes \<Rightarrow> unspent set" where
  "pool_outputs m hashX = {(-1, pos, h, 0, value) |pos h value. \<exists>t. map_of (mp_txs m) h = Some t \<and>
     pos < length (mt_out_pairs t) \<and> mt_out_pairs t ! pos = (hashX, value)}"

definition spent_by_pool :: "mempool \<Rightarrow> prevout set" where
  "spent_by_pool m = fst ` set (pool_inputs m)"

lemma bindS_steps [simp]:
  "bindS (returnS x) f st = f x st" "bindS (liftS (Inr x)) f st = f x st"
  "bindS (bump_cost c) g (s, mg) = g () (s\<lparr>charged := charged s + c\<rparr>, mg)" "returnS x st = (Inr x, st)"
  by (simp_all add: bindS_def returnS_def liftS_def bump_cost_def modS_def)

lemma sum_list_distinct_eq:
  fixes f :: "'a \<Rightarrow> int"
  assumes "distinct xs" "distinct ys" "set xs = set ys"
  shows "sum_list (map f xs) = sum_list (map f ys)"
  using assms by (simp add: sum_list_distinct_conv_sum_set)

lemma pool_inputs_prevouts:
  assumes "mp_ok m"
  shows "spent_by_pool m = (\<Union>h \<in> dom (map_of (mp_txs m)). set (mt_prevouts (the (map_of (mp_txs m) h))))"
proof -
  have z: "fst ` set (zip (mt_prevouts t) (the (mt_in_pairs t))) = set (mt_prevouts t)" if "(h, t) \<in> set (mp_txs m)" for h t
  proof -
    have "map_of (mp_txs m) h = Some t" using that mp_okD(1) [OF assms] by simp
    then obtain ins where "mt_in_pairs t = Some ins" "length ins = length (mt_prevouts t)"
      using mp_okD(2) [OF assms] by (auto simp: pool_tx_ok_def)
    then have "map fst (zip (mt_prevouts t) (the (mt_in_pairs t))) = mt_prevouts t" by simp
    then show ?thesis by (simp only: set_map [symmetric])
  qed
  have "spent_by_pool m = (\<Union>p \<in> set (mp_txs m). fst ` set (zip (mt_prevouts (snd p)) (the (mt_in_pairs (snd p)))))"
    by (simp add: spent_by_pool_def pool_inputs_def image_UN split_def)
  also have "\<dots> = (\<Union>(h, t) \<in> set (mp_txs m). set (mt_prevouts t))"
    by (rule SUP_cong [OF refl]) (use z in \<open>force simp: split_def\<close>)
  also have "\<dots> = (\<Union>h \<in> dom (map_of (mp_txs m)). set (mt_prevouts (the (map_of (mp_txs m) h))))"
  proof (intro set_eqI iffI)
    fix x assume "x \<in> (\<Union>(h, t) \<in> set (mp_txs m). set (mt_prevouts t))"
    then obtain h t where "(h, t) \<in> set (mp_txs m)" "x \<in> set (mt_prevouts t)" by auto
    then have "map_of (mp_txs m) h = Some t" "x \<in> set (mt_prevouts t)" using mp_okD(1) [OF assms] by simp_all
    then show "x \<in> (\<Union>h \<in> dom (map_of (mp_txs m)). set (mt_prevouts (the (map_of (mp_txs m) h))))" by force
  next
    fix x assume "x \<in> (\<Union>h \<in> dom (map_of (mp_txs m)). set (mt_prevouts (the (map_of (mp_txs m) h))))"
    then obtain h t where "map_of (mp_txs m) h = Some t" "x \<in> set (mt_prevouts t)" by auto
    then show "x \<in> (\<Union>(h, t) \<in> set (mp_txs m). set (mt_prevouts t))" by (auto dest: map_of_SomeD)
  qed
  finally show ?thesis .
qed

text \<open>Of the outputs paying to a hashX, the possible spends are exactly those the pool spends.\<close>

lemma spends_of_outputs:
  assumes "mp_ok m" "any_order A" "pool_consistent m hX outs" "u \<in> outs"
  shows "\<exists>P. potential_spends A m hX = Inr P \<and> (outpoint u \<in> P \<longleftrightarrow> outpoint u \<in> spent_by_pool m)"
proof -
  let ?P = "\<Union>h \<in> index_of (mp_txs m) hX. set (mt_prevouts (the (map_of (mp_txs m) h)))"
  have "outpoint u \<in> ?P" if "outpoint u \<in> spent_by_pool m"
  proof -
    from that obtain pr where pr: "(outpoint u, pr) \<in> set (pool_inputs m)" by (auto simp: spent_by_pool_def)
    then have hx: "pr = (hX, unspent_value u)" using assms(3,4) unfolding pool_consistent_def by blast
    from pr obtain h t where t: "(h, t) \<in> set (mp_txs m)" "(outpoint u, pr) \<in> set (zip (mt_prevouts t) (the (mt_in_pairs t)))"
      by (auto simp: pool_inputs_def)
    have m: "map_of (mp_txs m) h = Some t" using t(1) mp_okD(1) [OF assms(1)] by simp
    have "hX \<in> set (tx_hashXs t)" using set_zip_rightD [OF t(2)] hx by (force simp: tx_hashXs_def)
    then have "h \<in> index_of (mp_txs m) hX" using m by (simp add: index_of_def)
    moreover have "outpoint u \<in> set (mt_prevouts (the (map_of (mp_txs m) h)))" using set_zip_leftD [OF t(2)] m by simp
    ultimately show ?thesis by blast
  qed
  moreover have "?P \<subseteq> spent_by_pool m" unfolding pool_inputs_prevouts [OF assms(1)] by (auto simp: index_of_def)
  ultimately show ?thesis using potential_spends_ok [OF assms(1,2), of hX] by blast
qed

subsection \<open>Unspent outputs and balance\<close>

lemma sum_list_concat_map: "sum_list (concat (map f xs)) = sum_list (map (\<lambda>x. sum_list (f x)) xs)"
  for f :: "'a \<Rightarrow> int list"
  by (induction xs) auto

lemma paid_to_concat:
  "sum_list (map (\<lambda>x. paid_to hX (f x)) xs) = paid_to hX (concat (map f xs))"
  by (induction xs) (auto simp: paid_to_def)

lemma map_snd_zip_ins:
  assumes "mp_ok m" "(h, t) \<in> set (mp_txs m)"
  shows "map snd (zip (mt_prevouts t) (the (mt_in_pairs t))) = the (mt_in_pairs t)"
proof -
  have "map_of (mp_txs m) h = Some t" using assms mp_okD(1) by auto
  then obtain ins where "mt_in_pairs t = Some ins" "length ins = length (mt_prevouts t)"
    using mp_okD(2) [OF assms(1)] by (auto simp: pool_tx_ok_def)
  then show ?thesis by simp
qed

text \<open>What the pool spends of a hashX is the value of its outputs that the pool spends.\<close>

lemma spent_value:
  assumes "mp_ok m" "distinct us" "pool_consistent m hX (set us)"
  shows "sum_list (map (\<lambda>(_, t). paid_to hX (the (mt_in_pairs t))) (mp_txs m)) =
    sum_list (map unspent_value (filter (\<lambda>u. outpoint u \<in> spent_by_pool m) us))"
proof -
  let ?I = "filter (\<lambda>(p, pr). fst pr = hX) (pool_inputs m)" and ?U = "filter (\<lambda>u. outpoint u \<in> spent_by_pool m) us"
  have inj: "inj_on outpoint (set us)" and dist: "distinct (map fst (pool_inputs m))"
    and right: "\<And>p pr v. (p, pr) \<in> set (pool_inputs m) \<Longrightarrow> pr = (hX, v) \<longleftrightarrow> (\<exists>u \<in> set us. outpoint u = p \<and> unspent_value u = v)"
    using assms(3) unfolding pool_consistent_def by blast+
  have "sum_list (map (\<lambda>(_, t). paid_to hX (the (mt_in_pairs t))) (mp_txs m)) =
      paid_to hX (concat (map (\<lambda>(_, t). the (mt_in_pairs t)) (mp_txs m)))"
    using paid_to_concat [of hX "\<lambda>(_, t). the (mt_in_pairs t)" "mp_txs m"] by (simp add: split_def)
  also have "concat (map (\<lambda>(_, t). the (mt_in_pairs t)) (mp_txs m)) = map snd (pool_inputs m)"
    unfolding pool_inputs_def map_concat map_map
    by (rule arg_cong [where f = concat], rule map_cong [OF refl]) (use map_snd_zip_ins [OF assms(1)] in force)
  also have "paid_to hX (map snd (pool_inputs m)) = sum_list (map (\<lambda>(p, pr). snd pr) ?I)"
    by (simp add: paid_to_def filter_map comp_def split_def)
  also have "\<dots> = sum_list (map snd (map (\<lambda>(p, pr). (p, snd pr)) ?I))" by (simp add: split_def comp_def)
  also have "\<dots> = sum_list (map snd (map (\<lambda>u. (outpoint u, unspent_value u)) ?U))"
  proof (rule sum_list_distinct_eq)
    have "distinct (map fst ?I)" using dist by (simp add: distinct_map_filter)
    then show "distinct (map (\<lambda>(p, pr). (p, snd pr)) ?I)"
      by (auto simp: distinct_map inj_on_def)
    show "distinct (map (\<lambda>u. (outpoint u, unspent_value u)) ?U)"
      using assms(2) inj by (auto simp: distinct_map inj_on_def)
    show "set (map (\<lambda>(p, pr). (p, snd pr)) ?I) = set (map (\<lambda>u. (outpoint u, unspent_value u)) ?U)"
    proof (intro set_eqI iffI)
      fix x assume "x \<in> set (map (\<lambda>(p, pr). (p, snd pr)) ?I)"
      then obtain p v where x: "x = (p, v)" "(p, hX, v) \<in> set (pool_inputs m)" by auto
      then obtain u where "u \<in> set us" "outpoint u = p" "unspent_value u = v" using right by blast
      moreover have "p \<in> spent_by_pool m" using x(2) by (force simp: spent_by_pool_def)
      ultimately show "x \<in> set (map (\<lambda>u. (outpoint u, unspent_value u)) ?U)" using x(1) by auto
    next
      fix x assume "x \<in> set (map (\<lambda>u. (outpoint u, unspent_value u)) ?U)"
      then obtain u where u: "u \<in> set us" "x = (outpoint u, unspent_value u)" "outpoint u \<in> spent_by_pool m" by auto
      then obtain pr where pr: "(outpoint u, pr) \<in> set (pool_inputs m)" by (auto simp: spent_by_pool_def)
      then have "pr = (hX, unspent_value u)" using right u(1) by blast
      then show "x \<in> set (map (\<lambda>(p, pr). (p, snd pr)) ?I)" using pr u(2) by force
    qed
  qed
  finally show ?thesis by (simp add: comp_def)
qed

text \<open>What the pool pays to a hashX is the value of its outputs.\<close>

lemma paid_value:
  assumes "mp_ok m" "distinct us" "set us = pool_outputs m hX"
  shows "sum_list (map (\<lambda>(_, t). paid_to hX (mt_out_pairs t)) (mp_txs m)) = sum_list (map unspent_value us)"
proof -
  define row where "row = (\<lambda>(h :: bytes, t :: mempool_tx). map (\<lambda>(pos, _, value). (-1 :: int, pos, h, 0 :: int, value))
      (filter (\<lambda>(_, hX', _). hX' = hX) (enumerate 0 (mt_out_pairs t))))"
  note ok = mp_okD(1) [OF assms(1)]
  have sum: "sum_list (map unspent_value (row (h, t))) = paid_to hX (mt_out_pairs t)" for h t
  proof -
    have "sum_list (map unspent_value (row (h, t))) =
        sum_list (map (\<lambda>(pos, _, v). v) (filter (\<lambda>(_, hX', _). hX' = hX) (enumerate 0 (mt_out_pairs t))))"
      by (simp add: row_def comp_def split_def unspent_value_def)
    also have "\<dots> = paid_to hX (map snd (enumerate 0 (mt_out_pairs t)))"
      unfolding paid_to_def filter_map by (simp add: comp_def split_def)
    finally show ?thesis by simp
  qed
  have row: "set (row (h, t)) = {(-1, pos, h, 0, value) |pos value. pos < length (mt_out_pairs t) \<and> mt_out_pairs t ! pos = (hX, value)}" for h t
    by (auto simp: row_def in_set_enumerate_eq image_iff) (force simp: in_set_enumerate_eq)+
  have dist_row: "distinct (row p)" for p
    unfolding row_def by (cases p) (auto simp: distinct_map intro!: distinct_filter inj_onI distinct_enumerate simp: in_set_enumerate_eq)
  have "distinct (concat (map row (mp_txs m)))"
    using ok dist_row
  proof (induction "mp_txs m" arbitrary: m)
    case Nil
    then show ?case by simp
  next
    case (Cons p ps)
    obtain h t where p: "p = (h, t)" by (cases p)
    have IH: "distinct (concat (map row ps))"
      using Cons(1) [of "m\<lparr>mp_txs := ps\<rparr>"] Cons.prems Cons.hyps(2) [symmetric] by simp
    have "set (row p) \<inter> (\<Union>q \<in> set ps. set (row q)) = {}"
      using Cons.prems(1) Cons.hyps(2) [symmetric] by (force simp: p row)
    then show ?case using IH Cons.prems(2) by (simp add: Cons.hyps(2) [symmetric])
  qed
  moreover have "set (concat (map row (mp_txs m))) = pool_outputs m hX"
  proof (intro set_eqI iffI)
    fix u assume "u \<in> set (concat (map row (mp_txs m)))"
    then obtain h t where "(h, t) \<in> set (mp_txs m)" "u \<in> set (row (h, t))" by auto
    then show "u \<in> pool_outputs m hX" using ok by (auto simp: row pool_outputs_def)
  next
    fix u assume "u \<in> pool_outputs m hX"
    then obtain pos h v t where u: "u = (-1, pos, h, 0, v)" "map_of (mp_txs m) h = Some t"
      "pos < length (mt_out_pairs t)" "mt_out_pairs t ! pos = (hX, v)" by (auto simp: pool_outputs_def)
    then have "u \<in> set (row (h, t))" "(h, t) \<in> set (mp_txs m)" by (auto simp: row dest: map_of_SomeD)
    then show "u \<in> set (concat (map row (mp_txs m)))" by auto
  qed
  ultimately have "sum_list (map unspent_value us) = sum_list (map unspent_value (concat (map row (mp_txs m))))"
    using assms(2,3) by (intro sum_list_distinct_eq) auto
  also have "\<dots> = sum_list (map (\<lambda>p. sum_list (map unspent_value (row p))) (mp_txs m))"
    by (simp add: map_concat sum_list_concat_map comp_def)
  also have "\<dots> = sum_list (map (\<lambda>(_, t). paid_to hX (mt_out_pairs t)) (mp_txs m))"
    by (rule arg_cong [where f = sum_list], rule map_cong [OF refl]) (auto simp: sum)
  finally show ?thesis by simp
qed

text \<open>The list of unspent outputs the client gets.\<close>

lemma listunspent_run:
  assumes "reads_from L E A d m" "mp_ok m" "any_order A" "all_utxos E hX d = Some (Inr us)"
    and "distinct (map utxo_tuple us)" "pool_consistent m hX (set (map utxo_tuple us) \<union> pool_outputs m hX)"
  obtains more s' where "unordered_UTXOs A m hX = Inr more" "distinct more" "set more = pool_outputs m hX"
    "hashX_listunspent L hX (s, mg) = (Inr (JList (map unspent_json
       (filter (\<lambda>u. outpoint u \<notin> spent_by_pool m) (sort (map utxo_tuple us) @ more)))), s', mg)"
proof -
  obtain more where more: "unordered_UTXOs A m hX = Inr more" "distinct more" "set more = pool_outputs m hX"
    using unordered_UTXOs_ok [OF assms(2,3), of hX] by (auto simp: pool_outputs_def)
  obtain P where P: "potential_spends A m hX = Inr P" using potential_spends_ok [OF assms(2,3), of hX] by blast
  have "outpoint u \<in> P \<longleftrightarrow> outpoint u \<in> spent_by_pool m" if "u \<in> set (sort (map utxo_tuple us) @ more)" for u
    using spends_of_outputs [OF assms(2,3,6), of u] that more(3) P by auto
  then have "filter (\<lambda>u. outpoint u \<notin> P) (sort (map utxo_tuple us) @ more) =
      filter (\<lambda>u. outpoint u \<notin> spent_by_pool m) (sort (map utxo_tuple us) @ more)"
    by (intro filter_cong) simp_all
  then have "\<exists>s'. hashX_listunspent L hX (s, mg) = (Inr (JList (map unspent_json
       (filter (\<lambda>u. outpoint u \<notin> spent_by_pool m) (sort (map utxo_tuple us) @ more)))), s', mg)"
    using assms(1,4) more(1) P unfolding hashX_listunspent_def reads_from_def
    by (simp del: filter_append map_append)
  then show thesis using that more by blast
qed


text \<open>A pool in which a second transaction spends what the first pays.\<close>

definition chained_txs :: "(bytes \<times> mempool_tx) list" where
  "chained_txs =
     [([1], \<lparr>mt_prevouts = [([9], 0)], mt_in_pairs = Some [([5], 7)], mt_out_pairs = [([6], 4)], mt_fee = 3, mt_size = 10\<rparr>),
      ([2], \<lparr>mt_prevouts = [([1], 0)], mt_in_pairs = Some [([6], 4)], mt_out_pairs = [([7], 1), ([6], 2)], mt_fee = 1, mt_size = 10\<rparr>)]"

definition chained_pool :: mempool where
  "chained_pool = \<lparr>mp_txs = chained_txs, mp_hashXs = (\<lambda>hashX. opt_set (index_of chained_txs hashX))\<rparr>"

definition chained_ledger :: ledger where
  "chained_ledger = \<lparr>lg_utxos = (\<lambda>_. Inr []), lg_balance_delta = balance_delta sample_api chained_pool,
     lg_unordered = unordered_UTXOs sample_api chained_pool, lg_spends = potential_spends sample_api chained_pool\<rparr>"

lemma chained_pool_ok: "mp_ok chained_pool"
  by (auto simp: mp_ok_def chained_pool_def chained_txs_def pool_tx_ok_def split: if_splits)

lemma chained_outputs: "pool_outputs chained_pool [6] = {(-1, 0, [1], 0, 4), (-1, 1, [2], 0, 2)}"
proof
  show "pool_outputs chained_pool [6] \<subseteq> {(-1, 0, [1], 0, 4), (-1, 1, [2], 0, 2)}"
    by (auto simp: pool_outputs_def chained_pool_def chained_txs_def less_Suc_eq split: if_splits)
  show "{(-1, 0, [1], 0, 4), (-1, 1, [2], 0, 2)} \<subseteq> pool_outputs chained_pool [6]"
    by (simp add: pool_outputs_def chained_pool_def chained_txs_def)
qed


end
