(* ===== verification/SessionHeaders.thy ===== *)
theory SessionHeaders
  imports SessionStatusFacts BlockProc
begin

section \<open>Headers and their proofs (ElectrumX and AuxPoWElectrumX of server/session.py)\<close>

text \<open>
  What the database answers about headers is the record \<open>header_db\<close>; \<open>reads_headers\<close> says that it is what
  \<open>ChainDB\<close> computes, where waiting for the Merkle cache of headers to be initialised is left out.  A dictionary
  under construction is a list of items.
\<close>

record header_db =
  hd_backend :: backend
  hd_read_headers :: "int \<Rightarrow> int \<Rightarrow> exn + bytes \<times> int"
  hd_branch_and_root :: "int \<Rightarrow> int \<Rightarrow> exn + bytes list \<times> bytes"
  hd_header_len :: "int \<Rightarrow> exn + int"

definition reads_headers :: "header_db \<Rightarrow> (bytes \<Rightarrow> bytes) \<Rightarrow> chain_env \<Rightarrow> 'db chain_db \<Rightarrow> bool" where
  "reads_headers N H C d \<longleftrightarrow>
     be_db_height (hd_backend N) = db_height d \<and> (\<forall>h. be_raw_header (hd_backend N) h = raw_header C h d) \<and>
     (\<forall>start n. hd_read_headers N start n = read_headers C start n d) \<and>
     (\<forall>len height r. header_branch_and_root H C len height d = Some r \<longrightarrow>
        hd_branch_and_root N len height = bindE r (\<lambda>(_, branch, rt). Inr (branch, rt))) \<and>
     (\<forall>h. hd_header_len N h = dynamic_header_len C h d)"

definition MAX_CHUNK_SIZE :: int where
  "MAX_CHUNK_SIZE = 2016"

definition merkle_proof :: "header_db \<Rightarrow> int \<Rightarrow> int \<Rightarrow> session_exn + (string \<times> json) list" where
  "merkle_proof N cp_height height =
     (let max_height = be_db_height (hd_backend N) in
      if \<not> (height \<le> cp_height \<and> cp_height \<le> max_height) then Inl bad_request
      else bindE (from_py (hd_branch_and_root N (cp_height + 1) height)) (\<lambda>(branch, rt).
        Inr [(''branch'', JList (map (\<lambda>elt. JStr (hash_to_hex_str elt)) branch)), (''root'', JStr (hash_to_hex_str rt))]))"

definition block_header :: "header_db \<Rightarrow> json \<Rightarrow> json \<Rightarrow> json act" where
  "block_header N height cp_height =
     bindS (liftS (non_negative_integer height)) (\<lambda>height.
     bindS (liftS (non_negative_integer cp_height)) (\<lambda>cp_height.
     bindS (liftS (mgr_raw_header (hd_backend N) height)) (\<lambda>raw.
     bindS (bump_cost (1.25 - of_bool (cp_height = 0))) (\<lambda>_.
     if cp_height = 0 then returnS (JStr (hex_encode raw))
     else bindS (liftS (merkle_proof N cp_height height)) (\<lambda>items.
       returnS (JDict ((''header'', JStr (hex_encode raw)) # items)))))))"

definition block_headers :: "header_db \<Rightarrow> json \<Rightarrow> json \<Rightarrow> json \<Rightarrow> (string \<times> json) list act" where
  "block_headers N start_height n cp_height =
     bindS (liftS (non_negative_integer start_height)) (\<lambda>start_height.
     bindS (liftS (non_negative_integer n)) (\<lambda>n.
     bindS (liftS (non_negative_integer cp_height)) (\<lambda>cp_height.
     let cost = of_int n / 50; n = min n MAX_CHUNK_SIZE in
     bindS (liftS (from_py (hd_read_headers N start_height n))) (\<lambda>(headers, n).
     let result = [(''hex'', JStr (hex_encode headers)), (''count'', JInt n), (''max'', JInt MAX_CHUNK_SIZE)] in
     if n \<noteq> 0 \<and> cp_height \<noteq> 0 then
       bindS (liftS (merkle_proof N cp_height (start_height + n - 1))) (\<lambda>items.
       bindS (bump_cost (cost + 1.0)) (\<lambda>_. returnS (result @ items)))
     else bindS (bump_cost cost) (\<lambda>_. returnS result)))))"

subsection \<open>Merged mining\<close>

text \<open>
  The loop of \<open>truncate_auxpow\<close>; it would not end if a header had no length, so it is a partial function and that is
  \<open>None\<close>.  The height it counts from is the argument of the request as it came: anything but an integer
  fails when the database computes with it, which is given as \<open>TypeError\<close>.
\<close>

partial_function (option) truncate_loop ::
  "(int \<Rightarrow> exn + int) \<Rightarrow> nat \<Rightarrow> bytes \<Rightarrow> int \<Rightarrow> int \<Rightarrow> bytes \<Rightarrow> (exn + bytes) option" where
  "truncate_loop len_at keep headers_full height cursor headers =
     (if cursor < int (length headers_full)
      then
        let headers = headers @ py_slice headers_full cursor (cursor + int keep) in
        (case len_at height of
           Inl e \<Rightarrow> Some (Inl e)
         | Inr n \<Rightarrow> truncate_loop len_at keep headers_full (height + 1) (cursor + n) headers)
      else Some (Inr headers))"



definition truncate_auxpow :: "header_db \<Rightarrow> nat \<Rightarrow> string \<Rightarrow> json \<Rightarrow> (session_exn + string) option" where
  "truncate_auxpow N keep headers_full_hex start_height =
     (case hex_to_bytes headers_full_hex of
        Inl e \<Rightarrow> Some (Inl (PyError e))
      | Inr [] \<Rightarrow> Some (Inr [])
      | Inr (b # bs) \<Rightarrow>
          (case int_value start_height of
             None \<Rightarrow> Some (Inl (PyError TypeError))
           | Some height \<Rightarrow> map_option (\<lambda>r. from_py (bindE r (\<lambda>h. Inr (hex_encode h))))
               (truncate_loop (hd_header_len N) keep (b # bs) height 0 [])))"

text \<open>\<open>cp_height == 0\<close> on the argument as it came.\<close>

definition json_is_zero :: "json \<Rightarrow> bool" where
  "json_is_zero v \<longleftrightarrow> json_bool v = Some False"

definition set_item :: "string \<Rightarrow> json \<Rightarrow> json \<Rightarrow> session_exn + json" where
  "set_item k v d = (case d of JDict items \<Rightarrow> Inr (JDict (AList.update k v items)) | _ \<Rightarrow> Inl (PyError TypeError))"

text \<open>What \<open>AuxPoWElectrumX\<close> makes of the answer of its base class; \<open>key\<close> is \<open>header\<close> or \<open>hex\<close>.\<close>

definition auxpow_result :: "header_db \<Rightarrow> nat \<Rightarrow> version \<Rightarrow> string \<Rightarrow> json \<Rightarrow> json \<Rightarrow> json \<Rightarrow> (session_exn + json) option" where
  "auxpow_result N keep ptuple key height cp_height result =
     (if ptuple < [1, 4, 1] then Some (Inr result)
      else if json_is_zero cp_height then Some (Inr result)
      else case result of
        JDict items \<Rightarrow>
          (case map_of items key of
             Some (JStr full) \<Rightarrow>
               map_option (\<lambda>r. bindE r (\<lambda>h. set_item key (JStr h) result)) (truncate_auxpow N keep full height)
           | _ \<Rightarrow> Some (Inl (PyError KeyError)))
      | _ \<Rightarrow> Some (Inl (PyError TypeError)))"

definition auxpow_block_header :: "header_db \<Rightarrow> nat \<Rightarrow> json \<Rightarrow> json \<Rightarrow> client_session \<times> manager \<Rightarrow>
    ((session_exn + json) \<times> client_session \<times> manager) option" where
  "auxpow_block_header N keep height cp_height st =
     (case block_header N height cp_height st of
        (Inl e, st) \<Rightarrow> Some (Inl e, st)
      | (Inr result, s, m) \<Rightarrow>
          map_option (\<lambda>r. (r, s, m)) (auxpow_result N keep (protocol s) ''header'' height cp_height result))"

definition auxpow_block_headers :: "header_db \<Rightarrow> nat \<Rightarrow> json \<Rightarrow> json \<Rightarrow> json \<Rightarrow> client_session \<times> manager \<Rightarrow>
    ((session_exn + json) \<times> client_session \<times> manager) option" where
  "auxpow_block_headers N keep start_height n cp_height st =
     (case block_headers N start_height n cp_height st of
        (Inl e, st) \<Rightarrow> Some (Inl e, st)
      | (Inr result, s, m) \<Rightarrow>
          map_option (\<lambda>r. (r, s, m)) (auxpow_result N keep (protocol s) ''hex'' start_height cp_height (JDict result)))"

end
