(* ===== verification/SessionHeaderFacts.thy ===== *)
theory SessionHeaderFacts
  imports SessionHeaders
begin

section \<open>Headers are served with proofs that verify\<close>

text \<open>The block hashes the database reads are a source of the Merkle cache.\<close>

lemma header_source:
  assumes "fs_rep C d hs blks" "db_height d = fs_height d"
  shows "hash_source (\<lambda>start n. fs_block_hashes C (int start) (int n) d) (map (header_hash C) hs)"
proof
  fix start n assume "start + n \<le> length (map (header_hash C) hs)"
  then have "start + n \<le> length hs" by simp
  from fs_block_hashes_spec [OF assms this]
  show "fs_block_hashes C (int start) (int n) d = Inr (slice (map (header_hash C) hs) start (start + n))"
    by (simp add: slice_def take_map drop_map)
qed

lemma length_headers: "fs_rep C d hs blks \<Longrightarrow> db_height d = fs_height d \<Longrightarrow> db_height d = int (length hs) - 1"
  by (simp add: fs_rep_def)

lemma raw_header_files:
  assumes "fs_rep C d hs blks" "db_height d = fs_height d" "0 \<le> height"
  shows "raw_header C height d = (if nat height < length hs then Inr (hs ! nat height) else Inl IndexError)"
proof (cases "nat height < length hs")
  case True
  then have "take 1 (drop (nat height) hs) = [hs ! nat height]" by (simp add: take_Suc_conv_app_nth Cons_nth_drop_Suc [symmetric])
  then show ?thesis using fs_read_headers [OF assms, of 1] True by (simp add: raw_header_def)
next
  case False
  then show ?thesis using fs_read_headers [OF assms, of 1] by (simp add: raw_header_def)
qed

lemma merkle_proof_right:
  assumes "reads_headers N H C d" "fs_rep C d hs blks" "db_height d = fs_height d"
    and "mc_inv H (map (header_hash C) hs) (header_mc d)" "mc_initialized (header_mc d)"
    and "0 \<le> height" "height \<le> cp_height" "nat cp_height < length hs"
  shows "\<exists>branch rt. merkle_proof N cp_height height =
      Inr [(''branch'', JList (map (\<lambda>elt. JStr (hash_to_hex_str elt)) branch)), (''root'', JStr (hash_to_hex_str rt))] \<and>
    root_from_proof H (header_hash C (hs ! nat height)) branch height = Inr rt \<and>
    merkle_root H (map (header_hash C) (take (nat cp_height + 1) hs)) None = Inr rt"
proof -
  let ?full = "map (header_hash C) hs" and ?n = "nat cp_height + 1"
  let ?hs = "take ?n ?full"
  have ineq: "nat height < ?n" "?n \<le> length ?full" using assms(6-8) by auto
  then have i: "nat height < length ?hs" by simp
  obtain branch rt where br: "branch_and_root H ?hs (int (nat height)) None = Inr (branch, rt)"
    using branch_and_root_natural [OF i] by blast
  obtain c' where "mc_branch_and_root H (\<lambda>start n. fs_block_hashes C (int start) (int n) d) (header_mc d) (int ?n) (int (nat height)) =
      Some (bindE (branch_and_root H ?hs (int (nat height)) None) (\<lambda>br. Inr (c', br)))"
    using hash_source.branch_and_root_correct [OF header_source [OF assms(2,3)] assms(4,5) ineq] by blast
  moreover have nn: "int ?n = cp_height + 1" "int (nat height) = height" using assms(6,7) by auto
  ultimately have "header_branch_and_root H C (cp_height + 1) height d = Some (Inr (d\<lparr>header_mc := c'\<rparr>, branch, rt))"
    using br by (simp add: header_branch_and_root_def add.commute [of 1])
  then have hb: "hd_branch_and_root N (cp_height + 1) height = Inr (branch, rt)"
    using assms(1) by (simp add: reads_headers_def)
  have max: "cp_height \<le> be_db_height (hd_backend N)"
    using assms(1,6-8) length_headers [OF assms(2,3)] by (simp add: reads_headers_def)
  have "merkle_proof N cp_height height =
      Inr [(''branch'', JList (map (\<lambda>elt. JStr (hash_to_hex_str elt)) branch)), (''root'', JStr (hash_to_hex_str rt))]"
    using hb max assms(7) by (simp add: merkle_proof_def)
  moreover have "root_from_proof H (header_hash C (hs ! nat height)) branch height = Inr rt" "merkle_root H ?hs None = Inr rt"
    using branch_verifies [OF br, unfolded nn(2)] ineq by simp_all
  ultimately show ?thesis by (auto simp: take_map)
qed

text \<open>C13: A client that asks for a header up to a checkpoint gets that header and a branch that verifies its hash
  against the Merkle root of all the block hashes up to the checkpoint, which it also gets; it is refused
  exactly when the header is above the checkpoint or the checkpoint above the chain.\<close>

theorem checkpoint_proof_verifies:
  assumes "reads_headers N H C d" "fs_rep C d hs blks" "db_height d = fs_height d"
    and "mc_inv H (map (header_hash C) hs) (header_mc d)" "mc_initialized (header_mc d)"
    and "non_negative_integer h = Inr height" "non_negative_integer cp = Inr cp_height" "cp_height \<noteq> 0"
  shows "if height \<le> cp_height \<and> nat cp_height < length hs
    then \<exists>branch rt. fst (block_header N h cp st) =
        Inr (JDict [(''header'', JStr (hex_encode (hs ! nat height))),
                    (''branch'', JList (map (\<lambda>elt. JStr (hash_to_hex_str elt)) branch)), (''root'', JStr (hash_to_hex_str rt))]) \<and>
      root_from_proof H (header_hash C (hs ! nat height)) branch height = Inr rt \<and>
      merkle_root H (map (header_hash C) (take (nat cp_height + 1) hs)) None = Inr rt
    else fst (block_header N h cp st) = Inl bad_request"
proof -
  obtain s m where st: "st = (s, m)" by (cases st)
  have pos: "0 \<le> height" "0 \<le> cp_height" using assms(6,7) by (simp_all add: non_negative_integer_Inr)
  have raw: "mgr_raw_header (hd_backend N) height = (if nat height < length hs then Inr (hs ! nat height) else Inl bad_request)"
    using assms(1) raw_header_files [OF assms(2,3) pos(1)] by (simp add: mgr_raw_header_def reads_headers_def)
  have run: "fst (block_header N h cp st) =
      (if nat height < length hs then bindE (merkle_proof N cp_height height) (\<lambda>items. Inr (JDict ((''header'', JStr (hex_encode (hs ! nat height))) # items)))
       else Inl bad_request)"
    using assms(6-8) raw by (cases "merkle_proof N cp_height height") (simp_all add: block_header_def bindS_def liftS_def act_simps st)
  show ?thesis
  proof (cases "height \<le> cp_height \<and> nat cp_height < length hs")
    case True
    then have "nat height < length hs" using pos by linarith
    moreover obtain branch rt where "merkle_proof N cp_height height =
        Inr [(''branch'', JList (map (\<lambda>elt. JStr (hash_to_hex_str elt)) branch)), (''root'', JStr (hash_to_hex_str rt))]"
      "root_from_proof H (header_hash C (hs ! nat height)) branch height = Inr rt"
      "merkle_root H (map (header_hash C) (take (nat cp_height + 1) hs)) None = Inr rt"
      using merkle_proof_right [OF assms(1-5) pos(1)] True by blast
    ultimately show ?thesis using True unfolding run by (simp, blast)
  next
    case False
    have "merkle_proof N cp_height height = Inl bad_request"
      using False assms(1) length_headers [OF assms(2,3)] pos by (auto simp: merkle_proof_def reads_headers_def)
    then show ?thesis using False unfolding run by auto
  qed
qed

definition sample_headers :: "unit chain_db \<Rightarrow> header_db" where
  "sample_headers d = \<lparr>hd_backend = (sample_backend 0 [])\<lparr>be_db_height := db_height d, be_raw_header := (\<lambda>h. raw_header sample_env h d)\<rparr>,
     hd_read_headers = (\<lambda>start n. read_headers sample_env start n d),
     hd_branch_and_root = (\<lambda>len height. bindE (the (header_branch_and_root (take 1) sample_env len height d)) (\<lambda>(_, b, rt). Inr (b, rt))),
     hd_header_len = (\<lambda>h. dynamic_header_len sample_env h d)\<rparr>"

lemma sample_chain_rep:
  "fs_rep sample_env sample_chain [[1, 2], [3, 4, 5]] sample_blocks" "db_height sample_chain = fs_height sample_chain"
proof -
  have "fs_rep sample_env (sample_chain\<lparr>db_height := -1\<rparr>) [[1, 2], [3, 4, 5]] sample_blocks"
    using flushed_fs_rep [OF sample_rep_counts sample_flushable, of "new_history ()" "()"]
    by (simp add: sample_chain_def flushed_fs_def empty_db_def sample_flush_def)
  then show "fs_rep sample_env sample_chain [[1, 2], [3, 4, 5]] sample_blocks" by (simp add: fs_rep_def)
  show "db_height sample_chain = fs_height sample_chain" by (simp add: sample_chain_def flushed_fs_def sample_flush_def)
qed

theorem checkpoint_proof_verifies_witness:
  "\<exists>d branch rt. fst (block_header (sample_headers d) (JInt 0) (JInt 1) (new_session, new_manager)) =
      Inr (JDict [(''header'', JStr (hex_encode [1, 2])),
                  (''branch'', JList (map (\<lambda>elt. JStr (hash_to_hex_str elt)) branch)), (''root'', JStr (hash_to_hex_str rt))]) \<and>
    root_from_proof (take 1) [1] branch 0 = Inr rt"
proof -
  let ?H = "take 1 :: bytes \<Rightarrow> bytes" and ?hs = "[[1, 2], [3, 4, 5]] :: bytes list"
  note src = header_source [OF sample_chain_rep]
  obtain mc where mc: "mc_inv ?H (map (header_hash sample_env) ?hs) mc" "mc_initialized mc"
    using hash_source.initialize_inv [OF src, of 2 ?H mc_new] by auto
  define d where "d = sample_chain\<lparr>header_mc := mc\<rparr>"
  have rep: "fs_rep sample_env d ?hs sample_blocks" "db_height d = fs_height d"
    using sample_chain_rep by (simp_all add: d_def fs_rep_def)
  have N: "reads_headers (sample_headers d) ?H sample_env d" by (simp add: reads_headers_def sample_headers_def)
  have args: "non_negative_integer (JInt 0) = Inr 0" "non_negative_integer (JInt 1) = Inr 1" "(1 :: int) \<noteq> 0"
    by (simp_all add: non_negative_integer_def)
  have "mc_inv ?H (map (header_hash sample_env) ?hs) (header_mc d)" "mc_initialized (header_mc d)"
    using mc by (simp_all add: d_def)
  from checkpoint_proof_verifies [OF N rep this args, of "(new_session, new_manager)"]
  obtain branch rt where "fst (block_header (sample_headers d) (JInt 0) (JInt 1) (new_session, new_manager)) =
      Inr (JDict [(''header'', JStr (hex_encode [1, 2])),
                  (''branch'', JList (map (\<lambda>elt. JStr (hash_to_hex_str elt)) branch)), (''root'', JStr (hash_to_hex_str rt))])"
    "root_from_proof ?H (header_hash sample_env [1, 2]) branch 0 = Inr rt" by auto
  then show ?thesis by (auto simp: sample_env_def)
qed

subsection \<open>Chunks of headers\<close>

text \<open>A chunk is the headers from the start on, at most 2016 of them, whatever was asked for.\<close>

lemma block_headers_chunk:
  assumes "reads_headers N H C d" "fs_rep C d hs blks" "db_height d = fs_height d"
    and "non_negative_integer a = Inr start" "non_negative_integer k = Inr n" "non_negative_integer cp = Inr 0"
  defines "got \<equiv> take (nat (min n MAX_CHUNK_SIZE)) (drop (nat start) hs)"
  shows "fst (block_headers N a k cp st) = Inr [(''hex'', JStr (hex_encode (concat got))),
     (''count'', JInt (int (length got))), (''max'', JInt MAX_CHUNK_SIZE)]" "length got \<le> 2016"
proof -
  obtain s m where st: "st = (s, m)" by (cases st)
  have pos: "0 \<le> start" "0 \<le> n" using assms(4,5) by (simp_all add: non_negative_integer_Inr)
  have "hd_read_headers N start (min n MAX_CHUNK_SIZE) = Inr (concat got, int (length got))"
    using assms(1) fs_read_headers [OF assms(2,3) pos(1), of "min n MAX_CHUNK_SIZE"] pos(2)
    by (simp add: reads_headers_def got_def MAX_CHUNK_SIZE_def)
  then show "fst (block_headers N a k cp st) = Inr [(''hex'', JStr (hex_encode (concat got))),
     (''count'', JInt (int (length got))), (''max'', JInt MAX_CHUNK_SIZE)]"
    using assms(4-6) by (simp add: block_headers_def bindS_def liftS_def act_simps st Let_def)
  show "length got \<le> 2016" by (simp add: got_def MAX_CHUNK_SIZE_def)
qed

text \<open>Truncating a chunk of headers of the chain, with their merged-mining proofs, leaves the first bytes of each.\<close>

lemma py_slice_mid: "py_slice (xs @ ys) (int (length xs)) (int (length xs) + int k) = take k ys"
  by (simp add: py_slice_def slice_def nat_add_distrib)

lemma truncate_loop_concat:
  assumes "\<And>i. i < length hs \<Longrightarrow> len_at (height + int i) = Inr (int (length (hs ! i)))" "\<forall>h \<in> set hs. keep \<le> length h \<and> h \<noteq> []"
  shows "truncate_loop len_at keep (pre @ concat hs) height (int (length pre)) acc = Some (Inr (acc @ concat (map (take keep) hs)))"
  using assms
proof (induction hs arbitrary: pre height acc)
  case Nil
  then show ?case by (subst truncate_loop.simps) simp
next
  case (Cons h hs)
  have len: "len_at height = Inr (int (length h))" using Cons.prems(1) [of 0] by simp
  have rest: "len_at (height + 1 + int i) = Inr (int (length (hs ! i)))" if "i < length hs" for i
    using Cons.prems(1) [of "Suc i"] that by (simp add: add_ac)
  have "py_slice (pre @ concat (h # hs)) (int (length pre)) (int (length pre) + int keep) = take keep h"
    using Cons.prems(2) by (simp only: py_slice_mid) simp
  then have "truncate_loop len_at keep (pre @ concat (h # hs)) height (int (length pre)) acc =
      truncate_loop len_at keep ((pre @ h) @ concat hs) (height + 1) (int (length (pre @ h))) (acc @ take keep h)"
  proof -
    assume slice: "py_slice (pre @ concat (h # hs)) (int (length pre)) (int (length pre) + int keep) = take keep h"
    have "0 < length h" using Cons.prems(2) by simp
    then have "int (length pre) < int (length (pre @ concat (h # hs)))"
      unfolding of_nat_less_iff length_append concat.simps by linarith
    with slice show ?thesis by (subst truncate_loop.simps) (simp only: if_True Let_def len sum.case length_append of_nat_add append_assoc concat.simps)
  qed
  then show ?case using Cons.IH [OF rest, of "pre @ h" "acc @ take keep h"] Cons.prems(2) by simp
qed

lemma truncate_auxpow_chunk:
  assumes "\<And>i. i < length hs \<Longrightarrow> hd_header_len N (height + int i) = Inr (int (length (hs ! i)))"
    and "\<forall>h \<in> set hs. keep \<le> length h \<and> h \<noteq> []" "hs \<noteq> []"
  shows "truncate_auxpow N keep (hex_encode (concat hs)) (JInt height) = Some (Inr (hex_encode (concat (map (take keep) hs))))"
proof -
  obtain b bs where b: "concat hs = b # bs" using assms(2,3) by (cases "concat hs") auto
  then show ?thesis
    using truncate_loop_concat [OF assms(1,2), of "[]" "[]"] by (simp add: truncate_auxpow_def hex_to_bytes_encode)
qed

text \<open>The height is not converted as the other handlers convert it: a string, which the base class takes, fails here.\<close>

lemma auxpow_height_not_converted:
  assumes "non_negative_integer (JStr h) = Inr height" "concat hs \<noteq> []"
  shows "truncate_auxpow N keep (hex_encode (concat hs)) (JStr h) = Some (Inl (PyError TypeError))"
  using assms(2) by (cases "concat hs") (simp_all add: truncate_auxpow_def hex_to_bytes_encode)

end
