(* ===== verification/SessionProtocol.thy ===== *)
theory SessionProtocol
  imports SessionHeaders Coins
begin

section \<open>The protocol of a session (SessionBase, ElectrumX and its subclasses of server/session.py)\<close>

text \<open>
  Dispatching requests, negotiating the protocol version and the handlers that ask the daemon.  The record \<open>node\<close>
  has what a session reads of its surroundings: the daemon (a function of the method and its arguments), the tip of
  the block processor, the settings, the class of the coin, and \<open>str()\<close> of a JSON value.
\<close>

record node =
  nd_daemon :: "string \<Rightarrow> json list \<Rightarrow> daemon_exn + json"
  nd_tip :: bytes
  nd_db_height :: int
  nd_str :: "json \<Rightarrow> string"
  nd_version :: string
  nd_drop_client :: "(string \<Rightarrow> bool) option"
  nd_drop_unknown :: bool
  nd_donation_address :: string
  nd_crash_client_ver :: "version option"
  nd_warn_old_client :: "version \<Rightarrow> string option"
  nd_fee_modes :: "json list"
  nd_fee_bucket :: "int \<Rightarrow> int"
  nd_sha256 :: "bytes \<Rightarrow> bytes"

definition PROTOCOL_MIN :: version where "PROTOCOL_MIN = [1, 4]"
definition PROTOCOL_MAX :: version where "PROTOCOL_MAX = [1, 4, 3]"

subsection \<open>Requests\<close>

datatype session_class = ElectrumX | DashElectrumX | SmartCashElectrumX | AuxPoWElectrumX | NameIndexElectrumX | NameIndexAuxPoWElectrumX

definition electrumx_methods :: "version \<Rightarrow> string list" where
  "electrumx_methods ptuple =
     [''blockchain.block.header'', ''blockchain.block.headers'', ''blockchain.estimatefee'', ''blockchain.headers.subscribe'',
      ''blockchain.relayfee'', ''blockchain.scripthash.get_balance'', ''blockchain.scripthash.get_history'',
      ''blockchain.scripthash.get_mempool'', ''blockchain.scripthash.listunspent'', ''blockchain.scripthash.subscribe'',
      ''blockchain.transaction.broadcast'', ''blockchain.transaction.get'', ''blockchain.transaction.get_merkle'',
      ''blockchain.transaction.id_from_pos'', ''mempool.get_fee_histogram'', ''server.add_peer'', ''server.banner'',
      ''server.donation_address'', ''server.features'', ''server.peers.subscribe'', ''server.ping'', ''server.version'']
     @ (if ptuple \<ge> [1, 4, 2] then [''blockchain.scripthash.unsubscribe''] else [])
     @ [''blockchain.transaction.broadcast_package'']"

definition dash_methods :: "string list" where
  "dash_methods = [''masternode.announce.broadcast'', ''masternode.subscribe'', ''masternode.list'', ''protx.diff'', ''protx.info'']"

text \<open>The methods \<open>set_request_handlers\<close> leaves in the dictionary of a session.\<close>

definition request_methods :: "session_class \<Rightarrow> version \<Rightarrow> string list" where
  "request_methods cls ptuple =
     electrumx_methods ptuple @
     (case cls of
        DashElectrumX \<Rightarrow> dash_methods
      | SmartCashElectrumX \<Rightarrow> dash_methods @ [''smartrewards.current'', ''smartrewards.check'']
      | NameIndexElectrumX \<Rightarrow> (if ptuple \<ge> [1, 4, 3] then [''blockchain.name.get_value_proof''] else [])
      | NameIndexAuxPoWElectrumX \<Rightarrow> (if ptuple \<ge> [1, 4, 3] then [''blockchain.name.get_value_proof''] else [])
      | _ \<Rightarrow> [])"

text \<open>\<open>handle_request\<close> up to the call of the handler: the method counted, or the refusal.  \<open>None\<close> as a method is a
  notification, which has no handler.\<close>

definition count_request :: "node \<Rightarrow> session_class \<Rightarrow> client_session \<Rightarrow> string option \<Rightarrow> (string \<times> nat) list \<Rightarrow>
    session_exn + string option \<times> (string \<times> nat) list" where
  "count_request N cls s request counts =
     (let handler = (case request of Some m \<Rightarrow> if m \<in> set (request_methods cls (protocol s)) then Some m else None | None \<Rightarrow> None);
          m = (case handler of None \<Rightarrow> ''invalid method'' | Some m \<Rightarrow> m)
      in if nd_drop_unknown N \<and> m \<noteq> ''server.version'' \<and> client s = ''unknown'' then Inl (ReplyAndDisconnect BAD_REQUEST)
         else Inr (handler, AList.update m ((case map_of counts m of None \<Rightarrow> 0 | Some n \<Rightarrow> n) + 1) counts))"

subsection \<open>The handshake\<close>

fun json_pyval :: "json \<Rightarrow> pyval" where
  "json_pyval JNull = PyNone"
| "json_pyval (JBool b) = PyBool b"
| "json_pyval (JInt i) = PyInt i"
| "json_pyval (JStr s) = PyStr s"
| "json_pyval (JList l) = PyList (map json_pyval l)"
| "json_pyval _ = PyBool False"

text \<open>\<open>crash_old_client\<close>; \<open>None\<close> is less than no version: \<open>ptuple is None or ptuple <= (1, 2)\<close>.\<close>

definition crash_old_client :: "node \<Rightarrow> version option \<Rightarrow> unit act" where
  "crash_old_client N ptuple =
     (case nd_crash_client_ver N of
        Some (v # vs) \<Rightarrow>
          bindS (getS client) (\<lambda>name.
          let client_ver = protocol_tuple (PyStr name);
              is_old_protocol = (case ptuple of None \<Rightarrow> True | Some p \<Rightarrow> p \<le> [1, 2]);
              is_old_client = (client_ver \<noteq> [0] \<and> client_ver \<le> v # vs)
          in if is_old_protocol \<and> is_old_client
             then bindS (send_notification ''blockchain.relayfee'' []) (\<lambda>_. send_notification ''blockchain.estimatefee'' [])
             else returnS ())
      | _ \<Rightarrow> returnS ())"

definition server_version :: "node \<Rightarrow> json \<Rightarrow> json \<Rightarrow> (string \<times> string) act" where
  "server_version N client_name protocol_req =
     bindS (bump_cost 0.5) (\<lambda>_.
     bindS (getS sv_seen) (\<lambda>seen.
     if seen then raiseS bad_request
     else
       bindS (modS (\<lambda>s. s\<lparr>sv_seen := True\<rparr>)) (\<lambda>_.
       bindS (if truthy client_name then
                let name = nd_str N client_name in
                if (case nd_drop_client N of None \<Rightarrow> False | Some dropped \<Rightarrow> dropped name) then raiseS (ReplyAndDisconnect BAD_REQUEST)
                else modS (\<lambda>s. s\<lparr>client := take 17 name\<rparr>)
              else returnS ()) (\<lambda>_.
       let (ptuple, client_min) = protocol_version (json_pyval protocol_req) PROTOCOL_MIN PROTOCOL_MAX in
       bindS (crash_old_client N ptuple) (\<lambda>_.
       case ptuple of
         None \<Rightarrow> raiseS (ReplyAndDisconnect BAD_REQUEST)
       | Some v \<Rightarrow>
           bindS (modS (\<lambda>s. s\<lparr>protocol := v\<rparr>)) (\<lambda>_.
           returnS (nd_version N, version_string v)))))))"

definition ping :: "unit act" where
  "ping = bump_cost 0.1"

definition donation_address :: "node \<Rightarrow> string act" where
  "donation_address N = bindS (bump_cost 0.1) (\<lambda>_. returnS (nd_donation_address N))"

subsection \<open>Asking the daemon\<close>

definition daemon_request :: "node \<Rightarrow> string \<Rightarrow> json list \<Rightarrow> session_exn + json" where
  "daemon_request N m args =
     (case nd_daemon N m args of
        Inr j \<Rightarrow> Inr j
      | Inl (DaemonError _) \<Rightarrow> Inl (RPCError DAEMON_ERROR)
      | Inl (PyExn e) \<Rightarrow> Inl (PyError e))"

definition relayfee_request :: "node \<Rightarrow> json act" where
  "relayfee_request N = bindS (bump_cost 1.0) (\<lambda>_. liftS (daemon_request N ''relayfee'' []))"

text \<open>The cache of fees: a block hash and a rate, or neither while a request for them is under way.  The request is
  modelled as running undisturbed, so the lock is free.\<close>

type_synonym fee_cache = "(int \<times> json, bytes option \<times> json) lru_cache"

definition ask_fee :: "node \<Rightarrow> int \<Rightarrow> json \<Rightarrow> fee_cache \<Rightarrow> (session_exn + json) \<times> fee_cache" where
  "ask_fee N number mode c =
     (case daemon_request N ''estimatefee'' (if truthy mode then [JInt number, mode] else [JInt number]) of
        Inl e \<Rightarrow> (Inl e, c)
      | Inr feerate \<Rightarrow>
          if feerate = JNull then (Inl (PyError AssertionError), c)
          else case lru_setitem one c (number, mode) (Some (nd_tip N), feerate) of
            Inl e \<Rightarrow> (Inl (PyError e), c)
          | Inr c \<Rightarrow> (Inr feerate, c))"

definition estimatefee_cached :: "node \<Rightarrow> int \<Rightarrow> json \<Rightarrow> fee_cache \<Rightarrow> exn + json option \<times> fee_cache" where
  "estimatefee_cached N number mode c =
     bindE (lru_get c (number, mode) None) (\<lambda>(item, c).
       case item of
         Some (Some blockhash, feerate) \<Rightarrow>
           Inr (if blockhash \<noteq> [] \<and> blockhash = nd_tip N then Some feerate else None, c)
       | Some (None, _) \<Rightarrow> Inr (None, c)
       | None \<Rightarrow> bindE (lru_setitem one c (number, mode) (None, JNull)) (\<lambda>c. Inr (None, c)))"

definition estimatefee_request :: "node \<Rightarrow> json \<Rightarrow> json \<Rightarrow> fee_cache \<Rightarrow>
    client_session \<times> manager \<Rightarrow> ((session_exn + json) \<times> fee_cache) \<times> client_session \<times> manager" where
  "estimatefee_request N number mode c st =
     (case non_negative_integer number of
        Inl e \<Rightarrow> ((Inl e, c), st)
      | Inr number \<Rightarrow>
          if mode \<notin> set (nd_fee_modes N) then ((Inl bad_request, c), st)
          else
            let (_, st) = bump_cost 0.1 st; number = nd_fee_bucket N number in
            case estimatefee_cached N number mode c of
              Inl e \<Rightarrow> ((Inl (PyError e), c), st)
            | Inr (Some feerate, c) \<Rightarrow> ((Inr feerate, c), st)
            | Inr (None, c) \<Rightarrow>
                (case lru_get c (number, mode) None of
                   Inl e \<Rightarrow> ((Inl (PyError e), c), st)
                 | Inr (item, c) \<Rightarrow>
                     (case item of
                        Some (Some blockhash, feerate) \<Rightarrow>
                          if blockhash = nd_tip N then ((Inr feerate, c), st)
                          else (let (_, st) = bump_cost 2.0 st in (ask_fee N number mode c, st))
                      | _ \<Rightarrow> (let (_, st) = bump_cost 2.0 st in (ask_fee N number mode c, st)))))"

subsection \<open>Transactions\<close>

definition transaction_get :: "node \<Rightarrow> json \<Rightarrow> json \<Rightarrow> json act" where
  "transaction_get N tx_hash verbose =
     bindS (liftS (assert_tx_hash tx_hash)) (\<lambda>_.
     if json_bool verbose = None then raiseS bad_request
     else bindS (bump_cost 1.0) (\<lambda>_. liftS (daemon_request N ''getrawtransaction'' [tx_hash, verbose])))"

definition count_sent :: "nat \<Rightarrow> unit act" where
  "count_sent n = (\<lambda>(s, m). (Inr (), s\<lparr>sess_txs_sent := sess_txs_sent s + n\<rparr>, m\<lparr>mgr_txs_sent := mgr_txs_sent m + n\<rparr>))"

text \<open>\<open>error, = e.args; message = error['message']\<close>: the arguments of the error must be one dictionary with a message,
  otherwise \<open>ValueError\<close> or \<open>KeyError\<close> is raised in place of the reply.\<close>

definition rejection :: "(string \<times> json) list list \<Rightarrow> session_exn" where
  "rejection args =
     (case args of
        [error] \<Rightarrow> (if map_of error ''message'' = None then PyError KeyError else bad_request)
      | _ \<Rightarrow> PyError ValueError)"

text \<open>The argument is a string: of anything else the length or the call of the daemon fails.\<close>

definition transaction_broadcast :: "node \<Rightarrow> string \<Rightarrow> json act" where
  "transaction_broadcast N raw_tx =
     bindS (bump_cost (0.25 + real (length raw_tx) / 5000)) (\<lambda>_.
       case nd_daemon N ''broadcast_transaction'' [JStr raw_tx] of
         Inl (DaemonError args) \<Rightarrow> raiseS (rejection args)
       | Inl (PyExn e) \<Rightarrow> raiseS (PyError e)
       | Inr hex_hash \<Rightarrow>
           bindS (count_sent 1) (\<lambda>_.
           bindS (getS client) (\<lambda>name.
           let client_ver = protocol_tuple (PyStr name) in
           if client_ver \<noteq> [0] then
             (case nd_warn_old_client N client_ver of
                Some (c # cs) \<Rightarrow> returnS (JStr (c # cs))
              | _ \<Rightarrow> returnS hex_hash)
           else returnS hex_hash)))"

text \<open>The identifiers are only used in messages; \<open>double_sha256\<close> is shown unreversed.\<close>

definition package_txids :: "node \<Rightarrow> string list \<Rightarrow> exn + string list" where
  "package_txids N tx_package = mapE (\<lambda>tx. bindE (hex_to_bytes tx) (\<lambda>raw. Inr (hex_encode (nd_sha256 N (nd_sha256 N raw))))) tx_package"

definition dict_items :: "json \<Rightarrow> session_exn + (string \<times> json) list" where
  "dict_items j = (case j of JDict d \<Rightarrow> Inr d | _ \<Rightarrow> Inl (PyError AttributeError))"

definition item_or_null :: "(string \<times> json) list \<Rightarrow> string \<Rightarrow> json" where
  "item_or_null d k = json_opt (map_of d k)"

definition package_errors :: "(string \<times> json) list \<Rightarrow> session_exn + json list" where
  "package_errors daemon_result =
     bindE (dict_items (case map_of daemon_result ''tx-results'' of None \<Rightarrow> JDict [] | Some j \<Rightarrow> j)) (\<lambda>results.
     bindE (mapE (\<lambda>(_, tx). dict_items tx) results) (\<lambda>txs.
       Inr (map (\<lambda>tx. JDict [(''txid'', item_or_null tx ''txid''), (''error'', item_or_null tx ''error'')])
         (filter (\<lambda>tx. truthy (item_or_null tx ''error'')) txs))))"

definition package_result :: "json \<Rightarrow> session_exn + json" where
  "package_result daemon_result =
     bindE (dict_items daemon_result) (\<lambda>d.
     bindE (package_errors d) (\<lambda>errors.
     let package_msg = (case map_of d ''package_msg'' of Some j \<Rightarrow> j | None \<Rightarrow> item_or_null d ''package-msg'') in
     Inr (JDict ((''success'', JBool (package_msg = JStr ''success'')) #
                 (if errors \<noteq> [] then [(''errors'', JList errors)] else [])))))"

definition package_broadcast :: "node \<Rightarrow> string list \<Rightarrow> json \<Rightarrow> json act" where
  "package_broadcast N tx_package verbose =
     bindS (bump_cost (0.25 + sum_list (map (\<lambda>tx. real (length tx) / 5000) tx_package))) (\<lambda>_.
       case package_txids N tx_package of
         Inl e \<Rightarrow> raiseS bad_request
       | Inr txids \<Rightarrow>
           (case nd_daemon N ''broadcast_package'' [JList (map JStr tx_package)] of
              Inl (DaemonError args) \<Rightarrow> raiseS (rejection args)
            | Inl (PyExn e) \<Rightarrow> raiseS (PyError e)
            | Inr daemon_result \<Rightarrow>
                bindS (count_sent (length tx_package)) (\<lambda>_.
                if truthy verbose then returnS daemon_result else liftS (package_result daemon_result))))"

subsection \<open>What the server says of itself\<close>

record service =
  sv_protocol :: string
  sv_host :: string
  sv_port :: int

definition service_string :: "service \<Rightarrow> string" where
  "service_string sv = sv_protocol sv @ ''://'' @ sv_host sv @ '':'' @ show_int (sv_port sv)"

text \<open>The guard looks for the name of the protocol among keys that end in \<open>_port\<close>, so it is always true.\<close>

definition add_service :: "service \<Rightarrow> (string \<times> (string \<times> json) list) list \<Rightarrow> (string \<times> (string \<times> json) list) list" where
  "add_service sv hosts =
     (let port_dict = (case map_of hosts (sv_host sv) of None \<Rightarrow> [] | Some d \<Rightarrow> d) in
      AList.update (sv_host sv)
        (if map_of port_dict (sv_protocol sv) = None
         then AList.update (sv_protocol sv @ ''_port'') (JInt (sv_port sv)) port_dict else port_dict) hosts)"

definition server_features :: "node \<Rightarrow> string \<Rightarrow> service list \<Rightarrow> json" where
  "server_features N genesis_hex report_services =
     JDict [(''hosts'', JDict (map (\<lambda>(h, d). (h, JDict d)) (fold add_service report_services []))),
            (''pruning'', JNull), (''server_version'', JStr (nd_version N)),
            (''protocol_min'', JStr (version_string PROTOCOL_MIN)), (''protocol_max'', JStr (version_string PROTOCOL_MAX)),
            (''genesis_hash'', JStr genesis_hex), (''hash_function'', JStr ''sha256''),
            (''services'', JList (map (\<lambda>sv. JStr (service_string sv)) report_services))]"

definition server_features_request :: "node \<Rightarrow> string \<Rightarrow> service list \<Rightarrow> json act" where
  "server_features_request N genesis_hex report_services =
     bindS (bump_cost 0.2) (\<lambda>_. returnS (server_features N genesis_hex report_services))"

definition server_version_args :: "node \<Rightarrow> json" where
  "server_version_args N =
     JList [JStr (nd_version N), JList [JStr (version_string PROTOCOL_MIN), JStr (version_string PROTOCOL_MAX)]]"

text \<open>\<open>banner.replace(*pair)\<close> for a pattern that is not empty, and the banner with the daemon's version in it.\<close>

function replace_all :: "string \<Rightarrow> string \<Rightarrow> string \<Rightarrow> string" where
  "replace_all old new str =
     (if str = [] \<or> old = [] then str
      else if prefix old str then new @ replace_all old new (drop (length old) str)
      else hd str # replace_all old new (tl str))"
  by pat_completeness auto
termination
  by (relation "measure (\<lambda>(_, _, s). length s)") auto

declare replace_all.simps [simp del]

definition daemon_version_string :: "int \<Rightarrow> string" where
  "daemon_version_string ni_version =
     (let major = ni_version div 1000000; minor = ni_version mod 1000000; rev = (minor mod 10000) div 100; minor = minor div 10000
      in show_int major @ ''.'' @ show_int minor @ ''.'' @ show_int rev)"

definition replaced_banner :: "node \<Rightarrow> string \<Rightarrow> string \<Rightarrow> session_exn + string" where
  "replaced_banner N version_short banner =
     bindE (daemon_request N ''getnetworkinfo'' []) (\<lambda>info.
     bindE (dict_items info) (\<lambda>network_info.
       case (map_of network_info ''version'', map_of network_info ''subversion'') of
         (Some (JInt ni_version), Some (JStr subversion)) \<Rightarrow>
           Inr (fold (\<lambda>(old, new) b. replace_all old new b)
             [(''$SERVER_VERSION'', version_short), (''$SERVER_SUBVERSION'', nd_version N),
              (''$DAEMON_VERSION'', daemon_version_string ni_version), (''$DAEMON_SUBVERSION'', subversion),
              (''$DONATION_ADDRESS'', nd_donation_address N)] banner)
       | (None, _) \<Rightarrow> Inl (PyError KeyError)
       | (_, None) \<Rightarrow> Inl (PyError KeyError)
       | _ \<Rightarrow> Inl (PyError TypeError)))"

text \<open>\<open>banner\<close>; the contents of the file, if one is configured and can be read, are an argument.\<close>

definition banner_request :: "node \<Rightarrow> string \<Rightarrow> string option \<Rightarrow> string act" where
  "banner_request N version_short file =
     bindS (bump_cost 0.5) (\<lambda>_.
       case file of
         None \<Rightarrow> returnS (''You are connected to an '' @ nd_version N @ '' server.'')
       | Some banner \<Rightarrow> liftS (replaced_banner N version_short banner))"

subsection \<open>Peers and fees\<close>

text \<open>What the peer manager and the mempool answer are arguments; their operations are in Peers and FeeHistogram.\<close>

definition add_peer_request :: "(json \<Rightarrow> session_exn + json) \<Rightarrow> json \<Rightarrow> json act" where
  "add_peer_request on_add feats =
     bindS (modS (\<lambda>s. s\<lparr>is_peer := True\<rparr>)) (\<lambda>_. bindS (bump_cost 100.0) (\<lambda>_. liftS (on_add feats)))"

definition peers_subscribe_request :: "(bool \<Rightarrow> session_exn + json) \<Rightarrow> bool \<Rightarrow> json act" where
  "peers_subscribe_request on_subscribe over_tor = bindS (bump_cost 1.0) (\<lambda>_. liftS (on_subscribe over_tor))"

definition fee_histogram_request :: "json \<Rightarrow> json act" where
  "fee_histogram_request histogram = bindS (bump_cost 1.0) (\<lambda>_. returnS histogram)"

subsection \<open>Names\<close>

text \<open>The loop of \<open>name_get_value_proof\<close> over the history, newest first.  The other requests it makes are arguments; what
  it makes of an entry is the transaction, its proof and, up to the checkpoint, the header.\<close>

fun name_proof_loop ::
  "(string \<Rightarrow> json act) \<Rightarrow> (string \<Rightarrow> int \<Rightarrow> (string \<times> json) list act) \<Rightarrow> (int \<Rightarrow> json act) \<Rightarrow> int option \<Rightarrow> int \<Rightarrow>
     (string \<times> int \<times> (string \<times> json) list) list \<Rightarrow> int option \<Rightarrow> json list \<Rightarrow> json list act" where
  "name_proof_loop get_tx get_merkle get_header expiration cp_height [] prev_height trimmed = returnS trimmed"
| "name_proof_loop get_tx get_merkle get_header expiration cp_height ((tx_hex, height, upd) # rest) prev_height trimmed =
     (if (case (expiration, prev_height) of (Some ex, Some prev) \<Rightarrow> height < prev - ex | _ \<Rightarrow> False)
      then returnS trimmed
      else
        bindS (get_tx tx_hex) (\<lambda>tx.
        let upd = AList.delete ''tx_hash'' (AList.update ''tx'' tx upd) in
        bindS (get_merkle tx_hex height) (\<lambda>merkle.
        let upd = AList.update ''tx_merkle'' (JDict (AList.delete ''block_height'' merkle)) upd in
        bindS (if height \<le> cp_height then bindS (get_header height) (\<lambda>h. returnS (AList.update ''header'' h upd)) else returnS upd)
          (\<lambda>upd.
        let trimmed = trimmed @ [JDict upd] in
        if height \<le> cp_height then returnS trimmed
        else name_proof_loop get_tx get_merkle get_header expiration cp_height rest (Some height) trimmed))))"

text \<open>An entry of a history as \<open>scripthash_get_history\<close> gives it, with its hash and height.\<close>

definition history_entry :: "json \<Rightarrow> session_exn + string \<times> int \<times> (string \<times> json) list" where
  "history_entry j =
     (case j of
        JDict d \<Rightarrow> (case (map_of d ''tx_hash'', map_of d ''height'') of
            (Some (JStr tx_hex), Some (JInt height)) \<Rightarrow> Inr (tx_hex, height, d)
          | _ \<Rightarrow> Inl (PyError KeyError))
      | _ \<Rightarrow> Inl (PyError TypeError))"

definition name_get_value_proof ::
  "(json \<Rightarrow> json list act) \<Rightarrow> (string \<Rightarrow> json act) \<Rightarrow> (string \<Rightarrow> int \<Rightarrow> (string \<times> json) list act) \<Rightarrow> (int \<Rightarrow> json act) \<Rightarrow>
     int option \<Rightarrow> string \<Rightarrow> int \<Rightarrow> json act" where
  "name_get_value_proof get_history get_tx get_merkle get_header expiration scripthash cp_height =
     bindS (get_history (JStr scripthash)) (\<lambda>history.
     bindS (liftS (mapE history_entry (rev history))) (\<lambda>entries.
     bindS (name_proof_loop get_tx get_merkle get_header expiration cp_height entries None []) (\<lambda>trimmed_history.
       returnS (JDict [(scripthash, JList trimmed_history)]))))"

subsection \<open>Masternodes (DashElectrumX and SmartCashElectrumX)\<close>

text \<open>\<open>daemon_request\<close> has made an \<open>RPCError\<close> of a \<open>DaemonError\<close>, so the handler's own \<open>except\<close> clause never applies.\<close>

definition masternode_announce_broadcast :: "node \<Rightarrow> json \<Rightarrow> session_exn + json" where
  "masternode_announce_broadcast N signmnb = daemon_request N ''masternode_broadcast'' [JList [JStr ''relay'', signmnb]]"

text \<open>The collaterals a session is subscribed to are a list without repetitions.\<close>

definition masternode_subscribe :: "node \<Rightarrow> string \<Rightarrow> string list \<Rightarrow> (session_exn + json) \<times> string list" where
  "masternode_subscribe N collateral mns =
     (case daemon_request N ''masternode_list'' [JList [JStr ''status'', JStr collateral]] of
        Inl e \<Rightarrow> (Inl e, mns)
      | Inr JNull \<Rightarrow> (Inr JNull, mns)
      | Inr result \<Rightarrow> (bindE (dict_items result) (\<lambda>d. Inr (item_or_null d collateral)), List.insert collateral mns))"

text \<open>The manager has no attribute \<open>mn_cache\<close> (the sessions have), so the list is never given.\<close>

definition masternode_list :: "json \<Rightarrow> session_exn + json" where
  "masternode_list payees = (case payees of JList _ \<Rightarrow> Inl (PyError AttributeError) | _ \<Rightarrow> Inl bad_request)"

definition protx_diff :: "node \<Rightarrow> json \<Rightarrow> json \<Rightarrow> session_exn + json" where
  "protx_diff N base_height height =
     (case (int_value base_height, int_value height) of
        (Some b, Some h) \<Rightarrow>
          if \<not> (1 \<le> b \<and> b \<le> nd_db_height N) \<or> \<not> (b \<le> h \<and> h \<le> nd_db_height N) then Inl bad_request
          else daemon_request N ''protx'' [JList [JStr ''diff'', base_height, height]]
      | _ \<Rightarrow> Inl bad_request)"

definition protx_info :: "node \<Rightarrow> json \<Rightarrow> session_exn + json" where
  "protx_info N protx_hash =
     (case protx_hash of
        JStr _ \<Rightarrow>
          bindE (daemon_request N ''protx'' [JList [JStr ''info'', protx_hash]]) (\<lambda>res.
          bindE (dict_items res) (\<lambda>d. Inr (JDict (AList.delete ''wallet'' d))))
      | _ \<Rightarrow> Inl bad_request)"

definition smartrewards_current :: "node \<Rightarrow> session_exn + json" where
  "smartrewards_current N = daemon_request N ''smartrewards'' [JList [JStr ''current'']]"

definition smartrewards_check :: "node \<Rightarrow> json \<Rightarrow> session_exn + json" where
  "smartrewards_check N addr = daemon_request N ''smartrewards'' [JList [JStr ''check'', addr]]"

end
