(* ===== verification/SessionProtocolFacts.thy ===== *)
theory SessionProtocolFacts
  imports SessionProtocol SessionStatusFacts
begin

section \<open>What the protocol of a session promises\<close>

text \<open>
  The handshake happens at most once in a session and fixes a version both sides speak; the value proof of a name needs
  every entry of its history to be confirmed.
\<close>

subsection \<open>Actions\<close>

lemma bindS_Inr:
  "bindS a f st = (Inr r, st2) \<longleftrightarrow> (\<exists>x st1. a st = (Inr x, st1) \<and> f x st1 = (Inr r, st2))"
  by (auto simp: bindS_def split: prod.splits sum.splits)

lemma bump_cost_eq: "bump_cost c (s, g) = (Inr (), s\<lparr>charged := charged s + c\<rparr>, g)"
  by (simp add: bump_cost_def modS_def)

lemma bindS_modS [simp]: "bindS (modS f) k (s, g) = k () (f s, g)"
  by (simp add: bindS_def modS_def)

lemma bindS_getS [simp]: "bindS (getS h) k (s, g) = k (h s) (s, g)"
  by (simp add: bindS_def getS_def)

lemma bindS_bump_cost [simp]: "bindS (bump_cost c) k (s, g) = k () (s\<lparr>charged := charged s + c\<rparr>, g)"
  by (simp add: bump_cost_def)

lemma bindS_returnS [simp]: "bindS (returnS x) k (s, g) = k x (s, g)"
  by (simp add: bindS_def returnS_def)

lemma bindS_raiseS [simp]: "bindS (raiseS e) k (s, g) = (Inl e, s, g)"
  by (simp add: bindS_def raiseS_def)

lemma returnS_apply [simp]: "returnS x st = (Inr x, st)"
  by (simp add: returnS_def)

lemmas act_eqs = bump_cost_eq modS_def getS_def raiseS_def returnS_def send_notification_def

lemma raiseS_not_Inr [simp]: "raiseS e st \<noteq> (Inr r, st2)"
  by (simp add: raiseS_def)

subsection \<open>The handshake\<close>

lemma crash_old_client_seen:
  "crash_old_client N ptuple (s, g) = (r, s', g') \<Longrightarrow> sv_seen s' = sv_seen s \<and> protocol s' = protocol s"
  by (auto simp: crash_old_client_def bindS_def act_eqs Let_def split: option.splits list.splits if_splits prod.splits)

lemma negotiated_in_range:
  assumes "protocol_version req PROTOCOL_MIN PROTOCOL_MAX = (Some v, cmin)"
  shows "PROTOCOL_MIN \<le> v \<and> v \<le> PROTOCOL_MAX \<and> cmin \<le> v \<and> v \<le> snd (client_range req PROTOCOL_MIN)
    \<and> cmin = fst (client_range req PROTOCOL_MIN)"
  using assms unfolding protocol_version_range
  by (auto simp: Let_def not_less split: prod.splits if_splits)

text \<open>A name accepted by the handshake, and the state the negotiation starts from.\<close>

text \<open>The name and the choice of version, the two parts of the handshake before its answer.\<close>

lemma server_version_accepted:
  assumes "server_version N nm req (s, g) = (Inr r, s', g')"
  shows "\<exists>s1 v cmin. \<not> sv_seen s \<and> sv_seen s1
    \<and> protocol_version (json_pyval req) PROTOCOL_MIN PROTOCOL_MAX = (Some v, cmin)
    \<and> s' = s1\<lparr>protocol := v\<rparr> \<and> r = (nd_version N, version_string v)"
proof -
  obtain ptuple cmin where pv: "protocol_version (json_pyval req) PROTOCOL_MIN PROTOCOL_MAX = (ptuple, cmin)"
    by fastforce
  define settle where "settle = (case ptuple of None \<Rightarrow> raiseS (ReplyAndDisconnect BAD_REQUEST)
    | Some v \<Rightarrow> bindS (modS (\<lambda>s. s\<lparr>protocol := v\<rparr>)) (\<lambda>_. returnS (nd_version N, version_string v)))"
  have fresh: "\<not> sv_seen s"
    using assms by (auto simp: server_version_def)
  from assms have "\<exists>s1. sv_seen s1 \<and> bindS (crash_old_client N ptuple) (\<lambda>_. settle) (s1, g) = (Inr r, s', g')"
    unfolding server_version_def pv Let_def prod.case settle_def [symmetric]
    by (cases "truthy nm"; cases "case nd_drop_client N of None \<Rightarrow> False | Some dropped \<Rightarrow> dropped (nd_str N nm)")
      (simp_all add: fresh, (rule exI, rule conjI [rotated], assumption, simp)+)
  then obtain s1 where named: "sv_seen s1" and
      run: "bindS (crash_old_client N ptuple) (\<lambda>_. settle) (s1, g) = (Inr r, s', g')" by blast
  from run obtain s2 g2 where crash: "crash_old_client N ptuple (s1, g) = (Inr (), s2, g2)"
    and rest: "settle (s2, g2) = (Inr r, s', g')"
    unfolding bindS_Inr by auto
  from rest obtain v where "ptuple = Some v" "s' = s2\<lparr>protocol := v\<rparr>" "r = (nd_version N, version_string v)"
    by (cases ptuple) (auto simp: settle_def returnS_def)
  with fresh named crash_old_client_seen [OF crash] pv show ?thesis by auto
qed

lemma server_version_repeated:
  "sv_seen s \<Longrightarrow> server_version N nm req (s, g) = (Inl bad_request, s\<lparr>charged := charged s + 0.5\<rparr>, g)"
  by (simp add: server_version_def raiseS_def split del: if_split)

text \<open>C32: The handshake of a session succeeds at most once: after a \<open>server.version\<close> that was answered, every further one is
  refused and changes nothing but the cost.  The answer names the version the session then runs, which lies within the
  server's range, here 1.4 to 1.4.3, and within the client's, and \<open>scripthash.unsubscribe\<close> is served exactly from 1.4.2 on.\<close>

theorem handshake_once:
  assumes "server_version N nm req (s, g) = (Inr r, s', g')"
  shows "\<not> sv_seen s \<and> sv_seen s' \<and> r = (nd_version N, version_string (protocol s'))
    \<and> PROTOCOL_MIN \<le> protocol s' \<and> protocol s' \<le> PROTOCOL_MAX
    \<and> (case client_range (json_pyval req) PROTOCOL_MIN of (cmin, cmax) \<Rightarrow> cmin \<le> protocol s' \<and> protocol s' \<le> cmax)
    \<and> server_version N nm' req' (s', g') = (Inl bad_request, s'\<lparr>charged := charged s' + 0.5\<rparr>, g')
    \<and> (''blockchain.scripthash.unsubscribe'' \<in> set (request_methods cls (protocol s')) \<longleftrightarrow> [1, 4, 2] \<le> protocol s')"
proof -
  from server_version_accepted [OF assms] obtain s1 g1 v cmin where
    *: "\<not> sv_seen s" "sv_seen s1" "protocol_version (json_pyval req) PROTOCOL_MIN PROTOCOL_MAX = (Some v, cmin)"
      "s' = s1\<lparr>protocol := v\<rparr>" "r = (nd_version N, version_string v)" by blast
  have "''blockchain.scripthash.unsubscribe'' \<in> set (request_methods cls v) \<longleftrightarrow> [1, 4, 2] \<le> v"
    by (simp add: request_methods_def electrumx_methods_def dash_methods_def split: session_class.splits)
  with * negotiated_in_range [OF *(3)] show ?thesis
    by (auto simp: server_version_repeated split: prod.splits)
qed

text \<open>A client asking for 1.4.2 to 1.6 is given the server's newest version.\<close>

definition sample_node :: node where
  "sample_node = \<lparr>nd_daemon = (\<lambda>_ _. Inr JNull), nd_tip = [], nd_db_height = 0, nd_str = (\<lambda>j. case j of JStr t \<Rightarrow> t | _ \<Rightarrow> []),
     nd_version = ''ElectrumX 1.16.0'', nd_drop_client = None, nd_drop_unknown = False, nd_donation_address = [],
     nd_crash_client_ver = Some [3, 2, 3], nd_warn_old_client = (\<lambda>_. None), nd_fee_modes = [JNull], nd_fee_bucket = id,
     nd_sha256 = id\<rparr>"

lemma sample_handshake:
  "\<exists>s'. server_version sample_node (JStr ''electrum 4.5'') (JList [JStr ''1.4.2'', JStr ''1.6'']) (new_session, new_manager)
      = (Inr (''ElectrumX 1.16.0'', ''1.4.3''), s', new_manager) \<and> protocol s' = [1, 4, 3]"
proof -
  have pv: "protocol_version (json_pyval (JList [JStr ''1.4.2'', JStr ''1.6''])) PROTOCOL_MIN PROTOCOL_MAX = (Some [1, 4, 3], [1, 4, 2])"
    by code_simp
  have name: "version_string [1, 4, 3] = ''1.4.3''" by code_simp
  have old: "\<not> ([1, 4, 3] :: version) \<le> [1, 2]" by code_simp
  show ?thesis
    unfolding server_version_def pv Let_def prod.case
    by (simp add: new_session_def sample_node_def crash_old_client_def Let_def old name bindS_assoc)
qed

theorem handshake_once_witness:
  "\<exists>s'. server_version sample_node (JStr ''electrum 4.5'') (JList [JStr ''1.4.2'', JStr ''1.6'']) (new_session, new_manager)
      = (Inr (''ElectrumX 1.16.0'', ''1.4.3''), s', new_manager) \<and> sv_seen s'
    \<and> server_version sample_node (JStr ''x'') JNull (s', new_manager)
      = (Inl bad_request, s'\<lparr>charged := charged s' + 0.5\<rparr>, new_manager)"
proof -
  obtain s' where s': "server_version sample_node (JStr ''electrum 4.5'') (JList [JStr ''1.4.2'', JStr ''1.6'']) (new_session, new_manager)
      = (Inr (''ElectrumX 1.16.0'', ''1.4.3''), s', new_manager)" using sample_handshake by blast
  from s' handshake_once [OF s', of "JStr ''x''" JNull] show ?thesis by blast
qed

end
