(* ===== verification/SessionGroups.thy ===== *)
theory SessionGroups
  imports SessionArgs Coins
begin

section \<open>Groups of sessions (SessionGroup and SessionManager of server/session.py)\<close>

text \<open>
  Sessions from one subnet share a group, and each pays for what the others cost.  A group is an object that the table
  of groups and the tuples of the sessions point to, so groups are kept in a store under their addresses.  Sessions are
  named by their numbers; their costs, which aiorpcX keeps, are in \<open>cost_of\<close>.  Costs are real numbers, not floats.
  Python leaves open in which order a set is gone through; the lists that stand for the sets of a reference are in the
  order their members were put in.
\<close>

subsection \<open>State\<close>

record session_group =
  g_name :: string
  g_weight :: real
  g_sessions :: "nat set"
  retained_cost :: real

record session_table =
  g_store :: "nat \<Rightarrow> session_group"
  g_fresh :: nat
  session_groups :: "(string \<times> nat) list"
  sessions :: "(nat \<times> nat list) list"
  cost_of :: "nat \<Rightarrow> real"
  decay_of :: "nat \<Rightarrow> real"
  logged :: "nat set"
  log_new :: bool

definition new_session_table :: "session_group \<Rightarrow> session_table" where
  "new_session_table g = \<lparr>g_store = (\<lambda>_. g), g_fresh = 0, session_groups = [], sessions = [], cost_of = (\<lambda>_. 0),
     decay_of = (\<lambda>_. 0), logged = {}, log_new = False\<rparr>"

definition session_cost :: "session_table \<Rightarrow> session_group \<Rightarrow> real" where
  "session_cost T g = sum (cost_of T) (g_sessions g)"

definition group_cost :: "session_table \<Rightarrow> session_group \<Rightarrow> real" where
  "group_cost T g = retained_cost g + session_cost T g"

subsection \<open>Joining and leaving\<close>

text \<open>What a session says of where it comes from; the subnets of addresses are those of the \<open>ipaddress\<close> module.\<close>

datatype remote_host = IPv4 bytes | IPv6 bytes | Unknown_Host

record subnet_lib =
  private_host :: "remote_host \<Rightarrow> bool"
  supernet_name :: "remote_host \<Rightarrow> int \<Rightarrow> string"
  by_subnet_ipv4 :: int
  by_subnet_ipv6 :: int

definition ip_addr_group_name :: "subnet_lib \<Rightarrow> remote_host \<Rightarrow> string option" where
  "ip_addr_group_name L remote =
     (case remote of
        Unknown_Host \<Rightarrow> Some ''unknown_addr''
      | IPv4 _ \<Rightarrow> if private_host L remote then None else Some (supernet_name L remote (32 - by_subnet_ipv4 L))
      | IPv6 _ \<Rightarrow> if private_host L remote then None else Some (supernet_name L remote (128 - by_subnet_ipv6 L)))"

definition session_group_of :: "string option \<Rightarrow> real \<Rightarrow> session_table \<Rightarrow> nat option \<times> session_table" where
  "session_group_of gname w T =
     (case gname of
        None \<Rightarrow> (None, T)
      | Some nm \<Rightarrow>
          (case map_of (session_groups T) nm of
             Some a \<Rightarrow> (Some a, T)
           | None \<Rightarrow>
               (Some (g_fresh T),
                T\<lparr>g_store := (g_store T)(g_fresh T := \<lparr>g_name = nm, g_weight = w, g_sessions = {}, retained_cost = 0\<rparr>),
                  g_fresh := g_fresh T + 1, session_groups := AList.update nm (g_fresh T) (session_groups T)\<rparr>)))"

definition update_group :: "nat \<Rightarrow> (session_group \<Rightarrow> session_group) \<Rightarrow> session_table \<Rightarrow> session_table" where
  "update_group a f T = T\<lparr>g_store := (g_store T)(a := f (g_store T a))\<rparr>"

definition add_session :: "subnet_lib \<Rightarrow> nat \<Rightarrow> remote_host \<Rightarrow> session_table \<Rightarrow> session_table" where
  "add_session L s remote T =
     (let (g, T) = session_group_of (ip_addr_group_name L remote) 1 T;
          groups = (case g of None \<Rightarrow> [] | Some a \<Rightarrow> [a]);
          T = T\<lparr>sessions := AList.update s groups (sessions T)\<rparr>
      in fold (\<lambda>a. update_group a (\<lambda>g. g\<lparr>g_sessions := insert s (g_sessions g)\<rparr>)) groups T)"

definition leave_group :: "nat \<Rightarrow> nat \<Rightarrow> session_table \<Rightarrow> exn + session_table" where
  "leave_group s a T =
     (let T = update_group a (\<lambda>g. g\<lparr>retained_cost := retained_cost g + cost_of T s\<rparr>) T in
      if s \<in> g_sessions (g_store T a) then Inr (update_group a (\<lambda>g. g\<lparr>g_sessions := g_sessions g - {s}\<rparr>) T) else Inl KeyError)"

definition remove_session :: "nat \<Rightarrow> session_table \<Rightarrow> exn + session_table" where
  "remove_session s T =
     (case map_of (sessions T) s of
        None \<Rightarrow> Inl KeyError
      | Some groups \<Rightarrow> foldE (leave_group s) groups (T\<lparr>sessions := AList.delete s (sessions T)\<rparr>))"

definition extra_cost :: "nat \<Rightarrow> session_table \<Rightarrow> real" where
  "extra_cost s T =
     (case map_of (sessions T) s of
        None \<Rightarrow> 0
      | Some groups \<Rightarrow> sum_list (map (\<lambda>a. (group_cost T (g_store T a) - cost_of T s) * g_weight (g_store T a)) groups))"

subsection \<open>The turns of the periodic tasks\<close>

text \<open>\<open>_recalc_concurrency\<close>, every 300 seconds; the count of subscriptions of a session is an argument, and what
  aiorpcX's \<open>recalc_concurrency\<close> makes of the costs is left out.\<close>

definition refund_groups :: "real \<Rightarrow> session_table \<Rightarrow> session_table" where
  "refund_groups refund T =
     fold (\<lambda>(_, a). update_group a (\<lambda>g. g\<lparr>retained_cost := max 0 (retained_cost g - refund)\<rparr>)) (session_groups T) T"

definition dead_group :: "session_group \<Rightarrow> bool" where
  "dead_group g \<longleftrightarrow> retained_cost g = 0 \<and> g_sessions g = {}"

definition recalc_concurrency :: "real \<Rightarrow> (nat \<Rightarrow> nat) \<Rightarrow> session_table \<Rightarrow> session_table" where
  "recalc_concurrency hard_limit sub_count T =
     (let T = refund_groups (300 * hard_limit / 5000) T;
          dead_groups = filter (\<lambda>a. dead_group (g_store T a)) (map snd (session_groups T));
          T = fold (\<lambda>a T. T\<lparr>session_groups := AList.delete (g_name (g_store T a)) (session_groups T)\<rparr>) dead_groups T
      in T\<lparr>decay_of := (\<lambda>s. if s \<in> fst ` set (sessions T) then hard_limit / (10000 + 5 * real (sub_count s)) else decay_of T s)\<rparr>)"

definition stale_sessions :: "real \<Rightarrow> real \<Rightarrow> (nat \<Rightarrow> real) \<Rightarrow> session_table \<Rightarrow> nat list" where
  "stale_sessions now session_timeout last_recv T = filter (\<lambda>s. last_recv s < now - session_timeout) (map fst (sessions T))"

subsection \<open>Sessions named over the local RPC\<close>

record session_refs =
  ref_sessions :: "nat list"
  ref_groups :: "string list"
  ref_specials :: "string list"
  ref_unknown :: "string list"

definition put_in :: "'a \<Rightarrow> 'a list \<Rightarrow> 'a list" where
  "put_in x xs = (if x \<in> set xs then xs else xs @ [x])"

definition is_digits :: "string \<Rightarrow> bool" where
  "is_digits s \<longleftrightarrow> s \<noteq> [] \<and> list_all (\<lambda>c. digit_value c \<noteq> None) s"

definition refer :: "session_table \<Rightarrow> string list \<Rightarrow> string \<Rightarrow> session_refs \<Rightarrow> session_refs" where
  "refer T special_strings item R =
     (if is_digits item
      then (case py_int item of
          Some n \<Rightarrow> if 0 \<le> n \<and> nat n \<in> fst ` set (sessions T) then R\<lparr>ref_sessions := put_in (nat n) (ref_sessions R)\<rparr>
                    else R\<lparr>ref_unknown := put_in item (ref_unknown R)\<rparr>
        | None \<Rightarrow> R\<lparr>ref_unknown := put_in item (ref_unknown R)\<rparr>)
      else let lc_item = lower item in
        if lc_item \<in> set special_strings then R\<lparr>ref_specials := put_in lc_item (ref_specials R)\<rparr>
        else if map_of (session_groups T) lc_item \<noteq> None then R\<lparr>ref_groups := put_in lc_item (ref_groups R)\<rparr>
        else R\<lparr>ref_unknown := put_in item (ref_unknown R)\<rparr>)"

definition json_strings :: "json \<Rightarrow> string list option" where
  "json_strings items =
     (case items of
        JList l \<Rightarrow> if list_all (\<lambda>j. case j of JStr _ \<Rightarrow> True | _ \<Rightarrow> False) l
                   then Some (map (\<lambda>j. case j of JStr s \<Rightarrow> s | _ \<Rightarrow> []) l) else None
      | _ \<Rightarrow> None)"

definition session_references :: "json \<Rightarrow> string list \<Rightarrow> session_table \<Rightarrow> session_exn + session_refs" where
  "session_references items special_strings T =
     (case json_strings items of
        None \<Rightarrow> Inl (RPCError BAD_REQUEST)
      | Some l \<Rightarrow> Inr (fold (refer T special_strings) l
          \<lparr>ref_sessions = [], ref_groups = [], ref_specials = [], ref_unknown = []\<rparr>))"

definition group_members :: "session_table \<Rightarrow> string \<Rightarrow> nat list" where
  "group_members T nm = (case map_of (session_groups T) nm of None \<Rightarrow> [] | Some a \<Rightarrow> sorted_list_of_set (g_sessions (g_store T a)))"

text \<open>The lines of the answer, and the sessions that are closed.\<close>

definition rpc_disconnect :: "json \<Rightarrow> session_table \<Rightarrow> session_exn + string list \<times> nat list" where
  "rpc_disconnect session_ids T =
     bindE (session_references session_ids [''all''] T) (\<lambda>refs.
     let unknown = map (\<lambda>item. ''unknown: '' @ item) (ref_unknown refs) in
     if ''all'' \<in> set (ref_specials refs)
     then Inr (''disconnecting all sessions'' # unknown, map fst (sessions T))
     else Inr (map (\<lambda>s. ''disconnecting session '' @ show_nat s) (ref_sessions refs) @
               map (\<lambda>g. ''disconnecting group '' @ g) (ref_groups refs) @ unknown,
               fold (\<lambda>g. fold put_in (group_members T g)) (ref_groups refs) (ref_sessions refs)))"

definition log_line :: "string \<Rightarrow> bool \<Rightarrow> string" where
  "log_line s on = (if on then ''logging '' @ s else ''not logging '' @ s)"

definition toggle :: "nat \<Rightarrow> string list \<times> session_table \<Rightarrow> string list \<times> session_table" where
  "toggle s = (\<lambda>(result, T).
     (result @ [log_line (''session '' @ show_nat s) (s \<notin> logged T)],
      T\<lparr>logged := (if s \<in> logged T then logged T - {s} else insert s (logged T))\<rparr>))"

definition rpc_log_specials :: "string list \<Rightarrow> session_table \<Rightarrow> string list \<times> session_table" where
  "rpc_log_specials specials T =
     (let (r, T) = (if ''all'' \<in> set specials
            then ([''logging all sessions''], T\<lparr>logged := logged T \<union> fst ` set (sessions T), log_new := True\<rparr>) else ([], T));
          (r, T) = (if ''none'' \<in> set specials
            then (r @ [''logging no sessions''], T\<lparr>logged := logged T - fst ` set (sessions T), log_new := False\<rparr>) else (r, T))
      in if ''new'' \<in> set specials
         then (r @ [log_line ''new sessions'' (\<not> log_new T)], T\<lparr>log_new := \<not> log_new T\<rparr>) else (r, T))"

text \<open>The sessions gone through so far are kept beside the answer, so none is toggled twice.\<close>

definition rpc_log :: "json \<Rightarrow> session_table \<Rightarrow> session_exn + string list \<times> session_table" where
  "rpc_log session_ids T =
     bindE (session_references session_ids [''all'', ''none'', ''new''] T) (\<lambda>refs.
     let st = fold toggle (ref_sessions refs) (rpc_log_specials (ref_specials refs) T);
         (seen, result, T) = fold (\<lambda>g (seen, st).
             let rest = filter (\<lambda>s. s \<notin> set seen) (group_members T g)
             in (seen @ rest, fold toggle rest st)) (ref_groups refs) (ref_sessions refs, st)
     in Inr (result @ map (\<lambda>item. ''unknown: '' @ item) (ref_unknown refs), T))"

end
