(* ===== verification/SessionGroupFacts.thy ===== *)
theory SessionGroupFacts
  imports SessionGroups
begin

section \<open>What the groups of sessions promise\<close>

text \<open>
  The table of groups and the tuples of the sessions stay consistent: no session is left in a group that is gone from the
  table.  A session pays for the others of its group, and disconnecting keeps what the group costs.
\<close>

subsection \<open>The invariant\<close>

definition group_addresses :: "session_table \<Rightarrow> nat set" where
  "group_addresses T = snd ` set (session_groups T)"

definition in_group :: "session_table \<Rightarrow> nat \<Rightarrow> nat \<Rightarrow> bool" where
  "in_group T s a \<longleftrightarrow> (\<exists>gs. map_of (sessions T) s = Some gs \<and> a \<in> set gs)"

definition groups_ok :: "session_table \<Rightarrow> bool" where
  "groups_ok T \<longleftrightarrow> distinct (map fst (session_groups T)) \<and> distinct (map snd (session_groups T)) \<and>
     distinct (map fst (sessions T)) \<and>
     (\<forall>(nm, a) \<in> set (session_groups T). a < g_fresh T \<and> g_name (g_store T a) = nm \<and> g_weight (g_store T a) = 1 \<and>
        0 \<le> retained_cost (g_store T a) \<and> g_sessions (g_store T a) = {s. in_group T s a}) \<and>
     (\<forall>s gs. map_of (sessions T) s = Some gs \<longrightarrow> length gs \<le> 1 \<and> set gs \<subseteq> group_addresses T) \<and>
     (\<forall>s. 0 \<le> cost_of T s)"

lemma groups_okD:
  assumes "groups_ok T"
  shows "distinct (map fst (session_groups T))" "distinct (map snd (session_groups T))" "distinct (map fst (sessions T))"
    "(nm, a) \<in> set (session_groups T) \<Longrightarrow> a < g_fresh T \<and> g_name (g_store T a) = nm"
    "a \<in> group_addresses T \<Longrightarrow> a < g_fresh T \<and> g_weight (g_store T a) = 1 \<and> 0 \<le> retained_cost (g_store T a) \<and>
       g_sessions (g_store T a) = {s. in_group T s a}"
    "map_of (sessions T) s = Some gs \<Longrightarrow> gs = [] \<or> (\<exists>a \<in> group_addresses T. gs = [a])"
    "0 \<le> cost_of T s"
  using assms unfolding groups_ok_def group_addresses_def
  by (simp_all, fast, fastforce) (cases gs; force)

lemma finite_in_group: "finite {s. in_group T s a}"
  by (rule finite_subset [of _ "dom (map_of (sessions T))"]) (auto simp: in_group_def finite_dom_map_of)

subsection \<open>Joining\<close>

lemma update_absent: "map_of xs k = None \<Longrightarrow> AList.update k v xs = xs @ [(k, v)]"
  by (induction xs) (auto split: if_splits)

lemma in_group_cong: "sessions T' = sessions T \<Longrightarrow> in_group T' = in_group T"
  by (intro ext) (simp add: in_group_def)

text \<open>A fresh group, and a session put in a group of the table.\<close>

lemma new_group_ok:
  assumes "groups_ok T" "map_of (session_groups T) nm = None" "f = g_fresh T"
    and "sessions T' = sessions T" "cost_of T' = cost_of T" "g_fresh T' = f + 1"
    and "session_groups T' = session_groups T @ [(nm, f)]"
    and "g_store T' = (g_store T)(f := \<lparr>g_name = nm, g_weight = 1, g_sessions = {}, retained_cost = 0\<rparr>)"
  shows "groups_ok T'"
proof -
  note ok = groups_okD [OF assms(1)]
  have "f \<notin> group_addresses T" using ok(5) assms(3) by blast
  then have old: "\<And>n a. (n, a) \<in> set (session_groups T) \<Longrightarrow> a \<noteq> f" and outside: "\<And>s. \<not> in_group T s f"
    unfolding in_group_def group_addresses_def using ok(6) by (force, fastforce simp: group_addresses_def)
  have fresh: "f \<notin> snd ` set (session_groups T)" "nm \<notin> fst ` set (session_groups T)"
    using old assms(2) by (force, simp add: map_of_eq_None_iff)
  show ?thesis
    unfolding groups_ok_def group_addresses_def assms(4-8) in_group_cong [OF assms(4)]
    using assms(1,3) fresh old outside
    by (auto simp: groups_ok_def group_addresses_def split: prod.splits) blast+
qed

lemma join_group_ok:
  assumes "groups_ok T" "map_of (sessions T) s = None" "a \<in> group_addresses T"
    and "sessions T' = sessions T @ [(s, [a])]" "cost_of T' = cost_of T" "g_fresh T' = g_fresh T" "session_groups T' = session_groups T"
    and "g_store T' = (g_store T)(a := (g_store T a)\<lparr>g_sessions := insert s (g_sessions (g_store T a))\<rparr>)"
  shows "groups_ok T'"
proof -
  have member: "in_group T' s2 b \<longleftrightarrow> in_group T s2 b \<or> s2 = s \<and> b = a" for s2 b
    using assms(2) by (auto simp: in_group_def assms(4) map_add_def split: option.splits)
  show ?thesis
    unfolding groups_ok_def group_addresses_def assms(5-8) member
    using assms(1-3)
    by (auto simp: groups_ok_def group_addresses_def assms(4) map_add_def map_of_eq_None_iff split: option.splits)
qed

lemma session_group_of_ok:
  assumes "groups_ok T" "session_group_of gname 1 T = (g, T')"
  shows "groups_ok T'" "sessions T' = sessions T" "cost_of T' = cost_of T" "g = Some a \<Longrightarrow> a \<in> group_addresses T'"
    "g = None \<longleftrightarrow> gname = None"
proof -
  have "groups_ok T' \<and> sessions T' = sessions T \<and> cost_of T' = cost_of T \<and> (g = Some a \<longrightarrow> a \<in> group_addresses T') \<and>
    (g = None \<longleftrightarrow> gname = None)"
  proof (cases gname)
    case None
    with assms show ?thesis by (simp add: session_group_of_def)
  next
    case (Some nm)
    show ?thesis
    proof (cases "map_of (session_groups T) nm")
      case None
      then show ?thesis
        using assms Some new_group_ok [OF assms(1) None refl, of T']
        by (auto simp: session_group_of_def update_absent group_addresses_def)
    next
      case (Some b)
      then have "g = Some b" "T' = T" using assms(2) \<open>gname = Some nm\<close> by (simp_all add: session_group_of_def)
      then show ?thesis
        using assms(1) \<open>gname = Some nm\<close> map_of_SomeD [OF Some] by (force simp: group_addresses_def)
    qed
  qed
  then show "groups_ok T'" "sessions T' = sessions T" "cost_of T' = cost_of T" "g = Some a \<Longrightarrow> a \<in> group_addresses T'"
    "g = None \<longleftrightarrow> gname = None" by simp_all
qed

lemma add_session_ok:
  assumes "groups_ok T" "map_of (sessions T) s = None"
  shows "groups_ok (add_session L s remote T)" "cost_of (add_session L s remote T) = cost_of T"
    "map fst (sessions (add_session L s remote T)) = map fst (sessions T) @ [s]"
proof -
  obtain g T1 where g: "session_group_of (ip_addr_group_name L remote) 1 T = (g, T1)" by fastforce
  note grp = session_group_of_ok [OF assms(1) g]
  have absent: "map_of (sessions T1) s = None" using assms(2) grp(2) by simp
  have "groups_ok (add_session L s remote T)"
  proof (cases g)
    case None
    then have "add_session L s remote T = T1\<lparr>sessions := sessions T1 @ [(s, [])]\<rparr>"
      using g absent by (simp add: add_session_def update_absent)
    moreover have "in_group (T1\<lparr>sessions := sessions T1 @ [(s, [])]\<rparr>) = in_group T1"
      using absent by (intro ext) (auto simp: in_group_def map_add_def split: option.splits)
    ultimately show ?thesis
      using grp(1) absent by (auto simp: groups_ok_def group_addresses_def map_add_def map_of_eq_None_iff split: option.splits)
  next
    case (Some a)
    then show ?thesis
      using join_group_ok [OF grp(1) absent grp(4) [OF Some], of "add_session L s remote T"] g absent
      by (simp add: add_session_def update_absent update_group_def)
  qed
  then show "groups_ok (add_session L s remote T)" .
  show "cost_of (add_session L s remote T) = cost_of T" "map fst (sessions (add_session L s remote T)) = map fst (sessions T) @ [s]"
    using g grp(2,3) absent by (simp_all add: add_session_def update_absent update_group_def Let_def split: option.splits)
qed

subsection \<open>Leaving\<close>

lemma delete_member:
  assumes "sessions T' = AList.delete s (sessions T)"
  shows "in_group T' s2 b \<longleftrightarrow> in_group T s2 b \<and> s2 \<noteq> s"
  using assms by (auto simp: in_group_def delete_conv')

lemma leave_none_ok:
  assumes "groups_ok T" "map_of (sessions T) s = Some []"
    and "sessions T' = AList.delete s (sessions T)" "cost_of T' = cost_of T" "g_fresh T' = g_fresh T" "session_groups T' = session_groups T"
    and "g_store T' = g_store T"
  shows "groups_ok T'"
proof -
  have none: "\<not> in_group T s b" for b using assms(2) by (simp add: in_group_def)
  have d: "distinct (map fst (sessions T'))" using assms(1,3) by (simp add: groups_ok_def distinct_delete)
  have m: "map_of (sessions T') s2 = Some gs \<Longrightarrow> map_of (sessions T) s2 = Some gs" for s2 gs
    by (auto simp: assms(3) delete_conv' split: if_splits)
  show ?thesis
    unfolding groups_ok_def group_addresses_def assms(4-7) delete_member [OF assms(3)]
    using assms(1) none d m
    by (auto simp: groups_ok_def group_addresses_def split: prod.splits) blast+
qed

lemma leave_group_ok:
  assumes "groups_ok T" "map_of (sessions T) s = Some [a]"
    and "sessions T' = AList.delete s (sessions T)" "cost_of T' = cost_of T" "g_fresh T' = g_fresh T" "session_groups T' = session_groups T"
    and "g_store T' = (g_store T)(a := (g_store T a)\<lparr>retained_cost := retained_cost (g_store T a) + cost_of T s, g_sessions := g_sessions (g_store T a) - {s}\<rparr>)"
  shows "groups_ok T'"
proof -
  have only: "in_group T s b \<longleftrightarrow> b = a" for b using assms(2) by (simp add: in_group_def)
  note cost = groups_okD(7) [OF assms(1), of s]
  have d: "distinct (map fst (sessions T'))" using assms(1,3) by (simp add: groups_ok_def distinct_delete)
  have m: "map_of (sessions T') s2 = Some gs \<Longrightarrow> map_of (sessions T) s2 = Some gs" for s2 gs
    by (auto simp: assms(3) delete_conv' split: if_splits)
  show ?thesis
    unfolding groups_ok_def group_addresses_def assms(4-7) delete_member [OF assms(3)]
    using assms(1) only cost d m
    by (auto simp: groups_ok_def group_addresses_def add_nonneg_nonneg split: prod.splits) blast+
qed

lemma remove_session_grouped:
  assumes "groups_ok T" "map_of (sessions T) s = Some [a]"
  shows "remove_session s T = Inr (T\<lparr>sessions := AList.delete s (sessions T), g_store := (g_store T)(a := (g_store T a)
    \<lparr>retained_cost := retained_cost (g_store T a) + cost_of T s, g_sessions := g_sessions (g_store T a) - {s}\<rparr>)\<rparr>)"
proof -
  have "a \<in> group_addresses T" using groups_okD(6) [OF assms] by auto
  then have "s \<in> g_sessions (g_store T a)"
    using groups_okD(5) [OF assms(1)] assms(2) by (auto simp: in_group_def)
  then show ?thesis using assms(2) by (simp add: remove_session_def leave_group_def update_group_def Let_def)
qed

text \<open>What the other sessions pay is the same when the cost of a group and its weight are.\<close>

lemma extra_cost_cong:
  assumes "map_of (sessions T') s = map_of (sessions T) s" "cost_of T' s = cost_of T s"
    and "\<And>a. group_cost T' (g_store T' a) = group_cost T (g_store T a) \<and> g_weight (g_store T' a) = g_weight (g_store T a)"
  shows "extra_cost s T' = extra_cost s T"
  using assms by (simp add: extra_cost_def split: option.splits)

lemma remove_session_keeps:
  assumes "groups_ok T" "map_of (sessions T) s = Some gs"
  shows "\<exists>T'. remove_session s T = Inr T' \<and> groups_ok T' \<and> map_of (sessions T') s = None \<and> session_groups T' = session_groups T
    \<and> (\<forall>a. group_cost T' (g_store T' a) = group_cost T (g_store T a))
    \<and> (\<forall>s2. s2 \<noteq> s \<longrightarrow> map_of (sessions T') s2 = map_of (sessions T) s2 \<and> extra_cost s2 T' = extra_cost s2 T)"
proof -
  consider "gs = []" | a where "gs = [a]" "a \<in> group_addresses T" using groups_okD(6) [OF assms] by blast
  then show ?thesis
  proof cases
    case 1
    let ?T' = "T\<lparr>sessions := AList.delete s (sessions T)\<rparr>"
    have "groups_ok ?T'"
      by (rule leave_none_ok [OF assms(1) assms(2) [unfolded 1]]) simp_all
    moreover have "remove_session s T = Inr ?T'" using assms 1 by (simp add: remove_session_def)
    ultimately show ?thesis
      by (auto simp: group_cost_def session_cost_def delete_conv' intro!: extra_cost_cong)
  next
    case 2
    let ?g = "(g_store T a)\<lparr>retained_cost := retained_cost (g_store T a) + cost_of T s, g_sessions := g_sessions (g_store T a) - {s}\<rparr>"
    let ?T' = "T\<lparr>sessions := AList.delete s (sessions T), g_store := (g_store T)(a := ?g)\<rparr>"
    note run = remove_session_grouped [OF assms(1) assms(2) [unfolded 2]]
    have ok: "groups_ok ?T'" by (rule leave_group_ok [OF assms(1) assms(2) [unfolded 2]]) simp_all
    have "s \<in> {t. in_group T t a}" using assms(2) 2(1) by (simp add: in_group_def)
    then have cost: "group_cost ?T' (g_store ?T' b) = group_cost T (g_store T b)" for b
      using groups_okD(5) [OF assms(1) 2(2)] sum.remove [OF finite_in_group, of s T a "cost_of T"]
      by (simp add: group_cost_def session_cost_def)
    then have "extra_cost s2 ?T' = extra_cost s2 T" if "s2 \<noteq> s" for s2
      using that by (intro extra_cost_cong) (simp_all add: delete_conv')
    with run ok cost show ?thesis by (auto simp: delete_conv')
  qed
qed

lemma extra_cost_shared:
  assumes "groups_ok T" "map_of (sessions T) s = Some gs"
  shows "extra_cost s T = (\<Sum>a\<leftarrow>gs. retained_cost (g_store T a) + sum (cost_of T) (g_sessions (g_store T a) - {s}))"
proof -
  have "group_cost T (g_store T a) - cost_of T s = retained_cost (g_store T a) + sum (cost_of T) (g_sessions (g_store T a) - {s})"
    "g_weight (g_store T a) = 1" if "a \<in> set gs" for a
  proof -
    have a: "a \<in> group_addresses T" using that groups_okD(6) [OF assms] by auto
    have "s \<in> {t. in_group T t a}" using assms(2) that by (simp add: in_group_def)
    with a show "group_cost T (g_store T a) - cost_of T s = retained_cost (g_store T a) + sum (cost_of T) (g_sessions (g_store T a) - {s})"
      "g_weight (g_store T a) = 1"
      using groups_okD(5) [OF assms(1) a] sum.remove [OF finite_in_group, of s T a "cost_of T"]
      by (simp_all add: group_cost_def session_cost_def)
  qed
  then show ?thesis using assms(2) by (simp add: extra_cost_def cong: map_cong)
qed

subsection \<open>The periodic refund\<close>

lemma update_groups_eq:
  "distinct (map snd l) \<Longrightarrow> fold (\<lambda>(_, a). update_group a f) l T =
     T\<lparr>g_store := (\<lambda>b. if b \<in> snd ` set l then f (g_store T b) else g_store T b)\<rparr>"
  by (induction l arbitrary: T) (auto simp: update_group_def fun_eq_iff)

lemma fold_delete_keys: "fold (\<lambda>a. AList.delete (f a)) as xs = filter (\<lambda>(k, _). k \<notin> f ` set as) xs"
proof (induction as arbitrary: xs)
  case (Cons a as)
  show ?case
    by (simp only: fold.simps comp_apply Cons) (simp only: AList.delete_eq filter_filter, rule filter_cong; auto)
qed (simp add: case_prod_unfold)

lemma delete_groups_eq:
  "fold (\<lambda>a T. T\<lparr>session_groups := AList.delete (g_name (g_store T a)) (session_groups T)\<rparr>) as T =
     T\<lparr>session_groups := filter (\<lambda>(nm, _). nm \<notin> (\<lambda>a. g_name (g_store T a)) ` set as) (session_groups T)\<rparr>"
proof -
  have "fold (\<lambda>a T. T\<lparr>session_groups := AList.delete (g_name (g_store T a)) (session_groups T)\<rparr>) as T =
     T\<lparr>session_groups := fold (\<lambda>a. AList.delete (g_name (g_store T a))) as (session_groups T)\<rparr>"
    by (induction as arbitrary: T) simp_all
  then show ?thesis by (simp only: fold_delete_keys)
qed

lemma drop_groups_ok:
  assumes "groups_ok T" "session_groups T' = filter P (session_groups T)" "sessions T' = sessions T" "g_store T' = g_store T"
    and "g_fresh T' = g_fresh T" "cost_of T' = cost_of T"
    and "\<And>s gs a. map_of (sessions T) s = Some gs \<Longrightarrow> a \<in> set gs \<Longrightarrow> a \<in> snd ` set (filter P (session_groups T))"
  shows "groups_ok T'"
proof -
  note ok = groups_okD [OF assms(1)]
  have "set gs \<subseteq> group_addresses T'" if "map_of (sessions T) s = Some gs" for s gs
    using assms(7) [OF that] by (auto simp: group_addresses_def assms(2))
  moreover have "distinct (map fst (session_groups T'))" "distinct (map snd (session_groups T'))"
    using ok(1,2) by (simp_all add: assms(2) distinct_map_filter)
  moreover have "\<forall>(nm, a) \<in> set (session_groups T'). a < g_fresh T \<and> g_name (g_store T a) = nm \<and> g_weight (g_store T a) = 1 \<and>
      0 \<le> retained_cost (g_store T a) \<and> g_sessions (g_store T a) = {s. in_group T s a}"
    using assms(1) by (simp add: groups_ok_def assms(2))
  moreover have "length gs \<le> 1" if "map_of (sessions T) s = Some gs" for s gs using ok(6) [OF that] by auto
  ultimately show ?thesis
    unfolding groups_ok_def assms(3-6) in_group_cong [OF assms(3)] using ok(3,7) by blast
qed

lemma refund_groups_ok:
  assumes "groups_ok T"
  shows "groups_ok (refund_groups r T)"
proof -
  note eq = update_groups_eq [OF groups_okD(2) [OF assms], of "\<lambda>g. g\<lparr>retained_cost := max 0 (retained_cost g - r)\<rparr>" T]
  show ?thesis
    using assms unfolding refund_groups_def eq groups_ok_def
    by (auto simp: group_addresses_def in_group_def split: prod.splits)
qed

lemma recalc_concurrency_ok:
  assumes "groups_ok T"
  shows "groups_ok (recalc_concurrency h subs T)"
proof -
  define T1 where "T1 = refund_groups (300 * h / 5000) T"
  have ok: "groups_ok T1" using assms by (simp add: T1_def refund_groups_ok)
  let ?keep = "filter (\<lambda>(nm, a). \<not> dead_group (g_store T1 a)) (session_groups T1)"
  have keep: "filter (\<lambda>(nm, _). nm \<notin> (\<lambda>a. g_name (g_store T1 a)) ` set (filter (\<lambda>a. dead_group (g_store T1 a)) (map snd (session_groups T1))))
      (session_groups T1) = ?keep"
  proof (rule filter_cong [OF refl], clarify)
    fix nm a assume e: "(nm, a) \<in> set (session_groups T1)"
    have same: "b = a" if "(n2, b) \<in> set (session_groups T1)" "g_name (g_store T1 b) = nm" for n2 b
      using that e groups_okD(1,4) [OF ok] by (metis eq_key_imp_eq_value)
    show "(nm \<notin> (\<lambda>a. g_name (g_store T1 a)) ` set (filter (\<lambda>a. dead_group (g_store T1 a)) (map snd (session_groups T1)))) =
        (\<not> dead_group (g_store T1 a))"
    proof (intro iffI notI)
      assume "nm \<notin> (\<lambda>a. g_name (g_store T1 a)) ` set (filter (\<lambda>a. dead_group (g_store T1 a)) (map snd (session_groups T1)))"
        and "dead_group (g_store T1 a)"
      moreover from this(2) e have "a \<in> set (filter (\<lambda>a. dead_group (g_store T1 a)) (map snd (session_groups T1)))" by force
      moreover have "g_name (g_store T1 a) = nm" using groups_okD(4) [OF ok e] by simp
      ultimately show False by blast
    next
      assume alive: "\<not> dead_group (g_store T1 a)"
        and "nm \<in> (\<lambda>a. g_name (g_store T1 a)) ` set (filter (\<lambda>a. dead_group (g_store T1 a)) (map snd (session_groups T1)))"
      from this(2) obtain n2 b where "(n2, b) \<in> set (session_groups T1)" "g_name (g_store T1 b) = nm" "dead_group (g_store T1 b)"
        by auto
      with same [of n2 b] alive show False by simp
    qed
  qed
  have "a \<in> snd ` set ?keep" if m: "map_of (sessions T1) s = Some gs" "a \<in> set gs" for s gs a
  proof -
    have "a \<in> group_addresses T1" using groups_okD(6) [OF ok m(1)] m(2) by auto
    moreover have "s \<in> g_sessions (g_store T1 a)"
      using groups_okD(5) [OF ok \<open>a \<in> group_addresses T1\<close>] m by (auto simp: in_group_def)
    ultimately show ?thesis by (force simp: group_addresses_def dead_group_def)
  qed
  note live = this
  have "\<exists>d. recalc_concurrency h subs T = T1\<lparr>session_groups := ?keep, decay_of := d\<rparr>"
    unfolding recalc_concurrency_def T1_def [symmetric] Let_def delete_groups_eq keep by (rule exI) (rule refl)
  then obtain d where d: "recalc_concurrency h subs T = T1\<lparr>session_groups := ?keep, decay_of := d\<rparr>" ..
  show ?thesis
  proof (rule drop_groups_ok [OF ok])
    show "session_groups (recalc_concurrency h subs T) = ?keep" by (simp add: d)
    show "a \<in> snd ` set ?keep" if "map_of (sessions T1) s = Some gs" "a \<in> set gs" for s gs a by (rule live [OF that])
  qed (simp_all add: d)
qed

subsection \<open>Runs\<close>

text \<open>What happens to the table: sessions connect and disconnect, their costs change, and the periodic task runs.\<close>

inductive group_run :: "subnet_lib \<Rightarrow> session_table \<Rightarrow> bool" for L where
  started: "group_run L (new_session_table g)"
| connected: "group_run L T \<Longrightarrow> map_of (sessions T) s = None \<Longrightarrow> group_run L (add_session L s remote T)"
| disconnected: "group_run L T \<Longrightarrow> map_of (sessions T) s = Some gs \<Longrightarrow> remove_session s T = Inr T' \<Longrightarrow> group_run L T'"
| charged: "group_run L T \<Longrightarrow> 0 \<le> c \<Longrightarrow> group_run L (T\<lparr>cost_of := (cost_of T)(s := c)\<rparr>)"
| recalculated: "group_run L T \<Longrightarrow> group_run L (recalc_concurrency hard_limit subs T)"

lemma group_run_ok: "group_run L T \<Longrightarrow> groups_ok T"
proof (induction rule: group_run.induct)
  case (started g)
  show ?case by (simp add: groups_ok_def new_session_table_def)
next
  case (disconnected T s gs T')
  then show ?case using remove_session_keeps [of T s gs] by auto
next
  case (charged T c s)
  then show ?case by (simp add: groups_ok_def group_addresses_def in_group_def case_prod_unfold)
qed (simp_all add: add_session_ok recalc_concurrency_ok)

text \<open>C33: After any run of connections, disconnections, charges and periodic refunds, each session pays for what its group
  retained and what the other members cost.  Disconnecting a session the manager knows never fails, and what its group costs
  stays what it was, so every other session pays exactly what it paid before: disconnecting sheds no cost.\<close>

theorem disconnecting_keeps_costs:
  assumes "group_run L T" "map_of (sessions T) s = Some gs"
  shows "extra_cost s T = (\<Sum>a\<leftarrow>gs. retained_cost (g_store T a) + sum (cost_of T) (g_sessions (g_store T a) - {s}))
    \<and> (\<exists>T'. remove_session s T = Inr T' \<and> group_run L T' \<and> map_of (sessions T') s = None \<and> session_groups T' = session_groups T
      \<and> (\<forall>a. group_cost T' (g_store T' a) = group_cost T (g_store T a))
      \<and> (\<forall>s2. s2 \<noteq> s \<longrightarrow> map_of (sessions T') s2 = map_of (sessions T) s2 \<and> extra_cost s2 T' = extra_cost s2 T))"
  using extra_cost_shared [OF group_run_ok [OF assms(1)] assms(2)] remove_session_keeps [OF group_run_ok [OF assms(1)] assms(2)]
    disconnected [OF assms] by blast

text \<open>Two clients of one subnet: the second pays for the first also after the first is gone.\<close>

definition sample_subnets :: subnet_lib where
  "sample_subnets = \<lparr>private_host = (\<lambda>_. False), supernet_name = (\<lambda>_ _. ''1.2.3.0/24''), by_subnet_ipv4 = 24, by_subnet_ipv6 = 48\<rparr>"

definition two_clients :: session_table where
  "two_clients = (let T = new_session_table \<lparr>g_name = [], g_weight = 1, g_sessions = {}, retained_cost = 0\<rparr>;
     T = add_session sample_subnets 2 (IPv4 [1, 2, 3, 5]) (add_session sample_subnets 1 (IPv4 [1, 2, 3, 4]) T)
   in T\<lparr>cost_of := (cost_of T)(1 := 40)\<rparr>)"

theorem disconnecting_keeps_costs_witness:
  "\<exists>T'. remove_session 1 two_clients = Inr T' \<and> group_run sample_subnets T' \<and> extra_cost 2 two_clients = 40 \<and> extra_cost 2 T' = 40"
proof -
  let ?T = "new_session_table \<lparr>g_name = [], g_weight = 1, g_sessions = {}, retained_cost = 0\<rparr>"
  have run: "group_run sample_subnets two_clients"
    unfolding two_clients_def Let_def
    by (intro charged connected started) (simp_all add: new_session_table_def add_session_def session_group_of_def ip_addr_group_name_def
        sample_subnets_def update_group_def)
  have members: "map_of (sessions two_clients) 1 = Some [0]" "map_of (sessions two_clients) 2 = Some [0]"
      "g_sessions (g_store two_clients 0) = {1, 2}" "retained_cost (g_store two_clients 0) = 0"
      "cost_of two_clients 1 = 40" "cost_of two_clients 2 = 0"
    by (simp_all add: two_clients_def new_session_table_def add_session_def session_group_of_def ip_addr_group_name_def
        sample_subnets_def update_group_def Let_def insert_commute)
  have "{1, 2} - {2 :: nat} = {1}" by auto
  with disconnecting_keeps_costs [OF run members(2)] members have "extra_cost 2 two_clients = 40" by simp
  moreover from disconnecting_keeps_costs [OF run members(1)] obtain T' where
    "remove_session 1 two_clients = Inr T'" "group_run sample_subnets T'" "extra_cost 2 T' = extra_cost 2 two_clients" by auto
  ultimately show ?thesis by auto
qed

subsection \<open>Logging sessions\<close>

lemma fold_toggle:
  "distinct ss \<Longrightarrow> logged (snd (fold toggle ss (r, T))) = (logged T - set ss) \<union> (set ss - logged T)"
proof (induction ss arbitrary: r T)
  case (Cons s ss)
  obtain r' T' where t: "toggle s (r, T) = (r', T')" "logged T' = (if s \<in> logged T then logged T - {s} else insert s (logged T))"
    by (auto simp: toggle_def)
  from Cons t show ?case by auto
qed simp

lemma fold_toggle_groups:
  assumes "distinct seen" "\<And>g. distinct (M g)"
  shows "case fold (\<lambda>g (seen, st). let rest = filter (\<lambda>s. s \<notin> set seen) (M g) in (seen @ rest, fold toggle rest st)) gs
      (seen, fold toggle seen (r, T)) of (all, r', T') \<Rightarrow>
    distinct all \<and> set all = set seen \<union> (\<Union>g \<in> set gs. set (M g)) \<and> (r', T') = fold toggle all (r, T)"
  using assms(1)
proof (induction gs arbitrary: seen)
  case (Cons g gs)
  let ?rest = "filter (\<lambda>s. s \<notin> set seen) (M g)"
  have "distinct (seen @ ?rest)" using Cons.prems assms(2) by auto
  from Cons.IH [OF this] show ?case by (auto simp: Let_def split: prod.splits)
qed auto

lemma put_in_set [simp]: "set (put_in x xs) = insert x (set xs)" "distinct xs \<Longrightarrow> distinct (put_in x xs)"
  by (auto simp: put_in_def)

lemma refer_distinct: "distinct (ref_sessions R) \<Longrightarrow> distinct (ref_sessions (fold (refer T specials) l R))"
  by (induction l arbitrary: R) (auto simp: refer_def Let_def split: option.splits)

text \<open>Without special words, a request to log toggles every session it names, alone or with a group, exactly once.\<close>

lemma rpc_log_toggles_once:
  assumes "session_references ids [''all'', ''none'', ''new''] T = Inr refs" "ref_specials refs = []"
  shows "\<exists>lines T'. rpc_log ids T = Inr (lines, T') \<and>
    (let named = set (ref_sessions refs) \<union> (\<Union>g \<in> set (ref_groups refs). set (group_members T g))
     in logged T' = (logged T - named) \<union> (named - logged T))"
proof -
  have d: "distinct (ref_sessions refs)"
    using assms(1) by (auto simp: session_references_def intro!: refer_distinct split: option.splits)
  have m: "distinct (group_members T g)" for g by (simp add: group_members_def split: option.splits)
  have none: "rpc_log_specials [] T = ([], T)" by (simp add: rpc_log_specials_def)
  obtain every r' T' where run: "fold (\<lambda>g (seen, st). let rest = filter (\<lambda>s. s \<notin> set seen) (group_members T g) in (seen @ rest, fold toggle rest st))
      (ref_groups refs) (ref_sessions refs, fold toggle (ref_sessions refs) ([], T)) = (every, r', T')"
    by (rule prod_cases3)
  with fold_toggle_groups [OF d, of "group_members T" "ref_groups refs" "[]" T] m have
    *: "distinct every" "set every = set (ref_sessions refs) \<union> (\<Union>g \<in> set (ref_groups refs). set (group_members T g))"
      "(r', T') = fold toggle every ([], T)" by simp_all
  have "logged T' = (logged T - set every) \<union> (set every - logged T)"
    using fold_toggle [OF *(1), of "[]" T] *(3) by (metis snd_conv)
  then show ?thesis using run *(2) assms none by (simp add: rpc_log_def Let_def)
qed

end
