(* ===== verification/EnvSettings.thy ===== *)
theory EnvSettings
  imports Peers
begin

section \<open>Settings (lib/env_base.py and server/env.py)\<close>

text \<open>
  The settings read from the environment of the process, which is a map from names to values, and the services parsed
  from them.  \<open>Service.from_string\<close> and its defaults belong to aiorpcX and are a parameter, as is the limit on open files.
\<close>

subsection \<open>Reading variables (EnvBase)\<close>

datatype env_error = EnvError | ServiceError | EnvRaised exn

type_synonym environ = "string \<rightharpoonup> string"

definition env_default :: "environ \<Rightarrow> string \<Rightarrow> string option \<Rightarrow> string option" where
  "env_default V envvar dflt = (case V envvar of None \<Rightarrow> dflt | Some v \<Rightarrow> Some v)"

definition env_string :: "environ \<Rightarrow> string \<Rightarrow> string \<Rightarrow> string" where
  "env_string V envvar dflt = (case V envvar of None \<Rightarrow> dflt | Some v \<Rightarrow> v)"

definition env_boolean :: "environ \<Rightarrow> string \<Rightarrow> bool \<Rightarrow> bool" where
  "env_boolean V envvar dflt = (strip (env_string V envvar (if dflt then ''Yes'' else [])) \<noteq> [])"

definition env_required :: "environ \<Rightarrow> string \<Rightarrow> env_error + string" where
  "env_required V envvar = (case V envvar of None \<Rightarrow> Inl EnvError | Some v \<Rightarrow> Inr v)"

text \<open>The default of an integer may be \<open>None\<close>.\<close>

definition env_integer_or :: "environ \<Rightarrow> string \<Rightarrow> int option \<Rightarrow> env_error + int option" where
  "env_integer_or V envvar dflt =
     (case V envvar of None \<Rightarrow> Inr dflt
      | Some v \<Rightarrow> (case py_int v of None \<Rightarrow> Inl EnvError | Some i \<Rightarrow> Inr (Some i)))"

definition env_integer :: "environ \<Rightarrow> string \<Rightarrow> int \<Rightarrow> env_error + int" where
  "env_integer V envvar dflt =
     (case V envvar of None \<Rightarrow> Inr dflt | Some v \<Rightarrow> (case py_int v of None \<Rightarrow> Inl EnvError | Some i \<Rightarrow> Inr i))"

definition env_custom :: "environ \<Rightarrow> string \<Rightarrow> 'a option \<Rightarrow> (string \<Rightarrow> exn + 'a) \<Rightarrow> env_error + 'a option" where
  "env_custom V envvar dflt parse =
     (case V envvar of None \<Rightarrow> Inr dflt
      | Some v \<Rightarrow> (case parse v of Inl e \<Rightarrow> Inl EnvError | Inr x \<Rightarrow> Inr (Some x)))"

definition env_obsolete :: "environ \<Rightarrow> string list \<Rightarrow> env_error + unit" where
  "env_obsolete V envvars =
     (if filter (\<lambda>e. V e \<noteq> None \<and> V e \<noteq> Some []) envvars \<noteq> [] then Inl EnvError else Inr ())"

text \<open>\<open>True\<close> asks for the policy of uvloop.\<close>

definition event_loop_policy :: "environ \<Rightarrow> env_error + bool" where
  "event_loop_policy V =
     (case V ''EVENT_LOOP_POLICY'' of None \<Rightarrow> Inr False
      | Some policy \<Rightarrow> if policy = ''uvloop'' then Inr True else Inl EnvError)"

subsection \<open>Limits (Env)\<close>

text \<open>The soft limit on open files is \<open>None\<close> where Python has no \<open>resource\<close> module.\<close>

definition sane_max_sessions :: "environ \<Rightarrow> int option \<Rightarrow> env_error + int" where
  "sane_max_sessions V nofile =
     (case env_integer V ''MAX_SESSIONS'' 1000 of
        Inl e \<Rightarrow> Inl e
      | Inr env_value \<Rightarrow>
          Inr (case nofile of None \<Rightarrow> 512 | Some nofile_limit \<Rightarrow> max 0 (min env_value (nofile_limit - 350))))"

definition check_and_fix_cost_limits :: "int \<Rightarrow> int \<Rightarrow> env_error + int" where
  "check_and_fix_cost_limits soft hard =
     (if hard < soft then Inl EnvError
      else if hard = soft \<and> soft > 0 then Inr (soft + 1)
      else Inr hard)"

definition peer_discovery_enum :: "environ \<Rightarrow> discovery" where
  "peer_discovery_enum V =
     (let pd = lower (strip (env_string V ''PEER_DISCOVERY'' ''on'')) in
      if pd \<in> {''off'', []} then PD_OFF else if pd = ''self'' then PD_SELF else PD_ON)"

subsection \<open>Services\<close>

datatype service_host = NamedHost string | AddressHost string

record env_service =
  es_protocol :: string
  es_host :: service_host
  es_port :: int

datatype service_part = ServiceHost string | ServicePort int

text \<open>An address is given by its string.\<close>

record service_lib =
  service_from_string :: "(string \<Rightarrow> service_part list) \<Rightarrow> string \<Rightarrow> exn + env_service"
  addr_multicast :: "string \<Rightarrow> bool"
  addr_unspecified :: "string \<Rightarrow> bool"
  addr_private :: "string \<Rightarrow> bool"

definition SSL_PROTOCOLS :: "string list" where "SSL_PROTOCOLS = [''ssl'', ''wss'']"
definition KNOWN_PROTOCOLS :: "string list" where "KNOWN_PROTOCOLS = [''ssl'', ''tcp'', ''ws'', ''wss'', ''rpc'']"

fun parse_services_loop :: "service_lib \<Rightarrow> (string \<Rightarrow> service_part list) \<Rightarrow> string list \<Rightarrow> env_error + env_service list" where
  "parse_services_loop L defaults [] = Inr []"
| "parse_services_loop L defaults (service_str # rest) =
     (if service_str = [] then parse_services_loop L defaults rest
      else case service_from_string L defaults service_str of
        Inl e \<Rightarrow> Inl ServiceError
      | Inr sv \<Rightarrow>
          if es_protocol sv \<notin> set KNOWN_PROTOCOLS then Inl ServiceError
          else (case parse_services_loop L defaults rest of Inl e \<Rightarrow> Inl e | Inr svs \<Rightarrow> Inr (sv # svs)))"

definition service_address :: "env_service \<Rightarrow> service_host \<times> int" where
  "service_address sv = (es_host sv, es_port sv)"

definition parse_services :: "service_lib \<Rightarrow> string \<Rightarrow> (string \<Rightarrow> service_part list) \<Rightarrow> env_error + env_service list" where
  "parse_services L services_str defaults =
     (case parse_services_loop L defaults (split_on (CHR '','') services_str) of
        Inl e \<Rightarrow> Inl e
      | Inr result \<Rightarrow> if distinct (map service_address result) then Inr result else Inl ServiceError)"

definition default_services :: "string \<Rightarrow> service_part list" where
  "default_services protocol =
     (if protocol = ''rpc'' then [ServiceHost ''localhost'', ServicePort 8000]
      else if protocol \<in> set KNOWN_PROTOCOLS then [ServiceHost ''all_interfaces''] else [])"

definition host_string :: "service_host \<Rightarrow> string" where
  "host_string h = (case h of NamedHost s \<Rightarrow> s | AddressHost s \<Rightarrow> s)"

definition services_to_run :: "service_lib \<Rightarrow> environ \<Rightarrow> env_error + env_service list" where
  "services_to_run L V =
     (case parse_services L (env_string V ''SERVICES'' []) default_services of
        Inl e \<Rightarrow> Inl e
      | Inr services \<Rightarrow>
          if (\<exists>sv \<in> set services. suffix ''.onion'' (host_string (es_host sv))) then Inl ServiceError else Inr services)"

definition reportable :: "service_lib \<Rightarrow> bool \<Rightarrow> env_service \<Rightarrow> bool" where
  "reportable L announce sv \<longleftrightarrow>
     es_protocol sv \<noteq> ''rpc'' \<and>
     (case es_host sv of
        AddressHost a \<Rightarrow> \<not> (addr_multicast L a \<or> addr_unspecified L a \<or> addr_private L a \<and> announce)
      | NamedHost h \<Rightarrow> lower h \<noteq> ''localhost'')"

definition services_to_report :: "service_lib \<Rightarrow> environ \<Rightarrow> bool \<Rightarrow> env_error + env_service list" where
  "services_to_report L V announce =
     (case parse_services L (env_string V ''REPORT_SERVICES'' []) (\<lambda>_. []) of
        Inl e \<Rightarrow> Inl e
      | Inr services \<Rightarrow> if list_all (reportable L announce) services then Inr services else Inl ServiceError)"

subsection \<open>What the settings promise\<close>

lemma parse_services_loop_known:
  "parse_services_loop L defaults strs = Inr svs \<Longrightarrow> sv \<in> set svs \<Longrightarrow> es_protocol sv \<in> set KNOWN_PROTOCOLS"
  by (induction strs arbitrary: svs) (auto split: if_splits sum.splits)

lemma parse_services_checked:
  assumes "parse_services L str defaults = Inr svs"
  shows "distinct (map service_address svs)" "sv \<in> set svs \<Longrightarrow> es_protocol sv \<in> set KNOWN_PROTOCOLS"
  using assms parse_services_loop_known [of L defaults _ svs sv] by (auto simp: parse_services_def split: sum.splits if_splits)

text \<open>The services that run listen on different addresses, none of them of Tor; those reported are none of ours alone.\<close>

lemma services_checked:
  "services_to_run L V = Inr svs \<Longrightarrow> distinct (map service_address svs) \<and>
     (\<forall>sv \<in> set svs. es_protocol sv \<in> set KNOWN_PROTOCOLS \<and> \<not> suffix ''.onion'' (host_string (es_host sv)))"
  "services_to_report L V announce = Inr svs \<Longrightarrow> distinct (map service_address svs) \<and>
     (\<forall>sv \<in> set svs. es_protocol sv \<in> {''ssl'', ''tcp'', ''ws'', ''wss''} \<and> reportable L announce sv)"
  using parse_services_checked [of L _ _ svs]
  by (auto simp: services_to_run_def services_to_report_def list_all_iff reportable_def KNOWN_PROTOCOLS_def split: sum.splits if_splits)

text \<open>After the check the hard limit is above the soft one, unless neither is positive.\<close>

lemma cost_limits_checked:
  "check_and_fix_cost_limits soft hard = Inr h \<Longrightarrow> soft \<le> h \<and> (0 < soft \<longrightarrow> soft < h)"
  by (auto simp: check_and_fix_cost_limits_def split: if_splits)

lemma max_sessions_leaves_files:
  "sane_max_sessions V (Some nofile) = Inr n \<Longrightarrow> 0 \<le> n \<and> (n = 0 \<or> n + 350 \<le> nofile)"
  by (auto simp: sane_max_sessions_def split: sum.splits)

end
