(* ===== verification/Spec2Isabelle.thy ===== *)
theory Spec2Isabelle
  imports Main LogicalFiles MerkleCaching Hashes Versions Scripts Transactions HistoryDB ChainState UtxoCache
    BlockSpec Reorg Prefetch SpecialTx LruCache Notify MempoolQueries MempoolAccept FeeHistogram MempoolRefresh
    TxVariantFacts Compaction NameScripts CoinHeaders DaemonVariants PeersFacts SessionCacheFacts SessionFunds
    SessionHeaderFacts SessionProtocolFacts SessionGroupFacts EnvSettings
begin

text \<open>
  \<^bold>\<open>A verification library for ElectrumX.\<close>

  ElectrumX (src/runtime/src/electrumx) is a server that indexes a block chain for light clients.  It asks a daemon for
  blocks and mempool transactions, keeps an index of transaction histories and unspent outputs in a key-value store
  and flat files, and answers clients over a JSON protocol with histories, balances, headers and Merkle proofs.  This
  library models its own logic in definitions that follow the Python code function by function, and proves what makes
  them correct.

  \<^bold>\<open>How the program hangs together.\<close>  The prefetcher (server/block_processor.py) gets blocks from the daemon client
  (server/daemon.py), which talks to one of several servers and moves on when one fails.  The block processor parses
  them with the classes of the coin (lib/coins.py, lib/tx.py), spends and adds outputs in a cache over the database
  (server/db.py), adds to the history (server/history.py), and flushes both in batches; when the chains diverge it
  backs blocks up with the undo information it kept.  The mempool (server/mempool.py) follows the daemon's pool.  The
  notifications (server/controller.py) wait until both know of a height and then tell the session manager
  (server/session.py), which drops what it cached and tells the clients that subscribed.  The sessions answer from the
  database, the mempool, the daemon and the manager's caches; the peer manager (server/peers.py) keeps the other servers
  it tells clients of.

  \<^bold>\<open>The theories and the code they model.\<close>
  \<^item> Prelude: errors as the left of a sum, the monad \<open>bindE\<close> over them, association lists, the lemmas all share.
  \<^item> PyUtil, Versions, LogicalFiles (lib/util.py): chunks, byte strings and integers, struct packers, varints, decimal
    strings and protocol versions; files split over many.
  \<^item> MerkleTree, MerkleCaching (lib/merkle.py): trees, branches and proofs; the cache of one level.
  \<^item> Hashes (lib/hash.py), OpCodes, Scripts (lib/enum.py, lib/script.py): hexadecimal and Base58, opcodes, scripts.
  \<^item> Transactions, TxVariants, TxVariantFacts (lib/tx.py), DashTx, AxeTx, SpecialTx (lib/tx_dash.py, lib/tx_axe.py), on
    the reader monad and the pairs of writer and reader of Codecs: every deserialiser of every coin.
  \<^item> KVStore (server/storage.py): the interface of a store as the locale \<open>storage\<close> over a record of its operations, with
    an interpretation on red-black trees.  Bisect and PyLiteral: \<open>bisect\<close> and \<open>repr\<close> with \<open>ast.literal_eval\<close>, which the
    database uses.
  \<^item> HistoryDB, Compaction (server/history.py, cli/electrumx_compact_history.py): the history rows, flushing, backing
    up, recovery after a crash, compaction.
  \<^item> ChainDB, ChainFiles, ChainState (server/db.py): state, flat files, flushing, undo information, readers.
  \<^item> UtxoCache, BlockProc, BlockSpec, Reorg, Prefetch (server/block_processor.py): the cache of outputs, blocks forwards
    and backwards in all variants, the range of a reorganisation, the prefetcher.
  \<^item> Mempool, MempoolSync, MempoolAccept, MempoolQueries, MempoolRefresh, FeeHistogram (server/mempool.py).
  \<^item> LruCache (lib/lrucache.py), Notify (server/controller.py), DaemonClient, DaemonVariants (server/daemon.py).
  \<^item> Coins, CoinTable1 to CoinTable4, CoinTable, CoinHeaders, NameScripts (lib/coins.py): the methods of a coin, the
    attributes of every coin class, headers and blocks of those that override them, name operations.
  \<^item> Peer, PeerFacts (lib/peer.py), Peers, PeersFacts (server/peers.py): one remote server as its features describe it;
    the set of them: importing, adding, verifying, dropping and reporting.
  \<^item> SessionArgs, SessionCaches, SessionStatus, SessionFunds, SessionHeaders, SessionProtocol, SessionGroups and their
    Facts (server/session.py): arguments of requests, the caches of the manager under interleaved requests and
    reorganisations, histories, subscriptions and notifications, balances and unspent outputs, headers and their
    checkpoint proofs, the handshake and the handlers that ask the daemon, and the groups that share costs.
  \<^item> EnvSettings (server/env.py, lib/env_base.py): reading the settings and the services.

  \<^bold>\<open>How code becomes definitions.\<close>  A class is a record of its attributes, an operation a function from the record to a
  result and a new record.  An exception is \<open>Inl\<close> of a constructor of \<open>exn\<close> named like its class, so every raise and
  early return is a branch.  Bytes are lists of 8-bit words; integers that Python leaves unbounded are \<open>int\<close>, and struct
  packers check their range and raise.  A Python dictionary is an association list where its order or its updates in
  place matter and a map otherwise; a list that is indexed with the negative indices of Python goes through \<open>py_nth\<close> or
  \<open>py_slice\<close>.  Sessions are a state monad with errors (\<open>act\<close>, \<open>bindS\<close>) over the session and the manager.  Costs, which are
  floats in the code, are real numbers, so no rounding is modelled; the wall time the database stores is kept as the text
  of the float, and its sums are parameters of \<open>chain_env\<close>.

  \<^bold>\<open>What is assumed of other code\<close> is a parameter of the definitions: hash functions; the engine of the store, with the
  laws of the locale \<open>storage\<close>; the answers of the daemon's servers over HTTP; the \<open>ipaddress\<close> module (\<open>net_lib\<close>,
  \<open>subnet_lib\<close>); aiorpcX's services; the order in which a set is gone through and what \<open>random\<close> picks (\<open>order\<close>,
  \<open>shuffle\<close>, assumed to permute or to keep the elements).  The records \<open>chain_env\<close>, \<open>backend\<close>, \<open>ledger\<close>, \<open>header_db\<close> and
  \<open>node\<close> hold what one component reads of the others; \<open>reads_from\<close> and \<open>reads_headers\<close> state that such a record is what
  the component modelled elsewhere gives, and the properties that span components assume just that.

  \<^bold>\<open>What the lemmas show.\<close>  Data structures refine simpler ones: the cache, tables and deletions of outputs a map from
  outpoints (UtxoCache, BlockSpec), the flat files a chain (ChainFiles), the history rows lists of numbers (HistoryDB),
  the LRU cache a list by recency, the Merkle cache the uncached tree, split files one file.  Readers invert writers.
  Backing up inverts advancing; recovery undoes a flush that was not committed; compaction changes no history and ends.
  The mempool's index is exact after every refresh however it ends, everything it can resolve is accepted, and what
  the rounds of the refresh loop change is reported.  What clients are served is right in spite of the caches:
  proofs are of the block the database has, histories are those of the database, statuses are current, and balances agree
  with the lists of outputs.  The handshake happens at most once; the peers kept and reported are well typed, public and
  spread over networks; groups of sessions stay consistent and disconnecting forgets no cost.

  \<^bold>\<open>Termination, fuel and interleaving.\<close>  Loops are structural or have a measure, three apart, which Python bounds by
  nothing and which are \<open>partial_function (option)\<close>: the passes of the compaction script, for which \<open>compaction_terminates\<close>
  shows that they end; the retries of the daemon client, for which \<open>daemon_send_returns\<close> shows that they do once a server
  answers and no other call moves the index of the server in use; and the truncation of AuxPoW headers, which ends when every header is longer than nothing
  (\<open>truncate_auxpow_chunk\<close>).  The loop of the Merkle cache waiting for its initialisation is \<open>None\<close> as long as it waits.
  Python's tasks change only at an \<open>await\<close>.  Where tasks meet, the model has one step for what runs between two of them and
  any order of the steps: requests, answers and reorganisations in SessionCaches (\<open>serving_step\<close>), touches in Notify,
  tasks of a refresh in Mempool, polls and hand-outs in Prefetch (\<open>pf_run\<close>), queries that wait for the database while
  histories change and clients are notified in SessionStatusFacts (\<open>hist_step\<close>).  Elsewhere an operation runs undisturbed.
  For what writes to the database the locks of the code make it so.  It is an assumption for calls to the daemon, which
  share the index of the server in use, for the tasks of a mempool refresh that was aborted, which may outlive it, for a
  request or notification of a session that awaits more than one answer, and for the verification of peers, of which
  several may run at once: the model has one at a time.

  \<^bold>\<open>Not modelled.\<close>  Sockets, servers, TLS, the transport that pads messages (server/transport.py) and the start and stop of
  tasks: they are input and output.  The main loops of the block processor and of the peer manager, which wait for events and
  call the operations modelled.  The command lines, logging and text output (cli, lib/text.py, lib/server_base.py), and the
  tables and memory statistics of the local RPC.  The binding to RocksDB's iterators.  Proof-of-work hashes of third-party
  modules.  DashElectrumX.masternode_list beyond its first use of an attribute the manager lacks, where it raises.
  lib/zcash, which is the test framework of another project, used for one transaction hash.
\<close>

end
